(* ===== verification/Prelude.thy ===== *)
theory Prelude
  imports Main
begin

text \<open>
  Shared vocabulary of the development: identifiers and instants, the exceptions the
  services raise (\<^verbatim>\<open>app/exceptions/errors.py\<close> and the Python and SQLAlchemy exceptions the
  code relies on), rows of a relational table as lists with the handful of operations the
  services perform on them, and ASCII string helpers.

  \<^item> a \<open>uuid\<close> is a natural number; a fresh \<^verbatim>\<open>uuid.uuid4()\<close> is an argument of the
    operation that draws it;
  \<^item> an \<open>instant\<close> is a UTC time in microseconds, the resolution of Python's
    \<^verbatim>\<open>datetime\<close>; the clock reading of an operation is its argument \<open>now\<close>;
  \<^item> a string is a list of ASCII characters.
\<close>

named_theorems table_simps "rewriting of reads and writes of table rows"
named_theorems op_defs "the definitions of the service operations"
named_theorems guard_splits "case distinctions the guards of the operations introduce"

section \<open>Identifiers and time\<close>

type_synonym uuid = nat
type_synonym instant = int

definition timedelta_seconds :: "int \<Rightarrow> int" where
  "timedelta_seconds n = n * 1000000"

definition timedelta_minutes :: "int \<Rightarrow> int" where
  "timedelta_minutes n = timedelta_seconds (n * 60)"

definition timedelta_days :: "int \<Rightarrow> int" where
  "timedelta_days n = timedelta_seconds (n * 86400)"

text \<open>The attribute \<^verbatim>\<open>days\<close> of a \<^verbatim>\<open>timedelta\<close> rounds towards minus infinity.\<close>

definition days_of :: "int \<Rightarrow> int" where
  "days_of d = d div timedelta_days 1"

text \<open>A Python \<^verbatim>\<open>datetime\<close>: without a time zone it is read as UTC.\<close>

datatype datetime = Naive instant | Aware instant

fun utc_instant :: "datetime \<Rightarrow> instant" where
  "utc_instant (Aware t) = t"
| "utc_instant (Naive t) = t"

section \<open>Exceptions\<close>

text \<open>
  The application errors carry the code that the API reports; \<open>AppError\<close> also carries its
  HTTP status. The last constructors are exceptions of Python and SQLAlchemy that the
  modelled code lets escape or catches.
\<close>

datatype exn =
    AuthenticationError string
  | ForbiddenError string
  | NotFoundError string
  | ConflictError string
  | AppError string nat
  | ValueError string
  | TypeError
  | AssertionError
  | IntegrityError
  | DatabaseError

fun status_code :: "exn \<Rightarrow> nat" where
  "status_code (AuthenticationError c) = 401"
| "status_code (ForbiddenError c) = 403"
| "status_code (NotFoundError c) = 404"
| "status_code (ConflictError c) = 409"
| "status_code (AppError c n) = n"
| "status_code (ValueError c) = 500"
| "status_code TypeError = 500"
| "status_code AssertionError = 500"
| "status_code IntegrityError = 500"
| "status_code DatabaseError = 500"

text \<open>
  An operation on a state \<open>'s\<close> returns either the exception it raises or its result,
  together with the state that the database holds afterwards: changes that the operation made
  but had not committed when it raised are rolled back with its session.
\<close>

type_synonym ('s, 'a) outcome = "(exn + 'a) \<times> 's"

abbreviation raise :: "exn \<Rightarrow> 's \<Rightarrow> ('s, 'a) outcome" where
  "raise e s \<equiv> (Inl e, s)"

abbreviation return :: "'a \<Rightarrow> 's \<Rightarrow> ('s, 'a) outcome" where
  "return x s \<equiv> (Inr x, s)"

abbreviation succeeds :: "('s, 'a) outcome \<Rightarrow> bool" where
  "succeeds r \<equiv> (\<exists>x. fst r = Inr x)"

section \<open>Rows of a table\<close>

text \<open>
  A table is a list of rows. \<open>get_row\<close> is a lookup by primary key, \<open>put_row\<close> the write back of
  a row that was loaded, \<open>find\<close> of the library a \<^verbatim>\<open>select ... where\<close> that takes the first
  match.
\<close>

definition get_row :: "('r \<Rightarrow> uuid) \<Rightarrow> uuid \<Rightarrow> 'r list \<Rightarrow> 'r option" where
  "get_row key i rows = find (\<lambda>r. key r = i) rows"

definition put_row :: "('r \<Rightarrow> uuid) \<Rightarrow> 'r \<Rightarrow> 'r list \<Rightarrow> 'r list" where
  "put_row key r rows = map (\<lambda>x. if key x = key r then r else x) rows"

definition keys_distinct :: "('r \<Rightarrow> uuid) \<Rightarrow> 'r list \<Rightarrow> bool" where
  "keys_distinct key rows = distinct (map key rows)"

text \<open>A unique index over a column expression, restricted to the rows it covers.\<close>

definition unique_on :: "('r \<Rightarrow> bool) \<Rightarrow> ('r \<Rightarrow> 'k) \<Rightarrow> 'r list \<Rightarrow> bool" where
  "unique_on p f rows = distinct (map f (filter p rows))"

section \<open>Strings\<close>

definition char_lower :: "char \<Rightarrow> char" where
  "char_lower c =
     (if 65 \<le> (of_char c :: nat) \<and> (of_char c :: nat) \<le> 90
      then char_of ((of_char c :: nat) + 32) else c)"

definition casefold :: "string \<Rightarrow> string" where
  "casefold s = map char_lower s"

definition is_space :: "char \<Rightarrow> bool" where
  "is_space c = ((of_char c :: nat) \<in> {9, 10, 11, 12, 13, 28, 29, 30, 31, 32, 133, 160})"

definition strip :: "string \<Rightarrow> string" where
  "strip s = rev (dropWhile is_space (rev (dropWhile is_space s)))"

fun starts_with :: "string \<Rightarrow> string \<Rightarrow> bool" where
  "starts_with [] s = True"
| "starts_with (p # ps) [] = False"
| "starts_with (p # ps) (c # s) = (p = c \<and> starts_with ps s)"

definition ends_with :: "string \<Rightarrow> string \<Rightarrow> bool" where
  "ends_with p s = starts_with (rev p) (rev s)"

fun contains :: "string \<Rightarrow> string \<Rightarrow> bool" where
  "contains p [] = (p = [])"
| "contains p (c # s) = (starts_with p (c # s) \<or> contains p s)"

section \<open>Lemmas on rows\<close>

lemma get_row_mem [table_simps]: "get_row key i rows = Some r \<Longrightarrow> r \<in> set rows \<and> key r = i"
  by (auto simp: get_row_def find_Some_iff)

lemma get_row_key: "get_row key i rows = Some r \<Longrightarrow> key r = i"
  by (simp add: get_row_mem)

lemma get_row_in: "get_row key i rows = Some r \<Longrightarrow> r \<in> set rows"
  by (simp add: get_row_mem)

lemma get_row_None: "get_row key i rows = None \<longleftrightarrow> i \<notin> key ` set rows"
  by (auto simp: get_row_def find_None_iff)

lemma find_mem: "find p rows = Some r \<Longrightarrow> r \<in> set rows \<and> p r"
  by (auto simp: find_Some_iff)

lemma find_cong_set: "(\<And>x. x \<in> set xs \<Longrightarrow> p x = q x) \<Longrightarrow> find p xs = find q xs"
  by (induction xs) auto

lemma get_row_distinct:
  assumes "keys_distinct key rows" and "r \<in> set rows"
  shows "get_row key (key r) rows = Some r"
  using assms by (induction rows) (auto simp: get_row_def keys_distinct_def)

lemma find_eq_get_row:
  assumes "keys_distinct key rows" and "find p rows = Some r"
  shows "get_row key (key r) rows = Some r"
  using assms find_mem get_row_distinct by fastforce

lemma map_key_put_row [simp]: "map key (put_row key r rows) = map key rows"
  by (induction rows) (auto simp: put_row_def)

lemma keys_distinct_put_row [simp]: "keys_distinct key (put_row key r rows) = keys_distinct key rows"
  by (simp add: keys_distinct_def)

lemma set_put_row: "x \<in> set (put_row key r rows) \<Longrightarrow> x = r \<or> x \<in> set rows \<and> key x \<noteq> key r"
  by (auto simp: put_row_def)

lemma in_put_row_other: "x \<in> set rows \<Longrightarrow> key x \<noteq> key r \<Longrightarrow> x \<in> set (put_row key r rows)"
  by (force simp: put_row_def)

lemma in_put_row_same: "x \<in> set rows \<Longrightarrow> key x = key r \<Longrightarrow> r \<in> set (put_row key r rows)"
  by (force simp: put_row_def)

lemma length_put_row [simp]: "length (put_row key r rows) = length rows"
  by (simp add: put_row_def)

lemma get_put_row_same:
  "get_row key (key r) rows \<noteq> None \<Longrightarrow> get_row key (key r) (put_row key r rows) = Some r"
  by (induction rows) (auto simp: get_row_def put_row_def)

lemma get_put_row_other:
  "i \<noteq> key r \<Longrightarrow> get_row key i (put_row key r rows) = get_row key i rows"
  by (induction rows) (auto simp: get_row_def put_row_def)

lemma get_put_row:
  "get_row key i (put_row key r rows) =
     (if i = key r then (if get_row key i rows = None then None else Some r) else get_row key i rows)"
  by (induction rows) (auto simp: get_row_def put_row_def)

lemma put_row_absent: "key r \<notin> key ` set rows \<Longrightarrow> put_row key r rows = rows"
  by (induction rows) (auto simp: put_row_def)

lemma all_put_row:
  "(\<And>x. x \<in> set rows \<Longrightarrow> P x) \<Longrightarrow> P r \<Longrightarrow> x \<in> set (put_row key r rows) \<Longrightarrow> P x"
  using set_put_row by metis

lemma keys_distinct_snoc:
  "keys_distinct key (rows @ [r]) \<longleftrightarrow> keys_distinct key rows \<and> key r \<notin> key ` set rows"
  by (auto simp: keys_distinct_def)

lemma unique_on_Nil [simp]: "unique_on p f []"
  by (simp add: unique_on_def)

lemma unique_on_Cons [simp]:
  "unique_on p f (x # xs) \<longleftrightarrow>
     unique_on p f xs \<and> (p x \<longrightarrow> (\<forall>y \<in> set xs. p y \<longrightarrow> f y \<noteq> f x))"
  by (auto simp: unique_on_def image_iff eq_commute)

lemma unique_on_snoc:
  "unique_on p f (rows @ [r]) \<longleftrightarrow>
     unique_on p f rows \<and> (p r \<longrightarrow> (\<forall>x \<in> set rows. p x \<longrightarrow> f x \<noteq> f r))"
  by (induction rows) auto

lemma keys_distinct_Cons [simp]:
  "keys_distinct key (x # xs) \<longleftrightarrow> keys_distinct key xs \<and> (\<forall>y \<in> set xs. key y \<noteq> key x)"
  by (auto simp: keys_distinct_def image_iff eq_commute)

lemma row_Nil [simp]: "put_row key r [] = []" "get_row key i [] = None" "keys_distinct key []"
  by (simp_all add: put_row_def get_row_def keys_distinct_def)

lemma put_row_Cons [simp]:
  "put_row key r (x # xs) = (if key x = key r then r else x) # put_row key r xs"
  by (simp add: put_row_def)

lemma get_row_Cons [simp]:
  "get_row key i (x # xs) = (if key x = i then Some x else get_row key i xs)"
  by (simp add: get_row_def)

lemma put_row_id: "keys_distinct key rows \<Longrightarrow> r \<in> set rows \<Longrightarrow> put_row key r rows = rows"
proof (induction rows)
  case Nil
  then show ?case by simp
next
  case (Cons x xs)
  then show ?case by (cases "r = x") (auto intro!: put_row_absent)
qed

lemma unique_onD:
  "unique_on p f rows \<Longrightarrow> x \<in> set rows \<Longrightarrow> y \<in> set rows \<Longrightarrow> p x \<Longrightarrow> p y \<Longrightarrow> f x = f y \<Longrightarrow> x = y"
  by (induction rows) auto

text \<open>
  Writing back a row keeps a unique index when the indexed value is unchanged and the row
  does not newly enter the index.
\<close>

lemma unique_on_put_row:
  assumes "keys_distinct key rows" and "get_row key (key r) rows = Some r0"
    and "f r = f r0" and "p r \<Longrightarrow> p r0" and "unique_on p f rows"
  shows "unique_on p f (put_row key r rows)"
  using assms
proof (induction rows)
  case Nil
  then show ?case by (simp add: get_row_def)
next
  case (Cons x xs)
  show ?case
  proof (cases "key x = key r")
    case True
    with Cons.prems have "x = r0" and "put_row key r xs = xs"
      by (auto intro!: put_row_absent)
    with True Cons.prems show ?thesis by auto
  next
    case False
    with Cons.prems have r0: "get_row key (key r) xs = Some r0" by simp
    with Cons.prems have IH: "unique_on p f (put_row key r xs)"
      by (intro Cons.IH) auto
    have "f y \<noteq> f x" if "p x" and "y \<in> set (put_row key r xs)" and "p y" for y
    proof (cases "y = r")
      case True
      with that Cons.prems get_row_in [OF r0] show ?thesis by simp
    next
      case False
      with that Cons.prems set_put_row [OF that(2)] show ?thesis by simp
    qed
    with IH False show ?thesis by simp
  qed
qed

text \<open>
  Writing back a row that enters the index keeps it when no other row of the index has its
  value.
\<close>

lemma unique_on_put_row_fresh:
  assumes "keys_distinct key rows" and "unique_on p f rows"
    and "\<And>x. x \<in> set rows \<Longrightarrow> key x \<noteq> key r \<Longrightarrow> p x \<Longrightarrow> f x \<noteq> f r"
  shows "unique_on p f (put_row key r rows)"
  using assms
proof (induction rows)
  case Nil
  then show ?case by (simp add: put_row_def)
next
  case (Cons x xs)
  have IH: "unique_on p f (put_row key r xs)"
    using Cons.prems by (intro Cons.IH) auto
  show ?case
  proof (cases "key x = key r")
    case True
    with Cons.prems have other: "\<forall>y \<in> set xs. key y \<noteq> key r" by simp
    then have "put_row key r xs = xs" by (intro put_row_absent) auto
    with True Cons.prems other show ?thesis by simp
  next
    case False
    have "f y \<noteq> f x" if "p x" and "y \<in> set (put_row key r xs)" and "p y" for y
    proof (cases "y = r")
      case True
      with that False Cons.prems(3) [of x] show ?thesis by simp
    next
      case False
      with that Cons.prems set_put_row [OF that(2)] show ?thesis by simp
    qed
    with IH False show ?thesis by simp
  qed
qed

text \<open>How many rows satisfy a predicate after a write back.\<close>

lemma count_put_row:
  assumes "keys_distinct key rows" and "get_row key (key r) rows = Some r0"
  shows "length (filter p (put_row key r rows)) + (if p r0 then 1 else 0) =
         length (filter p rows) + (if p r then 1 else 0)"
  using assms
proof (induction rows)
  case Nil
  then show ?case by (simp add: get_row_def)
next
  case (Cons x xs)
  show ?case
  proof (cases "key x = key r")
    case True
    with Cons.prems have "x = r0" and "put_row key r xs = xs"
      by (auto intro!: put_row_absent)
    with True show ?thesis by simp
  next
    case False
    with Cons show ?thesis by (simp split: if_splits)
  qed
qed

text \<open>Rows that a write back does not concern keep their order.\<close>

lemma filter_put_row:
  assumes "keys_distinct key rows" and "get_row key (key r) rows = Some r0" and "\<not> p r" and "\<not> p r0"
  shows "filter p (put_row key r rows) = filter p rows"
  using assms
proof (induction rows)
  case Nil
  then show ?case by simp
next
  case (Cons x xs)
  show ?case
  proof (cases "key x = key r")
    case True
    with Cons.prems have "x = r0" and "put_row key r xs = xs"
      by (auto intro!: put_row_absent)
    with True Cons.prems show ?thesis by simp
  next
    case False
    with Cons show ?thesis by simp
  qed
qed

section \<open>The interface of a table\<close>

text \<open>
  What every service relies on of the persistence layer: a row that is read belongs to the
  table and has the requested key, a row written back is the one read next under its key,
  and no other row changes. The facts below are proved once here and used through the
  interpretation of each table.
\<close>

locale row_store =
  fixes key :: "'r \<Rightarrow> uuid"
    and get :: "uuid \<Rightarrow> 'r list \<Rightarrow> 'r option"
    and put :: "'r \<Rightarrow> 'r list \<Rightarrow> 'r list"
  assumes get_mem: "get i rows = Some r \<Longrightarrow> r \<in> set rows \<and> key r = i"
    and get_put: "get i (put r rows) =
      (if i = key r then (if get i rows = None then None else Some r) else get i rows)"
    and put_mem: "x \<in> set (put r rows) \<Longrightarrow> x = r \<or> x \<in> set rows \<and> key x \<noteq> key r"
    and put_keys: "map key (put r rows) = map key rows"
begin

lemma put_invariant:
  assumes "\<forall>x \<in> set rows. P x" and "P r"
  shows "\<forall>x \<in> set (put r rows). P x"
  using assms put_mem by blast

lemma put_distinct: "distinct (map key (put r rows)) = distinct (map key rows)"
  by (simp add: put_keys)

lemma read_after_write:
  assumes "get i rows = Some r0" and "key r = i"
  shows "get i (put r rows) = Some r"
  using assms by (simp add: get_put)

lemma write_frame:
  assumes "get i rows = Some r0" and "key r = i" and "j \<noteq> i"
  shows "get j (put r rows) = get j rows"
  using assms by (simp add: get_put)

lemma last_write_wins:
  assumes "key r = key r'"
  shows "get i (put r' (put r rows)) = get i (put r' rows)"
  using assms by (simp add: get_put)

lemma same_keys: "key ` set (put r rows) = key ` set rows"
  using put_keys by (metis set_map)

end

lemma row_store_rows: "row_store key (get_row key) (put_row key)"
proof
  fix i rows r
  assume "get_row key i rows = Some r"
  then show "r \<in> set rows \<and> key r = i" by (rule get_row_mem)
qed (simp_all add: get_put_row set_put_row)

section \<open>Reachability\<close>

text \<open>
  The components whose state evolves by guarded operations share one argument: a property
  that holds initially and that every step keeps holds in every reachable state.
\<close>

locale transition_system =
  fixes step :: "'s \<Rightarrow> 's \<Rightarrow> bool"
    and inv :: "'s \<Rightarrow> bool"
  assumes inv_step: "step s t \<Longrightarrow> inv s \<Longrightarrow> inv t"
begin

lemma inv_reachable: "step\<^sup>*\<^sup>* s t \<Longrightarrow> inv s \<Longrightarrow> inv t"
  by (induction rule: rtranclp_induct) (auto intro: inv_step)

end

section \<open>Lemmas on strings\<close>

lemma starts_with_iff: "starts_with p s \<longleftrightarrow> (\<exists>t. s = p @ t)"
  by (induction p s rule: starts_with.induct) auto

lemma contains_iff: "contains p s \<longleftrightarrow> (\<exists>a b. s = a @ p @ b)"
proof (induction s)
  case Nil
  then show ?case by simp
next
  case (Cons c s)
  have "(\<exists>a b. c # s = a @ p @ b) \<longleftrightarrow> (\<exists>b. c # s = p @ b) \<or> (\<exists>a b. s = a @ p @ b)"
    by (metis append_Cons append_eq_Cons_conv)
  with Cons show ?case by (simp add: starts_with_iff)
qed

lemma contains_append: "contains p s \<Longrightarrow> contains p (s @ t)"
  by (force simp: contains_iff)

lemma contains_take: "contains p (take n s) \<Longrightarrow> contains p s"
  by (metis append_take_drop_id contains_append)

lemma casefold_take: "casefold (take n s) = take n (casefold s)"
  by (simp add: casefold_def take_map)

lemma length_casefold [simp]: "length (casefold s) = length s"
  by (simp add: casefold_def)

end
