(* ===== verification/Enums.thy ===== *)
theory Enums
  imports Prelude
begin

text \<open>
  The enumerations of \<^verbatim>\<open>app/models/enums.py\<close>, one datatype per \<^verbatim>\<open>StrEnum\<close> class with the
  class's members as constructors (written \<open>FindingSeverity.CRITICAL\<close> as in the source), and
  the stored string of each member. A column of an enumeration type stores that string
  (\<^verbatim>\<open>values_callable=enum_values\<close>), so the injectivity lemmas at the end say that a stored value
  determines the member it was written from.
\<close>

datatype UserStatus =
    ACTIVE
  | INVITED
  | SUSPENDED
  | DISABLED

primrec UserStatus_value :: "UserStatus \<Rightarrow> string" where
    "UserStatus_value UserStatus.ACTIVE = ''active''"
  | "UserStatus_value UserStatus.INVITED = ''invited''"
  | "UserStatus_value UserStatus.SUSPENDED = ''suspended''"
  | "UserStatus_value UserStatus.DISABLED = ''disabled''"

datatype OrganizationStatus =
    ACTIVE
  | SUSPENDED
  | DISABLED

primrec OrganizationStatus_value :: "OrganizationStatus \<Rightarrow> string" where
    "OrganizationStatus_value OrganizationStatus.ACTIVE = ''active''"
  | "OrganizationStatus_value OrganizationStatus.SUSPENDED = ''suspended''"
  | "OrganizationStatus_value OrganizationStatus.DISABLED = ''disabled''"

datatype OrganizationRole =
    OWNER
  | ADMIN
  | SECURITY_ANALYST
  | CLOUD_ENGINEER
  | AUDITOR
  | VIEWER

primrec OrganizationRole_value :: "OrganizationRole \<Rightarrow> string" where
    "OrganizationRole_value OrganizationRole.OWNER = ''owner''"
  | "OrganizationRole_value OrganizationRole.ADMIN = ''admin''"
  | "OrganizationRole_value OrganizationRole.SECURITY_ANALYST = ''security_analyst''"
  | "OrganizationRole_value OrganizationRole.CLOUD_ENGINEER = ''cloud_engineer''"
  | "OrganizationRole_value OrganizationRole.AUDITOR = ''auditor''"
  | "OrganizationRole_value OrganizationRole.VIEWER = ''viewer''"

datatype MembershipStatus =
    ACTIVE
  | SUSPENDED
  | REMOVED

primrec MembershipStatus_value :: "MembershipStatus \<Rightarrow> string" where
    "MembershipStatus_value MembershipStatus.ACTIVE = ''active''"
  | "MembershipStatus_value MembershipStatus.SUSPENDED = ''suspended''"
  | "MembershipStatus_value MembershipStatus.REMOVED = ''removed''"

datatype InvitationStatus =
    PENDING
  | ACCEPTED
  | CANCELLED
  | EXPIRED

primrec InvitationStatus_value :: "InvitationStatus \<Rightarrow> string" where
    "InvitationStatus_value InvitationStatus.PENDING = ''pending''"
  | "InvitationStatus_value InvitationStatus.ACCEPTED = ''accepted''"
  | "InvitationStatus_value InvitationStatus.CANCELLED = ''cancelled''"
  | "InvitationStatus_value InvitationStatus.EXPIRED = ''expired''"

datatype AuditResult =
    SUCCEEDED
  | FAILED
  | DENIED

primrec AuditResult_value :: "AuditResult \<Rightarrow> string" where
    "AuditResult_value AuditResult.SUCCEEDED = ''succeeded''"
  | "AuditResult_value AuditResult.FAILED = ''failed''"
  | "AuditResult_value AuditResult.DENIED = ''denied''"

datatype AWSAccountStatus =
    PENDING
  | CONNECTED
  | FAILED
  | DISCONNECTED

primrec AWSAccountStatus_value :: "AWSAccountStatus \<Rightarrow> string" where
    "AWSAccountStatus_value AWSAccountStatus.PENDING = ''pending''"
  | "AWSAccountStatus_value AWSAccountStatus.CONNECTED = ''connected''"
  | "AWSAccountStatus_value AWSAccountStatus.FAILED = ''failed''"
  | "AWSAccountStatus_value AWSAccountStatus.DISCONNECTED = ''disconnected''"

datatype AssetType =
    EC2_INSTANCE
  | EC2_SECURITY_GROUP
  | EBS_VOLUME
  | S3_BUCKET
  | IAM_USER
  | IAM_ROLE
  | IAM_GROUP
  | IAM_POLICY
  | RDS_INSTANCE
  | CLOUDWATCH_ALARM
  | CLOUDWATCH_LOG_GROUP
  | CLOUDTRAIL_TRAIL

primrec AssetType_value :: "AssetType \<Rightarrow> string" where
    "AssetType_value AssetType.EC2_INSTANCE = ''ec2_instance''"
  | "AssetType_value AssetType.EC2_SECURITY_GROUP = ''ec2_security_group''"
  | "AssetType_value AssetType.EBS_VOLUME = ''ebs_volume''"
  | "AssetType_value AssetType.S3_BUCKET = ''s3_bucket''"
  | "AssetType_value AssetType.IAM_USER = ''iam_user''"
  | "AssetType_value AssetType.IAM_ROLE = ''iam_role''"
  | "AssetType_value AssetType.IAM_GROUP = ''iam_group''"
  | "AssetType_value AssetType.IAM_POLICY = ''iam_policy''"
  | "AssetType_value AssetType.RDS_INSTANCE = ''rds_instance''"
  | "AssetType_value AssetType.CLOUDWATCH_ALARM = ''cloudwatch_alarm''"
  | "AssetType_value AssetType.CLOUDWATCH_LOG_GROUP = ''cloudwatch_log_group''"
  | "AssetType_value AssetType.CLOUDTRAIL_TRAIL = ''cloudtrail_trail''"

datatype DiscoveryJobStatus =
    PENDING
  | RUNNING
  | COMPLETED
  | PARTIALLY_COMPLETED
  | FAILED

primrec DiscoveryJobStatus_value :: "DiscoveryJobStatus \<Rightarrow> string" where
    "DiscoveryJobStatus_value DiscoveryJobStatus.PENDING = ''pending''"
  | "DiscoveryJobStatus_value DiscoveryJobStatus.RUNNING = ''running''"
  | "DiscoveryJobStatus_value DiscoveryJobStatus.COMPLETED = ''completed''"
  | "DiscoveryJobStatus_value DiscoveryJobStatus.PARTIALLY_COMPLETED = ''partially_completed''"
  | "DiscoveryJobStatus_value DiscoveryJobStatus.FAILED = ''failed''"

datatype RuleResultStatus =
    PASSED
  | FAILED
  | NOT_APPLICABLE
  | ERROR

primrec RuleResultStatus_value :: "RuleResultStatus \<Rightarrow> string" where
    "RuleResultStatus_value RuleResultStatus.PASSED = ''passed''"
  | "RuleResultStatus_value RuleResultStatus.FAILED = ''failed''"
  | "RuleResultStatus_value RuleResultStatus.NOT_APPLICABLE = ''not_applicable''"
  | "RuleResultStatus_value RuleResultStatus.ERROR = ''error''"

datatype FindingStatus =
    OPEN
  | RESOLVED
  | SUPPRESSED

primrec FindingStatus_value :: "FindingStatus \<Rightarrow> string" where
    "FindingStatus_value FindingStatus.OPEN = ''open''"
  | "FindingStatus_value FindingStatus.RESOLVED = ''resolved''"
  | "FindingStatus_value FindingStatus.SUPPRESSED = ''suppressed''"

datatype EvaluationJobStatus =
    PENDING
  | RUNNING
  | COMPLETED
  | PARTIALLY_COMPLETED
  | FAILED

primrec EvaluationJobStatus_value :: "EvaluationJobStatus \<Rightarrow> string" where
    "EvaluationJobStatus_value EvaluationJobStatus.PENDING = ''pending''"
  | "EvaluationJobStatus_value EvaluationJobStatus.RUNNING = ''running''"
  | "EvaluationJobStatus_value EvaluationJobStatus.COMPLETED = ''completed''"
  | "EvaluationJobStatus_value EvaluationJobStatus.PARTIALLY_COMPLETED = ''partially_completed''"
  | "EvaluationJobStatus_value EvaluationJobStatus.FAILED = ''failed''"

datatype FindingSeverity =
    CRITICAL
  | HIGH
  | MEDIUM
  | LOW
  | INFORMATIONAL

primrec FindingSeverity_value :: "FindingSeverity \<Rightarrow> string" where
    "FindingSeverity_value FindingSeverity.CRITICAL = ''critical''"
  | "FindingSeverity_value FindingSeverity.HIGH = ''high''"
  | "FindingSeverity_value FindingSeverity.MEDIUM = ''medium''"
  | "FindingSeverity_value FindingSeverity.LOW = ''low''"
  | "FindingSeverity_value FindingSeverity.INFORMATIONAL = ''informational''"

datatype ComplianceAssessmentStatus =
    PENDING
  | RUNNING
  | COMPLETED
  | FAILED

primrec ComplianceAssessmentStatus_value :: "ComplianceAssessmentStatus \<Rightarrow> string" where
    "ComplianceAssessmentStatus_value ComplianceAssessmentStatus.PENDING = ''pending''"
  | "ComplianceAssessmentStatus_value ComplianceAssessmentStatus.RUNNING = ''running''"
  | "ComplianceAssessmentStatus_value ComplianceAssessmentStatus.COMPLETED = ''completed''"
  | "ComplianceAssessmentStatus_value ComplianceAssessmentStatus.FAILED = ''failed''"

datatype ComplianceControlStatus =
    PASS
  | FAIL
  | NOT_ASSESSED
  | ERROR

primrec ComplianceControlStatus_value :: "ComplianceControlStatus \<Rightarrow> string" where
    "ComplianceControlStatus_value ComplianceControlStatus.PASS = ''pass''"
  | "ComplianceControlStatus_value ComplianceControlStatus.FAIL = ''fail''"
  | "ComplianceControlStatus_value ComplianceControlStatus.NOT_ASSESSED = ''not_assessed''"
  | "ComplianceControlStatus_value ComplianceControlStatus.ERROR = ''error''"

datatype RiskPriority =
    CRITICAL
  | HIGH
  | MEDIUM
  | LOW

primrec RiskPriority_value :: "RiskPriority \<Rightarrow> string" where
    "RiskPriority_value RiskPriority.CRITICAL = ''critical''"
  | "RiskPriority_value RiskPriority.HIGH = ''high''"
  | "RiskPriority_value RiskPriority.MEDIUM = ''medium''"
  | "RiskPriority_value RiskPriority.LOW = ''low''"

datatype RiskAssessmentStatus =
    PENDING
  | RUNNING
  | COMPLETED
  | FAILED

primrec RiskAssessmentStatus_value :: "RiskAssessmentStatus \<Rightarrow> string" where
    "RiskAssessmentStatus_value RiskAssessmentStatus.PENDING = ''pending''"
  | "RiskAssessmentStatus_value RiskAssessmentStatus.RUNNING = ''running''"
  | "RiskAssessmentStatus_value RiskAssessmentStatus.COMPLETED = ''completed''"
  | "RiskAssessmentStatus_value RiskAssessmentStatus.FAILED = ''failed''"

datatype AITaskType =
    EXPLAIN_FINDING
  | EXPLAIN_BUSINESS_IMPACT
  | SUGGEST_REMEDIATION
  | EXECUTIVE_SUMMARY
  | JIRA_DESCRIPTION
  | EMAIL_SUMMARY

primrec AITaskType_value :: "AITaskType \<Rightarrow> string" where
    "AITaskType_value AITaskType.EXPLAIN_FINDING = ''explain_finding''"
  | "AITaskType_value AITaskType.EXPLAIN_BUSINESS_IMPACT = ''explain_business_impact''"
  | "AITaskType_value AITaskType.SUGGEST_REMEDIATION = ''suggest_remediation''"
  | "AITaskType_value AITaskType.EXECUTIVE_SUMMARY = ''executive_summary''"
  | "AITaskType_value AITaskType.JIRA_DESCRIPTION = ''jira_description''"
  | "AITaskType_value AITaskType.EMAIL_SUMMARY = ''email_summary''"

datatype AIRequestStatus =
    PENDING
  | RUNNING
  | COMPLETED
  | FAILED
  | TIMED_OUT
  | PROVIDER_DISABLED
  | INVALID_RESPONSE
  | RATE_LIMITED

primrec AIRequestStatus_value :: "AIRequestStatus \<Rightarrow> string" where
    "AIRequestStatus_value AIRequestStatus.PENDING = ''pending''"
  | "AIRequestStatus_value AIRequestStatus.RUNNING = ''running''"
  | "AIRequestStatus_value AIRequestStatus.COMPLETED = ''completed''"
  | "AIRequestStatus_value AIRequestStatus.FAILED = ''failed''"
  | "AIRequestStatus_value AIRequestStatus.TIMED_OUT = ''timed_out''"
  | "AIRequestStatus_value AIRequestStatus.PROVIDER_DISABLED = ''provider_disabled''"
  | "AIRequestStatus_value AIRequestStatus.INVALID_RESPONSE = ''invalid_response''"
  | "AIRequestStatus_value AIRequestStatus.RATE_LIMITED = ''rate_limited''"

datatype AISourceType =
    FINDING
  | RISK_ASSESSMENT
  | COMPLIANCE_ASSESSMENT

primrec AISourceType_value :: "AISourceType \<Rightarrow> string" where
    "AISourceType_value AISourceType.FINDING = ''finding''"
  | "AISourceType_value AISourceType.RISK_ASSESSMENT = ''risk_assessment''"
  | "AISourceType_value AISourceType.COMPLIANCE_ASSESSMENT = ''compliance_assessment''"

datatype RiskCriticality =
    CRITICAL
  | HIGH
  | MEDIUM
  | LOW
  | UNKNOWN

primrec RiskCriticality_value :: "RiskCriticality \<Rightarrow> string" where
    "RiskCriticality_value RiskCriticality.CRITICAL = ''critical''"
  | "RiskCriticality_value RiskCriticality.HIGH = ''high''"
  | "RiskCriticality_value RiskCriticality.MEDIUM = ''medium''"
  | "RiskCriticality_value RiskCriticality.LOW = ''low''"
  | "RiskCriticality_value RiskCriticality.UNKNOWN = ''unknown''"

datatype RiskEnvironment =
    PRODUCTION
  | STAGING
  | DEVELOPMENT
  | SANDBOX
  | UNKNOWN

primrec RiskEnvironment_value :: "RiskEnvironment \<Rightarrow> string" where
    "RiskEnvironment_value RiskEnvironment.PRODUCTION = ''production''"
  | "RiskEnvironment_value RiskEnvironment.STAGING = ''staging''"
  | "RiskEnvironment_value RiskEnvironment.DEVELOPMENT = ''development''"
  | "RiskEnvironment_value RiskEnvironment.SANDBOX = ''sandbox''"
  | "RiskEnvironment_value RiskEnvironment.UNKNOWN = ''unknown''"

datatype BusinessImpact =
    CRITICAL
  | HIGH
  | MEDIUM
  | LOW
  | UNKNOWN

primrec BusinessImpact_value :: "BusinessImpact \<Rightarrow> string" where
    "BusinessImpact_value BusinessImpact.CRITICAL = ''critical''"
  | "BusinessImpact_value BusinessImpact.HIGH = ''high''"
  | "BusinessImpact_value BusinessImpact.MEDIUM = ''medium''"
  | "BusinessImpact_value BusinessImpact.LOW = ''low''"
  | "BusinessImpact_value BusinessImpact.UNKNOWN = ''unknown''"

datatype DataSensitivity =
    RESTRICTED
  | CONFIDENTIAL
  | INTERNAL
  | PUBLIC
  | UNKNOWN

primrec DataSensitivity_value :: "DataSensitivity \<Rightarrow> string" where
    "DataSensitivity_value DataSensitivity.RESTRICTED = ''restricted''"
  | "DataSensitivity_value DataSensitivity.CONFIDENTIAL = ''confidential''"
  | "DataSensitivity_value DataSensitivity.INTERNAL = ''internal''"
  | "DataSensitivity_value DataSensitivity.PUBLIC = ''public''"
  | "DataSensitivity_value DataSensitivity.UNKNOWN = ''unknown''"

datatype RuleService =
    EC2
  | S3
  | IAM
  | RDS
  | CLOUDWATCH
  | CLOUDWATCH_LOGS
  | CLOUDTRAIL

primrec RuleService_value :: "RuleService \<Rightarrow> string" where
    "RuleService_value RuleService.EC2 = ''ec2''"
  | "RuleService_value RuleService.S3 = ''s3''"
  | "RuleService_value RuleService.IAM = ''iam''"
  | "RuleService_value RuleService.RDS = ''rds''"
  | "RuleService_value RuleService.CLOUDWATCH = ''cloudwatch''"
  | "RuleService_value RuleService.CLOUDWATCH_LOGS = ''cloudwatch_logs''"
  | "RuleService_value RuleService.CLOUDTRAIL = ''cloudtrail''"

datatype RuleCategory =
    COVERAGE
  | CREDENTIAL_HYGIENE
  | DATA_PROTECTION
  | EXPOSURE
  | HARDENING
  | IDENTITY
  | INTEGRITY
  | LEAST_PRIVILEGE
  | LOGGING
  | MONITORING
  | NETWORK
  | PATCHING
  | RESILIENCE
  | TRANSPORT

primrec RuleCategory_value :: "RuleCategory \<Rightarrow> string" where
    "RuleCategory_value RuleCategory.COVERAGE = ''coverage''"
  | "RuleCategory_value RuleCategory.CREDENTIAL_HYGIENE = ''credential_hygiene''"
  | "RuleCategory_value RuleCategory.DATA_PROTECTION = ''data_protection''"
  | "RuleCategory_value RuleCategory.EXPOSURE = ''exposure''"
  | "RuleCategory_value RuleCategory.HARDENING = ''hardening''"
  | "RuleCategory_value RuleCategory.IDENTITY = ''identity''"
  | "RuleCategory_value RuleCategory.INTEGRITY = ''integrity''"
  | "RuleCategory_value RuleCategory.LEAST_PRIVILEGE = ''least_privilege''"
  | "RuleCategory_value RuleCategory.LOGGING = ''logging''"
  | "RuleCategory_value RuleCategory.MONITORING = ''monitoring''"
  | "RuleCategory_value RuleCategory.NETWORK = ''network''"
  | "RuleCategory_value RuleCategory.PATCHING = ''patching''"
  | "RuleCategory_value RuleCategory.RESILIENCE = ''resilience''"
  | "RuleCategory_value RuleCategory.TRANSPORT = ''transport''"

datatype NotificationChannel =
    EMAIL
  | SLACK
  | TEAMS

primrec NotificationChannel_value :: "NotificationChannel \<Rightarrow> string" where
    "NotificationChannel_value NotificationChannel.EMAIL = ''email''"
  | "NotificationChannel_value NotificationChannel.SLACK = ''slack''"
  | "NotificationChannel_value NotificationChannel.TEAMS = ''teams''"

datatype NotificationStatus =
    PENDING_APPROVAL
  | APPROVED
  | DELIVERED
  | FAILED

primrec NotificationStatus_value :: "NotificationStatus \<Rightarrow> string" where
    "NotificationStatus_value NotificationStatus.PENDING_APPROVAL = ''pending_approval''"
  | "NotificationStatus_value NotificationStatus.APPROVED = ''approved''"
  | "NotificationStatus_value NotificationStatus.DELIVERED = ''delivered''"
  | "NotificationStatus_value NotificationStatus.FAILED = ''failed''"

datatype RemediationStatus =
    PENDING_APPROVAL
  | APPROVED
  | REJECTED
  | CANCELLED
  | SUCCEEDED
  | FAILED

primrec RemediationStatus_value :: "RemediationStatus \<Rightarrow> string" where
    "RemediationStatus_value RemediationStatus.PENDING_APPROVAL = ''pending_approval''"
  | "RemediationStatus_value RemediationStatus.APPROVED = ''approved''"
  | "RemediationStatus_value RemediationStatus.REJECTED = ''rejected''"
  | "RemediationStatus_value RemediationStatus.CANCELLED = ''cancelled''"
  | "RemediationStatus_value RemediationStatus.SUCCEEDED = ''succeeded''"
  | "RemediationStatus_value RemediationStatus.FAILED = ''failed''"

datatype RemediationExecutionMode =
    MOCK_AUTOMATION
  | MANUAL
  | JIRA_DRAFT
  | LIVE_AWS

primrec RemediationExecutionMode_value :: "RemediationExecutionMode \<Rightarrow> string" where
    "RemediationExecutionMode_value RemediationExecutionMode.MOCK_AUTOMATION = ''mock_automation''"
  | "RemediationExecutionMode_value RemediationExecutionMode.MANUAL = ''manual''"
  | "RemediationExecutionMode_value RemediationExecutionMode.JIRA_DRAFT = ''jira_draft''"
  | "RemediationExecutionMode_value RemediationExecutionMode.LIVE_AWS = ''live_aws''"

datatype ScanRunStatus =
    PENDING
  | RUNNING
  | COMPLETED
  | FAILED

primrec ScanRunStatus_value :: "ScanRunStatus \<Rightarrow> string" where
    "ScanRunStatus_value ScanRunStatus.PENDING = ''pending''"
  | "ScanRunStatus_value ScanRunStatus.RUNNING = ''running''"
  | "ScanRunStatus_value ScanRunStatus.COMPLETED = ''completed''"
  | "ScanRunStatus_value ScanRunStatus.FAILED = ''failed''"

datatype ScanRunTrigger =
    MANUAL
  | SCHEDULED

primrec ScanRunTrigger_value :: "ScanRunTrigger \<Rightarrow> string" where
    "ScanRunTrigger_value ScanRunTrigger.MANUAL = ''manual''"
  | "ScanRunTrigger_value ScanRunTrigger.SCHEDULED = ''scheduled''"

datatype PlatformJobType =
    DISCOVERY
  | EVALUATION
  | COMPLIANCE
  | RISK_RECALCULATION
  | NOTIFICATION_DELIVERY
  | SCHEDULED_SCAN
  | REMEDIATION_SIMULATION

primrec PlatformJobType_value :: "PlatformJobType \<Rightarrow> string" where
    "PlatformJobType_value PlatformJobType.DISCOVERY = ''discovery''"
  | "PlatformJobType_value PlatformJobType.EVALUATION = ''evaluation''"
  | "PlatformJobType_value PlatformJobType.COMPLIANCE = ''compliance''"
  | "PlatformJobType_value PlatformJobType.RISK_RECALCULATION = ''risk_recalculation''"
  | "PlatformJobType_value PlatformJobType.NOTIFICATION_DELIVERY = ''notification_delivery''"
  | "PlatformJobType_value PlatformJobType.SCHEDULED_SCAN = ''scheduled_scan''"
  | "PlatformJobType_value PlatformJobType.REMEDIATION_SIMULATION = ''remediation_simulation''"

datatype PlatformJobStatus =
    AVAILABLE
  | LEASED
  | RUNNING
  | RETRY_WAIT
  | SUCCEEDED
  | FAILED
  | DEAD_LETTERED
  | CANCELLED

primrec PlatformJobStatus_value :: "PlatformJobStatus \<Rightarrow> string" where
    "PlatformJobStatus_value PlatformJobStatus.AVAILABLE = ''available''"
  | "PlatformJobStatus_value PlatformJobStatus.LEASED = ''leased''"
  | "PlatformJobStatus_value PlatformJobStatus.RUNNING = ''running''"
  | "PlatformJobStatus_value PlatformJobStatus.RETRY_WAIT = ''retry_wait''"
  | "PlatformJobStatus_value PlatformJobStatus.SUCCEEDED = ''succeeded''"
  | "PlatformJobStatus_value PlatformJobStatus.FAILED = ''failed''"
  | "PlatformJobStatus_value PlatformJobStatus.DEAD_LETTERED = ''dead_lettered''"
  | "PlatformJobStatus_value PlatformJobStatus.CANCELLED = ''cancelled''"

datatype JiraIntegrationStatus =
    PENDING
  | CONNECTED
  | FAILED
  | DISCONNECTED

primrec JiraIntegrationStatus_value :: "JiraIntegrationStatus \<Rightarrow> string" where
    "JiraIntegrationStatus_value JiraIntegrationStatus.PENDING = ''pending''"
  | "JiraIntegrationStatus_value JiraIntegrationStatus.CONNECTED = ''connected''"
  | "JiraIntegrationStatus_value JiraIntegrationStatus.FAILED = ''failed''"
  | "JiraIntegrationStatus_value JiraIntegrationStatus.DISCONNECTED = ''disconnected''"

section \<open>Stored values determine the member\<close>

lemma UserStatus_value_inject [simp]: "UserStatus_value a = UserStatus_value b \<longleftrightarrow> a = b"
  by (cases a; cases b) simp_all

lemma OrganizationStatus_value_inject [simp]: "OrganizationStatus_value a = OrganizationStatus_value b \<longleftrightarrow> a = b"
  by (cases a; cases b) simp_all

lemma OrganizationRole_value_inject [simp]: "OrganizationRole_value a = OrganizationRole_value b \<longleftrightarrow> a = b"
  by (cases a; cases b) simp_all

lemma MembershipStatus_value_inject [simp]: "MembershipStatus_value a = MembershipStatus_value b \<longleftrightarrow> a = b"
  by (cases a; cases b) simp_all

lemma InvitationStatus_value_inject [simp]: "InvitationStatus_value a = InvitationStatus_value b \<longleftrightarrow> a = b"
  by (cases a; cases b) simp_all

lemma AuditResult_value_inject [simp]: "AuditResult_value a = AuditResult_value b \<longleftrightarrow> a = b"
  by (cases a; cases b) simp_all

lemma AWSAccountStatus_value_inject [simp]: "AWSAccountStatus_value a = AWSAccountStatus_value b \<longleftrightarrow> a = b"
  by (cases a; cases b) simp_all

lemma AssetType_value_inject [simp]: "AssetType_value a = AssetType_value b \<longleftrightarrow> a = b"
  by (cases a; cases b) simp_all

lemma DiscoveryJobStatus_value_inject [simp]: "DiscoveryJobStatus_value a = DiscoveryJobStatus_value b \<longleftrightarrow> a = b"
  by (cases a; cases b) simp_all

lemma RuleResultStatus_value_inject [simp]: "RuleResultStatus_value a = RuleResultStatus_value b \<longleftrightarrow> a = b"
  by (cases a; cases b) simp_all

lemma FindingStatus_value_inject [simp]: "FindingStatus_value a = FindingStatus_value b \<longleftrightarrow> a = b"
  by (cases a; cases b) simp_all

lemma EvaluationJobStatus_value_inject [simp]: "EvaluationJobStatus_value a = EvaluationJobStatus_value b \<longleftrightarrow> a = b"
  by (cases a; cases b) simp_all

lemma FindingSeverity_value_inject [simp]: "FindingSeverity_value a = FindingSeverity_value b \<longleftrightarrow> a = b"
  by (cases a; cases b) simp_all

lemma ComplianceAssessmentStatus_value_inject [simp]: "ComplianceAssessmentStatus_value a = ComplianceAssessmentStatus_value b \<longleftrightarrow> a = b"
  by (cases a; cases b) simp_all

lemma ComplianceControlStatus_value_inject [simp]: "ComplianceControlStatus_value a = ComplianceControlStatus_value b \<longleftrightarrow> a = b"
  by (cases a; cases b) simp_all

lemma RiskPriority_value_inject [simp]: "RiskPriority_value a = RiskPriority_value b \<longleftrightarrow> a = b"
  by (cases a; cases b) simp_all

lemma RiskAssessmentStatus_value_inject [simp]: "RiskAssessmentStatus_value a = RiskAssessmentStatus_value b \<longleftrightarrow> a = b"
  by (cases a; cases b) simp_all

lemma AITaskType_value_inject [simp]: "AITaskType_value a = AITaskType_value b \<longleftrightarrow> a = b"
  by (cases a; cases b) simp_all

lemma AIRequestStatus_value_inject [simp]: "AIRequestStatus_value a = AIRequestStatus_value b \<longleftrightarrow> a = b"
  by (cases a; cases b) simp_all

lemma AISourceType_value_inject [simp]: "AISourceType_value a = AISourceType_value b \<longleftrightarrow> a = b"
  by (cases a; cases b) simp_all

lemma RiskCriticality_value_inject [simp]: "RiskCriticality_value a = RiskCriticality_value b \<longleftrightarrow> a = b"
  by (cases a; cases b) simp_all

lemma RiskEnvironment_value_inject [simp]: "RiskEnvironment_value a = RiskEnvironment_value b \<longleftrightarrow> a = b"
  by (cases a; cases b) simp_all

lemma BusinessImpact_value_inject [simp]: "BusinessImpact_value a = BusinessImpact_value b \<longleftrightarrow> a = b"
  by (cases a; cases b) simp_all

lemma DataSensitivity_value_inject [simp]: "DataSensitivity_value a = DataSensitivity_value b \<longleftrightarrow> a = b"
  by (cases a; cases b) simp_all

lemma RuleService_value_inject [simp]: "RuleService_value a = RuleService_value b \<longleftrightarrow> a = b"
  by (cases a; cases b) simp_all

lemma RuleCategory_value_inject [simp]: "RuleCategory_value a = RuleCategory_value b \<longleftrightarrow> a = b"
  by (cases a; cases b) simp_all

lemma NotificationChannel_value_inject [simp]: "NotificationChannel_value a = NotificationChannel_value b \<longleftrightarrow> a = b"
  by (cases a; cases b) simp_all

lemma NotificationStatus_value_inject [simp]: "NotificationStatus_value a = NotificationStatus_value b \<longleftrightarrow> a = b"
  by (cases a; cases b) simp_all

lemma RemediationStatus_value_inject [simp]: "RemediationStatus_value a = RemediationStatus_value b \<longleftrightarrow> a = b"
  by (cases a; cases b) simp_all

lemma RemediationExecutionMode_value_inject [simp]: "RemediationExecutionMode_value a = RemediationExecutionMode_value b \<longleftrightarrow> a = b"
  by (cases a; cases b) simp_all

lemma ScanRunStatus_value_inject [simp]: "ScanRunStatus_value a = ScanRunStatus_value b \<longleftrightarrow> a = b"
  by (cases a; cases b) simp_all

lemma ScanRunTrigger_value_inject [simp]: "ScanRunTrigger_value a = ScanRunTrigger_value b \<longleftrightarrow> a = b"
  by (cases a; cases b) simp_all

lemma PlatformJobType_value_inject [simp]: "PlatformJobType_value a = PlatformJobType_value b \<longleftrightarrow> a = b"
  by (cases a; cases b) simp_all

lemma PlatformJobStatus_value_inject [simp]: "PlatformJobStatus_value a = PlatformJobStatus_value b \<longleftrightarrow> a = b"
  by (cases a; cases b) simp_all

lemma JiraIntegrationStatus_value_inject [simp]: "JiraIntegrationStatus_value a = JiraIntegrationStatus_value b \<longleftrightarrow> a = b"
  by (cases a; cases b) simp_all

end
