(* ===== verification/Json.thy ===== *)
theory Json
  imports Prelude "HOL-Library.List_Lexorder" "HOL-Library.Char_ord"
begin

text \<open>
  The values of the program's JSON columns and of the evidence the rules produce, with the
  Python operations the code applies to them: dictionary access, truth value, \<^verbatim>\<open>isinstance\<close>
  tests, \<^verbatim>\<open>str\<close>, iteration, comparison with a boolean, and \<^verbatim>\<open>json.dumps\<close> with sorted keys and
  compact separators. \<open>JObj s\<close> is any Python object that is not a JSON value, with \<open>s\<close> its
  \<^verbatim>\<open>str\<close>. Numbers are integers: the inventory and the job payloads hold no floats.
  Dictionaries are association lists in insertion order.
\<close>

datatype json =
    JNull
  | JBool bool
  | JInt int
  | JStr string
  | JList "json list"
  | JDict "(string \<times> json) list"
  | JObj string

type_synonym dict = "(string \<times> json) list"

text \<open>Values inside a list or a dictionary are smaller; used by every traversal's termination.\<close>

lemma size_list_value [simp]: "x \<in> set xs \<Longrightarrow> size x < size (JList xs)"
  by (simp add: less_Suc_eq_le size_list_estimation')

lemma size_dict_value [simp]: "kv \<in> set d \<Longrightarrow> size (snd kv) < size (JDict d)"
proof -
  assume "kv \<in> set d"
  then have "size (snd kv) \<le> size_list (size_prod (\<lambda>x. 0) size) d"
    by (rule size_list_estimation') (cases kv, simp)
  then show ?thesis by simp
qed

section \<open>Decimal representation\<close>

fun nat_digits :: "nat \<Rightarrow> string" where
  "nat_digits n =
     (if n < 10 then [char_of (48 + n)] else nat_digits (n div 10) @ [char_of (48 + n mod 10)])"

declare nat_digits.simps [simp del]

definition int_str :: "int \<Rightarrow> string" where
  "int_str i = (if i < 0 then CHR ''-'' # nat_digits (nat (- i)) else nat_digits (nat i))"

definition uuid_str :: "uuid \<Rightarrow> string" where
  "uuid_str u = nat_digits u"

section \<open>Dictionaries\<close>

definition dict_get :: "string \<Rightarrow> dict \<Rightarrow> json" where
  "dict_get k d = (case map_of d k of None \<Rightarrow> JNull | Some v \<Rightarrow> v)"

definition dict_get_default :: "string \<Rightarrow> json \<Rightarrow> dict \<Rightarrow> json" where
  "dict_get_default k v d = (case map_of d k of None \<Rightarrow> v | Some w \<Rightarrow> w)"

definition dict_has :: "string \<Rightarrow> dict \<Rightarrow> bool" where
  "dict_has k d = (k \<in> fst ` set d)"

fun dict_put :: "string \<Rightarrow> 'v \<Rightarrow> (string \<times> 'v) list \<Rightarrow> (string \<times> 'v) list" where
  "dict_put k v [] = [(k, v)]"
| "dict_put k v ((k', v') # d) = (if k' = k then (k, v) # d else (k', v') # dict_put k v d)"

text \<open>A dictionary built from key-value pairs: a later pair with the same key replaces the value.\<close>

definition dict_of :: "(string \<times> 'v) list \<Rightarrow> (string \<times> 'v) list" where
  "dict_of ps = fold (\<lambda>(k, v). dict_put k v) ps []"

section \<open>Python operations on values\<close>

fun json_int :: "json \<Rightarrow> int option" where
  "json_int (JBool b) = Some (if b then 1 else 0)"
| "json_int (JInt i) = Some i"
| "json_int _ = None"

definition py_eq_bool :: "json \<Rightarrow> bool \<Rightarrow> bool" where
  "py_eq_bool v b = (json_int v = Some (if b then 1 else 0))"

fun py_truthy :: "json \<Rightarrow> bool" where
  "py_truthy JNull = False"
| "py_truthy (JBool b) = b"
| "py_truthy (JInt i) = (i \<noteq> 0)"
| "py_truthy (JStr s) = (s \<noteq> [])"
| "py_truthy (JList xs) = (xs \<noteq> [])"
| "py_truthy (JDict d) = (d \<noteq> [])"
| "py_truthy (JObj s) = True"

fun is_str :: "json \<Rightarrow> bool" where
  "is_str (JStr s) = True"
| "is_str _ = False"

fun is_list :: "json \<Rightarrow> bool" where
  "is_list (JList xs) = True"
| "is_list _ = False"

fun is_dict :: "json \<Rightarrow> bool" where
  "is_dict (JDict d) = True"
| "is_dict _ = False"

definition is_int :: "json \<Rightarrow> bool" where
  "is_int v = (json_int v \<noteq> None)"

text \<open>Iteration: a dictionary yields its keys, a string its characters; scalars raise.\<close>

fun py_iter :: "json \<Rightarrow> exn + json list" where
  "py_iter (JList xs) = Inr xs"
| "py_iter (JDict d) = Inr (map (\<lambda>(k, v). JStr k) d)"
| "py_iter (JStr s) = Inr (map (\<lambda>c. JStr [c]) s)"
| "py_iter _ = Inl TypeError"

text \<open>Membership in a set of strings: lists and dictionaries are unhashable.\<close>

fun py_in_strings :: "json \<Rightarrow> string list \<Rightarrow> exn + bool" where
  "py_in_strings (JStr s) S = Inr (s \<in> set S)"
| "py_in_strings (JList xs) S = Inl TypeError"
| "py_in_strings (JDict d) S = Inl TypeError"
| "py_in_strings _ S = Inr False"

section \<open>Printing\<close>

definition hex_digit :: "nat \<Rightarrow> char" where
  "hex_digit n = (if n < 10 then char_of (48 + n) else char_of (87 + n))"

definition hex2 :: "nat \<Rightarrow> string" where
  "hex2 n = [hex_digit (n div 16), hex_digit (n mod 16)]"

fun intercalate :: "string \<Rightarrow> string list \<Rightarrow> string" where
  "intercalate sep [] = []"
| "intercalate sep [x] = x"
| "intercalate sep (x # y # xs) = x @ sep @ intercalate sep (y # xs)"

definition json_escape_char :: "char \<Rightarrow> string" where
  "json_escape_char c =
     (let n = (of_char c :: nat) in
      if n = 34 then [char_of (92 :: nat), c]
      else if n = 92 then [c, c]
      else if n = 10 then [char_of (92 :: nat), CHR ''n'']
      else if n = 13 then [char_of (92 :: nat), CHR ''r'']
      else if n = 9 then [char_of (92 :: nat), CHR ''t'']
      else if n = 12 then [char_of (92 :: nat), CHR ''f'']
      else if n = 8 then [char_of (92 :: nat), CHR ''b'']
      else if 32 \<le> n \<and> n \<le> 126 then [c]
      else char_of (92 :: nat) # ''u00'' @ hex2 n)"

definition json_quote :: "string \<Rightarrow> string" where
  "json_quote s = char_of (34 :: nat) # concat (map json_escape_char s) @ [char_of (34 :: nat)]"

text \<open>
  \<^verbatim>\<open>json.dumps(value, sort_keys=True, separators=(",", ":"), default=str)\<close>.
\<close>

function json_dumps :: "json \<Rightarrow> string" where
  "json_dumps JNull = ''null''"
| "json_dumps (JBool b) = (if b then ''true'' else ''false'')"
| "json_dumps (JInt i) = int_str i"
| "json_dumps (JStr s) = json_quote s"
| "json_dumps (JList xs) = ''['' @ intercalate '','' (map json_dumps xs) @ '']''"
| "json_dumps (JDict d) =
     ''{'' @ intercalate '','' (map (\<lambda>kv. json_quote (fst kv) @ '':'' @ json_dumps (snd kv)) (sort_key fst d))
       @ ''}''"
| "json_dumps (JObj s) = json_quote s"
  by pat_completeness auto
termination
  by (relation "measure size") (simp_all del: json.size)

section \<open>Conversion to strings and integers\<close>

text \<open>
  \<^verbatim>\<open>repr\<close> of a string: single quotes unless it holds a single quote and no double quote.
\<close>

definition repr_char :: "nat \<Rightarrow> char \<Rightarrow> string" where
  "repr_char q c =
     (let n = (of_char c :: nat) in
      if n = q \<or> n = 92 then [char_of (92 :: nat), c]
      else if n = 10 then [char_of (92 :: nat), CHR ''n'']
      else if n = 13 then [char_of (92 :: nat), CHR ''r'']
      else if n = 9 then [char_of (92 :: nat), CHR ''t'']
      else if 32 \<le> n \<and> n \<le> 126 then [c]
      else char_of (92 :: nat) # ''x'' @ hex2 n)"

definition repr_str :: "string \<Rightarrow> string" where
  "repr_str s =
     (let q = (if char_of (39 :: nat) \<in> set s \<and> char_of (34 :: nat) \<notin> set s then 34 else 39 :: nat)
      in char_of q # concat (map (repr_char q) s) @ [char_of q])"

function py_repr :: "json \<Rightarrow> string" where
  "py_repr JNull = ''None''"
| "py_repr (JBool b) = (if b then ''True'' else ''False'')"
| "py_repr (JInt i) = int_str i"
| "py_repr (JStr s) = repr_str s"
| "py_repr (JList xs) = ''['' @ intercalate '', '' (map py_repr xs) @ '']''"
| "py_repr (JDict d) =
     ''{'' @ intercalate '', '' (map (\<lambda>kv. repr_str (fst kv) @ '': '' @ py_repr (snd kv)) d) @ ''}''"
| "py_repr (JObj s) = s"
  by pat_completeness auto
termination
  by (relation "measure size") (simp_all del: json.size)

definition py_str :: "json \<Rightarrow> string" where
  "py_str v = (case v of JStr s \<Rightarrow> s | _ \<Rightarrow> py_repr v)"

text \<open>\<^verbatim>\<open>int(value)\<close>: digits may be grouped by single underscores.\<close>

definition is_digit :: "char \<Rightarrow> bool" where
  "is_digit c = (48 \<le> (of_char c :: nat) \<and> (of_char c :: nat) \<le> 57)"

fun digits_value :: "nat \<Rightarrow> string \<Rightarrow> nat option" where
  "digits_value n [] = Some n"
| "digits_value n (c # s) =
     (if is_digit c then digits_value (10 * n + (of_char c - 48)) s
      else if c = CHR ''_'' then
        (case s of
           [] \<Rightarrow> None
         | c' # s' \<Rightarrow> if is_digit c' then digits_value (10 * n + (of_char c' - 48)) s' else None)
      else None)"

definition unsigned_value :: "string \<Rightarrow> nat option" where
  "unsigned_value s = (case s of [] \<Rightarrow> None | c # r \<Rightarrow> if is_digit c then digits_value 0 s else None)"

definition parse_int :: "string \<Rightarrow> int option" where
  "parse_int text =
     (case strip text of
        [] \<Rightarrow> None
      | c # r \<Rightarrow>
          if c = CHR ''-'' then map_option (\<lambda>n. - int n) (unsigned_value r)
          else if c = CHR ''+'' then map_option int (unsigned_value r)
          else map_option int (unsigned_value (c # r)))"

fun py_int :: "json \<Rightarrow> exn + int" where
  "py_int (JInt i) = Inr i"
| "py_int (JBool b) = Inr (if b then 1 else 0)"
| "py_int (JStr s) = (case parse_int s of None \<Rightarrow> Inl (ValueError ''invalid literal for int()'') | Some i \<Rightarrow> Inr i)"
| "py_int _ = Inl TypeError"

section \<open>Occurrences\<close>

text \<open>\<open>occurs w n v\<close>: the value \<open>v\<close> occurs in \<open>w\<close> under \<open>n\<close> containers.\<close>

inductive occurs :: "json \<Rightarrow> nat \<Rightarrow> json \<Rightarrow> bool" where
  occurs_here: "occurs v 0 v"
| occurs_list: "x \<in> set xs \<Longrightarrow> occurs x n v \<Longrightarrow> occurs (JList xs) (Suc n) v"
| occurs_dict: "kv \<in> set d \<Longrightarrow> occurs (snd kv) n v \<Longrightarrow> occurs (JDict d) (Suc n) v"

inductive_simps occurs_scalar_simps [simp]:
  "occurs JNull n v" "occurs (JBool b) n v" "occurs (JInt i) n v" "occurs (JStr s) n v" "occurs (JObj s) n v"

inductive_cases occurs_listE: "occurs (JList xs) n v"

inductive_cases occurs_dictE: "occurs (JDict d) n v"

lemma all_occurs_dict:
  "(\<forall>n v. occurs (JDict d) n v \<longrightarrow> P n v) \<longleftrightarrow>
     P 0 (JDict d) \<and> (\<forall>kv \<in> set d. \<forall>n v. occurs (snd kv) n v \<longrightarrow> P (Suc n) v)"
  by (auto intro: occurs.intros elim!: occurs_dictE)

lemma all_occurs_list:
  "(\<forall>n v. occurs (JList xs) n v \<longrightarrow> P n v) \<longleftrightarrow>
     P 0 (JList xs) \<and> (\<forall>x \<in> set xs. \<forall>n v. occurs x n v \<longrightarrow> P (Suc n) v)"
  by (auto intro: occurs.intros elim!: occurs_listE)

section \<open>Searching keys for credential words\<close>

text \<open>
  The regular expressions over keys are alternatives of literal words, some of the form
  \<open>a.?b\<close>: the word \<open>a\<close>, an optional character that is not a newline, the word \<open>b\<close>. They
  are searched ignoring case.
\<close>

definition gap_here :: "string \<Rightarrow> string \<Rightarrow> string \<Rightarrow> bool" where
  "gap_here a b s =
     (starts_with a s \<and>
      (let r = drop (length a) s in
       starts_with b r \<or> (case r of [] \<Rightarrow> False | c # r' \<Rightarrow> (of_char c :: nat) \<noteq> 10 \<and> starts_with b r')))"

fun search_gap :: "string \<Rightarrow> string \<Rightarrow> string \<Rightarrow> bool" where
  "search_gap a b [] = gap_here a b []"
| "search_gap a b (c # s) = (gap_here a b (c # s) \<or> search_gap a b s)"

text \<open>\<^verbatim>\<open>(secret|password|credential|access.?key|session.?token|authorization|cookie|webhook|body)\<close>\<close>

definition SENSITIVE_PAYLOAD_KEY :: "string \<Rightarrow> bool" where
  "SENSITIVE_PAYLOAD_KEY key =
     (let s = casefold key in
      contains ''secret'' s \<or> contains ''password'' s \<or> contains ''credential'' s \<or>
      search_gap ''access'' ''key'' s \<or> search_gap ''session'' ''token'' s \<or>
      contains ''authorization'' s \<or> contains ''cookie'' s \<or> contains ''webhook'' s \<or>
      contains ''body'' s)"

text \<open>\<^verbatim>\<open>(access.?key|secret|session.?token|credential|password|authorization|cookie)\<close>\<close>

definition SENSITIVE_RESULT_KEY :: "string \<Rightarrow> bool" where
  "SENSITIVE_RESULT_KEY key =
     (let s = casefold key in
      search_gap ''access'' ''key'' s \<or> contains ''secret'' s \<or> search_gap ''session'' ''token'' s \<or>
      contains ''credential'' s \<or> contains ''password'' s \<or> contains ''authorization'' s \<or>
      contains ''cookie'' s)"

text \<open>\<^verbatim>\<open>(access.?key|secret|session.?token|credential|authorization|password)\<close>\<close>

definition SENSITIVE_EVIDENCE_KEY :: "string \<Rightarrow> bool" where
  "SENSITIVE_EVIDENCE_KEY key =
     (let s = casefold key in
      search_gap ''access'' ''key'' s \<or> contains ''secret'' s \<or> search_gap ''session'' ''token'' s \<or>
      contains ''credential'' s \<or> contains ''authorization'' s \<or> contains ''password'' s)"

section \<open>Lemmas\<close>

lemma map_of_dict_put [simp]: "map_of (dict_put k v d) = (map_of d)(k \<mapsto> v)"
  by (induction d) auto

lemma fst_dict_put: "set (map fst (dict_put k v d)) = insert k (set (map fst d))"
proof (induction d)
  case Nil
  then show ?case by simp
next
  case (Cons p d)
  then show ?case by (cases p) auto
qed

lemma distinct_dict_put: "distinct (map fst d) \<Longrightarrow> distinct (map fst (dict_put k v d))"
proof (induction d)
  case Nil
  then show ?case by simp
next
  case (Cons p d)
  then show ?case
    using fst_dict_put [of k v d] by (cases p) (auto simp del: set_map)
qed

lemma set_dict_put: "x \<in> set (dict_put k v d) \<Longrightarrow> x = (k, v) \<or> x \<in> set d"
  by (induction d) (auto split: if_splits)

lemma length_dict_put: "length (dict_put k v d) \<le> Suc (length d)"
  by (induction d) auto

lemma dict_of_aux:
  "distinct (map fst acc) \<Longrightarrow> distinct (map fst (fold (\<lambda>(k, v). dict_put k v) ps acc))"
  by (induction ps arbitrary: acc) (auto simp: distinct_dict_put)

lemma distinct_dict_of [simp]: "distinct (map fst (dict_of ps))"
  by (simp add: dict_of_def dict_of_aux)

lemma set_dict_of: "set (dict_of ps) \<subseteq> set ps"
proof -
  have "set (fold (\<lambda>(k, v). dict_put k v) ps acc) \<subseteq> set ps \<union> set acc" for acc
    by (induction ps arbitrary: acc) (force dest: set_dict_put)+
  from this [of "[]"] show ?thesis by (simp add: dict_of_def)
qed

lemma length_dict_of: "length (dict_of ps) \<le> length ps"
proof -
  have "length (fold (\<lambda>(k, v). dict_put k v) ps acc) \<le> length ps + length acc" for acc
  proof (induction ps arbitrary: acc)
    case Nil
    then show ?case by simp
  next
    case (Cons p ps)
    obtain k v where p: "p = (k, v)" by (cases p)
    have "length (fold (\<lambda>(k, v). dict_put k v) ps (dict_put k v acc)) \<le> length ps + length (dict_put k v acc)"
      by (rule Cons.IH)
    also have "\<dots> \<le> length ps + Suc (length acc)"
      using length_dict_put by simp
    finally show ?case by (simp add: p)
  qed
  from this [of "[]"] show ?thesis by (simp add: dict_of_def)
qed

text \<open>A list of pairs with distinct keys is the dictionary it builds.\<close>

lemma dict_put_fresh: "k \<notin> fst ` set d \<Longrightarrow> dict_put k v d = d @ [(k, v)]"
  by (induction d) (auto simp: image_iff)

lemma dict_of_distinct: "distinct (map fst ps) \<Longrightarrow> dict_of ps = ps"
proof -
  have "fold (\<lambda>(k, v). dict_put k v) ps acc = acc @ ps"
    if "distinct (map fst (acc @ ps))" for acc
    using that
  proof (induction ps arbitrary: acc)
    case Nil
    then show ?case by simp
  next
    case (Cons p ps)
    obtain k v where p: "p = (k, v)" by (cases p)
    with Cons.prems have "dict_put k v acc = acc @ [(k, v)]"
      by (intro dict_put_fresh) auto
    with Cons.IH [of "acc @ [(k, v)]"] Cons.prems p show ?case by simp
  qed
  from this [of "[]"] show "distinct (map fst ps) \<Longrightarrow> dict_of ps = ps"
    by (simp add: dict_of_def)
qed

lemma gap_here_iff:
  "gap_here a b s \<longleftrightarrow>
     (\<exists>t. s = a @ b @ t) \<or> (\<exists>c t. (of_char c :: nat) \<noteq> 10 \<and> s = a @ c # b @ t)"
proof -
  have "starts_with b r \<or> (case r of [] \<Rightarrow> False | c # r' \<Rightarrow> (of_char c :: nat) \<noteq> 10 \<and> starts_with b r')
      \<longleftrightarrow> (\<exists>t. r = b @ t) \<or> (\<exists>c t. (of_char c :: nat) \<noteq> 10 \<and> r = c # b @ t)" for r
    by (cases r) (auto simp: starts_with_iff)
  then show ?thesis
    by (auto simp: gap_here_def Let_def starts_with_iff)
qed

lemma gap_here_take:
  assumes "gap_here a b (take n s)"
  shows "gap_here a b s"
proof -
  have s: "s = take n s @ drop n s" by simp
  from assms consider t where "take n s = a @ b @ t"
    | c t where "(of_char c :: nat) \<noteq> 10" "take n s = a @ c # b @ t"
    by (auto simp: gap_here_iff)
  then show ?thesis
  proof cases
    case 1
    with s have "s = a @ b @ t @ drop n s" by simp
    then show ?thesis by (auto simp: gap_here_iff)
  next
    case 2
    with s have "s = a @ c # b @ t @ drop n s" by simp
    with 2 show ?thesis unfolding gap_here_iff by blast
  qed
qed

lemma search_gap_take: "search_gap a b (take n s) \<Longrightarrow> search_gap a b s"
proof (induction s arbitrary: n)
  case Nil
  then show ?case by simp
next
  case (Cons c s)
  show ?case
  proof (cases n)
    case 0
    with Cons.prems have "gap_here a b (take 0 (c # s))" by simp
    then have "gap_here a b (c # s)" by (rule gap_here_take)
    then show ?thesis by simp
  next
    case (Suc m)
    with Cons gap_here_take [of a b n "c # s"] show ?thesis by auto
  qed
qed

lemma SENSITIVE_RESULT_KEY_take: "SENSITIVE_RESULT_KEY (take n k) \<Longrightarrow> SENSITIVE_RESULT_KEY k"
  by (auto simp: SENSITIVE_RESULT_KEY_def Let_def casefold_take dest: contains_take search_gap_take)

end
