(* ===== verification/Models.thy ===== *)
theory Models
  imports Enums Json
begin

text \<open>
  The relational schema of \<^verbatim>\<open>app/models\<close>: one record per table with the table's columns
  (\<^verbatim>\<open>updated_at\<close> and, where nothing reads it, \<^verbatim>\<open>created_at\<close> are left out), the
  \<^verbatim>\<open>CheckConstraint\<close>s of a table as predicates over its rows and its unique indexes as
  predicates over the table, and the record \<open>db\<close> of all tables that the services operate on.
  A nullable column is an \<open>option\<close>.
\<close>

section \<open>Users and tenants\<close>

record User =
  u_id :: uuid
  u_email :: string
  u_normalized_email :: string
  u_password_hash :: string
  u_full_name :: string
  u_status :: UserStatus
  u_is_platform_admin :: bool
  u_email_verified_at :: "instant option"
  u_last_login_at :: "instant option"

record Organization =
  o_id :: uuid
  o_name :: string
  o_slug :: string
  o_status :: OrganizationStatus
  o_created_by_user_id :: uuid

record OrganizationMembership =
  m_id :: uuid
  m_organization_id :: uuid
  m_user_id :: uuid
  m_role :: OrganizationRole
  m_status :: MembershipStatus
  m_invited_by_user_id :: "uuid option"
  m_joined_at :: "instant option"

record OrganizationInvitation =
  oi_id :: uuid
  oi_organization_id :: uuid
  oi_email :: string
  oi_normalized_email :: string
  oi_role :: OrganizationRole
  oi_token_hash :: string
  oi_status :: InvitationStatus
  oi_invited_by_user_id :: uuid
  oi_expires_at :: instant
  oi_accepted_at :: "instant option"
  oi_last_delivery_status :: "string option"
  oi_last_delivery_error_code :: "string option"
  oi_last_delivery_attempt_at :: "instant option"
  oi_last_delivered_at :: "instant option"
  oi_delivery_generation :: int

definition invitation_constraints :: "OrganizationInvitation \<Rightarrow> bool" where
  "invitation_constraints i =
     (oi_last_delivery_status i \<in> {None, Some ''pending'', Some ''sending'', Some ''delivered'', Some ''failed''} \<and>
      0 \<le> oi_delivery_generation i)"

text \<open>\<^verbatim>\<open>uq_invitations_token_hash\<close> and \<^verbatim>\<open>uq_active_invitation_org_email\<close>.\<close>

definition invitation_unique :: "OrganizationInvitation list \<Rightarrow> bool" where
  "invitation_unique rows =
     (unique_on (\<lambda>i. True) oi_token_hash rows \<and>
      unique_on (\<lambda>i. oi_status i = InvitationStatus.PENDING)
        (\<lambda>i. (oi_organization_id i, oi_normalized_email i)) rows)"

record RefreshTokenSession =
  rt_id :: uuid
  rt_user_id :: uuid
  rt_token_hash :: string
  rt_family_id :: uuid
  rt_issued_at :: instant
  rt_expires_at :: instant
  rt_revoked_at :: "instant option"
  rt_replaced_by_id :: "uuid option"

text \<open>\<^verbatim>\<open>uq_refresh_token_hash\<close>.\<close>

definition refresh_unique :: "RefreshTokenSession list \<Rightarrow> bool" where
  "refresh_unique rows = unique_on (\<lambda>s. True) rt_token_hash rows"

record AuditEvent =
  ae_event_type :: string
  ae_resource_type :: string
  ae_result :: AuditResult
  ae_organization_id :: "uuid option"
  ae_actor_user_id :: "uuid option"
  ae_resource_id :: "uuid option"

section \<open>Cloud accounts and inventory\<close>

record AWSAccount =
  acc_id :: uuid
  acc_organization_id :: uuid
  acc_name :: string
  acc_account_id :: string
  acc_role_arn :: "string option"
  acc_external_id :: string
  acc_remediation_role_arn :: "string option"
  acc_remediation_external_id :: "string option"
  acc_sandbox_approved :: bool
  acc_sandbox_approved_at :: "instant option"
  acc_sandbox_approved_by_user_id :: "uuid option"
  acc_status :: AWSAccountStatus
  acc_connection_status :: AWSAccountStatus
  acc_failure_reason :: "string option"
  acc_last_validated_at :: "instant option"
  acc_validation_token :: "uuid option"
  acc_validation_started_at :: "instant option"
  acc_lifecycle_version :: int
  acc_created_by_user_id :: uuid

definition aws_account_sandbox_approval_complete :: "AWSAccount \<Rightarrow> bool" where
  "aws_account_sandbox_approval_complete a =
     (\<not> acc_sandbox_approved a \<and> acc_sandbox_approved_at a = None \<and> acc_sandbox_approved_by_user_id a = None \<or>
      acc_sandbox_approved a \<and> acc_sandbox_approved_at a \<noteq> None \<and> acc_sandbox_approved_by_user_id a \<noteq> None)"

record AWSExternalIDReservation =
  xi_id :: uuid
  xi_external_id :: string
  xi_aws_account_id :: "uuid option"
  xi_organization_id :: uuid
  xi_issued_at :: instant
  xi_retired_at :: "instant option"

record DiscoveryJob =
  dj_id :: uuid
  dj_organization_id :: uuid
  dj_aws_account_id :: uuid
  dj_status :: DiscoveryJobStatus
  dj_started_by_user_id :: uuid
  dj_started_at :: "instant option"
  dj_finished_at :: "instant option"
  dj_assets_discovered :: int
  dj_assets_created :: int
  dj_assets_updated :: int
  dj_assets_deactivated :: int
  dj_error_summary :: "string option"

record Asset =
  as_id :: uuid
  as_organization_id :: uuid
  as_aws_account_id :: uuid
  as_asset_type :: AssetType
  as_resource_id :: string
  as_arn :: "string option"
  as_name :: string
  as_region :: string
  as_status :: "string option"
  as_tags :: "(string \<times> string) list"
  as_metadata_json :: dict
  as_first_seen_at :: instant
  as_last_seen_at :: instant
  as_is_active :: bool

section \<open>Findings and evaluations\<close>

record Finding =
  f_id :: uuid
  f_organization_id :: uuid
  f_aws_account_id :: uuid
  f_asset_id :: "uuid option"
  f_rule_key :: string
  f_rule_version :: int
  f_severity :: FindingSeverity
  f_category :: string
  f_status :: FindingStatus
  f_evidence_json :: json
  f_first_seen_at :: instant
  f_last_seen_at :: instant
  f_resolved_at :: "instant option"
  f_suppressed_at :: "instant option"
  f_suppressed_until :: "instant option"
  f_suppression_reason :: "string option"
  f_suppressed_by_user_id :: "uuid option"
  f_last_evaluation_id :: uuid
  f_lifecycle_version :: int

definition finding_status_lifecycle :: "Finding \<Rightarrow> bool" where
  "finding_status_lifecycle f =
     (f_status f = FindingStatus.OPEN \<and> f_resolved_at f = None \<and> f_suppressed_at f = None \<and>
        f_suppressed_by_user_id f = None \<or>
      f_status f = FindingStatus.RESOLVED \<and> f_resolved_at f \<noteq> None \<and> f_suppressed_at f = None \<and>
        f_suppressed_by_user_id f = None \<or>
      f_status f = FindingStatus.SUPPRESSED \<and> f_resolved_at f = None \<and> f_suppressed_at f \<noteq> None \<and>
        f_suppression_reason f \<noteq> None \<and> f_suppression_reason f \<noteq> Some [] \<and>
        f_suppressed_by_user_id f \<noteq> None)"

definition finding_constraints :: "Finding \<Rightarrow> bool" where
  "finding_constraints f =
     (0 < f_rule_version f \<and> 0 \<le> f_lifecycle_version f \<and> f_first_seen_at f \<le> f_last_seen_at f \<and>
      finding_status_lifecycle f)"

text \<open>\<^verbatim>\<open>uq_finding_asset_rule\<close> and \<^verbatim>\<open>uq_finding_account_rule\<close>.\<close>

definition finding_unique :: "Finding list \<Rightarrow> bool" where
  "finding_unique fs =
     (unique_on (\<lambda>f. f_asset_id f \<noteq> None) (\<lambda>f. (f_asset_id f, f_rule_key f)) fs \<and>
      unique_on (\<lambda>f. f_asset_id f = None) (\<lambda>f. (f_aws_account_id f, f_rule_key f)) fs)"

record EvaluationJob =
  ej_id :: uuid
  ej_organization_id :: uuid
  ej_aws_account_id :: uuid
  ej_discovery_job_id :: "uuid option"
  ej_sequence :: int
  ej_status :: EvaluationJobStatus
  ej_started_by_user_id :: uuid
  ej_started_at :: "instant option"
  ej_finished_at :: "instant option"
  ej_assets_evaluated :: int
  ej_rules_evaluated :: int
  ej_passed_count :: int
  ej_failed_count :: int
  ej_error_count :: int
  ej_not_applicable_count :: int
  ej_findings_created :: int
  ej_findings_updated :: int
  ej_findings_resolved :: int
  ej_findings_reopened :: int
  ej_evaluation_errors :: int
  ej_error_summary :: "string option"

definition evaluation_status_timestamps :: "EvaluationJob \<Rightarrow> bool" where
  "evaluation_status_timestamps j =
     (ej_status j = EvaluationJobStatus.PENDING \<and> ej_started_at j = None \<and> ej_finished_at j = None \<or>
      ej_status j = EvaluationJobStatus.RUNNING \<and> ej_started_at j \<noteq> None \<and> ej_finished_at j = None \<or>
      ej_status j \<in> {EvaluationJobStatus.COMPLETED, EvaluationJobStatus.PARTIALLY_COMPLETED,
                     EvaluationJobStatus.FAILED} \<and>
        ej_started_at j \<noteq> None \<and> ej_finished_at j \<noteq> None)"

definition evaluation_active :: "EvaluationJob \<Rightarrow> bool" where
  "evaluation_active j = (ej_status j \<in> {EvaluationJobStatus.PENDING, EvaluationJobStatus.RUNNING})"

text \<open>\<^verbatim>\<open>uq_active_evaluation_job_account\<close> and \<^verbatim>\<open>uq_evaluation_job_account_sequence\<close>.\<close>

definition evaluation_unique :: "EvaluationJob list \<Rightarrow> bool" where
  "evaluation_unique js =
     (unique_on evaluation_active ej_aws_account_id js \<and>
      unique_on (\<lambda>j. True) (\<lambda>j. (ej_aws_account_id j, ej_sequence j)) js)"

record EvaluationRuleResult =
  er_evaluation_job_id :: uuid
  er_organization_id :: uuid
  er_aws_account_id :: uuid
  er_rule_key :: string
  er_rule_version :: int
  er_passed_count :: int
  er_failed_count :: int
  er_not_applicable_count :: int
  er_error_count :: int

section \<open>Notifications\<close>

record NotificationEvent =
  ne_id :: uuid
  ne_organization_id :: uuid
  ne_source_event_type :: string
  ne_source_resource_type :: string
  ne_source_resource_id :: uuid
  ne_channel :: NotificationChannel
  ne_template_key :: string
  ne_destination_reference :: "string option"
  ne_payload_hash :: string
  ne_status :: NotificationStatus
  ne_attempt_count :: int
  ne_approved_by_user_id :: "uuid option"
  ne_approved_at :: "instant option"
  ne_approved_delivery_fingerprint :: "string option"
  ne_scheduled_at :: "instant option"
  ne_delivered_at :: "instant option"
  ne_failed_at :: "instant option"
  ne_failure_reason :: "string option"
  ne_provider_key :: "string option"
  ne_provider_message_id :: "string option"
  ne_created_at :: instant

text \<open>\<^verbatim>\<open>uq_notification_event_dedupe_key\<close>.\<close>

definition notification_unique :: "NotificationEvent list \<Rightarrow> bool" where
  "notification_unique ns =
     unique_on (\<lambda>n. True)
       (\<lambda>n. (ne_organization_id n, ne_source_event_type n, ne_source_resource_id n, ne_channel n,
             ne_template_key n)) ns"

text \<open>\<^verbatim>\<open>notification_event_status_lifecycle\<close> and the bounds of the attempts.\<close>

definition notification_status_lifecycle :: "NotificationEvent \<Rightarrow> bool" where
  "notification_status_lifecycle n =
     (ne_status n = NotificationStatus.PENDING_APPROVAL \<and> ne_approved_at n = None \<and>
        ne_approved_by_user_id n = None \<and> ne_delivered_at n = None \<and> ne_failed_at n = None \<or>
      ne_status n = NotificationStatus.APPROVED \<and> ne_approved_at n \<noteq> None \<and> ne_delivered_at n = None \<and>
        ne_failed_at n = None \<or>
      ne_status n = NotificationStatus.DELIVERED \<and> ne_approved_at n \<noteq> None \<and> ne_delivered_at n \<noteq> None \<and>
        ne_failed_at n = None \<or>
      ne_status n = NotificationStatus.FAILED \<and> ne_approved_at n \<noteq> None \<and> ne_failed_at n \<noteq> None \<and>
        ne_delivered_at n = None)"

definition notification_constraints :: "NotificationEvent \<Rightarrow> bool" where
  "notification_constraints n =
     (0 \<le> ne_attempt_count n \<and> ne_attempt_count n \<le> 3 \<and> notification_status_lifecycle n)"

record NotificationDeliveryAttempt =
  na_organization_id :: uuid
  na_notification_event_id :: uuid
  na_attempt_number :: int
  na_provider_key :: string
  na_destination_reference :: string
  na_template_key :: string
  na_template_version :: int
  na_content_hash :: string
  na_provider_message_id :: "string option"
  na_response_classification :: string
  na_error_code :: "string option"
  na_error_summary :: "string option"
  na_attempted_at :: instant
  na_delivered_at :: "instant option"
  na_failed_at :: "instant option"

text \<open>\<^verbatim>\<open>uq_notification_delivery_event_attempt\<close> and the check of the attempt number.\<close>

definition delivery_attempts_ok :: "NotificationDeliveryAttempt list \<Rightarrow> bool" where
  "delivery_attempts_ok rows =
     (unique_on (\<lambda>a. True) (\<lambda>a. (na_notification_event_id a, na_attempt_number a)) rows \<and>
      list_all (\<lambda>a. 1 \<le> na_attempt_number a \<and> na_attempt_number a \<le> 20) rows)"

section \<open>Jobs, schedules and runs\<close>

record PlatformJob =
  pj_id :: uuid
  pj_organization_id :: uuid
  pj_job_type :: PlatformJobType
  pj_status :: PlatformJobStatus
  pj_reference_id :: uuid
  pj_payload_json :: dict
  pj_idempotency_key :: string
  pj_priority :: int
  pj_attempt_count :: int
  pj_max_attempts :: int
  pj_scheduled_at :: instant
  pj_available_at :: instant
  pj_leased_at :: "instant option"
  pj_lease_expires_at :: "instant option"
  pj_lease_token :: "uuid option"
  pj_lease_generation :: int
  pj_worker_id :: "string option"
  pj_started_at :: "instant option"
  pj_completed_at :: "instant option"
  pj_failed_at :: "instant option"
  pj_dead_lettered_at :: "instant option"
  pj_last_error_code :: "string option"
  pj_last_error_summary :: "string option"
  pj_result_reference :: "string option"
  pj_correlation_id :: uuid
  pj_parent_job_id :: "uuid option"
  pj_created_at :: instant

definition platform_job_lease_state :: "PlatformJob \<Rightarrow> bool" where
  "platform_job_lease_state j =
     (pj_status j \<in> {PlatformJobStatus.LEASED, PlatformJobStatus.RUNNING} \<and> pj_lease_token j \<noteq> None \<and>
        pj_worker_id j \<noteq> None \<and> pj_lease_expires_at j \<noteq> None \<or>
      pj_status j \<notin> {PlatformJobStatus.LEASED, PlatformJobStatus.RUNNING} \<and> pj_lease_token j = None \<and>
        pj_worker_id j = None \<and> pj_lease_expires_at j = None)"

definition platform_job_constraints :: "PlatformJob \<Rightarrow> bool" where
  "platform_job_constraints j =
     (0 \<le> pj_attempt_count j \<and> 1 \<le> pj_max_attempts j \<and> pj_max_attempts j \<le> 20 \<and>
      -100 \<le> pj_priority j \<and> pj_priority j \<le> 100 \<and> platform_job_lease_state j)"

definition platform_job_active :: "PlatformJob \<Rightarrow> bool" where
  "platform_job_active j =
     (pj_status j \<in> {PlatformJobStatus.AVAILABLE, PlatformJobStatus.LEASED, PlatformJobStatus.RUNNING,
                     PlatformJobStatus.RETRY_WAIT})"

text \<open>\<^verbatim>\<open>uq_platform_job_tenant_idempotency\<close> and \<^verbatim>\<open>uq_platform_job_active_reference\<close>.\<close>

definition platform_job_unique :: "PlatformJob list \<Rightarrow> bool" where
  "platform_job_unique js =
     (unique_on (\<lambda>j. True) (\<lambda>j. (pj_organization_id j, pj_job_type j, pj_idempotency_key j)) js \<and>
      unique_on platform_job_active (\<lambda>j. (pj_organization_id j, pj_job_type j, pj_reference_id j)) js)"

record ScanSchedule =
  ss_id :: uuid
  ss_organization_id :: uuid
  ss_aws_account_id :: uuid
  ss_name :: string
  ss_interval_minutes :: int
  ss_enabled :: bool
  ss_created_by_user_id :: "uuid option"
  ss_last_run_at :: "instant option"
  ss_last_enqueued_at :: "instant option"
  ss_next_run_at :: "instant option"

definition MINIMUM_INTERVAL_MINUTES :: int where
  "MINIMUM_INTERVAL_MINUTES = 15"

definition scan_schedule_interval_minimum :: "ScanSchedule \<Rightarrow> bool" where
  "scan_schedule_interval_minimum s = (MINIMUM_INTERVAL_MINUTES \<le> ss_interval_minutes s)"

record ScanRun =
  sr_id :: uuid
  sr_organization_id :: uuid
  sr_aws_account_id :: uuid
  sr_schedule_id :: "uuid option"
  sr_trigger :: ScanRunTrigger
  sr_status :: ScanRunStatus
  sr_discovery_job_id :: "uuid option"
  sr_evaluation_job_id :: "uuid option"
  sr_error_summary :: "string option"
  sr_started_at :: "instant option"
  sr_finished_at :: "instant option"

definition scan_run_status_lifecycle :: "ScanRun \<Rightarrow> bool" where
  "scan_run_status_lifecycle r =
     (sr_status r = ScanRunStatus.PENDING \<and> sr_started_at r = None \<and> sr_finished_at r = None \<or>
      sr_status r = ScanRunStatus.RUNNING \<and> sr_started_at r \<noteq> None \<and> sr_finished_at r = None \<or>
      sr_status r \<in> {ScanRunStatus.COMPLETED, ScanRunStatus.FAILED} \<and> sr_started_at r \<noteq> None \<and>
        sr_finished_at r \<noteq> None)"

definition scan_run_active :: "ScanRun \<Rightarrow> bool" where
  "scan_run_active r = (sr_status r \<in> {ScanRunStatus.PENDING, ScanRunStatus.RUNNING})"

text \<open>\<^verbatim>\<open>uq_scan_run_active_per_account\<close>.\<close>

definition scan_run_unique :: "ScanRun list \<Rightarrow> bool" where
  "scan_run_unique rs = unique_on scan_run_active sr_aws_account_id rs"

section \<open>Remediation requests\<close>

record RemediationRequest =
  rr_id :: uuid
  rr_organization_id :: uuid
  rr_aws_account_id :: uuid
  rr_finding_id :: uuid
  rr_rule_key :: string
  rr_rule_version :: int
  rr_action_key :: string
  rr_action_version :: int
  rr_idempotency_key :: string
  rr_requested_by_user_id :: "uuid option"
  rr_approved_by_user_id :: "uuid option"
  rr_rejected_by_user_id :: "uuid option"
  rr_status :: RemediationStatus
  rr_execution_mode :: RemediationExecutionMode
  rr_executor_key :: "string option"
  rr_target_region :: "string option"
  rr_target_resource_arn :: "string option"
  rr_automation_eligible :: bool
  rr_title :: string
  rr_summary :: string
  rr_remediation_steps_json :: "string list"
  rr_verification_steps_json :: "string list"
  rr_rollback_steps_json :: "string list"
  rr_preview_json :: dict
  rr_request_snapshot_json :: dict
  rr_request_snapshot_hash :: string
  rr_approved_snapshot_hash :: "string option"
  rr_execution_lease_id :: "uuid option"
  rr_dry_run :: bool
  rr_before_state_json :: "dict option"
  rr_after_state_json :: "dict option"
  rr_execution_result_json :: "dict option"
  rr_precondition_evidence_json :: dict
  rr_verification_result_json :: "dict option"
  rr_aws_request_ids_json :: "dict option"
  rr_attempt_count :: int
  rr_rejection_reason :: "string option"
  rr_failure_reason :: "string option"
  rr_approved_at :: "instant option"
  rr_rejected_at :: "instant option"
  rr_cancelled_at :: "instant option"
  rr_executed_at :: "instant option"
  rr_failed_at :: "instant option"

definition remediation_status_lifecycle :: "RemediationRequest \<Rightarrow> bool" where
  "remediation_status_lifecycle r =
     (rr_status r = RemediationStatus.PENDING_APPROVAL \<and> rr_approved_at r = None \<and> rr_rejected_at r = None \<and>
        rr_cancelled_at r = None \<and> rr_executed_at r = None \<and> rr_failed_at r = None \<or>
      rr_status r = RemediationStatus.APPROVED \<and> rr_approved_at r \<noteq> None \<and> rr_rejected_at r = None \<and>
        rr_cancelled_at r = None \<and> rr_executed_at r = None \<and> rr_failed_at r = None \<or>
      rr_status r = RemediationStatus.REJECTED \<and> rr_rejected_at r \<noteq> None \<and> rr_approved_at r = None \<and>
        rr_cancelled_at r = None \<and> rr_executed_at r = None \<and> rr_failed_at r = None \<or>
      rr_status r = RemediationStatus.CANCELLED \<and> rr_cancelled_at r \<noteq> None \<and> rr_rejected_at r = None \<and>
        rr_executed_at r = None \<and> rr_failed_at r = None \<or>
      rr_status r = RemediationStatus.SUCCEEDED \<and> rr_approved_at r \<noteq> None \<and> rr_executed_at r \<noteq> None \<and>
        rr_rejected_at r = None \<and> rr_cancelled_at r = None \<and> rr_failed_at r = None \<or>
      rr_status r = RemediationStatus.FAILED \<and> rr_approved_at r \<noteq> None \<and> rr_failed_at r \<noteq> None \<and>
        rr_rejected_at r = None \<and> rr_cancelled_at r = None \<and> rr_executed_at r = None)"

definition remediation_constraints :: "RemediationRequest \<Rightarrow> bool" where
  "remediation_constraints r =
     (0 \<le> rr_attempt_count r \<and> rr_attempt_count r \<le> 3 \<and> remediation_status_lifecycle r)"

definition remediation_active :: "RemediationRequest \<Rightarrow> bool" where
  "remediation_active r =
     (rr_status r \<in> {RemediationStatus.PENDING_APPROVAL, RemediationStatus.APPROVED})"

text \<open>\<^verbatim>\<open>uq_remediation_tenant_idempotency\<close> and \<^verbatim>\<open>uq_remediation_active_per_finding\<close>.\<close>

definition remediation_unique :: "RemediationRequest list \<Rightarrow> bool" where
  "remediation_unique rs =
     (unique_on (\<lambda>r. True) (\<lambda>r. (rr_organization_id r, rr_idempotency_key r)) rs \<and>
      unique_on remediation_active rr_finding_id rs)"

text \<open>The validator of the three evidence columns.\<close>

function contains_sensitive_evidence_key :: "json \<Rightarrow> bool" where
  "contains_sensitive_evidence_key (JDict d) =
     (\<exists>kv \<in> set d. SENSITIVE_EVIDENCE_KEY (fst kv) \<or> contains_sensitive_evidence_key (snd kv))"
| "contains_sensitive_evidence_key (JList xs) = (\<exists>x \<in> set xs. contains_sensitive_evidence_key x)"
| "contains_sensitive_evidence_key JNull = False"
| "contains_sensitive_evidence_key (JBool b) = False"
| "contains_sensitive_evidence_key (JInt i) = False"
| "contains_sensitive_evidence_key (JStr s) = False"
| "contains_sensitive_evidence_key (JObj s) = False"
  by pat_completeness auto
termination
  by (relation "measure size") (simp_all del: json.size)

definition reject_sensitive_execution_evidence :: "string \<Rightarrow> dict option \<Rightarrow> exn + dict option" where
  "reject_sensitive_execution_evidence field value =
     (case value of
        None \<Rightarrow> Inr None
      | Some d \<Rightarrow> if contains_sensitive_evidence_key (JDict d) then Inl (ValueError field) else Inr (Some d))"

section \<open>The database\<close>

record db =
  users :: "User list"
  organizations :: "Organization list"
  memberships :: "OrganizationMembership list"
  audit_events :: "AuditEvent list"
  aws_accounts :: "AWSAccount list"
  assets :: "Asset list"
  findings :: "Finding list"
  evaluation_jobs :: "EvaluationJob list"
  rule_results :: "EvaluationRuleResult list"
  notification_events :: "NotificationEvent list"
  platform_jobs :: "PlatformJob list"
  scan_schedules :: "ScanSchedule list"
  scan_runs :: "ScanRun list"
  remediation_requests :: "RemediationRequest list"
  invitations :: "OrganizationInvitation list"
  refresh_sessions :: "RefreshTokenSession list"
  external_id_reservations :: "AWSExternalIDReservation list"
  discovery_jobs :: "DiscoveryJob list"
  delivery_attempts :: "NotificationDeliveryAttempt list"

definition empty_db :: db where
  "empty_db = \<lparr>users = [], organizations = [], memberships = [], audit_events = [], aws_accounts = [],
     assets = [], findings = [], evaluation_jobs = [], rule_results = [], notification_events = [],
     platform_jobs = [], scan_schedules = [], scan_runs = [], remediation_requests = [], invitations = [], refresh_sessions = [],
     external_id_reservations = [], discovery_jobs = [], delivery_attempts = []\<rparr>"

text \<open>
  \<^verbatim>\<open>record_audit\<close> appends an event; its sanitised metadata, address and user agent are not
  modelled.
\<close>

definition record_audit ::
    "string \<Rightarrow> string \<Rightarrow> AuditResult \<Rightarrow> uuid option \<Rightarrow> uuid option \<Rightarrow> uuid option \<Rightarrow> db \<Rightarrow> db" where
  "record_audit event_type resource_type result organization_id actor_user_id resource_id d =
     d\<lparr>audit_events := audit_events d @
        [\<lparr>ae_event_type = event_type, ae_resource_type = resource_type, ae_result = result,
          ae_organization_id = organization_id, ae_actor_user_id = actor_user_id,
          ae_resource_id = resource_id\<rparr>]\<rparr>"

section \<open>Frame properties of the audit trail\<close>

lemma record_audit_frame [simp]:
  "users (record_audit e t r ou au ru d) = users d"
  "organizations (record_audit e t r ou au ru d) = organizations d"
  "memberships (record_audit e t r ou au ru d) = memberships d"
  "aws_accounts (record_audit e t r ou au ru d) = aws_accounts d"
  "assets (record_audit e t r ou au ru d) = assets d"
  "findings (record_audit e t r ou au ru d) = findings d"
  "evaluation_jobs (record_audit e t r ou au ru d) = evaluation_jobs d"
  "rule_results (record_audit e t r ou au ru d) = rule_results d"
  "notification_events (record_audit e t r ou au ru d) = notification_events d"
  "platform_jobs (record_audit e t r ou au ru d) = platform_jobs d"
  "scan_schedules (record_audit e t r ou au ru d) = scan_schedules d"
  "scan_runs (record_audit e t r ou au ru d) = scan_runs d"
  "remediation_requests (record_audit e t r ou au ru d) = remediation_requests d"
  "invitations (record_audit e t r ou au ru d) = invitations d"
  "refresh_sessions (record_audit e t r ou au ru d) = refresh_sessions d"
  "external_id_reservations (record_audit e t r ou au ru d) = external_id_reservations d"
  "discovery_jobs (record_audit e t r ou au ru d) = discovery_jobs d"
  "delivery_attempts (record_audit e t r ou au ru d) = delivery_attempts d"
  by (simp_all add: record_audit_def)

lemma record_audit_events [simp]:
  "length (audit_events (record_audit e t r ou au ru d)) = Suc (length (audit_events d))"
  "take (length (audit_events d)) (audit_events (record_audit e t r ou au ru d)) = audit_events d"
  by (simp_all add: record_audit_def)

section \<open>The tables are row stores\<close>

interpretation job_table: row_store pj_id "get_row pj_id" "put_row pj_id"
  by (rule row_store_rows)

interpretation finding_table: row_store f_id "get_row f_id" "put_row f_id"
  by (rule row_store_rows)

interpretation evaluation_table: row_store ej_id "get_row ej_id" "put_row ej_id"
  by (rule row_store_rows)

interpretation request_table: row_store rr_id "get_row rr_id" "put_row rr_id"
  by (rule row_store_rows)

interpretation membership_table: row_store m_id "get_row m_id" "put_row m_id"
  by (rule row_store_rows)

interpretation account_table: row_store acc_id "get_row acc_id" "put_row acc_id"
  by (rule row_store_rows)

interpretation schedule_table: row_store ss_id "get_row ss_id" "put_row ss_id"
  by (rule row_store_rows)

interpretation event_table: row_store ne_id "get_row ne_id" "put_row ne_id"
  by (rule row_store_rows)

interpretation invitation_table: row_store oi_id "get_row oi_id" "put_row oi_id"
  by (rule row_store_rows)

interpretation session_table: row_store rt_id "get_row rt_id" "put_row rt_id"
  by (rule row_store_rows)

interpretation run_table: row_store sr_id "get_row sr_id" "put_row sr_id"
  by (rule row_store_rows)

end
