(* ===== verification/Risk_Engine.thy ===== *)
theory Risk_Engine
  imports Models "HOL-Library.Multiset"
begin

text \<open>
  The deterministic scoring policy of \<^verbatim>\<open>app/risk_engine.py\<close>: the point tables, the score and
  explanation of one finding, and the account and organization aggregates. Decimals appear
  in the source only as quotients of integers rounded half up; \<open>round_decimal num den\<close> is that
  rounding of \<open>num / den\<close> (the 28 digits of a Python \<^verbatim>\<open>Decimal\<close> separate a quotient of list
  sums from the nearest tie). The theory shows that no point of a score is lost to clamping
  from above, that scores grow with their inputs, and where the aggregates lie.
\<close>

section \<open>Point tables\<close>

definition POLICY_KEY :: string where
  "POLICY_KEY = ''CLOUDOPS_RISK_V1''"

definition POLICY_VERSION :: int where
  "POLICY_VERSION = 1"

definition COMPONENT_MAXIMUMS :: "(string \<times> int) list" where
  "COMPONENT_MAXIMUMS =
     [(''severity'', 30), (''exposure'', 15), (''exploitability'', 10), (''privilege'', 10),
      (''asset_criticality'', 10), (''environment'', 5), (''business_impact'', 10),
      (''data_sensitivity'', 5), (''age'', 5)]"

fun SEVERITY_POINTS :: "FindingSeverity \<Rightarrow> int" where
  "SEVERITY_POINTS FindingSeverity.CRITICAL = 30"
| "SEVERITY_POINTS FindingSeverity.HIGH = 24"
| "SEVERITY_POINTS FindingSeverity.MEDIUM = 16"
| "SEVERITY_POINTS FindingSeverity.LOW = 8"
| "SEVERITY_POINTS FindingSeverity.INFORMATIONAL = 0"

definition EXPOSURE_POINTS :: "(string \<times> int) list" where
  "EXPOSURE_POINTS =
     [(''public'', 15), (''internet_reachable'', 12), (''internal'', 5), (''none'', 0), (''unknown'', 7)]"

definition EXPLOITABILITY_POINTS :: "(string \<times> int) list" where
  "EXPLOITABILITY_POINTS = [(''high'', 10), (''medium'', 6), (''low'', 3), (''unknown'', 5)]"

definition PRIVILEGE_POINTS :: "(string \<times> int) list" where
  "PRIVILEGE_POINTS = [(''none'', 10), (''low'', 7), (''high'', 2), (''unknown'', 5)]"

fun CRITICALITY_POINTS :: "RiskCriticality \<Rightarrow> int" where
  "CRITICALITY_POINTS RiskCriticality.CRITICAL = 10"
| "CRITICALITY_POINTS RiskCriticality.HIGH = 8"
| "CRITICALITY_POINTS RiskCriticality.MEDIUM = 5"
| "CRITICALITY_POINTS RiskCriticality.LOW = 2"
| "CRITICALITY_POINTS RiskCriticality.UNKNOWN = 5"

fun ENVIRONMENT_POINTS :: "RiskEnvironment \<Rightarrow> int" where
  "ENVIRONMENT_POINTS RiskEnvironment.PRODUCTION = 5"
| "ENVIRONMENT_POINTS RiskEnvironment.STAGING = 3"
| "ENVIRONMENT_POINTS RiskEnvironment.DEVELOPMENT = 1"
| "ENVIRONMENT_POINTS RiskEnvironment.SANDBOX = 0"
| "ENVIRONMENT_POINTS RiskEnvironment.UNKNOWN = 2"

fun BUSINESS_IMPACT_POINTS :: "BusinessImpact \<Rightarrow> int" where
  "BUSINESS_IMPACT_POINTS BusinessImpact.CRITICAL = 10"
| "BUSINESS_IMPACT_POINTS BusinessImpact.HIGH = 8"
| "BUSINESS_IMPACT_POINTS BusinessImpact.MEDIUM = 5"
| "BUSINESS_IMPACT_POINTS BusinessImpact.LOW = 2"
| "BUSINESS_IMPACT_POINTS BusinessImpact.UNKNOWN = 5"

fun DATA_SENSITIVITY_POINTS :: "DataSensitivity \<Rightarrow> int" where
  "DATA_SENSITIVITY_POINTS DataSensitivity.RESTRICTED = 5"
| "DATA_SENSITIVITY_POINTS DataSensitivity.CONFIDENTIAL = 4"
| "DATA_SENSITIVITY_POINTS DataSensitivity.INTERNAL = 2"
| "DATA_SENSITIVITY_POINTS DataSensitivity.PUBLIC = 0"
| "DATA_SENSITIVITY_POINTS DataSensitivity.UNKNOWN = 2"

definition RULE_CONTEXT :: "(string \<times> string \<times> string) list" where
  "RULE_CONTEXT =
     [(''EC2_SG_SSH_OPEN_TO_WORLD'', ''public'', ''high''),
      (''EC2_SG_RDP_OPEN_TO_WORLD'', ''public'', ''high''),
      (''EC2_SG_ALL_TRAFFIC_OPEN_TO_WORLD'', ''public'', ''high''),
      (''EC2_INSTANCE_PUBLIC_IP'', ''public'', ''medium''),
      (''S3_BUCKET_PUBLIC_ACCESS_CONFIRMED'', ''public'', ''high''),
      (''RDS_INSTANCE_PUBLICLY_ACCESSIBLE'', ''public'', ''high''),
      (''IAM_ADMINISTRATOR_ACCESS_ATTACHED'', ''none'', ''high''),
      (''IAM_INLINE_POLICY_ALLOW_ALL'', ''none'', ''high'')]"

definition POLICY_BANDS :: "(string \<times> int \<times> int) list" where
  "POLICY_BANDS =
     [(RiskPriority_value RiskPriority.LOW, 0, 29), (RiskPriority_value RiskPriority.MEDIUM, 30, 59),
      (RiskPriority_value RiskPriority.HIGH, 60, 79), (RiskPriority_value RiskPriority.CRITICAL, 80, 100)]"

section \<open>Inputs and results\<close>

fun aware :: "datetime \<Rightarrow> datetime" where
  "aware (Aware t) = Aware t"
| "aware (Naive t) = Aware t"

record RiskInputs =
  severity :: FindingSeverity
  rule_key :: string
  first_seen_at :: datetime
  evaluation_time :: datetime
  criticality :: RiskCriticality
  environment :: RiskEnvironment
  business_impact :: BusinessImpact
  data_sensitivity :: DataSensitivity
  exposure :: "string option"
  exploitability :: "string option"
  required_privilege :: "string option"
  compensating_adjustment :: int

record RiskResult =
  score :: int
  priority :: RiskPriority
  components :: "(string \<times> int) list"
  explanation_codes :: "(string \<times> string) list"
  unknown_inputs :: "string list"

record AggregateRisk =
  agg_score :: int
  agg_priority :: RiskPriority
  highest :: int
  focused_mean :: int
  overall_mean :: int
  reason_code :: string

section \<open>Scoring one finding\<close>

definition clamp :: "int \<Rightarrow> int \<Rightarrow> int \<Rightarrow> int" where
  "clamp value minimum maximum = min maximum (max minimum value)"

definition priority_for_score :: "int \<Rightarrow> RiskPriority" where
  "priority_for_score s =
     (let checked = clamp s 0 100 in
      if checked \<ge> 80 then RiskPriority.CRITICAL
      else if checked \<ge> 60 then RiskPriority.HIGH
      else if checked \<ge> 30 then RiskPriority.MEDIUM
      else RiskPriority.LOW)"

definition age_points :: "datetime \<Rightarrow> datetime \<Rightarrow> int \<times> string" where
  "age_points first_seen evaluated =
     (let days = max 0 (days_of (utc_instant (aware evaluated) - utc_instant (aware first_seen))) in
      if days \<ge> 180 then (5, ''age_180_plus_days'')
      else if days \<ge> 90 then (4, ''age_90_179_days'')
      else if days \<ge> 30 then (3, ''age_30_89_days'')
      else if days \<ge> 7 then (1, ''age_7_29_days'')
      else (0, ''age_under_7_days''))"

definition known :: "string option \<Rightarrow> (string \<times> int) list \<Rightarrow> string \<Rightarrow> string" where
  "known value mapping fallback =
     (let normalized = (case value of
                          None \<Rightarrow> fallback
                        | Some v \<Rightarrow> if v = [] then fallback else casefold (strip v))
      in if normalized \<in> fst ` set mapping then normalized else ''unknown'')"

text \<open>A lookup in a point table; \<open>known\<close> only yields keys of the table, so none is missing.\<close>

definition points_at :: "(string \<times> int) list \<Rightarrow> string \<Rightarrow> int" where
  "points_at mapping k = (case map_of mapping k of Some v \<Rightarrow> v | None \<Rightarrow> 0)"

definition score_finding :: "RiskInputs \<Rightarrow> RiskResult" where
  "score_finding inputs =
     (let (context_exposure, context_exploitability) =
            (case map_of RULE_CONTEXT (rule_key inputs) of
               Some c \<Rightarrow> c | None \<Rightarrow> (''unknown'', ''unknown''));
          exp = known (exposure inputs) EXPOSURE_POINTS context_exposure;
          expl = known (exploitability inputs) EXPLOITABILITY_POINTS context_exploitability;
          priv = known (required_privilege inputs) PRIVILEGE_POINTS ''unknown'';
          adjustment = min 0 (max (-15) (compensating_adjustment inputs));
          (age_value, age_code) = age_points (first_seen_at inputs) (evaluation_time inputs);
          comps =
            [(''severity'', SEVERITY_POINTS (severity inputs)),
             (''exposure'', points_at EXPOSURE_POINTS exp),
             (''exploitability'', points_at EXPLOITABILITY_POINTS expl),
             (''privilege'', points_at PRIVILEGE_POINTS priv),
             (''asset_criticality'', CRITICALITY_POINTS (criticality inputs)),
             (''environment'', ENVIRONMENT_POINTS (environment inputs)),
             (''business_impact'', BUSINESS_IMPACT_POINTS (business_impact inputs)),
             (''data_sensitivity'', DATA_SENSITIVITY_POINTS (data_sensitivity inputs)),
             (''age'', age_value),
             (''compensating_controls'', adjustment)];
          total = clamp (sum_list (map snd comps)) 0 100;
          unknown = map fst (filter (\<lambda>(name, value). value = ''unknown'')
            [(''exposure'', exp), (''exploitability'', expl), (''required_privilege'', priv),
             (''asset_criticality'', RiskCriticality_value (criticality inputs)),
             (''environment'', RiskEnvironment_value (environment inputs)),
             (''business_impact'', BusinessImpact_value (business_impact inputs)),
             (''data_sensitivity'', DataSensitivity_value (data_sensitivity inputs))]);
          explanations =
            [(''severity'', ''severity_'' @ FindingSeverity_value (severity inputs)),
             (''exposure'', ''exposure_'' @ exp),
             (''exploitability'', ''exploitability_'' @ expl),
             (''privilege'', ''privilege_'' @ priv),
             (''asset_criticality'', ''criticality_'' @ RiskCriticality_value (criticality inputs)),
             (''environment'', ''environment_'' @ RiskEnvironment_value (environment inputs)),
             (''business_impact'', ''business_impact_'' @ BusinessImpact_value (business_impact inputs)),
             (''data_sensitivity'', ''data_sensitivity_'' @ DataSensitivity_value (data_sensitivity inputs)),
             (''age'', age_code),
             (''compensating_controls'',
                if adjustment \<noteq> 0 then ''compensating_control_applied'' else ''no_compensating_control'')]
      in \<lparr>score = total, priority = priority_for_score total, components = comps,
          explanation_codes = explanations, unknown_inputs = unknown\<rparr>)"

section \<open>Aggregates\<close>

definition round_decimal :: "int \<Rightarrow> int \<Rightarrow> int" where
  "round_decimal num den =
     (if num \<ge> 0 then (2 * num + den) div (2 * den) else - ((2 * (- num) + den) div (2 * den)))"

definition mean :: "int list \<Rightarrow> int" where
  "mean values = (if values = [] then 0 else round_decimal (sum_list values) (int (length values)))"

definition weighted :: "(int \<times> int) list \<Rightarrow> int" where
  "weighted parts = clamp (round_decimal (sum_list (map (\<lambda>(v, w). v * w) parts)) 100) 0 100"

definition account_risk :: "int list \<Rightarrow> AggregateRisk" where
  "account_risk scores =
     (if scores = [] then
        \<lparr>agg_score = 0, agg_priority = RiskPriority.LOW, highest = 0, focused_mean = 0, overall_mean = 0,
         reason_code = ''no_active_findings''\<rparr>
      else
        let ordered = rev (sort (map (\<lambda>s. clamp s 0 100) scores));
            hi = hd ordered;
            top_ten_mean = mean (take 10 ordered);
            all_mean = mean ordered;
            s = weighted [(hi, 50), (top_ten_mean, 30), (all_mean, 20)]
        in \<lparr>agg_score = s, agg_priority = priority_for_score s, highest = hi, focused_mean = top_ten_mean,
            overall_mean = all_mean, reason_code = ''active_findings_scored''\<rparr>)"

definition organization_risk :: "int list \<Rightarrow> AggregateRisk" where
  "organization_risk account_scores =
     (if account_scores = [] then
        \<lparr>agg_score = 0, agg_priority = RiskPriority.LOW, highest = 0, focused_mean = 0, overall_mean = 0,
         reason_code = ''no_accounts_scored''\<rparr>
      else
        let checked = map (\<lambda>s. clamp s 0 100) account_scores;
            hi = Max (set checked);
            m = mean checked;
            s = weighted [(hi, 60), (m, 40)]
        in \<lparr>agg_score = s, agg_priority = priority_for_score s, highest = hi, focused_mean = m,
            overall_mean = m, reason_code = ''account_risk_aggregated''\<rparr>)"

section \<open>Lemmas on points\<close>

lemma known_in_table:
  assumes "''unknown'' \<in> fst ` set mapping"
  shows "known value mapping fallback \<in> fst ` set mapping"
  using assms by (simp add: known_def Let_def)

lemma points_at_range:
  assumes "k \<in> fst ` set mapping" and "\<And>v. v \<in> snd ` set mapping \<Longrightarrow> lo \<le> v \<and> v \<le> hi"
  shows "lo \<le> points_at mapping k \<and> points_at mapping k \<le> hi"
proof -
  from assms(1) obtain v where "map_of mapping k = Some v"
    by (metis map_of_eq_None_iff not_None_eq)
  then have "v \<in> snd ` set mapping" by (force dest: map_of_SomeD)
  with assms(2) \<open>map_of mapping k = Some v\<close> show ?thesis by (simp add: points_at_def)
qed

lemma exposure_points_range:
  "0 \<le> points_at EXPOSURE_POINTS (known v EXPOSURE_POINTS fb) \<and>
   points_at EXPOSURE_POINTS (known v EXPOSURE_POINTS fb) \<le> 15"
  by (rule points_at_range [OF known_in_table]) (auto simp: EXPOSURE_POINTS_def)

lemma exploitability_points_range:
  "0 \<le> points_at EXPLOITABILITY_POINTS (known v EXPLOITABILITY_POINTS fb) \<and>
   points_at EXPLOITABILITY_POINTS (known v EXPLOITABILITY_POINTS fb) \<le> 10"
  by (rule points_at_range [OF known_in_table]) (auto simp: EXPLOITABILITY_POINTS_def)

lemma privilege_points_range:
  "0 \<le> points_at PRIVILEGE_POINTS (known v PRIVILEGE_POINTS fb) \<and>
   points_at PRIVILEGE_POINTS (known v PRIVILEGE_POINTS fb) \<le> 10"
  by (rule points_at_range [OF known_in_table]) (auto simp: PRIVILEGE_POINTS_def)

lemma severity_points_range: "0 \<le> SEVERITY_POINTS x \<and> SEVERITY_POINTS x \<le> 30"
  by (cases x) simp_all

lemma criticality_points_range: "0 \<le> CRITICALITY_POINTS x \<and> CRITICALITY_POINTS x \<le> 10"
  by (cases x) simp_all

lemma environment_points_range: "0 \<le> ENVIRONMENT_POINTS x \<and> ENVIRONMENT_POINTS x \<le> 5"
  by (cases x) simp_all

lemma business_impact_points_range: "0 \<le> BUSINESS_IMPACT_POINTS x \<and> BUSINESS_IMPACT_POINTS x \<le> 10"
  by (cases x) simp_all

lemma data_sensitivity_points_range: "0 \<le> DATA_SENSITIVITY_POINTS x \<and> DATA_SENSITIVITY_POINTS x \<le> 5"
  by (cases x) simp_all

lemma age_points_range: "0 \<le> fst (age_points a b) \<and> fst (age_points a b) \<le> 5"
  by (simp add: age_points_def Let_def)

lemmas point_ranges = exposure_points_range exploitability_points_range privilege_points_range
  severity_points_range criticality_points_range environment_points_range
  business_impact_points_range data_sensitivity_points_range age_points_range

lemma days_of_mono: "a \<le> b \<Longrightarrow> days_of a \<le> days_of b"
  by (simp add: days_of_def timedelta_days_def timedelta_seconds_def zdiv_mono1)

lemma age_points_mono:
  assumes "utc_instant a - utc_instant b \<le> utc_instant c - utc_instant d"
  shows "fst (age_points b a) \<le> fst (age_points d c)"
proof -
  have aw: "utc_instant (aware x) = utc_instant x" for x by (cases x) simp_all
  show ?thesis
    using days_of_mono [OF assms] by (auto simp: age_points_def Let_def aw)
qed

section \<open>Lemmas on rounding\<close>

lemma round_decimal_mono:
  assumes "0 < b" and "0 < d" and "0 \<le> a" and "0 \<le> c" and "a * d \<le> c * b"
  shows "round_decimal a b \<le> round_decimal c d"
proof -
  define q where "q = (2 * a + b) div (2 * b)"
  have "q * (2 * b) + (2 * a + b) mod (2 * b) = 2 * a + b"
    unfolding q_def by (rule div_mult_mod_eq)
  moreover have "0 \<le> (2 * a + b) mod (2 * b)"
    using assms(1) by simp
  ultimately have "q * (2 * b) \<le> 2 * a + b"
    by linarith
  then have "q * (2 * b) * d \<le> (2 * a + b) * d"
    using assms(2) by (intro mult_right_mono) auto
  also have "\<dots> \<le> 2 * (c * b) + b * d"
    using assms(5) by (simp add: distrib_right)
  finally have "(q * (2 * d)) * b \<le> (2 * c + d) * b"
    by (simp add: algebra_simps)
  then have "q * (2 * d) \<le> 2 * c + d"
    using assms(1) by (simp add: mult_le_cancel_right)
  then have "(q * (2 * d)) div (2 * d) \<le> (2 * c + d) div (2 * d)"
    using assms(2) by (intro zdiv_mono1) auto
  then have "q \<le> (2 * c + d) div (2 * d)"
    using assms(2) by simp
  with assms show ?thesis by (simp add: round_decimal_def q_def)
qed

lemma round_decimal_exact: "0 < d \<Longrightarrow> 0 \<le> a \<Longrightarrow> round_decimal (a * d) d = a"
proof -
  assume d: "0 < d" and a: "0 \<le> a"
  have "(2 * (a * d) + d) div (2 * d) = (d + a * (2 * d)) div (2 * d)"
    by (simp add: algebra_simps)
  also have "\<dots> = a + d div (2 * d)"
    using d by (subst div_mult_self1) auto
  also have "d div (2 * d) = 0"
    using d by (intro div_pos_pos_trivial) auto
  finally show ?thesis
    using d a by (simp add: round_decimal_def)
qed

lemma clamp_range: "lo \<le> hi \<Longrightarrow> lo \<le> clamp x lo hi \<and> clamp x lo hi \<le> hi"
  by (simp add: clamp_def)

lemma clamp_id: "lo \<le> x \<Longrightarrow> x \<le> hi \<Longrightarrow> clamp x lo hi = x"
  by (simp add: clamp_def)

lemma sum_list_lower:
  fixes xs :: "int list"
  assumes "\<forall>x \<in> set xs. lo \<le> x"
  shows "lo * int (length xs) \<le> sum_list xs"
  using assms by (induction xs) (auto simp: algebra_simps)

lemma sum_list_upper:
  fixes xs :: "int list"
  assumes "\<forall>x \<in> set xs. x \<le> hi"
  shows "sum_list xs \<le> hi * int (length xs)"
  using assms by (induction xs) (auto simp: algebra_simps)

lemma mean_bounds:
  assumes "xs \<noteq> []" and "\<forall>x \<in> set xs. lo \<le> x \<and> x \<le> hi" and "0 \<le> lo"
  shows "lo \<le> mean xs \<and> mean xs \<le> hi"
proof -
  let ?n = "int (length xs)"
  have n: "0 < ?n" using assms(1) by simp
  have b: "lo * ?n \<le> sum_list xs" "sum_list xs \<le> hi * ?n"
    using sum_list_lower [of xs lo] sum_list_upper [of xs hi] assms(2) by auto
  have hi: "0 \<le> hi" using assms by (cases xs) auto
  have s: "0 \<le> sum_list xs" using b(1) assms(3) n by (meson mult_nonneg_nonneg order_trans less_imp_le)
  have "round_decimal (lo * ?n) ?n \<le> round_decimal (sum_list xs) ?n"
    using b n s assms(3) by (intro round_decimal_mono) auto
  moreover have "round_decimal (sum_list xs) ?n \<le> round_decimal (hi * ?n) ?n"
    using b n s hi by (intro round_decimal_mono) auto
  ultimately show ?thesis
    using assms(1,3) n hi by (simp add: mean_def round_decimal_exact)
qed

text \<open>In a descending list the mean of a prefix is at least the mean of the whole list.\<close>

lemma prefix_sum_dominates:
  fixes xs :: "int list"
  assumes "sorted (rev xs)" and "k \<le> length xs"
  shows "sum_list xs * int k \<le> sum_list (take k xs) * int (length xs)"
proof (cases "k = length xs \<or> k = 0")
  case True
  then show ?thesis using assms(2) by auto
next
  case False
  with assms(2) have k: "k < length xs" "0 < k" by auto
  let ?a = "take k xs" and ?b = "drop k xs" and ?m = "xs ! k"
  have desc: "i \<le> j \<Longrightarrow> j < length xs \<Longrightarrow> xs ! j \<le> xs ! i" for i j
    using assms(1) by (simp add: sorted_rev_iff_nth_mono)
  have "\<forall>x \<in> set ?a. ?m \<le> x"
    using desc k by (auto simp: in_set_conv_nth)
  then have A: "?m * int k \<le> sum_list ?a"
    using sum_list_lower [of ?a ?m] k by simp
  have "\<forall>x \<in> set ?b. x \<le> ?m"
    using desc k by (auto simp: in_set_conv_nth)
  then have B: "sum_list ?b \<le> ?m * int (length xs - k)"
    using sum_list_upper [of ?b ?m] k by simp
  have "sum_list xs = sum_list ?a + sum_list ?b"
    by (metis append_take_drop_id sum_list_append)
  then have "sum_list xs * int k = sum_list ?a * int k + sum_list ?b * int k"
    by (simp add: distrib_right)
  also have "\<dots> \<le> sum_list ?a * int k + (?m * int (length xs - k)) * int k"
    using B by (simp add: mult_right_mono)
  also have "\<dots> = sum_list ?a * int k + (?m * int k) * int (length xs - k)"
    by simp
  also have "\<dots> \<le> sum_list ?a * int k + sum_list ?a * int (length xs - k)"
    using A by (simp add: mult_right_mono)
  also have "\<dots> = sum_list ?a * int (length xs)"
    using k by (simp add: of_nat_diff algebra_simps)
  finally show ?thesis .
qed

lemma prefix_mean_ge:
  assumes "sorted (rev xs)" and "xs \<noteq> []" and "0 < k" and "\<forall>x \<in> set xs. 0 \<le> x"
  shows "mean xs \<le> mean (take k xs)"
proof -
  let ?k = "min k (length xs)"
  have pos: "0 < int ?k" "0 < int (length xs)" using assms by auto
  have nn: "0 \<le> sum_list ys" if "set ys \<subseteq> set xs" for ys :: "int list"
    using that assms(4) by (intro sum_list_nonneg) auto
  have "sum_list xs * int ?k \<le> sum_list (take ?k xs) * int (length xs)"
    by (rule prefix_sum_dominates [OF assms(1)]) simp
  then have "round_decimal (sum_list xs) (int (length xs)) \<le> round_decimal (sum_list (take ?k xs)) (int ?k)"
    using pos nn [of xs] nn [of "take ?k xs"] by (intro round_decimal_mono) (auto dest: in_set_takeD)
  then show ?thesis
    using assms(2,3) by (simp add: mean_def min_def split: if_splits)
qed

lemma weighted_between:
  assumes "\<forall>(v, w) \<in> set parts. lo \<le> v \<and> v \<le> hi \<and> 0 \<le> w" and "sum_list (map snd parts) = 100"
    and "0 \<le> lo" and "lo \<le> hi" and "hi \<le> 100"
  shows "lo \<le> weighted parts \<and> weighted parts \<le> hi"
proof -
  have "lo * sum_list (map snd parts) \<le> sum_list (map (\<lambda>(v, w). v * w) parts) \<and>
        sum_list (map (\<lambda>(v, w). v * w) parts) \<le> hi * sum_list (map snd parts)"
    using assms(1)
  proof (induction parts)
    case Nil
    then show ?case by simp
  next
    case (Cons p ps)
    obtain v w where "p = (v, w)" by (cases p)
    with Cons show ?case
      using mult_right_mono [of lo v w] mult_right_mono [of v hi w] by (auto simp: algebra_simps)
  qed
  then have b: "lo * 100 \<le> sum_list (map (\<lambda>(v, w). v * w) parts)"
      "sum_list (map (\<lambda>(v, w). v * w) parts) \<le> hi * 100"
    using assms(2) by auto
  let ?r = "round_decimal (sum_list (map (\<lambda>(v, w). v * w) parts)) 100"
  have "round_decimal (lo * 100) 100 \<le> ?r" "?r \<le> round_decimal (hi * 100) 100"
    using b assms(3,4) by (auto intro!: round_decimal_mono)
  then have "lo \<le> ?r" "?r \<le> hi"
    using assms(3,4) by (simp_all add: round_decimal_exact)
  with assms(3,5) show ?thesis by (simp add: weighted_def clamp_def)
qed

lemma sum_components:
  "sum_list (map snd (components (score_finding i))) =
     SEVERITY_POINTS (severity i) +
     points_at EXPOSURE_POINTS (known (exposure i) EXPOSURE_POINTS
       (case map_of RULE_CONTEXT (rule_key i) of Some c \<Rightarrow> fst c | None \<Rightarrow> ''unknown'')) +
     points_at EXPLOITABILITY_POINTS (known (exploitability i) EXPLOITABILITY_POINTS
       (case map_of RULE_CONTEXT (rule_key i) of Some c \<Rightarrow> snd c | None \<Rightarrow> ''unknown'')) +
     points_at PRIVILEGE_POINTS (known (required_privilege i) PRIVILEGE_POINTS ''unknown'') +
     CRITICALITY_POINTS (criticality i) + ENVIRONMENT_POINTS (environment i) +
     BUSINESS_IMPACT_POINTS (business_impact i) + DATA_SENSITIVITY_POINTS (data_sensitivity i) +
     fst (age_points (first_seen_at i) (evaluation_time i)) +
     min 0 (max (-15) (compensating_adjustment i))"
  by (simp add: score_finding_def Let_def split_beta split: option.split)

lemma score_eq_clamped_sum:
  "score (score_finding i) = clamp (sum_list (map snd (components (score_finding i)))) 0 100"
  by (simp add: score_finding_def Let_def split_beta)

lemma component_total_le_100: "sum_list (map snd (components (score_finding i))) \<le> 100"
  unfolding sum_components
  using point_ranges(1) [of "exposure i"
      "case map_of RULE_CONTEXT (rule_key i) of Some c \<Rightarrow> fst c | None \<Rightarrow> ''unknown''"]
    point_ranges(2) [of "exploitability i"
      "case map_of RULE_CONTEXT (rule_key i) of Some c \<Rightarrow> snd c | None \<Rightarrow> ''unknown''"]
    point_ranges(3) [of "required_privilege i" "''unknown''"]
    point_ranges(4) [of "severity i"] point_ranges(5) [of "criticality i"]
    point_ranges(6) [of "environment i"] point_ranges(7) [of "business_impact i"]
    point_ranges(8) [of "data_sensitivity i"] point_ranges(9) [of "first_seen_at i" "evaluation_time i"]
    min.cobounded1 [of 0 "max (- 15) (compensating_adjustment i)"]
  by linarith

lemma components_below_maximums:
  "\<forall>(name, pts) \<in> set (components (score_finding i)).
     (case map_of COMPONENT_MAXIMUMS name of
        Some m \<Rightarrow> 0 \<le> pts \<and> pts \<le> m
      | None \<Rightarrow> name = ''compensating_controls'' \<and> -15 \<le> pts \<and> pts \<le> 0)"
  by (simp add: score_finding_def Let_def split_beta COMPONENT_MAXIMUMS_def point_ranges)

lemma account_ordered:
  assumes "scores \<noteq> []"
  defines "ordered \<equiv> rev (sort (map (\<lambda>s. clamp s 0 100) scores))"
  shows "ordered \<noteq> []" "sorted (rev ordered)" "\<forall>x \<in> set ordered. 0 \<le> x \<and> x \<le> hd ordered" "hd ordered \<le> 100"
proof -
  have "length ordered = length scores" by (simp add: ordered_def)
  with assms(1) show ne: "ordered \<noteq> []" by fastforce
  show sd: "sorted (rev ordered)" by (simp add: ordered_def)
  have r: "\<forall>x \<in> set ordered. 0 \<le> x \<and> x \<le> 100"
    by (auto simp: ordered_def clamp_def)
  then show "hd ordered \<le> 100" using ne by simp
  have "\<forall>x \<in> set ordered. x \<le> hd ordered"
    using sd ne by (cases ordered) (auto simp: sorted_append)
  with r show "\<forall>x \<in> set ordered. 0 \<le> x \<and> x \<le> hd ordered" by blast
qed

section \<open>Properties\<close>

text \<open>
  C9. The score of a finding is the sum of its components, floored at 0: clamping at 100 never
  discards points. Every component except the compensating controls lies between 0 and its
  documented maximum, and the compensating adjustment lies between -15 and 0.
\<close>

theorem score_finding_accounts_for_every_point:
  "score (score_finding i) = max 0 (sum_list (map snd (components (score_finding i)))) \<and>
   0 \<le> score (score_finding i) \<and> score (score_finding i) \<le> 100 \<and>
   sum_list (map snd COMPONENT_MAXIMUMS) = 100 \<and>
   (\<forall>(name, pts) \<in> set (components (score_finding i)).
     (case map_of COMPONENT_MAXIMUMS name of
        Some m \<Rightarrow> 0 \<le> pts \<and> pts \<le> m
      | None \<Rightarrow> name = ''compensating_controls'' \<and> -15 \<le> pts \<and> pts \<le> 0))"
proof -
  have "score (score_finding i) = max 0 (sum_list (map snd (components (score_finding i))))"
    using component_total_le_100 [of i] by (simp add: score_eq_clamped_sum clamp_def)
  moreover have "0 \<le> score (score_finding i) \<and> score (score_finding i) \<le> 100"
    by (simp add: score_eq_clamped_sum clamp_range)
  moreover have "sum_list (map snd COMPONENT_MAXIMUMS) = 100"
    by (simp add: COMPONENT_MAXIMUMS_def)
  ultimately show ?thesis using components_below_maximums by blast
qed

theorem score_finding_accounts_for_every_point_witness:
  "score (score_finding
     \<lparr>severity = FindingSeverity.HIGH, rule_key = ''OTHER'', first_seen_at = Naive 0,
      evaluation_time = Aware (31 * 86400 * 1000000), criticality = RiskCriticality.UNKNOWN,
      environment = RiskEnvironment.UNKNOWN, business_impact = BusinessImpact.UNKNOWN,
      data_sensitivity = DataSensitivity.UNKNOWN, exposure = None, exploitability = None,
      required_privilege = None, compensating_adjustment = 0\<rparr>) = 58"
proof -
  let ?i = "\<lparr>severity = FindingSeverity.HIGH, rule_key = ''OTHER'', first_seen_at = Naive 0,
      evaluation_time = Aware (31 * 86400 * 1000000), criticality = RiskCriticality.UNKNOWN,
      environment = RiskEnvironment.UNKNOWN, business_impact = BusinessImpact.UNKNOWN,
      data_sensitivity = DataSensitivity.UNKNOWN, exposure = None, exploitability = None,
      required_privilege = None, compensating_adjustment = 0\<rparr>"
  have "sum_list (map snd (components (score_finding ?i))) = 58"
    by (simp add: sum_components RULE_CONTEXT_def known_def Let_def EXPOSURE_POINTS_def
        EXPLOITABILITY_POINTS_def PRIVILEGE_POINTS_def points_at_def age_points_def days_of_def
        timedelta_days_def timedelta_seconds_def)
  with score_finding_accounts_for_every_point [of ?i] show ?thesis by simp
qed

text \<open>
  Scoring is monotone: a finding of at least the severity points, at least the age and no
  larger compensation, otherwise equal, never scores lower.
\<close>

theorem score_finding_mono:
  assumes "SEVERITY_POINTS (severity i) \<le> SEVERITY_POINTS s"
    and "compensating_adjustment i \<le> adj"
    and "utc_instant (evaluation_time i) \<le> utc_instant t"
  shows "score (score_finding i) \<le>
         score (score_finding (i\<lparr>severity := s, compensating_adjustment := adj, evaluation_time := t\<rparr>))"
proof -
  have "fst (age_points (first_seen_at i) (evaluation_time i)) \<le> fst (age_points (first_seen_at i) t)"
    using assms(3) by (intro age_points_mono) simp
  with assms(1,2) have "sum_list (map snd (components (score_finding i))) \<le>
      sum_list (map snd (components
        (score_finding (i\<lparr>severity := s, compensating_adjustment := adj, evaluation_time := t\<rparr>))))"
    by (auto simp: sum_components)
  then show ?thesis by (auto simp: score_eq_clamped_sum clamp_def)
qed

theorem score_finding_mono_witness:
  "let i = \<lparr>severity = FindingSeverity.LOW, rule_key = ''EC2_SG_SSH_OPEN_TO_WORLD'', first_seen_at = Naive 0,
        evaluation_time = Naive 0, criticality = RiskCriticality.HIGH,
        environment = RiskEnvironment.PRODUCTION, business_impact = BusinessImpact.LOW,
        data_sensitivity = DataSensitivity.PUBLIC, exposure = None, exploitability = Some ''Low'',
        required_privilege = None, compensating_adjustment = -10\<rparr>
   in score (score_finding i) \<le>
      score (score_finding (i\<lparr>severity := FindingSeverity.CRITICAL, compensating_adjustment := 0,
        evaluation_time := Aware 99\<rparr>))"
  unfolding Let_def by (rule score_finding_mono) simp_all

text \<open>
  The account aggregate depends only on the multiset of scores, and for a non-empty account
  its parts are ordered: mean of all findings, mean of the ten highest, highest finding; the
  account score lies between the overall mean and the highest score, within 0 and 100.
\<close>

theorem account_risk_ordered:
  assumes "scores \<noteq> []"
  shows "(mset scores' = mset scores \<longrightarrow> account_risk scores' = account_risk scores) \<and>
    0 \<le> overall_mean (account_risk scores) \<and>
    overall_mean (account_risk scores) \<le> focused_mean (account_risk scores) \<and>
    focused_mean (account_risk scores) \<le> highest (account_risk scores) \<and>
    overall_mean (account_risk scores) \<le> agg_score (account_risk scores) \<and>
    agg_score (account_risk scores) \<le> highest (account_risk scores) \<and>
    highest (account_risk scores) \<le> 100"
proof -
  let ?o = "rev (sort (map (\<lambda>s. clamp s 0 100) scores))"
  note o = account_ordered [OF assms]
  have ar: "highest (account_risk scores) = hd ?o"
      "focused_mean (account_risk scores) = mean (take 10 ?o)"
      "overall_mean (account_risk scores) = mean ?o"
      "agg_score (account_risk scores) = weighted [(hd ?o, 50), (mean (take 10 ?o), 30), (mean ?o, 20)]"
    using assms by (simp_all add: account_risk_def Let_def)
  have m1: "0 \<le> mean ?o \<and> mean ?o \<le> hd ?o"
    using o by (intro mean_bounds) auto
  have m2: "0 \<le> mean (take 10 ?o) \<and> mean (take 10 ?o) \<le> hd ?o"
    using o(1) o(3) set_take_subset [of 10 ?o] by (intro mean_bounds) (blast | simp)+
  have m3: "mean ?o \<le> mean (take 10 ?o)"
    using o by (intro prefix_mean_ge) auto
  have w: "mean ?o \<le> weighted [(hd ?o, 50), (mean (take 10 ?o), 30), (mean ?o, 20)] \<and>
      weighted [(hd ?o, 50), (mean (take 10 ?o), 30), (mean ?o, 20)] \<le> hd ?o"
    using m1 m2 m3 o(4) by (intro weighted_between) auto
  have perm: "account_risk scores' = account_risk scores" if "mset scores' = mset scores"
  proof -
    have "sort (map (\<lambda>s. clamp s 0 100) scores') = sort (map (\<lambda>s. clamp s 0 100) scores)"
      using that by (intro properties_for_sort) (simp_all add: mset_map)
    moreover have "scores' \<noteq> []" using that assms by auto
    ultimately show ?thesis using assms by (simp add: account_risk_def)
  qed
  from ar m1 m2 m3 w o(4) perm show ?thesis by simp
qed

theorem account_risk_ordered_witness:
  "overall_mean (account_risk [20, 90]) \<le> focused_mean (account_risk [20, 90]) \<and>
   agg_score (account_risk [20, 90]) \<le> highest (account_risk [20, 90]) \<and>
   account_risk [90, 20] = account_risk [20, 90]"
  using account_risk_ordered [of "[20, 90]" "[90, 20]"] by (simp add: add_mset_commute)

text \<open>
  The organization aggregate lies between the mean and the highest of its account scores, and
  every score in range falls in exactly the published band of its priority.
\<close>

theorem organization_risk_and_bands:
  assumes "account_scores \<noteq> []" and "0 \<le> s" and "s \<le> 100"
  shows "overall_mean (organization_risk account_scores) \<le> agg_score (organization_risk account_scores) \<and>
    agg_score (organization_risk account_scores) \<le> highest (organization_risk account_scores) \<and>
    highest (organization_risk account_scores) \<le> 100 \<and>
    (\<forall>(name, lo, hi) \<in> set POLICY_BANDS.
       RiskPriority_value (priority_for_score s) = name \<longleftrightarrow> lo \<le> s \<and> s \<le> hi)"
proof -
  let ?c = "map (\<lambda>s. clamp s 0 100) account_scores"
  have ne: "?c \<noteq> []" using assms(1) by simp
  have r: "\<forall>x \<in> set ?c. 0 \<le> x \<and> x \<le> Max (set ?c)" by (auto simp: clamp_def)
  have mx: "Max (set ?c) \<le> 100" using ne by (subst Max_le_iff) (auto simp: clamp_def)
  have m: "0 \<le> mean ?c \<and> mean ?c \<le> Max (set ?c)"
    using r ne by (intro mean_bounds) auto
  have w: "mean ?c \<le> weighted [(Max (set ?c), 60), (mean ?c, 40)] \<and>
      weighted [(Max (set ?c), 60), (mean ?c, 40)] \<le> Max (set ?c)"
    using m mx by (intro weighted_between) auto
  have bands: "\<forall>(name, lo, hi) \<in> set POLICY_BANDS.
      RiskPriority_value (priority_for_score s) = name \<longleftrightarrow> lo \<le> s \<and> s \<le> hi"
    using assms(2,3) by (auto simp: POLICY_BANDS_def priority_for_score_def Let_def clamp_def)
  from w mx bands assms(1) show ?thesis by (simp add: organization_risk_def Let_def)
qed

theorem organization_risk_and_bands_witness:
  "agg_score (organization_risk [10, 70]) \<le> highest (organization_risk [10, 70]) \<and>
   RiskPriority_value (priority_for_score 65) = ''high''"
  using organization_risk_and_bands [of "[10, 70]" 65] by (simp add: POLICY_BANDS_def)

end
