(* ===== verification/Security_Rules.thy ===== *)
theory Security_Rules
  imports Models
begin

text \<open>
  The deterministic security rules of \<^verbatim>\<open>app/security_rules\<close>: the sanitizing of evidence
  (\<^verbatim>\<open>results.py\<close>), the rule type with its applicability (\<^verbatim>\<open>base.py\<close>), the evaluators and rule
  tables of the six service files in the order of the files, and the registry
  (\<^verbatim>\<open>registry.py\<close>). An evaluator returns a result or the exception that Python would raise on
  the metadata; the evaluation service turns the latter into an error result. \<open>fromiso\<close> stands for
  \<^verbatim>\<open>datetime.fromisoformat\<close>, with \<open>None\<close> for its \<^verbatim>\<open>ValueError\<close>.
\<close>

section \<open>Results\<close>

definition MAX_EVIDENCE_ITEMS :: nat where
  "MAX_EVIDENCE_ITEMS = 50"

definition MAX_EVIDENCE_STRING :: nat where
  "MAX_EVIDENCE_STRING = 1000"

function sanitize_evidence :: "nat \<Rightarrow> json \<Rightarrow> json" where
  "sanitize_evidence depth (JDict d) =
     (if 5 < depth then JStr ''[truncated]''
      else JDict (dict_of
        (map (\<lambda>kv. (take 120 (fst kv), sanitize_evidence (depth + 1) (snd kv)))
          (filter (\<lambda>kv. \<not> SENSITIVE_RESULT_KEY (fst kv)) (take MAX_EVIDENCE_ITEMS d)))))"
| "sanitize_evidence depth (JList xs) =
     (if 5 < depth then JStr ''[truncated]''
      else JList (map (\<lambda>x. sanitize_evidence (depth + 1) x) (take MAX_EVIDENCE_ITEMS xs)))"
| "sanitize_evidence depth (JStr s) =
     (if 5 < depth then JStr ''[truncated]'' else JStr (take MAX_EVIDENCE_STRING s))"
| "sanitize_evidence depth JNull = (if 5 < depth then JStr ''[truncated]'' else JNull)"
| "sanitize_evidence depth (JBool b) = (if 5 < depth then JStr ''[truncated]'' else JBool b)"
| "sanitize_evidence depth (JInt i) = (if 5 < depth then JStr ''[truncated]'' else JInt i)"
| "sanitize_evidence depth (JObj s) =
     (if 5 < depth then JStr ''[truncated]'' else JStr (take MAX_EVIDENCE_STRING s))"
  by pat_completeness auto
termination
  by (relation "measure (\<lambda>(n, v). size v)")
    (auto simp del: json.size dest: in_set_takeD intro: size_list_value size_dict_value)

record RuleResult =
  rs_status :: RuleResultStatus
  rs_evidence :: json
  rs_error_code :: "string option"

text \<open>Every result is built through the constructor, which sanitizes the evidence.\<close>

definition rule_result :: "RuleResultStatus \<Rightarrow> dict \<Rightarrow> string option \<Rightarrow> RuleResult" where
  "rule_result status evidence error_code =
     \<lparr>rs_status = status, rs_evidence = sanitize_evidence 0 (JDict evidence), rs_error_code = error_code\<rparr>"

definition passed :: "dict \<Rightarrow> RuleResult" where
  "passed evidence = rule_result RuleResultStatus.PASSED evidence None"

definition failed :: "dict \<Rightarrow> RuleResult" where
  "failed evidence = rule_result RuleResultStatus.FAILED evidence None"

definition not_applicable :: "string \<Rightarrow> RuleResult" where
  "not_applicable reason = rule_result RuleResultStatus.NOT_APPLICABLE [(''reason'', JStr reason)] None"

definition error_result :: "string \<Rightarrow> RuleResult" where
  "error_result code = rule_result RuleResultStatus.ERROR [] (Some code)"

definition INCOMPLETE :: string where
  "INCOMPLETE = ''invalid_or_incomplete_metadata''"

section \<open>Rules\<close>

record RuleContext =
  rc_account_assets :: "Asset list"
  rc_evaluated_at :: instant

definition assets_of_type :: "AssetType \<Rightarrow> RuleContext \<Rightarrow> Asset list" where
  "assets_of_type t context = filter (\<lambda>a. as_asset_type a = t) (rc_account_assets context)"

type_synonym evaluator = "Asset option \<Rightarrow> RuleContext \<Rightarrow> exn + RuleResult"

record SecurityRule =
  rl_key :: string
  rl_version :: int
  rl_name :: string
  rl_description :: string
  rl_service :: string
  rl_asset_type :: "AssetType option"
  rl_category :: string
  rl_severity :: FindingSeverity
  rl_remediation :: string
  rl_references :: "string list"
  rl_enabled_by_default :: bool
  rl_additional_asset_types :: "AssetType list"
  rl_evaluator :: evaluator

definition rule_post_init :: "SecurityRule \<Rightarrow> exn + unit" where
  "rule_post_init r =
     (if rl_key r = [] \<or> rl_version r \<le> 0 then
        Inl (ValueError ''Rules require a stable key and positive version.'')
      else if rl_asset_type r = None \<and> rl_additional_asset_types r \<noteq> [] then
        Inl (ValueError ''Account-level rules cannot declare additional asset types.'')
      else Inr ())"

definition rule_asset_types :: "SecurityRule \<Rightarrow> AssetType list" where
  "rule_asset_types r =
     (case rl_asset_type r of None \<Rightarrow> [] | Some t \<Rightarrow> t # rl_additional_asset_types r)"

definition applies_to :: "SecurityRule \<Rightarrow> Asset option \<Rightarrow> bool" where
  "applies_to r asset =
     (case rl_asset_type r of
        None \<Rightarrow> asset = None
      | Some _ \<Rightarrow> (case asset of None \<Rightarrow> False | Some a \<Rightarrow> as_asset_type a \<in> set (rule_asset_types r)))"

definition evaluate :: "SecurityRule \<Rightarrow> Asset option \<Rightarrow> RuleContext \<Rightarrow> exn + RuleResult" where
  "evaluate r asset context =
     (if \<not> applies_to r asset then Inr (not_applicable ''asset_type_mismatch'')
      else rl_evaluator r asset context)"

text \<open>\<^verbatim>\<open>assert asset is not None\<close> at the head of an evaluator.\<close>

definition on_asset :: "(Asset \<Rightarrow> RuleContext \<Rightarrow> exn + RuleResult) \<Rightarrow> evaluator" where
  "on_asset f asset context = (case asset of None \<Rightarrow> Inl AssertionError | Some a \<Rightarrow> f a context)"

text \<open>The value of a field that must be present, and the two outcomes of a test on it.\<close>

definition verdict :: "bool \<Rightarrow> dict \<Rightarrow> RuleResult" where
  "verdict unsafe evidence = (if unsafe then failed evidence else passed evidence)"

section \<open>EC2\<close>

definition WORLD_CIDRS :: "string list" where
  "WORLD_CIDRS = [''0.0.0.0/0'', ''::/0'']"

fun dict_value :: "json \<Rightarrow> dict option" where
  "dict_value (JDict d) = Some d"
| "dict_value _ = None"

definition permissions :: "Asset \<Rightarrow> dict list option" where
  "permissions asset =
     (case dict_get ''ip_permissions'' (as_metadata_json asset) of
        JList xs \<Rightarrow> if list_all is_dict xs then Some (map (\<lambda>x. the (dict_value x)) xs) else None
      | _ \<Rightarrow> None)"

fun world_items :: "string \<Rightarrow> json list \<Rightarrow> exn + string list" where
  "world_items key [] = Inr []"
| "world_items key (item # items) =
     (case item of
        JDict d \<Rightarrow>
          (case py_in_strings (dict_get key d) WORLD_CIDRS of
             Inl e \<Rightarrow> Inl e
           | Inr found \<Rightarrow>
               (case world_items key items of
                  Inl e \<Rightarrow> Inl e
                | Inr rest \<Rightarrow> Inr (if found then py_str (dict_get key d) # rest else rest)))
      | _ \<Rightarrow> world_items key items)"

definition ranges_of :: "string \<Rightarrow> string \<Rightarrow> dict \<Rightarrow> exn + string list" where
  "ranges_of field key permission =
     (case py_iter (dict_get_default field (JList []) permission) of
        Inl e \<Rightarrow> Inl e
      | Inr items \<Rightarrow> world_items key items)"

definition world_ranges :: "dict \<Rightarrow> exn + string list" where
  "world_ranges permission =
     (case ranges_of ''IpRanges'' ''CidrIp'' permission of
        Inl e \<Rightarrow> Inl e
      | Inr v4 \<Rightarrow>
          (case ranges_of ''Ipv6Ranges'' ''CidrIpv6'' permission of
             Inl e \<Rightarrow> Inl e
           | Inr v6 \<Rightarrow> Inr (sort (remdups (v4 @ v6)))))"

definition port_in_range :: "int \<Rightarrow> json \<Rightarrow> json \<Rightarrow> bool" where
  "port_in_range port start end =
     (case (json_int start, json_int end) of
        (Some lo, Some hi) \<Rightarrow> lo \<le> port \<and> port \<le> hi
      | _ \<Rightarrow> False)"

fun collect_exposures :: "int \<Rightarrow> dict list \<Rightarrow> exn + json list" where
  "collect_exposures port [] = Inr []"
| "collect_exposures port (permission # ps) =
     (case world_ranges permission of
        Inl e \<Rightarrow> Inl e
      | Inr ranges \<Rightarrow>
          let protocol = py_str (dict_get_default ''IpProtocol'' (JStr []) permission);
              start = dict_get ''FromPort'' permission;
              end = dict_get ''ToPort'' permission;
              applies = (protocol = ''-1'' \<or> port_in_range port start end)
          in (case collect_exposures port ps of
                Inl e \<Rightarrow> Inl e
              | Inr rest \<Rightarrow>
                  Inr (if ranges \<noteq> [] \<and> applies
                       then JDict [(''protocol'', JStr protocol), (''from_port'', start), (''to_port'', end),
                                   (''cidrs'', JList (map JStr ranges))] # rest
                       else rest)))"

definition port_exposure :: "int \<Rightarrow> evaluator" where
  "port_exposure port = on_asset (\<lambda>asset context.
     case permissions asset of
       None \<Rightarrow> Inr (error_result INCOMPLETE)
     | Some ps \<Rightarrow>
         (case collect_exposures port ps of
            Inl e \<Rightarrow> Inl e
          | Inr exposed \<Rightarrow>
              if exposed \<noteq> [] then Inr (failed [(''exposures'', JList exposed), (''port'', JInt port)])
              else Inr (passed [(''port'', JInt port)])))"

fun collect_all_traffic :: "dict list \<Rightarrow> exn + json list" where
  "collect_all_traffic [] = Inr []"
| "collect_all_traffic (permission # ps) =
     (if py_str (dict_get ''IpProtocol'' permission) = ''-1'' then
        (case world_ranges permission of
           Inl e \<Rightarrow> Inl e
         | Inr ranges \<Rightarrow>
             (case collect_all_traffic ps of
                Inl e \<Rightarrow> Inl e
              | Inr rest \<Rightarrow>
                  Inr (if ranges \<noteq> []
                       then JDict [(''protocol'', dict_get ''IpProtocol'' permission),
                                   (''cidrs'', JList (map JStr ranges))] # rest
                       else rest)))
      else collect_all_traffic ps)"

definition all_traffic :: evaluator where
  "all_traffic = on_asset (\<lambda>asset context.
     case permissions asset of
       None \<Rightarrow> Inr (error_result INCOMPLETE)
     | Some ps \<Rightarrow>
         (case collect_all_traffic ps of
            Inl e \<Rightarrow> Inl e
          | Inr exposed \<Rightarrow>
              if exposed \<noteq> [] then Inr (failed [(''exposures'', JList exposed)]) else Inr (passed [])))"

definition boolean_failure :: "string \<Rightarrow> bool \<Rightarrow> bool \<Rightarrow> evaluator" where
  "boolean_failure field unsafe_value missing_error = on_asset (\<lambda>asset context.
     case map_of (as_metadata_json asset) field of
       None \<Rightarrow> Inr (if missing_error then error_result INCOMPLETE else passed [])
     | Some v \<Rightarrow> Inr (verdict (py_eq_bool v unsafe_value) [(field, v)]))"

definition imdsv1 :: evaluator where
  "imdsv1 = on_asset (\<lambda>asset context.
     case dict_get ''metadata_options'' (as_metadata_json asset) of
       JDict options \<Rightarrow>
         (case map_of options ''http_tokens'' of
            None \<Rightarrow> Inr (error_result INCOMPLETE)
          | Some v \<Rightarrow> Inr (verdict (v \<noteq> JStr ''required'') [(''http_tokens'', v)]))
     | _ \<Rightarrow> Inr (error_result INCOMPLETE))"

definition EC2_RULES :: "SecurityRule list" where
  "EC2_RULES = [
     \<lparr>rl_key = ''EC2_SG_SSH_OPEN_TO_WORLD'', rl_version = 1,
      rl_name = ''SSH open to the world'',
      rl_description = ''Security-group ingress permits SSH from an IPv4 or IPv6 world CIDR.'',
      rl_service = ''ec2'', rl_asset_type = (Some AssetType.EC2_SECURITY_GROUP), rl_category = ''network'',
      rl_severity = FindingSeverity.CRITICAL,
      rl_remediation = ''Restrict TCP port 22 to explicitly approved private or administrative CIDRs.'',
      rl_references = [], rl_enabled_by_default = True, rl_additional_asset_types = [],
      rl_evaluator = port_exposure 22\<rparr>,
     \<lparr>rl_key = ''EC2_SG_RDP_OPEN_TO_WORLD'', rl_version = 1,
      rl_name = ''RDP open to the world'',
      rl_description = ''Security-group ingress permits RDP from an IPv4 or IPv6 world CIDR.'',
      rl_service = ''ec2'', rl_asset_type = (Some AssetType.EC2_SECURITY_GROUP), rl_category = ''network'',
      rl_severity = FindingSeverity.CRITICAL,
      rl_remediation = ''Restrict TCP port 3389 to explicitly approved administrative CIDRs.'',
      rl_references = [], rl_enabled_by_default = True, rl_additional_asset_types = [],
      rl_evaluator = port_exposure 3389\<rparr>,
     \<lparr>rl_key = ''EC2_SG_ALL_TRAFFIC_OPEN_TO_WORLD'', rl_version = 1,
      rl_name = ''All traffic open to the world'',
      rl_description = ''Security-group ingress permits every protocol from a world CIDR.'',
      rl_service = ''ec2'', rl_asset_type = (Some AssetType.EC2_SECURITY_GROUP), rl_category = ''network'',
      rl_severity = FindingSeverity.CRITICAL,
      rl_remediation = ''Replace unrestricted ingress with least-privilege protocol and port rules.'',
      rl_references = [], rl_enabled_by_default = True, rl_additional_asset_types = [],
      rl_evaluator = all_traffic\<rparr>,
     \<lparr>rl_key = ''EC2_INSTANCE_IMDSV1_ALLOWED'', rl_version = 1,
      rl_name = ''IMDSv1 is allowed'',
      rl_description = ''The instance does not require IMDSv2 session tokens.'',
      rl_service = ''ec2'', rl_asset_type = (Some AssetType.EC2_INSTANCE), rl_category = ''hardening'',
      rl_severity = FindingSeverity.HIGH,
      rl_remediation = ''Require IMDSv2 by setting HttpTokens to required.'',
      rl_references = [], rl_enabled_by_default = True, rl_additional_asset_types = [],
      rl_evaluator = imdsv1\<rparr>,
     \<lparr>rl_key = ''EC2_INSTANCE_PUBLIC_IP'', rl_version = 1,
      rl_name = ''Instance has a public IP'',
      rl_description = ''The instance has a directly assigned public IPv4 address.'',
      rl_service = ''ec2'', rl_asset_type = (Some AssetType.EC2_INSTANCE), rl_category = ''exposure'',
      rl_severity = FindingSeverity.MEDIUM,
      rl_remediation = ''Remove the public address unless direct internet reachability is required.'',
      rl_references = [], rl_enabled_by_default = True, rl_additional_asset_types = [],
      rl_evaluator = boolean_failure ''has_public_ip'' True True\<rparr>,
     \<lparr>rl_key = ''EBS_VOLUME_UNENCRYPTED'', rl_version = 1,
      rl_name = ''EBS volume is unencrypted'',
      rl_description = ''The EBS volume metadata confirms encryption is disabled.'',
      rl_service = ''ec2'', rl_asset_type = (Some AssetType.EBS_VOLUME), rl_category = ''data_protection'',
      rl_severity = FindingSeverity.HIGH,
      rl_remediation = ''Migrate data to an encrypted EBS volume.'',
      rl_references = [], rl_enabled_by_default = True, rl_additional_asset_types = [],
      rl_evaluator = boolean_failure ''encrypted'' False True\<rparr>]"

section \<open>S3\<close>

definition metadata_rule :: "string \<Rightarrow> bool \<Rightarrow> evaluator" where
  "metadata_rule field unsafe = on_asset (\<lambda>asset context.
     case map_of (as_metadata_json asset) field of
       None \<Rightarrow> Inr (error_result INCOMPLETE)
     | Some v \<Rightarrow> Inr (verdict (py_eq_bool v unsafe) [(field, v)]))"

definition public_confirmed :: evaluator where
  "public_confirmed = on_asset (\<lambda>asset context.
     case dict_get ''public_access_signals'' (as_metadata_json asset) of
       JDict signals \<Rightarrow>
         Inr (verdict (list_ex (\<lambda>kv. snd kv = JBool True) signals) [(''signals'', JDict signals)])
     | _ \<Rightarrow> Inr (error_result INCOMPLETE))"

text \<open>The \<open>Statement\<close> of a policy document: a single statement stands for a list of one.\<close>

definition policy_statements :: "dict \<Rightarrow> json list option" where
  "policy_statements document =
     (case dict_get ''Statement'' document of
        JDict s \<Rightarrow> Some [JDict s]
      | JList xs \<Rightarrow> Some xs
      | _ \<Rightarrow> None)"

definition denies_insecure :: "json \<Rightarrow> bool" where
  "denies_insecure secure_transport =
     (secure_transport = JBool False \<or>
      (case secure_transport of JStr s \<Rightarrow> casefold s = ''false'' | _ \<Rightarrow> False))"

fun https_statements :: "int \<Rightarrow> json list \<Rightarrow> RuleResult" where
  "https_statements index [] = failed [(''policy_present'', JBool True)]"
| "https_statements index (statement # statements) =
     (case statement of
        JDict s \<Rightarrow>
          (case (dict_get ''Effect'' s, dict_get_default ''Condition'' (JDict []) s) of
             (JStr effect, JDict condition) \<Rightarrow>
               (case dict_get_default ''Bool'' (JDict []) condition of
                  JNull \<Rightarrow> https_statements (index + 1) statements
                | JDict bool_condition \<Rightarrow>
                    if effect = ''Deny'' \<and> denies_insecure (dict_get ''aws:SecureTransport'' bool_condition)
                    then passed [(''statement_index'', JInt index), (''policy_present'', JBool True)]
                    else https_statements (index + 1) statements
                | _ \<Rightarrow> error_result ''malformed_bucket_policy'')
           | _ \<Rightarrow> error_result ''malformed_bucket_policy'')
      | _ \<Rightarrow> error_result ''malformed_bucket_policy'')"

definition https_only_policy :: evaluator where
  "https_only_policy = on_asset (\<lambda>asset context.
     case map_of (as_metadata_json asset) ''policy_document'' of
       None \<Rightarrow> Inr (error_result INCOMPLETE)
     | Some JNull \<Rightarrow> Inr (failed [(''policy_present'', JBool False)])
     | Some (JDict document) \<Rightarrow>
         (case policy_statements document of
            None \<Rightarrow> Inr (error_result ''malformed_bucket_policy'')
          | Some statements \<Rightarrow> Inr (https_statements 0 statements))
     | Some _ \<Rightarrow> Inr (error_result ''malformed_bucket_policy''))"

definition S3_RULES :: "SecurityRule list" where
  "S3_RULES = [
     \<lparr>rl_key = ''S3_BUCKET_PUBLIC_ACCESS_CONFIRMED'', rl_version = 1,
      rl_name = ''Public S3 access confirmed'',
      rl_description = ''Stored S3 ACL or policy status confirms public access.'',
      rl_service = ''s3'', rl_asset_type = (Some AssetType.S3_BUCKET), rl_category = ''exposure'',
      rl_severity = FindingSeverity.CRITICAL,
      rl_remediation = ''Remove public grants and public policy statements.'',
      rl_references = [], rl_enabled_by_default = True, rl_additional_asset_types = [],
      rl_evaluator = public_confirmed\<rparr>,
     \<lparr>rl_key = ''S3_BUCKET_PUBLIC_ACCESS_BLOCK_INCOMPLETE'', rl_version = 1,
      rl_name = ''Public access block incomplete'',
      rl_description = ''Not all S3 public-access-block controls are enabled.'',
      rl_service = ''s3'', rl_asset_type = (Some AssetType.S3_BUCKET), rl_category = ''exposure'',
      rl_severity = FindingSeverity.HIGH,
      rl_remediation = ''Enable all four S3 public access block controls.'',
      rl_references = [], rl_enabled_by_default = True, rl_additional_asset_types = [],
      rl_evaluator = metadata_rule ''public_access_block_complete'' False\<rparr>,
     \<lparr>rl_key = ''S3_BUCKET_DEFAULT_ENCRYPTION_MISSING'', rl_version = 1,
      rl_name = ''Default encryption missing'',
      rl_description = ''Default server-side encryption is not configured.'',
      rl_service = ''s3'', rl_asset_type = (Some AssetType.S3_BUCKET), rl_category = ''data_protection'',
      rl_severity = FindingSeverity.HIGH,
      rl_remediation = ''Configure default SSE-S3 or SSE-KMS encryption.'',
      rl_references = [], rl_enabled_by_default = True, rl_additional_asset_types = [],
      rl_evaluator = metadata_rule ''default_encryption_enabled'' False\<rparr>,
     \<lparr>rl_key = ''S3_BUCKET_VERSIONING_DISABLED'', rl_version = 1,
      rl_name = ''Versioning disabled'',
      rl_description = ''S3 object versioning is disabled.'',
      rl_service = ''s3'', rl_asset_type = (Some AssetType.S3_BUCKET), rl_category = ''resilience'',
      rl_severity = FindingSeverity.MEDIUM,
      rl_remediation = ''Enable S3 versioning.'',
      rl_references = [], rl_enabled_by_default = True, rl_additional_asset_types = [],
      rl_evaluator = metadata_rule ''versioning_enabled'' False\<rparr>,
     \<lparr>rl_key = ''S3_BUCKET_HTTPS_ONLY_POLICY_MISSING'', rl_version = 1,
      rl_name = ''HTTPS-only policy missing'',
      rl_description = ''The bounded policy signal does not confirm HTTPS-only access.'',
      rl_service = ''s3'', rl_asset_type = (Some AssetType.S3_BUCKET), rl_category = ''transport'',
      rl_severity = FindingSeverity.HIGH,
      rl_remediation = ''Add a bucket policy denying requests when aws:SecureTransport is false.'',
      rl_references = [], rl_enabled_by_default = True, rl_additional_asset_types = [],
      rl_evaluator = https_only_policy\<rparr>,
     \<lparr>rl_key = ''S3_BUCKET_LOGGING_DISABLED'', rl_version = 1,
      rl_name = ''Access logging disabled'',
      rl_description = ''S3 server access logging is disabled.'',
      rl_service = ''s3'', rl_asset_type = (Some AssetType.S3_BUCKET), rl_category = ''logging'',
      rl_severity = FindingSeverity.MEDIUM,
      rl_remediation = ''Enable access logging to an approved log bucket.'',
      rl_references = [], rl_enabled_by_default = True, rl_additional_asset_types = [],
      rl_evaluator = metadata_rule ''logging_enabled'' False\<rparr>]"

section \<open>IAM\<close>

definition predicate_rule :: "string list \<Rightarrow> (dict \<Rightarrow> exn + bool) \<Rightarrow> evaluator" where
  "predicate_rule required p = on_asset (\<lambda>asset context.
     if list_ex (\<lambda>field. \<not> dict_has field (as_metadata_json asset)) required then
       Inr (error_result INCOMPLETE)
     else
       let evidence = map (\<lambda>field. (field, dict_get field (as_metadata_json asset))) required
       in (case p evidence of
             Inl e \<Rightarrow> Inl e
           | Inr unsafe \<Rightarrow> Inr (verdict unsafe evidence)))"

definition console_without_mfa :: "dict \<Rightarrow> exn + bool" where
  "console_without_mfa e =
     Inr (py_truthy (dict_get ''console_access'' e) \<and> \<not> py_truthy (dict_get ''mfa_enabled'' e))"

definition administrator_attached :: "dict \<Rightarrow> exn + bool" where
  "administrator_attached e =
     (case py_iter (dict_get ''attached_policy_arns'' e) of
        Inl x \<Rightarrow> Inl x
      | Inr vs \<Rightarrow> Inr (list_ex (\<lambda>v. ends_with ''/AdministratorAccess'' (py_str v)) vs))"

definition replace_Z :: "string \<Rightarrow> string" where
  "replace_Z s = concat (map (\<lambda>c. if c = CHR ''Z'' then ''+00:00'' else [c]) s)"

fun key_ages :: "(string \<Rightarrow> datetime option) \<Rightarrow> instant \<Rightarrow> json list \<Rightarrow> int list option" where
  "key_ages fromiso evaluated_at [] = Some []"
| "key_ages fromiso evaluated_at (v # vs) =
     (case v of
        JStr s \<Rightarrow>
          (case fromiso (replace_Z s) of
             None \<Rightarrow> None
           | Some created \<Rightarrow>
               (case key_ages fromiso evaluated_at vs of
                  None \<Rightarrow> None
                | Some ages \<Rightarrow> Some (days_of (evaluated_at - utc_instant created) # ages)))
      | _ \<Rightarrow> None)"

definition oldest_age :: "int list \<Rightarrow> int" where
  "oldest_age ages = (case ages of [] \<Rightarrow> 0 | a # as \<Rightarrow> fold max as a)"

definition access_key_age :: "(string \<Rightarrow> datetime option) \<Rightarrow> evaluator" where
  "access_key_age fromiso = on_asset (\<lambda>asset context.
     case dict_get ''active_key_created_at'' (as_metadata_json asset) of
       JList values \<Rightarrow>
         (case key_ages fromiso (rc_evaluated_at context) values of
            None \<Rightarrow> Inr (error_result ''malformed_access_key_metadata'')
          | Some ages \<Rightarrow>
              Inr (verdict (90 < oldest_age ages) [(''oldest_active_key_age_days'', JInt (oldest_age ages))]))
     | _ \<Rightarrow> Inr (error_result INCOMPLETE))"

text \<open>A string stands for a list of one; otherwise a list of strings is required.\<close>

definition strings_of :: "json \<Rightarrow> string list option" where
  "strings_of v =
     (case v of
        JStr s \<Rightarrow> Some [s]
      | JList xs \<Rightarrow> if list_all is_str xs then Some (map py_str xs) else None
      | _ \<Rightarrow> None)"

text \<open>
  The inner loop: the index of the first statement that allows everything, or \<open>None\<close> inside the
  result when there is none. \<^verbatim>\<open>statements.index(statement)\<close> is the position of the loop, since an
  equal earlier statement would have ended it.
\<close>

fun allow_all_statements :: "int \<Rightarrow> json list \<Rightarrow> unit + int option" where
  "allow_all_statements index [] = Inr None"
| "allow_all_statements index (statement # statements) =
     (case statement of
        JDict s \<Rightarrow>
          (case (dict_get ''Effect'' s, strings_of (dict_get ''Action'' s), strings_of (dict_get ''Resource'' s)) of
             (JStr effect, Some actions, Some resources) \<Rightarrow>
               if effect = ''Allow'' \<and> ''*'' \<in> set actions \<and> ''*'' \<in> set resources then Inr (Some index)
               else allow_all_statements (index + 1) statements
           | _ \<Rightarrow> Inl ())
      | _ \<Rightarrow> Inl ())"

fun allow_all_documents :: "json list \<Rightarrow> RuleResult" where
  "allow_all_documents [] = passed []"
| "allow_all_documents (document # documents) =
     (case document of
        JDict d \<Rightarrow>
          (case policy_statements d of
             None \<Rightarrow> error_result ''malformed_inline_policy''
           | Some statements \<Rightarrow>
               (case allow_all_statements 0 statements of
                  Inl _ \<Rightarrow> error_result ''malformed_inline_policy''
                | Inr (Some index) \<Rightarrow> failed [(''statement_index'', JInt index)]
                | Inr None \<Rightarrow> allow_all_documents documents))
      | _ \<Rightarrow> error_result ''malformed_inline_policy'')"

definition inline_allow_all :: evaluator where
  "inline_allow_all = on_asset (\<lambda>asset context.
     case dict_get ''inline_policy_documents'' (as_metadata_json asset) of
       JList documents \<Rightarrow> Inr (allow_all_documents documents)
     | _ \<Rightarrow> Inr (error_result INCOMPLETE))"

definition IAM_RULES :: "(string \<Rightarrow> datetime option) \<Rightarrow> SecurityRule list" where
  "IAM_RULES fromiso = [
     \<lparr>rl_key = ''IAM_USER_CONSOLE_ACCESS_WITHOUT_MFA'', rl_version = 1,
      rl_name = ''Console user has no MFA'',
      rl_description = ''An IAM user has console access but no active MFA device.'',
      rl_service = ''iam'', rl_asset_type = (Some AssetType.IAM_USER), rl_category = ''identity'',
      rl_severity = FindingSeverity.CRITICAL,
      rl_remediation = ''Enroll an MFA device or remove console access.'',
      rl_references = [], rl_enabled_by_default = True, rl_additional_asset_types = [],
      rl_evaluator = predicate_rule [''console_access'', ''mfa_enabled''] console_without_mfa\<rparr>,
     \<lparr>rl_key = ''IAM_USER_ACCESS_KEY_TOO_OLD'', rl_version = 1,
      rl_name = ''IAM access key is too old'',
      rl_description = ''At least one active access key exceeds the configured 90-day threshold.'',
      rl_service = ''iam'', rl_asset_type = (Some AssetType.IAM_USER), rl_category = ''credential_hygiene'',
      rl_severity = FindingSeverity.HIGH,
      rl_remediation = ''Rotate or remove the old access key.'',
      rl_references = [], rl_enabled_by_default = True, rl_additional_asset_types = [],
      rl_evaluator = access_key_age fromiso\<rparr>,
     \<lparr>rl_key = ''IAM_ADMINISTRATOR_ACCESS_ATTACHED'', rl_version = 1,
      rl_name = ''AdministratorAccess attached'',
      rl_description = ''The principal has the AWS AdministratorAccess managed policy attached.'',
      rl_service = ''iam'', rl_asset_type = (Some AssetType.IAM_USER), rl_category = ''least_privilege'',
      rl_severity = FindingSeverity.CRITICAL,
      rl_remediation = ''Replace AdministratorAccess with a least-privilege policy.'',
      rl_references = [], rl_enabled_by_default = True, rl_additional_asset_types = [AssetType.IAM_ROLE, AssetType.IAM_GROUP],
      rl_evaluator = predicate_rule [''attached_policy_arns''] administrator_attached\<rparr>,
     \<lparr>rl_key = ''IAM_INLINE_POLICY_ALLOW_ALL'', rl_version = 1,
      rl_name = ''Inline policy allows all actions'',
      rl_description = ''The bounded inline-policy summary confirms an Allow * action.'',
      rl_service = ''iam'', rl_asset_type = (Some AssetType.IAM_USER), rl_category = ''least_privilege'',
      rl_severity = FindingSeverity.CRITICAL,
      rl_remediation = ''Replace wildcard administrative permissions with scoped actions and resources.'',
      rl_references = [], rl_enabled_by_default = True, rl_additional_asset_types = [AssetType.IAM_ROLE, AssetType.IAM_GROUP],
      rl_evaluator = inline_allow_all\<rparr>]"

section \<open>RDS\<close>

definition field_rule :: "string \<Rightarrow> (json \<Rightarrow> exn + bool) \<Rightarrow> evaluator" where
  "field_rule field p = on_asset (\<lambda>asset context.
     case map_of (as_metadata_json asset) field of
       None \<Rightarrow> Inr (error_result INCOMPLETE)
     | Some v \<Rightarrow>
         (case p v of
            Inl e \<Rightarrow> Inl e
          | Inr unsafe \<Rightarrow> Inr (verdict unsafe [(field, v)])))"

definition RDS_RULES :: "SecurityRule list" where
  "RDS_RULES = [
     \<lparr>rl_key = ''RDS_INSTANCE_PUBLICLY_ACCESSIBLE'', rl_version = 1,
      rl_name = ''RDS is publicly accessible'',
      rl_description = ''The RDS instance is marked publicly accessible.'',
      rl_service = ''rds'', rl_asset_type = (Some AssetType.RDS_INSTANCE), rl_category = ''exposure'',
      rl_severity = FindingSeverity.CRITICAL,
      rl_remediation = ''Disable public accessibility.'',
      rl_references = [], rl_enabled_by_default = True, rl_additional_asset_types = [],
      rl_evaluator = field_rule ''publicly_accessible'' (\<lambda>v. Inr (py_truthy v))\<rparr>,
     \<lparr>rl_key = ''RDS_STORAGE_NOT_ENCRYPTED'', rl_version = 1,
      rl_name = ''RDS storage is unencrypted'',
      rl_description = ''Storage encryption is disabled.'',
      rl_service = ''rds'', rl_asset_type = (Some AssetType.RDS_INSTANCE), rl_category = ''data_protection'',
      rl_severity = FindingSeverity.HIGH,
      rl_remediation = ''Migrate to an encrypted database.'',
      rl_references = [], rl_enabled_by_default = True, rl_additional_asset_types = [],
      rl_evaluator = field_rule ''storage_encrypted'' (\<lambda>v. Inr (v = JBool False))\<rparr>,
     \<lparr>rl_key = ''RDS_BACKUP_RETENTION_INSUFFICIENT'', rl_version = 1,
      rl_name = ''Backup retention is insufficient'',
      rl_description = ''Automated backup retention is less than seven days.'',
      rl_service = ''rds'', rl_asset_type = (Some AssetType.RDS_INSTANCE), rl_category = ''resilience'',
      rl_severity = FindingSeverity.MEDIUM,
      rl_remediation = ''Set backup retention to at least seven days.'',
      rl_references = [], rl_enabled_by_default = True, rl_additional_asset_types = [],
      rl_evaluator = field_rule ''backup_retention_period'' (\<lambda>v. case py_int v of Inl e \<Rightarrow> Inl e | Inr n \<Rightarrow> Inr (n < 7))\<rparr>,
     \<lparr>rl_key = ''RDS_AUTO_MINOR_VERSION_UPGRADE_DISABLED'', rl_version = 1,
      rl_name = ''Automatic minor upgrades disabled'',
      rl_description = ''Automatic minor version upgrades are disabled.'',
      rl_service = ''rds'', rl_asset_type = (Some AssetType.RDS_INSTANCE), rl_category = ''patching'',
      rl_severity = FindingSeverity.MEDIUM,
      rl_remediation = ''Enable automatic minor version upgrades.'',
      rl_references = [], rl_enabled_by_default = True, rl_additional_asset_types = [],
      rl_evaluator = field_rule ''auto_minor_version_upgrade'' (\<lambda>v. Inr (v = JBool False))\<rparr>,
     \<lparr>rl_key = ''RDS_DELETION_PROTECTION_DISABLED'', rl_version = 1,
      rl_name = ''Deletion protection disabled'',
      rl_description = ''Database deletion protection is disabled.'',
      rl_service = ''rds'', rl_asset_type = (Some AssetType.RDS_INSTANCE), rl_category = ''resilience'',
      rl_severity = FindingSeverity.MEDIUM,
      rl_remediation = ''Enable deletion protection.'',
      rl_references = [], rl_enabled_by_default = True, rl_additional_asset_types = [],
      rl_evaluator = field_rule ''deletion_protection'' (\<lambda>v. Inr (v = JBool False))\<rparr>]"

section \<open>CloudWatch\<close>

definition missing_retention :: evaluator where
  "missing_retention = on_asset (\<lambda>asset context.
     case map_of (as_metadata_json asset) ''retention_days'' of
       None \<Rightarrow> Inr (failed [(''retention_days'', JNull)])
     | Some v \<Rightarrow> Inr (verdict (v = JNull) [(''retention_days'', v)]))"

definition not_encrypted :: evaluator where
  "not_encrypted = on_asset (\<lambda>asset context.
     case map_of (as_metadata_json asset) ''kms_encrypted'' of
       None \<Rightarrow> Inr (error_result INCOMPLETE)
     | Some v \<Rightarrow>
         Inr (if v = JBool False then failed [(''kms_encrypted'', JBool False)]
              else passed [(''kms_encrypted'', JBool True)]))"

definition actions_disabled :: evaluator where
  "actions_disabled = on_asset (\<lambda>asset context.
     case map_of (as_metadata_json asset) ''actions_enabled'' of
       None \<Rightarrow> Inr (error_result INCOMPLETE)
     | Some v \<Rightarrow> Inr (verdict (v = JBool False) [(''actions_enabled'', v)]))"

definition CLOUDWATCH_RULES :: "SecurityRule list" where
  "CLOUDWATCH_RULES = [
     \<lparr>rl_key = ''CLOUDWATCH_LOG_GROUP_RETENTION_NOT_CONFIGURED'', rl_version = 1,
      rl_name = ''CloudWatch log retention is not configured'',
      rl_description = ''The log group retains events indefinitely.'',
      rl_service = ''cloudwatch_logs'', rl_asset_type = (Some AssetType.CLOUDWATCH_LOG_GROUP), rl_category = ''logging'',
      rl_severity = FindingSeverity.MEDIUM,
      rl_remediation = ''Configure an approved retention period.'',
      rl_references = [], rl_enabled_by_default = True, rl_additional_asset_types = [],
      rl_evaluator = missing_retention\<rparr>,
     \<lparr>rl_key = ''CLOUDWATCH_LOG_GROUP_NOT_KMS_ENCRYPTED'', rl_version = 1,
      rl_name = ''CloudWatch log group is not KMS encrypted'',
      rl_description = ''The log group has no KMS key association.'',
      rl_service = ''cloudwatch_logs'', rl_asset_type = (Some AssetType.CLOUDWATCH_LOG_GROUP), rl_category = ''data_protection'',
      rl_severity = FindingSeverity.MEDIUM,
      rl_remediation = ''Associate an approved KMS key.'',
      rl_references = [], rl_enabled_by_default = True, rl_additional_asset_types = [],
      rl_evaluator = not_encrypted\<rparr>,
     \<lparr>rl_key = ''CLOUDWATCH_ALARM_ACTIONS_DISABLED'', rl_version = 1,
      rl_name = ''CloudWatch alarm actions disabled'',
      rl_description = ''The alarm cannot invoke configured actions.'',
      rl_service = ''cloudwatch'', rl_asset_type = (Some AssetType.CLOUDWATCH_ALARM), rl_category = ''monitoring'',
      rl_severity = FindingSeverity.MEDIUM,
      rl_remediation = ''Enable alarm actions.'',
      rl_references = [], rl_enabled_by_default = True, rl_additional_asset_types = [],
      rl_evaluator = actions_disabled\<rparr>]"

section \<open>CloudTrail\<close>

definition trail_field :: "string \<Rightarrow> bool \<Rightarrow> evaluator" where
  "trail_field field unsafe = on_asset (\<lambda>asset context.
     case map_of (as_metadata_json asset) field of
       None \<Rightarrow> Inr (error_result INCOMPLETE)
     | Some v \<Rightarrow> Inr (verdict (py_eq_bool v unsafe) [(field, v)]))"

definition no_active :: evaluator where
  "no_active asset context =
     (let trails = assets_of_type AssetType.CLOUDTRAIL_TRAIL context;
          states = map (\<lambda>trail. dict_get ''is_logging'' (as_metadata_json trail)) trails;
          active = length (filter (\<lambda>s. s = JBool True) states)
      in if trails = [] then Inr (failed [(''active_trails'', JInt 0)])
         else if list_ex (\<lambda>s. s = JBool True) states then Inr (passed [(''active_trails'', JInt (int active))])
         else if list_ex (\<lambda>s. s = JNull) states then Inr (error_result INCOMPLETE)
         else Inr (failed [(''active_trails'', JInt 0)]))"

definition CLOUDTRAIL_RULES :: "SecurityRule list" where
  "CLOUDTRAIL_RULES = [
     \<lparr>rl_key = ''CLOUDTRAIL_NO_ACTIVE_TRAIL'', rl_version = 1,
      rl_name = ''No active CloudTrail trail'',
      rl_description = ''No persisted CloudTrail configuration confirms active logging.'',
      rl_service = ''cloudtrail'', rl_asset_type = None, rl_category = ''logging'',
      rl_severity = FindingSeverity.CRITICAL,
      rl_remediation = ''Create and enable a multi-region trail.'',
      rl_references = [], rl_enabled_by_default = True, rl_additional_asset_types = [],
      rl_evaluator = no_active\<rparr>,
     \<lparr>rl_key = ''CLOUDTRAIL_LOGGING_DISABLED'', rl_version = 1,
      rl_name = ''CloudTrail logging disabled'',
      rl_description = ''The trail is not currently logging.'',
      rl_service = ''cloudtrail'', rl_asset_type = (Some AssetType.CLOUDTRAIL_TRAIL), rl_category = ''logging'',
      rl_severity = FindingSeverity.CRITICAL,
      rl_remediation = ''Start logging for the trail.'',
      rl_references = [], rl_enabled_by_default = True, rl_additional_asset_types = [],
      rl_evaluator = trail_field ''is_logging'' False\<rparr>,
     \<lparr>rl_key = ''CLOUDTRAIL_NOT_MULTI_REGION'', rl_version = 1,
      rl_name = ''CloudTrail is not multi-region'',
      rl_description = ''The trail does not cover all AWS regions.'',
      rl_service = ''cloudtrail'', rl_asset_type = (Some AssetType.CLOUDTRAIL_TRAIL), rl_category = ''coverage'',
      rl_severity = FindingSeverity.HIGH,
      rl_remediation = ''Convert the trail to multi-region.'',
      rl_references = [], rl_enabled_by_default = True, rl_additional_asset_types = [],
      rl_evaluator = trail_field ''is_multi_region'' False\<rparr>,
     \<lparr>rl_key = ''CLOUDTRAIL_GLOBAL_EVENTS_DISABLED'', rl_version = 1,
      rl_name = ''Global events disabled'',
      rl_description = ''Global service events are excluded.'',
      rl_service = ''cloudtrail'', rl_asset_type = (Some AssetType.CLOUDTRAIL_TRAIL), rl_category = ''coverage'',
      rl_severity = FindingSeverity.HIGH,
      rl_remediation = ''Enable global service event collection.'',
      rl_references = [], rl_enabled_by_default = True, rl_additional_asset_types = [],
      rl_evaluator = trail_field ''include_global_service_events'' False\<rparr>,
     \<lparr>rl_key = ''CLOUDTRAIL_LOG_VALIDATION_DISABLED'', rl_version = 1,
      rl_name = ''Log validation disabled'',
      rl_description = ''CloudTrail log-file integrity validation is disabled.'',
      rl_service = ''cloudtrail'', rl_asset_type = (Some AssetType.CLOUDTRAIL_TRAIL), rl_category = ''integrity'',
      rl_severity = FindingSeverity.MEDIUM,
      rl_remediation = ''Enable log-file validation.'',
      rl_references = [], rl_enabled_by_default = True, rl_additional_asset_types = [],
      rl_evaluator = trail_field ''log_file_validation_enabled'' False\<rparr>,
     \<lparr>rl_key = ''CLOUDTRAIL_NOT_KMS_ENCRYPTED'', rl_version = 1,
      rl_name = ''CloudTrail is not KMS encrypted'',
      rl_description = ''No KMS key is configured for the trail.'',
      rl_service = ''cloudtrail'', rl_asset_type = (Some AssetType.CLOUDTRAIL_TRAIL), rl_category = ''data_protection'',
      rl_severity = FindingSeverity.MEDIUM,
      rl_remediation = ''Configure an approved KMS key.'',
      rl_references = [], rl_enabled_by_default = True, rl_additional_asset_types = [],
      rl_evaluator = trail_field ''kms_encrypted'' False\<rparr>,
     \<lparr>rl_key = ''CLOUDTRAIL_CLOUDWATCH_INTEGRATION_MISSING'', rl_version = 1,
      rl_name = ''CloudWatch Logs integration missing'',
      rl_description = ''The trail is not integrated with CloudWatch Logs.'',
      rl_service = ''cloudtrail'', rl_asset_type = (Some AssetType.CLOUDTRAIL_TRAIL), rl_category = ''monitoring'',
      rl_severity = FindingSeverity.MEDIUM,
      rl_remediation = ''Configure CloudWatch Logs delivery.'',
      rl_references = [], rl_enabled_by_default = True, rl_additional_asset_types = [],
      rl_evaluator = trail_field ''cloudwatch_integration'' False\<rparr>,
     \<lparr>rl_key = ''CLOUDTRAIL_DELIVERY_FAILURE'', rl_version = 1,
      rl_name = ''CloudTrail delivery is failing'',
      rl_description = ''The latest delivery status reports an error.'',
      rl_service = ''cloudtrail'', rl_asset_type = (Some AssetType.CLOUDTRAIL_TRAIL), rl_category = ''logging'',
      rl_severity = FindingSeverity.CRITICAL,
      rl_remediation = ''Correct the trail destination and delivery permissions.'',
      rl_references = [], rl_enabled_by_default = True, rl_additional_asset_types = [],
      rl_evaluator = trail_field ''delivery_failed'' True\<rparr>]"

section \<open>The registry\<close>

fun register_rules :: "SecurityRule list \<Rightarrow> SecurityRule list \<Rightarrow> exn + SecurityRule list" where
  "register_rules acc [] = Inr acc"
| "register_rules acc (r # rs) =
     (if rl_key r \<in> rl_key ` set acc then Inl (ValueError ''Duplicate rule key'')
      else register_rules (acc @ [r]) rs)"

definition registry_all :: "SecurityRule list \<Rightarrow> SecurityRule list" where
  "registry_all registry = sort_key rl_key registry"

definition registry_get :: "string \<Rightarrow> SecurityRule list \<Rightarrow> SecurityRule option" where
  "registry_get key registry = find (\<lambda>r. rl_key r = key) registry"

definition registry_filter ::
    "string option \<Rightarrow> AssetType option \<Rightarrow> FindingSeverity option \<Rightarrow> string option \<Rightarrow> bool option \<Rightarrow>
     SecurityRule list \<Rightarrow> SecurityRule list" where
  "registry_filter service asset_type sev category enabled registry =
     filter (\<lambda>r. (service = None \<or> service = Some (rl_service r)) \<and>
                 (case asset_type of None \<Rightarrow> True | Some t \<Rightarrow> t \<in> set (rule_asset_types r)) \<and>
                 (sev = None \<or> sev = Some (rl_severity r)) \<and>
                 (category = None \<or> category = Some (rl_category r)) \<and>
                 (enabled = None \<or> enabled = Some (rl_enabled_by_default r))) (registry_all registry)"

definition registry_services :: "SecurityRule list \<Rightarrow> string list" where
  "registry_services registry = sort (remdups (map rl_service registry))"

definition registry_categories :: "SecurityRule list \<Rightarrow> string list" where
  "registry_categories registry = sort (remdups (map rl_category registry))"

definition all_rules :: "(string \<Rightarrow> datetime option) \<Rightarrow> SecurityRule list" where
  "all_rules fromiso = EC2_RULES @ S3_RULES @ IAM_RULES fromiso @ RDS_RULES @ CLOUDWATCH_RULES @ CLOUDTRAIL_RULES"

definition default_registry :: "(string \<Rightarrow> datetime option) \<Rightarrow> exn + SecurityRule list" where
  "default_registry fromiso = register_rules [] (all_rules fromiso)"

section \<open>Lemmas on sanitized evidence\<close>

fun evidence_node_ok :: "json \<Rightarrow> bool" where
  "evidence_node_ok (JDict d) =
     (length d \<le> 50 \<and> distinct (map fst d) \<and>
      (\<forall>k \<in> fst ` set d. length k \<le> 120 \<and> \<not> SENSITIVE_RESULT_KEY k))"
| "evidence_node_ok (JList xs) = (length xs \<le> 50)"
| "evidence_node_ok (JStr s) = (length s \<le> 1000)"
| "evidence_node_ok (JObj s) = False"
| "evidence_node_ok v = True"

lemmas evidence_limits = MAX_EVIDENCE_ITEMS_def MAX_EVIDENCE_STRING_def

text \<open>The pairs from which the sanitized dictionary is built.\<close>

definition kept_items :: "nat \<Rightarrow> dict \<Rightarrow> dict" where
  "kept_items depth d =
     map (\<lambda>kv. (take 120 (fst kv), sanitize_evidence (depth + 1) (snd kv)))
       (filter (\<lambda>kv. \<not> SENSITIVE_RESULT_KEY (fst kv)) (take MAX_EVIDENCE_ITEMS d))"

lemma sanitize_dict:
  "\<not> 5 < depth \<Longrightarrow> sanitize_evidence depth (JDict d) = JDict (dict_of (kept_items depth d))"
  by (simp add: kept_items_def)

declare sanitize_evidence.simps(1) [simp del]

lemma sanitize_deep: "5 < depth \<Longrightarrow> sanitize_evidence depth w = JStr ''[truncated]''"
  by (cases w) (simp_all add: sanitize_evidence.simps)

lemma kept_items_length: "length (dict_of (kept_items depth d)) \<le> 50"
proof -
  have "length (dict_of (kept_items depth d)) \<le> length (kept_items depth d)" by (rule length_dict_of)
  also have "\<dots> \<le> length (take 50 d)"
    unfolding kept_items_def evidence_limits length_map by (rule length_filter_le)
  finally show ?thesis by simp
qed

lemma kept_items_mem:
  assumes "kv \<in> set (dict_of (kept_items depth d))"
  obtains kv0 where "kv0 \<in> set d" and "fst kv = take 120 (fst kv0)" and "\<not> SENSITIVE_RESULT_KEY (fst kv0)"
    and "snd kv = sanitize_evidence (depth + 1) (snd kv0)"
    and "kv0 \<in> set (filter (\<lambda>kv. \<not> SENSITIVE_RESULT_KEY (fst kv)) (take MAX_EVIDENCE_ITEMS d))"
proof -
  have "kv \<in> set (kept_items depth d)" using assms set_dict_of by blast
  then obtain kv0 where kv0: "kv0 \<in> set (filter (\<lambda>kv. \<not> SENSITIVE_RESULT_KEY (fst kv)) (take MAX_EVIDENCE_ITEMS d))"
      and "kv = (take 120 (fst kv0), sanitize_evidence (depth + 1) (snd kv0))" by (auto simp: kept_items_def)
  moreover have "kv0 \<in> set d" using kv0 by (auto dest: in_set_takeD)
  ultimately show ?thesis by (intro that [of kv0]) auto
qed

lemma kept_items_keys:
  assumes "k \<in> fst ` set (dict_of (kept_items depth d))"
  shows "length k \<le> 120 \<and> \<not> SENSITIVE_RESULT_KEY k"
proof -
  from assms obtain kv where kv: "kv \<in> set (dict_of (kept_items depth d))" "k = fst kv" by auto
  from kv(1) obtain kv0 :: "string \<times> json" where kv0: "fst kv = take 120 (fst kv0)" "\<not> SENSITIVE_RESULT_KEY (fst kv0)"
    by (elim kept_items_mem) blast
  have "\<not> SENSITIVE_RESULT_KEY (take 120 (fst kv0))"
    using kv0(2) SENSITIVE_RESULT_KEY_take [of 120 "fst kv0"] by blast
  then show ?thesis unfolding kv(2) kv0(1) by simp
qed

lemma sanitize_evidence_clean:
  "depth \<le> 6 \<Longrightarrow> \<forall>n v. occurs (sanitize_evidence depth w) n v \<longrightarrow> depth + n \<le> 6 \<and> evidence_node_ok v"
proof (induction depth w rule: sanitize_evidence.induct)
  case (1 depth d)
  show ?case
  proof (cases "5 < depth")
    case True
    with "1.prems" show ?thesis by (simp add: sanitize_deep)
  next
    case False
    have "\<forall>kv \<in> set (dict_of (kept_items depth d)). \<forall>n v. occurs (snd kv) n v \<longrightarrow>
        depth + Suc n \<le> 6 \<and> evidence_node_ok v"
    proof
      fix kv
      assume "kv \<in> set (dict_of (kept_items depth d))"
      then obtain kv0 where s: "snd kv = sanitize_evidence (depth + 1) (snd kv0)"
          and m: "kv0 \<in> set (filter (\<lambda>kv. \<not> SENSITIVE_RESULT_KEY (fst kv)) (take MAX_EVIDENCE_ITEMS d))"
        by (rule kept_items_mem)
      show "\<forall>n v. occurs (snd kv) n v \<longrightarrow> depth + Suc n \<le> 6 \<and> evidence_node_ok v"
        unfolding s using 1(1) [OF False m] False by simp
    qed
    moreover have "evidence_node_ok (JDict (dict_of (kept_items depth d)))"
      unfolding evidence_node_ok.simps using kept_items_length kept_items_keys distinct_dict_of by blast
    ultimately have "\<forall>n v. occurs (JDict (dict_of (kept_items depth d))) n v \<longrightarrow> depth + n \<le> 6 \<and> evidence_node_ok v"
      unfolding all_occurs_dict using "1.prems" by simp
    then show ?thesis unfolding sanitize_dict [OF False] .
  qed
next
  case (2 depth xs)
  show ?case
  proof (cases "5 < depth")
    case True
    with 2 show ?thesis by simp
  next
    case False
    with 2 show ?thesis by (simp add: all_occurs_list evidence_limits)
  qed
qed (auto simp: evidence_limits)

lemma sanitize_evidence_idem: "sanitize_evidence depth (sanitize_evidence depth w) = sanitize_evidence depth w"
proof (induction depth w rule: sanitize_evidence.induct)
  case (1 depth d)
  show ?case
  proof (cases "5 < depth")
    case True
    then show ?thesis by (simp add: sanitize_deep)
  next
    case False
    let ?D = "dict_of (kept_items depth d)"
    have t: "take MAX_EVIDENCE_ITEMS ?D = ?D" using kept_items_length [of depth d] by (simp add: evidence_limits)
    have f: "filter (\<lambda>kv. \<not> SENSITIVE_RESULT_KEY (fst kv)) ?D = ?D"
      by (rule filter_True) (use kept_items_keys [of _ depth d] in blast)
    have "map (\<lambda>kv. (take 120 (fst kv), sanitize_evidence (depth + 1) (snd kv))) ?D = map id ?D"
    proof (rule map_cong [OF refl])
      fix kv
      assume kv: "kv \<in> set ?D"
      then obtain kv0 where s: "snd kv = sanitize_evidence (depth + 1) (snd kv0)"
          and m: "kv0 \<in> set (filter (\<lambda>kv. \<not> SENSITIVE_RESULT_KEY (fst kv)) (take MAX_EVIDENCE_ITEMS d))"
        by (rule kept_items_mem)
      have "sanitize_evidence (depth + 1) (snd kv) = snd kv"
        unfolding s using 1(1) [OF False m] by simp
      moreover have "length (fst kv) \<le> 120" using kept_items_keys [of "fst kv" depth d] kv by blast
      ultimately show "(take 120 (fst kv), sanitize_evidence (depth + 1) (snd kv)) = id kv" by simp
    qed
    with t f have "kept_items depth ?D = ?D" unfolding kept_items_def by simp
    moreover have "dict_of ?D = ?D" by (rule dict_of_distinct) simp
    ultimately have "sanitize_evidence depth (JDict ?D) = JDict ?D" using False by (simp add: sanitize_dict)
    then show ?thesis unfolding sanitize_dict [OF False] .
  qed
next
  case (2 depth xs)
  then show ?case by (cases "5 < depth") (auto simp: evidence_limits)
qed (auto simp: evidence_limits)


section \<open>Lemmas on evaluators\<close>

text \<open>
  An evaluator is well behaved if its results are built by the constructor, carry an error code
  exactly when they are errors, and never fail the assertion on an asset that is given.
\<close>

definition built :: "RuleResult \<Rightarrow> bool" where
  "built r = (\<exists>st d code. r = rule_result st d code \<and> (st = RuleResultStatus.ERROR) = (code \<noteq> None))"

definition well_behaved :: "evaluator \<Rightarrow> bool" where
  "well_behaved ev =
     (\<forall>asset context.
        (\<forall>r. ev asset context = Inr r \<longrightarrow> built r) \<and>
        (asset \<noteq> None \<longrightarrow> ev asset context \<noteq> Inl AssertionError))"

lemma built_results [simp]:
  "built (passed d)" "built (failed d)" "built (not_applicable s)" "built (error_result c)" "built (verdict b d)"
  unfolding built_def verdict_def passed_def failed_def not_applicable_def error_result_def by fastforce+

lemma well_behaved_on_asset:
  assumes "\<And>a c r. f a c = Inr r \<Longrightarrow> built r" and "\<And>a c. f a c \<noteq> Inl AssertionError"
  shows "well_behaved (on_asset f)"
  using assms unfolding well_behaved_def on_asset_def by (auto split: option.splits)

lemma world_items_error: "world_items key items = Inl e \<Longrightarrow> e = TypeError"
proof (induction items)
  case (Cons item items)
  then show ?case
    by (auto split: json.splits sum.splits elim: py_in_strings.elims)
qed simp

lemma world_ranges_error: "world_ranges p = Inl e \<Longrightarrow> e = TypeError"
  by (auto simp: world_ranges_def ranges_of_def split: sum.splits elim: py_iter.elims dest: world_items_error)

lemma collect_exposures_error: "collect_exposures port ps = Inl e \<Longrightarrow> e = TypeError"
  by (induction ps) (auto simp: Let_def split: sum.splits dest: world_ranges_error)

lemma collect_all_traffic_error: "collect_all_traffic ps = Inl e \<Longrightarrow> e = TypeError"
  by (induction ps) (auto split: sum.splits if_splits dest: world_ranges_error)

lemma https_statements_built [simp]: "built (https_statements i xs)"
  by (induction i xs rule: https_statements.induct) (auto split: json.splits prod.splits)

lemma allow_all_documents_built [simp]: "built (allow_all_documents ds)"
  by (induction ds rule: allow_all_documents.induct) (auto split: json.splits option.splits sum.splits)

lemma py_int_error: "py_int v = Inl e \<Longrightarrow> e = TypeError \<or> (\<exists>s. e = ValueError s)"
  by (cases v) (auto split: option.splits)

lemma well_behaved_evaluators [simp]:
  "well_behaved (port_exposure port)" "well_behaved all_traffic" "well_behaved (boolean_failure field u m)"
  "well_behaved imdsv1" "well_behaved (metadata_rule field u)" "well_behaved public_confirmed"
  "well_behaved https_only_policy" "well_behaved (access_key_age fromiso)" "well_behaved inline_allow_all"
  "well_behaved missing_retention" "well_behaved not_encrypted" "well_behaved actions_disabled"
  "well_behaved (trail_field field u)"
  unfolding port_exposure_def all_traffic_def boolean_failure_def imdsv1_def metadata_rule_def public_confirmed_def
    https_only_policy_def access_key_age_def inline_allow_all_def missing_retention_def not_encrypted_def
    actions_disabled_def trail_field_def
  by (rule well_behaved_on_asset;
      auto split: option.splits sum.splits if_splits json.splits
        dest: collect_exposures_error collect_all_traffic_error)+

lemma well_behaved_no_active [simp]: "well_behaved no_active"
  unfolding well_behaved_def by (auto simp: no_active_def Let_def)

lemma well_behaved_predicate:
  assumes "\<And>d. p d \<noteq> Inl AssertionError"
  shows "well_behaved (predicate_rule required p)"
  unfolding predicate_rule_def
  by (rule well_behaved_on_asset) (use assms in \<open>auto simp: Let_def split: sum.splits if_splits\<close>)

lemma well_behaved_field:
  assumes "\<And>v. p v \<noteq> Inl AssertionError"
  shows "well_behaved (field_rule field p)"
  unfolding field_rule_def
  by (rule well_behaved_on_asset) (use assms in \<open>auto split: sum.splits option.splits\<close>)

lemma predicate_no_assertion [simp]:
  "console_without_mfa d \<noteq> Inl AssertionError" "administrator_attached d \<noteq> Inl AssertionError"
  by (auto simp: console_without_mfa_def administrator_attached_def split: sum.splits elim: py_iter.elims)

lemmas rule_tables = EC2_RULES_def S3_RULES_def IAM_RULES_def RDS_RULES_def CLOUDWATCH_RULES_def CLOUDTRAIL_RULES_def

lemma all_rules_well_behaved:
  assumes "r \<in> set (all_rules fromiso)"
  shows "well_behaved (rl_evaluator r)"
proof -
  have rds: "well_behaved (field_rule f (\<lambda>v. case py_int v of Inl e \<Rightarrow> Inl e | Inr n \<Rightarrow> Inr (n < 7)))" for f
    by (rule well_behaved_field) (auto split: sum.splits dest: py_int_error)
  have simple: "well_behaved (field_rule f (\<lambda>v. Inr (q v)))" for f q
    by (rule well_behaved_field) simp
  have "\<forall>r \<in> set (all_rules fromiso). well_behaved (rl_evaluator r)"
    by (simp add: all_rules_def rule_tables rds simple well_behaved_predicate)
  with assms show ?thesis by blast
qed

section \<open>Lemmas on the registry\<close>

lemma register_rules_distinct:
  "distinct (map rl_key (acc @ rs)) \<Longrightarrow> register_rules acc rs = Inr (acc @ rs)"
  by (induction acc rs rule: register_rules.induct) auto

lemma register_rules_duplicate:
  "distinct (map rl_key acc) \<Longrightarrow> \<not> distinct (map rl_key (acc @ rs)) \<Longrightarrow>
     register_rules acc rs = Inl (ValueError ''Duplicate rule key'')"
  by (induction acc rs rule: register_rules.induct) auto

lemma all_rules_keys: "distinct (map rl_key (all_rules fromiso))"
  by (simp add: all_rules_def rule_tables)

lemma registry_get_member:
  assumes "distinct (map rl_key rules)" and "r \<in> set rules"
  shows "registry_get (rl_key r) rules = Some r"
  using assms unfolding registry_get_def by (induction rules) auto

lemma registry_all_set [simp]: "set (registry_all rules) = set rules"
  by (simp add: registry_all_def)

section \<open>Properties\<close>

text \<open>
  The evidence of a rule result holds no key that looks like a credential at any depth, is
  nested at most six deep with at most fifty entries per container, keys of at most 120 and
  strings of at most 1000 characters, and sanitizing it again changes nothing.
\<close>

theorem evidence_is_clean:
  "(\<forall>n v. occurs (sanitize_evidence 0 w) n v \<longrightarrow> n \<le> 6 \<and> evidence_node_ok v) \<and>
   sanitize_evidence 0 (sanitize_evidence 0 w) = sanitize_evidence 0 w"
  using sanitize_evidence_clean [of 0 w] sanitize_evidence_idem by simp

theorem evidence_is_clean_witness:
  "evidence_node_ok (sanitize_evidence 0 (JDict [(''session_token'', JStr ''x''), (''port'', JInt 22)])) \<and>
   sanitize_evidence 0 (JDict [(''session_token'', JStr ''x''), (''port'', JInt 22)]) = JDict [(''port'', JInt 22)]"
proof -
  let ?w = "JDict [(''session_token'', JStr ''x''), (''port'', JInt 22)]"
  have "sanitize_evidence 0 ?w = JDict [(''port'', JInt 22)]"
    by (simp add: sanitize_evidence.simps evidence_limits SENSITIVE_RESULT_KEY_def Let_def casefold_def char_lower_def
        gap_here_def dict_of_def)
  with evidence_is_clean [of ?w] show ?thesis using occurs_here by metis
qed

definition sample_bucket :: Asset where
  "sample_bucket = \<lparr>as_id = 50, as_organization_id = 2, as_aws_account_id = 3, as_asset_type = AssetType.S3_BUCKET,
     as_resource_id = ''bucket'', as_arn = None, as_name = ''bucket'', as_region = ''global'', as_status = None,
     as_tags = [], as_metadata_json = [], as_first_seen_at = 0, as_last_seen_at = 0, as_is_active = True\<rparr>"

text \<open>
  No rule passes on missing data: an asset without metadata never gets a passed result from a
  rule that applies to it, and an account without a trail fails the account-level rule.
\<close>

theorem missing_metadata_never_passes:
  assumes "r \<in> set (all_rules fromiso)" and "applies_to r asset"
    and "\<forall>a. asset = Some a \<longrightarrow> as_metadata_json a = []"
    and "assets_of_type AssetType.CLOUDTRAIL_TRAIL context = []"
  shows "\<exists>res. evaluate r asset context = Inr res \<and>
    rs_status res \<in> {RuleResultStatus.ERROR, RuleResultStatus.FAILED}"
proof -
  have "\<forall>r \<in> set (all_rules fromiso). applies_to r asset \<longrightarrow>
      (\<exists>res. rl_evaluator r asset context = Inr res \<and> rs_status res \<in> {RuleResultStatus.ERROR, RuleResultStatus.FAILED})"
  proof (cases asset)
    case None
    with assms(4) show ?thesis
      by (simp add: all_rules_def rule_tables applies_to_def no_active_def Let_def failed_def rule_result_def)
  next
    case (Some a)
    with assms(3) have m: "as_metadata_json a = []" by simp
    show ?thesis
      unfolding all_rules_def rule_tables Some
      by (simp add: m applies_to_def on_asset_def port_exposure_def all_traffic_def permissions_def dict_get_def
          boolean_failure_def imdsv1_def metadata_rule_def public_confirmed_def https_only_policy_def predicate_rule_def
          access_key_age_def inline_allow_all_def field_rule_def missing_retention_def not_encrypted_def dict_has_def
          actions_disabled_def trail_field_def error_result_def failed_def rule_result_def)
  qed
  with assms(1,2) show ?thesis by (simp add: evaluate_def)
qed

theorem missing_metadata_never_passes_witness:
  "\<exists>res. evaluate (hd S3_RULES) (Some sample_bucket) \<lparr>rc_account_assets = [], rc_evaluated_at = 0\<rparr> = Inr res \<and>
     rs_status res \<in> {RuleResultStatus.ERROR, RuleResultStatus.FAILED}"
  by (rule missing_metadata_never_passes [of _ "\<lambda>s. None"])
    (simp_all add: all_rules_def S3_RULES_def applies_to_def sample_bucket_def rule_asset_types_def assets_of_type_def)

text \<open>
  The default registry is accepted: no two of its rules share a key, all of them satisfy the
  checks of their constructor, listing returns exactly them in the order of their keys, and a
  lookup by key finds the rule. A registry with a repeated key is refused.
\<close>

theorem default_registry_complete:
  "default_registry fromiso = Inr (all_rules fromiso) \<and> length (all_rules fromiso) = 32 \<and>
   (\<forall>r \<in> set (all_rules fromiso). rule_post_init r = Inr () \<and> registry_get (rl_key r) (all_rules fromiso) = Some r) \<and>
   set (registry_all (all_rules fromiso)) = set (all_rules fromiso) \<and>
   sorted (map rl_key (registry_all (all_rules fromiso))) \<and>
   (\<forall>r. r \<in> set rules \<longrightarrow> register_rules [] (rules @ [r]) = Inl (ValueError ''Duplicate rule key''))"
proof -
  have "default_registry fromiso = Inr (all_rules fromiso)"
    using register_rules_distinct [of "[]" "all_rules fromiso"] all_rules_keys by (simp add: default_registry_def)
  moreover have "length (all_rules fromiso) = 32" by (simp add: all_rules_def rule_tables)
  moreover have "\<forall>r \<in> set (all_rules fromiso). rule_post_init r = Inr ()"
    by (simp add: all_rules_def rule_tables rule_post_init_def)
  moreover have "registry_get (rl_key r) (all_rules fromiso) = Some r" if "r \<in> set (all_rules fromiso)" for r
    using all_rules_keys that by (rule registry_get_member)
  moreover have "register_rules [] (rules @ [r]) = Inl (ValueError ''Duplicate rule key'')" if "r \<in> set rules" for r
    using that by (intro register_rules_duplicate) auto
  ultimately show ?thesis by (auto simp: registry_all_def)
qed

theorem default_registry_complete_witness:
  "register_rules [] (S3_RULES @ [hd S3_RULES]) = Inl (ValueError ''Duplicate rule key'')"
  using default_registry_complete [of "\<lambda>s. None" S3_RULES] by (simp add: S3_RULES_def)

end
