(* ===== verification/Rbac.thy ===== *)
theory Rbac
  imports Models
begin

text \<open>
  Capabilities and roles of \<^verbatim>\<open>app/security/rbac.py\<close>, and the tenant membership operations of
  \<^verbatim>\<open>app/services/organizations.py\<close> over the membership table. The theory shows what the
  capability matrix grants, that every successful management operation was performed by an
  active member entitled to it, and that no sequence of operations leaves an organization
  without an active owner.
\<close>

section \<open>Capabilities\<close>

datatype Capability =
    ORGANIZATION_READ
  | ORGANIZATION_UPDATE
  | MEMBERS_READ
  | MEMBERS_MANAGE
  | INVITATIONS_MANAGE
  | AUDIT_READ
  | AWS_ACCOUNTS_MANAGE
  | AWS_ACCOUNTS_READ
  | DISCOVERY_START
  | ASSETS_READ
  | RULES_READ
  | EVALUATIONS_START
  | FINDINGS_READ
  | FINDINGS_SUPPRESS
  | COMPLIANCE_READ
  | COMPLIANCE_ASSESS
  | RISK_READ
  | RISK_ASSESS
  | RISK_CONTEXT_MANAGE
  | RISK_CONTROLS_MANAGE
  | AI_READ
  | AI_GENERATE
  | NOTIFICATIONS_READ
  | NOTIFICATIONS_APPROVE
  | REMEDIATION_READ
  | REMEDIATION_REQUEST
  | REMEDIATION_APPROVE
  | REMEDIATION_REJECT
  | REMEDIATION_EXECUTE
  | REMEDIATION_ADMIN
  | SCHEDULE_READ
  | SCHEDULE_MANAGE
  | JOBS_READ
  | JOBS_MANAGE
  | JIRA_MANAGE
  | JIRA_READ

primrec Capability_value :: "Capability \<Rightarrow> string" where
    "Capability_value ORGANIZATION_READ = ''organization.read''"
  | "Capability_value ORGANIZATION_UPDATE = ''organization.update''"
  | "Capability_value MEMBERS_READ = ''members.read''"
  | "Capability_value MEMBERS_MANAGE = ''members.manage''"
  | "Capability_value INVITATIONS_MANAGE = ''invitations.manage''"
  | "Capability_value AUDIT_READ = ''audit.read''"
  | "Capability_value AWS_ACCOUNTS_MANAGE = ''aws_accounts.manage''"
  | "Capability_value AWS_ACCOUNTS_READ = ''aws_accounts.read''"
  | "Capability_value DISCOVERY_START = ''discovery.start''"
  | "Capability_value ASSETS_READ = ''assets.read''"
  | "Capability_value RULES_READ = ''rules.read''"
  | "Capability_value EVALUATIONS_START = ''evaluations.start''"
  | "Capability_value FINDINGS_READ = ''findings.read''"
  | "Capability_value FINDINGS_SUPPRESS = ''findings.suppress''"
  | "Capability_value COMPLIANCE_READ = ''compliance.read''"
  | "Capability_value COMPLIANCE_ASSESS = ''compliance.assess''"
  | "Capability_value RISK_READ = ''risk.read''"
  | "Capability_value RISK_ASSESS = ''risk.assess''"
  | "Capability_value RISK_CONTEXT_MANAGE = ''risk.context.manage''"
  | "Capability_value RISK_CONTROLS_MANAGE = ''risk.controls.manage''"
  | "Capability_value AI_READ = ''ai.read''"
  | "Capability_value AI_GENERATE = ''ai.generate''"
  | "Capability_value NOTIFICATIONS_READ = ''notifications.read''"
  | "Capability_value NOTIFICATIONS_APPROVE = ''notifications.approve''"
  | "Capability_value REMEDIATION_READ = ''remediation.read''"
  | "Capability_value REMEDIATION_REQUEST = ''remediation.request''"
  | "Capability_value REMEDIATION_APPROVE = ''remediation.approve''"
  | "Capability_value REMEDIATION_REJECT = ''remediation.reject''"
  | "Capability_value REMEDIATION_EXECUTE = ''remediation.execute''"
  | "Capability_value REMEDIATION_ADMIN = ''remediation.admin''"
  | "Capability_value SCHEDULE_READ = ''schedule.read''"
  | "Capability_value SCHEDULE_MANAGE = ''schedule.manage''"
  | "Capability_value JOBS_READ = ''jobs.read''"
  | "Capability_value JOBS_MANAGE = ''jobs.manage''"
  | "Capability_value JIRA_MANAGE = ''jira.manage''"
  | "Capability_value JIRA_READ = ''jira.read''"

definition Capability_members :: "Capability list" where
  "Capability_members =
     [ORGANIZATION_READ, ORGANIZATION_UPDATE, MEMBERS_READ, MEMBERS_MANAGE, INVITATIONS_MANAGE,
      AUDIT_READ, AWS_ACCOUNTS_MANAGE, AWS_ACCOUNTS_READ, DISCOVERY_START, ASSETS_READ,
      RULES_READ, EVALUATIONS_START, FINDINGS_READ, FINDINGS_SUPPRESS, COMPLIANCE_READ,
      COMPLIANCE_ASSESS, RISK_READ, RISK_ASSESS, RISK_CONTEXT_MANAGE, RISK_CONTROLS_MANAGE,
      AI_READ, AI_GENERATE, NOTIFICATIONS_READ, NOTIFICATIONS_APPROVE, REMEDIATION_READ,
      REMEDIATION_REQUEST, REMEDIATION_APPROVE, REMEDIATION_REJECT, REMEDIATION_EXECUTE,
      REMEDIATION_ADMIN, SCHEDULE_READ, SCHEDULE_MANAGE, JOBS_READ, JOBS_MANAGE, JIRA_MANAGE,
      JIRA_READ]"

fun ROLE_CAPABILITIES :: "OrganizationRole \<Rightarrow> Capability list" where
  "ROLE_CAPABILITIES OrganizationRole.OWNER = Capability_members"
| "ROLE_CAPABILITIES OrganizationRole.ADMIN =
     [ORGANIZATION_READ, ORGANIZATION_UPDATE, MEMBERS_READ, MEMBERS_MANAGE, INVITATIONS_MANAGE,
      AUDIT_READ, AWS_ACCOUNTS_MANAGE, AWS_ACCOUNTS_READ, RULES_READ, EVALUATIONS_START,
      FINDINGS_READ, FINDINGS_SUPPRESS, COMPLIANCE_READ, COMPLIANCE_ASSESS, RISK_READ,
      RISK_ASSESS, RISK_CONTEXT_MANAGE, RISK_CONTROLS_MANAGE, DISCOVERY_START, ASSETS_READ,
      AI_READ, AI_GENERATE, NOTIFICATIONS_READ, NOTIFICATIONS_APPROVE, REMEDIATION_READ,
      REMEDIATION_REQUEST, REMEDIATION_APPROVE, REMEDIATION_REJECT, REMEDIATION_EXECUTE,
      SCHEDULE_READ, SCHEDULE_MANAGE, JOBS_READ, JOBS_MANAGE, JIRA_MANAGE, JIRA_READ]"
| "ROLE_CAPABILITIES OrganizationRole.SECURITY_ANALYST =
     [ORGANIZATION_READ, MEMBERS_READ, DISCOVERY_START, ASSETS_READ, AWS_ACCOUNTS_READ,
      RULES_READ, EVALUATIONS_START, FINDINGS_READ, FINDINGS_SUPPRESS, COMPLIANCE_READ,
      COMPLIANCE_ASSESS, RISK_READ, RISK_ASSESS, RISK_CONTEXT_MANAGE, RISK_CONTROLS_MANAGE,
      AI_READ, AI_GENERATE, NOTIFICATIONS_READ, NOTIFICATIONS_APPROVE, REMEDIATION_READ,
      REMEDIATION_REQUEST, REMEDIATION_APPROVE, REMEDIATION_REJECT, REMEDIATION_EXECUTE,
      SCHEDULE_READ, SCHEDULE_MANAGE, JOBS_READ, JOBS_MANAGE]"
| "ROLE_CAPABILITIES OrganizationRole.CLOUD_ENGINEER =
     [ORGANIZATION_READ, MEMBERS_READ, DISCOVERY_START, ASSETS_READ, AWS_ACCOUNTS_READ,
      RULES_READ, EVALUATIONS_START, FINDINGS_READ, COMPLIANCE_READ, COMPLIANCE_ASSESS,
      RISK_READ, RISK_ASSESS, AI_READ, AI_GENERATE, NOTIFICATIONS_READ, REMEDIATION_READ,
      REMEDIATION_REQUEST, SCHEDULE_READ, SCHEDULE_MANAGE, JOBS_READ, JOBS_MANAGE]"
| "ROLE_CAPABILITIES OrganizationRole.AUDITOR =
     [ORGANIZATION_READ, MEMBERS_READ, AUDIT_READ, ASSETS_READ, RULES_READ, FINDINGS_READ,
      COMPLIANCE_READ, RISK_READ, AI_READ, NOTIFICATIONS_READ, REMEDIATION_READ, SCHEDULE_READ,
      JOBS_READ]"
| "ROLE_CAPABILITIES OrganizationRole.VIEWER =
     [ORGANIZATION_READ, ASSETS_READ, AWS_ACCOUNTS_READ, RULES_READ, FINDINGS_READ,
      COMPLIANCE_READ, RISK_READ, AI_READ, NOTIFICATIONS_READ, REMEDIATION_READ, SCHEDULE_READ,
      JOBS_READ]"

definition role_has_capability :: "OrganizationRole \<Rightarrow> Capability \<Rightarrow> bool" where
  "role_has_capability role capability = (capability \<in> set (ROLE_CAPABILITIES role))"

definition can_assign_role :: "OrganizationRole \<Rightarrow> OrganizationRole \<Rightarrow> bool" where
  "can_assign_role actor target =
     (if actor = OrganizationRole.OWNER then True
      else actor = OrganizationRole.ADMIN \<and> target \<noteq> OrganizationRole.OWNER)"

definition ensure_actor_can_manage_membership ::
    "OrganizationRole \<Rightarrow> OrganizationRole \<Rightarrow> OrganizationRole option \<Rightarrow> exn + unit" where
  "ensure_actor_can_manage_membership actor_role target_role requested_role =
     (if actor_role \<notin> {OrganizationRole.OWNER, OrganizationRole.ADMIN} then
        Inl (ForbiddenError ''forbidden'')
      else if target_role = OrganizationRole.OWNER \<and> actor_role \<noteq> OrganizationRole.OWNER then
        Inl (ForbiddenError ''owner_management_forbidden'')
      else if requested_role = Some OrganizationRole.OWNER \<and> actor_role \<noteq> OrganizationRole.OWNER then
        Inl (ForbiddenError ''owner_assignment_forbidden'')
      else Inr ())"

section \<open>Queries of the repository\<close>

definition active_membership :: "uuid \<Rightarrow> uuid \<Rightarrow> db \<Rightarrow> OrganizationMembership option" where
  "active_membership organization_id user_id d =
     find (\<lambda>m. m_organization_id m = organization_id \<and> m_user_id m = user_id \<and>
               m_status m = MembershipStatus.ACTIVE) (memberships d)"

definition membership_by_id :: "uuid \<Rightarrow> uuid \<Rightarrow> db \<Rightarrow> OrganizationMembership option" where
  "membership_by_id organization_id membership_id d =
     find (\<lambda>m. m_organization_id m = organization_id \<and> m_id m = membership_id) (memberships d)"

definition organization_by_slug :: "string \<Rightarrow> db \<Rightarrow> Organization option" where
  "organization_by_slug slug d = find (\<lambda>o'. o_slug o' = slug) (organizations d)"

definition is_active_owner :: "uuid \<Rightarrow> OrganizationMembership \<Rightarrow> bool" where
  "is_active_owner organization_id m =
     (m_organization_id m = organization_id \<and> m_role m = OrganizationRole.OWNER \<and>
      m_status m = MembershipStatus.ACTIVE)"

definition active_owner_count :: "uuid \<Rightarrow> db \<Rightarrow> nat" where
  "active_owner_count organization_id d = length (filter (is_active_owner organization_id) (memberships d))"

section \<open>Authorization\<close>

definition require_member :: "uuid \<Rightarrow> uuid \<Rightarrow> db \<Rightarrow> exn + OrganizationMembership" where
  "require_member organization_id user_id d =
     (case active_membership organization_id user_id d of
        None \<Rightarrow> Inl (NotFoundError ''organization_not_found'')
      | Some m \<Rightarrow> Inr m)"

definition require_capability :: "uuid \<Rightarrow> uuid \<Rightarrow> Capability \<Rightarrow> db \<Rightarrow> exn + OrganizationMembership" where
  "require_capability organization_id user_id capability d =
     (case require_member organization_id user_id d of
        Inl e \<Rightarrow> Inl e
      | Inr m \<Rightarrow> if role_has_capability (m_role m) capability then Inr m
                 else Inl (ForbiddenError ''forbidden''))"

section \<open>Creating and updating an organization\<close>

definition is_slug_char :: "char \<Rightarrow> bool" where
  "is_slug_char c =
     ((97 \<le> (of_char c :: nat) \<and> (of_char c :: nat) \<le> 122) \<or> (48 \<le> (of_char c :: nat) \<and> (of_char c :: nat) \<le> 57))"

text \<open>Every run of other characters becomes one dash.\<close>

fun dash_runs :: "string \<Rightarrow> string" where
  "dash_runs [] = []"
| "dash_runs (c # s) =
     (if is_slug_char c then c # dash_runs s
      else (case s of
              [] \<Rightarrow> ''-''
            | c' # s' \<Rightarrow> if is_slug_char c' then CHR ''-'' # dash_runs s else dash_runs s))"

definition strip_dashes :: "string \<Rightarrow> string" where
  "strip_dashes s = rev (dropWhile (\<lambda>c. c = CHR ''-'') (rev (dropWhile (\<lambda>c. c = CHR ''-'') s)))"

definition slugify :: "string \<Rightarrow> string" where
  "slugify name = take 100 (strip_dashes (dash_runs (casefold (strip name))))"

definition organization_unique :: "db \<Rightarrow> bool" where
  "organization_unique d =
     (unique_on (\<lambda>o'. True) o_slug (organizations d) \<and>
      unique_on (\<lambda>m. True) (\<lambda>m. (m_organization_id m, m_user_id m)) (memberships d))"

definition create_organization ::
    "uuid \<Rightarrow> string \<Rightarrow> string option \<Rightarrow> uuid \<Rightarrow> uuid \<Rightarrow> instant \<Rightarrow> db \<Rightarrow>
     (db, Organization \<times> OrganizationMembership) outcome" where
  "create_organization user_id name slug new_org new_member now d =
     (let value = (case slug of None \<Rightarrow> slugify name | Some s \<Rightarrow> if s = [] then slugify name else s) in
      if value = [] \<or> organization_by_slug value d \<noteq> None then raise (ConflictError ''slug_in_use'') d
      else
        let org = \<lparr>o_id = new_org, o_name = strip name, o_slug = value, o_status = OrganizationStatus.ACTIVE,
                   o_created_by_user_id = user_id\<rparr>;
            member = \<lparr>m_id = new_member, m_organization_id = new_org, m_user_id = user_id,
                      m_role = OrganizationRole.OWNER, m_status = MembershipStatus.ACTIVE,
                      m_invited_by_user_id = None, m_joined_at = Some now\<rparr>;
            d' = record_audit ''organization.created'' ''organization'' AuditResult.SUCCEEDED
                   (Some new_org) (Some user_id) (Some new_org)
                   (d\<lparr>organizations := organizations d @ [org], memberships := memberships d @ [member]\<rparr>)
        in if organization_unique d' then return (org, member) d'
           else raise (ConflictError ''organization_conflict'') d)"

definition update_organization ::
    "uuid \<Rightarrow> uuid \<Rightarrow> string option \<Rightarrow> string option \<Rightarrow> db \<Rightarrow> (db, Organization) outcome" where
  "update_organization organization_id actor name slug d =
     (case require_capability organization_id actor ORGANIZATION_UPDATE d of
        Inl e \<Rightarrow> raise e d
      | Inr _ \<Rightarrow>
          (case get_row o_id organization_id (organizations d) of
             None \<Rightarrow> raise (NotFoundError ''not_found'') d
           | Some org0 \<Rightarrow>
               let org1 = (case name of None \<Rightarrow> org0 | Some n \<Rightarrow> org0\<lparr>o_name := strip n\<rparr>) in
               (case slug of
                  None \<Rightarrow> return org1 (d\<lparr>organizations := put_row o_id org1 (organizations d)\<rparr>)
                | Some s \<Rightarrow>
                    if s = o_slug org0 then
                      return org1 (d\<lparr>organizations := put_row o_id org1 (organizations d)\<rparr>)
                    else if organization_by_slug s d \<noteq> None then raise (ConflictError ''slug_in_use'') d
                    else let org2 = org1\<lparr>o_slug := s\<rparr>
                         in return org2 (d\<lparr>organizations := put_row o_id org2 (organizations d)\<rparr>))))"

section \<open>Managing members\<close>

definition protect_last_owner :: "uuid \<Rightarrow> db \<Rightarrow> exn + unit" where
  "protect_last_owner organization_id d =
     (if active_owner_count organization_id d \<le> 1 then Inl (ConflictError ''last_owner'') else Inr ())"

definition change_role ::
    "uuid \<Rightarrow> uuid \<Rightarrow> uuid \<Rightarrow> OrganizationRole \<Rightarrow> db \<Rightarrow> (db, OrganizationMembership) outcome" where
  "change_role organization_id membership_id actor role d =
     (case require_capability organization_id actor MEMBERS_MANAGE d of
        Inl e \<Rightarrow> raise e d
      | Inr actor_member \<Rightarrow>
          (case membership_by_id organization_id membership_id d of
             None \<Rightarrow> raise (NotFoundError ''membership_not_found'') d
           | Some target \<Rightarrow>
               if m_status target = MembershipStatus.REMOVED then
                 raise (NotFoundError ''membership_not_found'') d
               else
                 (case ensure_actor_can_manage_membership (m_role actor_member) (m_role target) (Some role) of
                    Inl e \<Rightarrow> raise e d
                  | Inr _ \<Rightarrow>
                      (case (if m_role target = OrganizationRole.OWNER \<and> role \<noteq> OrganizationRole.OWNER
                             then protect_last_owner organization_id d else Inr ()) of
                         Inl e \<Rightarrow> raise e d
                       | Inr _ \<Rightarrow>
                           let target' = target\<lparr>m_role := role\<rparr>
                           in return target'
                                (record_audit ''membership.role_changed'' ''membership'' AuditResult.SUCCEEDED
                                   (Some organization_id) (Some actor) (Some (m_id target))
                                   (d\<lparr>memberships := put_row m_id target' (memberships d)\<rparr>))))))"

text \<open>The request schema \<^verbatim>\<open>StatusUpdate\<close> admits only these two values.\<close>

definition active_or_suspended :: "MembershipStatus \<Rightarrow> bool" where
  "active_or_suspended status = (status \<in> {MembershipStatus.ACTIVE, MembershipStatus.SUSPENDED})"

definition change_status ::
    "uuid \<Rightarrow> uuid \<Rightarrow> uuid \<Rightarrow> MembershipStatus \<Rightarrow> db \<Rightarrow> (db, OrganizationMembership) outcome" where
  "change_status organization_id membership_id actor status d =
     (case require_capability organization_id actor MEMBERS_MANAGE d of
        Inl e \<Rightarrow> raise e d
      | Inr actor_member \<Rightarrow>
          (case membership_by_id organization_id membership_id d of
             None \<Rightarrow> raise (NotFoundError ''membership_not_found'') d
           | Some target \<Rightarrow>
               if m_status target = MembershipStatus.REMOVED then
                 raise (NotFoundError ''membership_not_found'') d
               else
                 (case ensure_actor_can_manage_membership (m_role actor_member) (m_role target) None of
                    Inl e \<Rightarrow> raise e d
                  | Inr _ \<Rightarrow>
                      (case (if m_role target = OrganizationRole.OWNER \<and> status = MembershipStatus.SUSPENDED
                             then protect_last_owner organization_id d else Inr ()) of
                         Inl e \<Rightarrow> raise e d
                       | Inr _ \<Rightarrow>
                           let target' = target\<lparr>m_status := status\<rparr>
                           in return target'
                                (record_audit
                                   (if status = MembershipStatus.SUSPENDED then ''membership.suspended''
                                    else ''membership.reactivated'')
                                   ''membership'' AuditResult.SUCCEEDED
                                   (Some organization_id) (Some actor) (Some (m_id target))
                                   (d\<lparr>memberships := put_row m_id target' (memberships d)\<rparr>))))))"

definition remove_member :: "uuid \<Rightarrow> uuid \<Rightarrow> uuid \<Rightarrow> db \<Rightarrow> (db, unit) outcome" where
  "remove_member organization_id membership_id actor d =
     (case require_capability organization_id actor MEMBERS_MANAGE d of
        Inl e \<Rightarrow> raise e d
      | Inr actor_member \<Rightarrow>
          (case membership_by_id organization_id membership_id d of
             None \<Rightarrow> return () d
           | Some target \<Rightarrow>
               if m_status target = MembershipStatus.REMOVED then return () d
               else
                 (case ensure_actor_can_manage_membership (m_role actor_member) (m_role target) None of
                    Inl e \<Rightarrow> raise e d
                  | Inr _ \<Rightarrow>
                      (case (if m_role target = OrganizationRole.OWNER
                             then protect_last_owner organization_id d else Inr ()) of
                         Inl e \<Rightarrow> raise e d
                       | Inr _ \<Rightarrow>
                           return ()
                             (record_audit ''membership.removed'' ''membership'' AuditResult.SUCCEEDED
                                (Some organization_id) (Some actor) (Some (m_id target))
                                (d\<lparr>memberships :=
                                    put_row m_id (target\<lparr>m_status := MembershipStatus.REMOVED\<rparr>) (memberships d)\<rparr>))))))"

text \<open>One request against the organization service, with the outcome's database.\<close>

inductive organization_step :: "db \<Rightarrow> db \<Rightarrow> bool" where
  step_create: "new_org \<notin> o_id ` set (organizations d) \<Longrightarrow> new_org \<notin> m_organization_id ` set (memberships d) \<Longrightarrow>
    new_member \<notin> m_id ` set (memberships d) \<Longrightarrow>
    organization_step d (snd (create_organization user name slug new_org new_member now d))"
| step_update: "organization_step d (snd (update_organization org actor nm slug d))"
| step_change_role: "organization_step d (snd (change_role org mid actor role d))"
| step_change_status: "active_or_suspended status \<Longrightarrow>
    organization_step d (snd (change_status org mid actor status d))"
| step_remove: "organization_step d (snd (remove_member org mid actor d))"

definition owned :: "db \<Rightarrow> bool" where
  "owned d = (keys_distinct m_id (memberships d) \<and>
     (\<forall>org \<in> o_id ` set (organizations d). 1 \<le> active_owner_count org d))"

section \<open>The authorization interface\<close>

text \<open>
  The services that guard an operation by a capability rely on this contract: an authorized
  caller is an active member of the organization whose role holds the capability, and a
  refusal is a not-found or a forbidden error.
\<close>

locale authorizer =
  fixes authorize :: "uuid \<Rightarrow> uuid \<Rightarrow> Capability \<Rightarrow> db \<Rightarrow> exn + OrganizationMembership"
  assumes authorize_sound: "authorize org user cap d = Inr m \<Longrightarrow>
      m \<in> set (memberships d) \<and> m_organization_id m = org \<and> m_user_id m = user \<and>
      m_status m = MembershipStatus.ACTIVE \<and> role_has_capability (m_role m) cap"
    and authorize_refusal: "authorize org user cap d = Inl e \<Longrightarrow> status_code e \<in> {403, 404}"
begin

lemma authorized_member:
  assumes "authorize org user cap d = Inr m"
  shows "\<exists>m \<in> set (memberships d). m_organization_id m = org \<and> m_user_id m = user \<and>
    m_status m = MembershipStatus.ACTIVE \<and> role_has_capability (m_role m) cap"
  using authorize_sound [OF assms] by blast

lemma outsider_refused:
  assumes "\<forall>m \<in> set (memberships d). m_organization_id m = org \<and> m_user_id m = user \<longrightarrow>
    m_status m \<noteq> MembershipStatus.ACTIVE"
  shows "\<exists>e. authorize org user cap d = Inl e \<and> status_code e \<in> {403, 404}"
proof (cases "authorize org user cap d")
  case (Inl e)
  then show ?thesis using authorize_refusal by blast
next
  case (Inr m)
  then show ?thesis using assms authorize_sound by blast
qed

end

lemma active_membership_Some:
  "active_membership org user d = Some m \<Longrightarrow>
     m \<in> set (memberships d) \<and> m_organization_id m = org \<and> m_user_id m = user \<and>
     m_status m = MembershipStatus.ACTIVE"
  by (auto simp: active_membership_def dest: find_mem)

interpretation org_auth: authorizer require_capability
proof
  fix org user cap d m
  assume "require_capability org user cap d = Inr m"
  then show "m \<in> set (memberships d) \<and> m_organization_id m = org \<and> m_user_id m = user \<and>
      m_status m = MembershipStatus.ACTIVE \<and> role_has_capability (m_role m) cap"
    by (auto simp: require_capability_def require_member_def split: option.splits if_splits
        dest: active_membership_Some)
next
  fix org user cap d e
  assume "require_capability org user cap d = Inl e"
  then show "status_code e \<in> {403, 404}"
    by (auto simp: require_capability_def require_member_def split: option.splits if_splits)
qed

section \<open>Lemmas on members and owners\<close>

lemma role_has_capability_simps [simp]:
  "role_has_capability r MEMBERS_MANAGE \<longleftrightarrow> r \<in> {OrganizationRole.OWNER, OrganizationRole.ADMIN}"
  "role_has_capability r REMEDIATION_ADMIN \<longleftrightarrow> r = OrganizationRole.OWNER"
  by (cases r; simp add: role_has_capability_def Capability_members_def)+

lemma role_has_capability_OWNER [simp]: "role_has_capability OrganizationRole.OWNER cap"
  by (cases cap; simp add: role_has_capability_def Capability_members_def)

lemma membership_by_id_Some:
  "membership_by_id org mid d = Some m \<Longrightarrow>
     m \<in> set (memberships d) \<and> m_organization_id m = org \<and> m_id m = mid"
  by (auto simp: membership_by_id_def dest: find_mem)

lemma membership_by_id_get_row:
  assumes "keys_distinct m_id (memberships d)" and "membership_by_id org mid d = Some m"
  shows "get_row m_id (m_id m) (memberships d) = Some m"
  using assms by (auto simp: membership_by_id_def intro: find_eq_get_row)

lemma owner_count_put:
  assumes "keys_distinct m_id (memberships d)" and "membership_by_id org mid d = Some target"
    and "m_id target' = m_id target"
  shows "length (filter (is_active_owner o') (put_row m_id target' (memberships d))) +
           (if is_active_owner o' target then 1 else 0) =
         active_owner_count o' d + (if is_active_owner o' target' then 1 else 0)"
  using count_put_row [of m_id "memberships d" target' target "is_active_owner o'"]
    membership_by_id_get_row [OF assms(1,2)] assms
  by (simp add: active_owner_count_def)

text \<open>
  The three management operations change at most one row, and only past the last-owner guard
  when that row is an owner who stops being an active one.
\<close>

definition managed :: "uuid \<Rightarrow> uuid \<Rightarrow> uuid \<Rightarrow> db \<Rightarrow> db \<Rightarrow> bool" where
  "managed org mid actor d d' =
     (d' = d \<or>
      (\<exists>am target target'.
         require_capability org actor MEMBERS_MANAGE d = Inr am \<and>
         membership_by_id org mid d = Some target \<and> m_status target \<noteq> MembershipStatus.REMOVED \<and>
         m_id target' = m_id target \<and> m_organization_id target' = m_organization_id target \<and>
         m_user_id target' = m_user_id target \<and>
         memberships d' = put_row m_id target' (memberships d) \<and> organizations d' = organizations d \<and>
         (m_role target = OrganizationRole.OWNER \<or> m_role target' = OrganizationRole.OWNER \<longrightarrow>
            m_role am = OrganizationRole.OWNER) \<and>
         (is_active_owner org target \<and> \<not> is_active_owner org target' \<longrightarrow> 1 < active_owner_count org d)))"

lemmas management_defs = protect_last_owner_def ensure_actor_can_manage_membership_def is_active_owner_def Let_def

lemma managedI:
  assumes "require_capability org actor MEMBERS_MANAGE d = Inr am"
    and "membership_by_id org mid d = Some target" and "m_status target \<noteq> MembershipStatus.REMOVED"
    and "m_id target' = m_id target" and "m_organization_id target' = m_organization_id target"
    and "m_user_id target' = m_user_id target"
    and "memberships d' = put_row m_id target' (memberships d)" and "organizations d' = organizations d"
    and "m_role target = OrganizationRole.OWNER \<or> m_role target' = OrganizationRole.OWNER \<Longrightarrow>
      m_role am = OrganizationRole.OWNER"
    and "is_active_owner org target \<Longrightarrow> \<not> is_active_owner org target' \<Longrightarrow> 1 < active_owner_count org d"
  shows "managed org mid actor d d'"
  using assms unfolding managed_def by blast

lemma change_role_managed: "managed org mid actor d (snd (change_role org mid actor role d))"
proof (cases "snd (change_role org mid actor role d) = d")
  case True
  then show ?thesis by (simp add: managed_def)
next
  case False
  then obtain am target where "require_capability org actor MEMBERS_MANAGE d = Inr am"
      and "membership_by_id org mid d = Some target" and "m_status target \<noteq> MembershipStatus.REMOVED"
      and "m_role target = OrganizationRole.OWNER \<or> role = OrganizationRole.OWNER \<longrightarrow>
        m_role am = OrganizationRole.OWNER"
      and "m_role target = OrganizationRole.OWNER \<and> role \<noteq> OrganizationRole.OWNER \<longrightarrow>
        1 < active_owner_count org d"
      and "memberships (snd (change_role org mid actor role d)) =
        put_row m_id (target\<lparr>m_role := role\<rparr>) (memberships d)"
      and "organizations (snd (change_role org mid actor role d)) = organizations d"
    by (auto simp: change_role_def management_defs split: sum.splits option.splits if_splits)
  then show ?thesis
    by (intro managedI [where target' = "target\<lparr>m_role := role\<rparr>"]) (auto simp: is_active_owner_def)
qed

lemma change_status_managed:
  assumes "active_or_suspended status"
  shows "managed org mid actor d (snd (change_status org mid actor status d))"
proof (cases "snd (change_status org mid actor status d) = d")
  case True
  then show ?thesis by (simp add: managed_def)
next
  case False
  then obtain am target where "require_capability org actor MEMBERS_MANAGE d = Inr am"
      and "membership_by_id org mid d = Some target" and "m_status target \<noteq> MembershipStatus.REMOVED"
      and "m_role target = OrganizationRole.OWNER \<longrightarrow> m_role am = OrganizationRole.OWNER"
      and "m_role target = OrganizationRole.OWNER \<and> status = MembershipStatus.SUSPENDED \<longrightarrow>
        1 < active_owner_count org d"
      and "memberships (snd (change_status org mid actor status d)) =
        put_row m_id (target\<lparr>m_status := status\<rparr>) (memberships d)"
      and "organizations (snd (change_status org mid actor status d)) = organizations d"
    by (auto simp: change_status_def management_defs split: sum.splits option.splits if_splits)
  with assms show ?thesis
    by (intro managedI [where target' = "target\<lparr>m_status := status\<rparr>"])
      (auto simp: is_active_owner_def active_or_suspended_def)
qed

lemma remove_member_managed: "managed org mid actor d (snd (remove_member org mid actor d))"
proof (cases "snd (remove_member org mid actor d) = d")
  case True
  then show ?thesis by (simp add: managed_def)
next
  case False
  then obtain am target where "require_capability org actor MEMBERS_MANAGE d = Inr am"
      and "membership_by_id org mid d = Some target" and "m_status target \<noteq> MembershipStatus.REMOVED"
      and "m_role target = OrganizationRole.OWNER \<longrightarrow> m_role am = OrganizationRole.OWNER"
      and "m_role target = OrganizationRole.OWNER \<longrightarrow> 1 < active_owner_count org d"
      and "memberships (snd (remove_member org mid actor d)) =
        put_row m_id (target\<lparr>m_status := MembershipStatus.REMOVED\<rparr>) (memberships d)"
      and "organizations (snd (remove_member org mid actor d)) = organizations d"
    by (auto simp: remove_member_def management_defs split: sum.splits option.splits if_splits)
  then show ?thesis
    by (intro managedI [where target' = "target\<lparr>m_status := MembershipStatus.REMOVED\<rparr>"])
      (auto simp: is_active_owner_def)
qed

lemma managed_owned:
  assumes "managed org mid actor d d'" and "owned d"
  shows "owned d'"
proof (cases "d' = d")
  case True
  with assms show ?thesis by simp
next
  case False
  with assms(1) obtain am target target' where t: "membership_by_id org mid d = Some target"
      "m_id target' = m_id target" "m_organization_id target' = m_organization_id target"
      "memberships d' = put_row m_id target' (memberships d)" "organizations d' = organizations d"
      "is_active_owner org target \<and> \<not> is_active_owner org target' \<longrightarrow> 1 < active_owner_count org d"
    unfolding managed_def by blast
  from assms(2) have kd: "keys_distinct m_id (memberships d)" by (simp add: owned_def)
  have "1 \<le> active_owner_count o' d'" if "o' \<in> o_id ` set (organizations d')" for o'
  proof -
    have "1 \<le> active_owner_count o' d" using that assms(2) t(5) by (auto simp: owned_def)
    moreover have "active_owner_count o' d' + (if is_active_owner o' target then 1 else 0) =
        active_owner_count o' d + (if is_active_owner o' target' then 1 else 0)"
      using owner_count_put [OF kd t(1,2), of o'] t(4) by (simp add: active_owner_count_def)
    moreover have "o' = org" if "is_active_owner o' target"
      using that membership_by_id_Some [OF t(1)] by (simp add: is_active_owner_def)
    ultimately show ?thesis
      using t(6) by (auto split: if_splits)
  qed
  with kd t(4) show ?thesis by (simp add: owned_def)
qed

lemma create_organization_owned:
  assumes "owned d" and "new_org \<notin> o_id ` set (organizations d)"
    and "new_member \<notin> m_id ` set (memberships d)"
  shows "owned (snd (create_organization user name slug new_org new_member now d))"
  using assms
  by (auto simp: create_organization_def Let_def owned_def keys_distinct_snoc active_owner_count_def
      is_active_owner_def split: option.splits if_splits)

lemma update_organization_frame:
  "memberships (snd (update_organization org actor nm slug d)) = memberships d"
  "map o_id (organizations (snd (update_organization org actor nm slug d))) = map o_id (organizations d)"
proof -
  have mk: "map o_id (put_row o_id x (organizations d)) = map o_id (organizations d)" for x
    by simp
  show "memberships (snd (update_organization org actor nm slug d)) = memberships d"
    by (simp add: update_organization_def Let_def split: option.splits sum.splits)
  show "map o_id (organizations (snd (update_organization org actor nm slug d))) = map o_id (organizations d)"
    by (simp add: update_organization_def Let_def mk split: option.splits sum.splits)
qed

lemma update_organization_owned:
  assumes "owned d"
  shows "owned (snd (update_organization org actor nm slug d))"
proof -
  let ?d = "snd (update_organization org actor nm slug d)"
  have "o_id ` set (organizations ?d) = o_id ` set (organizations d)"
    using update_organization_frame(2) by (metis set_map)
  with assms show ?thesis
    by (simp add: owned_def active_owner_count_def update_organization_frame)
qed

lemma organization_step_owned: "organization_step d d' \<Longrightarrow> owned d \<Longrightarrow> owned d'"
proof (induction rule: organization_step.induct)
  case (step_create new_org d new_member user name slug now)
  then show ?case by (intro create_organization_owned)
next
  case step_update
  then show ?case by (rule update_organization_owned)
next
  case step_change_role
  show ?case by (rule managed_owned [OF change_role_managed]) fact
next
  case (step_change_status status)
  show ?case by (rule managed_owned [OF change_status_managed]) fact+
next
  case step_remove
  show ?case by (rule managed_owned [OF remove_member_managed]) fact
qed

interpretation organizations_system: transition_system organization_step owned
  by unfold_locales (rule organization_step_owned)

section \<open>Properties\<close>

text \<open>
  C3. Whatever sequence of organization requests is served (creating and updating organizations,
  changing roles, suspending, reactivating and removing members), every organization keeps
  at least one active owner.
\<close>

theorem every_organization_keeps_an_owner:
  assumes "organization_step\<^sup>*\<^sup>* d d'" and "owned d" and "org \<in> o_id ` set (organizations d')"
  shows "\<exists>m \<in> set (memberships d'). m_organization_id m = org \<and> m_role m = OrganizationRole.OWNER \<and>
    m_status m = MembershipStatus.ACTIVE"
proof -
  from organizations_system.inv_reachable [OF assms(1,2)] assms(3)
  have "filter (is_active_owner org) (memberships d') \<noteq> []"
    by (auto simp: owned_def active_owner_count_def)
  then obtain m where "m \<in> set (memberships d')" and "is_active_owner org m"
    by (metis filter_False)
  then show ?thesis by (auto simp: is_active_owner_def)
qed

theorem every_organization_keeps_an_owner_witness:
  "\<exists>m \<in> set (memberships (snd (remove_member 1 10 7
       (snd (create_organization 7 ''Acme'' (Some ''acme'') 1 10 0 empty_db))))).
     m_organization_id m = 1 \<and> m_role m = OrganizationRole.OWNER \<and> m_status m = MembershipStatus.ACTIVE"
proof -
  let ?d1 = "snd (create_organization 7 ''Acme'' (Some ''acme'') 1 10 0 empty_db)"
  let ?d2 = "snd (remove_member 1 10 7 ?d1)"
  have s1: "organization_step empty_db ?d1"
    by (rule step_create) (simp_all add: empty_db_def)
  have s2: "organization_step ?d1 ?d2" by (rule step_remove)
  have r: "organization_step\<^sup>*\<^sup>* empty_db ?d2"
    using s1 s2 by (meson rtranclp.rtrancl_into_rtrancl rtranclp.rtrancl_refl)
  have o: "owned empty_db" by (simp add: owned_def empty_db_def keys_distinct_def)
  have "organizations ?d1 \<noteq> [] \<and> o_id (hd (organizations ?d1)) = 1 \<and> organizations ?d2 = organizations ?d1"
    by (simp add: create_organization_def remove_member_def Let_def empty_db_def organization_by_slug_def
        organization_unique_def record_audit_def split: sum.split option.split)
  then have "1 \<in> o_id ` set (organizations ?d2)" by (metis hd_in_set image_eqI)
  with r o show ?thesis by (rule every_organization_keeps_an_owner)
qed

text \<open>
  C8. Member management is governed: when changing a role, changing a status or removing a member
  alters the database, the caller was an active owner or admin of that organization, exactly the
  named membership of that organization changed, and an owner's membership was altered, or the
  owner role granted, only by an owner.
\<close>

theorem member_management_governed:
  assumes "d' = snd (change_role org mid actor role d) \<or> d' = snd (remove_member org mid actor d) \<or>
      active_or_suspended status \<and> d' = snd (change_status org mid actor status d)"
    and "d' \<noteq> d" and "keys_distinct m_id (memberships d)"
  shows "\<exists>am \<in> set (memberships d). m_organization_id am = org \<and> m_user_id am = actor \<and>
      m_status am = MembershipStatus.ACTIVE \<and> m_role am \<in> {OrganizationRole.OWNER, OrganizationRole.ADMIN} \<and>
      (\<exists>target target'. get_row m_id mid (memberships d) = Some target \<and> m_organization_id target = org \<and>
         get_row m_id mid (memberships d') = Some target' \<and>
         (\<forall>j. j \<noteq> mid \<longrightarrow> get_row m_id j (memberships d') = get_row m_id j (memberships d)) \<and>
         (m_role target = OrganizationRole.OWNER \<or> m_role target' = OrganizationRole.OWNER \<longrightarrow>
            m_role am = OrganizationRole.OWNER))"
proof -
  from assms(1) have "managed org mid actor d d'"
    using change_role_managed remove_member_managed change_status_managed by blast
  with assms(2) obtain am target target' where t:
      "require_capability org actor MEMBERS_MANAGE d = Inr am"
      "membership_by_id org mid d = Some target" "m_id target' = m_id target"
      "memberships d' = put_row m_id target' (memberships d)"
      "m_role target = OrganizationRole.OWNER \<or> m_role target' = OrganizationRole.OWNER \<longrightarrow>
        m_role am = OrganizationRole.OWNER"
    unfolding managed_def by blast
  note am = org_auth.authorize_sound [OF t(1)]
  have tm: "m_organization_id target = org" "m_id target = mid"
    using membership_by_id_Some [OF t(2)] by auto
  have g: "get_row m_id mid (memberships d) = Some target"
    using membership_by_id_get_row [OF assms(3) t(2)] tm by simp
  have "get_row m_id mid (memberships d') = Some target'"
    using g t(3,4) tm membership_table.read_after_write by simp
  moreover have "\<forall>j. j \<noteq> mid \<longrightarrow> get_row m_id j (memberships d') = get_row m_id j (memberships d)"
    using g t(3,4) tm by (simp add: get_put_row)
  ultimately show ?thesis using am g tm t(5) by auto
qed

text \<open>An organization with its owner (user 7) and a viewer (user 8).\<close>

definition sample_org :: db where
  "sample_org = empty_db\<lparr>organizations :=
       [\<lparr>o_id = 2, o_name = ''Acme'', o_slug = ''acme'', o_status = OrganizationStatus.ACTIVE,
         o_created_by_user_id = 7\<rparr>],
     memberships :=
       [\<lparr>m_id = 10, m_organization_id = 2, m_user_id = 7, m_role = OrganizationRole.OWNER,
         m_status = MembershipStatus.ACTIVE, m_invited_by_user_id = None, m_joined_at = Some 0\<rparr>,
        \<lparr>m_id = 11, m_organization_id = 2, m_user_id = 8, m_role = OrganizationRole.VIEWER,
         m_status = MembershipStatus.ACTIVE, m_invited_by_user_id = Some 7, m_joined_at = Some 5\<rparr>]\<rparr>"

lemma sample_org_owner_authorized [simp]:
  "require_capability 2 7 cap sample_org =
     Inr \<lparr>m_id = 10, m_organization_id = 2, m_user_id = 7, m_role = OrganizationRole.OWNER,
         m_status = MembershipStatus.ACTIVE, m_invited_by_user_id = None, m_joined_at = Some 0\<rparr>"
  by (simp add: require_capability_def require_member_def active_membership_def sample_org_def)

theorem member_management_governed_witness:
  "\<exists>am \<in> set (memberships sample_org). m_user_id am = 7 \<and>
     m_role am \<in> {OrganizationRole.OWNER, OrganizationRole.ADMIN}"
proof -
  let ?d = "snd (change_role 2 11 7 OrganizationRole.ADMIN sample_org)"
  have ne: "?d \<noteq> sample_org"
    by (simp add: change_role_def membership_by_id_def management_defs require_capability_def
        require_member_def active_membership_def record_audit_def sample_org_def empty_db_def)
  have kd: "keys_distinct m_id (memberships sample_org)"
    by (simp add: sample_org_def keys_distinct_def)
  show ?thesis
    using member_management_governed [of ?d 2 11 7 OrganizationRole.ADMIN sample_org
        MembershipStatus.ACTIVE, OF _ ne kd] by blast
qed

end
