(* ===== verification/Accounts.thy ===== *)
theory Accounts
  imports Rbac
begin

text \<open>
  What the services share on AWS accounts: the constraints of their table, the tenant-authorized
  lookup of \<^verbatim>\<open>app/repositories/data.py\<close>, the grammar of remediation role ARNs of
  \<^verbatim>\<open>app/schemas/aws_account.py\<close> and the write of a changed account.
\<close>

section \<open>The table\<close>

definition aws_account_unique :: "AWSAccount list \<Rightarrow> bool" where
  "aws_account_unique rows =
     (unique_on (\<lambda>a. True) (\<lambda>a. (acc_organization_id a, acc_account_id a)) rows \<and>
      unique_on (\<lambda>a. acc_role_arn a \<noteq> None) (\<lambda>a. (acc_organization_id a, acc_role_arn a)) rows \<and>
      unique_on (\<lambda>a. True) acc_external_id rows \<and>
      unique_on (\<lambda>a. acc_remediation_external_id a \<noteq> None) acc_remediation_external_id rows)"

text \<open>\<^verbatim>\<open>fk_aws_account_sandbox_approver_membership\<close>.\<close>

definition sandbox_approver_is_member :: "AWSAccount \<Rightarrow> db \<Rightarrow> bool" where
  "sandbox_approver_is_member a d =
     (case acc_sandbox_approved_by_user_id a of
        None \<Rightarrow> True
      | Some u \<Rightarrow> list_ex (\<lambda>m. m_organization_id m = acc_organization_id a \<and> m_user_id m = u) (memberships d))"

definition aws_account_for_user :: "uuid \<Rightarrow> uuid \<Rightarrow> db \<Rightarrow> (AWSAccount \<times> OrganizationMembership) option" where
  "aws_account_for_user account_id user_id d =
     (case get_row acc_id account_id (aws_accounts d) of
        None \<Rightarrow> None
      | Some a \<Rightarrow>
          (case active_membership (acc_organization_id a) user_id d of
             None \<Rightarrow> None
           | Some m \<Rightarrow> Some (a, m)))"

section \<open>Remediation role ARNs\<close>

definition arn_prefixes :: "string list" where
  "arn_prefixes = [''arn:aws:iam::'', ''arn:aws-us-gov:iam::'', ''arn:aws-cn:iam::'']"

definition is_role_char :: "char \<Rightarrow> bool" where
  "is_role_char c =
     (let n = (of_char c :: nat) in
      (65 \<le> n \<and> n \<le> 90) \<or> (97 \<le> n \<and> n \<le> 122) \<or> (48 \<le> n \<and> n \<le> 57) \<or> c \<in> set ''+=,.@_/-'')"

text \<open>The account number and the suffix of a role ARN after a partition prefix.\<close>

definition split_role :: "string \<Rightarrow> (string \<times> string) option" where
  "split_role s =
     (let account = take 12 s; suffix = drop 12 s; role = drop 6 suffix in
      if length account = 12 \<and> list_all is_digit account \<and> take 6 suffix = '':role/'' \<and>
         1 \<le> length role \<and> length role \<le> 512 \<and> list_all is_role_char role
      then Some (account, suffix) else None)"

fun split_role_arn :: "string list \<Rightarrow> string \<Rightarrow> (string \<times> string \<times> string) option" where
  "split_role_arn [] s = None"
| "split_role_arn (p # ps) s =
     (if starts_with p s then
        (case split_role (drop (length p) s) of
           None \<Rightarrow> split_role_arn ps s
         | Some (account, suffix) \<Rightarrow> Some (p, account, suffix))
      else split_role_arn ps s)"

definition REMEDIATION_ROLE_ARN_PATTERN :: "string \<Rightarrow> (string \<times> string \<times> string) option" where
  "REMEDIATION_ROLE_ARN_PATTERN s = split_role_arn arn_prefixes s"

definition masked_role_arn :: "string option \<Rightarrow> string option" where
  "masked_role_arn role_arn =
     (case role_arn of
        None \<Rightarrow> None
      | Some s \<Rightarrow>
          (case REMEDIATION_ROLE_ARN_PATTERN s of
             None \<Rightarrow> None
           | Some (prefix, account, suffix) \<Rightarrow> Some (prefix @ ''********'' @ drop 8 account @ suffix)))"

section \<open>Lemmas\<close>

lemma aws_account_for_user_Some:
  assumes "aws_account_for_user i u d = Some (a, m)"
  shows "get_row acc_id i (aws_accounts d) = Some a" and "acc_id a = i"
    and "m \<in> set (memberships d)" and "m_organization_id m = acc_organization_id a" and "m_user_id m = u"
    and "m_status m = MembershipStatus.ACTIVE"
  using assms by (auto simp: aws_account_for_user_def split: option.splits dest!: active_membership_Some
      dest: get_row_key)

lemma split_role_Some:
  "split_role s = Some (account, suffix) \<Longrightarrow> s = account @ suffix \<and> length account = 12 \<and> list_all is_digit account"
  by (auto simp: split_role_def Let_def split: if_splits)

lemma split_role_arn_Some:
  "split_role_arn ps s = Some (p, account, suffix) \<Longrightarrow>
     p \<in> set ps \<and> s = p @ account @ suffix \<and> split_role (account @ suffix) = Some (account, suffix)"
proof (induction ps)
  case Nil
  then show ?case by simp
next
  case (Cons q ps)
  then show ?case
    by (auto simp: starts_with_iff split: if_splits option.splits dest: split_role_Some)
qed

lemma role_arn_Some:
  assumes "REMEDIATION_ROLE_ARN_PATTERN s = Some (p, account, suffix)"
  shows "p \<in> set arn_prefixes" and "s = p @ account @ suffix" and "length account = 12"
    and "list_all is_digit account"
  using split_role_arn_Some [OF assms [unfolded REMEDIATION_ROLE_ARN_PATTERN_def]] by (auto dest: split_role_Some)

text \<open>The account number can be exchanged for another one without changing the match.\<close>

lemma split_role_exchange:
  assumes "split_role (account @ suffix) = Some (account, suffix)" and "length account' = 12" and "list_all is_digit account'"
  shows "split_role (account' @ suffix) = Some (account', suffix)"
  using assms split_role_Some [OF assms(1)] by (auto simp: split_role_def Let_def split: if_splits)

lemma partitions_disjoint:
  assumes "p \<in> set arn_prefixes" and "q \<in> set arn_prefixes" and "starts_with q (p @ s)"
  shows "q = p"
  using assms by (auto simp: arn_prefixes_def)

lemma split_role_arn_member:
  assumes "split_role s = Some (account, suffix)" and "p \<in> set ps"
    and "\<And>q. q \<in> set ps \<Longrightarrow> starts_with q (p @ s) \<Longrightarrow> q = p"
  shows "split_role_arn ps (p @ s) = Some (p, account, suffix)"
  using assms(2,3)
proof (induction ps)
  case Nil
  then show ?case by simp
next
  case (Cons q ps)
  show ?case
  proof (cases "q = p")
    case True
    then show ?thesis using assms(1) by (auto simp: starts_with_iff)
  next
    case False
    with Cons.prems have "\<not> starts_with q (p @ s)" and "p \<in> set ps" by auto
    with Cons show ?thesis by simp
  qed
qed

lemma role_arn_exchange:
  assumes "REMEDIATION_ROLE_ARN_PATTERN (p @ account @ suffix) = Some (p, account, suffix)"
    and "length account' = 12" and "list_all is_digit account'"
  shows "REMEDIATION_ROLE_ARN_PATTERN (p @ account' @ suffix) = Some (p, account', suffix)"
proof -
  note arn = split_role_arn_Some [OF assms(1) [unfolded REMEDIATION_ROLE_ARN_PATTERN_def]]
  show ?thesis
    unfolding REMEDIATION_ROLE_ARN_PATTERN_def
    by (rule split_role_arn_member) (use arn assms split_role_exchange partitions_disjoint in blast)+
qed

end
