(* ===== verification/Platform_Jobs.thy ===== *)
theory Platform_Jobs
  imports Rbac "HOL-Library.Product_Lexorder"
begin

text \<open>
  The durable job queue of \<^verbatim>\<open>app/services/platform_jobs.py\<close>. Each operation selects one row of
  \<^verbatim>\<open>platform_jobs\<close> and rewrites it; the rewriting of the row is a function of its own
  (\<open>lease_job\<close>, \<open>start_job\<close>, ...) so that the properties of rows are proved once. A lease token
  drawn by \<^verbatim>\<open>uuid.uuid4()\<close> is an argument of \<open>acquire\<close>, as are the rows that concurrent
  transactions hold locked (\<^verbatim>\<open>skip_locked\<close>). \<open>redact\<close> stands for
  \<^verbatim>\<open>ai_safety.redact_text\<close>.
\<close>

section \<open>Payloads\<close>

definition MAX_PAYLOAD_BYTES :: nat where
  "MAX_PAYLOAD_BYTES = 4096"

definition MAX_ERROR_SUMMARY :: nat where
  "MAX_ERROR_SUMMARY = 500"

definition ACTIVE_STATUSES :: "PlatformJobStatus list" where
  "ACTIVE_STATUSES = [PlatformJobStatus.AVAILABLE, PlatformJobStatus.LEASED, PlatformJobStatus.RUNNING,
     PlatformJobStatus.RETRY_WAIT]"

definition TERMINAL_STATUSES :: "PlatformJobStatus list" where
  "TERMINAL_STATUSES = [PlatformJobStatus.SUCCEEDED, PlatformJobStatus.FAILED,
     PlatformJobStatus.DEAD_LETTERED, PlatformJobStatus.CANCELLED]"

text \<open>The checks of a loop in order: the first exception ends it.\<close>

fun first_error :: "(exn + unit) list \<Rightarrow> exn + unit" where
  "first_error [] = Inr ()"
| "first_error (Inl e # rs) = Inl e"
| "first_error (Inr u # rs) = first_error rs"

function check_payload :: "nat \<Rightarrow> json \<Rightarrow> exn + unit" where
  "check_payload depth (JDict d) =
     (if 4 < depth then Inl (ValueError ''Job payload nesting is too deep'')
      else first_error (map (\<lambda>kv. if SENSITIVE_PAYLOAD_KEY (fst kv)
                                  then Inl (ValueError ''Job payload contains a prohibited sensitive field'')
                                  else check_payload (depth + 1) (snd kv)) d))"
| "check_payload depth (JList xs) =
     (if 4 < depth then Inl (ValueError ''Job payload nesting is too deep'')
      else if 50 < length xs then Inl (ValueError ''Job payload list is too large'')
      else first_error (map (\<lambda>x. check_payload (depth + 1) x) xs))"
| "check_payload depth (JObj s) =
     (if 4 < depth then Inl (ValueError ''Job payload nesting is too deep'')
      else Inl (ValueError ''Job payload values must be JSON scalars''))"
| "check_payload depth JNull =
     (if 4 < depth then Inl (ValueError ''Job payload nesting is too deep'') else Inr ())"
| "check_payload depth (JBool b) =
     (if 4 < depth then Inl (ValueError ''Job payload nesting is too deep'') else Inr ())"
| "check_payload depth (JInt i) =
     (if 4 < depth then Inl (ValueError ''Job payload nesting is too deep'') else Inr ())"
| "check_payload depth (JStr s) =
     (if 4 < depth then Inl (ValueError ''Job payload nesting is too deep'') else Inr ())"
  by pat_completeness auto
termination
  by (relation "measure (\<lambda>(n, v). size v)") (simp_all del: json.size)

definition validated_payload :: "dict \<Rightarrow> exn + dict" where
  "validated_payload payload =
     (case check_payload 0 (JDict payload) of
        Inl e \<Rightarrow> Inl e
      | Inr _ \<Rightarrow>
          if MAX_PAYLOAD_BYTES < length (json_dumps (JDict payload))
          then Inl (ValueError ''Job payload exceeds the 4096-byte limit'')
          else Inr payload)"

section \<open>Enqueueing\<close>

text \<open>The keyword arguments of \<open>enqueue\<close> and their defaults.\<close>

record EnqueueRequest =
  eq_organization_id :: uuid
  eq_job_type :: PlatformJobType
  eq_reference_id :: uuid
  eq_idempotency_key :: string
  eq_payload :: "dict option"
  eq_available_at :: "instant option"
  eq_priority :: int
  eq_max_attempts :: int
  eq_correlation_id :: "uuid option"
  eq_parent_job_id :: "uuid option"
  eq_actor_user_id :: "uuid option"

definition enqueue_args :: "uuid \<Rightarrow> PlatformJobType \<Rightarrow> uuid \<Rightarrow> string \<Rightarrow> EnqueueRequest" where
  "enqueue_args organization_id job_type reference_id idempotency_key =
     \<lparr>eq_organization_id = organization_id, eq_job_type = job_type, eq_reference_id = reference_id,
      eq_idempotency_key = idempotency_key, eq_payload = None, eq_available_at = None, eq_priority = 0,
      eq_max_attempts = 3, eq_correlation_id = None, eq_parent_job_id = None, eq_actor_user_id = None\<rparr>"

definition job_candidate ::
    "EnqueueRequest \<Rightarrow> dict \<Rightarrow> uuid \<Rightarrow> uuid \<Rightarrow> instant \<Rightarrow> PlatformJob" where
  "job_candidate rq payload new_id new_correlation now =
     \<lparr>pj_id = new_id, pj_organization_id = eq_organization_id rq, pj_job_type = eq_job_type rq,
      pj_status = PlatformJobStatus.AVAILABLE, pj_reference_id = eq_reference_id rq,
      pj_payload_json = payload, pj_idempotency_key = take 160 (eq_idempotency_key rq),
      pj_priority = eq_priority rq, pj_attempt_count = 0, pj_max_attempts = eq_max_attempts rq,
      pj_scheduled_at = now,
      pj_available_at = (case eq_available_at rq of None \<Rightarrow> now | Some t \<Rightarrow> t),
      pj_leased_at = None, pj_lease_expires_at = None, pj_lease_token = None, pj_lease_generation = 0,
      pj_worker_id = None, pj_started_at = None, pj_completed_at = None, pj_failed_at = None,
      pj_dead_lettered_at = None, pj_last_error_code = None, pj_last_error_summary = None,
      pj_result_reference = None,
      pj_correlation_id = (case eq_correlation_id rq of None \<Rightarrow> new_correlation | Some c \<Rightarrow> c),
      pj_parent_job_id = eq_parent_job_id rq, pj_created_at = now\<rparr>"

text \<open>What the database checks when the row is flushed; otherwise it reports an integrity error.\<close>

definition job_insertable :: "PlatformJob \<Rightarrow> db \<Rightarrow> bool" where
  "job_insertable j d =
     (platform_job_constraints j \<and> platform_job_unique (platform_jobs d @ [j]) \<and>
      list_ex (\<lambda>o'. o_id o' = pj_organization_id j) (organizations d) \<and>
      (case pj_parent_job_id j of
         None \<Rightarrow> True
       | Some p \<Rightarrow> list_ex (\<lambda>k. pj_id k = p \<and> pj_organization_id k = pj_organization_id j) (platform_jobs d)))"

definition same_idempotency :: "EnqueueRequest \<Rightarrow> PlatformJob \<Rightarrow> bool" where
  "same_idempotency rq j =
     (pj_organization_id j = eq_organization_id rq \<and> pj_job_type j = eq_job_type rq \<and>
      pj_idempotency_key j = take 160 (eq_idempotency_key rq))"

definition same_active_reference :: "EnqueueRequest \<Rightarrow> PlatformJob \<Rightarrow> bool" where
  "same_active_reference rq j =
     (pj_organization_id j = eq_organization_id rq \<and> pj_job_type j = eq_job_type rq \<and>
      pj_reference_id j = eq_reference_id rq \<and> pj_status j \<in> set ACTIVE_STATUSES)"

definition enqueue ::
    "EnqueueRequest \<Rightarrow> uuid \<Rightarrow> uuid \<Rightarrow> instant \<Rightarrow> db \<Rightarrow> (db, PlatformJob \<times> bool) outcome" where
  "enqueue rq new_id new_correlation now d =
     (case validated_payload (case eq_payload rq of None \<Rightarrow> [] | Some p \<Rightarrow> p) of
        Inl e \<Rightarrow> raise e d
      | Inr payload \<Rightarrow>
          let candidate = job_candidate rq payload new_id new_correlation now in
          if job_insertable candidate d then
            return (candidate, True)
              (record_audit ''platform.job.enqueued'' ''platform_job'' AuditResult.SUCCEEDED
                 (Some (eq_organization_id rq)) (eq_actor_user_id rq) (Some new_id)
                 (d\<lparr>platform_jobs := platform_jobs d @ [candidate]\<rparr>))
          else
            (case find (same_idempotency rq) (platform_jobs d) of
               Some existing \<Rightarrow> return (existing, False) d
             | None \<Rightarrow>
                 (case find (same_active_reference rq) (platform_jobs d) of
                    Some existing \<Rightarrow> return (existing, False) d
                  | None \<Rightarrow> raise (ConflictError ''job_already_active'') d)))"

section \<open>Leasing\<close>

definition acquirable :: "instant \<Rightarrow> PlatformJob \<Rightarrow> bool" where
  "acquirable acquired_at j =
     (pj_status j \<in> {PlatformJobStatus.AVAILABLE, PlatformJobStatus.RETRY_WAIT} \<and>
        pj_available_at j \<le> acquired_at \<or>
      pj_status j \<in> {PlatformJobStatus.LEASED, PlatformJobStatus.RUNNING} \<and>
        (case pj_lease_expires_at j of None \<Rightarrow> False | Some t \<Rightarrow> t \<le> acquired_at))"

definition acquisition_order :: "PlatformJob \<Rightarrow> int \<times> instant \<times> instant" where
  "acquisition_order j = (- pj_priority j, pj_available_at j, pj_created_at j)"

definition select_job :: "uuid list \<Rightarrow> instant \<Rightarrow> PlatformJob list \<Rightarrow> PlatformJob option" where
  "select_job locked acquired_at jobs =
     (case sort_key acquisition_order
             (filter (\<lambda>j. acquirable acquired_at j \<and> pj_id j \<notin> set locked) jobs) of
        [] \<Rightarrow> None
      | j # _ \<Rightarrow> Some j)"

definition lease_job :: "string \<Rightarrow> int \<Rightarrow> uuid \<Rightarrow> instant \<Rightarrow> PlatformJob \<Rightarrow> PlatformJob" where
  "lease_job worker_id lease_seconds token acquired_at j =
     j\<lparr>pj_status := PlatformJobStatus.LEASED,
       pj_worker_id := Some (take 128 worker_id),
       pj_lease_token := Some token,
       pj_lease_generation := pj_lease_generation j + 1,
       pj_leased_at := Some acquired_at,
       pj_lease_expires_at := Some (acquired_at + timedelta_seconds lease_seconds),
       pj_attempt_count := pj_attempt_count j + 1,
       pj_started_at := None\<rparr>"

definition write_job :: "PlatformJob \<Rightarrow> db \<Rightarrow> db" where
  "write_job j d = d\<lparr>platform_jobs := put_row pj_id j (platform_jobs d)\<rparr>"

definition acquire ::
    "string \<Rightarrow> int \<Rightarrow> uuid \<Rightarrow> uuid list \<Rightarrow> instant \<Rightarrow> db \<Rightarrow> (db, PlatformJob option) outcome" where
  "acquire worker_id lease_seconds token locked now d =
     (case select_job locked now (platform_jobs d) of
        None \<Rightarrow> return None d
      | Some j \<Rightarrow>
          let j' = lease_job worker_id lease_seconds token now j
          in return (Some j') (write_job j' d))"

definition leased ::
    "uuid \<Rightarrow> uuid \<Rightarrow> PlatformJobStatus \<Rightarrow> db \<Rightarrow> exn + PlatformJob" where
  "leased job_id lease_token expected_status d =
     (case find (\<lambda>j. pj_id j = job_id \<and> pj_lease_token j = Some lease_token \<and>
                     pj_status j = expected_status) (platform_jobs d) of
        None \<Rightarrow> Inl (ConflictError ''stale_job_lease'')
      | Some j \<Rightarrow> Inr j)"

definition clear_lease :: "PlatformJob \<Rightarrow> PlatformJob" where
  "clear_lease j = j\<lparr>pj_worker_id := None, pj_lease_token := None, pj_lease_expires_at := None\<rparr>"

definition start_job :: "instant \<Rightarrow> PlatformJob \<Rightarrow> PlatformJob" where
  "start_job now j = j\<lparr>pj_status := PlatformJobStatus.RUNNING, pj_started_at := Some now\<rparr>"

definition start :: "uuid \<Rightarrow> uuid \<Rightarrow> instant \<Rightarrow> db \<Rightarrow> (db, PlatformJob) outcome" where
  "start job_id lease_token now d =
     (case leased job_id lease_token PlatformJobStatus.LEASED d of
        Inl e \<Rightarrow> raise e d
      | Inr j \<Rightarrow> return (start_job now j) (write_job (start_job now j) d))"

definition extend_lease :: "int \<Rightarrow> instant \<Rightarrow> PlatformJob \<Rightarrow> PlatformJob" where
  "extend_lease lease_seconds now j =
     j\<lparr>pj_lease_expires_at := Some (now + timedelta_seconds lease_seconds)\<rparr>"

definition heartbeat :: "uuid \<Rightarrow> uuid \<Rightarrow> int \<Rightarrow> instant \<Rightarrow> db \<Rightarrow> (db, PlatformJob) outcome" where
  "heartbeat job_id lease_token lease_seconds now d =
     (case leased job_id lease_token PlatformJobStatus.RUNNING d of
        Inl e \<Rightarrow> raise e d
      | Inr j \<Rightarrow> return (extend_lease lease_seconds now j) (write_job (extend_lease lease_seconds now j) d))"

definition succeed_job :: "string option \<Rightarrow> instant \<Rightarrow> PlatformJob \<Rightarrow> PlatformJob" where
  "succeed_job result_reference now j =
     clear_lease (j\<lparr>pj_status := PlatformJobStatus.SUCCEEDED, pj_completed_at := Some now,
       pj_result_reference :=
         (case result_reference of None \<Rightarrow> None | Some r \<Rightarrow> if r = [] then None else Some (take 255 r))\<rparr>)"

definition succeed ::
    "uuid \<Rightarrow> uuid \<Rightarrow> string option \<Rightarrow> instant \<Rightarrow> db \<Rightarrow> (db, PlatformJob) outcome" where
  "succeed job_id lease_token result_reference now d =
     (case leased job_id lease_token PlatformJobStatus.RUNNING d of
        Inl e \<Rightarrow> raise e d
      | Inr j \<Rightarrow> return (succeed_job result_reference now j) (write_job (succeed_job result_reference now j) d))"

section \<open>Failing and retrying\<close>

definition is_error_code_char :: "char \<Rightarrow> bool" where
  "is_error_code_char c =
     (is_slug_char c \<or> c = CHR ''_'' \<or> c = CHR ''.'' \<or> c = CHR ''-'')"

definition error_code_of :: "string \<Rightarrow> string" where
  "error_code_of code =
     take 100 (map (\<lambda>c. if is_error_code_char c then c else CHR ''_'') (casefold code))"

definition retry_delay :: "int option \<Rightarrow> int \<Rightarrow> int" where
  "retry_delay retry_after_seconds attempt_count =
     (let backoff = min 900 (2 ^ nat (min attempt_count 9)) in
      max 1 (case retry_after_seconds of None \<Rightarrow> backoff | Some n \<Rightarrow> if n = 0 then backoff else n))"

definition fail_job ::
    "(string \<Rightarrow> string) \<Rightarrow> string \<Rightarrow> string \<Rightarrow> bool \<Rightarrow> int option \<Rightarrow> instant \<Rightarrow> PlatformJob \<Rightarrow> PlatformJob" where
  "fail_job redact error_code error_summary retryable retry_after_seconds now j =
     (let j1 = j\<lparr>pj_last_error_code := Some (error_code_of error_code),
                 pj_last_error_summary := Some (take MAX_ERROR_SUMMARY (redact error_summary))\<rparr>;
          j2 = (if retryable \<and> pj_attempt_count j < pj_max_attempts j then
                  j1\<lparr>pj_status := PlatformJobStatus.RETRY_WAIT,
                     pj_available_at := now + timedelta_seconds (retry_delay retry_after_seconds (pj_attempt_count j))\<rparr>
                else if retryable then
                  j1\<lparr>pj_status := PlatformJobStatus.DEAD_LETTERED, pj_dead_lettered_at := Some now,
                     pj_failed_at := Some now\<rparr>
                else j1\<lparr>pj_status := PlatformJobStatus.FAILED, pj_failed_at := Some now\<rparr>)
      in clear_lease j2)"

definition fail ::
    "(string \<Rightarrow> string) \<Rightarrow> uuid \<Rightarrow> uuid \<Rightarrow> string \<Rightarrow> string \<Rightarrow> bool \<Rightarrow> int option \<Rightarrow> instant \<Rightarrow> db \<Rightarrow>
     (db, PlatformJob) outcome" where
  "fail redact job_id lease_token error_code error_summary retryable retry_after_seconds now d =
     (case leased job_id lease_token PlatformJobStatus.RUNNING d of
        Inl e \<Rightarrow> raise e d
      | Inr j \<Rightarrow>
          let j' = fail_job redact error_code error_summary retryable retry_after_seconds now j
          in return j' (write_job j' d))"

section \<open>Operator actions\<close>

definition get_scoped :: "uuid \<Rightarrow> uuid \<Rightarrow> db \<Rightarrow> exn + PlatformJob" where
  "get_scoped organization_id job_id d =
     (case find (\<lambda>j. pj_id j = job_id \<and> pj_organization_id j = organization_id) (platform_jobs d) of
        None \<Rightarrow> Inl (NotFoundError ''platform_job_not_found'')
      | Some j \<Rightarrow> Inr j)"

definition cancel_job :: "instant \<Rightarrow> PlatformJob \<Rightarrow> PlatformJob" where
  "cancel_job now j =
     clear_lease (j\<lparr>pj_status := PlatformJobStatus.CANCELLED, pj_completed_at := Some now\<rparr>)"

definition cancel :: "uuid \<Rightarrow> uuid \<Rightarrow> uuid \<Rightarrow> instant \<Rightarrow> db \<Rightarrow> (db, PlatformJob) outcome" where
  "cancel organization_id job_id actor now d =
     (case require_capability organization_id actor JOBS_MANAGE d of
        Inl e \<Rightarrow> raise e d
      | Inr _ \<Rightarrow>
          (case get_scoped organization_id job_id d of
             Inl e \<Rightarrow> raise e d
           | Inr j \<Rightarrow>
               if pj_status j \<in> set TERMINAL_STATUSES then raise (ConflictError ''job_terminal'') d
               else return (cancel_job now j)
                      (record_audit ''platform.job.cancelled'' ''platform_job'' AuditResult.SUCCEEDED
                         (Some organization_id) (Some actor) (Some (pj_id j)) (write_job (cancel_job now j) d))))"

definition requeue_job :: "instant \<Rightarrow> PlatformJob \<Rightarrow> PlatformJob" where
  "requeue_job now j =
     clear_lease (j\<lparr>pj_status := PlatformJobStatus.AVAILABLE, pj_available_at := now, pj_attempt_count := 0,
       pj_failed_at := None, pj_dead_lettered_at := None, pj_completed_at := None,
       pj_last_error_code := None, pj_last_error_summary := None\<rparr>)"

text \<open>The commit of a requeue reports an integrity error when a unique index would be violated.\<close>

definition requeue :: "uuid \<Rightarrow> uuid \<Rightarrow> uuid \<Rightarrow> instant \<Rightarrow> db \<Rightarrow> (db, PlatformJob) outcome" where
  "requeue organization_id job_id actor now d =
     (case require_capability organization_id actor JOBS_MANAGE d of
        Inl e \<Rightarrow> raise e d
      | Inr _ \<Rightarrow>
          (case get_scoped organization_id job_id d of
             Inl e \<Rightarrow> raise e d
           | Inr j \<Rightarrow>
               if pj_status j \<notin> {PlatformJobStatus.FAILED, PlatformJobStatus.DEAD_LETTERED,
                                   PlatformJobStatus.CANCELLED} then
                 raise (ConflictError ''job_not_requeueable'') d
               else if \<not> platform_job_unique (put_row pj_id (requeue_job now j) (platform_jobs d)) then
                 raise IntegrityError d
               else return (requeue_job now j)
                      (record_audit ''platform.job.requeued'' ''platform_job'' AuditResult.SUCCEEDED
                         (Some organization_id) (Some actor) (Some (pj_id j)) (write_job (requeue_job now j) d))))"

section \<open>Counting\<close>

definition job_statuses :: "PlatformJobStatus list" where
  "job_statuses = ACTIVE_STATUSES @ TERMINAL_STATUSES"

definition count_by_status :: "PlatformJob list \<Rightarrow> (string \<times> nat) list" where
  "count_by_status jobs =
     map (\<lambda>s. (PlatformJobStatus_value s, length (filter (\<lambda>j. pj_status j = s) jobs)))
       (filter (\<lambda>s. list_ex (\<lambda>j. pj_status j = s) jobs) job_statuses)"

definition counts :: "uuid \<Rightarrow> db \<Rightarrow> (string \<times> nat) list" where
  "counts organization_id d =
     count_by_status (filter (\<lambda>j. pj_organization_id j = organization_id) (platform_jobs d))"

definition global_counts :: "db \<Rightarrow> (string \<times> nat) list" where
  "global_counts d = count_by_status (platform_jobs d)"

section \<open>Lemmas on payloads\<close>

lemma first_error_map [simp]: "first_error (map f xs) = Inr u \<longleftrightarrow> (\<forall>x \<in> set xs. f x = Inr ())"
proof (induction xs)
  case Nil
  then show ?case by simp
next
  case (Cons x xs)
  then show ?case by (cases "f x") auto
qed

text \<open>What the validator accepts, stated over the values that occur in a payload.\<close>

fun payload_node_ok :: "json \<Rightarrow> bool" where
  "payload_node_ok (JDict d) = (\<forall>k \<in> fst ` set d. \<not> SENSITIVE_PAYLOAD_KEY k)"
| "payload_node_ok (JList xs) = (length xs \<le> 50)"
| "payload_node_ok (JObj s) = False"
| "payload_node_ok v = True"

definition payload_ok :: "dict \<Rightarrow> bool" where
  "payload_ok p =
     ((\<forall>n v. occurs (JDict p) n v \<longrightarrow> n \<le> 4 \<and> payload_node_ok v) \<and>
      length (json_dumps (JDict p)) \<le> MAX_PAYLOAD_BYTES)"

lemma check_payload_iff:
  "check_payload k w = Inr () \<longleftrightarrow> (\<forall>n v. occurs w n v \<longrightarrow> k + n \<le> 4 \<and> payload_node_ok v)"
proof (induction k w rule: check_payload.induct)
  case (1 depth d)
  have "check_payload depth (JDict d) = Inr () \<longleftrightarrow> depth \<le> 4 \<and>
      (\<forall>kv \<in> set d. \<not> SENSITIVE_PAYLOAD_KEY (fst kv) \<and> check_payload (depth + 1) (snd kv) = Inr ())"
    by (simp add: not_less) blast
  with 1 show ?case unfolding all_occurs_dict by auto
next
  case (2 depth xs)
  have "check_payload depth (JList xs) = Inr () \<longleftrightarrow> depth \<le> 4 \<and> length xs \<le> 50 \<and>
      (\<forall>x \<in> set xs. check_payload (depth + 1) x = Inr ())"
    by (simp add: not_less)
  with 2 show ?case unfolding all_occurs_list by auto
qed auto

declare check_payload.simps [simp del] json_dumps.simps [simp del]

lemma validated_payload_iff: "validated_payload p = Inr q \<longleftrightarrow> q = p \<and> payload_ok p"
  using check_payload_iff [of 0 "JDict p"]
  by (auto simp: validated_payload_def payload_ok_def split: sum.splits)


section \<open>How an operation rewrites a row\<close>

inductive job_change :: "PlatformJob \<Rightarrow> PlatformJob \<Rightarrow> bool" where
  change_lease: "acquirable now j \<Longrightarrow> job_change j (lease_job worker_id lease_seconds token now j)"
| change_start: "pj_status j = PlatformJobStatus.LEASED \<Longrightarrow> job_change j (start_job now j)"
| change_heartbeat: "pj_status j = PlatformJobStatus.RUNNING \<Longrightarrow> pj_lease_token j \<noteq> None \<Longrightarrow>
    job_change j (extend_lease lease_seconds now j)"
| change_succeed: "pj_status j = PlatformJobStatus.RUNNING \<Longrightarrow> job_change j (succeed_job result_reference now j)"
| change_fail: "pj_status j = PlatformJobStatus.RUNNING \<Longrightarrow>
    job_change j (fail_job redact error_code error_summary retryable retry_after_seconds now j)"
| change_cancel: "pj_status j \<notin> set TERMINAL_STATUSES \<Longrightarrow> job_change j (cancel_job now j)"
| change_requeue: "pj_status j \<in> {PlatformJobStatus.FAILED, PlatformJobStatus.DEAD_LETTERED, PlatformJobStatus.CANCELLED} \<Longrightarrow>
    job_change j (requeue_job now j)"

lemmas job_rewrites = lease_job_def start_job_def extend_lease_def succeed_job_def fail_job_def
  cancel_job_def requeue_job_def clear_lease_def Let_def

lemma rewrite_token [simp]:
  "pj_lease_token (lease_job w s t now j) = Some t"
  "pj_lease_token (start_job now j) = pj_lease_token j"
  "pj_lease_token (extend_lease s now j) = pj_lease_token j"
  "pj_lease_token (succeed_job r now j) = None"
  "pj_lease_token (fail_job redact c m b ra now j) = None"
  "pj_lease_token (cancel_job now j) = None"
  "pj_lease_token (requeue_job now j) = None"
  by (simp_all add: job_rewrites)

text \<open>The columns that no operation changes.\<close>

definition same_job :: "PlatformJob \<Rightarrow> PlatformJob \<Rightarrow> bool" where
  "same_job j j' =
     (pj_id j' = pj_id j \<and> pj_organization_id j' = pj_organization_id j \<and> pj_job_type j' = pj_job_type j \<and>
      pj_reference_id j' = pj_reference_id j \<and> pj_payload_json j' = pj_payload_json j \<and>
      pj_idempotency_key j' = pj_idempotency_key j \<and> pj_priority j' = pj_priority j \<and>
      pj_max_attempts j' = pj_max_attempts j \<and> pj_correlation_id j' = pj_correlation_id j \<and>
      pj_parent_job_id j' = pj_parent_job_id j \<and> pj_created_at j' = pj_created_at j)"

lemma same_job_refl [simp]: "same_job j j"
  by (simp add: same_job_def)

lemma same_job_trans: "same_job i j \<Longrightarrow> same_job j k \<Longrightarrow> same_job i k"
  by (simp add: same_job_def)

lemma job_change_same: "job_change j j' \<Longrightarrow> same_job j j'"
  by (induction rule: job_change.induct) (simp_all add: job_rewrites same_job_def)

text \<open>The statuses a job may move between, as the operations implement them.\<close>

fun job_edge :: "PlatformJobStatus \<Rightarrow> PlatformJobStatus \<Rightarrow> bool" where
  "job_edge PlatformJobStatus.AVAILABLE s = (s \<in> {PlatformJobStatus.LEASED, PlatformJobStatus.CANCELLED})"
| "job_edge PlatformJobStatus.RETRY_WAIT s = (s \<in> {PlatformJobStatus.LEASED, PlatformJobStatus.CANCELLED})"
| "job_edge PlatformJobStatus.LEASED s =
     (s \<in> {PlatformJobStatus.LEASED, PlatformJobStatus.RUNNING, PlatformJobStatus.CANCELLED})"
| "job_edge PlatformJobStatus.RUNNING s =
     (s \<in> {PlatformJobStatus.LEASED, PlatformJobStatus.RUNNING, PlatformJobStatus.SUCCEEDED,
           PlatformJobStatus.RETRY_WAIT, PlatformJobStatus.FAILED, PlatformJobStatus.DEAD_LETTERED,
           PlatformJobStatus.CANCELLED})"
| "job_edge PlatformJobStatus.SUCCEEDED s = False"
| "job_edge PlatformJobStatus.FAILED s = (s = PlatformJobStatus.AVAILABLE)"
| "job_edge PlatformJobStatus.DEAD_LETTERED s = (s = PlatformJobStatus.AVAILABLE)"
| "job_edge PlatformJobStatus.CANCELLED s = (s = PlatformJobStatus.AVAILABLE)"

lemma job_change_edge: "job_change j j' \<Longrightarrow> job_edge (pj_status j) (pj_status j')"
proof (induction rule: job_change.induct)
  case (change_lease now j)
  then show ?case by (auto simp: acquirable_def lease_job_def)
next
  case (change_cancel j now)
  then show ?case by (cases "pj_status j") (auto simp: TERMINAL_STATUSES_def job_rewrites)
qed (auto simp: job_rewrites)

lemma job_change_constraints:
  "job_change j j' \<Longrightarrow> platform_job_constraints j \<Longrightarrow> platform_job_constraints j'"
proof (induction rule: job_change.induct)
  case (change_heartbeat j)
  then show ?case by (auto simp: platform_job_constraints_def platform_job_lease_state_def extend_lease_def)
next
  case (change_start j)
  then show ?case by (auto simp: platform_job_constraints_def platform_job_lease_state_def start_job_def)
qed (auto simp: platform_job_constraints_def platform_job_lease_state_def job_rewrites)

section \<open>The effect of an operation on the table\<close>

definition job_effect :: "uuid set \<Rightarrow> db \<Rightarrow> db \<Rightarrow> bool" where
  "job_effect F d d' =
     (platform_jobs d' = platform_jobs d \<or>
      (\<exists>j j'. get_row pj_id (pj_id j) (platform_jobs d) = Some j \<and> job_change j j' \<and>
         platform_jobs d' = put_row pj_id j' (platform_jobs d) \<and>
         (\<forall>t. pj_lease_token j' = Some t \<longrightarrow> pj_lease_token j = Some t \<or> t \<in> F) \<and>
         (platform_job_active j' \<and> \<not> platform_job_active j \<longrightarrow> platform_job_unique (platform_jobs d'))))"

lemma job_effect_same: "platform_jobs d' = platform_jobs d \<Longrightarrow> job_effect F d d'"
  by (simp add: job_effect_def)

lemma job_effectI:
  assumes "get_row pj_id (pj_id j) (platform_jobs d) = Some j" and "job_change j j'"
    and "platform_jobs d' = put_row pj_id j' (platform_jobs d)"
    and "\<And>t. pj_lease_token j' = Some t \<Longrightarrow> pj_lease_token j = Some t \<or> t \<in> F"
    and "platform_job_active j' \<Longrightarrow> \<not> platform_job_active j \<Longrightarrow> platform_job_unique (platform_jobs d')"
  shows "job_effect F d d'"
  using assms unfolding job_effect_def by blast

lemma platform_jobs_write_job [simp]: "platform_jobs (write_job j d) = put_row pj_id j (platform_jobs d)"
  by (simp add: write_job_def)

lemma leased_row:
  assumes "keys_distinct pj_id (platform_jobs d)" and "leased jid t s d = Inr j"
  shows "get_row pj_id (pj_id j) (platform_jobs d) = Some j" and "pj_id j = jid"
    and "pj_lease_token j = Some t" and "pj_status j = s"
  using assms find_eq_get_row find_mem unfolding leased_def by (fastforce split: option.splits)+

lemma get_scoped_row:
  assumes "keys_distinct pj_id (platform_jobs d)" and "get_scoped org jid d = Inr j"
  shows "get_row pj_id (pj_id j) (platform_jobs d) = Some j" and "pj_id j = jid" and "pj_organization_id j = org"
  using assms find_eq_get_row find_mem unfolding get_scoped_def by (fastforce split: option.splits)+

lemma select_job_best:
  assumes "select_job locked now jobs = Some j"
  shows "j \<in> set jobs" and "acquirable now j" and "pj_id j \<notin> set locked"
    and "\<And>k. k \<in> set jobs \<Longrightarrow> acquirable now k \<Longrightarrow> pj_id k \<notin> set locked \<Longrightarrow>
      acquisition_order j \<le> acquisition_order k"
proof -
  let ?cs = "filter (\<lambda>j. acquirable now j \<and> pj_id j \<notin> set locked) jobs"
  obtain js where js: "sort_key acquisition_order ?cs = j # js"
    using assms by (auto simp: select_job_def split: list.splits)
  have set_js: "set (j # js) = set ?cs" using set_sort [of acquisition_order ?cs] unfolding js .
  then have "j \<in> set ?cs" by auto
  then show "j \<in> set jobs" and "acquirable now j" and "pj_id j \<notin> set locked" by auto
  have "sorted (map acquisition_order (j # js))" using sorted_sort_key [of acquisition_order ?cs] unfolding js .
  then have "acquisition_order j \<le> acquisition_order k" if "k \<in> set (j # js)" for k
    using that by auto
  then show "\<And>k. k \<in> set jobs \<Longrightarrow> acquirable now k \<Longrightarrow> pj_id k \<notin> set locked \<Longrightarrow>
      acquisition_order j \<le> acquisition_order k"
    using set_js by auto
qed

lemma select_job_None:
  "select_job locked now jobs = None \<longleftrightarrow> (\<forall>k \<in> set jobs. acquirable now k \<longrightarrow> pj_id k \<in> set locked)"
proof (cases "select_job locked now jobs")
  case None
  then have "set (sort_key acquisition_order (filter (\<lambda>j. acquirable now j \<and> pj_id j \<notin> set locked) jobs)) = {}"
    by (simp add: select_job_def del: set_sort split: list.splits)
  then have "\<forall>k \<in> set jobs. acquirable now k \<longrightarrow> pj_id k \<in> set locked"
    unfolding set_sort by auto
  with None show ?thesis by simp
next
  case (Some j)
  with select_job_best [OF Some] show ?thesis by auto
qed

lemma acquire_effect:
  assumes "keys_distinct pj_id (platform_jobs d)"
  shows "job_effect {token} d (snd (acquire w s token locked now d))"
proof (cases "select_job locked now (platform_jobs d)")
  case None
  then show ?thesis by (simp add: acquire_def job_effect_same)
next
  case (Some j)
  note best = select_job_best [OF Some]
  show ?thesis
  proof (rule job_effectI)
    show "get_row pj_id (pj_id j) (platform_jobs d) = Some j"
      using assms best(1) by (rule get_row_distinct)
    show "job_change j (lease_job w s token now j)"
      using best(2) by (rule change_lease)
  qed (use Some best(2) in \<open>auto simp: acquire_def Let_def platform_job_active_def acquirable_def lease_job_def\<close>)
qed

text \<open>The four operations of a lease holder share one shape.\<close>

lemma leased_op_effect:
  assumes "keys_distinct pj_id (platform_jobs d)"
    and "s \<in> {PlatformJobStatus.LEASED, PlatformJobStatus.RUNNING}"
    and "\<And>j. pj_status j = s \<Longrightarrow> pj_lease_token j = Some t \<Longrightarrow> job_change j (f j)"
    and "\<And>j. pj_lease_token (f j) \<in> {None, pj_lease_token j}"
  shows "job_effect {} d (snd (case leased jid t s d of Inl e \<Rightarrow> raise e d | Inr j \<Rightarrow> return (f j) (write_job (f j) d)))"
proof (cases "leased jid t s d")
  case (Inl e)
  then show ?thesis by (simp add: job_effect_same)
next
  case (Inr j)
  note row = leased_row [OF assms(1) Inr]
  show ?thesis
    by (rule job_effectI [of j _ "f j"])
      (use Inr row assms(2,3) assms(4) [of j] in \<open>auto simp: platform_job_active_def\<close>)
qed

lemma leased_effects:
  assumes "keys_distinct pj_id (platform_jobs d)"
  shows "job_effect {} d (snd (start jid t now d))" and "job_effect {} d (snd (heartbeat jid t s now d))"
    and "job_effect {} d (snd (succeed jid t r now d))" and "job_effect {} d (snd (fail redact jid t c m b ra now d))"
  unfolding start_def heartbeat_def succeed_def fail_def Let_def
  by (rule leased_op_effect [OF assms], simp,
      auto intro: change_start change_heartbeat change_succeed change_fail)+

lemma cancel_effect:
  assumes "keys_distinct pj_id (platform_jobs d)"
  shows "job_effect {} d (snd (cancel org jid actor now d))"
proof (cases "snd (cancel org jid actor now d) = d")
  case True
  then show ?thesis by (simp add: job_effect_same)
next
  case False
  then obtain j where j: "get_scoped org jid d = Inr j" "pj_status j \<notin> set TERMINAL_STATUSES"
      "platform_jobs (snd (cancel org jid actor now d)) = put_row pj_id (cancel_job now j) (platform_jobs d)"
    by (auto simp: cancel_def split: sum.splits if_splits)
  show ?thesis
    by (rule job_effectI [OF get_scoped_row(1) [OF assms j(1)] change_cancel [OF j(2)] j(3)])
      (simp_all add: platform_job_active_def cancel_job_def clear_lease_def)
qed

lemma requeue_effect:
  assumes "keys_distinct pj_id (platform_jobs d)"
  shows "job_effect {} d (snd (requeue org jid actor now d))"
proof (cases "snd (requeue org jid actor now d) = d")
  case True
  then show ?thesis by (simp add: job_effect_same)
next
  case False
  then obtain j where j: "get_scoped org jid d = Inr j"
      "pj_status j \<in> {PlatformJobStatus.FAILED, PlatformJobStatus.DEAD_LETTERED, PlatformJobStatus.CANCELLED}"
      "platform_jobs (snd (requeue org jid actor now d)) = put_row pj_id (requeue_job now j) (platform_jobs d)"
      "platform_job_unique (put_row pj_id (requeue_job now j) (platform_jobs d))"
    by (auto simp: requeue_def split: sum.splits if_splits)
  show ?thesis
    by (rule job_effectI [OF get_scoped_row(1) [OF assms j(1)] change_requeue [OF j(2)] j(3)])
      (simp_all add: j(3,4))
qed

section \<open>The invariant of the queue\<close>

definition queue_ok :: "db \<Rightarrow> bool" where
  "queue_ok d =
     (keys_distinct pj_id (platform_jobs d) \<and> platform_job_unique (platform_jobs d) \<and>
      (\<forall>j \<in> set (platform_jobs d). platform_job_constraints j \<and> payload_ok (pj_payload_json j)))"

lemma put_job_unique:
  assumes "keys_distinct pj_id jobs" and "platform_job_unique jobs"
    and "get_row pj_id (pj_id j) jobs = Some j" and "job_change j j'"
    and "platform_job_active j' \<Longrightarrow> platform_job_active j"
  shows "platform_job_unique (put_row pj_id j' jobs)"
proof -
  have s: "same_job j j'" using assms(4) by (rule job_change_same)
  then have g: "get_row pj_id (pj_id j') jobs = Some j" using assms(3) by (simp add: same_job_def)
  show ?thesis
    using assms(2) s unfolding platform_job_unique_def
    by (auto simp: same_job_def intro!: unique_on_put_row [OF assms(1) g] assms(5))
qed

lemma job_effect_ok:
  assumes "job_effect F d d'" and "queue_ok d"
  shows "queue_ok d'"
proof (cases "platform_jobs d' = platform_jobs d")
  case True
  with assms(2) show ?thesis by (simp add: queue_ok_def)
next
  case False
  with assms(1) obtain j j' where j: "get_row pj_id (pj_id j) (platform_jobs d) = Some j" "job_change j j'"
      "platform_jobs d' = put_row pj_id j' (platform_jobs d)"
      "platform_job_active j' \<and> \<not> platform_job_active j \<longrightarrow> platform_job_unique (platform_jobs d')"
    unfolding job_effect_def by blast
  from assms(2) have kd: "keys_distinct pj_id (platform_jobs d)" and u: "platform_job_unique (platform_jobs d)"
    and row: "\<forall>x \<in> set (platform_jobs d). platform_job_constraints x \<and> payload_ok (pj_payload_json x)"
    by (simp_all add: queue_ok_def)
  have "platform_job_unique (platform_jobs d')"
  proof (cases "platform_job_active j' \<and> \<not> platform_job_active j")
    case True
    with j(4) show ?thesis by simp
  next
    case False
    then show ?thesis unfolding j(3) by (intro put_job_unique [OF kd u j(1,2)]) blast
  qed
  moreover have "platform_job_constraints j' \<and> payload_ok (pj_payload_json j')"
    using row get_row_in [OF j(1)] job_change_constraints [OF j(2)] job_change_same [OF j(2)]
    by (simp add: same_job_def)
  then have "\<forall>x \<in> set (platform_jobs d'). platform_job_constraints x \<and> payload_ok (pj_payload_json x)"
    unfolding j(3) using row by (intro job_table.put_invariant)
  ultimately show ?thesis using kd j(3) by (simp add: queue_ok_def)
qed

lemma enqueue_cases:
  obtains "platform_jobs (snd (enqueue rq i c now d)) = platform_jobs d"
  | payload where "payload_ok payload" and "job_insertable (job_candidate rq payload i c now) d"
      and "fst (enqueue rq i c now d) = Inr (job_candidate rq payload i c now, True)"
      and "platform_jobs (snd (enqueue rq i c now d)) = platform_jobs d @ [job_candidate rq payload i c now]"
proof (cases "validated_payload (case eq_payload rq of None \<Rightarrow> [] | Some p \<Rightarrow> p)")
  case (Inl e)
  then show ?thesis by (intro that(1)) (simp add: enqueue_def)
next
  case (Inr payload)
  then have "payload_ok payload" by (simp add: validated_payload_iff)
  then show ?thesis
    using Inr that
    by (cases "job_insertable (job_candidate rq payload i c now) d")
      (auto simp: enqueue_def Let_def split: option.splits)
qed

lemma enqueue_ok:
  assumes "queue_ok d" and "i \<notin> pj_id ` set (platform_jobs d)"
  shows "queue_ok (snd (enqueue rq i c now d))"
proof (cases rule: enqueue_cases [of rq i c now d])
  case 1
  with assms show ?thesis by (simp add: queue_ok_def)
next
  case (2 payload)
  with assms show ?thesis
    by (auto simp: queue_ok_def keys_distinct_snoc job_insertable_def job_candidate_def)
qed

section \<open>The queue as a transition system\<close>

text \<open>
  The state is the database with the set of lease tokens handed out so far, which fresh
  tokens avoid. \<open>step_other\<close> is any other activity of the program: nothing but
  \<^verbatim>\<open>PlatformJobService\<close> writes to the table.
\<close>

inductive job_step :: "db \<times> uuid set \<Rightarrow> db \<times> uuid set \<Rightarrow> bool" where
  step_enqueue: "i \<notin> pj_id ` set (platform_jobs d) \<Longrightarrow> job_step (d, I) (snd (enqueue rq i c now d), I)"
| step_acquire: "token \<notin> I \<Longrightarrow> job_step (d, I) (snd (acquire w s token locked now d), insert token I)"
| step_start: "job_step (d, I) (snd (start jid t now d), I)"
| step_heartbeat: "job_step (d, I) (snd (heartbeat jid t s now d), I)"
| step_succeed: "job_step (d, I) (snd (succeed jid t r now d), I)"
| step_fail: "job_step (d, I) (snd (fail redact jid t code summary retryable retry_after now d), I)"
| step_cancel: "job_step (d, I) (snd (cancel org jid actor now d), I)"
| step_requeue: "job_step (d, I) (snd (requeue org jid actor now d), I)"
| step_other: "platform_jobs d' = platform_jobs d \<Longrightarrow> job_step (d, I) (d', I)"

text \<open>A step enqueues one job or has the effect of one operation on one row.\<close>

lemma job_step_cases:
  assumes "job_step (d, I) (d', I')" and "keys_distinct pj_id (platform_jobs d)"
  obtains (new) i rq payload c now where "i \<notin> pj_id ` set (platform_jobs d)" and "payload_ok payload"
      and "job_insertable (job_candidate rq payload i c now) d"
      and "platform_jobs d' = platform_jobs d @ [job_candidate rq payload i c now]" and "I' = I"
  | (effect) F where "job_effect F d d'" and "F \<inter> I = {}" and "I' = I \<union> F"
  using assms(1)
proof (cases rule: job_step.cases)
  case (step_enqueue i rq c now)
  then show ?thesis
    by (cases rule: enqueue_cases [of rq i c now d]) (auto intro: new effect [of "{}"] job_effect_same)
next
  case (step_acquire token w s locked now)
  then show ?thesis using acquire_effect [OF assms(2)] by (intro effect [of "{token}"]) auto
qed (use assms(2) leased_effects cancel_effect requeue_effect job_effect_same
    in \<open>auto intro: effect [of "{}"]\<close>)

lemma job_step_ok:
  assumes "job_step s s'" and "queue_ok (fst s)"
  shows "queue_ok (fst s')"
proof -
  obtain d I d' I' where s: "s = (d, I)" "s' = (d', I')" by (cases s, cases s')
  with assms have q: "queue_ok d" and kd: "keys_distinct pj_id (platform_jobs d)" by (simp_all add: queue_ok_def)
  from assms(1) have "job_step (d, I) (d', I')" by (simp add: s)
  from this kd show ?thesis
  proof (cases rule: job_step_cases)
    case (new i rq payload c now)
    with q s show ?thesis
      by (auto simp: queue_ok_def keys_distinct_snoc job_insertable_def job_candidate_def)
  next
    case effect
    with q s show ?thesis by (auto intro: job_effect_ok)
  qed
qed

interpretation job_system: transition_system job_step "\<lambda>s. queue_ok (fst s)"
  by unfold_locales (rule job_step_ok)

text \<open>What a step does to a row that exists before it.\<close>

lemma job_effect_row:
  assumes "job_effect F d d'" and "get_row pj_id jid (platform_jobs d) = Some j"
  obtains j' where "get_row pj_id jid (platform_jobs d') = Some j'" and "j' = j \<or> job_change j j'"
proof (cases "platform_jobs d' = platform_jobs d")
  case True
  with assms(2) that show ?thesis by simp
next
  case False
  with assms(1) obtain k k' where k: "get_row pj_id (pj_id k) (platform_jobs d) = Some k" "job_change k k'"
      "platform_jobs d' = put_row pj_id k' (platform_jobs d)"
    unfolding job_effect_def by blast
  have id: "pj_id k' = pj_id k" using job_change_same [OF k(2)] by (simp add: same_job_def)
  show ?thesis
  proof (cases "jid = pj_id k")
    case True
    with k id assms(2) show ?thesis by (intro that [of k']) (auto simp: get_put_row)
  next
    case False
    with k id assms(2) show ?thesis by (intro that [of j]) (auto simp: get_put_row)
  qed
qed

lemma get_row_snoc:
  "get_row key i rows = Some r \<Longrightarrow> get_row key i (rows @ [x]) = Some r"
  by (induction rows) (auto split: if_splits)

lemma job_step_row:
  assumes "job_step s s'" and "queue_ok (fst s)" and "get_row pj_id jid (platform_jobs (fst s)) = Some j"
  obtains j' where "get_row pj_id jid (platform_jobs (fst s')) = Some j'" and "j' = j \<or> job_change j j'"
proof -
  obtain d I d' I' where s: "s = (d, I)" "s' = (d', I')" by (cases s, cases s')
  with assms(2) have kd: "keys_distinct pj_id (platform_jobs d)" by (simp add: queue_ok_def)
  from assms(1) have "job_step (d, I) (d', I')" by (simp add: s)
  from this kd show ?thesis
  proof (cases rule: job_step_cases)
    case (new i rq payload c now)
    with s assms(3) show ?thesis by (intro that [of j]) (auto intro: get_row_snoc)
  next
    case effect
    with s assms(3) show ?thesis by (auto elim!: job_effect_row intro: that)
  qed
qed

text \<open>Jobs persist with their identity, and a succeeded job never changes again.\<close>

definition job_persists :: "uuid \<Rightarrow> PlatformJob \<Rightarrow> db \<times> uuid set \<Rightarrow> bool" where
  "job_persists jid j s =
     (queue_ok (fst s) \<and>
      (\<exists>j'. get_row pj_id jid (platform_jobs (fst s)) = Some j' \<and> same_job j j' \<and>
        (pj_status j = PlatformJobStatus.SUCCEEDED \<longrightarrow> j' = j)))"

interpretation job_life: transition_system job_step "job_persists jid j" for jid j
proof
  fix s t :: "db \<times> uuid set"
  assume st: "job_step s t" and inv: "job_persists jid j s"
  then obtain j' where j': "get_row pj_id jid (platform_jobs (fst s)) = Some j'" "same_job j j'"
      "pj_status j = PlatformJobStatus.SUCCEEDED \<longrightarrow> j' = j" and q: "queue_ok (fst s)"
    unfolding job_persists_def by blast
  obtain k where k: "get_row pj_id jid (platform_jobs (fst t)) = Some k" "k = j' \<or> job_change j' k"
    using job_step_row [OF st q j'(1)] by blast
  have "same_job j k" using k(2) j'(2) same_job_trans job_change_same by blast
  moreover have "k = j" if "pj_status j = PlatformJobStatus.SUCCEEDED"
    using that k(2) j'(3) job_change_edge [of j' k] by auto
  ultimately show "job_persists jid j t"
    using k(1) job_step_ok [OF st q] by (simp add: job_persists_def)
qed

text \<open>A token that was handed out and is not on a row is never put on it again.\<close>

definition fenced :: "uuid \<Rightarrow> uuid \<Rightarrow> db \<times> uuid set \<Rightarrow> bool" where
  "fenced t jid s =
     (t \<in> snd s \<and> queue_ok (fst s) \<and>
      (\<forall>j \<in> set (platform_jobs (fst s)). pj_id j = jid \<longrightarrow> pj_lease_token j \<noteq> Some t))"

interpretation lease_fence: transition_system job_step "fenced t jid" for t jid
proof
  fix s s' :: "db \<times> uuid set"
  assume st: "job_step s s'" and inv: "fenced t jid s"
  obtain d I d' I' where s: "s = (d, I)" "s' = (d', I')" by (cases s, cases s')
  from inv s have t: "t \<in> I" and q: "queue_ok d"
    and no: "\<forall>j \<in> set (platform_jobs d). pj_id j = jid \<longrightarrow> pj_lease_token j \<noteq> Some t"
    by (auto simp: fenced_def)
  from st have "job_step (d, I) (d', I')" by (simp add: s)
  moreover from q have "keys_distinct pj_id (platform_jobs d)" by (simp add: queue_ok_def)
  ultimately have "t \<in> I' \<and> (\<forall>j \<in> set (platform_jobs d'). pj_id j = jid \<longrightarrow> pj_lease_token j \<noteq> Some t)"
  proof (cases rule: job_step_cases)
    case (new i rq payload c now)
    with t no show ?thesis by (auto simp: job_candidate_def)
  next
    case (effect F)
    show ?thesis
    proof (cases "platform_jobs d' = platform_jobs d")
      case True
      with t no effect show ?thesis by simp
    next
      case False
      with effect(1) obtain k k' where k: "get_row pj_id (pj_id k) (platform_jobs d) = Some k" "job_change k k'"
          "platform_jobs d' = put_row pj_id k' (platform_jobs d)"
          "\<forall>t. pj_lease_token k' = Some t \<longrightarrow> pj_lease_token k = Some t \<or> t \<in> F"
        unfolding job_effect_def by blast
      have "pj_id k' = jid \<longrightarrow> pj_lease_token k' \<noteq> Some t"
        using k(4) no t effect(2) get_row_in [OF k(1)] job_change_same [OF k(2)] by (auto simp: same_job_def)
      then show ?thesis
        using no t effect(3) unfolding k(3) by (auto dest: set_put_row)
    qed
  qed
  with job_step_ok [OF st] q s show "fenced t jid s'" by (simp add: fenced_def)
qed

lemma leased_stale:
  assumes "fenced t jid (d, I)"
  shows "leased jid t s d = Inl (ConflictError ''stale_job_lease'')"
  using assms by (auto simp: fenced_def leased_def find_None_iff split: option.splits dest: find_mem)

text \<open>When a terminal job may re-enter the index of active references.\<close>

definition reference_taken :: "PlatformJob \<Rightarrow> PlatformJob list \<Rightarrow> bool" where
  "reference_taken j jobs =
     (\<exists>k \<in> set jobs. platform_job_active k \<and> pj_organization_id k = pj_organization_id j \<and>
        pj_job_type k = pj_job_type j \<and> pj_reference_id k = pj_reference_id j)"

lemma requeue_unique_iff:
  assumes "keys_distinct pj_id jobs" and "platform_job_unique jobs"
    and j: "get_row pj_id (pj_id j) jobs = Some j" and "\<not> platform_job_active j"
    and same: "same_job j j'" and act: "platform_job_active j'"
  shows "platform_job_unique (put_row pj_id j' jobs) \<longleftrightarrow> \<not> reference_taken j jobs"
proof
  assume "platform_job_unique (put_row pj_id j' jobs)"
  then have u: "unique_on platform_job_active (\<lambda>j. (pj_organization_id j, pj_job_type j, pj_reference_id j))
      (put_row pj_id j' jobs)" by (simp add: platform_job_unique_def)
  have mem: "j' \<in> set (put_row pj_id j' jobs)"
    by (rule in_put_row_same [OF get_row_in [OF j]]) (use same in \<open>simp add: same_job_def\<close>)
  show "\<not> reference_taken j jobs"
  proof
    assume "reference_taken j jobs"
    then obtain k where k: "k \<in> set jobs" "platform_job_active k" "pj_organization_id k = pj_organization_id j"
        "pj_job_type k = pj_job_type j" "pj_reference_id k = pj_reference_id j"
      by (auto simp: reference_taken_def)
    have ne: "pj_id k \<noteq> pj_id j"
    proof
      assume "pj_id k = pj_id j"
      with get_row_distinct [OF assms(1) k(1)] j have "Some k = Some j" by metis
      then have "k = j" by simp
      with k(2) assms(4) show False by simp
    qed
    then have "k \<in> set (put_row pj_id j' jobs)"
      using k(1) same by (intro in_put_row_other) (auto simp: same_job_def)
    with unique_onD [OF u _ mem k(2) act] k same have "k = j'" by (simp add: same_job_def)
    with ne same show False by (simp add: same_job_def)
  qed
next
  assume "\<not> reference_taken j jobs"
  then have "unique_on platform_job_active (\<lambda>j. (pj_organization_id j, pj_job_type j, pj_reference_id j))
      (put_row pj_id j' jobs)"
    using assms(2) same
    by (intro unique_on_put_row_fresh [OF assms(1)]) (auto simp: platform_job_unique_def same_job_def reference_taken_def)
  moreover have "unique_on (\<lambda>j. True) (\<lambda>j. (pj_organization_id j, pj_job_type j, pj_idempotency_key j)) (put_row pj_id j' jobs)"
    by (rule unique_on_put_row [OF assms(1), of j' j])
      (use assms(2) same j in \<open>auto simp: platform_job_unique_def same_job_def\<close>)
  ultimately show "platform_job_unique (put_row pj_id j' jobs)" by (simp add: platform_job_unique_def)
qed

lemma get_scoped_get_row:
  assumes "keys_distinct pj_id (platform_jobs d)" and "get_row pj_id jid (platform_jobs d) = Some j"
  shows "get_scoped (pj_organization_id j) jid d = Inr j"
proof -
  let ?p = "\<lambda>k. pj_id k = jid \<and> pj_organization_id k = pj_organization_id j"
  obtain k where k: "find ?p (platform_jobs d) = Some k"
    using get_row_mem [OF assms(2)] by (cases "find ?p (platform_jobs d)") (auto simp: find_None_iff)
  with find_eq_get_row [OF assms(1) k] find_mem [OF k] assms(2) show ?thesis by (simp add: get_scoped_def)
qed

section \<open>The interface of the queue\<close>

text \<open>
  What the schedulers, services and workers that enqueue work rely on: a new job is appended
  under the identifier drawn for it and is available, a duplicate request returns a job of
  the same tenant and type and changes nothing, and so does a refusal.
\<close>

locale job_queue =
  fixes enq :: "EnqueueRequest \<Rightarrow> uuid \<Rightarrow> uuid \<Rightarrow> instant \<Rightarrow> db \<Rightarrow> (db, PlatformJob \<times> bool) outcome"
  assumes enq_new: "enq rq i c now d = (Inr (j, True), d') \<Longrightarrow>
      platform_jobs d' = platform_jobs d @ [j] \<and> pj_id j = i \<and> pj_organization_id j = eq_organization_id rq \<and>
      pj_job_type j = eq_job_type rq \<and> pj_reference_id j = eq_reference_id rq \<and>
      pj_status j = PlatformJobStatus.AVAILABLE"
    and enq_existing: "enq rq i c now d = (Inr (j, False), d') \<Longrightarrow>
      d' = d \<and> j \<in> set (platform_jobs d) \<and> pj_organization_id j = eq_organization_id rq \<and>
      pj_job_type j = eq_job_type rq"
    and enq_refused: "enq rq i c now d = (Inl e, d') \<Longrightarrow> d' = d"
    and enq_frame: "enq rq i c now d = (r, d') \<Longrightarrow>
      d' = d \<or> (\<exists>jobs audit. d' = d\<lparr>platform_jobs := jobs, audit_events := audit\<rparr>)"
begin

lemma enq_present:
  assumes "enq rq i c now d = (Inr (j, b), d')"
  shows "j \<in> set (platform_jobs d')" and "pj_organization_id j = eq_organization_id rq"
    and "pj_job_type j = eq_job_type rq"
  using enq_new enq_existing assms by (cases b; fastforce)+

lemma enq_keeps:
  assumes "enq rq i c now d = (r, d')"
  shows "set (platform_jobs d) \<subseteq> set (platform_jobs d')"
proof (cases r)
  case (Inl e)
  with enq_refused assms show ?thesis by blast
next
  case (Inr jb)
  obtain j b where "jb = (j, b)" by (cases jb)
  with Inr assms enq_new enq_existing show ?thesis by (cases b) fastforce+
qed

lemma enq_other_tables:
  assumes "enq rq i c now d = (r, d')"
  shows "aws_accounts d' = aws_accounts d" and "scan_schedules d' = scan_schedules d"
    and "scan_runs d' = scan_runs d" and "memberships d' = memberships d"
    and "organizations d' = organizations d"
  using enq_frame [OF assms] by auto

end

interpretation platform_queue: job_queue enqueue
proof
  fix rq i c now d j d'
  assume "enqueue rq i c now d = (Inr (j, True), d')"
  then show "platform_jobs d' = platform_jobs d @ [j] \<and> pj_id j = i \<and> pj_organization_id j = eq_organization_id rq \<and>
      pj_job_type j = eq_job_type rq \<and> pj_reference_id j = eq_reference_id rq \<and>
      pj_status j = PlatformJobStatus.AVAILABLE"
    by (auto simp: enqueue_def Let_def job_candidate_def split: sum.splits if_splits option.splits)
next
  fix rq i c now d j d'
  assume "enqueue rq i c now d = (Inr (j, False), d')"
  then show "d' = d \<and> j \<in> set (platform_jobs d) \<and> pj_organization_id j = eq_organization_id rq \<and>
      pj_job_type j = eq_job_type rq"
    by (auto simp: enqueue_def Let_def same_idempotency_def same_active_reference_def
        split: sum.splits if_splits option.splits dest: find_mem)
next
  fix rq i c now d e d'
  assume "enqueue rq i c now d = (Inl e, d')"
  then show "d' = d"
    by (auto simp: enqueue_def Let_def split: sum.splits if_splits option.splits)
next
  fix rq i c now d r d'
  assume "enqueue rq i c now d = (r, d')"
  then show "d' = d \<or> (\<exists>jobs audit. d' = d\<lparr>platform_jobs := jobs, audit_events := audit\<rparr>)"
    unfolding enqueue_def Let_def record_audit_def
    by (auto split: sum.splits if_splits option.splits)
qed

section \<open>A sample queue\<close>

definition sample_job :: PlatformJob where
  "sample_job = job_candidate (enqueue_args 2 PlatformJobType.DISCOVERY 5 ''key'') [] 100 200 1000"

definition sample_queue :: db where
  "sample_queue = sample_org\<lparr>platform_jobs := [sample_job]\<rparr>"

lemmas queue_eval = acquire_def select_job_def acquirable_def acquisition_order_def lease_job_def
  write_job_def timedelta_seconds_def sample_queue_def sample_job_def job_candidate_def enqueue_args_def Let_def

lemma payload_ok_empty [simp]: "payload_ok []"
proof -
  have "validated_payload [] = Inr []"
    by (simp add: validated_payload_def check_payload.simps json_dumps.simps MAX_PAYLOAD_BYTES_def)
  then show ?thesis by (simp add: validated_payload_iff)
qed

lemma sample_queue_ok: "queue_ok sample_queue"
  by (simp add: queue_ok_def sample_queue_def sample_job_def job_candidate_def enqueue_args_def
      platform_job_unique_def platform_job_constraints_def platform_job_lease_state_def)

text \<open>A key that a job of the tenant and type already has returns that job, whatever its status.\<close>

lemma enqueue_existing:
  assumes "queue_ok d" and "j \<in> set (platform_jobs d)" and "same_idempotency rq j"
    and "payload_ok (case eq_payload rq of None \<Rightarrow> [] | Some p \<Rightarrow> p)"
  shows "enqueue rq i c now d = (Inr (j, False), d)"
proof -
  have u: "unique_on (\<lambda>j. True) (\<lambda>j. (pj_organization_id j, pj_job_type j, pj_idempotency_key j)) (platform_jobs d)"
    using assms(1) by (simp add: queue_ok_def platform_job_unique_def)
  have ni: "\<not> job_insertable (job_candidate rq p i c now) d" for p
    using assms(2,3)
    by (auto simp: job_insertable_def platform_job_unique_def unique_on_snoc same_idempotency_def job_candidate_def)
  obtain k where k: "find (same_idempotency rq) (platform_jobs d) = Some k"
    using assms(2,3) by (cases "find (same_idempotency rq) (platform_jobs d)") (auto simp: find_None_iff)
  have "k = j"
    using unique_onD [OF u _ assms(2), of k] find_mem [OF k] assms(3) by (simp add: same_idempotency_def)
  with k ni assms(4) show ?thesis
    by (auto simp: enqueue_def Let_def validated_payload_iff [THEN iffD2])
qed

section \<open>Properties\<close>

text \<open>
  C2. Whatever the queue operations and the rest of the program do, in any order, the table
  keeps its constraints: every job holds a lease exactly while it is leased or running, its
  attempt count, limit and priority stay in range, two jobs of a tenant and type never share
  an idempotency key nor, while active, a reference, and every payload is a bounded JSON
  value without credential-like keys.
\<close>

theorem job_queue_invariant:
  assumes "job_step\<^sup>*\<^sup>* (d, I) (d', I')" and "queue_ok d"
  shows "keys_distinct pj_id (platform_jobs d') \<and> platform_job_unique (platform_jobs d') \<and>
    (\<forall>j \<in> set (platform_jobs d'). platform_job_constraints j \<and>
      (\<forall>n v. occurs (JDict (pj_payload_json j)) n v \<longrightarrow> n \<le> 4 \<and> payload_node_ok v) \<and>
      length (json_dumps (JDict (pj_payload_json j))) \<le> MAX_PAYLOAD_BYTES)"
proof -
  have "queue_ok d'" using job_system.inv_reachable [OF assms(1)] assms(2) by simp
  then show ?thesis unfolding queue_ok_def payload_ok_def by blast
qed

theorem job_queue_invariant_witness:
  "platform_job_unique (platform_jobs (snd (acquire ''worker'' 60 9 [] 2000 sample_queue)))"
proof -
  have "job_step (sample_queue, {}) (snd (acquire ''worker'' 60 9 [] 2000 sample_queue), {9})"
    by (rule step_acquire) simp
  then have "job_step\<^sup>*\<^sup>* (sample_queue, {}) (snd (acquire ''worker'' 60 9 [] 2000 sample_queue), {9})"
    by (rule r_into_rtranclp)
  from job_queue_invariant [OF this sample_queue_ok] show ?thesis by (elim conjE)
qed

text \<open>
  C1. A stale worker is fenced: once a job is leased again, every later start, heartbeat,
  success or failure report under a token handed out before is refused with the stale lease
  conflict and changes nothing, whatever happened in between.
\<close>

theorem stale_worker_fenced:
  assumes "queue_ok d" and "acquire w s token locked now d = (Inr (Some j), d1)"
    and "token \<notin> I" and "t \<in> I"
    and "job_step\<^sup>*\<^sup>* (d1, insert token I) (d2, I2)"
  shows "start (pj_id j) t now' d2 = raise (ConflictError ''stale_job_lease'') d2 \<and>
    heartbeat (pj_id j) t s' now' d2 = raise (ConflictError ''stale_job_lease'') d2 \<and>
    succeed (pj_id j) t r now' d2 = raise (ConflictError ''stale_job_lease'') d2 \<and>
    fail redact (pj_id j) t code summary retryable ra now' d2 = raise (ConflictError ''stale_job_lease'') d2"
proof -
  have kd: "keys_distinct pj_id (platform_jobs d)" using assms(1) by (simp add: queue_ok_def)
  obtain j0 where j0: "select_job locked now (platform_jobs d) = Some j0"
      and j: "j = lease_job w s token now j0" and d1: "d1 = write_job j d"
    using assms(2) by (auto simp: acquire_def Let_def split: option.splits)
  have "queue_ok d1"
    using job_effect_ok [OF acquire_effect [OF kd] assms(1)] assms(2) by (metis snd_conv)
  moreover have "pj_lease_token k \<noteq> Some t" if "k \<in> set (platform_jobs d1)" and "pj_id k = pj_id j" for k
    using that assms(3,4) j by (auto simp: d1 dest!: set_put_row)
  ultimately have "fenced t (pj_id j) (d1, insert token I)"
    using assms(4) by (simp add: fenced_def)
  then have "fenced t (pj_id j) (d2, I2)"
    by (rule lease_fence.inv_reachable [OF assms(5)])
  from leased_stale [OF this] show ?thesis
    by (simp add: start_def heartbeat_def succeed_def fail_def)
qed

text \<open>The sample job leased by a first worker at 2000, whose lease of one second expires.\<close>

theorem stale_worker_fenced_witness:
  "succeed 100 8 None 4000000 (snd (acquire ''b'' 60 9 [] 3000000 (snd (acquire ''a'' 1 8 [] 2000 sample_queue)))) =
     raise (ConflictError ''stale_job_lease'')
       (snd (acquire ''b'' 60 9 [] 3000000 (snd (acquire ''a'' 1 8 [] 2000 sample_queue))))"
proof -
  let ?d0 = "snd (acquire ''a'' 1 8 [] 2000 sample_queue)"
  let ?j = "lease_job ''b'' 60 9 3000000 (lease_job ''a'' 1 8 2000 sample_job)"
  have d0: "platform_jobs ?d0 = [lease_job ''a'' 1 8 2000 sample_job]"
    by (simp add: queue_eval)
  have "job_step (sample_queue, {}) (?d0, {8})" by (rule step_acquire) simp
  then have q: "queue_ok ?d0" using job_step_ok sample_queue_ok by fastforce
  have a: "acquire ''b'' 60 9 [] 3000000 ?d0 = (Inr (Some ?j), snd (acquire ''b'' 60 9 [] 3000000 ?d0))"
    using d0 by (simp add: acquire_def select_job_def acquirable_def lease_job_def timedelta_seconds_def Let_def)
  have "pj_id ?j = 100"
    by (simp add: lease_job_def sample_job_def job_candidate_def)
  with stale_worker_fenced [OF q a _ _ rtranclp.rtrancl_refl, of "{8}" 8] show ?thesis by simp
qed

text \<open>
  An acquisition returns the job that the queue's order puts first: an unlocked job that is
  due (or whose lease has expired) with no other such job of higher priority, or of equal
  priority and earlier availability and creation; nothing is returned only if every such job is
  locked. The job comes back leased under the new token with its attempt and lease generation
  counted, and no other row changes.
\<close>

theorem acquire_takes_first_due_job:
  assumes "queue_ok d" and "acquire w s token locked now d = (Inr r, d')"
  shows "case r of
      None \<Rightarrow> d' = d \<and> (\<forall>k \<in> set (platform_jobs d). acquirable now k \<longrightarrow> pj_id k \<in> set locked)
    | Some j' \<Rightarrow> (\<exists>j. get_row pj_id (pj_id j') (platform_jobs d) = Some j \<and> acquirable now j \<and>
        pj_id j \<notin> set locked \<and>
        (\<forall>k \<in> set (platform_jobs d). acquirable now k \<longrightarrow> pj_id k \<notin> set locked \<longrightarrow>
           pj_priority k \<le> pj_priority j \<and>
           (pj_priority k = pj_priority j \<longrightarrow> pj_available_at j \<le> pj_available_at k)) \<and>
        pj_status j' = PlatformJobStatus.LEASED \<and> pj_lease_token j' = Some token \<and>
        pj_lease_expires_at j' = Some (now + timedelta_seconds s) \<and>
        pj_lease_generation j' = pj_lease_generation j + 1 \<and> pj_attempt_count j' = pj_attempt_count j + 1 \<and>
        get_row pj_id (pj_id j') (platform_jobs d') = Some j' \<and>
        (\<forall>i. i \<noteq> pj_id j' \<longrightarrow> get_row pj_id i (platform_jobs d') = get_row pj_id i (platform_jobs d)))"
proof (cases "select_job locked now (platform_jobs d)")
  case None
  with assms(2) select_job_None [of locked now "platform_jobs d"] show ?thesis by (auto simp: acquire_def)
next
  case (Some j)
  note best = select_job_best [OF Some]
  have j: "get_row pj_id (pj_id j) (platform_jobs d) = Some j"
    using assms(1) best(1) by (auto simp: queue_ok_def intro: get_row_distinct)
  have r: "r = Some (lease_job w s token now j)" and d': "d' = write_job (lease_job w s token now j) d"
    using Some assms(2) by (auto simp: acquire_def Let_def)
  have "pj_priority k \<le> pj_priority j \<and> (pj_priority k = pj_priority j \<longrightarrow> pj_available_at j \<le> pj_available_at k)"
    if "k \<in> set (platform_jobs d)" "acquirable now k" "pj_id k \<notin> set locked" for k
    using best(4) [OF that] by (auto simp: acquisition_order_def less_eq_prod_def)
  with best j show ?thesis
    by (auto simp: r d' lease_job_def get_put_row)
qed

theorem acquire_takes_first_due_job_witness:
  "pj_status (the (get_row pj_id 100 (platform_jobs (snd (acquire ''a'' 60 9 [] 2000 sample_queue))))) =
     PlatformJobStatus.LEASED"
proof -
  have a: "acquire ''a'' 60 9 [] 2000 sample_queue =
      (Inr (Some (lease_job ''a'' 60 9 2000 sample_job)), snd (acquire ''a'' 60 9 [] 2000 sample_queue))"
    by (simp add: queue_eval)
  have "pj_id (lease_job ''a'' 60 9 2000 sample_job) = 100"
    by (simp add: lease_job_def sample_job_def job_candidate_def)
  with acquire_takes_first_due_job [OF sample_queue_ok a] show ?thesis by auto
qed

text \<open>
  Two workers never hold the same job within one lease: an acquisition before the expiry of
  another acquisition's lease does not return that job.
\<close>

theorem lease_is_exclusive:
  assumes "queue_ok d" and "acquire w s token locked now d = (Inr (Some j), d1)"
    and "acquire w' s' token' locked' now' d1 = (Inr (Some k), d2)"
    and "now' < now + timedelta_seconds s"
  shows "pj_id k \<noteq> pj_id j"
proof
  assume same: "pj_id k = pj_id j"
  obtain j0 where j: "j = lease_job w s token now j0" and d1: "d1 = write_job j d"
    using assms(2) by (auto simp: acquire_def Let_def split: option.splits)
  obtain k0 where "select_job locked' now' (platform_jobs d1) = Some k0" and k: "k = lease_job w' s' token' now' k0"
    using assms(3) by (auto simp: acquire_def Let_def split: option.splits)
  note best = select_job_best [OF this(1)]
  from same k have "pj_id k0 = pj_id j" by (simp add: lease_job_def)
  with best(1) have "k0 = j" by (auto simp: d1 dest: set_put_row)
  with best(2) assms(4) show False by (simp add: j lease_job_def acquirable_def)
qed

theorem lease_is_exclusive_witness:
  "\<exists>d j k d1 d2. acquire ''a'' 60 9 [] 2000 d = (Inr (Some j), d1) \<and>
     acquire ''b'' 60 10 [] 3000 d1 = (Inr (Some k), d2) \<and> pj_id k \<noteq> pj_id j"
proof -
  let ?k = "sample_job\<lparr>pj_id := 101, pj_reference_id := 6, pj_idempotency_key := ''other''\<rparr>"
  let ?d = "sample_queue\<lparr>platform_jobs := [sample_job, ?k]\<rparr>"
  let ?d1 = "write_job (lease_job ''a'' 60 9 2000 sample_job) ?d"
  have q: "queue_ok ?d"
    by (simp add: queue_ok_def sample_job_def job_candidate_def enqueue_args_def
        platform_job_unique_def platform_job_constraints_def platform_job_lease_state_def)
  have a: "acquire ''a'' 60 9 [] 2000 ?d = (Inr (Some (lease_job ''a'' 60 9 2000 sample_job)), ?d1)"
    by (simp add: queue_eval)
  have b: "acquire ''b'' 60 10 [] 3000 ?d1 =
      (Inr (Some (lease_job ''b'' 60 10 3000 ?k)), write_job (lease_job ''b'' 60 10 3000 ?k) ?d1)"
    by (simp add: queue_eval)
  have "(3000 :: int) < 2000 + timedelta_seconds 60" by (simp add: timedelta_seconds_def)
  with a b lease_is_exclusive [OF q a b] show ?thesis by blast
qed

text \<open>
  C7. Enqueueing is idempotent per tenant, type and key: after a job was enqueued, and whatever
  happened to the queue since, a request with the same key (and any valid payload) adds no job
  and returns that very job.
\<close>

theorem enqueue_idempotent:
  assumes "queue_ok d" and "i \<notin> pj_id ` set (platform_jobs d)"
    and "enqueue rq i c now d = (Inr (j, True), d1)" and "job_step\<^sup>*\<^sup>* (d1, I) (d2, I2)"
    and "eq_organization_id rq' = eq_organization_id rq" and "eq_job_type rq' = eq_job_type rq"
    and "eq_idempotency_key rq' = eq_idempotency_key rq"
    and "payload_ok (case eq_payload rq' of None \<Rightarrow> [] | Some p \<Rightarrow> p)"
  shows "\<exists>j2. enqueue rq' i' c' now' d2 = (Inr (j2, False), d2) \<and> pj_id j2 = pj_id j \<and>
    get_row pj_id (pj_id j) (platform_jobs d2) = Some j2"
proof -
  have q1: "queue_ok d1" using enqueue_ok [OF assms(1,2)] assms(3) by (metis snd_conv)
  have j: "platform_jobs d1 = platform_jobs d @ [j]" using platform_queue.enq_new [OF assms(3)] by simp
  have key: "same_idempotency rq' j"
    using assms(3,5-7)
    by (auto simp: enqueue_def Let_def same_idempotency_def job_candidate_def split: sum.splits if_splits option.splits)
  have "get_row pj_id (pj_id j) (platform_jobs d1) = Some j"
    using q1 j by (intro get_row_distinct) (auto simp: queue_ok_def)
  then have "job_persists (pj_id j) j (d1, I)" using q1 by (simp add: job_persists_def)
  then have "job_persists (pj_id j) j (d2, I2)" by (rule job_life.inv_reachable [OF assms(4)])
  then obtain j2 where j2: "get_row pj_id (pj_id j) (platform_jobs d2) = Some j2" "same_job j j2" and q2: "queue_ok d2"
    by (auto simp: job_persists_def)
  have key2: "same_idempotency rq' j2" using key j2(2) by (simp add: same_idempotency_def same_job_def)
  have mem2: "j2 \<in> set (platform_jobs d2)" using j2(1) by (rule get_row_in)
  show ?thesis
    using enqueue_existing [OF q2 mem2 key2 assms(8)] j2 by (auto simp: same_job_def)
qed

theorem enqueue_idempotent_witness:
  "\<exists>j j2 d1. enqueue (enqueue_args 2 PlatformJobType.EVALUATION 6 ''k'') 101 201 1000 sample_queue = (Inr (j, True), d1) \<and>
     enqueue (enqueue_args 2 PlatformJobType.EVALUATION 7 ''k'') 102 202 5000 d1 = (Inr (j2, False), d1) \<and>
     pj_id j2 = pj_id j"
proof -
  let ?rq = "enqueue_args 2 PlatformJobType.EVALUATION 6 ''k''"
  let ?rq' = "enqueue_args 2 PlatformJobType.EVALUATION 7 ''k''"
  have v: "validated_payload [] = Inr []" by (simp add: validated_payload_iff)
  obtain j d1 where e: "enqueue ?rq 101 201 1000 sample_queue = (Inr (j, True), d1)"
    by (simp add: enqueue_def enqueue_args_def v Let_def job_insertable_def job_candidate_def sample_queue_def
        sample_org_def sample_job_def platform_job_constraints_def platform_job_lease_state_def
        platform_job_unique_def)
  have fresh: "101 \<notin> pj_id ` set (platform_jobs sample_queue)"
    by (simp add: sample_queue_def sample_job_def job_candidate_def)
  have "\<exists>j2. enqueue ?rq' 102 202 5000 d1 = (Inr (j2, False), d1) \<and> pj_id j2 = pj_id j \<and>
      get_row pj_id (pj_id j) (platform_jobs d1) = Some j2"
    by (rule enqueue_idempotent [OF sample_queue_ok fresh e rtranclp.rtrancl_refl])
      (simp_all add: enqueue_args_def)
  with e show ?thesis by blast
qed

text \<open>
  Retries are bounded: a reported failure of a running job ends in one of three statuses. It
  waits for a retry only if the failure is retryable and attempts remain, and then not before one
  second and, unless the caller names a delay, not after 900 seconds; a retryable failure of the
  last attempt is dead-lettered, and any other failure is final. The lease is given up, and the
  stored error code and summary stay within their columns.
\<close>

theorem fail_bounds_retries:
  assumes "queue_ok d" and "leased jid t PlatformJobStatus.RUNNING d = Inr j"
  shows "\<exists>j' d'. fail redact jid t code summary retryable ra now d = (Inr j', d') \<and>
    get_row pj_id jid (platform_jobs d') = Some j' \<and> pj_lease_token j' = None \<and>
    pj_attempt_count j' = pj_attempt_count j \<and>
    length (the (pj_last_error_code j')) \<le> 100 \<and> length (the (pj_last_error_summary j')) \<le> 500 \<and>
    pj_status j' = (if \<not> retryable then PlatformJobStatus.FAILED
      else if pj_attempt_count j < pj_max_attempts j then PlatformJobStatus.RETRY_WAIT
      else PlatformJobStatus.DEAD_LETTERED) \<and>
    (pj_status j' = PlatformJobStatus.RETRY_WAIT \<longrightarrow>
       now + timedelta_seconds 1 \<le> pj_available_at j' \<and>
       (ra = None \<longrightarrow> pj_available_at j' \<le> now + timedelta_seconds 900))"
proof -
  let ?j = "fail_job redact code summary retryable ra now j"
  have kd: "keys_distinct pj_id (platform_jobs d)" using assms(1) by (simp add: queue_ok_def)
  note row = leased_row [OF kd assms(2)]
  have id: "pj_id ?j = jid" using row(2) by (simp add: job_rewrites)
  have "get_row pj_id jid (platform_jobs (write_job ?j d)) = Some ?j"
    using row(1,2) id by (simp add: get_put_row)
  moreover have "1 \<le> retry_delay ra n" for n by (simp add: retry_delay_def Let_def)
  moreover have "retry_delay None n \<le> 900" for n by (simp add: retry_delay_def Let_def)
  ultimately show ?thesis
    using assms(2)
    by (auto simp: fail_def job_rewrites error_code_of_def MAX_ERROR_SUMMARY_def timedelta_seconds_def)
qed

theorem fail_bounds_retries_witness:
  "\<exists>j' d'. fail (\<lambda>s. s) 100 9 ''Boom!'' ''went wrong'' True None 4000
      (sample_queue\<lparr>platform_jobs := [start_job 3000 (lease_job ''a'' 60 9 2000 sample_job)]\<rparr>) = (Inr j', d') \<and>
    pj_status j' = PlatformJobStatus.RETRY_WAIT \<and> pj_available_at j' \<le> 4000 + timedelta_seconds 900"
proof -
  let ?j = "start_job 3000 (lease_job ''a'' 60 9 2000 sample_job)"
  let ?d = "sample_queue\<lparr>platform_jobs := [?j]\<rparr>"
  have q: "queue_ok ?d"
    by (simp add: queue_ok_def sample_job_def job_candidate_def enqueue_args_def lease_job_def start_job_def
        platform_job_unique_def platform_job_constraints_def platform_job_lease_state_def)
  have l: "leased 100 9 PlatformJobStatus.RUNNING ?d = Inr ?j"
    by (simp add: leased_def sample_job_def job_candidate_def lease_job_def start_job_def)
  have "pj_attempt_count ?j < pj_max_attempts ?j"
    by (simp add: sample_job_def job_candidate_def lease_job_def start_job_def enqueue_args_def)
  with fail_bounds_retries [OF q l, of "\<lambda>s. s" "''Boom!''" "''went wrong''" True None 4000]
  show ?thesis by auto
qed

text \<open>
  A job moves only along the edges of its state machine, keeps its tenant, type, reference,
  payload, key, priority and limit for ever, and once it has succeeded its row never changes
  again.
\<close>

theorem job_lifecycle:
  assumes "queue_ok d" and "get_row pj_id jid (platform_jobs d) = Some j"
  shows "(job_step (d, I) (d', I') \<longrightarrow>
      (\<exists>j'. get_row pj_id jid (platform_jobs d') = Some j' \<and> (j' = j \<or> job_edge (pj_status j) (pj_status j')))) \<and>
    (job_step\<^sup>*\<^sup>* (d, I) (d', I') \<longrightarrow>
      (\<exists>j'. get_row pj_id jid (platform_jobs d') = Some j' \<and> same_job j j' \<and>
        (pj_status j = PlatformJobStatus.SUCCEEDED \<longrightarrow> j' = j)))"
proof (intro conjI impI)
  assume "job_step (d, I) (d', I')"
  then obtain j' where "get_row pj_id jid (platform_jobs d') = Some j'" and "j' = j \<or> job_change j j'"
    using job_step_row [of "(d, I)" "(d', I')"] assms by auto
  then show "\<exists>j'. get_row pj_id jid (platform_jobs d') = Some j' \<and> (j' = j \<or> job_edge (pj_status j) (pj_status j'))"
    using job_change_edge by blast
next
  assume "job_step\<^sup>*\<^sup>* (d, I) (d', I')"
  moreover have "job_persists jid j (d, I)" using assms by (simp add: job_persists_def)
  ultimately have "job_persists jid j (d', I')" by (rule job_life.inv_reachable)
  then show "\<exists>j'. get_row pj_id jid (platform_jobs d') = Some j' \<and> same_job j j' \<and>
      (pj_status j = PlatformJobStatus.SUCCEEDED \<longrightarrow> j' = j)"
    by (auto simp: job_persists_def)
qed

theorem job_lifecycle_witness:
  "\<exists>j'. get_row pj_id 100 (platform_jobs (snd (cancel 2 100 7 5000 sample_queue))) = Some j' \<and>
     (j' = sample_job \<or> job_edge (pj_status sample_job) (pj_status j')) \<and> same_job sample_job j'"
proof -
  have g: "get_row pj_id 100 (platform_jobs sample_queue) = Some sample_job"
    by (simp add: sample_queue_def sample_job_def job_candidate_def)
  have s: "job_step (sample_queue, {}) (snd (cancel 2 100 7 5000 sample_queue), {})" by (rule step_cancel)
  then have "job_step\<^sup>*\<^sup>* (sample_queue, {}) (snd (cancel 2 100 7 5000 sample_queue), {})" by (rule r_into_rtranclp)
  with s job_lifecycle [OF sample_queue_ok g, of "{}" "snd (cancel 2 100 7 5000 sample_queue)" "{}"]
  show ?thesis by auto
qed

text \<open>
  A failed, dead-lettered or cancelled job cannot be put back while another job of the tenant
  and type is active for the same reference: the request of an authorized operator then ends in
  an integrity error of the database, which no handler turns into a conflict response, and the
  table is unchanged. In all other cases the job is available again with its attempts reset.
\<close>

theorem requeue_outcome:
  assumes "queue_ok d" and "require_capability (pj_organization_id j) actor JOBS_MANAGE d = Inr m"
    and "get_row pj_id jid (platform_jobs d) = Some j"
    and "pj_status j \<in> {PlatformJobStatus.FAILED, PlatformJobStatus.DEAD_LETTERED, PlatformJobStatus.CANCELLED}"
  shows "if \<exists>k \<in> set (platform_jobs d). platform_job_active k \<and> pj_organization_id k = pj_organization_id j \<and>
        pj_job_type k = pj_job_type j \<and> pj_reference_id k = pj_reference_id j
    then requeue (pj_organization_id j) jid actor now d = raise IntegrityError d
    else \<exists>j' d'. requeue (pj_organization_id j) jid actor now d = return j' d' \<and>
      get_row pj_id jid (platform_jobs d') = Some j' \<and> pj_status j' = PlatformJobStatus.AVAILABLE \<and>
      pj_attempt_count j' = 0 \<and> acquirable now j'"
proof -
  let ?j = "requeue_job now j" and ?jobs = "platform_jobs d"
  have kd: "keys_distinct pj_id ?jobs" and u: "platform_job_unique ?jobs"
    using assms(1) by (simp_all add: queue_ok_def)
  have id: "pj_id j = jid" using assms(3) by (rule get_row_key)
  have same: "same_job j ?j" using change_requeue [OF assms(4)] by (rule job_change_same)
  have iff: "platform_job_unique (put_row pj_id ?j ?jobs) \<longleftrightarrow> \<not> reference_taken j ?jobs"
    by (rule requeue_unique_iff [OF kd u])
      (use assms(3,4) id same in \<open>auto simp: platform_job_active_def job_rewrites\<close>)
  note sc = get_scoped_get_row [OF kd assms(3)]
  have "get_row pj_id jid (put_row pj_id ?j ?jobs) = Some ?j"
    using assms(3) id same by (simp add: get_put_row same_job_def)
  moreover have "pj_status ?j = PlatformJobStatus.AVAILABLE" "pj_attempt_count ?j = 0" "acquirable now ?j"
    by (simp_all add: job_rewrites acquirable_def)
  ultimately show ?thesis
    using assms(2,4) sc iff unfolding reference_taken_def requeue_def by (simp split: if_split)
qed

theorem requeue_outcome_witness:
  "requeue 2 100 7 5000
     (sample_queue\<lparr>platform_jobs := [cancel_job 3000 sample_job, sample_job\<lparr>pj_id := 101, pj_idempotency_key := ''b''\<rparr>]\<rparr>) =
   raise IntegrityError
     (sample_queue\<lparr>platform_jobs := [cancel_job 3000 sample_job, sample_job\<lparr>pj_id := 101, pj_idempotency_key := ''b''\<rparr>]\<rparr>)"
proof -
  let ?j = "cancel_job 3000 sample_job"
  let ?d = "sample_queue\<lparr>platform_jobs := [?j, sample_job\<lparr>pj_id := 101, pj_idempotency_key := ''b''\<rparr>]\<rparr>"
  have q: "queue_ok ?d"
    by (simp add: queue_ok_def sample_job_def job_candidate_def enqueue_args_def cancel_job_def clear_lease_def
        platform_job_unique_def platform_job_constraints_def platform_job_lease_state_def platform_job_active_def)
  have org: "pj_organization_id ?j = 2"
    by (simp add: cancel_job_def clear_lease_def sample_job_def job_candidate_def enqueue_args_def)
  have "require_capability 2 7 JOBS_MANAGE ?d = require_capability 2 7 JOBS_MANAGE sample_org"
    by (simp add: require_capability_def require_member_def active_membership_def sample_queue_def)
  then have m: "require_capability (pj_organization_id ?j) 7 JOBS_MANAGE ?d =
      Inr \<lparr>m_id = 10, m_organization_id = 2, m_user_id = 7, m_role = OrganizationRole.OWNER,
         m_status = MembershipStatus.ACTIVE, m_invited_by_user_id = None, m_joined_at = Some 0\<rparr>"
    by (simp add: org)
  have g: "get_row pj_id 100 (platform_jobs ?d) = Some ?j" and st: "pj_status ?j = PlatformJobStatus.CANCELLED"
    by (simp_all add: cancel_job_def clear_lease_def sample_job_def job_candidate_def)
  have "\<exists>k \<in> set (platform_jobs ?d). platform_job_active k \<and> pj_organization_id k = pj_organization_id ?j \<and>
      pj_job_type k = pj_job_type ?j \<and> pj_reference_id k = pj_reference_id ?j"
    by (simp add: platform_job_active_def cancel_job_def clear_lease_def sample_job_def job_candidate_def)
  then show ?thesis
    using requeue_outcome [OF q m g, of 5000] st org by simp
qed

end
