(* ===== verification/Notifications.thy ===== *)
theory Notifications
  imports Platform_Jobs
begin

text \<open>
  Notification events of \<^verbatim>\<open>app/services/notifications.py\<close>: creation for a critical finding,
  approval and its withdrawal, recipients and content of the mail, delivery through a provider
  and the queueing of a delivery. A provider is a record of its key and its function; what the
  service object holds is in the record \<open>NotificationService\<close>.
\<close>

section \<open>Providers\<close>

datatype NotificationDeliveryOutcome = SUCCESS | FAILURE

record NotificationDeliveryResult =
  nr_outcome :: NotificationDeliveryOutcome
  nr_sanitized_error :: "string option"
  nr_provider_message_id :: "string option"
  nr_error_code :: "string option"
  nr_retryable :: bool
  nr_retry_after_seconds :: "int option"

text \<open>The arguments of \<^verbatim>\<open>NotificationProvider.deliver\<close>; no provider reads the context.\<close>

record DeliveryCall =
  dc_channel :: NotificationChannel
  dc_destination_reference :: "string option"
  dc_recipients :: "string list"
  dc_subject :: string
  dc_text_body :: string
  dc_template_key :: string

record NotificationProvider =
  np_key :: string
  np_deliver :: "DeliveryCall \<Rightarrow> exn + NotificationDeliveryResult"

record NotificationService =
  ns_sha256 :: "string \<Rightarrow> string"
  ns_provider :: NotificationProvider
  ns_frontend_url :: string

text \<open>The offline mock; \<open>invocations\<close> is its counter before the call.\<close>

definition delivery_success :: "string option \<Rightarrow> NotificationDeliveryResult" where
  "delivery_success message_id =
     \<lparr>nr_outcome = SUCCESS, nr_sanitized_error = None, nr_provider_message_id = message_id, nr_error_code = None,
      nr_retryable = False, nr_retry_after_seconds = None\<rparr>"

definition delivery_failure :: "string \<Rightarrow> string \<Rightarrow> bool \<Rightarrow> NotificationDeliveryResult" where
  "delivery_failure error_code message retryable =
     \<lparr>nr_outcome = FAILURE, nr_sanitized_error = Some message, nr_provider_message_id = None,
      nr_error_code = Some error_code, nr_retryable = retryable, nr_retry_after_seconds = None\<rparr>"

definition mock_deliver :: "string \<Rightarrow> nat \<Rightarrow> NotificationDeliveryResult \<times> nat" where
  "mock_deliver fault_mode invocations =
     (let n = invocations + 1 in
      if fault_mode = ''success'' then (delivery_success None, n)
      else if fault_mode = ''always_fail'' then
        (delivery_failure ''mock_transient_failure'' ''Mock provider was configured to fail delivery.'' True, n)
      else if fault_mode = ''fail_then_succeed'' \<and> n = 1 then
        (delivery_failure ''mock_transient_failure'' ''Mock provider transient failure.'' True, n)
      else (delivery_success None, n))"

definition MockNotificationProvider :: "string \<Rightarrow> nat \<Rightarrow> NotificationProvider" where
  "MockNotificationProvider fault_mode invocations =
     \<lparr>np_key = ''mock'', np_deliver = (\<lambda>call. Inr (fst (mock_deliver fault_mode invocations)))\<rparr>"

definition MAX_DELIVERY_ATTEMPTS :: int where
  "MAX_DELIVERY_ATTEMPTS = 3"

definition CRITICAL_FINDING_TEMPLATE_KEY :: string where
  "CRITICAL_FINDING_TEMPLATE_KEY = ''critical_finding_created''"

definition CRITICAL_FINDING_EVENT_TYPE :: string where
  "CRITICAL_FINDING_EVENT_TYPE = ''security.finding.created''"

definition CRITICAL_FINDING_TEMPLATE_VERSION :: int where
  "CRITICAL_FINDING_TEMPLATE_VERSION = 1"

definition payload_hash :: "(string \<Rightarrow> string) \<Rightarrow> uuid \<Rightarrow> uuid \<Rightarrow> string \<Rightarrow> string" where
  "payload_hash sha256 organization_id finding_id template_key =
     sha256 (uuid_str organization_id @ '':'' @ uuid_str finding_id @ '':'' @ template_key)"

section \<open>Creating an event\<close>

definition critical_event :: "(string \<Rightarrow> string) \<Rightarrow> Finding \<Rightarrow> uuid \<Rightarrow> instant \<Rightarrow> NotificationEvent" where
  "critical_event sha256 finding new_id now =
     \<lparr>ne_id = new_id, ne_organization_id = f_organization_id finding,
      ne_source_event_type = CRITICAL_FINDING_EVENT_TYPE, ne_source_resource_type = ''finding'',
      ne_source_resource_id = f_id finding, ne_channel = NotificationChannel.EMAIL,
      ne_template_key = CRITICAL_FINDING_TEMPLATE_KEY, ne_destination_reference = None,
      ne_payload_hash = payload_hash sha256 (f_organization_id finding) (f_id finding) CRITICAL_FINDING_TEMPLATE_KEY,
      ne_status = NotificationStatus.PENDING_APPROVAL, ne_attempt_count = 0, ne_approved_by_user_id = None,
      ne_approved_at = None, ne_approved_delivery_fingerprint = None, ne_scheduled_at = None,
      ne_delivered_at = None, ne_failed_at = None, ne_failure_reason = None, ne_provider_key = None,
      ne_provider_message_id = None, ne_created_at = now\<rparr>"

definition create_for_critical_finding ::
    "(string \<Rightarrow> string) \<Rightarrow> Finding \<Rightarrow> uuid \<Rightarrow> instant \<Rightarrow> db \<Rightarrow> NotificationEvent option \<times> db" where
  "create_for_critical_finding sha256 finding new_id now d =
     (if f_severity finding \<noteq> FindingSeverity.CRITICAL then (None, d)
      else
        let candidate = critical_event sha256 finding new_id now;
            rows = notification_events d @ [candidate]
        in if notification_constraints candidate \<and> notification_unique rows then
             (Some candidate,
              record_audit ''notification.event.created'' ''notification_event'' AuditResult.SUCCEEDED
                (Some (f_organization_id finding)) None (Some new_id) (d\<lparr>notification_events := rows\<rparr>))
           else (None, d))"

section \<open>Lookup and writing\<close>

definition get_event :: "uuid \<Rightarrow> uuid \<Rightarrow> db \<Rightarrow> exn + NotificationEvent" where
  "get_event organization_id event_id d =
     (case find (\<lambda>n. ne_id n = event_id \<and> ne_organization_id n = organization_id) (notification_events d) of
        None \<Rightarrow> Inl (NotFoundError ''notification_event_not_found'')
      | Some n \<Rightarrow> Inr n)"

definition flush_event :: "NotificationEvent \<Rightarrow> db \<Rightarrow> exn + db" where
  "flush_event n d =
     (let rows = put_row ne_id n (notification_events d) in
      if notification_constraints n \<and> notification_unique rows
      then Inr (d\<lparr>notification_events := rows\<rparr>) else Inl IntegrityError)"

section \<open>Recipients\<close>

text \<open>
  \<^verbatim>\<open>^[^@\s]+@[^@\s]+\.[^@\s]+$\<close>, matched against a stripped string, so the final \<^verbatim>\<open>$\<close>
  never stands before a line break.
\<close>

definition EMAIL_RE :: "string \<Rightarrow> bool" where
  "EMAIL_RE s =
     (let name = takeWhile (\<lambda>c. c \<noteq> CHR ''@'') s; rest = dropWhile (\<lambda>c. c \<noteq> CHR ''@'') s; domain = drop 1 rest in
      name \<noteq> [] \<and> rest \<noteq> [] \<and> list_all (\<lambda>c. c \<noteq> CHR ''@'' \<and> \<not> is_space c) domain \<and>
      list_all (\<lambda>c. \<not> is_space c) name \<and>
      list_ex (\<lambda>n. domain ! n = CHR ''.'') [1..<length domain - 1])"

fun dedupe_recipients :: "string list \<Rightarrow> string list \<Rightarrow> exn + string list" where
  "dedupe_recipients seen [] = Inr []"
| "dedupe_recipients seen (recipient # rest) =
     (let email = strip recipient; normalized = casefold email in
      if \<not> EMAIL_RE email then Inl (ConflictError ''notification_invalid_recipient'')
      else if normalized \<in> set seen then dedupe_recipients seen rest
      else
        (case dedupe_recipients (normalized # seen) rest of
           Inl e \<Rightarrow> Inl e
         | Inr deduped \<Rightarrow> Inr (email # deduped)))"

definition administrators :: "uuid \<Rightarrow> db \<Rightarrow> User list" where
  "administrators organization_id d =
     sort_key u_normalized_email
       (concat (map (\<lambda>m. filter (\<lambda>u. u_id u = m_user_id m \<and> u_status u = UserStatus.ACTIVE) (users d))
          (filter (\<lambda>m. m_organization_id m = organization_id \<and> m_status m = MembershipStatus.ACTIVE \<and>
                       m_role m \<in> {OrganizationRole.OWNER, OrganizationRole.ADMIN}) (memberships d))))"

text \<open>The user who started the evaluation that last touched the finding.\<close>

definition evaluation_actor :: "NotificationEvent \<Rightarrow> db \<Rightarrow> User list" where
  "evaluation_actor n d =
     (case get_row f_id (ne_source_resource_id n) (findings d) of
        None \<Rightarrow> []
      | Some finding \<Rightarrow>
          if f_organization_id finding \<noteq> ne_organization_id n then []
          else
            (case get_row ej_id (f_last_evaluation_id finding) (evaluation_jobs d) of
               None \<Rightarrow> []
             | Some evaluation \<Rightarrow>
                 if ej_organization_id evaluation \<noteq> ne_organization_id n then []
                 else
                   (case get_row u_id (ej_started_by_user_id evaluation) (users d) of
                      None \<Rightarrow> []
                    | Some actor \<Rightarrow> if u_status actor = UserStatus.ACTIVE then [actor] else [])))"

definition recipients_for_event :: "NotificationEvent \<Rightarrow> db \<Rightarrow> exn + string list" where
  "recipients_for_event n d =
     (case dedupe_recipients [] (map u_email (administrators (ne_organization_id n) d @ evaluation_actor n d)) of
        Inl e \<Rightarrow> Inl e
      | Inr deduped \<Rightarrow>
          if deduped = [] then Inl (ConflictError ''notification_invalid_recipient'') else Inr deduped)"

section \<open>Content\<close>

text \<open>\<^verbatim>\<open>str\<close> of an aware UTC \<^verbatim>\<open>datetime\<close>.\<close>

definition civil_of_days :: "int \<Rightarrow> int \<times> int \<times> int" where
  "civil_of_days z =
     (let e = z + 719468; era = e div 146097; doe = e mod 146097;
          yoe = (doe - doe div 1460 + doe div 36524 - doe div 146096) div 365;
          doy = doe - (365 * yoe + yoe div 4 - yoe div 100);
          mp = (5 * doy + 2) div 153; day = doy - (153 * mp + 2) div 5 + 1;
          month = (if mp < 10 then mp + 3 else mp - 9)
      in (yoe + era * 400 + (if month \<le> 2 then 1 else 0), month, day))"

definition zero_padded :: "nat \<Rightarrow> int \<Rightarrow> string" where
  "zero_padded n i = (let s = int_str i in replicate (n - length s) (CHR ''0'') @ s)"

definition datetime_str :: "instant \<Rightarrow> string" where
  "datetime_str t =
     (let seconds = t div 1000000; micros = t mod 1000000; second = seconds mod 86400 in
      case civil_of_days (seconds div 86400) of
        (year, month, day) \<Rightarrow>
          zero_padded 4 year @ ''-'' @ zero_padded 2 month @ ''-'' @ zero_padded 2 day @ '' '' @
          zero_padded 2 (second div 3600) @ '':'' @ zero_padded 2 (second div 60 mod 60) @ '':'' @
          zero_padded 2 (second mod 60) @
          (if micros = 0 then [] else ''.'' @ zero_padded 6 micros) @ ''+00:00'')"

definition masked_account :: "string option \<Rightarrow> string" where
  "masked_account account_id =
     (case account_id of
        None \<Rightarrow> ''unknown''
      | Some s \<Rightarrow> if 4 \<le> length s then ''********'' @ drop (length s - 4) s else ''unknown'')"

definition safe_org_name :: "string \<Rightarrow> string" where
  "safe_org_name name = take 200 (strip (map (\<lambda>c. if (of_char c :: nat) \<le> 31 then CHR '' '' else c) name))"

definition email_content :: "NotificationService \<Rightarrow> NotificationEvent \<Rightarrow> db \<Rightarrow> string \<times> string" where
  "email_content ns n d =
     (let finding = get_row f_id (ne_source_resource_id n) (findings d);
          own = (case finding of None \<Rightarrow> None
                 | Some f \<Rightarrow> if f_organization_id f = ne_organization_id n then Some f else None);
          account = (case own of None \<Rightarrow> None | Some f \<Rightarrow> get_row acc_id (f_aws_account_id f) (aws_accounts d));
          evaluation = (case own of None \<Rightarrow> None | Some f \<Rightarrow> get_row ej_id (f_last_evaluation_id f) (evaluation_jobs d));
          org_name = (case get_row o_id (ne_organization_id n) (organizations d) of
                        None \<Rightarrow> ''CloudOps organization'' | Some org \<Rightarrow> o_name org);
          account_name = (case account of None \<Rightarrow> ''AWS account'' | Some a \<Rightarrow> acc_name a);
          subject = take 998 (''CloudOps security notification for '' @ safe_org_name org_name);
          evaluation_time = (case evaluation of
                               None \<Rightarrow> ne_created_at n
                             | Some e \<Rightarrow> (case ej_finished_at e of None \<Rightarrow> ne_created_at n | Some t \<Rightarrow> t));
          lines =
            [''Organization: '' @ org_name,
             ''AWS account: '' @ account_name @ '' ('' @ masked_account (map_option acc_account_id account) @ '')'',
             ''Scan/evaluation time: '' @ datetime_str evaluation_time,
             ''Notification type: critical security finding'',
             ''Finding count: '' @ (case evaluation of None \<Rightarrow> ''1'' | Some e \<Rightarrow> int_str (ej_findings_created e)),
             ''Critical/high/medium/low summary: critical=1, high=0, medium=0, low=0'',
             ''Compliance summary: review the CloudOps compliance page for the latest assessment.'',
             ''Risk summary: review the CloudOps risk page for the latest deterministic risk score.''] @
            (case finding of
               None \<Rightarrow> []
             | Some f \<Rightarrow> [''Top finding:'',
                 ''- '' @ f_rule_key f @ '' ('' @ FindingSeverity_value (f_severity f) @ '')'']) @
            [[], ''Remediation execution is simulated in CloudOps Version 1.'',
             ''Review the finding, compliance, risk, remediation, schedule, and audit pages before action.'',
             ''Open CloudOps: '' @ ns_frontend_url ns]
      in (subject, intercalate [char_of (10 :: nat)] lines))"

section \<open>Approval\<close>

definition delivery_fingerprint :: "NotificationService \<Rightarrow> NotificationEvent \<Rightarrow> string" where
  "delivery_fingerprint ns n =
     ns_sha256 ns (intercalate '':''
       [NotificationChannel_value (ne_channel n), ne_template_key n,
        (case ne_destination_reference n of None \<Rightarrow> [] | Some s \<Rightarrow> s), ne_payload_hash n, np_key (ns_provider ns)])"

definition approve_event_row :: "NotificationService \<Rightarrow> uuid \<Rightarrow> instant \<Rightarrow> NotificationEvent \<Rightarrow> NotificationEvent" where
  "approve_event_row ns approver now n =
     n\<lparr>ne_status := NotificationStatus.APPROVED, ne_approved_at := Some now, ne_approved_by_user_id := Some approver,
       ne_approved_delivery_fingerprint := Some (delivery_fingerprint ns n)\<rparr>"

definition approve_event ::
    "NotificationService \<Rightarrow> uuid \<Rightarrow> uuid \<Rightarrow> uuid \<Rightarrow> instant \<Rightarrow> db \<Rightarrow> (db, NotificationEvent) outcome" where
  "approve_event ns organization_id event_id approver now d =
     (case get_event organization_id event_id d of
        Inl e \<Rightarrow> raise e d
      | Inr n \<Rightarrow>
          if ne_status n = NotificationStatus.APPROVED then return n d
          else if ne_status n \<noteq> NotificationStatus.PENDING_APPROVAL then
            raise (ConflictError ''notification_event_invalid_transition'') d
          else
            (case flush_event (approve_event_row ns approver now n) d of
               Inl e \<Rightarrow> raise e d
             | Inr d' \<Rightarrow>
                 return (approve_event_row ns approver now n)
                   (record_audit ''notification.event.approved'' ''notification_event'' AuditResult.SUCCEEDED
                      (Some organization_id) (Some approver) (Some (ne_id n)) d')))"

definition revoke_event_row :: "NotificationEvent \<Rightarrow> NotificationEvent" where
  "revoke_event_row n =
     n\<lparr>ne_status := NotificationStatus.PENDING_APPROVAL, ne_approved_at := None, ne_approved_by_user_id := None,
       ne_approved_delivery_fingerprint := None, ne_scheduled_at := None\<rparr>"

definition revoke_event_approval ::
    "uuid \<Rightarrow> uuid \<Rightarrow> uuid \<Rightarrow> db \<Rightarrow> (db, NotificationEvent) outcome" where
  "revoke_event_approval organization_id event_id actor d =
     (case get_event organization_id event_id d of
        Inl e \<Rightarrow> raise e d
      | Inr n \<Rightarrow>
          if ne_status n = NotificationStatus.PENDING_APPROVAL then return n d
          else if ne_status n \<noteq> NotificationStatus.APPROVED then
            raise (ConflictError ''notification_event_invalid_transition'') d
          else
            (case flush_event (revoke_event_row n) d of
               Inl e \<Rightarrow> raise e d
             | Inr d' \<Rightarrow>
                 return (revoke_event_row n)
                   (record_audit ''notification.event.approval_revoked'' ''notification_event'' AuditResult.SUCCEEDED
                      (Some organization_id) (Some actor) (Some (ne_id n)) d')))"

section \<open>Delivery\<close>

definition delivery_evidence ::
    "NotificationService \<Rightarrow> uuid \<Rightarrow> NotificationEvent \<Rightarrow> string list \<Rightarrow> string \<times> string \<Rightarrow>
     NotificationDeliveryResult \<Rightarrow> instant \<Rightarrow> NotificationDeliveryAttempt" where
  "delivery_evidence ns organization_id n recipients content result now =
     \<lparr>na_organization_id = organization_id, na_notification_event_id = ne_id n,
      na_attempt_number = ne_attempt_count n, na_provider_key = np_key (ns_provider ns),
      na_destination_reference = ''recipient_count:'' @ nat_digits (length recipients),
      na_template_key = ne_template_key n, na_template_version = CRITICAL_FINDING_TEMPLATE_VERSION,
      na_content_hash = ns_sha256 ns (fst content @ [char_of (10 :: nat)] @ snd content),
      na_provider_message_id = nr_provider_message_id result,
      na_response_classification =
        (if nr_outcome result = SUCCESS then ''success''
         else if nr_retryable result then ''retryable_failure'' else ''permanent_failure''),
      na_error_code = nr_error_code result, na_error_summary = nr_sanitized_error result,
      na_attempted_at = now,
      na_delivered_at = (if nr_outcome result = SUCCESS then Some now else None),
      na_failed_at = (if nr_outcome result = FAILURE then Some now else None)\<rparr>"

definition finish_delivery ::
    "NotificationService \<Rightarrow> NotificationDeliveryResult \<Rightarrow> instant \<Rightarrow> NotificationEvent \<Rightarrow> NotificationEvent" where
  "finish_delivery ns result now n =
     (if nr_outcome result = SUCCESS then
        n\<lparr>ne_status := NotificationStatus.DELIVERED, ne_delivered_at := Some now, ne_failed_at := None,
          ne_failure_reason := None, ne_provider_key := Some (np_key (ns_provider ns)),
          ne_provider_message_id := nr_provider_message_id result\<rparr>
      else if \<not> nr_retryable result \<or> MAX_DELIVERY_ATTEMPTS \<le> ne_attempt_count n then
        n\<lparr>ne_status := NotificationStatus.FAILED, ne_failed_at := Some now,
          ne_failure_reason := nr_sanitized_error result, ne_provider_key := Some (np_key (ns_provider ns))\<rparr>
      else n\<lparr>ne_provider_key := Some (np_key (ns_provider ns))\<rparr>)"

definition delivery_audit :: "NotificationEvent \<Rightarrow> string \<times> AuditResult" where
  "delivery_audit n =
     (if ne_status n = NotificationStatus.DELIVERED then (''notification.event.delivered'', AuditResult.SUCCEEDED)
      else if ne_status n = NotificationStatus.FAILED then (''notification.event.failed'', AuditResult.FAILED)
      else (''notification.event.delivery_retry'', AuditResult.SUCCEEDED))"

text \<open>The result is paired with the provider's, which the service keeps as \<^verbatim>\<open>last_result\<close>.\<close>

definition deliver ::
    "NotificationService \<Rightarrow> uuid \<Rightarrow> uuid \<Rightarrow> instant \<Rightarrow> db \<Rightarrow>
     (db, NotificationEvent \<times> NotificationDeliveryResult) outcome" where
  "deliver ns organization_id event_id now d =
     (case get_event organization_id event_id d of
        Inl e \<Rightarrow> raise e d
      | Inr n \<Rightarrow>
          if ne_status n \<noteq> NotificationStatus.APPROVED then
            raise (ConflictError ''notification_event_invalid_transition'') d
          else if ne_approved_delivery_fingerprint n \<noteq> Some (delivery_fingerprint ns n) then
            raise (ConflictError ''notification_approval_stale'') d
          else
            (case recipients_for_event n d of
               Inl e \<Rightarrow> raise e d
             | Inr recipients \<Rightarrow>
                 let content = email_content ns n d in
                 (case np_deliver (ns_provider ns)
                         \<lparr>dc_channel = ne_channel n, dc_destination_reference = ne_destination_reference n,
                          dc_recipients = recipients, dc_subject = fst content, dc_text_body = snd content,
                          dc_template_key = ne_template_key n\<rparr> of
                    Inl e \<Rightarrow> raise e d
                  | Inr result \<Rightarrow>
                      let n1 = n\<lparr>ne_attempt_count := ne_attempt_count n + 1\<rparr>;
                          n2 = finish_delivery ns result now n1;
                          attempts = delivery_attempts d @
                            [delivery_evidence ns organization_id n1 recipients content result now]
                      in (case flush_event n2 (d\<lparr>delivery_attempts := attempts\<rparr>) of
                            Inl e \<Rightarrow> raise e d
                          | Inr d' \<Rightarrow>
                              if \<not> delivery_attempts_ok attempts then raise IntegrityError d
                              else return (n2, result)
                                (record_audit (fst (delivery_audit n2)) ''notification_event'' (snd (delivery_audit n2))
                                   (Some organization_id) None (Some (ne_id n)) d')))))"

definition delivery_key :: "NotificationEvent \<Rightarrow> string" where
  "delivery_key n =
     ''notification-delivery:'' @ uuid_str (ne_id n) @ '':'' @
     (case ne_approved_delivery_fingerprint n of
        None \<Rightarrow> ''missing'' | Some f \<Rightarrow> if f = [] then ''missing'' else f)"

definition enqueue_delivery ::
    "uuid \<Rightarrow> uuid \<Rightarrow> uuid \<Rightarrow> uuid \<Rightarrow> uuid \<Rightarrow> instant \<Rightarrow> db \<Rightarrow> (db, PlatformJob) outcome" where
  "enqueue_delivery organization_id event_id actor new_id new_correlation now d =
     (case get_event organization_id event_id d of
        Inl e \<Rightarrow> raise e d
      | Inr n \<Rightarrow>
          if ne_status n \<noteq> NotificationStatus.APPROVED then
            raise (ConflictError ''notification_event_invalid_transition'') d
          else
            (case enqueue
                    ((enqueue_args organization_id PlatformJobType.NOTIFICATION_DELIVERY (ne_id n) (delivery_key n))
                     \<lparr>eq_payload := Some [(''notification_event_id'', JStr (uuid_str (ne_id n)))],
                      eq_actor_user_id := Some actor\<rparr>)
                    new_id new_correlation now d of
               (Inl e, d') \<Rightarrow> raise e d
             | (Inr (job, created), d') \<Rightarrow>
                 (case flush_event (n\<lparr>ne_scheduled_at := Some now\<rparr>) d' of
                    Inl e \<Rightarrow> raise e d
                  | Inr d2 \<Rightarrow> return job d2)))"

section \<open>The handlers\<close>

definition require_approve :: "uuid \<Rightarrow> uuid \<Rightarrow> (db \<Rightarrow> (db, 'a) outcome) \<Rightarrow> db \<Rightarrow> (db, 'a) outcome" where
  "require_approve organization_id user operation d =
     (case require_capability organization_id user NOTIFICATIONS_APPROVE d of
        Inl e \<Rightarrow> raise e d
      | Inr _ \<Rightarrow> operation d)"

definition approve_notification ::
    "NotificationService \<Rightarrow> uuid \<Rightarrow> uuid \<Rightarrow> uuid \<Rightarrow> instant \<Rightarrow> db \<Rightarrow> (db, NotificationEvent) outcome" where
  "approve_notification ns organization_id event_id user now =
     require_approve organization_id user (approve_event ns organization_id event_id user now)"

definition revoke_notification_approval ::
    "uuid \<Rightarrow> uuid \<Rightarrow> uuid \<Rightarrow> db \<Rightarrow> (db, NotificationEvent) outcome" where
  "revoke_notification_approval organization_id event_id user =
     require_approve organization_id user (revoke_event_approval organization_id event_id user)"

definition deliver_notification ::
    "uuid \<Rightarrow> uuid \<Rightarrow> uuid \<Rightarrow> uuid \<Rightarrow> uuid \<Rightarrow> instant \<Rightarrow> db \<Rightarrow> (db, PlatformJob) outcome" where
  "deliver_notification organization_id event_id user new_id new_correlation now =
     require_approve organization_id user
       (enqueue_delivery organization_id event_id user new_id new_correlation now)"

section \<open>Lemmas on events\<close>

definition event_ok :: "db \<Rightarrow> NotificationEvent \<Rightarrow> bool" where
  "event_ok d n =
     (notification_constraints n \<and>
      (ne_status n \<in> {NotificationStatus.PENDING_APPROVAL, NotificationStatus.APPROVED} \<longrightarrow>
         ne_attempt_count n < MAX_DELIVERY_ATTEMPTS) \<and>
      map na_attempt_number (filter (\<lambda>a. na_notification_event_id a = ne_id n) (delivery_attempts d)) =
        [1..ne_attempt_count n])"

definition events_ok :: "db \<Rightarrow> bool" where
  "events_ok d =
     (keys_distinct ne_id (notification_events d) \<and> notification_unique (notification_events d) \<and>
      delivery_attempts_ok (delivery_attempts d) \<and>
      (\<forall>a \<in> set (delivery_attempts d). na_notification_event_id a \<in> ne_id ` set (notification_events d)) \<and>
      (\<forall>n \<in> set (notification_events d). event_ok d n))"

lemmas event_rules = event_ok_def notification_constraints_def notification_status_lifecycle_def MAX_DELIVERY_ATTEMPTS_def

text \<open>A rewriting of a row keeps the columns of the deduplication index.\<close>

definition same_event :: "NotificationEvent \<Rightarrow> NotificationEvent \<Rightarrow> bool" where
  "same_event n n' =
     (ne_id n' = ne_id n \<and> ne_organization_id n' = ne_organization_id n \<and>
      ne_source_event_type n' = ne_source_event_type n \<and> ne_source_resource_id n' = ne_source_resource_id n \<and>
      ne_channel n' = ne_channel n \<and> ne_template_key n' = ne_template_key n \<and>
      ne_payload_hash n' = ne_payload_hash n \<and> ne_destination_reference n' = ne_destination_reference n)"

lemma rewritten_events [simp]:
  "same_event n (approve_event_row ns u now n)" "same_event n (revoke_event_row n)"
  "same_event n (n\<lparr>ne_scheduled_at := t\<rparr>)" "same_event n (finish_delivery ns r now (n\<lparr>ne_attempt_count := c\<rparr>))"
  by (simp_all add: same_event_def approve_event_row_def revoke_event_row_def finish_delivery_def)

lemma flush_event_frame:
  "flush_event n d = Inr d' \<Longrightarrow> d' = d\<lparr>notification_events := put_row ne_id n (notification_events d)\<rparr> \<and>
     notification_constraints n \<and> notification_unique (notification_events d')"
  by (auto simp: flush_event_def Let_def split: if_splits)

lemma get_event_row:
  assumes "keys_distinct ne_id (notification_events d)" and "get_event org i d = Inr n"
  shows "get_row ne_id i (notification_events d) = Some n" and "ne_id n = i" and "ne_organization_id n = org"
proof -
  have f: "find (\<lambda>n. ne_id n = i \<and> ne_organization_id n = org) (notification_events d) = Some n"
    using assms(2) by (auto simp: get_event_def split: option.splits)
  from find_mem [OF f] show "ne_id n = i" and "ne_organization_id n = org" by auto
  with find_eq_get_row [OF assms(1) f] show "get_row ne_id i (notification_events d) = Some n" by simp
qed

lemma get_row_get_event:
  assumes "keys_distinct ne_id (notification_events d)" and "get_row ne_id i (notification_events d) = Some n"
  shows "get_event (ne_organization_id n) i d = Inr n"
proof -
  let ?p = "\<lambda>k. ne_id k = i \<and> ne_organization_id k = ne_organization_id n"
  obtain k where k: "find ?p (notification_events d) = Some k"
    using get_row_mem [OF assms(2)] by (cases "find ?p (notification_events d)") (auto simp: find_None_iff)
  with find_eq_get_row [OF assms(1) k] find_mem [OF k] assms(2) show ?thesis by (simp add: get_event_def)
qed

lemma events_okD:
  assumes "events_ok d" and "get_event org i d = Inr n"
  shows "keys_distinct ne_id (notification_events d)" and "notification_unique (notification_events d)"
    and "get_row ne_id (ne_id n) (notification_events d) = Some n" and "event_ok d n"
    and "ne_id n = i" and "ne_organization_id n = org" and "n \<in> set (notification_events d)"
proof -
  show kd: "keys_distinct ne_id (notification_events d)" and "notification_unique (notification_events d)"
    using assms(1) by (simp_all add: events_ok_def)
  note row = get_event_row [OF kd assms(2)]
  show "get_row ne_id (ne_id n) (notification_events d) = Some n" "ne_id n = i" "ne_organization_id n = org"
    using row by simp_all
  show "n \<in> set (notification_events d)" using get_row_in [OF row(1)] .
  then show "event_ok d n" using assms(1) by (simp add: events_ok_def)
qed

lemma flush_event_succeeds:
  assumes "events_ok d" and "get_event org i d = Inr n" and "same_event n n'" and "notification_constraints n'"
  shows "flush_event n' d = Inr (d\<lparr>notification_events := put_row ne_id n' (notification_events d)\<rparr>)"
proof -
  note ok = events_okD [OF assms(1,2)]
  have g: "get_row ne_id (ne_id n') (notification_events d) = Some n"
    using ok(3) assms(3) by (simp add: same_event_def)
  have "notification_unique (put_row ne_id n' (notification_events d))"
    using ok(2) assms(3) unfolding notification_unique_def
    by (intro unique_on_put_row [OF ok(1) g]) (simp_all add: same_event_def)
  with assms(4) show ?thesis by (simp add: flush_event_def Let_def)
qed

lemma get_event_put:
  assumes "events_ok d" and "get_event org i d = Inr n" and "same_event n n'"
    and "notification_events d' = put_row ne_id n' (notification_events d)"
  shows "get_event org i d' = Inr n'"
proof -
  note ok = events_okD [OF assms(1,2)]
  have "get_row ne_id i (notification_events d') = Some n'"
    using ok(3,5) assms(3,4) by (simp add: same_event_def get_put_row)
  with get_row_get_event [of d' i n'] ok assms(3,4) show ?thesis by (simp add: same_event_def)
qed

text \<open>The invariant after a row was rewritten without a delivery.\<close>

lemma put_event_ok:
  assumes "events_ok d" and "get_event org i d = Inr n" and "same_event n n'"
    and "ne_attempt_count n' = ne_attempt_count n" and "notification_constraints n'"
    and "ne_status n' \<in> {NotificationStatus.PENDING_APPROVAL, NotificationStatus.APPROVED}"
    and "ne_status n \<in> {NotificationStatus.PENDING_APPROVAL, NotificationStatus.APPROVED}"
    and "notification_events d' = put_row ne_id n' (notification_events d)"
    and "delivery_attempts d' = delivery_attempts d"
  shows "events_ok d'"
proof -
  note ok = events_okD [OF assms(1,2)]
  have u: "notification_unique (notification_events d')"
    using flush_event_frame [OF flush_event_succeeds [OF assms(1,2,3,5)]] assms(8) by simp
  have "event_ok d' x" if "x \<in> set (notification_events d')" for x
  proof (cases "x = n'")
    case True
    with assms ok(4) show ?thesis by (auto simp: event_ok_def same_event_def)
  next
    case False
    with that assms(8) have "x \<in> set (notification_events d)" by (auto dest: set_put_row)
    with assms(1,9) show ?thesis by (simp add: events_ok_def event_ok_def)
  qed
  moreover have "ne_id ` set (notification_events d') = ne_id ` set (notification_events d)"
    unfolding assms(8) by (rule event_table.same_keys)
  ultimately show ?thesis
    using assms(1,8,9) u by (simp add: events_ok_def)
qed


lemma enqueue_events:
  "enqueue rq i c now d = (x, d') \<Longrightarrow> notification_events d' = notification_events d \<and>
     delivery_attempts d' = delivery_attempts d"
  using platform_queue.enq_frame by fastforce

section \<open>Lemmas on deliveries\<close>

lemma deliver_cases:
  assumes "deliver ns org i now d = (Inr (n', result), d')"
  obtains n recipients d1 n1 where "get_event org i d = Inr n" "ne_status n = NotificationStatus.APPROVED"
    "ne_approved_delivery_fingerprint n = Some (delivery_fingerprint ns n)" "recipients_for_event n d = Inr recipients"
    "n1 = n\<lparr>ne_attempt_count := ne_attempt_count n + 1\<rparr>" "n' = finish_delivery ns result now n1"
    "flush_event n' (d\<lparr>delivery_attempts := delivery_attempts d @
       [delivery_evidence ns org n1 recipients (email_content ns n d) result now]\<rparr>) = Inr d1"
    "delivery_attempts_ok (delivery_attempts d @ [delivery_evidence ns org n1 recipients (email_content ns n d) result now])"
    "notification_events d' = notification_events d1" "delivery_attempts d' = delivery_attempts d1"
  using assms by (auto simp: deliver_def Let_def split: sum.splits if_splits)

lemma finish_delivery_constraints:
  assumes "event_ok d n" and "ne_status n = NotificationStatus.APPROVED"
  shows "notification_constraints (finish_delivery ns result now (n\<lparr>ne_attempt_count := ne_attempt_count n + 1\<rparr>))"
    and "ne_attempt_count n + 1 \<le> MAX_DELIVERY_ATTEMPTS"
  using assms by (auto simp: finish_delivery_def event_rules)

lemma next_attempt_unique:
  assumes "events_ok d" and "get_event org i d = Inr n" and "ne_status n = NotificationStatus.APPROVED"
    and "na_notification_event_id ev = ne_id n" and "na_attempt_number ev = ne_attempt_count n + 1"
  shows "delivery_attempts_ok (delivery_attempts d @ [ev])"
proof -
  note ok = events_okD [OF assms(1,2)]
  let ?mine = "filter (\<lambda>a. na_notification_event_id a = ne_id n) (delivery_attempts d)"
  have "na_attempt_number a \<noteq> ne_attempt_count n + 1"
    if "a \<in> set (delivery_attempts d)" "na_notification_event_id a = ne_id n" for a
  proof -
    from that have "na_attempt_number a \<in> set (map na_attempt_number ?mine)" by auto
    also have "map na_attempt_number ?mine = [1..ne_attempt_count n]" using ok(4) by (simp add: event_ok_def)
    finally show ?thesis by simp
  qed
  moreover have "1 \<le> na_attempt_number ev" "na_attempt_number ev \<le> 20"
    using ok(4) assms(3,5) by (auto simp: event_rules)
  ultimately show ?thesis
    using assms(1,4,5) by (auto simp: events_ok_def delivery_attempts_ok_def unique_on_snoc)
qed

lemma deliver_event_ok:
  assumes "events_ok d" and "deliver ns org i now d = (Inr (n', result), d')"
  shows "events_ok d'"
proof -
  obtain n recipients d1 n1 where n: "get_event org i d = Inr n" "ne_status n = NotificationStatus.APPROVED"
    "n1 = n\<lparr>ne_attempt_count := ne_attempt_count n + 1\<rparr>" "n' = finish_delivery ns result now n1"
    "flush_event n' (d\<lparr>delivery_attempts := delivery_attempts d @
       [delivery_evidence ns org n1 recipients (email_content ns n d) result now]\<rparr>) = Inr d1"
    "delivery_attempts_ok (delivery_attempts d @ [delivery_evidence ns org n1 recipients (email_content ns n d) result now])"
    "notification_events d' = notification_events d1" "delivery_attempts d' = delivery_attempts d1"
    by (rule deliver_cases [OF assms(2)])
  note ok = events_okD [OF assms(1) n(1)]
  note fl = flush_event_frame [OF n(5)]
  let ?ev = "delivery_evidence ns org n1 recipients (email_content ns n d) result now"
  have ev: "na_notification_event_id ?ev = ne_id n" "na_attempt_number ?ev = ne_attempt_count n + 1"
    by (simp_all add: delivery_evidence_def n(3))
  have same: "same_event n n'" unfolding n(4,3) by simp
  have d': "notification_events d' = put_row ne_id n' (notification_events d)"
      "delivery_attempts d' = delivery_attempts d @ [?ev]"
    using fl n(7,8) by simp_all
  have count: "ne_attempt_count n' = ne_attempt_count n + 1" by (simp add: n(3,4) finish_delivery_def)
  have nonneg: "0 \<le> ne_attempt_count n" using ok(4) by (simp add: event_rules)
  have "event_ok d' x" if x: "x \<in> set (notification_events d')" for x
  proof (cases "ne_id x = ne_id n")
    case True
    with x d'(1) same have "x = n'" by (auto simp: same_event_def dest!: set_put_row)
    moreover have "[1..ne_attempt_count n + 1] = [1..ne_attempt_count n] @ [ne_attempt_count n + 1]"
      using nonneg by (simp add: upto_rec2)
    ultimately show ?thesis
      using ok(4) n(2) d'(2) ev same count
      by (auto simp: event_rules n(3,4) finish_delivery_def same_event_def)
  next
    case False
    with x d'(1) same have "x \<in> set (notification_events d)" by (auto simp: same_event_def dest: set_put_row)
    with assms(1) d'(2) ev False show ?thesis by (simp add: events_ok_def event_ok_def)
  qed
  moreover have "ne_id ` set (notification_events d') = ne_id ` set (notification_events d)"
    unfolding d'(1) by (rule event_table.same_keys)
  ultimately show ?thesis
    using assms(1) d' ev ok(7) fl n(6,7) by (auto simp: events_ok_def)
qed

lemma deliver_by_steps:
  assumes "events_ok d" and "get_event org i d = Inr n" and "ne_status n = NotificationStatus.APPROVED"
    and "ne_approved_delivery_fingerprint n = Some (delivery_fingerprint ns n)"
    and "recipients_for_event n d = Inr recipients"
    and "np_deliver (ns_provider ns)
           \<lparr>dc_channel = ne_channel n, dc_destination_reference = ne_destination_reference n,
            dc_recipients = recipients, dc_subject = fst (email_content ns n d),
            dc_text_body = snd (email_content ns n d), dc_template_key = ne_template_key n\<rparr> = Inr result"
  shows "\<exists>ev d'. deliver ns org i now d =
      (Inr (finish_delivery ns result now (n\<lparr>ne_attempt_count := ne_attempt_count n + 1\<rparr>), result), d') \<and>
    na_notification_event_id ev = i \<and> na_attempt_number ev = ne_attempt_count n + 1 \<and>
    delivery_attempts d' = delivery_attempts d @ [ev] \<and>
    notification_events d' = put_row ne_id
      (finish_delivery ns result now (n\<lparr>ne_attempt_count := ne_attempt_count n + 1\<rparr>)) (notification_events d)"
proof -
  note ok = events_okD [OF assms(1,2)]
  let ?n1 = "n\<lparr>ne_attempt_count := ne_attempt_count n + 1\<rparr>"
  let ?n2 = "finish_delivery ns result now ?n1"
  let ?ev = "delivery_evidence ns org ?n1 recipients (email_content ns n d) result now"
  let ?d = "d\<lparr>delivery_attempts := delivery_attempts d @ [?ev]\<rparr>"
  have at: "delivery_attempts_ok (delivery_attempts d @ [?ev])"
    by (rule next_attempt_unique [OF assms(1-3)]) (simp_all add: delivery_evidence_def)
  have "flush_event ?n2 d = Inr (d\<lparr>notification_events := put_row ne_id ?n2 (notification_events d)\<rparr>)"
    by (rule flush_event_succeeds [OF assms(1,2)]) (use finish_delivery_constraints(1) [OF ok(4) assms(3)] in simp_all)
  then have "flush_event ?n2 ?d = Inr (?d\<lparr>notification_events := put_row ne_id ?n2 (notification_events d)\<rparr>)"
    by (simp add: flush_event_def Let_def split: if_splits)
  then have "\<exists>d'. deliver ns org i now d = (Inr (?n2, result), d') \<and> delivery_attempts d' = delivery_attempts d @ [?ev] \<and>
      notification_events d' = put_row ne_id ?n2 (notification_events d)"
    using assms(2-6) at by (simp add: deliver_def Let_def)
  moreover have "na_notification_event_id ?ev = i" "na_attempt_number ?ev = ne_attempt_count n + 1"
    using ok(5) by (simp_all add: delivery_evidence_def)
  ultimately show ?thesis by blast
qed

section \<open>The system of events\<close>

definition event_closed :: "NotificationEvent \<Rightarrow> bool" where
  "event_closed n = (ne_status n \<in> {NotificationStatus.DELIVERED, NotificationStatus.FAILED})"

text \<open>The state \<open>d'\<close> continues \<open>d\<close>: closed events and recorded attempts stay.\<close>

definition events_continue :: "db \<Rightarrow> db \<Rightarrow> bool" where
  "events_continue d d' =
     (events_ok d' \<and> (\<forall>n \<in> set (notification_events d). event_closed n \<longrightarrow> n \<in> set (notification_events d')) \<and>
      (\<exists>es. delivery_attempts d' = delivery_attempts d @ es))"

inductive notification_step :: "db \<Rightarrow> db \<Rightarrow> bool" where
  step_create: "i \<notin> ne_id ` set (notification_events d) \<Longrightarrow>
    notification_step d (snd (create_for_critical_finding sha256 finding i now d))"
| step_approve: "notification_step d (snd (approve_notification ns org i u now d))"
| step_revoke: "notification_step d (snd (revoke_notification_approval org i u d))"
| step_queue: "notification_step d (snd (deliver_notification org i u new c now d))"
| step_deliver: "notification_step d (snd (deliver ns org i now d))"

inductive_cases notification_stepE: "notification_step d d'"

lemma continue_same: "events_ok d \<Longrightarrow> events_continue d d"
  by (simp add: events_continue_def)

lemma continue_put:
  assumes "events_ok d" and "get_event org i d = Inr n" and "\<not> event_closed n" and "same_event n n'"
    and "notification_events d' = put_row ne_id n' (notification_events d)"
    and "\<exists>es. delivery_attempts d' = delivery_attempts d @ es" and "events_ok d'"
  shows "events_continue d d'"
proof -
  note ok = events_okD [OF assms(1,2)]
  have "x \<in> set (notification_events d')" if "x \<in> set (notification_events d)" "event_closed x" for x
  proof -
    have "ne_id x \<noteq> ne_id n"
      using get_row_distinct [OF ok(1) that(1)] ok(3) that(2) assms(3) by (metis option.inject)
    moreover have "ne_id n' = ne_id n" using assms(4) by (simp only: same_event_def)
    ultimately have "ne_id x \<noteq> ne_id n'" by (simp only: not_False_eq_True)
    then show ?thesis unfolding assms(5) by (rule in_put_row_other [OF that(1)])
  qed
  with assms(6,7) show ?thesis by (simp add: events_continue_def)
qed

lemma create_continues:
  assumes "events_ok d" and "i \<notin> ne_id ` set (notification_events d)"
  shows "events_continue d (snd (create_for_critical_finding sha256 finding i now d))"
proof (cases "snd (create_for_critical_finding sha256 finding i now d) = d")
  case True
  then show ?thesis using assms(1) continue_same by simp
next
  case False
  let ?n = "critical_event sha256 finding i now"
  let ?d = "snd (create_for_critical_finding sha256 finding i now d)"
  from False have d': "notification_events ?d = notification_events d @ [?n]" "delivery_attempts ?d = delivery_attempts d"
      "notification_constraints ?n" "notification_unique (notification_events d @ [?n])"
    by (auto simp: create_for_critical_finding_def Let_def split: if_splits)
  have none: "filter (\<lambda>a. na_notification_event_id a = i) (delivery_attempts d) = []"
    using assms by (auto simp: events_ok_def filter_empty_conv)
  have n: "ne_id ?n = i" "ne_attempt_count ?n = 0" "ne_status ?n = NotificationStatus.PENDING_APPROVAL"
    by (simp_all add: critical_event_def)
  have "event_ok ?d ?n" using none n d'(2,3) by (simp add: event_ok_def MAX_DELIVERY_ATTEMPTS_def)
  moreover have "event_ok ?d x" if "x \<in> set (notification_events d)" for x
    using assms(1) that d'(2) by (simp add: events_ok_def event_ok_def)
  ultimately have "events_ok ?d"
    using assms d' n by (auto simp: events_ok_def keys_distinct_snoc)
  with d' show ?thesis by (simp add: events_continue_def)
qed

text \<open>The rewriting of an open event without a delivery.\<close>

lemma put_continues:
  assumes "events_ok d" and "get_event org i d = Inr n" and "same_event n n'" and "\<not> event_closed n"
    and "ne_attempt_count n' = ne_attempt_count n" and "notification_constraints n'" and "\<not> event_closed n'"
    and "notification_events d' = put_row ne_id n' (notification_events d)"
    and "delivery_attempts d' = delivery_attempts d"
  shows "events_continue d d'"
proof (rule continue_put [OF assms(1,2,4,3,8)])
  have open_event: "\<not> event_closed x \<Longrightarrow>
      ne_status x \<in> {NotificationStatus.PENDING_APPROVAL, NotificationStatus.APPROVED}" for x
    by (cases "ne_status x") (auto simp: event_closed_def)
  show "events_ok d'"
    by (rule put_event_ok [OF assms(1-3,5,6) open_event [OF assms(7)] open_event [OF assms(4)] assms(8,9)])
qed (use assms(9) in simp)

lemma approve_continues:
  assumes "events_ok d"
  shows "events_continue d (snd (approve_event ns org i u now d))"
proof (cases "snd (approve_event ns org i u now d) = d")
  case False
  then obtain n d' where n: "get_event org i d = Inr n" "ne_status n = NotificationStatus.PENDING_APPROVAL"
      "flush_event (approve_event_row ns u now n) d = Inr d'"
      "snd (approve_event ns org i u now d) = record_audit ''notification.event.approved'' ''notification_event''
         AuditResult.SUCCEEDED (Some org) (Some u) (Some (ne_id n)) d'"
    by (auto simp: approve_event_def split: sum.splits if_splits)
  note fl = flush_event_frame [OF n(3)]
  show ?thesis
    unfolding n(4) by (rule put_continues [OF assms n(1) rewritten_events(1)])
      (use fl n(2) in \<open>auto simp: approve_event_row_def event_closed_def\<close>)
qed (use assms continue_same in simp)

lemma revoke_continues:
  assumes "events_ok d"
  shows "events_continue d (snd (revoke_event_approval org i u d))"
proof (cases "snd (revoke_event_approval org i u d) = d")
  case False
  then obtain n d' where n: "get_event org i d = Inr n" "ne_status n = NotificationStatus.APPROVED"
      "flush_event (revoke_event_row n) d = Inr d'"
      "snd (revoke_event_approval org i u d) = record_audit ''notification.event.approval_revoked''
         ''notification_event'' AuditResult.SUCCEEDED (Some org) (Some u) (Some (ne_id n)) d'"
    by (auto simp: revoke_event_approval_def split: sum.splits if_splits)
  note fl = flush_event_frame [OF n(3)]
  show ?thesis
    unfolding n(4) by (rule put_continues [OF assms n(1) rewritten_events(2)])
      (use fl n(2) in \<open>auto simp: revoke_event_row_def event_closed_def\<close>)
qed (use assms continue_same in simp)

lemma queue_continues:
  assumes "events_ok d"
  shows "events_continue d (snd (enqueue_delivery org i u new c now d))"
proof (cases "snd (enqueue_delivery org i u new c now d) = d")
  case False
  then obtain n rq job b d' d2 where n: "get_event org i d = Inr n" "ne_status n = NotificationStatus.APPROVED"
      "enqueue rq new c now d = (Inr (job, b), d')" "flush_event (n\<lparr>ne_scheduled_at := Some now\<rparr>) d' = Inr d2"
      "snd (enqueue_delivery org i u new c now d) = d2"
    by (auto simp: enqueue_delivery_def split: sum.splits if_splits prod.splits)
  note fr = enqueue_events [OF n(3)]
  note fl = flush_event_frame [OF n(4)]
  have "notification_constraints (n\<lparr>ne_scheduled_at := Some now\<rparr>)"
    using events_okD(4) [OF assms n(1)] by (simp add: event_rules)
  then show ?thesis
    unfolding n(5) by (intro put_continues [OF assms n(1) rewritten_events(3)])
      (use fr fl n(2) in \<open>auto simp: event_closed_def\<close>)
qed (use assms continue_same in simp)

lemma deliver_continues:
  assumes "events_ok d"
  shows "events_continue d (snd (deliver ns org i now d))"
proof (cases "fst (deliver ns org i now d)")
  case (Inl e)
  then have "snd (deliver ns org i now d) = d" by (auto simp: deliver_def Let_def split: sum.splits if_splits)
  then show ?thesis using assms continue_same by simp
next
  case (Inr nr)
  then obtain n' result d' where del: "deliver ns org i now d = (Inr (n', result), d')"
    by (cases nr; cases "deliver ns org i now d") auto
  then obtain n recipients d1 n1 where n: "get_event org i d = Inr n" "ne_status n = NotificationStatus.APPROVED"
    "n1 = n\<lparr>ne_attempt_count := ne_attempt_count n + 1\<rparr>" "n' = finish_delivery ns result now n1"
    "flush_event n' (d\<lparr>delivery_attempts := delivery_attempts d @
       [delivery_evidence ns org n1 recipients (email_content ns n d) result now]\<rparr>) = Inr d1"
    "notification_events d' = notification_events d1" "delivery_attempts d' = delivery_attempts d1"
    by (rule deliver_cases)
  have same: "same_event n n'" unfolding n(3,4) by simp
  have "events_continue d d'"
    by (rule continue_put [OF assms n(1) _ same])
      (use n flush_event_frame [OF n(5)] deliver_event_ok [OF assms del] in \<open>auto simp: event_closed_def\<close>)
  with del show ?thesis by simp
qed

lemma require_approve_continues:
  assumes "events_ok d" and "events_continue d (snd (operation d))"
  shows "events_continue d (snd (require_approve org u operation d))"
  using assms by (auto simp: require_approve_def continue_same split: sum.splits)

lemma notification_step_continues:
  assumes "notification_step d d'" and "events_ok d"
  shows "events_continue d d'"
  using assms
  by (elim notification_stepE)
    (auto simp: approve_notification_def revoke_notification_approval_def deliver_notification_def
      intro!: create_continues require_approve_continues approve_continues revoke_continues queue_continues
        deliver_continues)

lemma continue_trans: "events_continue d0 d \<Longrightarrow> events_continue d d' \<Longrightarrow> events_continue d0 d'"
  by (auto simp: events_continue_def)

interpretation notification_system: transition_system notification_step "events_continue d0" for d0
proof
  fix s t
  assume st: "notification_step s t" and c: "events_continue d0 s"
  then have "events_ok s" by (simp add: events_continue_def)
  with continue_trans [OF c] notification_step_continues [OF st] show "events_continue d0 t" by blast
qed

section \<open>Lemmas on recipients\<close>

lemma dedupe_recipients_Inr:
  "dedupe_recipients seen rs = Inr ds \<Longrightarrow>
     distinct (map casefold ds) \<and> set (map casefold ds) \<inter> set seen = {} \<and>
     (\<forall>e \<in> set ds. EMAIL_RE e \<and> e \<in> strip ` set rs) \<and>
     (\<forall>r \<in> set rs. casefold (strip r) \<in> set seen \<or> (\<exists>e \<in> set ds. casefold e = casefold (strip r)))"
proof (induction seen rs arbitrary: ds rule: dedupe_recipients.induct)
  case (1 seen)
  then show ?case by simp
next
  case (2 seen recipient rest)
  show ?case
  proof (cases "casefold (strip recipient) \<in> set seen")
    case True
    with "2.prems" have rest: "dedupe_recipients seen rest = Inr ds" "EMAIL_RE (strip recipient)"
      by (auto simp: Let_def split: if_splits)
    have "distinct (map casefold ds) \<and> set (map casefold ds) \<inter> set seen = {} \<and>
        (\<forall>e \<in> set ds. EMAIL_RE e \<and> e \<in> strip ` set rest) \<and>
        (\<forall>r \<in> set rest. casefold (strip r) \<in> set seen \<or> (\<exists>e \<in> set ds. casefold e = casefold (strip r)))"
      by (rule "2.IH"(1) [OF refl refl _ True rest(1)]) (simp add: rest(2))
    with True show ?thesis by auto
  next
    case False
    with "2.prems" obtain ds' where ds': "dedupe_recipients (casefold (strip recipient) # seen) rest = Inr ds'"
        "ds = strip recipient # ds'" "EMAIL_RE (strip recipient)"
      by (auto simp: Let_def split: if_splits sum.splits)
    have IH: "distinct (map casefold ds')" "set (map casefold ds') \<inter> set (casefold (strip recipient) # seen) = {}"
        "\<forall>e \<in> set ds'. EMAIL_RE e \<and> e \<in> strip ` set rest"
        "\<forall>r \<in> set rest. casefold (strip r) \<in> set (casefold (strip recipient) # seen) \<or>
           (\<exists>e \<in> set ds'. casefold e = casefold (strip r))"
      using "2.IH"(2) [OF refl refl _ False ds'(1)] ds'(3) by blast+
    then show ?thesis using False ds'(2,3) by auto
  qed
qed

section \<open>A sample event\<close>

definition sample_notifier :: NotificationService where
  "sample_notifier = \<lparr>ns_sha256 = (\<lambda>s. ''digest''), ns_provider = MockNotificationProvider ''success'' 0,
     ns_frontend_url = ''https://app''\<rparr>"

definition sample_user :: User where
  "sample_user = \<lparr>u_id = 7, u_email = ''Owner@Example.com'', u_normalized_email = ''owner@example.com'',
     u_password_hash = ''hash'', u_full_name = ''Owner'', u_status = UserStatus.ACTIVE, u_is_platform_admin = False,
     u_email_verified_at = None, u_last_login_at = None\<rparr>"

definition critical_finding :: Finding where
  "critical_finding =
     \<lparr>f_id = 60, f_organization_id = 2, f_aws_account_id = 3, f_asset_id = Some 50, f_rule_key = ''RULE'',
      f_rule_version = 1, f_severity = FindingSeverity.CRITICAL, f_category = ''network'',
      f_status = FindingStatus.OPEN, f_evidence_json = JDict [], f_first_seen_at = 0, f_last_seen_at = 10,
      f_resolved_at = None, f_suppressed_at = None, f_suppressed_until = None, f_suppression_reason = None,
      f_suppressed_by_user_id = None, f_last_evaluation_id = 70, f_lifecycle_version = 1\<rparr>"

definition sample_event :: NotificationEvent where
  "sample_event = approve_event_row sample_notifier 7 1000 (critical_event (\<lambda>s. ''digest'') critical_finding 400 900)"

definition sample_events :: db where
  "sample_events = sample_org\<lparr>users := [sample_user], notification_events := [sample_event]\<rparr>"

lemma sample_event_fields [simp]:
  "ne_id sample_event = 400" "ne_organization_id sample_event = 2" "ne_status sample_event = NotificationStatus.APPROVED"
  "ne_attempt_count sample_event = 0" "ne_source_resource_id sample_event = 60"
  "ne_approved_delivery_fingerprint sample_event = Some ''digest''"
  by (simp_all add: sample_event_def approve_event_row_def critical_event_def critical_finding_def
      delivery_fingerprint_def sample_notifier_def)

lemma sample_tables [simp]:
  "notification_events sample_events = [sample_event]" "delivery_attempts sample_events = []"
  "users sample_events = [sample_user]" "findings sample_events = []" "memberships sample_events = memberships sample_org"
  by (simp_all add: sample_events_def sample_org_def empty_db_def)

lemma sample_events_ok: "events_ok sample_events"
proof -
  have "notification_constraints sample_event"
    by (simp add: event_rules sample_event_def approve_event_row_def critical_event_def)
  then show ?thesis
    by (simp add: events_ok_def event_ok_def notification_unique_def delivery_attempts_ok_def MAX_DELIVERY_ATTEMPTS_def)
qed

lemma sample_get_event: "get_event 2 400 sample_events = Inr sample_event"
  by (simp add: get_event_def)

lemma sample_recipients: "recipients_for_event sample_event sample_events = Inr [''Owner@Example.com'']"
proof -
  have "administrators 2 sample_events = [sample_user]"
    by (simp add: administrators_def sample_org_def sample_user_def)
  moreover have "evaluation_actor sample_event sample_events = []" by (simp add: evaluation_actor_def)
  moreover have "strip ''Owner@Example.com'' = ''Owner@Example.com''" by (simp add: strip_def is_space_def)
  moreover have "EMAIL_RE ''Owner@Example.com''"
    by (simp add: EMAIL_RE_def is_space_def upt_rec)
  ultimately show ?thesis by (simp add: recipients_for_event_def sample_user_def Let_def)
qed

section \<open>Properties\<close>

text \<open>
  C16. Deliveries leave complete evidence and closed events never reopen: whatever sequence of
  creations, approvals, withdrawals, queueings and deliveries runs, every event has exactly the
  delivery attempts number 1 up to its attempt count, at most three, recorded attempts are never
  changed, and an event that was delivered or failed stays exactly as it was.
\<close>

theorem delivery_history:
  assumes "events_ok d" and "notification_step\<^sup>*\<^sup>* d d'" and "n \<in> set (notification_events d')"
  shows "map na_attempt_number (filter (\<lambda>a. na_notification_event_id a = ne_id n) (delivery_attempts d')) =
      [1..ne_attempt_count n] \<and> ne_attempt_count n \<le> 3 \<and>
    (\<exists>es. delivery_attempts d' = delivery_attempts d @ es) \<and>
    (\<forall>k \<in> set (notification_events d). ne_status k \<in> {NotificationStatus.DELIVERED, NotificationStatus.FAILED} \<longrightarrow>
       k \<in> set (notification_events d'))"
proof -
  have "events_continue d d'"
    by (rule notification_system.inv_reachable [OF assms(2) continue_same [OF assms(1)]])
  with assms(3) show ?thesis
    by (auto simp: events_continue_def events_ok_def event_ok_def notification_constraints_def event_closed_def)
qed

theorem delivery_history_witness:
  "\<exists>n. notification_events (snd (revoke_notification_approval 2 400 7 sample_events)) = [n] \<and>
     map na_attempt_number (filter (\<lambda>a. na_notification_event_id a = ne_id n)
       (delivery_attempts (snd (revoke_notification_approval 2 400 7 sample_events)))) = [1..ne_attempt_count n]"
proof -
  let ?d = "snd (revoke_notification_approval 2 400 7 sample_events)"
  have st: "notification_step\<^sup>*\<^sup>* sample_events ?d" by (intro r_into_rtranclp step_revoke)
  have "events_continue sample_events ?d"
    by (rule notification_system.inv_reachable [OF st continue_same [OF sample_events_ok]])
  have "notification_constraints (revoke_event_row sample_event)"
    by (simp add: event_rules revoke_event_row_def sample_event_def approve_event_row_def critical_event_def)
  then have "notification_events ?d = [revoke_event_row sample_event]"
    by (simp add: revoke_notification_approval_def require_approve_def revoke_event_approval_def sample_get_event
        flush_event_def notification_unique_def require_capability_def require_member_def active_membership_def
        sample_org_def revoke_event_row_def Let_def)
  with delivery_history [OF sample_events_ok st] show ?thesis by simp
qed

text \<open>
  A delivery is gated and its outcome is exact: for an approved event whose fingerprint is
  still the approved one, with valid recipients, whatever the provider reports is recorded as the
  next attempt. Success closes the event, a permanent failure or the third failure fails it, any
  other failure leaves it approved for a retry, and a closed event is never delivered again. An
  event whose fingerprint differs, for example because the provider was changed, is refused
  without calling the provider.
\<close>

theorem delivery_outcome:
  assumes "events_ok d" and "get_event org i d = Inr n" and "ne_status n = NotificationStatus.APPROVED"
    and "recipients_for_event n d = Inr recipients"
    and "np_deliver (ns_provider ns)
           \<lparr>dc_channel = ne_channel n, dc_destination_reference = ne_destination_reference n,
            dc_recipients = recipients, dc_subject = fst (email_content ns n d),
            dc_text_body = snd (email_content ns n d), dc_template_key = ne_template_key n\<rparr> = Inr result"
  shows "if ne_approved_delivery_fingerprint n \<noteq> Some (delivery_fingerprint ns n)
    then deliver ns org i now d = raise (ConflictError ''notification_approval_stale'') d
    else \<exists>n' d' ev. deliver ns org i now d = (Inr (n', result), d') \<and> get_event org i d' = Inr n' \<and>
      delivery_attempts d' = delivery_attempts d @ [ev] \<and> na_notification_event_id ev = i \<and>
      na_attempt_number ev = ne_attempt_count n' \<and> ne_attempt_count n' = ne_attempt_count n + 1 \<and>
      ne_attempt_count n' \<le> 3 \<and>
      ne_status n' = (if nr_outcome result = SUCCESS then NotificationStatus.DELIVERED
        else if \<not> nr_retryable result \<or> ne_attempt_count n' = 3 then NotificationStatus.FAILED
        else NotificationStatus.APPROVED) \<and>
      (ne_status n' \<noteq> NotificationStatus.APPROVED \<longrightarrow>
         (\<forall>ns' t. deliver ns' org i t d' = raise (ConflictError ''notification_event_invalid_transition'') d'))"
proof (cases "ne_approved_delivery_fingerprint n = Some (delivery_fingerprint ns n)")
  case False
  with assms(2,3) show ?thesis by (simp add: deliver_def)
next
  case True
  note ok = events_okD [OF assms(1,2)]
  define n' where "n' = finish_delivery ns result now (n\<lparr>ne_attempt_count := ne_attempt_count n + 1\<rparr>)"
  obtain ev d' where d': "deliver ns org i now d = (Inr (n', result), d')"
      "na_notification_event_id ev = i" "na_attempt_number ev = ne_attempt_count n + 1"
      "delivery_attempts d' = delivery_attempts d @ [ev]"
      "notification_events d' = put_row ne_id n' (notification_events d)"
    using deliver_by_steps [OF assms(1-3) True assms(4,5)] unfolding n'_def by blast
  have get: "get_event org i d' = Inr n'"
    by (rule get_event_put [OF assms(1,2) _ d'(5)]) (simp add: n'_def)
  have le: "ne_attempt_count n + 1 \<le> 3"
    using finish_delivery_constraints(2) [OF ok(4) assms(3)] by (simp add: MAX_DELIVERY_ATTEMPTS_def)
  have count: "ne_attempt_count n' = ne_attempt_count n + 1" by (simp add: n'_def finish_delivery_def)
  have status: "ne_status n' = (if nr_outcome result = SUCCESS then NotificationStatus.DELIVERED
        else if \<not> nr_retryable result \<or> ne_attempt_count n' = 3 then NotificationStatus.FAILED
        else NotificationStatus.APPROVED)"
    using assms(3) le unfolding count by (auto simp: n'_def finish_delivery_def MAX_DELIVERY_ATTEMPTS_def)
  have closed: "deliver ns' org i t d' = raise (ConflictError ''notification_event_invalid_transition'') d'"
    if "ne_status n' \<noteq> NotificationStatus.APPROVED" for ns' t
    using that get by (simp add: deliver_def)
  show ?thesis
    unfolding True using d'(1-4) get le count status closed by (auto intro!: exI [of _ ev])
qed

theorem delivery_outcome_witness:
  "\<exists>n' d' result. deliver sample_notifier 2 400 2000 sample_events = (Inr (n', result), d') \<and>
     ne_status n' = NotificationStatus.DELIVERED \<and> ne_attempt_count n' = 1"
proof -
  have p: "np_deliver (ns_provider sample_notifier)
      \<lparr>dc_channel = ne_channel sample_event, dc_destination_reference = ne_destination_reference sample_event,
       dc_recipients = [''Owner@Example.com''], dc_subject = fst (email_content sample_notifier sample_event sample_events),
       dc_text_body = snd (email_content sample_notifier sample_event sample_events),
       dc_template_key = ne_template_key sample_event\<rparr> = Inr (delivery_success None)"
    by (simp add: sample_notifier_def MockNotificationProvider_def mock_deliver_def Let_def)
  have f: "ne_approved_delivery_fingerprint sample_event = Some (delivery_fingerprint sample_notifier sample_event)"
    by (simp add: delivery_fingerprint_def sample_notifier_def)
  have s: "nr_outcome (delivery_success None) = SUCCESS" by (simp add: delivery_success_def)
  show ?thesis
    using delivery_outcome [OF sample_events_ok sample_get_event sample_event_fields(3) sample_recipients p, of 2000] f s
    by auto
qed

text \<open>
  One notification per critical finding: creation for a critical finding leaves exactly one
  event for it, whether it was there before or not, a repeated creation changes nothing, and a
  finding of another severity never creates one.
\<close>

theorem critical_event_once:
  assumes "notification_unique (notification_events d)" and "create_for_critical_finding sha256 f i now d = (created, d1)"
  shows "(f_severity f \<noteq> FindingSeverity.CRITICAL \<longrightarrow> created = None \<and> d1 = d) \<and>
    (f_severity f = FindingSeverity.CRITICAL \<longrightarrow>
      (\<exists>!n. n \<in> set (notification_events d1) \<and> ne_organization_id n = f_organization_id f \<and>
         ne_source_event_type n = ''security.finding.created'' \<and> ne_source_resource_id n = f_id f \<and>
         ne_channel n = NotificationChannel.EMAIL \<and> ne_template_key n = ''critical_finding_created'') \<and>
      (\<forall>i' t. create_for_critical_finding sha256 f i' t d1 = (None, d1)))"
proof (cases "f_severity f = FindingSeverity.CRITICAL")
  case False
  with assms(2) show ?thesis by (simp add: create_for_critical_finding_def)
next
  case True
  let ?c = "\<lambda>i t. critical_event sha256 f i t"
  let ?key = "\<lambda>n. (ne_organization_id n, ne_source_event_type n, ne_source_resource_id n, ne_channel n, ne_template_key n)"
  let ?k = "(f_organization_id f, ''security.finding.created'', f_id f, NotificationChannel.EMAIL,
    ''critical_finding_created'')"
  have key: "?key (?c j t) = ?k" and con: "notification_constraints (?c j t)" for j t
    by (simp_all add: critical_event_def CRITICAL_FINDING_EVENT_TYPE_def CRITICAL_FINDING_TEMPLATE_KEY_def event_rules)
  have insertable: "notification_unique (notification_events x @ [?c j t]) \<longleftrightarrow>
      notification_unique (notification_events x) \<and> (\<forall>n \<in> set (notification_events x). ?key n \<noteq> ?k)" for x j t
    unfolding notification_unique_def unique_on_snoc key by simp
  have u1: "notification_unique (notification_events d1)" and some: "\<exists>n \<in> set (notification_events d1). ?key n = ?k"
    using assms True con [of i now] key [of i now] insertable [of d i now]
    by (auto simp: create_for_critical_finding_def Let_def split: if_splits)
  have once: "\<exists>!n. n \<in> set (notification_events d1) \<and> ?key n = ?k"
    using some unique_onD [OF u1 [unfolded notification_unique_def]] by (intro ex_ex1I) auto
  have "create_for_critical_finding sha256 f i' t d1 = (None, d1)" for i' t
    using some insertable [of d1 i' t] True by (auto simp: create_for_critical_finding_def Let_def)
  with once True show ?thesis by simp
qed

theorem critical_event_once_witness:
  "create_for_critical_finding (\<lambda>s. s) critical_finding 401 0 sample_events = (None, sample_events)"
proof -
  have u: "notification_unique (notification_events (sample_org\<lparr>users := [sample_user]\<rparr>))"
    by (simp add: notification_unique_def sample_org_def empty_db_def)
  have u1: "notification_unique (notification_events sample_events)" by (simp add: notification_unique_def)
  obtain c d1 where c: "create_for_critical_finding (\<lambda>s. s) critical_finding 401 0 sample_events = (c, d1)"
    by (cases "create_for_critical_finding (\<lambda>s. s) critical_finding 401 0 sample_events") auto
  have "f_severity critical_finding = FindingSeverity.CRITICAL" by (simp add: critical_finding_def)
  with critical_event_once [OF u1 c] have "create_for_critical_finding (\<lambda>s. s) critical_finding 401 0 d1 = (None, d1)"
    by blast
  moreover have "d1 = sample_events"
    using c by (simp add: create_for_critical_finding_def critical_finding_def notification_unique_def
        critical_event_def sample_event_def approve_event_row_def Let_def)
  ultimately show ?thesis by simp
qed

text \<open>
  Who is notified: the recipients of a delivery are well-formed addresses without duplicates
  up to letter case, every active owner and admin with an active account is among them, and
  everyone among them is such an administrator or the active user who started the evaluation
  that last touched the finding, whether or not that user is still a member.
\<close>

theorem recipients_are_administrators:
  assumes "recipients_for_event n d = Inr rs"
  shows "rs \<noteq> [] \<and> distinct (map casefold rs) \<and> (\<forall>e \<in> set rs. EMAIL_RE e) \<and>
    (\<forall>m \<in> set (memberships d). \<forall>u \<in> set (users d).
       m_organization_id m = ne_organization_id n \<and> m_status m = MembershipStatus.ACTIVE \<and>
       m_role m \<in> {OrganizationRole.OWNER, OrganizationRole.ADMIN} \<and> u_id u = m_user_id m \<and>
       u_status u = UserStatus.ACTIVE \<longrightarrow> (\<exists>e \<in> set rs. casefold e = casefold (strip (u_email u)))) \<and>
    (\<forall>e \<in> set rs. \<exists>u \<in> set (administrators (ne_organization_id n) d @ evaluation_actor n d).
       e = strip (u_email u) \<and> u_status u = UserStatus.ACTIVE)"
proof -
  from assms have rs: "dedupe_recipients [] (map u_email (administrators (ne_organization_id n) d @ evaluation_actor n d)) = Inr rs"
    and ne: "rs \<noteq> []"
    by (auto simp: recipients_for_event_def split: sum.splits if_splits)
  have active: "u_status u = UserStatus.ACTIVE"
    if "u \<in> set (administrators (ne_organization_id n) d @ evaluation_actor n d)" for u
    using that by (auto simp: administrators_def evaluation_actor_def split: option.splits if_splits)
  have admin: "u \<in> set (administrators (ne_organization_id n) d)"
    if "m \<in> set (memberships d)" "u \<in> set (users d)" "m_organization_id m = ne_organization_id n"
      "m_status m = MembershipStatus.ACTIVE" "m_role m \<in> {OrganizationRole.OWNER, OrganizationRole.ADMIN}"
      "u_id u = m_user_id m" "u_status u = UserStatus.ACTIVE" for m u
    using that by (auto simp: administrators_def)
  note sound = dedupe_recipients_Inr [OF rs]
  have covered: "\<exists>e \<in> set rs. casefold e = casefold (strip (u_email u))"
    if "u \<in> set (administrators (ne_organization_id n) d)" for u
    using sound that by auto
  have origin: "\<exists>u \<in> set (administrators (ne_organization_id n) d @ evaluation_actor n d).
      e = strip (u_email u) \<and> u_status u = UserStatus.ACTIVE" if "e \<in> set rs" for e
    using sound that active by fastforce
  show ?thesis
    using ne sound covered admin origin by (intro conjI ballI impI) blast+
qed

theorem recipients_are_administrators_witness:
  "\<exists>e \<in> set [''Owner@Example.com'']. casefold e = casefold (strip (u_email sample_user))"
proof -
  note r = recipients_are_administrators [OF sample_recipients]
  have "hd (memberships sample_org) \<in> set (memberships sample_events)" by (simp add: sample_org_def)
  moreover have "sample_user \<in> set (users sample_events)" by simp
  moreover have "m_organization_id (hd (memberships sample_org)) = 2 \<and>
      m_status (hd (memberships sample_org)) = MembershipStatus.ACTIVE \<and>
      m_role (hd (memberships sample_org)) = OrganizationRole.OWNER \<and> u_id sample_user = m_user_id (hd (memberships sample_org)) \<and>
      u_status sample_user = UserStatus.ACTIVE"
    by (simp add: sample_org_def sample_user_def)
  ultimately show ?thesis using r by (simp only: sample_event_fields insert_iff) blast
qed



end
