(* ===== verification/Evaluations.thy ===== *)
theory Evaluations
  imports Security_Rules Accounts Notifications
begin

text \<open>
  The evaluation of an account's assets against the rules and the lifecycle of findings:
  \<^verbatim>\<open>app/services/evaluations.py\<close> and the repositories it uses
  (\<^verbatim>\<open>app/repositories/findings.py\<close>).

  The session is opened with \<^verbatim>\<open>autoflush=False\<close>, so the attributes of the job that the loop has
  changed reach its row only at the next \<^verbatim>\<open>flush\<close>: \<open>st_job\<close> is the object in memory, the row in
  \<open>st_db\<close> the state of the last flush. \<^verbatim>\<open>_finish\<close> reads the row again with \<^verbatim>\<open>populate_existing\<close>,
  which discards what was not flushed. The clock and the fresh identifiers of a result are drawn
  by rule key and asset.
\<close>

section \<open>Repositories\<close>

definition next_sequence :: "uuid \<Rightarrow> db \<Rightarrow> int" where
  "next_sequence account_id d =
     (let sequences = map ej_sequence (filter (\<lambda>j. ej_aws_account_id j = account_id) (evaluation_jobs d))
      in (if sequences = [] then 0 else Max (set sequences)) + 1)"

definition active_for_account :: "uuid \<Rightarrow> db \<Rightarrow> EvaluationJob option" where
  "active_for_account account_id d =
     find (\<lambda>j. ej_aws_account_id j = account_id \<and>
               ej_status j \<in> {EvaluationJobStatus.PENDING, EvaluationJobStatus.RUNNING}) (evaluation_jobs d)"

definition finding_for_rule :: "uuid \<Rightarrow> string \<Rightarrow> uuid option \<Rightarrow> db \<Rightarrow> Finding option" where
  "finding_for_rule account_id rule_key asset_id d =
     find (\<lambda>f. f_aws_account_id f = account_id \<and> f_rule_key f = rule_key \<and> f_asset_id f = asset_id) (findings d)"

definition get_scoped_finding :: "uuid \<Rightarrow> uuid \<Rightarrow> db \<Rightarrow> Finding option" where
  "get_scoped_finding organization_id finding_id d =
     find (\<lambda>f. f_organization_id f = organization_id \<and> f_id f = finding_id) (findings d)"

section \<open>Writing\<close>

definition evaluation_constraints :: "EvaluationJob \<Rightarrow> bool" where
  "evaluation_constraints j =
     (0 < ej_sequence j \<and> 0 \<le> ej_assets_evaluated j \<and> 0 \<le> ej_rules_evaluated j \<and> 0 \<le> ej_passed_count j \<and>
      0 \<le> ej_failed_count j \<and> 0 \<le> ej_error_count j \<and> 0 \<le> ej_not_applicable_count j \<and> 0 \<le> ej_findings_created j \<and>
      0 \<le> ej_findings_updated j \<and> 0 \<le> ej_findings_resolved j \<and> 0 \<le> ej_findings_reopened j \<and>
      0 \<le> ej_evaluation_errors j \<and> evaluation_status_timestamps j)"

text \<open>\<^verbatim>\<open>fk_evaluation_job_discovery_account_organization\<close>.\<close>

definition discovery_reference :: "EvaluationJob \<Rightarrow> db \<Rightarrow> bool" where
  "discovery_reference j d =
     (case ej_discovery_job_id j of
        None \<Rightarrow> True
      | Some i \<Rightarrow> list_ex (\<lambda>x. dj_id x = i \<and> dj_aws_account_id x = ej_aws_account_id j \<and>
                             dj_organization_id x = ej_organization_id j) (discovery_jobs d))"

definition flush_evaluation :: "EvaluationJob \<Rightarrow> db \<Rightarrow> exn + db" where
  "flush_evaluation j d =
     (let rows = put_row ej_id j (evaluation_jobs d) in
      if evaluation_constraints j \<and> evaluation_unique rows then Inr (d\<lparr>evaluation_jobs := rows\<rparr>)
      else Inl IntegrityError)"

definition flush_finding :: "Finding \<Rightarrow> db \<Rightarrow> exn + db" where
  "flush_finding f d =
     (let rows = put_row f_id f (findings d) in
      if finding_constraints f \<and> finding_unique rows then Inr (d\<lparr>findings := rows\<rparr>) else Inl IntegrityError)"

section \<open>Applying one result\<close>

record ResultDraw =
  rd_finding_id :: uuid
  rd_event_id :: uuid
  rd_now :: instant

type_synonym draws = "string \<Rightarrow> uuid option \<Rightarrow> ResultDraw"

record EvaluationState =
  st_job :: EvaluationJob
  st_summary :: EvaluationRuleResult
  st_errors :: "string list"
  st_db :: db

definition new_summary :: "EvaluationJob \<Rightarrow> SecurityRule \<Rightarrow> EvaluationRuleResult" where
  "new_summary job rule =
     \<lparr>er_evaluation_job_id = ej_id job, er_organization_id = ej_organization_id job,
      er_aws_account_id = ej_aws_account_id job, er_rule_key = rl_key rule, er_rule_version = rl_version rule,
      er_passed_count = 0, er_failed_count = 0, er_not_applicable_count = 0, er_error_count = 0\<rparr>"

definition count_job :: "RuleResultStatus \<Rightarrow> EvaluationJob \<Rightarrow> EvaluationJob" where
  "count_job status job =
     (let j = job\<lparr>ej_rules_evaluated := ej_rules_evaluated job + 1\<rparr> in
      case status of
        RuleResultStatus.PASSED \<Rightarrow> j\<lparr>ej_passed_count := ej_passed_count job + 1\<rparr>
      | RuleResultStatus.FAILED \<Rightarrow> j\<lparr>ej_failed_count := ej_failed_count job + 1\<rparr>
      | RuleResultStatus.ERROR \<Rightarrow>
          j\<lparr>ej_error_count := ej_error_count job + 1, ej_evaluation_errors := ej_evaluation_errors job + 1\<rparr>
      | RuleResultStatus.NOT_APPLICABLE \<Rightarrow> j\<lparr>ej_not_applicable_count := ej_not_applicable_count job + 1\<rparr>)"

definition count_summary :: "RuleResultStatus \<Rightarrow> EvaluationRuleResult \<Rightarrow> EvaluationRuleResult" where
  "count_summary status s =
     (case status of
        RuleResultStatus.PASSED \<Rightarrow> s\<lparr>er_passed_count := er_passed_count s + 1\<rparr>
      | RuleResultStatus.FAILED \<Rightarrow> s\<lparr>er_failed_count := er_failed_count s + 1\<rparr>
      | RuleResultStatus.ERROR \<Rightarrow> s\<lparr>er_error_count := er_error_count s + 1\<rparr>
      | RuleResultStatus.NOT_APPLICABLE \<Rightarrow> s\<lparr>er_not_applicable_count := er_not_applicable_count s + 1\<rparr>)"

definition active_suppression :: "instant \<Rightarrow> Finding \<Rightarrow> bool" where
  "active_suppression now f =
     (f_status f = FindingStatus.SUPPRESSED \<and>
      (case f_suppressed_until f of None \<Rightarrow> True | Some until \<Rightarrow> now < until))"

definition clear_suppression :: "Finding \<Rightarrow> Finding" where
  "clear_suppression f =
     f\<lparr>f_suppressed_at := None, f_suppressed_until := None, f_suppression_reason := None,
       f_suppressed_by_user_id := None\<rparr>"

definition new_finding ::
    "SecurityRule \<Rightarrow> uuid option \<Rightarrow> RuleResult \<Rightarrow> ResultDraw \<Rightarrow> EvaluationJob \<Rightarrow> Finding" where
  "new_finding rule asset_id result draw job =
     \<lparr>f_id = rd_finding_id draw, f_organization_id = ej_organization_id job,
      f_aws_account_id = ej_aws_account_id job, f_asset_id = asset_id, f_rule_key = rl_key rule,
      f_rule_version = rl_version rule, f_severity = rl_severity rule, f_category = rl_category rule,
      f_status = FindingStatus.OPEN, f_evidence_json = sanitize_evidence 0 (rs_evidence result),
      f_first_seen_at = rd_now draw, f_last_seen_at = rd_now draw, f_resolved_at = None, f_suppressed_at = None,
      f_suppressed_until = None, f_suppression_reason = None, f_suppressed_by_user_id = None,
      f_last_evaluation_id = ej_id job, f_lifecycle_version = 0\<rparr>"

definition seen_again ::
    "SecurityRule \<Rightarrow> RuleResult \<Rightarrow> instant \<Rightarrow> EvaluationJob \<Rightarrow> Finding \<Rightarrow> Finding" where
  "seen_again rule result now job f =
     (let f1 = (if active_suppression now f then f else (clear_suppression f)\<lparr>f_status := FindingStatus.OPEN\<rparr>)
      in f1\<lparr>f_resolved_at := None, f_last_seen_at := now,
            f_evidence_json := sanitize_evidence 0 (rs_evidence result), f_rule_version := rl_version rule,
            f_last_evaluation_id := ej_id job, f_lifecycle_version := f_lifecycle_version f + 1\<rparr>)"

definition resolve_finding :: "instant \<Rightarrow> EvaluationJob \<Rightarrow> Finding \<Rightarrow> Finding" where
  "resolve_finding now job f =
     (clear_suppression f)\<lparr>f_status := FindingStatus.RESOLVED, f_resolved_at := Some now,
       f_last_evaluation_id := ej_id job, f_lifecycle_version := f_lifecycle_version f + 1\<rparr>"

definition audit_finding :: "string \<Rightarrow> EvaluationJob \<Rightarrow> Finding \<Rightarrow> db \<Rightarrow> db" where
  "audit_finding event job f =
     record_audit event ''finding'' AuditResult.SUCCEEDED (Some (ej_organization_id job))
       (Some (ej_started_by_user_id job)) (Some (f_id f))"

definition failed_existing ::
    "SecurityRule \<Rightarrow> RuleResult \<Rightarrow> ResultDraw \<Rightarrow> EvaluationJob \<Rightarrow> Finding \<Rightarrow> db \<Rightarrow> exn + EvaluationJob \<times> db" where
  "failed_existing rule result draw job f d =
     (let now = rd_now draw; f' = seen_again rule result now job f;
          reopened = (f_status f = FindingStatus.RESOLVED \<or>
                      f_status f = FindingStatus.SUPPRESSED \<and> \<not> active_suppression now f);
          job' = (if reopened then job\<lparr>ej_findings_reopened := ej_findings_reopened job + 1\<rparr>
                  else job\<lparr>ej_findings_updated := ej_findings_updated job + 1\<rparr>);
          event = (if reopened then ''security.finding.reopened'' else ''security.finding.updated'')
      in (case flush_finding f' d of
            Inl e \<Rightarrow> Inl e
          | Inr d' \<Rightarrow> Inr (job', audit_finding event job f' d')))"

definition failed_result ::
    "(string \<Rightarrow> string) \<Rightarrow> SecurityRule \<Rightarrow> uuid option \<Rightarrow> RuleResult \<Rightarrow> ResultDraw \<Rightarrow> EvaluationJob \<Rightarrow> db \<Rightarrow>
     exn + EvaluationJob \<times> db" where
  "failed_result sha256 rule asset_id result draw job d =
     (case finding_for_rule (ej_aws_account_id job) (rl_key rule) asset_id d of
        Some f \<Rightarrow> failed_existing rule result draw job f d
      | None \<Rightarrow>
          let candidate = new_finding rule asset_id result draw job; rows = findings d @ [candidate] in
          if finding_constraints candidate \<and> keys_distinct f_id rows \<and> finding_unique rows then
            Inr (job\<lparr>ej_findings_created := ej_findings_created job + 1\<rparr>,
                 snd (create_for_critical_finding sha256 candidate (rd_event_id draw) (rd_now draw)
                        (audit_finding ''security.finding.created'' job candidate (d\<lparr>findings := rows\<rparr>))))
          else
            (case finding_for_rule (ej_aws_account_id job) (rl_key rule) asset_id d of
               None \<Rightarrow> Inl IntegrityError
             | Some f \<Rightarrow> failed_existing rule result draw job f d))"

definition passed_result ::
    "SecurityRule \<Rightarrow> uuid option \<Rightarrow> ResultDraw \<Rightarrow> EvaluationJob \<Rightarrow> db \<Rightarrow> exn + EvaluationJob \<times> db" where
  "passed_result rule asset_id draw job d =
     (case finding_for_rule (ej_aws_account_id job) (rl_key rule) asset_id d of
        None \<Rightarrow> Inr (job, d)
      | Some f \<Rightarrow>
          if active_suppression (rd_now draw) f \<or> f_status f = FindingStatus.RESOLVED then Inr (job, d)
          else
            let f' = resolve_finding (rd_now draw) job f in
            (case flush_finding f' d of
               Inl e \<Rightarrow> Inl e
             | Inr d' \<Rightarrow>
                 Inr (job\<lparr>ej_findings_resolved := ej_findings_resolved job + 1\<rparr>,
                      audit_finding ''security.finding.resolved'' job f' d')))"

definition stale_for :: "EvaluationJob \<Rightarrow> Finding option \<Rightarrow> db \<Rightarrow> bool" where
  "stale_for job finding d =
     (case finding of
        None \<Rightarrow> False
      | Some f \<Rightarrow>
          (case get_row ej_id (f_last_evaluation_id f) (evaluation_jobs d) of
             None \<Rightarrow> False
           | Some last_job \<Rightarrow> ej_sequence job < ej_sequence last_job))"

definition apply_result ::
    "(string \<Rightarrow> string) \<Rightarrow> SecurityRule \<Rightarrow> uuid option \<Rightarrow> RuleResult \<Rightarrow> ResultDraw \<Rightarrow> EvaluationState \<Rightarrow>
     exn + EvaluationState" where
  "apply_result sha256 rule asset_id result draw s =
     (let status = rs_status result; job = count_job status (st_job s); d = st_db s;
          s1 = s\<lparr>st_job := job, st_summary := count_summary status (st_summary s)\<rparr>
      in if stale_for job (finding_for_rule (ej_aws_account_id job) (rl_key rule) asset_id d) d then Inr s1
         else if status = RuleResultStatus.ERROR then Inr s1
         else
           (case (if status = RuleResultStatus.FAILED then failed_result sha256 rule asset_id result draw job d
                  else if status = RuleResultStatus.PASSED then passed_result rule asset_id draw job d
                  else Inr (job, d)) of
              Inl e \<Rightarrow> Inl e
            | Inr (job', d') \<Rightarrow>
                (case flush_evaluation job' d' of
                   Inl e \<Rightarrow> Inl e
                 | Inr d2 \<Rightarrow> Inr (s1\<lparr>st_job := job', st_db := d2\<rparr>))))"

section \<open>The loop\<close>

text \<open>An exception of a rule is a result.\<close>

definition guarded_result :: "SecurityRule \<Rightarrow> Asset option \<Rightarrow> RuleContext \<Rightarrow> RuleResult" where
  "guarded_result rule asset ctxt =
     (case evaluate rule asset ctxt of
        Inl e \<Rightarrow> rule_result RuleResultStatus.ERROR [] (Some ''rule_execution_failed'')
      | Inr result \<Rightarrow> result)"

definition rule_error :: "SecurityRule \<Rightarrow> RuleResult \<Rightarrow> string list" where
  "rule_error rule result =
     (if rs_status result = RuleResultStatus.ERROR then
        [rl_key rule @ '':'' @
         (case rs_error_code result of None \<Rightarrow> ''rule_error'' | Some c \<Rightarrow> if c = [] then ''rule_error'' else c)]
      else [])"

definition rule_targets :: "SecurityRule \<Rightarrow> RuleContext \<Rightarrow> Asset option list" where
  "rule_targets rule ctxt =
     (if rl_asset_type rule = None then [None]
      else map Some (filter (\<lambda>a. applies_to rule (Some a)) (rc_account_assets ctxt)))"

fun evaluate_targets ::
    "(string \<Rightarrow> string) \<Rightarrow> RuleContext \<Rightarrow> draws \<Rightarrow> SecurityRule \<Rightarrow> Asset option list \<Rightarrow> EvaluationState \<Rightarrow>
     exn + EvaluationState" where
  "evaluate_targets sha256 ctxt draws rule [] s = Inr s"
| "evaluate_targets sha256 ctxt draws rule (asset # targets) s =
     (let result = guarded_result rule asset ctxt; asset_id = map_option as_id asset in
      case apply_result sha256 rule asset_id result (draws (rl_key rule) asset_id) s of
        Inl e \<Rightarrow> Inl e
      | Inr s' \<Rightarrow>
          evaluate_targets sha256 ctxt draws rule targets
            (s'\<lparr>st_errors := st_errors s' @ rule_error rule result\<rparr>))"

fun evaluate_rules ::
    "(string \<Rightarrow> string) \<Rightarrow> RuleContext \<Rightarrow> draws \<Rightarrow> SecurityRule list \<Rightarrow> EvaluationState \<Rightarrow> exn + EvaluationState" where
  "evaluate_rules sha256 ctxt draws [] s = Inr s"
| "evaluate_rules sha256 ctxt draws (rule # rules) s =
     (case evaluate_targets sha256 ctxt draws rule (rule_targets rule ctxt)
             (s\<lparr>st_summary := new_summary (st_job s) rule\<rparr>) of
        Inl e \<Rightarrow> Inl e
      | Inr s' \<Rightarrow>
          evaluate_rules sha256 ctxt draws rules
            (s'\<lparr>st_db := (st_db s')\<lparr>rule_results := rule_results (st_db s') @ [st_summary s']\<rparr>\<rparr>))"


section \<open>Running an evaluation\<close>

definition finish ::
    "uuid \<Rightarrow> uuid \<Rightarrow> EvaluationJobStatus \<Rightarrow> string list \<Rightarrow> instant \<Rightarrow> db \<Rightarrow> (db, EvaluationJob) outcome" where
  "finish job_id actor status errors now d =
     (case get_row ej_id job_id (evaluation_jobs d) of
        None \<Rightarrow> raise (NotFoundError ''evaluation_not_found'') d
      | Some job \<Rightarrow>
          if ej_status job \<noteq> EvaluationJobStatus.RUNNING then raise (ConflictError ''evaluation_not_running'') d
          else
            let summary = take 2000 (intercalate ''; '' errors);
                job' = job\<lparr>ej_status := status, ej_finished_at := Some now,
                  ej_error_summary := (if summary = [] then None else Some summary)\<rparr>;
                event = (if status = EvaluationJobStatus.COMPLETED then ''security.evaluation.completed''
                         else if status = EvaluationJobStatus.PARTIALLY_COMPLETED then
                           ''security.evaluation.partially_completed''
                         else ''security.evaluation.failed'')
            in (case flush_evaluation job' d of
                  Inl e \<Rightarrow> raise e d
                | Inr d' \<Rightarrow>
                    return job'
                      (record_audit event ''evaluation_job''
                         (if status = EvaluationJobStatus.FAILED then AuditResult.FAILED else AuditResult.SUCCEEDED)
                         (Some (ej_organization_id job)) (Some actor) (Some job_id) d')))"

definition recover_failed ::
    "uuid \<Rightarrow> uuid \<Rightarrow> string \<Rightarrow> instant \<Rightarrow> db \<Rightarrow> (db, EvaluationJob) outcome" where
  "recover_failed job_id actor error_code now d =
     (case finish job_id actor EvaluationJobStatus.FAILED [error_code] now d of
        (Inr job, d') \<Rightarrow> return job d'
      | (Inl _, _) \<Rightarrow>
          (case get_row ej_id job_id (evaluation_jobs d) of
             None \<Rightarrow> raise (NotFoundError ''evaluation_not_found'') d
           | Some job \<Rightarrow>
               if ej_status job = EvaluationJobStatus.RUNNING then
                 let job' = job\<lparr>ej_status := EvaluationJobStatus.FAILED, ej_finished_at := Some now,
                                ej_error_summary := Some error_code\<rparr>
                 in (case flush_evaluation job' d of Inl e \<Rightarrow> raise e d | Inr d' \<Rightarrow> return job' d')
               else return job d))"

text \<open>The readings of the clock that belong to the evaluation itself.\<close>

record EvaluationClock =
  ec_started :: instant
  ec_evaluated :: instant
  ec_finished :: instant

definition account_assets :: "EvaluationJob \<Rightarrow> db \<Rightarrow> Asset list" where
  "account_assets job d =
     sort_key as_id
       (filter (\<lambda>a. as_aws_account_id a = ej_aws_account_id job \<and> as_organization_id a = ej_organization_id job \<and>
                    as_is_active a) (assets d))"

definition terminal_status :: "EvaluationJob \<Rightarrow> string list \<Rightarrow> EvaluationJobStatus" where
  "terminal_status job errors =
     (if 0 < ej_rules_evaluated job \<and> ej_evaluation_errors job = ej_rules_evaluated job then
        EvaluationJobStatus.FAILED
      else if errors \<noteq> [] then EvaluationJobStatus.PARTIALLY_COMPLETED
      else EvaluationJobStatus.COMPLETED)"

definition enabled_rules :: "SecurityRule list \<Rightarrow> SecurityRule list" where
  "enabled_rules registry = registry_filter None None None None (Some True) registry"

definition evaluation_context :: "EvaluationJob \<Rightarrow> EvaluationClock \<Rightarrow> db \<Rightarrow> RuleContext" where
  "evaluation_context job clock d =
     \<lparr>rc_account_assets = account_assets job d, rc_evaluated_at = ec_evaluated clock\<rparr>"

text \<open>The first transaction of \<^verbatim>\<open>run\<close>.\<close>

definition begin_run :: "uuid \<Rightarrow> uuid \<Rightarrow> instant \<Rightarrow> db \<Rightarrow> (db, EvaluationJob) outcome" where
  "begin_run job_id actor now d =
     (case get_row ej_id job_id (evaluation_jobs d) of
        None \<Rightarrow> raise (NotFoundError ''evaluation_not_found'') d
      | Some job \<Rightarrow>
          if ej_status job \<noteq> EvaluationJobStatus.PENDING then raise (ConflictError ''evaluation_not_pending'') d
          else
            let job' = job\<lparr>ej_status := EvaluationJobStatus.RUNNING, ej_started_at := Some now\<rparr> in
            (case flush_evaluation job' d of
               Inl e \<Rightarrow> raise e d
             | Inr d' \<Rightarrow>
                 return job'
                   (record_audit ''security.evaluation.started'' ''evaluation_job'' AuditResult.SUCCEEDED
                      (Some (ej_organization_id job)) (Some actor) (Some job_id) d')))"

text \<open>Placeholder before the first rule, which replaces it.\<close>

definition no_summary :: "EvaluationJob \<Rightarrow> EvaluationRuleResult" where
  "no_summary job =
     \<lparr>er_evaluation_job_id = ej_id job, er_organization_id = ej_organization_id job,
      er_aws_account_id = ej_aws_account_id job, er_rule_key = [], er_rule_version = 0, er_passed_count = 0,
      er_failed_count = 0, er_not_applicable_count = 0, er_error_count = 0\<rparr>"

definition evaluate_account ::
    "(string \<Rightarrow> string) \<Rightarrow> SecurityRule list \<Rightarrow> draws \<Rightarrow> EvaluationClock \<Rightarrow> EvaluationJob \<Rightarrow> db \<Rightarrow> exn + EvaluationState" where
  "evaluate_account sha256 registry draws clock job d =
     (let ctxt = evaluation_context job clock d in
      evaluate_rules sha256 ctxt draws (enabled_rules registry)
        \<lparr>st_job = job\<lparr>ej_assets_evaluated := int (length (rc_account_assets ctxt))\<rparr>,
         st_summary = no_summary job, st_errors = [], st_db = d\<rparr>)"

definition run ::
    "(string \<Rightarrow> string) \<Rightarrow> SecurityRule list \<Rightarrow> draws \<Rightarrow> EvaluationClock \<Rightarrow> uuid \<Rightarrow> uuid \<Rightarrow> db \<Rightarrow>
     (db, EvaluationJob) outcome" where
  "run sha256 registry draws clock job_id actor d =
     (case begin_run job_id actor (ec_started clock) d of
        (Inl e, d') \<Rightarrow> raise e d'
      | (Inr job, d1) \<Rightarrow>
          (case evaluate_account sha256 registry draws clock job d1 of
             Inl _ \<Rightarrow> recover_failed job_id actor ''evaluation_execution_failed'' (ec_finished clock) d1
           | Inr s \<Rightarrow>
               (case finish job_id actor (terminal_status (st_job s) (st_errors s)) (st_errors s)
                       (ec_finished clock) (st_db s) of
                  (Inr job', d') \<Rightarrow> return job' d'
                | (Inl _, _) \<Rightarrow> recover_failed job_id actor ''evaluation_execution_failed'' (ec_finished clock) d1)))"

definition new_evaluation :: "AWSAccount \<Rightarrow> uuid \<Rightarrow> uuid option \<Rightarrow> uuid \<Rightarrow> db \<Rightarrow> EvaluationJob" where
  "new_evaluation account actor discovery_job_id new_id d =
     \<lparr>ej_id = new_id, ej_organization_id = acc_organization_id account, ej_aws_account_id = acc_id account,
      ej_discovery_job_id = discovery_job_id, ej_sequence = next_sequence (acc_id account) d,
      ej_status = EvaluationJobStatus.PENDING, ej_started_by_user_id = actor, ej_started_at = None,
      ej_finished_at = None, ej_assets_evaluated = 0, ej_rules_evaluated = 0, ej_passed_count = 0,
      ej_failed_count = 0, ej_error_count = 0, ej_not_applicable_count = 0, ej_findings_created = 0,
      ej_findings_updated = 0, ej_findings_resolved = 0, ej_findings_reopened = 0, ej_evaluation_errors = 0,
      ej_error_summary = None\<rparr>"

definition insert_evaluation :: "EvaluationJob \<Rightarrow> db \<Rightarrow> exn + db" where
  "insert_evaluation job d =
     (let rows = evaluation_jobs d @ [job] in
      if evaluation_constraints job \<and> discovery_reference job d \<and> keys_distinct ej_id rows \<and> evaluation_unique rows
      then Inr (d\<lparr>evaluation_jobs := rows\<rparr>) else Inl (ConflictError ''evaluation_already_running''))"

definition start_evaluation ::
    "(string \<Rightarrow> string) \<Rightarrow> SecurityRule list \<Rightarrow> draws \<Rightarrow> EvaluationClock \<Rightarrow> uuid \<Rightarrow> uuid \<Rightarrow> uuid option \<Rightarrow> uuid \<Rightarrow> db \<Rightarrow>
     (db, EvaluationJob) outcome" where
  "start_evaluation sha256 registry draws clock account_id actor discovery_job_id new_id d =
     (case get_row acc_id account_id (aws_accounts d) of
        None \<Rightarrow> raise (NotFoundError ''aws_account_not_found'') d
      | Some account \<Rightarrow>
          (case require_capability (acc_organization_id account) actor EVALUATIONS_START d of
             Inl e \<Rightarrow> raise e d
           | Inr _ \<Rightarrow>
               if acc_connection_status account \<noteq> AWSAccountStatus.CONNECTED then
                 raise (ConflictError ''aws_account_not_connected'') d
               else if active_for_account account_id d \<noteq> None then
                 raise (ConflictError ''evaluation_already_running'') d
               else
                 (case insert_evaluation (new_evaluation account actor discovery_job_id new_id d) d of
                    Inl e \<Rightarrow> raise e d
                  | Inr d' \<Rightarrow> run sha256 registry draws clock new_id actor d')))"

text \<open>The endpoint only queues the evaluation; \<open>manual_id\<close> is its fresh idempotency key.\<close>

definition request_evaluation ::
    "uuid \<Rightarrow> uuid \<Rightarrow> uuid option \<Rightarrow> uuid \<Rightarrow> uuid \<Rightarrow> uuid \<Rightarrow> instant \<Rightarrow> db \<Rightarrow> (db, PlatformJob) outcome" where
  "request_evaluation account_id user discovery_job_id manual_id new_id new_correlation now d =
     (case aws_account_for_user account_id user d of
        None \<Rightarrow> raise (NotFoundError ''aws_account_not_found'') d
      | Some (account, m) \<Rightarrow>
          if \<not> role_has_capability (m_role m) EVALUATIONS_START then raise (ForbiddenError ''forbidden'') d
          else if acc_connection_status account \<noteq> AWSAccountStatus.CONNECTED then
            raise (ConflictError ''aws_account_not_connected'') d
          else
            (case enqueue
                    ((enqueue_args (acc_organization_id account) PlatformJobType.EVALUATION (acc_id account)
                        (''manual-evaluation:'' @ uuid_str manual_id))
                     \<lparr>eq_payload := Some
                        ([(''actor_user_id'', JStr (uuid_str user)), (''account_id'', JStr (uuid_str (acc_id account)))] @
                         (case discovery_job_id of
                            None \<Rightarrow> [] | Some i \<Rightarrow> [(''discovery_job_id'', JStr (uuid_str i))])),
                      eq_actor_user_id := Some user\<rparr>)
                    new_id new_correlation now d of
               (Inl e, d') \<Rightarrow> raise e d
             | (Inr (job, created), d') \<Rightarrow> return job d'))"

section \<open>Suppression\<close>

definition suppress_row :: "uuid \<Rightarrow> string \<Rightarrow> instant option \<Rightarrow> instant \<Rightarrow> Finding \<Rightarrow> Finding" where
  "suppress_row actor reason until now f =
     f\<lparr>f_status := FindingStatus.SUPPRESSED, f_resolved_at := None, f_suppressed_at := Some now,
       f_suppressed_until := until, f_suppression_reason := Some (strip reason),
       f_suppressed_by_user_id := Some actor, f_lifecycle_version := f_lifecycle_version f + 1\<rparr>"

definition suppress ::
    "uuid \<Rightarrow> uuid \<Rightarrow> uuid \<Rightarrow> string \<Rightarrow> instant option \<Rightarrow> instant \<Rightarrow> db \<Rightarrow> (db, Finding) outcome" where
  "suppress organization_id finding_id actor reason until now d =
     (case require_capability organization_id actor FINDINGS_SUPPRESS d of
        Inl e \<Rightarrow> raise e d
      | Inr _ \<Rightarrow>
          (case get_scoped_finding organization_id finding_id d of
             None \<Rightarrow> raise (NotFoundError ''finding_not_found'') d
           | Some f \<Rightarrow>
               if (case until of None \<Rightarrow> False | Some t \<Rightarrow> t \<le> now) then
                 raise (ConflictError ''invalid_suppression_expiry'') d
               else
                 let f' = suppress_row actor reason until now f in
                 (case flush_finding f' d of
                    Inl e \<Rightarrow> raise e d
                  | Inr d' \<Rightarrow>
                      return f'
                        (record_audit ''security.finding.suppressed'' ''finding'' AuditResult.SUCCEEDED
                           (Some organization_id) (Some actor) (Some (f_id f)) d'))))"

definition unsuppress_row :: "Finding \<Rightarrow> Finding" where
  "unsuppress_row f =
     (clear_suppression f)\<lparr>f_status := FindingStatus.OPEN, f_lifecycle_version := f_lifecycle_version f + 1\<rparr>"

definition unsuppress :: "uuid \<Rightarrow> uuid \<Rightarrow> uuid \<Rightarrow> db \<Rightarrow> (db, Finding) outcome" where
  "unsuppress organization_id finding_id actor d =
     (case require_capability organization_id actor FINDINGS_SUPPRESS d of
        Inl e \<Rightarrow> raise e d
      | Inr _ \<Rightarrow>
          (case get_scoped_finding organization_id finding_id d of
             None \<Rightarrow> raise (NotFoundError ''finding_not_found'') d
           | Some f \<Rightarrow>
               if f_status f \<noteq> FindingStatus.SUPPRESSED then return f d
               else
                 let f' = unsuppress_row f in
                 (case flush_finding f' d of
                    Inl e \<Rightarrow> raise e d
                  | Inr d' \<Rightarrow>
                      return f'
                        (record_audit ''security.finding.unsuppressed'' ''finding'' AuditResult.SUCCEEDED
                           (Some organization_id) (Some actor) (Some (f_id f)) d'))))"


section \<open>Lemmas on one result\<close>

lemma find_put_row:
  assumes "keys_distinct key rows" and "r0 \<in> set rows" and "key r = key r0" and "P r = P r0"
  shows "find P (put_row key r rows) = (if find P rows = Some r0 then Some r else find P rows)"
  using assms
proof (induction rows)
  case Nil
  then show ?case by simp
next
  case (Cons x xs)
  show ?case
  proof (cases "x = r0")
    case True
    with Cons.prems have "put_row key r xs = xs" by (intro put_row_absent) auto
    with True Cons.prems show ?thesis by (auto dest: find_mem)
  next
    case False
    with Cons.prems have "r0 \<in> set xs" "key x \<noteq> key r" by auto
    with False Cons show ?thesis by auto
  qed
qed

lemma find_snoc: "find P (xs @ [x]) = (case find P xs of None \<Rightarrow> if P x then Some x else None | Some y \<Rightarrow> Some y)"
  by (induction xs) auto

text \<open>The columns of a job that an evaluation in progress leaves alone.\<close>

definition same_run :: "EvaluationJob \<Rightarrow> EvaluationJob \<Rightarrow> bool" where
  "same_run j j' =
     (ej_id j' = ej_id j \<and> ej_organization_id j' = ej_organization_id j \<and>
      ej_aws_account_id j' = ej_aws_account_id j \<and> ej_sequence j' = ej_sequence j \<and>
      ej_status j' = ej_status j \<and> ej_started_at j' = ej_started_at j \<and> ej_finished_at j' = ej_finished_at j)"

lemma same_run_refl [simp]: "same_run j j" by (simp add: same_run_def)

lemma same_run_trans: "same_run i j \<Longrightarrow> same_run j k \<Longrightarrow> same_run i k" by (simp add: same_run_def)

lemma same_run_sym: "same_run i j \<Longrightarrow> same_run j i" by (simp add: same_run_def)

definition counters_ok :: "EvaluationJob \<Rightarrow> bool" where
  "counters_ok j =
     (ej_rules_evaluated j = ej_passed_count j + ej_failed_count j + ej_error_count j + ej_not_applicable_count j \<and>
      ej_evaluation_errors j = ej_error_count j)"

definition job_ok :: "EvaluationJob \<Rightarrow> bool" where
  "job_ok j = (evaluation_constraints j \<and> counters_ok j)"

lemmas job_rules = job_ok_def counters_ok_def evaluation_constraints_def evaluation_status_timestamps_def same_run_def

lemma count_job_ok: "job_ok j \<Longrightarrow> job_ok (count_job status j) \<and> same_run j (count_job status j)"
  by (auto simp: job_rules count_job_def Let_def split: RuleResultStatus.splits)

text \<open>The identity of a finding: the columns of its indexes, its tenant and its severity.\<close>

definition same_finding :: "Finding \<Rightarrow> Finding \<Rightarrow> bool" where
  "same_finding f f' =
     (f_id f' = f_id f \<and> f_organization_id f' = f_organization_id f \<and> f_aws_account_id f' = f_aws_account_id f \<and>
      f_asset_id f' = f_asset_id f \<and> f_rule_key f' = f_rule_key f \<and> f_severity f' = f_severity f)"

lemma rewritten_findings [simp]:
  "same_finding f (seen_again rule result now job f)" "same_finding f (resolve_finding now job f)"
  "same_finding f (suppress_row u reason until now f)" "same_finding f (unsuppress_row f)" "same_finding f f"
  by (simp_all add: same_finding_def seen_again_def resolve_finding_def suppress_row_def unsuppress_row_def
      clear_suppression_def Let_def)

text \<open>What one result does to the findings.\<close>

definition finding_change :: "EvaluationJob \<Rightarrow> string \<Rightarrow> uuid option \<Rightarrow> db \<Rightarrow> db \<Rightarrow> bool" where
  "finding_change job key asset_id d d' =
     (findings d' = findings d \<or>
      (\<exists>f f'. finding_for_rule (ej_aws_account_id job) key asset_id d = Some f \<and> same_finding f f' \<and>
         f_last_evaluation_id f' = ej_id job \<and> finding_constraints f' \<and>
         findings d' = put_row f_id f' (findings d) \<and> finding_unique (findings d')) \<or>
      (\<exists>c. finding_for_rule (ej_aws_account_id job) key asset_id d = None \<and> f_aws_account_id c = ej_aws_account_id job \<and>
         f_rule_key c = key \<and> f_asset_id c = asset_id \<and> f_last_evaluation_id c = ej_id job \<and>
         finding_constraints c \<and> findings d' = findings d @ [c] \<and> keys_distinct f_id (findings d') \<and>
         finding_unique (findings d')))"

lemma finding_change_put:
  assumes "finding_for_rule (ej_aws_account_id job) key asset_id d = Some f" and "same_finding f f'"
    and "f_last_evaluation_id f' = ej_id job" and "finding_constraints f'"
    and "findings d' = put_row f_id f' (findings d)" and "finding_unique (findings d')"
  shows "finding_change job key asset_id d d'"
  using assms unfolding finding_change_def by blast

text \<open>The tables an evaluation never touches.\<close>

definition evaluation_frame :: "db \<Rightarrow> db \<Rightarrow> bool" where
  "evaluation_frame d d' =
     (users d' = users d \<and> organizations d' = organizations d \<and> memberships d' = memberships d \<and>
      aws_accounts d' = aws_accounts d \<and> assets d' = assets d \<and> platform_jobs d' = platform_jobs d \<and>
      discovery_jobs d' = discovery_jobs d \<and> scan_schedules d' = scan_schedules d \<and> scan_runs d' = scan_runs d \<and>
      remediation_requests d' = remediation_requests d)"

lemma evaluation_frame_refl [simp]: "evaluation_frame d d" by (simp add: evaluation_frame_def)

lemma evaluation_frame_trans: "evaluation_frame d d' \<Longrightarrow> evaluation_frame d' d'' \<Longrightarrow> evaluation_frame d d''"
  by (simp add: evaluation_frame_def)

lemma create_frame:
  "findings (snd (create_for_critical_finding sha f i t d)) = findings d"
  "evaluation_jobs (snd (create_for_critical_finding sha f i t d)) = evaluation_jobs d"
  "rule_results (snd (create_for_critical_finding sha f i t d)) = rule_results d"
  "evaluation_frame d (snd (create_for_critical_finding sha f i t d))"
  by (simp_all add: create_for_critical_finding_def evaluation_frame_def Let_def)

lemma audit_finding_frame [simp]:
  "findings (audit_finding e j f d) = findings d" "evaluation_jobs (audit_finding e j f d) = evaluation_jobs d"
  "rule_results (audit_finding e j f d) = rule_results d"
  "evaluation_frame d' (audit_finding e j f d) = evaluation_frame d' d"
  by (simp_all add: audit_finding_def evaluation_frame_def)

lemma flush_finding_Inr:
  "flush_finding f d = Inr d' \<longleftrightarrow>
     finding_constraints f \<and> finding_unique (put_row f_id f (findings d)) \<and>
     d' = d\<lparr>findings := put_row f_id f (findings d)\<rparr>"
  by (auto simp: flush_finding_def Let_def)

lemma flush_evaluation_Inr:
  "flush_evaluation j d = Inr d' \<longleftrightarrow>
     evaluation_constraints j \<and> evaluation_unique (put_row ej_id j (evaluation_jobs d)) \<and>
     d' = d\<lparr>evaluation_jobs := put_row ej_id j (evaluation_jobs d)\<rparr>"
  by (auto simp: flush_evaluation_def Let_def)

definition result_effect :: "EvaluationJob \<Rightarrow> string \<Rightarrow> uuid option \<Rightarrow> db \<Rightarrow> EvaluationJob \<times> db \<Rightarrow> bool" where
  "result_effect job key asset_id d r =
     (same_run job (fst r) \<and> (job_ok job \<longrightarrow> job_ok (fst r)) \<and> evaluation_jobs (snd r) = evaluation_jobs d \<and>
      rule_results (snd r) = rule_results d \<and> evaluation_frame d (snd r) \<and> finding_change job key asset_id d (snd r))"

lemma result_effectI:
  assumes "same_run job job'" and "job_ok job \<Longrightarrow> job_ok job'" and "evaluation_jobs d' = evaluation_jobs d"
    and "rule_results d' = rule_results d" and "evaluation_frame d d'" and "finding_change job key asset_id d d'"
  shows "result_effect job key asset_id d (job', d')"
  using assms by (simp add: result_effect_def)

lemma result_effect_same: "result_effect job key asset_id d (job, d)"
  by (simp add: result_effect_def finding_change_def)

lemma rewritten_effect:
  assumes "flush_finding f' d = Inr d1" and "finding_for_rule (ej_aws_account_id job) key asset_id d = Some f"
    and "same_finding f f'" and "f_last_evaluation_id f' = ej_id job" and "same_run job job'"
    and "job_ok job \<Longrightarrow> job_ok job'"
  shows "result_effect job key asset_id d (job', audit_finding e job f' d1)"
proof -
  note fl = assms(1) [unfolded flush_finding_Inr]
  have "finding_change job key asset_id d d1"
    using fl by (intro finding_change_put [OF assms(2,3,4)]) auto
  moreover have "evaluation_frame d d1" "evaluation_jobs d1 = evaluation_jobs d" "rule_results d1 = rule_results d"
    using fl by (simp_all add: evaluation_frame_def)
  ultimately show ?thesis using assms(5,6) by (auto simp: result_effect_def finding_change_def)
qed

lemma failed_existing_effect:
  assumes "failed_existing rule result draw job f d = Inr r"
    and "finding_for_rule (ej_aws_account_id job) (rl_key rule) asset_id d = Some f"
  shows "result_effect job (rl_key rule) asset_id d r"
proof -
  let ?f = "seen_again rule result (rd_now draw) job f"
  obtain d1 where d1: "flush_finding ?f d = Inr d1"
    using assms(1) by (auto simp: failed_existing_def Let_def split: sum.splits)
  obtain job' e where "r = (job', audit_finding e job ?f d1)" "same_run job job'" "job_ok job \<longrightarrow> job_ok job'"
    using assms(1) d1 by (auto simp: failed_existing_def Let_def job_rules)
  then show ?thesis
    using rewritten_effect [OF d1 assms(2) rewritten_findings(1)] by (simp add: seen_again_def Let_def)
qed

lemma failed_result_effect:
  assumes "failed_result sha256 rule asset_id result draw job d = Inr r"
  shows "result_effect job (rl_key rule) asset_id d r"
proof (cases "finding_for_rule (ej_aws_account_id job) (rl_key rule) asset_id d")
  case (Some f)
  with assms show ?thesis by (intro failed_existing_effect) (auto simp: failed_result_def)
next
  case None
  let ?c = "new_finding rule asset_id result draw job"
  from None assms have c: "finding_constraints ?c" "keys_distinct f_id (findings d @ [?c])" "finding_unique (findings d @ [?c])"
      "fst r = job\<lparr>ej_findings_created := ej_findings_created job + 1\<rparr>"
      "snd r = snd (create_for_critical_finding sha256 ?c (rd_event_id draw) (rd_now draw)
         (audit_finding ''security.finding.created'' job ?c (d\<lparr>findings := findings d @ [?c]\<rparr>)))"
    by (auto simp: failed_result_def Let_def split: if_splits)
  have "f_aws_account_id ?c = ej_aws_account_id job" "f_rule_key ?c = rl_key rule" "f_asset_id ?c = asset_id"
      "f_last_evaluation_id ?c = ej_id job"
    by (simp_all add: new_finding_def)
  then have "finding_change job (rl_key rule) asset_id d (d\<lparr>findings := findings d @ [?c]\<rparr>)"
    using None c(1-3) unfolding finding_change_def by auto
  moreover have "evaluation_frame d (snd r)"
    unfolding c(5) by (rule evaluation_frame_trans [OF _ create_frame(4)]) (simp add: evaluation_frame_def audit_finding_def)
  moreover have "findings (snd r) = findings d @ [?c]" "evaluation_jobs (snd r) = evaluation_jobs d"
      "rule_results (snd r) = rule_results d"
    using c(5) by (auto simp: create_frame)
  moreover have "same_run job (fst r)" "job_ok job \<longrightarrow> job_ok (fst r)"
    using c(4) by (auto simp: job_rules)
  ultimately show ?thesis by (simp add: result_effect_def finding_change_def)
qed

lemma passed_result_effect:
  assumes "passed_result rule asset_id draw job d = Inr r"
  shows "result_effect job (rl_key rule) asset_id d r"
proof (cases "findings (snd r) = findings d \<and> r = (job, d)")
  case True
  then show ?thesis by (simp add: result_effect_def finding_change_def)
next
  case False
  then obtain f where f: "finding_for_rule (ej_aws_account_id job) (rl_key rule) asset_id d = Some f"
      "\<not> active_suppression (rd_now draw) f" "f_status f \<noteq> FindingStatus.RESOLVED"
    using assms by (auto simp: passed_result_def split: option.splits if_splits)
  let ?f = "resolve_finding (rd_now draw) job f"
  from f assms obtain d1 where d1: "flush_finding ?f d = Inr d1"
      "r = (job\<lparr>ej_findings_resolved := ej_findings_resolved job + 1\<rparr>,
            audit_finding ''security.finding.resolved'' job ?f d1)"
    by (auto simp: passed_result_def Let_def split: sum.splits)
  show ?thesis
    unfolding d1(2) by (rule rewritten_effect [OF d1(1) f(1) rewritten_findings(2)])
      (auto simp: resolve_finding_def job_rules)
qed


section \<open>The abstract lifecycle\<close>

text \<open>
  What a reader of the findings sees for a rule and an asset at a time: no finding, an open or a
  resolved one, or a suppression that still holds (\<open>Muted\<close>) or has run out (\<open>Lapsed\<close>); and what
  one result makes of it.
\<close>

datatype finding_view = Absent | Opened | Resolved | Muted | Lapsed

definition finding_view_of :: "instant \<Rightarrow> Finding option \<Rightarrow> finding_view" where
  "finding_view_of now finding =
     (case finding of
        None \<Rightarrow> Absent
      | Some f \<Rightarrow>
          if f_status f = FindingStatus.OPEN then Opened
          else if f_status f = FindingStatus.RESOLVED then Resolved
          else if active_suppression now f then Muted else Lapsed)"

fun next_view :: "RuleResultStatus \<Rightarrow> finding_view \<Rightarrow> finding_view" where
  "next_view RuleResultStatus.FAILED v = (if v = Muted then Muted else Opened)"
| "next_view RuleResultStatus.PASSED v = (if v \<in> {Opened, Lapsed} then Resolved else v)"
| "next_view RuleResultStatus.ERROR v = v"
| "next_view RuleResultStatus.NOT_APPLICABLE v = v"

definition account_view :: "db \<Rightarrow> uuid \<Rightarrow> string \<Rightarrow> uuid option \<Rightarrow> instant \<Rightarrow> finding_view" where
  "account_view d account_id rule_key asset_id now = finding_view_of now (finding_for_rule account_id rule_key asset_id d)"

lemma for_rule_Some:
  "finding_for_rule acc key asset_id d = Some f \<Longrightarrow>
     f \<in> set (findings d) \<and> f_aws_account_id f = acc \<and> f_rule_key f = key \<and> f_asset_id f = asset_id"
  by (auto simp: finding_for_rule_def dest!: find_mem)

lemma for_rule_put:
  assumes "keys_distinct f_id (findings d)" and "finding_for_rule acc key asset_id d = Some f" and "same_finding f f'"
    and "findings d' = put_row f_id f' (findings d)"
  shows "finding_for_rule acc' key' asset_id' d' =
    (if acc' = acc \<and> key' = key \<and> asset_id' = asset_id then Some f' else finding_for_rule acc' key' asset_id' d)"
proof -
  note f = for_rule_Some [OF assms(2)]
  let ?P = "\<lambda>x. f_aws_account_id x = acc' \<and> f_rule_key x = key' \<and> f_asset_id x = asset_id'"
  have eq: "finding_for_rule acc' key' asset_id' d' =
      (if finding_for_rule acc' key' asset_id' d = Some f then Some f' else finding_for_rule acc' key' asset_id' d)"
    unfolding finding_for_rule_def assms(4) using assms(1,3) f
    by (intro find_put_row) (simp_all add: same_finding_def)
  show ?thesis
  proof (cases "acc' = acc \<and> key' = key \<and> asset_id' = asset_id")
    case True
    with assms(2) have "finding_for_rule acc' key' asset_id' d = Some f" by simp
    then show ?thesis unfolding eq if_P [OF True] by simp
  next
    case False
    have "finding_for_rule acc' key' asset_id' d \<noteq> Some f"
      using f False for_rule_Some [of acc' key' asset_id' d f] by blast
    then show ?thesis unfolding eq if_not_P [OF False] by simp
  qed
qed

lemma for_rule_snoc:
  assumes "finding_for_rule acc key asset_id d = None" and "findings d' = findings d @ [c]"
    and "f_aws_account_id c = acc" and "f_rule_key c = key" and "f_asset_id c = asset_id"
  shows "finding_for_rule acc' key' asset_id' d' =
    (if acc' = acc \<and> key' = key \<and> asset_id' = asset_id then Some c else finding_for_rule acc' key' asset_id' d)"
  using assms by (auto simp: finding_for_rule_def find_snoc split: option.splits)

lemma finding_change_other:
  assumes "keys_distinct f_id (findings d)" and "finding_change job key asset_id d d'"
    and "acc' \<noteq> ej_aws_account_id job \<or> key' \<noteq> key \<or> asset_id' \<noteq> asset_id"
  shows "finding_for_rule acc' key' asset_id' d' = finding_for_rule acc' key' asset_id' d"
  using assms(2) unfolding finding_change_def
proof (elim disjE exE conjE)
  assume "findings d' = findings d"
  then show ?thesis by (simp add: finding_for_rule_def)
next
  fix f f'
  assume "finding_for_rule (ej_aws_account_id job) key asset_id d = Some f" "same_finding f f'"
    "findings d' = put_row f_id f' (findings d)"
  from for_rule_put [OF assms(1) this] assms(3) show ?thesis by auto
next
  fix c
  assume "finding_for_rule (ej_aws_account_id job) key asset_id d = None" "findings d' = findings d @ [c]"
    "f_aws_account_id c = ej_aws_account_id job" "f_rule_key c = key" "f_asset_id c = asset_id"
  from for_rule_snoc [OF this] assms(3) show ?thesis by auto
qed

lemma seen_again_view:
  "finding_view_of now (Some (seen_again rule result now job f)) =
     next_view RuleResultStatus.FAILED (finding_view_of now (Some f))"
  by (cases "f_status f")
    (auto simp: finding_view_of_def seen_again_def active_suppression_def clear_suppression_def Let_def
      split: option.splits)

lemma failed_existing_view:
  assumes "failed_existing rule result draw job f d = Inr r" and "keys_distinct f_id (findings d)"
    and "finding_for_rule (ej_aws_account_id job) (rl_key rule) asset_id d = Some f"
  shows "finding_for_rule (ej_aws_account_id job) (rl_key rule) asset_id (snd r) =
    Some (seen_again rule result (rd_now draw) job f)"
proof -
  have "findings (snd r) = put_row f_id (seen_again rule result (rd_now draw) job f) (findings d)"
    using assms(1) by (auto simp: failed_existing_def Let_def flush_finding_Inr split: sum.splits)
  from for_rule_put [OF assms(2,3) rewritten_findings(1) this] show ?thesis by simp
qed

lemma failed_result_view:
  assumes "failed_result sha256 rule asset_id result draw job d = Inr r" and "keys_distinct f_id (findings d)"
  shows "account_view (snd r) (ej_aws_account_id job) (rl_key rule) asset_id (rd_now draw) =
    next_view RuleResultStatus.FAILED (account_view d (ej_aws_account_id job) (rl_key rule) asset_id (rd_now draw))"
proof (cases "finding_for_rule (ej_aws_account_id job) (rl_key rule) asset_id d")
  case (Some f)
  with assms have "finding_for_rule (ej_aws_account_id job) (rl_key rule) asset_id (snd r) =
      Some (seen_again rule result (rd_now draw) job f)"
    by (intro failed_existing_view) (auto simp: failed_result_def)
  with Some show ?thesis by (simp only: account_view_def seen_again_view)
next
  case None
  let ?c = "new_finding rule asset_id result draw job"
  from None assms(1) have "findings (snd r) = findings d @ [?c]"
    by (auto simp: failed_result_def Let_def create_frame split: if_splits)
  from for_rule_snoc [OF None this] have "finding_for_rule (ej_aws_account_id job) (rl_key rule) asset_id (snd r) = Some ?c"
    by (simp add: new_finding_def)
  with None show ?thesis by (simp add: account_view_def finding_view_of_def new_finding_def)
qed

lemma passed_result_view:
  assumes "passed_result rule asset_id draw job d = Inr r" and "keys_distinct f_id (findings d)"
  shows "account_view (snd r) (ej_aws_account_id job) (rl_key rule) asset_id (rd_now draw) =
    next_view RuleResultStatus.PASSED (account_view d (ej_aws_account_id job) (rl_key rule) asset_id (rd_now draw))"
proof (cases "finding_for_rule (ej_aws_account_id job) (rl_key rule) asset_id d")
  case None
  with assms show ?thesis by (auto simp: passed_result_def account_view_def finding_view_of_def)
next
  case (Some f)
  show ?thesis
  proof (cases "active_suppression (rd_now draw) f \<or> f_status f = FindingStatus.RESOLVED")
    case True
    with Some assms have "snd r = d" by (auto simp: passed_result_def)
    with Some True show ?thesis
      by (auto simp: account_view_def finding_view_of_def active_suppression_def)
  next
    case False
    let ?f = "resolve_finding (rd_now draw) job f"
    from False Some assms have "findings (snd r) = put_row f_id ?f (findings d)"
      by (auto simp: passed_result_def Let_def flush_finding_Inr split: sum.splits)
    from for_rule_put [OF assms(2) Some rewritten_findings(2) this]
    have "finding_for_rule (ej_aws_account_id job) (rl_key rule) asset_id (snd r) = Some ?f" by simp
    with Some False show ?thesis
      by (auto simp: account_view_def finding_view_of_def resolve_finding_def)
  qed
qed


section \<open>Lemmas on the loop\<close>

text \<open>The foreign key of \<^verbatim>\<open>last_evaluation_id\<close>: an evaluation of the finding's account.\<close>

definition finding_reference :: "Finding \<Rightarrow> db \<Rightarrow> bool" where
  "finding_reference f d =
     (case get_row ej_id (f_last_evaluation_id f) (evaluation_jobs d) of
        None \<Rightarrow> False | Some j \<Rightarrow> ej_aws_account_id j = f_aws_account_id f)"

definition findings_ok :: "db \<Rightarrow> bool" where
  "findings_ok d =
     (keys_distinct f_id (findings d) \<and> finding_unique (findings d) \<and> (\<forall>f \<in> set (findings d). finding_constraints f) \<and>
      (\<forall>f \<in> set (findings d). finding_reference f d))"

definition evaluations_ok :: "db \<Rightarrow> bool" where
  "evaluations_ok d =
     (keys_distinct ej_id (evaluation_jobs d) \<and> evaluation_unique (evaluation_jobs d) \<and>
      (\<forall>j \<in> set (evaluation_jobs d). job_ok j))"

text \<open>The rows of the evaluations, up to the counters.\<close>

definition same_jobs :: "db \<Rightarrow> db \<Rightarrow> bool" where
  "same_jobs d d' = list_all2 same_run (evaluation_jobs d) (evaluation_jobs d')"

lemma same_jobs_refl [simp]: "same_jobs d d"
  by (simp add: same_jobs_def list_all2_refl)

lemma same_jobs_trans: "same_jobs d d' \<Longrightarrow> same_jobs d' d'' \<Longrightarrow> same_jobs d d''"
  unfolding same_jobs_def by (rule list_all2_trans [OF same_run_trans])

lemma list_all2_put:
  assumes "keys_distinct ej_id rows" and "get_row ej_id (ej_id j) rows = Some row" and "same_run row j"
  shows "list_all2 same_run rows (put_row ej_id j rows)"
  using assms
proof (induction rows)
  case Nil
  then show ?case by simp
next
  case (Cons x xs)
  show ?case
  proof (cases "ej_id x = ej_id j")
    case True
    with Cons.prems have "x = row" "put_row ej_id j xs = xs" by (auto intro!: put_row_absent)
    with True Cons.prems show ?thesis by (simp add: list_all2_refl)
  next
    case False
    with Cons show ?thesis by simp
  qed
qed

lemma get_row_list_all2:
  "list_all2 same_run xs ys \<Longrightarrow> rel_option same_run (get_row ej_id i xs) (get_row ej_id i ys)"
  by (induction rule: list_all2_induct) (auto simp: same_run_def)

lemma same_jobs_get: "same_jobs d d' \<Longrightarrow> get_row ej_id i (evaluation_jobs d') = Some y \<Longrightarrow>
    \<exists>x. get_row ej_id i (evaluation_jobs d) = Some x \<and> same_run x y"
  unfolding same_jobs_def by (drule get_row_list_all2 [of _ _ i]) (auto simp: option_rel_Some2)

lemma same_jobs_put: "same_jobs d d' \<Longrightarrow> get_row ej_id i (evaluation_jobs d) = Some x \<Longrightarrow>
    \<exists>y. get_row ej_id i (evaluation_jobs d') = Some y \<and> same_run x y"
  unfolding same_jobs_def by (drule get_row_list_all2 [of _ _ i]) (auto simp: option_rel_Some1)

lemma same_jobs_mem: "same_jobs d d' \<Longrightarrow> y \<in> set (evaluation_jobs d') \<Longrightarrow> \<exists>x \<in> set (evaluation_jobs d). same_run x y"
  unfolding same_jobs_def by (auto simp: list_all2_conv_all_nth in_set_conv_nth) (metis nth_mem)

definition latest :: "EvaluationJob \<Rightarrow> db \<Rightarrow> bool" where
  "latest job d = (\<forall>j \<in> set (evaluation_jobs d). ej_aws_account_id j = ej_aws_account_id job \<longrightarrow>
     ej_sequence j \<le> ej_sequence job)"

definition run_ok :: "EvaluationState \<Rightarrow> bool" where
  "run_ok s =
     (findings_ok (st_db s) \<and> evaluations_ok (st_db s) \<and> job_ok (st_job s) \<and> latest (st_job s) (st_db s) \<and>
      (\<exists>row. get_row ej_id (ej_id (st_job s)) (evaluation_jobs (st_db s)) = Some row \<and> same_run row (st_job s)))"

lemma not_stale:
  assumes "findings_ok d" and "latest job d"
  shows "\<not> stale_for job (finding_for_rule (ej_aws_account_id job) key asset_id d) d"
proof (cases "finding_for_rule (ej_aws_account_id job) key asset_id d")
  case None
  then show ?thesis by (simp add: stale_for_def)
next
  case (Some f)
  note f = for_rule_Some [OF Some]
  obtain last where row: "get_row ej_id (f_last_evaluation_id f) (evaluation_jobs d) = Some last"
      "ej_aws_account_id last = f_aws_account_id f"
    using assms(1) f unfolding findings_ok_def finding_reference_def by (auto split: option.splits)
  then have "ej_sequence last \<le> ej_sequence job"
    using assms(2) f get_row_in [OF row(1)] unfolding latest_def by auto
  with Some row show ?thesis by (simp add: stale_for_def)
qed

lemma finding_change_same_run:
  "same_run job job' \<Longrightarrow> finding_change job' key asset_id d d' = finding_change job key asset_id d d'"
  by (simp add: finding_change_def same_run_def)

lemma finding_change_ok:
  assumes "findings_ok d" and "finding_change job key asset_id d d'" and "same_jobs d d'"
    and "get_row ej_id (ej_id job) (evaluation_jobs d) = Some row" and "ej_aws_account_id row = ej_aws_account_id job"
  shows "findings_ok d'"
proof -
  have ref: "finding_reference f d'" if "finding_reference f d" for f
    using that same_jobs_put [OF assms(3), of "f_last_evaluation_id f"]
    by (auto simp: finding_reference_def same_run_def split: option.splits)
  obtain row' where row': "get_row ej_id (ej_id job) (evaluation_jobs d') = Some row'" "same_run row row'"
    using same_jobs_put [OF assms(3,4)] by blast
  have new: "finding_reference f d'"
    if "f_aws_account_id f = ej_aws_account_id job" "f_last_evaluation_id f = ej_id job" for f
    using that row' assms(5) by (simp add: finding_reference_def same_run_def)
  have ok: "keys_distinct f_id (findings d)" "finding_unique (findings d)" "\<forall>f \<in> set (findings d). finding_constraints f"
      "\<forall>f \<in> set (findings d). finding_reference f d'"
    using assms(1) ref by (simp_all add: findings_ok_def)
  show ?thesis
    using assms(2) unfolding finding_change_def
  proof (elim disjE exE conjE)
    assume "findings d' = findings d"
    with ok show ?thesis unfolding findings_ok_def by simp
  next
    fix f f'
    assume f: "finding_for_rule (ej_aws_account_id job) key asset_id d = Some f" "same_finding f f'"
      "f_last_evaluation_id f' = ej_id job" "finding_constraints f'" "findings d' = put_row f_id f' (findings d)"
      "finding_unique (findings d')"
    have "f_aws_account_id f' = ej_aws_account_id job"
      using for_rule_Some [OF f(1)] f(2) by (simp add: same_finding_def)
    then have "finding_reference f' d'" using f(3) by (rule new)
    then have "\<forall>x \<in> set (findings d'). finding_constraints x \<and> finding_reference x d'"
      using ok(3,4) f(4) unfolding f(5) by (auto dest!: set_put_row)
    then show ?thesis using ok(1) f(5,6) unfolding findings_ok_def by simp
  next
    fix c
    assume c: "f_aws_account_id c = ej_aws_account_id job" "f_last_evaluation_id c = ej_id job" "finding_constraints c"
      "findings d' = findings d @ [c]" "keys_distinct f_id (findings d')" "finding_unique (findings d')"
    have "finding_reference c d'" using c(1,2) by (rule new)
    then show ?thesis using ok(3,4) c(3,5,6) unfolding findings_ok_def c(4) by auto
  qed
qed

text \<open>What one result does to the state of the loop.\<close>

definition step_effect :: "string \<Rightarrow> uuid option \<Rightarrow> EvaluationState \<Rightarrow> EvaluationState \<Rightarrow> bool" where
  "step_effect key asset_id s s' =
     (same_run (st_job s) (st_job s') \<and> evaluation_frame (st_db s) (st_db s') \<and> same_jobs (st_db s) (st_db s') \<and>
      finding_change (st_job s) key asset_id (st_db s) (st_db s'))"

lemma flush_evaluation_ok:
  assumes "flush_evaluation j d = Inr d'" and "evaluations_ok d" and "job_ok j"
    and "get_row ej_id (ej_id j) (evaluation_jobs d) = Some row" and "same_run row j"
  shows "evaluations_ok d' \<and> same_jobs d d' \<and> get_row ej_id (ej_id j) (evaluation_jobs d') = Some j"
proof -
  have d': "evaluation_jobs d' = put_row ej_id j (evaluation_jobs d)" "evaluation_unique (evaluation_jobs d')"
    using assms(1) by (auto simp: flush_evaluation_Inr)
  have "\<forall>x \<in> set (evaluation_jobs d'). job_ok x"
    using assms(2,3) unfolding d'(1) evaluations_ok_def by (auto dest!: set_put_row)
  then show ?thesis
    using d' assms(2,4,5) list_all2_put [of "evaluation_jobs d" j row]
    by (simp add: evaluations_ok_def same_jobs_def get_put_row)
qed

lemma latest_same:
  assumes "latest job d" and "same_jobs d d'" and "same_run job job'"
  shows "latest job' d'"
proof -
  have "ej_sequence y \<le> ej_sequence job'"
    if y: "y \<in> set (evaluation_jobs d')" "ej_aws_account_id y = ej_aws_account_id job'" for y
  proof -
    obtain x where "x \<in> set (evaluation_jobs d)" "same_run x y" using same_jobs_mem [OF assms(2) y(1)] by blast
    with assms(1,3) y(2) show ?thesis by (simp add: latest_def same_run_def)
  qed
  then show ?thesis by (simp add: latest_def)
qed

lemma run_okD:
  assumes "run_ok s"
  obtains row where "findings_ok (st_db s)" "evaluations_ok (st_db s)" "job_ok (st_job s)" "latest (st_job s) (st_db s)"
    "get_row ej_id (ej_id (st_job s)) (evaluation_jobs (st_db s)) = Some row" "same_run row (st_job s)"
  using assms by (auto simp: run_ok_def)


lemma apply_result_step:
  assumes "run_ok s" and "apply_result sha256 rule asset_id result draw s = Inr s'"
  shows "run_ok s' \<and> step_effect (rl_key rule) asset_id s s' \<and> st_errors s' = st_errors s \<and>
    account_view (st_db s') (ej_aws_account_id (st_job s)) (rl_key rule) asset_id (rd_now draw) =
      next_view (rs_status result)
        (account_view (st_db s) (ej_aws_account_id (st_job s)) (rl_key rule) asset_id (rd_now draw))"
proof -
  obtain row where ok: "findings_ok (st_db s)" "evaluations_ok (st_db s)" "job_ok (st_job s)"
      "latest (st_job s) (st_db s)" "get_row ej_id (ej_id (st_job s)) (evaluation_jobs (st_db s)) = Some row"
      "same_run row (st_job s)"
    using assms(1) by (rule run_okD)
  let ?d = "st_db s" and ?st = "rs_status result"
  define job where "job = count_job ?st (st_job s)"
  have job: "job_ok job" "same_run (st_job s) job" using count_job_ok [OF ok(3)] by (simp_all add: job_def)
  then have same: "ej_aws_account_id job = ej_aws_account_id (st_job s)" "ej_id job = ej_id (st_job s)"
    by (simp_all add: same_run_def)
  have keys: "keys_distinct f_id (findings ?d)" using ok(1) by (simp add: findings_ok_def)
  have fresh: "\<not> stale_for job (finding_for_rule (ej_aws_account_id job) (rl_key rule) asset_id ?d) ?d"
    by (rule not_stale [OF ok(1) latest_same [OF ok(4) same_jobs_refl job(2)]])
  show ?thesis
  proof (cases "?st = RuleResultStatus.ERROR")
    case True
    then have "s' = s\<lparr>st_job := job, st_summary := count_summary ?st (st_summary s)\<rparr>"
      using assms(2) fresh by (simp add: apply_result_def Let_def job_def)
    then show ?thesis
      using True ok job same_run_trans [OF ok(6) job(2)] latest_same [OF ok(4) same_jobs_refl job(2)] same
      by (auto simp: run_ok_def step_effect_def finding_change_def)
  next
    case False
    define r where "r = (if ?st = RuleResultStatus.FAILED then failed_result sha256 rule asset_id result draw job ?d
      else if ?st = RuleResultStatus.PASSED then passed_result rule asset_id draw job ?d else Inr (job, ?d))"
    have unfold: "apply_result sha256 rule asset_id result draw s =
        (case r of Inl e \<Rightarrow> Inl e
         | Inr (job', d') \<Rightarrow>
             (case flush_evaluation job' d' of Inl e \<Rightarrow> Inl e
              | Inr d2 \<Rightarrow> Inr (s\<lparr>st_job := job, st_summary := count_summary ?st (st_summary s)\<rparr>
                                \<lparr>st_job := job', st_db := d2\<rparr>)))"
      using fresh False unfolding apply_result_def Let_def r_def job_def by simp
    obtain job' d1 d2 where r: "r = Inr (job', d1)" "flush_evaluation job' d1 = Inr d2"
        "s' = s\<lparr>st_job := job', st_summary := count_summary ?st (st_summary s), st_db := d2\<rparr>"
      using assms(2) unfolding unfold by (auto split: sum.splits)
    have eff: "result_effect job (rl_key rule) asset_id ?d (job', d1)"
      using r(1) unfolding r_def
      by (auto split: if_splits intro: failed_result_effect passed_result_effect result_effect_same)
    have view: "account_view d1 (ej_aws_account_id job) (rl_key rule) asset_id (rd_now draw) =
        next_view ?st (account_view ?d (ej_aws_account_id job) (rl_key rule) asset_id (rd_now draw))"
      using r(1) failed_result_view [OF _ keys] passed_result_view [OF _ keys] False unfolding r_def
      by (cases ?st) force+
    note eff' = eff [unfolded result_effect_def fst_conv snd_conv]
    have job': "job_ok job'" "same_run (st_job s) job'" using eff' job same_run_trans by blast+
    have ok1: "evaluations_ok d1" "same_jobs ?d d1" using ok(2) eff' by (simp_all add: evaluations_ok_def same_jobs_def list_all2_refl)
    have get1: "get_row ej_id (ej_id job') (evaluation_jobs d1) = Some row" "same_run row job'"
      using eff' ok(5,6) job'(2) same_run_trans by (auto simp: same_run_def)
    have fl: "evaluations_ok d2" "same_jobs d1 d2" "get_row ej_id (ej_id job') (evaluation_jobs d2) = Some job'"
      using flush_evaluation_ok [OF r(2) ok1(1) job'(1) get1] by simp_all
    have d2: "findings d2 = findings d1" "evaluation_frame d1 d2"
      using r(2) by (auto simp: flush_evaluation_Inr evaluation_frame_def)
    have sj: "same_jobs ?d d2" using ok1(2) fl(2) by (rule same_jobs_trans)
    have change: "finding_change (st_job s) (rl_key rule) asset_id ?d d2"
      using eff' d2(1) job(2) finding_change_same_run by (auto simp: finding_change_def same)
    have "findings_ok d2"
      using finding_change_ok [OF ok(1) change sj ok(5)] ok(6) by (simp add: same_run_def)
    moreover have "latest job' d2" by (rule latest_same [OF ok(4) sj job'(2)])
    moreover have "account_view d2 a k i t = account_view d1 a k i t" for a k i t
      by (simp add: account_view_def finding_for_rule_def d2(1))
    moreover have "evaluation_frame ?d d2" using eff' d2(2) evaluation_frame_trans by blast
    ultimately show ?thesis
      using fl job' change sj view by (simp add: r(3) run_ok_def step_effect_def same)
  qed
qed

lemma step_effect_other:
  assumes "run_ok s" and "step_effect key asset_id s s'"
    and "acc \<noteq> ej_aws_account_id (st_job s) \<or> key' \<noteq> key \<or> asset_id' \<noteq> asset_id"
  shows "finding_for_rule acc key' asset_id' (st_db s') = finding_for_rule acc key' asset_id' (st_db s)"
  using assms finding_change_other [of "st_db s" "st_job s" key asset_id "st_db s'"]
  by (auto simp: run_ok_def findings_ok_def step_effect_def)


lemma run_ok_update [simp]:
  "run_ok (s\<lparr>st_summary := m\<rparr>) = run_ok s" "run_ok (s\<lparr>st_errors := es\<rparr>) = run_ok s"
  "run_ok (s\<lparr>st_db := (st_db s)\<lparr>rule_results := rs\<rparr>\<rparr>) = run_ok s"
  by (simp_all add: run_ok_def findings_ok_def finding_reference_def evaluations_ok_def latest_def)

lemma rule_results_frame [simp]:
  "finding_for_rule acc key asset_id (d\<lparr>rule_results := rs\<rparr>) = finding_for_rule acc key asset_id d"
  "account_view (d\<lparr>rule_results := rs\<rparr>) acc key asset_id now = account_view d acc key asset_id now"
  "evaluation_frame d' (d\<lparr>rule_results := rs\<rparr>) = evaluation_frame d' d"
  "same_jobs d' (d\<lparr>rule_results := rs\<rparr>) = same_jobs d' d"
  by (simp_all add: finding_for_rule_def account_view_def evaluation_frame_def same_jobs_def)

text \<open>The effect of a part of the loop that decides the rules and assets in \<open>K\<close>.\<close>

definition loop_effect :: "(string \<times> uuid option) set \<Rightarrow> EvaluationState \<Rightarrow> EvaluationState \<Rightarrow> bool" where
  "loop_effect K s s' =
     (run_ok s' \<and> same_run (st_job s) (st_job s') \<and> evaluation_frame (st_db s) (st_db s') \<and>
      same_jobs (st_db s) (st_db s') \<and>
      (\<forall>acc key asset_id. acc \<noteq> ej_aws_account_id (st_job s) \<or> (key, asset_id) \<notin> K \<longrightarrow>
         finding_for_rule acc key asset_id (st_db s') = finding_for_rule acc key asset_id (st_db s)))"

definition decided :: "RuleContext \<Rightarrow> draws \<Rightarrow> SecurityRule \<Rightarrow> Asset option \<Rightarrow> EvaluationState \<Rightarrow> EvaluationState \<Rightarrow> bool" where
  "decided ctxt draws rule asset s s' =
     (let key = rl_key rule; asset_id = map_option as_id asset; now = rd_now (draws key asset_id);
          acc = ej_aws_account_id (st_job s)
      in account_view (st_db s') acc key asset_id now =
           next_view (rs_status (guarded_result rule asset ctxt)) (account_view (st_db s) acc key asset_id now))"

lemma loop_effect_trans:
  assumes "loop_effect K s s'" and "loop_effect L s' s''"
  shows "loop_effect (K \<union> L) s s''"
proof -
  have "ej_aws_account_id (st_job s') = ej_aws_account_id (st_job s)"
    using assms(1) by (simp add: loop_effect_def same_run_def)
  then show ?thesis
    using assms same_run_trans evaluation_frame_trans same_jobs_trans unfolding loop_effect_def by (auto 0 4)
qed

lemma loop_effect_step:
  assumes "run_ok s" and "run_ok s'" and "step_effect key asset_id s s'"
  shows "loop_effect {(key, asset_id)} s s'"
  using assms step_effect_other [OF assms(1,3)] by (auto simp: loop_effect_def step_effect_def)

text \<open>A later part of the loop leaves what it does not decide, an earlier part what it reads.\<close>

lemma decided_later:
  assumes "decided ctxt draws rule asset s s'" and "loop_effect L s' s''" and "same_run (st_job s) (st_job s')"
    and "(rl_key rule, map_option as_id asset) \<notin> L"
  shows "decided ctxt draws rule asset s s''"
  using assms by (simp add: decided_def loop_effect_def account_view_def Let_def same_run_def)

lemma decided_earlier:
  assumes "loop_effect K s s'" and "decided ctxt draws rule asset s' s''"
    and "(rl_key rule, map_option as_id asset) \<notin> K"
  shows "decided ctxt draws rule asset s s''"
  using assms by (simp add: decided_def loop_effect_def account_view_def Let_def same_run_def)

lemma evaluate_targets_effect:
  assumes "run_ok s" and "evaluate_targets sha256 ctxt draws rule targets s = Inr s'"
    and "distinct (map (map_option as_id) targets)"
  shows "loop_effect (Pair (rl_key rule) ` map_option as_id ` set targets) s s' \<and>
    (\<forall>asset \<in> set targets. decided ctxt draws rule asset s s')"
  using assms
proof (induction targets arbitrary: s)
  case Nil
  then show ?case by (simp add: loop_effect_def)
next
  case (Cons asset targets)
  let ?key = "rl_key rule" and ?id = "map_option as_id asset" and ?result = "guarded_result rule asset ctxt"
  obtain s1 where s1: "apply_result sha256 rule ?id ?result (draws ?key ?id) s = Inr s1"
      "evaluate_targets sha256 ctxt draws rule targets (s1\<lparr>st_errors := st_errors s1 @ rule_error rule ?result\<rparr>) = Inr s'"
    using Cons.prems(2) by (auto simp: Let_def split: sum.splits)
  define s2 where "s2 = s1\<lparr>st_errors := st_errors s1 @ rule_error rule ?result\<rparr>"
  note step = apply_result_step [OF Cons.prems(1) s1(1)]
  have ok2: "run_ok s2" "step_effect ?key ?id s s2" using step by (simp_all add: s2_def step_effect_def)
  have dec: "decided ctxt draws rule asset s s2" using step by (simp add: decided_def s2_def)
  have first: "loop_effect {(?key, ?id)} s s2" by (rule loop_effect_step [OF Cons.prems(1) ok2])
  let ?L = "Pair ?key ` map_option as_id ` set targets"
  have rest: "loop_effect ?L s2 s'" "\<forall>a \<in> set targets. decided ctxt draws rule a s2 s'"
    using Cons.IH [OF ok2(1)] s1(2) Cons.prems(3) by (simp_all add: s2_def)
  have "decided ctxt draws rule asset s s'"
    using Cons.prems(3) ok2(2) by (intro decided_later [OF dec rest(1)]) (auto simp: step_effect_def)
  moreover have "decided ctxt draws rule a s s'" if a: "a \<in> set targets" for a
  proof -
    have "?id \<notin> map_option as_id ` set targets" using Cons.prems(3) by simp
    then have "map_option as_id a \<noteq> ?id" using a by (metis imageI)
    then show ?thesis using rest(2) a by (intro decided_earlier [OF first]) auto
  qed
  ultimately show ?case using loop_effect_trans [OF first rest(1)] by simp
qed

definition rule_keys :: "RuleContext \<Rightarrow> SecurityRule list \<Rightarrow> (string \<times> uuid option) set" where
  "rule_keys ctxt rules =
     {(rl_key rule, map_option as_id asset) | rule asset. rule \<in> set rules \<and> asset \<in> set (rule_targets rule ctxt)}"

lemma rule_targets_distinct:
  "distinct (map as_id (rc_account_assets ctxt)) \<Longrightarrow> distinct (map (map_option as_id) (rule_targets rule ctxt))"
  by (auto simp: rule_targets_def comp_def distinct_map inj_on_def)

lemma evaluate_rules_effect:
  assumes "run_ok s" and "evaluate_rules sha256 ctxt draws rules s = Inr s'"
    and "distinct (map rl_key rules)" and "distinct (map as_id (rc_account_assets ctxt))"
  shows "loop_effect (rule_keys ctxt rules) s s' \<and>
    (\<forall>rule \<in> set rules. \<forall>asset \<in> set (rule_targets rule ctxt). decided ctxt draws rule asset s s')"
  using assms(1-3)
proof (induction rules arbitrary: s)
  case Nil
  then show ?case by (simp add: loop_effect_def)
next
  case (Cons rule rules)
  let ?s0 = "s\<lparr>st_summary := new_summary (st_job s) rule\<rparr>"
  obtain s1 where s1: "evaluate_targets sha256 ctxt draws rule (rule_targets rule ctxt) ?s0 = Inr s1"
      "evaluate_rules sha256 ctxt draws rules
         (s1\<lparr>st_db := (st_db s1)\<lparr>rule_results := rule_results (st_db s1) @ [st_summary s1]\<rparr>\<rparr>) = Inr s'"
    using Cons.prems(2) by (auto split: sum.splits)
  define s2 where "s2 = s1\<lparr>st_db := (st_db s1)\<lparr>rule_results := rule_results (st_db s1) @ [st_summary s1]\<rparr>\<rparr>"
  let ?K = "Pair (rl_key rule) ` map_option as_id ` set (rule_targets rule ctxt)"
  have "loop_effect ?K ?s0 s1 \<and> (\<forall>asset \<in> set (rule_targets rule ctxt). decided ctxt draws rule asset ?s0 s1)"
    using Cons.prems(1) by (intro evaluate_targets_effect [OF _ s1(1) rule_targets_distinct [OF assms(4)]]) simp
  then have first: "loop_effect ?K s s2" "\<forall>asset \<in> set (rule_targets rule ctxt). decided ctxt draws rule asset s s2"
    by (simp_all add: loop_effect_def decided_def s2_def)
  have ok2: "run_ok s2" "same_run (st_job s) (st_job s2)" using first(1) by (simp_all add: loop_effect_def)
  have rest: "loop_effect (rule_keys ctxt rules) s2 s'"
      "\<forall>r \<in> set rules. \<forall>a \<in> set (rule_targets r ctxt). decided ctxt draws r a s2 s'"
    using Cons.IH [OF ok2(1)] s1(2) Cons.prems(3) by (simp_all add: s2_def)
  have "decided ctxt draws rule a s s'" if "a \<in> set (rule_targets rule ctxt)" for a
    using first(2) that Cons.prems(3) by (intro decided_later [OF _ rest(1) ok2(2)]) (auto simp: rule_keys_def)
  moreover have "decided ctxt draws r a s s'" if a: "r \<in> set rules" "a \<in> set (rule_targets r ctxt)" for r a
  proof -
    have "rl_key rule \<notin> rl_key ` set rules" using Cons.prems(3) by simp
    then have "rl_key r \<noteq> rl_key rule" using a by (metis imageI)
    then show ?thesis using rest(2) a by (intro decided_earlier [OF first(1)]) auto
  qed
  moreover have "?K \<union> rule_keys ctxt rules = rule_keys ctxt (rule # rules)"
    by (auto simp: rule_keys_def)
  ultimately show ?case using loop_effect_trans [OF first(1) rest(1)] by simp
qed


section \<open>What one result does to the findings\<close>

definition same_suppression :: "Finding \<Rightarrow> Finding \<Rightarrow> bool" where
  "same_suppression f f' =
     (f_status f' = f_status f \<and> f_suppressed_at f' = f_suppressed_at f \<and> f_suppressed_until f' = f_suppressed_until f \<and>
      f_suppression_reason f' = f_suppression_reason f \<and> f_suppressed_by_user_id f' = f_suppressed_by_user_id f)"

lemma same_suppression_refl [simp]: "same_suppression f f"
  by (simp add: same_suppression_def)

lemma same_suppression_trans: "same_suppression f g \<Longrightarrow> same_suppression g h \<Longrightarrow> same_suppression f h"
  by (simp add: same_suppression_def)

lemma same_finding_trans: "same_finding f g \<Longrightarrow> same_finding g h \<Longrightarrow> same_finding f h"
  by (simp add: same_finding_def)

lemma seen_again_suppression: "active_suppression now f \<Longrightarrow> same_suppression f (seen_again rule result now job f)"
  by (simp add: same_suppression_def seen_again_def Let_def)

lemma active_suppression_same: "same_suppression f f' \<Longrightarrow> active_suppression now f' = active_suppression now f"
  by (simp add: same_suppression_def active_suppression_def)

text \<open>One result writes at most one row: the finding of its rule and asset.\<close>

definition finding_written :: "uuid \<Rightarrow> string \<Rightarrow> uuid option \<Rightarrow> ResultDraw \<Rightarrow> db \<Rightarrow> db \<Rightarrow> bool" where
  "finding_written acc key asset_id draw d d' =
     (findings d' = findings d \<or>
      (\<exists>f f'. finding_for_rule acc key asset_id d = Some f \<and> findings d' = put_row f_id f' (findings d) \<and>
         same_finding f f' \<and> (active_suppression (rd_now draw) f \<longrightarrow> same_suppression f f')) \<or>
      (\<exists>c. findings d' = findings d @ [c] \<and> f_id c = rd_finding_id draw \<and> f_rule_key c = key \<and> f_asset_id c = asset_id))"

lemma finding_written_refl [simp]: "finding_written acc key asset_id draw d d"
  by (simp add: finding_written_def)

lemma failed_existing_written:
  assumes "failed_existing rule result draw job f d = Inr r"
    and "finding_for_rule acc key asset_id d = Some f"
  shows "finding_written acc key asset_id draw d (snd r)"
proof -
  have "findings (snd r) = put_row f_id (seen_again rule result (rd_now draw) job f) (findings d)"
    using assms(1) by (auto simp: failed_existing_def Let_def flush_finding_Inr split: sum.splits)
  with assms(2) show ?thesis
    unfolding finding_written_def using rewritten_findings(1) seen_again_suppression by blast
qed

lemma failed_result_written:
  assumes "failed_result sha256 rule asset_id result draw job d = Inr r"
  shows "finding_written (ej_aws_account_id job) (rl_key rule) asset_id draw d (snd r)"
proof (cases "finding_for_rule (ej_aws_account_id job) (rl_key rule) asset_id d")
  case (Some f)
  with assms show ?thesis by (intro failed_existing_written) (auto simp: failed_result_def)
next
  case None
  let ?c = "new_finding rule asset_id result draw job"
  from None assms have "findings (snd r) = findings d @ [?c]"
    by (auto simp: failed_result_def Let_def create_frame split: if_splits)
  moreover have "f_id ?c = rd_finding_id draw" "f_rule_key ?c = rl_key rule" "f_asset_id ?c = asset_id"
    by (simp_all add: new_finding_def)
  ultimately show ?thesis unfolding finding_written_def by blast
qed

lemma passed_result_written:
  assumes "passed_result rule asset_id draw job d = Inr r"
  shows "finding_written (ej_aws_account_id job) (rl_key rule) asset_id draw d (snd r)"
proof (cases "findings (snd r) = findings d")
  case True
  then show ?thesis by (simp add: finding_written_def)
next
  case False
  then obtain f where f: "finding_for_rule (ej_aws_account_id job) (rl_key rule) asset_id d = Some f"
      "\<not> active_suppression (rd_now draw) f"
      "findings (snd r) = put_row f_id (resolve_finding (rd_now draw) job f) (findings d)"
    using assms by (auto simp: passed_result_def Let_def flush_finding_Inr split: option.splits if_splits sum.splits)
  then show ?thesis unfolding finding_written_def using rewritten_findings(2) by blast
qed

lemma count_job_account [simp]: "ej_aws_account_id (count_job status job) = ej_aws_account_id job"
  by (simp add: count_job_def Let_def split: RuleResultStatus.splits)

lemma apply_result_written:
  assumes "apply_result sha256 rule asset_id result draw s = Inr s'"
  shows "finding_written (ej_aws_account_id (st_job s)) (rl_key rule) asset_id draw (st_db s) (st_db s')"
proof -
  let ?job = "count_job (rs_status result) (st_job s)"
  consider "st_db s' = st_db s"
    | job' d1 where "findings (st_db s') = findings d1" "failed_result sha256 rule asset_id result draw ?job (st_db s) = Inr (job', d1)"
    | job' d1 where "findings (st_db s') = findings d1" "passed_result rule asset_id draw ?job (st_db s) = Inr (job', d1)"
    | "findings (st_db s') = findings (st_db s)"
    using assms by (auto simp: apply_result_def Let_def flush_evaluation_Inr split: if_splits sum.splits)
  then show ?thesis
  proof cases
    case 2
    then show ?thesis using failed_result_written [OF 2(2)] by (simp add: finding_written_def)
  next
    case 3
    then show ?thesis using passed_result_written [OF 3(2)] by (simp add: finding_written_def)
  qed (simp_all add: finding_written_def)
qed

text \<open>A finding with a suppression that still holds when the loop reaches it.\<close>

definition suppression_kept :: "Finding \<Rightarrow> db \<Rightarrow> bool" where
  "suppression_kept f d = (\<exists>f' \<in> set (findings d). same_finding f f' \<and> same_suppression f f')"

lemma suppression_written:
  assumes "keys_distinct f_id (findings d)" and "suppression_kept f d"
    and "finding_written acc key asset_id draw d d'"
    and "key = f_rule_key f \<Longrightarrow> asset_id = f_asset_id f \<Longrightarrow> active_suppression (rd_now draw) f"
  shows "suppression_kept f d'"
proof -
  obtain f1 where f1: "f1 \<in> set (findings d)" "same_finding f f1" "same_suppression f f1"
    using assms(2) by (auto simp: suppression_kept_def)
  from assms(3) consider "f1 \<in> set (findings d')"
    | g g' where "finding_for_rule acc key asset_id d = Some g" "findings d' = put_row f_id g' (findings d)" "same_finding g g'"
        "active_suppression (rd_now draw) g \<longrightarrow> same_suppression g g'"
    using f1(1) by (auto simp: finding_written_def)
  then show ?thesis
  proof cases
    case 1
    with f1 show ?thesis by (auto simp: suppression_kept_def)
  next
    case 2
    note g = for_rule_Some [OF 2(1)]
    have id: "f_id g' = f_id g" using 2(3) by (simp add: same_finding_def)
    show ?thesis
    proof (cases "f_id f1 = f_id g")
      case True
      then have eq: "f1 = g" using assms(1) f1(1) g by (simp add: keys_distinct_def distinct_map inj_on_def)
      then have "active_suppression (rd_now draw) g"
        using assms(4) g f1 active_suppression_same [OF f1(3)] by (simp add: same_finding_def)
      then have "same_finding f g'" "same_suppression f g'"
        using f1 2(3,4) eq same_finding_trans same_suppression_trans by blast+
      moreover have "g' \<in> set (findings d')" unfolding 2(2) using g id by (intro in_put_row_same [of g]) simp_all
      ultimately show ?thesis by (auto simp: suppression_kept_def)
    next
      case False
      then have "f1 \<in> set (findings d')" unfolding 2(2) using f1(1) id by (intro in_put_row_other) simp_all
      with f1 show ?thesis by (auto simp: suppression_kept_def)
    qed
  qed
qed

lemma evaluate_targets_suppression:
  assumes "run_ok s" and "evaluate_targets sha256 ctxt draws rule targets s = Inr s'" and "suppression_kept f (st_db s)"
    and "active_suppression (rd_now (draws (f_rule_key f) (f_asset_id f))) f"
  shows "run_ok s' \<and> suppression_kept f (st_db s')"
  using assms(1-3)
proof (induction targets arbitrary: s)
  case Nil
  then show ?case by simp
next
  case (Cons asset targets)
  let ?id = "map_option as_id asset" and ?result = "guarded_result rule asset ctxt"
  obtain s1 where s1: "apply_result sha256 rule ?id ?result (draws (rl_key rule) ?id) s = Inr s1"
      "evaluate_targets sha256 ctxt draws rule targets (s1\<lparr>st_errors := st_errors s1 @ rule_error rule ?result\<rparr>) = Inr s'"
    using Cons.prems(2) by (auto simp: Let_def split: sum.splits)
  have "run_ok s1" using apply_result_step [OF Cons.prems(1) s1(1)] by simp
  moreover have "keys_distinct f_id (findings (st_db s))" using Cons.prems(1) by (simp add: run_ok_def findings_ok_def)
  then have "suppression_kept f (st_db s1)"
    by (rule suppression_written [OF _ Cons.prems(3) apply_result_written [OF s1(1)]]) (use assms(4) in simp_all)
  ultimately show ?case using Cons.IH [OF _ s1(2)] by simp
qed

lemma evaluate_rules_suppression:
  assumes "run_ok s" and "evaluate_rules sha256 ctxt draws rules s = Inr s'" and "suppression_kept f (st_db s)"
    and "active_suppression (rd_now (draws (f_rule_key f) (f_asset_id f))) f"
  shows "suppression_kept f (st_db s')"
  using assms(1-3)
proof (induction rules arbitrary: s)
  case Nil
  then show ?case by simp
next
  case (Cons rule rules)
  obtain s1 where s1: "evaluate_targets sha256 ctxt draws rule (rule_targets rule ctxt)
        (s\<lparr>st_summary := new_summary (st_job s) rule\<rparr>) = Inr s1"
      "evaluate_rules sha256 ctxt draws rules
         (s1\<lparr>st_db := (st_db s1)\<lparr>rule_results := rule_results (st_db s1) @ [st_summary s1]\<rparr>\<rparr>) = Inr s'"
    using Cons.prems(2) by (auto split: sum.splits)
  have "run_ok s1 \<and> suppression_kept f (st_db s1)"
    using Cons.prems(1,3) by (intro evaluate_targets_suppression [OF _ s1(1) _ assms(4)]) simp_all
  with Cons.IH [OF _ s1(2)] show ?case by (simp add: suppression_kept_def)
qed

section \<open>Evaluations that are not rolled back\<close>

text \<open>
  The fresh identifiers and the readings of the clock for the rules and assets \<open>K\<close> of an account: the
  identifiers are new and distinct, the clock is not behind the first sight of the finding concerned,
  and that finding belongs to the account of its asset
  (\<^verbatim>\<open>fk_finding_asset_account_organization\<close>).
\<close>

definition usable_draws :: "uuid \<Rightarrow> draws \<Rightarrow> (string \<times> uuid option) set \<Rightarrow> db \<Rightarrow> bool" where
  "usable_draws acc draws K d =
     (inj_on (\<lambda>(key, i). rd_finding_id (draws key i)) K \<and>
      (\<forall>(key, i) \<in> K. \<forall>f \<in> set (findings d). f_id f \<noteq> rd_finding_id (draws key i) \<and>
         (f_rule_key f = key \<and> f_asset_id f = i \<longrightarrow>
            f_first_seen_at f \<le> rd_now (draws key i) \<and> (i \<noteq> None \<longrightarrow> f_aws_account_id f = acc))))"

lemma usable_draws_subset: "usable_draws acc draws K d \<Longrightarrow> L \<subseteq> K \<Longrightarrow> usable_draws acc draws L d"
  unfolding usable_draws_def by (blast intro: inj_on_subset)

lemma usable_draws_cong: "findings d' = findings d \<Longrightarrow> usable_draws acc draws K d' = usable_draws acc draws K d"
  by (simp add: usable_draws_def)

lemma usable_draws_written:
  assumes "usable_draws acc draws (insert (key, i) K) d" and "(key, i) \<notin> K"
    and "finding_written acc' key i (draws key i) d d'"
  shows "usable_draws acc draws K d'"
proof -
  have sub: "usable_draws acc draws K d" using assms(1) by (rule usable_draws_subset) blast
  from assms(3) show ?thesis
    unfolding finding_written_def
  proof (elim disjE exE conjE)
    assume "findings d' = findings d"
    with sub show ?thesis by (simp add: usable_draws_def)
  next
    fix f f'
    assume f: "finding_for_rule acc' key i d = Some f" "findings d' = put_row f_id f' (findings d)" "same_finding f f'"
    note g = for_rule_Some [OF f(1)]
    have "f_id f' = f_id f" "f_rule_key f' = key" "f_asset_id f' = i" using f(3) g by (simp_all add: same_finding_def)
    then show ?thesis
      using sub assms(2) g unfolding usable_draws_def f(2) by (fastforce dest: set_put_row)
  next
    fix c
    assume c: "findings d' = findings d @ [c]" "f_id c = rd_finding_id (draws key i)" "f_rule_key c = key" "f_asset_id c = i"
    have "rd_finding_id (draws k j) \<noteq> f_id c" if "(k, j) \<in> K" for k j
      using assms(1,2) that c(2) unfolding usable_draws_def inj_on_def by fastforce
    then show ?thesis
      using sub assms(2) c(3,4) unfolding usable_draws_def c(1) by fastforce
  qed
qed

lemma flush_finding_progress:
  assumes "findings_ok d" and "f \<in> set (findings d)" and "same_finding f f'" and "finding_constraints f'"
  shows "flush_finding f' d = Inr (d\<lparr>findings := put_row f_id f' (findings d)\<rparr>)"
proof -
  have keys: "keys_distinct f_id (findings d)" using assms(1) by (simp add: findings_ok_def)
  have row: "get_row f_id (f_id f') (findings d) = Some f"
    using get_row_distinct [OF keys assms(2)] assms(3) by (simp add: same_finding_def)
  note put = unique_on_put_row [OF keys row]
  have "finding_unique (put_row f_id f' (findings d))"
    using assms(1,3) put [of "\<lambda>f. (f_asset_id f, f_rule_key f)" "\<lambda>f. f_asset_id f \<noteq> None"]
      put [of "\<lambda>f. (f_aws_account_id f, f_rule_key f)" "\<lambda>f. f_asset_id f = None"]
    by (simp add: findings_ok_def finding_unique_def same_finding_def)
  with assms(4) show ?thesis by (simp add: flush_finding_def)
qed

lemma rewritten_constraints:
  assumes "finding_constraints f"
  shows "0 < rl_version rule \<Longrightarrow> f_first_seen_at f \<le> now \<Longrightarrow> finding_constraints (seen_again rule result now job f)"
    and "finding_constraints (resolve_finding now job f)"
  using assms
  by (auto simp: finding_constraints_def finding_status_lifecycle_def seen_again_def resolve_finding_def
      active_suppression_def clear_suppression_def Let_def split: option.splits)

lemma failed_existing_progress:
  assumes "findings_ok d" and "f \<in> set (findings d)" and "f_first_seen_at f \<le> rd_now draw" and "0 < rl_version rule"
  shows "\<exists>r. failed_existing rule result draw job f d = Inr r"
proof -
  have "finding_constraints f" using assms(1,2) by (simp add: findings_ok_def)
  from flush_finding_progress [OF assms(1,2) rewritten_findings(1) rewritten_constraints(1) [OF this assms(4,3)]]
  show ?thesis by (simp add: failed_existing_def Let_def)
qed

lemma failed_result_progress:
  assumes "findings_ok d" and "usable_draws (ej_aws_account_id job) draws {(rl_key rule, i)} d" and "0 < rl_version rule"
  shows "\<exists>r. failed_result sha256 rule i result (draws (rl_key rule) i) job d = Inr r"
proof (cases "finding_for_rule (ej_aws_account_id job) (rl_key rule) i d")
  case (Some f)
  note f = for_rule_Some [OF Some]
  have "f_first_seen_at f \<le> rd_now (draws (rl_key rule) i)" using assms(2) f by (auto simp: usable_draws_def)
  then show ?thesis using Some f failed_existing_progress [OF assms(1) _ _ assms(3)] by (auto simp: failed_result_def)
next
  case None
  let ?c = "new_finding rule i result (draws (rl_key rule) i) job"
  have c: "f_id ?c = rd_finding_id (draws (rl_key rule) i)" "f_asset_id ?c = i" "f_rule_key ?c = rl_key rule"
      "f_aws_account_id ?c = ej_aws_account_id job"
    by (simp_all add: new_finding_def)
  have other: "f_aws_account_id f \<noteq> ej_aws_account_id job"
    if "f \<in> set (findings d)" "f_rule_key f = rl_key rule" "f_asset_id f = i" for f
    using None that by (auto simp: finding_for_rule_def find_None_iff)
  have "finding_unique (findings d @ [?c])"
    using assms(1,2) other unfolding findings_ok_def finding_unique_def unique_on_snoc c
    by (fastforce simp: usable_draws_def)
  moreover have "keys_distinct f_id (findings d @ [?c])"
    using assms(1,2) unfolding findings_ok_def keys_distinct_snoc c by (force simp: usable_draws_def)
  moreover have "finding_constraints ?c"
    using assms(3) by (simp add: new_finding_def finding_constraints_def finding_status_lifecycle_def)
  ultimately show ?thesis using None by (simp add: failed_result_def Let_def)
qed

lemma passed_result_progress:
  assumes "findings_ok d"
  shows "\<exists>r. passed_result rule i draw job d = Inr r"
proof (cases "finding_for_rule (ej_aws_account_id job) (rl_key rule) i d")
  case None
  then show ?thesis by (simp add: passed_result_def)
next
  case (Some f)
  note f = for_rule_Some [OF Some]
  have "finding_constraints f" using assms f by (simp add: findings_ok_def)
  from flush_finding_progress [OF assms _ rewritten_findings(2) rewritten_constraints(2) [OF this]] f Some
  show ?thesis by (simp add: passed_result_def Let_def)
qed

section \<open>Lemmas on a run\<close>

text \<open>Writing back a job that keeps its key columns and does not become active.\<close>

lemma put_job_ok:
  assumes "evaluations_ok d" and "get_row ej_id (ej_id j) (evaluation_jobs d) = Some row" and "job_ok j"
    and "ej_aws_account_id j = ej_aws_account_id row" and "ej_sequence j = ej_sequence row"
    and "evaluation_active j \<Longrightarrow> evaluation_active row"
  shows "flush_evaluation j d = Inr (d\<lparr>evaluation_jobs := put_row ej_id j (evaluation_jobs d)\<rparr>)"
    and "evaluations_ok (d\<lparr>evaluation_jobs := put_row ej_id j (evaluation_jobs d)\<rparr>)"
proof -
  have keys: "keys_distinct ej_id (evaluation_jobs d)" using assms(1) by (simp add: evaluations_ok_def)
  have "evaluation_unique (put_row ej_id j (evaluation_jobs d))"
    using assms(1) unique_on_put_row [OF keys assms(2), of ej_aws_account_id evaluation_active]
      unique_on_put_row [OF keys assms(2), of "\<lambda>j. (ej_aws_account_id j, ej_sequence j)" "\<lambda>j. True"] assms(4-6)
    by (simp add: evaluations_ok_def evaluation_unique_def)
  moreover have "\<forall>x \<in> set (put_row ej_id j (evaluation_jobs d)). job_ok x"
    using assms(1,3) by (auto simp: evaluations_ok_def dest!: set_put_row)
  ultimately show "flush_evaluation j d = Inr (d\<lparr>evaluation_jobs := put_row ej_id j (evaluation_jobs d)\<rparr>)"
    and "evaluations_ok (d\<lparr>evaluation_jobs := put_row ej_id j (evaluation_jobs d)\<rparr>)"
    using assms(3) keys by (simp_all add: flush_evaluation_Inr evaluations_ok_def job_ok_def)
qed

lemma apply_result_progress:
  assumes "run_ok s" and "usable_draws (ej_aws_account_id (st_job s)) draws {(rl_key rule, i)} (st_db s)" and "0 < rl_version rule"
  shows "\<exists>s'. apply_result sha256 rule i result (draws (rl_key rule) i) s = Inr s'"
proof -
  obtain row where ok: "findings_ok (st_db s)" "evaluations_ok (st_db s)" "job_ok (st_job s)" "latest (st_job s) (st_db s)"
      "get_row ej_id (ej_id (st_job s)) (evaluation_jobs (st_db s)) = Some row" "same_run row (st_job s)"
    using assms(1) by (rule run_okD)
  let ?d = "st_db s" and ?st = "rs_status result" and ?draw = "draws (rl_key rule) i"
  define job where "job = count_job ?st (st_job s)"
  have job: "job_ok job" "same_run (st_job s) job" using count_job_ok [OF ok(3)] by (simp_all add: job_def)
  then have acc: "ej_aws_account_id job = ej_aws_account_id (st_job s)" by (simp add: same_run_def)
  have fresh: "\<not> stale_for job (finding_for_rule (ej_aws_account_id job) (rl_key rule) i ?d) ?d"
    by (rule not_stale [OF ok(1) latest_same [OF ok(4) same_jobs_refl job(2)]])
  define r where "r = (if ?st = RuleResultStatus.FAILED then failed_result sha256 rule i result ?draw job ?d
    else if ?st = RuleResultStatus.PASSED then passed_result rule i ?draw job ?d else Inr (job, ?d))"
  have "\<exists>x. r = Inr x"
    using failed_result_progress [OF ok(1) _ assms(3), of job draws i sha256 result] passed_result_progress [OF ok(1), of rule i ?draw job]
      assms(2) acc by (simp add: r_def)
  then obtain job' d1 where r: "r = Inr (job', d1)" by auto
  have eff: "result_effect job (rl_key rule) i ?d (job', d1)"
    using r unfolding r_def by (auto split: if_splits intro: failed_result_effect passed_result_effect result_effect_same)
  note eff = eff [unfolded result_effect_def fst_conv snd_conv]
  have d1: "evaluations_ok d1" "evaluation_jobs d1 = evaluation_jobs ?d" using ok(2) eff by (simp_all add: evaluations_ok_def)
  have same: "same_run row job'" using ok(6) job(2) eff same_run_trans by blast
  have "get_row ej_id (ej_id job') (evaluation_jobs d1) = Some row"
    using ok(5) same ok(6) by (simp add: same_run_def d1(2))
  then have "flush_evaluation job' d1 = Inr (d1\<lparr>evaluation_jobs := put_row ej_id job' (evaluation_jobs d1)\<rparr>)"
    using put_job_ok(1) [OF d1(1), of job' row] eff job(1) same by (auto simp: same_run_def evaluation_active_def)
  with r fresh show ?thesis unfolding apply_result_def Let_def r_def job_def by auto
qed

lemma evaluate_targets_progress:
  assumes "run_ok s" and "0 < rl_version rule" and "distinct (map (map_option as_id) targets)"
    and "usable_draws (ej_aws_account_id (st_job s)) draws (Pair (rl_key rule) ` map_option as_id ` set targets \<union> L) (st_db s)"
    and "Pair (rl_key rule) ` map_option as_id ` set targets \<inter> L = {}"
  shows "\<exists>s'. evaluate_targets sha256 ctxt draws rule targets s = Inr s' \<and> run_ok s' \<and> same_run (st_job s) (st_job s') \<and>
    usable_draws (ej_aws_account_id (st_job s)) draws L (st_db s')"
  using assms
proof (induction targets arbitrary: s)
  case Nil
  then show ?case by simp
next
  case (Cons asset targets)
  let ?key = "rl_key rule" and ?id = "map_option as_id asset" and ?result = "guarded_result rule asset ctxt"
  let ?K = "Pair ?key ` map_option as_id ` set targets \<union> L"
  have usable: "usable_draws (ej_aws_account_id (st_job s)) draws (insert (?key, ?id) ?K) (st_db s)" "(?key, ?id) \<notin> ?K"
    using Cons.prems(3-5) by auto
  obtain s1 where s1: "apply_result sha256 rule ?id ?result (draws ?key ?id) s = Inr s1"
    using apply_result_progress [OF Cons.prems(1) usable_draws_subset [OF usable(1)] assms(2)] by blast
  have step: "run_ok s1" "same_run (st_job s) (st_job s1)"
    using apply_result_step [OF Cons.prems(1) s1] by (simp_all add: step_effect_def)
  have acc: "ej_aws_account_id (st_job s1) = ej_aws_account_id (st_job s)" using step(2) by (simp add: same_run_def)
  have "usable_draws (ej_aws_account_id (st_job s)) draws ?K (st_db s1)"
    by (rule usable_draws_written [OF usable apply_result_written [OF s1]])
  then obtain s' where "evaluate_targets sha256 ctxt draws rule targets (s1\<lparr>st_errors := st_errors s1 @ rule_error rule ?result\<rparr>) = Inr s'"
      "run_ok s'" "same_run (st_job s1) (st_job s')" "usable_draws (ej_aws_account_id (st_job s)) draws L (st_db s')"
    using Cons.IH [of "s1\<lparr>st_errors := st_errors s1 @ rule_error rule ?result\<rparr>"] Cons.prems(2,3,5) step(1) acc by auto
  with s1 step(2) same_run_trans show ?case by (auto simp: Let_def)
qed

lemma evaluate_rules_progress:
  assumes "run_ok s" and "\<forall>rule \<in> set rules. 0 < rl_version rule" and "distinct (map rl_key rules)"
    and "distinct (map as_id (rc_account_assets ctxt))"
    and "usable_draws (ej_aws_account_id (st_job s)) draws (rule_keys ctxt rules) (st_db s)"
  shows "\<exists>s'. evaluate_rules sha256 ctxt draws rules s = Inr s'"
  using assms(1-3,5)
proof (induction rules arbitrary: s)
  case Nil
  then show ?case by simp
next
  case (Cons rule rules)
  let ?s0 = "s\<lparr>st_summary := new_summary (st_job s) rule\<rparr>"
  let ?K = "Pair (rl_key rule) ` map_option as_id ` set (rule_targets rule ctxt)"
  have K: "rule_keys ctxt (rule # rules) = ?K \<union> rule_keys ctxt rules" by (auto simp: rule_keys_def)
  have disjoint: "?K \<inter> rule_keys ctxt rules = {}" using Cons.prems(3) by (auto simp: rule_keys_def)
  have "\<exists>s1. evaluate_targets sha256 ctxt draws rule (rule_targets rule ctxt) ?s0 = Inr s1 \<and> run_ok s1 \<and>
      same_run (st_job ?s0) (st_job s1) \<and> usable_draws (ej_aws_account_id (st_job ?s0)) draws (rule_keys ctxt rules) (st_db s1)"
    using Cons.prems(1,2,4) by (intro evaluate_targets_progress [OF _ _ rule_targets_distinct [OF assms(4)] _ disjoint]) (simp_all add: K)
  then obtain s1 where s1: "evaluate_targets sha256 ctxt draws rule (rule_targets rule ctxt) ?s0 = Inr s1" "run_ok s1"
      "same_run (st_job s) (st_job s1)" "usable_draws (ej_aws_account_id (st_job s)) draws (rule_keys ctxt rules) (st_db s1)"
    by auto
  have acc: "ej_aws_account_id (st_job s1) = ej_aws_account_id (st_job s)" using s1(3) by (simp add: same_run_def)
  let ?s2 = "s1\<lparr>st_db := (st_db s1)\<lparr>rule_results := rule_results (st_db s1) @ [st_summary s1]\<rparr>\<rparr>"
  have "usable_draws (ej_aws_account_id (st_job ?s2)) draws (rule_keys ctxt rules) (st_db ?s2)"
    using s1(4) by (simp add: acc usable_draws_def)
  then have "\<exists>s'. evaluate_rules sha256 ctxt draws rules ?s2 = Inr s'"
    using Cons.IH [of ?s2] Cons.prems(2,3) s1(2) by simp
  with s1(1) show ?case by simp
qed

lemma evaluate_account_progress:
  assumes "run_ok \<lparr>st_job = job\<lparr>ej_assets_evaluated := int (length (rc_account_assets (evaluation_context job clock d)))\<rparr>,
      st_summary = no_summary job, st_errors = [], st_db = d\<rparr>"
    and "\<forall>rule \<in> set registry. 0 < rl_version rule" and "distinct (map rl_key registry)" and "keys_distinct as_id (assets d)"
    and "usable_draws (ej_aws_account_id job) draws (rule_keys (evaluation_context job clock d) (enabled_rules registry)) d"
  shows "\<exists>s. evaluate_account sha256 registry draws clock job d = Inr s"
proof -
  have "\<forall>rule \<in> set (enabled_rules registry). 0 < rl_version rule" "distinct (map rl_key (enabled_rules registry))"
    using assms(2,3) by (auto simp: enabled_rules_def registry_filter_def registry_all_def distinct_map intro: inj_on_subset)
  moreover have "distinct (map as_id (rc_account_assets (evaluation_context job clock d)))"
    using assms(4) by (simp add: evaluation_context_def account_assets_def keys_distinct_def distinct_map inj_on_def)
  ultimately show ?thesis
    unfolding evaluate_account_def Let_def by (intro evaluate_rules_progress [OF assms(1)]) (simp_all add: assms(5))
qed

lemma put_job_findings:
  assumes "findings_ok d" and "get_row ej_id (ej_id j) (evaluation_jobs d) = Some row"
    and "ej_aws_account_id j = ej_aws_account_id row"
  shows "findings_ok (d\<lparr>evaluation_jobs := put_row ej_id j (evaluation_jobs d)\<rparr>)"
  using assms by (auto simp: findings_ok_def finding_reference_def get_put_row split: option.splits)

lemma record_audit_ok [simp]:
  "evaluations_ok (record_audit e t r ou au ru d) = evaluations_ok d"
  "findings_ok (record_audit e t r ou au ru d) = findings_ok d"
  "finding_for_rule acc key asset_id (record_audit e t r ou au ru d) = finding_for_rule acc key asset_id d"
  by (simp_all add: evaluations_ok_def findings_ok_def finding_reference_def finding_for_rule_def)

definition terminal :: "EvaluationJobStatus set" where
  "terminal = {EvaluationJobStatus.COMPLETED, EvaluationJobStatus.PARTIALLY_COMPLETED, EvaluationJobStatus.FAILED}"

definition finished :: "EvaluationJobStatus \<Rightarrow> string list \<Rightarrow> instant \<Rightarrow> EvaluationJob \<Rightarrow> EvaluationJob" where
  "finished status errors now j =
     j\<lparr>ej_status := status, ej_finished_at := Some now,
       ej_error_summary := (let m = take 2000 (intercalate ''; '' errors) in if m = [] then None else Some m)\<rparr>"

lemma finish_ok:
  assumes "evaluations_ok d" and "get_row ej_id i (evaluation_jobs d) = Some row"
    and "ej_status row = EvaluationJobStatus.RUNNING" and "status \<in> terminal"
  shows "\<exists>d'. finish i actor status errors now d = (Inr (finished status errors now row), d') \<and>
    findings d' = findings d \<and> evaluation_frame d d' \<and> evaluations_ok d' \<and> (findings_ok d \<longrightarrow> findings_ok d') \<and>
    evaluation_jobs d' = put_row ej_id (finished status errors now row) (evaluation_jobs d)"
proof -
  let ?j = "finished status errors now row"
  have i: "ej_id row = i" "row \<in> set (evaluation_jobs d)" using get_row_mem [OF assms(2)] by auto
  then have "job_ok row" using assms(1) by (simp add: evaluations_ok_def)
  then have j: "job_ok ?j" "ej_id ?j = i" "ej_aws_account_id ?j = ej_aws_account_id row" "ej_sequence ?j = ej_sequence row"
    using assms(3,4) i by (auto simp: finished_def job_rules terminal_def)
  have act: "evaluation_active ?j \<Longrightarrow> evaluation_active row" using assms(3) by (simp add: evaluation_active_def)
  note put = put_job_ok [OF assms(1) assms(2) [folded j(2)] j(1,3,4) act]
  let ?d = "d\<lparr>evaluation_jobs := put_row ej_id ?j (evaluation_jobs d)\<rparr>"
  let ?d' = "record_audit
      (if status = EvaluationJobStatus.COMPLETED then ''security.evaluation.completed''
       else if status = EvaluationJobStatus.PARTIALLY_COMPLETED then ''security.evaluation.partially_completed''
       else ''security.evaluation.failed'') ''evaluation_job''
      (if status = EvaluationJobStatus.FAILED then AuditResult.FAILED else AuditResult.SUCCEEDED)
      (Some (ej_organization_id row)) (Some actor) (Some i) ?d"
  have f: "finish i actor status errors now d = (Inr ?j, ?d')"
    using put(1) assms(2,3) unfolding finish_def finished_def Let_def by simp
  show ?thesis
    using put(2) put_job_findings [OF _ assms(2) [folded j(2)] j(3)]
    by (intro exI [of _ ?d'] conjI impI) (simp_all add: f evaluation_frame_def)
qed

lemma recover_ok:
  assumes "evaluations_ok d" and "get_row ej_id i (evaluation_jobs d) = Some row"
    and "ej_status row = EvaluationJobStatus.RUNNING"
  shows "recover_failed i actor code now d = finish i actor EvaluationJobStatus.FAILED [code] now d"
proof -
  obtain d' where "finish i actor EvaluationJobStatus.FAILED [code] now d =
      (Inr (finished EvaluationJobStatus.FAILED [code] now row), d')"
    using finish_ok [OF assms, of EvaluationJobStatus.FAILED actor "[code]" now] by (auto simp: terminal_def)
  then show ?thesis by (simp add: recover_failed_def)
qed

lemma begin_run_ok:
  assumes "evaluations_ok d" and "findings_ok d" and "get_row ej_id i (evaluation_jobs d) = Some row"
    and "ej_status row = EvaluationJobStatus.PENDING" and "latest row d"
  shows "\<exists>d'. let job = row\<lparr>ej_status := EvaluationJobStatus.RUNNING, ej_started_at := Some now\<rparr> in
    begin_run i actor now d = (Inr job, d') \<and> findings d' = findings d \<and> evaluation_frame d d' \<and>
    evaluation_jobs d' = put_row ej_id job (evaluation_jobs d) \<and>
    run_ok \<lparr>st_job = job\<lparr>ej_assets_evaluated := int k\<rparr>, st_summary = m, st_errors = [], st_db = d'\<rparr>"
proof -
  let ?j = "row\<lparr>ej_status := EvaluationJobStatus.RUNNING, ej_started_at := Some now\<rparr>"
  have i: "ej_id row = i" "row \<in> set (evaluation_jobs d)" using get_row_mem [OF assms(3)] by auto
  then have "job_ok row" using assms(1) by (simp add: evaluations_ok_def)
  then have j: "job_ok ?j" "ej_id ?j = i" using assms(4) i by (auto simp: job_rules)
  have act: "evaluation_active ?j \<Longrightarrow> evaluation_active row" using assms(4) by (simp add: evaluation_active_def)
  note get = assms(3) [folded j(2)]
  note put = put_job_ok [OF assms(1) get j(1) _ _ act, simplified]
  let ?d = "d\<lparr>evaluation_jobs := put_row ej_id ?j (evaluation_jobs d)\<rparr>"
  let ?d' = "record_audit ''security.evaluation.started'' ''evaluation_job'' AuditResult.SUCCEEDED
      (Some (ej_organization_id row)) (Some actor) (Some i) ?d"
  have "begin_run i actor now d = (Inr ?j, ?d')"
    using put(1) assms(3,4) by (simp add: begin_run_def Let_def)
  moreover have "run_ok \<lparr>st_job = ?j\<lparr>ej_assets_evaluated := int k\<rparr>, st_summary = m, st_errors = [], st_db = ?d'\<rparr>"
  proof -
    have "findings_ok ?d" using put_job_findings [OF assms(2) get] by simp
    moreover have "latest ?j ?d" using assms(5) by (auto simp: latest_def dest!: set_put_row)
    moreover have "get_row ej_id i (evaluation_jobs ?d) = Some ?j" using get i by (simp add: get_put_row)
    moreover have "job_ok (?j\<lparr>ej_assets_evaluated := int k\<rparr>)" using j(1) by (auto simp: job_rules)
    ultimately show ?thesis using put(2) i(1) by (auto simp: run_ok_def latest_def same_run_def)
  qed
  ultimately show ?thesis by (intro exI [of _ ?d']) (simp add: Let_def evaluation_frame_def)
qed


lemma finished_active:
  assumes "evaluation_jobs d' = put_row ej_id j (evaluation_jobs d2)" and "same_jobs d1 d2"
    and "evaluation_jobs d1 = put_row ej_id j1 (evaluation_jobs d)" and "ej_id j = i" and "ej_id j1 = i"
    and "ej_status j \<in> terminal" and "x \<in> set (evaluation_jobs d')" and "evaluation_active x"
  shows "\<exists>y \<in> set (evaluation_jobs d). ej_id y \<noteq> i \<and> evaluation_active y"
proof -
  have "x \<noteq> j" using assms(6,8) by (auto simp: evaluation_active_def terminal_def)
  then have x: "x \<in> set (evaluation_jobs d2)" "ej_id x \<noteq> i"
    using assms(4,7) unfolding assms(1) by (auto dest!: set_put_row)
  obtain y where y: "y \<in> set (evaluation_jobs d1)" "same_run y x" using same_jobs_mem [OF assms(2) x(1)] by blast
  then have "ej_id y \<noteq> i" "evaluation_active y" using x(2) assms(8) by (simp_all add: same_run_def evaluation_active_def)
  with y(1) assms(5) show ?thesis unfolding assms(3) by (auto dest!: set_put_row)
qed

text \<open>
  The two ways a run can end: rolled back, which fresh identifiers and a sane clock exclude, or with
  the lifecycle applied.
\<close>

definition lifecycle_applied ::
    "RuleContext \<Rightarrow> draws \<Rightarrow> SecurityRule list \<Rightarrow> uuid \<Rightarrow> db \<Rightarrow> db \<Rightarrow> bool" where
  "lifecycle_applied ctxt draws rules acc d d' =
     ((\<forall>rule \<in> set rules. \<forall>asset \<in> set (rule_targets rule ctxt).
         let key = rl_key rule; asset_id = map_option as_id asset; now = rd_now (draws key asset_id)
         in account_view d' acc key asset_id now =
              next_view (rs_status (guarded_result rule asset ctxt)) (account_view d acc key asset_id now)) \<and>
      (\<forall>a key asset_id. a \<noteq> acc \<or> (key, asset_id) \<notin> rule_keys ctxt rules \<longrightarrow>
         finding_for_rule a key asset_id d' = finding_for_rule a key asset_id d))"

lemma lifecycle_applied_cong:
  assumes "findings d1 = findings d" and "findings d2 = findings d'" and "lifecycle_applied ctxt draws rules acc d1 d2"
  shows "lifecycle_applied ctxt draws rules acc d d'"
proof -
  have "finding_for_rule a k i d1 = finding_for_rule a k i d" "finding_for_rule a k i d2 = finding_for_rule a k i d'" for a k i
    using assms(1,2) by (simp_all add: finding_for_rule_def)
  with assms(3) show ?thesis by (simp add: lifecycle_applied_def account_view_def)
qed

definition run_prepared :: "SecurityRule list \<Rightarrow> draws \<Rightarrow> EvaluationClock \<Rightarrow> EvaluationJob \<Rightarrow> db \<Rightarrow> bool" where
  "run_prepared registry draws clock row d =
     ((\<forall>rule \<in> set registry. 0 < rl_version rule) \<and>
      usable_draws (ej_aws_account_id row) draws (rule_keys (evaluation_context row clock d) (enabled_rules registry)) d)"

definition run_outcome ::
    "SecurityRule list \<Rightarrow> draws \<Rightarrow> EvaluationClock \<Rightarrow> EvaluationJob \<Rightarrow> EvaluationJob \<Rightarrow> db \<Rightarrow> db \<Rightarrow> bool" where
  "run_outcome registry draws clock row job d d' =
     (ej_status job \<in> terminal \<and> ej_id job = ej_id row \<and> job \<in> set (evaluation_jobs d') \<and>
      evaluations_ok d' \<and> findings_ok d' \<and> evaluation_frame d d' \<and>
      (\<forall>x \<in> set (evaluation_jobs d'). evaluation_active x \<longrightarrow>
         (\<exists>y \<in> set (evaluation_jobs d). ej_id y \<noteq> ej_id row \<and> evaluation_active y)) \<and>
      (\<forall>f. suppression_kept f d \<and> active_suppression (rd_now (draws (f_rule_key f) (f_asset_id f))) f \<longrightarrow> suppression_kept f d') \<and>
      (findings d' = findings d \<and> \<not> run_prepared registry draws clock row d \<or>
       lifecycle_applied (evaluation_context row clock d) draws (enabled_rules registry) (ej_aws_account_id row) d d'))"

lemma evaluate_account_effect:
  assumes "run_ok \<lparr>st_job = job\<lparr>ej_assets_evaluated := int (length (rc_account_assets (evaluation_context job clock d)))\<rparr>,
      st_summary = no_summary job, st_errors = [], st_db = d\<rparr>"
    and "evaluate_account sha256 registry draws clock job d = Inr s"
    and "distinct (map rl_key registry)" and "keys_distinct as_id (assets d)"
  shows "run_ok s \<and> same_run job (st_job s) \<and> evaluation_frame d (st_db s) \<and> same_jobs d (st_db s) \<and>
    (\<forall>f. suppression_kept f d \<and> active_suppression (rd_now (draws (f_rule_key f) (f_asset_id f))) f \<longrightarrow>
       suppression_kept f (st_db s)) \<and>
    lifecycle_applied (evaluation_context job clock d) draws (enabled_rules registry) (ej_aws_account_id job) d (st_db s)"
proof -
  let ?ctxt = "evaluation_context job clock d"
  let ?s0 = "\<lparr>st_job = job\<lparr>ej_assets_evaluated := int (length (rc_account_assets ?ctxt))\<rparr>,
      st_summary = no_summary job, st_errors = [], st_db = d\<rparr>"
  have run: "evaluate_rules sha256 ?ctxt draws (enabled_rules registry) ?s0 = Inr s"
    using assms(2) by (simp add: evaluate_account_def Let_def)
  moreover have "distinct (map rl_key (enabled_rules registry))"
    using assms(3) by (auto simp: enabled_rules_def registry_filter_def registry_all_def distinct_map intro: inj_on_subset)
  moreover have "distinct (map as_id (rc_account_assets ?ctxt))"
    using assms(4) by (simp add: evaluation_context_def account_assets_def keys_distinct_def distinct_map inj_on_def)
  ultimately have "loop_effect (rule_keys ?ctxt (enabled_rules registry)) ?s0 s \<and>
      (\<forall>rule \<in> set (enabled_rules registry). \<forall>asset \<in> set (rule_targets rule ?ctxt). decided ?ctxt draws rule asset ?s0 s)"
    by (intro evaluate_rules_effect [OF assms(1)])
  moreover have "suppression_kept f d \<Longrightarrow> active_suppression (rd_now (draws (f_rule_key f) (f_asset_id f))) f \<Longrightarrow>
      suppression_kept f (st_db s)" for f
    using evaluate_rules_suppression [OF assms(1) run] by simp
  ultimately show ?thesis
    by (simp add: loop_effect_def decided_def lifecycle_applied_def same_run_def Let_def)
qed

lemma run_ends:
  assumes "evaluations_ok d" and "findings_ok d" and "get_row ej_id i (evaluation_jobs d) = Some row"
    and "ej_status row = EvaluationJobStatus.PENDING" and "latest row d"
    and "distinct (map rl_key registry)" and "keys_distinct as_id (assets d)"
  shows "\<exists>job d'. run sha256 registry draws clock i actor d = (Inr job, d') \<and>
    run_outcome registry draws clock row job d d'"
proof -
  let ?job = "row\<lparr>ej_status := EvaluationJobStatus.RUNNING, ej_started_at := Some (ec_started clock)\<rparr>"
  have i: "ej_id row = i" using get_row_key [OF assms(3)] by simp
  let ?k = "length (rc_account_assets (evaluation_context row clock d))"
  obtain d1 where d1: "begin_run i actor (ec_started clock) d = (Inr ?job, d1)" "findings d1 = findings d"
      "evaluation_frame d d1" "evaluation_jobs d1 = put_row ej_id ?job (evaluation_jobs d)"
      "run_ok \<lparr>st_job = ?job\<lparr>ej_assets_evaluated := int ?k\<rparr>, st_summary = no_summary ?job, st_errors = [], st_db = d1\<rparr>"
    using begin_run_ok [OF assms(1-5), of "ec_started clock" actor ?k "no_summary ?job"] by (auto simp: Let_def)
  have ctxt: "evaluation_context ?job clock d1 = evaluation_context row clock d"
    using d1(3) by (simp add: evaluation_context_def account_assets_def evaluation_frame_def)
  have ok1: "evaluations_ok d1" "findings_ok d1" using d1(5) by (simp_all add: run_ok_def)
  have get1: "get_row ej_id i (evaluation_jobs d1) = Some ?job"
    using assms(3) i unfolding d1(4) by (simp add: get_put_row)
  have closing: "run_outcome registry draws clock row (finished st es t row') d d'"
    if "evaluations_ok d2" "findings_ok d2" "evaluation_frame d d2" "same_jobs d1 d2"
      "get_row ej_id i (evaluation_jobs d2) = Some row'" "ej_status row' = EvaluationJobStatus.RUNNING" "st \<in> terminal"
      "finish i actor st es t d2 = (Inr (finished st es t row'), d')"
      "\<forall>f. suppression_kept f d1 \<and> active_suppression (rd_now (draws (f_rule_key f) (f_asset_id f))) f \<longrightarrow> suppression_kept f d2"
      "findings d2 = findings d \<and> \<not> run_prepared registry draws clock row d \<or>
       lifecycle_applied (evaluation_context row clock d) draws (enabled_rules registry) (ej_aws_account_id row) d d2"
    for d2 row' st es t d'
  proof -
    let ?f = "finished st es t row'"
    have f: "findings d' = findings d2" "evaluation_frame d2 d'" "evaluations_ok d'" "findings_ok d'"
        "evaluation_jobs d' = put_row ej_id ?f (evaluation_jobs d2)"
      using finish_ok [OF that(1,5,6,7), of actor es t] that(2,8) by auto
    have id: "ej_id ?f = i" "ej_status ?f = st" using get_row_key [OF that(5)] by (simp_all add: finished_def)
    have mem: "?f \<in> set (evaluation_jobs d')"
      unfolding f(5) using get_row_mem [OF that(5)] id(1) in_put_row_same by metis
    have active: "\<exists>y \<in> set (evaluation_jobs d). ej_id y \<noteq> i \<and> evaluation_active y"
      if "x \<in> set (evaluation_jobs d')" "evaluation_active x" for x
      using finished_active [OF f(5) \<open>same_jobs d1 d2\<close> d1(4) id(1) _ _ that] i id(2) \<open>st \<in> terminal\<close> by simp
    have "findings d' = findings d \<and> \<not> run_prepared registry draws clock row d \<or>
       lifecycle_applied (evaluation_context row clock d) draws (enabled_rules registry) (ej_aws_account_id row) d d'"
      using that(10) lifecycle_applied_cong [OF refl f(1) [symmetric]] f(1) by auto
    moreover have "suppression_kept f d = suppression_kept f d1" "suppression_kept f d' = suppression_kept f d2" for f
      using f(1) d1(2) by (simp_all add: suppression_kept_def)
    ultimately show ?thesis
      using id f(2-4) mem active that(7,9) evaluation_frame_trans [OF that(3) f(2)] i
      unfolding run_outcome_def by simp
  qed
  show ?thesis
  proof (cases "evaluate_account sha256 registry draws clock ?job d1")
    case (Inl e)
    have assets1: "keys_distinct as_id (assets d1)" using assms(7) d1(3) by (simp add: evaluation_frame_def)
    have unprepared: "\<not> run_prepared registry draws clock row d"
      using evaluate_account_progress [of ?job clock d1 registry draws sha256, unfolded ctxt, OF d1(5) _ assms(6) assets1] Inl
        usable_draws_cong [OF d1(2)] by (auto simp: run_prepared_def)
    from Inl have "run sha256 registry draws clock i actor d =
        finish i actor EvaluationJobStatus.FAILED [''evaluation_execution_failed''] (ec_finished clock) d1"
      using d1(1) recover_ok [OF ok1(1) get1] by (simp add: run_def)
    moreover obtain d' where d': "finish i actor EvaluationJobStatus.FAILED [''evaluation_execution_failed''] (ec_finished clock) d1 =
        (Inr (finished EvaluationJobStatus.FAILED [''evaluation_execution_failed''] (ec_finished clock) ?job), d')"
      using finish_ok [OF ok1(1) get1, of EvaluationJobStatus.FAILED actor "[''evaluation_execution_failed'']" "ec_finished clock"]
      by (auto simp: terminal_def)
    moreover have "run_outcome registry draws clock row
        (finished EvaluationJobStatus.FAILED [''evaluation_execution_failed''] (ec_finished clock) ?job) d d'"
      using d1(2) unprepared by (intro closing [OF ok1 d1(3) same_jobs_refl get1 _ _ d']) (simp_all add: terminal_def)
    ultimately show ?thesis by auto
  next
    case (Inr s)
    have "keys_distinct as_id (assets d1)" using assms(7) d1(3) by (simp add: evaluation_frame_def)
    then have eff: "run_ok s" "same_run ?job (st_job s)" "evaluation_frame d1 (st_db s)" "same_jobs d1 (st_db s)"
        "\<forall>f. suppression_kept f d1 \<and> active_suppression (rd_now (draws (f_rule_key f) (f_asset_id f))) f \<longrightarrow> suppression_kept f (st_db s)"
        "lifecycle_applied (evaluation_context row clock d) draws (enabled_rules registry) (ej_aws_account_id row) d1 (st_db s)"
      using evaluate_account_effect [OF _ Inr assms(6)] d1(5) unfolding ctxt by simp_all
    obtain row' where row': "findings_ok (st_db s)" "evaluations_ok (st_db s)"
        "get_row ej_id i (evaluation_jobs (st_db s)) = Some row'" "same_run row' (st_job s)"
      using run_okD [OF eff(1)] eff(2) i by (simp add: same_run_def) blast
    have st: "ej_status row' = EvaluationJobStatus.RUNNING" using row'(4) eff(2) by (simp add: same_run_def)
    let ?t = "terminal_status (st_job s) (st_errors s)"
    have t: "?t \<in> terminal" by (simp add: terminal_status_def terminal_def)
    obtain d' where d': "finish i actor ?t (st_errors s) (ec_finished clock) (st_db s) =
        (Inr (finished ?t (st_errors s) (ec_finished clock) row'), d')"
      using finish_ok [OF row'(2,3) st t] by blast
    have "run sha256 registry draws clock i actor d = (Inr (finished ?t (st_errors s) (ec_finished clock) row'), d')"
      using d1(1) Inr d' by (simp add: run_def)
    moreover have "run_outcome registry draws clock row (finished ?t (st_errors s) (ec_finished clock) row') d d'"
      using lifecycle_applied_cong [OF d1(2) refl eff(6)]
      by (intro closing [OF row'(2,1) evaluation_frame_trans [OF d1(3) eff(3)] eff(4) row'(3) st t d' eff(5)]) simp
    ultimately show ?thesis by blast
  qed
qed


lemma next_sequence_bound: "j \<in> set (evaluation_jobs d) \<Longrightarrow> ej_aws_account_id j = acc \<Longrightarrow> ej_sequence j < next_sequence acc d"
proof -
  assume j: "j \<in> set (evaluation_jobs d)" "ej_aws_account_id j = acc"
  let ?S = "map ej_sequence (filter (\<lambda>j. ej_aws_account_id j = acc) (evaluation_jobs d))"
  have "ej_sequence j \<in> set ?S" using j by auto
  then have "ej_sequence j \<le> Max (set ?S)" "?S \<noteq> []" by (auto simp del: set_map set_filter)
  then show ?thesis by (simp only: next_sequence_def Let_def if_False)
qed

lemma next_sequence_positive: "evaluations_ok d \<Longrightarrow> 0 < next_sequence acc d"
proof (cases "filter (\<lambda>j. ej_aws_account_id j = acc) (evaluation_jobs d)")
  case Nil
  then show ?thesis by (simp add: next_sequence_def)
next
  case (Cons j js)
  then have j: "j \<in> set (evaluation_jobs d)" "ej_aws_account_id j = acc"
    using filter_eq_ConsD [OF Cons] by auto
  assume "evaluations_ok d"
  with j have "0 < ej_sequence j" by (simp add: evaluations_ok_def job_rules)
  with next_sequence_bound [OF j] show ?thesis by simp
qed

lemma insert_ok:
  assumes "evaluations_ok d" and "findings_ok d"
    and "insert_evaluation (new_evaluation account actor discovery_job_id i d) d = Inr d1"
  shows "evaluations_ok d1 \<and> findings_ok d1 \<and> findings d1 = findings d \<and> evaluation_frame d d1 \<and>
    evaluation_jobs d1 = evaluation_jobs d @ [new_evaluation account actor discovery_job_id i d] \<and>
    get_row ej_id i (evaluation_jobs d1) = Some (new_evaluation account actor discovery_job_id i d) \<and>
    latest (new_evaluation account actor discovery_job_id i d) d1"
proof -
  let ?j = "new_evaluation account actor discovery_job_id i d"
  have d1: "d1 = d\<lparr>evaluation_jobs := evaluation_jobs d @ [?j]\<rparr>" "keys_distinct ej_id (evaluation_jobs d @ [?j])"
      "evaluation_unique (evaluation_jobs d @ [?j])" "evaluation_constraints ?j"
    using assms(3) by (auto simp: insert_evaluation_def Let_def split: if_splits)
  have j: "ej_id ?j = i" "ej_aws_account_id ?j = acc_id account" "ej_sequence ?j = next_sequence (acc_id account) d"
    by (simp_all add: new_evaluation_def)
  have "counters_ok ?j" by (simp add: new_evaluation_def counters_ok_def)
  then have ok: "evaluations_ok d1" using assms(1) d1 by (auto simp: evaluations_ok_def job_ok_def)
  have fresh: "i \<notin> ej_id ` set (evaluation_jobs d)" using d1(2) j(1) by (auto simp: keys_distinct_snoc)
  have get: "get_row ej_id k (evaluation_jobs d @ [?j]) =
      (case get_row ej_id k (evaluation_jobs d) of None \<Rightarrow> if k = i then Some ?j else None | Some x \<Rightarrow> Some x)" for k
    using j(1) by (simp add: get_row_def find_snoc eq_commute)
  have "findings_ok d1"
    using assms(2) unfolding d1(1) findings_ok_def
    by (auto simp: finding_reference_def get split: option.splits)
  moreover have "get_row ej_id i (evaluation_jobs d1) = Some ?j"
    using fresh get_row_None [of ej_id i "evaluation_jobs d"] unfolding d1(1) by (simp add: get)
  moreover have "latest ?j d1"
    using next_sequence_bound [of _ d "acc_id account"] j unfolding d1(1) latest_def by force
  ultimately show ?thesis using ok d1(1) by (simp add: evaluation_frame_def)
qed

lemma start_outcome:
  assumes "evaluations_ok d" and "findings_ok d"
    and "distinct (map rl_key registry)" and "keys_distinct as_id (assets d)"
  shows "(\<exists>e. start_evaluation sha256 registry draws clock acc actor dj i d = (Inl e, d)) \<or>
    (\<exists>row job d' d1. start_evaluation sha256 registry draws clock acc actor dj i d = (Inr job, d') \<and>
       evaluation_jobs d1 = evaluation_jobs d @ [row] \<and> ej_id row = i \<and> findings d1 = findings d \<and>
       evaluation_frame d d1 \<and> get_row acc_id acc (aws_accounts d) \<noteq> None \<and>
       ej_aws_account_id row = acc \<and> (\<forall>account. get_row acc_id acc (aws_accounts d) = Some account \<longrightarrow>
         ej_organization_id row = acc_organization_id account) \<and>
       run_outcome registry draws clock row job d1 d')"
proof (cases "get_row acc_id acc (aws_accounts d)")
  case None
  then show ?thesis by (simp add: start_evaluation_def)
next
  case (Some account)
  let ?row = "new_evaluation account actor dj i d"
  have acc: "acc_id account = acc" using get_row_key [OF Some] by simp
  show ?thesis
  proof (cases "insert_evaluation ?row d")
    case (Inl e)
    with Some show ?thesis by (auto simp: start_evaluation_def split: sum.splits)
  next
    case (Inr d1)
    note ins = insert_ok [OF assms(1,2) Inr]
    have pending: "ej_status ?row = EvaluationJobStatus.PENDING" by (simp add: new_evaluation_def)
    have assets: "keys_distinct as_id (assets d1)" using assms(4) ins by (simp add: evaluation_frame_def)
    obtain job d' where "run sha256 registry draws clock i actor d1 = (Inr job, d')"
        "run_outcome registry draws clock ?row job d1 d'"
      using run_ends [OF _ _ _ pending _ assms(3) assets] ins by blast
    moreover have "ej_id ?row = i" "ej_aws_account_id ?row = acc" "ej_organization_id ?row = acc_organization_id account"
      using acc by (simp_all add: new_evaluation_def)
    ultimately have "start_evaluation sha256 registry draws clock acc actor dj i d = (Inr job, d') \<or>
        (\<exists>e. start_evaluation sha256 registry draws clock acc actor dj i d = (Inl e, d))"
      using Some Inr by (auto simp: start_evaluation_def split: sum.splits)
    with ins Some \<open>ej_id ?row = i\<close> \<open>ej_aws_account_id ?row = acc\<close> \<open>ej_organization_id ?row = acc_organization_id account\<close>
      \<open>run_outcome registry draws clock ?row job d1 d'\<close>
    show ?thesis by (metis option.distinct(1) option.inject)
  qed
qed


lemma flush_finding_ok:
  assumes "findings_ok d" and "get_scoped_finding org i d = Some f" and "same_finding f f'"
    and "f_last_evaluation_id f' = f_last_evaluation_id f" and "flush_finding f' d = Inr d'"
  shows "findings_ok d' \<and> evaluation_jobs d' = evaluation_jobs d \<and> evaluation_frame d d' \<and>
    findings d' = put_row f_id f' (findings d)"
proof -
  have f: "f \<in> set (findings d)" using assms(2) by (auto simp: get_scoped_finding_def dest: find_mem)
  have d': "d' = d\<lparr>findings := put_row f_id f' (findings d)\<rparr>" "finding_constraints f'"
      "finding_unique (put_row f_id f' (findings d))"
    using assms(5) by (auto simp: flush_finding_Inr)
  have "finding_reference f' d" using assms(1,3,4) f by (auto simp: findings_ok_def finding_reference_def same_finding_def split: option.splits)
  then have "\<forall>x \<in> set (put_row f_id f' (findings d)). finding_constraints x \<and> finding_reference x d"
    using assms(1) d'(2) by (auto simp: findings_ok_def dest!: set_put_row)
  then show ?thesis
    using assms(1) d'(3) unfolding d'(1) by (simp add: findings_ok_def finding_reference_def evaluation_frame_def)
qed

lemma not_rule_keys:
  "(key, asset_id) \<notin> rule_keys ctxt rules \<longleftrightarrow>
     (\<forall>rule \<in> set rules. \<forall>asset \<in> set (rule_targets rule ctxt). (rl_key rule, map_option as_id asset) \<noteq> (key, asset_id))"
  by (auto simp: rule_keys_def)

section \<open>The system of evaluations\<close>

inductive evaluation_step :: "db \<Rightarrow> db \<Rightarrow> bool" where
  step_start: "distinct (map rl_key registry) \<Longrightarrow>
     evaluation_step d (snd (start_evaluation sha256 registry draws clock acc actor dj i d))"
| step_suppress: "evaluation_step d (snd (suppress org i actor reason until now d))"
| step_unsuppress: "evaluation_step d (snd (unsuppress org i actor d))"

inductive_cases evaluation_stepE: "evaluation_step d d'"

definition evaluation_system :: "db \<Rightarrow> bool" where
  "evaluation_system d =
     (evaluations_ok d \<and> findings_ok d \<and> keys_distinct as_id (assets d) \<and>
      (\<forall>j \<in> set (evaluation_jobs d). \<not> evaluation_active j))"

lemma start_system:
  assumes "evaluation_system d" and "distinct (map rl_key registry)"
  shows "evaluation_system (snd (start_evaluation sha256 registry draws clock acc actor dj i d))"
proof -
  have ok: "evaluations_ok d" "findings_ok d" "keys_distinct as_id (assets d)" "\<forall>j \<in> set (evaluation_jobs d). \<not> evaluation_active j"
    using assms(1) by (simp_all add: evaluation_system_def)
  from start_outcome [OF ok(1,2) assms(2) ok(3), of sha256 draws clock acc actor dj i] show ?thesis
  proof (elim disjE exE conjE)
    fix e
    assume "start_evaluation sha256 registry draws clock acc actor dj i d = (Inl e, d)"
    with assms(1) show ?thesis by simp
  next
    fix row job d' d1
    assume s: "start_evaluation sha256 registry draws clock acc actor dj i d = (Inr job, d')"
      "evaluation_jobs d1 = evaluation_jobs d @ [row]" "evaluation_frame d d1" "run_outcome registry draws clock row job d1 d'"
    have "\<not> evaluation_active x" if "x \<in> set (evaluation_jobs d')" for x
      using that s(2,4) ok(4) unfolding run_outcome_def by auto
    then show ?thesis
      using s(1,3,4) ok(3) by (simp add: evaluation_system_def run_outcome_def evaluation_frame_def)
  qed
qed

lemma suppress_system:
  assumes "evaluation_system d"
  shows "evaluation_system (snd (suppress org i actor reason until now d))"
    and "evaluation_system (snd (unsuppress org i actor d))"
proof -
  have keep: "evaluation_system d'"
    if "get_scoped_finding org i d = Some f" "same_finding f f'" "f_last_evaluation_id f' = f_last_evaluation_id f"
      "flush_finding f' d = Inr d'" for f f' d'
    using flush_finding_ok [OF _ that] assms
    by (auto simp: evaluation_system_def evaluations_ok_def evaluation_frame_def)
  have audit: "evaluation_system (record_audit e t r ou au ru x) = evaluation_system x" for e t r ou au ru x
    by (simp add: evaluation_system_def)
  have last: "f_last_evaluation_id (suppress_row actor reason until now f) = f_last_evaluation_id f"
      "f_last_evaluation_id (unsuppress_row f) = f_last_evaluation_id f" for f
    by (simp_all add: suppress_row_def unsuppress_row_def clear_suppression_def)
  show "evaluation_system (snd (suppress org i actor reason until now d))"
    using assms keep [OF _ rewritten_findings(3) last(1)]
    by (auto simp: suppress_def Let_def audit split: sum.splits option.splits)
  show "evaluation_system (snd (unsuppress org i actor d))"
    using assms keep [OF _ rewritten_findings(4) last(2)]
    by (auto simp: unsuppress_def Let_def audit split: sum.splits option.splits)
qed

interpretation evaluation_process: transition_system evaluation_step evaluation_system
proof
  fix s t
  assume "evaluation_step s t" "evaluation_system s"
  then show "evaluation_system t"
    by (elim evaluation_stepE) (simp_all add: start_system suppress_system)
qed

section \<open>Lemmas on erroneous rules\<close>

lemma evaluate_targets_errors:
  assumes "\<forall>asset \<in> set targets. rs_status (guarded_result rule asset ctxt) = RuleResultStatus.ERROR"
    and "findings_ok (st_db s)" and "latest (st_job s) (st_db s)"
  shows "\<exists>s'. evaluate_targets sha256 ctxt draws rule targets s = Inr s' \<and> st_db s' = st_db s \<and>
    same_run (st_job s) (st_job s') \<and>
    ej_rules_evaluated (st_job s') = ej_rules_evaluated (st_job s) + int (length targets) \<and>
    ej_evaluation_errors (st_job s') = ej_evaluation_errors (st_job s) + int (length targets) \<and>
    length (st_errors s') = length (st_errors s) + length targets"
  using assms
proof (induction targets arbitrary: s)
  case Nil
  then show ?case by simp
next
  case (Cons asset targets)
  let ?r = "guarded_result rule asset ctxt" and ?id = "map_option as_id asset"
  have err: "rs_status ?r = RuleResultStatus.ERROR" using Cons.prems(1) by simp
  let ?job = "count_job RuleResultStatus.ERROR (st_job s)"
  have job: "same_run (st_job s) ?job" "ej_rules_evaluated ?job = ej_rules_evaluated (st_job s) + 1"
      "ej_evaluation_errors ?job = ej_evaluation_errors (st_job s) + 1"
    by (simp_all add: count_job_def same_run_def Let_def)
  have "\<not> stale_for ?job (finding_for_rule (ej_aws_account_id ?job) (rl_key rule) ?id (st_db s)) (st_db s)"
    by (rule not_stale [OF Cons.prems(2) latest_same [OF Cons.prems(3) same_jobs_refl job(1)]])
  then have step: "apply_result sha256 rule ?id ?r draw s =
      Inr (s\<lparr>st_job := ?job, st_summary := count_summary RuleResultStatus.ERROR (st_summary s)\<rparr>)" for draw
    by (simp add: apply_result_def err Let_def)
  let ?s = "s\<lparr>st_job := ?job, st_summary := count_summary RuleResultStatus.ERROR (st_summary s),
      st_errors := st_errors s @ rule_error rule ?r\<rparr>"
  have "\<exists>s'. evaluate_targets sha256 ctxt draws rule targets ?s = Inr s' \<and> st_db s' = st_db s \<and>
      same_run ?job (st_job s') \<and> ej_rules_evaluated (st_job s') = ej_rules_evaluated ?job + int (length targets) \<and>
      ej_evaluation_errors (st_job s') = ej_evaluation_errors ?job + int (length targets) \<and>
      length (st_errors s') = length (st_errors s) + 1 + length targets"
    using Cons.IH [of ?s] Cons.prems latest_same [OF Cons.prems(3) same_jobs_refl job(1)]
    by (simp add: rule_error_def err)
  then show ?case
    using job same_run_trans by (fastforce simp: step Let_def)
qed


lemma rule_results_ok [simp]:
  "findings_ok (d\<lparr>rule_results := rs\<rparr>) = findings_ok d" "latest j (d\<lparr>rule_results := rs\<rparr>) = latest j d"
  by (simp_all add: findings_ok_def finding_reference_def latest_def)

definition target_count :: "RuleContext \<Rightarrow> SecurityRule list \<Rightarrow> nat" where
  "target_count ctxt rules = sum_list (map (\<lambda>rule. length (rule_targets rule ctxt)) rules)"

lemma evaluate_rules_errors:
  assumes "\<forall>rule \<in> set rules. \<forall>asset \<in> set (rule_targets rule ctxt).
      rs_status (guarded_result rule asset ctxt) = RuleResultStatus.ERROR"
    and "findings_ok (st_db s)" and "latest (st_job s) (st_db s)"
  shows "\<exists>s'. evaluate_rules sha256 ctxt draws rules s = Inr s' \<and>
    (\<exists>rs. st_db s' = (st_db s)\<lparr>rule_results := rs\<rparr>) \<and> same_run (st_job s) (st_job s') \<and>
    ej_rules_evaluated (st_job s') = ej_rules_evaluated (st_job s) + int (target_count ctxt rules) \<and>
    ej_evaluation_errors (st_job s') = ej_evaluation_errors (st_job s) + int (target_count ctxt rules) \<and>
    length (st_errors s') = length (st_errors s) + target_count ctxt rules"
  using assms
proof (induction rules arbitrary: s)
  case Nil
  then show ?case by (auto simp: target_count_def intro!: exI [of _ "rule_results (st_db s)"])
next
  case (Cons rule rules)
  let ?n = "length (rule_targets rule ctxt)"
  obtain s1 where s1: "evaluate_targets sha256 ctxt draws rule (rule_targets rule ctxt)
        (s\<lparr>st_summary := new_summary (st_job s) rule\<rparr>) = Inr s1" "st_db s1 = st_db s" "same_run (st_job s) (st_job s1)"
      "ej_rules_evaluated (st_job s1) = ej_rules_evaluated (st_job s) + int ?n"
      "ej_evaluation_errors (st_job s1) = ej_evaluation_errors (st_job s) + int ?n"
      "length (st_errors s1) = length (st_errors s) + ?n"
    using evaluate_targets_errors [of "rule_targets rule ctxt" rule ctxt "s\<lparr>st_summary := new_summary (st_job s) rule\<rparr>" sha256 draws]
      Cons.prems by auto
  define s2 where "s2 = s1\<lparr>st_db := (st_db s1)\<lparr>rule_results := rule_results (st_db s1) @ [st_summary s1]\<rparr>\<rparr>"
  have s2: "st_job s2 = st_job s1" "st_errors s2 = st_errors s1" "\<exists>rs. st_db s2 = (st_db s)\<lparr>rule_results := rs\<rparr>"
    using s1(2) by (auto simp: s2_def)
  have "findings_ok (st_db s2)" "latest (st_job s2) (st_db s2)"
    using Cons.prems(2,3) s1(2,3) latest_same [OF _ same_jobs_refl s1(3)] by (simp_all add: s2_def)
  then obtain s' where s': "evaluate_rules sha256 ctxt draws rules s2 = Inr s'"
      "\<exists>rs. st_db s' = (st_db s2)\<lparr>rule_results := rs\<rparr>" "same_run (st_job s2) (st_job s')"
      "ej_rules_evaluated (st_job s') = ej_rules_evaluated (st_job s2) + int (target_count ctxt rules)"
      "ej_evaluation_errors (st_job s') = ej_evaluation_errors (st_job s2) + int (target_count ctxt rules)"
      "length (st_errors s') = length (st_errors s2) + target_count ctxt rules"
    using Cons.IH [of s2] Cons.prems(1) by auto
  have "evaluate_rules sha256 ctxt draws (rule # rules) s = Inr s'"
    using s1(1) s'(1) by (simp add: s2_def)
  moreover have "\<exists>rs. st_db s' = (st_db s)\<lparr>rule_results := rs\<rparr>" using s2(3) s'(2) by auto
  ultimately show ?case
    using s1(3-6) s'(3-6) s2(1,2) same_run_trans [of "st_job s" "st_job s1" "st_job s'"]
    by (intro exI [of _ s']) (simp add: target_count_def)
qed

lemma run_errors:
  assumes "evaluations_ok d" and "findings_ok d" and "get_row ej_id i (evaluation_jobs d) = Some row"
    and "ej_status row = EvaluationJobStatus.PENDING" and "latest row d"
    and "\<forall>rule \<in> set (enabled_rules registry). \<forall>asset \<in> set (rule_targets rule (evaluation_context row clock d)).
           rs_status (guarded_result rule asset (evaluation_context row clock d)) = RuleResultStatus.ERROR"
    and "0 < target_count (evaluation_context row clock d) (enabled_rules registry)"
    and "ej_rules_evaluated row = 0" and "ej_evaluation_errors row = 0"
  shows "\<exists>es t d'. run sha256 registry draws clock i actor d =
      (Inr (finished EvaluationJobStatus.FAILED es t
        (row\<lparr>ej_status := EvaluationJobStatus.RUNNING, ej_started_at := Some (ec_started clock)\<rparr>)), d') \<and>
    length es = target_count (evaluation_context row clock d) (enabled_rules registry)"
proof -
  let ?job = "row\<lparr>ej_status := EvaluationJobStatus.RUNNING, ej_started_at := Some (ec_started clock)\<rparr>"
  let ?ctxt = "evaluation_context row clock d"
  have i: "ej_id row = i" using get_row_key [OF assms(3)] by simp
  obtain d1 where d1: "begin_run i actor (ec_started clock) d = (Inr ?job, d1)" "evaluation_frame d d1"
      "evaluation_jobs d1 = put_row ej_id ?job (evaluation_jobs d)"
      "run_ok \<lparr>st_job = ?job\<lparr>ej_assets_evaluated := int (length (rc_account_assets ?ctxt))\<rparr>, st_summary = no_summary ?job,
         st_errors = [], st_db = d1\<rparr>"
    using begin_run_ok [OF assms(1-5), of "ec_started clock" actor "length (rc_account_assets ?ctxt)" "no_summary ?job"]
    by (auto simp: Let_def)
  have ctxt: "evaluation_context ?job clock d1 = ?ctxt"
    using d1(2) by (simp add: evaluation_context_def account_assets_def evaluation_frame_def)
  let ?s0 = "\<lparr>st_job = ?job\<lparr>ej_assets_evaluated := int (length (rc_account_assets ?ctxt))\<rparr>, st_summary = no_summary ?job,
      st_errors = [], st_db = d1\<rparr>"
  obtain s rs where s: "evaluate_account sha256 registry draws clock ?job d1 = Inr s" "st_db s = d1\<lparr>rule_results := rs\<rparr>"
      "ej_rules_evaluated (st_job s) = int (target_count ?ctxt (enabled_rules registry))"
      "ej_evaluation_errors (st_job s) = int (target_count ?ctxt (enabled_rules registry))"
      "length (st_errors s) = target_count ?ctxt (enabled_rules registry)"
    using evaluate_rules_errors [OF assms(6), of ?s0 sha256 draws] d1(4) assms(8,9)
    by (auto simp: evaluate_account_def ctxt Let_def run_ok_def)
  have t: "terminal_status (st_job s) (st_errors s) = EvaluationJobStatus.FAILED"
    using s(3,4) assms(7) by (simp add: terminal_status_def)
  have get: "get_row ej_id i (evaluation_jobs (st_db s)) = Some ?job"
    using assms(3) i by (simp add: s(2) d1(3) get_put_row)
  have "evaluations_ok (st_db s)" using d1(4) s(2) by (simp add: run_ok_def evaluations_ok_def)
  from finish_ok [OF this get, of EvaluationJobStatus.FAILED actor "st_errors s" "ec_finished clock"]
  obtain d' where "finish i actor EvaluationJobStatus.FAILED (st_errors s) (ec_finished clock) (st_db s) =
      (Inr (finished EvaluationJobStatus.FAILED (st_errors s) (ec_finished clock) ?job), d')"
    by (auto simp: terminal_def)
  then have "run sha256 registry draws clock i actor d =
      (Inr (finished EvaluationJobStatus.FAILED (st_errors s) (ec_finished clock) ?job), d')"
    using d1(1) s(1) t by (simp add: run_def)
  with s(5) show ?thesis by blast
qed


lemma start_succeeds:
  assumes "evaluation_system d" and "distinct (map rl_key registry)"
    and "get_row acc_id acc (aws_accounts d) = Some account"
    and "acc_connection_status account = AWSAccountStatus.CONNECTED"
    and "require_capability (acc_organization_id account) actor EVALUATIONS_START d = Inr m"
    and "i \<notin> ej_id ` set (evaluation_jobs d)"
  shows "\<exists>job d'. start_evaluation sha256 registry draws clock acc actor None i d = (Inr job, d')"
proof -
  have ok: "evaluations_ok d" "findings_ok d" "keys_distinct as_id (assets d)"
      "\<forall>j \<in> set (evaluation_jobs d). \<not> evaluation_active j"
    using assms(1) by (simp_all add: evaluation_system_def)
  let ?row = "new_evaluation account actor None i d"
  have acc: "acc_id account = acc" using get_row_key [OF assms(3)] by simp
  have none: "active_for_account acc d = None"
    using ok(4) by (auto simp: active_for_account_def find_None_iff evaluation_active_def)
  have "evaluation_constraints ?row"
    using next_sequence_positive [OF ok(1)] by (simp add: job_rules new_evaluation_def)
  moreover have "keys_distinct ej_id (evaluation_jobs d @ [?row])"
    using ok(1) assms(6) by (simp add: keys_distinct_snoc evaluations_ok_def new_evaluation_def)
  moreover have "evaluation_unique (evaluation_jobs d @ [?row])"
    using ok(1,4) next_sequence_bound [of _ d "acc_id account"]
    by (fastforce simp: evaluations_ok_def evaluation_unique_def unique_on_snoc new_evaluation_def)
  ultimately have ins: "insert_evaluation ?row d = Inr (d\<lparr>evaluation_jobs := evaluation_jobs d @ [?row]\<rparr>)"
    by (simp add: insert_evaluation_def discovery_reference_def new_evaluation_def Let_def)
  note new = insert_ok [OF ok(1,2) ins]
  have "ej_status ?row = EvaluationJobStatus.PENDING" by (simp add: new_evaluation_def)
  moreover have "keys_distinct as_id (assets (d\<lparr>evaluation_jobs := evaluation_jobs d @ [?row]\<rparr>))" using ok(3) by simp
  ultimately obtain job d' where "run sha256 registry draws clock i actor (d\<lparr>evaluation_jobs := evaluation_jobs d @ [?row]\<rparr>) =
      (Inr job, d')"
    using run_ends [OF _ _ _ _ _ assms(2)] new by blast
  then have "start_evaluation sha256 registry draws clock acc actor None i d = (Inr job, d')"
    using assms(3-5) none ins by (simp add: start_evaluation_def)
  then show ?thesis by blast
qed

section \<open>A sample account\<close>

definition scan_account :: AWSAccount where
  "scan_account = \<lparr>acc_id = 3, acc_organization_id = 2, acc_name = ''prod'', acc_account_id = ''123456789012'',
     acc_role_arn = None, acc_external_id = ''x'', acc_remediation_role_arn = None, acc_remediation_external_id = None,
     acc_sandbox_approved = False, acc_sandbox_approved_at = None, acc_sandbox_approved_by_user_id = None,
     acc_status = AWSAccountStatus.CONNECTED, acc_connection_status = AWSAccountStatus.CONNECTED,
     acc_failure_reason = None, acc_last_validated_at = None, acc_validation_token = None,
     acc_validation_started_at = None, acc_lifecycle_version = 0, acc_created_by_user_id = 7\<rparr>"

definition past_evaluation :: EvaluationJob where
  "past_evaluation = \<lparr>ej_id = 70, ej_organization_id = 2, ej_aws_account_id = 3, ej_discovery_job_id = None,
     ej_sequence = 1, ej_status = EvaluationJobStatus.COMPLETED, ej_started_by_user_id = 7, ej_started_at = Some 0,
     ej_finished_at = Some 5, ej_assets_evaluated = 1, ej_rules_evaluated = 1, ej_passed_count = 0,
     ej_failed_count = 1, ej_error_count = 0, ej_not_applicable_count = 0, ej_findings_created = 1,
     ej_findings_updated = 0, ej_findings_resolved = 0, ej_findings_reopened = 0, ej_evaluation_errors = 0,
     ej_error_summary = None\<rparr>"

definition sample_scan :: db where
  "sample_scan = sample_org\<lparr>aws_accounts := [scan_account], assets := [sample_bucket],
     evaluation_jobs := [past_evaluation], findings := [critical_finding]\<rparr>"

definition sample_rule :: "(exn + RuleResult) \<Rightarrow> SecurityRule" where
  "sample_rule r = \<lparr>rl_key = ''RULE'', rl_version = 1, rl_name = ''Rule'', rl_description = ''Rule'', rl_service = ''s3'',
     rl_asset_type = Some AssetType.S3_BUCKET, rl_category = ''network'', rl_severity = FindingSeverity.CRITICAL,
     rl_remediation = ''Close it'', rl_references = [], rl_enabled_by_default = True, rl_additional_asset_types = [],
     rl_evaluator = (\<lambda>asset ctxt. r)\<rparr>"

definition sample_clock :: EvaluationClock where
  "sample_clock = \<lparr>ec_started = 20, ec_evaluated = 21, ec_finished = 30\<rparr>"

definition sample_draws :: draws where
  "sample_draws key asset_id = \<lparr>rd_finding_id = 61, rd_event_id = 401, rd_now = 25\<rparr>"

lemma sample_scan_tables [simp]:
  "aws_accounts sample_scan = [scan_account]" "assets sample_scan = [sample_bucket]"
  "evaluation_jobs sample_scan = [past_evaluation]" "findings sample_scan = [critical_finding]"
  "acc_id scan_account = 3" "acc_organization_id scan_account = 2"
  "acc_connection_status scan_account = AWSAccountStatus.CONNECTED" "ej_id past_evaluation = 70"
  "discovery_jobs sample_scan = []" "notification_events sample_scan = []"
  by (simp_all add: sample_scan_def scan_account_def past_evaluation_def sample_org_def empty_db_def)

lemma sample_scan_system: "evaluation_system sample_scan"
proof -
  have "finding_constraints critical_finding"
    by (simp add: critical_finding_def finding_constraints_def finding_status_lifecycle_def)
  moreover have "finding_reference critical_finding sample_scan"
    by (simp add: finding_reference_def critical_finding_def past_evaluation_def)
  moreover have "job_ok past_evaluation" "\<not> evaluation_active past_evaluation"
    by (simp_all add: job_rules past_evaluation_def evaluation_active_def)
  ultimately show ?thesis
    by (simp add: evaluation_system_def evaluations_ok_def findings_ok_def evaluation_unique_def finding_unique_def)
qed

lemma sample_scan_member:
  "\<exists>m. require_capability 2 7 capability sample_scan = Inr m"
proof -
  have "require_capability 2 7 capability sample_scan = require_capability 2 7 capability sample_org"
    by (simp add: require_capability_def require_member_def active_membership_def sample_scan_def)
  then show ?thesis by simp
qed

lemma sample_start:
  "\<exists>job d. start_evaluation (\<lambda>s. []) [sample_rule r] sample_draws sample_clock 3 7 None 71 sample_scan = (Inr job, d)"
proof -
  obtain m where m: "require_capability (acc_organization_id scan_account) 7 EVALUATIONS_START sample_scan = Inr m"
    using sample_scan_member by auto
  show ?thesis
    using start_succeeds [OF sample_scan_system _ _ _ m, of "[sample_rule r]" 3 71 "\<lambda>s. []" sample_draws sample_clock]
    by simp
qed

section \<open>Properties\<close>

text \<open>
  C18. An evaluation implements the abstract lifecycle of findings: a started evaluation ends, and
  for every enabled rule and every asset the rule applies to it has moved the finding the reader sees
  exactly as the result of the rule says. A failure opens or reopens it unless a suppression still
  holds, a pass resolves it unless a suppression still holds, an error or an inapplicable rule changes
  nothing; and nothing else is touched, in particular no finding of another account. An evaluation
  is rolled back, leaving every finding as it was, only when a rule has no positive version, an identifier
  drawn for a new finding is already taken, the clock is behind the first sight of a finding, or a finding
  of the asset belongs to another account.
\<close>

theorem evaluation_refines_lifecycle:
  assumes "evaluations_ok d" and "findings_ok d" and "distinct (map rl_key registry)"
    and "keys_distinct as_id (assets d)" and "get_row acc_id acc (aws_accounts d) = Some account"
    and "start_evaluation sha256 registry draws clock acc actor dj i d = (Inr job, d')"
    and "ctxt = \<lparr>rc_account_assets = sort_key as_id (filter (\<lambda>a. as_aws_account_id a = acc \<and>
                    as_organization_id a = acc_organization_id account \<and> as_is_active a) (assets d)),
                  rc_evaluated_at = ec_evaluated clock\<rparr>"
  shows "ej_status job \<in> {EvaluationJobStatus.COMPLETED, EvaluationJobStatus.PARTIALLY_COMPLETED, EvaluationJobStatus.FAILED} \<and>
    ((\<forall>rule \<in> set (enabled_rules registry). \<forall>asset \<in> set (rule_targets rule ctxt).
        let key = rl_key rule; asset_id = map_option as_id asset; now = rd_now (draws key asset_id)
        in account_view d' acc key asset_id now =
             next_view (rs_status (guarded_result rule asset ctxt)) (account_view d acc key asset_id now)) \<and>
     (\<forall>a key asset_id. a \<noteq> acc \<or>
        (\<forall>rule \<in> set (enabled_rules registry). \<forall>asset \<in> set (rule_targets rule ctxt).
           (rl_key rule, map_option as_id asset) \<noteq> (key, asset_id)) \<longrightarrow>
        finding_for_rule a key asset_id d' = finding_for_rule a key asset_id d) \<or>
     findings d' = findings d \<and>
     \<not> ((\<forall>rule \<in> set registry. 0 < rl_version rule) \<and> usable_draws acc draws (rule_keys ctxt (enabled_rules registry)) d))"
proof -
  obtain row d1 where s: "findings d1 = findings d" "evaluation_frame d d1" "ej_aws_account_id row = acc"
      "ej_organization_id row = acc_organization_id account" "run_outcome registry draws clock row job d1 d'"
    using start_outcome [OF assms(1-4), of sha256 draws clock acc actor dj i] assms(5,6) by auto
  have ctxt: "evaluation_context row clock d1 = ctxt"
    using s(2-4) by (simp add: evaluation_context_def account_assets_def evaluation_frame_def assms(7))
  have "run_prepared registry draws clock row d1 \<longleftrightarrow>
      (\<forall>rule \<in> set registry. 0 < rl_version rule) \<and> usable_draws acc draws (rule_keys ctxt (enabled_rules registry)) d"
    using usable_draws_cong [OF s(1)] by (simp add: run_prepared_def ctxt s(3))
  then have "lifecycle_applied ctxt draws (enabled_rules registry) acc d d' \<or> findings d' = findings d \<and>
      \<not> ((\<forall>rule \<in> set registry. 0 < rl_version rule) \<and> usable_draws acc draws (rule_keys ctxt (enabled_rules registry)) d)"
    using s(5) lifecycle_applied_cong [OF s(1) refl] s(1) unfolding run_outcome_def ctxt s(3) by metis
  note applied = this [unfolded lifecycle_applied_def not_rule_keys]
  have status: "ej_status job \<in> {EvaluationJobStatus.COMPLETED, EvaluationJobStatus.PARTIALLY_COMPLETED, EvaluationJobStatus.FAILED}"
    using s(5) by (simp add: run_outcome_def terminal_def)
  show ?thesis by (rule conjI [OF status applied])
qed

theorem evaluation_refines_lifecycle_witness:
  "\<exists>job d'. start_evaluation (\<lambda>s. []) [sample_rule (Inr (passed []))] sample_draws sample_clock 3 7 None 71 sample_scan =
     (Inr job, d') \<and>
   account_view sample_scan 3 ''RULE'' (Some 50) 25 = Opened \<and> account_view d' 3 ''RULE'' (Some 50) 25 = Resolved"
proof -
  let ?rule = "sample_rule (Inr (passed []))" and ?ctxt = "\<lparr>rc_account_assets = [sample_bucket], rc_evaluated_at = 21\<rparr>"
  have ok: "evaluations_ok sample_scan" "findings_ok sample_scan" "keys_distinct as_id (assets sample_scan)"
    using sample_scan_system by (simp_all only: evaluation_system_def)
  have acc: "get_row acc_id 3 (aws_accounts sample_scan) = Some scan_account" by simp
  obtain job d' where s: "start_evaluation (\<lambda>s. []) [?rule] sample_draws sample_clock 3 7 None 71 sample_scan = (Inr job, d')"
    using sample_start by blast
  have opened: "account_view sample_scan 3 ''RULE'' (Some 50) 25 = Opened"
    by (simp add: account_view_def finding_for_rule_def critical_finding_def finding_view_of_def)
  have bucket: "as_aws_account_id sample_bucket = 3" "as_organization_id sample_bucket = 2" "as_is_active sample_bucket"
      "as_id sample_bucket = 50"
    by (simp_all add: sample_bucket_def)
  have rules: "enabled_rules [?rule] = [?rule]" "rule_targets ?rule ?ctxt = [Some sample_bucket]" "rl_key ?rule = ''RULE''"
      "guarded_result ?rule (Some sample_bucket) ?ctxt = passed []" "0 < rl_version ?rule"
    by (simp_all add: enabled_rules_def registry_filter_def registry_all_def sample_rule_def rule_targets_def applies_to_def
        rule_asset_types_def sample_bucket_def guarded_result_def evaluate_def)
  have keys: "rule_keys ?ctxt [?rule] = {(''RULE'', Some 50)}" by (auto simp: rule_keys_def rules bucket)
  have usable: "usable_draws 3 sample_draws (rule_keys ?ctxt (enabled_rules [?rule])) sample_scan"
    unfolding rules(1) keys by (simp add: usable_draws_def sample_draws_def critical_finding_def)
  have "distinct (map rl_key [?rule])" by simp
  moreover have "rs_status (passed []) = RuleResultStatus.PASSED" by (simp add: passed_def rule_result_def)
  ultimately have "account_view d' 3 ''RULE'' (Some 50) 25 = Resolved"
    using evaluation_refines_lifecycle [OF ok(1,2) _ ok(3) acc s, of ?ctxt] usable
    by (simp add: rules bucket opened Let_def sample_draws_def sample_clock_def)
  with s opened show ?thesis by blast
qed

text \<open>
  Evaluations always end and leave well-formed rows: over every sequence of evaluations,
  suppressions and their withdrawal no evaluation stays pending or running, the stored counters
  of each add up, every finding keeps its constraints and indexes, and so a connected account can
  always be evaluated again by a member with the capability.
\<close>

theorem evaluations_always_end:
  assumes "evaluation_system d" and "evaluation_step\<^sup>*\<^sup>* d d'"
    and "distinct (map rl_key registry)" and "get_row acc_id acc (aws_accounts d') = Some account"
    and "acc_connection_status account = AWSAccountStatus.CONNECTED"
    and "require_capability (acc_organization_id account) actor EVALUATIONS_START d' = Inr m"
    and "i \<notin> ej_id ` set (evaluation_jobs d')"
  shows "(\<forall>j \<in> set (evaluation_jobs d').
      ej_status j \<in> {EvaluationJobStatus.COMPLETED, EvaluationJobStatus.PARTIALLY_COMPLETED, EvaluationJobStatus.FAILED} \<and>
      ej_rules_evaluated j = ej_passed_count j + ej_failed_count j + ej_error_count j + ej_not_applicable_count j \<and>
      ej_evaluation_errors j = ej_error_count j) \<and>
    (\<forall>f \<in> set (findings d'). finding_constraints f) \<and> finding_unique (findings d') \<and>
    (\<exists>job d''. start_evaluation sha256 registry draws clock acc actor None i d' = (Inr job, d'') \<and> evaluation_system d'')"
proof -
  have sys: "evaluation_system d'" by (rule evaluation_process.inv_reachable [OF assms(2,1)])
  then have ok: "evaluations_ok d'" "findings_ok d'" "keys_distinct as_id (assets d')"
      "\<forall>j \<in> set (evaluation_jobs d'). \<not> evaluation_active j"
    by (simp_all add: evaluation_system_def)
  obtain job d'' where "start_evaluation sha256 registry draws clock acc actor None i d' = (Inr job, d'')"
    using start_succeeds [OF sys assms(3-7)] by blast
  moreover from this have "evaluation_system d''"
    using start_system [OF sys assms(3), of sha256 draws clock acc actor None i] by simp
  moreover have "ej_status j \<in> {EvaluationJobStatus.COMPLETED, EvaluationJobStatus.PARTIALLY_COMPLETED, EvaluationJobStatus.FAILED}"
    if "j \<in> set (evaluation_jobs d')" for j
    using that ok(4) by (cases "ej_status j") (auto simp: evaluation_active_def)
  ultimately show ?thesis
    using ok(1,2) unfolding evaluations_ok_def findings_ok_def job_ok_def counters_ok_def by blast
qed


theorem evaluations_always_end_witness:
  "\<exists>job d'. start_evaluation (\<lambda>s. []) [sample_rule (Inl TypeError)] sample_draws sample_clock 3 7 None 71 sample_scan =
     (Inr job, d') \<and> evaluation_system d'"
proof -
  obtain m where m: "require_capability (acc_organization_id scan_account) 7 EVALUATIONS_START sample_scan = Inr m"
    using sample_scan_member by auto
  show ?thesis
    using evaluations_always_end [OF sample_scan_system rtranclp.rtrancl_refl _ _ _ m, of "[sample_rule (Inl TypeError)]" 3 71]
    by simp
qed

text \<open>
  When every result of an evaluation is an error, its counters are lost: nothing is flushed
  after an error, and the final read of the row discards the counts in memory. The job fails as
  it should, but its row says that no asset and no rule was evaluated and that no error occurred.
\<close>

theorem error_counters_lost:
  assumes "evaluations_ok d" and "findings_ok d" and "get_row acc_id acc (aws_accounts d) = Some account"
    and "start_evaluation sha256 registry draws clock acc actor dj i d = (Inr job, d')"
    and "ctxt = \<lparr>rc_account_assets = sort_key as_id (filter (\<lambda>a. as_aws_account_id a = acc \<and>
                    as_organization_id a = acc_organization_id account \<and> as_is_active a) (assets d)),
                  rc_evaluated_at = ec_evaluated clock\<rparr>"
    and "\<forall>rule \<in> set (enabled_rules registry). \<forall>asset \<in> set (rule_targets rule ctxt).
           rs_status (guarded_result rule asset ctxt) = RuleResultStatus.ERROR"
    and "rule \<in> set (enabled_rules registry)" and "asset \<in> set (rule_targets rule ctxt)"
  shows "ej_status job = EvaluationJobStatus.FAILED \<and> ej_rules_evaluated job = 0 \<and> ej_error_count job = 0 \<and>
    ej_evaluation_errors job = 0 \<and> ej_assets_evaluated job = 0"
proof -
  let ?row = "new_evaluation account actor dj i d"
  have acc: "acc_id account = acc" using get_row_key [OF assms(3)] by simp
  obtain d1 where d1: "insert_evaluation ?row d = Inr d1" "run sha256 registry draws clock i actor d1 = (Inr job, d')"
    using assms(3,4) by (auto simp: start_evaluation_def split: sum.splits if_splits)
  note ins = insert_ok [OF assms(1,2) d1(1)]
  have row: "ej_status ?row = EvaluationJobStatus.PENDING" "ej_rules_evaluated ?row = 0" "ej_evaluation_errors ?row = 0"
      "ej_error_count ?row = 0" "ej_assets_evaluated ?row = 0"
    by (simp_all add: new_evaluation_def)
  have ctxt: "evaluation_context ?row clock d1 = ctxt"
    using ins acc by (simp add: evaluation_context_def account_assets_def evaluation_frame_def assms(5) new_evaluation_def)
  have "length (rule_targets rule ctxt) \<in> set (map (\<lambda>rule. length (rule_targets rule ctxt)) (enabled_rules registry))"
    using assms(7) by simp
  from member_le_sum_list [OF this] have "0 < target_count ctxt (enabled_rules registry)"
    using assms(8) unfolding target_count_def by (cases "rule_targets rule ctxt") simp_all
  with run_errors [OF _ _ _ row(1) _ _ _ row(2,3), of d1 i registry clock sha256 draws actor] ins assms(6) d1(2) ctxt
  show ?thesis by (auto simp: finished_def row)
qed

theorem error_counters_lost_witness:
  "\<exists>job d'. start_evaluation (\<lambda>s. []) [sample_rule (Inl TypeError)] sample_draws sample_clock 3 7 None 71 sample_scan =
     (Inr job, d') \<and> ej_status job = EvaluationJobStatus.FAILED \<and> ej_evaluation_errors job = 0"
proof -
  let ?rule = "sample_rule (Inl TypeError)"
  have ok: "evaluations_ok sample_scan" "findings_ok sample_scan"
    using sample_scan_system by (simp_all only: evaluation_system_def)
  have acc: "get_row acc_id 3 (aws_accounts sample_scan) = Some scan_account" by simp
  obtain job d' where s: "start_evaluation (\<lambda>s. []) [?rule] sample_draws sample_clock 3 7 None 71 sample_scan = (Inr job, d')"
    using sample_start by blast
  have rules: "enabled_rules [?rule] = [?rule]"
    by (simp add: enabled_rules_def registry_filter_def registry_all_def sample_rule_def)
  have b: "as_aws_account_id sample_bucket = 3" "as_organization_id sample_bucket = 2" "as_is_active sample_bucket"
    by (simp_all add: sample_bucket_def)
  have t: "rule_targets ?rule \<lparr>rc_account_assets = [sample_bucket], rc_evaluated_at = t\<rparr> = [Some sample_bucket]" for t
    by (simp add: rule_targets_def sample_rule_def applies_to_def rule_asset_types_def sample_bucket_def)
  have "rs_status (guarded_result ?rule (Some sample_bucket) ctxt) = RuleResultStatus.ERROR" for ctxt
    by (simp add: guarded_result_def evaluate_def sample_rule_def applies_to_def rule_asset_types_def sample_bucket_def
        rule_result_def)
  with error_counters_lost [OF ok acc s refl, of ?rule "Some sample_bucket"] s show ?thesis
    by (simp add: rules b t)
qed

text \<open>
  Whatever happens around a suppressed finding before its suppression runs out: evaluations of any
  account under any rules, and suppressions or their withdrawal for other findings.
\<close>

inductive suppressed_step :: "Finding \<Rightarrow> db \<Rightarrow> db \<Rightarrow> bool" for f where
  suppressed_evaluation: "distinct (map rl_key registry) \<Longrightarrow>
     (\<forall>t. f_suppressed_until f = Some t \<longrightarrow> rd_now (draws (f_rule_key f) (f_asset_id f)) < t) \<Longrightarrow>
     suppressed_step f d (snd (start_evaluation sha256 registry draws clock acc actor dj i d))"
| suppressed_other: "i \<noteq> f_id f \<Longrightarrow> suppressed_step f d (snd (suppress org i actor reason until now d))"
| unsuppressed_other: "i \<noteq> f_id f \<Longrightarrow> suppressed_step f d (snd (unsuppress org i actor d))"

lemma suppressed_step_system: "suppressed_step f d d' \<Longrightarrow> evaluation_system d \<Longrightarrow> evaluation_system d'"
  by (induction rule: suppressed_step.induct) (simp_all add: start_system suppress_system)

lemma suppression_kept_audit [simp]: "suppression_kept f (record_audit e t r ou au ru d) = suppression_kept f d"
  by (simp add: suppression_kept_def)

lemma suppression_kept_other:
  assumes "suppression_kept f d" and "get_scoped_finding org i d = Some g" and "i \<noteq> f_id f" and "same_finding g g'"
    and "flush_finding g' d = Inr d'"
  shows "suppression_kept f d'"
proof -
  obtain f1 where f1: "f1 \<in> set (findings d)" "same_finding f f1" "same_suppression f f1"
    using assms(1) by (auto simp: suppression_kept_def)
  have "f_id g = i" using assms(2) by (auto simp: get_scoped_finding_def dest: find_mem)
  then have "f_id f1 \<noteq> f_id g'" using f1(2) assms(3,4) by (simp add: same_finding_def)
  then have "f1 \<in> set (put_row f_id g' (findings d))" using f1(1) by (rule in_put_row_other [rotated])
  with f1 assms(5) show ?thesis by (auto simp: suppression_kept_def flush_finding_Inr)
qed

lemma suppressed_step_kept:
  assumes "suppressed_step f d d'" and "evaluation_system d" and "f_status f = FindingStatus.SUPPRESSED" and "suppression_kept f d"
  shows "suppression_kept f d'"
  using assms
proof (induction rule: suppressed_step.induct)
  case (suppressed_evaluation registry draws d sha256 clock acc actor dj i)
  then have ok: "evaluations_ok d" "findings_ok d" "keys_distinct as_id (assets d)" by (simp_all add: evaluation_system_def)
  have active: "active_suppression (rd_now (draws (f_rule_key f) (f_asset_id f))) f"
    using suppressed_evaluation by (simp add: active_suppression_def split: option.splits)
  from start_outcome [OF ok(1,2) suppressed_evaluation(1) ok(3), of sha256 draws clock acc actor dj i] show ?case
  proof (elim disjE exE conjE)
    fix row job d' d1
    assume s: "start_evaluation sha256 registry draws clock acc actor dj i d = (Inr job, d')" "findings d1 = findings d"
      "run_outcome registry draws clock row job d1 d'"
    have "suppression_kept f d1" using suppressed_evaluation s(2) by (simp add: suppression_kept_def)
    with s(1,3) active show ?thesis by (simp add: run_outcome_def)
  qed (use suppressed_evaluation in simp)
next
  case (suppressed_other i d org actor reason until now)
  then show ?case
    using suppression_kept_other [OF _ _ _ rewritten_findings(3)]
    by (auto simp: suppress_def Let_def split: sum.splits option.splits)
next
  case (unsuppressed_other i d org actor)
  then show ?case
    using suppression_kept_other [OF _ _ _ rewritten_findings(4)]
    by (auto simp: unsuppress_def Let_def split: sum.splits option.splits)
qed

text \<open>
  C19. A suppression survives evaluations until it expires: whatever evaluations of whichever
  account look at a suppressed finding before its expiry, if it has one, whatever the rules say, and
  whatever happens to the suppressions of other findings in between, the finding is still there,
  suppressed by the same user for the same reason since the same time and until the same time.
\<close>

theorem suppression_survives_evaluation:
  assumes "evaluation_system d" and "f \<in> set (findings d)" and "f_status f = FindingStatus.SUPPRESSED"
    and "(suppressed_step f)\<^sup>*\<^sup>* d d'"
  shows "\<exists>f' \<in> set (findings d'). f_id f' = f_id f \<and> f_status f' = FindingStatus.SUPPRESSED \<and>
    f_suppressed_until f' = f_suppressed_until f \<and> f_suppressed_at f' = f_suppressed_at f \<and>
    f_suppression_reason f' = f_suppression_reason f \<and> f_suppressed_by_user_id f' = f_suppressed_by_user_id f"
proof -
  have "suppression_kept f d"
    using assms(2) rewritten_findings(5) same_suppression_refl unfolding suppression_kept_def by blast
  with assms(4) have "evaluation_system d' \<and> suppression_kept f d'"
    using assms(1) by (induction rule: rtranclp_induct) (use suppressed_step_system suppressed_step_kept assms(3) in blast)+
  with assms(3) show ?thesis by (auto simp: suppression_kept_def same_finding_def same_suppression_def)
qed

theorem suppression_survives_evaluation_witness:
  "\<exists>f d1 job d2. suppress 2 60 7 ''accepted'' (Some 1000) 15 sample_scan = (Inr f, d1) \<and>
     start_evaluation (\<lambda>s. []) [sample_rule (Inr (failed []))] sample_draws sample_clock 3 7 None 71 d1 = (Inr job, d2) \<and>
     (\<exists>f' \<in> set (findings d2). f_id f' = 60 \<and> f_status f' = FindingStatus.SUPPRESSED \<and> f_suppressed_until f' = Some 1000)"
proof -
  let ?f = "suppress_row 7 ''accepted'' (Some 1000) 15 critical_finding" and ?rule = "sample_rule (Inr (failed []))"
  obtain m where m: "require_capability 2 7 FINDINGS_SUPPRESS sample_scan = Inr m" using sample_scan_member by blast
  have f: "f_id critical_finding = 60" "f_organization_id critical_finding = 2" by (simp_all add: critical_finding_def)
  have key: "f_id ?f = 60" "f_status ?f = FindingStatus.SUPPRESSED" "f_suppressed_until ?f = Some 1000"
    by (simp_all add: suppress_row_def f)
  have "finding_constraints ?f"
    by (simp add: finding_constraints_def finding_status_lifecycle_def suppress_row_def critical_finding_def strip_def is_space_def)
  then obtain d1 where d1: "suppress 2 60 7 ''accepted'' (Some 1000) 15 sample_scan = (Inr ?f, d1)"
      "aws_accounts d1 = [scan_account]" "evaluation_jobs d1 = [past_evaluation]" "memberships d1 = memberships sample_scan"
      "findings d1 = [?f]"
    using m f key(1) by (auto simp: suppress_def get_scoped_finding_def flush_finding_def finding_unique_def Let_def)
  have sys: "evaluation_system d1"
    using suppress_system(1) [OF sample_scan_system, of 2 60 7 "''accepted''" "Some 1000" 15] d1(1) by simp
  obtain m' where "require_capability 2 7 EVALUATIONS_START sample_scan = Inr m'" using sample_scan_member by blast
  then have "require_capability (acc_organization_id scan_account) 7 EVALUATIONS_START d1 = Inr m'"
    using d1(4) by (simp add: require_capability_def require_member_def active_membership_def)
  from start_succeeds [OF sys _ _ _ this, of "[?rule]" 3 71 "\<lambda>s. []" sample_draws sample_clock]
  obtain job d2 where s: "start_evaluation (\<lambda>s. []) [?rule] sample_draws sample_clock 3 7 None 71 d1 = (Inr job, d2)"
    using d1(2,3) by auto
  have "suppressed_step ?f d1 (snd (start_evaluation (\<lambda>s. []) [?rule] sample_draws sample_clock 3 7 None 71 d1))"
    by (rule suppressed_evaluation) (simp_all add: key sample_draws_def)
  then have "(suppressed_step ?f)\<^sup>*\<^sup>* d1 d2" using s by auto
  from suppression_survives_evaluation [OF sys _ key(2) this] d1(1,5) s key show ?thesis by auto
qed

end
