(* ===== verification/Risk_Service.thy ===== *)
theory Risk_Service
  imports Risk_Engine Evaluations
begin

text \<open>
  The risk assessment service: \<^verbatim>\<open>app/services/risk.py\<close> over the tables of \<^verbatim>\<open>app/models/risk.py\<close>,
  with the endpoints of \<^verbatim>\<open>app/api/v1/risk.py\<close> that write. It scores every open or suppressed
  finding of a scope with the engine of \<open>Risk_Engine\<close>, aggregates per account and organization
  and stores all results as snapshots. The theory shows that an assessment always completes, that its
  stored numbers agree with each other and never change again, and how contexts and compensating
  controls are updated. The tables of the service are a record of their own around \<open>db\<close>.
\<close>

section \<open>The tables\<close>

text \<open>
  Name, description, weights and bands of a policy copy constants of the engine; they and the
  surrogate keys of the snapshots are left out.
\<close>

record RiskScoringPolicy =
  rp_id :: uuid
  rp_key :: string
  rp_version :: int
  rp_active :: bool

record AssetRiskContext =
  rc_id :: uuid
  rc_organization_id :: uuid
  rc_aws_account_id :: uuid
  rc_asset_id :: "uuid option"
  rc_criticality :: RiskCriticality
  rc_environment :: RiskEnvironment
  rc_business_impact :: BusinessImpact
  rc_data_sensitivity :: DataSensitivity
  rc_source :: string
  rc_updated_by_user_id :: uuid
  rc_version :: int

text \<open>\<^verbatim>\<open>risk_context_version_positive\<close>, \<^verbatim>\<open>uq_risk_context_asset\<close> and \<^verbatim>\<open>uq_risk_context_account_default\<close>.\<close>

definition contexts_storable :: "AssetRiskContext list \<Rightarrow> bool" where
  "contexts_storable rows =
     (list_all (\<lambda>c. 0 < rc_version c) rows \<and>
      unique_on (\<lambda>c. rc_asset_id c \<noteq> None) rc_asset_id rows \<and>
      unique_on (\<lambda>c. rc_asset_id c = None) rc_aws_account_id rows)"

record RiskAssessment =
  ra_id :: uuid
  ra_organization_id :: uuid
  ra_aws_account_id :: "uuid option"
  ra_policy_id :: uuid
  ra_evaluation_time :: instant
  ra_source_cutoff_at :: instant
  ra_status :: RiskAssessmentStatus
  ra_started_by_user_id :: uuid
  ra_started_at :: "instant option"
  ra_finished_at :: "instant option"
  ra_findings_total :: int
  ra_critical_count :: int
  ra_high_count :: int
  ra_medium_count :: int
  ra_low_count :: int
  ra_informational_count :: int
  ra_accounts_scored :: int
  ra_aggregate_score :: "int option"
  ra_aggregate_priority :: "RiskPriority option"
  ra_error_code :: "string option"

definition risk_assessment_counts_match :: "RiskAssessment \<Rightarrow> bool" where
  "risk_assessment_counts_match a =
     (ra_findings_total a = ra_critical_count a + ra_high_count a + ra_medium_count a + ra_low_count a +
        ra_informational_count a)"

definition risk_assessment_status_timestamps :: "RiskAssessment \<Rightarrow> bool" where
  "risk_assessment_status_timestamps a =
     (ra_status a = RiskAssessmentStatus.PENDING \<and> ra_started_at a = None \<and> ra_finished_at a = None \<or>
      ra_status a = RiskAssessmentStatus.RUNNING \<and> ra_started_at a \<noteq> None \<and> ra_finished_at a = None \<or>
      ra_status a \<in> {RiskAssessmentStatus.COMPLETED, RiskAssessmentStatus.FAILED} \<and>
        ra_started_at a \<noteq> None \<and> ra_finished_at a \<noteq> None)"

definition risk_assessment_constraints :: "RiskAssessment \<Rightarrow> bool" where
  "risk_assessment_constraints a =
     (0 \<le> ra_findings_total a \<and> 0 \<le> ra_critical_count a \<and> 0 \<le> ra_high_count a \<and> 0 \<le> ra_medium_count a \<and>
      0 \<le> ra_low_count a \<and> 0 \<le> ra_informational_count a \<and> 0 \<le> ra_accounts_scored a \<and>
      risk_assessment_counts_match a \<and>
      (case ra_aggregate_score a of None \<Rightarrow> True | Some s \<Rightarrow> 0 \<le> s \<and> s \<le> 100) \<and>
      risk_assessment_status_timestamps a)"

definition assessment_active :: "RiskAssessment \<Rightarrow> bool" where
  "assessment_active a = (ra_status a \<in> {RiskAssessmentStatus.PENDING, RiskAssessmentStatus.RUNNING})"

text \<open>\<^verbatim>\<open>uq_active_risk_assessment_account\<close> and \<^verbatim>\<open>uq_active_risk_assessment_organization\<close>.\<close>

definition assessments_storable :: "RiskAssessment list \<Rightarrow> bool" where
  "assessments_storable rows =
     (list_all risk_assessment_constraints rows \<and>
      unique_on (\<lambda>a. ra_aws_account_id a \<noteq> None \<and> assessment_active a)
        (\<lambda>a. (ra_organization_id a, ra_aws_account_id a, ra_policy_id a)) rows \<and>
      unique_on (\<lambda>a. ra_aws_account_id a = None \<and> assessment_active a)
        (\<lambda>a. (ra_organization_id a, ra_policy_id a)) rows)"

record FindingRiskSnapshot =
  fr_assessment_id :: uuid
  fr_organization_id :: uuid
  fr_aws_account_id :: uuid
  fr_finding_id :: uuid
  fr_asset_id :: "uuid option"
  fr_source_finding_version :: int
  fr_source_finding_status :: FindingStatus
  fr_policy_key :: string
  fr_policy_version :: int
  fr_evaluation_time :: instant
  fr_risk_score :: int
  fr_priority :: RiskPriority
  fr_severity_points :: int
  fr_exposure_points :: int
  fr_exploitability_points :: int
  fr_privilege_points :: int
  fr_asset_criticality_points :: int
  fr_environment_points :: int
  fr_business_impact_points :: int
  fr_data_sensitivity_points :: int
  fr_age_points :: int
  fr_compensating_adjustment :: int
  fr_component_codes_json :: "(string \<times> string) list"
  fr_unknown_inputs_json :: "string list"

definition finding_snapshot_constraints :: "FindingRiskSnapshot \<Rightarrow> bool" where
  "finding_snapshot_constraints s =
     (0 < fr_policy_version s \<and> 0 \<le> fr_risk_score s \<and> fr_risk_score s \<le> 100 \<and>
      0 \<le> fr_severity_points s \<and> fr_severity_points s \<le> 30 \<and> 0 \<le> fr_exposure_points s \<and> fr_exposure_points s \<le> 15 \<and>
      0 \<le> fr_exploitability_points s \<and> fr_exploitability_points s \<le> 10 \<and>
      0 \<le> fr_privilege_points s \<and> fr_privilege_points s \<le> 10 \<and>
      0 \<le> fr_asset_criticality_points s \<and> fr_asset_criticality_points s \<le> 10 \<and>
      0 \<le> fr_environment_points s \<and> fr_environment_points s \<le> 5 \<and>
      0 \<le> fr_business_impact_points s \<and> fr_business_impact_points s \<le> 10 \<and>
      0 \<le> fr_data_sensitivity_points s \<and> fr_data_sensitivity_points s \<le> 5 \<and>
      0 \<le> fr_age_points s \<and> fr_age_points s \<le> 5 \<and>
      -15 \<le> fr_compensating_adjustment s \<and> fr_compensating_adjustment s \<le> 0)"

text \<open>The checks and \<^verbatim>\<open>uq_finding_risk_snapshot\<close>.\<close>

definition finding_snapshots_storable :: "FindingRiskSnapshot list \<Rightarrow> bool" where
  "finding_snapshots_storable rows =
     (list_all finding_snapshot_constraints rows \<and>
      unique_on (\<lambda>s. True) (\<lambda>s. (fr_assessment_id s, fr_finding_id s)) rows)"

record AccountRiskSnapshot =
  ar_assessment_id :: uuid
  ar_organization_id :: uuid
  ar_aws_account_id :: uuid
  ar_evaluation_time :: instant
  ar_risk_score :: int
  ar_priority :: RiskPriority
  ar_highest_finding_score :: int
  ar_top_ten_mean :: int
  ar_all_findings_mean :: int
  ar_findings_total :: int

definition account_risk_ranges :: "AccountRiskSnapshot \<Rightarrow> bool" where
  "account_risk_ranges s =
     (0 \<le> ar_risk_score s \<and> ar_risk_score s \<le> 100 \<and>
      0 \<le> ar_highest_finding_score s \<and> ar_highest_finding_score s \<le> 100 \<and>
      0 \<le> ar_top_ten_mean s \<and> ar_top_ten_mean s \<le> 100 \<and>
      0 \<le> ar_all_findings_mean s \<and> ar_all_findings_mean s \<le> 100 \<and> 0 \<le> ar_findings_total s)"

definition account_snapshots_storable :: "AccountRiskSnapshot list \<Rightarrow> bool" where
  "account_snapshots_storable rows =
     (list_all account_risk_ranges rows \<and>
      unique_on (\<lambda>s. True) (\<lambda>s. (ar_assessment_id s, ar_aws_account_id s)) rows)"

record OrganizationRiskSnapshot =
  og_assessment_id :: uuid
  og_organization_id :: uuid
  og_evaluation_time :: instant
  og_risk_score :: int
  og_priority :: RiskPriority
  og_highest_account_score :: int
  og_mean_account_score :: int
  og_accounts_total :: int
  og_reason_code :: string

definition organization_risk_ranges :: "OrganizationRiskSnapshot \<Rightarrow> bool" where
  "organization_risk_ranges s =
     (0 \<le> og_risk_score s \<and> og_risk_score s \<le> 100 \<and>
      0 \<le> og_highest_account_score s \<and> og_highest_account_score s \<le> 100 \<and>
      0 \<le> og_mean_account_score s \<and> og_mean_account_score s \<le> 100 \<and> 0 \<le> og_accounts_total s)"

definition organization_snapshots_storable :: "OrganizationRiskSnapshot list \<Rightarrow> bool" where
  "organization_snapshots_storable rows =
     (list_all organization_risk_ranges rows \<and> unique_on (\<lambda>s. True) og_assessment_id rows)"

record CompensatingControl =
  cc_id :: uuid
  cc_organization_id :: uuid
  cc_aws_account_id :: uuid
  cc_finding_id :: uuid
  cc_reason :: string
  cc_score_adjustment :: int
  cc_created_by_user_id :: uuid
  cc_expires_at :: "instant option"
  cc_active :: bool
  cc_created_at :: instant

definition control_constraints :: "CompensatingControl \<Rightarrow> bool" where
  "control_constraints c =
     (-15 \<le> cc_score_adjustment c \<and> cc_score_adjustment c \<le> -1 \<and>
      (case cc_expires_at c of None \<Rightarrow> True | Some t \<Rightarrow> cc_created_at c < t))"

text \<open>The checks and \<^verbatim>\<open>uq_active_compensating_control_finding\<close>.\<close>

definition controls_storable :: "CompensatingControl list \<Rightarrow> bool" where
  "controls_storable rows = (list_all control_constraints rows \<and> unique_on cc_active cc_finding_id rows)"

record risk_db =
  rs_db :: db
  rs_policies :: "RiskScoringPolicy list"
  rs_contexts :: "AssetRiskContext list"
  rs_assessments :: "RiskAssessment list"
  rs_finding_snapshots :: "FindingRiskSnapshot list"
  rs_account_snapshots :: "AccountRiskSnapshot list"
  rs_organization_snapshots :: "OrganizationRiskSnapshot list"
  rs_controls :: "CompensatingControl list"

definition risk_audit :: "string \<Rightarrow> string \<Rightarrow> uuid \<Rightarrow> uuid \<Rightarrow> uuid option \<Rightarrow> risk_db \<Rightarrow> risk_db" where
  "risk_audit event resource organization_id actor_id resource_id s =
     s\<lparr>rs_db := record_audit event resource AuditResult.SUCCEEDED (Some organization_id) (Some actor_id) resource_id (rs_db s)\<rparr>"

section \<open>Reading what is scored\<close>

definition policy_for :: "risk_db \<Rightarrow> RiskScoringPolicy option" where
  "policy_for s = find (\<lambda>p. rp_key p = POLICY_KEY \<and> rp_version p = POLICY_VERSION) (rs_policies s)"

definition ensure_policy :: "uuid \<Rightarrow> risk_db \<Rightarrow> RiskScoringPolicy \<times> risk_db" where
  "ensure_policy new_policy s =
     (case policy_for s of
        Some p \<Rightarrow> (p, s)
      | None \<Rightarrow>
          let p = \<lparr>rp_id = new_policy, rp_key = POLICY_KEY, rp_version = POLICY_VERSION, rp_active = True\<rparr>
          in (p, s\<lparr>rs_policies := rs_policies s @ [p]\<rparr>))"

text \<open>\<open>locked\<close>: another transaction holds the row lock of the scope (SQLSTATE 55P03).\<close>

definition lock_scope :: "bool \<Rightarrow> uuid \<Rightarrow> uuid \<Rightarrow> uuid option \<Rightarrow> db \<Rightarrow> exn + unit" where
  "lock_scope locked organization_id actor_id account d =
     (case account of
        Some account_id \<Rightarrow>
          (case aws_account_for_user account_id actor_id d of
             None \<Rightarrow> Inl (NotFoundError ''aws_account_not_found'')
           | Some (a, m) \<Rightarrow>
               if locked then Inl (ConflictError ''risk_assessment_active'')
               else if acc_organization_id a \<noteq> organization_id then Inl (NotFoundError ''aws_account_not_found'')
               else Inr ())
      | None \<Rightarrow>
          (case get_row o_id organization_id (organizations d) of
             None \<Rightarrow> Inl (NotFoundError ''organization_not_found'')
           | Some org \<Rightarrow> if locked then Inl (ConflictError ''risk_assessment_active'') else Inr ()))"

definition active_findings :: "uuid \<Rightarrow> uuid option \<Rightarrow> db \<Rightarrow> (Finding \<times> Asset option) list" where
  "active_findings organization_id account d =
     (let rows = filter (\<lambda>f. f_organization_id f = organization_id \<and>
                             f_status f \<in> {FindingStatus.OPEN, FindingStatus.SUPPRESSED} \<and>
                             (case account of None \<Rightarrow> True | Some a \<Rightarrow> f_aws_account_id f = a)) (findings d)
      in map (\<lambda>f. (f, case f_asset_id f of None \<Rightarrow> None | Some i \<Rightarrow> get_row as_id i (assets d)))
           (sort_key f_aws_account_id (sort_key f_id rows)))"

definition contexts_of :: "uuid \<Rightarrow> risk_db \<Rightarrow> AssetRiskContext list" where
  "contexts_of organization_id s = filter (\<lambda>c. rc_organization_id c = organization_id) (rs_contexts s)"

definition context_for :: "AssetRiskContext list \<Rightarrow> uuid \<Rightarrow> uuid option \<Rightarrow> AssetRiskContext option" where
  "context_for contexts account_id asset_id =
     (case find (\<lambda>c. asset_id \<noteq> None \<and> rc_asset_id c = asset_id) contexts of
        Some c \<Rightarrow> Some c
      | None \<Rightarrow> find (\<lambda>c. rc_aws_account_id c = account_id \<and> rc_asset_id c = None) contexts)"

definition control_in_force :: "instant \<Rightarrow> CompensatingControl \<Rightarrow> bool" where
  "control_in_force evaluated_at c =
     (cc_active c \<and> (case cc_expires_at c of None \<Rightarrow> True | Some t \<Rightarrow> evaluated_at < t))"

definition controls_of :: "uuid \<Rightarrow> instant \<Rightarrow> risk_db \<Rightarrow> (uuid \<times> CompensatingControl) list" where
  "controls_of organization_id evaluated_at s =
     rev (map (\<lambda>c. (cc_finding_id c, c))
       (filter (\<lambda>c. cc_organization_id c = organization_id \<and> control_in_force evaluated_at c) (rs_controls s)))"

definition account_ids :: "uuid \<Rightarrow> uuid option \<Rightarrow> db \<Rightarrow> uuid list" where
  "account_ids organization_id account d =
     (case account of
        Some a \<Rightarrow> [a]
      | None \<Rightarrow> sort (map acc_id (filter (\<lambda>a. acc_organization_id a = organization_id) (aws_accounts d))))"

fun exposure_at :: "string list \<Rightarrow> dict \<Rightarrow> string option" where
  "exposure_at [] metadata = None"
| "exposure_at (k # ks) metadata =
     (if dict_get k metadata = JBool True then Some ''public''
      else if dict_get k metadata = JBool False then Some ''internal''
      else exposure_at ks metadata)"

definition asset_exposure :: "Asset option \<Rightarrow> string option" where
  "asset_exposure asset =
     (case asset of
        None \<Rightarrow> None
      | Some a \<Rightarrow> exposure_at [''publicly_accessible'', ''public_ip'', ''is_public''] (as_metadata_json a))"

section \<open>An assessment\<close>

definition risk_inputs ::
    "AssetRiskContext list \<Rightarrow> (uuid \<times> CompensatingControl) list \<Rightarrow> instant \<Rightarrow> Finding \<times> Asset option \<Rightarrow> RiskInputs" where
  "risk_inputs contexts controls assessed_at fa =
     (let f = fst fa;
          ctxt = context_for contexts (f_aws_account_id f) (f_asset_id f)
      in \<lparr>severity = f_severity f, rule_key = f_rule_key f, first_seen_at = Aware (f_first_seen_at f),
          evaluation_time = Aware assessed_at,
          criticality = (case ctxt of None \<Rightarrow> RiskCriticality.UNKNOWN | Some c \<Rightarrow> rc_criticality c),
          environment = (case ctxt of None \<Rightarrow> RiskEnvironment.UNKNOWN | Some c \<Rightarrow> rc_environment c),
          business_impact = (case ctxt of None \<Rightarrow> BusinessImpact.UNKNOWN | Some c \<Rightarrow> rc_business_impact c),
          data_sensitivity = (case ctxt of None \<Rightarrow> DataSensitivity.UNKNOWN | Some c \<Rightarrow> rc_data_sensitivity c),
          exposure = asset_exposure (snd fa), exploitability = None, required_privilege = None,
          compensating_adjustment =
            (case map_of controls (f_id f) of None \<Rightarrow> 0 | Some c \<Rightarrow> cc_score_adjustment c)\<rparr>)"

definition finding_snapshot ::
    "uuid \<Rightarrow> uuid \<Rightarrow> RiskScoringPolicy \<Rightarrow> instant \<Rightarrow> Finding \<Rightarrow> RiskResult \<Rightarrow> FindingRiskSnapshot" where
  "finding_snapshot assessment_id organization_id policy assessed_at f r =
     \<lparr>fr_assessment_id = assessment_id, fr_organization_id = organization_id, fr_aws_account_id = f_aws_account_id f,
      fr_finding_id = f_id f, fr_asset_id = f_asset_id f, fr_source_finding_version = f_lifecycle_version f,
      fr_source_finding_status = f_status f, fr_policy_key = rp_key policy, fr_policy_version = rp_version policy,
      fr_evaluation_time = assessed_at, fr_risk_score = score r, fr_priority = priority r,
      fr_severity_points = points_at (components r) ''severity'',
      fr_exposure_points = points_at (components r) ''exposure'',
      fr_exploitability_points = points_at (components r) ''exploitability'',
      fr_privilege_points = points_at (components r) ''privilege'',
      fr_asset_criticality_points = points_at (components r) ''asset_criticality'',
      fr_environment_points = points_at (components r) ''environment'',
      fr_business_impact_points = points_at (components r) ''business_impact'',
      fr_data_sensitivity_points = points_at (components r) ''data_sensitivity'',
      fr_age_points = points_at (components r) ''age'',
      fr_compensating_adjustment = points_at (components r) ''compensating_controls'',
      fr_component_codes_json = explanation_codes r, fr_unknown_inputs_json = unknown_inputs r\<rparr>"

definition account_snapshot ::
    "uuid \<Rightarrow> uuid \<Rightarrow> instant \<Rightarrow> uuid \<Rightarrow> int list \<Rightarrow> AccountRiskSnapshot" where
  "account_snapshot assessment_id organization_id assessed_at account_id scores =
     (let aggregate = account_risk scores
      in \<lparr>ar_assessment_id = assessment_id, ar_organization_id = organization_id, ar_aws_account_id = account_id,
          ar_evaluation_time = assessed_at, ar_risk_score = agg_score aggregate, ar_priority = agg_priority aggregate,
          ar_highest_finding_score = highest aggregate, ar_top_ten_mean = focused_mean aggregate,
          ar_all_findings_mean = overall_mean aggregate, ar_findings_total = int (length scores)\<rparr>)"

definition organization_snapshot ::
    "uuid \<Rightarrow> uuid \<Rightarrow> instant \<Rightarrow> nat \<Rightarrow> AggregateRisk \<Rightarrow> OrganizationRiskSnapshot" where
  "organization_snapshot assessment_id organization_id assessed_at accounts aggregate =
     \<lparr>og_assessment_id = assessment_id, og_organization_id = organization_id, og_evaluation_time = assessed_at,
      og_risk_score = agg_score aggregate, og_priority = agg_priority aggregate,
      og_highest_account_score = highest aggregate, og_mean_account_score = focused_mean aggregate,
      og_accounts_total = int accounts, og_reason_code = reason_code aggregate\<rparr>"

text \<open>The scores of an account in \<^verbatim>\<open>account_scores\<close> and the count of a severity.\<close>

definition scores_of :: "uuid \<Rightarrow> FindingRiskSnapshot list \<Rightarrow> int list" where
  "scores_of account_id snapshots =
     map fr_risk_score (filter (\<lambda>s. fr_aws_account_id s = account_id) snapshots)"

definition severity_count :: "FindingSeverity \<Rightarrow> (Finding \<times> Asset option) list \<Rightarrow> int" where
  "severity_count sv fas = int (length (filter (\<lambda>fa. f_severity (fst fa) = sv) fas))"

definition new_assessment :: "uuid \<Rightarrow> uuid \<Rightarrow> uuid option \<Rightarrow> uuid \<Rightarrow> uuid \<Rightarrow> instant \<Rightarrow> RiskAssessment" where
  "new_assessment assessment_id organization_id account policy_id actor_id assessed_at =
     \<lparr>ra_id = assessment_id, ra_organization_id = organization_id, ra_aws_account_id = account,
      ra_policy_id = policy_id, ra_evaluation_time = assessed_at, ra_source_cutoff_at = assessed_at,
      ra_status = RiskAssessmentStatus.RUNNING, ra_started_by_user_id = actor_id, ra_started_at = Some assessed_at,
      ra_finished_at = None, ra_findings_total = 0, ra_critical_count = 0, ra_high_count = 0, ra_medium_count = 0,
      ra_low_count = 0, ra_informational_count = 0, ra_accounts_scored = 0, ra_aggregate_score = None,
      ra_aggregate_priority = None, ra_error_code = None\<rparr>"

definition completed_assessment ::
    "RiskAssessment \<Rightarrow> (Finding \<times> Asset option) list \<Rightarrow> nat \<Rightarrow> AggregateRisk \<Rightarrow> instant \<Rightarrow> RiskAssessment" where
  "completed_assessment a fas accounts aggregate assessed_at =
     a\<lparr>ra_findings_total := int (length fas), ra_critical_count := severity_count FindingSeverity.CRITICAL fas,
       ra_high_count := severity_count FindingSeverity.HIGH fas,
       ra_medium_count := severity_count FindingSeverity.MEDIUM fas,
       ra_low_count := severity_count FindingSeverity.LOW fas,
       ra_informational_count := severity_count FindingSeverity.INFORMATIONAL fas,
       ra_accounts_scored := int accounts, ra_aggregate_score := Some (agg_score aggregate),
       ra_aggregate_priority := Some (agg_priority aggregate), ra_status := RiskAssessmentStatus.COMPLETED,
       ra_finished_at := Some assessed_at\<rparr>"

text \<open>The loops over findings and accounts: the completed assessment and the rows it stores.\<close>

definition assessed_rows ::
    "RiskScoringPolicy \<Rightarrow> uuid \<Rightarrow> uuid \<Rightarrow> uuid option \<Rightarrow> uuid \<Rightarrow> instant \<Rightarrow> risk_db \<Rightarrow>
     RiskAssessment \<times> FindingRiskSnapshot list \<times> AccountRiskSnapshot list \<times> OrganizationRiskSnapshot" where
  "assessed_rows policy i organization_id account actor t s =
     (let fas = active_findings organization_id account (rs_db s);
          snapshots = map (\<lambda>fa. finding_snapshot i organization_id policy t (fst fa)
                                  (score_finding (risk_inputs (contexts_of organization_id s) (controls_of organization_id t s) t fa))) fas;
          ids = account_ids organization_id account (rs_db s);
          accounts = map (\<lambda>x. account_snapshot i organization_id t x (scores_of x snapshots)) ids;
          aggregate = organization_risk (map ar_risk_score accounts)
      in (completed_assessment (new_assessment i organization_id account (rp_id policy) actor t) fas (length ids) aggregate t,
          snapshots, accounts, organization_snapshot i organization_id t (length ids) aggregate))"

definition equivalent_active :: "uuid \<Rightarrow> uuid option \<Rightarrow> uuid \<Rightarrow> RiskAssessment \<Rightarrow> bool" where
  "equivalent_active organization_id account policy_id a =
     (ra_organization_id a = organization_id \<and> ra_aws_account_id a = account \<and> ra_policy_id a = policy_id \<and>
      assessment_active a)"

record AssessmentDraw =
  ad_assessment_id :: uuid
  ad_policy_id :: uuid

definition assess ::
    "bool \<Rightarrow> uuid \<Rightarrow> uuid \<Rightarrow> uuid option \<Rightarrow> instant option \<Rightarrow> AssessmentDraw \<Rightarrow> instant \<Rightarrow> risk_db \<Rightarrow>
     (risk_db, RiskAssessment) outcome" where
  "assess locked organization_id actor account eval_time draw now s =
     (case require_capability organization_id actor RISK_ASSESS (rs_db s) of
        Inl e \<Rightarrow> raise e s
      | Inr m \<Rightarrow>
     (case lock_scope locked organization_id actor account (rs_db s) of
        Inl e \<Rightarrow> raise e s
      | Inr _ \<Rightarrow>
          let (policy, s1) = ensure_policy (ad_policy_id draw) s in
          if list_ex (equivalent_active organization_id account (rp_id policy)) (rs_assessments s1) then
            raise (ConflictError ''risk_assessment_active'') s
          else
            let assessed_at = (case eval_time of None \<Rightarrow> now | Some t \<Rightarrow> t);
                a = new_assessment (ad_assessment_id draw) organization_id account (rp_id policy) actor assessed_at
            in if \<not> assessments_storable (rs_assessments s1 @ [a]) then raise IntegrityError s
               else
                 let s2 = risk_audit ''risk.assessment.requested'' ''risk_assessment'' organization_id actor (Some (ra_id a))
                            (s1\<lparr>rs_assessments := rs_assessments s1 @ [a]\<rparr>);
                     (a', snapshots, accounts, og) = assessed_rows policy (ra_id a) organization_id account actor assessed_at s2;
                     s3 = risk_audit ''risk.assessment.completed'' ''risk_assessment'' organization_id actor (Some (ra_id a))
                            (s2\<lparr>rs_assessments := put_row ra_id a' (rs_assessments s2),
                                rs_finding_snapshots := rs_finding_snapshots s2 @ snapshots,
                                rs_account_snapshots := rs_account_snapshots s2 @ accounts,
                                rs_organization_snapshots := rs_organization_snapshots s2 @ [og]\<rparr>)
                 in if assessments_storable (rs_assessments s3) \<and> finding_snapshots_storable (rs_finding_snapshots s3) \<and>
                       account_snapshots_storable (rs_account_snapshots s3) \<and>
                       organization_snapshots_storable (rs_organization_snapshots s3)
                    then return a' s3
                    else raise (ConflictError ''risk_assessment_active'') s))"

text \<open>The endpoint: any failure that is not an application error leaves an audit event.\<close>

fun is_app_error :: "exn \<Rightarrow> bool" where
  "is_app_error (ValueError c) = False"
| "is_app_error TypeError = False"
| "is_app_error AssertionError = False"
| "is_app_error IntegrityError = False"
| "is_app_error DatabaseError = False"
| "is_app_error e = True"

definition assess_endpoint ::
    "bool \<Rightarrow> uuid \<Rightarrow> uuid \<Rightarrow> uuid option \<Rightarrow> instant option \<Rightarrow> AssessmentDraw \<Rightarrow> instant \<Rightarrow> risk_db \<Rightarrow>
     (risk_db, RiskAssessment) outcome" where
  "assess_endpoint locked organization_id actor account eval_time draw now s =
     (case assess locked organization_id actor account eval_time draw now s of
        (Inr a, s') \<Rightarrow> return a s'
      | (Inl e, s') \<Rightarrow>
          if is_app_error e then raise e s'
          else raise e (risk_audit ''risk.assessment.failed'' ''risk_assessment'' organization_id actor None s'))"

section \<open>Contexts\<close>

definition require_tenant_asset :: "uuid \<Rightarrow> uuid \<Rightarrow> uuid option \<Rightarrow> db \<Rightarrow> exn + unit" where
  "require_tenant_asset organization_id account_id asset_id d =
     (case find (\<lambda>a. acc_id a = account_id \<and> acc_organization_id a = organization_id) (aws_accounts d) of
        None \<Rightarrow> Inl (NotFoundError ''aws_account_not_found'')
      | Some _ \<Rightarrow>
          (case asset_id of
             None \<Rightarrow> Inr ()
           | Some i \<Rightarrow>
               (case find (\<lambda>x. as_id x = i \<and> as_aws_account_id x = account_id \<and>
                               as_organization_id x = organization_id) (assets d) of
                  None \<Rightarrow> Inl (NotFoundError ''asset_not_found'')
                | Some _ \<Rightarrow> Inr ())))"

record ContextValues =
  cv_criticality :: RiskCriticality
  cv_environment :: RiskEnvironment
  cv_business_impact :: BusinessImpact
  cv_data_sensitivity :: DataSensitivity

definition context_target :: "uuid \<Rightarrow> uuid \<Rightarrow> uuid option \<Rightarrow> AssetRiskContext \<Rightarrow> bool" where
  "context_target organization_id account_id asset_id c =
     (rc_organization_id c = organization_id \<and> rc_aws_account_id c = account_id \<and> rc_asset_id c = asset_id)"

definition with_values :: "ContextValues \<Rightarrow> uuid \<Rightarrow> AssetRiskContext \<Rightarrow> AssetRiskContext" where
  "with_values v actor c =
     c\<lparr>rc_criticality := cv_criticality v, rc_environment := cv_environment v,
       rc_business_impact := cv_business_impact v, rc_data_sensitivity := cv_data_sensitivity v,
       rc_updated_by_user_id := actor\<rparr>"

definition new_context :: "uuid \<Rightarrow> uuid \<Rightarrow> uuid \<Rightarrow> uuid option \<Rightarrow> uuid \<Rightarrow> AssetRiskContext" where
  "new_context new_id organization_id account_id asset_id actor =
     \<lparr>rc_id = new_id, rc_organization_id = organization_id, rc_aws_account_id = account_id, rc_asset_id = asset_id,
      rc_criticality = RiskCriticality.UNKNOWN, rc_environment = RiskEnvironment.UNKNOWN,
      rc_business_impact = BusinessImpact.UNKNOWN, rc_data_sensitivity = DataSensitivity.UNKNOWN,
      rc_source = ''manual'', rc_updated_by_user_id = actor, rc_version = 1\<rparr>"

text \<open>
  A new row has no key before it is flushed, so that only a stored row moves its version on.
\<close>

definition update_context ::
    "uuid \<Rightarrow> uuid \<Rightarrow> uuid \<Rightarrow> uuid option \<Rightarrow> ContextValues \<Rightarrow> int option \<Rightarrow> uuid \<Rightarrow> risk_db \<Rightarrow>
     (risk_db, AssetRiskContext) outcome" where
  "update_context organization_id actor account_id asset_id v expected_version new_id s =
     (case require_capability organization_id actor RISK_CONTEXT_MANAGE (rs_db s) of
        Inl e \<Rightarrow> raise e s
      | Inr m \<Rightarrow>
     (case require_tenant_asset organization_id account_id asset_id (rs_db s) of
        Inl e \<Rightarrow> raise e s
      | Inr _ \<Rightarrow>
     (case find (context_target organization_id account_id asset_id) (rs_contexts s) of
        None \<Rightarrow>
          if expected_version \<noteq> None \<and> expected_version \<noteq> Some 0 then raise (ConflictError ''risk_context_stale'') s
          else
            let c = with_values v actor (new_context new_id organization_id account_id asset_id actor);
                rows = rs_contexts s @ [c]
            in if contexts_storable rows
               then return c (risk_audit ''risk.context.changed'' ''asset_risk_context'' organization_id actor (Some (rc_id c))
                               (s\<lparr>rs_contexts := rows\<rparr>))
               else raise IntegrityError s
      | Some c0 \<Rightarrow>
          if expected_version \<noteq> None \<and> expected_version \<noteq> Some (rc_version c0) then
            raise (ConflictError ''risk_context_stale'') s
          else
            let c = (with_values v actor c0)\<lparr>rc_version := rc_version c0 + 1\<rparr>;
                rows = put_row rc_id c (rs_contexts s)
            in if contexts_storable rows
               then return c (risk_audit ''risk.context.changed'' ''asset_risk_context'' organization_id actor (Some (rc_id c))
                               (s\<lparr>rs_contexts := rows\<rparr>))
               else raise IntegrityError s)))"

section \<open>Compensating controls\<close>

definition scoped_finding :: "uuid \<Rightarrow> uuid \<Rightarrow> db \<Rightarrow> Finding option" where
  "scoped_finding organization_id finding_id d =
     find (\<lambda>f. f_id f = finding_id \<and> f_organization_id f = organization_id) (findings d)"

text \<open>\<open>created\<close> is the default of \<^verbatim>\<open>created_at\<close>, read from the clock when the row is flushed.\<close>

definition add_compensating_control ::
    "uuid \<Rightarrow> uuid \<Rightarrow> uuid \<Rightarrow> string \<Rightarrow> int \<Rightarrow> instant option \<Rightarrow> uuid \<Rightarrow> instant \<Rightarrow> instant \<Rightarrow> risk_db \<Rightarrow>
     (risk_db, CompensatingControl) outcome" where
  "add_compensating_control organization_id finding_id actor reason score_adjustment expires_at new_id now created s =
     (case require_capability organization_id actor RISK_CONTROLS_MANAGE (rs_db s) of
        Inl e \<Rightarrow> raise e s
      | Inr m \<Rightarrow>
     (case scoped_finding organization_id finding_id (rs_db s) of
        None \<Rightarrow> raise (NotFoundError ''finding_not_found'') s
      | Some f \<Rightarrow>
          if (case expires_at of None \<Rightarrow> False | Some t \<Rightarrow> t \<le> now) then
            raise (AppError ''compensating_control_expired'' 422) s
          else if list_ex (\<lambda>c. cc_finding_id c = f_id f \<and> cc_active c) (rs_controls s) then
            raise (ConflictError ''compensating_control_active'') s
          else
            let c = \<lparr>cc_id = new_id, cc_organization_id = organization_id, cc_aws_account_id = f_aws_account_id f,
                     cc_finding_id = f_id f, cc_reason = reason, cc_score_adjustment = score_adjustment,
                     cc_created_by_user_id = actor, cc_expires_at = expires_at, cc_active = True, cc_created_at = created\<rparr>;
                rows = rs_controls s @ [c]
            in if controls_storable rows
               then return c (risk_audit ''risk.compensating_control.created'' ''compensating_control'' organization_id actor
                               (Some (cc_id c)) (s\<lparr>rs_controls := rows\<rparr>))
               else raise IntegrityError s))"

definition remove_compensating_control :: "uuid \<Rightarrow> uuid \<Rightarrow> uuid \<Rightarrow> risk_db \<Rightarrow> (risk_db, unit) outcome" where
  "remove_compensating_control organization_id control_id actor s =
     (case require_capability organization_id actor RISK_CONTROLS_MANAGE (rs_db s) of
        Inl e \<Rightarrow> raise e s
      | Inr m \<Rightarrow>
     (case find (\<lambda>c. cc_id c = control_id \<and> cc_organization_id c = organization_id) (rs_controls s) of
        None \<Rightarrow> raise (NotFoundError ''compensating_control_not_found'') s
      | Some c \<Rightarrow>
          return () (risk_audit ''risk.compensating_control.removed'' ''compensating_control'' organization_id actor
                      (Some (cc_id c)) (s\<lparr>rs_controls := put_row cc_id (c\<lparr>cc_active := False\<rparr>) (rs_controls s)\<rparr>))))"

text \<open>The listing of the policies stores the built-in one first; its order is not modelled.\<close>

definition list_policies :: "uuid \<Rightarrow> uuid \<Rightarrow> uuid \<Rightarrow> risk_db \<Rightarrow> (risk_db, RiskScoringPolicy list) outcome" where
  "list_policies organization_id actor new_policy s =
     (case require_capability organization_id actor RISK_READ (rs_db s) of
        Inl e \<Rightarrow> raise e s
      | Inr m \<Rightarrow> let (p, s') = ensure_policy new_policy s in return (rs_policies s') s')"

section \<open>The service as a state machine\<close>

text \<open>
  Between two operations of the service the other services change \<open>db\<close>; what the service needs of
  them is that keys stay unique. Keys that are drawn are new.
\<close>

definition keys_ok :: "db \<Rightarrow> bool" where
  "keys_ok d = (keys_distinct f_id (findings d) \<and> keys_distinct acc_id (aws_accounts d))"

inductive risk_step :: "risk_db \<Rightarrow> risk_db \<Rightarrow> bool" where
  others: "keys_ok d \<Longrightarrow> risk_step s (s\<lparr>rs_db := d\<rparr>)"
| policies: "new_policy \<notin> rp_id ` set (rs_policies s) \<Longrightarrow>
    risk_step s (snd (list_policies organization_id actor new_policy s))"
| assessing: "ad_assessment_id draw \<notin> ra_id ` set (rs_assessments s) \<Longrightarrow> ad_policy_id draw \<notin> rp_id ` set (rs_policies s) \<Longrightarrow>
    risk_step s (snd (assess_endpoint locked organization_id actor account eval_time draw now s))"
| context_put: "new_id \<notin> rc_id ` set (rs_contexts s) \<Longrightarrow>
    risk_step s (snd (update_context organization_id actor account_id asset_id v expected_version new_id s))"
| control_added: "new_id \<notin> cc_id ` set (rs_controls s) \<Longrightarrow>
    risk_step s (snd (add_compensating_control organization_id finding_id actor reason adjustment expires_at new_id now created s))"
| control_removed: "risk_step s (snd (remove_compensating_control organization_id control_id actor s))"

section \<open>Lemmas on snapshots\<close>

text \<open>What a stored row explains: its points add up to its score.\<close>

definition explained :: "FindingRiskSnapshot \<Rightarrow> bool" where
  "explained s =
     (fr_risk_score s = max 0 (fr_severity_points s + fr_exposure_points s + fr_exploitability_points s +
        fr_privilege_points s + fr_asset_criticality_points s + fr_environment_points s + fr_business_impact_points s +
        fr_data_sensitivity_points s + fr_age_points s + fr_compensating_adjustment s) \<and>
      fr_priority s = priority_for_score (fr_risk_score s))"

lemma component_names:
  "map fst (components (score_finding i)) =
     [''severity'', ''exposure'', ''exploitability'', ''privilege'', ''asset_criticality'', ''environment'',
      ''business_impact'', ''data_sensitivity'', ''age'', ''compensating_controls'']"
  by (simp add: score_finding_def Let_def split_beta)

lemma components_listed:
  obtains a b c d e f g h k l where "components (score_finding i) =
     [(''severity'', a), (''exposure'', b), (''exploitability'', c), (''privilege'', d), (''asset_criticality'', e),
      (''environment'', f), (''business_impact'', g), (''data_sensitivity'', h), (''age'', k), (''compensating_controls'', l)]"
  using component_names [of i] by (auto simp: map_eq_Cons_conv)

lemma snapshot_sound:
  assumes "0 < rp_version policy"
  shows "finding_snapshot_constraints (finding_snapshot i org policy t f (score_finding inputs))"
    and "explained (finding_snapshot i org policy t f (score_finding inputs))"
proof -
  obtain a b c d e f' g h k l where comps: "components (score_finding inputs) =
     [(''severity'', a), (''exposure'', b), (''exploitability'', c), (''privilege'', d), (''asset_criticality'', e),
      (''environment'', f'), (''business_impact'', g), (''data_sensitivity'', h), (''age'', k), (''compensating_controls'', l)]"
    by (rule components_listed)
  note ranges = components_below_maximums [of inputs, unfolded comps, simplified COMPONENT_MAXIMUMS_def, simplified]
  have total: "score (score_finding inputs) = max 0 (a + b + c + d + e + f' + g + h + k + l)"
    using score_eq_clamped_sum [of inputs] component_total_le_100 [of inputs] by (simp add: comps clamp_def)
  have "priority (score_finding inputs) = priority_for_score (score (score_finding inputs))"
    by (simp add: score_finding_def Let_def split_beta)
  then show "explained (finding_snapshot i org policy t f (score_finding inputs))"
    using total by (simp add: explained_def finding_snapshot_def comps points_at_def)
  show "finding_snapshot_constraints (finding_snapshot i org policy t f (score_finding inputs))"
    using assms ranges total component_total_le_100 [of inputs]
    by (simp add: finding_snapshot_constraints_def finding_snapshot_def comps points_at_def)
qed

lemma account_snapshot_ranges: "account_risk_ranges (account_snapshot i org t account scores)"
proof (cases "scores = []")
  case True
  then show ?thesis by (simp add: account_risk_ranges_def account_snapshot_def account_risk_def)
next
  case False
  from account_risk_ordered [OF this, of scores] show ?thesis
    by (simp add: account_risk_ranges_def account_snapshot_def Let_def)
qed

lemma organization_risk_range:
  "0 \<le> agg_score (organization_risk ss) \<and> agg_score (organization_risk ss) \<le> 100 \<and>
   0 \<le> highest (organization_risk ss) \<and> highest (organization_risk ss) \<le> 100 \<and>
   0 \<le> focused_mean (organization_risk ss) \<and> focused_mean (organization_risk ss) \<le> 100"
proof (cases "ss = []")
  case True
  then show ?thesis by (simp add: organization_risk_def)
next
  case False
  let ?c = "map (\<lambda>s. clamp s 0 100) ss"
  have m: "0 \<le> mean ?c \<and> mean ?c \<le> Max (set ?c)"
    using False by (intro mean_bounds) (auto simp: clamp_def)
  have "highest (organization_risk ss) = Max (set ?c)" "focused_mean (organization_risk ss) = mean ?c"
    "overall_mean (organization_risk ss) = mean ?c"
    using False by (simp_all add: organization_risk_def Let_def)
  moreover have "overall_mean (organization_risk ss) \<le> agg_score (organization_risk ss)"
    "agg_score (organization_risk ss) \<le> highest (organization_risk ss)" "highest (organization_risk ss) \<le> 100"
    using organization_risk_and_bands [OF False, of 0] by simp_all
  ultimately show ?thesis using m by linarith
qed

lemma organization_snapshot_ranges: "organization_risk_ranges (organization_snapshot i org t n (organization_risk ss))"
  using organization_risk_range [of ss] by (simp add: organization_risk_ranges_def organization_snapshot_def)

lemma severity_counts:
  "int (length fas) = severity_count FindingSeverity.CRITICAL fas + severity_count FindingSeverity.HIGH fas +
     severity_count FindingSeverity.MEDIUM fas + severity_count FindingSeverity.LOW fas +
     severity_count FindingSeverity.INFORMATIONAL fas"
proof (induction fas)
  case Nil
  then show ?case by (simp add: severity_count_def)
next
  case (Cons fa fas)
  then show ?case by (cases "f_severity (fst fa)") (simp_all add: severity_count_def)
qed

lemma completed_constraints:
  "risk_assessment_constraints (completed_assessment (new_assessment i org account p actor t) fas n (organization_risk ss) t)"
  using severity_counts [of fas] organization_risk_range [of ss]
  by (simp add: risk_assessment_constraints_def completed_assessment_def new_assessment_def risk_assessment_counts_match_def
      risk_assessment_status_timestamps_def severity_count_def)

lemma active_findings_distinct:
  assumes "keys_distinct f_id (findings d)"
  shows "distinct (map (\<lambda>fa. f_id (fst fa)) (active_findings org account d))"
proof -
  have "distinct (map f_id (filter p (findings d)))" for p
    using assms by (simp add: keys_distinct_def distinct_map_filter)
  then have "distinct (map f_id (sort_key g (sort_key h (filter p (findings d)))))" for p and g h :: "Finding \<Rightarrow> uuid"
    by (simp add: distinct_map)
  then show ?thesis by (simp add: active_findings_def Let_def comp_def)
qed

lemma account_ids_distinct:
  "keys_distinct acc_id (aws_accounts d) \<Longrightarrow> distinct (account_ids org account d)"
  by (simp add: account_ids_def keys_distinct_def distinct_map_filter split: option.splits)

section \<open>The invariant of the stored assessments\<close>

definition findings_of :: "uuid \<Rightarrow> risk_db \<Rightarrow> FindingRiskSnapshot list" where
  "findings_of i s = filter (\<lambda>r. fr_assessment_id r = i) (rs_finding_snapshots s)"

definition accounts_of :: "uuid \<Rightarrow> risk_db \<Rightarrow> AccountRiskSnapshot list" where
  "accounts_of i s = filter (\<lambda>r. ar_assessment_id r = i) (rs_account_snapshots s)"

definition organizations_of :: "uuid \<Rightarrow> risk_db \<Rightarrow> OrganizationRiskSnapshot list" where
  "organizations_of i s = filter (\<lambda>r. og_assessment_id r = i) (rs_organization_snapshots s)"

text \<open>
  A stored assessment is complete and can be recomputed from its own rows: every finding row
  explains its score, every account row is the aggregate of the finding rows of its account, and
  the organization row the aggregate of the account rows.
\<close>

definition reproducible :: "risk_db \<Rightarrow> RiskAssessment \<Rightarrow> bool" where
  "reproducible s a =
     (let fs = findings_of (ra_id a) s; rows = accounts_of (ra_id a) s;
          aggregate = organization_risk (map ar_risk_score rows)
      in ra_status a = RiskAssessmentStatus.COMPLETED \<and> ra_finished_at a = Some (ra_evaluation_time a) \<and>
         (\<forall>r \<in> set fs. explained r \<and> fr_evaluation_time r = ra_evaluation_time a) \<and>
         (\<forall>r \<in> set rows. r = account_snapshot (ra_id a) (ra_organization_id a) (ra_evaluation_time a) (ar_aws_account_id r)
                              (scores_of (ar_aws_account_id r) fs)) \<and>
         organizations_of (ra_id a) s =
           [organization_snapshot (ra_id a) (ra_organization_id a) (ra_evaluation_time a) (length rows) aggregate] \<and>
         ra_findings_total a = int (length fs) \<and> ra_accounts_scored a = int (length rows) \<and>
         ra_aggregate_score a = Some (agg_score aggregate) \<and> ra_aggregate_priority a = Some (agg_priority aggregate))"

definition risk_ok :: "risk_db \<Rightarrow> bool" where
  "risk_ok s =
     (keys_ok (rs_db s) \<and> keys_distinct rp_id (rs_policies s) \<and> keys_distinct ra_id (rs_assessments s) \<and>
      fr_assessment_id ` set (rs_finding_snapshots s) \<subseteq> ra_id ` set (rs_assessments s) \<and>
      ar_assessment_id ` set (rs_account_snapshots s) \<subseteq> ra_id ` set (rs_assessments s) \<and>
      og_assessment_id ` set (rs_organization_snapshots s) \<subseteq> ra_id ` set (rs_assessments s) \<and>
      (\<forall>p \<in> set (rs_policies s). 0 < rp_version p) \<and>
      assessments_storable (rs_assessments s) \<and> finding_snapshots_storable (rs_finding_snapshots s) \<and>
      account_snapshots_storable (rs_account_snapshots s) \<and> organization_snapshots_storable (rs_organization_snapshots s) \<and>
      (\<forall>a \<in> set (rs_assessments s). reproducible s a))"

text \<open>The rows of assessments that an operation leaves in place.\<close>

definition appended :: "risk_db \<Rightarrow> risk_db \<Rightarrow> bool" where
  "appended s s' =
     (\<exists>xs fs rows ogs. rs_assessments s' = rs_assessments s @ xs \<and> rs_finding_snapshots s' = rs_finding_snapshots s @ fs \<and>
        rs_account_snapshots s' = rs_account_snapshots s @ rows \<and>
        rs_organization_snapshots s' = rs_organization_snapshots s @ ogs)"

lemma appended_refl: "appended s s"
  by (simp add: appended_def)

lemma appended_trans: "appended s1 s2 \<Longrightarrow> appended s2 s3 \<Longrightarrow> appended s1 s3"
  by (force simp: appended_def)

text \<open>Unchanged tables of results.\<close>

definition same_results :: "risk_db \<Rightarrow> risk_db \<Rightarrow> bool" where
  "same_results s s' =
     (rs_assessments s' = rs_assessments s \<and> rs_finding_snapshots s' = rs_finding_snapshots s \<and>
      rs_account_snapshots s' = rs_account_snapshots s \<and> rs_organization_snapshots s' = rs_organization_snapshots s)"

lemma same_results_refl [simp]: "same_results s s"
  by (simp add: same_results_def)

lemma same_results_appended: "same_results s s' \<Longrightarrow> appended s s'"
  by (auto simp: same_results_def appended_def)

lemma same_results_ok:
  assumes "same_results s s'" and "risk_ok s" and "keys_ok (rs_db s')"
    and "keys_distinct rp_id (rs_policies s')" and "\<forall>p \<in> set (rs_policies s'). 0 < rp_version p"
  shows "risk_ok s'"
proof -
  have "reproducible s' a = reproducible s a" for a
    using assms(1) by (simp add: reproducible_def same_results_def findings_of_def accounts_of_def organizations_of_def)
  then show ?thesis using assms by (simp add: risk_ok_def same_results_def)
qed

lemma risk_audit_same [simp]:
  "same_results s (risk_audit e r org actor i s')= same_results s s'"
  "keys_ok (rs_db (risk_audit e r org actor i s)) = keys_ok (rs_db s)"
  "rs_policies (risk_audit e r org actor i s) = rs_policies s" "rs_contexts (risk_audit e r org actor i s) = rs_contexts s"
  "rs_controls (risk_audit e r org actor i s) = rs_controls s"
  "rs_assessments (risk_audit e r org actor i s) = rs_assessments s"
  "rs_finding_snapshots (risk_audit e r org actor i s) = rs_finding_snapshots s"
  "rs_account_snapshots (risk_audit e r org actor i s) = rs_account_snapshots s"
  "rs_organization_snapshots (risk_audit e r org actor i s) = rs_organization_snapshots s"
  by (simp_all add: risk_audit_def same_results_def keys_ok_def)

lemma ensure_policy_result:
  assumes "ensure_policy new_policy s = (p, s')" and "new_policy \<notin> rp_id ` set (rs_policies s)"
    and "keys_distinct rp_id (rs_policies s)" and "\<forall>q \<in> set (rs_policies s). 0 < rp_version q"
  shows "same_results s s'" "rs_db s' = rs_db s" "rs_contexts s' = rs_contexts s" "rs_controls s' = rs_controls s"
    "keys_distinct rp_id (rs_policies s')" "\<forall>q \<in> set (rs_policies s'). 0 < rp_version q"
    "rp_key p = POLICY_KEY" "rp_version p = POLICY_VERSION"
proof -
  consider (old) "policy_for s = Some p" "s' = s"
    | (new) "p = \<lparr>rp_id = new_policy, rp_key = POLICY_KEY, rp_version = POLICY_VERSION, rp_active = True\<rparr>"
        "s' = s\<lparr>rs_policies := rs_policies s @ [p]\<rparr>"
    using assms(1) by (auto simp: ensure_policy_def Let_def split: option.splits)
  then have "same_results s s' \<and> rs_db s' = rs_db s \<and> rs_contexts s' = rs_contexts s \<and> rs_controls s' = rs_controls s \<and>
      keys_distinct rp_id (rs_policies s') \<and> (\<forall>q \<in> set (rs_policies s'). 0 < rp_version q) \<and>
      rp_key p = POLICY_KEY \<and> rp_version p = POLICY_VERSION"
  proof cases
    case old
    then show ?thesis using assms by (auto simp: policy_for_def dest: find_mem)
  next
    case new
    then show ?thesis using assms by (simp add: same_results_def keys_distinct_snoc POLICY_VERSION_def)
  qed
  then show "same_results s s'" "rs_db s' = rs_db s" "rs_contexts s' = rs_contexts s" "rs_controls s' = rs_controls s"
    "keys_distinct rp_id (rs_policies s')" "\<forall>q \<in> set (rs_policies s'). 0 < rp_version q"
    "rp_key p = POLICY_KEY" "rp_version p = POLICY_VERSION" by simp_all
qed

section \<open>Assessing keeps the invariant\<close>

text \<open>What a successful assessment adds.\<close>

definition assessed ::
    "RiskScoringPolicy \<Rightarrow> uuid \<Rightarrow> uuid \<Rightarrow> uuid option \<Rightarrow> uuid \<Rightarrow> instant \<Rightarrow> risk_db \<Rightarrow> RiskAssessment \<Rightarrow> risk_db \<Rightarrow> bool" where
  "assessed policy i organization_id account actor t s a s' =
     (case assessed_rows policy i organization_id account actor t s of
        (a', snapshots, accounts, og) \<Rightarrow>
          a = a' \<and> rs_assessments s' = rs_assessments s @ [a] \<and>
          rs_finding_snapshots s' = rs_finding_snapshots s @ snapshots \<and>
          rs_account_snapshots s' = rs_account_snapshots s @ accounts \<and>
          rs_organization_snapshots s' = rs_organization_snapshots s @ [og])"

lemma assessed_rows_shape:
  assumes "assessed_rows policy i org account actor t s = (a, snapshots, accounts, og)"
  shows "snapshots = map (\<lambda>fa. finding_snapshot i org policy t (fst fa)
        (score_finding (risk_inputs (contexts_of org s) (controls_of org t s) t fa))) (active_findings org account (rs_db s))"
    "accounts = map (\<lambda>x. account_snapshot i org t x (scores_of x snapshots)) (account_ids org account (rs_db s))"
    "og = organization_snapshot i org t (length accounts) (organization_risk (map ar_risk_score accounts))"
    "a = completed_assessment (new_assessment i org account (rp_id policy) actor t) (active_findings org account (rs_db s))
       (length accounts) (organization_risk (map ar_risk_score accounts)) t"
    "fr_assessment_id ` set snapshots \<subseteq> {i}" "ar_assessment_id ` set accounts \<subseteq> {i}" "og_assessment_id og = i" "ra_id a = i"
proof -
  show snaps: "snapshots = map (\<lambda>fa. finding_snapshot i org policy t (fst fa)
        (score_finding (risk_inputs (contexts_of org s) (controls_of org t s) t fa))) (active_findings org account (rs_db s))"
    and accs: "accounts = map (\<lambda>x. account_snapshot i org t x (scores_of x snapshots)) (account_ids org account (rs_db s))"
    and org: "og = organization_snapshot i org t (length accounts) (organization_risk (map ar_risk_score accounts))"
    and final: "a = completed_assessment (new_assessment i org account (rp_id policy) actor t) (active_findings org account (rs_db s))
       (length accounts) (organization_risk (map ar_risk_score accounts)) t"
    using assms by (simp_all add: assessed_rows_def Let_def del: map_map, (auto simp del: map_map)?)
  show "fr_assessment_id ` set snapshots \<subseteq> {i}" unfolding snaps by (auto simp: finding_snapshot_def)
  show "ar_assessment_id ` set accounts \<subseteq> {i}" unfolding accs by (auto simp: account_snapshot_def Let_def)
  show "og_assessment_id og = i" unfolding org by (simp add: organization_snapshot_def)
  show "ra_id a = i" unfolding final by (simp add: completed_assessment_def new_assessment_def)
qed

lemma assessed_storable:
  assumes "risk_ok s" and "i \<notin> ra_id ` set (rs_assessments s)" and "0 < rp_version policy"
    and "assessed_rows policy i org account actor t s = (a, snapshots, accounts, og)"
  shows "assessments_storable (rs_assessments s @ [a])" "finding_snapshots_storable (rs_finding_snapshots s @ snapshots)"
    "account_snapshots_storable (rs_account_snapshots s @ accounts)"
    "organization_snapshots_storable (rs_organization_snapshots s @ [og])"
proof -
  note rows = assms(4) [unfolded assessed_rows_def Let_def, simplified]
  have idle: "\<not> assessment_active x" if "x \<in> set (rs_assessments s)" for x
    using assms(1) that by (auto simp: risk_ok_def reproducible_def assessment_active_def Let_def)
  have "\<not> assessment_active a" and "risk_assessment_constraints a"
    using rows completed_constraints by (auto simp: assessment_active_def completed_assessment_def)
  then show "assessments_storable (rs_assessments s @ [a])"
    using assms(1) idle by (auto simp: risk_ok_def assessments_storable_def unique_on_snoc)
  have "unique_on (\<lambda>s. True) (\<lambda>s. (fr_assessment_id s, fr_finding_id s)) (rs_finding_snapshots s @ snapshots)"
  proof -
    have old: "i \<notin> fr_assessment_id ` set (rs_finding_snapshots s)" using assms(1,2) by (auto simp: risk_ok_def)
    have "map (\<lambda>s. (fr_assessment_id s, fr_finding_id s)) snapshots =
        map (Pair i) (map (\<lambda>fa. f_id (fst fa)) (active_findings org account (rs_db s)))"
      using rows by (auto simp: finding_snapshot_def)
    moreover have "distinct (map (\<lambda>fa. f_id (fst fa)) (active_findings org account (rs_db s)))"
      using assms(1) by (intro active_findings_distinct) (simp add: risk_ok_def keys_ok_def)
    ultimately have "distinct (map (\<lambda>s. (fr_assessment_id s, fr_finding_id s)) snapshots)"
      by (simp only: distinct_map inj_on_def) auto
    moreover have "fr_assessment_id x = i" if "x \<in> set snapshots" for x
      using rows that by (auto simp: finding_snapshot_def)
    ultimately show ?thesis
      using old assms(1) by (force simp: risk_ok_def finding_snapshots_storable_def unique_on_def)
  qed
  then show "finding_snapshots_storable (rs_finding_snapshots s @ snapshots)"
    using assms(1) rows snapshot_sound(1) [OF assms(3)]
    by (auto simp: risk_ok_def finding_snapshots_storable_def list_all_iff)
  have "unique_on (\<lambda>s. True) (\<lambda>s. (ar_assessment_id s, ar_aws_account_id s)) (rs_account_snapshots s @ accounts)"
  proof -
    have old: "i \<notin> ar_assessment_id ` set (rs_account_snapshots s)" using assms(1,2) by (auto simp: risk_ok_def)
    have "map (\<lambda>s. (ar_assessment_id s, ar_aws_account_id s)) accounts = map (Pair i) (account_ids org account (rs_db s))"
      using rows by (auto simp: account_snapshot_def Let_def)
    moreover have "distinct (account_ids org account (rs_db s))"
      using assms(1) by (intro account_ids_distinct) (simp add: risk_ok_def keys_ok_def)
    ultimately have "distinct (map (\<lambda>s. (ar_assessment_id s, ar_aws_account_id s)) accounts)"
      by (simp add: distinct_map inj_on_def)
    moreover have "ar_assessment_id x = i" if "x \<in> set accounts" for x
      using rows that by (auto simp: account_snapshot_def Let_def)
    ultimately show ?thesis
      using old assms(1) by (force simp: risk_ok_def account_snapshots_storable_def unique_on_def)
  qed
  then show "account_snapshots_storable (rs_account_snapshots s @ accounts)"
    using assms(1) rows account_snapshot_ranges by (auto simp: risk_ok_def account_snapshots_storable_def list_all_iff)
  have "i \<notin> og_assessment_id ` set (rs_organization_snapshots s)" using assms(1,2) by (auto simp: risk_ok_def)
  then show "organization_snapshots_storable (rs_organization_snapshots s @ [og])"
    using assms(1) rows organization_snapshot_ranges
    by (auto simp: risk_ok_def organization_snapshots_storable_def unique_on_snoc organization_snapshot_def)
qed

lemma assessed_appended: "assessed policy i org account actor t s a s' \<Longrightarrow> appended s s'"
  by (auto simp: assessed_def appended_def split: prod.splits)

lemma assessed_reproducible:
  assumes "risk_ok s" and "i \<notin> ra_id ` set (rs_assessments s)" and "assessed policy i org account actor t s a s'"
    and "0 < rp_version policy" and "x \<in> set (rs_assessments s')"
  shows "reproducible s' x"
proof -
  obtain snapshots accounts og where rows: "assessed_rows policy i org account actor t s = (a, snapshots, accounts, og)"
    and s': "rs_assessments s' = rs_assessments s @ [a]" "rs_finding_snapshots s' = rs_finding_snapshots s @ snapshots"
      "rs_account_snapshots s' = rs_account_snapshots s @ accounts"
      "rs_organization_snapshots s' = rs_organization_snapshots s @ [og]"
    using assms(3) by (auto simp: assessed_def split: prod.splits)
  note shape = assessed_rows_shape [OF rows]
  show ?thesis
  proof (cases "x = a")
    case False
    then have x: "x \<in> set (rs_assessments s)" "ra_id x \<noteq> i" using assms(2,5) s'(1) by auto
    then have "findings_of (ra_id x) s' = findings_of (ra_id x) s" "accounts_of (ra_id x) s' = accounts_of (ra_id x) s"
      "organizations_of (ra_id x) s' = organizations_of (ra_id x) s"
      using shape(5-7) s' by (auto simp: findings_of_def accounts_of_def organizations_of_def filter_empty_conv)
    then show ?thesis using x(1) assms(1) by (simp add: risk_ok_def reproducible_def)
  next
    case True
    have "i \<notin> fr_assessment_id ` set (rs_finding_snapshots s)" "i \<notin> ar_assessment_id ` set (rs_account_snapshots s)"
      "i \<notin> og_assessment_id ` set (rs_organization_snapshots s)" using assms(1,2) by (auto simp: risk_ok_def)
    then have "\<forall>x \<in> set (rs_finding_snapshots s). fr_assessment_id x \<noteq> i" "\<forall>x \<in> set (rs_account_snapshots s). ar_assessment_id x \<noteq> i"
      "\<forall>x \<in> set (rs_organization_snapshots s). og_assessment_id x \<noteq> i" by blast+
    then have "findings_of i s' = snapshots" "accounts_of i s' = accounts" "organizations_of i s' = [og]"
      using shape(5-7) s' by (auto simp: findings_of_def accounts_of_def organizations_of_def filter_empty_conv filter_id_conv)
    moreover have "f \<in> set snapshots \<Longrightarrow> explained f \<and> fr_evaluation_time f = t" for f
      using snapshot_sound(2) [OF assms(4)] unfolding shape(1) by (auto simp: finding_snapshot_def)
    moreover have "f \<in> set accounts \<Longrightarrow>
        f = account_snapshot i org t (ar_aws_account_id f) (scores_of (ar_aws_account_id f) snapshots)" for f
      by (subst (asm) shape(2)) (auto simp: account_snapshot_def Let_def)
    moreover have "ra_status a = RiskAssessmentStatus.COMPLETED \<and> ra_finished_at a = Some t \<and> ra_evaluation_time a = t \<and>
        ra_organization_id a = org \<and> ra_findings_total a = int (length snapshots) \<and>
        ra_accounts_scored a = int (length accounts) \<and>
        ra_aggregate_score a = Some (agg_score (organization_risk (map ar_risk_score accounts))) \<and>
        ra_aggregate_priority a = Some (agg_priority (organization_risk (map ar_risk_score accounts)))"
      using shape(1) by (simp add: shape(4) completed_assessment_def new_assessment_def)
    ultimately show ?thesis
      using True shape(3,8) by (simp add: reproducible_def Let_def)
  qed
qed

lemma assessed_ok:
  assumes "risk_ok s" and "i \<notin> ra_id ` set (rs_assessments s)" and "assessed policy i org account actor t s a s'"
    and "0 < rp_version policy" and "keys_ok (rs_db s')"
    and "keys_distinct rp_id (rs_policies s')" and "\<forall>p \<in> set (rs_policies s'). 0 < rp_version p"
  shows "risk_ok s'"
proof -
  obtain snapshots accounts og where rows: "assessed_rows policy i org account actor t s = (a, snapshots, accounts, og)"
    and s': "rs_assessments s' = rs_assessments s @ [a]" "rs_finding_snapshots s' = rs_finding_snapshots s @ snapshots"
      "rs_account_snapshots s' = rs_account_snapshots s @ accounts"
      "rs_organization_snapshots s' = rs_organization_snapshots s @ [og]"
    using assms(3) by (auto simp: assessed_def split: prod.splits)
  note ids = assessed_rows_shape(5-8) [OF rows]
  show ?thesis
    using assms(1,2,5-7) assessed_storable [OF assms(1,2,4) rows] assessed_reproducible [OF assms(1-4)] ids
    unfolding risk_ok_def s' by (auto simp: keys_distinct_snoc)
qed

text \<open>The only refusals of an assessment concern the actor, the scope and its lock.\<close>

lemma assess_completes:
  assumes "risk_ok s" and "ad_assessment_id draw \<notin> ra_id ` set (rs_assessments s)"
    and "ad_policy_id draw \<notin> rp_id ` set (rs_policies s)"
    and "require_capability org actor RISK_ASSESS (rs_db s) = Inr m"
    and "lock_scope locked org actor account (rs_db s) = Inr ()"
  shows "\<exists>policy a s'. assess locked org actor account eval_time draw now s = return a s' \<and>
    rp_key policy = POLICY_KEY \<and> rp_version policy = POLICY_VERSION \<and>
    assessed policy (ad_assessment_id draw) org account actor (case eval_time of None \<Rightarrow> now | Some t \<Rightarrow> t) s a s' \<and>
    risk_ok s' \<and> rs_contexts s' = rs_contexts s \<and> rs_controls s' = rs_controls s \<and>
    findings (rs_db s') = findings (rs_db s) \<and> assets (rs_db s') = assets (rs_db s)"
proof -
  let ?t = "case eval_time of None \<Rightarrow> now | Some t \<Rightarrow> t" and ?i = "ad_assessment_id draw"
  obtain policy s1 where e: "ensure_policy (ad_policy_id draw) s = (policy, s1)" by fastforce
  have pol: "keys_distinct rp_id (rs_policies s)" "\<forall>q \<in> set (rs_policies s). 0 < rp_version q"
    using assms(1) by (simp_all add: risk_ok_def)
  note p = ensure_policy_result [OF e assms(3) pol]
  have v: "0 < rp_version policy" using p(8) by (simp add: POLICY_VERSION_def)
  have ok1: "risk_ok s1" using same_results_ok [OF p(1) assms(1)] p(2,5,6) assms(1) by (simp add: risk_ok_def)
  have same: "rs_assessments s1 = rs_assessments s" "rs_finding_snapshots s1 = rs_finding_snapshots s"
    "rs_account_snapshots s1 = rs_account_snapshots s" "rs_organization_snapshots s1 = rs_organization_snapshots s"
    using p(1) by (simp_all add: same_results_def)
  have fresh: "?i \<notin> ra_id ` set (rs_assessments s1)" using assms(2) same by simp
  let ?a = "new_assessment ?i org account (rp_id policy) actor ?t"
  have idle: "\<not> assessment_active x" if "x \<in> set (rs_assessments s1)" for x
    using ok1 that by (auto simp: risk_ok_def reproducible_def assessment_active_def Let_def)
  then have free: "\<not> list_ex (equivalent_active org account (rp_id policy)) (rs_assessments s1)"
    by (auto simp: list_ex_iff equivalent_active_def)
  have "risk_assessment_constraints ?a"
    by (simp add: risk_assessment_constraints_def new_assessment_def risk_assessment_counts_match_def risk_assessment_status_timestamps_def)
  then have started: "assessments_storable (rs_assessments s1 @ [?a])"
    using ok1 idle by (auto simp: risk_ok_def assessments_storable_def unique_on_snoc)
  obtain a snapshots accounts og where rows: "assessed_rows policy ?i org account actor ?t s = (a, snapshots, accounts, og)"
    by (cases "assessed_rows policy ?i org account actor ?t s") auto
  have rows1: "assessed_rows policy ?i org account actor ?t s1 = (a, snapshots, accounts, og)"
    using rows p(2-4) by (simp add: assessed_rows_def contexts_of_def controls_of_def)
  note stored = assessed_storable [OF ok1 fresh v rows1]
  have put: "put_row ra_id a (rs_assessments s1 @ [?a]) = rs_assessments s1 @ [a]"
    using fresh rows put_row_absent [of ra_id a "rs_assessments s1"]
    by (auto simp: assessed_rows_def Let_def put_row_def completed_assessment_def new_assessment_def)
  let ?s2 = "risk_audit ''risk.assessment.requested'' ''risk_assessment'' org actor (Some ?i) (s1\<lparr>rs_assessments := rs_assessments s1 @ [?a]\<rparr>)"
  let ?s3 = "risk_audit ''risk.assessment.completed'' ''risk_assessment'' org actor (Some ?i)
      (?s2\<lparr>rs_assessments := rs_assessments s1 @ [a], rs_finding_snapshots := rs_finding_snapshots s1 @ snapshots,
         rs_account_snapshots := rs_account_snapshots s1 @ accounts, rs_organization_snapshots := rs_organization_snapshots s1 @ [og]\<rparr>)"
  have "active_findings org account (rs_db ?s2) = active_findings org account (rs_db s1)"
    "account_ids org account (rs_db ?s2) = account_ids org account (rs_db s1)"
    "contexts_of org ?s2 = contexts_of org s1" "controls_of org ?t ?s2 = controls_of org ?t s1"
    by (simp_all add: active_findings_def account_ids_def contexts_of_def controls_of_def risk_audit_def
        cong: option.case_cong)
  then have rows2: "assessed_rows policy ?i org account actor ?t ?s2 = (a, snapshots, accounts, og)"
    using rows1 by (simp add: assessed_rows_def)
  have id: "ra_id ?a = ?i" by (simp add: new_assessment_def)
  have completes: "assess locked org actor account eval_time draw now s = return a ?s3"
    using stored put started free
    by (simp add: assess_def assms(4,5) e Let_def id rows2)
  have added: "assessed policy ?i org account actor ?t s a ?s3"
    using rows same by (simp add: assessed_def)
  have "keys_ok (rs_db ?s3)" using assms(1) p(2) by (simp add: risk_ok_def risk_audit_def keys_ok_def)
  then have "risk_ok ?s3" using assessed_ok [OF assms(1,2) added v] p(5,6) by simp
  moreover have "findings (rs_db ?s3) = findings (rs_db s)" "assets (rs_db ?s3) = assets (rs_db s)"
    using p(2) by (simp_all add: risk_audit_def)
  ultimately show ?thesis using p(3,4,7,8) completes added by (intro exI [of _ policy] exI [of _ a] exI [of _ ?s3]) simp
qed

lemma require_capability_error: "require_capability org actor c d = Inl e \<Longrightarrow> is_app_error e"
  by (auto simp: require_capability_def require_member_def split: option.splits if_splits sum.splits)

lemma lock_scope_error: "lock_scope locked org actor account d = Inl e \<Longrightarrow> is_app_error e"
  by (auto simp: lock_scope_def split: option.splits if_splits)

lemma assess_refused:
  assumes "require_capability org actor RISK_ASSESS (rs_db s) = Inl e \<or>
    (\<exists>m. require_capability org actor RISK_ASSESS (rs_db s) = Inr m) \<and> lock_scope locked org actor account (rs_db s) = Inl e"
  shows "assess_endpoint locked org actor account eval_time draw now s = raise e s"
  using assms by (auto simp: assess_endpoint_def assess_def dest: require_capability_error lock_scope_error)

lemma assess_endpoint_cases:
  assumes "risk_ok s" and "ad_assessment_id draw \<notin> ra_id ` set (rs_assessments s)"
    and "ad_policy_id draw \<notin> rp_id ` set (rs_policies s)"
  obtains (refused) e where "assess_endpoint locked org actor account eval_time draw now s = raise e s"
  | (completed) policy a s' where "assess_endpoint locked org actor account eval_time draw now s = return a s'"
      "assessed policy (ad_assessment_id draw) org account actor (case eval_time of None \<Rightarrow> now | Some t \<Rightarrow> t) s a s'"
      "risk_ok s'" "rs_contexts s' = rs_contexts s" "rs_controls s' = rs_controls s"
proof -
  note outcome = refused completed
  show thesis
  proof (cases "require_capability org actor RISK_ASSESS (rs_db s)")
    case (Inl e)
    then show ?thesis by (intro outcome(1) [OF assess_refused]) simp
  next
    case m: (Inr m)
    show ?thesis
    proof (cases "lock_scope locked org actor account (rs_db s)")
      case (Inl e)
      then show ?thesis using m by (intro outcome(1) [OF assess_refused]) simp
    next
      case (Inr u)
      with assess_completes [OF assms m, of locked account eval_time now] obtain policy a s' where
        "assess locked org actor account eval_time draw now s = return a s'"
        "assessed policy (ad_assessment_id draw) org account actor (case eval_time of None \<Rightarrow> now | Some t \<Rightarrow> t) s a s'"
        "risk_ok s'" "rs_contexts s' = rs_contexts s" "rs_controls s' = rs_controls s" by auto
      then show ?thesis by (intro outcome(2) [of a s' policy]) (simp_all add: assess_endpoint_def)
    qed
  qed
qed

section \<open>Every step keeps the stored assessments\<close>

lemma update_context_results:
  "same_results s (snd (update_context org actor account_id asset_id v expected new_id s)) \<and>
   rs_policies (snd (update_context org actor account_id asset_id v expected new_id s)) = rs_policies s \<and>
   (keys_ok (rs_db s) \<longrightarrow> keys_ok (rs_db (snd (update_context org actor account_id asset_id v expected new_id s))))"
  by (simp add: update_context_def Let_def same_results_def split: sum.split option.split)

lemma add_control_results:
  "same_results s (snd (add_compensating_control org fid actor reason adj expires new_id now created s)) \<and>
   rs_policies (snd (add_compensating_control org fid actor reason adj expires new_id now created s)) = rs_policies s \<and>
   (keys_ok (rs_db s) \<longrightarrow> keys_ok (rs_db (snd (add_compensating_control org fid actor reason adj expires new_id now created s))))"
  by (simp add: add_compensating_control_def Let_def same_results_def split: sum.split option.split)

lemma remove_control_results:
  "same_results s (snd (remove_compensating_control org control_id actor s)) \<and>
   rs_policies (snd (remove_compensating_control org control_id actor s)) = rs_policies s \<and>
   (keys_ok (rs_db s) \<longrightarrow> keys_ok (rs_db (snd (remove_compensating_control org control_id actor s))))"
  by (simp add: remove_compensating_control_def same_results_def split: sum.split option.split)

lemma list_policies_results:
  assumes "risk_ok s" and "new_policy \<notin> rp_id ` set (rs_policies s)"
  shows "same_results s (snd (list_policies org actor new_policy s)) \<and> risk_ok (snd (list_policies org actor new_policy s)) \<and>
    rs_contexts (snd (list_policies org actor new_policy s)) = rs_contexts s \<and>
    rs_controls (snd (list_policies org actor new_policy s)) = rs_controls s"
proof (cases "require_capability org actor RISK_READ (rs_db s)")
  case (Inl e)
  then show ?thesis using assms(1) by (simp add: list_policies_def)
next
  case (Inr m)
  obtain p s' where e: "ensure_policy new_policy s = (p, s')" by fastforce
  have pol: "keys_distinct rp_id (rs_policies s)" "\<forall>q \<in> set (rs_policies s). 0 < rp_version q"
    using assms(1) by (simp_all add: risk_ok_def)
  note r = ensure_policy_result [OF e assms(2) pol]
  have "risk_ok s'" using same_results_ok [OF r(1) assms(1)] r(2,5,6) assms(1) by (simp add: risk_ok_def)
  then show ?thesis using Inr e r by (simp add: list_policies_def)
qed

lemma unchanged_ok:
  assumes "same_results s s' \<and> rs_policies s' = rs_policies s \<and> (keys_ok (rs_db s) \<longrightarrow> keys_ok (rs_db s'))" and "risk_ok s"
  shows "risk_ok s'" "appended s s'"
  using assms same_results_ok [of s s'] same_results_appended by (simp_all add: risk_ok_def)

lemma risk_step_ok:
  assumes "risk_step s s'" and "risk_ok s"
  shows "risk_ok s' \<and> appended s s'"
  using assms
proof cases
  case (others d)
  then have r: "same_results s s'" by (simp add: same_results_def)
  then show ?thesis using others assms(2) same_results_ok [OF r assms(2)] same_results_appended [OF r] by (simp add: risk_ok_def)
next
  case (policies new_policy org actor)
  then show ?thesis using list_policies_results [OF assms(2) policies(2)] same_results_appended by blast
next
  case (assessing draw locked org actor account eval_time now)
  from assms(2) assessing(2,3) show ?thesis
    by (cases rule: assess_endpoint_cases [where locked = locked and org = org and actor = actor and account = account
          and eval_time = eval_time and now = now])
      (use assessing(1) assms(2) appended_refl assessed_appended in auto)
next
  case context_put
  then show ?thesis using unchanged_ok [OF update_context_results assms(2)] by simp
next
  case control_added
  then show ?thesis using unchanged_ok [OF add_control_results assms(2)] by simp
next
  case control_removed
  then show ?thesis using unchanged_ok [OF remove_control_results assms(2)] by simp
qed

lemma risk_steps_ok:
  assumes "risk_step\<^sup>*\<^sup>* s s'" and "risk_ok s"
  shows "risk_ok s' \<and> appended s s'"
  using assms
proof induction
  case base
  then show ?case by (simp add: appended_refl)
next
  case (step s1 s2)
  then show ?case using risk_step_ok appended_trans by blast
qed

text \<open>Rows are only appended, and the counts of an old assessment still hold: it got no new rows.\<close>

lemma rows_kept:
  assumes "appended s s'" and "reproducible s a" and "reproducible s' a"
  shows "findings_of (ra_id a) s' = findings_of (ra_id a) s" "accounts_of (ra_id a) s' = accounts_of (ra_id a) s"
    "organizations_of (ra_id a) s' = organizations_of (ra_id a) s"
proof -
  obtain fs rows ogs where
    "findings_of (ra_id a) s' = findings_of (ra_id a) s @ fs" "accounts_of (ra_id a) s' = accounts_of (ra_id a) s @ rows"
    "organizations_of (ra_id a) s' = organizations_of (ra_id a) s @ ogs"
    using assms(1) by (auto simp: appended_def findings_of_def accounts_of_def organizations_of_def)
  moreover have "length (findings_of (ra_id a) s') = length (findings_of (ra_id a) s)"
    "length (accounts_of (ra_id a) s') = length (accounts_of (ra_id a) s)"
    "length (organizations_of (ra_id a) s') = length (organizations_of (ra_id a) s)"
    using assms(2,3) by (simp_all add: reproducible_def Let_def)
  ultimately show "findings_of (ra_id a) s' = findings_of (ra_id a) s" "accounts_of (ra_id a) s' = accounts_of (ra_id a) s"
    "organizations_of (ra_id a) s' = organizations_of (ra_id a) s" by simp_all
qed

section \<open>The versions of contexts\<close>

definition contexts_ok :: "risk_db \<Rightarrow> bool" where
  "contexts_ok s = keys_distinct rc_id (rs_contexts s)"

definition context_at :: "uuid \<Rightarrow> uuid \<Rightarrow> uuid option \<Rightarrow> risk_db \<Rightarrow> AssetRiskContext option" where
  "context_at org account_id asset_id s = find (context_target org account_id asset_id) (rs_contexts s)"

text \<open>A context is never lost, and its version only grows.\<close>

definition newer :: "risk_db \<Rightarrow> risk_db \<Rightarrow> bool" where
  "newer s s' =
     (\<forall>org account_id asset_id c. context_at org account_id asset_id s = Some c \<longrightarrow>
        (\<exists>c'. context_at org account_id asset_id s' = Some c' \<and> rc_version c \<le> rc_version c'))"

lemma newer_trans: "newer s1 s2 \<Longrightarrow> newer s2 s3 \<Longrightarrow> newer s1 s3"
  unfolding newer_def by (meson order_trans)

lemma newer_same: "rs_contexts s' = rs_contexts s \<Longrightarrow> newer s s'"
  by (simp add: newer_def context_at_def)

text \<open>Writing back a row of the same target.\<close>

lemma find_put_context:
  assumes "keys_distinct rc_id rows" and "c0 \<in> set rows" and "rc_id c = rc_id c0"
    and "\<And>org account_id asset_id. context_target org account_id asset_id c = context_target org account_id asset_id c0"
  shows "find (context_target org account_id asset_id) (put_row rc_id c rows) =
    map_option (\<lambda>x. if rc_id x = rc_id c then c else x) (find (context_target org account_id asset_id) rows)"
  using assms
proof (induction rows)
  case Nil
  then show ?case by simp
next
  case (Cons x rows)
  show ?case
  proof (cases "rc_id x = rc_id c")
    case True
    then have x: "x = c0" using Cons.prems(1-3) by auto
    have other: "rc_id y \<noteq> rc_id c" if "y \<in> set rows" for y using Cons.prems(1) True that by auto
    then have "put_row rc_id c rows = rows" by (intro put_row_absent) fastforce
    moreover have "map_option (\<lambda>x. if rc_id x = rc_id c then c else x) (find p rows) = find p rows" for p
    proof (cases "find p rows")
      case (Some y)
      then have "rc_id y \<noteq> rc_id c" using other [of y] find_mem [OF Some] by simp
      then show ?thesis by (simp add: Some)
    qed simp
    moreover have "context_target org account_id asset_id c = context_target org account_id asset_id x"
      using Cons.prems(4) [of org account_id asset_id] x by simp
    ultimately show ?thesis using True by simp
  next
    case False
    then have "c0 \<in> set rows" using Cons.prems(2,3) by auto
    with Cons False show ?thesis by simp
  qed
qed

lemma update_context_cases:
  obtains (refused) e where "update_context org actor account_id asset_id v expected new_id s = raise e s"
  | (created) c where "update_context org actor account_id asset_id v expected new_id s =
        return c (risk_audit ''risk.context.changed'' ''asset_risk_context'' org actor (Some (rc_id c)) (s\<lparr>rs_contexts := rs_contexts s @ [c]\<rparr>))"
      "context_at org account_id asset_id s = None" "rc_id c = new_id" "rc_version c = 1" "expected \<in> {None, Some 0}"
      "context_target org account_id asset_id c" "contexts_storable (rs_contexts s @ [c])"
  | (changed) c0 c where "update_context org actor account_id asset_id v expected new_id s =
        return c (risk_audit ''risk.context.changed'' ''asset_risk_context'' org actor (Some (rc_id c)) (s\<lparr>rs_contexts := put_row rc_id c (rs_contexts s)\<rparr>))"
      "context_at org account_id asset_id s = Some c0" "rc_id c = rc_id c0" "rc_version c = rc_version c0 + 1"
      "expected \<in> {None, Some (rc_version c0)}"
      "\<And>o' a' x'. context_target o' a' x' c = context_target o' a' x' c0" "contexts_storable (put_row rc_id c (rs_contexts s))"
proof -
  note outcome = refused created changed
  let ?u = "update_context org actor account_id asset_id v expected new_id s"
  show thesis
  proof (cases "fst ?u")
    case (Inl e)
    then show ?thesis
      by (intro outcome(1) [of e])
        (auto simp: update_context_def Let_def prod_eq_iff split: sum.splits option.splits if_splits)
  next
    case (Inr c)
    then obtain m where guards: "require_capability org actor RISK_CONTEXT_MANAGE (rs_db s) = Inr m"
      "require_tenant_asset org account_id asset_id (rs_db s) = Inr ()"
      by (auto simp: update_context_def split: sum.splits)
    show ?thesis
    proof (cases "context_at org account_id asset_id s")
      case None
      then show ?thesis
        using Inr by (intro outcome(2) [of c])
          (auto simp: update_context_def Let_def guards context_at_def context_target_def with_values_def new_context_def
            split: if_splits)
    next
      case (Some c0)
      then show ?thesis
        using Inr by (intro outcome(3) [of c c0])
          (auto simp: update_context_def Let_def guards context_at_def context_target_def with_values_def split: if_splits)
    qed
  qed
qed

lemma update_context_newer:
  assumes "contexts_ok s" and "new_id \<notin> rc_id ` set (rs_contexts s)"
  shows "contexts_ok (snd (update_context org actor account_id asset_id v expected new_id s)) \<and>
    newer s (snd (update_context org actor account_id asset_id v expected new_id s))"
proof (cases rule: update_context_cases [of org actor account_id asset_id v expected new_id s])
  case (refused e)
  then show ?thesis using assms(1) newer_same by simp
next
  case (created c)
  then have "contexts_ok (snd (update_context org actor account_id asset_id v expected new_id s))"
    using assms by (simp add: contexts_ok_def keys_distinct_snoc)
  moreover have "find p (rows @ [c]) = Some x" if "find p rows = Some x" for p x and rows :: "AssetRiskContext list"
    using that by (induction rows) (auto split: if_splits)
  ultimately show ?thesis using created by (auto simp: newer_def context_at_def)
next
  case (changed c0 c)
  have c0: "c0 \<in> set (rs_contexts s)" using changed(2) by (auto simp: context_at_def dest: find_mem)
  have ok: "contexts_ok (snd (update_context org actor account_id asset_id v expected new_id s))"
    using assms(1) changed(1) by (simp add: contexts_ok_def)
  have "\<exists>y. context_at o' a' x' (snd (update_context org actor account_id asset_id v expected new_id s)) = Some y \<and>
      rc_version x \<le> rc_version y" if "context_at o' a' x' s = Some x" for o' a' x' x
  proof -
    have "context_at o' a' x' (snd (update_context org actor account_id asset_id v expected new_id s)) =
        Some (if rc_id x = rc_id c then c else x)"
      using find_put_context [OF _ c0 changed(3,6), of o' a' x'] assms(1) that changed(1)
      by (simp add: context_at_def contexts_ok_def)
    moreover have "rc_version x \<le> rc_version c" if "rc_id x = rc_id c"
    proof -
      have "x \<in> set (rs_contexts s)" using \<open>context_at o' a' x' s = Some x\<close> by (auto simp: context_at_def dest: find_mem)
      then have "x = c0" using that changed(3) c0 assms(1) get_row_distinct [of rc_id "rs_contexts s"]
        by (metis contexts_ok_def option.inject)
      then show ?thesis using changed(4) by simp
    qed
    ultimately show ?thesis by auto
  qed
  with ok show ?thesis unfolding newer_def by blast
qed

lemma risk_step_newer:
  assumes "risk_step s s'" and "risk_ok s" and "contexts_ok s"
  shows "contexts_ok s' \<and> newer s s'"
  using assms
proof cases
  case (others d)
  then show ?thesis using assms(3) newer_same by (simp add: contexts_ok_def)
next
  case (policies new_policy org actor)
  then show ?thesis using list_policies_results [OF assms(2) policies(2), of org actor] assms(3) newer_same
    by (simp add: contexts_ok_def)
next
  case (assessing draw locked org actor account eval_time now)
  from assms(2) assessing(2,3) have "rs_contexts s' = rs_contexts s"
    by (cases rule: assess_endpoint_cases [where locked = locked and org = org and actor = actor and account = account
          and eval_time = eval_time and now = now]) (use assessing(1) in auto)
  then show ?thesis using assms(3) newer_same by (simp add: contexts_ok_def)
next
  case context_put
  then show ?thesis using update_context_newer [OF assms(3)] by simp
next
  case control_added
  then have "rs_contexts s' = rs_contexts s"
    by (simp add: add_compensating_control_def Let_def split: sum.split option.split)
  then show ?thesis using assms(3) newer_same by (simp add: contexts_ok_def)
next
  case control_removed
  then have "rs_contexts s' = rs_contexts s"
    by (simp add: remove_compensating_control_def split: sum.split option.split)
  then show ?thesis using assms(3) newer_same by (simp add: contexts_ok_def)
qed

lemma risk_steps_newer:
  assumes "risk_step\<^sup>*\<^sup>* s s'" and "risk_ok s" and "contexts_ok s"
  shows "contexts_ok s' \<and> newer s s'"
  using assms
proof induction
  case base
  then show ?case by (simp add: newer_same)
next
  case (step s1 s2)
  then show ?case using risk_step_newer risk_steps_ok newer_trans by metis
qed

section \<open>Lemmas on controls\<close>

lemma controls_of_unique:
  assumes "controls_storable (rs_controls s)" and "c \<in> set (rs_controls s)" and "cc_active c"
  shows "map_of (controls_of (cc_organization_id c) t s) (cc_finding_id c) = (if control_in_force t c then Some c else None)"
proof -
  have only: "x = c" if "x \<in> set (rs_controls s)" "cc_active x" "cc_finding_id x = cc_finding_id c" for x
    using assms that unique_onD [of cc_active cc_finding_id "rs_controls s" x c] by (simp add: controls_storable_def)
  show ?thesis
  proof (cases "control_in_force t c")
    case True
    then have "(cc_finding_id c, c) \<in> set (controls_of (cc_organization_id c) t s)"
      using assms(2) by (auto simp: controls_of_def)
    then obtain x where x: "map_of (controls_of (cc_organization_id c) t s) (cc_finding_id c) = Some x"
      by (metis map_of_eq_None_iff not_None_eq fst_conv image_eqI)
    then have "(cc_finding_id c, x) \<in> set (controls_of (cc_organization_id c) t s)" by (rule map_of_SomeD)
    then have "x = c" using only by (auto simp: controls_of_def control_in_force_def)
    then show ?thesis using x True by simp
  next
    case False
    have "cc_finding_id c \<notin> fst ` set (controls_of (cc_organization_id c) t s)"
    proof
      assume "cc_finding_id c \<in> fst ` set (controls_of (cc_organization_id c) t s)"
      then obtain x where "x \<in> set (rs_controls s)" "cc_finding_id x = cc_finding_id c" "control_in_force t x"
        by (auto simp: controls_of_def)
      then show False using only False by (auto simp: control_in_force_def)
    qed
    then show ?thesis using False by (simp add: map_of_eq_None_iff)
  qed
qed

lemma active_control_refuses:
  assumes "require_capability org actor RISK_CONTROLS_MANAGE (rs_db s) = Inr m"
    and "scoped_finding org fid (rs_db s) = Some f" and "c \<in> set (rs_controls s)" and "cc_active c" and "cc_finding_id c = fid"
    and "\<And>t. expires_at = Some t \<Longrightarrow> now < t"
  shows "add_compensating_control org fid actor reason adj expires_at new_id now created s =
    raise (ConflictError ''compensating_control_active'') s"
proof -
  have "f_id f = fid" using assms(2) by (auto simp: scoped_finding_def dest: find_mem)
  then show ?thesis using assms
    by (auto simp: add_compensating_control_def list_ex_iff split: option.split)
qed

section \<open>Properties\<close>

text \<open>A service without any data of its own.\<close>

definition unused_service :: "risk_db \<Rightarrow> bool" where
  "unused_service s =
     (keys_ok (rs_db s) \<and> rs_policies s = [] \<and> rs_contexts s = [] \<and> rs_assessments s = [] \<and> rs_finding_snapshots s = [] \<and>
      rs_account_snapshots s = [] \<and> rs_organization_snapshots s = [] \<and> rs_controls s = [])"

lemma unused_service_ok: "unused_service s \<Longrightarrow> risk_ok s"
  by (simp add: unused_service_def risk_ok_def assessments_storable_def finding_snapshots_storable_def
      account_snapshots_storable_def organization_snapshots_storable_def)

text \<open>
  C4. Immutability: a stored assessment and its snapshots never change, whatever is assessed, updated or
  removed later, and every stored assessment is complete and can be recomputed from its rows: the points of
  each finding add up to its score, each account row aggregates the scores of its findings, and the
  organization row, the counts and the aggregate score follow from the account rows.
\<close>

theorem stored_assessments_reproducible:
  assumes "unused_service s0" and "risk_step\<^sup>*\<^sup>* s0 s" and "risk_step\<^sup>*\<^sup>* s s'" and "a \<in> set (rs_assessments s)"
  shows "a \<in> set (rs_assessments s') \<and> reproducible s' a \<and> risk_assessment_constraints a \<and>
    findings_of (ra_id a) s' = findings_of (ra_id a) s \<and> accounts_of (ra_id a) s' = accounts_of (ra_id a) s \<and>
    organizations_of (ra_id a) s' = organizations_of (ra_id a) s"
proof -
  have ok: "risk_ok s" using risk_steps_ok [OF assms(2) unused_service_ok [OF assms(1)]] by simp
  have later: "risk_ok s'" "appended s s'" using risk_steps_ok [OF assms(3) ok] by simp_all
  have mem: "a \<in> set (rs_assessments s')" using later(2) assms(4) by (auto simp: appended_def)
  then have rep: "reproducible s' a" "risk_assessment_constraints a"
    using later(1) by (auto simp: risk_ok_def assessments_storable_def list_all_iff)
  have "reproducible s a" using ok assms(4) by (simp add: risk_ok_def)
  with rows_kept [OF later(2) this rep(1)] mem rep show ?thesis by simp
qed

text \<open>The time an assessment is made for.\<close>

definition assessed_time :: "instant option \<Rightarrow> instant \<Rightarrow> instant" where
  "assessed_time eval_time now = (case eval_time of None \<Rightarrow> now | Some t \<Rightarrow> t)"

text \<open>
  C38. An assessment is refused only for its actor, its scope or a lock held on the scope; otherwise it completes: its
  own tables never refuse it, and the conflict with an active assessment cannot occur. It scores
  every open or suppressed finding of the scope exactly once, with the engine applied to the finding, the
  context of its asset and the compensating control in force, and every account of the scope.
\<close>

theorem assessment_scores_every_finding:
  assumes "unused_service s0" and "risk_step\<^sup>*\<^sup>* s0 s"
    and "ad_assessment_id draw \<notin> ra_id ` set (rs_assessments s)" and "ad_policy_id draw \<notin> rp_id ` set (rs_policies s)"
  shows "case require_capability org actor RISK_ASSESS (rs_db s) of
      Inl e \<Rightarrow> assess_endpoint locked org actor account eval_time draw now s = raise e s
    | Inr m \<Rightarrow>
        (case lock_scope locked org actor account (rs_db s) of
           Inl e \<Rightarrow> assess_endpoint locked org actor account eval_time draw now s = raise e s
         | Inr u \<Rightarrow>
             \<exists>a s'. assess_endpoint locked org actor account eval_time draw now s = return a s' \<and>
               ra_status a = RiskAssessmentStatus.COMPLETED \<and> ra_evaluation_time a = assessed_time eval_time now \<and>
               map (\<lambda>r. (fr_finding_id r, fr_risk_score r)) (findings_of (ra_id a) s') =
                 map (\<lambda>fa. (f_id (fst fa), score (score_finding (risk_inputs (contexts_of org s)
                              (controls_of org (assessed_time eval_time now) s) (assessed_time eval_time now) fa))))
                   (active_findings org account (rs_db s)) \<and>
               distinct (map fr_finding_id (findings_of (ra_id a) s')) \<and>
               map ar_aws_account_id (accounts_of (ra_id a) s') = account_ids org account (rs_db s))"
proof -
  have ok: "risk_ok s" using risk_steps_ok [OF assms(2) unused_service_ok [OF assms(1)]] by simp
  show ?thesis
  proof (cases "require_capability org actor RISK_ASSESS (rs_db s)")
    case (Inl e)
    then show ?thesis using assess_refused [of org actor s e] by simp
  next
    case m: (Inr m)
    show ?thesis
    proof (cases "lock_scope locked org actor account (rs_db s)")
      case (Inl e)
      then show ?thesis using m assess_refused [of org actor s e locked account] by simp
    next
      case (Inr u)
      then have "lock_scope locked org actor account (rs_db s) = Inr ()" by simp
      from assess_completes [OF ok assms(3,4) m this, of eval_time now, folded assessed_time_def] obtain policy a s' where
        run: "assess locked org actor account eval_time draw now s = return a s'"
        and added: "assessed policy (ad_assessment_id draw) org account actor (assessed_time eval_time now) s a s'" by auto
      obtain snapshots accounts og where
        rows: "assessed_rows policy (ad_assessment_id draw) org account actor (assessed_time eval_time now) s = (a, snapshots, accounts, og)"
        and s': "rs_finding_snapshots s' = rs_finding_snapshots s @ snapshots"
          "rs_account_snapshots s' = rs_account_snapshots s @ accounts"
        using added by (auto simp: assessed_def split: prod.splits)
      note shape = assessed_rows_shape [OF rows]
      have "fr_assessment_id ` set (rs_finding_snapshots s) \<subseteq> ra_id ` set (rs_assessments s)"
        "ar_assessment_id ` set (rs_account_snapshots s) \<subseteq> ra_id ` set (rs_assessments s)"
        using ok by (simp_all add: risk_ok_def)
      then have old: "\<forall>r \<in> set (rs_finding_snapshots s). fr_assessment_id r \<noteq> ra_id a"
        "\<forall>q \<in> set (rs_account_snapshots s). ar_assessment_id q \<noteq> ra_id a"
        using assms(3) shape(8) by (metis image_subset_iff)+
      have fs: "findings_of (ra_id a) s' = snapshots" and as: "accounts_of (ra_id a) s' = accounts"
        using old shape(5,6,8) s' by (auto simp: findings_of_def accounts_of_def filter_empty_conv filter_id_conv)
      have "map fr_finding_id snapshots = map (\<lambda>fa. f_id (fst fa)) (active_findings org account (rs_db s))"
        unfolding shape(1) by (simp add: finding_snapshot_def)
      then have "distinct (map fr_finding_id snapshots)"
        using ok active_findings_distinct [of "rs_db s" org account] by (simp add: risk_ok_def keys_ok_def)
      moreover have "map ar_aws_account_id accounts = account_ids org account (rs_db s)"
        by (subst shape(2)) (simp add: account_snapshot_def Let_def comp_def)
      moreover have "map (\<lambda>r. (fr_finding_id r, fr_risk_score r)) snapshots =
          map (\<lambda>fa. (f_id (fst fa), score (score_finding (risk_inputs (contexts_of org s)
            (controls_of org (assessed_time eval_time now) s) (assessed_time eval_time now) fa)))) (active_findings org account (rs_db s))"
        unfolding shape(1) by (simp add: finding_snapshot_def)
      moreover have "ra_status a = RiskAssessmentStatus.COMPLETED" "ra_evaluation_time a = assessed_time eval_time now"
        by (simp_all add: shape(4) completed_assessment_def new_assessment_def)
      ultimately show ?thesis using m Inr run fs as by (simp add: assess_endpoint_def)
    qed
  qed
qed

text \<open>
  Optimistic locking: once a context was updated under an expected version, every later update that
  still expects this version is refused, whatever happened in between, so that no update made with a
  version is silently overwritten by another one made with the same version.
\<close>

theorem stale_context_refused:
  assumes "unused_service s0" and "risk_step\<^sup>*\<^sup>* s0 s" and "new_id \<notin> rc_id ` set (rs_contexts s)"
    and "update_context org actor account_id asset_id v (Some n) new_id s = return c s1" and "risk_step\<^sup>*\<^sup>* s1 s2"
    and "require_capability org actor' RISK_CONTEXT_MANAGE (rs_db s2) = Inr m"
    and "require_tenant_asset org account_id asset_id (rs_db s2) = Inr ()"
  shows "n < rc_version c \<and>
    update_context org actor' account_id asset_id v' (Some n) new_id' s2 = raise (ConflictError ''risk_context_stale'') s2"
proof -
  have ok0: "risk_ok s0" "contexts_ok s0" using assms(1) unused_service_ok by (simp_all add: contexts_ok_def unused_service_def)
  have ok: "risk_ok s" "contexts_ok s"
    using risk_steps_ok [OF assms(2) ok0(1)] risk_steps_newer [OF assms(2) ok0] by simp_all
  have s1: "s1 = snd (update_context org actor account_id asset_id v (Some n) new_id s)" using assms(4) by simp
  have ok1: "risk_ok s1" "contexts_ok s1"
    using unchanged_ok(1) [OF update_context_results ok(1)] update_context_newer [OF ok(2) assms(3)] s1 by simp_all
  have "context_at org account_id asset_id s1 = Some c \<and> n < rc_version c"
  proof (cases rule: update_context_cases [of org actor account_id asset_id v "Some n" new_id s])
    case (refused e)
    then show ?thesis using assms(4) by simp
  next
    case (created x)
    then have "find (context_target org account_id asset_id) (rs_contexts s @ [c]) = Some c"
      using assms(4) by (auto simp: context_at_def find_None_iff find_Some_iff nth_append intro!: exI [of _ "length (rs_contexts s)"])
    then show ?thesis using created assms(4) by (auto simp: context_at_def)
  next
    case (changed c0 x)
    then show ?thesis
      using assms(4) ok(2) find_put_context [of "rs_contexts s" c0 c org account_id asset_id]
      by (auto simp: context_at_def contexts_ok_def dest: find_mem)
  qed
  then obtain c2 where c2: "context_at org account_id asset_id s2 = Some c2" "n < rc_version c2" and n: "n < rc_version c"
    using risk_steps_newer [OF assms(5) ok1] unfolding newer_def by (meson order_less_le_trans)
  then show ?thesis using assms(6,7) by (simp add: update_context_def context_at_def)
qed

text \<open>
  An expired compensating control is in the way: no assessment counts it any more, but as long as nobody
  removes it, it still refuses every new control for its finding.
\<close>

theorem expired_control_blocks:
  assumes "controls_storable (rs_controls s)" and "c \<in> set (rs_controls s)" and "cc_active c" and "cc_expires_at c = Some t"
    and "t \<le> now" and "require_capability (cc_organization_id c) actor RISK_CONTROLS_MANAGE (rs_db s) = Inr m"
    and "scoped_finding (cc_organization_id c) (cc_finding_id c) (rs_db s) = Some f" and "now < expiry"
  shows "compensating_adjustment (risk_inputs contexts (controls_of (cc_organization_id c) now s) now (f, asset)) = 0 \<and>
    add_compensating_control (cc_organization_id c) (cc_finding_id c) actor reason adj (Some expiry) new_id now now s =
      raise (ConflictError ''compensating_control_active'') s"
proof -
  have "f_id f = cc_finding_id c" using assms(7) by (auto simp: scoped_finding_def dest: find_mem)
  then have "compensating_adjustment (risk_inputs contexts (controls_of (cc_organization_id c) now s) now (f, asset)) = 0"
    using controls_of_unique [OF assms(1-3), of now] assms(4,5)
    by (simp add: risk_inputs_def Let_def control_in_force_def)
  then show ?thesis using active_control_refuses [OF assms(6,7,2,3) refl, of "Some expiry" now reason adj new_id now] assms(8)
    by simp
qed

section \<open>Witnesses\<close>

definition sample_risk :: risk_db where
  "sample_risk = \<lparr>rs_db = sample_scan, rs_policies = [], rs_contexts = [], rs_assessments = [], rs_finding_snapshots = [],
     rs_account_snapshots = [], rs_organization_snapshots = [], rs_controls = []\<rparr>"

definition sample_assessment :: AssessmentDraw where
  "sample_assessment = \<lparr>ad_assessment_id = 800, ad_policy_id = 801\<rparr>"

definition sample_values :: ContextValues where
  "sample_values = \<lparr>cv_criticality = RiskCriticality.HIGH, cv_environment = RiskEnvironment.PRODUCTION,
     cv_business_impact = BusinessImpact.HIGH, cv_data_sensitivity = DataSensitivity.UNKNOWN\<rparr>"

definition sample_control :: CompensatingControl where
  "sample_control = \<lparr>cc_id = 810, cc_organization_id = 2, cc_aws_account_id = 3, cc_finding_id = 60, cc_reason = ''WAF rule'',
     cc_score_adjustment = -5, cc_created_by_user_id = 7, cc_expires_at = Some 500, cc_active = True, cc_created_at = 100\<rparr>"

lemma sample_risk_unused: "unused_service sample_risk"
  by (simp add: unused_service_def sample_risk_def keys_ok_def)

lemma sample_risk_db [simp]: "rs_db sample_risk = sample_scan" "rs_assessments sample_risk = []" "rs_policies sample_risk = []"
  "rs_contexts sample_risk = []"
  by (simp_all add: sample_risk_def)

lemma sample_risk_scope: "lock_scope False 2 7 (Some 3) sample_scan = Inr ()"
proof -
  obtain m where "require_capability 2 7 RISK_ASSESS sample_scan = Inr m" using sample_scan_member by blast
  then obtain m' where "active_membership 2 7 sample_scan = Some m'"
    by (auto simp: require_capability_def require_member_def split: sum.splits option.splits if_splits)
  then show ?thesis by (simp add: lock_scope_def aws_account_for_user_def)
qed

lemma sample_active: "map (\<lambda>fa. f_id (fst fa)) (active_findings 2 (Some 3) sample_scan) = [60]"
  by (simp add: active_findings_def critical_finding_def)

theorem stored_assessments_reproducible_witness:
  "\<exists>a s. rs_assessments s = [a] \<and> reproducible s a \<and> length (findings_of (ra_id a) s) = 1"
proof -
  obtain m where m: "require_capability 2 7 RISK_ASSESS (rs_db sample_risk) = Inr m" using sample_scan_member by auto
  have scope: "lock_scope False 2 7 (Some 3) (rs_db sample_risk) = Inr ()" using sample_risk_scope by simp
  obtain policy a s where run: "assess False 2 7 (Some 3) None sample_assessment 1000 sample_risk = return a s"
    and added: "assessed policy 800 2 (Some 3) 7 1000 sample_risk a s"
    using assess_completes [OF unused_service_ok [OF sample_risk_unused] _ _ m scope, of sample_assessment None 1000]
    by (auto simp: sample_assessment_def)
  have "risk_step sample_risk (snd (assess_endpoint False 2 7 (Some 3) None sample_assessment 1000 sample_risk))"
    by (rule risk_step.assessing) simp_all
  then have step: "risk_step\<^sup>*\<^sup>* sample_risk s" using run by (simp add: assess_endpoint_def)
  have rows: "rs_assessments s = [a]" using added by (auto simp: assessed_def split: prod.splits)
  then have "reproducible s a"
    using stored_assessments_reproducible [OF sample_risk_unused step rtranclp.rtrancl_refl, of a] by simp
  moreover have "ra_findings_total a = 1"
    using added arg_cong [OF sample_active, of length]
    by (auto simp: assessed_def assessed_rows_def Let_def completed_assessment_def)
  ultimately show ?thesis using rows by (intro exI [of _ a] exI [of _ s]) (simp add: reproducible_def Let_def)
qed

theorem assessment_scores_every_finding_witness:
  "\<exists>a s. assess_endpoint False 2 7 (Some 3) None sample_assessment 1000 sample_risk = return a s \<and>
     ra_status a = RiskAssessmentStatus.COMPLETED \<and> map fr_finding_id (findings_of (ra_id a) s) = [60]"
proof -
  obtain m where m: "require_capability 2 7 RISK_ASSESS (rs_db sample_risk) = Inr m" using sample_scan_member by auto
  have scope: "lock_scope False 2 7 (Some 3) (rs_db sample_risk) = Inr ()" using sample_risk_scope by simp
  obtain a s where run: "assess_endpoint False 2 7 (Some 3) None sample_assessment 1000 sample_risk = return a s"
    "ra_status a = RiskAssessmentStatus.COMPLETED"
    and rows: "map (\<lambda>r. (fr_finding_id r, fr_risk_score r)) (findings_of (ra_id a) s) =
      map (\<lambda>fa. (f_id (fst fa), score (score_finding (risk_inputs (contexts_of 2 sample_risk) (controls_of 2 1000 sample_risk) 1000 fa))))
        (active_findings 2 (Some 3) sample_scan)"
    using assessment_scores_every_finding [OF sample_risk_unused rtranclp.rtrancl_refl, where draw = sample_assessment and org = 2 and actor = 7
        and locked = False and account = "Some 3" and eval_time = None and now = 1000]
      m scope by (auto simp: assessed_time_def)
  have "map fr_finding_id (findings_of (ra_id a) s) = [60]"
    using arg_cong [OF rows, of "map fst"] sample_active by (simp add: comp_def)
  then show ?thesis using run by (intro exI [of _ a] exI [of _ s]) simp
qed

theorem stale_context_refused_witness:
  "\<exists>c s. update_context 2 7 3 None sample_values (Some 0) 820 sample_risk = return c s \<and>
     update_context 2 7 3 None sample_values (Some 0) 821 s = raise (ConflictError ''risk_context_stale'') s"
proof -
  obtain m where m: "require_capability 2 7 RISK_CONTEXT_MANAGE sample_scan = Inr m" using sample_scan_member by blast
  have asset: "require_tenant_asset 2 3 None sample_scan = Inr ()" by (simp add: require_tenant_asset_def)
  obtain c s where c: "update_context 2 7 3 None sample_values (Some 0) 820 sample_risk = return c s"
    and s: "s = risk_audit ''risk.context.changed'' ''asset_risk_context'' 2 7 (Some (rc_id c)) (sample_risk\<lparr>rs_contexts := [c]\<rparr>)"
    using m asset by (simp add: update_context_def Let_def contexts_storable_def with_values_def new_context_def)
  have "require_capability 2 7 RISK_CONTEXT_MANAGE (rs_db s) = Inr m" "require_tenant_asset 2 3 None (rs_db s) = Inr ()"
    using m asset by (simp_all add: s risk_audit_def require_capability_def require_member_def active_membership_def require_tenant_asset_def)
  then show ?thesis
    using stale_context_refused [OF sample_risk_unused rtranclp.rtrancl_refl _ c rtranclp.rtrancl_refl, of 7 m sample_values 821] c
    by auto
qed

theorem expired_control_blocks_witness:
  "add_compensating_control 2 60 7 ''WAF rule'' (-5) (Some 2000) 811 1000 1000 (sample_risk\<lparr>rs_controls := [sample_control]\<rparr>) =
     raise (ConflictError ''compensating_control_active'') (sample_risk\<lparr>rs_controls := [sample_control]\<rparr>)"
proof -
  obtain m where m: "require_capability 2 7 RISK_CONTROLS_MANAGE sample_scan = Inr m" using sample_scan_member by blast
  have "scoped_finding 2 60 sample_scan = Some critical_finding" by (simp add: scoped_finding_def critical_finding_def)
  then show ?thesis
    using expired_control_blocks [of "sample_risk\<lparr>rs_controls := [sample_control]\<rparr>" sample_control 500 1000 7 m critical_finding 2000
        "[]" None "''WAF rule''" "-5" 811] m
    by (simp add: sample_control_def controls_storable_def control_constraints_def)
qed

end
