(* ===== verification/Discovery.thy ===== *)
theory Discovery
  imports Platform_Jobs Accounts "HOL-Library.AList"
begin

text \<open>
  Asset discovery, \<^verbatim>\<open>app/services/discovery.py\<close> with \<^verbatim>\<open>app/repositories/assets.py\<close>: the
  normalisation of what AWS returns, the fallback pagination, and the orchestrator that stores the
  inventory. A collector is a record of its name, its asset types and its \<^verbatim>\<open>discover\<close> for an
  account, with the client factory and the regions fixed. \<open>isoformat\<close> tells the dates among
  Python objects and writes them.
\<close>

section \<open>Normalising values\<close>

text \<open>\<^verbatim>\<open>(access.?key|secret|session.?token|credential|password|authorization)\<close>\<close>

definition SENSITIVE_KEYS :: "string \<Rightarrow> bool" where
  "SENSITIVE_KEYS key =
     (let s = casefold key in
      search_gap ''access'' ''key'' s \<or> contains ''secret'' s \<or> search_gap ''session'' ''token'' s \<or>
      contains ''credential'' s \<or> contains ''password'' s \<or> contains ''authorization'' s)"

function json_safe :: "(string \<Rightarrow> string option) \<Rightarrow> json \<Rightarrow> json" where
  "json_safe isoformat JNull = JNull"
| "json_safe isoformat (JBool b) = JBool b"
| "json_safe isoformat (JInt i) = JInt i"
| "json_safe isoformat (JStr s) = JStr s"
| "json_safe isoformat (JList xs) = JList (map (json_safe isoformat) xs)"
| "json_safe isoformat (JDict d) =
     JDict (map (\<lambda>kv. (fst kv, json_safe isoformat (snd kv))) (filter (\<lambda>kv. \<not> SENSITIVE_KEYS (fst kv)) d))"
| "json_safe isoformat (JObj s) = JStr (case isoformat s of None \<Rightarrow> s | Some t \<Rightarrow> t)"
  by pat_completeness auto
termination
  by (relation "measure (\<lambda>(i, v). size v)") (simp_all del: json.size)

definition json_safe_dict :: "(string \<Rightarrow> string option) \<Rightarrow> dict \<Rightarrow> dict" where
  "json_safe_dict isoformat d = (case json_safe isoformat (JDict d) of JDict d' \<Rightarrow> d' | _ \<Rightarrow> [])"

text \<open>\<open>loads\<close> stands for \<^verbatim>\<open>json.loads\<close>, \<open>None\<close> for the error it raises.\<close>

definition bounded_policy_document ::
    "(string \<Rightarrow> string option) \<Rightarrow> (string \<Rightarrow> json option) \<Rightarrow> json \<Rightarrow> json" where
  "bounded_policy_document isoformat loads value =
     (if value = JNull \<or> value = JStr [] then JNull
      else
        let parsed = (case value of
            JStr s \<Rightarrow> if 20000 < length s then Inl ''truncated''
                      else (case loads s of None \<Rightarrow> Inl ''malformed'' | Some v \<Rightarrow> Inr v)
          | v \<Rightarrow> Inr v)
        in (case parsed of
              Inl m \<Rightarrow> JDict [(m, JBool True)]
            | Inr (JDict d) \<Rightarrow>
                let sanitized = json_safe isoformat (JDict d) in
                if length (json_dumps sanitized) \<le> 20000 then sanitized else JDict [(''truncated'', JBool True)]
            | Inr _ \<Rightarrow> JDict [(''malformed'', JBool True)]))"

section \<open>Errors of AWS\<close>

datatype aws_exn = ClientError string | AWSConnectionFailure string | BotoCoreError | KeyError | OtherException

text \<open>Every run of other characters becomes one underscore.\<close>

definition safe_code :: "string \<Rightarrow> string" where
  "safe_code code = map (\<lambda>c. if c = CHR ''-'' then CHR ''_'' else c) (strip_dashes (dash_runs (casefold code)))"

definition safe_aws_error :: "aws_exn \<Rightarrow> string" where
  "safe_aws_error e =
     (case e of
        ClientError code \<Rightarrow> (let v = take 80 (safe_code code) in if v = [] then ''client_error'' else v)
      | AWSConnectionFailure reason \<Rightarrow> take 80 reason
      | BotoCoreError \<Rightarrow> ''aws_service_error''
      | KeyError \<Rightarrow> ''discovery_service_failed''
      | OtherException \<Rightarrow> ''discovery_service_failed'')"

section \<open>Pagination without a paginator\<close>

text \<open>
  \<open>call token\<close> is the response to the request with that \<^verbatim>\<open>NextToken\<close>: its items and its next
  token. The loop of the source may not end, so its result is an option.
\<close>

type_synonym page = "json list \<times> string option"

partial_function (option) paginate_from ::
    "(string option \<Rightarrow> aws_exn + page) \<Rightarrow> string option \<Rightarrow> string list \<Rightarrow> json list \<Rightarrow> (aws_exn + json list) option" where
  "paginate_from call token seen_tokens items =
     (case call token of
        Inl e \<Rightarrow> Some (Inl e)
      | Inr (results, next_token) \<Rightarrow>
          (case next_token of
             None \<Rightarrow> Some (Inr (items @ results))
           | Some t \<Rightarrow>
               if t = [] \<or> t \<in> set seen_tokens then Some (Inr (items @ results))
               else paginate_from call (Some t) (t # seen_tokens) (items @ results)))"

definition paginated_items :: "(string option \<Rightarrow> aws_exn + page) \<Rightarrow> (aws_exn + json list) option" where
  "paginated_items call = paginate_from call None [] []"

section \<open>Collectors\<close>

record NormalizedAsset =
  nz_asset_type :: AssetType
  nz_resource_id :: string
  nz_arn :: "string option"
  nz_name :: string
  nz_region :: string
  nz_status :: "string option"
  nz_tags :: "(string \<times> string) list"
  nz_metadata :: dict

record DiscoveryCollector =
  dc_name :: string
  dc_asset_types :: "AssetType list"
  dc_discover :: "string \<Rightarrow> aws_exn + NormalizedAsset list"

fun collect :: "('a \<Rightarrow> aws_exn + 'b list) \<Rightarrow> 'a list \<Rightarrow> aws_exn + 'b list" where
  "collect f [] = Inr []"
| "collect f (x # xs) =
     (case f x of
        Inl e \<Rightarrow> Inl e
      | Inr ys \<Rightarrow> (case collect f xs of Inl e \<Rightarrow> Inl e | Inr zs \<Rightarrow> Inr (ys @ zs)))"

section \<open>Storing an inventory\<close>

text \<open>\<^verbatim>\<open>uq_asset_identity\<close> and \<^verbatim>\<open>asset_seen_order\<close>.\<close>

definition asset_unique :: "Asset list \<Rightarrow> bool" where
  "asset_unique rows =
     unique_on (\<lambda>a. True) (\<lambda>a. (as_aws_account_id a, as_asset_type a, as_resource_id a)) rows"

definition asset_seen_order :: "Asset \<Rightarrow> bool" where
  "asset_seen_order a = (as_first_seen_at a \<le> as_last_seen_at a)"

definition by_identity :: "uuid \<Rightarrow> AssetType \<Rightarrow> string \<Rightarrow> Asset list \<Rightarrow> Asset option" where
  "by_identity account_id asset_type resource_id rows =
     find (\<lambda>a. as_aws_account_id a = account_id \<and> as_asset_type a = asset_type \<and> as_resource_id a = resource_id) rows"

definition refresh_asset ::
    "(string \<Rightarrow> string option) \<Rightarrow> NormalizedAsset \<Rightarrow> instant \<Rightarrow> Asset \<Rightarrow> Asset" where
  "refresh_asset isoformat item at a =
     a\<lparr>as_arn := nz_arn item, as_name := nz_name item, as_region := nz_region item, as_status := nz_status item,
       as_tags := nz_tags item, as_metadata_json := json_safe_dict isoformat (nz_metadata item),
       as_last_seen_at := at, as_is_active := True\<rparr>"

definition new_asset :: "AWSAccount \<Rightarrow> NormalizedAsset \<Rightarrow> instant \<Rightarrow> uuid \<Rightarrow> Asset" where
  "new_asset account item at new_id =
     \<lparr>as_id = new_id, as_organization_id = acc_organization_id account, as_aws_account_id = acc_id account,
      as_asset_type = nz_asset_type item, as_resource_id = nz_resource_id item, as_arn = None, as_name = [],
      as_region = [], as_status = None, as_tags = [], as_metadata_json = [], as_first_seen_at = at,
      as_last_seen_at = at, as_is_active = True\<rparr>"

text \<open>
  The loop over the discovered items. New rows are not flushed, so \<open>by_identity\<close> reads the rows
  persisted before; \<open>rows\<close> holds the objects of the session. \<open>new_id\<close> numbers the fresh
  identifiers.
\<close>

type_synonym asset_ids = "int \<Rightarrow> uuid"

fun upsert_items ::
    "(string \<Rightarrow> string option) \<Rightarrow> AWSAccount \<Rightarrow> instant \<Rightarrow> asset_ids \<Rightarrow> Asset list \<Rightarrow> NormalizedAsset list \<Rightarrow>
     Asset list \<times> int \<times> int \<Rightarrow> Asset list \<times> int \<times> int" where
  "upsert_items isoformat account at new_id persisted [] s = s"
| "upsert_items isoformat account at new_id persisted (item # items) (rows, created, updated) =
     (case by_identity (acc_id account) (nz_asset_type item) (nz_resource_id item) persisted of
        None \<Rightarrow>
          upsert_items isoformat account at new_id persisted items
            (rows @ [refresh_asset isoformat item at (new_asset account item at (new_id created))], created + 1, updated)
      | Some a \<Rightarrow>
          upsert_items isoformat account at new_id persisted items
            (put_row as_id (refresh_asset isoformat item at a) rows, created, updated + 1))"

definition missing_assets :: "uuid \<Rightarrow> AssetType list \<Rightarrow> (AssetType \<times> string) list \<Rightarrow> Asset list \<Rightarrow> Asset list" where
  "missing_assets account_id asset_types seen persisted =
     filter (\<lambda>a. as_aws_account_id a = account_id \<and> as_asset_type a \<in> set asset_types \<and> as_is_active a \<and>
                 (as_asset_type a, as_resource_id a) \<notin> set seen) persisted"

definition deactivate_missing :: "Asset list \<Rightarrow> Asset list \<Rightarrow> Asset list" where
  "deactivate_missing missing rows = map (\<lambda>a. if a \<in> set missing then a\<lparr>as_is_active := False\<rparr> else a) rows"

definition upsert ::
    "(string \<Rightarrow> string option) \<Rightarrow> AWSAccount \<Rightarrow> instant \<Rightarrow> asset_ids \<Rightarrow> AssetType list \<Rightarrow> NormalizedAsset list \<Rightarrow> db \<Rightarrow>
     aws_exn + (int \<times> int \<times> int) \<times> db" where
  "upsert isoformat account at new_id asset_types items d =
     (if get_row acc_id (acc_id account) (aws_accounts d) = None then Inl OtherException
      else
        case upsert_items isoformat account at new_id (assets d) items (assets d, 0, 0) of
          (rows, created, updated) \<Rightarrow>
            let seen = map (\<lambda>item. (nz_asset_type item, nz_resource_id item)) items;
                missing = missing_assets (acc_id account) asset_types seen (assets d);
                rows' = deactivate_missing missing rows
            in if keys_distinct as_id rows' \<and> asset_unique rows' \<and> list_all asset_seen_order rows' then
                 Inr ((created, updated, int (length missing)), d\<lparr>assets := rows'\<rparr>)
               else Inl OtherException)"

section \<open>The orchestrator\<close>

definition discovery_constraints :: "DiscoveryJob \<Rightarrow> bool" where
  "discovery_constraints j =
     (0 \<le> dj_assets_discovered j \<and> 0 \<le> dj_assets_created j \<and> 0 \<le> dj_assets_updated j \<and>
      0 \<le> dj_assets_deactivated j \<and>
      (case dj_status j of
         DiscoveryJobStatus.PENDING \<Rightarrow> dj_finished_at j = None
       | DiscoveryJobStatus.RUNNING \<Rightarrow> dj_started_at j \<noteq> None \<and> dj_finished_at j = None
       | DiscoveryJobStatus.COMPLETED \<Rightarrow>
           dj_started_at j \<noteq> None \<and> dj_finished_at j \<noteq> None \<and> dj_error_summary j \<in> {None, Some []}
       | DiscoveryJobStatus.PARTIALLY_COMPLETED \<Rightarrow> dj_started_at j \<noteq> None \<and> dj_finished_at j \<noteq> None
       | DiscoveryJobStatus.FAILED \<Rightarrow> dj_started_at j \<noteq> None \<and> dj_finished_at j \<noteq> None))"

definition discovery_active :: "DiscoveryJob \<Rightarrow> bool" where
  "discovery_active j = (dj_status j \<in> {DiscoveryJobStatus.PENDING, DiscoveryJobStatus.RUNNING})"

text \<open>\<^verbatim>\<open>uq_active_discovery_job_account\<close>.\<close>

definition discovery_unique :: "DiscoveryJob list \<Rightarrow> bool" where
  "discovery_unique rows = unique_on discovery_active dj_aws_account_id rows"

definition active_discovery :: "uuid \<Rightarrow> db \<Rightarrow> DiscoveryJob option" where
  "active_discovery account_id d =
     find (\<lambda>j. dj_aws_account_id j = account_id \<and> discovery_active j) (discovery_jobs d)"

definition insert_discovery :: "DiscoveryJob \<Rightarrow> db \<Rightarrow> exn + db" where
  "insert_discovery job d =
     (let rows = discovery_jobs d @ [job] in
      if discovery_constraints job \<and> keys_distinct dj_id rows \<and> discovery_unique rows then
        Inr (d\<lparr>discovery_jobs := rows\<rparr>)
      else Inl IntegrityError)"

definition flush_discovery :: "DiscoveryJob \<Rightarrow> db \<Rightarrow> exn + db" where
  "flush_discovery job d =
     (let rows = put_row dj_id job (discovery_jobs d) in
      if discovery_constraints job \<and> discovery_unique rows then Inr (d\<lparr>discovery_jobs := rows\<rparr>)
      else Inl IntegrityError)"

definition error_summary_of :: "(string \<times> string) list \<Rightarrow> string option" where
  "error_summary_of errors =
     (let s = take 2000 (intercalate ''; '' (map (\<lambda>(key, v). key @ '':'' @ v) (sort_key fst errors)))
      in if s = [] then None else Some s)"

definition finish_discovery ::
    "uuid \<Rightarrow> uuid \<Rightarrow> DiscoveryJobStatus \<Rightarrow> (string \<times> string) list \<Rightarrow> instant \<Rightarrow> db \<Rightarrow> (db, DiscoveryJob) outcome" where
  "finish_discovery job_id actor status errors now d =
     (case get_row dj_id job_id (discovery_jobs d) of
        None \<Rightarrow> raise (NotFoundError ''discovery_job_not_found'') d
      | Some job \<Rightarrow>
          if dj_status job \<noteq> DiscoveryJobStatus.RUNNING then raise (ConflictError ''discovery_job_not_running'') d
          else
            let job' = job\<lparr>dj_status := status, dj_finished_at := Some now, dj_error_summary := error_summary_of errors\<rparr>;
                event = (if status = DiscoveryJobStatus.COMPLETED then ''aws.discovery.completed''
                         else if status = DiscoveryJobStatus.PARTIALLY_COMPLETED then
                           ''aws.discovery.partially_completed''
                         else ''aws.discovery.failed'')
            in (case flush_discovery job' d of
                  Inl e \<Rightarrow> raise e d
                | Inr d' \<Rightarrow>
                    return job'
                      (record_audit event ''discovery_job''
                         (if status = DiscoveryJobStatus.FAILED then AuditResult.FAILED else AuditResult.SUCCEEDED)
                         (Some (dj_organization_id job)) (Some actor) (Some job_id) d')))"

text \<open>
  One pass of the loop over the collectors. A success is committed with the counters of the job;
  a failure rolls back what the collector wrote and reads the job again. The readings of the
  clock and the fresh identifiers are drawn by collector name.
\<close>

record DiscoveryClock =
  dk_started :: instant
  dk_upserted :: "string \<Rightarrow> instant"
  dk_asset_ids :: "string \<Rightarrow> asset_ids"
  dk_finished :: instant

record DiscoveryState =
  ds_job :: DiscoveryJob
  ds_errors :: "(string \<times> string) list"
  ds_successes :: nat
  ds_db :: db

definition count_assets :: "nat \<Rightarrow> int \<times> int \<times> int \<Rightarrow> DiscoveryJob \<Rightarrow> DiscoveryJob" where
  "count_assets discovered tally job =
     job\<lparr>dj_assets_discovered := dj_assets_discovered job + int discovered,
         dj_assets_created := dj_assets_created job + fst tally,
         dj_assets_updated := dj_assets_updated job + fst (snd tally),
         dj_assets_deactivated := dj_assets_deactivated job + snd (snd tally)\<rparr>"

definition collector_failed :: "string \<Rightarrow> aws_exn \<Rightarrow> DiscoveryState \<Rightarrow> exn + DiscoveryState" where
  "collector_failed name e s =
     (case get_row dj_id (dj_id (ds_job s)) (discovery_jobs (ds_db s)) of
        None \<Rightarrow> Inl AssertionError
      | Some job \<Rightarrow> Inr (s\<lparr>ds_job := job, ds_errors := AList.update name (safe_aws_error e) (ds_errors s)\<rparr>))"

definition run_collector ::
    "(string \<Rightarrow> string option) \<Rightarrow> AWSAccount \<Rightarrow> DiscoveryClock \<Rightarrow> DiscoveryCollector \<Rightarrow> DiscoveryState \<Rightarrow>
     exn + DiscoveryState" where
  "run_collector isoformat account clock c s =
     (let name = dc_name c in
      case dc_discover c (acc_account_id account) of
        Inl e \<Rightarrow> collector_failed name e s
      | Inr items \<Rightarrow>
          (case upsert isoformat account (dk_upserted clock name) (dk_asset_ids clock name) (dc_asset_types c) items
                  (ds_db s) of
             Inl e \<Rightarrow> collector_failed name e s
           | Inr (tally, d) \<Rightarrow>
               let job = count_assets (length items) tally (ds_job s) in
               (case flush_discovery job d of
                  Inl e \<Rightarrow> collector_failed name OtherException s
                | Inr d' \<Rightarrow> Inr (s\<lparr>ds_job := job, ds_successes := ds_successes s + 1, ds_db := d'\<rparr>))))"

fun run_collectors ::
    "(string \<Rightarrow> string option) \<Rightarrow> AWSAccount \<Rightarrow> DiscoveryClock \<Rightarrow> DiscoveryCollector list \<Rightarrow> DiscoveryState \<Rightarrow>
     exn + DiscoveryState" where
  "run_collectors isoformat account clock [] s = Inr s"
| "run_collectors isoformat account clock (c # cs) s =
     (case run_collector isoformat account clock c s of
        Inl e \<Rightarrow> Inl e
      | Inr s' \<Rightarrow> run_collectors isoformat account clock cs s')"

definition discovery_result :: "DiscoveryState \<Rightarrow> DiscoveryJobStatus" where
  "discovery_result s =
     (if ds_errors s = [] then DiscoveryJobStatus.COMPLETED
      else if ds_successes s \<noteq> 0 then DiscoveryJobStatus.PARTIALLY_COMPLETED
      else DiscoveryJobStatus.FAILED)"

definition begin_discovery :: "uuid \<Rightarrow> uuid \<Rightarrow> instant \<Rightarrow> db \<Rightarrow> (db, DiscoveryJob \<times> AWSAccount) outcome" where
  "begin_discovery job_id actor now d =
     (case get_row dj_id job_id (discovery_jobs d) of
        None \<Rightarrow> raise (NotFoundError ''discovery_job_not_found'') d
      | Some job \<Rightarrow>
          if dj_status job \<noteq> DiscoveryJobStatus.PENDING then raise (ConflictError ''discovery_job_not_pending'') d
          else
            (case get_row acc_id (dj_aws_account_id job) (aws_accounts d) of
               None \<Rightarrow> raise (NotFoundError ''aws_account_not_found'') d
             | Some account \<Rightarrow>
                 let job' = job\<lparr>dj_status := DiscoveryJobStatus.RUNNING, dj_started_at := Some now\<rparr> in
                 (case flush_discovery job' d of
                    Inl e \<Rightarrow> raise e d
                  | Inr d' \<Rightarrow>
                      return (job', account)
                        (record_audit ''aws.discovery.started'' ''discovery_job'' AuditResult.SUCCEEDED
                           (Some (dj_organization_id job)) (Some actor) (Some job_id) d'))))"

text \<open>
  \<open>connect\<close> stands for the client factory of the account: the collectors over its clients, or
  the error of building it.
\<close>

definition run_discovery ::
    "(string \<Rightarrow> string option) \<Rightarrow> (AWSAccount \<Rightarrow> aws_exn + DiscoveryCollector list) \<Rightarrow> DiscoveryClock \<Rightarrow> uuid \<Rightarrow> uuid \<Rightarrow>
     db \<Rightarrow> (db, DiscoveryJob) outcome" where
  "run_discovery isoformat connect clock job_id actor d =
     (case begin_discovery job_id actor (dk_started clock) d of
        (Inl e, d') \<Rightarrow> raise e d'
      | (Inr (job, account), d1) \<Rightarrow>
          (case connect account of
             Inl e \<Rightarrow>
               finish_discovery job_id actor DiscoveryJobStatus.FAILED [(''sts'', safe_aws_error e)] (dk_finished clock) d1
           | Inr services \<Rightarrow>
               (case run_collectors isoformat account clock services
                       \<lparr>ds_job = job, ds_errors = [], ds_successes = 0, ds_db = d1\<rparr> of
                  Inl e \<Rightarrow> raise e d1
                | Inr s \<Rightarrow>
                    finish_discovery job_id actor (discovery_result s) (ds_errors s) (dk_finished clock) (ds_db s))))"

definition new_discovery :: "AWSAccount \<Rightarrow> uuid \<Rightarrow> uuid \<Rightarrow> DiscoveryJob" where
  "new_discovery account actor new_id =
     \<lparr>dj_id = new_id, dj_organization_id = acc_organization_id account, dj_aws_account_id = acc_id account,
      dj_status = DiscoveryJobStatus.PENDING, dj_started_by_user_id = actor, dj_started_at = None,
      dj_finished_at = None, dj_assets_discovered = 0, dj_assets_created = 0, dj_assets_updated = 0,
      dj_assets_deactivated = 0, dj_error_summary = None\<rparr>"

definition start_discovery ::
    "(string \<Rightarrow> string option) \<Rightarrow> (AWSAccount \<Rightarrow> aws_exn + DiscoveryCollector list) \<Rightarrow> DiscoveryClock \<Rightarrow> uuid \<Rightarrow> uuid \<Rightarrow>
     uuid \<Rightarrow> db \<Rightarrow> (db, DiscoveryJob) outcome" where
  "start_discovery isoformat connect clock account_id actor new_id d =
     (case get_row acc_id account_id (aws_accounts d) of
        None \<Rightarrow> raise (NotFoundError ''aws_account_not_found'') d
      | Some account \<Rightarrow>
          (case require_capability (acc_organization_id account) actor DISCOVERY_START d of
             Inl e \<Rightarrow> raise e d
           | Inr _ \<Rightarrow>
               if acc_connection_status account \<noteq> AWSAccountStatus.CONNECTED then
                 raise (ConflictError ''aws_account_not_connected'') d
               else if active_discovery account_id d \<noteq> None then
                 raise (ConflictError ''discovery_already_running'') d
               else
                 (case insert_discovery (new_discovery account actor new_id) d of
                    Inl e \<Rightarrow> raise (ConflictError ''discovery_already_running'') d
                  | Inr d' \<Rightarrow> run_discovery isoformat connect clock new_id actor d')))"

text \<open>The endpoint only queues the discovery; \<open>manual_id\<close> is its fresh idempotency key.\<close>

definition request_discovery ::
    "uuid \<Rightarrow> uuid \<Rightarrow> uuid \<Rightarrow> uuid \<Rightarrow> uuid \<Rightarrow> instant \<Rightarrow> db \<Rightarrow> (db, PlatformJob) outcome" where
  "request_discovery account_id user manual_id new_id new_correlation now d =
     (case aws_account_for_user account_id user d of
        None \<Rightarrow> raise (NotFoundError ''aws_account_not_found'') d
      | Some (account, m) \<Rightarrow>
          if \<not> role_has_capability (m_role m) DISCOVERY_START then raise (ForbiddenError ''forbidden'') d
          else if acc_connection_status account \<noteq> AWSAccountStatus.CONNECTED then
            raise (ConflictError ''aws_account_not_connected'') d
          else
            (case enqueue
                    ((enqueue_args (acc_organization_id account) PlatformJobType.DISCOVERY (acc_id account)
                        (''manual-discovery:'' @ uuid_str manual_id))
                     \<lparr>eq_payload := Some
                        [(''actor_user_id'', JStr (uuid_str user)), (''account_id'', JStr (uuid_str (acc_id account)))],
                      eq_actor_user_id := Some user\<rparr>)
                    new_id new_correlation now d of
               (Inl e, d') \<Rightarrow> raise e d
             | (Inr (job, created), d') \<Rightarrow> return job d'))"

section \<open>Pagination ends\<close>

definition page_items :: "(string option \<Rightarrow> aws_exn + page) \<Rightarrow> string option \<Rightarrow> aws_exn + json list" where
  "page_items call token = (case call token of Inl e \<Rightarrow> Inl e | Inr (results, _) \<Rightarrow> Inr results)"

lemma paginate_stop:
  assumes "\<And>results t. call token = Inr (results, Some t) \<Longrightarrow> t = [] \<or> t \<in> set seen"
  shows "paginate_from call token seen items = Some (map_sum id (\<lambda>xs. items @ xs) (collect (page_items call) [token]))"
proof (cases "call token")
  case (Inl e)
  then show ?thesis by (simp add: paginate_from.simps [of call token] page_items_def)
next
  case (Inr r)
  then obtain results n where r: "call token = Inr (results, n)" by (cases r) auto
  then show ?thesis
    using assms by (cases n) (auto simp: paginate_from.simps [of call token] page_items_def)
qed

lemma paginate_go:
  assumes "call token = Inr (results, Some t)" and "t \<noteq> []" and "t \<notin> set seen"
    and "paginate_from call (Some t) (t # seen) (items @ results) =
           Some (map_sum id (\<lambda>xs. (items @ results) @ xs) (collect (page_items call) (Some t # tokens)))"
  shows "paginate_from call token seen items =
           Some (map_sum id (\<lambda>xs. items @ xs) (collect (page_items call) (token # Some t # tokens)))"
proof -
  have go: "paginate_from call token seen items = paginate_from call (Some t) (t # seen) (items @ results)"
    using assms(1-3) by (simp add: paginate_from.simps [of call token])
  have p: "page_items call token = Inr results" using assms(1) by (simp add: page_items_def)
  have c: "collect (page_items call) (token # ts) =
      (case collect (page_items call) ts of Inl e \<Rightarrow> Inl e | Inr zs \<Rightarrow> Inr (results @ zs))" for ts
    using p by simp
  show ?thesis
    unfolding go assms(4) c [of "Some t # tokens"] by (cases "collect (page_items call) (Some t # tokens)") auto
qed

text \<open>The tokens still unseen are the measure of the loop.\<close>

lemma paginate_from_ends:
  assumes "finite T" and "\<And>token results t. call token = Inr (results, Some t) \<Longrightarrow> t \<in> T"
  shows "\<exists>tokens. paginate_from call token seen items =
             Some (map_sum id (\<lambda>xs. items @ xs) (collect (page_items call) (token # tokens))) \<and>
           distinct tokens \<and> set tokens \<inter> Some ` set seen = {} \<and> None \<notin> set tokens \<and>
           length tokens \<le> card (T - set seen)"
proof (induction "card (T - set seen)" arbitrary: token seen items rule: less_induct)
  case less
  show ?case
  proof (cases "\<exists>results t. call token = Inr (results, Some t) \<and> t \<noteq> [] \<and> t \<notin> set seen")
    case False
    then have "paginate_from call token seen items =
        Some (map_sum id (\<lambda>xs. items @ xs) (collect (page_items call) [token]))"
      by (intro paginate_stop) blast
    then show ?thesis by (intro exI [of _ "[]"]) simp
  next
    case True
    then obtain results t where t: "call token = Inr (results, Some t)" "t \<noteq> []" "t \<notin> set seen" by blast
    have T: "t \<in> T - set seen" using assms(2) t by blast
    have less_card: "card (T - set (t # seen)) < card (T - set seen)"
      by (rule psubset_card_mono) (use assms(1) T in auto)
    obtain tokens where ih: "paginate_from call (Some t) (t # seen) (items @ results) =
          Some (map_sum id (\<lambda>xs. (items @ results) @ xs) (collect (page_items call) (Some t # tokens)))"
        "distinct tokens" "set tokens \<inter> Some ` set (t # seen) = {}" "None \<notin> set tokens"
        "length tokens \<le> card (T - set (t # seen))"
      using less [OF less_card] by blast
    from paginate_go [OF t ih(1)] ih(2-5) less_card t(3) show ?thesis
      by (intro exI [of _ "Some t # tokens"]) auto
  qed
qed

text \<open>
  C28. Pagination without a paginator ends whenever the service draws its continuation tokens from
  a finite set, after at most one request more than there are tokens: no token is sent twice, and
  the result is the items of the requested pages in order, or the first error.
\<close>

theorem pagination_ends:
  assumes "finite T" and "\<And>token results t. call token = Inr (results, Some t) \<Longrightarrow> t \<in> T"
  shows "\<exists>tokens. paginated_items call = Some (collect (page_items call) (None # tokens)) \<and>
           distinct (None # tokens) \<and> length (None # tokens) \<le> card T + 1"
proof -
  have "\<exists>tokens. paginate_from call None [] [] =
             Some (map_sum id (\<lambda>xs. [] @ xs) (collect (page_items call) (None # tokens))) \<and>
           distinct tokens \<and> set tokens \<inter> Some ` set [] = {} \<and> None \<notin> set tokens \<and>
           length tokens \<le> card (T - set [])"
    by (rule paginate_from_ends) (use assms in blast)+
  then obtain tokens where t: "paginate_from call None [] [] =
        Some (map_sum id (\<lambda>xs. [] @ xs) (collect (page_items call) (None # tokens)))"
      "distinct tokens" "None \<notin> set tokens" "length tokens \<le> card (T - set [])"
    by blast
  have same: "map_sum id (\<lambda>xs. [] @ xs) r = r" for r :: "aws_exn + json list" by (cases r) auto
  show ?thesis using t unfolding paginated_items_def same by (intro exI [of _ tokens]) simp
qed

theorem pagination_ends_witness:
  "\<exists>tokens. paginated_items (\<lambda>token. Inr ([], Some ''again'')) =
      Some (collect (page_items (\<lambda>token. Inr ([], Some ''again''))) (None # tokens)) \<and>
    distinct (None # tokens) \<and> length (None # tokens) \<le> card {''again''} + 1"
  by (rule pagination_ends) simp_all

section \<open>What a stored inventory holds\<close>

definition asset_identity :: "Asset \<Rightarrow> AssetType \<times> string" where
  "asset_identity a = (as_asset_type a, as_resource_id a)"

definition item_identity :: "NormalizedAsset \<Rightarrow> AssetType \<times> string" where
  "item_identity item = (nz_asset_type item, nz_resource_id item)"

text \<open>The columns of an asset that no later discovery changes.\<close>

definition same_asset :: "Asset \<Rightarrow> Asset \<Rightarrow> bool" where
  "same_asset a b =
     (as_id b = as_id a \<and> as_organization_id b = as_organization_id a \<and> as_aws_account_id b = as_aws_account_id a \<and>
      asset_identity b = asset_identity a \<and> as_first_seen_at b = as_first_seen_at a)"

lemma same_asset_refl [simp]: "same_asset a a" by (simp add: same_asset_def)

lemma same_asset_trans: "same_asset a b \<Longrightarrow> same_asset b c \<Longrightarrow> same_asset a c" by (simp add: same_asset_def)

lemma refresh_asset_same [simp]:
  "same_asset b (refresh_asset f item at a) = same_asset b a"
  "as_id (refresh_asset f item at a) = as_id a"
  "as_aws_account_id (refresh_asset f item at a) = as_aws_account_id a"
  "asset_identity (refresh_asset f item at a) = asset_identity a"
  "refresh_asset f item at (refresh_asset f item at a) = refresh_asset f item at a"
  "as_is_active (refresh_asset f item at a)"
  by (simp_all add: refresh_asset_def same_asset_def asset_identity_def)

lemma new_asset_fields [simp]:
  "as_id (new_asset account item at i) = i" "as_aws_account_id (new_asset account item at i) = acc_id account"
  "asset_identity (new_asset account item at i) = item_identity item"
  by (simp_all add: new_asset_def asset_identity_def item_identity_def)

text \<open>An asset holds what an item says of it at a time.\<close>

definition describes :: "(string \<Rightarrow> string option) \<Rightarrow> instant \<Rightarrow> NormalizedAsset \<Rightarrow> Asset \<Rightarrow> bool" where
  "describes isoformat at item a = (item_identity item = asset_identity a \<and> refresh_asset isoformat item at a = a)"

text \<open>The rows of the session after some items, over the rows persisted before.\<close>

definition upserted ::
    "(string \<Rightarrow> string option) \<Rightarrow> uuid \<Rightarrow> instant \<Rightarrow> Asset list \<Rightarrow> NormalizedAsset list \<Rightarrow> Asset list \<Rightarrow> bool" where
  "upserted isoformat account_id at persisted items rows =
     ((\<forall>a \<in> set rows.
         a \<in> set persisted \<and> (as_aws_account_id a = account_id \<longrightarrow> asset_identity a \<notin> item_identity ` set items) \<or>
         as_aws_account_id a = account_id \<and> (\<exists>item \<in> set items. describes isoformat at item a)) \<and>
      (\<forall>item \<in> set items. \<exists>a \<in> set rows. as_aws_account_id a = account_id \<and> asset_identity a = item_identity item) \<and>
      (\<forall>a \<in> set persisted. \<exists>b \<in> set rows. same_asset a b))"

lemma upserted_Nil: "upserted f account_id at persisted [] persisted"
  by (auto simp: upserted_def intro: same_asset_refl)

lemma by_identity_Some:
  "by_identity account_id t r rows = Some a \<Longrightarrow>
     a \<in> set rows \<and> as_aws_account_id a = account_id \<and> asset_identity a = (t, r)"
  by (auto simp: by_identity_def asset_identity_def dest!: find_mem)

lemma by_identity_None:
  "by_identity account_id t r rows = None \<longleftrightarrow>
     (\<forall>a \<in> set rows. as_aws_account_id a = account_id \<longrightarrow> asset_identity a \<noteq> (t, r))"
  by (auto simp: by_identity_def asset_identity_def find_None_iff)

lemma upserted_new:
  assumes "upserted f (acc_id account) at persisted items rows"
    and "by_identity (acc_id account) (nz_asset_type item) (nz_resource_id item) persisted = None"
  shows "upserted f (acc_id account) at persisted (items @ [item])
           (rows @ [refresh_asset f item at (new_asset account item at i)])"
proof -
  let ?n = "refresh_asset f item at (new_asset account item at i)"
  note u = assms(1) [unfolded upserted_def]
  have absent: "asset_identity a \<noteq> item_identity item" if "a \<in> set persisted" "as_aws_account_id a = acc_id account" for a
    using assms(2) that by (simp add: by_identity_None item_identity_def)
  have n: "describes f at item ?n" "as_aws_account_id ?n = acc_id account" "asset_identity ?n = item_identity item"
    by (simp_all add: describes_def)
  show ?thesis
    unfolding upserted_def
  proof (intro conjI ballI)
    fix a assume "a \<in> set (rows @ [?n])"
    then show "a \<in> set persisted \<and> (as_aws_account_id a = acc_id account \<longrightarrow>
          asset_identity a \<notin> item_identity ` set (items @ [item])) \<or>
        as_aws_account_id a = acc_id account \<and> (\<exists>x \<in> set (items @ [item]). describes f at x a)"
      using u n absent by auto
  next
    fix x assume "x \<in> set (items @ [item])"
    then show "\<exists>a \<in> set (rows @ [?n]). as_aws_account_id a = acc_id account \<and> asset_identity a = item_identity x"
      using u n by auto
  next
    fix a assume "a \<in> set persisted"
    then show "\<exists>b \<in> set (rows @ [?n]). same_asset a b" using u by auto
  qed
qed

lemma keys_distinct_eq: "keys_distinct key rows \<Longrightarrow> a \<in> set rows \<Longrightarrow> b \<in> set rows \<Longrightarrow> key a = key b \<Longrightarrow> a = b"
  by (auto simp: keys_distinct_def distinct_map inj_on_def)

lemma asset_unique_eq:
  assumes "asset_unique rows" and "a \<in> set rows" and "b \<in> set rows"
    and "as_aws_account_id a = as_aws_account_id b" and "asset_identity a = asset_identity b"
  shows "a = b"
  using unique_onD [OF assms(1) [unfolded asset_unique_def] assms(2,3)] assms(4,5) by (simp add: asset_identity_def)

lemma upserted_old:
  assumes u: "upserted f account_id at persisted items rows" and k: "keys_distinct as_id rows"
    and q: "asset_unique persisted"
    and "by_identity account_id (nz_asset_type item) (nz_resource_id item) persisted = Some p"
  shows "upserted f account_id at persisted (items @ [item]) (put_row as_id (refresh_asset f item at p) rows)"
proof -
  let ?r = "refresh_asset f item at p"
  let ?rows = "put_row as_id ?r rows"
  note u = u [unfolded upserted_def]
  note p = by_identity_Some [OF assms(4)]
  obtain b where b: "b \<in> set rows" "same_asset p b" using u p by blast
  have r: "describes f at item ?r" "as_aws_account_id ?r = account_id" "asset_identity ?r = item_identity item"
    using p by (simp_all add: describes_def item_identity_def)
  have mem: "?r \<in> set ?rows" using b by (intro in_put_row_same [of b]) (simp_all add: same_asset_def)
  have keep: "a \<in> set ?rows \<or> a = b" if "a \<in> set rows" for a
    using in_put_row_other [OF that, of as_id ?r] keys_distinct_eq [OF k that b(1)] b(2) by (auto simp: same_asset_def)
  have old: "a = ?r \<or> a \<in> set rows \<and> as_id a \<noteq> as_id b" if "a \<in> set ?rows" for a
    using set_put_row [OF that] b(2) by (auto simp: same_asset_def)
  have same_b: "as_aws_account_id b = account_id" "asset_identity b = item_identity item"
    using b(2) p by (simp_all add: same_asset_def item_identity_def)
  have other: "asset_identity a \<noteq> item_identity item"
    if "a \<in> set persisted" "a \<in> set rows" "as_aws_account_id a = account_id" "as_id a \<noteq> as_id b" for a
    using asset_unique_eq [OF q that(1), of p] p that(3,4) b(2) by (auto simp: same_asset_def item_identity_def)
  show ?thesis
    unfolding upserted_def
  proof (intro conjI ballI)
    fix a assume "a \<in> set ?rows"
    then show "a \<in> set persisted \<and> (as_aws_account_id a = account_id \<longrightarrow>
          asset_identity a \<notin> item_identity ` set (items @ [item])) \<or>
        as_aws_account_id a = account_id \<and> (\<exists>x \<in> set (items @ [item]). describes f at x a)"
      using old u r other by (cases "a = ?r") auto
  next
    fix x assume "x \<in> set (items @ [item])"
    then consider "x = item" | a where "a \<in> set rows" "as_aws_account_id a = account_id" "asset_identity a = item_identity x"
      using u by auto
    then show "\<exists>a \<in> set ?rows. as_aws_account_id a = account_id \<and> asset_identity a = item_identity x"
    proof cases
      case 1
      then show ?thesis using r mem by blast
    next
      case 2
      have "asset_identity ?r = item_identity x" if "a = b" using that 2(3) same_b(2) r(3) by metis
      with 2 keep [OF 2(1)] r(2) mem show ?thesis by blast
    qed
  next
    fix a assume "a \<in> set persisted"
    then obtain c where "c \<in> set rows" "same_asset a c" using u by blast
    moreover have "same_asset a ?r" if "same_asset a b"
      using that b(2) unfolding refresh_asset_same(1) by (simp add: same_asset_def)
    ultimately show "\<exists>b \<in> set ?rows. same_asset a b" using keep [of c] mem by blast
  qed
qed

lemma upsert_items_ids:
  "\<exists>ids. map as_id (fst (upsert_items f account at new_id persisted items (rows, c, u))) = map as_id rows @ ids \<and>
     length ids + u' = length items \<and>
     snd (upsert_items f account at new_id persisted items (rows, c, u)) = (c + int (length ids), u + int u')"
  if "u' = length (filter (\<lambda>item. by_identity (acc_id account) (nz_asset_type item) (nz_resource_id item) persisted \<noteq> None) items)"
  for u'
  using that
proof (induction items arbitrary: rows c u u')
  case Nil
  then show ?case by simp
next
  case (Cons item items)
  let ?find = "\<lambda>item. by_identity (acc_id account) (nz_asset_type item) (nz_resource_id item) persisted"
  show ?case
  proof (cases "?find item")
    case None
    let ?row = "refresh_asset f item at (new_asset account item at (new_id c))"
    obtain ids where "map as_id (fst (upsert_items f account at new_id persisted items (rows @ [?row], c + 1, u))) =
          map as_id (rows @ [?row]) @ ids" "length ids + u' = length items"
        "snd (upsert_items f account at new_id persisted items (rows @ [?row], c + 1, u)) = (c + 1 + int (length ids), u + int u')"
      using Cons.IH [of u' "rows @ [?row]" "c + 1" u] Cons.prems None by auto
    with None show ?thesis by (intro exI [of _ "as_id ?row # ids"]) simp
  next
    case (Some a)
    let ?rows = "put_row as_id (refresh_asset f item at a) rows"
    from Cons.prems Some obtain n where n: "u' = Suc n" "n = length (filter (\<lambda>item. ?find item \<noteq> None) items)" by simp
    obtain ids where "map as_id (fst (upsert_items f account at new_id persisted items (?rows, c, u + 1))) =
          map as_id ?rows @ ids" "length ids + n = length items"
        "snd (upsert_items f account at new_id persisted items (?rows, c, u + 1)) = (c + int (length ids), u + 1 + int n)"
      using Cons.IH [of n ?rows c "u + 1"] n(2) by auto
    with Some n(1) show ?thesis by (intro exI [of _ ids]) simp
  qed
qed

lemma upsert_items_keys:
  assumes "keys_distinct as_id (fst (upsert_items f account at new_id persisted items (rows, c, u)))"
  shows "keys_distinct as_id rows"
  using assms upsert_items_ids [OF refl, of f account at new_id persisted items rows c u] by (auto simp: keys_distinct_def)

lemma upsert_items_upserted:
  assumes "asset_unique persisted"
    and "keys_distinct as_id (fst (upsert_items f account at new_id persisted items (rows, c, u)))"
    and "upserted f (acc_id account) at persisted done rows"
  shows "upserted f (acc_id account) at persisted (done @ items)
           (fst (upsert_items f account at new_id persisted items (rows, c, u)))"
  using assms(2,3)
proof (induction items arbitrary: rows c u "done")
  case Nil
  then show ?case by simp
next
  case (Cons item items)
  show ?case
  proof (cases "by_identity (acc_id account) (nz_asset_type item) (nz_resource_id item) persisted")
    case None
    then show ?thesis using Cons.IH [OF _ upserted_new [OF Cons.prems(2) None]] Cons.prems(1) by simp
  next
    case (Some a)
    have "keys_distinct as_id rows"
      using upsert_items_keys [OF Cons.prems(1)] .
    from Cons.IH [OF _ upserted_old [OF Cons.prems(2) this assms(1) Some]] Cons.prems(1) Some show ?thesis by simp
  qed
qed

text \<open>The resources of a type that an account is known to have.\<close>

definition inventory :: "db \<Rightarrow> uuid \<Rightarrow> AssetType \<Rightarrow> string set" where
  "inventory d account_id t =
     {as_resource_id a | a. a \<in> set (assets d) \<and> as_aws_account_id a = account_id \<and> as_asset_type a = t \<and> as_is_active a}"

definition discovered :: "NormalizedAsset list \<Rightarrow> AssetType \<Rightarrow> string set" where
  "discovered items t = nz_resource_id ` {item \<in> set items. nz_asset_type item = t}"

definition assets_ok :: "db \<Rightarrow> bool" where
  "assets_ok d = (keys_distinct as_id (assets d) \<and> asset_unique (assets d))"

lemma upsert_Inr:
  assumes "upsert f account at new_id types items d = Inr (tally, d')" and "assets_ok d"
  obtains rows where
    "upserted f (acc_id account) at (assets d) items rows" and "keys_distinct as_id rows"
    and "d' = d\<lparr>assets := deactivate_missing (missing_assets (acc_id account) types (map item_identity items) (assets d)) rows\<rparr>"
    and "assets_ok d'" and "list_all asset_seen_order (assets d')"
    and "int (length rows) = int (length (assets d)) + fst tally"
    and "fst tally + fst (snd tally) = int (length items)"
    and "snd (snd tally) = int (length (missing_assets (acc_id account) types (map item_identity items) (assets d)))"
    and "0 \<le> fst tally" and "0 \<le> fst (snd tally)"
proof -
  obtain rows c u where r: "upsert_items f account at new_id (assets d) items (assets d, 0, 0) = (rows, c, u)"
    by (metis prod_cases3)
  have seen: "map (\<lambda>item. (nz_asset_type item, nz_resource_id item)) items = map item_identity items"
    by (simp add: item_identity_def)
  let ?m = "missing_assets (acc_id account) types (map item_identity items) (assets d)"
  have d: "keys_distinct as_id (deactivate_missing ?m rows)" "asset_unique (deactivate_missing ?m rows)"
      "list_all asset_seen_order (deactivate_missing ?m rows)"
      "tally = (c, u, int (length ?m))" "d' = d\<lparr>assets := deactivate_missing ?m rows\<rparr>"
    using assms(1) unfolding upsert_def r seen by (auto simp: Let_def split: if_splits)
  have "map as_id (deactivate_missing ?m rows) = map as_id rows" by (simp add: deactivate_missing_def)
  with d(1) have k: "keys_distinct as_id rows" by (simp add: keys_distinct_def)
  have "upserted f (acc_id account) at (assets d) ([] @ items)
          (fst (upsert_items f account at new_id (assets d) items (assets d, 0, 0)))"
    by (rule upsert_items_upserted) (use assms(2) k r in \<open>auto simp: assets_ok_def intro: upserted_Nil\<close>)
  then have u: "upserted f (acc_id account) at (assets d) items rows" by (simp add: r)
  obtain ids n where ids: "map as_id rows = map as_id (assets d) @ ids" "length ids + n = length items"
      "c = int (length ids)" "u = int n"
    using upsert_items_ids [OF refl, of f account at new_id "assets d" items "assets d" 0 0] by (auto simp: r)
  have "length rows = length (assets d) + length ids" using arg_cong [OF ids(1), of length] by simp
  with ids show thesis
    using d k u by (intro that [of rows]) (auto simp: assets_ok_def)
qed

lemma deactivate_missing_mem:
  "a \<in> set (deactivate_missing missing rows) \<longleftrightarrow>
     (\<exists>b \<in> set rows. a = (if b \<in> set missing then b\<lparr>as_is_active := False\<rparr> else b))"
  by (auto simp: deactivate_missing_def)

lemma upsert_inventory:
  assumes "upsert f account at new_id types items d = Inr (tally, d')" and "assets_ok d"
  shows "inventory d' (acc_id account) t =
           (if t \<in> set types then discovered items t else inventory d (acc_id account) t \<union> discovered items t)"
    and "account_id \<noteq> acc_id account \<Longrightarrow> inventory d' account_id t = inventory d account_id t"
    and "a \<in> set (assets d) \<Longrightarrow> \<exists>b \<in> set (assets d'). same_asset a b"
    and "a \<in> set (assets d') \<Longrightarrow> as_aws_account_id a = acc_id account \<Longrightarrow> as_is_active a \<Longrightarrow> as_asset_type a \<in> set types \<Longrightarrow>
           \<exists>item \<in> set items. describes f at item a"
proof -
  obtain rows where rows: "upserted f (acc_id account) at (assets d) items rows"
      "d' = d\<lparr>assets := deactivate_missing (missing_assets (acc_id account) types (map item_identity items) (assets d)) rows\<rparr>"
    using upsert_Inr [OF assms] by blast
  let ?m = "missing_assets (acc_id account) types (map item_identity items) (assets d)"
  note u = rows(1) [unfolded upserted_def]
  have assets: "assets d' = deactivate_missing ?m rows" using rows(2) by simp
  have m: "b \<in> set ?m \<longleftrightarrow> b \<in> set (assets d) \<and> as_aws_account_id b = acc_id account \<and> as_asset_type b \<in> set types \<and>
      as_is_active b \<and> asset_identity b \<notin> item_identity ` set items" for b
    by (auto simp: missing_assets_def asset_identity_def)
  have act: "(a \<in> set (assets d') \<and> as_is_active a) \<longleftrightarrow> (a \<in> set rows \<and> a \<notin> set ?m \<and> as_is_active a)" for a
    unfolding assets deactivate_missing_mem by (auto split: if_splits dest: arg_cong [of _ _ as_is_active])
  have row: "a \<in> set (assets d) \<and> (as_aws_account_id a = acc_id account \<longrightarrow> asset_identity a \<notin> item_identity ` set items) \<or>
      as_aws_account_id a = acc_id account \<and> (\<exists>item \<in> set items. describes f at item a)" if "a \<in> set rows" for a
    using u that by blast
  have persists: "\<exists>b \<in> set rows. same_asset a b" if "a \<in> set (assets d)" for a
    using u that by simp
  have kept: "a \<in> set rows" if "a \<in> set (assets d)"
    "as_aws_account_id a = acc_id account \<Longrightarrow> asset_identity a \<notin> item_identity ` set items" for a
  proof -
    obtain b where b: "b \<in> set rows" "same_asset a b" using persists \<open>a \<in> set (assets d)\<close> by blast
    then have "b \<in> set (assets d)" using row [OF b(1)] that(2) unfolding same_asset_def describes_def image_iff by metis
    then have "b = a" using that(1) assms(2) b(2) keys_distinct_eq [of as_id "assets d" b a]
      by (simp add: assets_ok_def same_asset_def)
    with b show ?thesis by simp
  qed
  have in_items: "as_resource_id a \<in> discovered items t" if "item \<in> set items" "describes f at item a" "as_asset_type a = t" for item a
    using that by (force simp: discovered_def describes_def asset_identity_def item_identity_def)
  have of_item: "r \<in> inventory d' (acc_id account) t" if "r \<in> discovered items t" for r
  proof -
    obtain item where item: "item \<in> set items" "item_identity item = (t, r)"
      using \<open>r \<in> discovered items t\<close> by (auto simp: discovered_def item_identity_def)
    obtain a where a: "a \<in> set rows" "as_aws_account_id a = acc_id account" "asset_identity a = item_identity item"
      using u item by blast
    then have "as_is_active a" "a \<notin> set ?m"
      using row [OF a(1)] item(1) m [of a] by (auto simp: describes_def refresh_asset_def dest: arg_cong [of _ _ as_is_active])
    with act [of a] a item(2) show ?thesis unfolding inventory_def by (auto simp: asset_identity_def)
  qed
  have of_old: "r \<in> inventory d' account_id t"
    if "r \<in> inventory d account_id t" "account_id = acc_id account \<Longrightarrow> t \<notin> set types" for r account_id
  proof -
    obtain a where a: "a \<in> set (assets d)" "as_aws_account_id a = account_id" "as_asset_type a = t" "as_is_active a" "as_resource_id a = r"
      using \<open>r \<in> inventory d account_id t\<close> by (auto simp: inventory_def)
    show ?thesis
    proof (cases "account_id = acc_id account \<and> asset_identity a \<in> item_identity ` set items")
      case True
      then have "r \<in> discovered items t" using a by (auto simp: discovered_def asset_identity_def item_identity_def)
      with of_item True show ?thesis by simp
    next
      case False
      then have "a \<in> set rows" using kept a by blast
      moreover have "a \<notin> set ?m" using m [of a] a that(2) by auto
      ultimately show ?thesis using act [of a] a unfolding inventory_def by auto
    qed
  qed
  have into: "r \<in> inventory d account_id t \<and> (account_id = acc_id account \<longrightarrow> t \<notin> set types) \<or>
      account_id = acc_id account \<and> r \<in> discovered items t" if "r \<in> inventory d' account_id t" for r account_id
  proof -
    obtain a where a: "a \<in> set rows" "a \<notin> set ?m" "as_is_active a" "as_aws_account_id a = account_id" "as_asset_type a = t" "as_resource_id a = r"
      using \<open>r \<in> inventory d' account_id t\<close> act by (auto simp: inventory_def)
    from row [OF a(1)] show ?thesis
      using a m [of a] in_items [of _ a] by (auto simp: inventory_def)
  qed
  show "inventory d' (acc_id account) t =
      (if t \<in> set types then discovered items t else inventory d (acc_id account) t \<union> discovered items t)"
    using into [of _ "acc_id account"] of_item of_old [of _ "acc_id account"] by (auto split: if_splits)
  show "inventory d' account_id t = inventory d account_id t" if "account_id \<noteq> acc_id account"
    using into [of _ account_id] of_old [of _ account_id] that by blast
  show "\<exists>b \<in> set (assets d'). same_asset a b" if "a \<in> set (assets d)"
  proof -
    obtain b where b: "b \<in> set rows" "same_asset a b" using persists \<open>a \<in> set (assets d)\<close> by blast
    let ?b = "if b \<in> set ?m then b\<lparr>as_is_active := False\<rparr> else b"
    have "?b \<in> set (assets d')" "same_asset a ?b"
      using b unfolding assets deactivate_missing_mem by (auto simp: same_asset_def asset_identity_def)
    then show ?thesis by blast
  qed
  show "\<exists>item \<in> set items. describes f at item a" if "a \<in> set (assets d')" "as_aws_account_id a = acc_id account"
     "as_is_active a" "as_asset_type a \<in> set types"
  proof -
    have "a \<in> set rows" "a \<notin> set ?m" using act [of a] that by blast+
    with row [of a] m [of a] that show ?thesis by blast
  qed
qed

section \<open>Duplicate identities\<close>

lemma filter_put_row_other:
  assumes "\<not> Q r" and "\<And>x. x \<in> set rows \<Longrightarrow> key x = key r \<Longrightarrow> \<not> Q x"
  shows "filter Q (put_row key r rows) = filter Q rows"
  using assms by (induction rows) auto

text \<open>
  The rows that a discovery adds are one per item, even when two items name the same new resource.
\<close>

lemma upsert_items_counts:
  assumes "asset_unique persisted" and "\<forall>a \<in> set persisted. as_aws_account_id a = acc_id account \<longrightarrow> asset_identity a \<noteq> i"
    and "keys_distinct as_id (fst (upsert_items f account at new_id persisted items (rows, c, u)))"
    and "upserted f (acc_id account) at persisted done rows"
  shows "length (filter (\<lambda>a. as_aws_account_id a = acc_id account \<and> asset_identity a = i)
             (fst (upsert_items f account at new_id persisted items (rows, c, u)))) =
         length (filter (\<lambda>a. as_aws_account_id a = acc_id account \<and> asset_identity a = i) rows) +
         length (filter (\<lambda>item. item_identity item = i) items)"
  using assms(3,4)
proof (induction items arbitrary: rows c u "done")
  case Nil
  then show ?case by simp
next
  case (Cons item items)
  let ?Q = "\<lambda>a. as_aws_account_id a = acc_id account \<and> asset_identity a = i"
  show ?case
  proof (cases "by_identity (acc_id account) (nz_asset_type item) (nz_resource_id item) persisted")
    case None
    then show ?thesis using Cons.IH [OF _ upserted_new [OF Cons.prems(2) None]] Cons.prems(1) by simp
  next
    case (Some p)
    have k: "keys_distinct as_id rows" using upsert_items_keys [OF Cons.prems(1)] .
    note p = by_identity_Some [OF Some]
    have other: "asset_identity p \<noteq> i" using p assms(2) by blast
    obtain b where b: "b \<in> set rows" "same_asset p b" using Cons.prems(2) p by (auto simp: upserted_def)
    have "\<not> ?Q x" if "x \<in> set rows" "as_id x = as_id p" for x
      using keys_distinct_eq [OF k that(1) b(1)] that(2) b(2) other by (auto simp: same_asset_def)
    then have q: "filter ?Q (put_row as_id (refresh_asset f item at p) rows) = filter ?Q rows"
      by (intro filter_put_row_other) (use other in auto)
    have "item_identity item \<noteq> i" using p other by (simp add: item_identity_def)
    moreover have "upserted f (acc_id account) at persisted (done @ [item]) (put_row as_id (refresh_asset f item at p) rows)"
      by (rule upserted_old [OF Cons.prems(2) k assms(1) Some])
    ultimately show ?thesis
      using Cons.IH [of "put_row as_id (refresh_asset f item at p) rows" c "u + 1" "done @ [item]"] Cons.prems(1) Some q by simp
  qed
qed

lemma unique_count:
  assumes "asset_unique rows"
  shows "length (filter (\<lambda>a. as_aws_account_id a = account_id \<and> asset_identity a = i) rows) \<le> 1"
  using assms
proof (induction rows)
  case Nil
  then show ?case by simp
next
  case (Cons a rows)
  then have "filter (\<lambda>x. as_aws_account_id x = account_id \<and> asset_identity x = i) rows = []"
    if "as_aws_account_id a = account_id" "asset_identity a = i"
    using that by (auto simp: filter_empty_conv asset_unique_def asset_identity_def)
  with Cons show ?case by (auto simp: asset_unique_def)
qed

lemma upsert_duplicate:
  assumes "assets_ok d" and "by_identity (acc_id account) t r (assets d) = None"
    and "2 \<le> length (filter (\<lambda>item. item_identity item = (t, r)) items)"
  shows "upsert f account at new_id types items d = Inl OtherException"
proof (rule ccontr)
  assume "\<not> ?thesis"
  then obtain tally d' where ok: "upsert f account at new_id types items d = Inr (tally, d')"
    by (auto simp: upsert_def Let_def split: if_splits prod.splits)
  obtain rows c u where r: "upsert_items f account at new_id (assets d) items (assets d, 0, 0) = (rows, c, u)"
    by (metis prod_cases3)
  let ?m = "missing_assets (acc_id account) types (map (\<lambda>item. (nz_asset_type item, nz_resource_id item)) items) (assets d)"
  let ?Q = "\<lambda>a. as_aws_account_id a = acc_id account \<and> asset_identity a = (t, r)"
  have rows: "keys_distinct as_id (deactivate_missing ?m rows)" "asset_unique (deactivate_missing ?m rows)"
    using ok unfolding upsert_def r by (auto simp: Let_def split: if_splits)
  then have k: "keys_distinct as_id rows" by (simp add: keys_distinct_def deactivate_missing_def comp_def if_distrib cong: if_cong)
  have "length (filter ?Q (deactivate_missing ?m rows)) = length (filter ?Q rows)"
    by (auto simp: deactivate_missing_def filter_map comp_def asset_identity_def if_distrib cong: if_cong)
  moreover have "length (filter ?Q rows) \<ge> 2"
    using upsert_items_counts [of "assets d" account "(t, r)" f at new_id items "assets d" 0 0 "[]"] assms k
    by (simp add: r assets_ok_def by_identity_None upserted_Nil)
  ultimately show False using unique_count [OF rows(2), of "acc_id account" "(t, r)"] by simp
qed

end
