(* ===== verification/Discovery_Runs.thy ===== *)
theory Discovery_Runs
  imports Discovery
begin

text \<open>
  The runs of \<^verbatim>\<open>DiscoveryOrchestrator\<close>: what a collector promises, as a locale; the invariant of
  the loop over the collectors; that every run ends; and its refinement of an abstract inventory,
  in which a collector that succeeds replaces the resources of its types and one that fails
  changes nothing.
\<close>

section \<open>Writing discovery jobs\<close>

definition discoveries_ok :: "db \<Rightarrow> bool" where
  "discoveries_ok d =
     (keys_distinct dj_id (discovery_jobs d) \<and> discovery_unique (discovery_jobs d) \<and>
      list_all discovery_constraints (discovery_jobs d) \<and> assets_ok d)"

text \<open>A write of a job that keeps its account and does not activate it again always succeeds.\<close>

lemma flush_discovery_ok:
  assumes "discoveries_ok d" and "get_row dj_id (dj_id job) (discovery_jobs d) = Some old"
    and "dj_aws_account_id job = dj_aws_account_id old" and "discovery_active job \<Longrightarrow> discovery_active old"
    and "discovery_constraints job"
  shows "flush_discovery job d = Inr (d\<lparr>discovery_jobs := put_row dj_id job (discovery_jobs d)\<rparr>)"
    and "discoveries_ok (d\<lparr>discovery_jobs := put_row dj_id job (discovery_jobs d)\<rparr>)"
    and "get_row dj_id (dj_id job) (put_row dj_id job (discovery_jobs d)) = Some job"
proof -
  have u: "discovery_unique (put_row dj_id job (discovery_jobs d))"
    unfolding discovery_unique_def
    by (rule unique_on_put_row [OF _ assms(2)]) (use assms in \<open>auto simp: discoveries_ok_def discovery_unique_def\<close>)
  then show "flush_discovery job d = Inr (d\<lparr>discovery_jobs := put_row dj_id job (discovery_jobs d)\<rparr>)"
    using assms(5) by (simp add: flush_discovery_def)
  have "list_all discovery_constraints (put_row dj_id job (discovery_jobs d))"
    unfolding list_all_iff using assms(1,5) by (auto simp: discoveries_ok_def list_all_iff dest!: set_put_row)
  with u assms(1) show "discoveries_ok (d\<lparr>discovery_jobs := put_row dj_id job (discovery_jobs d)\<rparr>)"
    by (simp add: discoveries_ok_def assets_ok_def)
  show "get_row dj_id (dj_id job) (put_row dj_id job (discovery_jobs d)) = Some job"
    using assms(2) by (simp add: get_put_row)
qed

lemma discoveries_ok_audit [simp]: "discoveries_ok (record_audit e t r ou au ru d) = discoveries_ok d"
  by (simp add: discoveries_ok_def assets_ok_def)

lemma inventory_audit [simp]: "inventory (record_audit e t r ou au ru d) = inventory d"
  by (intro ext) (simp add: inventory_def)

lemma inventory_jobs [simp]: "inventory (d\<lparr>discovery_jobs := js\<rparr>) = inventory d"
  by (intro ext) (simp add: inventory_def)

text \<open>The jobs other than the one that runs.\<close>

definition others_kept :: "uuid \<Rightarrow> db \<Rightarrow> db \<Rightarrow> bool" where
  "others_kept job_id d d' = (\<forall>i. i \<noteq> job_id \<longrightarrow> get_row dj_id i (discovery_jobs d') = get_row dj_id i (discovery_jobs d))"

lemma others_kept_refl [simp]: "others_kept i d d" by (simp add: others_kept_def)

lemma others_kept_trans: "others_kept i d d' \<Longrightarrow> others_kept i d' d'' \<Longrightarrow> others_kept i d d''"
  by (simp add: others_kept_def)

lemma others_kept_put [simp]:
  "discovery_jobs d' = put_row dj_id job (discovery_jobs d) \<Longrightarrow> others_kept (dj_id job) d d'"
  by (simp add: others_kept_def get_put_row_other)

section \<open>Inventories that can be stored\<close>

text \<open>A row of a session: one that was there before, or a new one with one of the fresh identifiers.\<close>

definition drawn_from :: "asset_ids \<Rightarrow> instant \<Rightarrow> Asset list \<Rightarrow> Asset \<Rightarrow> bool" where
  "drawn_from new_id at persisted b =
     ((\<exists>a \<in> set persisted. as_id b = as_id a \<and> as_first_seen_at b = as_first_seen_at a) \<or>
      (\<exists>n \<ge> 0. as_id b = new_id n \<and> as_first_seen_at b = at))"

lemma drawn_from_inactive [simp]: "drawn_from new_id at persisted (b\<lparr>as_is_active := v\<rparr>) = drawn_from new_id at persisted b"
  by (simp add: drawn_from_def)

definition storable :: "asset_ids \<Rightarrow> instant \<Rightarrow> Asset list \<Rightarrow> Asset list \<Rightarrow> bool" where
  "storable new_id at persisted rows =
     (keys_distinct as_id rows \<and> asset_unique rows \<and> list_all asset_seen_order rows \<and>
      list_all (drawn_from new_id at persisted) rows)"

lemma storable_new:
  assumes "storable new_id at persisted rows" and "0 \<le> c" and "new_id c \<notin> as_id ` set rows"
    and "\<forall>b \<in> set rows. as_aws_account_id b = acc_id account \<longrightarrow> asset_identity b \<noteq> item_identity item"
  shows "storable new_id at persisted (rows @ [refresh_asset f item at (new_asset account item at (new_id c))])"
proof -
  let ?n = "refresh_asset f item at (new_asset account item at (new_id c))"
  have n: "as_id ?n = new_id c" "as_aws_account_id ?n = acc_id account" "asset_identity ?n = item_identity item"
      "as_first_seen_at ?n = at" "as_last_seen_at ?n = at"
    by (simp_all) (simp_all add: refresh_asset_def new_asset_def)
  then have "as_asset_type ?n = nz_asset_type item" "as_resource_id ?n = nz_resource_id item"
    by (simp_all add: asset_identity_def item_identity_def)
  then have "asset_unique (rows @ [?n])"
    using assms(1,4) n(2) by (auto simp: storable_def asset_unique_def unique_on_snoc asset_identity_def item_identity_def)
  moreover have "drawn_from new_id at persisted ?n" using assms(2) n(1,4) by (auto simp: drawn_from_def)
  ultimately show ?thesis
    using assms(1,3) n by (simp add: storable_def keys_distinct_snoc asset_seen_order_def)
qed

lemma storable_old:
  assumes "storable new_id at persisted rows" and "p \<in> set persisted" and "b \<in> set rows" and "same_asset p b"
    and "as_first_seen_at p \<le> at"
  shows "storable new_id at persisted (put_row as_id (refresh_asset f item at p) rows)"
proof -
  let ?r = "refresh_asset f item at p"
  have keys: "keys_distinct as_id rows" using assms(1) by (simp add: storable_def)
  have row: "get_row as_id (as_id ?r) rows = Some b"
    using get_row_distinct [OF keys assms(3)] assms(4) by (simp add: same_asset_def)
  have r: "as_first_seen_at ?r = as_first_seen_at p" "as_last_seen_at ?r = at" by (simp_all add: refresh_asset_def)
  have "(as_aws_account_id ?r, as_asset_type ?r, as_resource_id ?r) = (as_aws_account_id b, as_asset_type b, as_resource_id b)"
    using assms(4) by (simp add: same_asset_def asset_identity_def refresh_asset_def)
  then have "asset_unique (put_row as_id ?r rows)"
    using unique_on_put_row [OF keys row, of "\<lambda>a. (as_aws_account_id a, as_asset_type a, as_resource_id a)" "\<lambda>a. True"] assms(1)
    by (simp add: storable_def asset_unique_def)
  moreover have "asset_seen_order ?r" using assms(5) r by (simp add: asset_seen_order_def)
  moreover have "drawn_from new_id at persisted ?r" using assms(2) r(1) by (auto simp: drawn_from_def)
  ultimately show ?thesis
    using assms(1) by (auto simp: storable_def list_all_iff dest!: set_put_row)
qed

lemma upsert_items_storable:
  assumes "storable new_id at persisted rows" and "0 \<le> c"
    and "\<forall>k \<ge> c. new_id k \<notin> as_id ` set rows" and "inj_on new_id {0..}"
    and "\<forall>item \<in> set items. (case by_identity (acc_id account) (nz_asset_type item) (nz_resource_id item) persisted of
           None \<Rightarrow> \<forall>b \<in> set rows. as_aws_account_id b = acc_id account \<longrightarrow> asset_identity b \<noteq> item_identity item
         | Some p \<Rightarrow> as_first_seen_at p \<le> at \<and> (\<exists>b \<in> set rows. same_asset p b))"
    and "distinct (map item_identity items)" and "keys_distinct as_id persisted"
  shows "storable new_id at persisted (fst (upsert_items f account at new_id persisted items (rows, c, u)))"
  using assms(1-3,5,6)
proof (induction items arbitrary: rows c u)
  case Nil
  then show ?case by simp
next
  case (Cons item items)
  let ?find = "\<lambda>item. by_identity (acc_id account) (nz_asset_type item) (nz_resource_id item) persisted"
  let ?absent = "\<lambda>rows item. \<forall>b \<in> set rows. as_aws_account_id b = acc_id account \<longrightarrow> asset_identity b \<noteq> item_identity item"
  have later: "?find x = None \<Longrightarrow> ?absent rows x" "?find x = Some p \<Longrightarrow> as_first_seen_at p \<le> at \<and> (\<exists>b \<in> set rows. same_asset p b)"
    if "x \<in> set items" for x p
    using bspec [OF Cons.prems(4), of x] that by (simp_all split: option.splits)
  show ?case
  proof (cases "?find item")
    case None
    let ?n = "refresh_asset f item at (new_asset account item at (new_id c))"
    have absent: "?absent rows item" using bspec [OF Cons.prems(4), of item] None by simp
    have st: "storable new_id at persisted (rows @ [?n])"
      using storable_new [OF Cons.prems(1,2) _ absent] Cons.prems(3) by simp
    have fresh: "\<forall>k \<ge> c + 1. new_id k \<notin> as_id ` set (rows @ [?n])"
    proof (intro allI impI)
      fix k assume "c + 1 \<le> k"
      then have "new_id k \<noteq> new_id c" using inj_onD [OF assms(4), of k c] Cons.prems(2) by force
      with Cons.prems(3) \<open>c + 1 \<le> k\<close> show "new_id k \<notin> as_id ` set (rows @ [?n])" by simp
    qed
    have rest: "\<forall>x \<in> set items. (case ?find x of None \<Rightarrow> ?absent (rows @ [?n]) x
        | Some p \<Rightarrow> as_first_seen_at p \<le> at \<and> (\<exists>b \<in> set (rows @ [?n]). same_asset p b))"
    proof
      fix x assume x: "x \<in> set items"
      then have "item_identity x \<noteq> item_identity item" using Cons.prems(5) by (metis distinct.simps(2) imageI list.set_map list.simps(9))
      then show "case ?find x of None \<Rightarrow> ?absent (rows @ [?n]) x
          | Some p \<Rightarrow> as_first_seen_at p \<le> at \<and> (\<exists>b \<in> set (rows @ [?n]). same_asset p b)"
        using later [OF x] by (auto split: option.splits)
    qed
    show ?thesis using Cons.IH [OF st _ fresh rest] Cons.prems(2,5) None by simp
  next
    case (Some p)
    let ?r = "refresh_asset f item at p"
    note p = by_identity_Some [OF Some]
    obtain b where b: "b \<in> set rows" "same_asset p b" "as_first_seen_at p \<le> at"
      using bspec [OF Cons.prems(4), of item] Some by auto
    have st: "storable new_id at persisted (put_row as_id ?r rows)"
      using storable_old [OF Cons.prems(1) _ b] p by simp
    have ids: "as_id ` set (put_row as_id ?r rows) = as_id ` set rows"
      by (metis list.set_map map_key_put_row)
    have keys: "keys_distinct as_id rows" using Cons.prems(1) by (simp add: storable_def)
    have same: "same_asset b ?r" using b(2) unfolding refresh_asset_same(1) by (simp add: same_asset_def)
    have keep: "a \<in> set (put_row as_id ?r rows) \<or> a = b" if "a \<in> set rows" for a
      using in_put_row_other [OF that, of as_id ?r] keys_distinct_eq [OF keys that b(1)] b(2) by (auto simp: same_asset_def)
    have mem: "?r \<in> set (put_row as_id ?r rows)" using b by (intro in_put_row_same [of b]) (simp_all add: same_asset_def)
    have rest: "\<forall>x \<in> set items. (case ?find x of None \<Rightarrow> ?absent (put_row as_id ?r rows) x
        | Some q \<Rightarrow> as_first_seen_at q \<le> at \<and> (\<exists>b \<in> set (put_row as_id ?r rows). same_asset q b))"
    proof
      fix x assume x: "x \<in> set items"
      have "?absent (put_row as_id ?r rows) x" if "?absent rows x"
        using that b(1) same by (auto simp: same_asset_def dest!: set_put_row)
      moreover have "\<exists>b \<in> set (put_row as_id ?r rows). same_asset q b" if "\<exists>b \<in> set rows. same_asset q b" for q
        using that keep mem same_asset_trans [OF _ same] by blast
      ultimately show "case ?find x of None \<Rightarrow> ?absent (put_row as_id ?r rows) x
          | Some q \<Rightarrow> as_first_seen_at q \<le> at \<and> (\<exists>b \<in> set (put_row as_id ?r rows). same_asset q b)"
        using later [OF x] by (auto split: option.splits)
    qed
    show ?thesis using Cons.IH [OF st Cons.prems(2) _ rest] Cons.prems(3,5) Some ids by simp
  qed
qed

text \<open>
  An inventory without duplicates is always stored: the identifiers drawn are new, and the clock is
  not behind the first sight of an asset.
\<close>

lemma upsert_progress:
  assumes "assets_ok d" and "list_all asset_seen_order (assets d)" and "get_row acc_id (acc_id account) (aws_accounts d) \<noteq> None"
    and "inj_on new_id {0..}" and "\<forall>a \<in> set (assets d). as_first_seen_at a \<le> at \<and> (\<forall>n \<ge> 0. new_id n \<noteq> as_id a)"
    and "distinct (map item_identity items)"
  shows "\<exists>tally d'. upsert f account at new_id types items d = Inr (tally, d')"
proof -
  obtain rows c u where r: "upsert_items f account at new_id (assets d) items (assets d, 0, 0) = (rows, c, u)"
    by (metis prod_cases3)
  let ?m = "missing_assets (acc_id account) types (map (\<lambda>item. (nz_asset_type item, nz_resource_id item)) items) (assets d)"
  have "storable new_id at (assets d) (assets d)"
    using assms(1,2) by (auto simp: storable_def assets_ok_def list_all_iff drawn_from_def)
  then have "storable new_id at (assets d) (fst (upsert_items f account at new_id (assets d) items (assets d, 0, 0)))"
    using assms
    by (intro upsert_items_storable)
      (auto simp: assets_ok_def by_identity_None item_identity_def split: option.splits dest: by_identity_Some intro: same_asset_refl)
  then have st: "storable new_id at (assets d) rows" by (simp add: r)
  have "map as_id (deactivate_missing ?m rows) = map as_id rows" by (simp add: deactivate_missing_def)
  then have "keys_distinct as_id (deactivate_missing ?m rows)" using st by (simp add: storable_def keys_distinct_def)
  moreover have "asset_unique (deactivate_missing ?m rows)"
    using st by (simp add: storable_def asset_unique_def unique_on_def deactivate_missing_def comp_def if_distrib cong: if_cong)
  moreover have "list_all asset_seen_order (deactivate_missing ?m rows)"
    using st by (auto simp: storable_def list_all_iff deactivate_missing_def asset_seen_order_def)
  ultimately show ?thesis
    using assms(3) unfolding upsert_def r by (simp add: Let_def)
qed

lemma upsert_items_drawn:
  assumes "list_all (drawn_from new_id at persisted) rows" and "0 \<le> c"
  shows "list_all (drawn_from new_id at persisted) (fst (upsert_items f account at new_id persisted items (rows, c, u)))"
  using assms
proof (induction items arbitrary: rows c u)
  case Nil
  then show ?case by simp
next
  case (Cons item items)
  show ?case
  proof (cases "by_identity (acc_id account) (nz_asset_type item) (nz_resource_id item) persisted")
    case None
    let ?n = "refresh_asset f item at (new_asset account item at (new_id c))"
    have "drawn_from new_id at persisted ?n"
      using Cons.prems(2) by (auto simp: drawn_from_def) (simp add: refresh_asset_def new_asset_def)
    then show ?thesis using Cons.IH [of "rows @ [?n]" "c + 1"] Cons.prems None by simp
  next
    case (Some p)
    let ?r = "refresh_asset f item at p"
    have "as_first_seen_at ?r = as_first_seen_at p" by (simp add: refresh_asset_def)
    then have "drawn_from new_id at persisted ?r" using by_identity_Some [OF Some] by (auto simp: drawn_from_def)
    then have "list_all (drawn_from new_id at persisted) (put_row as_id ?r rows)"
      using Cons.prems(1) by (auto simp: list_all_iff dest!: set_put_row)
    then show ?thesis using Cons.IH Cons.prems(2) Some by simp
  qed
qed

lemma upsert_drawn:
  assumes "upsert f account at new_id types items d = Inr (tally, d')"
  shows "list_all asset_seen_order (assets d') \<and> list_all (drawn_from new_id at (assets d)) (assets d') \<and>
    aws_accounts d' = aws_accounts d"
proof -
  obtain rows c u where r: "upsert_items f account at new_id (assets d) items (assets d, 0, 0) = (rows, c, u)"
    by (metis prod_cases3)
  have "list_all (drawn_from new_id at (assets d)) (assets d)" by (auto simp: list_all_iff drawn_from_def)
  from upsert_items_drawn [OF this order_refl] have "list_all (drawn_from new_id at (assets d)) rows"
    by (metis r fst_conv)
  then have "list_all (drawn_from new_id at (assets d)) (deactivate_missing m rows)" for m
    by (auto simp: deactivate_missing_def list_all_iff)
  then show ?thesis
    using assms unfolding upsert_def r by (auto simp: Let_def split: if_splits)
qed

text \<open>
  The clock and the fresh identifiers of a run over collectors of these names: the clock does not run
  backwards, neither from the first sight of an asset nor from one collector to the next, and no identifier
  is drawn twice or taken.
\<close>

definition discovery_ready :: "AWSAccount \<Rightarrow> DiscoveryClock \<Rightarrow> string list \<Rightarrow> db \<Rightarrow> bool" where
  "discovery_ready account clock names d =
     (get_row acc_id (acc_id account) (aws_accounts d) \<noteq> None \<and> list_all asset_seen_order (assets d) \<and>
      sorted_wrt (\<lambda>x y. dk_upserted clock x \<le> dk_upserted clock y) names \<and> distinct names \<and>
      inj_on (\<lambda>(name, n). dk_asset_ids clock name n) (set names \<times> {0..}) \<and>
      (\<forall>name \<in> set names. \<forall>a \<in> set (assets d).
         as_first_seen_at a \<le> dk_upserted clock name \<and> (\<forall>n \<ge> 0. dk_asset_ids clock name n \<noteq> as_id a)))"

lemma discovery_ready_cong:
  "assets d' = assets d \<Longrightarrow> aws_accounts d' = aws_accounts d \<Longrightarrow>
     discovery_ready account clock names d' = discovery_ready account clock names d"
  by (simp add: discovery_ready_def)

lemma discovery_ready_tail: "discovery_ready account clock (name # names) d \<Longrightarrow> discovery_ready account clock names d"
  by (auto simp: discovery_ready_def intro: inj_on_subset)

lemma discovery_ready_stored:
  assumes "discovery_ready account clock (name # names) d"
    and "upsert f account (dk_upserted clock name) (dk_asset_ids clock name) types items d = Inr (tally, d')"
  shows "discovery_ready account clock names d'"
proof -
  note u = upsert_drawn [OF assms(2)] and r = assms(1) [unfolded discovery_ready_def]
  have "as_first_seen_at b \<le> dk_upserted clock x \<and> (\<forall>n \<ge> 0. dk_asset_ids clock x n \<noteq> as_id b)"
    if x: "x \<in> set names" and b: "b \<in> set (assets d')" for x b
  proof -
    have "drawn_from (dk_asset_ids clock name) (dk_upserted clock name) (assets d) b" using u b by (simp add: list_all_iff)
    then show ?thesis
      unfolding drawn_from_def
    proof (elim disjE bexE exE conjE)
      fix n assume n: "0 \<le> n" "as_id b = dk_asset_ids clock name n" "as_first_seen_at b = dk_upserted clock name"
      have "dk_asset_ids clock x k \<noteq> dk_asset_ids clock name n" if "0 \<le> k" for k
        using r x that n(1) inj_onD [of "\<lambda>(name, n). dk_asset_ids clock name n" "set (name # names) \<times> {0..}" "(x, k)" "(name, n)"]
        by auto
      with r x n(2,3) show ?thesis by auto
    qed (use r x in auto)
  qed
  with u discovery_ready_tail [OF assms(1)] show ?thesis by (simp add: discovery_ready_def)
qed

lemma discovery_ready_stores:
  assumes "discovery_ready account clock (name # names) d" and "assets_ok d" and "distinct (map item_identity items)"
  shows "\<exists>tally d'. upsert f account (dk_upserted clock name) (dk_asset_ids clock name) types items d = Inr (tally, d')"
proof (rule upsert_progress [OF assms(2)])
  have "inj_on (\<lambda>(name, n). dk_asset_ids clock name n) ({name} \<times> {0..})"
    using assms(1) by (auto simp: discovery_ready_def intro: inj_on_subset)
  then show "inj_on (dk_asset_ids clock name) {0..}" by (auto simp: inj_on_def)
qed (use assms in \<open>auto simp: discovery_ready_def\<close>)

section \<open>The loop\<close>

definition collecting :: "DiscoveryState \<Rightarrow> bool" where
  "collecting s =
     (discoveries_ok (ds_db s) \<and> get_row dj_id (dj_id (ds_job s)) (discovery_jobs (ds_db s)) = Some (ds_job s) \<and>
      dj_status (ds_job s) = DiscoveryJobStatus.RUNNING)"

definition same_discovery :: "DiscoveryJob \<Rightarrow> DiscoveryJob \<Rightarrow> bool" where
  "same_discovery j j' =
     (dj_id j' = dj_id j \<and> dj_organization_id j' = dj_organization_id j \<and> dj_aws_account_id j' = dj_aws_account_id j \<and>
      dj_started_at j' = dj_started_at j)"

lemma same_discovery_refl [simp]: "same_discovery j j" by (simp add: same_discovery_def)

lemma same_discovery_trans: "same_discovery i j \<Longrightarrow> same_discovery j k \<Longrightarrow> same_discovery i k"
  by (simp add: same_discovery_def)

lemma count_assets_fields [simp]:
  "dj_id (count_assets n tally j) = dj_id j" "dj_status (count_assets n tally j) = dj_status j"
  "dj_aws_account_id (count_assets n tally j) = dj_aws_account_id j"
  "dj_assets_discovered (count_assets n tally j) = dj_assets_discovered j + int n"
  "same_discovery i (count_assets n tally j) = same_discovery i j"
  by (simp_all add: count_assets_def same_discovery_def)

lemma count_assets_ok:
  assumes "discovery_constraints j" and "dj_status j = DiscoveryJobStatus.RUNNING"
    and "0 \<le> fst tally" and "0 \<le> fst (snd tally)" and "0 \<le> snd (snd tally)"
  shows "discovery_constraints (count_assets n tally j)"
  using assms by (simp add: discovery_constraints_def count_assets_def)

text \<open>The abstract effect of a collector on what an account is known to have.\<close>

type_synonym holdings = "AssetType \<Rightarrow> string set"

definition replace_holdings :: "DiscoveryCollector \<Rightarrow> string \<Rightarrow> holdings \<Rightarrow> holdings" where
  "replace_holdings c account_id known t =
     (case dc_discover c account_id of
        Inl e \<Rightarrow> known t
      | Inr items \<Rightarrow> if t \<in> set (dc_asset_types c) then discovered items t else known t)"

text \<open>The contract of a collector, \<^verbatim>\<open>class DiscoveryCollector(Protocol)\<close>.\<close>

locale discovery_collector =
  fixes c :: DiscoveryCollector
  assumes declared:
    "dc_discover c account_id = Inr items \<Longrightarrow> item \<in> set items \<Longrightarrow> nz_asset_type item \<in> set (dc_asset_types c)"
begin

lemma discovered_declared: "dc_discover c account_id = Inr items \<Longrightarrow> t \<notin> set (dc_asset_types c) \<Longrightarrow> discovered items t = {}"
  using declared by (auto simp: discovered_def)

lemma stored_inventory:
  assumes "dc_discover c (acc_account_id account) = Inr items" and "assets_ok d"
    and "upsert f account at new_id (dc_asset_types c) items d = Inr (tally, d')"
  shows "inventory d' (acc_id account) = replace_holdings c (acc_account_id account) (inventory d (acc_id account))"
  using upsert_inventory(1) [OF assms(3,2)] discovered_declared [OF assms(1)] assms(1)
  by (intro ext) (simp add: replace_holdings_def)

end

text \<open>What one pass of the loop does.\<close>

definition collector_effect :: "AWSAccount \<Rightarrow> DiscoveryClock \<Rightarrow> DiscoveryCollector \<Rightarrow> DiscoveryState \<Rightarrow> bool \<Rightarrow> DiscoveryState \<Rightarrow> bool" where
  "collector_effect account clock c s ok s' =
     (collecting s' \<and> same_discovery (ds_job s) (ds_job s') \<and>
      others_kept (dj_id (ds_job s)) (ds_db s) (ds_db s') \<and>
      (if ok then
         (\<exists>items. dc_discover c (acc_account_id account) = Inr items \<and>
            dj_assets_discovered (ds_job s') = dj_assets_discovered (ds_job s) + int (length items)) \<and>
         ds_errors s' = ds_errors s \<and> ds_successes s' = ds_successes s + 1 \<and>
         (discovery_collector c \<longrightarrow>
            inventory (ds_db s') (acc_id account) =
              replace_holdings c (acc_account_id account) (inventory (ds_db s) (acc_id account))) \<and>
         (\<forall>other. other \<noteq> acc_id account \<longrightarrow> inventory (ds_db s') other = inventory (ds_db s) other) \<and>
         (\<forall>names. discovery_ready account clock (dc_name c # names) (ds_db s) \<longrightarrow> discovery_ready account clock names (ds_db s'))
       else
         (\<forall>items names. dc_discover c (acc_account_id account) = Inr items \<longrightarrow> distinct (map item_identity items) \<longrightarrow>
            \<not> discovery_ready account clock (dc_name c # names) (ds_db s)) \<and>
         ds_errors s' \<noteq> [] \<and> ds_successes s' = ds_successes s \<and> ds_db s' = ds_db s \<and> ds_job s' = ds_job s))"

lemma update_nonempty [simp]: "AList.update k v xs \<noteq> []"
  by (cases xs) (auto split: if_splits)

lemma collector_failed_effect:
  assumes "collecting s"
    and "\<forall>items names. dc_discover c (acc_account_id account) = Inr items \<longrightarrow> distinct (map item_identity items) \<longrightarrow>
      \<not> discovery_ready account clock (dc_name c # names) (ds_db s)"
  shows "\<exists>s'. collector_failed name e s = Inr s' \<and> collector_effect account clock c s False s'"
  using assms by (auto simp: collector_failed_def collecting_def collector_effect_def)

lemma run_collector_effect:
  assumes "collecting s"
  shows "\<exists>s' ok. run_collector f account clock c s = Inr s' \<and> collector_effect account clock c s ok s'"
proof (cases "\<exists>items tally d. dc_discover c (acc_account_id account) = Inr items \<and>
    upsert f account (dk_upserted clock (dc_name c)) (dk_asset_ids clock (dc_name c)) (dc_asset_types c) items (ds_db s) =
      Inr (tally, d)")
  case False
  then have "\<exists>e. run_collector f account clock c s = collector_failed (dc_name c) e s"
    by (cases "dc_discover c (acc_account_id account)"; cases "upsert f account (dk_upserted clock (dc_name c))
        (dk_asset_ids clock (dc_name c)) (dc_asset_types c) (projr (dc_discover c (acc_account_id account))) (ds_db s)")
      (auto simp: run_collector_def Let_def)
  moreover have "assets_ok (ds_db s)" using assms by (simp add: collecting_def discoveries_ok_def)
  then have "\<forall>items names. dc_discover c (acc_account_id account) = Inr items \<longrightarrow> distinct (map item_identity items) \<longrightarrow>
      \<not> discovery_ready account clock (dc_name c # names) (ds_db s)"
    using False discovery_ready_stores by blast
  ultimately show ?thesis using collector_failed_effect [OF assms] by metis
next
  case True
  then obtain items tally d where ok: "dc_discover c (acc_account_id account) = Inr items"
      "upsert f account (dk_upserted clock (dc_name c)) (dk_asset_ids clock (dc_name c)) (dc_asset_types c) items (ds_db s) =
        Inr (tally, d)"
    by blast
  have a: "assets_ok (ds_db s)" using assms by (simp add: collecting_def discoveries_ok_def)
  obtain rows where rows: "d = (ds_db s)\<lparr>assets := rows\<rparr>" "assets_ok d" "0 \<le> fst tally" "0 \<le> fst (snd tally)" "0 \<le> snd (snd tally)"
    using upsert_Inr [OF ok(2) a] by (metis of_nat_0_le_iff)
  let ?job = "count_assets (length items) tally (ds_job s)"
  have d: "discoveries_ok d" "get_row dj_id (dj_id ?job) (discovery_jobs d) = Some (ds_job s)"
    using assms rows(1,2) by (simp_all add: collecting_def discoveries_ok_def)
  have c: "discovery_constraints ?job"
    by (rule count_assets_ok) (use assms rows in \<open>auto simp: collecting_def discoveries_ok_def list_all_iff dest: get_row_in\<close>)
  note fl = flush_discovery_ok [OF d _ _ c]
  let ?s = "s\<lparr>ds_job := ?job, ds_successes := ds_successes s + 1, ds_db := d\<lparr>discovery_jobs := put_row dj_id ?job (discovery_jobs d)\<rparr>\<rparr>"
  have "run_collector f account clock c s = Inr ?s"
    using ok fl(1) by (simp add: run_collector_def discovery_active_def Let_def)
  moreover have "collecting ?s"
    using fl(2,3) assms by (simp add: collecting_def discovery_active_def)
  moreover have "inventory d (acc_id account) = replace_holdings c (acc_account_id account) (inventory (ds_db s) (acc_id account))"
    if "discovery_collector c"
    using discovery_collector.stored_inventory [OF that ok(1) a ok(2)] .
  moreover have "inventory d other = inventory (ds_db s) other" if "other \<noteq> acc_id account" for other
    using upsert_inventory(2) [OF ok(2) a that] by (intro ext)
  moreover have "others_kept (dj_id ?job) (ds_db s) (ds_db ?s)"
    by (rule others_kept_put) (simp add: rows(1))
  moreover have "discovery_ready account clock names (ds_db ?s)"
    if "discovery_ready account clock (dc_name c # names) (ds_db s)" for names
    using discovery_ready_stored [OF that ok(2)] discovery_ready_cong [of "ds_db ?s" d] by simp
  ultimately have "collector_effect account clock c s True ?s"
    using ok(1) by (simp add: collector_effect_def)
  with \<open>run_collector f account clock c s = Inr ?s\<close> show ?thesis by blast
qed

text \<open>The collectors of a run with what became of them, over the abstract inventory.\<close>

fun run_holdings :: "string \<Rightarrow> (DiscoveryCollector \<times> bool) list \<Rightarrow> holdings \<Rightarrow> holdings" where
  "run_holdings account_id [] known = known"
| "run_holdings account_id ((c, ok) # cs) known =
     run_holdings account_id cs (if ok then replace_holdings c account_id known else known)"

text \<open>How the record of the collectors answers to what they returned.\<close>

definition only_answers :: "AWSAccount \<Rightarrow> DiscoveryCollector list \<Rightarrow> bool list \<Rightarrow> bool" where
  "only_answers account = list_all2 (\<lambda>c ok. ok \<longrightarrow> (\<exists>items. dc_discover c (acc_account_id account) = Inr items))"

definition all_answers :: "AWSAccount \<Rightarrow> DiscoveryCollector list \<Rightarrow> bool list \<Rightarrow> bool" where
  "all_answers account = list_all2 (\<lambda>c ok. \<forall>items. dc_discover c (acc_account_id account) = Inr items \<and>
     distinct (map item_identity items) \<longrightarrow> ok)"

definition loop_result :: "AWSAccount \<Rightarrow> DiscoveryClock \<Rightarrow> DiscoveryCollector list \<Rightarrow> bool list \<Rightarrow> DiscoveryState \<Rightarrow> DiscoveryState \<Rightarrow> bool" where
  "loop_result account clock cs oks s s' =
     (collecting s' \<and> same_discovery (ds_job s) (ds_job s') \<and> length oks = length cs \<and>
      others_kept (dj_id (ds_job s)) (ds_db s) (ds_db s') \<and>
      (list_all discovery_collector cs \<longrightarrow>
         inventory (ds_db s') (acc_id account) =
           run_holdings (acc_account_id account) (zip cs oks) (inventory (ds_db s) (acc_id account))) \<and>
      (\<forall>other. other \<noteq> acc_id account \<longrightarrow> inventory (ds_db s') other = inventory (ds_db s) other) \<and>
      ds_successes s' = ds_successes s + length (filter id oks) \<and>
      (ds_errors s' = [] \<longleftrightarrow> ds_errors s = [] \<and> list_all id oks) \<and>
      (True \<notin> set oks \<longrightarrow> ds_db s' = ds_db s) \<and> only_answers account cs oks \<and>
      (discovery_ready account clock (map dc_name cs) (ds_db s) \<longrightarrow> all_answers account cs oks))"

lemma loop_result_Cons:
  assumes "collector_effect account clock c s ok s1" and "loop_result account clock cs oks s1 s'"
  shows "loop_result account clock (c # cs) (ok # oks) s s'"
proof -
  note e = assms(1) [unfolded collector_effect_def] and l = assms(2) [unfolded loop_result_def]
  have "same_discovery (ds_job s) (ds_job s')" using e l same_discovery_trans by blast
  moreover have "others_kept (dj_id (ds_job s)) (ds_db s) (ds_db s')"
    using e l by (metis others_kept_trans same_discovery_def)
  moreover have "only_answers account (c # cs) (ok # oks)"
    using e l by (cases ok) (auto simp: only_answers_def)
  moreover have "all_answers account (c # cs) (ok # oks)" if "discovery_ready account clock (dc_name c # map dc_name cs) (ds_db s)"
  proof (cases ok)
    case True
    with that e l show ?thesis by (simp add: all_answers_def)
  next
    case False
    with that e l discovery_ready_tail [OF that] show ?thesis unfolding all_answers_def by auto
  qed
  ultimately show ?thesis using e l unfolding loop_result_def by (cases ok) simp_all
qed

lemma run_collectors_result:
  assumes "collecting s"
  shows "\<exists>s' oks. run_collectors f account clock cs s = Inr s' \<and> loop_result account clock cs oks s s'"
  using assms
proof (induction cs arbitrary: s)
  case Nil
  then show ?case by (intro exI [of _ s] exI [of _ "[]"]) (simp add: loop_result_def only_answers_def all_answers_def)
next
  case (Cons c cs)
  obtain s1 ok where s1: "run_collector f account clock c s = Inr s1" "collector_effect account clock c s ok s1"
    using run_collector_effect [OF Cons.prems] by blast
  then have "collecting s1" by (simp add: collector_effect_def)
  then obtain s' oks where "run_collectors f account clock cs s1 = Inr s'" "loop_result account clock cs oks s1 s'"
    using Cons.IH by blast
  with s1 loop_result_Cons show ?case by (intro exI [of _ s'] exI [of _ "ok # oks"]) simp
qed

section \<open>A whole run\<close>

definition discovery_finished :: "DiscoveryJob \<Rightarrow> bool" where
  "discovery_finished j = (\<not> discovery_active j \<and> dj_finished_at j \<noteq> None \<and> discovery_constraints j)"

lemma finish_discovery_ok:
  assumes "discoveries_ok d" and "get_row dj_id job_id (discovery_jobs d) = Some job"
    and "dj_status job = DiscoveryJobStatus.RUNNING"
    and "status \<in> {DiscoveryJobStatus.COMPLETED, DiscoveryJobStatus.PARTIALLY_COMPLETED, DiscoveryJobStatus.FAILED}"
    and "status = DiscoveryJobStatus.COMPLETED \<Longrightarrow> errors = []"
  shows "\<exists>job' d'. finish_discovery job_id actor status errors now d = (Inr job', d') \<and> discovery_finished job' \<and>
           dj_status job' = status \<and> dj_id job' = job_id \<and> dj_aws_account_id job' = dj_aws_account_id job \<and>
           discoveries_ok d' \<and> inventory d' = inventory d \<and> assets d' = assets d \<and>
           get_row dj_id job_id (discovery_jobs d') = Some job' \<and> others_kept job_id d d'"
proof -
  let ?job = "job\<lparr>dj_status := status, dj_finished_at := Some now, dj_error_summary := error_summary_of errors\<rparr>"
  have i: "dj_id job = job_id" using assms(2) by (rule get_row_key)
  have "discovery_constraints job" using assms(1,2) by (auto simp: discoveries_ok_def list_all_iff dest: get_row_in)
  then have c: "discovery_constraints ?job"
    using assms(3-5) by (auto simp: discovery_constraints_def error_summary_of_def Let_def intercalate.simps)
  have a: "\<not> discovery_active ?job" using assms(4) by (auto simp: discovery_active_def)
  note fl = flush_discovery_ok [OF assms(1), of ?job job]
  have r: "get_row dj_id (dj_id ?job) (discovery_jobs d) = Some job" using assms(2) i by simp
  have "flush_discovery ?job d = Inr (d\<lparr>discovery_jobs := put_row dj_id ?job (discovery_jobs d)\<rparr>)"
    by (rule fl(1) [OF r]) (use a c in simp_all)
  moreover have "discoveries_ok (d\<lparr>discovery_jobs := put_row dj_id ?job (discovery_jobs d)\<rparr>)"
    by (rule fl(2) [OF r]) (use a c in simp_all)
  moreover have "get_row dj_id (dj_id ?job) (put_row dj_id ?job (discovery_jobs d)) = Some ?job"
    by (rule fl(3) [OF r]) (use a c in simp_all)
  ultimately show ?thesis
    using assms(2,3) a c i others_kept_put [of _ ?job d] by (simp add: finish_discovery_def Let_def discovery_finished_def)
qed

lemma begin_discovery_ok:
  assumes "discoveries_ok d" and "get_row dj_id job_id (discovery_jobs d) = Some job"
    and "dj_status job = DiscoveryJobStatus.PENDING"
    and "get_row acc_id (dj_aws_account_id job) (aws_accounts d) = Some account"
  shows "\<exists>job' d'. begin_discovery job_id actor now d = (Inr (job', account), d') \<and> dj_id job' = job_id \<and>
           dj_aws_account_id job' = dj_aws_account_id job \<and>
           dj_status job' = DiscoveryJobStatus.RUNNING \<and> discoveries_ok d' \<and> inventory d' = inventory d \<and>
           assets d' = assets d \<and> aws_accounts d' = aws_accounts d \<and>
           get_row dj_id job_id (discovery_jobs d') = Some job' \<and> others_kept job_id d d'"
proof -
  let ?job = "job\<lparr>dj_status := DiscoveryJobStatus.RUNNING, dj_started_at := Some now\<rparr>"
  have i: "dj_id job = job_id" using assms(2) by (rule get_row_key)
  have "discovery_constraints job" using assms(1,2) by (auto simp: discoveries_ok_def list_all_iff dest: get_row_in)
  then have c: "discovery_constraints ?job" using assms(3) by (auto simp: discovery_constraints_def)
  have a: "discovery_active job" using assms(3) by (simp add: discovery_active_def)
  note fl = flush_discovery_ok [OF assms(1), of ?job job]
  have r: "get_row dj_id (dj_id ?job) (discovery_jobs d) = Some job" using assms(2) i by simp
  have "flush_discovery ?job d = Inr (d\<lparr>discovery_jobs := put_row dj_id ?job (discovery_jobs d)\<rparr>)"
    by (rule fl(1) [OF r]) (use a c in simp_all)
  moreover have "discoveries_ok (d\<lparr>discovery_jobs := put_row dj_id ?job (discovery_jobs d)\<rparr>)"
    by (rule fl(2) [OF r]) (use a c in simp_all)
  moreover have "get_row dj_id (dj_id ?job) (put_row dj_id ?job (discovery_jobs d)) = Some ?job"
    by (rule fl(3) [OF r]) (use a c in simp_all)
  ultimately show ?thesis using assms(2-4) i others_kept_put [of _ ?job d] by (simp add: begin_discovery_def Let_def)
qed

text \<open>What is left of a run over the collectors of an account.\<close>

definition run_result ::
    "AWSAccount \<Rightarrow> DiscoveryClock \<Rightarrow> aws_exn + DiscoveryCollector list \<Rightarrow> db \<Rightarrow> DiscoveryJob \<Rightarrow> db \<Rightarrow> bool" where
  "run_result account clock services d job d' =
     (case services of
        Inl e \<Rightarrow> dj_status job = DiscoveryJobStatus.FAILED \<and> assets d' = assets d
      | Inr cs \<Rightarrow>
          (\<exists>oks. length oks = length cs \<and>
             (list_all discovery_collector cs \<longrightarrow>
                inventory d' (acc_id account) =
                  run_holdings (acc_account_id account) (zip cs oks) (inventory d (acc_id account))) \<and>
             (\<forall>other. other \<noteq> acc_id account \<longrightarrow> inventory d' other = inventory d other) \<and>
             (dj_status job = DiscoveryJobStatus.COMPLETED \<longleftrightarrow> list_all id oks) \<and>
             (dj_status job = DiscoveryJobStatus.FAILED \<longleftrightarrow> cs \<noteq> [] \<and> True \<notin> set oks) \<and>
             (dj_status job = DiscoveryJobStatus.FAILED \<longrightarrow> assets d' = assets d) \<and> only_answers account cs oks \<and>
             (discovery_ready account clock (map dc_name cs) d \<longrightarrow> all_answers account cs oks)))"

lemma discovery_result_cases:
  assumes "length oks = length cs" and "ds_successes s = length (filter id oks)"
    and "ds_errors s = [] \<longleftrightarrow> list_all id oks"
  shows "discovery_result s = DiscoveryJobStatus.COMPLETED \<longleftrightarrow> list_all id oks"
    and "discovery_result s = DiscoveryJobStatus.FAILED \<longleftrightarrow> cs \<noteq> [] \<and> True \<notin> set oks"
    and "discovery_result s \<in> {DiscoveryJobStatus.COMPLETED, DiscoveryJobStatus.PARTIALLY_COMPLETED, DiscoveryJobStatus.FAILED}"
proof -
  have none: "ds_successes s = 0 \<longleftrightarrow> True \<notin> set oks" using assms(2) by (auto simp: filter_empty_conv)
  have all: "list_all id oks \<Longrightarrow> True \<notin> set oks \<Longrightarrow> oks = []" by (cases oks) auto
  show "discovery_result s = DiscoveryJobStatus.COMPLETED \<longleftrightarrow> list_all id oks"
    using assms(3) by (simp add: discovery_result_def)
  show "discovery_result s = DiscoveryJobStatus.FAILED \<longleftrightarrow> cs \<noteq> [] \<and> True \<notin> set oks"
    using assms(1,3) none all by (auto simp: discovery_result_def)
  show "discovery_result s \<in> {DiscoveryJobStatus.COMPLETED, DiscoveryJobStatus.PARTIALLY_COMPLETED, DiscoveryJobStatus.FAILED}"
    by (simp add: discovery_result_def)
qed

lemma run_discovery_result:
  assumes "discoveries_ok d" and "get_row dj_id job_id (discovery_jobs d) = Some job"
    and "dj_status job = DiscoveryJobStatus.PENDING"
    and "get_row acc_id (dj_aws_account_id job) (aws_accounts d) = Some account"
  shows "\<exists>job' d'. run_discovery f connect clock job_id actor d = (Inr job', d') \<and> discovery_finished job' \<and>
           dj_id job' = job_id \<and> dj_aws_account_id job' = dj_aws_account_id job \<and> discoveries_ok d' \<and>
           get_row dj_id job_id (discovery_jobs d') = Some job' \<and> others_kept job_id d d' \<and>
           run_result account clock (connect account) d job' d'"
proof -
  obtain j1 d1 where b: "begin_discovery job_id actor (dk_started clock) d = (Inr (j1, account), d1)"
      "dj_id j1 = job_id" "dj_aws_account_id j1 = dj_aws_account_id job" "dj_status j1 = DiscoveryJobStatus.RUNNING"
      "discoveries_ok d1" "inventory d1 = inventory d" "assets d1 = assets d"
      "get_row dj_id job_id (discovery_jobs d1) = Some j1" "others_kept job_id d d1" "aws_accounts d1 = aws_accounts d"
    using begin_discovery_ok [OF assms] by blast
  show ?thesis
  proof (cases "connect account")
    case (Inl e)
    then show ?thesis
      using finish_discovery_ok [OF b(5,8,4), of DiscoveryJobStatus.FAILED "[(''sts'', safe_aws_error e)]" actor "dk_finished clock"] b
      by (auto simp: run_discovery_def run_result_def intro: others_kept_trans)
  next
    case (Inr cs)
    let ?s = "\<lparr>ds_job = j1, ds_errors = [], ds_successes = 0, ds_db = d1\<rparr>"
    have "collecting ?s" using b by (simp add: collecting_def)
    then obtain s oks where s: "run_collectors f account clock cs ?s = Inr s" "loop_result account clock cs oks ?s s"
      using run_collectors_result by blast
    note l = s(2) [unfolded loop_result_def collecting_def same_discovery_def, simplified]
    have res: "discovery_result s = DiscoveryJobStatus.COMPLETED \<longleftrightarrow> list_all id oks"
        "discovery_result s = DiscoveryJobStatus.FAILED \<longleftrightarrow> cs \<noteq> [] \<and> True \<notin> set oks"
        "discovery_result s \<in> {DiscoveryJobStatus.COMPLETED, DiscoveryJobStatus.PARTIALLY_COMPLETED, DiscoveryJobStatus.FAILED}"
      using discovery_result_cases [of oks cs s] l by simp_all
    have "discoveries_ok (ds_db s)" "get_row dj_id job_id (discovery_jobs (ds_db s)) = Some (ds_job s)"
        "dj_status (ds_job s) = DiscoveryJobStatus.RUNNING"
      using l b(2) by auto
    from finish_discovery_ok [OF this res(3)] obtain job' d' where fin:
        "finish_discovery job_id actor (discovery_result s) (ds_errors s) (dk_finished clock) (ds_db s) = (Inr job', d')"
        "discovery_finished job'" "dj_status job' = discovery_result s" "dj_id job' = job_id"
        "dj_aws_account_id job' = dj_aws_account_id (ds_job s)" "discoveries_ok d'" "inventory d' = inventory (ds_db s)"
        "assets d' = assets (ds_db s)" "get_row dj_id job_id (discovery_jobs d') = Some job'" "others_kept job_id (ds_db s) d'"
      using res(1) l by (metis (no_types, lifting))
    have "run_result account clock (connect account) d job' d'"
      unfolding run_result_def Inr using fin l b(6,7) res(1,2) discovery_ready_cong [OF b(7,10)] by (simp add: exI [of _ oks])
    moreover have "others_kept job_id d d'" using b(2,9) l fin(10) by (metis others_kept_trans)
    ultimately show ?thesis using b s(1) fin l Inr by (simp add: run_discovery_def)
  qed
qed

lemma no_active_discovery:
  assumes "discoveries_ok d" and "discoveries_ok d'" and "get_row dj_id i (discovery_jobs d) = Some job"
    and "discovery_active job" and "get_row dj_id i (discovery_jobs d') = Some job'" and "\<not> discovery_active job'"
    and "others_kept i d d'"
  shows "active_discovery (dj_aws_account_id job) d' = None"
proof -
  have "\<not> (dj_aws_account_id j = dj_aws_account_id job \<and> discovery_active j)" if j: "j \<in> set (discovery_jobs d')" for j
  proof (cases "dj_id j = i")
    case True
    then have "j = job'"
      using keys_distinct_eq [of dj_id, OF _ j get_row_in [OF assms(5)]] get_row_key [OF assms(5)] assms(2)
      by (simp add: discoveries_ok_def)
    with assms(6) show ?thesis by simp
  next
    case False
    have "get_row dj_id (dj_id j) (discovery_jobs d') = Some j"
      using assms(2) j by (intro get_row_distinct) (simp_all add: discoveries_ok_def)
    then have "j \<in> set (discovery_jobs d)" using assms(7) False by (auto simp: others_kept_def dest: get_row_in)
    with assms(1,3,4) False show ?thesis
      using unique_onD [of discovery_active dj_aws_account_id "discovery_jobs d" j job]
      by (auto simp: discoveries_ok_def discovery_unique_def dest: get_row_in get_row_key)
  qed
  then show ?thesis by (auto simp: active_discovery_def find_None_iff)
qed

lemma start_discovery_result:
  assumes "discoveries_ok d" and "get_row acc_id account_id (aws_accounts d) = Some account"
    and "require_capability (acc_organization_id account) actor DISCOVERY_START d = Inr m"
    and "acc_connection_status account = AWSAccountStatus.CONNECTED" and "active_discovery account_id d = None"
    and "new_id \<notin> dj_id ` set (discovery_jobs d)"
  shows "\<exists>job d'. start_discovery f connect clock account_id actor new_id d = (Inr job, d') \<and> discovery_finished job \<and>
           discoveries_ok d' \<and> active_discovery account_id d' = None \<and> run_result account clock (connect account) d job d'"
proof -
  let ?n = "new_discovery account actor new_id"
  let ?d = "d\<lparr>discovery_jobs := discovery_jobs d @ [?n]\<rparr>"
  have i: "acc_id account = account_id" using assms(2) by (rule get_row_key)
  have n: "dj_id ?n = new_id" "dj_aws_account_id ?n = account_id" "dj_status ?n = DiscoveryJobStatus.PENDING"
      "discovery_constraints ?n"
    using i by (simp_all add: new_discovery_def discovery_constraints_def)
  have k: "keys_distinct dj_id (discovery_jobs d @ [?n])"
    using assms(1,6) n(1) by (simp add: keys_distinct_snoc discoveries_ok_def)
  have u: "discovery_unique (discovery_jobs d @ [?n])"
    using assms(1,5) n(2) by (auto simp: discovery_unique_def unique_on_snoc discoveries_ok_def active_discovery_def find_None_iff)
  have ok: "discoveries_ok ?d" using assms(1) k u n(4) by (simp add: discoveries_ok_def assets_ok_def)
  have row: "get_row dj_id new_id (discovery_jobs ?d) = Some ?n"
    using get_row_distinct [OF k, of ?n] n(1) by simp
  have acc: "get_row acc_id (dj_aws_account_id ?n) (aws_accounts ?d) = Some account" using assms(2) n(2) by simp
  obtain job d' where r: "run_discovery f connect clock new_id actor ?d = (Inr job, d')" "discovery_finished job"
      "discoveries_ok d'" "get_row dj_id new_id (discovery_jobs d') = Some job" "others_kept new_id ?d d'"
      "run_result account clock (connect account) ?d job d'"
    using run_discovery_result [OF ok row n(3) acc] by blast
  have "active_discovery (dj_aws_account_id ?n) d' = None"
    by (rule no_active_discovery [OF ok r(3) row _ r(4) _ r(5)])
      (use n(3) r(2) in \<open>auto simp: discovery_active_def discovery_finished_def\<close>)
  moreover have "run_result account clock (connect account) d job d'" using r(6) discovery_ready_cong [of ?d d] by (simp add: run_result_def split: sum.splits)
  moreover have "insert_discovery ?n d = Inr ?d" using k u n(4) by (simp add: insert_discovery_def)
  ultimately show ?thesis
    using assms(2-5) r(1-3) n(2) by (simp add: start_discovery_def)
qed

end
