(* ===== verification/Collectors.thy ===== *)
theory Collectors
  imports Discovery_Runs Security_Rules
begin

text \<open>
  The collectors of \<^verbatim>\<open>app/services/discovery.py\<close> (EC2, S3, IAM, RDS, CloudWatch, CloudTrail) and the
  synthetic ones of \<^verbatim>\<open>app/services/demo_inventory.py\<close>. A boto3 client is a record: the stream of
  pages of a paginator, an error in place of the page that raises it; the response of a method;
  and what the client has: \<^verbatim>\<open>get_paginator\<close> raises
  \<^verbatim>\<open>OperationNotPageableError\<close>, a \<open>BotoCoreError\<close>, for an operation without pages and
  \<open>KeyError\<close> for one the client does not know. \<open>paginate\<close> is the first branch of \<^verbatim>\<open>paginated_items\<close>, the one boto3
  takes for the operations used here. Every other exception than those the code tells apart is
  \<open>OtherException\<close>.
\<close>

section \<open>Clients\<close>

record AWSClient =
  cl_pages :: "string \<Rightarrow> dict \<Rightarrow> (aws_exn + dict) list"
  cl_call :: "string \<Rightarrow> dict \<Rightarrow> aws_exn + dict"
  cl_has :: "string \<Rightarrow> bool"
  cl_has_paginator :: "string \<Rightarrow> bool"

type_synonym client_factory = "string \<Rightarrow> string option \<Rightarrow> aws_exn + AWSClient"

definition and_then :: "aws_exn + 'a \<Rightarrow> ('a \<Rightarrow> aws_exn + 'b) \<Rightarrow> aws_exn + 'b" where
  "and_then r f = (case r of Inl e \<Rightarrow> Inl e | Inr x \<Rightarrow> f x)"

definition on_dict :: "(dict \<Rightarrow> aws_exn + 'a) \<Rightarrow> json \<Rightarrow> aws_exn + 'a" where
  "on_dict f v = (case v of JDict d \<Rightarrow> f d | _ \<Rightarrow> Inl OtherException)"

text \<open>\<^verbatim>\<open>for item in page.get(key, [])\<close> over dictionaries.\<close>

definition each :: "string \<Rightarrow> (dict \<Rightarrow> aws_exn + 'a list) \<Rightarrow> dict \<Rightarrow> aws_exn + 'a list" where
  "each key f page =
     (case dict_get_default key (JList []) page of
        JList xs \<Rightarrow> collect (on_dict f) xs
      | JDict [] \<Rightarrow> Inr []
      | JStr [] \<Rightarrow> Inr []
      | _ \<Rightarrow> Inl OtherException)"

definition get_paginator :: "AWSClient \<Rightarrow> string \<Rightarrow> aws_exn + unit" where
  "get_paginator client operation =
     (if cl_has_paginator client operation then Inr ()
      else if cl_has client operation then Inl BotoCoreError
      else Inl KeyError)"

definition each_page :: "AWSClient \<Rightarrow> string \<Rightarrow> dict \<Rightarrow> (dict \<Rightarrow> aws_exn + 'a list) \<Rightarrow> aws_exn + 'a list" where
  "each_page client operation kwargs f =
     and_then (get_paginator client operation) (\<lambda>_.
       collect (\<lambda>page. and_then page f) (cl_pages client operation kwargs))"

definition paginate :: "AWSClient \<Rightarrow> string \<Rightarrow> string \<Rightarrow> dict \<Rightarrow> aws_exn + json list" where
  "paginate client operation result_key kwargs =
     each_page client operation kwargs (\<lambda>page.
       case dict_get_default result_key (JList []) page of JList xs \<Rightarrow> Inr xs | _ \<Rightarrow> Inl OtherException)"

definition required :: "string \<Rightarrow> dict \<Rightarrow> aws_exn + string" where
  "required key d = (case map_of d key of None \<Rightarrow> Inl KeyError | Some v \<Rightarrow> Inr (py_str v))"

definition string_or_none :: "json \<Rightarrow> string option" where
  "string_or_none v = (case v of JNull \<Rightarrow> None | v \<Rightarrow> Some (py_str v))"

text \<open>\<^verbatim>\<open>(d.get(key) or {}).get(field)\<close> and \<^verbatim>\<open>d.get(key, {}).get(field)\<close>.\<close>

definition get_in :: "string \<Rightarrow> string \<Rightarrow> dict \<Rightarrow> aws_exn + json" where
  "get_in key field d =
     (let v = dict_get key d in
      if \<not> py_truthy v then Inr JNull else on_dict (\<lambda>s. Inr (dict_get field s)) v)"

definition get_below :: "string \<Rightarrow> string \<Rightarrow> dict \<Rightarrow> aws_exn + json" where
  "get_below key field d = on_dict (\<lambda>s. Inr (dict_get field s)) (dict_get_default key (JDict []) d)"

section \<open>Tags\<close>

fun add_tags :: "json list \<Rightarrow> (string \<times> string) list \<Rightarrow> aws_exn + (string \<times> string) list" where
  "add_tags [] tags = Inr tags"
| "add_tags (tag # rest) tags =
     and_then (on_dict Inr tag) (\<lambda>d.
       let key = dict_get ''Key'' d in
       add_tags rest
         (if py_truthy key \<and> \<not> SENSITIVE_KEYS (py_str key) then
            AList.update (py_str key) (py_str (dict_get_default ''Value'' (JStr []) d)) tags
          else tags))"

definition tags_dict :: "json \<Rightarrow> aws_exn + (string \<times> string) list" where
  "tags_dict tags =
     (if \<not> py_truthy tags then Inr []
      else case tags of JList xs \<Rightarrow> add_tags xs [] | _ \<Rightarrow> Inl OtherException)"

definition iam_tags :: "AWSClient \<Rightarrow> string \<Rightarrow> string \<Rightarrow> string \<Rightarrow> aws_exn + (string \<times> string) list" where
  "iam_tags client operation argument v =
     (if cl_has_paginator client operation then
        and_then (paginate client operation ''Tags'' [(argument, JStr v)]) (\<lambda>tags. tags_dict (JList tags))
      else and_then (cl_call client operation [(argument, JStr v)]) (\<lambda>r. tags_dict (dict_get ''Tags'' r)))"

section \<open>EC2\<close>

definition SECURITY_GROUP_RULE_FIELDS :: "string list" where
  "SECURITY_GROUP_RULE_FIELDS =
     [''GroupId'', ''SecurityGroupRuleId'', ''IsEgress'', ''IpProtocol'', ''FromPort'', ''ToPort'', ''CidrIpv4'',
      ''CidrIpv6'', ''PrefixListId'', ''ReferencedGroupInfo'', ''Description'']"

definition rule_evidence :: "(string \<Rightarrow> string option) \<Rightarrow> string \<Rightarrow> json \<Rightarrow> dict list" where
  "rule_evidence isoformat group_id rule =
     (case rule of
        JDict d \<Rightarrow>
          if dict_get ''GroupId'' d \<noteq> JStr group_id then []
          else
            [map (\<lambda>field. (field, if field = ''IsEgress'' then JBool (dict_get field d = JBool True)
                                  else json_safe isoformat (dict_get field d)))
               (filter (\<lambda>field. dict_has field d) SECURITY_GROUP_RULE_FIELDS)]
      | _ \<Rightarrow> [])"

definition evidence_key :: "dict \<Rightarrow> string list" where
  "evidence_key rule =
     [py_str (dict_get_default ''GroupId'' (JStr []) rule),
      py_str (dict_get_default ''SecurityGroupRuleId'' (JStr []) rule), json_dumps (JDict rule)]"

definition security_group_rule_evidence ::
    "(string \<Rightarrow> string option) \<Rightarrow> AWSClient \<Rightarrow> string \<Rightarrow> aws_exn + dict list" where
  "security_group_rule_evidence isoformat client group_id =
     and_then
       (paginate client ''describe_security_group_rules'' ''SecurityGroupRules''
          [(''Filters'', JList [JDict [(''Name'', JStr ''group-id''), (''Values'', JList [JStr group_id])]])])
       (\<lambda>rules. Inr (sort_key evidence_key (concat (map (rule_evidence isoformat group_id) rules))))"

definition ec2_instance ::
    "(string \<Rightarrow> string option) \<Rightarrow> string \<Rightarrow> string \<Rightarrow> dict \<Rightarrow> aws_exn + NormalizedAsset list" where
  "ec2_instance isoformat region account_id instance_data =
     and_then (required ''InstanceId'' instance_data) (\<lambda>instance_id.
     and_then (tags_dict (dict_get ''Tags'' instance_data)) (\<lambda>tags.
     and_then (get_below ''State'' ''Name'' instance_data) (\<lambda>state.
     and_then (each ''SecurityGroups'' (\<lambda>g. Inr [dict_get ''GroupId'' g]) instance_data) (\<lambda>groups.
     and_then (get_in ''MetadataOptions'' ''HttpTokens'' instance_data) (\<lambda>http_tokens.
     and_then (get_in ''MetadataOptions'' ''HttpEndpoint'' instance_data) (\<lambda>http_endpoint.
       Inr [\<lparr>nz_asset_type = AssetType.EC2_INSTANCE, nz_resource_id = instance_id,
             nz_arn = Some (''arn:aws:ec2:'' @ region @ '':'' @ account_id @ '':instance/'' @ instance_id),
             nz_name = (case map_of tags ''Name'' of None \<Rightarrow> instance_id | Some n \<Rightarrow> n), nz_region = region,
             nz_status = string_or_none state, nz_tags = tags,
             nz_metadata = json_safe_dict isoformat
               [(''instance_type'', dict_get ''InstanceType'' instance_data), (''vpc_id'', dict_get ''VpcId'' instance_data),
                (''subnet_id'', dict_get ''SubnetId'' instance_data), (''security_group_ids'', JList groups),
                (''launch_time'', dict_get ''LaunchTime'' instance_data),
                (''has_public_ip'', JBool (py_truthy (dict_get ''PublicIpAddress'' instance_data))),
                (''metadata_options'', JDict [(''http_tokens'', http_tokens), (''http_endpoint'', http_endpoint)])]\<rparr>]))))))"

definition ec2_group ::
    "(string \<Rightarrow> string option) \<Rightarrow> AWSClient \<Rightarrow> string \<Rightarrow> string \<Rightarrow> dict \<Rightarrow> aws_exn + NormalizedAsset list" where
  "ec2_group isoformat client region account_id grp =
     and_then (required ''GroupId'' grp) (\<lambda>group_id.
     and_then (tags_dict (dict_get ''Tags'' grp)) (\<lambda>tags.
     and_then (security_group_rule_evidence isoformat client group_id) (\<lambda>evidence.
       Inr [\<lparr>nz_asset_type = AssetType.EC2_SECURITY_GROUP, nz_resource_id = group_id,
             nz_arn = Some (''arn:aws:ec2:'' @ region @ '':'' @ account_id @ '':security-group/'' @ group_id),
             nz_name = py_str (dict_get_default ''GroupName'' (JStr group_id) grp), nz_region = region,
             nz_status = Some ''active'', nz_tags = tags,
             nz_metadata = json_safe_dict isoformat
               [(''description'', dict_get ''Description'' grp), (''vpc_id'', dict_get ''VpcId'' grp),
                (''ip_permissions'', dict_get_default ''IpPermissions'' (JList []) grp),
                (''ip_permissions_egress'', dict_get_default ''IpPermissionsEgress'' (JList []) grp),
                (''security_group_rules'', JList (map JDict evidence))]\<rparr>])))"

definition ec2_volume ::
    "(string \<Rightarrow> string option) \<Rightarrow> string \<Rightarrow> string \<Rightarrow> dict \<Rightarrow> aws_exn + NormalizedAsset list" where
  "ec2_volume isoformat region account_id volume =
     and_then (required ''VolumeId'' volume) (\<lambda>volume_id.
     and_then (tags_dict (dict_get ''Tags'' volume)) (\<lambda>tags.
       Inr [\<lparr>nz_asset_type = AssetType.EBS_VOLUME, nz_resource_id = volume_id,
             nz_arn = Some (''arn:aws:ec2:'' @ region @ '':'' @ account_id @ '':volume/'' @ volume_id),
             nz_name = (case map_of tags ''Name'' of None \<Rightarrow> volume_id | Some n \<Rightarrow> n), nz_region = region,
             nz_status = string_or_none (dict_get ''State'' volume), nz_tags = tags,
             nz_metadata = json_safe_dict isoformat
               [(''encrypted'', dict_get ''Encrypted'' volume), (''volume_type'', dict_get ''VolumeType'' volume),
                (''size_gib'', dict_get ''Size'' volume), (''snapshot_id'', dict_get ''SnapshotId'' volume)]\<rparr>]))"

text \<open>The groups and the volumes are optional for a client that does not know the operation.\<close>

definition optional_pages :: "AWSClient \<Rightarrow> string \<Rightarrow> (dict \<Rightarrow> aws_exn + 'a list) \<Rightarrow> aws_exn + 'a list" where
  "optional_pages client operation f =
     (if get_paginator client operation = Inl KeyError then Inr [] else each_page client operation [] f)"

definition ec2_region ::
    "(string \<Rightarrow> string option) \<Rightarrow> client_factory \<Rightarrow> string \<Rightarrow> string \<Rightarrow> aws_exn + NormalizedAsset list" where
  "ec2_region isoformat factory account_id region =
     and_then (factory ''ec2'' (Some region)) (\<lambda>client.
     and_then (each_page client ''describe_instances'' []
         (each ''Reservations'' (each ''Instances'' (ec2_instance isoformat region account_id)))) (\<lambda>instances.
     and_then (optional_pages client ''describe_security_groups''
         (each ''SecurityGroups'' (ec2_group isoformat client region account_id))) (\<lambda>groups.
     and_then (optional_pages client ''describe_volumes''
         (each ''Volumes'' (ec2_volume isoformat region account_id))) (\<lambda>volumes.
       Inr (instances @ groups @ volumes)))))"

definition EC2DiscoveryService :: "(string \<Rightarrow> string option) \<Rightarrow> client_factory \<Rightarrow> string list \<Rightarrow> DiscoveryCollector" where
  "EC2DiscoveryService isoformat factory regions =
     \<lparr>dc_name = ''ec2'',
      dc_asset_types = [AssetType.EC2_INSTANCE, AssetType.EC2_SECURITY_GROUP, AssetType.EBS_VOLUME],
      dc_discover = (\<lambda>account_id. collect (ec2_region isoformat factory account_id) regions)\<rparr>"

section \<open>S3\<close>

definition S3_PUBLIC_ACCESS_BLOCK_KEYS :: "string list" where
  "S3_PUBLIC_ACCESS_BLOCK_KEYS = [''BlockPublicAcls'', ''IgnorePublicAcls'', ''BlockPublicPolicy'', ''RestrictPublicBuckets'']"

definition bucket_tags :: "AWSClient \<Rightarrow> string \<Rightarrow> aws_exn + (string \<times> string) list" where
  "bucket_tags client name =
     (case cl_call client ''get_bucket_tagging'' [(''Bucket'', JStr name)] of
        Inr r \<Rightarrow> tags_dict (dict_get ''TagSet'' r)
      | Inl (ClientError code) \<Rightarrow>
          if code \<in> {''NoSuchTagSet'', ''NoSuchTagSetError''} then Inr [] else Inl (ClientError code)
      | Inl e \<Rightarrow> Inl e)"

definition optional_calls :: "(string \<times> string) list" where
  "optional_calls =
     [(''get_public_access_block'', ''PublicAccessBlockConfiguration''), (''get_bucket_acl'', ''Grants''),
      (''get_bucket_policy_status'', ''PolicyStatus''),
      (''get_bucket_encryption'', ''ServerSideEncryptionConfiguration''), (''get_bucket_versioning'', ''Status''),
      (''get_bucket_logging'', ''LoggingEnabled'')]"

definition optional_call :: "AWSClient \<Rightarrow> string \<Rightarrow> string \<times> string \<Rightarrow> aws_exn + dict" where
  "optional_call client name call =
     (let operation = fst call in
      if \<not> cl_has client operation then Inr []
      else
        (case cl_call client operation [(''Bucket'', JStr name)] of
           Inr r \<Rightarrow> Inr [(operation, dict_get (snd call) r)]
         | Inl (ClientError code) \<Rightarrow>
             if operation = ''get_public_access_block'' \<and> code = ''NoSuchPublicAccessBlockConfiguration'' then
               Inr [(operation, JNull)]
             else if code \<in> {''ServerSideEncryptionConfigurationNotFoundError'', ''NoSuchBucketPolicy''} then Inr []
             else Inl (ClientError code)
         | Inl e \<Rightarrow> Inl e))"

definition block_metadata :: "dict \<Rightarrow> dict" where
  "block_metadata values =
     (if dict_has ''get_public_access_block'' values then
        (case dict_get ''get_public_access_block'' values of
           JDict block \<Rightarrow>
             let normalized = map (\<lambda>key. (key, dict_get key block = JBool True))
                   (filter (\<lambda>key. dict_has key block) S3_PUBLIC_ACCESS_BLOCK_KEYS)
             in [(''public_access_block'', JDict (map (\<lambda>kv. (fst kv, JBool (snd kv))) normalized)),
                 (''public_access_block_complete'',
                  JBool (length normalized = length S3_PUBLIC_ACCESS_BLOCK_KEYS \<and> list_all snd normalized))]
         | _ \<Rightarrow> [(''public_access_block'', JNull), (''public_access_block_complete'', JBool False)])
      else [])"

definition public_uris :: "string list" where
  "public_uris =
     [''http://acs.amazonaws.com/groups/global/AllUsers'', ''http://acs.amazonaws.com/groups/global/AuthenticatedUsers'']"

fun any_public :: "json list \<Rightarrow> aws_exn + bool" where
  "any_public [] = Inr False"
| "any_public (grant # grants) =
     and_then (case grant of JDict d \<Rightarrow> get_in ''Grantee'' ''URI'' d | _ \<Rightarrow> Inr JNull) (\<lambda>uri.
       if uri \<in> JStr ` set public_uris then Inr True else any_public grants)"

definition access_metadata :: "dict \<Rightarrow> aws_exn + dict" where
  "access_metadata values =
     (case dict_get ''get_bucket_acl'' values of
        JList grants \<Rightarrow>
          and_then (any_public grants) (\<lambda>public_acl.
          and_then (get_in ''get_bucket_policy_status'' ''IsPublic'' values) (\<lambda>is_public.
            Inr [(''public_access_signals'',
                  JDict [(''public_acl'', JBool public_acl), (''public_policy'', JBool (py_truthy is_public))])]))
      | _ \<Rightarrow> Inr [])"

definition value_metadata :: "string \<Rightarrow> string \<Rightarrow> (json \<Rightarrow> bool) \<Rightarrow> dict \<Rightarrow> dict" where
  "value_metadata operation field f values =
     (if dict_has operation values then [(field, JBool (f (dict_get operation values)))] else [])"

definition policy_metadata ::
    "(string \<Rightarrow> string option) \<Rightarrow> (string \<Rightarrow> json option) \<Rightarrow> AWSClient \<Rightarrow> string \<Rightarrow> aws_exn + dict" where
  "policy_metadata isoformat loads client name =
     (if \<not> cl_has client ''get_bucket_policy'' then Inr []
      else
        (case cl_call client ''get_bucket_policy'' [(''Bucket'', JStr name)] of
           Inr r \<Rightarrow> Inr [(''policy_document'', bounded_policy_document isoformat loads (dict_get ''Policy'' r))]
         | Inl e \<Rightarrow> if e = ClientError ''NoSuchBucketPolicy'' then Inr [(''policy_document'', JNull)] else Inl e))"

definition s3_bucket ::
    "(string \<Rightarrow> string option) \<Rightarrow> (string \<Rightarrow> json option) \<Rightarrow> AWSClient \<Rightarrow> dict \<Rightarrow> aws_exn + NormalizedAsset list" where
  "s3_bucket isoformat loads client bucket =
     and_then (required ''Name'' bucket) (\<lambda>name.
     and_then (cl_call client ''get_bucket_location'' [(''Bucket'', JStr name)]) (\<lambda>r.
     and_then (bucket_tags client name) (\<lambda>tags.
     and_then (collect (optional_call client name) optional_calls) (\<lambda>values.
     and_then (access_metadata values) (\<lambda>signals.
     and_then (policy_metadata isoformat loads client name) (\<lambda>policy.
       let location = dict_get ''LocationConstraint'' r in
       Inr [\<lparr>nz_asset_type = AssetType.S3_BUCKET, nz_resource_id = name, nz_arn = Some (''arn:aws:s3:::'' @ name),
             nz_name = name, nz_region = (if py_truthy location then py_str location else ''us-east-1''),
             nz_status = Some ''available'', nz_tags = tags,
             nz_metadata = json_safe_dict isoformat
               ([(''creation_date'', dict_get ''CreationDate'' bucket)] @ block_metadata values @ signals @
                value_metadata ''get_bucket_encryption'' ''default_encryption_enabled'' py_truthy values @
                value_metadata ''get_bucket_versioning'' ''versioning_enabled'' (\<lambda>v. v = JStr ''Enabled'') values @
                value_metadata ''get_bucket_logging'' ''logging_enabled'' py_truthy values @ policy)\<rparr>]))))))"

definition S3DiscoveryService ::
    "(string \<Rightarrow> string option) \<Rightarrow> (string \<Rightarrow> json option) \<Rightarrow> client_factory \<Rightarrow> DiscoveryCollector" where
  "S3DiscoveryService isoformat loads factory =
     \<lparr>dc_name = ''s3'', dc_asset_types = [AssetType.S3_BUCKET],
      dc_discover = (\<lambda>account_id.
        and_then (factory ''s3'' None) (\<lambda>client.
          each_page client ''list_buckets'' [] (each ''Buckets'' (s3_bucket isoformat loads client))))\<rparr>"

section \<open>IAM\<close>

record iam_spec =
  sp_operation :: string
  sp_key :: string
  sp_asset_type :: AssetType
  sp_id_key :: string
  sp_name_key :: string

definition iam_specs :: "iam_spec list" where
  "iam_specs =
     [\<lparr>sp_operation = ''list_users'', sp_key = ''Users'', sp_asset_type = AssetType.IAM_USER,
       sp_id_key = ''UserId'', sp_name_key = ''UserName''\<rparr>,
      \<lparr>sp_operation = ''list_roles'', sp_key = ''Roles'', sp_asset_type = AssetType.IAM_ROLE,
       sp_id_key = ''RoleId'', sp_name_key = ''RoleName''\<rparr>,
      \<lparr>sp_operation = ''list_groups'', sp_key = ''Groups'', sp_asset_type = AssetType.IAM_GROUP,
       sp_id_key = ''GroupId'', sp_name_key = ''GroupName''\<rparr>,
      \<lparr>sp_operation = ''list_policies'', sp_key = ''Policies'', sp_asset_type = AssetType.IAM_POLICY,
       sp_id_key = ''PolicyId'', sp_name_key = ''PolicyName''\<rparr>]"

fun tag_method :: "AssetType \<Rightarrow> (string \<times> string) option" where
  "tag_method AssetType.IAM_USER = Some (''list_user_tags'', ''UserName'')"
| "tag_method AssetType.IAM_ROLE = Some (''list_role_tags'', ''RoleName'')"
| "tag_method AssetType.IAM_POLICY = Some (''list_policy_tags'', ''PolicyArn'')"
| "tag_method _ = None"

definition iam_item_tags :: "AWSClient \<Rightarrow> iam_spec \<Rightarrow> dict \<Rightarrow> aws_exn + (string \<times> string) list" where
  "iam_item_tags client spec item =
     (case tag_method (sp_asset_type spec) of
        None \<Rightarrow> Inr []
      | Some (operation, argument) \<Rightarrow>
          if cl_has client operation then
            and_then (required (if sp_asset_type spec = AssetType.IAM_POLICY then ''Arn'' else sp_name_key spec) item)
              (iam_tags client operation argument)
          else Inr [])"

text \<open>The prefix of the operations on a principal and its title case.\<close>

fun iam_prefix :: "AssetType \<Rightarrow> (string \<times> string) option" where
  "iam_prefix AssetType.IAM_USER = Some (''user'', ''UserName'')"
| "iam_prefix AssetType.IAM_ROLE = Some (''role'', ''RoleName'')"
| "iam_prefix AssetType.IAM_GROUP = Some (''group'', ''GroupName'')"
| "iam_prefix _ = None"

definition attached_policies :: "AWSClient \<Rightarrow> string \<Rightarrow> string \<Rightarrow> string \<Rightarrow> aws_exn + dict" where
  "attached_policies client prefix argument name =
     (let operation = ''list_attached_'' @ prefix @ ''_policies'' in
      if cl_has client operation then
        and_then (paginate client operation ''AttachedPolicies'' [(argument, JStr name)]) (\<lambda>attached.
        and_then (collect (on_dict (\<lambda>p. Inr [dict_get ''PolicyArn'' p])) attached) (\<lambda>arns.
          Inr [(''attached_policy_arns'', JList (filter py_truthy arns))]))
      else Inr [])"

definition inline_document ::
    "(string \<Rightarrow> string option) \<Rightarrow> (string \<Rightarrow> json option) \<Rightarrow> AWSClient \<Rightarrow> string \<Rightarrow> string \<Rightarrow> string \<Rightarrow> json \<Rightarrow> aws_exn + json list" where
  "inline_document isoformat loads client operation argument name policy_name =
     and_then (cl_call client operation [(argument, JStr name), (''PolicyName'', policy_name)]) (\<lambda>r.
       Inr [bounded_policy_document isoformat loads (dict_get_default ''PolicyDocument'' (JDict []) r)])"

definition inline_policies ::
    "(string \<Rightarrow> string option) \<Rightarrow> (string \<Rightarrow> json option) \<Rightarrow> AWSClient \<Rightarrow> string \<Rightarrow> string \<Rightarrow> string \<Rightarrow> aws_exn + dict" where
  "inline_policies isoformat loads client prefix argument name =
     and_then
       (if cl_has client (''list_'' @ prefix @ ''_policies'') then
          paginate client (''list_'' @ prefix @ ''_policies'') ''PolicyNames'' [(argument, JStr name)]
        else Inr []) (\<lambda>names.
     and_then
       (if cl_has client (''get_'' @ prefix @ ''_policy'') then
          collect (inline_document isoformat loads client (''get_'' @ prefix @ ''_policy'') argument name) (take 100 names)
        else Inr []) (\<lambda>documents.
       Inr [(''inline_policy_names'', JList (take 100 names)), (''inline_policy_documents'', JList documents)]))"

definition principal_metadata ::
    "(string \<Rightarrow> string option) \<Rightarrow> (string \<Rightarrow> json option) \<Rightarrow> AWSClient \<Rightarrow> iam_spec \<Rightarrow> dict \<Rightarrow> aws_exn + dict" where
  "principal_metadata isoformat loads client spec item =
     (case iam_prefix (sp_asset_type spec) of
        None \<Rightarrow> Inr []
      | Some (prefix, argument) \<Rightarrow>
          and_then (required (sp_name_key spec) item) (\<lambda>name.
          and_then (attached_policies client prefix argument name) (\<lambda>attached.
          and_then (inline_policies isoformat loads client prefix argument name) (\<lambda>inline.
            Inr (attached @ inline)))))"

definition console_access :: "AWSClient \<Rightarrow> string \<Rightarrow> aws_exn + dict" where
  "console_access client username =
     (if cl_has client ''get_login_profile'' then
        (case cl_call client ''get_login_profile'' [(''UserName'', JStr username)] of
           Inr _ \<Rightarrow> Inr [(''console_access'', JBool True)]
         | Inl e \<Rightarrow> if e = ClientError ''NoSuchEntity'' then Inr [(''console_access'', JBool False)] else Inl e)
      else Inr [])"

definition mfa_enabled :: "AWSClient \<Rightarrow> string \<Rightarrow> aws_exn + dict" where
  "mfa_enabled client username =
     (if cl_has client ''list_mfa_devices'' then
        and_then (paginate client ''list_mfa_devices'' ''MFADevices'' [(''UserName'', JStr username)]) (\<lambda>devices.
          Inr [(''mfa_enabled'', JBool (devices \<noteq> []))])
      else Inr [])"

definition key_created :: "(string \<Rightarrow> string option) \<Rightarrow> dict \<Rightarrow> json list" where
  "key_created isoformat key =
     (case dict_get ''CreateDate'' key of
        JObj s \<Rightarrow>
          (case isoformat s of
             None \<Rightarrow> []
           | Some t \<Rightarrow> if dict_get ''Status'' key = JStr ''Active'' then [JStr t] else [])
      | _ \<Rightarrow> [])"

definition access_keys :: "(string \<Rightarrow> string option) \<Rightarrow> AWSClient \<Rightarrow> string \<Rightarrow> aws_exn + dict" where
  "access_keys isoformat client username =
     (if cl_has client ''list_access_keys'' then
        and_then (paginate client ''list_access_keys'' ''AccessKeyMetadata'' [(''UserName'', JStr username)]) (\<lambda>keys.
        and_then (collect (on_dict (\<lambda>k. Inr (key_created isoformat k))) keys) (\<lambda>created.
          Inr [(''active_key_created_at'', JList created)]))
      else Inr [])"

definition user_metadata :: "(string \<Rightarrow> string option) \<Rightarrow> AWSClient \<Rightarrow> iam_spec \<Rightarrow> dict \<Rightarrow> aws_exn + dict" where
  "user_metadata isoformat client spec item =
     (if sp_asset_type spec = AssetType.IAM_USER then
        and_then (required (sp_name_key spec) item) (\<lambda>username.
        and_then (console_access client username) (\<lambda>console.
        and_then (mfa_enabled client username) (\<lambda>mfa.
        and_then (access_keys isoformat client username) (\<lambda>keys. Inr (console @ mfa @ keys)))))
      else Inr [])"

definition iam_metadata :: "iam_spec \<Rightarrow> dict \<Rightarrow> dict \<Rightarrow> dict \<Rightarrow> dict" where
  "iam_metadata spec item principal_data user_data =
     [(''path'', dict_get ''Path'' item), (''creation_date'', dict_get ''CreateDate'' item)] @ principal_data @ user_data @
     (if sp_asset_type spec = AssetType.IAM_ROLE then
        [(''max_session_duration'', dict_get ''MaxSessionDuration'' item)] else []) @
     (if sp_asset_type spec = AssetType.IAM_POLICY then
        [(''attachment_count'', dict_get ''AttachmentCount'' item), (''update_date'', dict_get ''UpdateDate'' item)] else [])"

definition iam_asset ::
    "(string \<Rightarrow> string option) \<Rightarrow> (string \<Rightarrow> json option) \<Rightarrow> AWSClient \<Rightarrow> iam_spec \<Rightarrow> string \<Rightarrow> dict \<Rightarrow> aws_exn + NormalizedAsset" where
  "iam_asset isoformat loads client spec resource_id item =
     and_then (iam_item_tags client spec item) (\<lambda>tags.
     and_then (principal_metadata isoformat loads client spec item) (\<lambda>principal_data.
     and_then (user_metadata isoformat client spec item) (\<lambda>user_data.
     and_then (required (sp_name_key spec) item) (\<lambda>name.
       Inr \<lparr>nz_asset_type = sp_asset_type spec, nz_resource_id = resource_id,
            nz_arn = string_or_none (dict_get ''Arn'' item), nz_name = name, nz_region = ''global'',
            nz_status = Some ''active'', nz_tags = tags,
            nz_metadata = json_safe_dict isoformat (iam_metadata spec item principal_data user_data)\<rparr>))))"

text \<open>The items of a paginator one by one, and the loop over them that skips identities already seen.\<close>

definition page_stream :: "AWSClient \<Rightarrow> string \<Rightarrow> string \<Rightarrow> dict \<Rightarrow> (aws_exn + json) list" where
  "page_stream client operation key kwargs =
     (case get_paginator client operation of
        Inl e \<Rightarrow> [Inl e]
      | Inr _ \<Rightarrow>
          concat (map (\<lambda>page.
            case page of
              Inl e \<Rightarrow> [Inl e]
            | Inr d \<Rightarrow>
                (case dict_get_default key (JList []) d of JList xs \<Rightarrow> map Inr xs | _ \<Rightarrow> [Inl OtherException]))
          (cl_pages client operation kwargs)))"

fun iam_items ::
    "(string \<Rightarrow> string option) \<Rightarrow> (string \<Rightarrow> json option) \<Rightarrow> AWSClient \<Rightarrow> iam_spec \<Rightarrow> (aws_exn + json) list \<Rightarrow>
     (AssetType \<times> string) list \<times> NormalizedAsset list \<Rightarrow> aws_exn + (AssetType \<times> string) list \<times> NormalizedAsset list" where
  "iam_items isoformat loads client spec [] s = Inr s"
| "iam_items isoformat loads client spec (r # rs) (seen, found) =
     and_then r (\<lambda>v. and_then (on_dict Inr v) (\<lambda>item. and_then (required (sp_id_key spec) item) (\<lambda>resource_id.
       let identity = (sp_asset_type spec, resource_id) in
       if identity \<in> set seen then iam_items isoformat loads client spec rs (seen, found)
       else
         and_then (iam_asset isoformat loads client spec resource_id item) (\<lambda>a.
           iam_items isoformat loads client spec rs (identity # seen, found @ [a])))))"

fun iam_walk ::
    "(string \<Rightarrow> string option) \<Rightarrow> (string \<Rightarrow> json option) \<Rightarrow> AWSClient \<Rightarrow> iam_spec list \<Rightarrow>
     (AssetType \<times> string) list \<times> NormalizedAsset list \<Rightarrow> aws_exn + NormalizedAsset list" where
  "iam_walk isoformat loads client [] (seen, found) = Inr found"
| "iam_walk isoformat loads client (spec # specs) s =
     and_then
       (iam_items isoformat loads client spec
          (page_stream client (sp_operation spec) (sp_key spec)
             (if sp_operation spec = ''list_policies'' then [(''Scope'', JStr ''Local'')] else [])) s)
       (iam_walk isoformat loads client specs)"

definition IAMDiscoveryService ::
    "(string \<Rightarrow> string option) \<Rightarrow> (string \<Rightarrow> json option) \<Rightarrow> client_factory \<Rightarrow> DiscoveryCollector" where
  "IAMDiscoveryService isoformat loads factory =
     \<lparr>dc_name = ''iam'',
      dc_asset_types = [AssetType.IAM_USER, AssetType.IAM_ROLE, AssetType.IAM_GROUP, AssetType.IAM_POLICY],
      dc_discover = (\<lambda>account_id.
        and_then (factory ''iam'' None) (\<lambda>client. iam_walk isoformat loads client iam_specs ([], [])))\<rparr>"

section \<open>RDS\<close>

definition rds_instance ::
    "(string \<Rightarrow> string option) \<Rightarrow> AWSClient \<Rightarrow> string \<Rightarrow> dict \<Rightarrow> aws_exn + NormalizedAsset list" where
  "rds_instance isoformat client region item =
     (let arn = dict_get ''DBInstanceArn'' item in
      and_then
        (if py_truthy arn then
           and_then (cl_call client ''list_tags_for_resource'' [(''ResourceName'', arn)]) (\<lambda>r. tags_dict (dict_get ''TagList'' r))
         else Inr []) (\<lambda>tags.
      and_then (get_in ''DBSubnetGroup'' ''VpcId'' item) (\<lambda>vpc_id.
      and_then (required ''DBInstanceIdentifier'' item) (\<lambda>identifier.
        Inr [\<lparr>nz_asset_type = AssetType.RDS_INSTANCE, nz_resource_id = identifier, nz_arn = string_or_none arn,
              nz_name = identifier, nz_region = region,
              nz_status = string_or_none (dict_get ''DBInstanceStatus'' item), nz_tags = tags,
              nz_metadata = json_safe_dict isoformat
                [(''engine'', dict_get ''Engine'' item), (''engine_version'', dict_get ''EngineVersion'' item),
                 (''instance_class'', dict_get ''DBInstanceClass'' item),
                 (''endpoint'', json_safe isoformat (dict_get ''Endpoint'' item)), (''multi_az'', dict_get ''MultiAZ'' item),
                 (''vpc_id'', vpc_id), (''publicly_accessible'', dict_get ''PubliclyAccessible'' item),
                 (''storage_encrypted'', dict_get ''StorageEncrypted'' item),
                 (''backup_retention_period'', dict_get ''BackupRetentionPeriod'' item),
                 (''auto_minor_version_upgrade'', dict_get ''AutoMinorVersionUpgrade'' item),
                 (''deletion_protection'', dict_get ''DeletionProtection'' item)]\<rparr>]))))"

definition rds_region :: "(string \<Rightarrow> string option) \<Rightarrow> client_factory \<Rightarrow> string \<Rightarrow> aws_exn + NormalizedAsset list" where
  "rds_region isoformat factory region =
     and_then (factory ''rds'' (Some region)) (\<lambda>client.
       each_page client ''describe_db_instances'' [] (each ''DBInstances'' (rds_instance isoformat client region)))"

definition RDSDiscoveryService :: "(string \<Rightarrow> string option) \<Rightarrow> client_factory \<Rightarrow> string list \<Rightarrow> DiscoveryCollector" where
  "RDSDiscoveryService isoformat factory regions =
     \<lparr>dc_name = ''rds'', dc_asset_types = [AssetType.RDS_INSTANCE],
      dc_discover = (\<lambda>account_id. collect (rds_region isoformat factory) regions)\<rparr>"

section \<open>CloudWatch\<close>

definition cloudwatch_alarm :: "(string \<Rightarrow> string option) \<Rightarrow> string \<Rightarrow> dict \<Rightarrow> aws_exn + NormalizedAsset list" where
  "cloudwatch_alarm isoformat region alarm =
     and_then (required ''AlarmName'' alarm) (\<lambda>name.
       Inr [\<lparr>nz_asset_type = AssetType.CLOUDWATCH_ALARM, nz_resource_id = region @ '':'' @ name,
             nz_arn = string_or_none (dict_get ''AlarmArn'' alarm), nz_name = name, nz_region = region,
             nz_status = string_or_none (dict_get ''StateValue'' alarm), nz_tags = [],
             nz_metadata = json_safe_dict isoformat
               [(''actions_enabled'', dict_get ''ActionsEnabled'' alarm),
                (''alarm_actions'', dict_get_default ''AlarmActions'' (JList []) alarm),
                (''ok_actions'', dict_get_default ''OKActions'' (JList []) alarm),
                (''insufficient_data_actions'', dict_get_default ''InsufficientDataActions'' (JList []) alarm),
                (''metric_name'', dict_get ''MetricName'' alarm), (''namespace'', dict_get ''Namespace'' alarm),
                (''dimensions'', dict_get_default ''Dimensions'' (JList []) alarm),
                (''state'', dict_get ''StateValue'' alarm),
                (''comparison_operator'', dict_get ''ComparisonOperator'' alarm)]\<rparr>])"

definition log_group ::
    "(string \<Rightarrow> string option) \<Rightarrow> AWSClient \<Rightarrow> string \<Rightarrow> dict \<Rightarrow> aws_exn + NormalizedAsset list" where
  "log_group isoformat logs region grp =
     and_then (required ''logGroupName'' grp) (\<lambda>name.
     and_then (paginate logs ''describe_metric_filters'' ''metricFilters''
         [(''logGroupName'', JStr name), (''limit'', JInt 50)]) (\<lambda>metric_filters.
     and_then (paginate logs ''describe_subscription_filters'' ''subscriptionFilters''
         [(''logGroupName'', JStr name), (''limit'', JInt 50)]) (\<lambda>subscriptions.
       Inr [\<lparr>nz_asset_type = AssetType.CLOUDWATCH_LOG_GROUP, nz_resource_id = region @ '':'' @ name,
             nz_arn = string_or_none (dict_get ''arn'' grp), nz_name = name, nz_region = region,
             nz_status = Some ''active'', nz_tags = [],
             nz_metadata = json_safe_dict isoformat
               [(''retention_days'', dict_get ''retentionInDays'' grp),
                (''kms_encrypted'', JBool (py_truthy (dict_get ''kmsKeyId'' grp))),
                (''metric_filter_count'', JInt (int (length metric_filters))),
                (''subscription_filter_count'', JInt (int (length subscriptions)))]\<rparr>])))"

text \<open>A factory that lacks one of the services ends the collection with nothing.\<close>

fun cloudwatch_regions ::
    "(string \<Rightarrow> string option) \<Rightarrow> client_factory \<Rightarrow> string list \<Rightarrow> NormalizedAsset list \<Rightarrow> aws_exn + NormalizedAsset list" where
  "cloudwatch_regions isoformat factory [] found = Inr found"
| "cloudwatch_regions isoformat factory (region # regions) found =
     (case and_then (factory ''cloudwatch'' (Some region)) (\<lambda>cloudwatch.
             and_then (factory ''logs'' (Some region)) (\<lambda>logs. Inr (cloudwatch, logs))) of
        Inl e \<Rightarrow> if e = KeyError then Inr [] else Inl e
      | Inr (cloudwatch, logs) \<Rightarrow>
          and_then (each_page cloudwatch ''describe_alarms'' [] (each ''MetricAlarms'' (cloudwatch_alarm isoformat region))) (\<lambda>alarms.
          and_then (each_page logs ''describe_log_groups'' [] (each ''logGroups'' (log_group isoformat logs region))) (\<lambda>groups.
            cloudwatch_regions isoformat factory regions (found @ alarms @ groups))))"

definition CloudWatchDiscoveryService ::
    "(string \<Rightarrow> string option) \<Rightarrow> client_factory \<Rightarrow> string list \<Rightarrow> DiscoveryCollector" where
  "CloudWatchDiscoveryService isoformat factory regions =
     \<lparr>dc_name = ''cloudwatch'', dc_asset_types = [AssetType.CLOUDWATCH_ALARM, AssetType.CLOUDWATCH_LOG_GROUP],
      dc_discover = (\<lambda>account_id. cloudwatch_regions isoformat factory regions [])\<rparr>"

section \<open>CloudTrail\<close>

definition py_len :: "json \<Rightarrow> aws_exn + int" where
  "py_len v =
     (case v of
        JList xs \<Rightarrow> Inr (int (length xs)) | JDict d \<Rightarrow> Inr (int (length d)) | JStr s \<Rightarrow> Inr (int (length s))
      | _ \<Rightarrow> Inl OtherException)"

fun merge_tags :: "json list \<Rightarrow> (string \<times> string) list \<Rightarrow> aws_exn + (string \<times> string) list" where
  "merge_tags [] tags = Inr tags"
| "merge_tags (JDict resource # rest) tags =
     and_then (tags_dict (dict_get ''TagsList'' resource)) (\<lambda>more.
       merge_tags rest (fold (\<lambda>kv. AList.update (fst kv) (snd kv)) more tags))"
| "merge_tags (_ # rest) tags = merge_tags rest tags"

definition trail_tags :: "AWSClient \<Rightarrow> dict \<Rightarrow> aws_exn + (string \<times> string) list" where
  "trail_tags client trail =
     (if cl_has client ''list_tags'' \<and> py_truthy (dict_get ''TrailARN'' trail) then
        and_then (paginate client ''list_tags'' ''ResourceTagList''
            [(''ResourceIdList'', JList [dict_get ''TrailARN'' trail])]) (\<lambda>resources. merge_tags resources [])
      else Inr [])"

definition trail_arn :: "dict \<Rightarrow> string" where
  "trail_arn trail =
     (let arn = dict_get ''TrailARN'' trail in py_str (if py_truthy arn then arn else dict_get ''Name'' trail))"

definition cloudtrail_trail ::
    "(string \<Rightarrow> string option) \<Rightarrow> AWSClient \<Rightarrow> string \<Rightarrow> dict \<Rightarrow> aws_exn + NormalizedAsset" where
  "cloudtrail_trail isoformat client region trail =
     (let arn = trail_arn trail in
      and_then (cl_call client ''get_trail_status'' [(''Name'', JStr arn)]) (\<lambda>status.
      and_then (cl_call client ''get_event_selectors'' [(''TrailName'', JStr arn)]) (\<lambda>event_selectors.
      and_then
        (if cl_has client ''get_insight_selectors'' then
           and_then (cl_call client ''get_insight_selectors'' [(''TrailName'', JStr arn)]) (\<lambda>r.
             Inr (dict_get_default ''InsightSelectors'' (JList []) r))
         else Inr (JList [])) (\<lambda>insights.
      and_then (trail_tags client trail) (\<lambda>tags.
      and_then (py_len (dict_get_default ''EventSelectors'' (JList []) event_selectors)) (\<lambda>selectors.
      and_then (py_len (dict_get_default ''AdvancedEventSelectors'' (JList []) event_selectors)) (\<lambda>advanced.
      and_then (py_len insights) (\<lambda>insight_count.
        Inr \<lparr>nz_asset_type = AssetType.CLOUDTRAIL_TRAIL, nz_resource_id = arn,
             nz_arn = string_or_none (dict_get ''TrailARN'' trail),
             nz_name = py_str (dict_get_default ''Name'' (JStr arn) trail),
             nz_region = py_str (dict_get_default ''HomeRegion'' (JStr region) trail),
             nz_status = Some (if py_truthy (dict_get ''IsLogging'' status) then ''logging'' else ''stopped''),
             nz_tags = tags,
             nz_metadata = json_safe_dict isoformat
               [(''is_logging'', dict_get ''IsLogging'' status), (''is_multi_region'', dict_get ''IsMultiRegionTrail'' trail),
                (''include_global_service_events'', dict_get ''IncludeGlobalServiceEvents'' trail),
                (''log_file_validation_enabled'', dict_get ''LogFileValidationEnabled'' trail),
                (''kms_encrypted'', JBool (py_truthy (dict_get ''KmsKeyId'' trail))),
                (''cloudwatch_integration'', JBool (py_truthy (dict_get ''CloudWatchLogsLogGroupArn'' trail))),
                (''delivery_failed'', JBool (py_truthy (dict_get ''LatestDeliveryError'' status))),
                (''event_selector_count'', JInt (selectors + advanced)),
                (''insight_selector_count'', JInt insight_count)]\<rparr>))))))))"

fun region_trails ::
    "(string \<Rightarrow> string option) \<Rightarrow> AWSClient \<Rightarrow> string \<Rightarrow> json list \<Rightarrow> string list \<times> NormalizedAsset list \<Rightarrow>
     aws_exn + string list \<times> NormalizedAsset list" where
  "region_trails isoformat client region [] s = Inr s"
| "region_trails isoformat client region (v # vs) (seen, found) =
     and_then (on_dict Inr v) (\<lambda>trail.
       let arn = trail_arn trail in
       if arn \<in> set seen then region_trails isoformat client region vs (seen, found)
       else
         and_then (cloudtrail_trail isoformat client region trail) (\<lambda>a.
           region_trails isoformat client region vs (arn # seen, found @ [a])))"

fun cloudtrail_regions ::
    "(string \<Rightarrow> string option) \<Rightarrow> client_factory \<Rightarrow> string list \<Rightarrow> string list \<times> NormalizedAsset list \<Rightarrow>
     aws_exn + NormalizedAsset list" where
  "cloudtrail_regions isoformat factory [] (seen, found) = Inr found"
| "cloudtrail_regions isoformat factory (region # regions) s =
     (case factory ''cloudtrail'' (Some region) of
        Inl e \<Rightarrow> if e = KeyError then Inr [] else Inl e
      | Inr client \<Rightarrow>
          and_then (cl_call client ''describe_trails'' [(''includeShadowTrails'', JBool False)]) (\<lambda>r.
          and_then
            (case dict_get_default ''trailList'' (JList []) r of
               JList xs \<Rightarrow> region_trails isoformat client region xs s | _ \<Rightarrow> Inl OtherException)
            (cloudtrail_regions isoformat factory regions)))"

definition CloudTrailDiscoveryService ::
    "(string \<Rightarrow> string option) \<Rightarrow> client_factory \<Rightarrow> string list \<Rightarrow> DiscoveryCollector" where
  "CloudTrailDiscoveryService isoformat factory regions =
     \<lparr>dc_name = ''cloudtrail'', dc_asset_types = [AssetType.CLOUDTRAIL_TRAIL],
      dc_discover = (\<lambda>account_id. cloudtrail_regions isoformat factory regions ([], []))\<rparr>"

section \<open>The collectors of the orchestrator\<close>

definition discovery_services ::
    "(string \<Rightarrow> string option) \<Rightarrow> (string \<Rightarrow> json option) \<Rightarrow> client_factory \<Rightarrow> string list \<Rightarrow> DiscoveryCollector list" where
  "discovery_services isoformat loads factory regions =
     [EC2DiscoveryService isoformat factory regions, S3DiscoveryService isoformat loads factory,
      IAMDiscoveryService isoformat loads factory, RDSDiscoveryService isoformat factory regions,
      CloudWatchDiscoveryService isoformat factory regions, CloudTrailDiscoveryService isoformat factory regions]"

section \<open>What the collectors promise\<close>

named_theorems yields_intros "closure of the results of a collection under its control flow"

definition yields :: "('a \<Rightarrow> bool) \<Rightarrow> aws_exn + 'a list \<Rightarrow> bool" where
  "yields P r = (\<forall>xs. r = Inr xs \<longrightarrow> list_all P xs)"

lemma yields_values [yields_intros]: "list_all P xs \<Longrightarrow> yields P (Inr xs)"
  by (simp add: yields_def)

lemma yields_error [simp, yields_intros]: "yields P (Inl e)"
  by (simp add: yields_def)

lemma yields_and_then [yields_intros]: "(\<And>x. r = Inr x \<Longrightarrow> yields P (f x)) \<Longrightarrow> yields P (and_then r f)"
  by (cases r) (auto simp: and_then_def)

lemma yields_collect [yields_intros]: "(\<And>x. x \<in> set xs \<Longrightarrow> yields P (f x)) \<Longrightarrow> yields P (collect f xs)"
  by (induction xs) (fastforce simp: yields_def split: sum.splits)+

lemma yields_on_dict [yields_intros]: "(\<And>d. yields P (f d)) \<Longrightarrow> yields P (on_dict f v)"
  by (cases v) (simp_all add: on_dict_def)

lemma yields_each [yields_intros]: "(\<And>d. yields P (f d)) \<Longrightarrow> yields P (each key f page)"
  unfolding each_def by (auto split: json.splits list.splits intro!: yields_intros)

lemma yields_each_page [yields_intros]: "(\<And>d. yields P (f d)) \<Longrightarrow> yields P (each_page client operation kwargs f)"
  unfolding each_page_def by (auto intro!: yields_intros)

lemma yields_optional_pages [yields_intros]: "(\<And>d. yields P (f d)) \<Longrightarrow> yields P (optional_pages client operation f)"
  unfolding optional_pages_def by (auto intro!: yields_intros)

lemma yields_D: "yields P r \<Longrightarrow> r = Inr xs \<Longrightarrow> x \<in> set xs \<Longrightarrow> P x"
  by (auto simp: yields_def list_all_iff)

definition typed :: "AssetType list \<Rightarrow> NormalizedAsset \<Rightarrow> bool" where
  "typed types item = (nz_asset_type item \<in> set types)"

lemma collectorI:
  assumes "\<And>account_id. yields (typed (dc_asset_types c)) (dc_discover c account_id)"
  shows "discovery_collector c"
  by unfold_locales (use assms yields_D in \<open>fastforce simp: typed_def\<close>)

lemma ec2_typed:
  "yields (typed [AssetType.EC2_INSTANCE, AssetType.EC2_SECURITY_GROUP, AssetType.EBS_VOLUME])
     (ec2_region isoformat factory account_id region)"
  (is "yields ?P _")
proof -
  have "yields ?P (ec2_instance isoformat region account_id x)" for x
    unfolding ec2_instance_def by (intro yields_intros) (simp add: typed_def)
  moreover have "yields ?P (ec2_group isoformat client region account_id x)" for client x
    unfolding ec2_group_def by (intro yields_intros) (simp add: typed_def)
  moreover have "yields ?P (ec2_volume isoformat region account_id x)" for x
    unfolding ec2_volume_def by (intro yields_intros) (simp add: typed_def)
  ultimately have parts: "yields ?P (each_page client ''describe_instances'' []
        (each ''Reservations'' (each ''Instances'' (ec2_instance isoformat region account_id))))"
      "yields ?P (optional_pages client ''describe_security_groups'' (each ''SecurityGroups'' (ec2_group isoformat client region account_id)))"
      "yields ?P (optional_pages client ''describe_volumes'' (each ''Volumes'' (ec2_volume isoformat region account_id)))" for client
    by (auto intro!: yields_intros)
  show ?thesis
    unfolding ec2_region_def
    by (intro yields_and_then yields_values) (metis list_all_append parts yields_def)
qed

interpretation ec2: discovery_collector "EC2DiscoveryService isoformat factory regions" for isoformat factory regions
  by (rule collectorI) (simp add: EC2DiscoveryService_def yields_collect [OF ec2_typed])

interpretation s3: discovery_collector "S3DiscoveryService isoformat loads factory" for isoformat loads factory
  by (rule collectorI)
    (auto simp: S3DiscoveryService_def s3_bucket_def Let_def typed_def intro!: yields_intros)

interpretation rds: discovery_collector "RDSDiscoveryService isoformat factory regions" for isoformat factory regions
  by (rule collectorI)
    (auto simp: RDSDiscoveryService_def rds_region_def rds_instance_def Let_def typed_def intro!: yields_intros)

lemma and_then_Inr: "and_then r f = Inr y \<longleftrightarrow> (\<exists>x. r = Inr x \<and> f x = Inr y)"
  by (cases r) (auto simp: and_then_def)

lemma iam_items_typed:
  assumes "iam_items isoformat loads client spec rs (seen, found) = Inr (seen', found')"
    and "list_all P found" and "\<And>a. nz_asset_type a = sp_asset_type spec \<Longrightarrow> P a"
  shows "list_all P found'"
  using assms(1,2)
proof (induction rs arbitrary: seen found)
  case Nil
  then show ?case by simp
next
  case (Cons r rs)
  from Cons.prems(1) obtain item i where i: "required (sp_id_key spec) item = Inr i"
      "(if (sp_asset_type spec, i) \<in> set seen then iam_items isoformat loads client spec rs (seen, found)
        else and_then (iam_asset isoformat loads client spec i item) (\<lambda>a.
          iam_items isoformat loads client spec rs ((sp_asset_type spec, i) # seen, found @ [a]))) = Inr (seen', found')"
    by (auto simp: and_then_Inr Let_def)
  show ?case
  proof (cases "(sp_asset_type spec, i) \<in> set seen")
    case True
    with i Cons.IH Cons.prems(2) show ?thesis by simp
  next
    case False
    then obtain a where a: "iam_asset isoformat loads client spec i item = Inr a"
        "iam_items isoformat loads client spec rs ((sp_asset_type spec, i) # seen, found @ [a]) = Inr (seen', found')"
      using i by (auto simp: and_then_Inr)
    then have "nz_asset_type a = sp_asset_type spec" by (auto simp: iam_asset_def and_then_Inr)
    with a(2) Cons.IH Cons.prems(2) assms(3) show ?thesis by simp
  qed
qed

lemma iam_walk_typed:
  assumes "iam_walk isoformat loads client specs (seen, found) = Inr found'"
    and "list_all P found" and "\<And>spec a. spec \<in> set specs \<Longrightarrow> nz_asset_type a = sp_asset_type spec \<Longrightarrow> P a"
  shows "list_all P found'"
  using assms
proof (induction specs arbitrary: seen found)
  case Nil
  then show ?case by simp
next
  case (Cons spec specs)
  from Cons.prems(1) obtain seen1 found1 where 1:
      "iam_items isoformat loads client spec (page_stream client (sp_operation spec) (sp_key spec)
         (if sp_operation spec = ''list_policies'' then [(''Scope'', JStr ''Local'')] else [])) (seen, found) = Inr (seen1, found1)"
      "iam_walk isoformat loads client specs (seen1, found1) = Inr found'"
    by (auto simp: and_then_Inr)
  have "list_all P found1" by (rule iam_items_typed [OF 1(1) Cons.prems(2)]) (use Cons.prems(3) in auto)
  with 1(2) show ?case by (rule Cons.IH) (use Cons.prems(3) in auto)
qed

lemma iam_specs_types:
  "spec \<in> set iam_specs \<Longrightarrow>
     sp_asset_type spec \<in> set [AssetType.IAM_USER, AssetType.IAM_ROLE, AssetType.IAM_GROUP, AssetType.IAM_POLICY]"
  by (auto simp: iam_specs_def)

interpretation iam: discovery_collector "IAMDiscoveryService isoformat loads factory" for isoformat loads factory
proof (rule collectorI)
  fix account_id
  show "yields (typed (dc_asset_types (IAMDiscoveryService isoformat loads factory)))
      (dc_discover (IAMDiscoveryService isoformat loads factory) account_id)"
    unfolding yields_def IAMDiscoveryService_def
    by (auto simp: and_then_Inr typed_def elim!: iam_walk_typed dest!: iam_specs_types)
qed

lemma cloudwatch_typed:
  assumes "list_all P found" and "\<And>a. nz_asset_type a \<in> {AssetType.CLOUDWATCH_ALARM, AssetType.CLOUDWATCH_LOG_GROUP} \<Longrightarrow> P a"
  shows "yields P (cloudwatch_regions isoformat factory regions found)"
  using assms(1)
proof (induction regions arbitrary: found)
  case Nil
  then show ?case by (simp add: yields_def)
next
  case (Cons region regions)
  have alarm: "yields P (each_page c ''describe_alarms'' [] (each ''MetricAlarms'' (cloudwatch_alarm isoformat region)))" for c
    using assms(2) by (auto simp: cloudwatch_alarm_def intro!: yields_intros)
  have grp: "yields P (each_page logs ''describe_log_groups'' [] (each ''logGroups'' (log_group isoformat logs region)))" for logs
    using assms(2) by (auto simp: log_group_def intro!: yields_intros)
  show ?case
  proof (cases "and_then (factory ''cloudwatch'' (Some region)) (\<lambda>cloudwatch.
      and_then (factory ''logs'' (Some region)) (\<lambda>logs. Inr (cloudwatch, logs)))")
    case (Inl e)
    then show ?thesis by (simp add: yields_def)
  next
    case (Inr cl)
    obtain cloudwatch logs where cl: "cl = (cloudwatch, logs)" by (cases cl)
    show ?thesis
      unfolding cloudwatch_regions.simps Inr cl sum.case prod.case
      by (intro yields_and_then Cons.IH) (use Cons.prems alarm grp in \<open>simp add: yields_def\<close>)
  qed
qed

interpretation cloudwatch: discovery_collector "CloudWatchDiscoveryService isoformat factory regions" for isoformat factory regions
  by (rule collectorI) (auto simp: CloudWatchDiscoveryService_def typed_def intro!: cloudwatch_typed)

lemma region_trails_typed:
  assumes "region_trails isoformat client region vs (seen, found) = Inr (seen', found')" and "list_all P found"
    and "\<And>a. nz_asset_type a = AssetType.CLOUDTRAIL_TRAIL \<Longrightarrow> P a"
  shows "list_all P found'"
  using assms(1,2)
proof (induction vs arbitrary: seen found)
  case Nil
  then show ?case by simp
next
  case (Cons v vs)
  from Cons.prems(1) obtain trail where t: "on_dict Inr v = Inr trail"
      "(if trail_arn trail \<in> set seen then region_trails isoformat client region vs (seen, found)
        else and_then (cloudtrail_trail isoformat client region trail) (\<lambda>a.
          region_trails isoformat client region vs (trail_arn trail # seen, found @ [a]))) = Inr (seen', found')"
    by (auto simp: and_then_Inr Let_def)
  show ?case
  proof (cases "trail_arn trail \<in> set seen")
    case True
    with t Cons.IH Cons.prems(2) show ?thesis by simp
  next
    case False
    then obtain a where a: "cloudtrail_trail isoformat client region trail = Inr a"
        "region_trails isoformat client region vs (trail_arn trail # seen, found @ [a]) = Inr (seen', found')"
      using t by (auto simp: and_then_Inr)
    then have "nz_asset_type a = AssetType.CLOUDTRAIL_TRAIL" by (auto simp: cloudtrail_trail_def and_then_Inr Let_def)
    with a(2) Cons.IH Cons.prems(2) assms(3) show ?thesis by simp
  qed
qed

lemma cloudtrail_typed:
  assumes "list_all P found" and "\<And>a. nz_asset_type a = AssetType.CLOUDTRAIL_TRAIL \<Longrightarrow> P a"
  shows "yields P (cloudtrail_regions isoformat factory regions (seen, found))"
  using assms(1)
proof (induction regions arbitrary: seen found)
  case Nil
  then show ?case by (simp add: yields_def)
next
  case (Cons region regions)
  have step: "yields P (cloudtrail_regions isoformat factory regions s)"
    if "region_trails isoformat client region xs (seen, found) = Inr s" for client xs s
    using region_trails_typed [of isoformat client region xs seen found "fst s" "snd s"] that Cons assms(2)
    by (cases s) auto
  show ?case
    by (cases "factory ''cloudtrail'' (Some region)")
      (auto simp: yields_values intro!: yields_and_then dest: step split: json.splits)
qed

interpretation cloudtrail: discovery_collector "CloudTrailDiscoveryService isoformat factory regions" for isoformat factory regions
  by (rule collectorI) (auto simp: CloudTrailDiscoveryService_def typed_def intro!: cloudtrail_typed)

lemma discovery_services_ok: "list_all discovery_collector (discovery_services isoformat loads factory regions)"
  by (simp add: discovery_services_def ec2.discovery_collector_axioms s3.discovery_collector_axioms
      iam.discovery_collector_axioms rds.discovery_collector_axioms cloudwatch.discovery_collector_axioms
      cloudtrail.discovery_collector_axioms)

end
