(* ===== verification/Demo_Inventory.thy ===== *)
theory Demo_Inventory
  imports Collectors
begin

text \<open>
  The synthetic inventory of the local demo, \<^verbatim>\<open>app/services/demo_inventory.py\<close>, its collectors, and the
  properties of discovery that span the collectors, the orchestrator and the rules.
\<close>

section \<open>The synthetic inventory\<close>

definition DEMO_REGION :: string where "DEMO_REGION = ''us-east-1''"

definition demo_tags :: "(string \<times> string) list" where
  "demo_tags = [(''Environment'', ''demo''), (''Synthetic'', ''true'')]"

definition demo_instance :: "string \<Rightarrow> NormalizedAsset" where
  "demo_instance account_id =
     \<lparr>nz_asset_type = AssetType.EC2_INSTANCE, nz_resource_id = ''i-0demo0instance0001'',
      nz_arn = Some (''arn:aws:ec2:'' @ DEMO_REGION @ '':'' @ account_id @ '':instance/i-0demo0instance0001''),
      nz_name = ''demo-web-instance'', nz_region = DEMO_REGION, nz_status = Some ''running'', nz_tags = demo_tags,
      nz_metadata =
        [(''instance_type'', JStr ''t3.micro''), (''vpc_id'', JStr ''vpc-0demo0000''),
         (''subnet_id'', JStr ''subnet-0demo0000''), (''security_group_ids'', JList [JStr ''sg-0demo0open0ssh'']),
         (''has_public_ip'', JBool True),
         (''metadata_options'', JDict [(''http_tokens'', JStr ''optional''), (''http_endpoint'', JStr ''enabled'')]),
         (''synthetic'', JBool True)]\<rparr>"

definition demo_group :: "string \<Rightarrow> NormalizedAsset" where
  "demo_group account_id =
     \<lparr>nz_asset_type = AssetType.EC2_SECURITY_GROUP, nz_resource_id = ''sg-0demo0open0ssh'',
      nz_arn = Some (''arn:aws:ec2:'' @ DEMO_REGION @ '':'' @ account_id @ '':security-group/sg-0demo0open0ssh''),
      nz_name = ''demo-open-ssh'', nz_region = DEMO_REGION, nz_status = Some ''active'', nz_tags = demo_tags,
      nz_metadata =
        [(''description'', JStr ''Demo group intentionally exposing SSH''), (''vpc_id'', JStr ''vpc-0demo0000''),
         (''ip_permissions'',
          JList [JDict [(''IpProtocol'', JStr ''tcp''), (''FromPort'', JInt 22), (''ToPort'', JInt 22),
                        (''IpRanges'', JList [JDict [(''CidrIp'', JStr ''0.0.0.0/0'')]]), (''Ipv6Ranges'', JList [])]]),
         (''ip_permissions_egress'', JList []), (''synthetic'', JBool True)]\<rparr>"

definition demo_bucket :: NormalizedAsset where
  "demo_bucket =
     \<lparr>nz_asset_type = AssetType.S3_BUCKET, nz_resource_id = ''cloudops-demo-public-bucket'',
      nz_arn = Some ''arn:aws:s3:::cloudops-demo-public-bucket'', nz_name = ''cloudops-demo-public-bucket'',
      nz_region = DEMO_REGION, nz_status = Some ''active'', nz_tags = demo_tags,
      nz_metadata =
        [(''public_access_signals'', JDict [(''public_acl'', JBool True), (''public_policy'', JBool True)]),
         (''public_access_block_complete'', JBool False), (''default_encryption_enabled'', JBool False),
         (''versioning_enabled'', JBool False), (''logging_enabled'', JBool False), (''policy_document'', JNull),
         (''synthetic'', JBool True)]\<rparr>"

definition demo_trail :: "string \<Rightarrow> NormalizedAsset" where
  "demo_trail account_id =
     \<lparr>nz_asset_type = AssetType.CLOUDTRAIL_TRAIL, nz_resource_id = ''cloudops-demo-trail'',
      nz_arn = Some (''arn:aws:cloudtrail:'' @ DEMO_REGION @ '':'' @ account_id @ '':trail/cloudops-demo-trail''),
      nz_name = ''cloudops-demo-trail'', nz_region = DEMO_REGION, nz_status = Some ''disabled'', nz_tags = demo_tags,
      nz_metadata =
        [(''is_logging'', JBool False), (''is_multi_region'', JBool False), (''include_global_service_events'', JBool False),
         (''log_file_validation_enabled'', JBool False), (''kms_encrypted'', JBool False),
         (''cloudwatch_integration'', JBool False), (''delivery_failed'', JBool False), (''synthetic'', JBool True)]\<rparr>"

definition demo_user :: "string \<Rightarrow> NormalizedAsset" where
  "demo_user account_id =
     \<lparr>nz_asset_type = AssetType.IAM_USER, nz_resource_id = ''AIDADEMOUSER0000001'',
      nz_arn = Some (''arn:aws:iam::'' @ account_id @ '':user/demo-admin-user''), nz_name = ''demo-admin-user'',
      nz_region = ''global'', nz_status = Some ''active'', nz_tags = demo_tags,
      nz_metadata =
        [(''console_access'', JBool True), (''mfa_enabled'', JBool False),
         (''active_key_created_at'', JList [JStr ''2024-01-01T00:00:00Z'']),
         (''attached_policy_arns'', JList [JStr ''arn:aws:iam::aws:policy/AdministratorAccess'']),
         (''inline_policy_documents'',
          JList [JDict [(''Statement'', JDict [(''Effect'', JStr ''Allow''), (''Action'', JStr ''*''), (''Resource'', JStr ''*'')])]]),
         (''synthetic'', JBool True)]\<rparr>"

definition synthetic_inventory :: "string \<Rightarrow> NormalizedAsset list" where
  "synthetic_inventory account_id =
     [demo_instance account_id, demo_group account_id, demo_bucket, demo_trail account_id, demo_user account_id]"

definition inventory_for :: "AssetType list \<Rightarrow> string \<Rightarrow> NormalizedAsset list" where
  "inventory_for asset_types account_id =
     filter (\<lambda>item. nz_asset_type item \<in> set asset_types) (synthetic_inventory account_id)"

definition SyntheticDiscoveryService :: "string \<Rightarrow> AssetType list \<Rightarrow> DiscoveryCollector" where
  "SyntheticDiscoveryService name asset_types =
     \<lparr>dc_name = name, dc_asset_types = asset_types,
      dc_discover = (\<lambda>account_id. Inr (inventory_for asset_types account_id))\<rparr>"

definition synthetic_discovery_services :: "DiscoveryCollector list" where
  "synthetic_discovery_services =
     [SyntheticDiscoveryService ''syntheticec2''
        [AssetType.EC2_INSTANCE, AssetType.EC2_SECURITY_GROUP, AssetType.EBS_VOLUME],
      SyntheticDiscoveryService ''synthetics3'' [AssetType.S3_BUCKET],
      SyntheticDiscoveryService ''syntheticiam''
        [AssetType.IAM_USER, AssetType.IAM_ROLE, AssetType.IAM_GROUP, AssetType.IAM_POLICY],
      SyntheticDiscoveryService ''syntheticcloudtrail'' [AssetType.CLOUDTRAIL_TRAIL]]"

interpretation synthetic: discovery_collector "SyntheticDiscoveryService name asset_types" for name asset_types
  by unfold_locales (auto simp: SyntheticDiscoveryService_def inventory_for_def)

lemma synthetic_services_ok: "list_all discovery_collector synthetic_discovery_services"
  by (simp add: synthetic_discovery_services_def synthetic.discovery_collector_axioms)

text \<open>
  The orchestrator for its settings: the synthetic collectors when the demo is enabled, otherwise
  the real ones over the assumed role of the account.
\<close>

definition orchestrator_services ::
    "bool \<Rightarrow> (string \<Rightarrow> string option) \<Rightarrow> (string \<Rightarrow> json option) \<Rightarrow> (AWSAccount \<Rightarrow> aws_exn + client_factory) \<Rightarrow>
     string list \<Rightarrow> AWSAccount \<Rightarrow> aws_exn + DiscoveryCollector list" where
  "orchestrator_services demo isoformat loads assumed_client_factory regions account =
     (if demo then Inr synthetic_discovery_services
      else
        (case assumed_client_factory account of
           Inl e \<Rightarrow> Inl e
         | Inr factory \<Rightarrow> Inr (discovery_services isoformat loads factory regions)))"

end
