(* ===== verification/Inventory_Properties.thy ===== *)
theory Inventory_Properties
  imports Demo_Inventory Evaluations
begin

text \<open>
  The properties of discovery: every run ends and frees the account, it refines the abstract
  inventory, what it stores holds no sensitive key, and two defects of the collectors.
\<close>

section \<open>Runs\<close>

lemma orchestrator_services_ok:
  "orchestrator_services demo isoformat loads acf regions account = Inr cs \<Longrightarrow> list_all discovery_collector cs"
  using synthetic_services_ok discovery_services_ok by (auto simp: orchestrator_services_def split: if_splits sum.splits)

text \<open>What a successful start has checked.\<close>

lemma start_discovery_Inr:
  assumes "start_discovery f connect clock account_id actor new_id d = (Inr job, d')"
  obtains account m where "get_row acc_id account_id (aws_accounts d) = Some account"
    and "require_capability (acc_organization_id account) actor DISCOVERY_START d = Inr m"
    and "acc_connection_status account = AWSAccountStatus.CONNECTED" and "active_discovery account_id d = None"
    and "new_id \<notin> dj_id ` set (discovery_jobs d)"
proof -
  obtain account m where a: "get_row acc_id account_id (aws_accounts d) = Some account"
      "require_capability (acc_organization_id account) actor DISCOVERY_START d = Inr m"
      "acc_connection_status account = AWSAccountStatus.CONNECTED" "active_discovery account_id d = None"
      "insert_discovery (new_discovery account actor new_id) d \<noteq> Inl IntegrityError"
    using assms by (auto simp: start_discovery_def split: option.splits sum.splits if_splits)
  have "new_id \<notin> dj_id ` set (discovery_jobs d)"
    using a(5) by (auto simp: insert_discovery_def Let_def keys_distinct_snoc new_discovery_def split: if_splits)
  with a that show thesis by blast
qed

text \<open>
  C27. Discovery is live: on a connected account with no discovery in progress, a start by an
  authorized member returns a finished job, whatever the AWS clients answer or raise, keeps the
  tables of jobs and assets well formed, and leaves the account free for the next discovery.
\<close>

theorem discovery_always_ends:
  assumes "discoveries_ok d" and "get_row acc_id account_id (aws_accounts d) = Some account"
    and "require_capability (acc_organization_id account) actor DISCOVERY_START d = Inr m"
    and "acc_connection_status account = AWSAccountStatus.CONNECTED" and "active_discovery account_id d = None"
    and "new_id \<notin> dj_id ` set (discovery_jobs d)"
  shows "\<exists>job d'. start_discovery isoformat (orchestrator_services demo isoformat loads acf regions) clock account_id actor
             new_id d = (Inr job, d') \<and>
           dj_status job \<in> {DiscoveryJobStatus.COMPLETED, DiscoveryJobStatus.PARTIALLY_COMPLETED, DiscoveryJobStatus.FAILED} \<and>
           dj_finished_at job \<noteq> None \<and> discoveries_ok d' \<and> active_discovery account_id d' = None"
proof -
  obtain job d' where "start_discovery isoformat (orchestrator_services demo isoformat loads acf regions) clock account_id actor
        new_id d = (Inr job, d')" "discovery_finished job" "discoveries_ok d'" "active_discovery account_id d' = None"
    using start_discovery_result [OF assms] by blast
  moreover have "dj_status job \<in> {DiscoveryJobStatus.COMPLETED, DiscoveryJobStatus.PARTIALLY_COMPLETED, DiscoveryJobStatus.FAILED}"
    if "discovery_finished job"
    using that by (cases "dj_status job") (auto simp: discovery_finished_def discovery_active_def)
  ultimately show ?thesis by (auto simp: discovery_finished_def)
qed

definition discovery_clock :: DiscoveryClock where
  "discovery_clock = \<lparr>dk_started = 20, dk_upserted = (\<lambda>name. 21),
     dk_asset_ids = (\<lambda>name i. 1000 + 4 * nat i + (if name = ''syntheticec2'' then 0 else if name = ''synthetics3'' then 1
       else if name = ''syntheticiam'' then 2 else 3)), dk_finished = 30\<rparr>"

lemma sample_scan_discoveries [simp]: "discoveries_ok sample_scan" "active_discovery 3 sample_scan = None"
    "discovery_jobs sample_scan = []" "acc_connection_status scan_account = AWSAccountStatus.CONNECTED"
  by (simp_all add: scan_account_def sample_scan_def sample_org_def empty_db_def discoveries_ok_def assets_ok_def discovery_unique_def
      asset_unique_def active_discovery_def)

lemma sample_scan_authorized:
  obtains m where "require_capability (acc_organization_id scan_account) 7 DISCOVERY_START sample_scan = Inr m"
  using sample_scan_member by auto

theorem discovery_always_ends_witness:
  "\<exists>job d'. start_discovery (\<lambda>s. None) (orchestrator_services False (\<lambda>s. None) (\<lambda>s. None)
        (\<lambda>a. Inl (AWSConnectionFailure ''role_arn_missing'')) [''us-east-1'']) discovery_clock 3 7 80 sample_scan = (Inr job, d') \<and>
      dj_status job \<in> {DiscoveryJobStatus.COMPLETED, DiscoveryJobStatus.PARTIALLY_COMPLETED, DiscoveryJobStatus.FAILED} \<and>
      dj_finished_at job \<noteq> None \<and> discoveries_ok d' \<and> active_discovery 3 d' = None"
proof -
  obtain m where "require_capability (acc_organization_id scan_account) 7 DISCOVERY_START sample_scan = Inr m"
    by (rule sample_scan_authorized)
  then show ?thesis
    by (intro discovery_always_ends [where account = scan_account and m = m]) simp_all
qed

text \<open>
  C26. Discovery refines the abstract inventory. For the collectors of the orchestrator there is a
  record of which of them succeeded: a collector that raised is never among them, and one that returned
  resources without listing one twice always is, unless an identifier drawn for a new asset is taken or the
  clock runs backwards. The resources the account is known to have are those the successful collectors
  produce in their order, each replacing the resources of its own types; other accounts are untouched; the
  job is completed exactly when all succeeded and failed exactly when none did, in which case no asset has
  changed.
\<close>

theorem discovery_refines_inventory:
  assumes "discoveries_ok d" and "get_row acc_id account_id (aws_accounts d) = Some account"
    and "orchestrator_services demo isoformat loads acf regions account = Inr cs"
    and "start_discovery isoformat (orchestrator_services demo isoformat loads acf regions) clock account_id actor new_id d =
           (Inr job, d')"
  shows "\<exists>oks. list_all2 (\<lambda>c ok. ok \<longrightarrow> (\<exists>items. dc_discover c (acc_account_id account) = Inr items)) cs oks \<and>
           (discovery_ready account clock (map dc_name cs) d \<longrightarrow>
              list_all2 (\<lambda>c ok. \<forall>items. dc_discover c (acc_account_id account) = Inr items \<and>
                distinct (map item_identity items) \<longrightarrow> ok) cs oks) \<and>
           inventory d' account_id = run_holdings (acc_account_id account) (zip cs oks) (inventory d account_id) \<and>
           (\<forall>other. other = account_id \<or> inventory d' other = inventory d other) \<and>
           (dj_status job = DiscoveryJobStatus.COMPLETED \<longleftrightarrow> list_all id oks) \<and>
           (dj_status job = DiscoveryJobStatus.FAILED \<longleftrightarrow> cs \<noteq> [] \<and> True \<notin> set oks) \<and>
           (dj_status job \<noteq> DiscoveryJobStatus.FAILED \<or> assets d' = assets d)"
proof -
  obtain account' m where a: "get_row acc_id account_id (aws_accounts d) = Some account'"
      "require_capability (acc_organization_id account') actor DISCOVERY_START d = Inr m"
      "acc_connection_status account' = AWSAccountStatus.CONNECTED" "active_discovery account_id d = None"
      "new_id \<notin> dj_id ` set (discovery_jobs d)"
    using start_discovery_Inr [OF assms(4)] by blast
  have "account' = account" using a(1) assms(2) by simp
  moreover have "acc_id account = account_id" using assms(2) by (rule get_row_key)
  ultimately have "run_result account clock (Inr cs) d job d'"
    using start_discovery_result [OF assms(1) a] assms(3,4) by (metis Inr_inject Pair_inject)
  then obtain oks where "only_answers account cs oks"
      "discovery_ready account clock (map dc_name cs) d \<longrightarrow> all_answers account cs oks"
      "inventory d' (acc_id account) = run_holdings (acc_account_id account) (zip cs oks) (inventory d (acc_id account))"
      "\<forall>other. other \<noteq> acc_id account \<longrightarrow> inventory d' other = inventory d other"
      "dj_status job = DiscoveryJobStatus.COMPLETED \<longleftrightarrow> list_all id oks"
      "dj_status job = DiscoveryJobStatus.FAILED \<longleftrightarrow> cs \<noteq> [] \<and> True \<notin> set oks"
      "dj_status job = DiscoveryJobStatus.FAILED \<longrightarrow> assets d' = assets d"
    using orchestrator_services_ok [OF assms(3)] by (auto simp: run_result_def)
  with \<open>acc_id account = account_id\<close> show ?thesis unfolding only_answers_def all_answers_def by (intro exI [of _ oks]) auto
qed

lemma synthetic_answers:
  "list_all (\<lambda>c. \<exists>items. dc_discover c account_id = Inr items \<and> distinct (map item_identity items)) synthetic_discovery_services"
  by (simp add: synthetic_discovery_services_def SyntheticDiscoveryService_def inventory_for_def synthetic_inventory_def
      demo_instance_def demo_group_def demo_bucket_def demo_trail_def demo_user_def item_identity_def)

lemma discovery_clock_ready: "discovery_ready scan_account discovery_clock (map dc_name synthetic_discovery_services) sample_scan"
  by (simp add: discovery_ready_def synthetic_discovery_services_def SyntheticDiscoveryService_def sample_bucket_def asset_seen_order_def)
    (auto simp: discovery_clock_def inj_on_def; presburger)

theorem discovery_refines_inventory_witness:
  "\<exists>job d' oks. start_discovery (\<lambda>s. None) (orchestrator_services True (\<lambda>s. None) (\<lambda>s. None) (\<lambda>a. Inl BotoCoreError) [])
        discovery_clock 3 7 80 sample_scan = (Inr job, d') \<and> dj_status job = DiscoveryJobStatus.COMPLETED \<and>
      inventory d' 3 = run_holdings ''123456789012'' (zip synthetic_discovery_services oks) (inventory sample_scan 3) \<and> list_all id oks"
proof -
  obtain m where m: "require_capability (acc_organization_id scan_account) 7 DISCOVERY_START sample_scan = Inr m"
    by (rule sample_scan_authorized)
  have acc: "get_row acc_id 3 (aws_accounts sample_scan) = Some scan_account" by simp
  obtain job d' where s: "start_discovery (\<lambda>s. None) (orchestrator_services True (\<lambda>s. None) (\<lambda>s. None) (\<lambda>a. Inl BotoCoreError) [])
        discovery_clock 3 7 80 sample_scan = (Inr job, d')"
    using start_discovery_result [OF sample_scan_discoveries(1) acc m sample_scan_discoveries(4,2),
        where new_id = 80 and f = "\<lambda>s. None" and clock = discovery_clock
          and connect = "orchestrator_services True (\<lambda>s. None) (\<lambda>s. None) (\<lambda>a. Inl BotoCoreError) []"]
    by auto
  have "orchestrator_services True (\<lambda>s. None) (\<lambda>s. None) (\<lambda>a. Inl BotoCoreError) [] scan_account = Inr synthetic_discovery_services"
    by (simp add: orchestrator_services_def)
  from discovery_refines_inventory [OF sample_scan_discoveries(1) acc this s] discovery_clock_ready
  obtain oks where oks: "list_all2 (\<lambda>c ok. \<forall>items. dc_discover c (acc_account_id scan_account) = Inr items \<and>
        distinct (map item_identity items) \<longrightarrow> ok) synthetic_discovery_services oks"
      "inventory d' 3 = run_holdings (acc_account_id scan_account) (zip synthetic_discovery_services oks) (inventory sample_scan 3)"
      "dj_status job = DiscoveryJobStatus.COMPLETED \<longleftrightarrow> list_all id oks"
    by auto
  have "list_all id oks"
    using oks(1) synthetic_answers [of "acc_account_id scan_account"]
    by (fastforce simp: list_all2_conv_all_nth list_all_length)
  with s oks(2,3) show ?thesis by (auto simp: scan_account_def)
qed

section \<open>What is stored holds no secret\<close>

text \<open>No key of a dictionary at any depth is sensitive.\<close>

function no_secret_keys :: "json \<Rightarrow> bool" where
  "no_secret_keys JNull = True"
| "no_secret_keys (JBool b) = True"
| "no_secret_keys (JInt i) = True"
| "no_secret_keys (JStr s) = True"
| "no_secret_keys (JList xs) = list_all no_secret_keys xs"
| "no_secret_keys (JDict d) = list_all (\<lambda>kv. \<not> SENSITIVE_KEYS (fst kv) \<and> no_secret_keys (snd kv)) d"
| "no_secret_keys (JObj s) = True"
  by pat_completeness auto
termination
  by (relation "measure size") (simp_all del: json.size)

lemma json_safe_clean: "no_secret_keys (json_safe isoformat v)"
  by (induction isoformat v rule: json_safe.induct) (auto simp: list_all_iff)

lemma json_safe_dict_eq: "JDict (json_safe_dict isoformat d) = json_safe isoformat (JDict d)"
  by (simp add: json_safe_dict_def)

text \<open>
  Storing what a collector found never stores a sensitive key: after a successful upsert every
  active asset of the collector's types carries metadata in which no dictionary, at any depth, has
  a key that names an access key, secret, session token, credential, password or authorization.
\<close>

theorem stored_metadata_clean:
  assumes "assets_ok d" and "upsert isoformat account at new_id types items d = Inr (tally, d')"
    and "a \<in> set (assets d')" and "as_aws_account_id a = acc_id account" and "as_is_active a"
    and "as_asset_type a \<in> set types"
  shows "no_secret_keys (JDict (as_metadata_json a))"
proof -
  obtain item where "describes isoformat at item a"
    using upsert_inventory(4) [OF assms(2,1,3-6)] by blast
  moreover have "as_metadata_json (refresh_asset isoformat item at a) = json_safe_dict isoformat (nz_metadata item)"
    by (simp add: refresh_asset_def)
  ultimately have "as_metadata_json a = json_safe_dict isoformat (nz_metadata item)" by (simp add: describes_def)
  then show ?thesis using json_safe_clean by (simp only: json_safe_dict_eq)
qed

section \<open>Two databases of one name\<close>

text \<open>
  RDS instances are identified by \<^verbatim>\<open>DBInstanceIdentifier\<close> alone, which AWS makes unique per
  account and region only. When the collector finds the same identifier twice, as in two regions,
  and no such instance is stored yet, storing its inventory violates the unique index of the
  assets: the whole collector fails with \<^verbatim>\<open>discovery_service_failed\<close>, and none of the
  account's databases is recorded.
\<close>

theorem rds_identifier_clash:
  assumes "collecting s"
    and "dc_discover (RDSDiscoveryService isoformat factory regions) (acc_account_id account) = Inr items"
    and "by_identity (acc_id account) AssetType.RDS_INSTANCE identifier (assets (ds_db s)) = None"
    and "2 \<le> length (filter (\<lambda>item. nz_resource_id item = identifier) items)"
  shows "\<exists>s'. run_collector isoformat account clock (RDSDiscoveryService isoformat factory regions) s = Inr s' \<and>
           ds_db s' = ds_db s \<and> map_of (ds_errors s') ''rds'' = Some ''discovery_service_failed''"
proof -
  let ?c = "RDSDiscoveryService isoformat factory regions"
  have c: "dc_name ?c = ''rds''" "dc_asset_types ?c = [AssetType.RDS_INSTANCE]" by (simp_all add: RDSDiscoveryService_def)
  have "filter (\<lambda>item. item_identity item = (AssetType.RDS_INSTANCE, identifier)) items =
      filter (\<lambda>item. nz_resource_id item = identifier) items"
    by (rule filter_cong) (use rds.declared [OF assms(2)] c(2) in \<open>auto simp: item_identity_def\<close>)
  with assms(4) have "2 \<le> length (filter (\<lambda>item. item_identity item = (AssetType.RDS_INSTANCE, identifier)) items)" by simp
  moreover have "assets_ok (ds_db s)" using assms(1) by (simp add: collecting_def discoveries_ok_def)
  ultimately have "upsert isoformat account (dk_upserted clock ''rds'') (dk_asset_ids clock ''rds'') [AssetType.RDS_INSTANCE]
      items (ds_db s) = Inl OtherException"
    using assms(3) by (intro upsert_duplicate)
  then have "run_collector isoformat account clock ?c s = collector_failed ''rds'' OtherException s"
    using assms(2) c by (simp add: run_collector_def)
  with assms(1) show ?thesis
    by (auto simp: collector_failed_def collecting_def safe_aws_error_def update_conv)
qed

definition two_regions :: client_factory where
  "two_regions service region = Inr \<lparr>
     cl_pages = (\<lambda>operation kwargs. [Inr [(''DBInstances'', JList [JDict [(''DBInstanceIdentifier'', JStr ''orders'')]])]]),
     cl_call = (\<lambda>operation kwargs. Inr []), cl_has = (\<lambda>operation. True), cl_has_paginator = (\<lambda>operation. True)\<rparr>"

definition running_discovery :: DiscoveryJob where
  "running_discovery = (new_discovery scan_account 7 80)\<lparr>dj_status := DiscoveryJobStatus.RUNNING, dj_started_at := Some 1\<rparr>"

definition running_state :: DiscoveryState where
  "running_state = \<lparr>ds_job = running_discovery, ds_errors = [], ds_successes = 0,
     ds_db = sample_scan\<lparr>discovery_jobs := [running_discovery]\<rparr>\<rparr>"

lemma running_state_collecting: "collecting running_state"
  by (simp add: collecting_def running_state_def running_discovery_def new_discovery_def discoveries_ok_def assets_ok_def
      discovery_unique_def discovery_constraints_def asset_unique_def sample_scan_def)

theorem rds_identifier_clash_witness:
  "\<exists>s'. run_collector (\<lambda>s. None) scan_account discovery_clock
        (RDSDiscoveryService (\<lambda>s. None) two_regions [''us-east-1'', ''eu-west-1'']) running_state = Inr s' \<and>
      ds_db s' = ds_db running_state \<and> map_of (ds_errors s') ''rds'' = Some ''discovery_service_failed''"
proof (rule rds_identifier_clash [OF running_state_collecting])
  show "dc_discover (RDSDiscoveryService (\<lambda>s. None) two_regions [''us-east-1'', ''eu-west-1'']) (acc_account_id scan_account) =
      Inr (concat (map (\<lambda>region. projr (rds_instance (\<lambda>s. None) (projr (two_regions ''rds'' (Some region))) region
             [(''DBInstanceIdentifier'', JStr ''orders'')])) [''us-east-1'', ''eu-west-1'']))"
    by (simp add: RDSDiscoveryService_def rds_region_def two_regions_def each_page_def get_paginator_def each_def and_then_def on_dict_def
        rds_instance_def required_def get_in_def Let_def dict_get_def dict_get_default_def)
  show "by_identity (acc_id scan_account) AssetType.RDS_INSTANCE ''orders'' (assets (ds_db running_state)) = None"
    by (simp add: by_identity_def running_state_def sample_scan_def sample_bucket_def)
qed (simp add: rds_instance_def two_regions_def required_def get_in_def and_then_def Let_def dict_get_def py_str_def)

theorem stored_metadata_clean_witness:
  "\<exists>tally d' a. upsert (\<lambda>s. None) scan_account 21 (\<lambda>i. 90) [AssetType.S3_BUCKET] [demo_bucket] (sample_scan\<lparr>assets := []\<rparr>) =
       Inr (tally, d') \<and> a \<in> set (assets d') \<and> as_resource_id a = ''cloudops-demo-public-bucket'' \<and>
     no_secret_keys (JDict (as_metadata_json a))"
proof -
  let ?a = "refresh_asset (\<lambda>s. None) demo_bucket 21 (new_asset scan_account demo_bucket 21 90)"
  have a: "asset_seen_order ?a" "as_aws_account_id ?a = 3" "as_asset_type ?a = AssetType.S3_BUCKET" "as_is_active ?a"
      "as_resource_id ?a = ''cloudops-demo-public-bucket''"
    by (simp_all add: asset_seen_order_def refresh_asset_def new_asset_def demo_bucket_def scan_account_def)
  have "upsert (\<lambda>s. None) scan_account 21 (\<lambda>i. 90) [AssetType.S3_BUCKET] [demo_bucket] (sample_scan\<lparr>assets := []\<rparr>) =
      Inr ((1, 0, 0), sample_scan\<lparr>assets := [?a]\<rparr>)"
    using a(1) by (simp add: upsert_def by_identity_def missing_assets_def deactivate_missing_def asset_unique_def
        sample_scan_def scan_account_def [THEN arg_cong [of _ _ acc_id]])
  note u = this
  have "no_secret_keys (JDict (as_metadata_json ?a))"
    by (rule stored_metadata_clean [OF _ u]) (use a in \<open>simp_all add: assets_ok_def asset_unique_def scan_account_def\<close>)
  with u a(5) show ?thesis by (intro exI [of _ "(1, 0, 0)"] exI [of _ "sample_scan\<lparr>assets := [?a]\<rparr>"] exI [of _ ?a]) simp
qed

section \<open>Buckets without default encryption\<close>

lemma json_safe_keys: "dict_has key (json_safe_dict isoformat d) \<Longrightarrow> dict_has key d"
  by (force simp: json_safe_dict_def dict_has_def)

lemma absent_iff: "map_of d key = None \<longleftrightarrow> \<not> dict_has key d"
  by (auto simp: dict_has_def map_of_eq_None_iff)

lemma dict_has_append [simp]: "dict_has key (d @ e) \<longleftrightarrow> dict_has key d \<or> dict_has key e"
  by (auto simp: dict_has_def)

lemma dict_has_Cons [simp]: "dict_has key ((k, v) # d) \<longleftrightarrow> key = k \<or> dict_has key d" "\<not> dict_has key []"
  by (auto simp: dict_has_def)

lemma encryption_not_collected:
  assumes "cl_call client ''get_bucket_encryption'' [(''Bucket'', JStr name)] =
      Inl (ClientError ''ServerSideEncryptionConfigurationNotFoundError'')"
    and "collect (optional_call client name) optional_calls = Inr vals"
  shows "\<not> dict_has ''get_bucket_encryption'' vals"
proof -
  have "yields (\<lambda>kv. fst kv \<noteq> ''get_bucket_encryption'') (collect (optional_call client name) optional_calls)"
  proof (rule yields_collect)
    fix call assume "call \<in> set optional_calls"
    show "yields (\<lambda>kv. fst kv \<noteq> ''get_bucket_encryption'') (optional_call client name call)"
      using assms(1) by (cases "fst call = ''get_bucket_encryption''")
        (auto simp: optional_call_def Let_def yields_def split: sum.splits aws_exn.splits if_splits)
  qed
  with assms(2) show ?thesis by (auto simp: yields_def list_all_iff dict_has_def)
qed

lemma bucket_metadata_keys:
  assumes "access_metadata vals = Inr signals" and "policy_metadata isoformat loads client name = Inr policy"
    and "\<not> dict_has ''get_bucket_encryption'' vals"
  shows "\<not> dict_has ''default_encryption_enabled''
      ([(''creation_date'', v)] @ block_metadata vals @ signals @
       value_metadata ''get_bucket_encryption'' ''default_encryption_enabled'' py_truthy vals @
       value_metadata ''get_bucket_versioning'' ''versioning_enabled'' f vals @
       value_metadata ''get_bucket_logging'' ''logging_enabled'' g vals @ policy)"
proof -
  have "\<not> dict_has ''default_encryption_enabled'' (block_metadata vals)"
    by (simp add: block_metadata_def Let_def split: json.splits)
  moreover have "\<not> dict_has ''default_encryption_enabled'' signals"
    using assms(1) by (auto simp: access_metadata_def and_then_Inr split: json.splits)
  moreover have "\<not> dict_has ''default_encryption_enabled'' policy"
    using assms(2) by (auto simp: policy_metadata_def split: sum.splits if_splits)
  ultimately show ?thesis using assms(3) by (simp add: value_metadata_def)
qed

lemma unencrypted_bucket_silent:
  assumes "cl_call client ''get_bucket_encryption'' [(''Bucket'', JStr name)] =
      Inl (ClientError ''ServerSideEncryptionConfigurationNotFoundError'')"
    and "required ''Name'' bucket = Inr name" and "s3_bucket isoformat loads client bucket = Inr [item]"
  shows "nz_asset_type item = AssetType.S3_BUCKET \<and> \<not> dict_has ''default_encryption_enabled'' (nz_metadata item)"
proof -
  obtain vals signals policy f g v where m: "collect (optional_call client name) optional_calls = Inr vals"
      "access_metadata vals = Inr signals" "policy_metadata isoformat loads client name = Inr policy"
      "nz_metadata item = json_safe_dict isoformat
         ([(''creation_date'', v)] @ block_metadata vals @ signals @
          value_metadata ''get_bucket_encryption'' ''default_encryption_enabled'' py_truthy vals @
          value_metadata ''get_bucket_versioning'' ''versioning_enabled'' f vals @
          value_metadata ''get_bucket_logging'' ''logging_enabled'' g vals @ policy)"
      "nz_asset_type item = AssetType.S3_BUCKET"
    using assms(2,3) by (auto simp: s3_bucket_def and_then_Inr Let_def)
  show ?thesis
    using bucket_metadata_keys [OF m(2,3) encryption_not_collected [OF assms(1) m(1)]] m(4,5) json_safe_keys by metis
qed

text \<open>
  C29. For a bucket without a default encryption configuration AWS answers
  \<^verbatim>\<open>ServerSideEncryptionConfigurationNotFoundError\<close>, which the collector drops; the stored
  asset then lacks \<^verbatim>\<open>default_encryption_enabled\<close>, and every rule of the default registry for
  \<^verbatim>\<open>S3_BUCKET_DEFAULT_ENCRYPTION_MISSING\<close> ends with an error on it instead of failing: exactly the
  buckets the rule is for never get a finding.
\<close>

theorem unencrypted_bucket_unreported:
  assumes "cl_call client ''get_bucket_encryption'' [(''Bucket'', JStr name)] =
      Inl (ClientError ''ServerSideEncryptionConfigurationNotFoundError'')"
    and "required ''Name'' bucket = Inr name" and "s3_bucket isoformat loads client bucket = Inr [item]"
    and "describes isoformat at item a" and "rule \<in> set (all_rules fromiso)"
    and "rl_key rule = ''S3_BUCKET_DEFAULT_ENCRYPTION_MISSING''"
  shows "evaluate rule (Some a) ctxt = Inr (error_result INCOMPLETE)"
proof -
  note item = unencrypted_bucket_silent [OF assms(1-3)]
  have "as_metadata_json (refresh_asset isoformat item at a) = json_safe_dict isoformat (nz_metadata item)"
    by (simp add: refresh_asset_def)
  with assms(4) have "as_metadata_json a = json_safe_dict isoformat (nz_metadata item)" by (simp add: describes_def)
  then have "map_of (as_metadata_json a) ''default_encryption_enabled'' = None"
    unfolding absent_iff using item json_safe_keys by metis
  moreover have "as_asset_type a = AssetType.S3_BUCKET"
    using assms(4) item by (simp add: describes_def asset_identity_def item_identity_def)
  moreover have "rl_evaluator rule = metadata_rule ''default_encryption_enabled'' False" "rl_asset_type rule = Some AssetType.S3_BUCKET"
    using assms(5,6) by (auto simp: all_rules_def EC2_RULES_def S3_RULES_def IAM_RULES_def RDS_RULES_def CLOUDWATCH_RULES_def CLOUDTRAIL_RULES_def)
  ultimately show ?thesis by (simp add: evaluate_def applies_to_def rule_asset_types_def metadata_rule_def on_asset_def)
qed

definition unencrypted_client :: AWSClient where
  "unencrypted_client = \<lparr>cl_pages = (\<lambda>operation kwargs. []),
     cl_call = (\<lambda>operation kwargs.
       if operation = ''get_bucket_encryption'' then Inl (ClientError ''ServerSideEncryptionConfigurationNotFoundError'')
       else Inr []),
     cl_has = (\<lambda>operation. True), cl_has_paginator = (\<lambda>operation. True)\<rparr>"

theorem unencrypted_bucket_unreported_witness:
  "\<exists>item. s3_bucket (\<lambda>s. None) (\<lambda>s. None) unencrypted_client [(''Name'', JStr ''logs'')] = Inr [item] \<and>
     evaluate (S3_RULES ! 2) (Some (refresh_asset (\<lambda>s. None) item 21 (new_asset scan_account item 21 90)))
       \<lparr>rc_account_assets = [], rc_evaluated_at = 30\<rparr> = Inr (error_result INCOMPLETE)"
proof -
  have name: "required ''Name'' [(''Name'', JStr ''logs'')] = Inr ''logs''" by (simp add: required_def py_str_def)
  have "\<exists>item. s3_bucket (\<lambda>s. None) (\<lambda>s. None) unencrypted_client [(''Name'', JStr ''logs'')] = Inr [item]"
    unfolding s3_bucket_def name
    by (simp add: and_then_def unencrypted_client_def bucket_tags_def tags_dict_def optional_calls_def optional_call_def
        access_metadata_def policy_metadata_def dict_get_def Let_def)
  then obtain item where item: "s3_bucket (\<lambda>s. None) (\<lambda>s. None) unencrypted_client [(''Name'', JStr ''logs'')] = Inr [item]"
    by blast
  have "evaluate (S3_RULES ! 2) (Some (refresh_asset (\<lambda>s. None) item 21 (new_asset scan_account item 21 90)))
      \<lparr>rc_account_assets = [], rc_evaluated_at = 30\<rparr> = Inr (error_result INCOMPLETE)"
    by (rule unencrypted_bucket_unreported [OF _ name item, where at = 21 and fromiso = "\<lambda>s. None"])
      (simp_all add: unencrypted_client_def describes_def all_rules_def S3_RULES_def)
  with item show ?thesis by blast
qed

end
