(* ===== verification/Risk_Exposure.thy ===== *)
theory Risk_Exposure
  imports Risk_Service Inventory_Properties
begin

text \<open>
  Discovery and risk assessment together: what the risk service reads of the metadata that the
  collectors store. The exposure of an asset is looked up under names that the EC2 collector does not
  write, so that a public address of an instance never reaches a score.
\<close>

section \<open>What the EC2 collector stores of an instance\<close>

lemma json_safe_dict_get: "\<not> dict_has key d \<Longrightarrow> dict_get key (json_safe_dict isoformat d) = JNull"
  using json_safe_keys [of key isoformat d] absent_iff [of "json_safe_dict isoformat d" key] by (auto simp: dict_get_def)

lemma instance_metadata:
  assumes "ec2_instance isoformat region account_id instance_data = Inr items" and "item \<in> set items"
  obtains d where "nz_metadata item = json_safe_dict isoformat d"
    and "map fst d = [''instance_type'', ''vpc_id'', ''subnet_id'', ''security_group_ids'', ''launch_time'', ''has_public_ip'',
      ''metadata_options'']"
    and "map_of d ''has_public_ip'' = Some (JBool (py_truthy (dict_get ''PublicIpAddress'' instance_data)))"
  using assms by (auto simp: ec2_instance_def and_then_Inr)

lemma instance_exposure:
  assumes "ec2_instance isoformat region account_id instance_data = Inr items" and "item \<in> set items"
  shows "asset_exposure (Some (refresh_asset isoformat item at a)) = None"
proof -
  obtain d where d: "nz_metadata item = json_safe_dict isoformat d"
    and keys: "map fst d = [''instance_type'', ''vpc_id'', ''subnet_id'', ''security_group_ids'', ''launch_time'',
      ''has_public_ip'', ''metadata_options'']"
    by (rule instance_metadata [OF assms])
  have "\<not> dict_has k d" if "k \<in> {''publicly_accessible'', ''public_ip'', ''is_public''}" for k
    using that arg_cong [OF keys, of set] by (auto simp: dict_has_def)
  then have "\<not> dict_has k (nz_metadata item)" if "k \<in> {''publicly_accessible'', ''public_ip'', ''is_public''}" for k
    using that json_safe_keys unfolding d by blast
  then show ?thesis by (simp add: asset_exposure_def refresh_asset_def json_safe_dict_get)
qed

section \<open>Properties\<close>

text \<open>
  C39. A public address is invisible to the scores: whatever finding is scored on a discovered EC2
  instance, the result is the one for an instance without a public address, and even the one for a
  finding without an asset, because discovery stores the flag as \<^verbatim>\<open>has_public_ip\<close> while the risk
  service reads \<^verbatim>\<open>public_ip\<close>.
\<close>

theorem public_instance_unexposed:
  assumes "ec2_instance isoformat region account_id instance_data = Inr items" and "item \<in> set items"
    and "ec2_instance isoformat region account_id (dict_put ''PublicIpAddress'' JNull instance_data) = Inr items'"
    and "item' \<in> set items'"
  shows "score_finding (risk_inputs contexts controls t (f, Some (refresh_asset isoformat item at a))) =
      score_finding (risk_inputs contexts controls t (f, Some (refresh_asset isoformat item' at a))) \<and>
    score_finding (risk_inputs contexts controls t (f, Some (refresh_asset isoformat item at a))) =
      score_finding (risk_inputs contexts controls t (f, None))"
  using instance_exposure [OF assms(1,2)] instance_exposure [OF assms(3,4)]
  by (simp add: risk_inputs_def asset_exposure_def [of None])

definition public_instance :: dict where
  "public_instance = [(''InstanceId'', JStr ''i-1''), (''PublicIpAddress'', JStr ''203.0.113.20'')]"

theorem public_instance_unexposed_witness:
  "\<exists>item. ec2_instance (\<lambda>s. None) ''eu-west-1'' ''123456789012'' public_instance = Inr [item] \<and>
     score_finding (risk_inputs [] [] 1000 (critical_finding, Some (refresh_asset (\<lambda>s. None) item 21 (new_asset scan_account item 21 90)))) =
     score_finding (risk_inputs [] [] 1000 (critical_finding, None))"
proof -
  have "\<exists>item. ec2_instance (\<lambda>s. None) ''eu-west-1'' ''123456789012'' public_instance = Inr [item]"
    "\<exists>item. ec2_instance (\<lambda>s. None) ''eu-west-1'' ''123456789012'' (dict_put ''PublicIpAddress'' JNull public_instance) = Inr [item]"
    by (simp_all add: ec2_instance_def public_instance_def and_then_def required_def tags_dict_def get_below_def get_in_def each_def
        dict_get_def dict_get_default_def on_dict_def Let_def)
  then obtain item item' where
    items: "ec2_instance (\<lambda>s. None) ''eu-west-1'' ''123456789012'' public_instance = Inr [item]"
    "ec2_instance (\<lambda>s. None) ''eu-west-1'' ''123456789012'' (dict_put ''PublicIpAddress'' JNull public_instance) = Inr [item']"
    by blast
  have "item \<in> set [item]" "item' \<in> set [item']" by simp_all
  note unseen = public_instance_unexposed [OF items(1) this(1) items(2) this(2), THEN conjunct2]
  show ?thesis by (intro exI [of _ item] conjI items(1) unseen)
qed

end
