(* ===== verification/Compliance.thy ===== *)
theory Compliance
  imports Risk_Service
begin

text \<open>
  Compliance assessments: \<^verbatim>\<open>app/services/compliance.py\<close> over the tables of \<^verbatim>\<open>app/models/compliance.py\<close>, with the
  endpoints of \<^verbatim>\<open>app/api/v1/compliance.py\<close> that write. An assessment turns the findings of an account and the rule
  results of one evaluation into a status per control of a framework. The theory shows which status a
  control gets, that assessments are stored once and for all with counts that match their controls, that the
  catalogue is created once, and that a running evaluation hides the results of the last one.
\<close>

section \<open>The tables\<close>

text \<open>Surrogate keys of rows that nothing refers to and constant columns are left out.\<close>

record ComplianceFramework =
  fw_id :: uuid
  fw_key :: string
  fw_name :: string
  fw_version :: string
  fw_description :: string
  fw_official_reference :: string
  fw_enabled :: bool

text \<open>The primary key and \<^verbatim>\<open>uq_compliance_framework_key_version\<close>.\<close>

definition frameworks_storable :: "ComplianceFramework list \<Rightarrow> bool" where
  "frameworks_storable rows = (keys_distinct fw_id rows \<and> unique_on (\<lambda>f. True) (\<lambda>f. (fw_key f, fw_version f)) rows)"

record ComplianceControl =
  co_id :: uuid
  co_framework_id :: uuid
  co_control_key :: string
  co_title :: string
  co_description :: string
  co_section :: "string option"

definition framework_controls_storable :: "ComplianceControl list \<Rightarrow> bool" where
  "framework_controls_storable rows =
     (keys_distinct co_id rows \<and> unique_on (\<lambda>c. True) (\<lambda>c. (co_framework_id c, co_control_key c)) rows)"

record RuleControlMapping =
  rm_rule_key :: string
  rm_minimum_rule_version :: int
  rm_maximum_rule_version :: "int option"
  rm_framework_id :: uuid
  rm_control_id :: uuid

text \<open>
  The version checks; \<^verbatim>\<open>uq_rule_control_version_range\<close>, in which a missing maximum equals nothing;
  and \<^verbatim>\<open>uq_rule_control_open_range\<close>.
\<close>

definition mappings_storable :: "RuleControlMapping list \<Rightarrow> bool" where
  "mappings_storable rows =
     (list_all (\<lambda>m. 0 < rm_minimum_rule_version m \<and>
        (case rm_maximum_rule_version m of None \<Rightarrow> True | Some v \<Rightarrow> rm_minimum_rule_version m \<le> v)) rows \<and>
      unique_on (\<lambda>m. rm_maximum_rule_version m \<noteq> None)
        (\<lambda>m. (rm_rule_key m, rm_minimum_rule_version m, rm_maximum_rule_version m, rm_control_id m)) rows \<and>
      unique_on (\<lambda>m. rm_maximum_rule_version m = None)
        (\<lambda>m. (rm_rule_key m, rm_minimum_rule_version m, rm_control_id m)) rows)"

record ComplianceAssessment =
  ca_id :: uuid
  ca_organization_id :: uuid
  ca_aws_account_id :: "uuid option"
  ca_framework_id :: uuid
  ca_evaluation_job_id :: "uuid option"
  ca_status :: ComplianceAssessmentStatus
  ca_controls_total :: int
  ca_controls_passed :: int
  ca_controls_failed :: int
  ca_controls_not_assessed :: int
  ca_controls_error :: int
  ca_findings_count :: int
  ca_started_at :: "instant option"
  ca_finished_at :: "instant option"

definition assessment_counts_nonnegative :: "ComplianceAssessment \<Rightarrow> bool" where
  "assessment_counts_nonnegative a =
     (0 \<le> ca_controls_total a \<and> 0 \<le> ca_controls_passed a \<and> 0 \<le> ca_controls_failed a \<and>
      0 \<le> ca_controls_not_assessed a \<and> 0 \<le> ca_controls_error a \<and> 0 \<le> ca_findings_count a)"

definition assessment_control_counts_match :: "ComplianceAssessment \<Rightarrow> bool" where
  "assessment_control_counts_match a =
     (ca_controls_total a = ca_controls_passed a + ca_controls_failed a + ca_controls_not_assessed a + ca_controls_error a)"

definition assessment_status_timestamps :: "ComplianceAssessment \<Rightarrow> bool" where
  "assessment_status_timestamps a =
     (ca_status a = ComplianceAssessmentStatus.PENDING \<and> ca_started_at a = None \<and> ca_finished_at a = None \<or>
      ca_status a = ComplianceAssessmentStatus.RUNNING \<and> ca_started_at a \<noteq> None \<and> ca_finished_at a = None \<or>
      ca_status a \<in> {ComplianceAssessmentStatus.COMPLETED, ComplianceAssessmentStatus.FAILED} \<and>
      ca_started_at a \<noteq> None \<and> ca_finished_at a \<noteq> None)"

definition compliance_active :: "ComplianceAssessment \<Rightarrow> bool" where
  "compliance_active a = (ca_status a \<in> {ComplianceAssessmentStatus.PENDING, ComplianceAssessmentStatus.RUNNING})"

definition compliance_assessments_storable :: "ComplianceAssessment list \<Rightarrow> bool" where
  "compliance_assessments_storable rows =
     (keys_distinct ca_id rows \<and>
      list_all (\<lambda>a. assessment_counts_nonnegative a \<and> assessment_control_counts_match a \<and> assessment_status_timestamps a) rows \<and>
      unique_on compliance_active (\<lambda>a. (ca_aws_account_id a, ca_framework_id a)) rows)"

record ComplianceAssessmentControl =
  cx_assessment_id :: uuid
  cx_control_id :: uuid
  cx_framework_id :: uuid
  cx_status :: ComplianceControlStatus
  cx_findings_count :: int
  cx_assessed_at :: instant

definition control_snapshots_storable :: "ComplianceAssessmentControl list \<Rightarrow> bool" where
  "control_snapshots_storable rows =
     (list_all (\<lambda>x. 0 \<le> cx_findings_count x) rows \<and>
      unique_on (\<lambda>x. True) (\<lambda>x. (cx_assessment_id x, cx_control_id x)) rows)"

record compliance_db =
  cs_db :: db
  cs_frameworks :: "ComplianceFramework list"
  cs_controls :: "ComplianceControl list"
  cs_mappings :: "RuleControlMapping list"
  cs_assessments :: "ComplianceAssessment list"
  cs_snapshots :: "ComplianceAssessmentControl list"

definition catalog_storable :: "compliance_db \<Rightarrow> bool" where
  "catalog_storable s =
     (frameworks_storable (cs_frameworks s) \<and> framework_controls_storable (cs_controls s) \<and> mappings_storable (cs_mappings s))"

definition compliance_audit :: "string \<Rightarrow> uuid \<Rightarrow> uuid \<Rightarrow> uuid option \<Rightarrow> compliance_db \<Rightarrow> compliance_db" where
  "compliance_audit event organization_id actor_id resource_id s =
     s\<lparr>cs_db := record_audit event ''compliance_assessment'' AuditResult.SUCCEEDED (Some organization_id) (Some actor_id)
         resource_id (cs_db s)\<rparr>"

section \<open>The catalogue\<close>

text \<open>Key, name, version, description, reference and control of a framework.\<close>

type_synonym catalog_entry = "string \<times> string \<times> string \<times> string \<times> string \<times> string"

definition CATALOG :: "catalog_entry list" where
  "CATALOG =
     [(''cis_aws'', ''CIS AWS Foundations'', ''1.5'', ''CloudOps summary for network exposure safeguards.'',
       ''https://www.cisecurity.org/benchmark/amazon_web_services'', ''4.1''),
      (''nist_csf'', ''NIST Cybersecurity Framework'', ''2.0'', ''CloudOps summary for protective controls.'',
       ''https://www.nist.gov/cyberframework'', ''PR.AA-01''),
      (''iso_27001'', ''ISO/IEC 27001'', ''2022'', ''CloudOps summary for access and network controls.'',
       ''https://www.iso.org/standard/27001'', ''A.8.20''),
      (''pci_dss'', ''PCI DSS'', ''4.0'', ''CloudOps summary for access restriction controls.'',
       ''https://www.pcisecuritystandards.org/'', ''1.2.1'')]"

definition MAPPED_RULES :: "string list" where
  "MAPPED_RULES = [''EC2_SG_SSH_OPEN_TO_WORLD'', ''EC2_SG_RDP_OPEN_TO_WORLD'', ''EC2_SG_ALL_TRAFFIC_OPEN_TO_WORLD'']"

definition ensure_framework :: "uuid \<Rightarrow> catalog_entry \<Rightarrow> compliance_db \<Rightarrow> ComplianceFramework \<times> compliance_db" where
  "ensure_framework new_id entry s =
     (case entry of
        (key, name, version, description, reference, control_key) \<Rightarrow>
          (case find (\<lambda>f. fw_key f = key \<and> fw_version f = version) (cs_frameworks s) of
             Some f \<Rightarrow> (f, s)
           | None \<Rightarrow>
               let f = \<lparr>fw_id = new_id, fw_key = key, fw_name = name, fw_version = version, fw_description = description,
                        fw_official_reference = reference, fw_enabled = True\<rparr>
               in (f, s\<lparr>cs_frameworks := cs_frameworks s @ [f]\<rparr>)))"

definition ensure_control ::
    "uuid \<Rightarrow> catalog_entry \<Rightarrow> uuid \<Rightarrow> compliance_db \<Rightarrow> ComplianceControl \<times> compliance_db" where
  "ensure_control new_id entry framework_id s =
     (case entry of
        (key, name, version, description, reference, control_key) \<Rightarrow>
          (case find (\<lambda>c. co_framework_id c = framework_id \<and> co_control_key c = control_key) (cs_controls s) of
             Some c \<Rightarrow> (c, s)
           | None \<Rightarrow>
               let c = \<lparr>co_id = new_id, co_framework_id = framework_id, co_control_key = control_key,
                        co_title = ''CloudOps mapping: '' @ control_key, co_description = description,
                        co_section = Some ''CloudOps mapping''\<rparr>
               in (c, s\<lparr>cs_controls := cs_controls s @ [c]\<rparr>)))"

definition ensure_mapping :: "uuid \<Rightarrow> uuid \<Rightarrow> string \<Rightarrow> compliance_db \<Rightarrow> compliance_db" where
  "ensure_mapping framework_id control_id key s =
     (if list_ex (\<lambda>m. rm_rule_key m = key \<and> rm_control_id m = control_id \<and> rm_minimum_rule_version m = 1 \<and>
                      rm_maximum_rule_version m = None) (cs_mappings s)
      then s
      else s\<lparr>cs_mappings := cs_mappings s @
               [\<lparr>rm_rule_key = key, rm_minimum_rule_version = 1, rm_maximum_rule_version = None,
                 rm_framework_id = framework_id, rm_control_id = control_id\<rparr>]\<rparr>)"

text \<open>\<open>draws key\<close> are the fresh identifiers of a framework and its control.\<close>

definition ensure_entry :: "(string \<Rightarrow> uuid \<times> uuid) \<Rightarrow> catalog_entry \<Rightarrow> compliance_db \<Rightarrow> compliance_db" where
  "ensure_entry draws entry s =
     (let (f, s1) = ensure_framework (fst (draws (fst entry))) entry s;
          (c, s2) = ensure_control (snd (draws (fst entry))) entry (fw_id f) s1
      in fold (ensure_mapping (fw_id f) (co_id c)) MAPPED_RULES s2)"

definition ensure_catalog :: "(string \<Rightarrow> uuid \<times> uuid) \<Rightarrow> compliance_db \<Rightarrow> compliance_db" where
  "ensure_catalog draws s = fold (ensure_entry draws) CATALOG s"

text \<open>
  The newest version of a framework, as the database orders the strings; an empty version is no
  restriction.
\<close>

definition framework_by_key :: "string \<Rightarrow> string option \<Rightarrow> compliance_db \<Rightarrow> exn + ComplianceFramework" where
  "framework_by_key key version s =
     (case rev (sort_key fw_version (filter (\<lambda>f. fw_key f = key \<and> fw_enabled f \<and>
                  (version = None \<or> version = Some [] \<or> version = Some (fw_version f))) (cs_frameworks s))) of
        [] \<Rightarrow> Inl (NotFoundError ''framework_not_found'')
      | f # _ \<Rightarrow> Inr f)"

section \<open>An assessment\<close>

text \<open>
  The evaluation whose results count: the requested one or, without a request, the first by \<^verbatim>\<open>finished_at DESC\<close>
  and id. PostgreSQL sorts missing values before all others in a descending order.
\<close>

definition evaluation_order :: "EvaluationJob \<Rightarrow> int \<times> int \<times> uuid" where
  "evaluation_order j = (case ej_finished_at j of None \<Rightarrow> (0, 0, ej_id j) | Some t \<Rightarrow> (1, - t, ej_id j))"

definition source_job :: "uuid \<Rightarrow> uuid \<Rightarrow> uuid option \<Rightarrow> db \<Rightarrow> EvaluationJob option" where
  "source_job account_id organization_id requested d =
     (let rows = filter (\<lambda>j. ej_aws_account_id j = account_id \<and> ej_organization_id j = organization_id) (evaluation_jobs d)
      in case requested of
           Some i \<Rightarrow> get_row ej_id i rows
         | None \<Rightarrow> (case sort_key evaluation_order rows of [] \<Rightarrow> None | j # _ \<Rightarrow> Some j))"

definition source_evaluation ::
    "uuid \<Rightarrow> uuid \<Rightarrow> uuid option \<Rightarrow> db \<Rightarrow> EvaluationJob option \<times> ComplianceControlStatus" where
  "source_evaluation account_id organization_id requested d =
     (case source_job account_id organization_id requested d of
        None \<Rightarrow> (None, ComplianceControlStatus.NOT_ASSESSED)
      | Some j \<Rightarrow>
          if ej_status j = EvaluationJobStatus.COMPLETED \<and> ej_error_count j = 0 \<and> ej_evaluation_errors j = 0 then
            (Some j, ComplianceControlStatus.PASS)
          else if ej_status j \<in> {EvaluationJobStatus.COMPLETED, EvaluationJobStatus.PARTIALLY_COMPLETED,
                                  EvaluationJobStatus.FAILED} \<and>
                  (0 < ej_error_count j \<or> 0 < ej_evaluation_errors j) then
            (Some j, ComplianceControlStatus.ERROR)
          else (Some j, ComplianceControlStatus.NOT_ASSESSED))"

definition in_range :: "int \<Rightarrow> RuleControlMapping \<Rightarrow> bool" where
  "in_range version m =
     (rm_minimum_rule_version m \<le> version \<and>
      (case rm_maximum_rule_version m of None \<Rightarrow> True | Some v \<Rightarrow> version \<le> v))"

definition relevant_findings :: "Finding list \<Rightarrow> RuleControlMapping list \<Rightarrow> Finding list" where
  "relevant_findings fs mappings =
     filter (\<lambda>f. list_ex (\<lambda>m. rm_rule_key m = f_rule_key f \<and> in_range (f_rule_version f) m) mappings) fs"

text \<open>The loop over the rules of a control; \<open>None\<close> is its early return.\<close>

fun matched_results ::
    "RuleControlMapping list \<Rightarrow> EvaluationRuleResult list \<Rightarrow> string list \<Rightarrow> EvaluationRuleResult list option" where
  "matched_results mappings results [] = Some []"
| "matched_results mappings results (key # keys) =
     (let matches = filter (\<lambda>r. er_rule_key r = key \<and>
                      list_ex (\<lambda>m. rm_rule_key m = key \<and> in_range (er_rule_version r) m) mappings) results
      in if matches = [] then None
         else (case matched_results mappings results keys of
                 None \<Rightarrow> None | Some rest \<Rightarrow> Some (matches @ rest)))"

definition control_status ::
    "RuleControlMapping list \<Rightarrow> Finding list \<Rightarrow> ComplianceControlStatus \<Rightarrow> EvaluationRuleResult list \<Rightarrow>
     ComplianceControlStatus" where
  "control_status mappings fs source_state results =
     (if mappings = [] then ComplianceControlStatus.NOT_ASSESSED
      else if list_ex (\<lambda>f. f_status f \<in> {FindingStatus.OPEN, FindingStatus.SUPPRESSED}) fs then ComplianceControlStatus.FAIL
      else if source_state \<noteq> ComplianceControlStatus.PASS then source_state
      else
        case matched_results mappings results (sort (remdups (map rm_rule_key mappings))) of
          None \<Rightarrow> ComplianceControlStatus.NOT_ASSESSED
        | Some matched \<Rightarrow>
            if list_ex (\<lambda>r. 0 < er_error_count r) matched then ComplianceControlStatus.ERROR
            else if list_ex (\<lambda>r. 0 < er_failed_count r) matched then ComplianceControlStatus.ERROR
            else if list_ex (\<lambda>r. er_passed_count r + er_failed_count r + er_not_applicable_count r = 0) matched then
              ComplianceControlStatus.NOT_ASSESSED
            else if list_all (\<lambda>r. er_passed_count r = 0) matched then ComplianceControlStatus.NOT_ASSESSED
            else ComplianceControlStatus.PASS)"

definition framework_controls :: "uuid \<Rightarrow> compliance_db \<Rightarrow> ComplianceControl list" where
  "framework_controls framework_id s = sort_key co_control_key (filter (\<lambda>c. co_framework_id c = framework_id) (cs_controls s))"

definition control_mappings :: "uuid \<Rightarrow> compliance_db \<Rightarrow> ComplianceControl \<Rightarrow> RuleControlMapping list" where
  "control_mappings framework_id s c =
     filter (\<lambda>m. rm_framework_id m = framework_id \<and> rm_control_id m = co_id c) (cs_mappings s)"

definition account_findings :: "AWSAccount \<Rightarrow> db \<Rightarrow> Finding list" where
  "account_findings account d =
     filter (\<lambda>f. f_organization_id f = acc_organization_id account \<and> f_aws_account_id f = acc_id account) (findings d)"

definition evaluation_results :: "AWSAccount \<Rightarrow> EvaluationJob option \<Rightarrow> db \<Rightarrow> EvaluationRuleResult list" where
  "evaluation_results account evaluation d =
     (case evaluation of
        None \<Rightarrow> []
      | Some j \<Rightarrow> filter (\<lambda>r. er_evaluation_job_id r = ej_id j \<and> er_organization_id r = acc_organization_id account \<and>
                              er_aws_account_id r = acc_id account) (rule_results d))"

definition control_snapshot ::
    "AWSAccount \<Rightarrow> EvaluationJob option \<times> ComplianceControlStatus \<Rightarrow> uuid \<Rightarrow> uuid \<Rightarrow> instant \<Rightarrow> compliance_db \<Rightarrow>
     ComplianceControl \<Rightarrow> ComplianceAssessmentControl" where
  "control_snapshot account source i framework_id now s c =
     (let mappings = control_mappings framework_id s c;
          relevant = relevant_findings (account_findings account (cs_db s)) mappings
      in \<lparr>cx_assessment_id = i, cx_control_id = co_id c, cx_framework_id = framework_id,
          cx_status = control_status mappings relevant (snd source) (evaluation_results account (fst source) (cs_db s)),
          cx_findings_count = int (length relevant), cx_assessed_at = now\<rparr>)"

definition status_count :: "ComplianceControlStatus \<Rightarrow> ComplianceAssessmentControl list \<Rightarrow> int" where
  "status_count st snapshots = int (length (filter (\<lambda>x. cx_status x = st) snapshots))"

definition started_assessment ::
    "AWSAccount \<Rightarrow> ComplianceFramework \<Rightarrow> EvaluationJob option \<Rightarrow> uuid \<Rightarrow> instant \<Rightarrow> ComplianceAssessment" where
  "started_assessment account framework evaluation i now =
     \<lparr>ca_id = i, ca_organization_id = acc_organization_id account, ca_aws_account_id = Some (acc_id account),
      ca_framework_id = fw_id framework, ca_evaluation_job_id = map_option ej_id evaluation,
      ca_status = ComplianceAssessmentStatus.RUNNING, ca_controls_total = 0, ca_controls_passed = 0,
      ca_controls_failed = 0, ca_controls_not_assessed = 0, ca_controls_error = 0, ca_findings_count = 0,
      ca_started_at = Some now, ca_finished_at = None\<rparr>"

definition finished_assessment ::
    "ComplianceAssessment \<Rightarrow> ComplianceAssessmentControl list \<Rightarrow> nat \<Rightarrow> instant \<Rightarrow> ComplianceAssessment" where
  "finished_assessment a snapshots findings_count now =
     a\<lparr>ca_controls_total := int (length snapshots),
       ca_controls_passed := status_count ComplianceControlStatus.PASS snapshots,
       ca_controls_failed := status_count ComplianceControlStatus.FAIL snapshots,
       ca_controls_not_assessed := status_count ComplianceControlStatus.NOT_ASSESSED snapshots,
       ca_controls_error := status_count ComplianceControlStatus.ERROR snapshots,
       ca_findings_count := int findings_count, ca_status := ComplianceAssessmentStatus.COMPLETED,
       ca_finished_at := Some now\<rparr>"

record ComplianceDraw =
  kd_assessment_id :: uuid
  kd_catalog :: "string \<Rightarrow> uuid \<times> uuid"

text \<open>The transaction after the checks; \<open>s\<close> is the state with the catalogue.\<close>

definition record_assessment ::
    "AWSAccount \<Rightarrow> uuid \<Rightarrow> ComplianceFramework \<Rightarrow> uuid option \<Rightarrow> uuid \<Rightarrow> instant \<Rightarrow> compliance_db \<Rightarrow>
     exn + ComplianceAssessment \<times> compliance_db" where
  "record_assessment account actor framework requested i now s =
     (let source = source_evaluation (acc_id account) (acc_organization_id account) requested (cs_db s);
          a = started_assessment account framework (fst source) i now
      in if \<not> compliance_assessments_storable (cs_assessments s @ [a]) then Inl IntegrityError
         else
           let s1 = compliance_audit ''compliance.assessment.started'' (acc_organization_id account) actor (Some i)
                      (s\<lparr>cs_assessments := cs_assessments s @ [a]\<rparr>);
               snapshots = map (control_snapshot account source i (fw_id framework) now s1) (framework_controls (fw_id framework) s1);
               a' = finished_assessment a snapshots (length (account_findings account (cs_db s1))) now;
               s2 = compliance_audit ''compliance.assessment.completed'' (acc_organization_id account) actor (Some i)
                      (s1\<lparr>cs_assessments := put_row ca_id a' (cs_assessments s1), cs_snapshots := cs_snapshots s1 @ snapshots\<rparr>)
           in if compliance_assessments_storable (cs_assessments s2) \<and> control_snapshots_storable (cs_snapshots s2)
              then Inr (a', s2) else Inl IntegrityError)"

text \<open>\<open>locked\<close>: another transaction holds the row lock of the account (SQLSTATE 55P03).\<close>

definition assess_compliance ::
    "bool \<Rightarrow> uuid \<Rightarrow> uuid \<Rightarrow> string \<Rightarrow> string option \<Rightarrow> uuid option \<Rightarrow> ComplianceDraw \<Rightarrow> instant \<Rightarrow> compliance_db \<Rightarrow>
     (compliance_db, ComplianceAssessment) outcome" where
  "assess_compliance locked account_id actor framework_key version requested draw now s =
     (case aws_account_for_user account_id actor (cs_db s) of
        None \<Rightarrow> raise (NotFoundError ''aws_account_not_found'') s
      | Some (account, m) \<Rightarrow>
          if locked then raise (ConflictError ''compliance_assessment_active'') s
          else
            case require_capability (acc_organization_id account) actor COMPLIANCE_ASSESS (cs_db s) of
              Inl e \<Rightarrow> raise e s
            | Inr _ \<Rightarrow>
                let s1 = ensure_catalog (kd_catalog draw) s in
                if \<not> catalog_storable s1 then raise IntegrityError s
                else
                  case framework_by_key framework_key version s1 of
                    Inl e \<Rightarrow> raise e s
                  | Inr framework \<Rightarrow>
                      if list_ex (\<lambda>a. ca_aws_account_id a = Some (acc_id account) \<and> ca_framework_id a = fw_id framework \<and>
                                      compliance_active a) (cs_assessments s1)
                      then raise (ConflictError ''compliance_assessment_active'') s
                      else
                        case record_assessment account actor framework requested (kd_assessment_id draw) now s1 of
                          Inl e \<Rightarrow> raise e s
                        | Inr (a, s2) \<Rightarrow> return a s2)"

text \<open>The endpoints that write: the catalogue of every listing, and the assessment with the trace of a failure.\<close>

definition catalog_request :: "uuid \<Rightarrow> uuid \<Rightarrow> (string \<Rightarrow> uuid \<times> uuid) \<Rightarrow> compliance_db \<Rightarrow> (compliance_db, unit) outcome" where
  "catalog_request organization_id actor draws s =
     (case require_capability organization_id actor COMPLIANCE_READ (cs_db s) of
        Inl e \<Rightarrow> raise e s
      | Inr _ \<Rightarrow>
          let s1 = ensure_catalog draws s in
          if catalog_storable s1 then return () s1 else raise IntegrityError s)"

definition assess_compliance_endpoint ::
    "bool \<Rightarrow> uuid \<Rightarrow> uuid \<Rightarrow> string \<Rightarrow> string option \<Rightarrow> uuid option \<Rightarrow> ComplianceDraw \<Rightarrow> instant \<Rightarrow> compliance_db \<Rightarrow>
     (compliance_db, ComplianceAssessment) outcome" where
  "assess_compliance_endpoint locked account_id actor framework_key version requested draw now s =
     (case assess_compliance locked account_id actor framework_key version requested draw now s of
        (Inr a, s') \<Rightarrow> return a s'
      | (Inl e, s') \<Rightarrow>
          if is_app_error e then raise e s'
          else
            case aws_account_for_user account_id actor (cs_db s') of
              None \<Rightarrow> raise e s'
            | Some (account, m) \<Rightarrow>
                raise e (compliance_audit ''compliance.assessment.failed'' (acc_organization_id account) actor None s'))"

text \<open>The service as a state machine; the tables it only reads change in any way in between.\<close>

definition fresh_catalog :: "(string \<Rightarrow> uuid \<times> uuid) \<Rightarrow> compliance_db \<Rightarrow> bool" where
  "fresh_catalog draws s =
     (distinct (map (\<lambda>e. fst (draws (fst e))) CATALOG) \<and> distinct (map (\<lambda>e. snd (draws (fst e))) CATALOG) \<and>
      list_all (\<lambda>e. fst (draws (fst e)) \<notin> fw_id ` set (cs_frameworks s) \<and> snd (draws (fst e)) \<notin> co_id ` set (cs_controls s)) CATALOG)"

inductive compliance_step :: "compliance_db \<Rightarrow> compliance_db \<Rightarrow> bool" where
  other_tables: "compliance_step s (s\<lparr>cs_db := d\<rparr>)"
| catalog_listed: "fresh_catalog draws s \<Longrightarrow> compliance_step s (snd (catalog_request organization_id actor draws s))"
| account_assessed: "fresh_catalog (kd_catalog draw) s \<Longrightarrow> kd_assessment_id draw \<notin> ca_id ` set (cs_assessments s) \<Longrightarrow>
    compliance_step s (snd (assess_compliance_endpoint locked account_id actor framework_key version requested draw now s))"

section \<open>Lemmas on the catalogue\<close>

lemma ensure_framework_cases:
  assumes "ensure_framework i e s = (f, s1)"
  obtains (old) "s1 = s" "f \<in> set (cs_frameworks s)" "fw_key f = fst e" "fw_version f = fst (snd (snd e))"
  | (new) "s1 = s\<lparr>cs_frameworks := cs_frameworks s @ [f]\<rparr>" "fw_id f = i" "fw_key f = fst e" "fw_version f = fst (snd (snd e))"
      "\<And>g. g \<in> set (cs_frameworks s) \<Longrightarrow> (fw_key g, fw_version g) \<noteq> (fw_key f, fw_version f)"
  using assms
  by (auto simp: ensure_framework_def find_None_iff find_Some_iff Let_def split: option.splits prod.splits)

lemma ensure_control_cases:
  assumes "ensure_control i e framework_id s = (c, s1)"
  obtains (old) "s1 = s" "c \<in> set (cs_controls s)" "co_framework_id c = framework_id"
  | (new) "s1 = s\<lparr>cs_controls := cs_controls s @ [c]\<rparr>" "co_id c = i" "co_framework_id c = framework_id"
      "\<And>g. g \<in> set (cs_controls s) \<Longrightarrow> (co_framework_id g, co_control_key g) \<noteq> (co_framework_id c, co_control_key c)"
  using assms
  by (auto simp: ensure_control_def find_None_iff find_Some_iff Let_def split: option.splits prod.splits)

text \<open>Creating the catalogue appends frameworks, controls and mappings and touches nothing else.\<close>

definition catalog_grown :: "compliance_db \<Rightarrow> compliance_db \<Rightarrow> bool" where
  "catalog_grown s s' =
     (\<exists>fs cs ms. s' = s\<lparr>cs_frameworks := cs_frameworks s @ fs, cs_controls := cs_controls s @ cs, cs_mappings := cs_mappings s @ ms\<rparr>)"

lemma catalog_grown_refl: "catalog_grown s s"
  unfolding catalog_grown_def by (rule exI [of _ "[]"])+ simp

lemma catalog_grown_trans:
  assumes "catalog_grown s s'" and "catalog_grown s' s''"
  shows "catalog_grown s s''"
proof -
  obtain fs cs ms where s': "s' = s\<lparr>cs_frameworks := cs_frameworks s @ fs, cs_controls := cs_controls s @ cs, cs_mappings := cs_mappings s @ ms\<rparr>"
    using assms(1) by (auto simp: catalog_grown_def)
  obtain fs' cs' ms' where "s'' = s'\<lparr>cs_frameworks := cs_frameworks s' @ fs', cs_controls := cs_controls s' @ cs', cs_mappings := cs_mappings s' @ ms'\<rparr>"
    using assms(2) by (auto simp: catalog_grown_def)
  then show ?thesis unfolding catalog_grown_def s'
    by (intro exI [of _ "fs @ fs'"] exI [of _ "cs @ cs'"] exI [of _ "ms @ ms'"]) simp
qed

lemma catalog_grown_framework: "catalog_grown s (s\<lparr>cs_frameworks := cs_frameworks s @ fs\<rparr>)"
  unfolding catalog_grown_def by (rule exI [of _ fs], rule exI [of _ "[]"], rule exI [of _ "[]"]) simp

lemma catalog_grown_control: "catalog_grown s (s\<lparr>cs_controls := cs_controls s @ cs\<rparr>)"
  unfolding catalog_grown_def by (rule exI [of _ "[]"], rule exI [of _ cs], rule exI [of _ "[]"]) simp

lemma ensure_mapping_grown: "catalog_grown s (ensure_mapping i c key s)"
proof (cases "ensure_mapping i c key s = s")
  case False
  then obtain m where "ensure_mapping i c key s = s\<lparr>cs_mappings := cs_mappings s @ [m]\<rparr>"
    by (auto simp: ensure_mapping_def split: if_splits)
  then show ?thesis
    unfolding catalog_grown_def by (intro exI [of _ "[]"] exI [of _ "[m]"]) simp
qed (simp add: catalog_grown_refl)

lemma fold_grown:
  assumes "\<And>x s. catalog_grown s (f x s)"
  shows "catalog_grown s (fold f xs s)"
  by (induction xs arbitrary: s) (simp_all add: catalog_grown_refl, blast intro: assms catalog_grown_trans)

lemma ensure_entry_grown: "catalog_grown s (ensure_entry draws e s)"
proof -
  obtain f s1 where f: "ensure_framework (fst (draws (fst e))) e s = (f, s1)" by fastforce
  obtain c s2 where c: "ensure_control (snd (draws (fst e))) e (fw_id f) s1 = (c, s2)" by fastforce
  have "catalog_grown s s1" by (cases rule: ensure_framework_cases [OF f]) (simp_all add: catalog_grown_refl catalog_grown_framework)
  moreover have "catalog_grown s1 s2" by (cases rule: ensure_control_cases [OF c]) (simp_all add: catalog_grown_refl catalog_grown_control)
  moreover have "catalog_grown s2 (fold (ensure_mapping (fw_id f) (co_id c)) MAPPED_RULES s2)"
    by (rule fold_grown) (rule ensure_mapping_grown)
  ultimately show ?thesis by (auto simp: ensure_entry_def f c intro: catalog_grown_trans)
qed

lemma ensure_catalog_grown: "catalog_grown s (ensure_catalog draws s)"
  unfolding ensure_catalog_def by (rule fold_grown) (rule ensure_entry_grown)

lemma grown_frame [simp]:
  "cs_db (ensure_catalog draws s) = cs_db s" "cs_assessments (ensure_catalog draws s) = cs_assessments s"
  "cs_snapshots (ensure_catalog draws s) = cs_snapshots s"
  using ensure_catalog_grown [of s draws] by (auto simp: catalog_grown_def)

text \<open>An entry that is there is found again, whatever is appended, and is not created once more.\<close>

definition entry_present :: "catalog_entry \<Rightarrow> compliance_db \<Rightarrow> bool" where
  "entry_present e s =
     (\<exists>f c. find (\<lambda>f. fw_key f = fst e \<and> fw_version f = fst (snd (snd e))) (cs_frameworks s) = Some f \<and>
        find (\<lambda>c. co_framework_id c = fw_id f \<and> co_control_key c = snd (snd (snd (snd (snd e))))) (cs_controls s) = Some c \<and>
        (\<forall>key \<in> set MAPPED_RULES. \<exists>m \<in> set (cs_mappings s). rm_rule_key m = key \<and> rm_control_id m = co_id c \<and>
           rm_minimum_rule_version m = 1 \<and> rm_maximum_rule_version m = None))"

lemma find_appended: "find P (xs @ ys) = (case find P xs of None \<Rightarrow> find P ys | Some x \<Rightarrow> Some x)"
  by (induction xs) auto

lemma entry_present_grown:
  assumes "entry_present e s" and "catalog_grown s s'"
  shows "entry_present e s'"
proof -
  obtain fs cs ms where s': "s' = s\<lparr>cs_frameworks := cs_frameworks s @ fs, cs_controls := cs_controls s @ cs, cs_mappings := cs_mappings s @ ms\<rparr>"
    using assms(2) by (auto simp: catalog_grown_def)
  obtain f c where "find (\<lambda>f. fw_key f = fst e \<and> fw_version f = fst (snd (snd e))) (cs_frameworks s) = Some f"
    "find (\<lambda>c. co_framework_id c = fw_id f \<and> co_control_key c = snd (snd (snd (snd (snd e))))) (cs_controls s) = Some c"
    "\<forall>key \<in> set MAPPED_RULES. \<exists>m \<in> set (cs_mappings s). rm_rule_key m = key \<and> rm_control_id m = co_id c \<and>
       rm_minimum_rule_version m = 1 \<and> rm_maximum_rule_version m = None"
    using assms(1) by (auto simp: entry_present_def)
  then show ?thesis unfolding entry_present_def s' by (intro exI [of _ f] exI [of _ c]) (auto simp: find_appended)
qed

lemma ensure_framework_found:
  "ensure_framework i e s = (f, s1) \<Longrightarrow>
     find (\<lambda>f. fw_key f = fst e \<and> fw_version f = fst (snd (snd e))) (cs_frameworks s1) = Some f"
  by (auto simp: ensure_framework_def Let_def find_appended split: option.splits prod.splits)

lemma ensure_control_found:
  "ensure_control i e framework_id s = (c, s1) \<Longrightarrow>
     find (\<lambda>c. co_framework_id c = framework_id \<and> co_control_key c = snd (snd (snd (snd (snd e))))) (cs_controls s1) = Some c"
  by (auto simp: ensure_control_def Let_def find_appended split: option.splits prod.splits)

lemma fold_mappings_found:
  "key \<in> set keys \<Longrightarrow> \<exists>m \<in> set (cs_mappings (fold (ensure_mapping i c) keys s)). rm_rule_key m = key \<and> rm_control_id m = c \<and>
     rm_minimum_rule_version m = 1 \<and> rm_maximum_rule_version m = None"
proof (induction keys arbitrary: s)
  case (Cons k ks)
  show ?case
  proof (cases "key \<in> set ks")
    case False
    then have "\<exists>m \<in> set (cs_mappings (ensure_mapping i c key s)). rm_rule_key m = key \<and> rm_control_id m = c \<and>
        rm_minimum_rule_version m = 1 \<and> rm_maximum_rule_version m = None"
      by (auto simp: ensure_mapping_def list_ex_iff)
    moreover have "catalog_grown (ensure_mapping i c key s) (fold (ensure_mapping i c) ks (ensure_mapping i c key s))"
      by (rule fold_grown) (rule ensure_mapping_grown)
    ultimately show ?thesis using False Cons.prems by (auto simp: catalog_grown_def)
  qed (use Cons.IH in auto)
qed simp

lemma ensure_entry_present: "entry_present e (ensure_entry draws e s)"
proof -
  obtain f s1 where f: "ensure_framework (fst (draws (fst e))) e s = (f, s1)" by fastforce
  obtain c s2 where c: "ensure_control (snd (draws (fst e))) e (fw_id f) s1 = (c, s2)" by fastforce
  let ?s = "fold (ensure_mapping (fw_id f) (co_id c)) MAPPED_RULES s2"
  have "catalog_grown s1 s2" by (cases rule: ensure_control_cases [OF c]) (simp_all add: catalog_grown_refl catalog_grown_control)
  then obtain fs cs where s2: "cs_frameworks s2 = cs_frameworks s1 @ fs" by (auto simp: catalog_grown_def)
  have "catalog_grown s2 ?s" by (rule fold_grown) (rule ensure_mapping_grown)
  then obtain fs' cs' where "cs_frameworks ?s = cs_frameworks s2 @ fs'" "cs_controls ?s = cs_controls s2 @ cs'"
    by (auto simp: catalog_grown_def)
  then have "find (\<lambda>f. fw_key f = fst e \<and> fw_version f = fst (snd (snd e))) (cs_frameworks ?s) = Some f"
    "find (\<lambda>c. co_framework_id c = fw_id f \<and> co_control_key c = snd (snd (snd (snd (snd e))))) (cs_controls ?s) = Some c"
    using ensure_framework_found [OF f] ensure_control_found [OF c] s2 by (simp_all add: find_appended)
  then have "entry_present e ?s" unfolding entry_present_def using fold_mappings_found by blast
  then show ?thesis by (simp add: ensure_entry_def f c)
qed

lemma ensure_entry_idle:
  assumes "entry_present e s"
  shows "ensure_entry draws e s = s"
proof -
  obtain f c where found: "find (\<lambda>f. fw_key f = fst e \<and> fw_version f = fst (snd (snd e))) (cs_frameworks s) = Some f"
    "find (\<lambda>c. co_framework_id c = fw_id f \<and> co_control_key c = snd (snd (snd (snd (snd e))))) (cs_controls s) = Some c"
    and m: "\<forall>key \<in> set MAPPED_RULES. \<exists>m \<in> set (cs_mappings s). rm_rule_key m = key \<and> rm_control_id m = co_id c \<and>
           rm_minimum_rule_version m = 1 \<and> rm_maximum_rule_version m = None"
    using assms by (auto simp: entry_present_def)
  have "ensure_framework (fst (draws (fst e))) e s = (f, s)" "ensure_control (snd (draws (fst e))) e (fw_id f) s = (c, s)"
    using found by (cases e; simp add: ensure_framework_def ensure_control_def)+
  moreover have "fold (ensure_mapping i (co_id c)) keys s = s" if "set keys \<subseteq> set MAPPED_RULES" for keys i
    using that m by (induction keys) (auto simp: ensure_mapping_def list_ex_iff)
  ultimately show ?thesis by (simp add: ensure_entry_def)
qed

lemma ensure_mapping_storable:
  assumes "mappings_storable (cs_mappings s)"
  shows "mappings_storable (cs_mappings (ensure_mapping i c key s))"
  using assms
  by (auto simp: ensure_mapping_def mappings_storable_def unique_on_snoc list_ex_iff)

lemma fold_mapping_frame:
  "cs_frameworks (fold (ensure_mapping i c) keys s) = cs_frameworks s" "cs_controls (fold (ensure_mapping i c) keys s) = cs_controls s"
  "mappings_storable (cs_mappings s) \<Longrightarrow> mappings_storable (cs_mappings (fold (ensure_mapping i c) keys s))"
proof -
  show "cs_frameworks (fold (ensure_mapping i c) keys s) = cs_frameworks s"
    "cs_controls (fold (ensure_mapping i c) keys s) = cs_controls s"
    by (induction keys arbitrary: s) (simp_all add: ensure_mapping_def)
  show "mappings_storable (cs_mappings (fold (ensure_mapping i c) keys s))" if "mappings_storable (cs_mappings s)"
    using that by (induction keys arbitrary: s) (simp_all add: ensure_mapping_storable)
qed

lemma ensure_entry_storable:
  assumes "catalog_storable s"
    and "fst (draws (fst e)) \<notin> fw_id ` set (cs_frameworks s)" and "snd (draws (fst e)) \<notin> co_id ` set (cs_controls s)"
  shows "catalog_storable (ensure_entry draws e s) \<and>
    fw_id ` set (cs_frameworks (ensure_entry draws e s)) \<subseteq> insert (fst (draws (fst e))) (fw_id ` set (cs_frameworks s)) \<and>
    co_id ` set (cs_controls (ensure_entry draws e s)) \<subseteq> insert (snd (draws (fst e))) (co_id ` set (cs_controls s))"
proof -
  obtain f s1 where f: "ensure_framework (fst (draws (fst e))) e s = (f, s1)" by fastforce
  obtain c s2 where c: "ensure_control (snd (draws (fst e))) e (fw_id f) s1 = (c, s2)" by fastforce
  have 1: "catalog_storable s1 \<and> fw_id ` set (cs_frameworks s1) \<subseteq> insert (fst (draws (fst e))) (fw_id ` set (cs_frameworks s)) \<and>
      cs_controls s1 = cs_controls s"
    using assms(1,2) by (cases rule: ensure_framework_cases [OF f])
      (auto simp: catalog_storable_def frameworks_storable_def keys_distinct_snoc unique_on_snoc)
  have 2: "catalog_storable s2 \<and> co_id ` set (cs_controls s2) \<subseteq> insert (snd (draws (fst e))) (co_id ` set (cs_controls s)) \<and>
      cs_frameworks s2 = cs_frameworks s1"
    using 1 assms(3) by (cases rule: ensure_control_cases [OF c])
      (auto simp: catalog_storable_def framework_controls_storable_def keys_distinct_snoc unique_on_snoc)
  show ?thesis
    using 1 2 by (auto simp: ensure_entry_def f c fold_mapping_frame catalog_storable_def)
qed

lemma ensure_catalog_storable:
  assumes "catalog_storable s" and "fresh_catalog draws s"
  shows "catalog_storable (ensure_catalog draws s)"
proof -
  have "catalog_storable (fold (ensure_entry draws) es s)"
    if "catalog_storable s" "distinct (map (\<lambda>e. fst (draws (fst e))) es)" "distinct (map (\<lambda>e. snd (draws (fst e))) es)"
      "\<forall>e \<in> set es. fst (draws (fst e)) \<notin> fw_id ` set (cs_frameworks s) \<and> snd (draws (fst e)) \<notin> co_id ` set (cs_controls s)"
    for es s
    using that
  proof (induction es arbitrary: s)
    case (Cons e es)
    have step: "catalog_storable (ensure_entry draws e s)"
      and sub: "fw_id ` set (cs_frameworks (ensure_entry draws e s)) \<subseteq> insert (fst (draws (fst e))) (fw_id ` set (cs_frameworks s))"
        "co_id ` set (cs_controls (ensure_entry draws e s)) \<subseteq> insert (snd (draws (fst e))) (co_id ` set (cs_controls s))"
      using ensure_entry_storable [of s draws e] Cons.prems(1,4) by simp_all
    have "\<forall>e' \<in> set es. fst (draws (fst e')) \<notin> fw_id ` set (cs_frameworks (ensure_entry draws e s)) \<and>
        snd (draws (fst e')) \<notin> co_id ` set (cs_controls (ensure_entry draws e s))"
    proof
      fix e' assume e': "e' \<in> set es"
      have "fst (draws (fst e)) \<notin> (\<lambda>e. fst (draws (fst e))) ` set es" "snd (draws (fst e)) \<notin> (\<lambda>e. snd (draws (fst e))) ` set es"
        using Cons.prems(2,3) by simp_all
      then have "fst (draws (fst e')) \<noteq> fst (draws (fst e))" "snd (draws (fst e')) \<noteq> snd (draws (fst e))"
        using e' by (force simp: image_iff)+
      then show "fst (draws (fst e')) \<notin> fw_id ` set (cs_frameworks (ensure_entry draws e s)) \<and>
          snd (draws (fst e')) \<notin> co_id ` set (cs_controls (ensure_entry draws e s))"
        using sub Cons.prems(4) e' by (meson insertE list.set_intros(2) subsetD)
    qed
    then show ?case using Cons step by simp
  qed simp
  then show ?thesis using assms by (simp add: ensure_catalog_def fresh_catalog_def list_all_iff)
qed

section \<open>The invariant of the stored assessments\<close>

definition snapshots_of :: "uuid \<Rightarrow> compliance_db \<Rightarrow> ComplianceAssessmentControl list" where
  "snapshots_of i s = filter (\<lambda>x. cx_assessment_id x = i) (cs_snapshots s)"

text \<open>The numbers of an assessment are those of its controls, each of which is stored once.\<close>

definition recounted :: "compliance_db \<Rightarrow> ComplianceAssessment \<Rightarrow> bool" where
  "recounted s a =
     (ca_status a = ComplianceAssessmentStatus.COMPLETED \<and>
      ca_controls_total a = int (length (snapshots_of (ca_id a) s)) \<and>
      ca_controls_passed a = status_count ComplianceControlStatus.PASS (snapshots_of (ca_id a) s) \<and>
      ca_controls_failed a = status_count ComplianceControlStatus.FAIL (snapshots_of (ca_id a) s) \<and>
      ca_controls_not_assessed a = status_count ComplianceControlStatus.NOT_ASSESSED (snapshots_of (ca_id a) s) \<and>
      ca_controls_error a = status_count ComplianceControlStatus.ERROR (snapshots_of (ca_id a) s) \<and>
      distinct (map cx_control_id (snapshots_of (ca_id a) s)))"

definition compliance_ok :: "compliance_db \<Rightarrow> bool" where
  "compliance_ok s =
     (catalog_storable s \<and> compliance_assessments_storable (cs_assessments s) \<and> control_snapshots_storable (cs_snapshots s) \<and>
      (\<forall>a \<in> set (cs_assessments s). recounted s a) \<and> cx_assessment_id ` set (cs_snapshots s) \<subseteq> ca_id ` set (cs_assessments s))"

text \<open>What a later state has more.\<close>

definition results_added :: "compliance_db \<Rightarrow> compliance_db \<Rightarrow> bool" where
  "results_added s s' =
     ((\<exists>as. cs_assessments s' = cs_assessments s @ as) \<and>
      (\<forall>a \<in> set (cs_assessments s). snapshots_of (ca_id a) s' = snapshots_of (ca_id a) s))"

lemma results_added_trans: "results_added s s' \<Longrightarrow> results_added s' s'' \<Longrightarrow> results_added s s''"
  by (auto simp: results_added_def)

lemma results_added_same:
  "cs_assessments s' = cs_assessments s \<Longrightarrow> cs_snapshots s' = cs_snapshots s \<Longrightarrow> results_added s s'"
  by (simp add: results_added_def snapshots_of_def)

lemma compliance_ok_same:
  "compliance_ok s \<Longrightarrow> catalog_storable s' \<Longrightarrow> cs_assessments s' = cs_assessments s \<Longrightarrow> cs_snapshots s' = cs_snapshots s \<Longrightarrow>
   compliance_ok s'"
  by (simp add: compliance_ok_def recounted_def snapshots_of_def)

lemma control_snapshot_cong:
  "control_snapshot account source i f now (compliance_audit ev org actor r (s\<lparr>cs_assessments := as\<rparr>)) =
   control_snapshot account source i f now s"
  "framework_controls f (compliance_audit ev org actor r (s\<lparr>cs_assessments := as\<rparr>)) = framework_controls f s"
  "account_findings account (cs_db (compliance_audit ev org actor r (s\<lparr>cs_assessments := as\<rparr>))) = account_findings account (cs_db s)"
  by (auto simp: control_snapshot_def compliance_audit_def framework_controls_def control_mappings_def account_findings_def
      evaluation_results_def Let_def fun_eq_iff split: option.split)

lemma audit_tables [simp]:
  "cs_assessments (compliance_audit ev org actor r s) = cs_assessments s"
  "cs_snapshots (compliance_audit ev org actor r s) = cs_snapshots s"
  "cs_frameworks (compliance_audit ev org actor r s) = cs_frameworks s"
  "cs_controls (compliance_audit ev org actor r s) = cs_controls s"
  "cs_mappings (compliance_audit ev org actor r s) = cs_mappings s"
  by (simp_all add: compliance_audit_def)

lemma status_counts_total:
  "int (length xs) = status_count ComplianceControlStatus.PASS xs + status_count ComplianceControlStatus.FAIL xs +
     status_count ComplianceControlStatus.NOT_ASSESSED xs + status_count ComplianceControlStatus.ERROR xs"
proof (induction xs)
  case (Cons x xs)
  then show ?case by (cases "cx_status x") (simp_all add: status_count_def)
qed (simp add: status_count_def)

lemma status_count_nonneg [simp]: "0 \<le> status_count st xs"
  by (simp add: status_count_def)

lemma put_last: "k a \<notin> k ` set rows \<Longrightarrow> k a = k b \<Longrightarrow> put_row k b (rows @ [a]) = rows @ [b]"
  by (auto simp: put_row_def image_iff intro!: map_idI)

text \<open>The controls that an assessment stores, and what it leaves behind.\<close>

definition assessed_controls ::
    "AWSAccount \<Rightarrow> uuid \<Rightarrow> uuid option \<Rightarrow> uuid \<Rightarrow> instant \<Rightarrow> compliance_db \<Rightarrow> ComplianceAssessmentControl list" where
  "assessed_controls account framework_id requested i now s =
     map (control_snapshot account (source_evaluation (acc_id account) (acc_organization_id account) requested (cs_db s)) i framework_id now s)
       (framework_controls framework_id s)"

lemma assessed_controls_ids:
  "map cx_control_id (assessed_controls account f requested i now s) = map co_id (framework_controls f s)"
  "x \<in> set (assessed_controls account f requested i now s) \<Longrightarrow> cx_assessment_id x = i \<and> 0 \<le> cx_findings_count x"
  by (auto simp: assessed_controls_def control_snapshot_def Let_def)

lemma framework_controls_distinct: "catalog_storable s \<Longrightarrow> distinct (map co_id (framework_controls f s))"
  by (auto simp: framework_controls_def catalog_storable_def framework_controls_storable_def keys_distinct_def distinct_map
      intro: inj_on_subset)

lemma unique_snapshots:
  assumes "unique_on (\<lambda>x. True) (\<lambda>x. (cx_assessment_id x, cx_control_id x)) rows" and "i \<notin> cx_assessment_id ` set rows"
    and "\<forall>x \<in> set new. cx_assessment_id x = i" and "distinct (map cx_control_id new)"
  shows "unique_on (\<lambda>x. True) (\<lambda>x. (cx_assessment_id x, cx_control_id x)) (rows @ new)"
  using assms by (auto simp: unique_on_def distinct_map inj_on_def image_iff)

lemma record_assessment_succeeds:
  fixes account actor framework requested i now s
  assumes "compliance_ok s" and "i \<notin> ca_id ` set (cs_assessments s)"
  defines "source \<equiv> source_evaluation (acc_id account) (acc_organization_id account) requested (cs_db s)"
    and "snapshots \<equiv> assessed_controls account (fw_id framework) requested i now s"
  defines "a \<equiv> finished_assessment (started_assessment account framework (fst source) i now) snapshots
      (length (account_findings account (cs_db s))) now"
  shows "\<exists>s'. record_assessment account actor framework requested i now s = Inr (a, s') \<and>
    cs_assessments s' = cs_assessments s @ [a] \<and> cs_snapshots s' = cs_snapshots s @ snapshots \<and>
    cs_frameworks s' = cs_frameworks s \<and> cs_controls s' = cs_controls s \<and> cs_mappings s' = cs_mappings s \<and>
    compliance_assessments_storable (cs_assessments s') \<and> control_snapshots_storable (cs_snapshots s')"
proof -
  let ?a0 = "started_assessment account framework (fst source) i now"
  have ok: "keys_distinct ca_id (cs_assessments s)" "\<forall>b \<in> set (cs_assessments s). \<not> compliance_active b"
    "compliance_assessments_storable (cs_assessments s)"
    using assms(1) by (auto simp: compliance_ok_def compliance_assessments_storable_def recounted_def compliance_active_def)
  have started: "compliance_assessments_storable (cs_assessments s @ [?a0])"
    using ok assms(2)
    by (auto simp: compliance_assessments_storable_def keys_distinct_snoc unique_on_snoc started_assessment_def
        assessment_counts_nonnegative_def assessment_control_counts_match_def assessment_status_timestamps_def)
  have finished: "compliance_assessments_storable (cs_assessments s @ [a])"
    using ok assms(2) status_counts_total [of snapshots]
    by (auto simp: compliance_assessments_storable_def keys_distinct_snoc unique_on_snoc started_assessment_def a_def
        finished_assessment_def compliance_active_def assessment_counts_nonnegative_def
        assessment_control_counts_match_def assessment_status_timestamps_def)
  have "i \<notin> cx_assessment_id ` set (cs_snapshots s)" using assms(1,2) by (auto simp: compliance_ok_def)
  then have snaps: "control_snapshots_storable (cs_snapshots s @ snapshots)"
    using assms(1) unique_snapshots [of "cs_snapshots s" i snapshots] framework_controls_distinct [of s "fw_id framework"]
    by (auto simp: compliance_ok_def control_snapshots_storable_def snapshots_def assessed_controls_ids list_all_iff)
  have put: "put_row ca_id a (cs_assessments s @ [?a0]) = cs_assessments s @ [a]"
    using assms(2) by (intro put_last) (simp_all add: a_def started_assessment_def finished_assessment_def)
  have s: "map (control_snapshot account source i (fw_id framework) now s) (framework_controls (fw_id framework) s) = snapshots"
    by (simp add: snapshots_def assessed_controls_def source_def)
  have a: "finished_assessment ?a0 snapshots (length (account_findings account (cs_db s))) now = a" by (simp add: a_def)
  show ?thesis
    using started finished snaps
    by (simp add: record_assessment_def Let_def control_snapshot_cong s a put flip: source_def)
qed

lemma catalog_ok: "compliance_ok s \<Longrightarrow> fresh_catalog draws s \<Longrightarrow> compliance_ok (ensure_catalog draws s)"
  by (rule compliance_ok_same) (auto simp: compliance_ok_def intro: ensure_catalog_storable)

text \<open>Its own tables never refuse an assessment: the branches of an integrity error and of an active assessment are dead.\<close>

lemma assess_compliance_result:
  assumes "compliance_ok s" and "fresh_catalog (kd_catalog draw) s" and "kd_assessment_id draw \<notin> ca_id ` set (cs_assessments s)"
  defines "s1 \<equiv> ensure_catalog (kd_catalog draw) s"
  shows "assess_compliance locked account_id actor key version requested draw now s =
    (case aws_account_for_user account_id actor (cs_db s) of
       None \<Rightarrow> raise (NotFoundError ''aws_account_not_found'') s
     | Some (account, m) \<Rightarrow>
         if locked then raise (ConflictError ''compliance_assessment_active'') s
         else
           case require_capability (acc_organization_id account) actor COMPLIANCE_ASSESS (cs_db s) of
             Inl e \<Rightarrow> raise e s
           | Inr _ \<Rightarrow>
               case framework_by_key key version s1 of
                 Inl e \<Rightarrow> raise e s
               | Inr framework \<Rightarrow>
                   case record_assessment account actor framework requested (kd_assessment_id draw) now s1 of
                     Inl e \<Rightarrow> raise e s
                   | Inr (a, s2) \<Rightarrow> return a s2)"
proof -
  have ok: "compliance_ok s1" using catalog_ok assms(1,2) by (simp add: s1_def)
  then have none: "\<not> compliance_active a" if "a \<in> set (cs_assessments s1)" for a
    using that by (auto simp: compliance_ok_def recounted_def compliance_active_def)
  have "catalog_storable s1" using ok by (simp add: compliance_ok_def)
  moreover have "\<not> list_ex (\<lambda>a. P a \<and> Q a \<and> compliance_active a) (cs_assessments s1)" for P Q
    using none by (auto simp: list_ex_iff)
  ultimately show ?thesis by (auto simp: assess_compliance_def Let_def s1_def split: option.split sum.split)
qed

lemma framework_by_key_error: "framework_by_key key version s = Inl e \<Longrightarrow> is_app_error e"
  by (auto simp: framework_by_key_def split: list.splits)

lemma framework_by_key_Inr:
  "framework_by_key key version s = Inr f \<Longrightarrow> f \<in> set (cs_frameworks s) \<and> fw_key f = key \<and> fw_enabled f"
proof -
  assume "framework_by_key key version s = Inr f"
  then have "f \<in> set (rev (sort_key fw_version (filter (\<lambda>f. fw_key f = key \<and> fw_enabled f \<and>
                  (version = None \<or> version = Some [] \<or> version = Some (fw_version f))) (cs_frameworks s))))"
    by (auto simp: framework_by_key_def simp del: set_rev set_sort split: list.splits)
  then show ?thesis by auto
qed

text \<open>The assessment that a request stores, with everything before and after it.\<close>

definition assessed_in ::
    "AWSAccount \<Rightarrow> ComplianceFramework \<Rightarrow> uuid option \<Rightarrow> instant \<Rightarrow> compliance_db \<Rightarrow> ComplianceAssessment \<Rightarrow> compliance_db \<Rightarrow> bool" where
  "assessed_in account framework requested now s1 a s' =
     (let snapshots = assessed_controls account (fw_id framework) requested (ca_id a) now s1
      in framework \<in> set (cs_frameworks s1) \<and>
         a = finished_assessment (started_assessment account framework
               (fst (source_evaluation (acc_id account) (acc_organization_id account) requested (cs_db s1))) (ca_id a) now)
             snapshots (length (account_findings account (cs_db s1))) now \<and>
         cs_assessments s' = cs_assessments s1 @ [a] \<and> cs_snapshots s' = cs_snapshots s1 @ snapshots \<and>
         cs_frameworks s' = cs_frameworks s1 \<and> cs_controls s' = cs_controls s1 \<and> cs_mappings s' = cs_mappings s1 \<and>
         compliance_assessments_storable (cs_assessments s') \<and> control_snapshots_storable (cs_snapshots s'))"

lemma assess_compliance_cases:
  assumes "compliance_ok s" and "fresh_catalog (kd_catalog draw) s" and "kd_assessment_id draw \<notin> ca_id ` set (cs_assessments s)"
  obtains (refused) e where "assess_compliance_endpoint locked account_id actor key version requested draw now s = raise e s"
      "aws_account_for_user account_id actor (cs_db s) = None \<or> locked \<or>
       (\<exists>account m e'. aws_account_for_user account_id actor (cs_db s) = Some (account, m) \<and>
          require_capability (acc_organization_id account) actor COMPLIANCE_ASSESS (cs_db s) = Inl e') \<or>
       framework_by_key key version (ensure_catalog (kd_catalog draw) s) = Inl e"
  | (stored) account m framework a s' where
      "assess_compliance_endpoint locked account_id actor key version requested draw now s = return a s'"
      "aws_account_for_user account_id actor (cs_db s) = Some (account, m)" "\<not> locked"
      "framework_by_key key version (ensure_catalog (kd_catalog draw) s) = Inr framework" "ca_id a = kd_assessment_id draw"
      "assessed_in account framework requested now (ensure_catalog (kd_catalog draw) s) a s'"
proof -
  let ?s1 = "ensure_catalog (kd_catalog draw) s"
  have stores: "\<exists>a s'. record_assessment account actor framework requested (kd_assessment_id draw) now ?s1 = Inr (a, s') \<and>
      assessed_in account framework requested now ?s1 a s' \<and> ca_id a = kd_assessment_id draw"
    if "framework_by_key key version ?s1 = Inr framework" for account framework
    using record_assessment_succeeds [OF catalog_ok [OF assms(1,2)], of "kd_assessment_id draw" account actor framework requested now]
      assms(3) framework_by_key_Inr [OF that]
    by (fastforce simp: assessed_in_def Let_def started_assessment_def finished_assessment_def)
  note result = assess_compliance_result [OF assms, of locked account_id actor key version requested now]
  show thesis
  proof (cases "aws_account_for_user account_id actor (cs_db s)")
    case None
    then show thesis using result by (intro refused) (simp_all add: assess_compliance_endpoint_def)
  next
    case (Some am)
    obtain account m where am: "aws_account_for_user account_id actor (cs_db s) = Some (account, m)" using Some by (cases am) simp
    show thesis
    proof (cases locked)
      case True
      then show thesis using result am by (intro refused) (simp_all add: assess_compliance_endpoint_def)
    next
      case False
      show thesis
      proof (cases "require_capability (acc_organization_id account) actor COMPLIANCE_ASSESS (cs_db s)")
        case (Inl e)
        then show thesis using result am False require_capability_error [OF Inl]
          by (intro refused) (simp_all add: assess_compliance_endpoint_def)
      next
        case (Inr u)
        show thesis
        proof (cases "framework_by_key key version ?s1")
          case (Inl e)
          then show thesis using result am False Inr framework_by_key_error [OF Inl]
            by (intro refused) (simp_all add: assess_compliance_endpoint_def)
        next
          case f: (Inr framework)
          from stores [OF f, of account] obtain a s' where
            "record_assessment account actor framework requested (kd_assessment_id draw) now ?s1 = Inr (a, s')"
            "assessed_in account framework requested now ?s1 a s'" "ca_id a = kd_assessment_id draw" by blast
          then show thesis using result am False Inr f
            by (intro stored [OF _ am False f]) (simp_all add: assess_compliance_endpoint_def)
        qed
      qed
    qed
  qed
qed

lemma assessed_snapshots:
  assumes "compliance_ok s1" and "ca_id a \<notin> ca_id ` set (cs_assessments s1)" and "assessed_in account framework requested now s1 a s'"
  shows "snapshots_of (ca_id a) s' = assessed_controls account (fw_id framework) requested (ca_id a) now s1"
    and "b \<in> set (cs_assessments s1) \<Longrightarrow> snapshots_of (ca_id b) s' = snapshots_of (ca_id b) s1"
proof -
  let ?new = "assessed_controls account (fw_id framework) requested (ca_id a) now s1"
  have s': "cs_snapshots s' = cs_snapshots s1 @ ?new" using assms(3) by (simp add: assessed_in_def Let_def)
  have old: "x \<in> set (cs_snapshots s1) \<Longrightarrow> cx_assessment_id x \<noteq> ca_id a" for x
    using assms(1,2) unfolding compliance_ok_def by (metis imageI subsetD)
  have new: "x \<in> set ?new \<Longrightarrow> cx_assessment_id x = ca_id a" for x using assessed_controls_ids(2) by blast
  have "filter (\<lambda>x. cx_assessment_id x = ca_id a) (cs_snapshots s1) = []" using old by (simp add: filter_empty_conv)
  then show "snapshots_of (ca_id a) s' = ?new" using new by (simp add: snapshots_of_def s')
  show "snapshots_of (ca_id b) s' = snapshots_of (ca_id b) s1" if "b \<in> set (cs_assessments s1)"
  proof -
    have "ca_id b \<noteq> ca_id a" using that assms(2) by (metis imageI)
    then show ?thesis using new by (auto simp: snapshots_of_def s' filter_empty_conv)
  qed
qed

lemma assessed_in_ok:
  assumes "compliance_ok s1" and "ca_id a \<notin> ca_id ` set (cs_assessments s1)" and "assessed_in account framework requested now s1 a s'"
  shows "compliance_ok s' \<and> results_added s1 s' \<and> recounted s' a"
proof -
  let ?new = "assessed_controls account (fw_id framework) requested (ca_id a) now s1"
  have s': "cs_assessments s' = cs_assessments s1 @ [a]" "cs_snapshots s' = cs_snapshots s1 @ ?new" "catalog_storable s'"
    using assms(1,3) by (simp_all add: assessed_in_def Let_def compliance_ok_def catalog_storable_def)
  note snaps = assessed_snapshots [OF assms]
  have recounted: "recounted s' a"
  proof -
    have "a = finished_assessment (started_assessment account framework
        (fst (source_evaluation (acc_id account) (acc_organization_id account) requested (cs_db s1))) (ca_id a) now)
        ?new (length (account_findings account (cs_db s1))) now" (is "_ = ?b")
      using assms(3) by (simp add: assessed_in_def Let_def)
    moreover have "distinct (map cx_control_id ?new)"
      using framework_controls_distinct assms(1) by (simp add: assessed_controls_ids compliance_ok_def)
    then have "ca_id ?b = ca_id a \<longrightarrow> recounted s' ?b" by (simp add: recounted_def snaps finished_assessment_def)
    ultimately show ?thesis by metis
  qed
  moreover have old: "recounted s' b" if "b \<in> set (cs_assessments s1)" for b
    using assms(1) that snaps(2) [OF that] by (simp add: compliance_ok_def recounted_def)
  moreover have "cx_assessment_id ` set (cs_snapshots s') \<subseteq> ca_id ` set (cs_assessments s')"
    using assms(1) s' assessed_controls_ids(2) by (auto simp: compliance_ok_def)
  ultimately show ?thesis
    using s' old assms(3) snaps(2) by (auto simp: compliance_ok_def results_added_def assessed_in_def Let_def)
qed

lemma compliance_step_keeps:
  assumes "compliance_step s s'" and "compliance_ok s"
  shows "compliance_ok s' \<and> results_added s s'"
  using assms
proof cases
  case (other_tables d)
  then show ?thesis using assms(2)
    by (auto simp: compliance_ok_def recounted_def snapshots_of_def results_added_def catalog_storable_def)
next
  case (catalog_listed draws organization_id actor)
  have "snd (catalog_request organization_id actor draws s) \<in> {s, ensure_catalog draws s}"
    by (auto simp: catalog_request_def Let_def split: sum.split)
  then show ?thesis using catalog_ok [OF assms(2) catalog_listed(2)] assms(2)
    by (auto simp: catalog_listed(1) results_added_same)
next
  case (account_assessed draw locked account_id actor key version requested now)
  show ?thesis
    using assms(2) account_assessed(2,3)
  proof (cases rule: assess_compliance_cases [of s draw locked account_id actor key version requested now])
    case (refused e)
    then show ?thesis using assms(2) by (simp add: account_assessed(1) results_added_same)
  next
    case (stored account m framework a s2)
    let ?s1 = "ensure_catalog (kd_catalog draw) s"
    have "compliance_ok s2 \<and> results_added ?s1 s2"
      using assessed_in_ok [OF catalog_ok [OF assms(2) account_assessed(2)] _ stored(6)] account_assessed(3) by (simp add: stored(5))
    moreover have "results_added s ?s1" by (rule results_added_same) simp_all
    ultimately show ?thesis using results_added_trans by (auto simp: account_assessed(1) stored(1))
  qed
qed

interpretation compliance_service: transition_system compliance_step "\<lambda>s. compliance_ok s \<and> results_added s0 s" for s0
  by unfold_locales (use compliance_step_keeps results_added_trans in blast)

lemma compliance_steps_ok:
  "compliance_step\<^sup>*\<^sup>* s s' \<Longrightarrow> compliance_ok s \<Longrightarrow> compliance_ok s' \<and> results_added s s'"
  by (rule compliance_service.inv_reachable [of s s' s]) (simp_all add: results_added_same)

text \<open>A service in which nothing was assessed yet, with any tables it only reads.\<close>

definition unused_compliance :: "compliance_db \<Rightarrow> bool" where
  "unused_compliance s = (cs_frameworks s = [] \<and> cs_controls s = [] \<and> cs_mappings s = [] \<and> cs_assessments s = [] \<and> cs_snapshots s = [])"

lemma unused_compliance_ok: "unused_compliance s \<Longrightarrow> compliance_ok s"
  by (simp add: unused_compliance_def compliance_ok_def catalog_storable_def frameworks_storable_def framework_controls_storable_def
      mappings_storable_def compliance_assessments_storable_def control_snapshots_storable_def keys_distinct_def)

section \<open>Lemmas on the status of a control\<close>

definition covered :: "RuleControlMapping list \<Rightarrow> string \<Rightarrow> int \<Rightarrow> bool" where
  "covered mappings key version = (\<exists>m \<in> set mappings. rm_rule_key m = key \<and> in_range version m)"

lemma matched_results_Some:
  assumes "matched_results mappings rows keys = Some matched"
  shows "set matched = {r \<in> set rows. er_rule_key r \<in> set keys \<and> covered mappings (er_rule_key r) (er_rule_version r)} \<and>
    (\<forall>key \<in> set keys. \<exists>r \<in> set matched. er_rule_key r = key)"
  using assms
proof (induction keys arbitrary: matched)
  case (Cons key keys)
  let ?matches = "filter (\<lambda>r. er_rule_key r = key \<and> list_ex (\<lambda>m. rm_rule_key m = key \<and> in_range (er_rule_version r) m) mappings) rows"
  from Cons.prems obtain rest where rest: "matched_results mappings rows keys = Some rest" "matched = ?matches @ rest" "?matches \<noteq> []"
    by (auto simp: Let_def split: if_splits option.splits)
  have "\<exists>r \<in> set matched. er_rule_key r = key"
  proof -
    obtain r where "r \<in> set ?matches" using rest(3) by (meson last_in_set)
    then show ?thesis using rest(2) by auto
  qed
  moreover have "\<exists>r \<in> set matched. er_rule_key r = k" if "k \<in> set keys" for k
  proof -
    obtain r where "r \<in> set rest" "er_rule_key r = k" using Cons.IH [OF rest(1)] \<open>k \<in> set keys\<close> by blast
    then show ?thesis using rest(2) by auto
  qed
  moreover have "set matched = {r \<in> set rows. er_rule_key r \<in> set (key # keys) \<and> covered mappings (er_rule_key r) (er_rule_version r)}"
    using conjunct1 [OF Cons.IH [OF rest(1)]] by (auto simp: rest(2) covered_def list_ex_iff)
  ultimately show ?case by simp
qed simp

lemma matched_results_None:
  "matched_results mappings rows keys = None \<longleftrightarrow>
     (\<exists>key \<in> set keys. \<forall>r \<in> set rows. er_rule_key r = key \<longrightarrow> \<not> covered mappings key (er_rule_version r))"
  by (induction keys) (auto simp: Let_def filter_empty_conv covered_def list_ex_iff split: option.splits)

text \<open>When a control passes.\<close>

lemma control_status_passes:
  "control_status mappings fs source_state rows = ComplianceControlStatus.PASS \<longleftrightarrow>
     mappings \<noteq> [] \<and> (\<forall>f \<in> set fs. f_status f = FindingStatus.RESOLVED) \<and> source_state = ComplianceControlStatus.PASS \<and>
     (\<forall>m \<in> set mappings. \<exists>r \<in> set rows. er_rule_key r = rm_rule_key m \<and> covered mappings (er_rule_key r) (er_rule_version r)) \<and>
     (\<forall>r \<in> set rows. covered mappings (er_rule_key r) (er_rule_version r) \<longrightarrow> er_error_count r \<le> 0 \<and> er_failed_count r \<le> 0 \<and>
        er_passed_count r + er_failed_count r + er_not_applicable_count r \<noteq> 0) \<and>
     (\<exists>r \<in> set rows. covered mappings (er_rule_key r) (er_rule_version r) \<and> er_passed_count r \<noteq> 0)"
proof (cases "matched_results mappings rows (sort (remdups (map rm_rule_key mappings)))")
  case None
  then have "\<exists>m \<in> set mappings. \<forall>r \<in> set rows. er_rule_key r = rm_rule_key m \<longrightarrow> \<not> covered mappings (er_rule_key r) (er_rule_version r)"
    by (auto simp: matched_results_None)
  then show ?thesis by (auto simp: control_status_def None)
next
  case (Some matched)
  have keys: "covered mappings (er_rule_key r) (er_rule_version r) \<Longrightarrow> er_rule_key r \<in> rm_rule_key ` set mappings" for r
    by (force simp: covered_def image_iff)
  have "set matched = {r \<in> set rows. covered mappings (er_rule_key r) (er_rule_version r)}"
    and "\<forall>m \<in> set mappings. \<exists>r \<in> set matched. er_rule_key r = rm_rule_key m"
    using matched_results_Some [OF Some] keys by auto
  moreover have resolved: "f_status f \<in> {FindingStatus.OPEN, FindingStatus.SUPPRESSED} \<longleftrightarrow> f_status f \<noteq> FindingStatus.RESOLVED" for f
    by (cases "f_status f") auto
  have "list_ex (\<lambda>f. f_status f \<in> {FindingStatus.OPEN, FindingStatus.SUPPRESSED}) fs \<longleftrightarrow>
      \<not> (\<forall>f \<in> set fs. f_status f = FindingStatus.RESOLVED)"
    unfolding list_ex_iff resolved by blast
  ultimately show ?thesis
    by (auto simp: control_status_def Some list_ex_iff [of "\<lambda>r. 0 < er_error_count r"] list_ex_iff [of "\<lambda>r. 0 < er_failed_count r"]
        list_ex_iff [of "\<lambda>r. er_passed_count r + er_failed_count r + er_not_applicable_count r = 0"] list_all_iff)
qed

text \<open>Which evaluation counts when none is requested: one without an end comes first.\<close>

lemma sort_key_least:
  assumes "x \<in> set xs"
  obtains y ys where "sort_key k xs = y # ys" and "y \<in> set xs" and "k y \<le> k x"
proof (cases "sort_key k xs")
  case Nil
  then have "set xs = {}" by (metis list.set(1) set_sort)
  then show thesis using assms by simp
next
  case (Cons y ys)
  have "set (y # ys) = set xs" by (metis Cons set_sort)
  moreover have "sorted (map k (y # ys))" by (metis Cons sorted_sort_key)
  ultimately show thesis using assms by (intro that [OF Cons]) auto
qed

lemma source_job_in:
  assumes "source_job account_id organization_id requested d = Some j"
  shows "j \<in> set (evaluation_jobs d) \<and> ej_aws_account_id j = account_id"
proof (cases requested)
  case None
  define rows where "rows = filter (\<lambda>j. ej_aws_account_id j = account_id \<and> ej_organization_id j = organization_id) (evaluation_jobs d)"
  have "\<exists>js. sort_key evaluation_order rows = j # js"
    using assms None by (auto simp: source_job_def Let_def rows_def split: list.splits)
  then have "j \<in> set rows" by (metis list.set_intros(1) set_sort)
  then show ?thesis by (simp add: rows_def)
next
  case (Some i)
  then have "get_row ej_id i (filter (\<lambda>j. ej_aws_account_id j = account_id \<and> ej_organization_id j = organization_id) (evaluation_jobs d)) = Some j"
    using assms by (simp add: source_job_def Let_def)
  from get_row_mem [OF this] show ?thesis by simp
qed

lemma running_evaluation_first:
  assumes "j \<in> set (evaluation_jobs d)" and "ej_aws_account_id j = account_id" and "ej_organization_id j = organization_id"
    and "ej_finished_at j = None"
  shows "\<exists>i. source_job account_id organization_id None d = Some i \<and> ej_finished_at i = None"
proof -
  define rows where "rows = filter (\<lambda>j. ej_aws_account_id j = account_id \<and> ej_organization_id j = organization_id) (evaluation_jobs d)"
  have "j \<in> set rows" using assms by (simp add: rows_def)
  then obtain i others where i: "sort_key evaluation_order rows = i # others" "evaluation_order i \<le> evaluation_order j"
    by (rule sort_key_least [of j rows evaluation_order])
  have "ej_finished_at i = None"
    using i(2) assms(4) by (auto simp: evaluation_order_def less_eq_prod_def split: option.splits)
  then show ?thesis using i(1) by (simp add: source_job_def Let_def flip: rows_def)
qed

lemma aws_account_for_user_id:
  "aws_account_for_user account_id actor d = Some (account, m) \<Longrightarrow> acc_id account = account_id \<and> account \<in> set (aws_accounts d)"
  by (auto simp: aws_account_for_user_def dest: get_row_key get_row_mem split: option.splits)

lemma source_evaluation_passes:
  assumes "snd (source_evaluation account_id organization_id requested d) = ComplianceControlStatus.PASS"
  shows "\<exists>j. source_evaluation account_id organization_id requested d = (Some j, ComplianceControlStatus.PASS) \<and>
    j \<in> set (evaluation_jobs d) \<and> ej_aws_account_id j = account_id \<and> ej_status j = EvaluationJobStatus.COMPLETED \<and> ej_error_count j = 0"
proof (cases "source_job account_id organization_id requested d")
  case (Some j)
  then show ?thesis using assms source_job_in [OF Some] by (auto simp: source_evaluation_def split: if_splits)
qed (use assms in \<open>simp add: source_evaluation_def\<close>)

lemma running_evaluation_not_assessed:
  assumes "list_all evaluation_status_timestamps (evaluation_jobs d)" and "j \<in> set (evaluation_jobs d)"
    and "ej_aws_account_id j = account_id" and "ej_organization_id j = organization_id" and "ej_finished_at j = None"
  shows "snd (source_evaluation account_id organization_id None d) = ComplianceControlStatus.NOT_ASSESSED"
proof -
  obtain i where i: "source_job account_id organization_id None d = Some i" "ej_finished_at i = None"
    using running_evaluation_first [OF assms(2-5)] by blast
  then have "ej_status i \<in> {EvaluationJobStatus.PENDING, EvaluationJobStatus.RUNNING}"
    using assms(1) source_job_in [OF i(1)] by (auto simp: list_all_iff evaluation_status_timestamps_def)
  then show ?thesis using i(1) by (auto simp: source_evaluation_def)
qed

lemma running_source_evaluation:
  assumes "j \<in> set (evaluation_jobs d)" and "ej_aws_account_id j = account_id" and "ej_organization_id j = organization_id"
    and "ej_finished_at j = None"
  shows "\<exists>i \<in> set (evaluation_jobs d). fst (source_evaluation account_id organization_id None d) = Some i \<and>
    ej_aws_account_id i = account_id \<and> ej_finished_at i = None"
proof -
  obtain i where i: "source_job account_id organization_id None d = Some i" "ej_finished_at i = None"
    using running_evaluation_first [OF assms] by blast
  with source_job_in [OF i(1)] show ?thesis by (auto simp: source_evaluation_def)
qed

lemma assessed_in_fields:
  assumes "assessed_in account framework requested now s1 a s'"
  shows "ca_status a = ComplianceAssessmentStatus.COMPLETED" "ca_framework_id a = fw_id framework"
    "ca_organization_id a = acc_organization_id account" "cs_mappings s' = cs_mappings s1" "cs_controls s' = cs_controls s1"
    "ca_evaluation_job_id a =
       map_option ej_id (fst (source_evaluation (acc_id account) (acc_organization_id account) requested (cs_db s1)))"
proof -
  obtain i xs n j where a: "a = finished_assessment (started_assessment account framework j i now) xs n now"
    and j: "j = fst (source_evaluation (acc_id account) (acc_organization_id account) requested (cs_db s1))"
    and "cs_mappings s' = cs_mappings s1" "cs_controls s' = cs_controls s1"
    using assms by (auto simp: assessed_in_def Let_def)
  then show "cs_mappings s' = cs_mappings s1" "cs_controls s' = cs_controls s1" by simp_all
  show "ca_status a = ComplianceAssessmentStatus.COMPLETED" "ca_framework_id a = fw_id framework"
    "ca_organization_id a = acc_organization_id account"
    "ca_evaluation_job_id a =
       map_option ej_id (fst (source_evaluation (acc_id account) (acc_organization_id account) requested (cs_db s1)))"
    unfolding j [symmetric] by (simp_all add: a finished_assessment_def started_assessment_def)
qed

text \<open>What stands behind a snapshot that passes.\<close>

lemma passed_snapshot:
  fixes account requested s i framework_id now c
  defines "source \<equiv> source_evaluation (acc_id account) (acc_organization_id account) requested (cs_db s)"
    and "mappings \<equiv> control_mappings framework_id s c"
  assumes "cx_status (control_snapshot account source i framework_id now s c) = ComplianceControlStatus.PASS"
  shows "\<exists>j rows. fst source = Some j \<and> j \<in> set (evaluation_jobs (cs_db s)) \<and> ej_aws_account_id j = acc_id account \<and>
      ej_status j = EvaluationJobStatus.COMPLETED \<and> ej_error_count j = 0 \<and> mappings \<noteq> [] \<and>
      rows = filter (\<lambda>r. er_evaluation_job_id r = ej_id j \<and> er_aws_account_id r = acc_id account \<and>
        er_organization_id r = acc_organization_id account \<and> covered mappings (er_rule_key r) (er_rule_version r)) (rule_results (cs_db s)) \<and>
      (\<forall>m \<in> set mappings. \<exists>r \<in> set rows. er_rule_key r = rm_rule_key m) \<and>
      (\<forall>r \<in> set rows. er_error_count r \<le> 0 \<and> er_failed_count r \<le> 0) \<and> (\<exists>r \<in> set rows. er_passed_count r \<noteq> 0) \<and>
      (\<forall>f \<in> set (findings (cs_db s)). f_aws_account_id f = acc_id account \<longrightarrow> f_organization_id f = acc_organization_id account \<longrightarrow>
         covered mappings (f_rule_key f) (f_rule_version f) \<longrightarrow> f_status f = FindingStatus.RESOLVED)"
proof -
  have "control_status mappings (relevant_findings (account_findings account (cs_db s)) mappings) (snd source)
      (evaluation_results account (fst source) (cs_db s)) = ComplianceControlStatus.PASS"
    using assms(3) by (simp add: control_snapshot_def Let_def mappings_def)
  note pass = this [unfolded control_status_passes]
  then obtain j where j: "source = (Some j, ComplianceControlStatus.PASS)" "j \<in> set (evaluation_jobs (cs_db s))"
      "ej_aws_account_id j = acc_id account" "ej_status j = EvaluationJobStatus.COMPLETED" "ej_error_count j = 0"
    using source_evaluation_passes unfolding source_def by blast
  let ?rows = "filter (\<lambda>r. er_evaluation_job_id r = ej_id j \<and> er_aws_account_id r = acc_id account \<and>
      er_organization_id r = acc_organization_id account \<and> covered mappings (er_rule_key r) (er_rule_version r)) (rule_results (cs_db s))"
  have rows: "r \<in> set ?rows \<longleftrightarrow> r \<in> set (evaluation_results account (fst source) (cs_db s)) \<and>
      covered mappings (er_rule_key r) (er_rule_version r)" for r
    by (auto simp: evaluation_results_def j)
  have "\<forall>m \<in> set mappings. \<exists>r \<in> set ?rows. er_rule_key r = rm_rule_key m"
    "\<forall>r \<in> set ?rows. er_error_count r \<le> 0 \<and> er_failed_count r \<le> 0" "\<exists>r \<in> set ?rows. er_passed_count r \<noteq> 0"
    using pass unfolding Ball_def Bex_def rows by blast+
  moreover have "\<forall>f \<in> set (findings (cs_db s)). f_aws_account_id f = acc_id account \<longrightarrow>
      f_organization_id f = acc_organization_id account \<longrightarrow>
      covered mappings (f_rule_key f) (f_rule_version f) \<longrightarrow> f_status f = FindingStatus.RESOLVED"
    using pass by (auto simp: relevant_findings_def account_findings_def covered_def list_ex_iff)
  ultimately show ?thesis using j pass by (intro exI [of _ j] exI [of _ ?rows]) simp
qed

section \<open>Properties\<close>

text \<open>
  An assessment is refused only for its actor, the lock on its account or an unknown framework; otherwise it
  completes: its own tables never refuse it, and the conflict with an active assessment cannot
  occur. It then stores every control of the framework once, in the order of the keys, with the status that its mappings,
  the findings of the account and the results of the source evaluation give it.
\<close>

theorem compliance_assessment_completes:
  assumes "unused_compliance s0" and "compliance_step\<^sup>*\<^sup>* s0 s"
    and "fresh_catalog (kd_catalog draw) s" and "kd_assessment_id draw \<notin> ca_id ` set (cs_assessments s)"
  shows "(\<exists>e. assess_compliance_endpoint locked account_id actor key version requested draw now s = raise e s \<and>
      (aws_account_for_user account_id actor (cs_db s) = None \<or> locked \<or>
       (\<exists>account m e'. aws_account_for_user account_id actor (cs_db s) = Some (account, m) \<and>
          require_capability (acc_organization_id account) actor COMPLIANCE_ASSESS (cs_db s) = Inl e') \<or>
       framework_by_key key version (ensure_catalog (kd_catalog draw) s) = Inl e)) \<or>
    (\<exists>a s' account m (framework :: ComplianceFramework). assess_compliance_endpoint locked account_id actor key version requested draw now s = return a s' \<and>
       aws_account_for_user account_id actor (cs_db s) = Some (account, m) \<and> fw_key framework = key \<and> fw_enabled framework \<and>
       ca_status a = ComplianceAssessmentStatus.COMPLETED \<and> ca_framework_id a = fw_id framework \<and>
       map (\<lambda>x. (cx_control_id x, cx_status x)) (snapshots_of (ca_id a) s') =
       map (\<lambda>c. let mappings = control_mappings (fw_id framework) s' c;
                    source = source_evaluation (acc_id account) (acc_organization_id account) requested (cs_db s)
                in (co_id c, control_status mappings (relevant_findings (account_findings account (cs_db s)) mappings) (snd source)
                      (evaluation_results account (fst source) (cs_db s))))
         (framework_controls (fw_id framework) s'))"
proof -
  have ok: "compliance_ok s" using compliance_steps_ok [OF assms(2)] unused_compliance_ok [OF assms(1)] by simp
  let ?s1 = "ensure_catalog (kd_catalog draw) s"
  from ok assms(3,4) show ?thesis
  proof (cases rule: assess_compliance_cases [of s draw locked account_id actor key version requested now])
    case (refused e)
    then show ?thesis by blast
  next
    case (stored account m framework a s')
    have fresh: "ca_id a \<notin> ca_id ` set (cs_assessments ?s1)" using assms(4) stored(5) by simp
    note fields = assessed_in_fields [OF stored(6)]
    have controls: "map (\<lambda>x. (cx_control_id x, cx_status x)) (snapshots_of (ca_id a) s') =
       map (\<lambda>c. let mappings = control_mappings (fw_id framework) s' c;
                    source = source_evaluation (acc_id account) (acc_organization_id account) requested (cs_db s)
                in (co_id c, control_status mappings (relevant_findings (account_findings account (cs_db s)) mappings) (snd source)
                      (evaluation_results account (fst source) (cs_db s))))
         (framework_controls (fw_id framework) s')"
      using assessed_snapshots(1) [OF catalog_ok [OF ok assms(3)] fresh stored(6)]
      by (simp add: assessed_controls_def control_snapshot_def Let_def comp_def control_mappings_def framework_controls_def fields)
    obtain "fw_key framework = key" "fw_enabled framework" using framework_by_key_Inr [OF stored(4)] by simp
    then show ?thesis
      by (intro disjI2 exI [of _ a] exI [of _ s'] exI [of _ account] exI [of _ m] exI [of _ framework] conjI
          stored(1,2) fields(1,2) controls)
  qed
qed

text \<open>
  Immutability: a stored assessment and its controls never change, whatever is assessed or discovered
  later, as long as the account is not deleted with everything of it; every stored assessment is complete, counts
  exactly its controls and has each control of the framework once.
\<close>

theorem compliance_results_stored:
  assumes "unused_compliance s0" and "compliance_step\<^sup>*\<^sup>* s0 s" and "compliance_step\<^sup>*\<^sup>* s s'" and "a \<in> set (cs_assessments s)"
  shows "a \<in> set (cs_assessments s') \<and> recounted s' a \<and> assessment_control_counts_match a \<and>
    snapshots_of (ca_id a) s' = snapshots_of (ca_id a) s"
proof -
  have ok: "compliance_ok s" using compliance_steps_ok [OF assms(2)] unused_compliance_ok [OF assms(1)] by simp
  have later: "compliance_ok s'" "results_added s s'" using compliance_steps_ok [OF assms(3) ok] by simp_all
  have "a \<in> set (cs_assessments s')" using later(2) assms(4) by (auto simp: results_added_def)
  moreover have "recounted s' a" "assessment_control_counts_match a"
    using later(1) calculation by (auto simp: compliance_ok_def compliance_assessments_storable_def list_all_iff)
  ultimately show ?thesis using later(2) assms(4) by (simp add: results_added_def)
qed

text \<open>
  C6. A control passes only on evidence: the assessment names an evaluation of the account that completed without any
  error; every rule version range mapped to the control has a result in it; no result in a mapped range has a
  failure or an error; at least one asset passed; and no finding of the account in a mapped range is
  open or suppressed.
\<close>

theorem passed_control_is_backed:
  assumes "unused_compliance s0" and "compliance_step\<^sup>*\<^sup>* s0 s"
    and "fresh_catalog (kd_catalog draw) s" and "kd_assessment_id draw \<notin> ca_id ` set (cs_assessments s)"
    and "assess_compliance_endpoint locked account_id actor key version requested draw now s = return a s'"
    and "x \<in> set (snapshots_of (ca_id a) s')" and "cx_status x = ComplianceControlStatus.PASS"
  shows "\<exists>j mappings rows. j \<in> set (evaluation_jobs (cs_db s)) \<and> ca_evaluation_job_id a = Some (ej_id j) \<and>
      ej_aws_account_id j = account_id \<and> ej_status j = EvaluationJobStatus.COMPLETED \<and> ej_error_count j = 0 \<and>
      mappings = filter (\<lambda>m. rm_framework_id m = ca_framework_id a \<and> rm_control_id m = cx_control_id x) (cs_mappings s') \<and> mappings \<noteq> [] \<and>
      rows = filter (\<lambda>r. er_evaluation_job_id r = ej_id j \<and> er_aws_account_id r = account_id \<and>
        er_organization_id r = ca_organization_id a \<and> covered mappings (er_rule_key r) (er_rule_version r)) (rule_results (cs_db s)) \<and>
      (\<forall>m \<in> set mappings. \<exists>r \<in> set rows. er_rule_key r = rm_rule_key m) \<and>
      (\<forall>r \<in> set rows. er_error_count r \<le> 0 \<and> er_failed_count r \<le> 0) \<and> (\<exists>r \<in> set rows. er_passed_count r \<noteq> 0) \<and>
      (\<forall>f \<in> set (findings (cs_db s)). f_aws_account_id f = account_id \<longrightarrow> f_organization_id f = ca_organization_id a \<longrightarrow>
         covered mappings (f_rule_key f) (f_rule_version f) \<longrightarrow> f_status f = FindingStatus.RESOLVED)"
proof -
  have ok: "compliance_ok s" using compliance_steps_ok [OF assms(2)] unused_compliance_ok [OF assms(1)] by simp
  let ?s1 = "ensure_catalog (kd_catalog draw) s"
  from ok assms(3,4) show ?thesis
  proof (cases rule: assess_compliance_cases [of s draw locked account_id actor key version requested now])
    case (refused e)
    then show ?thesis using assms(5) by simp
  next
    case (stored account m framework a0 s0)
    have eq: "a0 = a" "s0 = s'" using stored(1) assms(5) by simp_all
    note stored = stored [unfolded eq]
    have fresh: "ca_id a \<notin> ca_id ` set (cs_assessments ?s1)" using assms(4) stored(5) by simp
    have account: "acc_id account = account_id" using aws_account_for_user_id stored(2) by blast
    let ?source = "source_evaluation account_id (acc_organization_id account) requested (cs_db s)"
    have a: "ca_evaluation_job_id a = map_option ej_id (fst ?source)" "ca_framework_id a = fw_id framework"
      "ca_organization_id a = acc_organization_id account" "cs_mappings s' = cs_mappings ?s1"
      using assessed_in_fields [OF stored(6)] by (simp_all add: account)
    obtain c where c: "c \<in> set (framework_controls (fw_id framework) ?s1)"
      and x: "x = control_snapshot account ?source (ca_id a) (fw_id framework) now ?s1 c"
      using assms(6) assessed_snapshots(1) [OF catalog_ok [OF ok assms(3)] fresh stored(6)]
      by (auto simp: assessed_controls_def account)
    let ?mappings = "control_mappings (fw_id framework) ?s1 c"
    have mappings: "?mappings = filter (\<lambda>m. rm_framework_id m = ca_framework_id a \<and> rm_control_id m = cx_control_id x) (cs_mappings s')"
      by (simp add: control_mappings_def a x control_snapshot_def Let_def)
    have "cx_status (control_snapshot account (source_evaluation (acc_id account) (acc_organization_id account) requested (cs_db ?s1))
        (ca_id a) (fw_id framework) now ?s1 c) = ComplianceControlStatus.PASS"
      using assms(7) x by (simp add: account)
    from passed_snapshot [OF this, unfolded grown_frame account, folded a(3)]
    obtain j rows where "fst (source_evaluation account_id (ca_organization_id a) requested (cs_db s)) = Some j" "j \<in> set (evaluation_jobs (cs_db s))" "ej_aws_account_id j = account_id"
      "ej_status j = EvaluationJobStatus.COMPLETED" "ej_error_count j = 0" "?mappings \<noteq> []"
      and rows: "rows = filter (\<lambda>r. er_evaluation_job_id r = ej_id j \<and> er_aws_account_id r = account_id \<and>
        er_organization_id r = ca_organization_id a \<and> covered ?mappings (er_rule_key r) (er_rule_version r)) (rule_results (cs_db s))"
        "\<forall>m \<in> set ?mappings. \<exists>r \<in> set rows. er_rule_key r = rm_rule_key m"
        "\<forall>r \<in> set rows. er_error_count r \<le> 0 \<and> er_failed_count r \<le> 0" "\<exists>r \<in> set rows. er_passed_count r \<noteq> 0"
        "\<forall>f \<in> set (findings (cs_db s)). f_aws_account_id f = account_id \<longrightarrow> f_organization_id f = ca_organization_id a \<longrightarrow>
           covered ?mappings (f_rule_key f) (f_rule_version f) \<longrightarrow> f_status f = FindingStatus.RESOLVED"
      by blast
    then show ?thesis
      by (intro exI [of _ j] exI [of _ ?mappings] exI [of _ rows] conjI mappings rows) (simp_all add: a(1,3))
  qed
qed

text \<open>
  C40. A running evaluation hides the results of the last one: as long as an evaluation of the account has not
  ended, an assessment that names no evaluation is made against it, so that no control passes,
  whatever completed evaluations there are; every control without an open finding is reported as not assessed.
\<close>

theorem running_evaluation_hides_results:
  assumes "unused_compliance s0" and "compliance_step\<^sup>*\<^sup>* s0 s"
    and "fresh_catalog (kd_catalog draw) s" and "kd_assessment_id draw \<notin> ca_id ` set (cs_assessments s)"
    and "list_all evaluation_status_timestamps (evaluation_jobs (cs_db s))"
    and "j \<in> set (evaluation_jobs (cs_db s))" and "ej_aws_account_id j = account_id" and "ej_finished_at j = None"
    and "\<forall>account \<in> set (aws_accounts (cs_db s)). acc_id account = account_id \<longrightarrow> acc_organization_id account = ej_organization_id j"
    and "assess_compliance_endpoint locked account_id actor key version None draw now s = return a s'"
  shows "(\<exists>i \<in> set (evaluation_jobs (cs_db s)). ca_evaluation_job_id a = Some (ej_id i) \<and>
      ej_aws_account_id i = account_id \<and> ej_finished_at i = None) \<and>
    ca_controls_passed a = 0 \<and>
    (\<forall>x \<in> set (snapshots_of (ca_id a) s'). cx_status x \<in> {ComplianceControlStatus.FAIL, ComplianceControlStatus.NOT_ASSESSED})"
proof -
  have ok: "compliance_ok s" using compliance_steps_ok [OF assms(2)] unused_compliance_ok [OF assms(1)] by simp
  let ?s1 = "ensure_catalog (kd_catalog draw) s"
  from ok assms(3,4) show ?thesis
  proof (cases rule: assess_compliance_cases [of s draw locked account_id actor key version None now])
    case (refused e)
    then show ?thesis using assms(10) by simp
  next
    case (stored account m framework a0 s0)
    have eq: "a0 = a" "s0 = s'" using stored(1) assms(10) by simp_all
    note stored = stored [unfolded eq]
    have fresh: "ca_id a \<notin> ca_id ` set (cs_assessments ?s1)" using assms(4) stored(5) by simp
    have account: "acc_id account = account_id" "acc_organization_id account = ej_organization_id j"
      using aws_account_for_user_id [OF stored(2)] assms(9) by auto
    let ?source = "source_evaluation account_id (acc_organization_id account) None (cs_db s)"
    obtain i where i: "i \<in> set (evaluation_jobs (cs_db s))" "ej_aws_account_id i = account_id" "ej_finished_at i = None"
        and "fst ?source = Some i"
      using running_source_evaluation [OF assms(6,7) _ assms(8)] account(2) by metis
    then have made_against: "ca_evaluation_job_id a = Some (ej_id i)"
      using assessed_in_fields(6) [OF stored(6)] by (simp add: account)
    have source: "snd ?source = ComplianceControlStatus.NOT_ASSESSED"
      using running_evaluation_not_assessed [OF assms(5-7) _ assms(8)] account by simp
    have snaps: "snapshots_of (ca_id a) s' = map (control_snapshot account ?source (ca_id a) (fw_id framework) now ?s1)
        (framework_controls (fw_id framework) ?s1)"
      using assessed_snapshots(1) [OF catalog_ok [OF ok assms(3)] fresh stored(6)] by (simp add: assessed_controls_def account)
    then have status: "\<forall>x \<in> set (snapshots_of (ca_id a) s').
        cx_status x \<in> {ComplianceControlStatus.FAIL, ComplianceControlStatus.NOT_ASSESSED}"
      by (auto simp: control_snapshot_def Let_def control_status_def source)
    have "ca_controls_passed a = status_count ComplianceControlStatus.PASS (snapshots_of (ca_id a) s')"
      using assessed_in_ok [OF catalog_ok [OF ok assms(3)] fresh stored(6)] by (simp add: recounted_def)
    also have "\<dots> = 0" using status by (auto simp: status_count_def filter_empty_conv)
    finally show ?thesis using status i made_against by blast
  qed
qed

text \<open>The catalogue is created once: creating it again, with any fresh identifiers, changes nothing.\<close>

theorem catalog_created_once: "ensure_catalog draws' (ensure_catalog draws s) = ensure_catalog draws s"
proof -
  have "\<forall>e \<in> set es. entry_present e (fold (ensure_entry draws) es s)" for es s
  proof (induction es arbitrary: s)
    case (Cons e es)
    have "catalog_grown (ensure_entry draws e s) (fold (ensure_entry draws) es (ensure_entry draws e s))"
      by (rule fold_grown) (rule ensure_entry_grown)
    then show ?case using Cons.IH entry_present_grown [OF ensure_entry_present] by auto
  qed simp
  moreover have "fold (ensure_entry draws') es s = s" if "\<forall>e \<in> set es. entry_present e s" for es s
    using that by (induction es) (simp_all add: ensure_entry_idle)
  ultimately show ?thesis by (simp add: ensure_catalog_def)
qed

section \<open>A sample account\<close>

definition fresh_ids :: ComplianceDraw where
  "fresh_ids = \<lparr>kd_assessment_id = 900, kd_catalog = (\<lambda>key. (of_char (hd key), of_char (hd key)))\<rparr>"

definition clean_scan :: db where
  "clean_scan = sample_scan\<lparr>findings := [], rule_results := map (\<lambda>key.
     \<lparr>er_evaluation_job_id = 70, er_organization_id = 2, er_aws_account_id = 3, er_rule_key = key, er_rule_version = 1,
      er_passed_count = 1, er_failed_count = 0, er_not_applicable_count = 0, er_error_count = 0\<rparr>) MAPPED_RULES\<rparr>"

definition unassessed :: "db \<Rightarrow> compliance_db" where
  "unassessed d = \<lparr>cs_db = d, cs_frameworks = [], cs_controls = [], cs_mappings = [], cs_assessments = [], cs_snapshots = []\<rparr>"

definition running_evaluation :: EvaluationJob where
  "running_evaluation = past_evaluation\<lparr>ej_id := 71, ej_sequence := 2, ej_status := EvaluationJobStatus.RUNNING, ej_finished_at := None\<rparr>"

lemma unassessed_unused: "unused_compliance (unassessed d)" "cs_db (unassessed d) = d" "cs_assessments (unassessed d) = []"
  by (simp_all add: unused_compliance_def unassessed_def)

lemma fresh_ids_fresh: "fresh_catalog (kd_catalog fresh_ids) (unassessed d)"
  by (simp add: fresh_catalog_def fresh_ids_def unassessed_def CATALOG_def)

text \<open>What the first creation of an entry stores.\<close>

definition entry_framework :: "(string \<Rightarrow> uuid \<times> uuid) \<Rightarrow> catalog_entry \<Rightarrow> ComplianceFramework" where
  "entry_framework draws e = (case e of
     (key, name, version, description, reference, control_key) \<Rightarrow>
       \<lparr>fw_id = fst (draws key), fw_key = key, fw_name = name, fw_version = version, fw_description = description,
        fw_official_reference = reference, fw_enabled = True\<rparr>)"

definition entry_control :: "(string \<Rightarrow> uuid \<times> uuid) \<Rightarrow> catalog_entry \<Rightarrow> ComplianceControl" where
  "entry_control draws e = (case e of
     (key, name, version, description, reference, control_key) \<Rightarrow>
       \<lparr>co_id = snd (draws key), co_framework_id = fst (draws key), co_control_key = control_key,
        co_title = ''CloudOps mapping: '' @ control_key, co_description = description,
        co_section = Some ''CloudOps mapping''\<rparr>)"

definition entry_mappings :: "(string \<Rightarrow> uuid \<times> uuid) \<Rightarrow> catalog_entry \<Rightarrow> RuleControlMapping list" where
  "entry_mappings draws e = map (\<lambda>key.
     \<lparr>rm_rule_key = key, rm_minimum_rule_version = 1, rm_maximum_rule_version = None,
      rm_framework_id = fst (draws (fst e)), rm_control_id = snd (draws (fst e))\<rparr>) MAPPED_RULES"

lemma fold_mappings_new:
  assumes "\<forall>m \<in> set (cs_mappings s). rm_control_id m = c \<longrightarrow> rm_rule_key m \<notin> set keys" and "distinct keys"
  shows "fold (ensure_mapping i c) keys s = s\<lparr>cs_mappings := cs_mappings s @ map (\<lambda>key.
     \<lparr>rm_rule_key = key, rm_minimum_rule_version = 1, rm_maximum_rule_version = None,
      rm_framework_id = i, rm_control_id = c\<rparr>) keys\<rparr>"
  using assms by (induction keys arbitrary: s) (auto simp: ensure_mapping_def list_ex_iff)

lemma ensure_entry_new:
  assumes "\<forall>f \<in> set (cs_frameworks s). fw_key f \<noteq> fst e" and "\<forall>c \<in> set (cs_controls s). co_framework_id c \<noteq> fst (draws (fst e))"
    and "\<forall>m \<in> set (cs_mappings s). rm_control_id m \<noteq> snd (draws (fst e))"
  shows "ensure_entry draws e s = s\<lparr>cs_frameworks := cs_frameworks s @ [entry_framework draws e],
    cs_controls := cs_controls s @ [entry_control draws e], cs_mappings := cs_mappings s @ entry_mappings draws e\<rparr>"
proof -
  obtain key name version description reference control_key where e: "e = (key, name, version, description, reference, control_key)"
    by (cases e)
  have "find (\<lambda>f. fw_key f = key \<and> fw_version f = version) (cs_frameworks s) = None"
    "find (\<lambda>c. co_framework_id c = fst (draws key) \<and> co_control_key c = control_key) (cs_controls s) = None"
    using assms(1,2) by (auto simp: find_None_iff e)
  moreover have "distinct MAPPED_RULES" by (simp add: MAPPED_RULES_def)
  ultimately show ?thesis
    using assms(3)
    by (simp add: e ensure_entry_def ensure_framework_def ensure_control_def Let_def fold_mappings_new entry_framework_def
        entry_control_def entry_mappings_def)
qed

lemma created_catalog:
  assumes "unused_compliance s" and "distinct (map (\<lambda>e. fst (draws (fst e))) CATALOG)" and "distinct (map (\<lambda>e. snd (draws (fst e))) CATALOG)"
  shows "cs_frameworks (ensure_catalog draws s) = map (entry_framework draws) CATALOG"
    "cs_controls (ensure_catalog draws s) = map (entry_control draws) CATALOG"
    "cs_mappings (ensure_catalog draws s) = concat (map (entry_mappings draws) CATALOG)"
proof -
  have "fold (ensure_entry draws) es s = s\<lparr>cs_frameworks := map (entry_framework draws) es,
      cs_controls := map (entry_control draws) es, cs_mappings := concat (map (entry_mappings draws) es)\<rparr>"
    if "distinct (map fst es)" "distinct (map (\<lambda>e. fst (draws (fst e))) es)" "distinct (map (\<lambda>e. snd (draws (fst e))) es)" for es
    using that
  proof (induction es rule: rev_induct)
    case Nil
    then show ?case using assms(1) by (simp add: unused_compliance_def)
  next
    case (snoc e es)
    have e: "fst e \<notin> fst ` set es" "fst (draws (fst e)) \<notin> (\<lambda>e. fst (draws (fst e))) ` set es"
      "snd (draws (fst e)) \<notin> (\<lambda>e. snd (draws (fst e))) ` set es" using snoc.prems by simp_all
    let ?s = "s\<lparr>cs_frameworks := map (entry_framework draws) es, cs_controls := map (entry_control draws) es,
      cs_mappings := concat (map (entry_mappings draws) es)\<rparr>"
    have "ensure_entry draws e ?s = ?s\<lparr>cs_frameworks := cs_frameworks ?s @ [entry_framework draws e],
        cs_controls := cs_controls ?s @ [entry_control draws e], cs_mappings := cs_mappings ?s @ entry_mappings draws e\<rparr>"
      using e by (intro ensure_entry_new) (force simp: entry_framework_def entry_control_def entry_mappings_def image_iff)+
    then show ?case using snoc by simp
  qed
  moreover have "distinct (map fst CATALOG)" by (simp add: CATALOG_def)
  ultimately show "cs_frameworks (ensure_catalog draws s) = map (entry_framework draws) CATALOG"
    "cs_controls (ensure_catalog draws s) = map (entry_control draws) CATALOG"
    "cs_mappings (ensure_catalog draws s) = concat (map (entry_mappings draws) CATALOG)"
    using assms(2,3) by (simp_all add: ensure_catalog_def)
qed

lemma fresh_ids_distinct: "distinct (map (\<lambda>e. fst (kd_catalog fresh_ids (fst e))) CATALOG)"
  "distinct (map (\<lambda>e. snd (kd_catalog fresh_ids (fst e))) CATALOG)"
  using fresh_ids_fresh by (simp_all add: fresh_catalog_def)

lemmas sample_catalog = created_catalog [OF unassessed_unused(1) fresh_ids_distinct]

lemma clean_scan_account:
  obtains m m' where "aws_account_for_user 3 7 (clean_scan\<lparr>evaluation_jobs := js\<rparr>) = Some (scan_account, m)"
    and "require_capability 2 7 COMPLIANCE_ASSESS (clean_scan\<lparr>evaluation_jobs := js\<rparr>) = Inr m'"
proof -
  obtain m' where cap: "require_capability 2 7 COMPLIANCE_ASSESS sample_scan = Inr m'" using sample_scan_member by blast
  then obtain m where "active_membership 2 7 sample_scan = Some m"
    by (auto simp: require_capability_def require_member_def split: sum.splits option.splits if_splits)
  then have "aws_account_for_user 3 7 (clean_scan\<lparr>evaluation_jobs := js\<rparr>) = Some (scan_account, m)"
    by (simp add: aws_account_for_user_def clean_scan_def active_membership_def sample_scan_def get_row_def scan_account_def)
  moreover have "require_capability 2 7 COMPLIANCE_ASSESS (clean_scan\<lparr>evaluation_jobs := js\<rparr>) = Inr m'"
    using cap by (simp add: require_capability_def require_member_def active_membership_def clean_scan_def)
  ultimately show thesis by (rule that)
qed

lemma sample_framework:
  "\<exists>f. framework_by_key ''cis_aws'' None (ensure_catalog (kd_catalog fresh_ids) (unassessed d)) = Inr f \<and> fw_id f = 99"
  unfolding framework_by_key_def sample_catalog by (simp add: CATALOG_def entry_framework_def fresh_ids_def)

lemma sample_controls:
  "framework_controls 99 (ensure_catalog (kd_catalog fresh_ids) (unassessed d)) = [entry_control (kd_catalog fresh_ids) (hd CATALOG)]"
  "control_mappings 99 (ensure_catalog (kd_catalog fresh_ids) (unassessed d)) (entry_control (kd_catalog fresh_ids) (hd CATALOG)) =
     map (\<lambda>key. \<lparr>rm_rule_key = key, rm_minimum_rule_version = 1, rm_maximum_rule_version = None,
                 rm_framework_id = 99, rm_control_id = 99\<rparr>) MAPPED_RULES"
  unfolding framework_controls_def control_mappings_def sample_catalog
  by (simp_all add: CATALOG_def entry_control_def entry_mappings_def fresh_ids_def MAPPED_RULES_def)

lemma sample_assessed:
  obtains a s f where
    "assess_compliance_endpoint False 3 7 ''cis_aws'' None None fresh_ids 1000 (unassessed (clean_scan\<lparr>evaluation_jobs := js\<rparr>)) = return a s"
    and "snapshots_of (ca_id a) s = [control_snapshot scan_account (source_evaluation 3 2 None (clean_scan\<lparr>evaluation_jobs := js\<rparr>)) 900 99 1000
      (ensure_catalog (kd_catalog fresh_ids) (unassessed (clean_scan\<lparr>evaluation_jobs := js\<rparr>))) (entry_control (kd_catalog fresh_ids) (hd CATALOG))]"
proof -
  let ?d = "clean_scan\<lparr>evaluation_jobs := js\<rparr>" let ?s = "unassessed ?d" let ?s1 = "ensure_catalog (kd_catalog fresh_ids) ?s"
  obtain m m' where account: "aws_account_for_user 3 7 ?d = Some (scan_account, m)"
    and cap: "require_capability 2 7 COMPLIANCE_ASSESS ?d = Inr m'" by (rule clean_scan_account)
  obtain f where f: "framework_by_key ''cis_aws'' None ?s1 = Inr f" "fw_id f = 99" using sample_framework by blast
  have org: "acc_organization_id scan_account = 2" "acc_id scan_account = 3" by (simp_all add: scan_account_def)
  have ok: "compliance_ok ?s" by (rule unused_compliance_ok) (rule unassessed_unused)
  have fresh: "kd_assessment_id fresh_ids \<notin> ca_id ` set (cs_assessments ?s)" by (simp add: unassessed_unused)
  show thesis
    using ok fresh_ids_fresh fresh
  proof (cases rule: assess_compliance_cases [of ?s fresh_ids False 3 7 "''cis_aws''" None None 1000])
    case (refused e)
    then show thesis using account cap f by (simp add: unassessed_unused org)
  next
    case (stored account' m2 f' a s)
    then have eq: "account' = scan_account" "f' = f" using account f by (simp_all add: unassessed_unused)
    have i: "ca_id a = 900" using stored(5) by (simp add: fresh_ids_def)
    have "ca_id a \<notin> ca_id ` set (cs_assessments ?s1)" by (simp add: unassessed_unused)
    from assessed_snapshots(1) [OF catalog_ok [OF ok fresh_ids_fresh] this stored(6)]
    show thesis using that [OF stored(1)] by (simp add: assessed_controls_def eq f i org unassessed_unused sample_controls)
  qed
qed

theorem compliance_assessment_completes_witness:
  "\<exists>a s. assess_compliance_endpoint False 3 7 ''cis_aws'' None None fresh_ids 1000 (unassessed (clean_scan\<lparr>evaluation_jobs := []\<rparr>)) = return a s \<and>
     ca_status a = ComplianceAssessmentStatus.COMPLETED"
proof -
  let ?d = "clean_scan\<lparr>evaluation_jobs := []\<rparr>"
  obtain m m' where "aws_account_for_user 3 7 ?d = Some (scan_account, m)" "require_capability 2 7 COMPLIANCE_ASSESS ?d = Inr m'"
    by (rule clean_scan_account)
  moreover have "acc_organization_id scan_account = 2" by (simp add: scan_account_def)
  moreover obtain f where "framework_by_key ''cis_aws'' None (ensure_catalog (kd_catalog fresh_ids) (unassessed ?d)) = Inr f"
    using sample_framework by blast
  moreover have "kd_assessment_id fresh_ids \<notin> ca_id ` set (cs_assessments (unassessed ?d))" by (simp add: unassessed_unused)
  ultimately show ?thesis
    using compliance_assessment_completes [OF unassessed_unused(1) rtranclp.rtrancl_refl fresh_ids_fresh, of ?d False 3 7 "''cis_aws''" None None 1000]
    by (auto simp: unassessed_unused)
qed

theorem compliance_results_stored_witness: "\<exists>a s. cs_assessments s = [a] \<and> recounted s a"
proof -
  let ?s = "unassessed (clean_scan\<lparr>evaluation_jobs := []\<rparr>)"
  obtain a s f where run: "assess_compliance_endpoint False 3 7 ''cis_aws'' None None fresh_ids 1000 ?s = return a s"
    by (rule sample_assessed)
  have ok: "compliance_ok ?s" by (rule unused_compliance_ok) (rule unassessed_unused)
  have fresh: "kd_assessment_id fresh_ids \<notin> ca_id ` set (cs_assessments ?s)" by (simp add: unassessed_unused)
  have one: "cs_assessments s = [a]"
    using ok fresh_ids_fresh fresh
  proof (cases rule: assess_compliance_cases [of ?s fresh_ids False 3 7 "''cis_aws''" None None 1000])
    case (stored account m f a' s')
    then show ?thesis using run by (auto simp: assessed_in_def Let_def unassessed_unused)
  qed (use run in simp)
  have "compliance_step ?s (snd (assess_compliance_endpoint False 3 7 ''cis_aws'' None None fresh_ids 1000 ?s))"
    by (rule account_assessed [OF fresh_ids_fresh fresh])
  then have "compliance_step\<^sup>*\<^sup>* ?s s" by (simp add: run)
  from compliance_results_stored [OF unassessed_unused(1) this rtranclp.rtrancl_refl, of a] one show ?thesis by auto
qed

theorem passed_control_is_backed_witness:
  "\<exists>a s. assess_compliance_endpoint False 3 7 ''cis_aws'' None None fresh_ids 1000
       (unassessed (clean_scan\<lparr>evaluation_jobs := [past_evaluation]\<rparr>)) = return a s \<and> ca_evaluation_job_id a = Some 70"
proof -
  let ?d = "clean_scan\<lparr>evaluation_jobs := [past_evaluation]\<rparr>"
  let ?s1 = "ensure_catalog (kd_catalog fresh_ids) (unassessed ?d)"
  obtain a s f where run: "assess_compliance_endpoint False 3 7 ''cis_aws'' None None fresh_ids 1000 (unassessed ?d) = return a s"
    and snaps: "snapshots_of (ca_id a) s = [control_snapshot scan_account (source_evaluation 3 2 None ?d) 900 99 1000 ?s1 (entry_control (kd_catalog fresh_ids) (hd CATALOG))]"
    by (rule sample_assessed)
  have fresh: "kd_assessment_id fresh_ids \<notin> ca_id ` set (cs_assessments (unassessed ?d))" by (simp add: unassessed_unused)
  have source: "source_evaluation 3 2 None ?d = (Some past_evaluation, ComplianceControlStatus.PASS)"
    by (simp add: source_evaluation_def source_job_def past_evaluation_def)
  have "cx_status (control_snapshot scan_account (source_evaluation 3 2 None ?d) 900 99 1000 ?s1 (entry_control (kd_catalog fresh_ids) (hd CATALOG))) =
      ComplianceControlStatus.PASS"
    by (simp add: control_snapshot_def Let_def sample_controls source control_status_passes)
      (simp add: unassessed_unused clean_scan_def evaluation_results_def past_evaluation_def scan_account_def MAPPED_RULES_def covered_def
        in_range_def relevant_findings_def account_findings_def)
  from passed_control_is_backed [OF unassessed_unused(1) rtranclp.rtrancl_refl fresh_ids_fresh fresh run _ this] snaps run
  show ?thesis by (auto simp: unassessed_unused past_evaluation_def)
qed

theorem running_evaluation_hides_results_witness:
  "\<exists>a s. assess_compliance_endpoint False 3 7 ''cis_aws'' None None fresh_ids 1000
       (unassessed (clean_scan\<lparr>evaluation_jobs := [past_evaluation, running_evaluation]\<rparr>)) = return a s \<and> ca_controls_passed a = 0"
proof -
  let ?d = "clean_scan\<lparr>evaluation_jobs := [past_evaluation, running_evaluation]\<rparr>"
  obtain a s f where run: "assess_compliance_endpoint False 3 7 ''cis_aws'' None None fresh_ids 1000 (unassessed ?d) = return a s"
    by (rule sample_assessed)
  have fresh: "kd_assessment_id fresh_ids \<notin> ca_id ` set (cs_assessments (unassessed ?d))" by (simp add: unassessed_unused)
  have "ca_controls_passed a = 0"
    by (rule conjunct1 [OF conjunct2 [OF running_evaluation_hides_results [OF unassessed_unused(1) rtranclp.rtrancl_refl fresh_ids_fresh fresh _ _ _ _ _ run,
          of running_evaluation]]])
      (simp_all add: unassessed_unused running_evaluation_def past_evaluation_def evaluation_status_timestamps_def clean_scan_def
        sample_scan_def scan_account_def)
  with run show ?thesis by blast
qed

end
