(* ===== verification/AI_Safety.thy ===== *)
theory AI_Safety
  imports Json
begin

text \<open>
  Sanitizing and canonical JSON of \<^verbatim>\<open>app/services/ai_safety.py\<close>. \<open>redact\<close> stands for
  \<^verbatim>\<open>redact_text\<close>, whose Unicode normalization and regular expressions are not modelled; it is an
  argument of every definition that uses it.
\<close>

definition MAX_ITEMS :: nat where
  "MAX_ITEMS = 50"

definition credential_keys :: "string list" where
  "credential_keys = [''password'', ''secret'', ''token'', ''authorization'', ''credentials'', ''access_key'',
     ''secret_access_key'', ''session_token'']"

function sanitize :: "(string \<Rightarrow> string) \<Rightarrow> nat \<Rightarrow> json \<Rightarrow> json" where
  "sanitize redact depth (JStr s) = (if 5 < depth then JStr ''[TRUNCATED]'' else JStr (redact s))"
| "sanitize redact depth (JDict d) =
     (if 5 < depth then JStr ''[TRUNCATED]''
      else JDict (dict_of
        (map (\<lambda>kv. (take 100 (redact (fst kv)), sanitize redact (depth + 1) (snd kv)))
          (filter (\<lambda>kv. casefold (fst kv) \<notin> set credential_keys) (take MAX_ITEMS d)))))"
| "sanitize redact depth (JList xs) =
     (if 5 < depth then JStr ''[TRUNCATED]''
      else JList (map (\<lambda>x. sanitize redact (depth + 1) x) (take MAX_ITEMS xs)))"
| "sanitize redact depth JNull = (if 5 < depth then JStr ''[TRUNCATED]'' else JNull)"
| "sanitize redact depth (JBool b) = (if 5 < depth then JStr ''[TRUNCATED]'' else JBool b)"
| "sanitize redact depth (JInt i) = (if 5 < depth then JStr ''[TRUNCATED]'' else JInt i)"
| "sanitize redact depth (JObj s) = (if 5 < depth then JStr ''[TRUNCATED]'' else JStr (redact s))"
  by pat_completeness auto
termination
  by (relation "measure (\<lambda>(r, n, v). size v)")
    (auto simp del: json.size dest: in_set_takeD intro: size_list_value size_dict_value)

definition canonical_json :: "(string \<Rightarrow> string) \<Rightarrow> json \<Rightarrow> string" where
  "canonical_json redact v = json_dumps (sanitize redact 0 v)"

text \<open>
  \<^verbatim>\<open>hashlib.sha256(canonical_json(value).encode()).hexdigest()\<close>, with \<open>sha256\<close> the digest in
  hexadecimal.
\<close>

definition json_hash :: "(string \<Rightarrow> string) \<Rightarrow> (string \<Rightarrow> string) \<Rightarrow> json \<Rightarrow> string" where
  "json_hash sha256 redact v = sha256 (canonical_json redact v)"

end
