(* ===== verification/Remediation_Actions.thy ===== *)
theory Remediation_Actions
  imports AI_Safety Models
begin

text \<open>
  The deterministic allowlist of \<^verbatim>\<open>app/services/remediation_actions.py\<close> and the executor
  interface with its offline mock of \<^verbatim>\<open>app/services/remediation_executor.py\<close>.
\<close>

section \<open>The allowlist\<close>

record RemediationAction =
  ra_key :: string
  ra_version :: int
  ra_rule_keys :: "string list"
  ra_title :: string
  ra_preview_steps :: "string list"
  ra_verification_steps :: "string list"
  ra_rollback_steps :: "string list"
  ra_timeout_seconds :: int
  ra_max_attempts :: int

record RemediationActionRegistry =
  by_key :: "(string \<times> RemediationAction) list"
  by_rule :: "(string \<times> RemediationAction) list"

definition action_registry :: "RemediationAction list \<Rightarrow> exn + RemediationActionRegistry" where
  "action_registry actions =
     (let keys = dict_of (map (\<lambda>a. (ra_key a, a)) actions);
          rules = dict_of (concat (map (\<lambda>a. map (\<lambda>k. (k, a)) (ra_rule_keys a)) actions))
      in if length keys \<noteq> length actions then Inl (ValueError ''Remediation action keys must be unique'')
         else Inr \<lparr>by_key = keys, by_rule = rules\<rparr>)"

definition for_rule :: "string \<Rightarrow> RemediationActionRegistry \<Rightarrow> RemediationAction option" where
  "for_rule rule_key registry = map_of (by_rule registry) rule_key"

definition get_action :: "string \<Rightarrow> RemediationActionRegistry \<Rightarrow> RemediationAction option" where
  "get_action action_key registry = map_of (by_key registry) action_key"

definition DEFAULT_REMEDIATION_ACTIONS :: "RemediationAction list" where
  "DEFAULT_REMEDIATION_ACTIONS =
     [\<lparr>ra_key = ''s3.enable_public_access_block'', ra_version = 1,
       ra_rule_keys = [''S3_BUCKET_PUBLIC_ACCESS_BLOCK_INCOMPLETE''],
       ra_title = ''Enable all S3 Block Public Access controls'',
       ra_preview_steps =
         [''Read the current bucket Public Access Block configuration.'',
          ''Dry-run the four-control Public Access Block configuration.''],
       ra_verification_steps =
         [''Verify all four bucket Public Access Block controls are enabled.'',
          ''Re-run deterministic discovery and rule evaluation.''],
       ra_rollback_steps = [''Restore the exact pre-execution Public Access Block configuration.''],
       ra_timeout_seconds = 30, ra_max_attempts = 3\<rparr>,
      \<lparr>ra_key = ''ec2.revoke_approved_public_ingress'', ra_version = 1,
       ra_rule_keys =
         [''EC2_SG_SSH_OPEN_TO_WORLD'', ''EC2_SG_RDP_OPEN_TO_WORLD'', ''EC2_SG_ALL_TRAFFIC_OPEN_TO_WORLD''],
       ra_title = ''Remove the specifically approved public security-group ingress'',
       ra_preview_steps =
         [''Resolve the exact security-group rule from immutable finding evidence.'',
          ''Dry-run removal only when the current rule exactly matches the snapshot.''],
       ra_verification_steps =
         [''Verify the exact approved public ingress rule is absent.'',
          ''Re-run deterministic discovery and rule evaluation.''],
       ra_rollback_steps = [''Restore only the exact ingress rule captured in the immutable snapshot.''],
       ra_timeout_seconds = 30, ra_max_attempts = 3\<rparr>,
      \<lparr>ra_key = ''s3.enable_default_encryption'', ra_version = 1,
       ra_rule_keys = [''S3_BUCKET_DEFAULT_ENCRYPTION_MISSING''],
       ra_title = ''Enable safe S3 default encryption'',
       ra_preview_steps =
         [''Read the current bucket encryption configuration.'',
          ''Dry-run enabling the organization-approved default encryption mode.''],
       ra_verification_steps =
         [''Verify default bucket encryption is enabled.'',
          ''Re-run deterministic discovery and rule evaluation.''],
       ra_rollback_steps = [''Restore the exact pre-execution bucket encryption configuration.''],
       ra_timeout_seconds = 30, ra_max_attempts = 3\<rparr>]"

definition default_remediation_actions :: "exn + RemediationActionRegistry" where
  "default_remediation_actions = action_registry DEFAULT_REMEDIATION_ACTIONS"

section \<open>Executors\<close>

datatype RemediationExecutionOutcome = SUCCESS | FAILURE

record RemediationExecutionResult =
  xr_outcome :: RemediationExecutionOutcome
  xr_before_state :: dict
  xr_after_state :: "dict option"
  xr_sanitized_error :: "string option"
  xr_precondition_evidence :: "dict option"
  xr_verification_result :: "dict option"
  xr_rollback_state :: "dict option"
  xr_aws_request_ids :: "dict option"

record RemediationExecutionContext =
  xc_account :: AWSAccount
  xc_asset :: Asset
  xc_finding :: Finding
  xc_request :: RemediationRequest

text \<open>The arguments of \<^verbatim>\<open>RemediationExecutor.execute\<close>, and an executor as the service sees it.\<close>

record RemediationCall =
  rc_action_key :: string
  rc_finding_id :: uuid
  rc_snapshot_hash :: string
  rc_dry_run :: bool
  rc_context :: "RemediationExecutionContext option"

record RemediationExecutor =
  ex_key :: string
  ex_execute :: "RemediationCall \<Rightarrow> exn + RemediationExecutionResult"

definition mock_before_state :: "nat \<Rightarrow> RemediationCall \<Rightarrow> dict" where
  "mock_before_state invocations call =
     [(''simulated'', JBool True), (''action_key'', JStr (rc_action_key call)),
      (''finding_id'', JStr (uuid_str (rc_finding_id call))), (''snapshot_hash'', JStr (rc_snapshot_hash call)),
      (''dry_run'', JBool (rc_dry_run call)), (''attempt'', JInt (int invocations))]"

definition mock_success :: "nat \<Rightarrow> RemediationCall \<Rightarrow> RemediationExecutionResult" where
  "mock_success invocations call =
     \<lparr>xr_outcome = SUCCESS, xr_before_state = mock_before_state invocations call,
      xr_after_state = Some [(''simulated_remediated'', JBool True), (''action_key'', JStr (rc_action_key call)),
        (''dry_run'', JBool (rc_dry_run call))],
      xr_sanitized_error = None, xr_precondition_evidence = None, xr_verification_result = None,
      xr_rollback_state = None, xr_aws_request_ids = None\<rparr>"

definition mock_failure :: "string \<Rightarrow> nat \<Rightarrow> RemediationCall \<Rightarrow> RemediationExecutionResult" where
  "mock_failure message invocations call =
     \<lparr>xr_outcome = FAILURE, xr_before_state = mock_before_state invocations call, xr_after_state = None,
      xr_sanitized_error = Some message, xr_precondition_evidence = None, xr_verification_result = None,
      xr_rollback_state = None, xr_aws_request_ids = None\<rparr>"

text \<open>\<open>invocations\<close> is the counter of the mock before the call; it is counted up first.\<close>

definition mock_execute :: "string \<Rightarrow> nat \<Rightarrow> RemediationCall \<Rightarrow> RemediationExecutionResult \<times> nat" where
  "mock_execute fault_mode invocations call =
     (let n = invocations + 1 in
      if fault_mode = ''success'' then (mock_success n call, n)
      else if fault_mode = ''always_fail'' then
        (mock_failure ''Mock executor was configured to fail execution.'' n call, n)
      else if fault_mode = ''fail_then_succeed'' \<and> n = 1 then
        (mock_failure ''Mock executor transient failure.'' n call, n)
      else (mock_success n call, n))"

definition MockRemediationExecutor :: "string \<Rightarrow> nat \<Rightarrow> RemediationExecutor" where
  "MockRemediationExecutor fault_mode invocations =
     \<lparr>ex_key = ''mock'', ex_execute = (\<lambda>call. Inr (fst (mock_execute fault_mode invocations call)))\<rparr>"

section \<open>Lemmas\<close>

lemma default_registry_ok:
  obtains reg where "default_remediation_actions = Inr reg"
    and "\<And>k a. for_rule k reg = Some a \<Longrightarrow> a \<in> set DEFAULT_REMEDIATION_ACTIONS \<and> k \<in> set (ra_rule_keys a) \<and>
      get_action (ra_key a) reg = Some a"
proof -
  let ?k = "map (\<lambda>a. (ra_key a, a)) DEFAULT_REMEDIATION_ACTIONS"
  let ?r = "concat (map (\<lambda>a. map (\<lambda>k. (k, a)) (ra_rule_keys a)) DEFAULT_REMEDIATION_ACTIONS)"
  have k: "distinct (map fst ?k)" by (simp add: DEFAULT_REMEDIATION_ACTIONS_def)
  have r: "distinct (map fst ?r)" by (simp add: DEFAULT_REMEDIATION_ACTIONS_def)
  have dk: "dict_of ?k = ?k" using k by (rule dict_of_distinct)
  have dr: "dict_of ?r = ?r" using r by (rule dict_of_distinct)
  let ?reg = "\<lparr>by_key = ?k, by_rule = ?r\<rparr>"
  have "default_remediation_actions = Inr ?reg"
    unfolding default_remediation_actions_def action_registry_def Let_def dk dr by simp
  moreover have "a \<in> set DEFAULT_REMEDIATION_ACTIONS \<and> k \<in> set (ra_rule_keys a) \<and> get_action (ra_key a) ?reg = Some a"
    if "for_rule k ?reg = Some a" for k a
  proof -
    from that have "(k, a) \<in> set ?r" unfolding for_rule_def by (auto dest: map_of_SomeD)
    then have a: "a \<in> set DEFAULT_REMEDIATION_ACTIONS" "k \<in> set (ra_rule_keys a)" by auto
    then have "(ra_key a, a) \<in> set ?k" by auto
    with k have "map_of ?k (ra_key a) = Some a" by (rule map_of_is_SomeI)
    with a show ?thesis by (simp add: get_action_def)
  qed
  ultimately show ?thesis by (rule that)
qed

end
