(* ===== verification/Remediation.thy ===== *)
theory Remediation
  imports Remediation_Actions Security_Rules Platform_Jobs
begin

text \<open>
  The remediation workflow of \<^verbatim>\<open>app/services/remediation.py\<close> and of the handlers of
  \<^verbatim>\<open>app/api/v1/remediation.py\<close> that drive it: proposal, approval, rejection, cancellation,
  enqueueing and guarded execution. The record \<open>RemediationService\<close> holds what the service object
  holds: its executors, registries and settings, and the functions \<open>sha256\<close> and \<open>redact\<close> of the
  libraries it calls. A write is flushed against the check constraints and unique indexes of the
  table.
\<close>

section \<open>The service\<close>

record Settings =
  remediation_execution_enabled :: bool
  remediation_live_aws_enabled :: bool
  remediation_emergency_stop :: bool

record RemediationService =
  sv_sha256 :: "string \<Rightarrow> string"
  sv_redact :: "string \<Rightarrow> string"
  sv_registry :: "SecurityRule list"
  sv_action_registry :: RemediationActionRegistry
  sv_settings :: Settings
  sv_executor :: RemediationExecutor
  sv_live_executor :: RemediationExecutor
  sv_snapshot_trigger :: bool

definition MAX_EXECUTION_ATTEMPTS :: int where
  "MAX_EXECUTION_ATTEMPTS = 3"

definition hash_of :: "RemediationService \<Rightarrow> json \<Rightarrow> string" where
  "hash_of sv v = json_hash (sv_sha256 sv) (sv_redact sv) v"

definition get_finding :: "uuid \<Rightarrow> uuid \<Rightarrow> db \<Rightarrow> exn + Finding" where
  "get_finding organization_id finding_id d =
     (case find (\<lambda>f. f_id f = finding_id \<and> f_organization_id f = organization_id) (findings d) of
        None \<Rightarrow> Inl (NotFoundError ''finding_not_found'')
      | Some f \<Rightarrow> Inr f)"

definition get_request :: "uuid \<Rightarrow> uuid \<Rightarrow> db \<Rightarrow> exn + RemediationRequest" where
  "get_request organization_id request_id d =
     (case find (\<lambda>r. rr_id r = request_id \<and> rr_organization_id r = organization_id) (remediation_requests d) of
        None \<Rightarrow> Inl (NotFoundError ''remediation_request_not_found'')
      | Some r \<Rightarrow> Inr r)"

definition active_request :: "uuid \<Rightarrow> db \<Rightarrow> RemediationRequest option" where
  "active_request finding_id d =
     find (\<lambda>r. rr_finding_id r = finding_id \<and> remediation_active r) (remediation_requests d)"

text \<open>Flushing a changed row: the table's constraints decide.\<close>

definition flush_request :: "RemediationRequest \<Rightarrow> db \<Rightarrow> exn + db" where
  "flush_request r d =
     (let rows = put_row rr_id r (remediation_requests d) in
      if remediation_constraints r \<and> remediation_unique rows
      then Inr (d\<lparr>remediation_requests := rows\<rparr>) else Inl IntegrityError)"

section \<open>Proposing\<close>

definition proposal_snapshot ::
    "RemediationService \<Rightarrow> uuid \<Rightarrow> Finding \<Rightarrow> int \<Rightarrow> RemediationAction option \<Rightarrow> dict" where
  "proposal_snapshot sv organization_id finding rule_version action =
     [(''schema_version'', JInt 1),
      (''organization_id'', JStr (uuid_str organization_id)),
      (''aws_account_id'', JStr (uuid_str (f_aws_account_id finding))),
      (''finding_id'', JStr (uuid_str (f_id finding))),
      (''asset_id'', case f_asset_id finding of None \<Rightarrow> JNull | Some a \<Rightarrow> JStr (uuid_str a)),
      (''rule_key'', JStr (f_rule_key finding)),
      (''rule_version'', JInt rule_version),
      (''finding_evidence_hash'', JStr (hash_of sv (f_evidence_json finding))),
      (''action_key'', JStr (case action of None \<Rightarrow> ''manual.review'' | Some a \<Rightarrow> ra_key a)),
      (''action_version'', JInt (case action of None \<Rightarrow> 1 | Some a \<Rightarrow> ra_version a)),
      (''execution_mode'', JStr (RemediationExecutionMode_value
         (case action of None \<Rightarrow> RemediationExecutionMode.MANUAL
                       | Some _ \<Rightarrow> RemediationExecutionMode.MOCK_AUTOMATION))),
      (''dry_run'', JBool True),
      (''timeout_seconds'', JInt (case action of None \<Rightarrow> 0 | Some a \<Rightarrow> ra_timeout_seconds a)),
      (''max_attempts'', JInt (case action of None \<Rightarrow> 0 | Some a \<Rightarrow> ra_max_attempts a))]"

definition idempotency_key_of :: "RemediationService \<Rightarrow> uuid \<Rightarrow> uuid \<Rightarrow> string \<Rightarrow> string" where
  "idempotency_key_of sv organization_id finding_id snapshot_hash =
     sv_sha256 sv (uuid_str organization_id @ '':'' @ uuid_str finding_id @ '':'' @ snapshot_hash)"

definition proposal :: "RemediationService \<Rightarrow> uuid \<Rightarrow> Finding \<Rightarrow> uuid \<Rightarrow> uuid \<Rightarrow> RemediationRequest" where
  "proposal sv organization_id finding requester new_id =
     (let rule = registry_get (f_rule_key finding) (sv_registry sv);
          action = for_rule (f_rule_key finding) (sv_action_registry sv);
          rule_name = (case rule of None \<Rightarrow> f_rule_key finding | Some r \<Rightarrow> rl_name r);
          rule_version = (case rule of None \<Rightarrow> f_rule_version finding | Some r \<Rightarrow> rl_version r);
          action_key = (case action of None \<Rightarrow> ''manual.review'' | Some a \<Rightarrow> ra_key a);
          action_version = (case action of None \<Rightarrow> 1 | Some a \<Rightarrow> ra_version a);
          snapshot = proposal_snapshot sv organization_id finding rule_version action;
          snapshot_hash = hash_of sv (JDict snapshot)
      in \<lparr>rr_id = new_id, rr_organization_id = organization_id, rr_aws_account_id = f_aws_account_id finding,
          rr_finding_id = f_id finding, rr_rule_key = f_rule_key finding, rr_rule_version = rule_version,
          rr_action_key = action_key, rr_action_version = action_version,
          rr_idempotency_key = idempotency_key_of sv organization_id (f_id finding) snapshot_hash,
          rr_requested_by_user_id = Some requester, rr_approved_by_user_id = None, rr_rejected_by_user_id = None,
          rr_status = RemediationStatus.PENDING_APPROVAL,
          rr_execution_mode = (case action of None \<Rightarrow> RemediationExecutionMode.MANUAL
                                            | Some _ \<Rightarrow> RemediationExecutionMode.MOCK_AUTOMATION),
          rr_executor_key = None, rr_target_region = None, rr_target_resource_arn = None,
          rr_automation_eligible = (action \<noteq> None),
          rr_title = (case action of None \<Rightarrow> ''Remediate '' @ rule_name | Some a \<Rightarrow> ra_title a),
          rr_summary = (case rule of None \<Rightarrow> ''Rule details are unavailable.'' | Some r \<Rightarrow> rl_description r),
          rr_remediation_steps_json =
            [case rule of None \<Rightarrow> ''Review the finding evidence and remediate manually.''
                        | Some r \<Rightarrow> rl_remediation r],
          rr_verification_steps_json =
            (case action of
               None \<Rightarrow> [''Re-run discovery and evaluation for the affected AWS account.'',
                         ''Confirm rule '' @ f_rule_key finding @ '' no longer produces this finding.'']
             | Some a \<Rightarrow> ra_verification_steps a),
          rr_rollback_steps_json =
            (case action of None \<Rightarrow> [''Use the organization's approved change rollback procedure.'']
                          | Some a \<Rightarrow> ra_rollback_steps a),
          rr_preview_json =
            [(''action_key'', JStr action_key), (''action_version'', JInt action_version),
             (''steps'', JList (map JStr
                (case action of None \<Rightarrow> [''Review the immutable finding snapshot and plan a manual change.'']
                              | Some a \<Rightarrow> ra_preview_steps a))),
             (''dry_run'', JBool True)],
          rr_request_snapshot_json = snapshot, rr_request_snapshot_hash = snapshot_hash,
          rr_approved_snapshot_hash = None, rr_execution_lease_id = None, rr_dry_run = True,
          rr_before_state_json = None, rr_after_state_json = None, rr_execution_result_json = None,
          rr_precondition_evidence_json = [], rr_verification_result_json = None,
          rr_aws_request_ids_json = None, rr_attempt_count = 0, rr_rejection_reason = None,
          rr_failure_reason = None, rr_approved_at = None, rr_rejected_at = None, rr_cancelled_at = None,
          rr_executed_at = None, rr_failed_at = None\<rparr>)"

definition propose_for_finding ::
    "RemediationService \<Rightarrow> uuid \<Rightarrow> uuid \<Rightarrow> uuid \<Rightarrow> uuid \<Rightarrow> db \<Rightarrow> (db, RemediationRequest) outcome" where
  "propose_for_finding sv organization_id finding_id requester new_id d =
     (case get_finding organization_id finding_id d of
        Inl e \<Rightarrow> raise e d
      | Inr finding \<Rightarrow>
          if f_status finding \<noteq> FindingStatus.OPEN then raise (ConflictError ''finding_not_open'') d
          else
            (case active_request finding_id d of
               Some existing \<Rightarrow> return existing d
             | None \<Rightarrow>
                 let candidate = proposal sv organization_id finding requester new_id;
                     rows = remediation_requests d @ [candidate]
                 in if remediation_constraints candidate \<and> remediation_unique rows then
                      return candidate
                        (record_audit ''remediation.request.proposed'' ''remediation_request'' AuditResult.SUCCEEDED
                           (Some organization_id) (Some requester) (Some new_id) (d\<lparr>remediation_requests := rows\<rparr>))
                    else
                      (case active_request finding_id d of
                         Some existing \<Rightarrow> return existing d
                       | None \<Rightarrow> raise IntegrityError d)))"

section \<open>Deciding\<close>

definition approve_row :: "uuid \<Rightarrow> instant \<Rightarrow> RemediationRequest \<Rightarrow> RemediationRequest" where
  "approve_row approver now r =
     r\<lparr>rr_status := RemediationStatus.APPROVED, rr_approved_at := Some now,
       rr_approved_by_user_id := Some approver, rr_approved_snapshot_hash := Some (rr_request_snapshot_hash r)\<rparr>"

definition approve ::
    "RemediationService \<Rightarrow> uuid \<Rightarrow> uuid \<Rightarrow> uuid \<Rightarrow> instant \<Rightarrow> db \<Rightarrow> (db, RemediationRequest) outcome" where
  "approve sv organization_id request_id approver now d =
     (case get_request organization_id request_id d of
        Inl e \<Rightarrow> raise e d
      | Inr r \<Rightarrow>
          if hash_of sv (JDict (rr_request_snapshot_json r)) \<noteq> rr_request_snapshot_hash r then
            raise (ConflictError ''remediation_snapshot_changed'') d
          else if rr_status r = RemediationStatus.APPROVED then return r d
          else if rr_status r \<noteq> RemediationStatus.PENDING_APPROVAL then
            raise (ConflictError ''remediation_invalid_transition'') d
          else
            (case flush_request (approve_row approver now r) d of
               Inl e \<Rightarrow> raise e d
             | Inr d' \<Rightarrow>
                 return (approve_row approver now r)
                   (record_audit ''remediation.request.approved'' ''remediation_request'' AuditResult.SUCCEEDED
                      (Some organization_id) (Some approver) (Some (rr_id r)) d')))"

definition reject_row :: "uuid \<Rightarrow> string \<Rightarrow> instant \<Rightarrow> RemediationRequest \<Rightarrow> RemediationRequest" where
  "reject_row rejector reason now r =
     r\<lparr>rr_status := RemediationStatus.REJECTED, rr_rejected_at := Some now,
       rr_rejected_by_user_id := Some rejector, rr_rejection_reason := Some reason\<rparr>"

definition reject ::
    "uuid \<Rightarrow> uuid \<Rightarrow> uuid \<Rightarrow> string \<Rightarrow> instant \<Rightarrow> db \<Rightarrow> (db, RemediationRequest) outcome" where
  "reject organization_id request_id rejector reason now d =
     (case get_request organization_id request_id d of
        Inl e \<Rightarrow> raise e d
      | Inr r \<Rightarrow>
          if rr_status r = RemediationStatus.REJECTED then return r d
          else if rr_status r \<noteq> RemediationStatus.PENDING_APPROVAL then
            raise (ConflictError ''remediation_invalid_transition'') d
          else
            (case flush_request (reject_row rejector reason now r) d of
               Inl e \<Rightarrow> raise e d
             | Inr d' \<Rightarrow>
                 return (reject_row rejector reason now r)
                   (record_audit ''remediation.request.rejected'' ''remediation_request'' AuditResult.SUCCEEDED
                      (Some organization_id) (Some rejector) (Some (rr_id r)) d')))"

definition cancel_row :: "instant \<Rightarrow> RemediationRequest \<Rightarrow> RemediationRequest" where
  "cancel_row now r = r\<lparr>rr_status := RemediationStatus.CANCELLED, rr_cancelled_at := Some now\<rparr>"

definition cancel_request ::
    "uuid \<Rightarrow> uuid \<Rightarrow> uuid \<Rightarrow> instant \<Rightarrow> db \<Rightarrow> (db, RemediationRequest) outcome" where
  "cancel_request organization_id request_id actor now d =
     (case get_request organization_id request_id d of
        Inl e \<Rightarrow> raise e d
      | Inr r \<Rightarrow>
          if rr_status r = RemediationStatus.CANCELLED then return r d
          else if rr_status r \<notin> {RemediationStatus.PENDING_APPROVAL, RemediationStatus.APPROVED} then
            raise (ConflictError ''remediation_invalid_transition'') d
          else
            (case flush_request (cancel_row now r) d of
               Inl e \<Rightarrow> raise e d
             | Inr d' \<Rightarrow>
                 return (cancel_row now r)
                   (record_audit ''remediation.request.cancelled'' ''remediation_request'' AuditResult.SUCCEEDED
                      (Some organization_id) (Some actor) (Some (rr_id r)) d')))"

section \<open>Executing\<close>

definition unset :: "string option \<Rightarrow> bool" where
  "unset s = (s = None \<or> s = Some [])"

definition live_execution_context ::
    "RemediationService \<Rightarrow> uuid \<Rightarrow> RemediationRequest \<Rightarrow> Finding \<Rightarrow> db \<Rightarrow> exn + RemediationExecutionContext" where
  "live_execution_context sv organization_id r finding d =
     (if \<not> remediation_live_aws_enabled (sv_settings sv) then
        Inl (ConflictError ''remediation_live_execution_disabled'')
      else if remediation_emergency_stop (sv_settings sv) then
        Inl (ConflictError ''remediation_emergency_stop_active'')
      else if rr_dry_run r then Inl (ConflictError ''remediation_live_requires_execution_approval'')
      else
        (case find (\<lambda>a. acc_id a = rr_aws_account_id r \<and> acc_organization_id a = organization_id) (aws_accounts d) of
           None \<Rightarrow> Inl (NotFoundError ''aws_account_not_found'')
         | Some account \<Rightarrow>
             if \<not> acc_sandbox_approved account \<or> acc_sandbox_approved_at account = None \<or>
                acc_sandbox_approved_by_user_id account = None then
               Inl (ConflictError ''remediation_sandbox_not_approved'')
             else if unset (acc_remediation_role_arn account) \<or> unset (acc_remediation_external_id account) then
               Inl (ConflictError ''remediation_role_not_configured'')
             else
               (case f_asset_id finding of
                  None \<Rightarrow> Inl (ConflictError ''remediation_target_missing'')
                | Some asset_id \<Rightarrow>
                    (case find (\<lambda>a. as_id a = asset_id \<and> as_aws_account_id a = acc_id account \<and>
                                    as_organization_id a = organization_id) (assets d) of
                       None \<Rightarrow> Inl (NotFoundError ''asset_not_found'')
                     | Some asset \<Rightarrow>
                         if rr_target_resource_arn r \<noteq> as_arn asset \<or>
                            rr_target_region r \<noteq> Some (as_region asset) \<or>
                            dict_get ''asset_id'' (rr_request_snapshot_json r) \<noteq> JStr (uuid_str (as_id asset)) \<or>
                            dict_get ''asset_evidence_hash'' (rr_request_snapshot_json r) \<noteq>
                              JStr (hash_of sv (JDict (as_metadata_json asset))) then
                           Inl (ConflictError ''remediation_target_mismatch'')
                         else Inr \<lparr>xc_account = account, xc_asset = asset, xc_finding = finding,
                                    xc_request = r\<rparr>))))"

text \<open>The checks before an executor is chosen, in the order of the code.\<close>

definition execution_preconditions ::
    "RemediationService \<Rightarrow> uuid \<Rightarrow> RemediationRequest \<Rightarrow> db \<Rightarrow> exn + Finding" where
  "execution_preconditions sv organization_id r d =
     (if rr_status r \<noteq> RemediationStatus.APPROVED then Inl (ConflictError ''remediation_invalid_transition'')
      else if rr_execution_mode r \<notin> {RemediationExecutionMode.MOCK_AUTOMATION, RemediationExecutionMode.LIVE_AWS} then
        Inl (ConflictError ''remediation_not_automatable'')
      else if \<not> remediation_execution_enabled (sv_settings sv) then
        Inl (ConflictError ''remediation_execution_disabled'')
      else if hash_of sv (JDict (rr_request_snapshot_json r)) \<noteq> rr_request_snapshot_hash r \<or>
              rr_approved_snapshot_hash r \<noteq> Some (rr_request_snapshot_hash r) then
        Inl (ConflictError ''remediation_snapshot_changed'')
      else if (case get_action (rr_action_key r) (sv_action_registry sv) of
                 None \<Rightarrow> True
               | Some a \<Rightarrow> ra_version a \<noteq> rr_action_version r \<or> rr_rule_key r \<notin> set (ra_rule_keys a)) then
        Inl (ConflictError ''remediation_action_not_allowed'')
      else
        (case get_finding organization_id (rr_finding_id r) d of
           Inl e \<Rightarrow> Inl e
         | Inr finding \<Rightarrow>
             if f_status finding \<noteq> FindingStatus.OPEN \<or> f_rule_key finding \<noteq> rr_rule_key r \<or>
                JStr (hash_of sv (f_evidence_json finding)) \<noteq>
                  dict_get ''finding_evidence_hash'' (rr_request_snapshot_json r) then
               Inl (ConflictError ''remediation_precondition_changed'')
             else Inr finding))"

text \<open>The executor and its context for a request: only a live request leaves the default one.\<close>

definition choose_executor ::
    "RemediationService \<Rightarrow> uuid \<Rightarrow> uuid \<Rightarrow> RemediationRequest \<Rightarrow> Finding \<Rightarrow> db \<Rightarrow>
     exn + (RemediationExecutor \<times> RemediationExecutionContext option)" where
  "choose_executor sv organization_id execution_lease_id r finding d =
     (if rr_execution_mode r = RemediationExecutionMode.LIVE_AWS then
        if rr_execution_lease_id r \<noteq> None \<and> rr_execution_lease_id r \<noteq> Some execution_lease_id then
          Inl (ConflictError ''remediation_execution_lease_mismatch'')
        else
          (case live_execution_context sv organization_id r finding d of
             Inl e \<Rightarrow> Inl e
           | Inr context \<Rightarrow>
               if rr_executor_key r \<noteq> Some (ex_key (sv_live_executor sv)) then
                 Inl (ConflictError ''remediation_executor_mismatch'')
               else Inr (sv_live_executor sv, Some context))
      else Inr (sv_executor sv, None))"

text \<open>Storing what the executor reported, through the validators of the evidence columns.\<close>

definition store_evidence ::
    "uuid \<Rightarrow> RemediationExecutionResult \<Rightarrow> RemediationRequest \<Rightarrow> exn + RemediationRequest" where
  "store_evidence execution_lease_id result r =
     (case reject_sensitive_execution_evidence ''precondition_evidence_json''
             (Some (case xr_precondition_evidence result of None \<Rightarrow> [] | Some e \<Rightarrow> e)) of
        Inl e \<Rightarrow> Inl e
      | Inr precondition \<Rightarrow>
          (case reject_sensitive_execution_evidence ''verification_result_json'' (xr_verification_result result) of
             Inl e \<Rightarrow> Inl e
           | Inr verification \<Rightarrow>
               (case reject_sensitive_execution_evidence ''aws_request_ids_json'' (xr_aws_request_ids result) of
                  Inl e \<Rightarrow> Inl e
                | Inr request_ids \<Rightarrow>
                    Inr (r\<lparr>rr_execution_lease_id := Some execution_lease_id,
                           rr_attempt_count := rr_attempt_count r + 1,
                           rr_before_state_json :=
                             Some (case xr_rollback_state result of
                                     None \<Rightarrow> xr_before_state result
                                   | Some s \<Rightarrow> if s = [] then xr_before_state result else s),
                           rr_precondition_evidence_json := the precondition,
                           rr_verification_result_json := verification,
                           rr_aws_request_ids_json := request_ids\<rparr>))))"

definition finish_execution ::
    "RemediationExecutionResult \<Rightarrow> instant \<Rightarrow> RemediationRequest \<Rightarrow> RemediationRequest" where
  "finish_execution result now r =
     (if xr_outcome result = SUCCESS then
        r\<lparr>rr_status := RemediationStatus.SUCCEEDED, rr_executed_at := Some now,
          rr_after_state_json := xr_after_state result,
          rr_execution_result_json :=
            Some [(''outcome'', JStr ''success''), (''attempt_count'', JInt (rr_attempt_count r))],
          rr_failure_reason := None\<rparr>
      else if MAX_EXECUTION_ATTEMPTS \<le> rr_attempt_count r then
        r\<lparr>rr_status := RemediationStatus.FAILED, rr_failed_at := Some now,
          rr_failure_reason := xr_sanitized_error result,
          rr_execution_result_json :=
            Some [(''outcome'', JStr ''failed''), (''attempt_count'', JInt (rr_attempt_count r))]\<rparr>
      else r)"

definition execution_audit :: "RemediationRequest \<Rightarrow> string \<times> AuditResult" where
  "execution_audit r =
     (if rr_status r = RemediationStatus.SUCCEEDED then (''remediation.request.succeeded'', AuditResult.SUCCEEDED)
      else if rr_status r = RemediationStatus.FAILED then (''remediation.request.failed'', AuditResult.FAILED)
      else (''remediation.request.execution_retry'', AuditResult.SUCCEEDED))"

definition execute ::
    "RemediationService \<Rightarrow> uuid \<Rightarrow> uuid \<Rightarrow> uuid \<Rightarrow> instant \<Rightarrow> db \<Rightarrow> (db, RemediationRequest) outcome" where
  "execute sv organization_id request_id execution_lease_id now d =
     (case get_request organization_id request_id d of
        Inl e \<Rightarrow> raise e d
      | Inr r \<Rightarrow>
          (case execution_preconditions sv organization_id r d of
             Inl e \<Rightarrow> raise e d
           | Inr finding \<Rightarrow>
               (case choose_executor sv organization_id execution_lease_id r finding d of
                  Inl e \<Rightarrow> raise e d
                | Inr (executor, context) \<Rightarrow>
                    (case ex_execute executor
                            \<lparr>rc_action_key = rr_action_key r, rc_finding_id = rr_finding_id r,
                             rc_snapshot_hash = rr_request_snapshot_hash r, rc_dry_run = rr_dry_run r,
                             rc_context = context\<rparr> of
                       Inl e \<Rightarrow> raise e d
                     | Inr result \<Rightarrow>
                         (case store_evidence execution_lease_id result r of
                            Inl e \<Rightarrow> raise e d
                          | Inr r1 \<Rightarrow>
                              let r2 = finish_execution result now r1 in
                              (case flush_request r2 d of
                                 Inl e \<Rightarrow> raise e d
                               | Inr d' \<Rightarrow>
                                   return r2
                                     (record_audit (fst (execution_audit r2)) ''remediation_request''
                                        (snd (execution_audit r2)) (Some organization_id) None (Some (rr_id r)) d')))))))"

section \<open>The handlers\<close>

definition guarded ::
    "uuid \<Rightarrow> uuid \<Rightarrow> Capability \<Rightarrow> (db \<Rightarrow> (db, 'a) outcome) \<Rightarrow> db \<Rightarrow> (db, 'a) outcome" where
  "guarded organization_id user capability operation d =
     (case require_capability organization_id user capability d of
        Inl e \<Rightarrow> raise e d
      | Inr _ \<Rightarrow> operation d)"

definition propose_remediation ::
    "RemediationService \<Rightarrow> uuid \<Rightarrow> uuid \<Rightarrow> uuid \<Rightarrow> uuid \<Rightarrow> db \<Rightarrow> (db, RemediationRequest) outcome" where
  "propose_remediation sv organization_id finding_id user new_id =
     guarded organization_id user REMEDIATION_REQUEST
       (propose_for_finding sv organization_id finding_id user new_id)"

definition approve_remediation ::
    "RemediationService \<Rightarrow> uuid \<Rightarrow> uuid \<Rightarrow> uuid \<Rightarrow> instant \<Rightarrow> db \<Rightarrow> (db, RemediationRequest) outcome" where
  "approve_remediation sv organization_id request_id user now =
     guarded organization_id user REMEDIATION_APPROVE (approve sv organization_id request_id user now)"

definition reject_remediation ::
    "uuid \<Rightarrow> uuid \<Rightarrow> uuid \<Rightarrow> string \<Rightarrow> instant \<Rightarrow> db \<Rightarrow> (db, RemediationRequest) outcome" where
  "reject_remediation organization_id request_id user reason now =
     guarded organization_id user REMEDIATION_REJECT (reject organization_id request_id user reason now)"

definition cancel_remediation ::
    "uuid \<Rightarrow> uuid \<Rightarrow> uuid \<Rightarrow> instant \<Rightarrow> db \<Rightarrow> (db, RemediationRequest) outcome" where
  "cancel_remediation organization_id request_id user now =
     guarded organization_id user REMEDIATION_REQUEST (cancel_request organization_id request_id user now)"

definition execute_remediation ::
    "uuid \<Rightarrow> uuid \<Rightarrow> uuid \<Rightarrow> uuid \<Rightarrow> uuid \<Rightarrow> instant \<Rightarrow> db \<Rightarrow> (db, PlatformJob) outcome" where
  "execute_remediation organization_id request_id user new_id new_correlation now =
     guarded organization_id user REMEDIATION_EXECUTE (\<lambda>d.
       case get_request organization_id request_id d of
         Inl e \<Rightarrow> raise e d
       | Inr r \<Rightarrow>
           if rr_status r \<noteq> RemediationStatus.APPROVED then raise (ConflictError ''remediation_invalid_transition'') d
           else
             (case enqueue
                     ((enqueue_args organization_id PlatformJobType.REMEDIATION_SIMULATION (rr_id r)
                         (''remediation:'' @ rr_idempotency_key r))
                      \<lparr>eq_payload := Some [(''remediation_request_id'', JStr (uuid_str (rr_id r))),
                                          (''actor_user_id'', JStr (uuid_str user))],
                       eq_max_attempts := 3, eq_actor_user_id := Some user\<rparr>)
                     new_id new_correlation now d of
                (Inl e, d') \<Rightarrow> raise e d'
              | (Inr (job, created), d') \<Rightarrow> return job d'))"

section \<open>Lemmas on rows\<close>

definition same_request :: "RemediationRequest \<Rightarrow> RemediationRequest \<Rightarrow> bool" where
  "same_request r r' =
     (rr_id r' = rr_id r \<and> rr_organization_id r' = rr_organization_id r \<and> rr_finding_id r' = rr_finding_id r \<and>
      rr_idempotency_key r' = rr_idempotency_key r)"

lemma get_request_row:
  assumes "keys_distinct rr_id (remediation_requests d)" and "get_request org i d = Inr r"
  shows "get_row rr_id i (remediation_requests d) = Some r" and "rr_id r = i" and "rr_organization_id r = org"
proof -
  have f: "find (\<lambda>r. rr_id r = i \<and> rr_organization_id r = org) (remediation_requests d) = Some r"
    using assms(2) by (auto simp: get_request_def split: option.splits)
  from find_mem [OF f] show "rr_id r = i" and "rr_organization_id r = org" by auto
  with find_eq_get_row [OF assms(1) f] show "get_row rr_id i (remediation_requests d) = Some r" by simp
qed

lemma get_request_get_row:
  assumes "keys_distinct rr_id (remediation_requests d)" and "get_row rr_id i (remediation_requests d) = Some r"
  shows "get_request (rr_organization_id r) i d = Inr r"
proof -
  let ?p = "\<lambda>k. rr_id k = i \<and> rr_organization_id k = rr_organization_id r"
  obtain k where k: "find ?p (remediation_requests d) = Some k"
    using get_row_mem [OF assms(2)] by (cases "find ?p (remediation_requests d)") (auto simp: find_None_iff)
  with find_eq_get_row [OF assms(1) k] find_mem [OF k] assms(2) show ?thesis by (simp add: get_request_def)
qed

lemma get_finding_mem:
  "get_finding org i d = Inr f \<Longrightarrow> f \<in> set (findings d) \<and> f_id f = i \<and> f_organization_id f = org"
  by (auto simp: get_finding_def split: option.splits dest: find_mem)

lemma flush_request_frame:
  "flush_request r d = Inr d' \<Longrightarrow> d' = d\<lparr>remediation_requests := put_row rr_id r (remediation_requests d)\<rparr> \<and>
     remediation_constraints r \<and> remediation_unique (remediation_requests d')"
  by (auto simp: flush_request_def Let_def split: if_splits)

text \<open>A row that keeps its identity and does not newly become active always flushes.\<close>

lemma flush_request_succeeds:
  assumes "keys_distinct rr_id (remediation_requests d)" and "remediation_unique (remediation_requests d)"
    and "get_row rr_id (rr_id r) (remediation_requests d) = Some r" and "same_request r r'"
    and "remediation_active r' \<Longrightarrow> remediation_active r" and "remediation_constraints r'"
  shows "flush_request r' d = Inr (d\<lparr>remediation_requests := put_row rr_id r' (remediation_requests d)\<rparr>)"
proof -
  have g: "get_row rr_id (rr_id r') (remediation_requests d) = Some r"
    using assms(3,4) by (simp add: same_request_def)
  have "remediation_unique (put_row rr_id r' (remediation_requests d))"
    using assms(2,4) unfolding remediation_unique_def
    by (auto simp: same_request_def intro!: unique_on_put_row [OF assms(1) g] assms(5))
  with assms(6) show ?thesis by (simp add: flush_request_def Let_def)
qed

text \<open>
  What holds of every stored request beyond the table's constraints: an open request has
  attempts left, and an approved or executed one was approved by someone for exactly the
  snapshot it carries.
\<close>

definition request_ok :: "RemediationRequest \<Rightarrow> bool" where
  "request_ok r =
     (remediation_constraints r \<and>
      (remediation_active r \<longrightarrow> rr_attempt_count r < MAX_EXECUTION_ATTEMPTS) \<and>
      (rr_status r \<in> {RemediationStatus.APPROVED, RemediationStatus.SUCCEEDED, RemediationStatus.FAILED} \<longrightarrow>
         rr_approved_by_user_id r \<noteq> None \<and> rr_approved_snapshot_hash r = Some (rr_request_snapshot_hash r)))"

definition requests_ok :: "db \<Rightarrow> bool" where
  "requests_ok d =
     (keys_distinct rr_id (remediation_requests d) \<and> remediation_unique (remediation_requests d) \<and>
      (\<forall>r \<in> set (remediation_requests d). request_ok r))"

lemmas request_rules = request_ok_def remediation_constraints_def remediation_status_lifecycle_def remediation_active_def
  MAX_EXECUTION_ATTEMPTS_def

lemma proposal_ok: "request_ok (proposal sv org f requester i)"
  by (simp add: proposal_def Let_def request_rules)

lemma approve_row_ok:
  "request_ok r \<Longrightarrow> rr_status r = RemediationStatus.PENDING_APPROVAL \<Longrightarrow> request_ok (approve_row u now r)"
  by (auto simp: approve_row_def request_rules)

lemma reject_row_ok:
  "request_ok r \<Longrightarrow> rr_status r = RemediationStatus.PENDING_APPROVAL \<Longrightarrow> request_ok (reject_row u s now r)"
  by (auto simp: reject_row_def request_rules)

lemma cancel_row_ok: "request_ok r \<Longrightarrow> remediation_active r \<Longrightarrow> request_ok (cancel_row now r)"
  by (auto simp: cancel_row_def request_rules)

lemma store_evidence_row:
  assumes "store_evidence l result r = Inr r1"
  shows "same_request r r1" and "rr_status r1 = rr_status r" and "rr_attempt_count r1 = rr_attempt_count r + 1"
    and "rr_approved_at r1 = rr_approved_at r" and "rr_rejected_at r1 = rr_rejected_at r"
    and "rr_cancelled_at r1 = rr_cancelled_at r" and "rr_executed_at r1 = rr_executed_at r"
    and "rr_failed_at r1 = rr_failed_at r" and "rr_approved_by_user_id r1 = rr_approved_by_user_id r"
    and "rr_approved_snapshot_hash r1 = rr_approved_snapshot_hash r"
    and "rr_request_snapshot_hash r1 = rr_request_snapshot_hash r"
  using assms by (auto simp: store_evidence_def same_request_def split: sum.splits)

lemma finish_execution_ok:
  assumes "request_ok r" and "rr_status r = RemediationStatus.APPROVED" and "store_evidence l result r = Inr r1"
  shows "request_ok (finish_execution result now r1)"
  using assms(1,2) store_evidence_row [OF assms(3)]
  by (auto simp: finish_execution_def request_rules)

lemma finish_execution_same:
  assumes "store_evidence l result r = Inr r1"
  shows "same_request r (finish_execution result now r1)"
  using store_evidence_row(1) [OF assms] by (auto simp: finish_execution_def same_request_def)

lemma row_same [simp]:
  "same_request r (approve_row u now r)" "same_request r (reject_row u s now r)" "same_request r (cancel_row now r)"
  by (simp_all add: same_request_def approve_row_def reject_row_def cancel_row_def)

lemma requests_okD:
  assumes "requests_ok d" and "get_request org i d = Inr r"
  shows "keys_distinct rr_id (remediation_requests d)" and "remediation_unique (remediation_requests d)"
    and "get_row rr_id (rr_id r) (remediation_requests d) = Some r" and "request_ok r"
    and "rr_id r = i" and "rr_organization_id r = org"
proof -
  show kd: "keys_distinct rr_id (remediation_requests d)" and "remediation_unique (remediation_requests d)"
    using assms(1) by (simp_all add: requests_ok_def)
  note row = get_request_row [OF kd assms(2)]
  show "get_row rr_id (rr_id r) (remediation_requests d) = Some r" and "rr_id r = i" and "rr_organization_id r = org"
    using row by simp_all
  show "request_ok r" using assms(1) get_row_in [OF row(1)] by (simp add: requests_ok_def)
qed

lemma put_request_ok:
  assumes "requests_ok d" and "flush_request r' d = Inr d'" and "request_ok r'"
  shows "requests_ok d'"
  using assms flush_request_frame [OF assms(2)]
  by (auto simp: requests_ok_def dest: set_put_row)

section \<open>Lemmas on execution\<close>

text \<open>A successful execution in one statement: every gate was open.\<close>

lemma execute_cases:
  assumes "execute sv org i lease now d = (Inr r', d')"
  obtains r finding executor ctx result r1 d1 where "get_request org i d = Inr r"
    and "execution_preconditions sv org r d = Inr finding"
    and "choose_executor sv org lease r finding d = Inr (executor, ctx)"
    and "ex_execute executor \<lparr>rc_action_key = rr_action_key r, rc_finding_id = rr_finding_id r,
           rc_snapshot_hash = rr_request_snapshot_hash r, rc_dry_run = rr_dry_run r, rc_context = ctx\<rparr> = Inr result"
    and "store_evidence lease result r = Inr r1" and "r' = finish_execution result now r1"
    and "flush_request r' d = Inr d1" and "remediation_requests d' = remediation_requests d1"
  using assms
  by (auto simp: execute_def Let_def split: sum.splits prod.splits)

lemma execution_preconditions_Inr:
  assumes "execution_preconditions sv org r d = Inr finding"
  shows "rr_status r = RemediationStatus.APPROVED"
    and "rr_execution_mode r \<in> {RemediationExecutionMode.MOCK_AUTOMATION, RemediationExecutionMode.LIVE_AWS}"
    and "remediation_execution_enabled (sv_settings sv)"
    and "hash_of sv (JDict (rr_request_snapshot_json r)) = rr_request_snapshot_hash r"
    and "rr_approved_snapshot_hash r = Some (rr_request_snapshot_hash r)"
    and "\<exists>a. get_action (rr_action_key r) (sv_action_registry sv) = Some a \<and> ra_version a = rr_action_version r \<and>
      rr_rule_key r \<in> set (ra_rule_keys a)"
    and "get_finding org (rr_finding_id r) d = Inr finding" and "f_status finding = FindingStatus.OPEN"
    and "dict_get ''finding_evidence_hash'' (rr_request_snapshot_json r) = JStr (hash_of sv (f_evidence_json finding))"
  using assms by (auto simp: execution_preconditions_def split: if_splits option.splits sum.splits)

lemma choose_executor_live:
  assumes "choose_executor sv org lease r finding d = Inr (executor, ctx)"
    and "rr_execution_mode r = RemediationExecutionMode.LIVE_AWS"
  shows "remediation_live_aws_enabled (sv_settings sv) \<and> \<not> remediation_emergency_stop (sv_settings sv) \<and>
    \<not> rr_dry_run r \<and> executor = sv_live_executor sv \<and>
    (\<exists>account asset. account \<in> set (aws_accounts d) \<and> acc_id account = rr_aws_account_id r \<and>
       acc_organization_id account = org \<and> acc_sandbox_approved account \<and>
       acc_sandbox_approved_by_user_id account \<noteq> None \<and> \<not> unset (acc_remediation_role_arn account) \<and>
       asset \<in> set (assets d) \<and> f_asset_id finding = Some (as_id asset) \<and>
       as_aws_account_id asset = acc_id account \<and> rr_target_resource_arn r = as_arn asset \<and>
       dict_get ''asset_evidence_hash'' (rr_request_snapshot_json r) = JStr (hash_of sv (JDict (as_metadata_json asset))))"
  using assms
  by (auto simp: choose_executor_def live_execution_context_def split: if_splits sum.splits option.splits dest!: find_mem)

lemma execute_by_steps:
  assumes "requests_ok d" and "get_request org i d = Inr r"
    and "execution_preconditions sv org r d = Inr finding"
    and "choose_executor sv org lease r finding d = Inr (executor, ctx)"
    and "ex_execute executor \<lparr>rc_action_key = rr_action_key r, rc_finding_id = rr_finding_id r,
           rc_snapshot_hash = rr_request_snapshot_hash r, rc_dry_run = rr_dry_run r, rc_context = ctx\<rparr> = Inr result"
    and "store_evidence lease result r = Inr r1"
  shows "\<exists>d'. execute sv org i lease now d = (Inr (finish_execution result now r1), d') \<and>
    remediation_requests d' = put_row rr_id (finish_execution result now r1) (remediation_requests d)"
proof -
  note ok = requests_okD [OF assms(1,2)]
  have st: "rr_status r = RemediationStatus.APPROVED" using execution_preconditions_Inr [OF assms(3)] by simp
  let ?r2 = "finish_execution result now r1"
  have r2: "request_ok ?r2" using finish_execution_ok [OF ok(4) st assms(6)] .
  have "flush_request ?r2 d = Inr (d\<lparr>remediation_requests := put_row rr_id ?r2 (remediation_requests d)\<rparr>)"
    by (rule flush_request_succeeds [OF ok(1-3) finish_execution_same [OF assms(6)]])
      (use r2 st in \<open>auto simp: request_ok_def remediation_active_def\<close>)
  with assms show ?thesis by (simp add: execute_def Let_def)
qed

section \<open>Lemmas on proposals\<close>

lemma proposal_fields [simp]:
  "rr_id (proposal sv org f u i) = i" "rr_organization_id (proposal sv org f u i) = org"
  "rr_finding_id (proposal sv org f u i) = f_id f" "rr_status (proposal sv org f u i) = RemediationStatus.PENDING_APPROVAL"
  "rr_idempotency_key (proposal sv org f u i) = rr_idempotency_key (proposal sv org f u' i')"
  by (simp_all add: proposal_def Let_def)

lemma propose_new:
  assumes "propose_for_finding sv org fid u i d = (Inr r, d1)" and "active_request fid d = None"
  obtains f where "get_finding org fid d = Inr f" and "f_status f = FindingStatus.OPEN" and "r = proposal sv org f u i"
    and "remediation_requests d1 = remediation_requests d @ [r]" and "findings d1 = findings d"
    and "remediation_constraints r" and "remediation_unique (remediation_requests d1)"
  using assms by (auto simp: propose_for_finding_def Let_def split: sum.splits if_splits)

text \<open>A finding whose key is taken by a request that is no longer active cannot be proposed again.\<close>

lemma propose_key_taken:
  assumes "get_finding org fid d = Inr f" and "f_status f = FindingStatus.OPEN" and "active_request fid d = None"
    and "x \<in> set (remediation_requests d)" and "rr_organization_id x = org"
    and "rr_idempotency_key x = rr_idempotency_key (proposal sv org f u i)"
  shows "propose_for_finding sv org fid u i d = raise IntegrityError d"
proof -
  have "\<not> remediation_unique (remediation_requests d @ [proposal sv org f u i])"
    using assms(4-6) by (auto simp: remediation_unique_def unique_on_snoc)
  with assms(1-3) show ?thesis by (simp add: propose_for_finding_def Let_def)
qed

lemma active_request_None:
  "active_request fid d = None \<longleftrightarrow> (\<forall>r \<in> set (remediation_requests d). rr_finding_id r = fid \<longrightarrow> \<not> remediation_active r)"
  by (auto simp: active_request_def find_None_iff)

lemma active_request_unique:
  assumes "remediation_unique (remediation_requests d)" and "r \<in> set (remediation_requests d)"
    and "remediation_active r" and "rr_finding_id r = fid"
  shows "active_request fid d = Some r"
proof -
  obtain k where k: "active_request fid d = Some k"
    using assms(2-4) active_request_None [of fid d] by (cases "active_request fid d") auto
  then have "k \<in> set (remediation_requests d)" "remediation_active k" "rr_finding_id k = fid"
    by (auto simp: active_request_def dest!: find_mem)
  with assms unique_onD [of remediation_active rr_finding_id "remediation_requests d" k r] k
  show ?thesis by (simp add: remediation_unique_def)
qed

text \<open>After the only active request of a finding was closed, none is active.\<close>

lemma closed_no_active:
  assumes "remediation_unique rows" and "r \<in> set rows" and "remediation_active r" and "rr_finding_id r = fid"
    and "rr_id r' = rr_id r" and "\<not> remediation_active r'" and "remediation_requests d2 = put_row rr_id r' rows"
  shows "active_request fid d2 = None"
  unfolding active_request_None
proof (intro ballI impI notI)
  fix x
  assume x: "x \<in> set (remediation_requests d2)" "rr_finding_id x = fid" "remediation_active x"
  from x(1) assms(7) have "x = r' \<or> x \<in> set rows \<and> rr_id x \<noteq> rr_id r'" by (auto dest: set_put_row)
  with x(3) assms(6) have "x \<in> set rows" "rr_id x \<noteq> rr_id r" using assms(5) by auto
  moreover have "x = r"
    using unique_onD [of remediation_active rr_finding_id rows x r] assms(1-4) x calculation(1)
    by (simp add: remediation_unique_def)
  ultimately show False by simp
qed

section \<open>A sample request\<close>

definition sample_service :: RemediationService where
  "sample_service =
     \<lparr>sv_sha256 = (\<lambda>s. ''digest''), sv_redact = (\<lambda>s. s), sv_registry = [],
      sv_action_registry =
        \<lparr>by_key = [(''s3.enable_default_encryption'', DEFAULT_REMEDIATION_ACTIONS ! 2)],
         by_rule = [(''S3_BUCKET_DEFAULT_ENCRYPTION_MISSING'', DEFAULT_REMEDIATION_ACTIONS ! 2)]\<rparr>,
      sv_settings = \<lparr>remediation_execution_enabled = True, remediation_live_aws_enabled = False,
        remediation_emergency_stop = False\<rparr>,
      sv_executor = MockRemediationExecutor ''success'' 0, sv_live_executor = MockRemediationExecutor ''always_fail'' 0,
      sv_snapshot_trigger = False\<rparr>"

definition sample_finding :: Finding where
  "sample_finding =
     \<lparr>f_id = 60, f_organization_id = 2, f_aws_account_id = 3, f_asset_id = Some 50,
      f_rule_key = ''S3_BUCKET_DEFAULT_ENCRYPTION_MISSING'', f_rule_version = 1, f_severity = FindingSeverity.HIGH,
      f_category = ''data_protection'', f_status = FindingStatus.OPEN, f_evidence_json = JDict [],
      f_first_seen_at = 0, f_last_seen_at = 10, f_resolved_at = None, f_suppressed_at = None,
      f_suppressed_until = None, f_suppression_reason = None, f_suppressed_by_user_id = None,
      f_last_evaluation_id = 70, f_lifecycle_version = 1\<rparr>"

definition sample_findings :: db where
  "sample_findings = sample_org\<lparr>findings := [sample_finding]\<rparr>"

definition sample_approved :: RemediationRequest where
  "sample_approved = approve_row 7 1000 (proposal sample_service 2 sample_finding 7 300)"

definition sample_requests :: db where
  "sample_requests = sample_findings\<lparr>remediation_requests := [sample_approved]\<rparr>"

lemma sample_hash [simp]: "hash_of sample_service v = ''digest''"
  by (simp add: hash_of_def json_hash_def sample_service_def)

lemma sample_get_finding [simp]: "get_finding 2 60 sample_findings = Inr sample_finding"
  by (simp add: get_finding_def sample_findings_def sample_finding_def)

lemma sample_requests_ok: "requests_ok sample_requests"
proof -
  have "request_ok sample_approved"
    unfolding sample_approved_def by (rule approve_row_ok [OF proposal_ok]) simp
  then show ?thesis
    by (simp add: requests_ok_def sample_requests_def remediation_unique_def)
qed

lemma sample_get_request: "get_request 2 300 sample_requests = Inr sample_approved"
  by (simp add: get_request_def sample_requests_def sample_approved_def approve_row_def)

lemma sample_preconditions: "execution_preconditions sample_service 2 sample_approved sample_requests = Inr sample_finding"
  by (simp add: execution_preconditions_def sample_approved_def approve_row_def proposal_def Let_def
      proposal_snapshot_def dict_get_def get_finding_def sample_requests_def sample_findings_def)
    (simp add: sample_service_def sample_finding_def for_rule_def get_action_def DEFAULT_REMEDIATION_ACTIONS_def)

lemma sample_choice:
  "choose_executor sample_service 2 lease sample_approved f sample_requests = Inr (sv_executor sample_service, None)"
  by (simp add: choose_executor_def sample_approved_def approve_row_def proposal_def Let_def)
    (simp add: sample_service_def sample_finding_def for_rule_def)

lemma mock_evidence_stored:
  "xr_precondition_evidence result = None \<Longrightarrow> xr_verification_result result = None \<Longrightarrow>
     xr_aws_request_ids result = None \<Longrightarrow> \<exists>r1. store_evidence lease result r = Inr r1"
  by (simp add: store_evidence_def reject_sensitive_execution_evidence_def)

section \<open>Properties\<close>

text \<open>
  C10. Execution is gated: a request is executed only while it is approved for exactly the snapshot
  it carries (which still hashes to the approved digest), with the kill switch off, an allowlisted
  action for its rule and version, and an open finding whose evidence is the one in the snapshot.
  A live request moreover needs live execution enabled without emergency stop, a non-dry-run
  approval, an account of the tenant approved for the sandbox with a remediation role, and a
  target asset whose inventory still matches the snapshot.
\<close>

theorem execution_is_gated:
  assumes "execute sv org i lease now d = (Inr r', d')"
  shows "\<exists>r finding. get_request org i d = Inr r \<and> rr_status r = RemediationStatus.APPROVED \<and>
    rr_approved_snapshot_hash r = Some (hash_of sv (JDict (rr_request_snapshot_json r))) \<and>
    remediation_execution_enabled (sv_settings sv) \<and>
    (\<exists>a. get_action (rr_action_key r) (sv_action_registry sv) = Some a \<and> ra_version a = rr_action_version r \<and>
       rr_rule_key r \<in> set (ra_rule_keys a)) \<and>
    get_finding org (rr_finding_id r) d = Inr finding \<and> f_status finding = FindingStatus.OPEN \<and>
    dict_get ''finding_evidence_hash'' (rr_request_snapshot_json r) = JStr (hash_of sv (f_evidence_json finding)) \<and>
    (rr_execution_mode r = RemediationExecutionMode.MOCK_AUTOMATION \<or>
     rr_execution_mode r = RemediationExecutionMode.LIVE_AWS \<and>
     remediation_live_aws_enabled (sv_settings sv) \<and> \<not> remediation_emergency_stop (sv_settings sv) \<and>
     \<not> rr_dry_run r \<and>
     (\<exists>account asset. account \<in> set (aws_accounts d) \<and> acc_id account = rr_aws_account_id r \<and>
        acc_organization_id account = org \<and> acc_sandbox_approved account \<and>
        acc_sandbox_approved_by_user_id account \<noteq> None \<and> \<not> unset (acc_remediation_role_arn account) \<and>
        asset \<in> set (assets d) \<and> f_asset_id finding = Some (as_id asset) \<and>
        as_aws_account_id asset = acc_id account \<and> rr_target_resource_arn r = as_arn asset \<and>
        dict_get ''asset_evidence_hash'' (rr_request_snapshot_json r) = JStr (hash_of sv (JDict (as_metadata_json asset)))))"
proof -
  from assms obtain r finding executor ctx result r1 d1 where e: "get_request org i d = Inr r"
      "execution_preconditions sv org r d = Inr finding"
      "choose_executor sv org lease r finding d = Inr (executor, ctx)"
    by (rule execute_cases)
  note pre = execution_preconditions_Inr [OF e(2)]
  show ?thesis
  proof (cases "rr_execution_mode r = RemediationExecutionMode.LIVE_AWS")
    case True
    from choose_executor_live [OF e(3) True] pre e(1) True show ?thesis by auto
  next
    case False
    with pre e(1) show ?thesis by auto
  qed
qed

theorem execution_is_gated_witness:
  "\<exists>r' d' r. execute sample_service 2 300 9 2000 sample_requests = (Inr r', d') \<and>
     get_request 2 300 sample_requests = Inr r \<and> rr_status r = RemediationStatus.APPROVED"
proof -
  let ?call = "\<lparr>rc_action_key = rr_action_key sample_approved, rc_finding_id = rr_finding_id sample_approved,
    rc_snapshot_hash = rr_request_snapshot_hash sample_approved, rc_dry_run = rr_dry_run sample_approved,
    rc_context = None\<rparr>"
  have x: "ex_execute (sv_executor sample_service) ?call = Inr (mock_success 1 ?call)"
    by (simp add: sample_service_def MockRemediationExecutor_def mock_execute_def Let_def)
  obtain r1 where r1: "store_evidence 9 (mock_success 1 ?call) sample_approved = Inr r1"
    using mock_evidence_stored [of "mock_success 1 ?call"] by (auto simp: mock_success_def)
  obtain r' d' where "execute sample_service 2 300 9 2000 sample_requests = (Inr r', d')"
    using execute_by_steps [OF sample_requests_ok sample_get_request sample_preconditions sample_choice x r1] by blast
  with execution_is_gated [OF this] show ?thesis by blast
qed

text \<open>
  The kill switches stop execution before any executor is consulted: while execution is
  disabled, or for a live request while live execution is disabled or the emergency stop is
  active, the request fails with the same client error whatever the executors would do, and the
  database is unchanged.
\<close>

theorem kill_switch_stops_execution:
  assumes "get_request org i d = Inr r"
    and "\<not> remediation_execution_enabled (sv_settings sv) \<or>
      rr_execution_mode r = RemediationExecutionMode.LIVE_AWS \<and>
      (\<not> remediation_live_aws_enabled (sv_settings sv) \<or> remediation_emergency_stop (sv_settings sv))"
  shows "\<exists>e. status_code e \<in> {404, 409} \<and>
    (\<forall>ex1 ex2. execute (sv\<lparr>sv_executor := ex1, sv_live_executor := ex2\<rparr>) org i lease now d = raise e d)"
proof -
  let ?sv = "\<lambda>ex1 ex2. sv\<lparr>sv_executor := ex1, sv_live_executor := ex2\<rparr>"
  have h: "hash_of (?sv ex1 ex2) = hash_of sv" for ex1 ex2 by (rule ext) (simp add: hash_of_def)
  have pre: "execution_preconditions (?sv ex1 ex2) org r d = execution_preconditions sv org r d" for ex1 ex2
    unfolding execution_preconditions_def h by simp
  have code: "status_code e \<in> {404, 409}" if "execution_preconditions sv org r d = Inl e" for e
    using that by (auto simp: execution_preconditions_def get_finding_def split: if_splits option.splits)
  show ?thesis
  proof (cases "execution_preconditions sv org r d")
    case (Inl e)
    have "execute (?sv ex1 ex2) org i lease now d = raise e d" for ex1 ex2
      by (simp add: execute_def assms(1) pre Inl)
    with code [OF Inl] show ?thesis by blast
  next
    case (Inr finding)
    with assms(2) execution_preconditions_Inr(3) [OF Inr] have live: "rr_execution_mode r = RemediationExecutionMode.LIVE_AWS"
        "\<not> remediation_live_aws_enabled (sv_settings sv) \<or> remediation_emergency_stop (sv_settings sv)" by auto
    define e where "e = (if rr_execution_lease_id r \<noteq> None \<and> rr_execution_lease_id r \<noteq> Some lease
        then ConflictError ''remediation_execution_lease_mismatch''
        else if \<not> remediation_live_aws_enabled (sv_settings sv)
        then ConflictError ''remediation_live_execution_disabled''
        else ConflictError ''remediation_emergency_stop_active'')"
    have chosen: "choose_executor (?sv ex1 ex2) org lease r finding d = Inl e" for ex1 ex2
      using live by (cases "remediation_live_aws_enabled (sv_settings sv)")
        (simp_all add: choose_executor_def live_execution_context_def e_def)
    have "execute (?sv ex1 ex2) org i lease now d = raise e d" for ex1 ex2
      by (simp add: execute_def assms(1) pre Inr chosen)
    moreover have "status_code e \<in> {404, 409}" by (simp add: e_def)
    ultimately show ?thesis by blast
  qed
qed

theorem kill_switch_stops_execution_witness:
  "\<exists>e. execute (sample_service\<lparr>sv_settings := \<lparr>remediation_execution_enabled = False,
       remediation_live_aws_enabled = True, remediation_emergency_stop = False\<rparr>,
       sv_executor := MockRemediationExecutor ''success'' 0, sv_live_executor := MockRemediationExecutor ''success'' 0\<rparr>)
     2 300 9 2000 sample_requests = raise e sample_requests \<and> status_code e \<in> {404, 409}"
proof -
  let ?sv = "sample_service\<lparr>sv_settings := \<lparr>remediation_execution_enabled = False,
    remediation_live_aws_enabled = True, remediation_emergency_stop = False\<rparr>\<rparr>"
  have "\<not> remediation_execution_enabled (sv_settings ?sv) \<or>
      rr_execution_mode sample_approved = RemediationExecutionMode.LIVE_AWS \<and>
      (\<not> remediation_live_aws_enabled (sv_settings ?sv) \<or> remediation_emergency_stop (sv_settings ?sv))"
    by simp
  from kill_switch_stops_execution [OF sample_get_request this, of 9 2000] show ?thesis by blast
qed

text \<open>
  Executions are counted and bounded: once the gates are open and the executor's evidence is
  free of credentials, the execution is stored with one more attempt and cannot fail on a table
  constraint. A success ends the request, a failure of the third attempt fails it for good, and
  any other failure leaves it approved; a closed request refuses every further execution.
\<close>

theorem executions_bounded:
  assumes "requests_ok d" and "get_request org i d = Inr r"
    and "execution_preconditions sv org r d = Inr finding"
    and "choose_executor sv org lease r finding d = Inr (executor, ctx)"
    and "ex_execute executor \<lparr>rc_action_key = rr_action_key r, rc_finding_id = rr_finding_id r,
           rc_snapshot_hash = rr_request_snapshot_hash r, rc_dry_run = rr_dry_run r, rc_context = ctx\<rparr> = Inr result"
    and "store_evidence lease result r = Inr r1"
  shows "\<exists>r' d'. execute sv org i lease now d = (Inr r', d') \<and> get_request org i d' = Inr r' \<and>
    rr_attempt_count r' = rr_attempt_count r + 1 \<and> rr_attempt_count r' \<le> 3 \<and>
    rr_status r' = (if xr_outcome result = SUCCESS then RemediationStatus.SUCCEEDED
      else if rr_attempt_count r' = 3 then RemediationStatus.FAILED else RemediationStatus.APPROVED) \<and>
    (rr_status r' \<noteq> RemediationStatus.APPROVED \<longrightarrow>
       (\<forall>sv' lease' now'. execute sv' org i lease' now' d' =
          raise (ConflictError ''remediation_invalid_transition'') d'))"
proof -
  note ok = requests_okD [OF assms(1,2)]
  have st: "rr_status r = RemediationStatus.APPROVED" using execution_preconditions_Inr [OF assms(3)] by simp
  let ?r2 = "finish_execution result now r1"
  note r1 = store_evidence_row [OF assms(6)]
  obtain d' where d': "execute sv org i lease now d = (Inr ?r2, d')"
      "remediation_requests d' = put_row rr_id ?r2 (remediation_requests d)"
    using execute_by_steps [OF assms] by blast
  have same: "same_request r ?r2" by (rule finish_execution_same [OF assms(6)])
  then have g: "get_row rr_id i (remediation_requests d') = Some ?r2"
    using ok(3,5) d'(2) by (simp add: same_request_def get_put_row)
  then have get: "get_request org i d' = Inr ?r2"
    using get_request_get_row [of d' i ?r2] d'(2) ok(1,6) same by (simp add: same_request_def)
  have n: "rr_attempt_count r < 3" using ok(4) st by (simp add: request_rules)
  have fields: "rr_attempt_count ?r2 = rr_attempt_count r + 1"
      "rr_status ?r2 = (if xr_outcome result = SUCCESS then RemediationStatus.SUCCEEDED
        else if rr_attempt_count ?r2 = 3 then RemediationStatus.FAILED else RemediationStatus.APPROVED)"
    using r1(2,3) st n by (auto simp: finish_execution_def MAX_EXECUTION_ATTEMPTS_def)
  have "execute sv' org i lease' now' d' = raise (ConflictError ''remediation_invalid_transition'') d'"
    if "rr_status ?r2 \<noteq> RemediationStatus.APPROVED" for sv' lease' now'
    using that get by (simp add: execute_def execution_preconditions_def)
  with d'(1) get fields n show ?thesis by (intro exI [of _ ?r2] exI [of _ d']) auto
qed

theorem executions_bounded_witness:
  "\<exists>r' d'. execute sample_service 2 300 9 2000 sample_requests = (Inr r', d') \<and>
     rr_status r' = RemediationStatus.SUCCEEDED \<and> rr_attempt_count r' = rr_attempt_count sample_approved + 1"
proof -
  let ?call = "\<lparr>rc_action_key = rr_action_key sample_approved, rc_finding_id = rr_finding_id sample_approved,
    rc_snapshot_hash = rr_request_snapshot_hash sample_approved, rc_dry_run = rr_dry_run sample_approved,
    rc_context = None\<rparr>"
  have x: "ex_execute (sv_executor sample_service) ?call = Inr (mock_success 1 ?call)"
    by (simp add: sample_service_def MockRemediationExecutor_def mock_execute_def Let_def)
  obtain r1 where r1: "store_evidence 9 (mock_success 1 ?call) sample_approved = Inr r1"
    using mock_evidence_stored [of "mock_success 1 ?call"] by (auto simp: mock_success_def)
  have "xr_outcome (mock_success 1 ?call) = SUCCESS" by (simp add: mock_success_def)
  with executions_bounded [OF sample_requests_ok sample_get_request sample_preconditions sample_choice x r1, of 2000]
  show ?thesis by auto
qed

text \<open>
  C11. Proposing is idempotent while a request is open, but not afterwards: a second proposal for
  the finding returns the open request unchanged, whereas after that request was rejected or
  cancelled, with the finding unchanged, every new proposal for it ends in an integrity error,
  because the idempotency key is a function of the finding alone.
\<close>

theorem proposing_again:
  assumes "requests_ok d" and "active_request fid d = None" and "i \<notin> rr_id ` set (remediation_requests d)"
    and "propose_for_finding sv org fid u i d = (Inr r, d1)"
  shows "propose_for_finding sv org fid u' i' d1 = return r d1 \<and>
    (\<forall>r2 d2. reject org i u2 reason now d1 = (Inr r2, d2) \<or> cancel_request org i u2 now d1 = (Inr r2, d2) \<longrightarrow>
       propose_for_finding sv org fid u' i' d2 = raise IntegrityError d2)"
proof -
  obtain f where f: "get_finding org fid d = Inr f" "f_status f = FindingStatus.OPEN" "r = proposal sv org f u i"
      "remediation_requests d1 = remediation_requests d @ [r]" "findings d1 = findings d"
      "remediation_constraints r" and u1: "remediation_unique (remediation_requests d1)"
    using propose_new [OF assms(4,2)] by blast
  have f1: "get_finding org fid d1 = Inr f" using f(1,5) by (simp add: get_finding_def)
  have fid: "f_id f = fid" using get_finding_mem [OF f(1)] by simp
  have r: "rr_id r = i" "rr_organization_id r = org" "rr_finding_id r = fid" "remediation_active r"
      "rr_status r = RemediationStatus.PENDING_APPROVAL" "r \<in> set (remediation_requests d1)"
    using f(3,4) fid by (auto simp: remediation_active_def)
  have kd: "keys_distinct rr_id (remediation_requests d1)"
    using assms(1,3) f(4) r(1) by (simp add: requests_ok_def keys_distinct_snoc)
  have get: "get_request org i d1 = Inr r"
    using get_request_get_row [OF kd, of i r] get_row_distinct [OF kd r(6)] r by simp
  have again: "propose_for_finding sv org fid u' i' d1 = return r d1"
    using active_request_unique [OF u1 r(6,4,3)] f1 f(2) by (simp add: propose_for_finding_def)
  have "propose_for_finding sv org fid u' i' d2 = raise IntegrityError d2"
    if close: "reject org i u2 reason now d1 = (Inr r2, d2) \<or> cancel_request org i u2 now d1 = (Inr r2, d2)" for r2 d2
  proof -
    have rj: "remediation_requests d2 = put_row rr_id (reject_row u2 reason now r) (remediation_requests d1) \<and>
        findings d2 = findings d1" if "reject org i u2 reason now d1 = (Inr r2, d2)"
      using that get r(5) by (auto simp: reject_def split: sum.splits dest!: flush_request_frame)
    have cn: "remediation_requests d2 = put_row rr_id (cancel_row now r) (remediation_requests d1) \<and>
        findings d2 = findings d1" if "cancel_request org i u2 now d1 = (Inr r2, d2)"
      using that get r(5) by (auto simp: cancel_request_def split: sum.splits dest!: flush_request_frame)
    from close rj cn obtain r' where r': "r' = reject_row u2 reason now r \<or> r' = cancel_row now r"
        and d2: "remediation_requests d2 = put_row rr_id r' (remediation_requests d1)" "findings d2 = findings d1"
      by blast
    have same: "same_request r r'" and "\<not> remediation_active r'"
      using r' by (auto simp: remediation_active_def reject_row_def cancel_row_def same_request_def)
    then have none: "active_request fid d2 = None"
      using closed_no_active [OF u1 r(6,4,3) _ _ d2(1)] by (simp add: same_request_def)
    have mem: "r' \<in> set (remediation_requests d2)"
      unfolding d2(1) by (rule in_put_row_same [OF r(6)]) (use same in \<open>simp add: same_request_def\<close>)
    have f2: "get_finding org fid d2 = Inr f" using f1 d2(2) by (simp add: get_finding_def)
    have "rr_idempotency_key r' = rr_idempotency_key (proposal sv org f u' i')"
      using same f(3) by (simp add: same_request_def)
    then show ?thesis
      using propose_key_taken [OF f2 f(2) none mem] same r(2) by (simp add: same_request_def)
  qed
  with again show ?thesis by blast
qed

text \<open>The sample finding is proposed, rejected, and cannot be proposed again.\<close>

theorem proposing_again_witness:
  "\<exists>r d1 r2 d2. propose_for_finding sample_service 2 60 7 300 sample_findings = (Inr r, d1) \<and>
     reject 2 300 7 ''no'' 2000 d1 = (Inr r2, d2) \<and>
     propose_for_finding sample_service 2 60 7 301 d2 = raise IntegrityError d2"
proof -
  let ?r = "proposal sample_service 2 sample_finding 7 300"
  let ?d1 = "record_audit ''remediation.request.proposed'' ''remediation_request'' AuditResult.SUCCEEDED
      (Some 2) (Some 7) (Some 300) (sample_findings\<lparr>remediation_requests := [?r]\<rparr>)"
  have none: "remediation_requests sample_findings = []"
    by (simp add: sample_findings_def sample_org_def empty_db_def)
  have con: "remediation_constraints ?r" using proposal_ok by (simp add: request_ok_def)
  have p: "propose_for_finding sample_service 2 60 7 300 sample_findings = (Inr ?r, ?d1)"
    using none con by (simp add: propose_for_finding_def active_request_def remediation_unique_def sample_finding_def Let_def)
  have ok: "requests_ok sample_findings" by (simp add: requests_ok_def none remediation_unique_def)
  have kd: "keys_distinct rr_id (remediation_requests ?d1)" by simp
  have u: "remediation_unique (remediation_requests ?d1)" by (simp add: remediation_unique_def)
  have g: "get_request 2 300 ?d1 = Inr ?r" by (simp add: get_request_def)
  have c: "remediation_constraints (reject_row 7 ''no'' 2000 ?r)"
    using reject_row_ok [OF proposal_ok] by (simp add: request_ok_def)
  have "\<exists>r2 d2. reject 2 300 7 ''no'' 2000 ?d1 = (Inr r2, d2)"
    using g flush_request_succeeds [OF kd u _ row_same(2) _ c] by (simp add: reject_def remediation_active_def)
  then obtain r2 d2 where rj: "reject 2 300 7 ''no'' 2000 ?d1 = (Inr r2, d2)" by blast
  have "active_request 60 sample_findings = None" "300 \<notin> rr_id ` set (remediation_requests sample_findings)"
    by (simp_all add: active_request_def none)
  with proposing_again [OF ok _ _ p, of 7 301 7 "''no''" 2000] rj p show ?thesis by blast
qed

end
