(* ===== verification/Remediation_Admin.thy ===== *)
theory Remediation_Admin
  imports Accounts Remediation
begin

text \<open>
  The owner-only administration of live remediation, \<^verbatim>\<open>app/services/remediation_admin.py\<close>:
  trust in a remediation role, sandbox approval of an account, and the preparation of an approved
  request for live execution. \<open>draws n\<close> is the token that the \<open>n\<close>-th call of
  \<^verbatim>\<open>secrets.token_urlsafe(32)\<close> returns.
\<close>

section \<open>Accounts under administration\<close>

definition LIVE_ACTIONS :: "string list" where
  "LIVE_ACTIONS = [''s3.enable_public_access_block'', ''ec2.revoke_approved_public_ingress'']"

definition require_account :: "uuid \<Rightarrow> uuid \<Rightarrow> db \<Rightarrow> exn + AWSAccount" where
  "require_account account_id actor d =
     (case aws_account_for_user account_id actor d of
        None \<Rightarrow> Inl (NotFoundError ''aws_account_not_found'')
      | Some (a, m) \<Rightarrow>
          if \<not> role_has_capability (m_role m) REMEDIATION_ADMIN then
            Inl (ForbiddenError ''remediation_admin_forbidden'')
          else Inr a)"

definition generate_external_id :: "string \<Rightarrow> string" where
  "generate_external_id token = ''cloudops-remediation-'' @ token"

definition external_id_taken :: "string \<Rightarrow> db \<Rightarrow> bool" where
  "external_id_taken candidate d =
     list_ex (\<lambda>a. acc_external_id a = candidate \<or> acc_remediation_external_id a = Some candidate) (aws_accounts d)"

definition new_external_id :: "(nat \<Rightarrow> string) \<Rightarrow> db \<Rightarrow> exn + string" where
  "new_external_id draws d =
     (case find (\<lambda>c. \<not> external_id_taken c d) (map (\<lambda>n. generate_external_id (draws n)) [0..<10]) of
        None \<Rightarrow> Inl (AppError ''external_id_generation_failed'' 500)
      | Some c \<Rightarrow> Inr c)"

definition revoke_approval :: "AWSAccount \<Rightarrow> AWSAccount" where
  "revoke_approval a =
     a\<lparr>acc_sandbox_approved := False, acc_sandbox_approved_at := None, acc_sandbox_approved_by_user_id := None\<rparr>"

definition trust_configured :: "AWSAccount \<Rightarrow> bool" where
  "trust_configured a = (\<not> unset (acc_remediation_role_arn a) \<and> \<not> unset (acc_remediation_external_id a))"

text \<open>The audit event and the commit of a changed account: the constraints of the table decide.\<close>

definition commit_account :: "string \<Rightarrow> uuid \<Rightarrow> AWSAccount \<Rightarrow> db \<Rightarrow> (db, AWSAccount) outcome" where
  "commit_account event_type actor a d =
     (let d' = record_audit event_type ''aws_account'' AuditResult.SUCCEEDED (Some (acc_organization_id a))
                 (Some actor) (Some (acc_id a)) (d\<lparr>aws_accounts := put_row acc_id a (aws_accounts d)\<rparr>)
      in if aws_account_sandbox_approval_complete a \<and> sandbox_approver_is_member a d \<and>
            aws_account_unique (aws_accounts d')
         then return a d' else raise (ConflictError ''remediation_admin_conflict'') d)"

definition configure_trust ::
    "(nat \<Rightarrow> string) \<Rightarrow> uuid \<Rightarrow> uuid \<Rightarrow> string \<Rightarrow> db \<Rightarrow> (db, AWSAccount \<times> string option) outcome" where
  "configure_trust draws account_id actor remediation_role_arn d =
     (case require_account account_id actor d of
        Inl e \<Rightarrow> raise e d
      | Inr a \<Rightarrow>
          let value = strip remediation_role_arn in
          (case REMEDIATION_ROLE_ARN_PATTERN value of
             None \<Rightarrow> raise (AppError ''remediation_role_invalid'' 422) d
           | Some (prefix, account, suffix) \<Rightarrow>
               if account \<noteq> acc_account_id a then raise (AppError ''remediation_role_account_mismatch'' 422) d
               else if acc_remediation_role_arn a = Some value \<and> \<not> unset (acc_remediation_external_id a) then
                 return (a, None) d
               else
                 (case new_external_id draws d of
                    Inl e \<Rightarrow> raise e d
                  | Inr external_id \<Rightarrow>
                      (case commit_account ''aws.account.remediation_trust_configured'' actor
                              (revoke_approval (a\<lparr>acc_remediation_role_arn := Some value,
                                                  acc_remediation_external_id := Some external_id\<rparr>)) d of
                         (Inl e, d') \<Rightarrow> raise e d'
                       | (Inr a', d') \<Rightarrow> return (a', Some external_id) d'))))"

definition rotate_external_id ::
    "(nat \<Rightarrow> string) \<Rightarrow> uuid \<Rightarrow> uuid \<Rightarrow> db \<Rightarrow> (db, AWSAccount \<times> string) outcome" where
  "rotate_external_id draws account_id actor d =
     (case require_account account_id actor d of
        Inl e \<Rightarrow> raise e d
      | Inr a \<Rightarrow>
          if \<not> trust_configured a then raise (ConflictError ''remediation_trust_not_configured'') d
          else
            (case new_external_id draws d of
               Inl e \<Rightarrow> raise e d
             | Inr external_id \<Rightarrow>
                 (case commit_account ''aws.account.remediation_external_id_rotated'' actor
                         (revoke_approval (a\<lparr>acc_remediation_external_id := Some external_id\<rparr>)) d of
                    (Inl e, d') \<Rightarrow> raise e d'
                  | (Inr a', d') \<Rightarrow> return (a', external_id) d')))"

definition clear_trust :: "uuid \<Rightarrow> uuid \<Rightarrow> db \<Rightarrow> (db, AWSAccount) outcome" where
  "clear_trust account_id actor d =
     (case require_account account_id actor d of
        Inl e \<Rightarrow> raise e d
      | Inr a \<Rightarrow>
          commit_account ''aws.account.remediation_trust_cleared'' actor
            (revoke_approval (a\<lparr>acc_remediation_role_arn := None, acc_remediation_external_id := None\<rparr>)) d)"

definition grant_sandbox_approval :: "uuid \<Rightarrow> uuid \<Rightarrow> instant \<Rightarrow> db \<Rightarrow> (db, AWSAccount) outcome" where
  "grant_sandbox_approval account_id actor now d =
     (case require_account account_id actor d of
        Inl e \<Rightarrow> raise e d
      | Inr a \<Rightarrow>
          if acc_sandbox_approved a then raise (ConflictError ''sandbox_already_approved'') d
          else if \<not> trust_configured a then raise (ConflictError ''sandbox_approval_prerequisite_missing'') d
          else if acc_connection_status a \<noteq> AWSAccountStatus.CONNECTED then
            raise (ConflictError ''sandbox_approval_prerequisite_missing'') d
          else
            commit_account ''aws.account.sandbox_approved'' actor
              (a\<lparr>acc_sandbox_approved := True, acc_sandbox_approved_at := Some now,
                 acc_sandbox_approved_by_user_id := Some actor\<rparr>) d)"

definition revoke_sandbox_approval :: "uuid \<Rightarrow> uuid \<Rightarrow> db \<Rightarrow> (db, AWSAccount) outcome" where
  "revoke_sandbox_approval account_id actor d =
     (case require_account account_id actor d of
        Inl e \<Rightarrow> raise e d
      | Inr a \<Rightarrow>
          if \<not> acc_sandbox_approved a then raise (ConflictError ''sandbox_not_approved'') d
          else commit_account ''aws.account.sandbox_approval_revoked'' actor (revoke_approval a) d)"

section \<open>Preparing a request for live execution\<close>

text \<open>The checks of the preparation, in the order of the code, and the target they find.\<close>

definition live_target ::
    "RemediationService \<Rightarrow> uuid \<Rightarrow> RemediationRequest \<Rightarrow> db \<Rightarrow> exn + (Finding \<times> Asset)" where
  "live_target sv organization_id r d =
     (let ineligible = Inl (ConflictError ''live_request_not_eligible'');
          calculated = hash_of sv (JDict (rr_request_snapshot_json r)) in
      if rr_status r \<noteq> RemediationStatus.APPROVED then ineligible
      else if calculated \<noteq> rr_request_snapshot_hash r \<or> rr_approved_snapshot_hash r \<noteq> Some calculated then ineligible
      else if rr_action_key r \<notin> set LIVE_ACTIONS then Inl (ConflictError ''remediation_action_not_supported'')
      else
        (case find (\<lambda>a. acc_id a = rr_aws_account_id r \<and> acc_organization_id a = organization_id) (aws_accounts d) of
           None \<Rightarrow> Inl (NotFoundError ''aws_account_not_found'')
         | Some account \<Rightarrow>
             if \<not> acc_sandbox_approved account \<or> acc_sandbox_approved_at account = None \<or>
                acc_sandbox_approved_by_user_id account = None \<or> \<not> trust_configured account then ineligible
             else
               (case find (\<lambda>f. f_id f = rr_finding_id r \<and> f_aws_account_id f = acc_id account \<and>
                               f_organization_id f = organization_id) (findings d) of
                  None \<Rightarrow> ineligible
                | Some finding \<Rightarrow>
                    if f_status finding \<noteq> FindingStatus.OPEN then ineligible
                    else if JStr (hash_of sv (f_evidence_json finding)) \<noteq>
                            dict_get ''finding_evidence_hash'' (rr_request_snapshot_json r) then ineligible
                    else if (case default_remediation_actions of
                               Inl e \<Rightarrow> None
                             | Inr reg \<Rightarrow> map_option ra_key (for_rule (f_rule_key finding) reg)) \<noteq> Some (rr_action_key r) then
                      Inl (ConflictError ''remediation_action_not_supported'')
                    else
                      (case f_asset_id finding of
                         None \<Rightarrow> ineligible
                       | Some asset_id \<Rightarrow>
                           (case find (\<lambda>a. as_id a = asset_id \<and> as_aws_account_id a = acc_id account \<and>
                                           as_organization_id a = organization_id) (assets d) of
                              None \<Rightarrow> ineligible
                            | Some asset \<Rightarrow> if unset (as_arn asset) then ineligible else Inr (finding, asset))))))"

definition live_snapshot :: "RemediationService \<Rightarrow> Asset \<Rightarrow> dict \<Rightarrow> dict" where
  "live_snapshot sv asset snapshot =
     fold (\<lambda>(k, v). dict_put k v)
       [(''execution_mode'', JStr (RemediationExecutionMode_value RemediationExecutionMode.LIVE_AWS)),
        (''executor_key'', JStr ''aws''), (''dry_run'', JBool False),
        (''target_region'', JStr (as_region asset)),
        (''target_resource_arn'', case as_arn asset of None \<Rightarrow> JNull | Some arn \<Rightarrow> JStr arn),
        (''asset_evidence_hash'', JStr (hash_of sv (JDict (as_metadata_json asset))))] snapshot"

definition live_row :: "RemediationService \<Rightarrow> uuid \<Rightarrow> Finding \<Rightarrow> Asset \<Rightarrow> RemediationRequest \<Rightarrow> RemediationRequest" where
  "live_row sv organization_id finding asset r =
     (let snapshot = live_snapshot sv asset (rr_request_snapshot_json r);
          snapshot_hash = hash_of sv (JDict snapshot)
      in r\<lparr>rr_execution_mode := RemediationExecutionMode.LIVE_AWS, rr_executor_key := Some ''aws'',
           rr_dry_run := False, rr_target_region := Some (as_region asset),
           rr_target_resource_arn := as_arn asset, rr_request_snapshot_json := snapshot,
           rr_request_snapshot_hash := snapshot_hash,
           rr_idempotency_key := idempotency_key_of sv organization_id (f_id finding) snapshot_hash,
           rr_preview_json := dict_put ''dry_run'' (JBool False) (rr_preview_json r),
           rr_status := RemediationStatus.PENDING_APPROVAL, rr_approved_at := None,
           rr_approved_by_user_id := None, rr_approved_snapshot_hash := None\<rparr>)"

text \<open>
  The trigger \<^verbatim>\<open>trg_remediation_request_snapshot_immutable\<close> that the migrations 0016 and 0017
  create on PostgreSQL, and that a database built from the models alone does not have
  (\<open>sv_snapshot_trigger\<close>): an update may not change these columns of a request. Of the
  operations on requests only the preparation changes any of them.
\<close>

definition snapshot_immutable :: "RemediationRequest \<Rightarrow> RemediationRequest \<Rightarrow> bool" where
  "snapshot_immutable old new =
     (rr_organization_id old = rr_organization_id new \<and> rr_aws_account_id old = rr_aws_account_id new \<and>
      rr_finding_id old = rr_finding_id new \<and> rr_rule_key old = rr_rule_key new \<and>
      rr_rule_version old = rr_rule_version new \<and> rr_action_key old = rr_action_key new \<and>
      rr_action_version old = rr_action_version new \<and> rr_idempotency_key old = rr_idempotency_key new \<and>
      rr_preview_json old = rr_preview_json new \<and> rr_request_snapshot_json old = rr_request_snapshot_json new \<and>
      rr_request_snapshot_hash old = rr_request_snapshot_hash new \<and>
      rr_execution_mode old = rr_execution_mode new \<and> rr_dry_run old = rr_dry_run new)"

definition flush_prepared :: "RemediationService \<Rightarrow> RemediationRequest \<Rightarrow> RemediationRequest \<Rightarrow> db \<Rightarrow> exn + db" where
  "flush_prepared sv old new d =
     (if sv_snapshot_trigger sv \<and> \<not> snapshot_immutable old new then Inl DatabaseError else flush_request new d)"

definition prepare_live_request ::
    "RemediationService \<Rightarrow> uuid \<Rightarrow> uuid \<Rightarrow> uuid \<Rightarrow> db \<Rightarrow> (db, RemediationRequest) outcome" where
  "prepare_live_request sv organization_id request_id actor d =
     (case require_member organization_id actor d of
        Inl e \<Rightarrow> raise e d
      | Inr m \<Rightarrow>
          if \<not> role_has_capability (m_role m) REMEDIATION_ADMIN then
            raise (ForbiddenError ''remediation_admin_forbidden'') d
          else
            (case get_request organization_id request_id d of
               Inl e \<Rightarrow> raise e d
             | Inr r \<Rightarrow>
                 (case live_target sv organization_id r d of
                    Inl e \<Rightarrow> raise e d
                  | Inr (finding, asset) \<Rightarrow>
                      (case flush_prepared sv r (live_row sv organization_id finding asset r) d of
                         Inl e \<Rightarrow> raise e d
                       | Inr d' \<Rightarrow>
                           return (live_row sv organization_id finding asset r)
                             (record_audit ''remediation.request.live_prepared'' ''remediation_request''
                                AuditResult.SUCCEEDED (Some organization_id) (Some actor) (Some (rr_id r)) d')))))"

section \<open>Lemmas\<close>

lemma live_row_fields [simp]:
  "rr_id (live_row sv org f a r) = rr_id r" "rr_organization_id (live_row sv org f a r) = rr_organization_id r"
  "rr_finding_id (live_row sv org f a r) = rr_finding_id r" "rr_attempt_count (live_row sv org f a r) = rr_attempt_count r"
  "rr_status (live_row sv org f a r) = RemediationStatus.PENDING_APPROVAL"
  "rr_execution_mode (live_row sv org f a r) = RemediationExecutionMode.LIVE_AWS"
  "rr_execution_lease_id (live_row sv org f a r) = rr_execution_lease_id r"
  "rr_aws_account_id (live_row sv org f a r) = rr_aws_account_id r"
  "rr_approved_by_user_id (live_row sv org f a r) = None"
  "rr_approved_snapshot_hash (live_row sv org f a r) = None" "\<not> rr_dry_run (live_row sv org f a r)"
  "rr_rule_key (live_row sv org f a r) = rr_rule_key r" "rr_action_key (live_row sv org f a r) = rr_action_key r"
  "rr_action_version (live_row sv org f a r) = rr_action_version r"
  by (simp_all add: live_row_def Let_def)

lemma live_row_ok:
  "request_ok r \<Longrightarrow> rr_status r = RemediationStatus.APPROVED \<Longrightarrow> request_ok (live_row sv org f a r)"
  by (auto simp: live_row_def request_rules Let_def)

lemma flush_prepared_Inr: "flush_prepared sv old new d = Inr d' \<Longrightarrow> flush_request new d = Inr d'"
  by (simp add: flush_prepared_def split: if_splits)

lemma live_target_approved: "live_target sv org r d = Inr fa \<Longrightarrow> rr_status r = RemediationStatus.APPROVED"
  by (auto simp: live_target_def Let_def split: if_splits)

end
