(* ===== verification/Remediation_System.thy ===== *)
theory Remediation_System
  imports Remediation_Admin
begin

text \<open>
  The remediation handlers, the worker's execution and the administration of accounts as one
  transition system over the database, with the invariants of its reachable states and the
  properties that span the two services.
\<close>

section \<open>What a request goes through\<close>

text \<open>
  The effect of a request of tenant \<open>org\<close> on the table of remediation requests: none, one open
  request of the tenant rewritten, or one added.
\<close>

definition request_effect :: "uuid \<Rightarrow> db \<Rightarrow> db \<Rightarrow> bool" where
  "request_effect org d d' =
     (remediation_requests d' = remediation_requests d \<or>
      (\<exists>r r'. r \<in> set (remediation_requests d) \<and> rr_organization_id r = org \<and> remediation_active r \<and>
         rr_id r' = rr_id r \<and> rr_organization_id r' = rr_organization_id r \<and> rr_finding_id r' = rr_finding_id r \<and>
         rr_attempt_count r \<le> rr_attempt_count r' \<and> request_ok r' \<and>
         remediation_requests d' = put_row rr_id r' (remediation_requests d) \<and>
         remediation_unique (remediation_requests d')) \<or>
      (\<exists>r. rr_organization_id r = org \<and> rr_id r \<notin> rr_id ` set (remediation_requests d) \<and> request_ok r \<and>
         remediation_requests d' = remediation_requests d @ [r] \<and> remediation_unique (remediation_requests d')))"

lemma request_effect_same: "remediation_requests d' = remediation_requests d \<Longrightarrow> request_effect org d d'"
  by (simp add: request_effect_def)

lemma request_effect_flush:
  assumes "requests_ok d" and "get_request org i d = Inr r" and "remediation_active r" and "request_ok r'"
    and "rr_id r' = rr_id r" and "rr_organization_id r' = rr_organization_id r" and "rr_finding_id r' = rr_finding_id r"
    and "rr_attempt_count r \<le> rr_attempt_count r'"
    and "flush_request r' d = Inr d1" and "remediation_requests d' = remediation_requests d1"
  shows "request_effect org d d'"
proof -
  note ok = requests_okD [OF assms(1,2)]
  have r: "r \<in> set (remediation_requests d)" using get_row_in [OF ok(3)] .
  from flush_request_frame [OF assms(9)] assms(10)
  have d': "remediation_requests d' = put_row rr_id r' (remediation_requests d)" "remediation_unique (remediation_requests d')"
    by auto
  show ?thesis
    unfolding request_effect_def
    by (intro disjI2 disjI1 exI [of _ r] exI [of _ r'] conjI) (use r ok d' assms in simp_all)
qed

lemma rows_finding [simp]:
  "rr_finding_id (approve_row u now r) = rr_finding_id r" "rr_attempt_count (approve_row u now r) = rr_attempt_count r"
  "rr_finding_id (reject_row u s now r) = rr_finding_id r" "rr_attempt_count (reject_row u s now r) = rr_attempt_count r"
  "rr_finding_id (cancel_row now r) = rr_finding_id r" "rr_attempt_count (cancel_row now r) = rr_attempt_count r"
  "rr_id (approve_row u now r) = rr_id r" "rr_organization_id (approve_row u now r) = rr_organization_id r"
  "rr_id (reject_row u s now r) = rr_id r" "rr_organization_id (reject_row u s now r) = rr_organization_id r"
  "rr_id (cancel_row now r) = rr_id r" "rr_organization_id (cancel_row now r) = rr_organization_id r"
  by (simp_all add: approve_row_def reject_row_def cancel_row_def)

lemma propose_effect:
  assumes "requests_ok d" and "i \<notin> rr_id ` set (remediation_requests d)"
  shows "request_effect org d (snd (propose_for_finding sv org f u i d))"
proof (cases "remediation_requests (snd (propose_for_finding sv org f u i d)) = remediation_requests d")
  case True
  then show ?thesis by (rule request_effect_same)
next
  case False
  then obtain fi where "remediation_requests (snd (propose_for_finding sv org f u i d)) =
        remediation_requests d @ [proposal sv org fi u i]"
      "remediation_unique (remediation_requests d @ [proposal sv org fi u i])"
    by (auto simp: propose_for_finding_def Let_def split: sum.splits if_splits option.splits)
  with assms(2) show ?thesis
    unfolding request_effect_def
    by (intro disjI2) (auto intro!: exI [of _ "proposal sv org fi u i"] proposal_ok)
qed

lemma approve_effect:
  assumes "requests_ok d"
  shows "request_effect org d (snd (approve sv org i u now d))"
proof (cases "remediation_requests (snd (approve sv org i u now d)) = remediation_requests d")
  case True
  then show ?thesis by (rule request_effect_same)
next
  case False
  then obtain r d1 where r: "get_request org i d = Inr r" "rr_status r = RemediationStatus.PENDING_APPROVAL"
      "flush_request (approve_row u now r) d = Inr d1"
      "remediation_requests (snd (approve sv org i u now d)) = remediation_requests d1"
    by (auto simp: approve_def split: sum.splits if_splits)
  show ?thesis
    by (rule request_effect_flush [OF assms r(1) _ _ _ _ _ _ r(3,4)])
      (use requests_okD(4) [OF assms r(1)] r(2) approve_row_ok in \<open>simp_all add: remediation_active_def\<close>)
qed

lemma reject_effect:
  assumes "requests_ok d"
  shows "request_effect org d (snd (reject org i u s now d))"
proof (cases "remediation_requests (snd (reject org i u s now d)) = remediation_requests d")
  case True
  then show ?thesis by (rule request_effect_same)
next
  case False
  then obtain r d1 where r: "get_request org i d = Inr r" "rr_status r = RemediationStatus.PENDING_APPROVAL"
      "flush_request (reject_row u s now r) d = Inr d1"
      "remediation_requests (snd (reject org i u s now d)) = remediation_requests d1"
    by (auto simp: reject_def split: sum.splits if_splits)
  show ?thesis
    by (rule request_effect_flush [OF assms r(1) _ _ _ _ _ _ r(3,4)])
      (use requests_okD(4) [OF assms r(1)] r(2) reject_row_ok in \<open>simp_all add: remediation_active_def\<close>)
qed

lemma cancel_request_effect:
  assumes "requests_ok d"
  shows "request_effect org d (snd (cancel_request org i u now d))"
proof (cases "remediation_requests (snd (cancel_request org i u now d)) = remediation_requests d")
  case True
  then show ?thesis by (rule request_effect_same)
next
  case False
  then obtain r d1 where r: "get_request org i d = Inr r" "remediation_active r"
      "flush_request (cancel_row now r) d = Inr d1"
      "remediation_requests (snd (cancel_request org i u now d)) = remediation_requests d1"
    by (auto simp: cancel_request_def remediation_active_def split: sum.splits if_splits)
  show ?thesis
    by (rule request_effect_flush [OF assms r(1,2) _ _ _ _ _ r(3,4)])
      (use requests_okD(4) [OF assms r(1)] r(2) cancel_row_ok in simp_all)
qed

lemma execute_effect:
  assumes "requests_ok d"
  shows "request_effect org d (snd (execute sv org i lease now d))"
proof (cases "fst (execute sv org i lease now d)")
  case (Inl e)
  then have "snd (execute sv org i lease now d) = d"
    by (auto simp: execute_def Let_def split: sum.splits prod.splits)
  then show ?thesis by (intro request_effect_same) simp
next
  case (Inr r')
  then obtain d' where x: "execute sv org i lease now d = (Inr r', d')" by (cases "execute sv org i lease now d") auto
  then obtain r finding executor ctx result r1 d1 where e: "get_request org i d = Inr r"
      "execution_preconditions sv org r d = Inr finding" "store_evidence lease result r = Inr r1"
      "r' = finish_execution result now r1" "flush_request r' d = Inr d1"
      "remediation_requests d' = remediation_requests d1"
    by (rule execute_cases)
  have st: "rr_status r = RemediationStatus.APPROVED" using execution_preconditions_Inr(1) [OF e(2)] .
  have "same_request r r'" unfolding e(4) by (rule finish_execution_same [OF e(3)])
  moreover have "rr_attempt_count r \<le> rr_attempt_count r'"
    using store_evidence_row(3) [OF e(3)] by (simp add: e(4) finish_execution_def)
  moreover have "request_ok r'"
    unfolding e(4) by (rule finish_execution_ok [OF requests_okD(4) [OF assms e(1)] st e(3)])
  ultimately have "request_effect org d d'"
    using request_effect_flush [OF assms e(1) _ _ _ _ _ _ e(5,6)] st
    by (simp add: same_request_def remediation_active_def)
  with x show ?thesis by simp
qed

lemma prepare_effect:
  assumes "requests_ok d"
  shows "request_effect org d (snd (prepare_live_request sv org i u d))"
proof (cases "remediation_requests (snd (prepare_live_request sv org i u d)) = remediation_requests d")
  case True
  then show ?thesis by (rule request_effect_same)
next
  case False
  then obtain r f a d1 where r: "get_request org i d = Inr r" "live_target sv org r d = Inr (f, a)"
      "flush_prepared sv r (live_row sv org f a r) d = Inr d1"
      "remediation_requests (snd (prepare_live_request sv org i u d)) = remediation_requests d1"
    by (auto simp: prepare_live_request_def split: sum.splits if_splits prod.splits)
  note st = live_target_approved [OF r(2)]
  show ?thesis
    by (rule request_effect_flush [OF assms r(1) _ _ _ _ _ _ flush_prepared_Inr [OF r(3)] r(4)])
      (use requests_okD(4) [OF assms r(1)] st live_row_ok in \<open>simp_all add: remediation_active_def\<close>)
qed

lemma guarded_effect:
  assumes "request_effect org d (snd (operation d))"
  shows "request_effect org d (snd (guarded org u cap operation d))"
  using assms by (auto simp: guarded_def request_effect_same split: sum.splits)

lemma enqueued_execution_effect:
  "remediation_requests (snd (execute_remediation org i u new c now d)) = remediation_requests d"
  "aws_accounts (snd (execute_remediation org i u new c now d)) = aws_accounts d"
  by (auto simp: execute_remediation_def guarded_def split: sum.splits prod.splits
      dest!: platform_queue.enq_frame)

lemma request_effect_ok:
  assumes "requests_ok d" and "request_effect org d d'"
  shows "requests_ok d'"
  using assms unfolding requests_ok_def request_effect_def
  by (auto simp: keys_distinct_snoc dest!: set_put_row)

section \<open>What an account goes through\<close>

definition account_ok :: "AWSAccount \<Rightarrow> bool" where
  "account_ok a =
     (aws_account_sandbox_approval_complete a \<and> (acc_sandbox_approved a \<longrightarrow> trust_configured a) \<and>
      (\<forall>v. acc_remediation_role_arn a = Some v \<longrightarrow>
         (\<exists>p suffix. REMEDIATION_ROLE_ARN_PATTERN v = Some (p, acc_account_id a, suffix))))"

definition accounts_ok :: "db \<Rightarrow> bool" where
  "accounts_ok d =
     (keys_distinct acc_id (aws_accounts d) \<and> aws_account_unique (aws_accounts d) \<and>
      (\<forall>a \<in> set (aws_accounts d). account_ok a))"

text \<open>
  An administrative request of user \<open>u\<close> leaves the accounts alone or rewrites one account of a
  tenant that \<open>u\<close> owns; approval comes only onto an unapproved, connected account whose trust it
  leaves unchanged.
\<close>

definition approval_step :: "uuid \<Rightarrow> AWSAccount \<Rightarrow> AWSAccount \<Rightarrow> bool" where
  "approval_step u a a' =
     (acc_sandbox_approved a' \<longrightarrow>
        \<not> acc_sandbox_approved a \<and> acc_sandbox_approved_by_user_id a' = Some u \<and>
        acc_connection_status a = AWSAccountStatus.CONNECTED \<and>
        acc_remediation_role_arn a' = acc_remediation_role_arn a \<and>
        acc_remediation_external_id a' = acc_remediation_external_id a)"

definition owner_of :: "uuid \<Rightarrow> uuid \<Rightarrow> db \<Rightarrow> bool" where
  "owner_of u org d = (\<exists>m \<in> set (memberships d). m_user_id m = u \<and> is_active_owner org m)"

definition account_effect :: "uuid \<Rightarrow> db \<Rightarrow> db \<Rightarrow> bool" where
  "account_effect u d d' =
     (aws_accounts d' = aws_accounts d \<or>
      (\<exists>a a'. a \<in> set (aws_accounts d) \<and> acc_id a' = acc_id a \<and>
         acc_organization_id a' = acc_organization_id a \<and> acc_account_id a' = acc_account_id a \<and>
         owner_of u (acc_organization_id a) d \<and> account_ok a' \<and> approval_step u a a' \<and>
         aws_accounts d' = put_row acc_id a' (aws_accounts d) \<and> aws_account_unique (aws_accounts d')))"

lemma require_account_Inr:
  assumes "require_account i u d = Inr a"
  shows "get_row acc_id i (aws_accounts d) = Some a" and "acc_id a = i" and "a \<in> set (aws_accounts d)"
    and "owner_of u (acc_organization_id a) d"
proof -
  from assms obtain m where m: "aws_account_for_user i u d = Some (a, m)" "m_role m = OrganizationRole.OWNER"
    by (auto simp: require_account_def split: option.splits if_splits)
  note row = aws_account_for_user_Some [OF m(1)]
  show "get_row acc_id i (aws_accounts d) = Some a" "acc_id a = i" "a \<in> set (aws_accounts d)"
    using row get_row_in by auto
  show "owner_of u (acc_organization_id a) d"
    using row m(2) by (auto simp: owner_of_def is_active_owner_def)
qed

lemma commit_account_effect:
  assumes "require_account i u d = Inr a" and "account_ok a'" and "approval_step u a a'"
    and "acc_id a' = acc_id a" and "acc_organization_id a' = acc_organization_id a"
    and "acc_account_id a' = acc_account_id a"
  shows "account_effect u d (snd (commit_account e u a' d))"
proof (cases "fst (commit_account e u a' d)")
  case (Inl x)
  then have "snd (commit_account e u a' d) = d" by (auto simp: commit_account_def Let_def split: if_splits)
  then show ?thesis by (simp add: account_effect_def)
next
  case (Inr x)
  then have "aws_accounts (snd (commit_account e u a' d)) = put_row acc_id a' (aws_accounts d)"
    "aws_account_unique (put_row acc_id a' (aws_accounts d))"
    by (auto simp: commit_account_def Let_def split: if_splits)
  with assms require_account_Inr [OF assms(1)] show ?thesis
    unfolding account_effect_def by (intro disjI2 exI [of _ a] exI [of _ a']) simp
qed

lemma account_effect_same: "aws_accounts d' = aws_accounts d \<Longrightarrow> account_effect u d d'"
  by (simp add: account_effect_def)

lemma revoke_approval_ok:
  assumes "\<forall>v. acc_remediation_role_arn a = Some v \<longrightarrow>
    (\<exists>p suffix. REMEDIATION_ROLE_ARN_PATTERN v = Some (p, acc_account_id a, suffix))"
  shows "account_ok (revoke_approval a)"
  using assms by (simp add: account_ok_def revoke_approval_def aws_account_sandbox_approval_complete_def)

lemma revoke_approval_fields [simp]:
  "acc_id (revoke_approval a) = acc_id a" "acc_organization_id (revoke_approval a) = acc_organization_id a"
  "acc_account_id (revoke_approval a) = acc_account_id a" "approval_step u b (revoke_approval a)"
  by (simp_all add: revoke_approval_def approval_step_def)

lemma account_okD: "accounts_ok d \<Longrightarrow> require_account i u d = Inr a \<Longrightarrow> account_ok a"
  using require_account_Inr(3) by (auto simp: accounts_ok_def)

lemma configure_effect: "account_effect u d (snd (configure_trust draws i u arn d))"
proof (cases "require_account i u d")
  case (Inl e)
  then show ?thesis by (simp add: configure_trust_def account_effect_same)
next
  case (Inr a)
  have "account_effect u d (snd (commit_account e u (revoke_approval (a\<lparr>acc_remediation_role_arn := Some (strip arn),
      acc_remediation_external_id := Some x\<rparr>)) d))"
    if "REMEDIATION_ROLE_ARN_PATTERN (strip arn) = Some (p, acc_account_id a, suffix)" for e p suffix x
    by (rule commit_account_effect [OF Inr revoke_approval_ok]) (use that in simp_all)
  with Inr show ?thesis
    by (auto simp: configure_trust_def Let_def account_effect_same split: option.splits sum.splits prod.splits)
      (metis snd_conv)+
qed

lemma rotate_effect:
  assumes "accounts_ok d"
  shows "account_effect u d (snd (rotate_external_id draws i u d))"
proof (cases "require_account i u d")
  case (Inl e)
  then show ?thesis by (simp add: rotate_external_id_def account_effect_same)
next
  case (Inr a)
  have "account_effect u d (snd (commit_account e u (revoke_approval (a\<lparr>acc_remediation_external_id := Some x\<rparr>)) d))"
    for e x
    by (rule commit_account_effect [OF Inr revoke_approval_ok])
      (use account_okD [OF assms Inr] in \<open>simp_all add: account_ok_def\<close>)
  with Inr show ?thesis
    by (auto simp: rotate_external_id_def account_effect_same split: sum.splits prod.splits) (metis snd_conv)+
qed

lemma clear_effect: "account_effect u d (snd (clear_trust i u d))"
proof (cases "require_account i u d")
  case (Inl e)
  then show ?thesis by (simp add: clear_trust_def account_effect_same)
next
  case (Inr a)
  have "account_effect u d (snd (commit_account e u (revoke_approval (a\<lparr>acc_remediation_role_arn := None,
      acc_remediation_external_id := None\<rparr>)) d))" for e
    by (rule commit_account_effect [OF Inr revoke_approval_ok]) simp_all
  with Inr show ?thesis by (simp add: clear_trust_def)
qed

lemma grant_effect:
  assumes "accounts_ok d"
  shows "account_effect u d (snd (grant_sandbox_approval i u now d))"
proof (cases "require_account i u d")
  case (Inl e)
  then show ?thesis by (simp add: grant_sandbox_approval_def account_effect_same)
next
  case (Inr a)
  let ?a = "a\<lparr>acc_sandbox_approved := True, acc_sandbox_approved_at := Some now,
    acc_sandbox_approved_by_user_id := Some u\<rparr>"
  have "account_effect u d (snd (commit_account e u ?a d))"
    if "\<not> acc_sandbox_approved a" "trust_configured a" "acc_connection_status a = AWSAccountStatus.CONNECTED" for e
    by (rule commit_account_effect [OF Inr])
      (use that account_okD [OF assms Inr] in \<open>simp_all add: account_ok_def approval_step_def
         aws_account_sandbox_approval_complete_def trust_configured_def\<close>)
  with Inr show ?thesis by (simp add: grant_sandbox_approval_def account_effect_same)
qed

lemma revoke_effect:
  assumes "accounts_ok d"
  shows "account_effect u d (snd (revoke_sandbox_approval i u d))"
proof (cases "require_account i u d")
  case (Inl e)
  then show ?thesis by (simp add: revoke_sandbox_approval_def account_effect_same)
next
  case (Inr a)
  have "account_effect u d (snd (commit_account e u (revoke_approval a) d))" for e
    by (rule commit_account_effect [OF Inr revoke_approval_ok])
      (use account_okD [OF assms Inr] in \<open>simp_all add: account_ok_def\<close>)
  with Inr show ?thesis by (simp add: revoke_sandbox_approval_def account_effect_same)
qed

lemma account_effect_ok:
  assumes "accounts_ok d" and "account_effect u d d'"
  shows "accounts_ok d'"
  using assms unfolding accounts_ok_def account_effect_def by (auto dest!: set_put_row)

section \<open>The system\<close>

text \<open>
  One step is a request to one of the handlers, an execution by the worker, or an administrative
  request, with arbitrary arguments; a proposal draws a fresh identifier.
\<close>

inductive remediation_step :: "db \<Rightarrow> db \<Rightarrow> bool" where
  step_propose: "i \<notin> rr_id ` set (remediation_requests d) \<Longrightarrow>
    remediation_step d (snd (propose_remediation sv org f u i d))"
| step_approve: "remediation_step d (snd (approve_remediation sv org i u now d))"
| step_reject: "remediation_step d (snd (reject_remediation org i u s now d))"
| step_cancel: "remediation_step d (snd (cancel_remediation org i u now d))"
| step_enqueue: "remediation_step d (snd (execute_remediation org i u new c now d))"
| step_execute: "remediation_step d (snd (execute sv org i lease now d))"
| step_prepare: "remediation_step d (snd (prepare_live_request sv org i u d))"
| step_configure: "remediation_step d (snd (configure_trust draws i u arn d))"
| step_rotate: "remediation_step d (snd (rotate_external_id draws i u d))"
| step_clear: "remediation_step d (snd (clear_trust i u d))"
| step_grant: "remediation_step d (snd (grant_sandbox_approval i u now d))"
| step_revoke: "remediation_step d (snd (revoke_sandbox_approval i u d))"

inductive_cases remediation_stepE: "remediation_step d d'"

definition system_ok :: "db \<Rightarrow> bool" where
  "system_ok d = (requests_ok d \<and> accounts_ok d)"

lemmas request_operations = propose_for_finding_def approve_def reject_def cancel_request_def execute_def
  prepare_live_request_def

lemma request_operations_accounts [simp]:
  "aws_accounts (snd (propose_for_finding sv org f u i d)) = aws_accounts d"
  "aws_accounts (snd (approve sv org i u now d)) = aws_accounts d"
  "aws_accounts (snd (reject org i u s now d)) = aws_accounts d"
  "aws_accounts (snd (cancel_request org i u now d)) = aws_accounts d"
  "aws_accounts (snd (execute sv org i lease now d)) = aws_accounts d"
  "aws_accounts (snd (prepare_live_request sv org i u d)) = aws_accounts d"
  by (auto simp: request_operations Let_def split: sum.splits option.splits prod.splits
      dest!: flush_prepared_Inr flush_request_frame)

lemma guarded_accounts [simp]:
  "aws_accounts (snd (operation d)) = aws_accounts d \<Longrightarrow>
     aws_accounts (snd (guarded org u cap operation d)) = aws_accounts d"
  by (simp add: guarded_def split: sum.splits)

lemma commit_account_requests [simp]: "remediation_requests (snd (commit_account e u a d)) = remediation_requests d"
  by (simp add: commit_account_def Let_def)

lemma commit_account_requestsD: "commit_account e u a d = (x, d') \<Longrightarrow> remediation_requests d' = remediation_requests d"
  using commit_account_requests [of e u a d] by simp

lemma administration_requests [simp]:
  "remediation_requests (snd (configure_trust draws i u arn d)) = remediation_requests d"
  "remediation_requests (snd (rotate_external_id draws i u d)) = remediation_requests d"
  "remediation_requests (snd (clear_trust i u d)) = remediation_requests d"
  "remediation_requests (snd (grant_sandbox_approval i u now d)) = remediation_requests d"
  "remediation_requests (snd (revoke_sandbox_approval i u d)) = remediation_requests d"
  by (auto simp: configure_trust_def rotate_external_id_def clear_trust_def grant_sandbox_approval_def
      revoke_sandbox_approval_def Let_def split: sum.splits option.splits prod.splits dest: commit_account_requestsD)

lemmas request_effects = propose_effect approve_effect reject_effect cancel_request_effect execute_effect prepare_effect

lemma handler_effects:
  assumes "requests_ok d"
  shows "i \<notin> rr_id ` set (remediation_requests d) \<Longrightarrow> request_effect org d (snd (propose_remediation sv org f u i d))"
    and "request_effect org d (snd (approve_remediation sv org q u now d))"
    and "request_effect org d (snd (reject_remediation org q u s now d))"
    and "request_effect org d (snd (cancel_remediation org q u now d))"
  unfolding propose_remediation_def approve_remediation_def reject_remediation_def cancel_remediation_def
  using assms by (auto intro: guarded_effect request_effects)

lemma handler_accounts [simp]:
  "aws_accounts (snd (propose_remediation sv org f u i d)) = aws_accounts d"
  "aws_accounts (snd (approve_remediation sv org q u now d)) = aws_accounts d"
  "aws_accounts (snd (reject_remediation org q u s now d)) = aws_accounts d"
  "aws_accounts (snd (cancel_remediation org q u now d)) = aws_accounts d"
  by (simp_all add: propose_remediation_def approve_remediation_def reject_remediation_def cancel_remediation_def)

lemma remediation_step_effect:
  assumes "remediation_step d d'" and "system_ok d"
  shows "(\<exists>org. request_effect org d d') \<and> aws_accounts d' = aws_accounts d \<or>
    (\<exists>u. account_effect u d d') \<and> remediation_requests d' = remediation_requests d"
proof -
  have ok: "requests_ok d" "accounts_ok d" using assms(2) by (simp_all add: system_ok_def)
  note request = handler_effects [OF ok(1)] execute_effect [OF ok(1)] prepare_effect [OF ok(1)]
  note account = configure_effect rotate_effect [OF ok(2)] clear_effect grant_effect [OF ok(2)] revoke_effect [OF ok(2)]
  have enqueue: "request_effect org d (snd (execute_remediation org i u new c now d))" for org i u new c now
    by (simp add: enqueued_execution_effect request_effect_same)
  from assms(1) show ?thesis
    by (elim remediation_stepE; hypsubst) (simp add: enqueued_execution_effect, blast intro: enqueue request account)+
qed

lemma remediation_step_ok: "remediation_step d d' \<Longrightarrow> system_ok d \<Longrightarrow> system_ok d'"
proof -
  assume st: "remediation_step d d'" and ok: "system_ok d"
  then have ok2: "requests_ok d" "accounts_ok d" by (simp_all add: system_ok_def)
  from remediation_step_effect [OF st ok] show "system_ok d'"
  proof
    assume "(\<exists>org. request_effect org d d') \<and> aws_accounts d' = aws_accounts d"
    with ok2 request_effect_ok show ?thesis by (auto simp: system_ok_def accounts_ok_def)
  next
    assume "(\<exists>u. account_effect u d d') \<and> remediation_requests d' = remediation_requests d"
    with ok2 account_effect_ok show ?thesis by (auto simp: system_ok_def requests_ok_def)
  qed
qed

interpretation remediation_system: transition_system remediation_step system_ok
  by unfold_locales (rule remediation_step_ok)

text \<open>What remains of a request that was stored once.\<close>

definition request_persists :: "RemediationRequest \<Rightarrow> db \<Rightarrow> bool" where
  "request_persists r d =
     (system_ok d \<and>
      (\<exists>r' \<in> set (remediation_requests d). rr_id r' = rr_id r \<and> rr_organization_id r' = rr_organization_id r \<and>
         rr_finding_id r' = rr_finding_id r \<and> rr_attempt_count r \<le> rr_attempt_count r' \<and>
         rr_attempt_count r' \<le> MAX_EXECUTION_ATTEMPTS \<and> (\<not> remediation_active r \<longrightarrow> r' = r)))"

lemma request_ok_attempts: "request_ok r \<Longrightarrow> rr_attempt_count r \<le> MAX_EXECUTION_ATTEMPTS"
  by (simp add: request_ok_def remediation_constraints_def MAX_EXECUTION_ATTEMPTS_def)

lemma request_persists_step:
  assumes st: "remediation_step d d'" and inv: "request_persists r d"
  shows "request_persists r d'"
proof -
  from inv obtain k where k: "k \<in> set (remediation_requests d)" "rr_id k = rr_id r"
      "rr_organization_id k = rr_organization_id r" "rr_finding_id k = rr_finding_id r"
      "rr_attempt_count r \<le> rr_attempt_count k" "rr_attempt_count k \<le> MAX_EXECUTION_ATTEMPTS"
      "\<not> remediation_active r \<longrightarrow> k = r" and ok: "system_ok d" unfolding request_persists_def by blast
  have ok': "system_ok d'" by (rule remediation_step_ok [OF st ok])
  have kd: "keys_distinct rr_id (remediation_requests d)" using ok by (simp add: system_ok_def requests_ok_def)
  have stay: ?thesis if "k \<in> set (remediation_requests d')"
    using that k ok' unfolding request_persists_def by blast
  have "request_effect org d d' \<Longrightarrow> request_persists r d'" for org
    unfolding request_effect_def
  proof (elim disjE exE conjE)
    fix x x'
    assume x: "x \<in> set (remediation_requests d)" "remediation_active x" "rr_id x' = rr_id x"
      "rr_organization_id x' = rr_organization_id x" "rr_finding_id x' = rr_finding_id x"
      "rr_attempt_count x \<le> rr_attempt_count x'" "request_ok x'"
      "remediation_requests d' = put_row rr_id x' (remediation_requests d)"
    show ?thesis
    proof (cases "rr_id k = rr_id x")
      case True
      with kd k(1) x(1) have "k = x"
        by (metis get_row_distinct option.inject)
      moreover have "x' \<in> set (remediation_requests d')"
        unfolding x(8) by (rule in_put_row_same [OF x(1)]) (simp add: x(3))
      ultimately show ?thesis
        using x k ok' request_ok_attempts [OF x(7)] unfolding request_persists_def
        by (intro conjI bexI [of _ x']) auto
    next
      case False
      with x k(1) show ?thesis by (intro stay) (auto intro: in_put_row_other)
    qed
  qed (use k(1) stay in auto)
  with remediation_step_effect [OF st ok] stay k(1) show ?thesis by auto
qed

interpretation request_life: transition_system remediation_step "request_persists r" for r
  by unfold_locales (rule request_persists_step)

section \<open>Lemmas on live preparation\<close>

lemma live_snapshot_get [simp]:
  "dict_get ''finding_evidence_hash'' (live_snapshot sv a s) = dict_get ''finding_evidence_hash'' s"
  "dict_get ''asset_id'' (live_snapshot sv a s) = dict_get ''asset_id'' s"
  "dict_get ''asset_evidence_hash'' (live_snapshot sv a s) = JStr (hash_of sv (JDict (as_metadata_json a)))"
  by (simp_all add: live_snapshot_def dict_get_def)

lemma live_row_target [simp]:
  "rr_target_region (live_row sv org f a r) = Some (as_region a)"
  "rr_target_resource_arn (live_row sv org f a r) = as_arn a" "rr_executor_key (live_row sv org f a r) = Some ''aws''"
  "rr_request_snapshot_json (live_row sv org f a r) = live_snapshot sv a (rr_request_snapshot_json r)"
  "rr_request_snapshot_hash (live_row sv org f a r) = hash_of sv (JDict (live_snapshot sv a (rr_request_snapshot_json r)))"
  by (simp_all add: live_row_def Let_def)

lemma live_target_Inr:
  assumes "live_target sv org r d = Inr (finding, asset)"
  obtains account where
    "find (\<lambda>a. acc_id a = rr_aws_account_id r \<and> acc_organization_id a = org) (aws_accounts d) = Some account"
    "acc_sandbox_approved account" "acc_sandbox_approved_at account \<noteq> None"
    "acc_sandbox_approved_by_user_id account \<noteq> None" "trust_configured account"
    "find (\<lambda>f. f_id f = rr_finding_id r \<and> f_aws_account_id f = acc_id account \<and> f_organization_id f = org)
       (findings d) = Some finding"
    "f_asset_id finding = Some (as_id asset)"
    "find (\<lambda>a. as_id a = as_id asset \<and> as_aws_account_id a = acc_id account \<and> as_organization_id a = org)
       (assets d) = Some asset"
  using assms by (auto simp: live_target_def Let_def split: if_splits option.splits dest: find_mem)

lemma prepare_live_Inr:
  assumes "prepare_live_request sv org i u d = (Inr r1, d1)"
  obtains r finding asset m where "m \<in> set (memberships d)" "m_organization_id m = org" "m_user_id m = u"
    "m_status m = MembershipStatus.ACTIVE" "m_role m = OrganizationRole.OWNER"
    "get_request org i d = Inr r" "live_target sv org r d = Inr (finding, asset)" "r1 = live_row sv org finding asset r"
    "remediation_requests d1 = put_row rr_id r1 (remediation_requests d)" "findings d1 = findings d"
    "aws_accounts d1 = aws_accounts d" "assets d1 = assets d"
  using assms
  by (auto simp: prepare_live_request_def require_member_def split: sum.splits option.splits if_splits prod.splits
      dest!: flush_prepared_Inr flush_request_frame active_membership_Some)

lemma approve_Inr:
  assumes "approve sv org i u now d = (Inr r', d')" and "get_request org i d = Inr r"
    and "rr_status r = RemediationStatus.PENDING_APPROVAL"
  shows "r' = approve_row u now r \<and> remediation_requests d' = put_row rr_id r' (remediation_requests d) \<and>
    findings d' = findings d \<and> aws_accounts d' = aws_accounts d \<and> assets d' = assets d"
  using assms by (auto simp: approve_def split: sum.splits if_splits dest!: flush_request_frame)

lemma get_request_put:
  assumes "keys_distinct rr_id (remediation_requests d)" and "get_request org i d = Inr r"
    and "remediation_requests d' = put_row rr_id r' (remediation_requests d)" and "rr_id r' = i"
    and "rr_organization_id r' = org"
  shows "get_request org i d' = Inr r'"
proof -
  have "get_row rr_id i (remediation_requests d') = Some r'"
    using get_request_row(1) [OF assms(1,2)] assms(3,4) by (simp add: get_put_row)
  with get_request_get_row [of d' i r'] assms(1,3,5) show ?thesis by simp
qed

text \<open>The approval of a prepared request passes the preconditions its predecessor passed.\<close>

lemma approved_live_preconditions:
  assumes "execution_preconditions sv org r d = Inr finding" and "findings d' = findings d"
  shows "execution_preconditions sv org (approve_row u now (live_row sv org f a r)) d' = Inr finding"
  using assms by (auto simp: execution_preconditions_def approve_row_def get_finding_def
      split: if_splits option.splits sum.splits)

lemma approved_live_choice:
  assumes "live_target sv org r d = Inr (finding, asset)"
    and "aws_accounts d' = aws_accounts d" and "assets d' = assets d"
    and "dict_get ''asset_id'' (rr_request_snapshot_json r) = JStr (uuid_str (as_id asset))"
    and "remediation_live_aws_enabled (sv_settings sv)" and "\<not> remediation_emergency_stop (sv_settings sv)"
    and "ex_key (sv_live_executor sv) = ''aws''"
  shows "if rr_execution_lease_id r \<in> {None, Some lease}
    then \<exists>ctx. choose_executor sv org lease (approve_row u now (live_row sv org finding asset r)) finding d' =
      Inr (sv_live_executor sv, Some ctx)
    else choose_executor sv org lease (approve_row u now (live_row sv org finding asset r)) finding d' =
      Inl (ConflictError ''remediation_execution_lease_mismatch'')"
proof -
  from assms(1) obtain account where
    "find (\<lambda>a. acc_id a = rr_aws_account_id r \<and> acc_organization_id a = org) (aws_accounts d) = Some account"
    "acc_sandbox_approved account" "acc_sandbox_approved_at account \<noteq> None"
    "acc_sandbox_approved_by_user_id account \<noteq> None" "trust_configured account"
    "f_asset_id finding = Some (as_id asset)"
    "find (\<lambda>a. as_id a = as_id asset \<and> as_aws_account_id a = acc_id account \<and> as_organization_id a = org)
       (assets d) = Some asset"
    by (rule live_target_Inr)
  with assms(2-7) show ?thesis
    by (auto simp: choose_executor_def live_execution_context_def approve_row_def trust_configured_def)
qed

section \<open>A sample system\<close>

definition sample_account :: AWSAccount where
  "sample_account =
     \<lparr>acc_id = 3, acc_organization_id = 2, acc_name = ''sandbox'', acc_account_id = ''123456789012'',
      acc_role_arn = None, acc_external_id = ''ext'',
      acc_remediation_role_arn = Some ''arn:aws:iam::123456789012:role/fix'',
      acc_remediation_external_id = Some ''rem'', acc_sandbox_approved = True, acc_sandbox_approved_at = Some 5,
      acc_sandbox_approved_by_user_id = Some 7, acc_status = AWSAccountStatus.CONNECTED,
      acc_connection_status = AWSAccountStatus.CONNECTED, acc_failure_reason = None, acc_last_validated_at = Some 4,
      acc_validation_token = None, acc_validation_started_at = None, acc_lifecycle_version = 1,
      acc_created_by_user_id = 7\<rparr>"

definition live_finding :: Finding where
  "live_finding = sample_finding\<lparr>f_rule_key := ''S3_BUCKET_PUBLIC_ACCESS_BLOCK_INCOMPLETE''\<rparr>"

definition live_service :: RemediationService where
  "live_service = sample_service\<lparr>
     sv_action_registry :=
       \<lparr>by_key = [(''s3.enable_public_access_block'', DEFAULT_REMEDIATION_ACTIONS ! 0)],
        by_rule = [(''S3_BUCKET_PUBLIC_ACCESS_BLOCK_INCOMPLETE'', DEFAULT_REMEDIATION_ACTIONS ! 0)]\<rparr>,
     sv_settings := \<lparr>remediation_execution_enabled = True, remediation_live_aws_enabled = True,
       remediation_emergency_stop = False\<rparr>,
     sv_live_executor := (MockRemediationExecutor ''success'' 0)\<lparr>ex_key := ''aws''\<rparr>\<rparr>"

definition live_approved :: RemediationRequest where
  "live_approved = approve_row 7 1000 (proposal live_service 2 live_finding 7 300)"

definition live_db :: db where
  "live_db = sample_org\<lparr>findings := [live_finding], aws_accounts := [sample_account],
     assets := [sample_bucket\<lparr>as_arn := Some ''arn:aws:s3:::bucket''\<rparr>], remediation_requests := [live_approved]\<rparr>"

lemma live_hash [simp]: "hash_of live_service v = ''digest''"
  by (simp add: hash_of_def json_hash_def live_service_def sample_service_def)

lemma live_approved_ok: "request_ok live_approved"
  unfolding live_approved_def by (rule approve_row_ok [OF proposal_ok]) simp

lemma sample_account_ok: "account_ok sample_account"
proof -
  have "REMEDIATION_ROLE_ARN_PATTERN ''arn:aws:iam::123456789012:role/fix'' =
      Some (''arn:aws:iam::'', ''123456789012'', '':role/fix'')"
    by (simp add: REMEDIATION_ROLE_ARN_PATTERN_def arn_prefixes_def split_role_def is_digit_def is_role_char_def)
  then show ?thesis
    by (simp add: account_ok_def sample_account_def aws_account_sandbox_approval_complete_def trust_configured_def
        unset_def)
qed

lemma live_db_ok: "system_ok live_db"
  using live_approved_ok sample_account_ok
  by (simp add: system_ok_def requests_ok_def accounts_ok_def live_db_def remediation_unique_def
      aws_account_unique_def)

lemma live_get: "get_request 2 300 live_db = Inr live_approved"
  by (simp add: get_request_def live_db_def live_approved_def)

lemma live_preconditions: "execution_preconditions live_service 2 live_approved live_db = Inr live_finding"
  by (simp add: execution_preconditions_def live_approved_def approve_row_def proposal_def Let_def
      proposal_snapshot_def dict_get_def get_finding_def live_db_def)
    (simp add: live_service_def live_finding_def sample_finding_def for_rule_def get_action_def
      DEFAULT_REMEDIATION_ACTIONS_def)

abbreviation live_asset :: Asset where
  "live_asset \<equiv> sample_bucket\<lparr>as_arn := Some ''arn:aws:s3:::bucket''\<rparr>"

lemma live_action:
  "(case default_remediation_actions of Inl e \<Rightarrow> None
    | Inr reg \<Rightarrow> map_option ra_key (for_rule (f_rule_key live_finding) reg)) =
   Some ''s3.enable_public_access_block''"
  by (simp add: live_finding_def default_remediation_actions_def action_registry_def DEFAULT_REMEDIATION_ACTIONS_def dict_of_def
      for_rule_def Let_def)

lemma live_approved_snapshot:
  "rr_request_snapshot_hash live_approved = ''digest''" "rr_approved_snapshot_hash live_approved = Some ''digest''"
  "rr_action_key live_approved = ''s3.enable_public_access_block''" "rr_aws_account_id live_approved = 3"
  "rr_finding_id live_approved = 60" "rr_status live_approved = RemediationStatus.APPROVED"
  "rr_execution_lease_id live_approved = None" "rr_id live_approved = 300" "rr_organization_id live_approved = 2"
  "dict_get ''finding_evidence_hash'' (rr_request_snapshot_json live_approved) = JStr ''digest''"
  "dict_get ''asset_id'' (rr_request_snapshot_json live_approved) = JStr (uuid_str 50)"
  by (simp_all add: live_approved_def approve_row_def proposal_def proposal_snapshot_def dict_get_def Let_def)
    (simp_all add: live_service_def live_finding_def sample_finding_def for_rule_def DEFAULT_REMEDIATION_ACTIONS_def)

lemma live_target_sample: "live_target live_service 2 live_approved live_db = Inr (live_finding, live_asset)"
proof -
  have d: "findings live_db = [live_finding]" "aws_accounts live_db = [sample_account]" "assets live_db = [live_asset]"
    by (simp_all add: live_db_def)
  have f: "f_id live_finding = 60" "f_aws_account_id live_finding = 3" "f_organization_id live_finding = 2"
      "f_status live_finding = FindingStatus.OPEN" "f_asset_id live_finding = Some 50"
    by (simp_all add: live_finding_def sample_finding_def)
  have a: "acc_id sample_account = 3" "acc_organization_id sample_account = 2" "acc_sandbox_approved sample_account"
      "acc_sandbox_approved_at sample_account = Some 5" "acc_sandbox_approved_by_user_id sample_account = Some 7"
      "trust_configured sample_account"
    by (simp_all add: sample_account_def trust_configured_def unset_def)
  have b: "as_id live_asset = 50" "as_aws_account_id live_asset = 3" "as_organization_id live_asset = 2"
      "\<not> unset (Some ''arn:aws:s3:::bucket'')"
    by (simp_all add: sample_bucket_def unset_def)
  show ?thesis
    by (simp add: live_target_def Let_def live_approved_snapshot LIVE_ACTIONS_def d f a b live_action)
qed

lemma live_prepared:
  obtains d1 r2 d2 where
    "prepare_live_request live_service 2 300 7 live_db =
       (Inr (live_row live_service 2 live_finding live_asset live_approved), d1)"
    "approve live_service 2 300 7 2000 d1 = (Inr r2, d2)"
proof -
  let ?r1 = "live_row live_service 2 live_finding live_asset live_approved"
  have st: "rr_status live_approved = RemediationStatus.APPROVED" by (rule live_approved_snapshot)
  have ok: "request_ok ?r1" by (rule live_row_ok [OF live_approved_ok st])
  have rq: "remediation_requests live_db = [live_approved]" by (simp add: live_db_def)
  have flush: "flush_request ?r1 live_db = Inr (live_db\<lparr>remediation_requests := [?r1]\<rparr>)"
    using ok rq by (simp add: flush_request_def request_ok_def remediation_unique_def)
  have member: "require_member 2 7 live_db = Inr \<lparr>m_id = 10, m_organization_id = 2, m_user_id = 7,
      m_role = OrganizationRole.OWNER, m_status = MembershipStatus.ACTIVE, m_invited_by_user_id = None,
      m_joined_at = Some 0\<rparr>"
    by (simp add: require_member_def active_membership_def live_db_def sample_org_def)
  obtain d1 where d1: "prepare_live_request live_service 2 300 7 live_db = (Inr ?r1, d1)"
      "remediation_requests d1 = [?r1]"
    using member live_get live_target_sample flush
    by (auto simp: prepare_live_request_def flush_prepared_def live_service_def sample_service_def)
  have g: "get_request 2 300 d1 = Inr ?r1"
    by (simp add: get_request_def d1(2) live_approved_snapshot)
  have "request_ok (approve_row 7 2000 ?r1)" by (rule approve_row_ok [OF ok]) simp
  then have "\<exists>r2 d2. approve live_service 2 300 7 2000 d1 = (Inr r2, d2)"
    using g d1(2) by (simp add: approve_def flush_request_def request_ok_def remediation_unique_def)
  with d1(1) that show ?thesis by blast
qed

section \<open>Properties\<close>

text \<open>
  C14. Remediation requests have a history that nothing rewrites: whatever sequence of handlers,
  executions and administrative requests runs, the table keeps its constraints and indexes, a
  request once stored keeps its tenant and finding, its attempts only grow and never exceed
  three, and a closed request never changes again.
\<close>

theorem remediation_history:
  assumes "system_ok d" and "remediation_step\<^sup>*\<^sup>* d d'" and "r \<in> set (remediation_requests d)"
  shows "requests_ok d' \<and>
    (\<exists>r' \<in> set (remediation_requests d'). rr_id r' = rr_id r \<and> rr_organization_id r' = rr_organization_id r \<and>
       rr_finding_id r' = rr_finding_id r \<and> rr_attempt_count r \<le> rr_attempt_count r' \<and> rr_attempt_count r' \<le> 3 \<and>
       (rr_status r \<in> {RemediationStatus.REJECTED, RemediationStatus.CANCELLED, RemediationStatus.SUCCEEDED,
          RemediationStatus.FAILED} \<longrightarrow> r' = r))"
proof -
  have "request_persists r d"
    using assms(1,3) request_ok_attempts by (auto simp: request_persists_def system_ok_def requests_ok_def)
  from request_life.inv_reachable [OF assms(2) this] show ?thesis
    unfolding request_persists_def system_ok_def remediation_active_def MAX_EXECUTION_ATTEMPTS_def by fastforce
qed

theorem remediation_history_witness:
  "\<exists>d' r'. d' = snd (cancel_remediation 2 300 7 2000 live_db) \<and> r' \<in> set (remediation_requests d') \<and>
     rr_id r' = 300 \<and> rr_attempt_count r' \<le> 3"
proof -
  let ?d = "snd (cancel_remediation 2 300 7 2000 live_db)"
  have "remediation_step\<^sup>*\<^sup>* live_db ?d" by (intro r_into_rtranclp step_cancel)
  moreover have "live_approved \<in> set (remediation_requests live_db)" by (simp add: live_db_def)
  moreover have "rr_id live_approved = 300" by (simp add: live_approved_def)
  ultimately show ?thesis using remediation_history [OF live_db_ok, of ?d live_approved] by auto
qed

text \<open>
  On a migrated PostgreSQL database no request is ever prepared for live execution: the update of
  a dry run violates the immutability of its snapshot, whatever the state, and an owner whose
  request passes every check of the preparation gets the unhandled error of the database.
\<close>

theorem migrated_database_refuses_live:
  assumes "sv_snapshot_trigger sv" and "get_request org i d = Inr r" and "rr_dry_run r"
  shows "(\<exists>e. prepare_live_request sv org i u d = raise e d) \<and>
    (\<forall>m finding asset. require_member org u d = Inr m \<and> m_role m = OrganizationRole.OWNER \<and>
       live_target sv org r d = Inr (finding, asset) \<longrightarrow> prepare_live_request sv org i u d = raise DatabaseError d)"
proof -
  have flush: "flush_prepared sv r (live_row sv org f a r) d = Inl DatabaseError" for f a
    using assms(1,3) by (simp add: flush_prepared_def snapshot_immutable_def)
  then show ?thesis
    using assms(2) by (auto simp: prepare_live_request_def split: sum.splits)
qed

text \<open>
  A live execution needs a second approval, and a stale lease blocks it: preparing a request
  for live execution is reserved to an owner and takes its approval back, so that no execution
  runs until it is approved again. When it was executable before and is approved again, it passes
  the preconditions with the same finding and the live executor is chosen for it, but only under
  the lease of its earlier execution if it had one: the preparation keeps that lease, and every
  other lease is refused.
\<close>

theorem live_preparation:
  assumes "system_ok d" and "keys_distinct f_id (findings d)" and "get_request org i d = Inr r"
    and "execution_preconditions sv org r d = Inr finding"
    and "\<forall>a. f_asset_id finding = Some a \<longrightarrow>
      dict_get ''asset_id'' (rr_request_snapshot_json r) = JStr (uuid_str a)"
    and "prepare_live_request sv org i owner d = (Inr r1, d1)"
    and "approve sv org i u now d1 = (Inr r2, d2)"
    and "remediation_live_aws_enabled (sv_settings sv)" and "\<not> remediation_emergency_stop (sv_settings sv)"
    and "ex_key (sv_live_executor sv) = ''aws''"
  shows "(\<exists>m \<in> set (memberships d). m_user_id m = owner \<and> is_active_owner org m) \<and>
    (\<forall>sv' lease t. execute sv' org i lease t d1 = raise (ConflictError ''remediation_invalid_transition'') d1) \<and>
    execution_preconditions sv org r2 d2 = Inr finding \<and>
    (\<forall>lease t. if rr_execution_lease_id r \<in> {None, Some lease}
       then \<exists>ctx. choose_executor sv org lease r2 finding d2 = Inr (sv_live_executor sv, Some ctx)
       else execute sv org i lease t d2 = raise (ConflictError ''remediation_execution_lease_mismatch'') d2)"
proof -
  have rq: "requests_ok d" using assms(1) by (simp add: system_ok_def)
  note ok = requests_okD [OF rq assms(3)]
  obtain r0 f a m where p: "m \<in> set (memberships d)" "m_organization_id m = org" "m_user_id m = owner"
      "m_status m = MembershipStatus.ACTIVE" "m_role m = OrganizationRole.OWNER"
      "get_request org i d = Inr r0" "live_target sv org r0 d = Inr (f, a)" "r1 = live_row sv org f a r0"
      "remediation_requests d1 = put_row rr_id r1 (remediation_requests d)" "findings d1 = findings d"
      "aws_accounts d1 = aws_accounts d" "assets d1 = assets d"
    by (rule prepare_live_Inr [OF assms(6)])
  have r0: "r0 = r" using p(6) assms(3) by simp
  have f: "f = finding"
  proof -
    have "f \<in> set (findings d)" "f_id f = rr_finding_id r"
      using p(7) unfolding r0 by (auto elim!: live_target_Inr dest!: find_mem)
    moreover have "finding \<in> set (findings d)" "f_id finding = rr_finding_id r"
      using execution_preconditions_Inr(7) [OF assms(4)] get_finding_mem by auto
    ultimately show ?thesis using get_row_distinct [OF assms(2)] by (metis option.inject)
  qed
  have r1: "r1 = live_row sv org finding a r" using p(8) by (simp add: r0 f)
  have g1: "get_request org i d1 = Inr r1"
    by (rule get_request_put [OF ok(1) assms(3) p(9)]) (simp_all add: r1 ok)
  have kd1: "keys_distinct rr_id (remediation_requests d1)" using ok(1) by (simp add: p(9))
  have r2: "r2 = approve_row u now r1 \<and> remediation_requests d2 = put_row rr_id r2 (remediation_requests d1) \<and>
      findings d2 = findings d1 \<and> aws_accounts d2 = aws_accounts d1 \<and> assets d2 = assets d1"
    by (rule approve_Inr [OF assms(7) g1]) (simp add: r1)
  have g2: "get_request org i d2 = Inr r2"
    by (rule get_request_put [OF kd1 g1]) (use r2 in \<open>simp_all add: r1 ok\<close>)
  have asset: "f_asset_id finding = Some (as_id a)" using p(7) unfolding r0 f by (auto elim: live_target_Inr)
  have pre: "execution_preconditions sv org r2 d2 = Inr finding"
    using approved_live_preconditions [OF assms(4)] r2 p(10) by (simp add: r1)
  have choice: "if rr_execution_lease_id r \<in> {None, Some lease}
      then \<exists>ctx. choose_executor sv org lease r2 finding d2 = Inr (sv_live_executor sv, Some ctx)
      else choose_executor sv org lease r2 finding d2 = Inl (ConflictError ''remediation_execution_lease_mismatch'')"
    for lease
    using approved_live_choice [OF p(7) [unfolded r0 f], of d2 lease] r2 p(11,12) assms(5,8,9,10) asset
    by (simp add: r1)
  have "execute sv' org i lease t d1 = raise (ConflictError ''remediation_invalid_transition'') d1" for sv' lease t
    by (simp add: execute_def g1 execution_preconditions_def r1)
  moreover have "execute sv org i lease t d2 = raise (ConflictError ''remediation_execution_lease_mismatch'') d2"
    if "rr_execution_lease_id r \<notin> {None, Some lease}" for lease t
    using choice [of lease] that by (simp add: execute_def g2 pre)
  ultimately show ?thesis
    using pre choice p(1-5) by (auto simp: is_active_owner_def)
qed

theorem live_preparation_witness:
  "\<exists>r1 d1 r2 d2 ctx. prepare_live_request live_service 2 300 7 live_db = (Inr r1, d1) \<and>
     approve live_service 2 300 7 2000 d1 = (Inr r2, d2) \<and>
     choose_executor live_service 2 9 r2 live_finding d2 = Inr (sv_live_executor live_service, Some ctx)"
proof -
  obtain d1 r2 d2 where p: "prepare_live_request live_service 2 300 7 live_db =
       (Inr (live_row live_service 2 live_finding live_asset live_approved), d1)"
    "approve live_service 2 300 7 2000 d1 = (Inr r2, d2)"
    by (rule live_prepared)
  have kd: "keys_distinct f_id (findings live_db)" by (simp add: live_db_def)
  have asset: "\<forall>a. f_asset_id live_finding = Some a \<longrightarrow>
      dict_get ''asset_id'' (rr_request_snapshot_json live_approved) = JStr (uuid_str a)"
    by (simp add: live_approved_snapshot live_finding_def sample_finding_def)
  have sv: "remediation_live_aws_enabled (sv_settings live_service)"
      "\<not> remediation_emergency_stop (sv_settings live_service)" "ex_key (sv_live_executor live_service) = ''aws''"
    by (simp_all add: live_service_def)
  have "\<exists>ctx. choose_executor live_service 2 9 r2 live_finding d2 = Inr (sv_live_executor live_service, Some ctx)"
    using live_preparation [OF live_db_ok kd live_get live_preconditions asset p sv]
    by (simp add: live_approved_snapshot)
  with p show ?thesis by blast
qed

text \<open>
  C15. Sandbox approval is tied to the trust it was given for: in every reachable state an approved
  account has its approver, its role and its external id, and its role belongs to that very
  account; and a step that ends with an approved account either left that account as it was or
  approved it at the request of an active owner, while it was connected, without touching its
  role or external id. Every change of the trust therefore withdraws the approval.
\<close>

theorem sandbox_approval_binds_trust:
  assumes "system_ok d" and "remediation_step\<^sup>*\<^sup>* d d1" and "remediation_step d1 d2"
    and "a1 \<in> set (aws_accounts d1)" and "a2 \<in> set (aws_accounts d2)" and "acc_id a2 = acc_id a1"
    and "acc_sandbox_approved a2"
  shows "acc_sandbox_approved_by_user_id a2 \<noteq> None \<and> trust_configured a2 \<and>
    (\<exists>v p suffix. acc_remediation_role_arn a2 = Some v \<and>
       REMEDIATION_ROLE_ARN_PATTERN v = Some (p, acc_account_id a2, suffix)) \<and>
    (if acc_sandbox_approved a1 then a2 = a1
     else \<exists>u. acc_sandbox_approved_by_user_id a2 = Some u \<and> owner_of u (acc_organization_id a1) d1 \<and>
       acc_connection_status a1 = AWSAccountStatus.CONNECTED \<and>
       acc_remediation_role_arn a2 = acc_remediation_role_arn a1 \<and>
       acc_remediation_external_id a2 = acc_remediation_external_id a1)"
proof -
  have ok1: "system_ok d1" using remediation_system.inv_reachable [OF assms(2,1)] .
  have ok2: "system_ok d2" using remediation_step_ok [OF assms(3) ok1] .
  have kd: "keys_distinct acc_id (aws_accounts d1)" using ok1 by (simp add: system_ok_def accounts_ok_def)
  have eq: "x = a1" if "x \<in> set (aws_accounts d1)" "acc_id x = acc_id a1" for x
    using get_row_distinct [OF kd] that assms(4) by (metis option.inject)
  have "account_ok a2" using ok2 assms(5) by (simp add: system_ok_def accounts_ok_def)
  with assms(7) have a2: "acc_sandbox_approved_by_user_id a2 \<noteq> None" "trust_configured a2"
      "\<exists>v p suffix. acc_remediation_role_arn a2 = Some v \<and>
        REMEDIATION_ROLE_ARN_PATTERN v = Some (p, acc_account_id a2, suffix)"
    by (auto simp: account_ok_def aws_account_sandbox_approval_complete_def trust_configured_def unset_def)
  have "a2 = a1 \<or> (\<exists>u. owner_of u (acc_organization_id a1) d1 \<and> approval_step u a1 a2)"
  proof (cases "aws_accounts d2 = aws_accounts d1")
    case True
    with assms(5,6) eq show ?thesis by simp
  next
    case False
    with remediation_step_effect [OF assms(3) ok1] obtain u where "account_effect u d1 d2" by auto
    with False obtain b b' where b: "b \<in> set (aws_accounts d1)" "acc_id b' = acc_id b"
        "owner_of u (acc_organization_id b) d1" "approval_step u b b'"
        "aws_accounts d2 = put_row acc_id b' (aws_accounts d1)"
      unfolding account_effect_def by blast
    from set_put_row [OF assms(5) [unfolded b(5)]] show ?thesis
    proof
      assume "a2 = b'"
      with b eq [of b] assms(6) show ?thesis by auto
    next
      assume "a2 \<in> set (aws_accounts d1) \<and> acc_id a2 \<noteq> acc_id b'"
      with eq assms(6) show ?thesis by simp
    qed
  qed
  with a2 assms(7) show ?thesis by (auto simp: approval_step_def)
qed

theorem sandbox_approval_binds_trust_witness:
  "acc_sandbox_approved_by_user_id sample_account \<noteq> None \<and> trust_configured sample_account"
proof -
  have "remediation_step live_db (snd (cancel_remediation 2 300 7 2000 live_db))" by (rule step_cancel)
  from sandbox_approval_binds_trust [OF live_db_ok rtranclp.rtrancl_refl this, of sample_account sample_account]
  show ?thesis by (simp add: live_db_def sample_account_def)
qed

text \<open>
  The masked role ARN shown to users hides the account: it is produced exactly for the ARNs
  that the configuration accepts, two ARNs whose account numbers agree in the last four digits
  have the same mask, and the mask keeps the length of the ARN.
\<close>

theorem masking_hides_account:
  assumes "REMEDIATION_ROLE_ARN_PATTERN (p @ account @ suffix) = Some (p, account, suffix)"
    and "length account' = 12" and "list_all is_digit account'" and "drop 8 account' = drop 8 account"
  shows "\<exists>mask. masked_role_arn (Some (p @ account @ suffix)) = Some mask \<and>
    masked_role_arn (Some (p @ account' @ suffix)) = Some mask \<and>
    length mask = length (p @ account @ suffix) \<and>
    take 8 (drop (length p) mask) = ''********'' \<and>
    (\<forall>s. masked_role_arn (Some s) = None \<longleftrightarrow> REMEDIATION_ROLE_ARN_PATTERN s = None)"
  using assms(1,4) role_arn_Some(3) [OF assms(1)] role_arn_exchange [OF assms(1-3)]
  by (auto simp: masked_role_arn_def split: option.splits)

theorem masking_hides_account_witness:
  "masked_role_arn (Some ''arn:aws:iam::999999999012:role/fix'') =
     masked_role_arn (Some ''arn:aws:iam::123456789012:role/fix'')"
proof -
  have arn: "REMEDIATION_ROLE_ARN_PATTERN (''arn:aws:iam::'' @ ''123456789012'' @ '':role/fix'') =
      Some (''arn:aws:iam::'', ''123456789012'', '':role/fix'')"
    by (simp add: REMEDIATION_ROLE_ARN_PATTERN_def arn_prefixes_def split_role_def is_digit_def is_role_char_def)
  have "list_all is_digit ''999999999012''" by (simp add: is_digit_def)
  with masking_hides_account [OF arn, of "''999999999012''"] show ?thesis by auto
qed

text \<open>
  Tenants are isolated in the remediation workflow: a request to one of the handlers on behalf
  of an organization leaves the requests of every other organization as they were, and a user
  without an active membership of the organization is refused with 403 or 404 and changes
  nothing.
\<close>

theorem remediation_tenants_isolated:
  assumes "requests_ok d" and "i \<notin> rr_id ` set (remediation_requests d)"
    and "operation \<in> {propose_remediation sv org f u i, approve_remediation sv org q u now,
      reject_remediation org q u reason now, cancel_remediation org q u now, prepare_live_request sv org q u}"
  shows "filter (\<lambda>r. rr_organization_id r \<noteq> org) (remediation_requests (snd (operation d))) =
      filter (\<lambda>r. rr_organization_id r \<noteq> org) (remediation_requests d) \<and>
    ((\<forall>m \<in> set (memberships d). m_organization_id m = org \<and> m_user_id m = u \<longrightarrow>
        m_status m \<noteq> MembershipStatus.ACTIVE) \<longrightarrow>
      (\<exists>e. operation d = raise e d \<and> status_code e \<in> {403, 404}))"
proof -
  have "request_effect org d (snd (operation d))"
    using assms handler_effects [OF assms(1)] prepare_effect [OF assms(1)] by auto
  moreover have "filter (\<lambda>r. rr_organization_id r \<noteq> org) (put_row rr_id r' (remediation_requests d)) =
      filter (\<lambda>r. rr_organization_id r \<noteq> org) (remediation_requests d)"
    if "r \<in> set (remediation_requests d)" "rr_id r' = rr_id r" "rr_organization_id r = org"
      "rr_organization_id r' = org" for r r'
  proof (rule filter_put_row)
    show kd: "keys_distinct rr_id (remediation_requests d)" using assms(1) by (simp add: requests_ok_def)
    show "get_row rr_id (rr_id r') (remediation_requests d) = Some r"
      using get_row_distinct [OF kd that(1)] that(2) by simp
  qed (use that in simp_all)
  ultimately have isolated: "filter (\<lambda>r. rr_organization_id r \<noteq> org) (remediation_requests (snd (operation d))) =
      filter (\<lambda>r. rr_organization_id r \<noteq> org) (remediation_requests d)"
    unfolding request_effect_def by auto
  have refused: "\<exists>e. operation d = raise e d \<and> status_code e \<in> {403, 404}"
    if out: "\<forall>m \<in> set (memberships d). m_organization_id m = org \<and> m_user_id m = u \<longrightarrow>
      m_status m \<noteq> MembershipStatus.ACTIVE"
  proof -
    have g: "\<exists>e. guarded org u cap f d = raise e d \<and> status_code e \<in> {403, 404}"
      for cap and f :: "db \<Rightarrow> (db, RemediationRequest) outcome"
      using org_auth.outsider_refused [OF out, of cap] by (auto simp: guarded_def)
    have "active_membership org u d = None"
      using out by (auto simp: active_membership_def find_None_iff)
    then have "prepare_live_request sv org q u d = raise (NotFoundError ''organization_not_found'') d"
      by (simp add: prepare_live_request_def require_member_def)
    with g assms(3) show ?thesis
      by (auto simp: propose_remediation_def approve_remediation_def reject_remediation_def cancel_remediation_def)
  qed
  with isolated show ?thesis by blast
qed

theorem remediation_tenants_isolated_witness:
  "\<exists>e. approve_remediation live_service 2 300 99 5 live_db = raise e live_db \<and> status_code e \<in> {403, 404}"
proof -
  have ok: "requests_ok live_db" using live_db_ok by (simp add: system_ok_def)
  have fresh: "301 \<notin> rr_id ` set (remediation_requests live_db)"
    by (simp add: live_db_def live_approved_snapshot)
  have "\<forall>m \<in> set (memberships live_db). m_organization_id m = 2 \<and> m_user_id m = 99 \<longrightarrow>
      m_status m \<noteq> MembershipStatus.ACTIVE"
    by (simp add: live_db_def sample_org_def)
  with remediation_tenants_isolated [OF ok fresh, of "approve_remediation live_service 2 300 99 5"
      live_service 2 60 99 300 5 "''no''"] show ?thesis by blast
qed

end
