(* ===== verification/AWS_Executor.thy ===== *)
theory AWS_Executor
  imports Inventory_Properties Remediation_System
begin

text \<open>
  The live executor of remediations: \<^verbatim>\<open>app/services/aws_remediation_executor.py\<close>. The cloud
  is a function of the calls made so far, so that it may change between any two of them in any way; an
  execution returns its result and the log of its calls. The theory shows that an execution writes
  at most once, what it has read before it writes and after it, that a state stored by discovery
  passes the comparison as long as the cloud stays the same, and what is lost when the verification fails.
\<close>

section \<open>The cloud\<close>

record ApiCall =
  ap_service :: string
  ap_region :: "string option"
  ap_operation :: string
  ap_arguments :: dict

text \<open>
  \<open>cd_client\<close> is the creation of a client, with the credentials of the remediation role;
  \<open>cd_reply\<close> the response of a method after the calls of the log; \<open>cd_pages\<close> the pages of a paginator.
\<close>

record Cloud =
  cd_client :: "string \<Rightarrow> string option \<Rightarrow> aws_exn + unit"
  cd_reply :: "ApiCall list \<Rightarrow> ApiCall \<Rightarrow> aws_exn + dict"
  cd_pages :: "ApiCall list \<Rightarrow> ApiCall \<Rightarrow> aws_exn + dict list"

text \<open>
  A \<^verbatim>\<open>_Refusal\<close> with its code; an exception that the executor catches, \<open>OtherException\<close> being a
  \<^verbatim>\<open>TypeError\<close> or \<^verbatim>\<open>ValueError\<close>; or the \<^verbatim>\<open>AttributeError\<close> of a malformed response, which it does not.
\<close>

datatype stop = Refusal string | Raised aws_exn | Uncaught

type_synonym 'a calls = "ApiCall list \<Rightarrow> (stop + 'a) \<times> ApiCall list"

definition give :: "'a \<Rightarrow> 'a calls" where
  "give x log = (Inr x, log)"

definition refuse :: "string \<Rightarrow> 'a calls" where
  "refuse code log = (Inl (Refusal code), log)"

definition uncaught :: "'a calls" where
  "uncaught log = (Inl Uncaught, log)"

definition lift :: "aws_exn + 'a \<Rightarrow> 'a calls" where
  "lift r log = (case r of Inl e \<Rightarrow> (Inl (Raised e), log) | Inr x \<Rightarrow> (Inr x, log))"

definition onward :: "'a calls \<Rightarrow> ('a \<Rightarrow> 'b calls) \<Rightarrow> 'b calls" where
  "onward m f log = (case m log of (Inl e, l) \<Rightarrow> (Inl e, l) | (Inr x, l) \<Rightarrow> f x l)"

definition invoke :: "Cloud \<Rightarrow> ApiCall \<Rightarrow> (aws_exn + dict) calls" where
  "invoke cloud call log = (Inr (cd_reply cloud log call), log @ [call])"

text \<open>
  The pages of a call come as one answer: the code works on a page before it asks for the next
  one, so that with a malformed page before one that raises only the code of the error could
  differ.
\<close>

definition invoke_pages :: "Cloud \<Rightarrow> ApiCall \<Rightarrow> (dict list) calls" where
  "invoke_pages cloud call log =
     (case cd_pages cloud log call of Inl e \<Rightarrow> (Inl (Raised e), log @ [call]) | Inr pages \<Rightarrow> (Inr pages, log @ [call]))"

definition respond :: "Cloud \<Rightarrow> ApiCall \<Rightarrow> dict calls" where
  "respond cloud call = onward (invoke cloud call) lift"

section \<open>Helpers\<close>

definition REQUIRED_REMEDIATION_TAGS :: "(string \<times> string) list" where
  "REQUIRED_REMEDIATION_TAGS =
     [(''CloudOpsLab'', ''true''), (''Environment'', ''cloudops-test''), (''AllowCloudOpsRemediation'', ''true'')]"

definition require_tags :: "(string \<times> string) list \<Rightarrow> unit calls" where
  "require_tags tags =
     (if list_ex (\<lambda>(key, v). map_of tags key \<noteq> Some v) REQUIRED_REMEDIATION_TAGS
      then refuse ''required_remediation_tags_missing'' else give ())"

text \<open>A dictionary comprehension over tag items; a later item replaces an earlier one.\<close>

definition tag_of :: "dict \<Rightarrow> (string \<times> string) list" where
  "tag_of item =
     (if dict_get ''Key'' item = JNull then []
      else [(py_str (dict_get ''Key'' item), py_str (dict_get ''Value'' item))])"

definition s3_tags :: "dict \<Rightarrow> (string \<times> string) list calls" where
  "s3_tags response =
     (case dict_get_default ''TagSet'' (JList []) response of
        JList xs \<Rightarrow>
          if list_all is_dict xs
          then give (dict_of (concat (map (\<lambda>x. case x of JDict item \<Rightarrow> tag_of item | _ \<Rightarrow> []) xs)))
          else uncaught
      | JDict d \<Rightarrow> if d = [] then give [] else uncaught
      | JStr s \<Rightarrow> if s = [] then give [] else uncaught
      | _ \<Rightarrow> lift (Inl OtherException))"

definition ec2_tags :: "json \<Rightarrow> (string \<times> string) list" where
  "ec2_tags items =
     (case items of
        JList xs \<Rightarrow> dict_of (concat (map (\<lambda>x. case x of JDict item \<Rightarrow> tag_of item | _ \<Rightarrow> []) xs))
      | _ \<Rightarrow> [])"

definition request_id :: "dict \<Rightarrow> string option" where
  "request_id response =
     (case dict_get ''ResponseMetadata'' response of
        JDict metadata \<Rightarrow>
          (let v = dict_get ''RequestId'' metadata in if py_truthy v then Some (take 128 (py_str v)) else None)
      | _ \<Rightarrow> None)"

definition request_ids :: "(string \<times> string option) list \<Rightarrow> dict option" where
  "request_ids vals =
     (let bounded = concat (map (\<lambda>(key, v). case v of None \<Rightarrow> [] | Some s \<Rightarrow> if s = [] then [] else [(key, JStr s)]) vals)
      in if bounded = [] then None else Some bounded)"

definition normalize_public_access_block :: "json \<Rightarrow> json" where
  "normalize_public_access_block v =
     (case v of
        JDict d \<Rightarrow> JDict (map (\<lambda>key. (key, JBool (dict_get key d = JBool True)))
                             (filter (\<lambda>key. dict_has key d) S3_PUBLIC_ACCESS_BLOCK_KEYS))
      | _ \<Rightarrow> JNull)"

definition normalize_rule :: "dict \<Rightarrow> dict" where
  "normalize_rule rule =
     map (\<lambda>field. (field, if field = ''IsEgress'' then JBool (dict_get field rule = JBool True) else dict_get field rule))
       (filter (\<lambda>field. dict_has field rule) SECURITY_GROUP_RULE_FIELDS)"

text \<open>Equality of dictionaries ignores the order of the keys; the values are compared as they are stored.\<close>

definition same_entries :: "(string \<times> 'v) list \<Rightarrow> (string \<times> 'v) list \<Rightarrow> bool" where
  "same_entries d e =
     (length d = length e \<and> list_all (\<lambda>(k, v). map_of e k = Some v) d \<and> list_all (\<lambda>(k, v). map_of d k = Some v) e)"

fun same_value :: "json \<Rightarrow> json \<Rightarrow> bool" where
  "same_value (JDict d) (JDict e) = same_entries d e"
| "same_value v w = (v = w)"

definition failure :: "string \<Rightarrow> RemediationExecutionResult" where
  "failure code =
     \<lparr>xr_outcome = FAILURE, xr_before_state = [(''captured'', JBool False)], xr_after_state = None,
      xr_sanitized_error = Some code, xr_precondition_evidence = None, xr_verification_result = None,
      xr_rollback_state = None, xr_aws_request_ids = None\<rparr>"

section \<open>Blocking public access to a bucket\<close>

definition desired_block :: dict where
  "desired_block = map (\<lambda>key. (key, JBool True)) S3_PUBLIC_ACCESS_BLOCK_KEYS"

definition s3_call :: "Asset \<Rightarrow> string \<Rightarrow> ApiCall" where
  "s3_call asset operation =
     \<lparr>ap_service = ''s3'', ap_region = Some (as_region asset), ap_operation = operation,
      ap_arguments = [(''Bucket'', JStr (as_resource_id asset))]\<rparr>"

definition put_block_call :: "Asset \<Rightarrow> ApiCall" where
  "put_block_call asset =
     (s3_call asset ''put_public_access_block'')\<lparr>ap_arguments :=
        [(''Bucket'', JStr (as_resource_id asset)), (''PublicAccessBlockConfiguration'', JDict desired_block)]\<rparr>"

definition s3_result :: "json \<Rightarrow> json \<Rightarrow> dict option \<Rightarrow> RemediationExecutionResult" where
  "s3_result before checked ids =
     \<lparr>xr_outcome = SUCCESS, xr_before_state = [(''public_access_block'', before)],
      xr_after_state = Some [(''public_access_block'', checked)], xr_sanitized_error = None,
      xr_precondition_evidence = Some [(''matched'', JBool True), (''tags_verified'', JBool True)],
      xr_verification_result = Some [(''matched'', JBool True)],
      xr_rollback_state = Some [(''public_access_block'', before), (''configuration_was_absent'', JBool (before = JNull))],
      xr_aws_request_ids = ids\<rparr>"

text \<open>The configuration before the change and the id of its request; an absent one is \<open>JNull\<close>.\<close>

definition read_block :: "aws_exn + dict \<Rightarrow> (json \<times> string option) calls" where
  "read_block reply =
     (case reply of
        Inr response \<Rightarrow>
          give (normalize_public_access_block (dict_get ''PublicAccessBlockConfiguration'' response), request_id response)
      | Inl (ClientError code) \<Rightarrow>
          if code = ''NoSuchPublicAccessBlockConfiguration'' then give (JNull, None) else lift (Inl (ClientError code))
      | Inl e \<Rightarrow> lift (Inl e))"

text \<open>The checks before the change, the change with its verification, and both in sequence.\<close>

definition s3_preconditions :: "Cloud \<Rightarrow> Asset \<Rightarrow> (json \<times> string option) calls" where
  "s3_preconditions cloud asset =
     (if as_asset_type asset \<noteq> AssetType.S3_BUCKET then refuse ''target_type_mismatch''
      else if \<not> starts_with ''cloudops-lab-'' (as_resource_id asset) then refuse ''s3_bucket_prefix_not_allowed''
      else
        onward (lift (cd_client cloud ''s3'' (Some (as_region asset)))) (\<lambda>_.
        onward (respond cloud (s3_call asset ''get_bucket_tagging'')) (\<lambda>tags_response.
        onward (s3_tags tags_response) (\<lambda>tags.
        onward (require_tags tags) (\<lambda>_.
        onward (invoke cloud (s3_call asset ''get_public_access_block'')) (\<lambda>before_reply.
        onward (read_block before_reply) (\<lambda>before.
          if \<not> same_value (fst before) (dict_get ''public_access_block'' (as_metadata_json asset)) then
            refuse ''remediation_precondition_drift''
          else give before)))))))"

definition s3_change :: "Cloud \<Rightarrow> Asset \<Rightarrow> json \<times> string option \<Rightarrow> RemediationExecutionResult calls" where
  "s3_change cloud asset before =
     onward (respond cloud (put_block_call asset)) (\<lambda>write_response.
     onward (respond cloud (s3_call asset ''get_public_access_block'')) (\<lambda>verified_response.
       let checked = normalize_public_access_block (dict_get ''PublicAccessBlockConfiguration'' verified_response) in
       if \<not> same_value checked (JDict desired_block) then refuse ''remediation_verification_failed''
       else
         give (s3_result (fst before) checked
           (request_ids [(''read_before'', snd before), (''mutate'', request_id write_response),
                         (''verify'', request_id verified_response)]))))"

definition s3_public_access_block :: "Cloud \<Rightarrow> RemediationExecutionContext \<Rightarrow> RemediationExecutionResult calls" where
  "s3_public_access_block cloud ctxt =
     onward (s3_preconditions cloud (xc_asset ctxt)) (s3_change cloud (xc_asset ctxt))"

section \<open>Revoking a public ingress rule\<close>

definition matches_finding :: "string \<Rightarrow> dict \<Rightarrow> bool" where
  "matches_finding rule_key rule =
     (let world = dict_get ''CidrIpv4'' rule = JStr ''0.0.0.0/0'' \<or> dict_get ''CidrIpv6'' rule = JStr ''::/0'';
          protocol = py_str (dict_get ''IpProtocol'' rule);
          start = dict_get ''FromPort'' rule;
          stop = dict_get ''ToPort'' rule
      in if \<not> world then False
         else if rule_key = ''EC2_SG_ALL_TRAFFIC_OPEN_TO_WORLD'' then protocol = ''-1''
         else
           let port = (if rule_key = ''EC2_SG_SSH_OPEN_TO_WORLD'' then JInt 22 else JInt 3389)
           in protocol = ''tcp'' \<and> start = port \<and> stop = port)"

definition rule_id :: "dict \<Rightarrow> json" where
  "rule_id rule = dict_get ''SecurityGroupRuleId'' rule"

definition approved_rule :: "RemediationExecutionContext \<Rightarrow> dict calls" where
  "approved_rule ctxt =
     (let asset = xc_asset ctxt in
      case dict_get ''security_group_rules'' (as_metadata_json asset) of
        JList raw \<Rightarrow>
          let candidates = concat (map (\<lambda>v. case v of
                JDict rule \<Rightarrow>
                  if dict_get ''GroupId'' rule = JStr (as_resource_id asset) \<and> dict_get ''IsEgress'' rule = JBool False \<and>
                     matches_finding (f_rule_key (xc_finding ctxt)) rule
                  then [normalize_rule rule] else []
              | _ \<Rightarrow> []) raw)
          in (case candidates of
                [rule] \<Rightarrow> if py_truthy (rule_id rule) then give rule else refuse ''security_group_rule_not_unambiguous''
              | _ \<Rightarrow> refuse ''security_group_rule_not_unambiguous'')
      | _ \<Rightarrow> refuse ''security_group_rule_evidence_missing'')"

definition ec2_call :: "Asset \<Rightarrow> string \<Rightarrow> dict \<Rightarrow> ApiCall" where
  "ec2_call asset operation arguments =
     \<lparr>ap_service = ''ec2'', ap_region = Some (as_region asset), ap_operation = operation, ap_arguments = arguments\<rparr>"

text \<open>The rules of one page; items that are no dictionaries or belong to other groups are skipped.\<close>

definition page_rules :: "string \<Rightarrow> dict \<Rightarrow> aws_exn + dict list" where
  "page_rules group_id page =
     (case dict_get_default ''SecurityGroupRules'' (JList []) page of
        JList xs \<Rightarrow>
          Inr (concat (map (\<lambda>x. case x of
                 JDict item \<Rightarrow> if dict_get ''GroupId'' item = JStr group_id then [normalize_rule item] else []
               | _ \<Rightarrow> []) xs))
      | JDict d \<Rightarrow> Inr []
      | JStr s \<Rightarrow> Inr []
      | _ \<Rightarrow> Inl OtherException)"

definition rules_call :: "Asset \<Rightarrow> ApiCall" where
  "rules_call asset =
     ec2_call asset ''describe_security_group_rules''
       [(''Filters'', JList [JDict [(''Name'', JStr ''group-id''), (''Values'', JList [JStr (as_resource_id asset)])]])]"

definition live_security_group_rules :: "Cloud \<Rightarrow> Asset \<Rightarrow> (dict list) calls" where
  "live_security_group_rules cloud asset =
     onward (invoke_pages cloud (rules_call asset)) (\<lambda>pages.
     onward (lift (collect (page_rules (as_resource_id asset)) pages)) (\<lambda>rules.
       give (sort_key (\<lambda>rule. py_str (dict_get_default ''SecurityGroupRuleId'' (JStr []) rule)) rules)))"

text \<open>\<^verbatim>\<open>groups[0]\<close>, once \<^verbatim>\<open>len(groups)\<close> was checked.\<close>

definition only_group :: "json \<Rightarrow> dict calls" where
  "only_group groups =
     (case groups of
        JList [v] \<Rightarrow> (case v of JDict g \<Rightarrow> give g | _ \<Rightarrow> uncaught)
      | JList xs \<Rightarrow> refuse ''security_group_not_found''
      | JStr s \<Rightarrow> if length s \<noteq> 1 then refuse ''security_group_not_found'' else uncaught
      | JDict d \<Rightarrow> if length d \<noteq> 1 then refuse ''security_group_not_found'' else lift (Inl KeyError)
      | _ \<Rightarrow> lift (Inl OtherException))"

definition revoke_call :: "Asset \<Rightarrow> dict \<Rightarrow> ApiCall" where
  "revoke_call asset approved =
     ec2_call asset ''revoke_security_group_ingress''
       [(''GroupId'', JStr (as_resource_id asset)), (''SecurityGroupRuleIds'', JList [JStr (py_str (rule_id approved))])]"

definition rules_by_id :: "dict list \<Rightarrow> (string \<times> dict) list" where
  "rules_by_id rules = dict_of (map (\<lambda>rule. (py_str (rule_id rule), rule)) rules)"

definition ec2_result :: "dict \<Rightarrow> dict option \<Rightarrow> RemediationExecutionResult" where
  "ec2_result approved ids =
     \<lparr>xr_outcome = SUCCESS, xr_before_state = [(''security_group_rule'', JDict approved)],
      xr_after_state = Some [(''security_group_rule_present'', JBool False)], xr_sanitized_error = None,
      xr_precondition_evidence = Some [(''matched'', JBool True), (''tags_verified'', JBool True)],
      xr_verification_result = Some [(''matched'', JBool True), (''unrelated_rules_unchanged'', JBool True)],
      xr_rollback_state = Some [(''security_group_rule'', JDict approved)], xr_aws_request_ids = ids\<rparr>"

definition rule_present :: "dict \<Rightarrow> dict list \<Rightarrow> bool" where
  "rule_present approved rules =
     (case find (\<lambda>rule. rule_id rule = rule_id approved) rules of
        None \<Rightarrow> False | Some current \<Rightarrow> same_entries current approved)"

definition group_call :: "Asset \<Rightarrow> ApiCall" where
  "group_call asset = ec2_call asset ''describe_security_groups'' [(''GroupIds'', JList [JStr (as_resource_id asset)])]"

text \<open>Again the checks, which yield the response, the approved rule and all rules, and the change.\<close>

definition ec2_preconditions :: "Cloud \<Rightarrow> RemediationExecutionContext \<Rightarrow> (dict \<times> dict \<times> dict list) calls" where
  "ec2_preconditions cloud ctxt =
     (let asset = xc_asset ctxt in
      if as_asset_type asset \<noteq> AssetType.EC2_SECURITY_GROUP then refuse ''target_type_mismatch''
      else
        onward (lift (cd_client cloud ''ec2'' (Some (as_region asset)))) (\<lambda>_.
        onward (respond cloud (group_call asset)) (\<lambda>response.
        onward (only_group (dict_get_default ''SecurityGroups'' (JList []) response)) (\<lambda>g.
          if dict_get ''GroupId'' g \<noteq> JStr (as_resource_id asset) then refuse ''target_resource_mismatch''
          else if dict_get ''VpcId'' g \<noteq> dict_get ''vpc_id'' (as_metadata_json asset) then
            refuse ''remediation_precondition_drift''
          else
            onward (require_tags (ec2_tags (dict_get_default ''Tags'' (JList []) g))) (\<lambda>_.
            onward (approved_rule ctxt) (\<lambda>approved.
            onward (live_security_group_rules cloud asset) (\<lambda>before_rules.
              if \<not> rule_present approved before_rules then refuse ''remediation_precondition_drift''
              else give (response, approved, before_rules))))))))"

definition ec2_change :: "Cloud \<Rightarrow> Asset \<Rightarrow> dict \<times> dict \<times> dict list \<Rightarrow> RemediationExecutionResult calls" where
  "ec2_change cloud asset checked =
     (case checked of
        (response, approved, before_rules) \<Rightarrow>
          onward (respond cloud (revoke_call asset approved)) (\<lambda>write_response.
          onward (live_security_group_rules cloud asset) (\<lambda>after_rules.
            if list_ex (\<lambda>rule. rule_id rule = rule_id approved) after_rules then
              refuse ''remediation_verification_failed''
            else if \<not> same_entries (rules_by_id (filter (\<lambda>rule. rule_id rule \<noteq> rule_id approved) before_rules))
                        (rules_by_id after_rules) then
              refuse ''unrelated_security_group_rule_changed''
            else
              give (ec2_result approved
                (request_ids [(''describe_group'', request_id response), (''mutate'', request_id write_response)])))))"

definition ec2_revoke_ingress :: "Cloud \<Rightarrow> RemediationExecutionContext \<Rightarrow> RemediationExecutionResult calls" where
  "ec2_revoke_ingress cloud ctxt =
     onward (ec2_preconditions cloud ctxt) (ec2_change cloud (xc_asset ctxt))"

section \<open>The executor\<close>

definition run_action :: "Cloud \<Rightarrow> RemediationCall \<Rightarrow> RemediationExecutionResult calls" where
  "run_action cloud call =
     (case rc_context call of
        None \<Rightarrow> refuse ''execution_context_missing''
      | Some ctxt \<Rightarrow>
          if rc_dry_run call then refuse ''live_execution_requires_non_dry_run_request''
          else if rc_action_key call = ''s3.enable_public_access_block'' then s3_public_access_block cloud ctxt
          else if rc_action_key call = ''ec2.revoke_approved_public_ingress'' then ec2_revoke_ingress cloud ctxt
          else refuse ''action_not_allowed'')"

text \<open>\<open>None\<close> is an exception that leaves the executor.\<close>

definition aws_execute :: "Cloud \<Rightarrow> RemediationCall \<Rightarrow> RemediationExecutionResult option \<times> ApiCall list" where
  "aws_execute cloud call =
     (case run_action cloud call [] of
        (Inr result, log) \<Rightarrow> (Some result, log)
      | (Inl (Refusal code), log) \<Rightarrow> (Some (failure code), log)
      | (Inl (Raised (AWSConnectionFailure reason)), log) \<Rightarrow> (Some (failure reason), log)
      | (Inl (Raised (ClientError code)), log) \<Rightarrow>
          (Some (failure (''aws_'' @ (let safe = safe_code code in if safe = [] then ''client_error'' else safe))), log)
      | (Inl (Raised e), log) \<Rightarrow> (Some (failure ''aws_remediation_failed''), log)
      | (Inl Uncaught, log) \<Rightarrow> (None, log))"

text \<open>
  The executor as the remediation service sees it. The \<^verbatim>\<open>AttributeError\<close> that leaves it is an error of
  Python like any other for the service and the worker, and stands with them as \<open>AssertionError\<close>.
\<close>

definition AWSRemediationExecutor :: "Cloud \<Rightarrow> RemediationExecutor" where
  "AWSRemediationExecutor cloud =
     \<lparr>ex_key = ''aws'',
      ex_execute = (\<lambda>call. case fst (aws_execute cloud call) of None \<Rightarrow> Inl AssertionError | Some result \<Rightarrow> Inr result)\<rparr>"

section \<open>What a run has read when it writes\<close>

definition is_write :: "ApiCall \<Rightarrow> bool" where
  "is_write call = (ap_operation call \<in> {''put_public_access_block'', ''revoke_security_group_ingress''})"

definition tagged :: "(string \<times> string) list \<Rightarrow> bool" where
  "tagged tags = (\<forall>(key, v) \<in> set REQUIRED_REMEDIATION_TAGS. map_of tags key = Some v)"

text \<open>The bucket carries the tags and has the configuration that was approved.\<close>

definition s3_checked :: "Cloud \<Rightarrow> Asset \<Rightarrow> bool" where
  "s3_checked cloud asset =
     (as_asset_type asset = AssetType.S3_BUCKET \<and> starts_with ''cloudops-lab-'' (as_resource_id asset) \<and>
      (\<exists>response tags. cd_reply cloud [] (s3_call asset ''get_bucket_tagging'') = Inr response \<and>
         fst (s3_tags response []) = Inr tags \<and> tagged tags) \<and>
      (\<exists>block i. fst (read_block (cd_reply cloud [s3_call asset ''get_bucket_tagging'']
           (s3_call asset ''get_public_access_block'')) []) = Inr (block, i) \<and>
         same_value block (dict_get ''public_access_block'' (as_metadata_json asset))))"

definition s3_log :: "Asset \<Rightarrow> ApiCall list" where
  "s3_log asset =
     [s3_call asset ''get_bucket_tagging'', s3_call asset ''get_public_access_block'', put_block_call asset]"

definition s3_verified :: "Cloud \<Rightarrow> Asset \<Rightarrow> bool" where
  "s3_verified cloud asset =
     (\<exists>response. cd_reply cloud (s3_log asset) (s3_call asset ''get_public_access_block'') = Inr response \<and>
        same_value (normalize_public_access_block (dict_get ''PublicAccessBlockConfiguration'' response)) (JDict desired_block))"

text \<open>The group carries the tags, is in the approved network and has exactly the approved rule.\<close>

definition ec2_checked :: "Cloud \<Rightarrow> Asset \<Rightarrow> dict \<Rightarrow> dict list \<Rightarrow> bool" where
  "ec2_checked cloud asset approved before_rules =
     (as_asset_type asset = AssetType.EC2_SECURITY_GROUP \<and>
      (\<exists>response g. cd_reply cloud [] (group_call asset) = Inr response \<and>
         fst (only_group (dict_get_default ''SecurityGroups'' (JList []) response) []) = Inr g \<and>
         dict_get ''GroupId'' g = JStr (as_resource_id asset) \<and>
         dict_get ''VpcId'' g = dict_get ''vpc_id'' (as_metadata_json asset) \<and>
         tagged (ec2_tags (dict_get_default ''Tags'' (JList []) g))) \<and>
      fst (live_security_group_rules cloud asset [group_call asset]) = Inr before_rules \<and>
      rule_present approved before_rules)"

definition ec2_log :: "Asset \<Rightarrow> dict \<Rightarrow> ApiCall list" where
  "ec2_log asset approved = [group_call asset, rules_call asset, revoke_call asset approved]"

definition ec2_verified :: "Cloud \<Rightarrow> Asset \<Rightarrow> dict \<Rightarrow> dict list \<Rightarrow> bool" where
  "ec2_verified cloud asset approved before_rules =
     (\<exists>after_rules. fst (live_security_group_rules cloud asset (ec2_log asset approved)) = Inr after_rules \<and>
        (\<forall>rule \<in> set after_rules. rule_id rule \<noteq> rule_id approved) \<and>
        same_entries (rules_by_id (filter (\<lambda>rule. rule_id rule \<noteq> rule_id approved) before_rules)) (rules_by_id after_rules))"

section \<open>Lemmas on runs\<close>

lemma onward_iff:
  "onward m f log = (r, l) \<longleftrightarrow>
     (\<exists>e. m log = (Inl e, l) \<and> r = Inl e) \<or> (\<exists>x l'. m log = (Inr x, l') \<and> f x l' = (r, l))"
  by (auto simp: onward_def split: prod.splits sum.splits)

lemma run_iffs:
  "give x log = (r, l) \<longleftrightarrow> r = Inr x \<and> l = log" "refuse code log = (r, l) \<longleftrightarrow> r = Inl (Refusal code) \<and> l = log"
  "uncaught log = (r, l) \<longleftrightarrow> r = Inl Uncaught \<and> l = log"
  "lift y log = (r, l) \<longleftrightarrow> l = log \<and> r = (case y of Inl e \<Rightarrow> Inl (Raised e) | Inr x \<Rightarrow> Inr x)"
  "invoke cloud call log = (a, l) \<longleftrightarrow> a = Inr (cd_reply cloud log call) \<and> l = log @ [call]"
  "respond cloud call log = (b, l) \<longleftrightarrow>
     l = log @ [call] \<and> b = (case cd_reply cloud log call of Inl e \<Rightarrow> Inl (Raised e) | Inr x \<Rightarrow> Inr x)"
  by (auto simp: give_def refuse_def uncaught_def lift_def invoke_def respond_def onward_def split: sum.split)

text \<open>The same for runs that return.\<close>

lemma Inr_iffs:
  "onward m f log = (Inr y, l) \<longleftrightarrow> (\<exists>x l'. m log = (Inr x, l') \<and> f x l' = (Inr y, l))"
  "give x log = (Inr y, l) \<longleftrightarrow> y = x \<and> l = log" "refuse code log \<noteq> (Inr y, l)"
  "lift v log = (Inr y, l) \<longleftrightarrow> l = log \<and> v = Inr y"
  "respond cloud call log = (Inr z, l) \<longleftrightarrow> l = log @ [call] \<and> cd_reply cloud log call = Inr z"
  by (auto simp: onward_iff run_iffs split: sum.splits)

text \<open>Steps that make no call leave the log alone and do not look at it.\<close>

definition silent :: "'a calls \<Rightarrow> bool" where
  "silent m = (\<forall>log. m log = (fst (m []), log))"

lemma silentD: "silent m \<Longrightarrow> m log = (r, l) \<longleftrightarrow> l = log \<and> fst (m []) = r"
  unfolding silent_def by (metis prod.inject)

lemma silent_basic [simp]: "silent (give x)" "silent (refuse code)" "silent uncaught" "silent (lift y)"
  by (auto simp: silent_def give_def refuse_def uncaught_def lift_def split: sum.split)

lemma silent_steps:
  "silent (s3_tags response)" "silent (require_tags tags)" "silent (read_block reply)" "silent (approved_rule ctxt)"
  "silent (only_group groups)"
  by (auto simp: s3_tags_def require_tags_def read_block_def approved_rule_def only_group_def Let_def
      split: json.split sum.split aws_exn.split list.split option.split)

lemmas silent_iffs = silent_steps [THEN silentD]

lemma require_tags_Inr: "fst (require_tags tags []) = Inr u \<longleftrightarrow> tagged tags"
  by (auto simp: require_tags_def tagged_def refuse_def give_def list_ex_iff)

lemma rules_log:
  "live_security_group_rules cloud asset log = (r, l) \<longleftrightarrow>
     l = log @ [rules_call asset] \<and> fst (live_security_group_rules cloud asset log) = r"
  by (auto simp: live_security_group_rules_def onward_def invoke_pages_def lift_def give_def split: sum.split)

lemma s3_calls [simp]:
  "\<not> is_write (s3_call asset ''get_bucket_tagging'')" "\<not> is_write (s3_call asset ''get_public_access_block'')"
  "is_write (put_block_call asset)"
  by (simp_all add: is_write_def s3_call_def put_block_call_def)

lemma ec2_calls [simp]:
  "\<not> is_write (group_call asset)" "\<not> is_write (rules_call asset)" "is_write (revoke_call asset approved)"
  by (simp_all add: is_write_def group_call_def rules_call_def revoke_call_def ec2_call_def)

lemma s3_preconditions_run:
  assumes "s3_preconditions cloud asset [] = (r, log)"
  shows "\<not> list_ex is_write log"
    and "r = Inr before \<Longrightarrow> s3_checked cloud asset \<and>
       log = [s3_call asset ''get_bucket_tagging'', s3_call asset ''get_public_access_block'']"
proof -
  show "\<not> list_ex is_write log"
    using assms by (auto simp: s3_preconditions_def onward_iff run_iffs silent_iffs split: if_splits)
  assume "r = Inr before"
  with assms obtain response tags where
    "as_asset_type asset = AssetType.S3_BUCKET" "starts_with ''cloudops-lab-'' (as_resource_id asset)"
    "cd_reply cloud [] (s3_call asset ''get_bucket_tagging'') = Inr response" "fst (s3_tags response []) = Inr tags"
    "fst (require_tags tags []) = Inr ()"
    "fst (read_block (cd_reply cloud [s3_call asset ''get_bucket_tagging''] (s3_call asset ''get_public_access_block'')) []) = Inr before"
    "same_value (fst before) (dict_get ''public_access_block'' (as_metadata_json asset))"
    "log = [s3_call asset ''get_bucket_tagging'', s3_call asset ''get_public_access_block'']"
    by (auto simp: s3_preconditions_def Inr_iffs run_iffs(5) silent_iffs simp del: split_paired_Ex split: if_splits)
  then show "s3_checked cloud asset \<and>
       log = [s3_call asset ''get_bucket_tagging'', s3_call asset ''get_public_access_block'']"
    unfolding s3_checked_def require_tags_Inr by (metis prod.collapse)
qed

lemma s3_change_run:
  assumes "s3_change cloud asset before log0 = (r, log)"
  shows "log = log0 @ [put_block_call asset] \<and> (\<exists>e. r = Inl (Raised e)) \<or>
    log = log0 @ [put_block_call asset, s3_call asset ''get_public_access_block''] \<and>
    (\<forall>x. r = Inr x \<longrightarrow> (\<exists>response. cd_reply cloud (log0 @ [put_block_call asset]) (s3_call asset ''get_public_access_block'') = Inr response \<and>
        same_value (normalize_public_access_block (dict_get ''PublicAccessBlockConfiguration'' response)) (JDict desired_block)))"
  using assms
  by (auto simp: s3_change_def Let_def onward_iff run_iffs split: if_splits sum.splits)

lemma ec2_preconditions_run:
  assumes "ec2_preconditions cloud ctxt [] = (r, log)"
  shows "\<not> list_ex is_write log"
    and "r = Inr (response, approved, before_rules) \<Longrightarrow> fst (approved_rule ctxt []) = Inr approved \<and>
       ec2_checked cloud (xc_asset ctxt) approved before_rules \<and> log = [group_call (xc_asset ctxt), rules_call (xc_asset ctxt)]"
proof -
  show "\<not> list_ex is_write log"
    using assms by (auto simp: ec2_preconditions_def Let_def onward_iff run_iffs silent_iffs rules_log split: if_splits)
  assume "r = Inr (response, approved, before_rules)"
  with assms obtain g where
    "as_asset_type (xc_asset ctxt) = AssetType.EC2_SECURITY_GROUP"
    "cd_reply cloud [] (group_call (xc_asset ctxt)) = Inr response"
    "fst (only_group (dict_get_default ''SecurityGroups'' (JList []) response) []) = Inr g"
    "dict_get ''GroupId'' g = JStr (as_resource_id (xc_asset ctxt))"
    "dict_get ''VpcId'' g = dict_get ''vpc_id'' (as_metadata_json (xc_asset ctxt))"
    "fst (require_tags (ec2_tags (dict_get_default ''Tags'' (JList []) g)) []) = Inr ()"
    "fst (approved_rule ctxt []) = Inr approved"
    "fst (live_security_group_rules cloud (xc_asset ctxt) [group_call (xc_asset ctxt)]) = Inr before_rules"
    "rule_present approved before_rules" "log = [group_call (xc_asset ctxt), rules_call (xc_asset ctxt)]"
    by (auto simp: ec2_preconditions_def Let_def Inr_iffs silent_iffs rules_log simp del: split_paired_Ex split: if_splits)
  then show "fst (approved_rule ctxt []) = Inr approved \<and>
       ec2_checked cloud (xc_asset ctxt) approved before_rules \<and> log = [group_call (xc_asset ctxt), rules_call (xc_asset ctxt)]"
    unfolding ec2_checked_def require_tags_Inr by blast
qed

lemma ec2_change_run:
  assumes "ec2_change cloud asset (response, approved, before_rules) log0 = (r, log)"
  shows "log = log0 @ [revoke_call asset approved] \<and> (\<exists>e. r = Inl (Raised e)) \<or>
    log = log0 @ [revoke_call asset approved, rules_call asset] \<and>
    (\<forall>x. r = Inr x \<longrightarrow> (\<exists>after_rules. fst (live_security_group_rules cloud asset (log0 @ [revoke_call asset approved])) = Inr after_rules \<and>
        (\<forall>rule \<in> set after_rules. rule_id rule \<noteq> rule_id approved) \<and>
        same_entries (rules_by_id (filter (\<lambda>rule. rule_id rule \<noteq> rule_id approved) before_rules)) (rules_by_id after_rules)))"
  using assms
  by (auto simp: ec2_change_def onward_iff run_iffs rules_log list_ex_iff split: if_splits sum.splits)

lemma s3_run:
  assumes "s3_public_access_block cloud ctxt [] = (r, log)"
  shows "\<not> list_ex is_write log \<and> (\<forall>x. r \<noteq> Inr x) \<or>
    s3_checked cloud (xc_asset ctxt) \<and> (\<exists>later. log = s3_log (xc_asset ctxt) @ later \<and> \<not> list_ex is_write later) \<and>
    (\<forall>x. r = Inr x \<longrightarrow> s3_verified cloud (xc_asset ctxt))"
proof -
  let ?a = "xc_asset ctxt"
  consider (stopped) e where "s3_preconditions cloud ?a [] = (Inl e, log)" "r = Inl e"
    | (checked) before l where "s3_preconditions cloud ?a [] = (Inr before, l)" "s3_change cloud ?a before l = (r, log)"
    using assms by (auto simp: s3_public_access_block_def onward_iff)
  then show ?thesis
  proof cases
    case stopped
    then show ?thesis using s3_preconditions_run(1) [OF stopped(1)] by simp
  next
    case checked
    note pre = s3_preconditions_run(2) [OF checked(1) refl]
    then have "l @ [put_block_call ?a] = s3_log ?a" by (simp add: s3_log_def)
    then show ?thesis using pre s3_change_run [OF checked(2)] by (auto simp: s3_verified_def s3_log_def)
  qed
qed

lemma ec2_run:
  assumes "ec2_revoke_ingress cloud ctxt [] = (r, log)"
  shows "\<not> list_ex is_write log \<and> (\<forall>x. r \<noteq> Inr x) \<or>
    (\<exists>approved before_rules. fst (approved_rule ctxt []) = Inr approved \<and>
       ec2_checked cloud (xc_asset ctxt) approved before_rules \<and>
       (\<exists>later. log = ec2_log (xc_asset ctxt) approved @ later \<and> \<not> list_ex is_write later) \<and>
       (\<forall>x. r = Inr x \<longrightarrow> ec2_verified cloud (xc_asset ctxt) approved before_rules))"
proof -
  let ?a = "xc_asset ctxt"
  consider (stopped) e where "ec2_preconditions cloud ctxt [] = (Inl e, log)" "r = Inl e"
    | (checked) response approved before_rules l where "ec2_preconditions cloud ctxt [] = (Inr (response, approved, before_rules), l)"
        "ec2_change cloud ?a (response, approved, before_rules) l = (r, log)"
    using assms by (auto simp: ec2_revoke_ingress_def onward_iff)
  then show ?thesis
  proof cases
    case stopped
    then show ?thesis using ec2_preconditions_run(1) [OF stopped(1)] by simp
  next
    case checked
    note pre = ec2_preconditions_run(2) [OF checked(1) refl]
    then have l: "l @ [revoke_call ?a approved] = ec2_log ?a approved" by (simp add: ec2_log_def)
    have "(\<exists>later. log = ec2_log ?a approved @ later \<and> \<not> list_ex is_write later) \<and>
        (\<forall>x. r = Inr x \<longrightarrow> ec2_verified cloud ?a approved before_rules)"
      using pre l ec2_change_run [OF checked(2)] by (auto simp: ec2_verified_def ec2_log_def)
    then show ?thesis using pre by blast
  qed
qed

text \<open>The result and the log of an execution in terms of its action.\<close>

lemma aws_execute_result:
  assumes "aws_execute cloud call = (result, log)"
  shows "\<exists>r. run_action cloud call [] = (r, log) \<and> (\<forall>x. result = Some x \<and> xr_outcome x = SUCCESS \<longrightarrow> r = Inr x) \<and>
    (\<forall>e. r = Inl e \<longrightarrow> result = None \<or> (\<exists>code. result = Some (failure code)))"
  using assms
  by (cases "run_action cloud call []")
    (auto simp: aws_execute_def failure_def split: sum.splits stop.splits aws_exn.splits)

lemma run_action_cases:
  assumes "run_action cloud call [] = (r, log)"
  obtains (stopped) e where "r = Inl e" "log = []"
  | (s3) ctxt where "rc_context call = Some ctxt" "\<not> rc_dry_run call" "rc_action_key call = ''s3.enable_public_access_block''"
      "s3_public_access_block cloud ctxt [] = (r, log)"
  | (ec2) ctxt where "rc_context call = Some ctxt" "\<not> rc_dry_run call" "rc_action_key call = ''ec2.revoke_approved_public_ingress''"
      "ec2_revoke_ingress cloud ctxt [] = (r, log)"
  using assms by (auto simp: run_action_def run_iffs split: option.splits if_splits)

section \<open>Properties\<close>

text \<open>
  C5. Whatever the cloud answers, an execution makes at most one change, and only this one: either all
  four switches of the approved bucket, or the removal of the one approved rule of the approved group. Before it
  the cloud has shown the required tags and exactly the state that was approved; a success means that
  the state read after the change is the desired one, with every other rule unchanged. Without a context or as a
  dry run nothing is changed.
\<close>

theorem executor_writes_once:
  assumes "aws_execute cloud call = (result, log)"
  shows "(\<forall>w \<in> set log. \<not> is_write w) \<and> (\<forall>x. result = Some x \<longrightarrow> xr_outcome x = FAILURE) \<or>
    (\<exists>ctxt reads w later. rc_context call = Some ctxt \<and> \<not> rc_dry_run call \<and> log = reads @ [w] @ later \<and>
       (\<forall>v \<in> set (reads @ later). \<not> is_write v) \<and>
       (rc_action_key call = ''s3.enable_public_access_block'' \<and> w = put_block_call (xc_asset ctxt) \<and>
          s3_checked cloud (xc_asset ctxt) \<and>
          (\<forall>x. result = Some x \<and> xr_outcome x = SUCCESS \<longrightarrow> s3_verified cloud (xc_asset ctxt)) \<or>
        rc_action_key call = ''ec2.revoke_approved_public_ingress'' \<and>
          (\<exists>approved before_rules. fst (approved_rule ctxt []) = Inr approved \<and> w = revoke_call (xc_asset ctxt) approved \<and>
             ec2_checked cloud (xc_asset ctxt) approved before_rules \<and>
             (\<forall>x. result = Some x \<and> xr_outcome x = SUCCESS \<longrightarrow> ec2_verified cloud (xc_asset ctxt) approved before_rules))))"
proof -
  obtain r where run: "run_action cloud call [] = (r, log)"
    and success: "\<forall>x. result = Some x \<and> xr_outcome x = SUCCESS \<longrightarrow> r = Inr x"
    using aws_execute_result [OF assms] by blast
  have refused: "xr_outcome x = FAILURE" if "\<forall>x. r \<noteq> Inr x" "result = Some x" for x
    using that success by (metis RemediationExecutionOutcome.exhaust)
  from run show ?thesis
  proof (cases rule: run_action_cases)
    case stopped
    then show ?thesis using refused by simp
  next
    case (s3 ctxt)
    let ?a = "xc_asset ctxt"
    consider "\<not> list_ex is_write log" "\<forall>x. r \<noteq> Inr x" | later where "s3_checked cloud ?a" "log = s3_log ?a @ later"
        "\<not> list_ex is_write later" "\<forall>x. r = Inr x \<longrightarrow> s3_verified cloud ?a"
      using s3_run [OF s3(4)] by blast
    then show ?thesis
    proof cases
      case (2 later)
      then show ?thesis using s3 success
        by (intro disjI2 exI [of _ ctxt] exI [of _ "take 2 (s3_log ?a)"] exI [of _ "put_block_call ?a"] exI [of _ later])
          (auto simp: s3_log_def list_ex_iff)
    qed (use refused in \<open>auto simp: list_ex_iff\<close>)
  next
    case (ec2 ctxt)
    let ?a = "xc_asset ctxt"
    consider "\<not> list_ex is_write log" "\<forall>x. r \<noteq> Inr x" | approved before_rules later where "fst (approved_rule ctxt []) = Inr approved"
        "ec2_checked cloud ?a approved before_rules" "log = ec2_log ?a approved @ later" "\<not> list_ex is_write later"
        "\<forall>x. r = Inr x \<longrightarrow> ec2_verified cloud ?a approved before_rules"
      using ec2_run [OF ec2(4)] by blast
    then show ?thesis
    proof cases
      case (2 approved before_rules later)
      then show ?thesis using ec2 success
        by (intro disjI2 exI [of _ ctxt] exI [of _ "take 2 (ec2_log ?a approved)"] exI [of _ "revoke_call ?a approved"] exI [of _ later])
          (auto simp: ec2_log_def list_ex_iff)
    qed (use refused in \<open>auto simp: list_ex_iff\<close>)
  qed
qed

lemma desired_normal: "normalize_public_access_block (JDict desired_block) = JDict desired_block"
  by (simp add: normalize_public_access_block_def desired_block_def S3_PUBLIC_ACCESS_BLOCK_KEYS_def dict_get_def dict_has_def)

lemma s3_returns_success: "s3_public_access_block cloud ctxt log = (Inr x, l) \<Longrightarrow> xr_outcome x = SUCCESS"
  by (auto simp: s3_public_access_block_def s3_change_def Inr_iffs Let_def s3_result_def split: if_splits)

text \<open>
  C37. The evidence of a change is lost when its verification does not succeed: every failure is reported
  without the state that was captured, so that a change of the bucket that was made but could not be verified is stored as
  \<^verbatim>\<open>captured: false\<close>, over anything stored before. The request cannot recover: once AWS shows the
  new state, every later attempt for the same snapshot is refused as drift, without any change.
\<close>

theorem failed_verification_loses_rollback:
  assumes "aws_execute cloud call = (Some x, log)" and "xr_outcome x = FAILURE"
    and "rc_context call = Some ctxt" and "rc_action_key call = ''s3.enable_public_access_block''"
    and "put_block_call (xc_asset ctxt) \<in> set log" and "store_evidence lease x r = Inr r'"
    and "\<And>l. cd_reply later l (s3_call (xc_asset ctxt) ''get_public_access_block'') =
      Inr [(''PublicAccessBlockConfiguration'', JDict desired_block)]"
    and "\<not> same_value (JDict desired_block) (dict_get ''public_access_block'' (as_metadata_json (xc_asset ctxt)))"
  shows "rr_before_state_json r' = Some [(''captured'', JBool False)] \<and>
    (\<forall>w \<in> set (snd (aws_execute later call)). \<not> is_write w) \<and>
    (\<forall>y. fst (aws_execute later call) = Some y \<longrightarrow> xr_outcome y = FAILURE)"
proof -
  obtain r0 where r0: "run_action cloud call [] = (r0, log)"
    and "\<forall>e. r0 = Inl e \<longrightarrow> Some x = None \<or> (\<exists>code. Some x = Some (failure code))"
    using aws_execute_result [OF assms(1)] by blast
  moreover have "r0 \<noteq> Inr y" for y
  proof
    assume y: "r0 = Inr y"
    then have "x = y" using assms(1) r0 by (simp add: aws_execute_def)
    moreover from y r0 assms(3,4) have "s3_public_access_block cloud ctxt [] = (Inr y, log)"
      by (auto simp: run_action_def Inr_iffs split: if_splits)
    ultimately show False using s3_returns_success assms(2) by fastforce
  qed
  ultimately obtain code where "x = failure code" by (cases r0) auto
  then have evidence: "rr_before_state_json r' = Some [(''captured'', JBool False)]"
    using assms(6) by (auto simp: store_evidence_def failure_def split: sum.splits)
  obtain s l where run: "run_action later call [] = (s, l)" by fastforce
  have drifted: "\<not> s3_checked later (xc_asset ctxt)"
    using assms(7,8) by (auto simp: s3_checked_def read_block_def give_def dict_get_def desired_normal)
  have "\<not> list_ex is_write l \<and> (\<forall>y. s \<noteq> Inr y)"
    using run
  proof (cases rule: run_action_cases)
    case (s3 c)
    then show ?thesis using s3_run [OF s3(4)] drifted assms(3) by auto
  qed (use assms(3,4) in auto)
  then show ?thesis
    using evidence run by (cases s) (auto simp: aws_execute_def failure_def list_ex_iff split: stop.splits aws_exn.splits)
qed

section \<open>What discovery stored is what the executor compares\<close>

lemma plain_keys: "\<not> SENSITIVE_KEYS ''public_access_block''"
  "list_all (\<lambda>key. \<not> SENSITIVE_KEYS key) S3_PUBLIC_ACCESS_BLOCK_KEYS" "\<not> SENSITIVE_KEYS ''creation_date''"
  by code_simp+

lemma json_safe_block: "json_safe isoformat (normalize_public_access_block v) = normalize_public_access_block v"
proof (cases v)
  case (JDict d)
  have "filter (\<lambda>x. dict_has x d \<and> \<not> SENSITIVE_KEYS x) S3_PUBLIC_ACCESS_BLOCK_KEYS =
      filter (\<lambda>x. dict_has x d) S3_PUBLIC_ACCESS_BLOCK_KEYS"
    using plain_keys(2) by (intro filter_cong) (auto simp: list_all_iff)
  then show ?thesis by (simp add: JDict normalize_public_access_block_def filter_map comp_def)
qed (simp_all add: normalize_public_access_block_def)

lemma json_safe_dict_head:
  "\<not> SENSITIVE_KEYS key \<Longrightarrow> dict_get key (json_safe_dict isoformat ((key, v) # d)) = json_safe isoformat v"
  by (simp add: json_safe_dict_def dict_get_def)

text \<open>
  A bucket that did not change since discovery is never refused as drift: what the collector stored
  for it, twice sanitized, is what the executor computes from the same answer of AWS.
\<close>

theorem unchanged_bucket_passes:
  assumes "s3_bucket isoformat loads client bucket = Inr [item]" and "required ''Name'' bucket = Inr name"
    and "cl_has client ''get_public_access_block''"
    and "(\<exists>response. reply = Inr response) \<or> reply = Inl (ClientError ''NoSuchPublicAccessBlockConfiguration'')"
    and "cl_call client ''get_public_access_block'' [(''Bucket'', JStr name)] = reply"
    and "cd_reply cloud log (s3_call (refresh_asset isoformat item at a) ''get_public_access_block'') = reply"
  shows "\<exists>block i. fst (read_block (cd_reply cloud log (s3_call (refresh_asset isoformat item at a) ''get_public_access_block'')) []) =
      Inr (block, i) \<and>
    same_value block (dict_get ''public_access_block'' (as_metadata_json (refresh_asset isoformat item at a)))"
proof -
  define v where "v = (case reply of Inr response \<Rightarrow> dict_get ''PublicAccessBlockConfiguration'' response | Inl e \<Rightarrow> JNull)"
  have first: "optional_call client name (''get_public_access_block'', ''PublicAccessBlockConfiguration'') =
      Inr [(''get_public_access_block'', v)]"
    using assms(3-5) by (auto simp: optional_call_def v_def)
  obtain vals c rest0 where vals: "collect (optional_call client name) optional_calls = Inr vals"
    and meta: "nz_metadata item = json_safe_dict isoformat ((''creation_date'', c) # block_metadata vals @ rest0)"
    using assms(1,2) by (auto simp: s3_bucket_def and_then_Inr Let_def)
  have "\<exists>rest. vals = (''get_public_access_block'', v) # rest"
    using vals by (auto simp: optional_calls_def first split: sum.splits)
  then obtain rest where "vals = (''get_public_access_block'', v) # rest" by blast
  then have "\<exists>rest. block_metadata vals = (''public_access_block'', normalize_public_access_block v) # rest"
    by (auto simp: block_metadata_def normalize_public_access_block_def dict_get_def dict_has_def Let_def comp_def split: json.split)
  then obtain rest where m: "nz_metadata item =
      json_safe_dict isoformat ((''creation_date'', c) # (''public_access_block'', normalize_public_access_block v) # rest)"
    using meta by auto
  have "dict_get ''public_access_block'' (as_metadata_json (refresh_asset isoformat item at a)) = normalize_public_access_block v"
    using plain_keys(1,3) by (simp add: refresh_asset_def m json_safe_dict_def dict_get_def json_safe_block)
  moreover have "\<exists>i. fst (read_block reply []) = Inr (normalize_public_access_block v, i)"
    using assms(4) by (auto simp: read_block_def v_def give_def normalize_public_access_block_def)
  moreover have "same_value (normalize_public_access_block v) (normalize_public_access_block v)"
  proof (cases v)
    case (JDict d)
    have "distinct S3_PUBLIC_ACCESS_BLOCK_KEYS" by (simp add: S3_PUBLIC_ACCESS_BLOCK_KEYS_def)
    then show ?thesis by (auto simp: JDict normalize_public_access_block_def same_entries_def list_all_iff map_of_map_keys map_of_eq_Some_iff distinct_map inj_on_def comp_def)
  qed (simp_all add: normalize_public_access_block_def)
  ultimately show ?thesis unfolding assms(6) by auto
qed

section \<open>A laboratory\<close>

definition lab_bucket :: Asset where
  "lab_bucket = sample_bucket\<lparr>as_resource_id := ''cloudops-lab-1'', as_metadata_json := [(''public_access_block'', JNull)]\<rparr>"

definition lab_context :: RemediationExecutionContext where
  "lab_context = \<lparr>xc_account = sample_account, xc_asset = lab_bucket, xc_finding = sample_finding, xc_request = sample_approved\<rparr>"

definition lab_call :: RemediationCall where
  "lab_call = \<lparr>rc_action_key = ''s3.enable_public_access_block'', rc_finding_id = 60, rc_snapshot_hash = ''digest'',
     rc_dry_run = False, rc_context = Some lab_context\<rparr>"

definition lab_tags :: dict where
  "lab_tags = [(''TagSet'', JList (map (\<lambda>(key, v). JDict [(''Key'', JStr key), (''Value'', JStr v)]) REQUIRED_REMEDIATION_TAGS))]"

text \<open>A cloud that throttles every request after the change, and one that shows the change later.\<close>

definition throttled_cloud :: Cloud where
  "throttled_cloud =
     \<lparr>cd_client = (\<lambda>service region. Inr ()),
      cd_reply = (\<lambda>log call.
        if ap_operation call = ''get_bucket_tagging'' then Inr lab_tags
        else if ap_operation call = ''put_public_access_block'' then Inr []
        else if list_ex is_write log then Inl (ClientError ''SlowDown'')
        else Inl (ClientError ''NoSuchPublicAccessBlockConfiguration'')),
      cd_pages = (\<lambda>log call. Inr [])\<rparr>"

definition blocked_cloud :: Cloud where
  "blocked_cloud = throttled_cloud\<lparr>cd_reply := (\<lambda>log call.
     if ap_operation call = ''get_bucket_tagging'' then Inr lab_tags
     else Inr [(''PublicAccessBlockConfiguration'', JDict desired_block)])\<rparr>"

lemma lab_fields [simp]:
  "xc_asset lab_context = lab_bucket" "rc_context lab_call = Some lab_context" "rc_dry_run lab_call = False"
  "rc_action_key lab_call = ''s3.enable_public_access_block''" "as_asset_type lab_bucket = AssetType.S3_BUCKET"
  "as_resource_id lab_bucket = ''cloudops-lab-1''" "as_metadata_json lab_bucket = [(''public_access_block'', JNull)]"
  by (simp_all add: lab_context_def lab_call_def lab_bucket_def sample_bucket_def)

lemma lab_tagged: "s3_tags lab_tags log = (Inr REQUIRED_REMEDIATION_TAGS, log)"
  by (simp add: s3_tags_def lab_tags_def REQUIRED_REMEDIATION_TAGS_def dict_get_default_def tag_of_def dict_get_def
      py_str_def give_def dict_of_def)

lemma lab_operations [simp]:
  "ap_operation (s3_call a operation) = operation" "ap_operation (put_block_call a) = ''put_public_access_block''"
  by (simp_all add: s3_call_def put_block_call_def)

lemma lab_run:
  "aws_execute throttled_cloud lab_call =
     (Some (failure ''aws_slowdown''), s3_log lab_bucket @ [s3_call lab_bucket ''get_public_access_block''])"
proof -
  have tags: "require_tags REQUIRED_REMEDIATION_TAGS log = (Inr (), log)" for log
    by (simp add: require_tags_def REQUIRED_REMEDIATION_TAGS_def give_def)
  have "starts_with ''cloudops-lab-'' ''cloudops-lab-1''" by code_simp
  then have "s3_preconditions throttled_cloud lab_bucket [] =
      (Inr (JNull, None), [s3_call lab_bucket ''get_bucket_tagging'', s3_call lab_bucket ''get_public_access_block''])"
    by (simp add: s3_preconditions_def onward_def lift_def throttled_cloud_def respond_def invoke_def lab_tagged tags
        read_block_def give_def dict_get_def)
  moreover have "s3_change throttled_cloud lab_bucket (JNull, None)
      [s3_call lab_bucket ''get_bucket_tagging'', s3_call lab_bucket ''get_public_access_block''] =
      (Inl (Raised (ClientError ''SlowDown'')), s3_log lab_bucket @ [s3_call lab_bucket ''get_public_access_block''])"
    by (simp add: s3_change_def onward_def lift_def throttled_cloud_def respond_def invoke_def s3_log_def)
  ultimately have "run_action throttled_cloud lab_call [] =
      (Inl (Raised (ClientError ''SlowDown'')), s3_log lab_bucket @ [s3_call lab_bucket ''get_public_access_block''])"
    by (simp add: run_action_def s3_public_access_block_def onward_def)
  moreover have "safe_code ''SlowDown'' = ''slowdown''" by code_simp
  ultimately show ?thesis by (simp add: aws_execute_def)
qed

theorem executor_writes_once_witness:
  "\<exists>reads w later. snd (aws_execute throttled_cloud lab_call) = reads @ [w] @ later \<and> w = put_block_call lab_bucket \<and>
     \<not> list_ex is_write (reads @ later)"
proof -
  have "is_write (put_block_call lab_bucket)" "put_block_call lab_bucket \<in> set (s3_log lab_bucket)"
    by (simp_all add: s3_log_def)
  then show ?thesis using executor_writes_once [OF lab_run] unfolding lab_run list_ex_iff by fastforce
qed

theorem failed_verification_loses_rollback_witness:
  "\<exists>r. store_evidence 90 (failure ''aws_slowdown'') sample_approved = Inr r \<and>
     rr_before_state_json r = Some [(''captured'', JBool False)] \<and>
     \<not> list_ex is_write (snd (aws_execute blocked_cloud lab_call))"
proof -
  obtain r where r: "store_evidence 90 (failure ''aws_slowdown'') sample_approved = Inr r"
    by (auto simp: store_evidence_def failure_def reject_sensitive_execution_evidence_def split: sum.splits)
  have "\<not> same_value (JDict desired_block) (dict_get ''public_access_block'' (as_metadata_json (xc_asset lab_context)))"
    by (simp add: dict_get_def)
  from failed_verification_loses_rollback [OF lab_run _ _ _ _ r _ this, of blocked_cloud] r show ?thesis
    by (auto simp: failure_def s3_log_def blocked_cloud_def list_ex_iff)
qed

theorem unchanged_bucket_passes_witness:
  "\<exists>item. s3_bucket (\<lambda>s. None) (\<lambda>s. None) unencrypted_client [(''Name'', JStr ''logs'')] = Inr [item] \<and>
     same_value JNull (dict_get ''public_access_block'' (as_metadata_json (refresh_asset (\<lambda>s. None) item 21 lab_bucket)))"
proof -
  have name: "required ''Name'' [(''Name'', JStr ''logs'')] = Inr ''logs''" by (simp add: required_def py_str_def)
  have "\<exists>item. s3_bucket (\<lambda>s. None) (\<lambda>s. None) unencrypted_client [(''Name'', JStr ''logs'')] = Inr [item]"
    unfolding s3_bucket_def name
    by (simp add: and_then_def unencrypted_client_def bucket_tags_def tags_dict_def optional_calls_def optional_call_def
        access_metadata_def policy_metadata_def dict_get_def Let_def)
  then obtain item where item: "s3_bucket (\<lambda>s. None) (\<lambda>s. None) unencrypted_client [(''Name'', JStr ''logs'')] = Inr [item]"
    by blast
  have "read_block (Inr []) log = (Inr (JNull, None), log)" for log
    by (simp add: read_block_def give_def dict_get_def normalize_public_access_block_def request_id_def)
  then show ?thesis
    using unchanged_bucket_passes [OF item name, of "Inr []" "throttled_cloud\<lparr>cd_reply := \<lambda>log call. Inr []\<rparr>" "[]" 21 lab_bucket] item
    by (auto simp: unencrypted_client_def)
qed

end
