(* ===== verification/Rule_Verdicts.thy ===== *)
theory Rule_Verdicts
  imports Security_Rules
begin

text \<open>
  What the network and policy rules of \<^verbatim>\<open>app/security_rules\<close> decide, against declarative
  descriptions of an exposed permission and of a policy statement: the evaluators with their
  loops and early exits fail exactly on the exposures they are meant to find.
\<close>

section \<open>Exposed permissions\<close>

text \<open>A permission names a world range in one of its two range lists.\<close>

definition world_entry :: "string \<Rightarrow> string \<Rightarrow> dict \<Rightarrow> bool" where
  "world_entry field key permission =
     (\<exists>items d cidr. py_iter (dict_get_default field (JList []) permission) = Inr items \<and>
        JDict d \<in> set items \<and> dict_get key d = JStr cidr \<and> cidr \<in> {''0.0.0.0/0'', ''::/0''})"

definition open_to_world :: "dict \<Rightarrow> bool" where
  "open_to_world permission =
     (world_entry ''IpRanges'' ''CidrIp'' permission \<or> world_entry ''Ipv6Ranges'' ''CidrIpv6'' permission)"

definition covers_port :: "int \<Rightarrow> dict \<Rightarrow> bool" where
  "covers_port port permission =
     (py_str (dict_get_default ''IpProtocol'' (JStr []) permission) = ''-1'' \<or>
      (\<exists>lo hi. json_int (dict_get ''FromPort'' permission) = Some lo \<and>
         json_int (dict_get ''ToPort'' permission) = Some hi \<and> lo \<le> port \<and> port \<le> hi))"

text \<open>Ranges that Python can iterate and hash; other metadata raise an exception.\<close>

definition readable :: "dict \<Rightarrow> bool" where
  "readable permission = (\<exists>rs. world_ranges permission = Inr rs)"

lemma world_items_found:
  "world_items key items = Inr rs \<Longrightarrow>
     rs \<noteq> [] \<longleftrightarrow> (\<exists>d cidr. JDict d \<in> set items \<and> dict_get key d = JStr cidr \<and> cidr \<in> set WORLD_CIDRS)"
proof (induction items arbitrary: rs)
  case Nil
  then show ?case by simp
next
  case (Cons item items)
  show ?case
  proof (cases "\<exists>d. item = JDict d")
    case False
    with Cons show ?thesis by (cases item) auto
  next
    case True
    then obtain d where d: "item = JDict d" ..
    with Cons.prems obtain found rest where f: "py_in_strings (dict_get key d) WORLD_CIDRS = Inr found"
        and rest: "world_items key items = Inr rest" and rs: "rs = (if found then py_str (dict_get key d) # rest else rest)"
      by (auto split: sum.splits)
    have "found \<longleftrightarrow> (\<exists>cidr. dict_get key d = JStr cidr \<and> cidr \<in> set WORLD_CIDRS)"
      using f by (cases "dict_get key d") auto
    with Cons.IH [OF rest] rs d show ?thesis by auto
  qed
qed

lemma world_ranges_found:
  assumes "world_ranges permission = Inr rs"
  shows "rs \<noteq> [] \<longleftrightarrow> open_to_world permission"
proof -
  from assms obtain v4 v6 where v: "ranges_of ''IpRanges'' ''CidrIp'' permission = Inr v4"
      "ranges_of ''Ipv6Ranges'' ''CidrIpv6'' permission = Inr v6" and rs: "rs = sort (remdups (v4 @ v6))"
    by (auto simp: world_ranges_def split: sum.splits)
  have found: "vs \<noteq> [] \<longleftrightarrow> world_entry field key permission" if "ranges_of field key permission = Inr vs" for field key vs
    using that world_items_found by (fastforce simp: ranges_of_def world_entry_def WORLD_CIDRS_def split: sum.splits)
  have "rs = [] \<longleftrightarrow> v4 = [] \<and> v6 = []"
    unfolding rs by (metis append_is_Nil_conv remdups_eq_nil_iff set_empty set_sort)
  with found [OF v(1)] found [OF v(2)] show ?thesis by (auto simp: open_to_world_def)
qed

lemma port_in_range_iff:
  "port_in_range port a b \<longleftrightarrow> (\<exists>lo hi. json_int a = Some lo \<and> json_int b = Some hi \<and> lo \<le> port \<and> port \<le> hi)"
  by (auto simp: port_in_range_def split: option.splits)

lemma collect_exposures_found:
  assumes "\<forall>p \<in> set ps. readable p"
  shows "\<exists>es. collect_exposures port ps = Inr es \<and>
    (es \<noteq> [] \<longleftrightarrow> (\<exists>p \<in> set ps. open_to_world p \<and> covers_port port p))"
  using assms
proof (induction ps)
  case Nil
  then show ?case by simp
next
  case (Cons p ps)
  then obtain rs es where rs: "world_ranges p = Inr rs" and es: "collect_exposures port ps = Inr es"
      and iff: "es \<noteq> [] \<longleftrightarrow> (\<exists>p \<in> set ps. open_to_world p \<and> covers_port port p)"
    by (auto simp: readable_def)
  from world_ranges_found [OF rs] rs es iff show ?case
    by (auto simp: Let_def covers_port_def port_in_range_iff)
qed

lemma collect_all_traffic_found:
  assumes "\<forall>p \<in> set ps. readable p"
  shows "\<exists>es. collect_all_traffic ps = Inr es \<and>
    (es \<noteq> [] \<longleftrightarrow> (\<exists>p \<in> set ps. open_to_world p \<and> py_str (dict_get ''IpProtocol'' p) = ''-1''))"
  using assms
proof (induction ps)
  case Nil
  then show ?case by simp
next
  case (Cons p ps)
  then obtain rs es where rs: "world_ranges p = Inr rs" and es: "collect_all_traffic ps = Inr es"
      and iff: "es \<noteq> [] \<longleftrightarrow> (\<exists>p \<in> set ps. open_to_world p \<and> py_str (dict_get ''IpProtocol'' p) = ''-1'')"
    by (auto simp: readable_def)
  from world_ranges_found [OF rs] rs es iff show ?case by auto
qed

section \<open>Policy statements\<close>

text \<open>A statement that the HTTPS rule can read, and one that denies insecure transport.\<close>

definition readable_statement :: "json \<Rightarrow> bool" where
  "readable_statement statement =
     (\<exists>s effect condition. statement = JDict s \<and> dict_get ''Effect'' s = JStr effect \<and>
        dict_get_default ''Condition'' (JDict []) s = JDict condition \<and>
        (dict_get_default ''Bool'' (JDict []) condition = JNull \<or>
         (\<exists>b. dict_get_default ''Bool'' (JDict []) condition = JDict b)))"

definition denies_http :: "json \<Rightarrow> bool" where
  "denies_http statement =
     (\<exists>s condition b. statement = JDict s \<and> dict_get ''Effect'' s = JStr ''Deny'' \<and>
        dict_get_default ''Condition'' (JDict []) s = JDict condition \<and>
        dict_get_default ''Bool'' (JDict []) condition = JDict b \<and>
        denies_insecure (dict_get ''aws:SecureTransport'' b))"

lemma https_statement_step:
  assumes "readable_statement x"
  shows "https_statements i (x # xs) =
    (if denies_http x then passed [(''statement_index'', JInt i), (''policy_present'', JBool True)]
     else https_statements (i + 1) xs)"
  using assms by (auto simp: readable_statement_def denies_http_def)

lemma https_statements_status:
  "\<forall>x \<in> set xs. readable_statement x \<Longrightarrow>
     rs_status (https_statements i xs) =
       (if \<exists>x \<in> set xs. denies_http x then RuleResultStatus.PASSED else RuleResultStatus.FAILED)"
proof (induction xs arbitrary: i)
  case Nil
  then show ?case by (simp add: failed_def rule_result_def)
next
  case (Cons x xs)
  then have r: "readable_statement x" by simp
  from Cons show ?case
    unfolding https_statement_step [OF r] by (simp add: passed_def rule_result_def)
qed

text \<open>The same for the rule on inline policies.\<close>

definition readable_grant :: "json \<Rightarrow> bool" where
  "readable_grant statement =
     (\<exists>s effect. statement = JDict s \<and> dict_get ''Effect'' s = JStr effect \<and>
        strings_of (dict_get ''Action'' s) \<noteq> None \<and> strings_of (dict_get ''Resource'' s) \<noteq> None)"

definition allows_everything :: "json \<Rightarrow> bool" where
  "allows_everything statement =
     (\<exists>s actions resources. statement = JDict s \<and> dict_get ''Effect'' s = JStr ''Allow'' \<and>
        strings_of (dict_get ''Action'' s) = Some actions \<and> ''*'' \<in> set actions \<and>
        strings_of (dict_get ''Resource'' s) = Some resources \<and> ''*'' \<in> set resources)"

lemma allow_all_statement_step:
  assumes "readable_grant x"
  shows "allow_all_statements i (x # xs) =
    (if allows_everything x then Inr (Some i) else allow_all_statements (i + 1) xs)"
  using assms by (auto simp: readable_grant_def allows_everything_def)

lemma allow_all_statements_found:
  "\<forall>x \<in> set xs. readable_grant x \<Longrightarrow>
     \<exists>r. allow_all_statements i xs = Inr r \<and> (r \<noteq> None \<longleftrightarrow> (\<exists>x \<in> set xs. allows_everything x))"
proof (induction xs arbitrary: i)
  case Nil
  then show ?case by simp
next
  case (Cons x xs)
  then have r: "readable_grant x" by simp
  from Cons show ?case unfolding allow_all_statement_step [OF r] by simp
qed

definition readable_document :: "json \<Rightarrow> bool" where
  "readable_document document =
     (\<exists>d xs. document = JDict d \<and> policy_statements d = Some xs \<and> (\<forall>x \<in> set xs. readable_grant x))"

definition document_allows_everything :: "json \<Rightarrow> bool" where
  "document_allows_everything document =
     (\<exists>d xs. document = JDict d \<and> policy_statements d = Some xs \<and> (\<exists>x \<in> set xs. allows_everything x))"

lemma allow_all_documents_status:
  "\<forall>x \<in> set ds. readable_document x \<Longrightarrow>
     rs_status (allow_all_documents ds) =
       (if \<exists>x \<in> set ds. document_allows_everything x then RuleResultStatus.FAILED else RuleResultStatus.PASSED)"
proof (induction ds)
  case Nil
  then show ?case by (simp add: passed_def rule_result_def)
next
  case (Cons x ds)
  then obtain d xs where x: "x = JDict d" and xs: "policy_statements d = Some xs"
      and g: "\<forall>y \<in> set xs. readable_grant y"
    by (auto simp: readable_document_def)
  obtain r where r: "allow_all_statements 0 xs = Inr r" "r \<noteq> None \<longleftrightarrow> (\<exists>y \<in> set xs. allows_everything y)"
    using allow_all_statements_found [OF g] by blast
  have "document_allows_everything x \<longleftrightarrow> (\<exists>y \<in> set xs. allows_everything y)"
    by (simp add: document_allows_everything_def x xs)
  with Cons r xs x show ?case
    by (cases r) (auto simp: failed_def rule_result_def)
qed

section \<open>Properties\<close>

text \<open>
  C12. The port rules fail exactly on exposure: on a security group whose ranges can be read, the
  rule for a port fails if some permission names a world range and covers the port (by any
  protocol or by its port interval), and passes otherwise. A group that fails the all-traffic rule
  fails the rule of every port.
\<close>

theorem port_rule_exact:
  assumes "permissions asset = Some ps" and "\<forall>p \<in> set ps. readable p"
  shows "(\<exists>res. port_exposure port (Some asset) context = Inr res \<and>
      rs_status res = (if \<exists>p \<in> set ps. open_to_world p \<and> covers_port port p
        then RuleResultStatus.FAILED else RuleResultStatus.PASSED)) \<and>
    (\<forall>bad. all_traffic (Some asset) context = Inr bad \<and> rs_status bad = RuleResultStatus.FAILED \<longrightarrow>
      (\<exists>res. port_exposure port (Some asset) context = Inr res \<and> rs_status res = RuleResultStatus.FAILED))"
proof -
  obtain es where es: "collect_exposures port ps = Inr es"
      "es \<noteq> [] \<longleftrightarrow> (\<exists>p \<in> set ps. open_to_world p \<and> covers_port port p)"
    using collect_exposures_found [OF assms(2)] by blast
  obtain ts where ts: "collect_all_traffic ps = Inr ts"
      "ts \<noteq> [] \<longleftrightarrow> (\<exists>p \<in> set ps. open_to_world p \<and> py_str (dict_get ''IpProtocol'' p) = ''-1'')"
    using collect_all_traffic_found [OF assms(2)] by blast
  have "covers_port port p" if "py_str (dict_get ''IpProtocol'' p) = ''-1''" for p
    using that by (auto simp: covers_port_def dict_get_def dict_get_default_def py_str_def split: option.splits)
  with es ts assms(1) show ?thesis
    by (auto simp: port_exposure_def all_traffic_def on_asset_def failed_def passed_def rule_result_def)
qed

definition sample_group :: Asset where
  "sample_group = sample_bucket\<lparr>as_asset_type := AssetType.EC2_SECURITY_GROUP,
     as_metadata_json := [(''ip_permissions'', JList [JDict [(''IpProtocol'', JStr ''tcp''), (''FromPort'', JInt 20),
        (''ToPort'', JInt 30), (''IpRanges'', JList [JDict [(''CidrIp'', JStr ''0.0.0.0/0'')]])]])]\<rparr>"

theorem port_rule_exact_witness:
  "\<exists>res. port_exposure 22 (Some sample_group) \<lparr>rc_account_assets = [], rc_evaluated_at = 0\<rparr> = Inr res \<and>
     rs_status res = RuleResultStatus.FAILED"
proof -
  let ?p = "[(''IpProtocol'', JStr ''tcp''), (''FromPort'', JInt 20), (''ToPort'', JInt 30),
    (''IpRanges'', JList [JDict [(''CidrIp'', JStr ''0.0.0.0/0'')]])]"
  have ps: "permissions sample_group = Some [?p]"
    by (simp add: permissions_def sample_group_def sample_bucket_def dict_get_def)
  have rs: "world_ranges ?p = Inr [''0.0.0.0/0'']"
    by (simp add: world_ranges_def ranges_of_def dict_get_default_def dict_get_def WORLD_CIDRS_def py_str_def)
  then have ro: "\<forall>p \<in> set [?p]. readable p" by (simp add: readable_def)
  have "open_to_world ?p" using world_ranges_found [OF rs] by simp
  moreover have "covers_port 22 ?p" by (simp add: covers_port_def dict_get_def)
  ultimately have "\<exists>p \<in> set [?p]. open_to_world p \<and> covers_port 22 p" by simp
  then show ?thesis using port_rule_exact [OF ps ro, of 22 "\<lparr>rc_account_assets = [], rc_evaluated_at = 0\<rparr>"] by simp
qed

text \<open>
  The policy rules decide what they describe: a bucket whose policy can be read passes the
  HTTPS rule exactly if some statement denies requests without secure transport, and a principal
  whose inline policies can be read fails exactly if some statement allows every action on every
  resource.
\<close>

theorem policy_rules_exact:
  assumes "map_of (as_metadata_json bucket) ''policy_document'' = Some (JDict policy)"
    and "policy_statements policy = Some xs" and "\<forall>x \<in> set xs. readable_statement x"
    and "dict_get ''inline_policy_documents'' (as_metadata_json identity) = JList ds"
    and "\<forall>x \<in> set ds. readable_document x"
  shows "(\<exists>res. https_only_policy (Some bucket) context = Inr res \<and>
      rs_status res = (if \<exists>x \<in> set xs. denies_http x then RuleResultStatus.PASSED else RuleResultStatus.FAILED)) \<and>
    (\<exists>res. inline_allow_all (Some identity) context = Inr res \<and>
      rs_status res = (if \<exists>x \<in> set ds. document_allows_everything x
        then RuleResultStatus.FAILED else RuleResultStatus.PASSED))"
  using assms https_statements_status [OF assms(3)] allow_all_documents_status [OF assms(5)]
  by (simp add: https_only_policy_def inline_allow_all_def on_asset_def)

theorem policy_rules_exact_witness:
  "\<exists>res. inline_allow_all (Some (sample_bucket\<lparr>as_metadata_json := [(''policy_document'', JDict [(''Statement'', JList [])]),
       (''inline_policy_documents'', JList [JDict [(''Statement'', JDict [(''Effect'', JStr ''Allow''),
          (''Action'', JStr ''*''), (''Resource'', JList [JStr ''*''])])]])]\<rparr>)) \<lparr>rc_account_assets = [], rc_evaluated_at = 0\<rparr> = Inr res \<and>
     rs_status res = RuleResultStatus.FAILED"
proof -
  let ?s = "[(''Effect'', JStr ''Allow''), (''Action'', JStr ''*''), (''Resource'', JList [JStr ''*''])]"
  let ?doc = "JDict [(''Statement'', JDict ?s)]"
  let ?a = "sample_bucket\<lparr>as_metadata_json := [(''policy_document'', JDict [(''Statement'', JList [])]),
     (''inline_policy_documents'', JList [?doc])]\<rparr>"
  have st: "policy_statements [(''Statement'', JDict ?s)] = Some [JDict ?s]"
    by (simp add: policy_statements_def dict_get_def)
  have g: "readable_grant (JDict ?s)" "allows_everything (JDict ?s)"
    by (simp_all add: readable_grant_def allows_everything_def dict_get_def strings_of_def py_str_def)
  have "\<forall>x \<in> set [?doc]. readable_document x" and "document_allows_everything ?doc"
    using st g by (simp_all add: readable_document_def document_allows_everything_def)
  then show ?thesis
    using policy_rules_exact [of ?a "[(''Statement'', JList [])]" "[]" ?a "[?doc]"
        "\<lparr>rc_account_assets = [], rc_evaluated_at = 0\<rparr>"]
    by (simp add: policy_statements_def dict_get_def)
qed

end
