(* ===== verification/Notification_Providers.thy ===== *)
theory Notification_Providers
  imports Notifications
begin

text \<open>
  The SMTP, SES and webhook adapters of \<^verbatim>\<open>app/services/notification_provider.py\<close>. The network
  is a parameter of each: \<open>sl_send\<close> stands for the \<^verbatim>\<open>smtplib\<close> conversation, \<open>ses_send\<close> for
  the SES client, \<open>transport\<close> for the HTTP request of a webhook, each with the exceptions the
  adapter distinguishes as values; \<open>valid_email\<close> stands for the \<^verbatim>\<open>email_validator\<close> package.
\<close>

section \<open>SMTP\<close>

record ProviderSettings =
  notification_provider :: string
  smtp_from_name :: string
  smtp_from_email :: string
  smtp_use_tls :: bool
  smtp_security :: string
  smtp_username :: string
  notification_max_message_bytes :: int
  aws_ses_enabled :: bool
  aws_ses_from_email :: string
  aws_ses_from_name :: string
  aws_ses_configuration_set :: string
  aws_ses_reply_to :: string
  aws_ses_max_recipients :: int
  webhook_timeout_seconds :: int

record EmailMessage =
  em_from :: string
  em_to :: string
  em_subject :: string
  em_message_id :: string
  em_content :: string

datatype smtp_reply = SMTPResponseException int | SMTPTransportError | SMTPOtherException | SMTPSent bool

text \<open>\<open>sl_send security login message\<close> reports whether any recipient was refused.\<close>

record SMTPLibrary =
  sl_message_id :: string
  sl_message_bytes :: "EmailMessage \<Rightarrow> int"
  sl_send :: "string \<Rightarrow> bool \<Rightarrow> EmailMessage \<Rightarrow> smtp_reply"

definition has_line_break :: "string \<Rightarrow> bool" where
  "has_line_break s = list_ex (\<lambda>c. (of_char c :: nat) \<in> {10, 13}) s"

text \<open>
  \<^verbatim>\<open>str.splitlines\<close> and the check of \<^verbatim>\<open>EmailMessage.__setitem__\<close>, which raises
  \<^verbatim>\<open>ValueError\<close> for a header value of more than one line; \<open>line\<close> is the line read so far.
\<close>

definition line_boundary :: "char \<Rightarrow> bool" where
  "line_boundary c = ((of_char c :: nat) \<in> {10, 11, 12, 13, 28, 29, 30, 133})"

fun splitlines :: "string \<Rightarrow> string \<Rightarrow> string list" where
  "splitlines line [] = (if line = [] then [] else [line])"
| "splitlines line [c] = [if line_boundary c then line else line @ [c]]"
| "splitlines line (c # e # s) =
     (if (of_char c :: nat) = 13 \<and> (of_char e :: nat) = 10 then line # splitlines [] s
      else if line_boundary c then line # splitlines [] (e # s)
      else splitlines (line @ [c]) (e # s))"

definition header_ok :: "string \<Rightarrow> bool" where
  "header_ok value = (length (splitlines [] value) \<le> 1)"

definition smtp_message :: "ProviderSettings \<Rightarrow> SMTPLibrary \<Rightarrow> DeliveryCall \<Rightarrow> EmailMessage" where
  "smtp_message settings lib call =
     (let from_name = strip (smtp_from_name settings); from_email = strip (smtp_from_email settings)
      in \<lparr>em_from = (if from_name \<noteq> [] then from_name @ '' <'' @ from_email @ ''>'' else from_email),
          em_to = intercalate '', '' (dc_recipients call), em_subject = dc_subject call,
          em_message_id = sl_message_id lib, em_content = dc_text_body call\<rparr>)"

definition smtp_result :: "EmailMessage \<Rightarrow> smtp_reply \<Rightarrow> NotificationDeliveryResult" where
  "smtp_result message reply =
     (case reply of
        SMTPResponseException code \<Rightarrow>
          delivery_failure (''smtp_'' @ int_str code) ''SMTP notification delivery failed.'' (400 \<le> code \<and> code < 500)
      | SMTPTransportError \<Rightarrow> delivery_failure ''smtp_transport_error'' ''SMTP notification delivery failed.'' True
      | SMTPOtherException \<Rightarrow> delivery_failure ''smtp_internal_error'' ''SMTP notification delivery failed.'' False
      | SMTPSent refused \<Rightarrow>
          if refused then
            delivery_failure ''smtp_recipient_refused''
              ''SMTP notification delivery was refused for one or more recipients.'' False
          else delivery_success (Some (em_message_id message)))"

definition smtp_security_mode :: "ProviderSettings \<Rightarrow> string" where
  "smtp_security_mode settings =
     (if smtp_use_tls settings \<and> smtp_security settings = ''none'' then ''starttls'' else smtp_security settings)"

definition smtp_send :: "ProviderSettings \<Rightarrow> SMTPLibrary \<Rightarrow> EmailMessage \<Rightarrow> NotificationDeliveryResult" where
  "smtp_send settings lib message =
     (if notification_max_message_bytes settings < sl_message_bytes lib message then
        delivery_failure ''smtp_message_too_large'' ''Notification message exceeds the configured size limit.'' False
      else
        smtp_result message
          (sl_send lib (smtp_security_mode settings) (smtp_username settings \<noteq> []) message))"

definition smtp_deliver ::
    "ProviderSettings \<Rightarrow> SMTPLibrary \<Rightarrow> DeliveryCall \<Rightarrow> exn + NotificationDeliveryResult" where
  "smtp_deliver settings lib call =
     (if dc_channel call \<noteq> NotificationChannel.EMAIL then
        Inr ((delivery_failure [] ''Unsupported notification channel.'' False)\<lparr>nr_error_code := None\<rparr>)
      else if dc_recipients call = [] then
        Inr (delivery_failure ''invalid_recipient'' ''No valid notification recipients.'' False)
      else if list_ex has_line_break (dc_subject call # dc_recipients call) then
        Inr (delivery_failure ''smtp_header_injection'' ''Notification headers contain prohibited characters.'' False)
      else if 998 < length (dc_subject call) then
        Inr (delivery_failure ''smtp_subject_too_large'' ''Notification subject exceeds the configured limit.'' False)
      else
        let message = smtp_message settings lib call in
        if \<not> header_ok (em_from message) \<or> \<not> header_ok (em_to message) \<or> \<not> header_ok (em_subject message) then
          Inl (ValueError ''Header values may not contain linefeed or carriage return characters'')
        else Inr (smtp_send settings lib message))"

definition SMTPNotificationProvider :: "ProviderSettings \<Rightarrow> SMTPLibrary \<Rightarrow> NotificationProvider" where
  "SMTPNotificationProvider settings lib =
     \<lparr>np_key = ''smtp'', np_deliver = smtp_deliver settings lib\<rparr>"

section \<open>SES\<close>

text \<open>The request to \<^verbatim>\<open>send_email\<close>, its sender before \<^verbatim>\<open>formataddr\<close>, and the replies.\<close>

record SESRequest =
  sq_from_name :: string
  sq_from_email :: string
  sq_to :: "string list"
  sq_subject :: string
  sq_text :: string
  sq_reply_to :: "string list"
  sq_configuration_set :: string

datatype ses_reply = SESTimeout | SESClientError string | SESBotoCoreError | SESResponse json

fun split_char :: "char \<Rightarrow> string \<Rightarrow> string list" where
  "split_char c [] = [[]]"
| "split_char c (x # s) =
     (if x = c then [] # split_char c s
      else (case split_char c s of [] \<Rightarrow> [[x]] | w # ws \<Rightarrow> (x # w) # ws))"

definition valid_address :: "(string \<Rightarrow> bool) \<Rightarrow> string \<Rightarrow> bool" where
  "valid_address valid_email value = (\<not> has_line_break value \<and> valid_email value)"

definition retryable_codes :: "string list" where
  "retryable_codes = [''TooManyRequestsException'', ''LimitExceededException'', ''ServiceUnavailableException'',
     ''InternalFailure'']"

definition ses_result :: "ses_reply \<Rightarrow> NotificationDeliveryResult" where
  "ses_result reply =
     (case reply of
        SESTimeout \<Rightarrow> delivery_failure ''ses_timeout'' ''SES notification delivery timed out.'' True
      | SESClientError code \<Rightarrow>
          delivery_failure (if code \<in> set retryable_codes then ''ses_transient_failure'' else ''ses_permanent_failure'')
            ''SES notification delivery failed.'' (code \<in> set retryable_codes)
      | SESBotoCoreError \<Rightarrow> delivery_failure ''ses_transport_error'' ''SES notification delivery failed.'' True
      | SESResponse message_id \<Rightarrow>
          (case message_id of
             JStr s \<Rightarrow> if s = [] then delivery_failure ''ses_invalid_response''
                         ''SES notification delivery returned invalid evidence.'' False
                       else delivery_success (Some (take 255 s))
           | _ \<Rightarrow> delivery_failure ''ses_invalid_response'' ''SES notification delivery returned invalid evidence.'' False))"

definition ses_deliver ::
    "ProviderSettings \<Rightarrow> (string \<Rightarrow> bool) \<Rightarrow> (SESRequest \<Rightarrow> ses_reply) \<Rightarrow> DeliveryCall \<Rightarrow> NotificationDeliveryResult" where
  "ses_deliver settings valid_email ses_send call =
     (let from_name = strip (aws_ses_from_name settings);
          reply_to = filter (\<lambda>v. v \<noteq> []) (map strip (split_char (CHR '','') (aws_ses_reply_to settings)))
      in if dc_channel call \<noteq> NotificationChannel.EMAIL then
           delivery_failure ''unsupported_channel'' ''Unsupported notification channel.'' False
         else if \<not> aws_ses_enabled settings \<or> \<not> valid_address valid_email (aws_ses_from_email settings) then
           delivery_failure ''ses_configuration_invalid'' ''SES notification delivery is not configured.'' False
         else if dc_recipients call = [] \<or> aws_ses_max_recipients settings < int (length (dc_recipients call)) \<or>
                 list_ex (\<lambda>r. \<not> valid_address valid_email r) (dc_recipients call) then
           delivery_failure ''invalid_recipient'' ''SES notification recipients are invalid.'' False
         else if has_line_break (dc_subject call) \<or> 998 < length (dc_subject call) then
           delivery_failure ''ses_header_injection'' ''Notification headers contain prohibited characters.'' False
         else if notification_max_message_bytes settings < int (length (dc_text_body call)) then
           delivery_failure ''ses_message_too_large'' ''Notification message exceeds the configured size limit.'' False
         else if has_line_break from_name then
           delivery_failure ''ses_header_injection'' ''Notification headers contain prohibited characters.'' False
         else if list_ex (\<lambda>v. \<not> valid_address valid_email v) reply_to then
           delivery_failure ''ses_configuration_invalid'' ''SES reply-to configuration is invalid.'' False
         else
           ses_result (ses_send
             \<lparr>sq_from_name = from_name, sq_from_email = aws_ses_from_email settings, sq_to = dc_recipients call,
              sq_subject = dc_subject call, sq_text = dc_text_body call, sq_reply_to = reply_to,
              sq_configuration_set = aws_ses_configuration_set settings\<rparr>))"

definition SESNotificationProvider ::
    "ProviderSettings \<Rightarrow> (string \<Rightarrow> bool) \<Rightarrow> (SESRequest \<Rightarrow> ses_reply) \<Rightarrow> NotificationProvider" where
  "SESNotificationProvider settings valid_email ses_send =
     \<lparr>np_key = ''ses'', np_deliver = (\<lambda>call. Inr (ses_deliver settings valid_email ses_send call))\<rparr>"

section \<open>Webhooks\<close>

datatype webhook_reply = WebhookTransportError | WebhookResponse int "(string \<times> string) list"

record WebhookNotificationProvider =
  wh_key :: string
  wh_endpoint :: string
  wh_channel :: NotificationChannel
  wh_allowed_host_suffixes :: "string list"
  wh_timeout_seconds :: int
  wh_max_message_bytes :: int

text \<open>The components of \<^verbatim>\<open>urlsplit\<close> the constructor looks at.\<close>

record SplitResult =
  url_scheme :: string
  url_hostname :: "string option"
  url_username :: "string option"
  url_password :: "string option"
  url_fragment :: string

definition validate_endpoint :: "(string \<Rightarrow> SplitResult) \<Rightarrow> WebhookNotificationProvider \<Rightarrow> bool" where
  "validate_endpoint urlsplit wh =
     (let parsed = urlsplit (wh_endpoint wh);
          host = casefold (case url_hostname parsed of None \<Rightarrow> [] | Some h \<Rightarrow> h)
      in url_scheme parsed = ''https'' \<and> host \<noteq> [] \<and> url_username parsed = None \<and> url_password parsed = None \<and>
         url_fragment parsed = [] \<and>
         list_ex (\<lambda>suffix. host = suffix \<or> ends_with (''.'' @ suffix) host) (wh_allowed_host_suffixes wh))"

definition retry_after :: "(string \<times> string) list \<Rightarrow> int option" where
  "retry_after headers =
     map_option (\<lambda>n. min 3600 (max 1 n))
       (parse_int (case map_of headers ''retry-after'' of None \<Rightarrow> [] | Some v \<Rightarrow> v))"

definition clean_text :: "string \<Rightarrow> string" where
  "clean_text s = filter (\<lambda>c. let n = (of_char c :: nat) in \<not> (n \<le> 8 \<or> n = 11 \<or> n = 12 \<or> (14 \<le> n \<and> n \<le> 31))) s"

definition webhook_payload :: "DeliveryCall \<Rightarrow> string" where
  "webhook_payload call =
     json_dumps (JDict [(''text'', JStr (dc_subject call @ [char_of (10 :: nat), char_of (10 :: nat)] @
       clean_text (dc_text_body call)))])"

definition webhook_result :: "webhook_reply \<Rightarrow> NotificationDeliveryResult" where
  "webhook_result reply =
     (case reply of
        WebhookTransportError \<Rightarrow> delivery_failure ''webhook_transport_error'' ''Webhook notification delivery failed.'' True
      | WebhookResponse status headers \<Rightarrow>
          if 200 \<le> status \<and> status < 300 then delivery_success (map_of headers ''x-request-id'')
          else if status = 429 \<or> (500 \<le> status \<and> status < 600) then
            (delivery_failure (''webhook_http_'' @ int_str status) ''Webhook provider temporarily rejected delivery.'' True)
              \<lparr>nr_retry_after_seconds := retry_after headers\<rparr>
          else delivery_failure (''webhook_http_'' @ int_str status)
                 ''Webhook provider permanently rejected delivery.'' False)"

definition webhook_deliver ::
    "(string \<Rightarrow> string \<Rightarrow> int \<Rightarrow> webhook_reply) \<Rightarrow> WebhookNotificationProvider \<Rightarrow> DeliveryCall \<Rightarrow> NotificationDeliveryResult" where
  "webhook_deliver transport wh call =
     (if dc_channel call \<noteq> wh_channel wh then
        delivery_failure ''unsupported_channel'' ''Unsupported notification channel.'' False
      else
        let payload = webhook_payload call in
        if wh_max_message_bytes wh < int (length payload) then
          delivery_failure ''webhook_message_too_large'' ''Webhook message exceeds the configured size limit.'' False
        else webhook_result (transport (wh_endpoint wh) payload (wh_timeout_seconds wh)))"

section \<open>Choosing a provider\<close>

text \<open>What the adapters need of the outside, \<^verbatim>\<open>urlsplit\<close>, and the configured endpoints.\<close>

record ProviderEnvironment =
  pe_smtp :: SMTPLibrary
  pe_valid_email :: "string \<Rightarrow> bool"
  pe_ses_send :: "SESRequest \<Rightarrow> ses_reply"
  pe_transport :: "string \<Rightarrow> string \<Rightarrow> int \<Rightarrow> webhook_reply"
  pe_urlsplit :: "string \<Rightarrow> SplitResult"
  pe_slack_url :: string
  pe_teams_url :: string

definition webhook_provider ::
    "ProviderEnvironment \<Rightarrow> WebhookNotificationProvider \<Rightarrow> exn + NotificationProvider" where
  "webhook_provider env wh =
     (if \<not> validate_endpoint (pe_urlsplit env) wh then
        Inl (ValueError (wh_key wh @ '' webhook endpoint is not approved''))
      else Inr \<lparr>np_key = wh_key wh, np_deliver = (\<lambda>call. Inr (webhook_deliver (pe_transport env) wh call))\<rparr>)"

definition slack_webhook :: "ProviderSettings \<Rightarrow> ProviderEnvironment \<Rightarrow> WebhookNotificationProvider" where
  "slack_webhook settings env =
     \<lparr>wh_key = ''slack'', wh_endpoint = pe_slack_url env, wh_channel = NotificationChannel.SLACK,
      wh_allowed_host_suffixes = [''hooks.slack.com''],
      wh_timeout_seconds = webhook_timeout_seconds settings,
      wh_max_message_bytes = notification_max_message_bytes settings\<rparr>"

definition teams_webhook :: "ProviderSettings \<Rightarrow> ProviderEnvironment \<Rightarrow> WebhookNotificationProvider" where
  "teams_webhook settings env =
     \<lparr>wh_key = ''teams'', wh_endpoint = pe_teams_url env, wh_channel = NotificationChannel.TEAMS,
      wh_allowed_host_suffixes = [''webhook.office.com'', ''logic.azure.com'', ''powerautomate.com''],
      wh_timeout_seconds = webhook_timeout_seconds settings,
      wh_max_message_bytes = notification_max_message_bytes settings\<rparr>"

definition notification_provider_from_settings ::
    "ProviderSettings \<Rightarrow> ProviderEnvironment \<Rightarrow> exn + NotificationProvider" where
  "notification_provider_from_settings settings env =
     (if notification_provider settings = ''smtp'' then Inr (SMTPNotificationProvider settings (pe_smtp env))
      else if notification_provider settings = ''ses'' then
        Inr (SESNotificationProvider settings (pe_valid_email env) (pe_ses_send env))
      else if notification_provider settings = ''slack'' then webhook_provider env (slack_webhook settings env)
      else if notification_provider settings = ''teams'' then webhook_provider env (teams_webhook settings env)
      else Inr (MockNotificationProvider ''success'' 0))"

section \<open>Lemmas on events\<close>

text \<open>Every step adds an event for a critical finding or rewrites one in place.\<close>

definition event_rows :: "db \<Rightarrow> db \<Rightarrow> bool" where
  "event_rows d d' =
     (notification_events d' = notification_events d \<or>
      (\<exists>n n'. n \<in> set (notification_events d) \<and> same_event n n' \<and>
         notification_events d' = put_row ne_id n' (notification_events d)) \<or>
      (\<exists>sha256 f i t. notification_events d' = notification_events d @ [critical_event sha256 f i t]))"

lemma event_rows_same: "notification_events d' = notification_events d \<Longrightarrow> event_rows d d'"
  by (simp add: event_rows_def)

lemma event_rows_add:
  "notification_events d' = notification_events d @ [critical_event sha256 f i t] \<Longrightarrow> event_rows d d'"
  unfolding event_rows_def by blast

lemma event_rows_put:
  assumes "get_event org i d = Inr n" and "same_event n n'"
    and "notification_events d' = put_row ne_id n' (notification_events d)"
  shows "event_rows d d'"
proof -
  have "n \<in> set (notification_events d)"
    using assms(1) by (auto simp: get_event_def split: option.splits dest: find_mem)
  with assms(2,3) show ?thesis unfolding event_rows_def by blast
qed

lemmas event_rows_intros = event_rows_same event_rows_put [OF _ rewritten_events(1)]
  event_rows_put [OF _ rewritten_events(2)] event_rows_put [OF _ rewritten_events(3)]
  event_rows_put [OF _ rewritten_events(4)]

lemma operation_rows:
  "event_rows d (snd (create_for_critical_finding sha256 f i t d))"
  "event_rows d (snd (approve_event ns org i u t d))"
  "event_rows d (snd (revoke_event_approval org i u d))"
  "event_rows d (snd (enqueue_delivery org i u new c t d))"
  "event_rows d (snd (deliver ns org i t d))"
  by (auto simp: create_for_critical_finding_def approve_event_def revoke_event_approval_def enqueue_delivery_def
      deliver_def Let_def event_rows_add split: sum.splits if_splits prod.splits
      dest!: flush_event_frame enqueue_events intro: event_rows_intros)

lemma require_approve_rows:
  "event_rows d (snd (operation d)) \<Longrightarrow> event_rows d (snd (require_approve org u operation d))"
  by (simp add: require_approve_def event_rows_same split: sum.splits)

lemma notification_step_rows: "notification_step d d' \<Longrightarrow> event_rows d d'"
  by (elim notification_stepE)
    (simp_all add: approve_notification_def revoke_notification_approval_def deliver_notification_def
      operation_rows require_approve_rows)

definition mail_events :: "db \<Rightarrow> bool" where
  "mail_events d = (events_ok d \<and> (\<forall>n \<in> set (notification_events d). ne_channel n = NotificationChannel.EMAIL))"

interpretation mail_system: transition_system notification_step mail_events
proof
  fix s t
  assume st: "notification_step s t" and m: "mail_events s"
  have "events_ok t"
    using notification_step_continues [OF st] m by (simp add: mail_events_def events_continue_def)
  moreover have "ne_channel x = NotificationChannel.EMAIL" if "x \<in> set (notification_events t)" for x
    using notification_step_rows [OF st] that m
    by (auto simp: mail_events_def event_rows_def same_event_def critical_event_def dest!: set_put_row)
  ultimately show "mail_events t" by (simp add: mail_events_def)
qed

section \<open>Lemmas on headers\<close>

lemma has_line_break_append [simp]: "has_line_break (a @ b) \<longleftrightarrow> has_line_break a \<or> has_line_break b"
  by (auto simp: has_line_break_def)

lemma no_line_break_subset: "set a \<subseteq> set b \<Longrightarrow> \<not> has_line_break b \<Longrightarrow> \<not> has_line_break a"
  by (auto simp: has_line_break_def list_ex_iff)

lemma set_strip: "set (strip s) \<subseteq> set s"
  by (auto simp: strip_def dest!: set_dropWhileD)

lemma safe_org_name_no_break: "\<not> has_line_break (safe_org_name name)"
proof -
  let ?m = "map (\<lambda>c. if (of_char c :: nat) \<le> 31 then CHR '' '' else c) name"
  have "set (safe_org_name name) \<subseteq> set ?m"
    unfolding safe_org_name_def using set_strip [of ?m] set_take_subset by fastforce
  moreover have "\<not> has_line_break ?m" by (auto simp: has_line_break_def list_ex_iff)
  ultimately show ?thesis by (rule no_line_break_subset)
qed

lemma subject_safe:
  "\<not> has_line_break (fst (email_content ns n d)) \<and> length (fst (email_content ns n d)) \<le> 998"
proof -
  have "\<not> has_line_break (''CloudOps security notification for '' @ safe_org_name name)" for name
    using safe_org_name_no_break [of name] by (simp add: has_line_break_def)
  moreover have "\<exists>name. fst (email_content ns n d) =
      take 998 (''CloudOps security notification for '' @ safe_org_name name)"
    unfolding email_content_def Let_def fst_conv by (rule exI, rule refl)
  ultimately show ?thesis
    using no_line_break_subset [OF set_take_subset] length_take min.cobounded2 by metis
qed

lemma EMAIL_RE_no_space:
  assumes "EMAIL_RE s" and "c \<in> set s"
  shows "\<not> is_space c"
proof -
  have "set s \<subseteq> set (takeWhile (\<lambda>c. c \<noteq> CHR ''@'') s) \<union> {CHR ''@''} \<union>
      set (drop 1 (dropWhile (\<lambda>c. c \<noteq> CHR ''@'') s))"
  proof
    fix c
    assume "c \<in> set s"
    then have "c \<in> set (takeWhile (\<lambda>c. c \<noteq> CHR ''@'') s) \<or> c \<in> set (dropWhile (\<lambda>c. c \<noteq> CHR ''@'') s)"
      by (metis Un_iff set_append takeWhile_dropWhile_id)
    then show "c \<in> set (takeWhile (\<lambda>c. c \<noteq> CHR ''@'') s) \<union> {CHR ''@''} \<union>
        set (drop 1 (dropWhile (\<lambda>c. c \<noteq> CHR ''@'') s))"
      using hd_dropWhile [of "\<lambda>c. c \<noteq> CHR ''@''" s]
      by (cases "dropWhile (\<lambda>c. c \<noteq> CHR ''@'') s") auto
  qed
  moreover have "\<forall>x \<in> set (takeWhile (\<lambda>c. c \<noteq> CHR ''@'') s). \<not> is_space x"
      "\<forall>x \<in> set (drop 1 (dropWhile (\<lambda>c. c \<noteq> CHR ''@'') s)). \<not> is_space x"
    using assms(1) unfolding EMAIL_RE_def Let_def list_all_iff by blast+
  moreover have "\<not> is_space (CHR ''@'')" by (simp add: is_space_def)
  ultimately show ?thesis using assms(2) by blast
qed

lemma line_boundary_space: "line_boundary c \<Longrightarrow> is_space c"
  by (auto simp: line_boundary_def is_space_def)

lemma splitlines_single:
  "\<forall>c \<in> set s. \<not> line_boundary c \<Longrightarrow> length (splitlines line s) \<le> 1"
  by (induction line s rule: splitlines.induct) (auto simp: line_boundary_def)

lemma header_okI: "\<forall>c \<in> set s. \<not> line_boundary c \<Longrightarrow> header_ok s"
  by (simp add: header_ok_def splitlines_single [simplified])

lemma recipients_valid:
  assumes "recipients_for_event n d = Inr recipients"
  shows "recipients \<noteq> []" and "\<forall>r \<in> set recipients. \<forall>c \<in> set r. \<not> is_space c"
proof -
  have "dedupe_recipients [] (map u_email (administrators (ne_organization_id n) d @ evaluation_actor n d)) = Inr recipients"
    and ne: "recipients \<noteq> []"
    using assms by (auto simp: recipients_for_event_def split: sum.splits if_splits)
  from dedupe_recipients_Inr [OF this(1)] have "\<forall>r \<in> set recipients. EMAIL_RE r" by blast
  then show "\<forall>r \<in> set recipients. \<forall>c \<in> set r. \<not> is_space c" using EMAIL_RE_no_space by blast
  show "recipients \<noteq> []" by (rule ne)
qed

lemma set_intercalate: "c \<in> set (intercalate sep xs) \<Longrightarrow> c \<in> set sep \<or> (\<exists>x \<in> set xs. c \<in> set x)"
  by (induction sep xs rule: intercalate.induct) auto

lemma set_safe_org_name:
  assumes "c \<in> set (safe_org_name name)" and "\<forall>c \<in> set name. (of_char c :: nat) < 128"
  shows "31 < (of_char c :: nat) \<and> (of_char c :: nat) < 128"
proof -
  let ?m = "map (\<lambda>c. if (of_char c :: nat) \<le> 31 then CHR '' '' else c) name"
  have "set (safe_org_name name) \<subseteq> set ?m"
    unfolding safe_org_name_def using set_strip [of ?m] set_take_subset by fastforce
  with assms(1) have "c \<in> set ?m" by blast
  with assms(2) show ?thesis by (auto split: if_splits)
qed

lemma subject_chars:
  assumes "c \<in> set (fst (email_content ns n d))"
    and "\<forall>org \<in> set (organizations d). \<forall>c \<in> set (o_name org). (of_char c :: nat) < 128"
  shows "31 < (of_char c :: nat) \<and> (of_char c :: nat) < 128"
proof -
  define name where "name = (case get_row o_id (ne_organization_id n) (organizations d) of
      None \<Rightarrow> ''CloudOps organization'' | Some org \<Rightarrow> o_name org)"
  have name: "\<forall>c \<in> set name. (of_char c :: nat) < 128"
    using assms(2) by (auto simp: name_def get_row_def split: option.splits dest!: find_mem)
  have "fst (email_content ns n d) = take 998 (''CloudOps security notification for '' @ safe_org_name name)"
    unfolding email_content_def name_def Let_def fst_conv by (rule refl)
  with assms(1) have "c \<in> set (''CloudOps security notification for '' @ safe_org_name name)"
    using in_set_takeD by metis
  then have "c \<in> set ''CloudOps security notification for '' \<or> c \<in> set (safe_org_name name)" by simp
  then show ?thesis
  proof
    assume "c \<in> set ''CloudOps security notification for ''"
    then show ?thesis by auto
  qed (rule set_safe_org_name [OF _ name])
qed

text \<open>What every adapter's result satisfies: exactly the failures carry a fixed message.\<close>

definition result_shape :: "NotificationDeliveryResult \<Rightarrow> bool" where
  "result_shape r =
     ((nr_outcome r = SUCCESS \<longrightarrow> nr_sanitized_error r = None \<and> nr_error_code r = None \<and> \<not> nr_retryable r) \<and>
      (nr_outcome r = FAILURE \<longrightarrow> nr_sanitized_error r \<noteq> None \<and> nr_provider_message_id r = None) \<and>
      (\<forall>k. nr_retry_after_seconds r = Some k \<longrightarrow> nr_retryable r \<and> 1 \<le> k \<and> k \<le> 3600))"

lemma result_shape_basic [simp]: "result_shape (delivery_success i)" "result_shape (delivery_failure c m b)"
  by (simp_all add: result_shape_def delivery_success_def delivery_failure_def)

lemma smtp_shape: "smtp_deliver settings lib call = Inr r \<Longrightarrow> result_shape r"
  by (auto simp: smtp_deliver_def smtp_send_def smtp_result_def Let_def result_shape_def delivery_failure_def
      delivery_success_def split: if_splits smtp_reply.splits)

lemma ses_shape: "result_shape (ses_deliver settings valid_email ses_send call)"
  by (simp add: ses_deliver_def ses_result_def Let_def split: ses_reply.splits json.splits)

lemma webhook_shape: "result_shape (webhook_deliver transport wh call)"
  by (auto simp: webhook_deliver_def webhook_result_def Let_def result_shape_def delivery_failure_def
      delivery_success_def retry_after_def split: webhook_reply.splits)

lemma mock_shape: "result_shape (fst (mock_deliver mode k))"
  by (simp add: mock_deliver_def Let_def)

lemma webhook_refuses_mail:
  assumes "notification_provider settings \<in> {''slack'', ''teams''}"
    and "notification_provider_from_settings settings env = Inr provider"
  shows "\<exists>p. notification_provider_from_settings settings (env\<lparr>pe_transport := transport\<rparr>) = Inr p \<and>
    np_key p = np_key provider \<and>
    (\<forall>call. dc_channel call = NotificationChannel.EMAIL \<longrightarrow>
       np_deliver p call = Inr (delivery_failure ''unsupported_channel'' ''Unsupported notification channel.'' False) \<and>
       np_deliver provider call = Inr (delivery_failure ''unsupported_channel'' ''Unsupported notification channel.'' False))"
  using assms by (auto simp: notification_provider_from_settings_def webhook_provider_def webhook_deliver_def
      slack_webhook_def teams_webhook_def split: if_splits)

section \<open>Properties\<close>

text \<open>
  Every configured provider answers in the form the delivery service stores: a success
  carries no error, a failure carries one of the adapter's fixed messages and no message id, and
  a requested delay belongs to a retryable failure and lies between a second and an hour,
  whatever the mail server, SES or the webhook endpoint replied.
\<close>

theorem provider_results_bounded:
  assumes "notification_provider_from_settings settings env = Inr provider"
    and "np_deliver provider call = Inr r"
  shows "(nr_outcome r = SUCCESS \<longrightarrow> nr_sanitized_error r = None \<and> nr_error_code r = None \<and> \<not> nr_retryable r) \<and>
    (nr_outcome r = FAILURE \<longrightarrow> nr_sanitized_error r \<noteq> None \<and> nr_provider_message_id r = None) \<and>
    (\<forall>k. nr_retry_after_seconds r = Some k \<longrightarrow> nr_retryable r \<and> 1 \<le> k \<and> k \<le> 3600)"
proof -
  have "result_shape r"
    using assms by (auto simp: notification_provider_from_settings_def SMTPNotificationProvider_def
        SESNotificationProvider_def webhook_provider_def MockNotificationProvider_def smtp_shape ses_shape
        webhook_shape mock_shape split: if_splits)
  then show ?thesis by (simp add: result_shape_def)
qed

definition sample_smtp :: SMTPLibrary where
  "sample_smtp = \<lparr>sl_message_id = ''<1@cloudops.local>'', sl_message_bytes = (\<lambda>m. int (length (em_content m))),
     sl_send = (\<lambda>security login m. SMTPSent False)\<rparr>"

definition sample_environment :: ProviderEnvironment where
  "sample_environment = \<lparr>pe_smtp = sample_smtp, pe_valid_email = (\<lambda>s. True), pe_ses_send = (\<lambda>q. SESTimeout),
     pe_transport = (\<lambda>url payload t. WebhookResponse 429 [(''retry-after'', ''100000'')]),
     pe_urlsplit = (\<lambda>url. \<lparr>url_scheme = ''https'', url_hostname = Some ''hooks.slack.com'', url_username = None,
       url_password = None, url_fragment = []\<rparr>),
     pe_slack_url = ''https://hooks.slack.com/services/x'', pe_teams_url = ''https://x.webhook.office.com''\<rparr>"

definition provider_settings :: "string \<Rightarrow> ProviderSettings" where
  "provider_settings key = \<lparr>notification_provider = key, smtp_from_name = [], smtp_from_email = ''no-reply'',
     smtp_use_tls = True, smtp_security = ''none'', smtp_username = [], notification_max_message_bytes = 1000000,
     aws_ses_enabled = False, aws_ses_from_email = [], aws_ses_from_name = [], aws_ses_configuration_set = [],
     aws_ses_reply_to = [], aws_ses_max_recipients = 50, webhook_timeout_seconds = 5\<rparr>"

definition slack_call :: DeliveryCall where
  "slack_call = \<lparr>dc_channel = NotificationChannel.SLACK, dc_destination_reference = None, dc_recipients = [],
     dc_subject = ''s'', dc_text_body = ''b'', dc_template_key = ''t''\<rparr>"

definition slack_sample :: NotificationProvider where
  "slack_sample = \<lparr>np_key = ''slack'', np_deliver = (\<lambda>call. Inr (webhook_deliver (pe_transport sample_environment)
     (slack_webhook (provider_settings ''slack'') sample_environment) call))\<rparr>"

lemma slack_sample_chosen:
  "notification_provider_from_settings (provider_settings ''slack'') sample_environment = Inr slack_sample"
proof -
  have "casefold ''hooks.slack.com'' = ''hooks.slack.com''" by (simp add: casefold_def char_lower_def)
  then have "validate_endpoint (pe_urlsplit sample_environment) (slack_webhook (provider_settings ''slack'') sample_environment)"
    by (simp add: validate_endpoint_def sample_environment_def slack_webhook_def Let_def)
  then show ?thesis
    by (simp add: notification_provider_from_settings_def webhook_provider_def slack_sample_def provider_settings_def
        slack_webhook_def)
qed

theorem provider_results_bounded_witness:
  "\<exists>r. np_deliver slack_sample slack_call = Inr r \<and> nr_outcome r = FAILURE \<and> nr_sanitized_error r \<noteq> None"
proof -
  let ?wh = "slack_webhook (provider_settings ''slack'') sample_environment"
  define r where "r = webhook_deliver (pe_transport sample_environment) ?wh slack_call"
  have np: "np_deliver slack_sample slack_call = Inr r" by (simp add: slack_sample_def r_def)
  have "nr_outcome r = FAILURE"
    by (simp add: r_def webhook_deliver_def sample_environment_def webhook_result_def delivery_failure_def Let_def
        slack_call_def slack_webhook_def)
  with np provider_results_bounded [OF slack_sample_chosen np] show ?thesis by blast
qed

text \<open>
  The Slack and Teams webhooks never deliver anything: every event the program ever creates
  has the email channel, so under either provider each delivery of an approved event is refused
  by the adapter as an unsupported channel, the endpoint is not contacted (the outcome is the
  same whatever it would answer), and the event fails for good.
\<close>

theorem webhook_never_delivers:
  assumes "mail_events d0" and "notification_step\<^sup>*\<^sup>* d0 d"
    and "notification_provider settings \<in> {''slack'', ''teams''}"
    and "notification_provider_from_settings settings env = Inr (ns_provider ns)"
    and "deliver ns org i now d = (Inr (n', result), d')"
  shows "nr_error_code result = Some ''unsupported_channel'' \<and> ne_status n' = NotificationStatus.FAILED \<and>
    (\<exists>provider. notification_provider_from_settings settings (env\<lparr>pe_transport := transport\<rparr>) = Inr provider \<and>
       deliver (ns\<lparr>ns_provider := provider\<rparr>) org i now d = deliver ns org i now d)"
proof -
  have mail: "mail_events d" by (rule mail_system.inv_reachable [OF assms(2,1)])
  obtain n recipients where n: "get_event org i d = Inr n"
      "n' = finish_delivery ns result now (n\<lparr>ne_attempt_count := ne_attempt_count n + 1\<rparr>)"
      "ne_status n = NotificationStatus.APPROVED" "recipients_for_event n d = Inr recipients"
    using assms(5) by (rule deliver_cases) blast
  have "n \<in> set (notification_events d)"
    using n(1) by (auto simp: get_event_def split: option.splits dest: find_mem)
  with mail have ch: "ne_channel n = NotificationChannel.EMAIL" by (simp add: mail_events_def)
  let ?refused = "delivery_failure ''unsupported_channel'' ''Unsupported notification channel.'' False"
  obtain p where p: "notification_provider_from_settings settings (env\<lparr>pe_transport := transport\<rparr>) = Inr p"
      "np_key p = np_key (ns_provider ns)"
      "\<And>call. dc_channel call = NotificationChannel.EMAIL \<Longrightarrow> np_deliver p call = Inr ?refused"
      "\<And>call. dc_channel call = NotificationChannel.EMAIL \<Longrightarrow> np_deliver (ns_provider ns) call = Inr ?refused"
    using webhook_refuses_mail [OF assms(3,4)] by blast
  let ?ns' = "ns\<lparr>ns_provider := p\<rparr>"
  have same: "delivery_fingerprint ?ns' = delivery_fingerprint ns" "email_content ?ns' = email_content ns"
      "finish_delivery ?ns' = finish_delivery ns" "delivery_evidence ?ns' = delivery_evidence ns"
    using p(2)
    by (simp_all add: fun_eq_iff delivery_fingerprint_def email_content_def finish_delivery_def delivery_evidence_def)
  have "result = ?refused"
    using assms(5) n(1) p(4) ch by (auto simp: deliver_def Let_def split: sum.splits if_splits)
  moreover from this have "ne_status n' = NotificationStatus.FAILED"
    using n(2) by (simp add: finish_delivery_def delivery_failure_def)
  moreover have "deliver ?ns' org i now d = deliver ns org i now d"
    by (simp add: deliver_def n(1,3,4) same p(3,4) ch Let_def)
  ultimately show ?thesis using p(1) by (simp add: delivery_failure_def)
qed

theorem webhook_never_delivers_witness:
  "\<exists>n' result d'. deliver (sample_notifier\<lparr>ns_provider := slack_sample\<rparr>) 2 400 2000
       (sample_events\<lparr>notification_events := [approve_event_row (sample_notifier\<lparr>ns_provider := slack_sample\<rparr>) 7 1000 sample_event]\<rparr>) =
       (Inr (n', result), d') \<and> ne_status n' = NotificationStatus.FAILED"
proof -
  let ?ns = "sample_notifier\<lparr>ns_provider := slack_sample\<rparr>"
  define e where "e = approve_event_row ?ns 7 1000 sample_event"
  define d where "d = sample_events\<lparr>notification_events := [e]\<rparr>"
  have c: "notification_constraints e"
    by (simp add: event_rules e_def sample_event_def approve_event_row_def critical_event_def)
  have e: "ne_id e = 400" "ne_organization_id e = 2" "ne_status e = NotificationStatus.APPROVED" "ne_attempt_count e = 0"
      "ne_channel e = NotificationChannel.EMAIL" "ne_source_resource_id e = 60"
      "ne_approved_delivery_fingerprint e = Some (delivery_fingerprint ?ns e)"
    by (simp_all add: e_def approve_event_row_def sample_event_def critical_event_def critical_finding_def
        delivery_fingerprint_def)
  have ok: "mail_events d"
    using c e by (simp add: mail_events_def events_ok_def event_ok_def notification_unique_def delivery_attempts_ok_def
        MAX_DELIVERY_ATTEMPTS_def d_def)
  have g: "get_event 2 400 d = Inr e" by (simp add: get_event_def d_def e)
  have "administrators 2 d = administrators 2 sample_events" "evaluation_actor e d = evaluation_actor sample_event sample_events"
    by (simp_all add: administrators_def evaluation_actor_def d_def e)
  then have r: "recipients_for_event e d = Inr [''Owner@Example.com'']"
    using sample_recipients by (simp add: recipients_for_event_def e)
  have p: "np_deliver (ns_provider ?ns)
      \<lparr>dc_channel = ne_channel e, dc_destination_reference = ne_destination_reference e,
       dc_recipients = [''Owner@Example.com''], dc_subject = fst (email_content ?ns e d),
       dc_text_body = snd (email_content ?ns e d), dc_template_key = ne_template_key e\<rparr> =
      Inr (delivery_failure ''unsupported_channel'' ''Unsupported notification channel.'' False)"
    by (simp add: slack_sample_def webhook_deliver_def slack_webhook_def e)
  have "events_ok d" using ok by (simp add: mail_events_def)
  then obtain ev d' n' where del: "deliver ?ns 2 400 2000 d = (Inr (n', delivery_failure ''unsupported_channel'' ''Unsupported notification channel.'' False), d')"
    using deliver_by_steps [OF _ g e(3,7) r p] by blast
  have "notification_provider (provider_settings ''slack'') \<in> {''slack'', ''teams''}" by (simp add: provider_settings_def)
  moreover have "notification_provider_from_settings (provider_settings ''slack'') sample_environment = Inr (ns_provider ?ns)"
    by (simp add: slack_sample_chosen)
  ultimately have "ne_status n' = NotificationStatus.FAILED"
    using webhook_never_delivers [OF ok rtranclp.rtrancl_refl _ _ del] by blast
  with del show ?thesis unfolding d_def e_def by blast
qed

text \<open>
  Mail headers cannot be injected: with an organization name in ASCII, whatever it contains,
  and a sender of one line, the message to the recipients of an event passes every check of the
  SMTP adapter on its headers, so the outcome is that of sending it (or the size limit): no line
  break of the name or of an address reaches the subject or the recipient line.
\<close>

theorem mail_headers_safe:
  assumes "recipients_for_event n d = Inr recipients" and "ne_channel n = NotificationChannel.EMAIL"
    and "\<forall>org \<in> set (organizations d). \<forall>c \<in> set (o_name org). (of_char c :: nat) < 128"
    and "call = \<lparr>dc_channel = ne_channel n, dc_destination_reference = ne_destination_reference n,
            dc_recipients = recipients, dc_subject = fst (email_content ns n d),
            dc_text_body = snd (email_content ns n d), dc_template_key = ne_template_key n\<rparr>"
    and "header_ok (em_from (smtp_message settings lib call))"
  shows "smtp_deliver settings lib call = Inr (smtp_send settings lib (smtp_message settings lib call)) \<and>
    \<not> has_line_break (em_subject (smtp_message settings lib call)) \<and>
    \<not> has_line_break (em_to (smtp_message settings lib call))"
proof -
  note valid = recipients_valid [OF assms(1)]
  have to: "\<not> line_boundary c" if "c \<in> set (intercalate '', '' recipients)" for c
    using that valid(2) line_boundary_space by (auto simp: line_boundary_def dest!: set_intercalate)
  have subject: "\<not> line_boundary c" if "c \<in> set (fst (email_content ns n d))" for c
    using subject_chars [OF that assms(3)] by (auto simp: line_boundary_def)
  have rec: "\<not> has_line_break r" if "r \<in> set recipients" for r
    using valid(2) that line_boundary_space by (auto simp: has_line_break_def list_ex_iff line_boundary_def)
  have to': "\<not> has_line_break (intercalate '', '' recipients)"
    using to by (auto simp: has_line_break_def list_ex_iff line_boundary_def)
  show ?thesis
    using subject_safe [of ns n d] rec valid(1) assms(5) header_okI [of "intercalate '', '' recipients"] to to'
      header_okI [of "fst (email_content ns n d)"] subject
    by (auto simp: smtp_deliver_def assms(2,4) smtp_message_def Let_def list_ex_iff)
qed


theorem mail_headers_safe_witness:
  "\<exists>call. dc_recipients call = [''Owner@Example.com''] \<and>
     smtp_deliver (provider_settings ''smtp'') sample_smtp call =
       Inr (smtp_send (provider_settings ''smtp'') sample_smtp (smtp_message (provider_settings ''smtp'') sample_smtp call))"
proof -
  define call where "call = \<lparr>dc_channel = ne_channel sample_event, dc_destination_reference = ne_destination_reference sample_event,
      dc_recipients = [''Owner@Example.com''], dc_subject = fst (email_content sample_notifier sample_event sample_events),
      dc_text_body = snd (email_content sample_notifier sample_event sample_events),
      dc_template_key = ne_template_key sample_event\<rparr>"
  have "ne_channel sample_event = NotificationChannel.EMAIL"
    by (simp add: sample_event_def approve_event_row_def critical_event_def)
  moreover have "\<forall>org \<in> set (organizations sample_events). \<forall>c \<in> set (o_name org). (of_char c :: nat) < 128"
    by (simp add: sample_events_def sample_org_def)
  moreover have "em_from (smtp_message (provider_settings ''smtp'') sample_smtp call) = ''no-reply''"
    by (simp add: smtp_message_def provider_settings_def strip_def is_space_def)
  moreover have "header_ok ''no-reply''" by (rule header_okI) (simp add: line_boundary_def)
  ultimately show ?thesis
    using mail_headers_safe [OF sample_recipients _ _ call_def, of "provider_settings ''smtp''" sample_smtp]
    by (intro exI [of _ call]) (simp add: call_def)
qed

end
