(* ===== verification/Payloads.thy ===== *)
theory Payloads
  imports Platform_Jobs
begin

text \<open>
  Identifiers in job payloads. Services write \<^verbatim>\<open>str(uuid)\<close> into the payload of a job and the
  worker reads it back with \<^verbatim>\<open>uuid.UUID(value)\<close>; here an identifier is a number below \<open>2 ^ 128\<close>
  and its text is its decimal numeral.
\<close>

section \<open>Reading an identifier back\<close>

lemma of_char_digit: "k < 10 \<Longrightarrow> of_char (char_of (48 + k :: nat)) = 48 + k"
  by (simp add: of_char_of)

lemma is_digit_char [simp]: "k < 10 \<Longrightarrow> is_digit (char_of (48 + k :: nat))"
  by (simp add: is_digit_def)

lemma nat_digits_digits: "list_all is_digit (nat_digits n)"
proof (induction n rule: nat_digits.induct)
  case (1 n)
  then show ?case by (cases "n < 10") (simp_all add: nat_digits.simps [of n])
qed

lemma nat_digits_nonempty: "nat_digits n \<noteq> []"
  by (simp add: nat_digits.simps [of n])

lemma digits_value_append:
  "list_all is_digit s \<Longrightarrow> digits_value acc (s @ t) = Option.bind (digits_value acc s) (\<lambda>n. digits_value n t)"
  by (induction s arbitrary: acc) simp_all

lemma digits_value_nat_digits: "digits_value 0 (nat_digits n) = Some n"
proof (induction n rule: nat_digits.induct)
  case (1 n)
  then show ?case
    by (cases "n < 10") (simp_all add: nat_digits.simps [of n] digits_value_append nat_digits_digits)
qed

lemma unsigned_value_nat_digits: "unsigned_value (nat_digits n) = Some n"
  using nat_digits_digits [of n] nat_digits_nonempty [of n] digits_value_nat_digits [of n]
  by (cases "nat_digits n") (simp_all add: unsigned_value_def)

lemma nat_digits_inj: "nat_digits m = nat_digits n \<longleftrightarrow> m = n"
  using unsigned_value_nat_digits by (metis option.inject)

lemma length_nat_digits: "0 < k \<Longrightarrow> n < 10 ^ k \<Longrightarrow> length (nat_digits n) \<le> k"
proof (induction n arbitrary: k rule: nat_digits.induct)
  case (1 n)
  show ?case
  proof (cases "n < 10")
    case True
    with 1(2) show ?thesis by (simp add: nat_digits.simps [of n])
  next
    case False
    with 1(2,3) obtain m where m: "k = Suc m" "0 < m" by (cases k; cases "k - 1") auto
    then have "n div 10 < 10 ^ m" using 1(3) by (simp add: less_mult_imp_div_less mult.commute)
    then have "length (nat_digits (n div 10)) \<le> m" by (rule 1(1) [OF False m(2)])
    with False m(1) show ?thesis by (simp add: nat_digits.simps [of n])
  qed
qed

section \<open>Identifiers\<close>

definition uuid_bound :: "uuid \<Rightarrow> bool" where
  "uuid_bound u = (u < 2 ^ 128)"

text \<open>\<^verbatim>\<open>uuid.UUID(text)\<close>.\<close>

definition parse_uuid :: "string \<Rightarrow> uuid option" where
  "parse_uuid s =
     (case unsigned_value s of
        None \<Rightarrow> None
      | Some n \<Rightarrow> if uuid_str n = s \<and> uuid_bound n then Some n else None)"

lemma parse_uuid_str [simp]: "uuid_bound u \<Longrightarrow> parse_uuid (uuid_str u) = Some u"
  by (simp add: parse_uuid_def uuid_str_def unsigned_value_nat_digits)

lemma parse_uuid_Some: "parse_uuid s = Some u \<longleftrightarrow> s = uuid_str u \<and> uuid_bound u"
  by (auto simp: parse_uuid_def uuid_str_def unsigned_value_nat_digits split: option.splits if_splits)

lemma uuid_str_inject [simp]: "uuid_str m = uuid_str n \<longleftrightarrow> m = n"
  by (simp add: uuid_str_def nat_digits_inj)

section \<open>Payloads of identifiers are accepted\<close>

definition id_payload :: "(string \<times> uuid) list \<Rightarrow> dict" where
  "id_payload ids = map (\<lambda>(k, u). (k, JStr (uuid_str u))) ids"

lemma length_uuid_str: "uuid_bound u \<Longrightarrow> length (uuid_str u) \<le> 39"
  unfolding uuid_bound_def uuid_str_def by (rule length_nat_digits) simp_all

lemma json_escape_digit: "is_digit c \<Longrightarrow> json_escape_char c = [c]"
  by (auto simp: is_digit_def json_escape_char_def Let_def)

lemma json_quote_digits: "list_all is_digit s \<Longrightarrow> length (json_quote s) = length s + 2"
  by (induction s) (simp_all add: json_quote_def json_escape_digit)

lemma json_escape_length: "length (json_escape_char c) \<le> 6"
  by (simp add: json_escape_char_def Let_def hex2_def)

lemma length_json_quote: "length (json_quote s) \<le> 6 * length s + 2"
proof (induction s)
  case Nil
  then show ?case by (simp add: json_quote_def)
next
  case (Cons c s)
  then show ?case using json_escape_length [of c] by (simp add: json_quote_def)
qed

lemma length_intercalate:
  "(\<And>x. x \<in> set xs \<Longrightarrow> length x + length sep \<le> c) \<Longrightarrow> length (intercalate sep xs) \<le> length xs * c"
proof (induction sep xs rule: intercalate.induct)
  case (3 sep x y xs)
  then have "length (intercalate sep (y # xs)) \<le> length (y # xs) * c" by simp
  moreover have "length x + length sep \<le> c" using 3(2) by simp
  ultimately show ?case by simp
qed (auto intro: add_leD1)

lemma id_payload_ok:
  assumes "length ids \<le> 10" and "\<And>k u. (k, u) \<in> set ids \<Longrightarrow> uuid_bound u"
    and "\<And>k u. (k, u) \<in> set ids \<Longrightarrow> length k \<le> 40 \<and> \<not> SENSITIVE_PAYLOAD_KEY k"
  shows "validated_payload (id_payload ids) = Inr (id_payload ids)"
proof -
  let ?entry = "\<lambda>kv. json_quote (fst kv) @ '':'' @ json_dumps (snd kv)"
  let ?rows = "map ?entry (sort_key fst (id_payload ids))"
  have entry: "length x + length '','' \<le> 285" if x: "x \<in> set ?rows" for x
  proof -
    obtain k u where ku: "(k, u) \<in> set ids" "x = json_quote k @ '':'' @ json_quote (uuid_str u)"
      using x by (auto simp: id_payload_def json_dumps.simps)
    have "length (json_quote (uuid_str u)) \<le> 41"
      using length_uuid_str [OF assms(2) [OF ku(1)]] nat_digits_digits [of u] by (simp add: uuid_str_def json_quote_digits)
    moreover have "length (json_quote k) \<le> 242" using assms(3) [OF ku(1)] length_json_quote [of k] by simp
    ultimately show ?thesis using ku(2) by simp
  qed
  have "length (intercalate '','' ?rows) \<le> length ?rows * 285" by (rule length_intercalate [OF entry])
  then have size: "length (json_dumps (JDict (id_payload ids))) \<le> MAX_PAYLOAD_BYTES"
    using assms(1) by (simp add: json_dumps.simps MAX_PAYLOAD_BYTES_def id_payload_def)
  have "check_payload 0 (JDict (id_payload ids)) = Inr ()"
    using assms(3) by (auto simp: check_payload.simps id_payload_def)
  with size show ?thesis by (simp add: validated_payload_def)
qed

end
