(* ===== verification/Scheduler.thy ===== *)
theory Scheduler
  imports Payloads Accounts
begin

text \<open>
  Scan schedules, \<^verbatim>\<open>app/services/scheduler.py\<close>: their management and the two ways a scan run is
  started, on request and by the scheduler worker. The scheduler only queues work: a run is a row
  in \<open>scan_runs\<close> and a job of type \<open>SCHEDULED_SCAN\<close>. \<open>iso\<close>-formatting of an occurrence is the
  function \<open>isoformat\<close>; the fresh identifiers of the worker are drawn by schedule.
\<close>

section \<open>Lookups and writes\<close>

definition get_account :: "uuid \<Rightarrow> uuid \<Rightarrow> db \<Rightarrow> exn + AWSAccount" where
  "get_account organization_id account_id d =
     (case find (\<lambda>a. acc_id a = account_id \<and> acc_organization_id a = organization_id) (aws_accounts d) of
        None \<Rightarrow> Inl (NotFoundError ''aws_account_not_found'')
      | Some a \<Rightarrow> Inr a)"

definition get_schedule :: "uuid \<Rightarrow> uuid \<Rightarrow> db \<Rightarrow> exn + ScanSchedule" where
  "get_schedule organization_id schedule_id d =
     (case find (\<lambda>s. ss_id s = schedule_id \<and> ss_organization_id s = organization_id) (scan_schedules d) of
        None \<Rightarrow> Inl (NotFoundError ''scan_schedule_not_found'')
      | Some s \<Rightarrow> Inr s)"

definition write_schedule :: "ScanSchedule \<Rightarrow> db \<Rightarrow> db" where
  "write_schedule s d = d\<lparr>scan_schedules := put_row ss_id s (scan_schedules d)\<rparr>"

definition schedule_audit :: "string \<Rightarrow> uuid \<Rightarrow> uuid \<Rightarrow> uuid \<Rightarrow> db \<Rightarrow> db" where
  "schedule_audit event organization_id actor schedule_id =
     record_audit event ''scan_schedule'' AuditResult.SUCCEEDED (Some organization_id) (Some actor) (Some schedule_id)"

section \<open>Managing schedules\<close>

definition new_schedule :: "uuid \<Rightarrow> uuid \<Rightarrow> uuid \<Rightarrow> string \<Rightarrow> int \<Rightarrow> uuid \<Rightarrow> instant \<Rightarrow> ScanSchedule" where
  "new_schedule organization_id account_id actor name interval_minutes new_id now =
     \<lparr>ss_id = new_id, ss_organization_id = organization_id, ss_aws_account_id = account_id, ss_name = name,
      ss_interval_minutes = interval_minutes, ss_enabled = True, ss_created_by_user_id = Some actor,
      ss_last_run_at = None, ss_last_enqueued_at = None,
      ss_next_run_at = Some (now + timedelta_minutes interval_minutes)\<rparr>"

definition create_schedule ::
    "uuid \<Rightarrow> uuid \<Rightarrow> uuid \<Rightarrow> string \<Rightarrow> int \<Rightarrow> uuid \<Rightarrow> instant \<Rightarrow> db \<Rightarrow> (db, ScanSchedule) outcome" where
  "create_schedule organization_id account_id actor name interval_minutes new_id now d =
     (case require_capability organization_id actor SCHEDULE_MANAGE d of
        Inl e \<Rightarrow> raise e d
      | Inr _ \<Rightarrow>
          (case get_account organization_id account_id d of
             Inl e \<Rightarrow> raise e d
           | Inr _ \<Rightarrow>
               let s = new_schedule organization_id account_id actor name interval_minutes new_id now;
                   rows = scan_schedules d @ [s]
               in if scan_schedule_interval_minimum s \<and> keys_distinct ss_id rows then
                    return s (schedule_audit ''scheduler.schedule.created'' organization_id actor new_id
                      (d\<lparr>scan_schedules := rows\<rparr>))
                  else raise IntegrityError d))"

definition enable_row :: "bool \<Rightarrow> instant \<Rightarrow> ScanSchedule \<Rightarrow> ScanSchedule" where
  "enable_row enabled now s =
     s\<lparr>ss_enabled := enabled,
       ss_next_run_at := (if enabled then Some (now + timedelta_minutes (ss_interval_minutes s)) else None)\<rparr>"

definition set_enabled :: "uuid \<Rightarrow> uuid \<Rightarrow> uuid \<Rightarrow> bool \<Rightarrow> instant \<Rightarrow> db \<Rightarrow> (db, ScanSchedule) outcome" where
  "set_enabled organization_id schedule_id actor enabled now d =
     (case require_capability organization_id actor SCHEDULE_MANAGE d of
        Inl e \<Rightarrow> raise e d
      | Inr _ \<Rightarrow>
          (case get_schedule organization_id schedule_id d of
             Inl e \<Rightarrow> raise e d
           | Inr s \<Rightarrow>
               if ss_enabled s = enabled then return s d
               else
                 return (enable_row enabled now s)
                   (schedule_audit (if enabled then ''scheduler.schedule.enabled'' else ''scheduler.schedule.disabled'')
                      organization_id actor schedule_id (write_schedule (enable_row enabled now s) d))))"

text \<open>The foreign key of the runs is \<^verbatim>\<open>ON DELETE SET NULL\<close>.\<close>

definition delete_schedule :: "uuid \<Rightarrow> uuid \<Rightarrow> uuid \<Rightarrow> db \<Rightarrow> (db, unit) outcome" where
  "delete_schedule organization_id schedule_id actor d =
     (case require_capability organization_id actor SCHEDULE_MANAGE d of
        Inl e \<Rightarrow> raise e d
      | Inr _ \<Rightarrow>
          (case get_schedule organization_id schedule_id d of
             Inl e \<Rightarrow> raise e d
           | Inr s \<Rightarrow>
               return ()
                 (schedule_audit ''scheduler.schedule.deleted'' organization_id actor schedule_id
                    (d\<lparr>scan_schedules := filter (\<lambda>x. ss_id x \<noteq> schedule_id) (scan_schedules d),
                       scan_runs := map (\<lambda>r. if sr_schedule_id r = Some schedule_id then r\<lparr>sr_schedule_id := None\<rparr> else r)
                         (scan_runs d)\<rparr>))))"

section \<open>Starting a run\<close>

definition new_run :: "ScanSchedule \<Rightarrow> ScanRunTrigger \<Rightarrow> uuid \<Rightarrow> ScanRun" where
  "new_run s trigger new_id =
     \<lparr>sr_id = new_id, sr_organization_id = ss_organization_id s, sr_aws_account_id = ss_aws_account_id s,
      sr_schedule_id = Some (ss_id s), sr_trigger = trigger, sr_status = ScanRunStatus.PENDING,
      sr_discovery_job_id = None, sr_evaluation_job_id = None, sr_error_summary = None, sr_started_at = None,
      sr_finished_at = None\<rparr>"

definition scan_payload :: "uuid \<Rightarrow> uuid \<Rightarrow> uuid \<Rightarrow> dict" where
  "scan_payload run_id actor schedule_id =
     [(''scan_run_id'', JStr (uuid_str run_id)), (''actor_user_id'', JStr (uuid_str actor)),
      (''schedule_id'', JStr (uuid_str schedule_id))]"

definition run_key :: "(instant \<Rightarrow> string) \<Rightarrow> ScanSchedule \<Rightarrow> ScanRunTrigger \<Rightarrow> uuid \<Rightarrow> instant \<Rightarrow> string" where
  "run_key isoformat s trigger run_id now =
     (if trigger = ScanRunTrigger.MANUAL then ''scan-run:'' @ uuid_str run_id
      else ''schedule:'' @ uuid_str (ss_id s) @ '':'' @
        isoformat (case ss_next_run_at s of None \<Rightarrow> now | Some t \<Rightarrow> t))"

definition scan_request ::
    "(instant \<Rightarrow> string) \<Rightarrow> uuid \<Rightarrow> ScanSchedule \<Rightarrow> ScanRunTrigger \<Rightarrow> uuid \<Rightarrow> uuid \<Rightarrow> instant \<Rightarrow> EnqueueRequest" where
  "scan_request isoformat organization_id s trigger run_id actor now =
     (enqueue_args organization_id PlatformJobType.SCHEDULED_SCAN run_id (run_key isoformat s trigger run_id now))
       \<lparr>eq_payload := Some (scan_payload run_id actor (ss_id s)),
        eq_actor_user_id := (if trigger = ScanRunTrigger.MANUAL then Some actor else None)\<rparr>"

record RunDraw =
  rn_run_id :: uuid
  rn_job_id :: uuid
  rn_correlation_id :: uuid

text \<open>
  \<^verbatim>\<open>run_schedule\<close> inside a transaction: when it raises, the state is that of the session. Only
  the insert of the run is in a savepoint.
\<close>

definition run_schedule ::
    "(instant \<Rightarrow> string) \<Rightarrow> uuid \<Rightarrow> uuid \<Rightarrow> uuid \<Rightarrow> ScanRunTrigger \<Rightarrow> RunDraw \<Rightarrow> instant \<Rightarrow> db \<Rightarrow> (db, ScanRun) outcome" where
  "run_schedule isoformat organization_id schedule_id actor trigger draw now d =
     (case get_schedule organization_id schedule_id d of
        Inl e \<Rightarrow> raise e d
      | Inr s \<Rightarrow>
          (case (if trigger = ScanRunTrigger.MANUAL
                 then map_sum id (\<lambda>m. ()) (require_capability organization_id actor SCHEDULE_MANAGE d) else Inr ()) of
             Inl e \<Rightarrow> raise e d
           | Inr _ \<Rightarrow>
               if \<not> ss_enabled s then raise (ConflictError ''schedule_disabled'') d
               else
                 let r = new_run s trigger (rn_run_id draw); rows = scan_runs d @ [r] in
                 if \<not> (scan_run_status_lifecycle r \<and> keys_distinct sr_id rows \<and> scan_run_unique rows) then
                   raise (ConflictError ''scan_run_already_active'') d
                 else
                   (case enqueue (scan_request isoformat organization_id s trigger (rn_run_id draw) actor now)
                           (rn_job_id draw) (rn_correlation_id draw) now (d\<lparr>scan_runs := rows\<rparr>) of
                      (Inl e, d') \<Rightarrow> raise e d'
                    | (Inr (job, created), d') \<Rightarrow>
                        return r
                          (record_audit ''scheduler.run.enqueued'' ''scan_run'' AuditResult.SUCCEEDED
                             (Some organization_id) (Some actor) (Some (sr_id r)) d'))))"

text \<open>The endpoint: an exception rolls the session back.\<close>

definition run_schedule_now ::
    "(instant \<Rightarrow> string) \<Rightarrow> uuid \<Rightarrow> uuid \<Rightarrow> uuid \<Rightarrow> RunDraw \<Rightarrow> instant \<Rightarrow> db \<Rightarrow> (db, ScanRun) outcome" where
  "run_schedule_now isoformat organization_id schedule_id user draw now d =
     (case run_schedule isoformat organization_id schedule_id user ScanRunTrigger.MANUAL draw now d of
        (Inl e, _) \<Rightarrow> raise e d
      | (Inr r, d') \<Rightarrow> return r d')"

section \<open>The scheduler worker\<close>

definition due :: "instant \<Rightarrow> ScanSchedule \<Rightarrow> bool" where
  "due now s = (ss_enabled s \<and> (case ss_next_run_at s of None \<Rightarrow> False | Some t \<Rightarrow> t \<le> now))"

definition due_schedules :: "nat \<Rightarrow> uuid list \<Rightarrow> instant \<Rightarrow> db \<Rightarrow> ScanSchedule list" where
  "due_schedules batch_size locked now d =
     take batch_size
       (sort_key (\<lambda>s. (case ss_next_run_at s of None \<Rightarrow> now | Some t \<Rightarrow> t, ss_id s))
          (filter (\<lambda>s. due now s \<and> ss_id s \<notin> set locked) (scan_schedules d)))"

definition schedule_actor :: "ScanSchedule \<Rightarrow> db \<Rightarrow> User option" where
  "schedule_actor s d =
     (case ss_created_by_user_id s of None \<Rightarrow> None | Some u \<Rightarrow> get_row u_id u (users d))"

definition postpone :: "instant \<Rightarrow> ScanSchedule \<Rightarrow> ScanSchedule" where
  "postpone now s = s\<lparr>ss_next_run_at := Some (now + timedelta_minutes (ss_interval_minutes s))\<rparr>"

definition advance :: "instant \<Rightarrow> ScanSchedule \<Rightarrow> ScanSchedule" where
  "advance occurrence s =
     s\<lparr>ss_last_enqueued_at := Some occurrence,
       ss_next_run_at := Some (occurrence + timedelta_minutes (ss_interval_minutes s))\<rparr>"

text \<open>One schedule of the batch; every exception but a conflict ends the tick.\<close>

definition run_due ::
    "(instant \<Rightarrow> string) \<Rightarrow> (uuid \<Rightarrow> RunDraw) \<Rightarrow> instant \<Rightarrow> ScanSchedule \<Rightarrow> db \<Rightarrow> (db, ScanRun list) outcome" where
  "run_due isoformat draws now s d =
     (case schedule_actor s d of
        None \<Rightarrow> return [] (write_schedule (postpone now s) d)
      | Some actor \<Rightarrow>
          (case run_schedule isoformat (ss_organization_id s) (ss_id s) (u_id actor) ScanRunTrigger.SCHEDULED
                  (draws (ss_id s)) now d of
             (Inl (ConflictError c), d') \<Rightarrow> return [] d'
           | (Inl e, d') \<Rightarrow> raise e d'
           | (Inr r, d') \<Rightarrow>
               (case ss_next_run_at s of
                  None \<Rightarrow> raise AssertionError d'
                | Some occurrence \<Rightarrow> return [r] (write_schedule (advance occurrence s) d'))))"

fun run_batch ::
    "(instant \<Rightarrow> string) \<Rightarrow> (uuid \<Rightarrow> RunDraw) \<Rightarrow> instant \<Rightarrow> ScanSchedule list \<Rightarrow> db \<Rightarrow> (db, ScanRun list) outcome" where
  "run_batch isoformat draws now [] d = return [] d"
| "run_batch isoformat draws now (s # ss) d =
     (case run_due isoformat draws now s d of
        (Inl e, d') \<Rightarrow> raise e d'
      | (Inr rs, d') \<Rightarrow>
          (case run_batch isoformat draws now ss d' of
             (Inl e, d'') \<Rightarrow> raise e d''
           | (Inr rs', d'') \<Rightarrow> return (rs @ rs') d''))"

definition run_due_schedules ::
    "(instant \<Rightarrow> string) \<Rightarrow> nat \<Rightarrow> (uuid \<Rightarrow> RunDraw) \<Rightarrow> uuid list \<Rightarrow> instant \<Rightarrow> db \<Rightarrow> (db, ScanRun list) outcome" where
  "run_due_schedules isoformat batch_size draws locked now d =
     (case run_batch isoformat draws now (due_schedules batch_size locked now d) d of
        (Inl e, _) \<Rightarrow> raise e d
      | (Inr rs, d') \<Rightarrow> return rs d')"

section \<open>The invariant of schedules and runs\<close>

definition schedule_ok :: "ScanSchedule \<Rightarrow> bool" where
  "schedule_ok s = (scan_schedule_interval_minimum s \<and> (ss_enabled s \<longleftrightarrow> ss_next_run_at s \<noteq> None))"

definition scheduling_ok :: "db \<Rightarrow> bool" where
  "scheduling_ok d =
     (keys_distinct ss_id (scan_schedules d) \<and> list_all schedule_ok (scan_schedules d) \<and>
      keys_distinct sr_id (scan_runs d) \<and> list_all scan_run_status_lifecycle (scan_runs d) \<and>
      scan_run_unique (scan_runs d))"

lemma enqueue_frame [simp]:
  "users (snd (enqueue rq i c now d)) = users d" "scan_runs (snd (enqueue rq i c now d)) = scan_runs d"
  "scan_schedules (snd (enqueue rq i c now d)) = scan_schedules d"
  by (auto simp: enqueue_def Let_def split: sum.splits option.splits)

lemma schedule_audit_frame [simp]:
  "scheduling_ok (schedule_audit e o' a i d) = scheduling_ok d"
  "scan_schedules (schedule_audit e o' a i d) = scan_schedules d" "scan_runs (schedule_audit e o' a i d) = scan_runs d"
  by (simp_all add: schedule_audit_def scheduling_ok_def)

lemma scheduling_cong:
  "scan_schedules d' = scan_schedules d \<Longrightarrow> scan_runs d' = scan_runs d \<Longrightarrow> scheduling_ok d' = scheduling_ok d"
  by (simp add: scheduling_ok_def)

lemma write_schedule_ok:
  assumes "scheduling_ok d" and "schedule_ok s"
  shows "scheduling_ok (write_schedule s d)"
  using assms by (auto simp: scheduling_ok_def write_schedule_def list_all_iff dest!: set_put_row)

lemma get_schedule_Inr:
  "get_schedule organization_id schedule_id d = Inr s \<Longrightarrow>
     s \<in> set (scan_schedules d) \<and> ss_id s = schedule_id \<and> ss_organization_id s = organization_id"
  by (auto simp: get_schedule_def split: option.splits dest!: find_mem)

lemma get_schedule_known:
  assumes "scheduling_ok d" and "s \<in> set (scan_schedules d)"
  shows "get_schedule (ss_organization_id s) (ss_id s) d = Inr s"
proof -
  obtain s' where s': "find (\<lambda>x. ss_id x = ss_id s \<and> ss_organization_id x = ss_organization_id s) (scan_schedules d) = Some s'"
    using assms(2) by (cases "find (\<lambda>x. ss_id x = ss_id s \<and> ss_organization_id x = ss_organization_id s) (scan_schedules d)")
      (auto simp: find_None_iff)
  then have "s' \<in> set (scan_schedules d)" "ss_id s' = ss_id s" by (auto dest: find_mem)
  with assms have "s' = s" by (auto simp: scheduling_ok_def keys_distinct_def distinct_map inj_on_def)
  with s' show ?thesis by (simp add: get_schedule_def)
qed

lemma create_schedule_ok: "scheduling_ok d \<Longrightarrow> scheduling_ok (snd (create_schedule o' a u n i k now d))"
  by (auto simp: create_schedule_def Let_def scheduling_ok_def schedule_ok_def new_schedule_def split: sum.splits)

lemma set_enabled_ok:
  assumes "scheduling_ok d"
  shows "scheduling_ok (snd (set_enabled o' i u enabled now d))"
proof (cases "\<exists>s m. require_capability o' u SCHEDULE_MANAGE d = Inr m \<and> get_schedule o' i d = Inr s \<and> ss_enabled s \<noteq> enabled")
  case False
  with assms show ?thesis by (auto simp: set_enabled_def split: sum.splits)
next
  case True
  then obtain s m where s: "require_capability o' u SCHEDULE_MANAGE d = Inr m" "get_schedule o' i d = Inr s" "ss_enabled s \<noteq> enabled"
    by blast
  have "schedule_ok (enable_row enabled now s)"
    using assms get_schedule_Inr [OF s(2)] by (auto simp: scheduling_ok_def schedule_ok_def list_all_iff enable_row_def
        scan_schedule_interval_minimum_def)
  with assms s show ?thesis by (simp add: set_enabled_def write_schedule_ok)
qed

lemma delete_schedule_ok:
  assumes "scheduling_ok d"
  shows "scheduling_ok (snd (delete_schedule o' i u d))"
proof -
  define f where "f = (\<lambda>r :: ScanRun. if sr_schedule_id r = Some i then r\<lparr>sr_schedule_id := None\<rparr> else r)"
  have r: "sr_id (f r) = sr_id r" "scan_run_status_lifecycle (f r) = scan_run_status_lifecycle r"
      "scan_run_active (f r) = scan_run_active r" "sr_aws_account_id (f r) = sr_aws_account_id r" for r
    by (simp_all add: f_def scan_run_status_lifecycle_def scan_run_active_def)
  have "keys_distinct sr_id (map f rs) = keys_distinct sr_id rs" for rs
    by (simp add: keys_distinct_def comp_def r)
  moreover have "list_all scan_run_status_lifecycle (map f rs) = list_all scan_run_status_lifecycle rs" for rs
    by (simp add: r list_all_iff)
  moreover have "scan_run_unique (map f rs) = scan_run_unique rs" for rs
    by (simp add: r scan_run_unique_def unique_on_def filter_map comp_def)
  moreover have "keys_distinct ss_id (filter P xs)" if "keys_distinct ss_id xs" for P xs
    using that by (simp add: keys_distinct_def distinct_map_filter)
  moreover have "list_all schedule_ok (filter P xs)" if "list_all schedule_ok xs" for P xs
    using that by (auto simp: list_all_iff)
  ultimately show ?thesis
    using assms unfolding delete_schedule_def f_def [symmetric]
    by (auto simp: scheduling_ok_def split: sum.splits)
qed

section \<open>One run\<close>

lemma new_run_fields [simp]:
  "sr_id (new_run s t i) = i" "sr_aws_account_id (new_run s t i) = ss_aws_account_id s"
  "sr_schedule_id (new_run s t i) = Some (ss_id s)" "sr_status (new_run s t i) = ScanRunStatus.PENDING"
  "scan_run_active (new_run s t i)" "scan_run_status_lifecycle (new_run s t i)"
  by (simp_all add: new_run_def scan_run_active_def scan_run_status_lifecycle_def)

text \<open>
  Whatever \<open>run_schedule\<close> does, it adds at most the new run, and a conflict other than a disabled
  schedule leaves the account with an active run.
\<close>

definition account_busy :: "uuid \<Rightarrow> db \<Rightarrow> bool" where
  "account_busy account_id d = (\<exists>r \<in> set (scan_runs d). sr_aws_account_id r = account_id \<and> scan_run_active r)"

definition run_effect :: "ScanSchedule \<Rightarrow> ScanRunTrigger \<Rightarrow> RunDraw \<Rightarrow> db \<Rightarrow> exn + ScanRun \<Rightarrow> db \<Rightarrow> bool" where
  "run_effect s trigger draw d result d' =
     (users d' = users d \<and> scan_schedules d' = scan_schedules d \<and>
      scan_runs d' \<in> {scan_runs d, scan_runs d @ [new_run s trigger (rn_run_id draw)]} \<and> scheduling_ok d' \<and>
      (case result of
         Inr r \<Rightarrow> r = new_run s trigger (rn_run_id draw) \<and> scan_runs d' = scan_runs d @ [r]
       | Inl e \<Rightarrow> (\<exists>c. e = ConflictError c) \<longrightarrow> ss_enabled s \<longrightarrow> rn_run_id draw \<in> sr_id ` set (scan_runs d) \<or>
                   account_busy (ss_aws_account_id s) d'))"

lemma insert_run_refused:
  assumes "scheduling_ok d"
    and "\<not> (scan_run_status_lifecycle (new_run s t i) \<and> keys_distinct sr_id (scan_runs d @ [new_run s t i]) \<and>
            scan_run_unique (scan_runs d @ [new_run s t i]))"
  shows "i \<in> sr_id ` set (scan_runs d) \<or> account_busy (ss_aws_account_id s) d"
  using assms by (auto simp: keys_distinct_snoc scan_run_unique_def unique_on_snoc scheduling_ok_def account_busy_def)

lemma run_schedule_effect:
  assumes "scheduling_ok d" and "get_schedule organization_id schedule_id d = Inr s"
    and "trigger = ScanRunTrigger.SCHEDULED \<or> (\<exists>m. require_capability organization_id actor SCHEDULE_MANAGE d = Inr m)"
    and "run_schedule isoformat organization_id schedule_id actor trigger draw now d = (result, d')"
  shows "run_effect s trigger draw d result d'"
proof -
  let ?r = "new_run s trigger (rn_run_id draw)"
  let ?rows = "scan_runs d @ [?r]"
  let ?ins = "scan_run_status_lifecycle ?r \<and> keys_distinct sr_id ?rows \<and> scan_run_unique ?rows"
  have guard: "(if trigger = ScanRunTrigger.MANUAL
      then map_sum id (\<lambda>m. ()) (require_capability organization_id actor SCHEDULE_MANAGE d) else Inr ()) = Inr ()"
    using assms(3) by auto
  consider "\<not> ss_enabled s" | "ss_enabled s" "\<not> ?ins" | "ss_enabled s" "?ins" by blast
  then show ?thesis
  proof cases
    case 1
    with assms guard show ?thesis by (auto simp: run_schedule_def run_effect_def)
  next
    case 2
    then have "result = Inl (ConflictError ''scan_run_already_active'')" "d' = d"
      using assms(2,4) guard unfolding run_schedule_def by (auto simp: Let_def)
    with insert_run_refused [OF assms(1) 2(2)] assms(1) show ?thesis by (auto simp: run_effect_def)
  next
    case 3
    let ?d1 = "d\<lparr>scan_runs := ?rows\<rparr>"
    have ok: "scheduling_ok ?d1" using assms(1) 3(2) by (simp add: scheduling_ok_def)
    obtain res e where e: "enqueue (scan_request isoformat organization_id s trigger (rn_run_id draw) actor now)
        (rn_job_id draw) (rn_correlation_id draw) now ?d1 = (res, e)" by (metis surj_pair)
    have fr: "users e = users d" "scan_runs e = ?rows" "scan_schedules e = scan_schedules d"
      using e enqueue_frame [of "scan_request isoformat organization_id s trigger (rn_run_id draw) actor now"
          "rn_job_id draw" "rn_correlation_id draw" now ?d1] by simp_all
    have d': "scan_runs d' = ?rows" "users d' = users d" "scan_schedules d' = scan_schedules d"
        "\<forall>r. result = Inr r \<longrightarrow> r = ?r"
      using assms(2,4) guard 3 fr e unfolding run_schedule_def by (auto simp: Let_def split: sum.splits)
    moreover have "account_busy (ss_aws_account_id s) d'" using d'(1) by (auto simp: account_busy_def)
    moreover have "scheduling_ok d'" using ok d'(1,3) by (simp add: scheduling_ok_def)
    ultimately show ?thesis by (auto simp: run_effect_def split: sum.splits)
  qed
qed

section \<open>The job of a run\<close>

text \<open>The job a tick queues for a schedule, and the jobs that stand in its way.\<close>

definition tick_job ::
    "(instant \<Rightarrow> string) \<Rightarrow> (uuid \<Rightarrow> RunDraw) \<Rightarrow> instant \<Rightarrow> User \<Rightarrow> ScanSchedule \<Rightarrow> PlatformJob" where
  "tick_job isoformat draws now actor s =
     (let draw = draws (ss_id s) in
      job_candidate (scan_request isoformat (ss_organization_id s) s ScanRunTrigger.SCHEDULED (rn_run_id draw) (u_id actor) now)
        (scan_payload (rn_run_id draw) (u_id actor) (ss_id s)) (rn_job_id draw) (rn_correlation_id draw) now)"

definition same_occurrence ::
    "(instant \<Rightarrow> string) \<Rightarrow> (uuid \<Rightarrow> RunDraw) \<Rightarrow> instant \<Rightarrow> ScanSchedule \<Rightarrow> PlatformJob \<Rightarrow> bool" where
  "same_occurrence isoformat draws now s j =
     (pj_job_type j = PlatformJobType.SCHEDULED_SCAN \<and> pj_organization_id j = ss_organization_id s \<and>
      (pj_idempotency_key j = take 160 (run_key isoformat s ScanRunTrigger.SCHEDULED (rn_run_id (draws (ss_id s))) now) \<or>
       pj_reference_id j = rn_run_id (draws (ss_id s))))"

lemma tick_job_fields [simp]:
  "pj_job_type (tick_job isoformat draws now actor s) = PlatformJobType.SCHEDULED_SCAN"
  "pj_organization_id (tick_job isoformat draws now actor s) = ss_organization_id s"
  "pj_reference_id (tick_job isoformat draws now actor s) = rn_run_id (draws (ss_id s))"
  "pj_payload_json (tick_job isoformat draws now actor s) = scan_payload (rn_run_id (draws (ss_id s))) (u_id actor) (ss_id s)"
  "pj_status (tick_job isoformat draws now actor s) = PlatformJobStatus.AVAILABLE"
  "pj_available_at (tick_job isoformat draws now actor s) = now"
  "pj_idempotency_key (tick_job isoformat draws now actor s) =
     take 160 (run_key isoformat s ScanRunTrigger.SCHEDULED (rn_run_id (draws (ss_id s))) now)"
  by (simp_all add: tick_job_def job_candidate_def scan_request_def enqueue_args_def Let_def)

lemma enqueue_returned:
  assumes "enqueue rq i c now d = (Inr (job, created), d')"
  shows "job = job_candidate rq (case eq_payload rq of None \<Rightarrow> [] | Some p \<Rightarrow> p) i c now \<and>
      platform_jobs d' = platform_jobs d @ [job] \<or>
    job \<in> set (platform_jobs d) \<and> (same_idempotency rq job \<or> same_active_reference rq job) \<and>
      platform_jobs d' = platform_jobs d"
  using assms by (auto simp: enqueue_def validated_payload_iff Let_def split: sum.splits if_splits option.splits dest: find_mem)

lemma enqueue_keeps_jobs: "set (platform_jobs d) \<subseteq> set (platform_jobs (snd (enqueue rq i c now d)))"
  by (auto simp: enqueue_def Let_def split: sum.splits option.splits)

lemma enqueue_jobs_only:
  "set (platform_jobs (snd (enqueue rq i c now d))) \<subseteq>
     insert (job_candidate rq (case eq_payload rq of None \<Rightarrow> [] | Some p \<Rightarrow> p) i c now) (set (platform_jobs d))"
proof (cases "validated_payload (case eq_payload rq of None \<Rightarrow> [] | Some p \<Rightarrow> p)")
  case (Inl e)
  then show ?thesis by (auto simp: enqueue_def)
next
  case (Inr p)
  then have "p = (case eq_payload rq of None \<Rightarrow> [] | Some p \<Rightarrow> p)" by (simp add: validated_payload_iff)
  with Inr show ?thesis by (simp add: enqueue_def Let_def) (auto split: option.splits)
qed

lemma run_schedule_jobs:
  assumes "get_schedule (ss_organization_id s) (ss_id s) d = Inr s"
    and "run_schedule isoformat (ss_organization_id s) (ss_id s) (u_id actor) ScanRunTrigger.SCHEDULED (draws (ss_id s)) now d = (result, d')"
  shows "set (platform_jobs d) \<subseteq> set (platform_jobs d') \<and>
    set (platform_jobs d') \<subseteq> insert (tick_job isoformat draws now actor s) (set (platform_jobs d)) \<and>
    (\<forall>r. result = Inr r \<longrightarrow> tick_job isoformat draws now actor s \<in> set (platform_jobs d') \<or>
       (\<exists>j \<in> set (platform_jobs d). same_occurrence isoformat draws now s j))"
proof -
  let ?draw = "draws (ss_id s)"
  let ?rq = "scan_request isoformat (ss_organization_id s) s ScanRunTrigger.SCHEDULED (rn_run_id ?draw) (u_id actor) now"
  let ?d1 = "d\<lparr>scan_runs := scan_runs d @ [new_run s ScanRunTrigger.SCHEDULED (rn_run_id ?draw)]\<rparr>"
  let ?e = "enqueue ?rq (rn_job_id ?draw) (rn_correlation_id ?draw) now ?d1"
  have rq: "eq_payload ?rq = Some (scan_payload (rn_run_id ?draw) (u_id actor) (ss_id s))"
      "eq_organization_id ?rq = ss_organization_id s" "eq_job_type ?rq = PlatformJobType.SCHEDULED_SCAN"
      "eq_reference_id ?rq = rn_run_id ?draw"
      "eq_idempotency_key ?rq = run_key isoformat s ScanRunTrigger.SCHEDULED (rn_run_id ?draw) now"
    by (simp_all add: scan_request_def enqueue_args_def)
  have job: "tick_job isoformat draws now actor s = job_candidate ?rq (case eq_payload ?rq of None \<Rightarrow> [] | Some p \<Rightarrow> p)
      (rn_job_id ?draw) (rn_correlation_id ?draw) now"
    by (simp add: tick_job_def rq(1) Let_def)
  have kept: "set (platform_jobs (snd ?e)) \<subseteq> insert (tick_job isoformat draws now actor s) (set (platform_jobs d))"
    using enqueue_jobs_only [of ?rq "rn_job_id ?draw" "rn_correlation_id ?draw" now ?d1] unfolding job by simp
  have "platform_jobs d' = platform_jobs d \<and> (\<forall>r. result \<noteq> Inr r) \<or>
      platform_jobs d' = platform_jobs (snd ?e) \<and> (\<forall>r. result = Inr r \<longrightarrow> (\<exists>x. fst ?e = Inr x))"
    using assms by (auto simp: run_schedule_def Let_def split: sum.splits prod.splits if_splits)
  then show ?thesis
  proof (elim disjE conjE)
    assume d': "platform_jobs d' = platform_jobs (snd ?e)" "\<forall>r. result = Inr r \<longrightarrow> (\<exists>x. fst ?e = Inr x)"
    have "tick_job isoformat draws now actor s \<in> set (platform_jobs d') \<or> (\<exists>j \<in> set (platform_jobs d). same_occurrence isoformat draws now s j)"
      if r: "result = Inr r" for r
    proof -
      obtain j created e where e: "?e = (Inr (j, created), e)" using d'(2) r by (cases ?e) auto
      from enqueue_returned [OF e] show ?thesis
        using d'(1) e rq(2-5) by (auto simp: job same_occurrence_def same_idempotency_def same_active_reference_def)
    qed
    with kept enqueue_keeps_jobs [of ?d1 ?rq "rn_job_id ?draw" "rn_correlation_id ?draw" now] show ?thesis by (simp add: d'(1))
  qed auto
qed

text \<open>With a well-formed queue, the only conflict is an active run of the account.\<close>

definition tick_ready :: "ScanSchedule \<Rightarrow> db \<Rightarrow> bool" where
  "tick_ready s d = (platform_job_unique (platform_jobs d) \<and> list_ex (\<lambda>x. o_id x = ss_organization_id s) (organizations d))"

lemma first_error_mem: "first_error rs = Inl e \<Longrightarrow> Inl e \<in> set rs"
  by (induction rs rule: first_error.induct) auto

lemma check_payload_conflict [simp]: "check_payload k v \<noteq> Inl (ConflictError code)"
proof (induction k v rule: check_payload.induct)
  case (1 depth d)
  have "\<exists>kv \<in> set d. \<not> 4 < depth \<and> \<not> SENSITIVE_PAYLOAD_KEY (fst kv) \<and> Inl (ConflictError code) = check_payload (depth + 1) (snd kv)"
    if "check_payload depth (JDict d) = Inl (ConflictError code)"
    using that by (auto simp: check_payload.simps dest!: first_error_mem split: if_splits)
  with 1 show ?case by metis
next
  case (2 depth xs)
  have "\<exists>x \<in> set xs. \<not> 4 < depth \<and> \<not> 50 < length xs \<and> Inl (ConflictError code) = check_payload (depth + 1) x"
    if "check_payload depth (JList xs) = Inl (ConflictError code)"
    using that by (auto simp: check_payload.simps dest!: first_error_mem split: if_splits)
  with 2 show ?case by metis
qed (simp_all add: check_payload.simps)

lemma enqueue_conflict:
  assumes "enqueue rq i c now d = (Inl (ConflictError code), d')" and "platform_job_unique (platform_jobs d)"
    and "list_ex (\<lambda>x. o_id x = eq_organization_id rq) (organizations d)" and "eq_parent_job_id rq = None"
    and "eq_priority rq = 0" and "eq_max_attempts rq = 3"
  shows False
proof -
  obtain payload where v: "validated_payload (case eq_payload rq of None \<Rightarrow> [] | Some p \<Rightarrow> p) = Inr payload"
      "\<not> job_insertable (job_candidate rq payload i c now) d"
      "find (same_idempotency rq) (platform_jobs d) = None" "find (same_active_reference rq) (platform_jobs d) = None"
    using assms(1) by (auto simp: enqueue_def validated_payload_def Let_def check_payload_conflict split: sum.splits if_splits option.splits)
  have "platform_job_constraints (job_candidate rq payload i c now)"
    by (simp add: platform_job_constraints_def platform_job_lease_state_def job_candidate_def assms(5,6))
  moreover have "platform_job_unique (platform_jobs d @ [job_candidate rq payload i c now])"
    using assms(2) v(3,4)
    by (auto simp: platform_job_unique_def unique_on_snoc find_None_iff same_idempotency_def same_active_reference_def
        job_candidate_def platform_job_active_def ACTIVE_STATUSES_def)
  ultimately show False using v(2) assms(3,4) by (simp add: job_insertable_def job_candidate_def)
qed

lemma enqueue_keeps_unique:
  "platform_job_unique (platform_jobs d) \<Longrightarrow> platform_job_unique (platform_jobs (snd (enqueue rq i c now d)))"
  by (rule enqueue_cases [of rq i c now d]) (simp_all add: job_insertable_def)

lemma enqueue_organizations [simp]: "organizations (snd (enqueue rq i c now d)) = organizations d"
  by (auto simp: enqueue_def Let_def split: sum.splits option.splits)

lemma run_schedule_ready:
  assumes "run_schedule isoformat organization_id schedule_id actor trigger draw now d = (result, d')"
  shows "organizations d' = organizations d \<and> (platform_job_unique (platform_jobs d) \<longrightarrow> platform_job_unique (platform_jobs d'))"
proof -
  have e: "organizations e = organizations d \<and> (platform_job_unique (platform_jobs d) \<longrightarrow> platform_job_unique (platform_jobs e))"
    if "enqueue rq i c now (d\<lparr>scan_runs := rows\<rparr>) = (x, e)" for rq i c rows x e
    using enqueue_organizations [of rq i c now "d\<lparr>scan_runs := rows\<rparr>"] enqueue_keeps_unique [of "d\<lparr>scan_runs := rows\<rparr>" rq i c now] that
    by simp
  show ?thesis
    using assms by (auto simp: run_schedule_def Let_def split: sum.splits prod.splits if_splits dest: e)
qed

lemma run_schedule_conflict:
  assumes "scheduling_ok d" and "get_schedule (ss_organization_id s) (ss_id s) d = Inr s" and "ss_enabled s" and "tick_ready s d"
    and "run_schedule isoformat (ss_organization_id s) (ss_id s) actor ScanRunTrigger.SCHEDULED draw now d = (Inl (ConflictError c), d')"
  shows "d' = d \<and> (rn_run_id draw \<in> sr_id ` set (scan_runs d) \<or> account_busy (ss_aws_account_id s) d)"
proof -
  let ?r = "new_run s ScanRunTrigger.SCHEDULED (rn_run_id draw)"
  let ?rows = "scan_runs d @ [?r]"
  let ?rq = "scan_request isoformat (ss_organization_id s) s ScanRunTrigger.SCHEDULED (rn_run_id draw) actor now"
  have "\<not> (scan_run_status_lifecycle ?r \<and> keys_distinct sr_id ?rows \<and> scan_run_unique ?rows)"
  proof
    assume ins: "scan_run_status_lifecycle ?r \<and> keys_distinct sr_id ?rows \<and> scan_run_unique ?rows"
    obtain x e where e: "enqueue ?rq (rn_job_id draw) (rn_correlation_id draw) now (d\<lparr>scan_runs := ?rows\<rparr>) = (x, e)" by fastforce
    have "x = Inl (ConflictError c)"
      using assms(2,3,5) ins e by (auto simp: run_schedule_def Let_def split: sum.splits prod.splits)
    with e have "enqueue ?rq (rn_job_id draw) (rn_correlation_id draw) now (d\<lparr>scan_runs := ?rows\<rparr>) = (Inl (ConflictError c), e)" by simp
    from enqueue_conflict [OF this] assms(4) show False
      by (simp add: tick_ready_def scan_request_def enqueue_args_def)
  qed
  with assms(2,3,5) insert_run_refused [OF assms(1) this] show ?thesis
    unfolding run_schedule_def by (auto simp: Let_def)
qed

text \<open>The jobs of two schedules of one batch never stand in each other's way.\<close>

lemma takeWhile_colon: "CHR '':'' \<notin> set a \<Longrightarrow> length a < n \<Longrightarrow> takeWhile (\<lambda>c. c \<noteq> CHR '':'') (take n (a @ CHR '':'' # x)) = a"
  by (cases "n - length a") (auto simp: takeWhile_append)

lemma run_key_inject:
  assumes "uuid_bound (ss_id s)" and "uuid_bound (ss_id x)"
    and "take 160 (run_key isoformat s ScanRunTrigger.SCHEDULED i now) = take 160 (run_key isoformat x ScanRunTrigger.SCHEDULED k now)"
  shows "ss_id s = ss_id x"
proof -
  define occurrence where "occurrence = (\<lambda>y :: ScanSchedule. isoformat (case ss_next_run_at y of None \<Rightarrow> now | Some t \<Rightarrow> t))"
  have "take 151 (uuid_str (ss_id s) @ CHR '':'' # occurrence s) = take 151 (uuid_str (ss_id x) @ CHR '':'' # occurrence x)"
    using assms(3) by (simp add: run_key_def occurrence_def)
  moreover have colon: "CHR '':'' \<notin> set (uuid_str u)" for u
    using nat_digits_digits [of u] by (auto simp: uuid_str_def list_all_iff is_digit_def)
  moreover have "length (uuid_str (ss_id s)) < 151" "length (uuid_str (ss_id x)) < 151"
    using length_uuid_str [OF assms(1)] length_uuid_str [OF assms(2)] by simp_all
  ultimately have "uuid_str (ss_id s) = uuid_str (ss_id x)" by (metis takeWhile_colon)
  then show ?thesis by simp
qed

section \<open>A tick of the worker\<close>

text \<open>
  What one tick did with a schedule: nothing, or it moved the occurrence on by one interval and
  queued the run drawn for it, or the creator is gone and the occurrence is one interval from now.
\<close>

definition other_active_run :: "uuid \<Rightarrow> uuid \<Rightarrow> db \<Rightarrow> bool" where
  "other_active_run run_id account_id d =
     (\<exists>r \<in> set (scan_runs d). sr_aws_account_id r = account_id \<and> scan_run_active r \<and> sr_id r \<noteq> run_id)"

lemma other_active_run_mono: "other_active_run i a d \<Longrightarrow> set (scan_runs d) \<subseteq> set (scan_runs d') \<Longrightarrow> other_active_run i a d'"
  by (auto simp: other_active_run_def)

definition tick_row :: "(instant \<Rightarrow> string) \<Rightarrow> (uuid \<Rightarrow> RunDraw) \<Rightarrow> instant \<Rightarrow> ScanSchedule \<Rightarrow> db \<Rightarrow> db \<Rightarrow> bool" where
  "tick_row isoformat draws now s d d' =
     (case schedule_actor s d of
        None \<Rightarrow> postpone now s \<in> set (scan_schedules d')
      | Some actor \<Rightarrow>
          account_busy (ss_aws_account_id s) d' \<and>
          (s \<in> set (scan_schedules d') \<and> (tick_ready s d \<longrightarrow> other_active_run (rn_run_id (draws (ss_id s))) (ss_aws_account_id s) d') \<or>
           (\<exists>occurrence. ss_next_run_at s = Some occurrence \<and> occurrence \<le> now \<and>
              advance occurrence s \<in> set (scan_schedules d') \<and>
              new_run s ScanRunTrigger.SCHEDULED (rn_run_id (draws (ss_id s))) \<in> set (scan_runs d') \<and>
              (tick_job isoformat draws now actor s \<in> set (platform_jobs d') \<or>
               (\<exists>j \<in> set (platform_jobs d). same_occurrence isoformat draws now s j)))))"

lemma write_schedule_other:
  "x \<in> set (scan_schedules d) \<Longrightarrow> ss_id x \<noteq> ss_id s \<Longrightarrow> x \<in> set (scan_schedules (write_schedule s d))"
  by (simp add: write_schedule_def in_put_row_other)

lemma write_schedule_same:
  "x \<in> set (scan_schedules d) \<Longrightarrow> ss_id x = ss_id s \<Longrightarrow> s \<in> set (scan_schedules (write_schedule s d))"
  by (simp add: write_schedule_def in_put_row_same)

lemma write_schedule_frame [simp]:
  "users (write_schedule s d) = users d" "scan_runs (write_schedule s d) = scan_runs d"
  "platform_jobs (write_schedule s d) = platform_jobs d" "organizations (write_schedule s d) = organizations d"
  "account_busy a (write_schedule s d) = account_busy a d"
  by (simp_all add: write_schedule_def account_busy_def)

lemma moved_fields [simp]:
  "ss_id (postpone now s) = ss_id s" "ss_id (advance t s) = ss_id s"
  "schedule_ok s \<Longrightarrow> due now s \<Longrightarrow> schedule_ok (postpone now s)"
  "schedule_ok s \<Longrightarrow> due now s \<Longrightarrow> schedule_ok (advance t s)"
  by (simp_all add: postpone_def advance_def schedule_ok_def scan_schedule_interval_minimum_def due_def)

lemma account_busy_mono: "account_busy a d \<Longrightarrow> set (scan_runs d) \<subseteq> set (scan_runs d') \<Longrightarrow> account_busy a d'"
  by (auto simp: account_busy_def)

text \<open>Everything else stays: what a step of the batch keeps.\<close>

definition tick_frame :: "ScanSchedule set \<Rightarrow> db \<Rightarrow> db \<Rightarrow> bool" where
  "tick_frame touched d d' =
     (users d' = users d \<and> set (scan_runs d) \<subseteq> set (scan_runs d') \<and> scheduling_ok d' \<and>
      set (platform_jobs d) \<subseteq> set (platform_jobs d') \<and> organizations d' = organizations d \<and>
      (platform_job_unique (platform_jobs d) \<longrightarrow> platform_job_unique (platform_jobs d')) \<and>
      (\<forall>x \<in> set (scan_schedules d). ss_id x \<notin> ss_id ` touched \<longrightarrow> x \<in> set (scan_schedules d')))"

lemma run_due_effect:
  assumes "scheduling_ok d" and "s \<in> set (scan_schedules d)" and "due now s"
    and fresh: "rn_run_id (draws (ss_id s)) \<notin> sr_id ` set (scan_runs d)"
    and run: "run_due isoformat draws now s d = (Inr rs, d')"
  shows "tick_row isoformat draws now s d d' \<and> tick_frame {s} d d' \<and>
    set (scan_runs d') \<subseteq> set (scan_runs d) \<union> {new_run s ScanRunTrigger.SCHEDULED (rn_run_id (draws (ss_id s)))} \<and>
    set rs \<subseteq> set (scan_runs d') \<and>
    (\<forall>j \<in> set (platform_jobs d'). j \<in> set (platform_jobs d) \<or> (\<exists>actor. j = tick_job isoformat draws now actor s))"
proof -
  have s: "schedule_ok s" "ss_enabled s" using assms(1-3) by (auto simp: scheduling_ok_def list_all_iff due_def)
  show ?thesis
  proof (cases "schedule_actor s d")
    case None
    then have "rs = []" "d' = write_schedule (postpone now s) d" using run by (simp_all add: run_due_def)
    with None assms s show ?thesis
      by (auto simp: tick_row_def tick_frame_def write_schedule_ok write_schedule_other write_schedule_same)
  next
    case (Some actor)
    obtain result e where e: "run_schedule isoformat (ss_organization_id s) (ss_id s) (u_id actor)
        ScanRunTrigger.SCHEDULED (draws (ss_id s)) now d = (result, e)" by (metis surj_pair)
    have eff: "run_effect s ScanRunTrigger.SCHEDULED (draws (ss_id s)) d result e"
      using run_schedule_effect [OF assms(1) get_schedule_known [OF assms(1,2)] _ e] by simp
    note ready = run_schedule_ready [OF e]
    note jobs = run_schedule_jobs [where s = s and draws = draws and actor = actor, OF get_schedule_known [OF assms(1,2)] e]
    show ?thesis
    proof (cases result)
      case (Inl x)
      then obtain c where c: "x = ConflictError c" "rs = []" "d' = e"
        using run Some e by (auto simp: run_due_def split: exn.splits)
      with eff Inl s(2) fresh have busy: "account_busy (ss_aws_account_id s) d'" by (auto simp: run_effect_def)
      have "other_active_run (rn_run_id (draws (ss_id s))) (ss_aws_account_id s) d'" if ready: "tick_ready s d"
      proof -
        have "run_schedule isoformat (ss_organization_id s) (ss_id s) (u_id actor) ScanRunTrigger.SCHEDULED (draws (ss_id s)) now d =
            (Inl (ConflictError c), d')"
          using e Inl c(1,3) by simp
        from run_schedule_conflict [OF assms(1) get_schedule_known [OF assms(1,2)] s(2) ready this] fresh
        have "account_busy (ss_aws_account_id s) d'" "scan_runs d' = scan_runs d" by simp_all
        then obtain r where "r \<in> set (scan_runs d)" "sr_aws_account_id r = ss_aws_account_id s" "scan_run_active r"
          by (auto simp: account_busy_def)
        moreover from this(1) have "sr_id r \<noteq> rn_run_id (draws (ss_id s))" using fresh by (metis imageI)
        ultimately show ?thesis using \<open>scan_runs d' = scan_runs d\<close> by (auto simp: other_active_run_def)
      qed
      moreover have "s \<in> set (scan_schedules d')" using eff c(3) assms(2) by (simp add: run_effect_def)
      ultimately have "tick_row isoformat draws now s d d'" using busy Some by (simp add: tick_row_def)
      moreover have "tick_frame {s} d d'" using eff c(3) jobs ready by (auto simp: run_effect_def tick_frame_def)
      moreover have "set (scan_runs d') \<subseteq> set (scan_runs d) \<union> {new_run s ScanRunTrigger.SCHEDULED (rn_run_id (draws (ss_id s)))}"
        using eff c(3) by (auto simp: run_effect_def)
      moreover have "\<forall>j \<in> set (platform_jobs d'). j \<in> set (platform_jobs d) \<or> (\<exists>actor. j = tick_job isoformat draws now actor s)"
        using c(3) jobs by auto
      ultimately show ?thesis using c(2) by simp
    next
      case (Inr r)
      then obtain t where t: "ss_next_run_at s = Some t" "rs = [r]" "d' = write_schedule (advance t s) e" "t \<le> now"
        using run Some e assms(3) by (auto simp: run_due_def due_def split: option.splits)
      have "tick_frame {s} d d'" "set rs \<subseteq> set (scan_runs d')"
        "set (scan_runs d') \<subseteq> set (scan_runs d) \<union> {new_run s ScanRunTrigger.SCHEDULED (rn_run_id (draws (ss_id s)))}"
        using t eff Inr Some assms(2,3) s jobs ready
        by (auto simp: run_effect_def tick_frame_def write_schedule_ok write_schedule_other)
      moreover have "advance t s \<in> set (scan_schedules d')"
        using t(3) eff assms(2) by (auto simp: run_effect_def intro!: write_schedule_same [of s])
      then have "tick_row isoformat draws now s d d'"
        using t eff Inr Some jobs by (auto simp: run_effect_def tick_row_def account_busy_def)
      moreover have "\<forall>j \<in> set (platform_jobs d'). j \<in> set (platform_jobs d) \<or> (\<exists>actor. j = tick_job isoformat draws now actor s)"
        using t(3) jobs by auto
      ultimately show ?thesis by simp
    qed
  qed
qed

lemma tick_row_later:
  assumes "tick_row isoformat draws now s d d1" and "tick_frame touched d1 d'" and "ss_id s \<notin> ss_id ` touched"
  shows "tick_row isoformat draws now s d d'"
proof -
  have keep: "x \<in> set (scan_schedules d')" if "x \<in> set (scan_schedules d1)" and "ss_id x = ss_id s" for x
    using that assms(2,3) by (auto simp: tick_frame_def)
  have "set (scan_runs d1) \<subseteq> set (scan_runs d')" "set (platform_jobs d1) \<subseteq> set (platform_jobs d')"
    using assms(2) by (simp_all add: tick_frame_def)
  note mono = account_busy_mono [OF _ this(1)] other_active_run_mono [OF _ this(1)] subsetD [OF this(1)] subsetD [OF this(2)]
  show ?thesis
  proof (cases "schedule_actor s d")
    case None
    with assms(1) keep [of "postpone now s"] show ?thesis by (simp add: tick_row_def)
  next
    case (Some actor)
    with assms(1) have "account_busy (ss_aws_account_id s) d'" by (simp add: tick_row_def mono(1))
    moreover have "s \<in> set (scan_schedules d1) \<Longrightarrow> s \<in> set (scan_schedules d')" by (rule keep) simp_all
    moreover have "advance t s \<in> set (scan_schedules d1) \<Longrightarrow> advance t s \<in> set (scan_schedules d')" for t by (rule keep) simp_all
    ultimately show ?thesis using assms(1) mono unfolding tick_row_def Some option.case by blast
  qed
qed

lemma tick_row_earlier:
  assumes "tick_row isoformat draws now x d1 d'" and "users d1 = users d"
    and "\<forall>j \<in> set (platform_jobs d1). j \<in> set (platform_jobs d) \<or> (\<exists>actor. j = tick_job isoformat draws now actor s)"
    and "ss_id s \<noteq> ss_id x" and "uuid_bound (ss_id s)" and "uuid_bound (ss_id x)"
    and "rn_run_id (draws (ss_id s)) \<noteq> rn_run_id (draws (ss_id x))" and "tick_ready x d \<longrightarrow> tick_ready x d1"
  shows "tick_row isoformat draws now x d d'"
proof -
  have "\<not> same_occurrence isoformat draws now x (tick_job isoformat draws now actor s)" for actor
    using run_key_inject [OF assms(5,6)] assms(4,7) by (auto simp: same_occurrence_def)
  then have "\<exists>j \<in> set (platform_jobs d). same_occurrence isoformat draws now x j"
    if "\<exists>j \<in> set (platform_jobs d1). same_occurrence isoformat draws now x j"
    using that assms(3) by blast
  moreover have "schedule_actor x d1 = schedule_actor x d" using assms(2) by (simp add: schedule_actor_def split: option.split)
  ultimately show ?thesis using assms(1,8) unfolding tick_row_def by (auto split: option.splits)
qed

text \<open>
  The draws of a batch: one fresh run identifier for each of its schedules; identifiers are 128
  bits wide.
\<close>

definition fresh_draws :: "(uuid \<Rightarrow> RunDraw) \<Rightarrow> ScanSchedule list \<Rightarrow> db \<Rightarrow> bool" where
  "fresh_draws draws ss d =
     (distinct (map (\<lambda>s. rn_run_id (draws (ss_id s))) ss) \<and>
      list_all (\<lambda>s. rn_run_id (draws (ss_id s)) \<notin> sr_id ` set (scan_runs d) \<and>
        uuid_bound (rn_run_id (draws (ss_id s))) \<and> uuid_bound (ss_id s)) ss \<and>
      list_all (\<lambda>u. uuid_bound (u_id u)) (users d))"

lemma scan_payload_ok:
  assumes "uuid_bound r" and "uuid_bound u" and "uuid_bound i"
  shows "validated_payload (scan_payload r u i) = Inr (scan_payload r u i)"
proof -
  have "scan_payload r u i = id_payload [(''scan_run_id'', r), (''actor_user_id'', u), (''schedule_id'', i)]"
    by (simp add: scan_payload_def id_payload_def)
  moreover have "\<not> SENSITIVE_PAYLOAD_KEY ''scan_run_id''" "\<not> SENSITIVE_PAYLOAD_KEY ''actor_user_id''"
    "\<not> SENSITIVE_PAYLOAD_KEY ''schedule_id''" by code_simp+
  ultimately show ?thesis using assms by (auto intro!: id_payload_ok)
qed

lemma run_due_returns:
  assumes "scheduling_ok d" and "s \<in> set (scan_schedules d)" and "due now s" and "fresh_draws draws [s] d"
  shows "\<exists>rs d'. run_due isoformat draws now s d = (Inr rs, d')"
proof (cases "schedule_actor s d")
  case None
  then show ?thesis by (simp add: run_due_def)
next
  case (Some actor)
  then have "uuid_bound (u_id actor)"
    using assms(4) by (auto simp: schedule_actor_def fresh_draws_def list_all_iff split: option.splits dest!: get_row_in)
  then have "validated_payload (scan_payload (rn_run_id (draws (ss_id s))) (u_id actor) (ss_id s)) =
      Inr (scan_payload (rn_run_id (draws (ss_id s))) (u_id actor) (ss_id s))"
    using assms(4) by (intro scan_payload_ok) (simp_all add: fresh_draws_def)
  then show ?thesis
    using Some assms(3) get_schedule_known [OF assms(1,2)]
    by (auto simp: run_due_def run_schedule_def enqueue_def scan_request_def enqueue_args_def Let_def due_def
        split: option.splits)
qed

lemma run_batch_effect:
  assumes "scheduling_ok d" and "set ss \<subseteq> set (scan_schedules d)" and "distinct (map ss_id ss)"
    and "\<And>s. s \<in> set ss \<Longrightarrow> due now s" and "fresh_draws draws ss d"
  shows "\<exists>rs d'. run_batch isoformat draws now ss d = (Inr rs, d') \<and>
    (\<forall>s \<in> set ss. tick_row isoformat draws now s d d') \<and> tick_frame (set ss) d d' \<and> set rs \<subseteq> set (scan_runs d')"
  using assms
proof (induction ss arbitrary: d)
  case Nil
  then show ?case by (simp add: tick_frame_def)
next
  case (Cons s ss)
  have fresh: "fresh_draws draws [s] d" using Cons.prems(5) by (simp add: fresh_draws_def)
  obtain rs1 d1 where run: "run_due isoformat draws now s d = (Inr rs1, d1)"
    using run_due_returns [OF Cons.prems(1) _ Cons.prems(4) fresh, of isoformat] Cons.prems(2) by auto
  have s: "tick_row isoformat draws now s d d1" "tick_frame {s} d d1" "set rs1 \<subseteq> set (scan_runs d1)"
      "set (scan_runs d1) \<subseteq> set (scan_runs d) \<union> {new_run s ScanRunTrigger.SCHEDULED (rn_run_id (draws (ss_id s)))}"
      "\<forall>j \<in> set (platform_jobs d1). j \<in> set (platform_jobs d) \<or> (\<exists>actor. j = tick_job isoformat draws now actor s)"
    using run_due_effect [OF Cons.prems(1) _ Cons.prems(4) _ run] Cons.prems(2) fresh by (auto simp: fresh_draws_def)
  have "set ss \<subseteq> set (scan_schedules d1)" and id: "ss_id s \<notin> ss_id ` set ss"
    using Cons.prems(2,3) s(2) by (fastforce simp: tick_frame_def image_iff)+
  moreover have "fresh_draws draws ss d1"
    using Cons.prems(5) s(2,4) by (fastforce simp: fresh_draws_def list_all_iff image_iff tick_frame_def)
  ultimately obtain rs2 d' where IH: "run_batch isoformat draws now ss d1 = (Inr rs2, d')"
      "\<forall>x \<in> set ss. tick_row isoformat draws now x d1 d'" "tick_frame (set ss) d1 d'" "set rs2 \<subseteq> set (scan_runs d')"
    using Cons.IH [of d1] Cons.prems(3,4) s(2) by (auto simp: tick_frame_def)
  have "tick_row isoformat draws now s d d'" using tick_row_later [OF s(1) IH(3) id] .
  moreover have "tick_row isoformat draws now x d d'" if "x \<in> set ss" for x
  proof (rule tick_row_earlier [OF _ _ s(5)])
    show "tick_row isoformat draws now x d1 d'" "users d1 = users d" using IH(2) that s(2) by (simp_all add: tick_frame_def)
    show "ss_id s \<noteq> ss_id x" using id that by auto
    show "tick_ready x d \<longrightarrow> tick_ready x d1" using s(2) by (simp add: tick_ready_def tick_frame_def)
    show "uuid_bound (ss_id s)" "uuid_bound (ss_id x)" "rn_run_id (draws (ss_id s)) \<noteq> rn_run_id (draws (ss_id x))"
      using Cons.prems(5) that by (auto simp: fresh_draws_def list_all_iff)
  qed
  moreover have "tick_frame (set (s # ss)) d d'" using s(2) IH(3) by (auto simp: tick_frame_def)
  moreover have "set (rs1 @ rs2) \<subseteq> set (scan_runs d')" using s(3) IH(3,4) by (auto simp: tick_frame_def)
  ultimately show ?case using run IH(1) by simp
qed

text \<open>What is queued for a schedule that has moved on, spelled out.\<close>

lemma tick_row_queued:
  assumes "tick_row isoformat draws now s d d'" and "set (platform_jobs d) \<subseteq> set (platform_jobs d')" and "tick_ready s d"
  shows "case schedule_actor s d of
      None \<Rightarrow> postpone now s \<in> set (scan_schedules d')
    | Some actor \<Rightarrow>
        account_busy (ss_aws_account_id s) d' \<and>
        (s \<in> set (scan_schedules d') \<and> other_active_run (rn_run_id (draws (ss_id s))) (ss_aws_account_id s) d' \<or>
         (\<exists>occurrence. ss_next_run_at s = Some occurrence \<and> occurrence \<le> now \<and>
            advance occurrence s \<in> set (scan_schedules d') \<and>
            new_run s ScanRunTrigger.SCHEDULED (rn_run_id (draws (ss_id s))) \<in> set (scan_runs d') \<and>
            (\<exists>j \<in> set (platform_jobs d'). pj_job_type j = PlatformJobType.SCHEDULED_SCAN \<and>
               pj_organization_id j = ss_organization_id s \<and>
               (pj_reference_id j = rn_run_id (draws (ss_id s)) \<and> pj_status j = PlatformJobStatus.AVAILABLE \<and>
                pj_available_at j = now \<and>
                pj_payload_json j = scan_payload (rn_run_id (draws (ss_id s))) (u_id actor) (ss_id s) \<or>
                j \<in> set (platform_jobs d) \<and>
                (pj_idempotency_key j = take 160 (''schedule:'' @ uuid_str (ss_id s) @ '':'' @ isoformat occurrence) \<or>
                 pj_reference_id j = rn_run_id (draws (ss_id s)))))))"
proof (cases "schedule_actor s d")
  case None
  with assms show ?thesis by (simp add: tick_row_def)
next
  case (Some actor)
  show ?thesis
  proof (cases "s \<in> set (scan_schedules d') \<and> other_active_run (rn_run_id (draws (ss_id s))) (ss_aws_account_id s) d'")
    case True
    with assms Some show ?thesis by (simp add: tick_row_def)
  next
    case False
    then obtain occurrence where o': "ss_next_run_at s = Some occurrence" "occurrence \<le> now"
        "advance occurrence s \<in> set (scan_schedules d')"
        "new_run s ScanRunTrigger.SCHEDULED (rn_run_id (draws (ss_id s))) \<in> set (scan_runs d')"
        "account_busy (ss_aws_account_id s) d'"
        "tick_job isoformat draws now actor s \<in> set (platform_jobs d') \<or> (\<exists>j \<in> set (platform_jobs d). same_occurrence isoformat draws now s j)"
      using assms(1,3) Some by (auto simp: tick_row_def)
    have key: "run_key isoformat s ScanRunTrigger.SCHEDULED i now = ''schedule:'' @ uuid_str (ss_id s) @ '':'' @ isoformat occurrence" for i
      using o'(1) by (simp add: run_key_def)
    have "\<exists>j \<in> set (platform_jobs d'). pj_job_type j = PlatformJobType.SCHEDULED_SCAN \<and> pj_organization_id j = ss_organization_id s \<and>
        (pj_reference_id j = rn_run_id (draws (ss_id s)) \<and> pj_status j = PlatformJobStatus.AVAILABLE \<and> pj_available_at j = now \<and>
         pj_payload_json j = scan_payload (rn_run_id (draws (ss_id s))) (u_id actor) (ss_id s) \<or>
         j \<in> set (platform_jobs d) \<and>
         (pj_idempotency_key j = take 160 (''schedule:'' @ uuid_str (ss_id s) @ '':'' @ isoformat occurrence) \<or>
          pj_reference_id j = rn_run_id (draws (ss_id s))))"
      using o'(6)
    proof
      assume "tick_job isoformat draws now actor s \<in> set (platform_jobs d')"
      then show ?thesis by (intro bexI [of _ "tick_job isoformat draws now actor s"]) simp_all
    next
      assume "\<exists>j \<in> set (platform_jobs d). same_occurrence isoformat draws now s j"
      then obtain j where "j \<in> set (platform_jobs d)" "same_occurrence isoformat draws now s j" by blast
      with assms(2) show ?thesis unfolding same_occurrence_def key by (intro bexI [of _ j]) auto
    qed
    with Some o'(1-5) show ?thesis by simp
  qed
qed

lemma due_schedules_subset: "set (due_schedules n locked now d) \<subseteq> {s \<in> set (scan_schedules d). due now s}"
  unfolding due_schedules_def by (auto dest: in_set_takeD)

lemma due_schedules_distinct:
  assumes "keys_distinct ss_id (scan_schedules d)"
  shows "distinct (map ss_id (due_schedules n locked now d))"
proof -
  have "distinct (map ss_id (sort_key k (filter P (scan_schedules d))))" for k :: "ScanSchedule \<Rightarrow> instant \<times> uuid" and P
    using assms by (auto simp: keys_distinct_def distinct_map inj_on_def)
  then show ?thesis unfolding due_schedules_def by (simp add: take_map [symmetric])
qed

text \<open>With room in the batch and no row locked elsewhere, every due schedule is in it.\<close>

lemma due_schedules_complete:
  assumes "length (filter (due now) (scan_schedules d)) \<le> n"
  shows "set (due_schedules n [] now d) = {s \<in> set (scan_schedules d). due now s}"
  using assms by (auto simp: due_schedules_def)

section \<open>The scheduler as a transition system\<close>

lemma run_schedule_ok:
  assumes "scheduling_ok d"
  shows "scheduling_ok (snd (run_schedule isoformat o' i u trigger draw now d))"
proof (cases "\<exists>s. get_schedule o' i d = Inr s \<and>
    (trigger = ScanRunTrigger.SCHEDULED \<or> (\<exists>m. require_capability o' u SCHEDULE_MANAGE d = Inr m))")
  case True
  then obtain s where "run_effect s trigger draw d (fst (run_schedule isoformat o' i u trigger draw now d))
      (snd (run_schedule isoformat o' i u trigger draw now d))"
    using run_schedule_effect [OF assms] by (metis prod.collapse)
  then show ?thesis by (simp add: run_effect_def)
next
  case False
  moreover have "trigger = ScanRunTrigger.MANUAL" if "trigger \<noteq> ScanRunTrigger.SCHEDULED"
    using that by (cases trigger) auto
  ultimately show ?thesis using assms
    by (cases "require_capability o' u SCHEDULE_MANAGE d") (auto simp: run_schedule_def split: sum.splits)
qed

lemma run_due_ok:
  assumes "scheduling_ok d" and "schedule_ok s" and "due now s"
  shows "scheduling_ok (snd (run_due isoformat draws now s d))"
proof (cases "schedule_actor s d")
  case None
  then show ?thesis using assms by (simp add: run_due_def write_schedule_ok)
next
  case (Some actor)
  obtain result e where e: "run_schedule isoformat (ss_organization_id s) (ss_id s) (u_id actor)
      ScanRunTrigger.SCHEDULED (draws (ss_id s)) now d = (result, e)" by (metis surj_pair)
  then have "scheduling_ok e" using run_schedule_ok [OF assms(1)] by (metis snd_conv)
  then show ?thesis using Some e assms(2,3)
    by (auto simp: run_due_def write_schedule_ok split: sum.splits exn.splits option.splits)
qed

lemma run_batch_ok:
  "scheduling_ok d \<Longrightarrow> (\<And>s. s \<in> set ss \<Longrightarrow> schedule_ok s \<and> due now s) \<Longrightarrow>
     scheduling_ok (snd (run_batch isoformat draws now ss d))"
proof (induction ss arbitrary: d)
  case Nil
  then show ?case by simp
next
  case (Cons s ss)
  then have "scheduling_ok (snd (run_due isoformat draws now s d))" by (simp add: run_due_ok)
  then show ?case using Cons by (auto split: sum.splits prod.splits) (metis snd_conv)+
qed

lemma run_due_schedules_ok:
  assumes "scheduling_ok d"
  shows "scheduling_ok (snd (run_due_schedules isoformat n draws locked now d))"
proof -
  have "schedule_ok s \<and> due now s" if "s \<in> set (due_schedules n locked now d)" for s
    using that assms due_schedules_subset [of n locked now d] by (auto simp: scheduling_ok_def list_all_iff)
  then have "scheduling_ok (snd (run_batch isoformat draws now (due_schedules n locked now d) d))"
    by (rule run_batch_ok [OF assms])
  with assms show ?thesis by (auto simp: run_due_schedules_def split: sum.splits prod.splits)
qed

inductive scheduler_step :: "db \<Rightarrow> db \<Rightarrow> bool" where
  created: "scheduler_step d (snd (create_schedule o' a u n i k now d))"
| switched: "scheduler_step d (snd (set_enabled o' i u enabled now d))"
| deleted: "scheduler_step d (snd (delete_schedule o' i u d))"
| requested: "scheduler_step d (snd (run_schedule_now isoformat o' i u draw now d))"
| ticked: "scheduler_step d (snd (run_due_schedules isoformat batch_size draws locked now d))"

lemma scheduler_step_ok: "scheduler_step d d' \<Longrightarrow> scheduling_ok d \<Longrightarrow> scheduling_ok d'"
proof (induction rule: scheduler_step.induct)
  case (requested d isoformat o' i u draw now)
  then show ?case using run_schedule_ok [OF requested, of isoformat o' i u ScanRunTrigger.MANUAL draw now]
    by (auto simp: run_schedule_now_def split: sum.splits prod.splits)
qed (simp_all add: create_schedule_ok set_enabled_ok delete_schedule_ok run_due_schedules_ok)

interpretation scheduler: transition_system scheduler_step scheduling_ok
  by unfold_locales (rule scheduler_step_ok)

section \<open>Properties\<close>

text \<open>
  C21. Invariant of the scheduler: after any sequence of schedule creations, switches, deletions,
  requested runs and worker ticks, whatever their outcomes, every schedule keeps an interval of at
  least fifteen minutes and has a next occurrence exactly when it is enabled, every run satisfies
  its status lifecycle constraint, and no account has two active runs.
\<close>

theorem scheduler_invariant:
  assumes "scheduler_step\<^sup>*\<^sup>* d d'" and "scheduling_ok d"
  shows "(\<forall>s \<in> set (scan_schedules d'). 15 \<le> ss_interval_minutes s \<and> (ss_enabled s \<longleftrightarrow> ss_next_run_at s \<noteq> None)) \<and>
    list_all scan_run_status_lifecycle (scan_runs d') \<and>
    (\<forall>r1 \<in> set (scan_runs d'). \<forall>r2 \<in> set (scan_runs d'). scan_run_active r1 \<and> scan_run_active r2 \<and>
       sr_aws_account_id r1 = sr_aws_account_id r2 \<longrightarrow> r1 = r2)"
  using scheduler.inv_reachable [OF assms]
  by (auto simp: scheduling_ok_def schedule_ok_def scan_schedule_interval_minimum_def MINIMUM_INTERVAL_MINUTES_def list_all_iff
      scan_run_unique_def unique_on_def distinct_map inj_on_def)

text \<open>
  C20. A worker tick starts every due scan of its batch, the \<open>batch_size\<close> first due schedules whose row no other
  transaction has locked. With fresh identifiers a tick returns, whatever jobs the queue holds, and for every schedule
  of the batch: when its creator still exists its account has an active
  scan afterwards, and either another active scan of the account stands in the way and the row is as it was, so that the
  occurrence is retried on the next tick, or the new pending run is stored, the occurrence has moved on by exactly one interval, and a job that scans for this
  run is available in the queue, unless the queue held a job of the same occurrence or run before; when
  the creator is gone the next attempt is one interval from now. Other schedules and
  earlier runs and jobs stay as they were. With room in the batch and no row locked every due schedule is in it.
\<close>

theorem due_schedules_start_scans:
  assumes "scheduling_ok d" and "queue_ok d" and "fresh_draws draws (due_schedules batch_size locked now d) d"
    and "\<forall>s \<in> set (scan_schedules d). \<exists>x \<in> set (organizations d). o_id x = ss_organization_id s"
  shows "\<exists>rs d'. run_due_schedules isoformat batch_size draws locked now d = (Inr rs, d') \<and>
    set rs \<subseteq> set (scan_runs d') \<and> set (scan_runs d) \<subseteq> set (scan_runs d') \<and> set (platform_jobs d) \<subseteq> set (platform_jobs d') \<and>
    (\<forall>s \<in> set (due_schedules batch_size locked now d).
       case schedule_actor s d of
         None \<Rightarrow> postpone now s \<in> set (scan_schedules d')
       | Some actor \<Rightarrow>
           (\<exists>r \<in> set (scan_runs d'). sr_aws_account_id r = ss_aws_account_id s \<and> scan_run_active r) \<and>
           (s \<in> set (scan_schedules d') \<and>
            (\<exists>r \<in> set (scan_runs d'). sr_aws_account_id r = ss_aws_account_id s \<and> scan_run_active r \<and>
               sr_id r \<noteq> rn_run_id (draws (ss_id s))) \<or>
            (\<exists>occurrence. ss_next_run_at s = Some occurrence \<and> occurrence \<le> now \<and>
               s\<lparr>ss_last_enqueued_at := Some occurrence,
                 ss_next_run_at := Some (occurrence + timedelta_minutes (ss_interval_minutes s))\<rparr> \<in> set (scan_schedules d') \<and>
               new_run s ScanRunTrigger.SCHEDULED (rn_run_id (draws (ss_id s))) \<in> set (scan_runs d') \<and>
               (\<exists>j \<in> set (platform_jobs d'). pj_job_type j = PlatformJobType.SCHEDULED_SCAN \<and>
                  pj_organization_id j = ss_organization_id s \<and>
                  (pj_reference_id j = rn_run_id (draws (ss_id s)) \<and> pj_status j = PlatformJobStatus.AVAILABLE \<and>
                   pj_available_at j = now \<and>
                   pj_payload_json j = scan_payload (rn_run_id (draws (ss_id s))) (u_id actor) (ss_id s) \<or>
                   j \<in> set (platform_jobs d) \<and>
                   (pj_idempotency_key j = take 160 (''schedule:'' @ uuid_str (ss_id s) @ '':'' @ isoformat occurrence) \<or>
                    pj_reference_id j = rn_run_id (draws (ss_id s)))))))) \<and>
    (\<forall>s \<in> set (scan_schedules d). s \<notin> set (due_schedules batch_size locked now d) \<longrightarrow> s \<in> set (scan_schedules d')) \<and>
    (length (filter (due now) (scan_schedules d)) \<le> batch_size \<and> locked = [] \<longrightarrow>
       (\<forall>s \<in> set (scan_schedules d). due now s \<longrightarrow> s \<in> set (due_schedules batch_size locked now d)))"
proof -
  let ?ss = "due_schedules batch_size locked now d"
  have ss: "set ?ss \<subseteq> set (scan_schedules d)" "\<And>s. s \<in> set ?ss \<Longrightarrow> due now s"
    using due_schedules_subset [of batch_size locked now d] by auto
  have "distinct (map ss_id ?ss)" using due_schedules_distinct assms(1) by (simp add: scheduling_ok_def)
  from run_batch_effect [OF assms(1) ss(1) this ss(2) assms(3), where isoformat = isoformat] obtain rs d' where
    run: "run_batch isoformat draws now ?ss d = (Inr rs, d')" "\<forall>s \<in> set ?ss. tick_row isoformat draws now s d d'"
      "tick_frame (set ?ss) d d'" "set rs \<subseteq> set (scan_runs d')" by auto
  have other: "s \<in> set (scan_schedules d')" if "s \<in> set (scan_schedules d)" and "s \<notin> set ?ss" for s
  proof -
    have "inj_on ss_id (set (scan_schedules d))"
      using assms(1) by (simp add: scheduling_ok_def keys_distinct_def distinct_map)
    then have "ss_id s \<notin> ss_id ` set ?ss" using that ss(1) by (auto dest: inj_onD)
    with that(1) run(3) show ?thesis by (simp add: tick_frame_def)
  qed
  have frame: "set (scan_runs d) \<subseteq> set (scan_runs d')" "set (platform_jobs d) \<subseteq> set (platform_jobs d')"
    using run(3) by (simp_all add: tick_frame_def)
  have ready: "tick_ready s d" if "s \<in> set ?ss" for s
    using assms(2,4) ss(1) that by (auto simp: tick_ready_def queue_ok_def list_ex_iff)
  note rows = tick_row_queued [OF bspec [OF run(2)] frame(2) ready, unfolded advance_def account_busy_def other_active_run_def]
  have "run_due_schedules isoformat batch_size draws locked now d = (Inr rs, d')" using run(1) by (simp add: run_due_schedules_def)
  then show ?thesis
    using rows other due_schedules_complete [of now d batch_size]
    by (intro exI [of _ rs] exI [of _ d'] conjI ballI impI run(4) frame) simp_all
qed

definition schedule_owner :: User where
  "schedule_owner = \<lparr>u_id = 7, u_email = ''Owner@Example.com'', u_normalized_email = ''owner@example.com'',
     u_password_hash = ''hash'', u_full_name = ''Owner'', u_status = UserStatus.ACTIVE, u_is_platform_admin = False,
     u_email_verified_at = None, u_last_login_at = None\<rparr>"

definition hourly_schedule :: ScanSchedule where
  "hourly_schedule = new_schedule 2 3 7 ''hourly'' 60 20 0"

definition sample_schedules :: db where
  "sample_schedules = sample_org\<lparr>users := [schedule_owner], scan_schedules := [hourly_schedule]\<rparr>"

definition schedule_draws :: "uuid \<Rightarrow> RunDraw" where
  "schedule_draws i = \<lparr>rn_run_id = i + 100, rn_job_id = i + 200, rn_correlation_id = i + 300\<rparr>"

lemma sample_schedules_ok: "scheduling_ok sample_schedules"
  by (simp add: sample_schedules_def hourly_schedule_def new_schedule_def sample_org_def empty_db_def scheduling_ok_def
      schedule_ok_def scan_schedule_interval_minimum_def MINIMUM_INTERVAL_MINUTES_def keys_distinct_def scan_run_unique_def
      unique_on_def)

lemma sample_schedules_due:
  "due_schedules 5 [] (timedelta_minutes 90) sample_schedules = [hourly_schedule]"
  "schedule_actor hourly_schedule sample_schedules = Some schedule_owner"
  by (simp_all add: due_schedules_def sample_schedules_def hourly_schedule_def new_schedule_def due_def
      timedelta_minutes_def timedelta_seconds_def schedule_actor_def schedule_owner_def)

theorem scheduler_invariant_witness:
  "list_all scan_run_status_lifecycle
     (scan_runs (snd (run_due_schedules int_str 5 schedule_draws [] (timedelta_minutes 90) sample_schedules)))"
proof -
  have "scheduler_step\<^sup>*\<^sup>* sample_schedules
      (snd (run_due_schedules int_str 5 schedule_draws [] (timedelta_minutes 90) sample_schedules))"
    by (intro r_into_rtranclp ticked)
  from scheduler_invariant [OF this sample_schedules_ok] show ?thesis by blast
qed

theorem due_schedules_start_scans_witness:
  "\<exists>rs d'. run_due_schedules int_str 5 schedule_draws [] (timedelta_minutes 90) sample_schedules = (Inr rs, d') \<and>
     (\<exists>r \<in> set (scan_runs d'). sr_aws_account_id r = 3 \<and> scan_run_active r)"
proof -
  have "fresh_draws schedule_draws (due_schedules 5 [] (timedelta_minutes 90) sample_schedules) sample_schedules"
    unfolding sample_schedules_due by (simp add: fresh_draws_def schedule_draws_def sample_schedules_def sample_org_def empty_db_def
        hourly_schedule_def new_schedule_def schedule_owner_def uuid_bound_def)
  moreover have "queue_ok sample_schedules"
    by (simp add: queue_ok_def sample_schedules_def sample_org_def empty_db_def keys_distinct_def platform_job_unique_def)
  moreover have "\<forall>s \<in> set (scan_schedules sample_schedules). \<exists>x \<in> set (organizations sample_schedules). o_id x = ss_organization_id s"
    by (simp add: sample_schedules_def sample_org_def hourly_schedule_def new_schedule_def)
  moreover note due_schedules_start_scans [OF sample_schedules_ok, of schedule_draws 5 "[]" "timedelta_minutes 90" int_str]
  ultimately
  obtain rs d' where r: "run_due_schedules int_str 5 schedule_draws [] (timedelta_minutes 90) sample_schedules = (Inr rs, d')"
      "\<exists>r \<in> set (scan_runs d'). sr_aws_account_id r = ss_aws_account_id hourly_schedule \<and> scan_run_active r"
    unfolding sample_schedules_due by (auto simp: sample_schedules_due)
  moreover have "ss_aws_account_id hourly_schedule = 3" by (simp add: hourly_schedule_def new_schedule_def)
  ultimately show ?thesis by auto
qed

end
