(* ===== verification/Job_Worker.thy ===== *)
theory Job_Worker
  imports Scheduler Remediation Notifications Evaluations Discovery_Runs
begin

text \<open>
  The job worker, \<^verbatim>\<open>app/worker/job_worker.py\<close>: it leases one job, dispatches it to the handler of its
  type and reports the result to the queue. A handler works in the session in which the failure is
  reported, and nothing is rolled back in between: when a handler raises, the state of its outcome is that of the
  session, which the commit of \<open>fail\<close> writes. After an \<open>IntegrityError\<close> the session is unusable
  until it is rolled back, so that reporting the failure raises again; an exception that leaves
  \<open>process_one\<close> ends the worker process. The renewals of the lease by the heartbeat thread and other
  workers run in sessions of their own and are not interleaved here; the fencing of leases in the queue is
  what protects the worker from them.
\<close>

section \<open>Payload values\<close>

text \<open>
  \<^verbatim>\<open>uuid.UUID(str(value))\<close>. The services write identifiers as strings; a value that is not a
  string is no identifier.
\<close>

definition uuid_value :: "dict \<Rightarrow> string \<Rightarrow> exn + uuid" where
  "uuid_value payload key =
     (case map_of payload key of
        Some (JStr s) \<Rightarrow>
          (case parse_uuid s of
             Some u \<Rightarrow> Inr u
           | None \<Rightarrow> Inl (AppError ''invalid_job_payload'' 409))
      | _ \<Rightarrow> Inl (AppError ''invalid_job_payload'' 409))"

definition optional_uuid :: "dict \<Rightarrow> string \<Rightarrow> exn + uuid option" where
  "optional_uuid payload key =
     (if dict_get key payload = JNull then Inr None else map_sum id Some (uuid_value payload key))"

section \<open>The worker and its draws\<close>

text \<open>
  The services that the worker builds from its settings, and what one call of \<open>process_one\<close> reads
  from the clock and draws as fresh identifiers. \<open>wk_message\<close> gives the message of an exception.
\<close>

record JobWorker =
  wk_worker_id :: string
  wk_lease_seconds :: int
  wk_redact :: "string \<Rightarrow> string"
  wk_message :: "exn \<Rightarrow> string"
  wk_isoformat :: "string \<Rightarrow> string option"
  wk_connect :: "AWSAccount \<Rightarrow> aws_exn + DiscoveryCollector list"
  wk_sha256 :: "string \<Rightarrow> string"
  wk_registry :: "SecurityRule list"
  wk_notifications :: NotificationService
  wk_remediation :: RemediationService

record JobDraw =
  jd_token :: uuid
  jd_locked :: "uuid list"
  jd_acquired_at :: instant
  jd_started_at :: instant
  jd_renewed_at :: instant
  jd_now :: instant
  jd_row_id :: uuid
  jd_child_id :: uuid
  jd_child_correlation :: uuid
  jd_discovery_clock :: DiscoveryClock
  jd_evaluation_clock :: EvaluationClock
  jd_results :: draws
  jd_ended_at :: instant
  jd_closed_at :: instant

datatype job_error =
    RetryableJobError string string "int option"
  | Raised exn

type_synonym 'a handled = "(job_error + 'a) \<times> db"

section \<open>Lookups and writes\<close>

definition job_actor :: "uuid \<Rightarrow> db \<Rightarrow> exn + User" where
  "job_actor actor_id d =
     (case get_row u_id actor_id (users d) of
        None \<Rightarrow> Inl (NotFoundError ''job_actor_not_found'')
      | Some u \<Rightarrow> Inr u)"

definition find_run :: "uuid \<Rightarrow> uuid \<Rightarrow> db \<Rightarrow> ScanRun option" where
  "find_run organization_id run_id d =
     find (\<lambda>r. sr_id r = run_id \<and> sr_organization_id r = organization_id) (scan_runs d)"

definition scan_run :: "uuid \<Rightarrow> uuid \<Rightarrow> db \<Rightarrow> exn + ScanRun" where
  "scan_run organization_id run_id d =
     (case find_run organization_id run_id d of
        None \<Rightarrow> Inl (NotFoundError ''scan_run_not_found'')
      | Some r \<Rightarrow> Inr r)"

definition write_run :: "ScanRun \<Rightarrow> db \<Rightarrow> db" where
  "write_run r d = d\<lparr>scan_runs := put_row sr_id r (scan_runs d)\<rparr>"

definition commit_run :: "ScanRun \<Rightarrow> db \<Rightarrow> exn + db" where
  "commit_run r d =
     (if scan_run_status_lifecycle r \<and> scan_run_unique (scan_runs (write_run r d)) then Inr (write_run r d)
      else Inl IntegrityError)"

text \<open>A child job keeps the correlation of its parent.\<close>

definition child_request ::
    "PlatformJob \<Rightarrow> PlatformJobType \<Rightarrow> uuid \<Rightarrow> string \<Rightarrow> dict \<Rightarrow> EnqueueRequest" where
  "child_request job job_type reference key payload =
     (enqueue_args (pj_organization_id job) job_type reference key)
       \<lparr>eq_payload := Some payload, eq_correlation_id := Some (pj_correlation_id job),
        eq_parent_job_id := Some (pj_id job)\<rparr>"

definition enqueue_child ::
    "JobDraw \<Rightarrow> EnqueueRequest \<Rightarrow> db \<Rightarrow> (db, PlatformJob) outcome" where
  "enqueue_child draw rq d =
     (case enqueue rq (jd_child_id draw) (jd_child_correlation draw) (jd_now draw) d of
        (Inl e, d') \<Rightarrow> raise e d'
      | (Inr (child, created), d') \<Rightarrow> return child d')"

section \<open>The handlers\<close>

definition start_run :: "instant \<Rightarrow> ScanRun \<Rightarrow> ScanRun" where
  "start_run now r = r\<lparr>sr_status := ScanRunStatus.RUNNING, sr_started_at := Some now\<rparr>"

definition discovery_child :: "PlatformJob \<Rightarrow> ScanRun \<Rightarrow> uuid \<Rightarrow> EnqueueRequest" where
  "discovery_child job r actor_id =
     child_request job PlatformJobType.DISCOVERY (sr_aws_account_id r) (''scan-discovery:'' @ uuid_str (sr_id r))
       [(''account_id'', JStr (uuid_str (sr_aws_account_id r))), (''actor_user_id'', JStr (uuid_str actor_id)),
        (''scan_run_id'', JStr (uuid_str (sr_id r)))]"

definition scheduled_scan :: "JobDraw \<Rightarrow> PlatformJob \<Rightarrow> db \<Rightarrow> string handled" where
  "scheduled_scan draw job d =
     (case uuid_value (pj_payload_json job) ''scan_run_id'' of
        Inl e \<Rightarrow> (Inl (Raised e), d)
      | Inr run_id \<Rightarrow>
          (case uuid_value (pj_payload_json job) ''actor_user_id'' of
             Inl e \<Rightarrow> (Inl (Raised e), d)
           | Inr actor_id \<Rightarrow>
               (case find (\<lambda>r. sr_id r = run_id \<and> sr_organization_id r = pj_organization_id job \<and>
                               sr_status r = ScanRunStatus.PENDING) (scan_runs d) of
                  None \<Rightarrow> (Inl (Raised (ConflictError ''scan_run_not_pending'')), d)
                | Some r \<Rightarrow>
                    (case commit_run (start_run (jd_now draw) r) d of
                       Inl e \<Rightarrow> (Inl (Raised e), d)
                     | Inr d1 \<Rightarrow>
                         (case enqueue_child draw (discovery_child job r actor_id) d1 of
                            (Inl e, d2) \<Rightarrow> (Inl (Raised e), d2)
                          | (Inr child, d2) \<Rightarrow> (Inr (uuid_str (pj_id child)), d2))))))"

definition evaluation_child :: "PlatformJob \<Rightarrow> uuid \<Rightarrow> uuid \<Rightarrow> DiscoveryJob \<Rightarrow> ScanRun \<Rightarrow> EnqueueRequest" where
  "evaluation_child job account_id actor_id found r =
     child_request job PlatformJobType.EVALUATION account_id
       (''scan-evaluation:'' @ uuid_str (sr_id r) @ '':'' @ uuid_str (dj_id found))
       [(''account_id'', JStr (uuid_str account_id)), (''actor_user_id'', JStr (uuid_str actor_id)),
        (''discovery_job_id'', JStr (uuid_str (dj_id found))), (''scan_run_id'', JStr (uuid_str (sr_id r)))]"

text \<open>What follows a discovery that belongs to a scan run.\<close>

definition discovery_of_run ::
    "JobDraw \<Rightarrow> PlatformJob \<Rightarrow> uuid \<Rightarrow> uuid \<Rightarrow> DiscoveryJob \<Rightarrow> uuid \<Rightarrow> db \<Rightarrow> string handled" where
  "discovery_of_run draw job account_id actor_id found run_id d =
     (case scan_run (pj_organization_id job) run_id d of
        Inl e \<Rightarrow> (Inl (Raised e), d)
      | Inr r \<Rightarrow>
          (case commit_run (r\<lparr>sr_discovery_job_id := Some (dj_id found)\<rparr>) d of
             Inl e \<Rightarrow> (Inl (Raised e), d)
           | Inr d1 \<Rightarrow>
               (case enqueue_child draw (evaluation_child job account_id actor_id found r) d1 of
                  (Inl e, d2) \<Rightarrow> (Inl (Raised e), d2)
                | (Inr child, d2) \<Rightarrow> (Inr (uuid_str (pj_id child)), d2))))"

definition discovery :: "JobWorker \<Rightarrow> JobDraw \<Rightarrow> PlatformJob \<Rightarrow> db \<Rightarrow> string handled" where
  "discovery wk draw job d =
     (case uuid_value (pj_payload_json job) ''account_id'' of
        Inl e \<Rightarrow> (Inl (Raised e), d)
      | Inr account_id \<Rightarrow>
          (case uuid_value (pj_payload_json job) ''actor_user_id'' of
             Inl e \<Rightarrow> (Inl (Raised e), d)
           | Inr actor_id \<Rightarrow>
               (case job_actor actor_id d of
                  Inl e \<Rightarrow> (Inl (Raised e), d)
                | Inr actor \<Rightarrow>
                    (case start_discovery (wk_isoformat wk) (wk_connect wk) (jd_discovery_clock draw) account_id (u_id actor)
                            (jd_row_id draw) d of
                       (Inl e, d1) \<Rightarrow> (Inl (Raised e), d1)
                     | (Inr found, d1) \<Rightarrow>
                         (case optional_uuid (pj_payload_json job) ''scan_run_id'' of
                            Inl e \<Rightarrow> (Inl (Raised e), d1)
                          | Inr None \<Rightarrow> (Inr (uuid_str (dj_id found)), d1)
                          | Inr (Some run_id) \<Rightarrow>
                              discovery_of_run draw job account_id (u_id actor) found run_id d1)))))"

definition complete_run :: "EvaluationJob \<Rightarrow> instant \<Rightarrow> ScanRun \<Rightarrow> ScanRun" where
  "complete_run evaluated now r =
     r\<lparr>sr_evaluation_job_id := Some (ej_id evaluated), sr_status := ScanRunStatus.COMPLETED, sr_finished_at := Some now\<rparr>"

definition note_run :: "uuid \<Rightarrow> ScanRun \<Rightarrow> db \<Rightarrow> db" where
  "note_run organization_id r d =
     (case sr_schedule_id r of
        None \<Rightarrow> d
      | Some schedule_id \<Rightarrow>
          (case get_schedule organization_id schedule_id d of
             Inl _ \<Rightarrow> d
           | Inr s \<Rightarrow> write_schedule (s\<lparr>ss_last_run_at := sr_finished_at r\<rparr>) d))"

definition evaluation_of_run :: "JobDraw \<Rightarrow> PlatformJob \<Rightarrow> EvaluationJob \<Rightarrow> uuid \<Rightarrow> db \<Rightarrow> string handled" where
  "evaluation_of_run draw job evaluated run_id d =
     (case scan_run (pj_organization_id job) run_id d of
        Inl e \<Rightarrow> (Inl (Raised e), d)
      | Inr r \<Rightarrow>
          (case commit_run (complete_run evaluated (jd_now draw) r) d of
             Inl e \<Rightarrow> (Inl (Raised e), d)
           | Inr d1 \<Rightarrow>
               (Inr (uuid_str (ej_id evaluated)),
                note_run (pj_organization_id job) (complete_run evaluated (jd_now draw) r) d1)))"

definition evaluation :: "JobWorker \<Rightarrow> JobDraw \<Rightarrow> PlatformJob \<Rightarrow> db \<Rightarrow> string handled" where
  "evaluation wk draw job d =
     (case uuid_value (pj_payload_json job) ''account_id'' of
        Inl e \<Rightarrow> (Inl (Raised e), d)
      | Inr account_id \<Rightarrow>
          (case uuid_value (pj_payload_json job) ''actor_user_id'' of
             Inl e \<Rightarrow> (Inl (Raised e), d)
           | Inr actor_id \<Rightarrow>
               (case job_actor actor_id d of
                  Inl e \<Rightarrow> (Inl (Raised e), d)
                | Inr actor \<Rightarrow>
                    (case optional_uuid (pj_payload_json job) ''discovery_job_id'' of
                       Inl e \<Rightarrow> (Inl (Raised e), d)
                     | Inr discovery_job_id \<Rightarrow>
                         (case start_evaluation (wk_sha256 wk) (wk_registry wk) (jd_results draw) (jd_evaluation_clock draw)
                                 account_id (u_id actor) discovery_job_id (jd_row_id draw) d of
                            (Inl e, d1) \<Rightarrow> (Inl (Raised e), d1)
                          | (Inr evaluated, d1) \<Rightarrow>
                              (case optional_uuid (pj_payload_json job) ''scan_run_id'' of
                                 Inl e \<Rightarrow> (Inl (Raised e), d1)
                               | Inr None \<Rightarrow> (Inr (uuid_str (ej_id evaluated)), d1)
                               | Inr (Some run_id) \<Rightarrow> evaluation_of_run draw job evaluated run_id d1))))))"

text \<open>\<^verbatim>\<open>a or b\<close> on optional strings.\<close>

definition text_or :: "string option \<Rightarrow> string \<Rightarrow> string" where
  "text_or a b = (case a of None \<Rightarrow> b | Some s \<Rightarrow> if s = [] then b else s)"

definition notification_delivery :: "JobWorker \<Rightarrow> JobDraw \<Rightarrow> PlatformJob \<Rightarrow> db \<Rightarrow> string handled" where
  "notification_delivery wk draw job d =
     (case uuid_value (pj_payload_json job) ''notification_event_id'' of
        Inl e \<Rightarrow> (Inl (Raised e), d)
      | Inr event_id \<Rightarrow>
          (case deliver (wk_notifications wk) (pj_organization_id job) event_id (jd_now draw) d of
             (Inl e, d1) \<Rightarrow> (Inl (Raised e), d1)
           | (Inr (event, result), d1) \<Rightarrow>
               if ne_status event = NotificationStatus.APPROVED \<and> nr_retryable result then
                 (Inl (RetryableJobError (text_or (nr_error_code result) ''notification_provider_transient'')
                    (text_or (nr_sanitized_error result) ''The notification provider reported a retryable failure.'')
                    (nr_retry_after_seconds result)), d1)
               else if ne_status event \<noteq> NotificationStatus.DELIVERED then
                 (Inl (Raised (ConflictError ''notification_delivery_terminal'')), d1)
               else (Inr (uuid_str (ne_id event)), d1)))"

text \<open>
  What \<open>execute\<close> leaves in the session when the executor or a validator of the evidence raises: the
  attributes set up to there.
\<close>

definition evidence_residue ::
    "uuid \<Rightarrow> RemediationExecutionResult \<Rightarrow> RemediationRequest \<Rightarrow> RemediationRequest" where
  "evidence_residue lease result r =
     (let r1 = r\<lparr>rr_execution_lease_id := Some lease, rr_attempt_count := rr_attempt_count r + 1,
                 rr_before_state_json :=
                   Some (case xr_rollback_state result of
                           None \<Rightarrow> xr_before_state result
                         | Some s \<Rightarrow> if s = [] then xr_before_state result else s)\<rparr>
      in case reject_sensitive_execution_evidence ''precondition_evidence_json''
                (Some (case xr_precondition_evidence result of None \<Rightarrow> [] | Some e \<Rightarrow> e)) of
           Inl e \<Rightarrow> r1
         | Inr precondition \<Rightarrow>
             let r2 = r1\<lparr>rr_precondition_evidence_json := the precondition\<rparr>
             in case reject_sensitive_execution_evidence ''verification_result_json'' (xr_verification_result result) of
                  Inl e \<Rightarrow> r2
                | Inr verification \<Rightarrow> r2\<lparr>rr_verification_result_json := verification\<rparr>)"

definition execution_residue ::
    "RemediationService \<Rightarrow> uuid \<Rightarrow> uuid \<Rightarrow> uuid \<Rightarrow> db \<Rightarrow> exn + db" where
  "execution_residue sv organization_id request_id lease d =
     (case get_request organization_id request_id d of
        Inl e \<Rightarrow> Inr d
      | Inr r \<Rightarrow>
          (case execution_preconditions sv organization_id r d of
             Inl e \<Rightarrow> Inr d
           | Inr finding \<Rightarrow>
               (case choose_executor sv organization_id lease r finding d of
                  Inl e \<Rightarrow> Inr d
                | Inr (executor, ctxt) \<Rightarrow>
                    (case ex_execute executor
                            \<lparr>rc_action_key = rr_action_key r, rc_finding_id = rr_finding_id r,
                             rc_snapshot_hash = rr_request_snapshot_hash r, rc_dry_run = rr_dry_run r,
                             rc_context = ctxt\<rparr> of
                       Inl e \<Rightarrow> flush_request (r\<lparr>rr_execution_lease_id := Some lease\<rparr>) d
                     | Inr result \<Rightarrow> flush_request (evidence_residue lease result r) d))))"

definition rediscovery_child :: "PlatformJob \<Rightarrow> RemediationRequest \<Rightarrow> uuid \<Rightarrow> EnqueueRequest" where
  "rediscovery_child job r actor_id =
     (child_request job PlatformJobType.DISCOVERY (rr_aws_account_id r) (''remediation-rediscovery:'' @ uuid_str (rr_id r))
        [(''aws_account_id'', JStr (uuid_str (rr_aws_account_id r))), (''actor_user_id'', JStr (uuid_str actor_id))])
       \<lparr>eq_actor_user_id := Some actor_id\<rparr>"

definition executed :: "JobDraw \<Rightarrow> PlatformJob \<Rightarrow> uuid \<Rightarrow> RemediationRequest \<Rightarrow> db \<Rightarrow> string handled" where
  "executed draw job actor_id r d =
     (if rr_status r = RemediationStatus.APPROVED then
        (Inl (RetryableJobError ''remediation_retryable'' ''The simulated remediation requested a retry.'' None), d)
      else if rr_status r \<noteq> RemediationStatus.SUCCEEDED then
        (Inl (Raised (ConflictError ''remediation_terminal_failure'')), d)
      else if rr_execution_mode r = RemediationExecutionMode.LIVE_AWS then
        (case enqueue_child draw (rediscovery_child job r actor_id) d of
           (Inl e, d') \<Rightarrow> (Inl (Raised e), d')
         | (Inr child, d') \<Rightarrow> (Inr (uuid_str (rr_id r)), d'))
      else (Inr (uuid_str (rr_id r)), d))"

definition remediation :: "JobWorker \<Rightarrow> JobDraw \<Rightarrow> PlatformJob \<Rightarrow> db \<Rightarrow> string handled" where
  "remediation wk draw job d =
     (case uuid_value (pj_payload_json job) ''remediation_request_id'' of
        Inl e \<Rightarrow> (Inl (Raised e), d)
      | Inr request_id \<Rightarrow>
          (case uuid_value (pj_payload_json job) ''actor_user_id'' of
             Inl e \<Rightarrow> (Inl (Raised e), d)
           | Inr actor_id \<Rightarrow>
               (case job_actor actor_id d of
                  Inl e \<Rightarrow> (Inl (Raised e), d)
                | Inr actor \<Rightarrow>
                    (case require_capability (pj_organization_id job) (u_id actor) REMEDIATION_EXECUTE d of
                       Inl e \<Rightarrow> (Inl (Raised e), d)
                     | Inr _ \<Rightarrow>
                         (case execute (wk_remediation wk) (pj_organization_id job) request_id (pj_id job) (jd_now draw) d of
                            (Inl e, d1) \<Rightarrow>
                              if e = IntegrityError then (Inl (Raised e), d1)
                              else
                                (case execution_residue (wk_remediation wk) (pj_organization_id job) request_id (pj_id job) d of
                                   Inl e' \<Rightarrow> (Inl (Raised e'), d)
                                 | Inr d2 \<Rightarrow> (Inl (Raised e), d2))
                          | (Inr r, d1) \<Rightarrow> executed draw job (u_id actor) r d1)))))"

definition dispatch :: "JobWorker \<Rightarrow> JobDraw \<Rightarrow> PlatformJob \<Rightarrow> db \<Rightarrow> string handled" where
  "dispatch wk draw job d =
     (case pj_job_type job of
        PlatformJobType.SCHEDULED_SCAN \<Rightarrow> scheduled_scan draw job d
      | PlatformJobType.DISCOVERY \<Rightarrow> discovery wk draw job d
      | PlatformJobType.EVALUATION \<Rightarrow> evaluation wk draw job d
      | PlatformJobType.NOTIFICATION_DELIVERY \<Rightarrow> notification_delivery wk draw job d
      | PlatformJobType.REMEDIATION_SIMULATION \<Rightarrow> remediation wk draw job d
      | _ \<Rightarrow> (Inl (Raised (AppError ''unsupported_job_type'' 409)), d))"

section \<open>Reporting the result\<close>

definition fail_run :: "string option \<Rightarrow> instant \<Rightarrow> ScanRun \<Rightarrow> ScanRun" where
  "fail_run error_code now r =
     r\<lparr>sr_status := ScanRunStatus.FAILED, sr_finished_at := Some now, sr_error_summary := error_code\<rparr>"

definition finish_scan_run_if_terminal :: "PlatformJob \<Rightarrow> PlatformJob \<Rightarrow> instant \<Rightarrow> db \<Rightarrow> (db, unit) outcome" where
  "finish_scan_run_if_terminal source_job terminal_job now d =
     (if pj_status terminal_job \<notin> {PlatformJobStatus.FAILED, PlatformJobStatus.DEAD_LETTERED} then return () d
      else
        (case optional_uuid (pj_payload_json source_job) ''scan_run_id'' of
           Inl e \<Rightarrow> raise e d
         | Inr None \<Rightarrow> return () d
         | Inr (Some run_id) \<Rightarrow>
             (case find_run (pj_organization_id source_job) run_id d of
                None \<Rightarrow> return () d
              | Some r \<Rightarrow>
                  if scan_run_active r then
                    (case commit_run (fail_run (pj_last_error_code terminal_job) now r) d of
                       Inl e \<Rightarrow> raise e d
                     | Inr d' \<Rightarrow> return () d')
                  else return () d)))"

definition record_failure ::
    "JobWorker \<Rightarrow> JobDraw \<Rightarrow> PlatformJob \<Rightarrow> string \<Rightarrow> string \<Rightarrow> bool \<Rightarrow> int option \<Rightarrow> db \<Rightarrow> (db, unit) outcome" where
  "record_failure wk draw job error_code error_summary retryable retry_after d =
     (case fail (wk_redact wk) (pj_id job) (jd_token draw) error_code error_summary retryable retry_after
             (jd_ended_at draw) d of
        (Inl (ConflictError c), d') \<Rightarrow> return () d'
      | (Inl e, d') \<Rightarrow> raise e d'
      | (Inr job', d') \<Rightarrow> finish_scan_run_if_terminal job job' (jd_closed_at draw) d')"

text \<open>The subclasses of \<^verbatim>\<open>AppError\<close> and their codes.\<close>

fun app_error_code :: "exn \<Rightarrow> string option" where
  "app_error_code (AuthenticationError c) = Some c"
| "app_error_code (ForbiddenError c) = Some c"
| "app_error_code (NotFoundError c) = Some c"
| "app_error_code (ConflictError c) = Some c"
| "app_error_code (AppError c n) = Some c"
| "app_error_code e = None"

definition settle :: "JobWorker \<Rightarrow> JobDraw \<Rightarrow> PlatformJob \<Rightarrow> string handled \<Rightarrow> (db, unit) outcome" where
  "settle wk draw job handled =
     (case handled of
        (Inl (RetryableJobError code summary retry_after), d) \<Rightarrow> record_failure wk draw job code summary True retry_after d
      | (Inl (Raised e), d) \<Rightarrow>
          (if e = IntegrityError then raise e d
           else
             case app_error_code e of
               Some code \<Rightarrow> record_failure wk draw job code (wk_message wk e) False None d
             | None \<Rightarrow>
                 record_failure wk draw job ''worker_unexpected_error''
                   ''The job failed because of an unexpected internal error.'' True None d)
      | (Inr result, d) \<Rightarrow>
          (case succeed (pj_id job) (jd_token draw) (Some result) (jd_ended_at draw) d of
             (Inl (ConflictError c), d') \<Rightarrow> return () d'
           | (Inl e, d') \<Rightarrow> raise e d'
           | (Inr completed, d') \<Rightarrow> return () d'))"

definition process_one :: "JobWorker \<Rightarrow> JobDraw \<Rightarrow> db \<Rightarrow> (db, bool) outcome" where
  "process_one wk draw d =
     (case acquire (wk_worker_id wk) (wk_lease_seconds wk) (jd_token draw) (jd_locked draw) (jd_acquired_at draw) d of
        (Inl e, d1) \<Rightarrow> raise e d1
      | (Inr None, d1) \<Rightarrow> return False d1
      | (Inr (Some leased_row), d1) \<Rightarrow>
          (case start (pj_id leased_row) (jd_token draw) (jd_started_at draw) d1 of
             (Inl e, d2) \<Rightarrow> raise e d2
           | (Inr _, d2) \<Rightarrow>
               (case heartbeat (pj_id leased_row) (jd_token draw) (wk_lease_seconds wk) (jd_renewed_at draw) d2 of
                  (Inl e, d3) \<Rightarrow> raise e d3
                | (Inr job, d3) \<Rightarrow> map_prod (map_sum id (\<lambda>u. True)) id (settle wk draw job (dispatch wk draw job d3)))))"

section \<open>What the services leave alone\<close>

text \<open>
  The tables that the services behind the handlers do not write: the accounts of users and
  tenants, the queue and the scans. Only the worker writes these.
\<close>

definition work_frame :: "db \<Rightarrow> db \<Rightarrow> bool" where
  "work_frame d d' =
     (users d' = users d \<and> organizations d' = organizations d \<and> memberships d' = memberships d \<and>
      aws_accounts d' = aws_accounts d \<and> platform_jobs d' = platform_jobs d \<and>
      scan_schedules d' = scan_schedules d \<and> scan_runs d' = scan_runs d)"

lemma work_frame_refl [simp]: "work_frame d d" by (simp add: work_frame_def)

lemma work_frame_trans: "work_frame d d' \<Longrightarrow> work_frame d' d'' \<Longrightarrow> work_frame d d''"
  by (simp add: work_frame_def)

lemma work_frame_audit [simp]: "work_frame d (record_audit e t r o' a i d') = work_frame d d'"
  by (simp add: work_frame_def)

lemma work_frame_update [simp]:
  "work_frame d (d'\<lparr>discovery_jobs := js\<rparr>) = work_frame d d'" "work_frame d (d'\<lparr>assets := xs\<rparr>) = work_frame d d'"
  "work_frame d (d'\<lparr>evaluation_jobs := es\<rparr>) = work_frame d d'" "work_frame d (d'\<lparr>findings := fs\<rparr>) = work_frame d d'"
  "work_frame d (d'\<lparr>rule_results := rs\<rparr>) = work_frame d d'"
  "work_frame d (d'\<lparr>notification_events := ns\<rparr>) = work_frame d d'"
  "work_frame d (d'\<lparr>delivery_attempts := as\<rparr>) = work_frame d d'"
  "work_frame d (d'\<lparr>remediation_requests := qs\<rparr>) = work_frame d d'"
  by (simp_all add: work_frame_def)

lemma run_collector_work:
  assumes "run_collector f account clock c s = Inr s'" and "work_frame d (ds_db s)"
  shows "work_frame d (ds_db s')"
  using assms
  by (auto simp: run_collector_def collector_failed_def upsert_def flush_discovery_def Let_def
      split: sum.splits option.splits if_splits prod.splits)

lemma run_collectors_work:
  "run_collectors f account clock cs s = Inr s' \<Longrightarrow> work_frame d (ds_db s) \<Longrightarrow> work_frame d (ds_db s')"
  by (induction cs arbitrary: s) (auto split: sum.splits dest: run_collector_work)

lemma finish_discovery_work: "work_frame d d1 \<Longrightarrow> work_frame d (snd (finish_discovery i a st es now d1))"
  by (auto simp: finish_discovery_def flush_discovery_def Let_def split: option.splits sum.splits)

lemma begin_discovery_work: "begin_discovery i a now d = (r, d') \<Longrightarrow> work_frame d d'"
  by (auto simp: begin_discovery_def flush_discovery_def Let_def split: option.splits sum.splits if_splits)

lemma run_discovery_work: "work_frame d (snd (run_discovery f connect clock i a d))"
  using run_collectors_work begin_discovery_work
  by (auto simp: run_discovery_def split: sum.splits prod.splits intro!: finish_discovery_work)

lemma start_discovery_work: "work_frame d (snd (start_discovery f connect clock account a i d))"
proof -
  have "work_frame d (snd (run_discovery f connect clock i a (d\<lparr>discovery_jobs := js\<rparr>)))" for js
    using run_discovery_work [of "d\<lparr>discovery_jobs := js\<rparr>" f connect clock i a] by (simp add: work_frame_def)
  then show ?thesis
    by (auto simp: start_discovery_def insert_discovery_def Let_def split: option.splits sum.splits)
qed

lemma create_for_critical_finding_work [simp]:
  "work_frame d (snd (create_for_critical_finding sha f i t d')) = work_frame d d'"
  by (simp add: create_for_critical_finding_def Let_def)

lemma apply_result_work:
  assumes "apply_result sha rule aid result draw s = Inr s'" and "work_frame d (st_db s)"
  shows "work_frame d (st_db s')"
  using assms
  by (auto simp: apply_result_def failed_result_def failed_existing_def passed_result_def audit_finding_def
      flush_finding_def flush_evaluation_def Let_def split: sum.splits option.splits if_splits)

lemma evaluate_targets_work:
  "evaluate_targets sha ctxt draws rule ts s = Inr s' \<Longrightarrow> work_frame d (st_db s) \<Longrightarrow> work_frame d (st_db s')"
  by (induction ts arbitrary: s) (fastforce simp: Let_def split: sum.splits dest: apply_result_work)+

lemma evaluate_rules_work:
  "evaluate_rules sha ctxt draws rules s = Inr s' \<Longrightarrow> work_frame d (st_db s) \<Longrightarrow> work_frame d (st_db s')"
  by (induction rules arbitrary: s) (fastforce split: sum.splits dest: evaluate_targets_work [where d = d])+

lemma finish_work: "work_frame d d1 \<Longrightarrow> work_frame d (snd (finish i a st es now d1))"
  by (auto simp: finish_def flush_evaluation_def Let_def split: option.splits sum.splits)

lemma recover_failed_work: "work_frame d d1 \<Longrightarrow> work_frame d (snd (recover_failed i a c now d1))"
  using finish_work [of d d1 i a EvaluationJobStatus.FAILED "[c]" now]
  by (auto simp: recover_failed_def flush_evaluation_def Let_def split: option.splits sum.splits prod.splits)

lemma begin_run_work: "begin_run i a now d = (r, d') \<Longrightarrow> work_frame d d'"
  by (auto simp: begin_run_def flush_evaluation_def Let_def split: option.splits sum.splits if_splits)

lemma run_work: "work_frame d (snd (run sha registry draws clock i a d))"
proof (cases "begin_run i a (ec_started clock) d")
  case (Pair r d1)
  have d1: "work_frame d d1" using Pair by (rule begin_run_work)
  have "work_frame d (st_db s)" if "evaluate_account sha registry draws clock job d1 = Inr s" for job s
    using that d1 by (auto simp: evaluate_account_def Let_def intro: evaluate_rules_work)
  then show ?thesis
    using Pair d1 recover_failed_work [OF d1] finish_work
    by (auto simp: run_def split: sum.splits prod.splits) (metis snd_conv)+
qed

lemma start_evaluation_work: "work_frame d (snd (start_evaluation sha registry draws clock account a dj i d))"
proof -
  have "work_frame d (snd (run sha registry draws clock i a (d\<lparr>evaluation_jobs := es\<rparr>)))" for es
    using run_work [of "d\<lparr>evaluation_jobs := es\<rparr>" sha registry draws clock i a] by (simp add: work_frame_def)
  then show ?thesis
    by (auto simp: start_evaluation_def insert_evaluation_def Let_def split: option.splits sum.splits)
qed

lemma deliver_work: "work_frame d (snd (deliver ns o' i now d))"
  by (auto simp: deliver_def flush_event_def Let_def split: sum.splits)

lemma execute_work: "work_frame d (snd (execute sv o' i lease now d))"
  by (auto simp: execute_def flush_request_def Let_def split: sum.splits prod.splits)

lemma execution_residue_work: "execution_residue sv o' i lease d = Inr d' \<Longrightarrow> work_frame d d'"
  by (auto simp: execution_residue_def flush_request_def Let_def split: sum.splits if_splits prod.splits)

section \<open>The queue while a handler runs\<close>

text \<open>A handler adds at most one job, under the identifier drawn for it.\<close>

definition jobs_added :: "uuid \<Rightarrow> db \<Rightarrow> db \<Rightarrow> bool" where
  "jobs_added i d d' =
     (platform_jobs d' = platform_jobs d \<or> (\<exists>k. pj_id k = i \<and> platform_jobs d' = platform_jobs d @ [k]))"

lemma jobs_added_refl [simp]: "jobs_added i d d" by (simp add: jobs_added_def)

lemma jobs_added_after: "work_frame d d' \<Longrightarrow> jobs_added i d' d'' \<Longrightarrow> jobs_added i d d''"
  by (simp add: jobs_added_def work_frame_def)

lemma work_frame_jobs: "work_frame d d' \<Longrightarrow> jobs_added i d d'"
  by (simp add: work_frame_def jobs_added_def)

lemma write_run_jobs [simp]: "platform_jobs (write_run r d) = platform_jobs d"
  by (simp add: write_run_def)

lemma commit_run_Inr: "commit_run r d = Inr d' \<longleftrightarrow>
    scan_run_status_lifecycle r \<and> scan_run_unique (scan_runs (write_run r d)) \<and> d' = write_run r d"
  by (auto simp: commit_run_def)

lemma note_run_jobs [simp]: "platform_jobs (note_run o' r d) = platform_jobs d"
  by (auto simp: note_run_def write_schedule_def split: option.splits sum.splits)

lemma enqueue_jobs_added: "jobs_added i d (snd (enqueue rq i c now d))"
  by (cases rule: enqueue_cases [of rq i c now d]) (auto simp: jobs_added_def job_candidate_def)

lemma enqueue_child_jobs: "enqueue_child draw rq d = (r, d') \<Longrightarrow> jobs_added (jd_child_id draw) d d'"
  using enqueue_jobs_added [of "jd_child_id draw" d rq "jd_child_correlation draw" "jd_now draw"]
  by (auto simp: enqueue_child_def split: sum.splits prod.splits)

lemma jobs_added_commit: "commit_run r d = Inr d1 \<Longrightarrow> jobs_added i d1 d' = jobs_added i d d'"
  by (auto simp: commit_run_Inr jobs_added_def)

lemma scheduled_scan_jobs: "jobs_added (jd_child_id draw) d (snd (scheduled_scan draw job d))"
  by (auto simp: scheduled_scan_def split: sum.splits option.splits prod.splits
      dest!: enqueue_child_jobs simp: jobs_added_commit)

lemma discovery_of_run_jobs: "jobs_added (jd_child_id draw) d (snd (discovery_of_run draw job a u x i d))"
  by (auto simp: discovery_of_run_def split: sum.splits prod.splits dest!: enqueue_child_jobs simp: jobs_added_commit)

lemma discovery_jobs: "jobs_added (jd_child_id draw) d (snd (discovery wk draw job d))"
proof -
  have "work_frame d d1" if "start_discovery f connect clock acc a i d = (r, d1)" for f connect clock acc a i r d1
    using start_discovery_work [of d f connect clock acc a i] that by simp
  then show ?thesis
    by (auto simp: discovery_def split: sum.splits option.splits prod.splits
        intro: work_frame_jobs jobs_added_after [OF _ discovery_of_run_jobs])
qed

lemma evaluation_of_run_jobs: "jobs_added i d (snd (evaluation_of_run draw job x run_id d))"
  by (auto simp: evaluation_of_run_def commit_run_Inr jobs_added_def split: sum.splits)

lemma evaluation_jobs_added: "jobs_added i d (snd (evaluation wk draw job d))"
proof -
  have "work_frame d d1" if "start_evaluation sha reg draws clock acc a dj i d = (r, d1)" for sha reg draws clock acc a dj i r d1
    using start_evaluation_work [of d sha reg draws clock acc a dj i] that by simp
  then show ?thesis
    by (auto simp: evaluation_def split: sum.splits option.splits prod.splits
        intro: work_frame_jobs jobs_added_after [OF _ evaluation_of_run_jobs])
qed

lemma notification_delivery_jobs: "jobs_added i d (snd (notification_delivery wk draw job d))"
proof -
  have "work_frame d d1" if "deliver ns o' i now d = (r, d1)" for ns o' i now r d1
    using deliver_work [of d ns o' i now] that by simp
  then show ?thesis
    by (auto simp: notification_delivery_def split: sum.splits prod.splits intro: work_frame_jobs)
qed

lemma executed_jobs: "jobs_added (jd_child_id draw) d (snd (executed draw job u r d))"
  by (auto simp: executed_def split: sum.splits prod.splits dest!: enqueue_child_jobs)

lemma remediation_jobs: "jobs_added (jd_child_id draw) d (snd (remediation wk draw job d))"
proof -
  have "work_frame d d1" if "execute sv o' i l now d = (r, d1)" for sv o' i l now r d1
    using execute_work [of d sv o' i l now] that by simp
  then show ?thesis
    by (auto simp: remediation_def split: sum.splits prod.splits
        intro: work_frame_jobs jobs_added_after [OF _ executed_jobs] dest: execution_residue_work)
qed

lemma dispatch_jobs: "jobs_added (jd_child_id draw) d (snd (dispatch wk draw job d))"
  by (auto simp: dispatch_def scheduled_scan_jobs discovery_jobs evaluation_jobs_added notification_delivery_jobs
      remediation_jobs split: PlatformJobType.splits)

section \<open>Reporting to the queue\<close>

lemma leased_found:
  assumes "platform_jobs d = js @ new" and "keys_distinct pj_id js" and "j \<in> set js"
    and "pj_lease_token j = Some token" and "pj_status j = status"
  shows "leased (pj_id j) token status d = Inr j"
proof -
  let ?P = "\<lambda>x. pj_id x = pj_id j \<and> pj_lease_token x = Some token \<and> pj_status x = status"
  have "find ?P js = Some j"
    using assms(2-5)
  proof (induction js)
    case Nil
    then show ?case by simp
  next
    case (Cons x xs)
    then show ?case by (cases "x = j") (auto simp: keys_distinct_def)
  qed
  then have "find ?P (js @ new) = Some j" by (induction js) (auto split: if_splits)
  with assms(1) show ?thesis by (simp add: leased_def)
qed

lemma leased_written:
  assumes "platform_jobs d = put_row pj_id j' js @ new" and "keys_distinct pj_id js" and "j \<in> set js"
    and "pj_id j' = pj_id j" and "pj_lease_token j' = Some token" and "pj_status j' = status"
  shows "leased (pj_id j) token status d = Inr j'"
proof -
  have "j' \<in> set (put_row pj_id j' js)" using in_put_row_same [OF assms(3), where r = j'] assms(4) by simp
  with leased_found [OF assms(1) _ _ assms(5,6)] assms(2,4) show ?thesis by simp
qed

lemma get_row_append: "get_row key i rows = Some r \<Longrightarrow> get_row key i (rows @ new) = Some r"
  by (induction rows) (auto split: if_splits)

text \<open>The row of a job while its handler runs, and after its outcome is reported.\<close>

definition running_job :: "JobWorker \<Rightarrow> JobDraw \<Rightarrow> PlatformJob \<Rightarrow> PlatformJob" where
  "running_job wk draw j =
     extend_lease (wk_lease_seconds wk) (jd_renewed_at draw)
       (start_job (jd_started_at draw)
          (lease_job (wk_worker_id wk) (wk_lease_seconds wk) (jd_token draw) (jd_acquired_at draw) j))"

definition settled_job :: "JobWorker \<Rightarrow> JobDraw \<Rightarrow> job_error + string \<Rightarrow> PlatformJob \<Rightarrow> PlatformJob" where
  "settled_job wk draw outcome job =
     (case outcome of
        Inr result \<Rightarrow> succeed_job (Some result) (jd_ended_at draw) job
      | Inl (RetryableJobError code summary retry_after) \<Rightarrow>
          fail_job (wk_redact wk) code summary True retry_after (jd_ended_at draw) job
      | Inl (Raised e) \<Rightarrow>
          (if e = IntegrityError then job
           else
             case app_error_code e of
               Some code \<Rightarrow> fail_job (wk_redact wk) code (wk_message wk e) False None (jd_ended_at draw) job
             | None \<Rightarrow>
                 fail_job (wk_redact wk) ''worker_unexpected_error''
                   ''The job failed because of an unexpected internal error.'' True None (jd_ended_at draw) job))"

lemma running_job_fields [simp]:
  "pj_id (running_job wk draw j) = pj_id j" "pj_status (running_job wk draw j) = PlatformJobStatus.RUNNING"
  "pj_lease_token (running_job wk draw j) = Some (jd_token draw)"
  "pj_payload_json (running_job wk draw j) = pj_payload_json j" "pj_job_type (running_job wk draw j) = pj_job_type j"
  "pj_organization_id (running_job wk draw j) = pj_organization_id j"
  by (simp_all add: running_job_def extend_lease_def start_job_def lease_job_def)

lemma put_row_put_row: "key r = key r' \<Longrightarrow> put_row key r (put_row key r' rows) = put_row key r rows"
  by (induction rows) auto

text \<open>The state a handler finds: only the row of its job has changed.\<close>

definition begun :: "JobWorker \<Rightarrow> JobDraw \<Rightarrow> PlatformJob \<Rightarrow> db \<Rightarrow> db" where
  "begun wk draw j d = d\<lparr>platform_jobs := put_row pj_id (running_job wk draw j) (platform_jobs d)\<rparr>"

lemma begin_job:
  assumes "keys_distinct pj_id (platform_jobs d)"
    and "select_job (jd_locked draw) (jd_acquired_at draw) (platform_jobs d) = Some j"
  obtains d3 where "platform_jobs d3 = put_row pj_id (running_job wk draw j) (platform_jobs d)"
    and "work_frame d (d3\<lparr>platform_jobs := platform_jobs d\<rparr>)"
    and "process_one wk draw d =
      map_prod (map_sum id (\<lambda>u. True)) id (settle wk draw (running_job wk draw j) (dispatch wk draw (running_job wk draw j) d3))"
    and "d3 = begun wk draw j d"
proof -
  let ?j1 = "lease_job (wk_worker_id wk) (wk_lease_seconds wk) (jd_token draw) (jd_acquired_at draw) j"
  let ?j2 = "start_job (jd_started_at draw) ?j1"
  let ?d1 = "write_job ?j1 d"
  let ?d2 = "write_job ?j2 ?d1"
  let ?d3 = "write_job (running_job wk draw j) ?d2"
  have j: "j \<in> set (platform_jobs d)" using select_job_best [OF assms(2)] by simp
  have ids: "pj_id ?j1 = pj_id j" "pj_id ?j2 = pj_id j" by (simp_all add: lease_job_def start_job_def)
  have p1: "platform_jobs ?d1 = put_row pj_id ?j1 (platform_jobs d)" by (simp add: write_job_def)
  have p2: "platform_jobs ?d2 = put_row pj_id ?j2 (platform_jobs d)"
    using ids by (simp add: write_job_def put_row_put_row)
  have "leased (pj_id j) (jd_token draw) PlatformJobStatus.LEASED ?d1 = Inr ?j1"
    using p1 by (intro leased_written [where new = "[]", OF _ assms(1) j ids(1)]) (simp_all add: lease_job_def)
  moreover have "leased (pj_id j) (jd_token draw) PlatformJobStatus.RUNNING ?d2 = Inr ?j2"
    using p2 by (intro leased_written [where new = "[]", OF _ assms(1) j ids(2)]) (simp_all add: lease_job_def start_job_def)
  ultimately have "process_one wk draw d =
      map_prod (map_sum id (\<lambda>u. True)) id (settle wk draw (running_job wk draw j) (dispatch wk draw (running_job wk draw j) ?d3))"
    using assms(2) ids by (simp add: process_one_def acquire_def start_def heartbeat_def running_job_def Let_def)
  moreover have "platform_jobs ?d3 = put_row pj_id (running_job wk draw j) (platform_jobs d)"
    using ids p2 by (simp add: write_job_def put_row_put_row)
  moreover have "work_frame d (?d3\<lparr>platform_jobs := platform_jobs d\<rparr>)" by (simp add: work_frame_def write_job_def)
  moreover have "?d3 = begun wk draw j d" using ids by (simp add: begun_def write_job_def put_row_put_row)
  ultimately show thesis using that by blast
qed

lemma finish_scan_run_jobs: "platform_jobs (snd (finish_scan_run_if_terminal j k now d)) = platform_jobs d"
  by (auto simp: finish_scan_run_if_terminal_def commit_run_Inr split: sum.splits option.splits)

lemma settled_job_id [simp]: "pj_id (settled_job wk draw outcome job) = pj_id job"
  by (simp add: settled_job_def succeed_job_def fail_job_def clear_lease_def Let_def split: sum.splits job_error.splits option.splits)

lemma settle_jobs:
  assumes "leased (pj_id job) (jd_token draw) PlatformJobStatus.RUNNING (snd handled) = Inr job"
    and "get_row pj_id (pj_id job) (platform_jobs (snd handled)) = Some job"
  shows "platform_jobs (snd (settle wk draw job handled)) \<in>
    {platform_jobs (snd handled), put_row pj_id (settled_job wk draw (fst handled) job) (platform_jobs (snd handled))} \<and>
    get_row pj_id (pj_id job) (platform_jobs (snd (settle wk draw job handled))) = Some (settled_job wk draw (fst handled) job)"
proof (cases "fst handled = Inl (Raised IntegrityError)")
  case True
  with assms(2) show ?thesis by (cases handled) (simp add: settle_def settled_job_def)
next
  case False
  with assms(1) have "platform_jobs (snd (settle wk draw job handled)) =
      put_row pj_id (settled_job wk draw (fst handled) job) (platform_jobs (snd handled))"
    by (cases handled) (auto simp: settle_def settled_job_def record_failure_def fail_def succeed_def finish_scan_run_jobs
        write_job_def Let_def split: sum.splits job_error.splits option.splits)
  with assms(2) show ?thesis by (simp add: get_put_row)
qed

text \<open>Beside the row of the job, settling it writes only the run of a scan that failed for good.\<close>

lemma finish_scan_run_rest:
  "\<exists>rs. snd (finish_scan_run_if_terminal job row now d) = d\<lparr>scan_runs := rs\<rparr> \<and>
     (pj_status row \<in> {PlatformJobStatus.FAILED, PlatformJobStatus.DEAD_LETTERED} \<or> rs = scan_runs d)"
proof (cases "snd (finish_scan_run_if_terminal job row now d) = d")
  case True
  then show ?thesis by (intro exI [of _ "scan_runs d"]) simp
next
  case False
  then obtain r d' where r: "pj_status row \<in> {PlatformJobStatus.FAILED, PlatformJobStatus.DEAD_LETTERED}"
      "commit_run r d = Inr d'" "snd (finish_scan_run_if_terminal job row now d) = d'"
    by (auto simp: finish_scan_run_if_terminal_def split: sum.splits option.splits if_splits)
  have "d' = d\<lparr>scan_runs := put_row sr_id r (scan_runs d)\<rparr>" using r(2) by (simp add: commit_run_Inr write_run_def)
  with r(1,3) show ?thesis by blast
qed

lemma settle_rest:
  assumes "leased (pj_id job) (jd_token draw) PlatformJobStatus.RUNNING (snd handled) = Inr job"
  shows "\<exists>js rs. snd (settle wk draw job handled) = (snd handled)\<lparr>platform_jobs := js, scan_runs := rs\<rparr> \<and>
    (pj_status (settled_job wk draw (fst handled) job) \<in> {PlatformJobStatus.FAILED, PlatformJobStatus.DEAD_LETTERED} \<or>
     rs = scan_runs (snd handled))"
proof -
  obtain outcome d where h: "handled = (outcome, d)" by fastforce
  have leased: "leased (pj_id job) (jd_token draw) PlatformJobStatus.RUNNING d = Inr job" using assms h by simp
  have failure: "\<exists>js rs. snd (record_failure wk draw job code summary retryable ra d) = d\<lparr>platform_jobs := js, scan_runs := rs\<rparr> \<and>
      (pj_status (fail_job (wk_redact wk) code summary retryable ra (jd_ended_at draw) job)
         \<in> {PlatformJobStatus.FAILED, PlatformJobStatus.DEAD_LETTERED} \<or> rs = scan_runs d)" for code summary retryable ra
  proof -
    let ?row = "fail_job (wk_redact wk) code summary retryable ra (jd_ended_at draw) job"
    have "snd (record_failure wk draw job code summary retryable ra d) =
        snd (finish_scan_run_if_terminal job ?row (jd_closed_at draw) (write_job ?row d))"
      by (simp add: record_failure_def fail_def leased Let_def)
    with finish_scan_run_rest [of job ?row "jd_closed_at draw" "write_job ?row d"] show ?thesis
      by (auto simp: write_job_def)
  qed
  show ?thesis
  proof (cases outcome)
    case (Inr r)
    then show ?thesis
      unfolding h by (intro exI [of _ "put_row pj_id (succeed_job (Some r) (jd_ended_at draw) job) (platform_jobs d)"]
          exI [of _ "scan_runs d"]) (simp add: settle_def succeed_def leased write_job_def)
  next
    case (Inl e)
    show ?thesis
    proof (cases e)
      case (RetryableJobError code summary ra)
      with Inl failure [of code summary True ra] show ?thesis by (simp add: h settle_def settled_job_def)
    next
      case (Raised x)
      show ?thesis
      proof (cases "x = IntegrityError")
        case True
        with Inl Raised show ?thesis
          by (intro exI [of _ "platform_jobs d"] exI [of _ "scan_runs d"]) (simp add: h settle_def settled_job_def)
      next
        case False
        with Inl Raised failure [of _ _ False None] failure [of "''worker_unexpected_error''" _ True None] show ?thesis
          by (cases "app_error_code x") (simp_all add: h settle_def settled_job_def)
      qed
    qed
  qed
qed

text \<open>The effect of a whole call on the queue.\<close>

lemma process_one_queue:
  assumes "keys_distinct pj_id (platform_jobs d)"
    and "select_job (jd_locked draw) (jd_acquired_at draw) (platform_jobs d) = Some j"
  obtains d3 where "platform_jobs d3 = put_row pj_id (running_job wk draw j) (platform_jobs d)"
    and "work_frame d (d3\<lparr>platform_jobs := platform_jobs d\<rparr>)"
    and "process_one wk draw d =
      map_prod (map_sum id (\<lambda>u. True)) id (settle wk draw (running_job wk draw j) (dispatch wk draw (running_job wk draw j) d3))"
    and "get_row pj_id (pj_id j) (platform_jobs (snd (process_one wk draw d))) =
      Some (settled_job wk draw (fst (dispatch wk draw (running_job wk draw j) d3)) (running_job wk draw j))"
    and "leased (pj_id j) (jd_token draw) PlatformJobStatus.RUNNING (snd (dispatch wk draw (running_job wk draw j) d3)) =
      Inr (running_job wk draw j)"
    and "\<And>k. k \<in> set (platform_jobs d) \<Longrightarrow> pj_id k \<noteq> pj_id j \<Longrightarrow>
      get_row pj_id (pj_id k) (platform_jobs (snd (process_one wk draw d))) = Some k"
    and "jd_child_id draw \<notin> pj_id ` set (platform_jobs d) \<Longrightarrow>
      keys_distinct pj_id (platform_jobs (snd (process_one wk draw d)))"
    and "d3 = begun wk draw j d"
proof -
  let ?job = "running_job wk draw j"
  obtain d3 where d3: "platform_jobs d3 = put_row pj_id ?job (platform_jobs d)"
      "work_frame d (d3\<lparr>platform_jobs := platform_jobs d\<rparr>)"
      "process_one wk draw d = map_prod (map_sum id (\<lambda>u. True)) id (settle wk draw ?job (dispatch wk draw ?job d3))"
      "d3 = begun wk draw j d"
    by (rule begin_job [OF assms])
  let ?h = "dispatch wk draw ?job d3"
  have j: "j \<in> set (platform_jobs d)" using select_job_best [OF assms(2)] by simp
  obtain new where new: "platform_jobs (snd ?h) = put_row pj_id ?job (platform_jobs d) @ new"
      "new = [] \<or> (\<exists>k. new = [k] \<and> pj_id k = jd_child_id draw)"
    using dispatch_jobs [of draw d3 wk ?job] d3(1) unfolding jobs_added_def by fastforce
  have lj: "leased (pj_id ?job) (jd_token draw) PlatformJobStatus.RUNNING (snd ?h) = Inr ?job"
    using leased_written [OF new(1) assms(1) j] by simp
  have row: "get_row pj_id (pj_id ?job) (platform_jobs (snd ?h)) = Some ?job"
    unfolding new(1) using get_row_distinct [OF assms(1) j] by (intro get_row_append) (simp add: get_put_row)
  note settled = settle_jobs [OF lj row, of wk]
  have other: "get_row pj_id (pj_id k) (platform_jobs (snd ?h)) = Some k" if "k \<in> set (platform_jobs d)" "pj_id k \<noteq> pj_id j" for k
    unfolding new(1) using that get_row_distinct [OF assms(1) that(1)] by (intro get_row_append) (simp add: get_put_row)
  have end': "platform_jobs (snd (process_one wk draw d)) = platform_jobs (snd (settle wk draw ?job ?h))"
    unfolding d3(3) by (cases "settle wk draw ?job ?h") simp
  have "get_row pj_id (pj_id k) (platform_jobs (snd (process_one wk draw d))) = Some k"
    if "k \<in> set (platform_jobs d)" "pj_id k \<noteq> pj_id j" for k
    using settled other [OF that] that(2) unfolding end' by (auto simp: get_put_row)
  moreover have "keys_distinct pj_id (platform_jobs (snd (process_one wk draw d)))"
    if "jd_child_id draw \<notin> pj_id ` set (platform_jobs d)"
  proof -
    have ids: "pj_id ` set (put_row pj_id ?job (platform_jobs d)) = pj_id ` set (platform_jobs d)"
      using map_key_put_row [of pj_id ?job "platform_jobs d"] by (metis set_map)
    have "keys_distinct pj_id (platform_jobs (snd ?h))"
      using new(2) that ids assms(1) unfolding new(1) by (auto simp: keys_distinct_snoc)
    then show ?thesis using settled unfolding end' by auto
  qed
  ultimately show thesis using that d3 settled lj unfolding end' by simp
qed

end
