(* ===== verification/Worker_Properties.thy ===== *)
theory Worker_Properties
  imports Job_Worker
begin

text \<open>
  Properties of the worker together with the queue, the scheduler and the services whose jobs it
  runs: how an outcome is reported, that the identifiers of a payload reach the handler, the scan pipeline,
  and the two ways in which a queued follow-up is lost.
\<close>

section \<open>Reading payloads\<close>

lemma uuid_value_Inr:
  "uuid_value p k = Inr u \<longleftrightarrow> map_of p k = Some (JStr (uuid_str u)) \<and> uuid_bound u"
proof (cases "map_of p k")
  case None
  then show ?thesis by (simp add: uuid_value_def)
next
  case (Some v)
  have "uuid_value p k = Inr u \<longleftrightarrow> parse_uuid s = Some u" if "v = JStr s" for s
    using Some that by (cases "parse_uuid s") (simp_all add: uuid_value_def)
  with Some show ?thesis by (cases v) (auto simp: uuid_value_def parse_uuid_Some)
qed

lemma optional_uuid_Some:
  "optional_uuid p k = Inr (Some u) \<longleftrightarrow> map_of p k = Some (JStr (uuid_str u)) \<and> uuid_bound u"
proof -
  have "map_sum id Some (uuid_value p k) = Inr (Some u) \<longleftrightarrow> uuid_value p k = Inr u"
    by (cases "uuid_value p k") auto
  then show ?thesis by (auto simp: optional_uuid_def uuid_value_Inr dict_get_def split: option.splits)
qed

lemma optional_uuid_absent: "map_of p k = None \<Longrightarrow> optional_uuid p k = Inr None"
  by (simp add: optional_uuid_def dict_get_def)

lemma enqueue_rows:
  "platform_jobs (snd (enqueue rq i c now d)) = platform_jobs d \<or>
   platform_jobs (snd (enqueue rq i c now d)) = platform_jobs d @
     [job_candidate rq (case eq_payload rq of None \<Rightarrow> [] | Some p \<Rightarrow> p) i c now]"
proof (cases "validated_payload (case eq_payload rq of None \<Rightarrow> [] | Some p \<Rightarrow> p)")
  case (Inl e)
  then show ?thesis by (simp add: enqueue_def)
next
  case (Inr p)
  then have "p = (case eq_payload rq of None \<Rightarrow> [] | Some p \<Rightarrow> p)" by (simp add: validated_payload_iff)
  with Inr show ?thesis by (auto simp: enqueue_def Let_def split: option.splits)
qed

lemma enqueue_new_payload:
  assumes "enqueue rq (pj_id job) c now d = (Inr (job, created), d')" and "pj_id job \<notin> pj_id ` set (platform_jobs d)"
  shows "pj_payload_json job = (case eq_payload rq of None \<Rightarrow> [] | Some p \<Rightarrow> p)"
proof -
  have "job \<notin> set (platform_jobs d)" using assms(2) by auto
  then obtain p where "validated_payload (case eq_payload rq of None \<Rightarrow> [] | Some p \<Rightarrow> p) = Inr p"
      "job = job_candidate rq p (pj_id job) c now"
    using assms(1) by (auto simp: enqueue_def Let_def split: sum.splits if_splits option.splits dest!: find_mem)
  then show ?thesis by (metis PlatformJob.select_convs(6) job_candidate_def validated_payload_iff)
qed

lemma written_uuid [simp]:
  "uuid_value ((k, JStr (uuid_str u)) # p) k' =
     (if k = k' then (if uuid_bound u then Inr u else Inl (AppError ''invalid_job_payload'' 409)) else uuid_value p k')"
  "optional_uuid ((k, JStr (uuid_str u)) # p) k' =
     (if k = k' then (if uuid_bound u then Inr (Some u) else Inl (AppError ''invalid_job_payload'' 409)) else optional_uuid p k')"
  by (auto simp: uuid_value_def optional_uuid_def dict_get_def parse_uuid_def uuid_str_def unsigned_value_nat_digits)

lemma optional_uuid_Nil [simp]: "optional_uuid [] k = Inr None"
  by (simp add: optional_uuid_absent)

lemma request_discovery_payload:
  assumes "request_discovery account user m (pj_id job) c now d = (Inr job, d')" and "pj_id job \<notin> pj_id ` set (platform_jobs d)"
  shows "pj_payload_json job = [(''actor_user_id'', JStr (uuid_str user)), (''account_id'', JStr (uuid_str account))]"
  using assms
  by (auto simp: request_discovery_def split: option.splits sum.splits if_splits prod.splits
      dest!: aws_account_for_user_Some(2) enqueue_new_payload)

lemma request_evaluation_payload:
  assumes "request_evaluation account user dj m (pj_id job) c now d = (Inr job, d')" and "pj_id job \<notin> pj_id ` set (platform_jobs d)"
  shows "pj_payload_json job = [(''actor_user_id'', JStr (uuid_str user)), (''account_id'', JStr (uuid_str account))] @
    (case dj of None \<Rightarrow> [] | Some x \<Rightarrow> [(''discovery_job_id'', JStr (uuid_str x))])"
  using assms
  by (auto simp: request_evaluation_def split: option.splits sum.splits if_splits prod.splits
      dest!: aws_account_for_user_Some(2) enqueue_new_payload)

lemma get_event_id: "get_event o' i d = Inr n \<Longrightarrow> ne_id n = i"
  by (auto simp: get_event_def split: option.splits dest!: find_mem)

lemma get_request_id: "get_request o' i d = Inr r \<Longrightarrow> rr_id r = i"
  by (auto simp: get_request_def split: option.splits dest!: find_mem)

lemma enqueue_delivery_payload:
  assumes "enqueue_delivery o' event u (pj_id job) c now d = (Inr job, d')" and "pj_id job \<notin> pj_id ` set (platform_jobs d)"
  shows "pj_payload_json job = [(''notification_event_id'', JStr (uuid_str event))]"
  using assms
  by (auto simp: enqueue_delivery_def split: sum.splits if_splits prod.splits
      dest!: get_event_id enqueue_new_payload)

lemma execute_remediation_payload:
  assumes "execute_remediation o' request u (pj_id job) c now d = (Inr job, d')" and "pj_id job \<notin> pj_id ` set (platform_jobs d)"
  shows "pj_payload_json job =
    [(''remediation_request_id'', JStr (uuid_str request)), (''actor_user_id'', JStr (uuid_str u))]"
  using assms
  by (auto simp: execute_remediation_def guarded_def split: sum.splits if_splits prod.splits
      dest!: get_request_id enqueue_new_payload)

text \<open>
  Identifiers survive the queue: whatever identifiers the services put into a job they create
  (a requested discovery, evaluation, delivery or remediation, a scheduled scan, and the children that
  the worker queues for a scan) are exactly the identifiers that the worker reads from the stored payload, and an
  identifier that was left out is read as absent.
\<close>

theorem payload_ids_round_trip:
  assumes "uuid_bound account" and "uuid_bound user" and "uuid_bound schedule" and "uuid_bound (sr_id r)"
    and "uuid_bound (sr_aws_account_id r)" and "uuid_bound (dj_id found)" and "uuid_bound event" and "uuid_bound request"
    and "new \<notin> pj_id ` set (platform_jobs d)"
  shows "(request_discovery account user m new c now d = (Inr job, d') \<and> pj_id job = new \<longrightarrow>
       uuid_value (pj_payload_json job) ''account_id'' = Inr account \<and>
       uuid_value (pj_payload_json job) ''actor_user_id'' = Inr user \<and>
       optional_uuid (pj_payload_json job) ''scan_run_id'' = Inr None) \<and>
    (request_evaluation account user dj m new c now d = (Inr job, d') \<and> pj_id job = new \<and> dj \<in> {None, Some (dj_id found)} \<longrightarrow>
       uuid_value (pj_payload_json job) ''account_id'' = Inr account \<and>
       uuid_value (pj_payload_json job) ''actor_user_id'' = Inr user \<and>
       optional_uuid (pj_payload_json job) ''discovery_job_id'' = Inr dj \<and>
       optional_uuid (pj_payload_json job) ''scan_run_id'' = Inr None) \<and>
    (enqueue_delivery organization event user new c now d = (Inr job, d') \<and> pj_id job = new \<longrightarrow>
       uuid_value (pj_payload_json job) ''notification_event_id'' = Inr event) \<and>
    (execute_remediation organization request user new c now d = (Inr job, d') \<and> pj_id job = new \<longrightarrow>
       uuid_value (pj_payload_json job) ''remediation_request_id'' = Inr request \<and>
       uuid_value (pj_payload_json job) ''actor_user_id'' = Inr user) \<and>
    uuid_value (scan_payload (sr_id r) user schedule) ''scan_run_id'' = Inr (sr_id r) \<and>
    uuid_value (scan_payload (sr_id r) user schedule) ''actor_user_id'' = Inr user \<and>
    (enqueue (discovery_child parent r user) new c now d = (Inr (job, True), d') \<longrightarrow>
       uuid_value (pj_payload_json job) ''account_id'' = Inr (sr_aws_account_id r) \<and>
       uuid_value (pj_payload_json job) ''actor_user_id'' = Inr user \<and>
       optional_uuid (pj_payload_json job) ''scan_run_id'' = Inr (Some (sr_id r))) \<and>
    (enqueue (evaluation_child parent account user found r) new c now d = (Inr (job, True), d') \<longrightarrow>
       uuid_value (pj_payload_json job) ''account_id'' = Inr account \<and>
       uuid_value (pj_payload_json job) ''actor_user_id'' = Inr user \<and>
       optional_uuid (pj_payload_json job) ''discovery_job_id'' = Inr (Some (dj_id found)) \<and>
       optional_uuid (pj_payload_json job) ''scan_run_id'' = Inr (Some (sr_id r)))"
proof -
  have created: "pj_id job = new" if "enqueue rq new c now d = (Inr (job, True), d')" for rq
    using that by (auto simp: enqueue_def job_candidate_def Let_def split: sum.splits if_splits option.splits)
  have "pj_payload_json job = (case eq_payload rq of None \<Rightarrow> [] | Some p \<Rightarrow> p)"
    if "enqueue rq new c now d = (Inr (job, True), d')" for rq
    using enqueue_new_payload [of rq job c now d] created [OF that] that assms(9) by simp
  then show ?thesis
    using assms
    by (auto simp: scan_payload_def discovery_child_def evaluation_child_def child_request_def enqueue_args_def
        dest!: request_discovery_payload request_evaluation_payload
          enqueue_delivery_payload execute_remediation_payload)
qed

section \<open>Every job is settled\<close>

lemma settled_row:
  "pj_attempt_count (settled_job wk draw outcome job) = pj_attempt_count job"
  "pj_max_attempts (settled_job wk draw outcome job) = pj_max_attempts job"
  by (simp_all add: settled_job_def succeed_job_def fail_job_def clear_lease_def Let_def
      split: sum.splits job_error.splits option.splits)

lemma fail_job_fields:
  "pj_status (fail_job redact code summary retryable ra now job) =
     (if \<not> retryable then PlatformJobStatus.FAILED
      else if pj_attempt_count job < pj_max_attempts job then PlatformJobStatus.RETRY_WAIT
      else PlatformJobStatus.DEAD_LETTERED)"
  "pj_last_error_code (fail_job redact code summary retryable ra now job) = Some (error_code_of code)"
  "pj_attempt_count (fail_job redact code summary retryable ra now job) = pj_attempt_count job"
  "pj_max_attempts (fail_job redact code summary retryable ra now job) = pj_max_attempts job"
  by (simp_all add: fail_job_def clear_lease_def Let_def)

lemma settle_result:
  assumes "leased (pj_id job) (jd_token draw) PlatformJobStatus.RUNNING (snd handled) = Inr job"
  shows "fst handled = Inr result \<Longrightarrow> fst (settle wk draw job handled) = Inr ()"
    and "fst handled = Inl (Raised IntegrityError) \<Longrightarrow> fst (settle wk draw job handled) = Inl IntegrityError"
  using assms by (cases handled; simp add: settle_def succeed_def)+

text \<open>
  C23. One call of the worker settles the job it takes. When a due job exists, the worker takes the first one, runs
  its handler once on the running row, in a state that differs from the one before only in that row, and afterwards
  the row of the job is exactly what the outcome of the handler prescribes:
  succeeded with the reference of the result; waiting for a retry, or dead-lettered when the attempts are used up, after a
  retryable or unexpected error; failed for good with the code of an application error. It stays
  running under its lease only when the database rejected a write of the handler, in which case
  the call raises. All other jobs keep their rows, and every other table is as the handler left it, except that the
  scan runs may change when the job has failed for good or is dead-lettered.
\<close>

theorem process_one_settles_job:
  assumes "queue_ok d" and "select_job (jd_locked draw) (jd_acquired_at draw) (platform_jobs d) = Some j"
    and "handled = dispatch wk draw (running_job wk draw j)
                     (d\<lparr>platform_jobs := put_row pj_id (running_job wk draw j) (platform_jobs d)\<rparr>)"
  shows "\<exists>row js rs.
    get_row pj_id (pj_id j) (platform_jobs (snd (process_one wk draw d))) = Some row \<and>
    pj_attempt_count row = pj_attempt_count j + 1 \<and>
    (case fst handled of
       Inr result \<Rightarrow> fst (process_one wk draw d) = Inr True \<and> pj_status row = PlatformJobStatus.SUCCEEDED \<and>
         pj_result_reference row = (if result = [] then None else Some (take 255 result))
     | Inl (RetryableJobError code summary retry_after) \<Rightarrow>
         pj_status row = (if pj_attempt_count row < pj_max_attempts row then PlatformJobStatus.RETRY_WAIT
                          else PlatformJobStatus.DEAD_LETTERED) \<and>
         pj_last_error_code row = Some (error_code_of code)
     | Inl (Raised e) \<Rightarrow>
         (case app_error_code e of
            Some code \<Rightarrow> pj_status row = PlatformJobStatus.FAILED \<and> pj_last_error_code row = Some (error_code_of code)
          | None \<Rightarrow>
              if e = IntegrityError then
                fst (process_one wk draw d) = Inl e \<and> row = running_job wk draw j
              else
                pj_status row = (if pj_attempt_count row < pj_max_attempts row then PlatformJobStatus.RETRY_WAIT
                                 else PlatformJobStatus.DEAD_LETTERED) \<and>
                pj_last_error_code row = Some (error_code_of ''worker_unexpected_error''))) \<and>
    (\<forall>k \<in> set (platform_jobs d). pj_id k \<noteq> pj_id j \<longrightarrow>
       get_row pj_id (pj_id k) (platform_jobs (snd (process_one wk draw d))) = Some k) \<and>
    snd (process_one wk draw d) = (snd handled)\<lparr>platform_jobs := js, scan_runs := rs\<rparr> \<and>
    (pj_status row \<in> {PlatformJobStatus.FAILED, PlatformJobStatus.DEAD_LETTERED} \<or> rs = scan_runs (snd handled))"
proof -
  have "keys_distinct pj_id (platform_jobs d)" using assms(1) by (simp add: queue_ok_def)
  from process_one_queue [OF this assms(2), of wk] obtain d3 where
    d3: "d3 = begun wk draw j d"
      "process_one wk draw d = map_prod (map_sum id (\<lambda>u. True)) id
         (settle wk draw (running_job wk draw j) (dispatch wk draw (running_job wk draw j) d3))"
      "get_row pj_id (pj_id j) (platform_jobs (snd (process_one wk draw d))) =
         Some (settled_job wk draw (fst (dispatch wk draw (running_job wk draw j) d3)) (running_job wk draw j))"
      "leased (pj_id j) (jd_token draw) PlatformJobStatus.RUNNING (snd (dispatch wk draw (running_job wk draw j) d3)) =
         Inr (running_job wk draw j)"
      "\<And>k. k \<in> set (platform_jobs d) \<Longrightarrow> pj_id k \<noteq> pj_id j \<Longrightarrow>
         get_row pj_id (pj_id k) (platform_jobs (snd (process_one wk draw d))) = Some k" by blast
  have handled: "dispatch wk draw (running_job wk draw j) d3 = handled" by (simp add: assms(3) d3(1) begun_def)
  let ?job = "running_job wk draw j"
  let ?row = "settled_job wk draw (fst handled) ?job"
  note d3 = d3 [unfolded handled]
  have attempts: "pj_attempt_count ?row = pj_attempt_count j + 1"
    by (simp add: settled_row running_job_def extend_lease_def start_job_def lease_job_def)
  have result: "fst (process_one wk draw d) = map_sum id (\<lambda>u. True) (fst (settle wk draw ?job handled))"
    by (simp add: d3(2))
  have ok: "fst (process_one wk draw d) = Inr True" if "fst handled = Inr r" for r
    using settle_result(1) [of ?job draw handled r wk] d3(4) that by (simp add: result)
  have broken: "fst (process_one wk draw d) = Inl IntegrityError" if "fst handled = Inl (Raised IntegrityError)"
    using settle_result(2) [of ?job draw handled wk] d3(4) that by (simp add: result)
  have row: "case fst handled of
       Inr r \<Rightarrow> fst (process_one wk draw d) = Inr True \<and> pj_status ?row = PlatformJobStatus.SUCCEEDED \<and>
         pj_result_reference ?row = (if r = [] then None else Some (take 255 r))
     | Inl (RetryableJobError code summary retry_after) \<Rightarrow>
         pj_status ?row = (if pj_attempt_count ?row < pj_max_attempts ?row then PlatformJobStatus.RETRY_WAIT
                          else PlatformJobStatus.DEAD_LETTERED) \<and>
         pj_last_error_code ?row = Some (error_code_of code)
     | Inl (Raised e) \<Rightarrow>
         (case app_error_code e of
            Some code \<Rightarrow> pj_status ?row = PlatformJobStatus.FAILED \<and> pj_last_error_code ?row = Some (error_code_of code)
          | None \<Rightarrow>
              if e = IntegrityError then fst (process_one wk draw d) = Inl e \<and> ?row = ?job
              else
                pj_status ?row = (if pj_attempt_count ?row < pj_max_attempts ?row then PlatformJobStatus.RETRY_WAIT
                                 else PlatformJobStatus.DEAD_LETTERED) \<and>
                pj_last_error_code ?row = Some (error_code_of ''worker_unexpected_error''))"
    using ok broken
    by (auto simp: settled_job_def fail_job_fields succeed_job_def clear_lease_def split: sum.split job_error.split option.split)
  have "snd (process_one wk draw d) = snd (settle wk draw ?job handled)" by (simp add: d3(2))
  with settle_rest [of ?job draw handled wk] d3(4) obtain js rs where
    rest: "snd (process_one wk draw d) = (snd handled)\<lparr>platform_jobs := js, scan_runs := rs\<rparr>"
      "pj_status ?row \<in> {PlatformJobStatus.FAILED, PlatformJobStatus.DEAD_LETTERED} \<or> rs = scan_runs (snd handled)" by auto
  show ?thesis
    by (intro exI [of _ ?row] exI [of _ js] exI [of _ rs] conjI ballI impI d3(3,5) attempts row rest)
qed

section \<open>The rediscovery after a live remediation\<close>

lemma uuid_value_Nil [simp]: "uuid_value [] k = Inl (AppError ''invalid_job_payload'' 409)"
  by (simp add: uuid_value_def)

text \<open>
  C25. The rediscovery that follows a live remediation can never run. After a successful live
  execution the worker queues a discovery of the account with the account under the key
  \<^verbatim>\<open>aws_account_id\<close>, but the discovery handler reads \<^verbatim>\<open>account_id\<close>: whenever such a job is queued, every worker in
  every state fails it with \<^verbatim>\<open>invalid_job_payload\<close> and changes nothing else, so that the inventory keeps
  the state from before the remediation.
\<close>

theorem live_rediscovery_always_fails:
  assumes "rr_execution_mode r = RemediationExecutionMode.LIVE_AWS" and "rr_status r = RemediationStatus.SUCCEEDED"
    and "executed draw job actor r d = (Inr reference, d')" and "platform_jobs d' \<noteq> platform_jobs d"
  shows "\<exists>child. platform_jobs d' = platform_jobs d @ [child] \<and> pj_job_type child = PlatformJobType.DISCOVERY \<and>
    pj_reference_id child = rr_aws_account_id r \<and>
    (\<forall>wk draw' d2 row. pj_job_type row = pj_job_type child \<and> pj_payload_json row = pj_payload_json child \<longrightarrow>
       dispatch wk draw' row d2 = (Inl (Raised (AppError ''invalid_job_payload'' 409)), d2))"
proof -
  let ?rq = "rediscovery_child job r actor"
  let ?e = "enqueue ?rq (jd_child_id draw) (jd_child_correlation draw) (jd_now draw) d"
  have "d' = snd ?e"
    using assms(1-3) by (auto simp: executed_def enqueue_child_def split: sum.splits prod.splits)
  moreover have "eq_payload ?rq = Some [(''aws_account_id'', JStr (uuid_str (rr_aws_account_id r))),
      (''actor_user_id'', JStr (uuid_str actor))]" "eq_job_type ?rq = PlatformJobType.DISCOVERY"
      "eq_reference_id ?rq = rr_aws_account_id r"
    by (simp_all add: rediscovery_child_def child_request_def enqueue_args_def)
  ultimately show ?thesis
    using assms(4) enqueue_rows [of ?rq "jd_child_id draw" "jd_child_correlation draw" "jd_now draw" d]
    by (auto simp: job_candidate_def dispatch_def discovery_def)
qed

section \<open>A scan that joins another discovery\<close>

definition refers :: "uuid \<Rightarrow> PlatformJob \<Rightarrow> bool" where
  "refers i job = (map_of (pj_payload_json job) ''scan_run_id'' = Some (JStr (uuid_str i)))"

text \<open>What a handler of another run does with a run: it leaves it alone and queues nothing for it.\<close>

definition keeps_run :: "ScanRun \<Rightarrow> db \<Rightarrow> db \<Rightarrow> bool" where
  "keeps_run r d d' =
     ((r \<in> set (scan_runs d) \<longrightarrow> r \<in> set (scan_runs d')) \<and>
      (\<forall>k \<in> set (platform_jobs d'). k \<in> set (platform_jobs d) \<or> \<not> refers (sr_id r) k))"

lemma keeps_run_refl [simp]: "keeps_run r d d" by (simp add: keeps_run_def)

lemma keeps_run_trans: "keeps_run r d d' \<Longrightarrow> keeps_run r d' d'' \<Longrightarrow> keeps_run r d d''"
  by (auto simp: keeps_run_def)

lemma keeps_run_work: "work_frame d d' \<Longrightarrow> keeps_run r d d'"
  by (simp add: keeps_run_def work_frame_def)

lemma keeps_run_commit: "commit_run r0 d = Inr d' \<Longrightarrow> sr_id r0 \<noteq> sr_id r \<Longrightarrow> keeps_run r d d'"
  by (auto simp: commit_run_Inr keeps_run_def write_run_def intro: in_put_row_other)

lemma enqueue_child_keeps:
  assumes "enqueue_child draw rq d = (x, d')" and "eq_payload rq = Some p"
    and "map_of p ''scan_run_id'' \<noteq> Some (JStr (uuid_str (sr_id r)))"
  shows "keeps_run r d d'"
  using assms
  by (auto simp: enqueue_child_def enqueue_def keeps_run_def refers_def job_candidate_def validated_payload_iff Let_def
      split: sum.splits if_splits option.splits)

lemma scheduled_scan_keeps:
  assumes "\<not> refers (sr_id r) job"
  shows "keeps_run r d (snd (scheduled_scan draw job d))"
proof -
  have "sr_id r0 \<noteq> sr_id r"
    if "uuid_value (pj_payload_json job) ''scan_run_id'' = Inr i" and "find (\<lambda>r. sr_id r = i \<and> P r) rs = Some r0" for i P rs r0
    using that assms by (auto simp: refers_def uuid_value_Inr dest!: find_mem)
  then show ?thesis
    using keeps_run_commit [where r = r] enqueue_child_keeps [where r = r]
    by (auto simp: scheduled_scan_def discovery_child_def child_request_def start_run_def split: sum.splits option.splits prod.splits)
      (fastforce intro: keeps_run_trans)+
qed

lemma discovery_of_run_keeps:
  assumes "sr_id r \<noteq> i"
  shows "keeps_run r d (snd (discovery_of_run draw job a u x i d))"
proof -
  have "sr_id r0 \<noteq> sr_id r" if "scan_run o' i d = Inr r0" for o' r0
    using that assms by (auto simp: scan_run_def find_run_def split: option.splits dest!: find_mem)
  then show ?thesis
    using keeps_run_commit [where r = r] enqueue_child_keeps [where r = r]
    by (auto simp: discovery_of_run_def evaluation_child_def child_request_def split: sum.splits prod.splits)
      (fastforce intro: keeps_run_trans)+
qed

lemma evaluation_of_run_keeps:
  assumes "sr_id r \<noteq> i"
  shows "keeps_run r d (snd (evaluation_of_run draw job x i d))"
proof -
  have "sr_id r0 \<noteq> sr_id r" if "scan_run o' i d = Inr r0" for o' r0
    using that assms by (auto simp: scan_run_def find_run_def split: option.splits dest!: find_mem)
  moreover have "keeps_run r d1 (note_run o' r0 d2) = keeps_run r d1 d2" for o' r0 d1 d2
    by (auto simp: note_run_def write_schedule_def keeps_run_def split: option.splits sum.splits)
  ultimately show ?thesis
    using keeps_run_commit [where r = r]
    by (auto simp: evaluation_of_run_def complete_run_def split: sum.splits)
qed

lemma other_run:
  "\<not> refers i job \<Longrightarrow> optional_uuid (pj_payload_json job) ''scan_run_id'' = Inr (Some i') \<Longrightarrow> i \<noteq> i'"
  by (auto simp: refers_def optional_uuid_Some)

lemma discovery_keeps:
  assumes "\<not> refers (sr_id r) job"
  shows "keeps_run r d (snd (discovery wk draw job d))"
proof -
  have "keeps_run r d d1" if "start_discovery f connect clock acc a i d = (x, d1)" for f connect clock acc a i x d1
    using start_discovery_work [of d f connect clock acc a i] that by (auto intro: keeps_run_work)
  then show ?thesis
    using other_run [OF assms]
    by (auto simp: discovery_def split: sum.splits option.splits prod.splits
        intro: keeps_run_trans [OF _ discovery_of_run_keeps])
qed

lemma evaluation_keeps:
  assumes "\<not> refers (sr_id r) job"
  shows "keeps_run r d (snd (evaluation wk draw job d))"
proof -
  have "keeps_run r d d1" if "start_evaluation sha reg draws clock acc a dj i d = (x, d1)" for sha reg draws clock acc a dj i x d1
    using start_evaluation_work [of d sha reg draws clock acc a dj i] that by (auto intro: keeps_run_work)
  then show ?thesis
    using other_run [OF assms]
    by (auto simp: evaluation_def split: sum.splits option.splits prod.splits
        intro: keeps_run_trans [OF _ evaluation_of_run_keeps])
qed

lemma notification_delivery_keeps: "keeps_run r d (snd (notification_delivery wk draw job d))"
proof -
  have "keeps_run r d d1" if "deliver ns o' i now d = (x, d1)" for ns o' i now x d1
    using deliver_work [of d ns o' i now] that by (auto intro: keeps_run_work)
  then show ?thesis
    by (auto simp: notification_delivery_def split: sum.splits prod.splits)
qed

lemma executed_keeps: "keeps_run r d (snd (executed draw job u q d))"
  using enqueue_child_keeps [where r = r]
  by (auto simp: executed_def rediscovery_child_def child_request_def split: sum.splits prod.splits)

lemma remediation_keeps: "keeps_run r d (snd (remediation wk draw job d))"
proof -
  have "keeps_run r d d1" if "execute sv o' i l now d = (x, d1)" for sv o' i l now x d1
    using execute_work [of d sv o' i l now] that by (auto intro: keeps_run_work)
  moreover have "keeps_run r d d2" if "execution_residue sv o' i l d = Inr d2" for sv o' i l d2
    using execution_residue_work [OF that] by (rule keeps_run_work)
  ultimately show ?thesis
    by (auto simp: remediation_def split: sum.splits prod.splits intro: keeps_run_trans [OF _ executed_keeps])
qed

lemma dispatch_keeps: "\<not> refers (sr_id r) job \<Longrightarrow> keeps_run r d (snd (dispatch wk draw job d))"
  by (auto simp: dispatch_def scheduled_scan_keeps discovery_keeps evaluation_keeps notification_delivery_keeps
      remediation_keeps split: PlatformJobType.splits)

text \<open>A run that no job of the queue still works for.\<close>

definition abandoned :: "ScanRun \<Rightarrow> db \<Rightarrow> bool" where
  "abandoned r d =
     (keys_distinct pj_id (platform_jobs d) \<and> r \<in> set (scan_runs d) \<and>
      (\<forall>j \<in> set (platform_jobs d). platform_job_active j \<longrightarrow> \<not> refers (sr_id r) j))"

lemma settled_payload [simp]:
  "pj_payload_json (settled_job wk draw outcome job) = pj_payload_json job"
  by (simp add: settled_job_def succeed_job_def fail_job_def clear_lease_def Let_def split: sum.splits job_error.splits option.splits)

lemma refers_payload: "pj_payload_json k = pj_payload_json j \<Longrightarrow> refers i k = refers i j"
  by (simp add: refers_def)

lemma finish_scan_run_keeps:
  assumes "\<not> refers (sr_id r) job"
  shows "keeps_run r d (snd (finish_scan_run_if_terminal job t now d))"
  using other_run [OF assms]
  by (auto simp: finish_scan_run_if_terminal_def find_run_def fail_run_def split: sum.splits option.splits
      intro!: keeps_run_commit dest!: find_mem)

lemma write_job_keeps: "\<not> refers (sr_id r) j \<Longrightarrow> keeps_run r d (write_job j d)"
  by (auto simp: keeps_run_def write_job_def dest!: set_put_row)

lemma settle_keeps:
  assumes "\<not> refers (sr_id r) job" and "leased (pj_id job) (jd_token draw) PlatformJobStatus.RUNNING (snd h) = Inr job"
  shows "keeps_run r (snd h) (snd (settle wk draw job h))"
proof -
  have f: "\<not> refers (sr_id r) (fail_job x c s t ra now job)" "\<not> refers (sr_id r) (succeed_job y now job)" for x c s t ra now y
    using assms(1) by (simp_all add: refers_def fail_job_def succeed_job_def clear_lease_def Let_def)
  have "keeps_run r (snd h) (snd (record_failure wk draw job c s t ra (snd h)))" for c s t ra
  proof -
    let ?j = "fail_job (wk_redact wk) c s t ra (jd_ended_at draw) job"
    have "record_failure wk draw job c s t ra (snd h) =
        finish_scan_run_if_terminal job ?j (jd_closed_at draw) (write_job ?j (snd h))"
      using assms(2) by (simp add: record_failure_def fail_def Let_def)
    then show ?thesis using keeps_run_trans [OF write_job_keeps [OF f(1)] finish_scan_run_keeps [OF assms(1)]] by simp
  qed
  then show ?thesis
    using assms(2) f(2)
    by (cases h) (auto simp: settle_def succeed_def intro: write_job_keeps split: sum.splits job_error.splits option.splits)
qed

lemma acquirable_active: "acquirable now j \<Longrightarrow> platform_job_active j"
  by (auto simp: acquirable_def platform_job_active_def)

lemma process_one_idle:
  "select_job (jd_locked draw) (jd_acquired_at draw) (platform_jobs d) = None \<Longrightarrow> process_one wk draw d = return False d"
  by (simp add: process_one_def acquire_def)

lemma process_one_keeps:
  assumes "keys_distinct pj_id (platform_jobs d)"
    and "\<And>j. j \<in> set (platform_jobs d) \<Longrightarrow> platform_job_active j \<Longrightarrow> \<not> refers (sr_id r) j"
  shows "keeps_run r d (snd (process_one wk draw d))"
proof (cases "select_job (jd_locked draw) (jd_acquired_at draw) (platform_jobs d)")
  case None
  then show ?thesis by (simp add: process_one_idle)
next
  case (Some j)
  let ?job = "running_job wk draw j"
  from process_one_queue [OF assms(1) Some, of wk] obtain d3 where
    d3: "platform_jobs d3 = put_row pj_id ?job (platform_jobs d)" "work_frame d (d3\<lparr>platform_jobs := platform_jobs d\<rparr>)"
      "process_one wk draw d = map_prod (map_sum id (\<lambda>u. True)) id (settle wk draw ?job (dispatch wk draw ?job d3))"
      "leased (pj_id j) (jd_token draw) PlatformJobStatus.RUNNING (snd (dispatch wk draw ?job d3)) = Inr ?job" by blast
  have "\<not> refers (sr_id r) j" using assms(2) select_job_best(1,2) [OF Some] acquirable_active by blast
  then have job: "\<not> refers (sr_id r) ?job" by (simp add: refers_def)
  have "keeps_run r d d3" using d3(1,2) job by (auto simp: keeps_run_def work_frame_def dest!: set_put_row)
  moreover have "keeps_run r d3 (snd (dispatch wk draw ?job d3))" using job by (rule dispatch_keeps)
  moreover have "keeps_run r (snd (dispatch wk draw ?job d3)) (snd (settle wk draw ?job (dispatch wk draw ?job d3)))"
    using settle_keeps [OF job] d3(4) by simp
  ultimately have "keeps_run r d (snd (settle wk draw ?job (dispatch wk draw ?job d3)))" by (blast intro: keeps_run_trans)
  then show ?thesis by (simp add: d3(3))
qed

text \<open>Workers take turns; each call draws a fresh identifier for the job it may queue.\<close>

inductive worker_step :: "db \<Rightarrow> db \<Rightarrow> bool" where
  "jd_child_id draw \<notin> pj_id ` set (platform_jobs d) \<Longrightarrow> worker_step d (snd (process_one wk draw d))"

inductive_cases worker_stepE: "worker_step d d'"

lemma process_one_distinct:
  assumes "keys_distinct pj_id (platform_jobs d)" and "jd_child_id draw \<notin> pj_id ` set (platform_jobs d)"
  shows "keys_distinct pj_id (platform_jobs (snd (process_one wk draw d)))"
proof (cases "select_job (jd_locked draw) (jd_acquired_at draw) (platform_jobs d)")
  case None
  with assms(1) show ?thesis by (simp add: process_one_idle)
next
  case (Some j)
  from process_one_queue [OF assms(1) this, of wk] assms(2) show ?thesis by blast
qed

lemma abandoned_step:
  assumes "worker_step d d'" and "abandoned r d"
  shows "abandoned r d'"
proof -
  obtain draw wk where 1: "d' = snd (process_one wk draw d)" "jd_child_id draw \<notin> pj_id ` set (platform_jobs d)"
    using assms(1) by (elim worker_stepE) blast
  have "keys_distinct pj_id (platform_jobs d)"
      "\<And>j. j \<in> set (platform_jobs d) \<Longrightarrow> platform_job_active j \<Longrightarrow> \<not> refers (sr_id r) j"
    using assms(2) by (auto simp: abandoned_def)
  from process_one_keeps [OF this, of wk draw] process_one_distinct [OF this(1) 1(2), of wk] assms(2) show ?thesis
    unfolding 1(1) abandoned_def keeps_run_def by blast
qed

interpretation abandoned_run: transition_system worker_step "abandoned r" for r
  by unfold_locales (rule abandoned_step)

lemma start_run_committed:
  assumes "scheduling_ok d" and "r \<in> set (scan_runs d)" and "sr_status r = ScanRunStatus.PENDING"
  shows "commit_run (start_run now r) d = Inr (write_run (start_run now r) d)"
proof -
  have "scan_run_status_lifecycle r" "keys_distinct sr_id (scan_runs d)" "scan_run_unique (scan_runs d)"
    using assms(1,2) by (auto simp: scheduling_ok_def list_all_iff)
  moreover from this(1) assms(3) have "scan_run_status_lifecycle (start_run now r)"
    by (auto simp: scan_run_status_lifecycle_def start_run_def)
  moreover have "scan_run_unique (scan_runs (write_run (start_run now r) d))"
    using calculation(2,3) get_row_distinct [OF calculation(2) assms(2)] assms(3)
    unfolding scan_run_unique_def write_run_def
    by (simp, intro unique_on_put_row [where ?r0.0 = r]) (auto simp: start_run_def scan_run_active_def)
  ultimately show ?thesis by (simp add: commit_run_Inr)
qed

lemma find_pending_run:
  assumes "scheduling_ok d" and "r \<in> set (scan_runs d)" and "P r"
  shows "find (\<lambda>x. sr_id x = sr_id r \<and> P x) (scan_runs d) = Some r"
proof -
  have "\<exists>x. find (\<lambda>x. sr_id x = sr_id r \<and> P x) (scan_runs d) = Some x"
    using assms(2,3) by (metis (mono_tags, lifting) find_None_iff not_None_eq)
  then obtain x where x: "find (\<lambda>x. sr_id x = sr_id r \<and> P x) (scan_runs d) = Some x" by blast
  then have "x \<in> set (scan_runs d)" "sr_id x = sr_id r" by (auto dest: find_mem)
  then have "x = r" using assms(1,2) by (auto simp: scheduling_ok_def keys_distinct_def distinct_map inj_on_def)
  with x show ?thesis by simp
qed

text \<open>Joining: with an active job for the reference and no job of the key, \<open>enqueue\<close> returns that job.\<close>

lemma enqueue_joins:
  assumes "validated_payload (case eq_payload rq of None \<Rightarrow> [] | Some p \<Rightarrow> p) = Inr p"
    and "m \<in> set (platform_jobs d)" and "same_active_reference rq m" and "\<not> list_ex (same_idempotency rq) (platform_jobs d)"
    and "platform_job_unique (platform_jobs d)"
  shows "enqueue rq i c now d = (Inr (m, False), d)"
proof -
  let ?j = "job_candidate rq p i c now"
  have "platform_job_active m" "platform_job_active ?j"
    using assms(3) by (auto simp: same_active_reference_def ACTIVE_STATUSES_def platform_job_active_def job_candidate_def)
  then have "\<not> job_insertable ?j d"
    using assms(2,3) by (auto simp: job_insertable_def platform_job_unique_def unique_on_snoc same_active_reference_def job_candidate_def)
  moreover have "find (same_idempotency rq) (platform_jobs d) = None" using assms(4) by (auto simp: find_None_iff list_ex_iff)
  moreover have "find (same_active_reference rq) (platform_jobs d) = Some m"
  proof -
    obtain x where x: "find (same_active_reference rq) (platform_jobs d) = Some x"
      using assms(2,3) by (metis find_None_iff not_None_eq)
    then have "x \<in> set (platform_jobs d)" "same_active_reference rq x" by (auto dest: find_mem)
    then have "x = m"
      using assms(2,3,5) unique_onD [of platform_job_active "\<lambda>j. (pj_organization_id j, pj_job_type j, pj_reference_id j)" "platform_jobs d" x m]
      by (auto simp: platform_job_unique_def same_active_reference_def ACTIVE_STATUSES_def platform_job_active_def)
    with x show ?thesis by simp
  qed
  ultimately show ?thesis using assms(1) by (simp add: enqueue_def Let_def)
qed

lemma scan_child_payload:
  assumes "uuid_bound (sr_aws_account_id r)" and "uuid_bound u" and "uuid_bound (sr_id r)"
  shows "validated_payload (case eq_payload (discovery_child job r u) of None \<Rightarrow> [] | Some p \<Rightarrow> p) =
    Inr [(''account_id'', JStr (uuid_str (sr_aws_account_id r))), (''actor_user_id'', JStr (uuid_str u)),
        (''scan_run_id'', JStr (uuid_str (sr_id r)))]"
proof -
  have "\<not> SENSITIVE_PAYLOAD_KEY ''account_id''" "\<not> SENSITIVE_PAYLOAD_KEY ''actor_user_id''"
    "\<not> SENSITIVE_PAYLOAD_KEY ''scan_run_id''" by code_simp+
  then have "validated_payload (id_payload [(''account_id'', sr_aws_account_id r), (''actor_user_id'', u), (''scan_run_id'', sr_id r)]) =
      Inr (id_payload [(''account_id'', sr_aws_account_id r), (''actor_user_id'', u), (''scan_run_id'', sr_id r)])"
    using assms by (intro id_payload_ok) auto
  then show ?thesis by (simp add: discovery_child_def child_request_def id_payload_def)
qed

text \<open>The handler of a scheduled scan on a pending run, up to the result of queueing the discovery.\<close>

lemma scheduled_scan_starts:
  assumes "scheduling_ok d" and "r \<in> set (scan_runs d)" and "sr_status r = ScanRunStatus.PENDING"
    and "sr_organization_id r = pj_organization_id job" and "pj_payload_json job = scan_payload (sr_id r) user schedule"
    and "uuid_bound (sr_id r)" and "uuid_bound user"
  shows "scheduled_scan draw job d =
    (case enqueue_child draw (discovery_child job r user) (write_run (start_run (jd_now draw) r) d) of
       (Inl e, d2) \<Rightarrow> (Inl (Raised e), d2)
     | (Inr child, d2) \<Rightarrow> (Inr (uuid_str (pj_id child)), d2))"
  using assms start_run_committed [OF assms(1-3), of "jd_now draw"]
    find_pending_run [OF assms(1,2), of "\<lambda>x. sr_organization_id x = pj_organization_id job \<and> sr_status x = ScanRunStatus.PENDING"]
  by (simp add: scheduled_scan_def scan_payload_def)

lemma abandoned_blocks:
  assumes "abandoned r d" and "scan_run_active r" and "get_schedule o' i d = Inr s"
    and "ss_aws_account_id s = sr_aws_account_id r"
  shows "\<exists>e. fst (run_schedule isoformat o' i u trigger draw now d) = Inl e"
proof -
  have "\<not> scan_run_unique (scan_runs d @ [new_run s trigger (rn_run_id draw)])"
    using assms by (auto simp: abandoned_def scan_run_unique_def unique_on_snoc)
  then show ?thesis using assms(3)
    by (auto simp: run_schedule_def Let_def split: sum.splits)
qed

lemma scan_child_joins:
  assumes "keys_distinct pj_id (platform_jobs d)" and "platform_job_unique (platform_jobs d)"
    and "select_job (jd_locked draw) (jd_acquired_at draw) (platform_jobs d) = Some j"
    and "pj_job_type j = PlatformJobType.SCHEDULED_SCAN"
    and m: "m \<in> set (platform_jobs d)" "pj_organization_id m = pj_organization_id j"
      "pj_job_type m = PlatformJobType.DISCOVERY" "pj_reference_id m = sr_aws_account_id r" "platform_job_active m"
    and new: "\<not> list_ex (same_idempotency (discovery_child j r user)) (platform_jobs d)"
    and "uuid_bound (sr_id r)" "uuid_bound user" "uuid_bound (sr_aws_account_id r)"
    and "platform_jobs d3 = put_row pj_id (running_job wk draw j) (platform_jobs d)"
  shows "enqueue_child draw (discovery_child (running_job wk draw j) r user) (write_run x d3) = (Inr m, write_run x d3)"
proof -
  let ?job = "running_job wk draw j" and ?rq = "discovery_child (running_job wk draw j) r user"
  have j: "j \<in> set (platform_jobs d)" "platform_job_active j"
    using select_job_best(1,2) [OF assms(3)] acquirable_active by auto
  have same: "same_idempotency ?rq = same_idempotency (discovery_child j r user)"
    by (rule ext) (simp add: same_idempotency_def discovery_child_def child_request_def enqueue_args_def)
  have "pj_id m \<noteq> pj_id j"
  proof
    assume "pj_id m = pj_id j"
    then have "Some m = Some j" using get_row_distinct [OF assms(1) m(1)] get_row_distinct [OF assms(1) j(1)] by metis
    with m(3) assms(4) show False by simp
  qed
  then have "m \<in> set (platform_jobs (write_run x d3))" using m(1) assms(14) by (simp add: in_put_row_other)
  moreover have "same_active_reference ?rq m"
    using m(2-5) by (auto simp: same_active_reference_def discovery_child_def child_request_def enqueue_args_def
        ACTIVE_STATUSES_def platform_job_active_def)
  moreover have "\<not> list_ex (same_idempotency ?rq) (platform_jobs (write_run x d3))"
    using new assms(4,14) unfolding same
    by (auto simp: list_ex_iff same_idempotency_def discovery_child_def child_request_def enqueue_args_def dest!: set_put_row)
  moreover have "platform_job_unique (platform_jobs (write_run x d3))"
    using assms(1,2,14) get_row_distinct [OF assms(1) j(1)] j(2)
    by (auto simp: platform_job_unique_def running_job_def extend_lease_def start_job_def lease_job_def
        intro!: unique_on_put_row [where ?r0.0 = j])
  ultimately show ?thesis
    using enqueue_joins [OF scan_child_payload] assms(11-13) by (simp add: enqueue_child_def)
qed

text \<open>
  C22. A scan that joins another discovery never ends. When the worker starts a scheduled scan while a discovery
  job that does not belong to a scan is active for the account (one requested by hand, say), the queue answers the
  worker with that job, the scan job succeeds, and no job for the run is queued. From then on,
  whatever jobs the workers process, the run stays running, and no further scan of the
  account can be started, neither by the scheduler nor on request.
\<close>

theorem joined_scan_never_ends:
  assumes "queue_ok d" and "scheduling_ok d"
    and j: "select_job (jd_locked draw) (jd_acquired_at draw) (platform_jobs d) = Some j"
      "pj_job_type j = PlatformJobType.SCHEDULED_SCAN" "pj_payload_json j = scan_payload (sr_id r) user schedule"
    and r: "r \<in> set (scan_runs d)" "sr_status r = ScanRunStatus.PENDING" "sr_organization_id r = pj_organization_id j"
    and m: "m \<in> set (platform_jobs d)" "pj_organization_id m = pj_organization_id j"
      "pj_job_type m = PlatformJobType.DISCOVERY" "pj_reference_id m = sr_aws_account_id r" "platform_job_active m"
    and only: "\<forall>k \<in> set (platform_jobs d). refers (sr_id r) k \<longrightarrow> k = j"
    and new: "\<not> list_ex (same_idempotency (discovery_child j r user)) (platform_jobs d)"
    and bound: "uuid_bound (sr_id r)" "uuid_bound user" "uuid_bound (sr_aws_account_id r)"
  shows "fst (process_one wk draw d) = Inr True \<and>
    (\<exists>row. get_row pj_id (pj_id j) (platform_jobs (snd (process_one wk draw d))) = Some row \<and>
       pj_status row = PlatformJobStatus.SUCCEEDED) \<and>
    (\<forall>d'. worker_step\<^sup>*\<^sup>* (snd (process_one wk draw d)) d' \<longrightarrow>
       start_run (jd_now draw) r \<in> set (scan_runs d') \<and>
       (\<forall>o' i s isoformat u trigger draw' now. get_schedule o' i d' = Inr s \<and> ss_aws_account_id s = sr_aws_account_id r \<longrightarrow>
          (\<exists>e. fst (run_schedule isoformat o' i u trigger draw' now d') = Inl e)))"
proof -
  let ?job = "running_job wk draw j" and ?r = "start_run (jd_now draw) r"
  have dist: "keys_distinct pj_id (platform_jobs d)" and uniq: "platform_job_unique (platform_jobs d)"
    using assms(1) by (simp_all add: queue_ok_def)
  from process_one_queue [OF dist j(1), of wk] obtain d3 where
    d3: "platform_jobs d3 = put_row pj_id ?job (platform_jobs d)" "work_frame d (d3\<lparr>platform_jobs := platform_jobs d\<rparr>)"
      "process_one wk draw d = map_prod (map_sum id (\<lambda>u. True)) id (settle wk draw ?job (dispatch wk draw ?job d3))"
      "leased (pj_id j) (jd_token draw) PlatformJobStatus.RUNNING (snd (dispatch wk draw ?job d3)) = Inr ?job" by blast
  have runs: "scan_runs d3 = scan_runs d" "scan_schedules d3 = scan_schedules d" using d3(2) by (simp_all add: work_frame_def)
  let ?d4 = "write_run ?r d3"
  have joined: "enqueue_child draw (discovery_child ?job r user) ?d4 = (Inr m, ?d4)"
    by (rule scan_child_joins [OF dist uniq j(1,2) m new bound d3(1)])
  have h: "dispatch wk draw ?job d3 = (Inr (uuid_str (pj_id m)), ?d4)"
    using scheduled_scan_starts [of d3 r ?job user schedule draw] joined assms(2) runs r j(2,3) bound(1,2)
      scheduling_cong [of d3 d] by (simp add: dispatch_def)
  let ?row = "succeed_job (Some (uuid_str (pj_id m))) (jd_ended_at draw) ?job"
  have end': "process_one wk draw d = (Inr True, write_job ?row ?d4)"
    using d3(3,4) h by (simp add: settle_def succeed_def)
  have row: "pj_id ?row = pj_id j" "pj_status ?row = PlatformJobStatus.SUCCEEDED"
    by (simp_all add: succeed_job_def clear_lease_def)
  have jobs: "platform_jobs (write_job ?row ?d4) = put_row pj_id ?row (platform_jobs d)"
    using d3(1) row(1) by (simp add: write_job_def put_row_put_row)
  have "j \<in> set (platform_jobs d)" using select_job_best(1) [OF j(1)] .
  have "abandoned ?r (write_job ?row ?d4)"
    unfolding abandoned_def jobs using dist only row runs r(1)
    by (auto simp: write_job_def write_run_def platform_job_active_def start_run_def intro!: in_put_row_same [of r] dest!: set_put_row)
  then have stuck: "abandoned ?r d'" if "worker_step\<^sup>*\<^sup>* (write_job ?row ?d4) d'" for d'
    using abandoned_run.inv_reachable [OF that] by blast
  have "scan_run_active ?r" "sr_aws_account_id ?r = sr_aws_account_id r" by (simp_all add: scan_run_active_def start_run_def)
  with stuck have later: "?r \<in> set (scan_runs d') \<and>
       (\<forall>o' i s isoformat u trigger draw' now. get_schedule o' i d' = Inr s \<and> ss_aws_account_id s = sr_aws_account_id r \<longrightarrow>
          (\<exists>e. fst (run_schedule isoformat o' i u trigger draw' now d') = Inl e))"
    if "worker_step\<^sup>*\<^sup>* (write_job ?row ?d4) d'" for d'
    using that abandoned_blocks [of ?r d'] by (auto simp: abandoned_def)
  have "get_row pj_id (pj_id j) (platform_jobs (write_job ?row ?d4)) = Some ?row"
    unfolding jobs using get_row_distinct [OF dist \<open>j \<in> set (platform_jobs d)\<close>] row(1) by (simp add: get_put_row)
  with later row(2) show ?thesis unfolding end' by auto
qed

section \<open>The scan pipeline\<close>

definition run_known :: "uuid \<Rightarrow> uuid \<Rightarrow> db \<Rightarrow> bool" where
  "run_known o' i d =
     (keys_distinct sr_id (scan_runs d) \<and> (\<exists>r \<in> set (scan_runs d). sr_id r = i \<and> sr_organization_id r = o'))"

lemma run_known_work: "work_frame d d' \<Longrightarrow> run_known o' i d' = run_known o' i d"
  by (simp add: run_known_def work_frame_def)

lemma run_known_commit:
  assumes "run_known o' i d" and "commit_run r0 d = Inr d'" and "x \<in> set (scan_runs d)" and "sr_id r0 = sr_id x"
    and "sr_organization_id r0 = sr_organization_id x"
  shows "run_known o' i d'"
proof -
  obtain r where r: "r \<in> set (scan_runs d)" "sr_id r = i" "sr_organization_id r = o'" using assms(1) by (auto simp: run_known_def)
  have rows: "scan_runs d' = put_row sr_id r0 (scan_runs d)" using assms(2) by (simp add: commit_run_Inr write_run_def)
  show ?thesis
  proof (cases "sr_id r = sr_id r0")
    case True
    then have "r = x" using assms(1,3,4) r(1) unfolding run_known_def keys_distinct_def distinct_map by (metis inj_onD)
    with True r assms(1,5) in_put_row_same [OF r(1) True] rows show ?thesis by (auto simp: run_known_def)
  next
    case False
    with r assms(1) rows show ?thesis by (auto simp: run_known_def intro: in_put_row_other)
  qed
qed

lemma find_run_known: "run_known o' i d \<Longrightarrow> \<exists>r. find_run o' i d = Some r"
  unfolding run_known_def find_run_def by (metis (mono_tags, lifting) find_None_iff not_None_eq)

lemma find_run_mem: "find_run o' i d = Some r \<Longrightarrow> r \<in> set (scan_runs d) \<and> sr_id r = i \<and> sr_organization_id r = o'"
  by (auto simp: find_run_def dest!: find_mem)

lemma scan_run_mem: "scan_run o' i d = Inr r \<Longrightarrow> r \<in> set (scan_runs d) \<and> sr_id r = i \<and> sr_organization_id r = o'"
  by (auto simp: scan_run_def split: option.splits dest: find_run_mem)

lemma enqueue_child_runs: "enqueue_child draw rq d = (x, d') \<Longrightarrow> scan_runs d' = scan_runs d"
  by (auto simp: enqueue_child_def enqueue_def Let_def split: sum.splits if_splits option.splits)

lemma enqueue_child_mem:
  "enqueue_child draw rq d = (Inr child, d') \<Longrightarrow> child \<in> set (platform_jobs d') \<and> pj_job_type child = eq_job_type rq"
  by (auto simp: enqueue_child_def enqueue_def Let_def job_candidate_def same_idempotency_def same_active_reference_def
      split: sum.splits if_splits option.splits dest!: find_mem)

lemma run_known_child: "enqueue_child draw rq d = (x, d') \<Longrightarrow> run_known o' i d' = run_known o' i d"
  by (simp add: run_known_def enqueue_child_runs)

text \<open>Jobs of other types do not belong to a scan.\<close>

definition scan_job :: "PlatformJob \<Rightarrow> bool" where
  "scan_job j = (pj_job_type j \<in> {PlatformJobType.SCHEDULED_SCAN, PlatformJobType.DISCOVERY, PlatformJobType.EVALUATION})"

lemma scheduled_scan_known:
  assumes "run_known o' i d"
  shows "run_known o' i (snd (scheduled_scan draw job d))"
  using assms
  by (auto simp: scheduled_scan_def start_run_def split: sum.splits option.splits prod.splits
      intro: run_known_commit simp: run_known_child dest!: find_mem)

lemma discovery_of_run_known:
  assumes "run_known o' i d"
  shows "run_known o' i (snd (discovery_of_run draw job a u x run_id d))"
  using assms
  by (auto simp: discovery_of_run_def split: sum.splits prod.splits
      intro: run_known_commit simp: run_known_child dest!: scan_run_mem)

lemma evaluation_of_run_known:
  assumes "run_known o' i d"
  shows "run_known o' i (snd (evaluation_of_run draw job x run_id d))"
proof -
  have "run_known o' i (note_run org r0 d1) = run_known o' i d1" for org r0 d1
    by (auto simp: note_run_def write_schedule_def run_known_def split: option.splits sum.splits)
  then show ?thesis using assms
    by (auto simp: evaluation_of_run_def complete_run_def split: sum.splits
        intro: run_known_commit dest!: scan_run_mem)
qed

lemma discovery_known:
  assumes "run_known o' i d"
  shows "run_known o' i (snd (discovery wk draw job d))"
proof -
  have "run_known o' i d1" if "start_discovery f connect clock acc a n d = (x, d1)" for f connect clock acc a n x d1
    using start_discovery_work [of d f connect clock acc a n] that assms by (auto simp: run_known_work)
  then show ?thesis
    using assms by (auto simp: discovery_def discovery_of_run_known split: sum.splits option.splits prod.splits)
qed

lemma evaluation_known:
  assumes "run_known o' i d"
  shows "run_known o' i (snd (evaluation wk draw job d))"
proof -
  have "run_known o' i d1" if "start_evaluation sha reg draws clock acc a dj n d = (x, d1)" for sha reg draws clock acc a dj n x d1
    using start_evaluation_work [of d sha reg draws clock acc a dj n] that assms by (auto simp: run_known_work)
  then show ?thesis
    using assms by (auto simp: evaluation_def evaluation_of_run_known split: sum.splits option.splits prod.splits)
qed

lemma dispatch_known: "scan_job job \<Longrightarrow> run_known o' i d \<Longrightarrow> run_known o' i (snd (dispatch wk draw job d))"
  by (auto simp: scan_job_def dispatch_def scheduled_scan_known discovery_known evaluation_known)

text \<open>How a successful handler passes a scan on.\<close>

definition run_ended :: "uuid \<Rightarrow> db \<Rightarrow> bool" where
  "run_ended i d = (\<exists>r \<in> set (scan_runs d). sr_id r = i \<and> \<not> scan_run_active r)"

lemma run_ended_written:
  assumes "scan_runs d' = put_row sr_id r' (scan_runs d)" and "r \<in> set (scan_runs d)" and "sr_id r = i" and "sr_id r' = i"
    and "\<not> scan_run_active r'"
  shows "run_ended i d'"
  using assms(1,4,5) in_put_row_same [OF assms(2), of sr_id r'] assms(3) unfolding run_ended_def by auto

lemma scheduled_scan_hands_over:
  assumes "scheduled_scan draw job d = (Inr s, d')"
  shows "\<exists>child \<in> set (platform_jobs d'). pj_job_type child = PlatformJobType.DISCOVERY \<and> s = uuid_str (pj_id child)"
  using assms
  by (auto simp: scheduled_scan_def discovery_child_def child_request_def enqueue_args_def
      split: sum.splits option.splits prod.splits dest!: enqueue_child_mem)

lemma discovery_hands_over:
  assumes "discovery wk draw job d = (Inr s, d')" and "optional_uuid (pj_payload_json job) ''scan_run_id'' = Inr (Some i)"
  shows "\<exists>child \<in> set (platform_jobs d'). pj_job_type child = PlatformJobType.EVALUATION \<and> s = uuid_str (pj_id child)"
  using assms
  by (auto simp: discovery_def discovery_of_run_def evaluation_child_def child_request_def enqueue_args_def
      split: sum.splits option.splits prod.splits dest!: enqueue_child_mem)

lemma evaluation_of_run_ends:
  assumes "evaluation_of_run draw job x i d = (Inr s, d')"
  shows "run_ended i d'"
proof -
  obtain r where r: "scan_run (pj_organization_id job) i d = Inr r"
      "d' = note_run (pj_organization_id job) (complete_run x (jd_now draw) r) (write_run (complete_run x (jd_now draw) r) d)"
    using assms by (auto simp: evaluation_of_run_def commit_run_Inr split: sum.splits)
  have "scan_runs d' = put_row sr_id (complete_run x (jd_now draw) r) (scan_runs d)"
    using r(2) by (auto simp: note_run_def write_schedule_def write_run_def split: option.splits sum.splits)
  from run_ended_written [OF this, of r] scan_run_mem [OF r(1)] show ?thesis
    by (simp add: complete_run_def scan_run_active_def)
qed

lemma evaluation_ends:
  assumes "evaluation wk draw job d = (Inr s, d')" and "optional_uuid (pj_payload_json job) ''scan_run_id'' = Inr (Some i)"
  shows "run_ended i d'"
  using assms
  by (auto simp: evaluation_def split: sum.splits option.splits prod.splits dest: evaluation_of_run_ends)

text \<open>How a failure ends it.\<close>

lemma finish_scan_run_ends:
  assumes "finish_scan_run_if_terminal job t now d = (Inr u, d')" and "run_known (pj_organization_id job) i d"
    and "optional_uuid (pj_payload_json job) ''scan_run_id'' = Inr (Some i)"
    and "pj_status t \<in> {PlatformJobStatus.FAILED, PlatformJobStatus.DEAD_LETTERED}"
  shows "run_ended i d'"
proof -
  obtain r where f: "find_run (pj_organization_id job) i d = Some r" using find_run_known [OF assms(2)] by blast
  note r = find_run_mem [OF this]
  show ?thesis
  proof (cases "scan_run_active r")
    case False
    with assms f r show ?thesis by (auto simp: finish_scan_run_if_terminal_def run_ended_def)
  next
    case True
    let ?r = "fail_run (pj_last_error_code t) now r"
    have "scan_runs d' = put_row sr_id ?r (scan_runs d)"
      using assms f True by (auto simp: finish_scan_run_if_terminal_def commit_run_Inr write_run_def split: sum.splits)
    from run_ended_written [OF this, of r] r show ?thesis by (simp add: fail_run_def scan_run_active_def)
  qed
qed

lemma settle_ends:
  assumes "leased (pj_id job) (jd_token draw) PlatformJobStatus.RUNNING (snd h) = Inr job"
    and "run_known (pj_organization_id job) i (snd h)"
    and "optional_uuid (pj_payload_json job) ''scan_run_id'' = Inr (Some i)"
    and "settle wk draw job h = (Inr u, d')" and "fst h = Inl e"
  shows "pj_status (settled_job wk draw (fst h) job) = PlatformJobStatus.RETRY_WAIT \<or> run_ended i d'"
proof -
  have known: "run_known o' x (write_job k d) = run_known o' x d" for o' x k d
    by (simp add: run_known_def write_job_def)
  have rec: "pj_status (fail_job (wk_redact wk) c s t ra (jd_ended_at draw) job) = PlatformJobStatus.RETRY_WAIT \<or> run_ended i d'"
    if "record_failure wk draw job c s t ra (snd h) = (Inr u, d')" for c s t ra
  proof -
    let ?j = "fail_job (wk_redact wk) c s t ra (jd_ended_at draw) job"
    have "finish_scan_run_if_terminal job ?j (jd_closed_at draw) (write_job ?j (snd h)) = (Inr u, d')"
      using that assms(1) by (simp add: record_failure_def fail_def Let_def)
    from finish_scan_run_ends [OF this _ assms(3)] assms(2) known show ?thesis by (auto simp: fail_job_fields)
  qed
  show ?thesis
    using assms(4,5) rec
    by (cases h) (auto simp: settle_def settled_job_def split: job_error.splits option.splits if_splits)
qed

lemma uuid_str_nonempty [simp]: "uuid_str u \<noteq> []"
  by (simp add: uuid_str_def nat_digits_nonempty)

lemma scan_success:
  assumes "scan_job j" and "optional_uuid (pj_payload_json j) ''scan_run_id'' = Inr (Some i)"
    and "fst (dispatch wk draw (running_job wk draw j) d3) = Inr x"
    and "leased (pj_id j) (jd_token draw) PlatformJobStatus.RUNNING (snd (dispatch wk draw (running_job wk draw j) d3)) =
      Inr (running_job wk draw j)"
    and "keys_distinct pj_id (platform_jobs d')"
    and "settle wk draw (running_job wk draw j) (dispatch wk draw (running_job wk draw j) d3) = (Inr u, d')"
  shows "run_ended i d' \<or>
    pj_status (settled_job wk draw (Inr x) (running_job wk draw j)) = PlatformJobStatus.SUCCEEDED \<and>
    (\<exists>child \<in> set (platform_jobs d'). pj_result_reference (settled_job wk draw (Inr x) (running_job wk draw j)) =
       Some (take 255 (uuid_str (pj_id child))) \<and>
       (pj_job_type j = PlatformJobType.SCHEDULED_SCAN \<and> pj_job_type child = PlatformJobType.DISCOVERY \<or>
        pj_job_type j = PlatformJobType.DISCOVERY \<and> pj_job_type child = PlatformJobType.EVALUATION))"
proof -
  let ?job = "running_job wk draw j"
  let ?row = "succeed_job (Some x) (jd_ended_at draw) ?job"
  obtain d4 where h: "dispatch wk draw ?job d3 = (Inr x, d4)" using assms(3) by (metis prod.collapse)
  have d': "d' = write_job ?row d4" using assms(4,6) h by (simp add: settle_def succeed_def)
  have row: "settled_job wk draw (Inr x) ?job = ?row" "pj_id ?row = pj_id j" "pj_job_type ?row = pj_job_type j"
      "pj_status ?row = PlatformJobStatus.SUCCEEDED" "x \<noteq> [] \<Longrightarrow> pj_result_reference ?row = Some (take 255 x)"
    by (simp_all add: settled_job_def succeed_job_def clear_lease_def)
  have job: "?job \<in> set (platform_jobs d4)"
    using assms(4) h by (auto simp: leased_def split: option.splits dest!: find_mem)
  have kept: "child \<in> set (platform_jobs d')" if "child \<in> set (platform_jobs d4)" "pj_job_type child \<noteq> pj_job_type j" for child
  proof -
    have "pj_id child \<noteq> pj_id ?job"
      using that job assms(5) unfolding d' write_job_def
      by (auto simp: keys_distinct_def distinct_map dest: inj_onD) (metis inj_onD running_job_fields(1,5))
    then show ?thesis using that(1) row(2) unfolding d' write_job_def by (simp add: in_put_row_other)
  qed
  have ended: "run_ended i d' = run_ended i d4" by (simp add: d' run_ended_def write_job_def)
  consider "pj_job_type j = PlatformJobType.SCHEDULED_SCAN" | "pj_job_type j = PlatformJobType.DISCOVERY"
    | "pj_job_type j = PlatformJobType.EVALUATION" using assms(1) by (auto simp: scan_job_def)
  then show ?thesis
  proof cases
    case 1
    with h have "scheduled_scan draw ?job d3 = (Inr x, d4)" by (simp add: dispatch_def)
    from scheduled_scan_hands_over [OF this] obtain child where
      "child \<in> set (platform_jobs d4)" "pj_job_type child = PlatformJobType.DISCOVERY" "x = uuid_str (pj_id child)" by blast
    with 1 kept row show ?thesis by auto
  next
    case 2
    with h have "discovery wk draw ?job d3 = (Inr x, d4)" by (simp add: dispatch_def)
    from discovery_hands_over [OF this] assms(2) obtain child where
      "child \<in> set (platform_jobs d4)" "pj_job_type child = PlatformJobType.EVALUATION" "x = uuid_str (pj_id child)" by auto
    with 2 kept row show ?thesis by auto
  next
    case 3
    with h have "evaluation wk draw ?job d3 = (Inr x, d4)" by (simp add: dispatch_def)
    from evaluation_ends [OF this] assms(2) ended show ?thesis by simp
  qed
qed

text \<open>
  C24. A scan does not get lost between its jobs: after the worker has processed a job that belongs to a run (without the
  call raising), the job waits for its retry, or the run has ended, so that the account can be scanned again, or the job
  succeeded and its result names a job of the next stage in the queue, a discovery after the start of the scan and an evaluation
  after a discovery.
\<close>

theorem scan_jobs_hand_over:
  assumes "queue_ok d" and "select_job (jd_locked draw) (jd_acquired_at draw) (platform_jobs d) = Some j" and "scan_job j"
    and "optional_uuid (pj_payload_json j) ''scan_run_id'' = Inr (Some i)"
    and "keys_distinct sr_id (scan_runs d)" and "r \<in> set (scan_runs d)" and "sr_id r = i"
    and "sr_organization_id r = pj_organization_id j" and "jd_child_id draw \<notin> pj_id ` set (platform_jobs d)"
    and "process_one wk draw d = (Inr b, d')"
  shows "b \<and> (\<exists>row. get_row pj_id (pj_id j) (platform_jobs d') = Some row \<and>
    (pj_status row = PlatformJobStatus.RETRY_WAIT \<or>
     (\<exists>r' \<in> set (scan_runs d'). sr_id r' = i \<and> \<not> scan_run_active r') \<or>
     pj_status row = PlatformJobStatus.SUCCEEDED \<and>
     (\<exists>child \<in> set (platform_jobs d'). pj_result_reference row = Some (take 255 (uuid_str (pj_id child))) \<and>
        (pj_job_type j = PlatformJobType.SCHEDULED_SCAN \<and> pj_job_type child = PlatformJobType.DISCOVERY \<or>
         pj_job_type j = PlatformJobType.DISCOVERY \<and> pj_job_type child = PlatformJobType.EVALUATION))))"
proof -
  let ?job = "running_job wk draw j"
  have dist: "keys_distinct pj_id (platform_jobs d)" using assms(1) by (simp add: queue_ok_def)
  from process_one_queue [OF dist assms(2), of wk] obtain d3 where
    d3: "platform_jobs d3 = put_row pj_id ?job (platform_jobs d)" "work_frame d (d3\<lparr>platform_jobs := platform_jobs d\<rparr>)"
      "process_one wk draw d = map_prod (map_sum id (\<lambda>u. True)) id (settle wk draw ?job (dispatch wk draw ?job d3))"
      "get_row pj_id (pj_id j) (platform_jobs d') = Some (settled_job wk draw (fst (dispatch wk draw ?job d3)) ?job)"
      "leased (pj_id j) (jd_token draw) PlatformJobStatus.RUNNING (snd (dispatch wk draw ?job d3)) = Inr ?job"
      "keys_distinct pj_id (platform_jobs d')" using assms(9,10) by (metis snd_conv)
  let ?h = "dispatch wk draw ?job d3"
  obtain u where s: "settle wk draw ?job ?h = (Inr u, d')" and "b"
    using d3(3) assms(10) by (cases "settle wk draw ?job ?h"; cases "fst (settle wk draw ?job ?h)") auto
  have "scan_runs d3 = scan_runs d" using d3(2) by (simp add: work_frame_def)
  then have known: "run_known (pj_organization_id j) i (snd ?h)"
    using assms(3,5-8) by (intro dispatch_known) (auto simp: run_known_def scan_job_def)
  have "pj_status (settled_job wk draw (fst ?h) ?job) = PlatformJobStatus.RETRY_WAIT \<or> run_ended i d' \<or>
     pj_status (settled_job wk draw (fst ?h) ?job) = PlatformJobStatus.SUCCEEDED \<and>
     (\<exists>child \<in> set (platform_jobs d'). pj_result_reference (settled_job wk draw (fst ?h) ?job) = Some (take 255 (uuid_str (pj_id child))) \<and>
        (pj_job_type j = PlatformJobType.SCHEDULED_SCAN \<and> pj_job_type child = PlatformJobType.DISCOVERY \<or>
         pj_job_type j = PlatformJobType.DISCOVERY \<and> pj_job_type child = PlatformJobType.EVALUATION))"
  proof (cases "fst ?h")
    case (Inl e)
    with settle_ends [of ?job draw ?h i wk u d'] d3(5) known assms(4) s show ?thesis by auto
  next
    case (Inr x)
    then show ?thesis using scan_success [OF assms(3,4) _ d3(5,6)] s by simp
  qed
  with d3(4) \<open>b\<close> show ?thesis unfolding run_ended_def by blast
qed

section \<open>A worker at work\<close>

definition offline_worker :: JobWorker where
  "offline_worker =
     \<lparr>wk_worker_id = ''worker-1'', wk_lease_seconds = 60, wk_redact = (\<lambda>s. s), wk_message = (\<lambda>e. ''''),
      wk_isoformat = (\<lambda>s. None), wk_connect = (\<lambda>a. Inr []), wk_sha256 = (\<lambda>s. s), wk_registry = [],
      wk_notifications = sample_notifier, wk_remediation = sample_service\<rparr>"

definition worker_draw :: "nat \<Rightarrow> JobDraw" where
  "worker_draw n =
     \<lparr>jd_token = 900 + n, jd_locked = [], jd_acquired_at = timedelta_minutes 100, jd_started_at = timedelta_minutes 100,
      jd_renewed_at = timedelta_minutes 100, jd_now = timedelta_minutes 100, jd_row_id = 600 + n, jd_child_id = 700 + n,
      jd_child_correlation = 800 + n,
      jd_discovery_clock = \<lparr>dk_started = timedelta_minutes 100, dk_upserted = (\<lambda>s. timedelta_minutes 100),
        dk_asset_ids = (\<lambda>s i. 5000 + nat i), dk_finished = timedelta_minutes 100\<rparr>,
      jd_evaluation_clock = \<lparr>ec_started = timedelta_minutes 100, ec_evaluated = timedelta_minutes 100, ec_finished = timedelta_minutes 100\<rparr>,
      jd_results = (\<lambda>k a. \<lparr>rd_finding_id = 6000, rd_event_id = 6001, rd_now = timedelta_minutes 100\<rparr>),
      jd_ended_at = timedelta_minutes 100, jd_closed_at = timedelta_minutes 100\<rparr>"

definition pending_run :: ScanRun where
  "pending_run = new_run hourly_schedule ScanRunTrigger.SCHEDULED 120"

definition queued_job :: "uuid \<Rightarrow> PlatformJobType \<Rightarrow> uuid \<Rightarrow> string \<Rightarrow> dict \<Rightarrow> PlatformJob" where
  "queued_job i job_type reference key payload =
     job_candidate (enqueue_args 2 job_type reference key) payload i 1 (timedelta_minutes 90)"

definition scan_queue :: "PlatformJob list \<Rightarrow> db" where
  "scan_queue jobs = sample_schedules\<lparr>scan_runs := [pending_run], platform_jobs := jobs\<rparr>"

definition scan_start :: PlatformJob where
  "scan_start = queued_job 220 PlatformJobType.SCHEDULED_SCAN 120 ''schedule'' (scan_payload 120 7 20)"

definition manual_discovery :: PlatformJob where
  "manual_discovery = (queued_job 221 PlatformJobType.DISCOVERY 3 ''manual-discovery:1''
     [(''actor_user_id'', JStr (uuid_str 7)), (''account_id'', JStr (uuid_str 3))])\<lparr>pj_available_at := timedelta_minutes 200\<rparr>"

lemma scan_queue_tables [simp]:
  "platform_jobs (scan_queue jobs) = jobs" "scan_runs (scan_queue jobs) = [pending_run]"
  "users (scan_queue jobs) = [schedule_owner]" "scan_schedules (scan_queue jobs) = [hourly_schedule]"
  by (simp_all add: scan_queue_def sample_schedules_def)

lemma pending_run_fields [simp]:
  "sr_id pending_run = 120" "sr_aws_account_id pending_run = 3" "sr_status pending_run = ScanRunStatus.PENDING"
  "sr_organization_id pending_run = 2" "scan_run_active pending_run" "scan_run_status_lifecycle pending_run"
  by (simp_all add: pending_run_def hourly_schedule_def new_schedule_def new_run_def scan_run_active_def
      scan_run_status_lifecycle_def)

lemma queued_job_fields [simp]:
  "pj_id (queued_job i t ref k p) = i" "pj_job_type (queued_job i t ref k p) = t" "pj_reference_id (queued_job i t ref k p) = ref"
  "pj_payload_json (queued_job i t ref k p) = p" "pj_organization_id (queued_job i t ref k p) = 2"
  "pj_idempotency_key (queued_job i t ref k p) = take 160 k" "platform_job_constraints (queued_job i t ref k p)"
  "pj_available_at (queued_job i t ref k p) = timedelta_minutes 90" "pj_status (queued_job i t ref k p) = PlatformJobStatus.AVAILABLE"
  by (simp_all add: queued_job_def job_candidate_def enqueue_args_def platform_job_constraints_def platform_job_lease_state_def)

lemma scan_queue_scheduling: "scheduling_ok (scan_queue jobs)"
  using sample_schedules_ok
  by (simp add: scheduling_ok_def scan_run_unique_def unique_on_def keys_distinct_def sample_schedules_def)

lemma scan_start_fields [simp]:
  "pj_id scan_start = 220" "pj_job_type scan_start = PlatformJobType.SCHEDULED_SCAN" "pj_organization_id scan_start = 2"
  "pj_payload_json scan_start = scan_payload 120 7 20" "platform_job_constraints scan_start"
  by (simp_all add: scan_start_def)

lemma manual_discovery_fields [simp]:
  "pj_id manual_discovery = 221" "pj_job_type manual_discovery = PlatformJobType.DISCOVERY"
  "pj_organization_id manual_discovery = 2" "pj_reference_id manual_discovery = 3" "platform_job_active manual_discovery"
  "platform_job_constraints manual_discovery"
  "pj_payload_json manual_discovery = [(''actor_user_id'', JStr (uuid_str 7)), (''account_id'', JStr (uuid_str 3))]"
  by (simp_all add: manual_discovery_def platform_job_active_def queued_job_def job_candidate_def enqueue_args_def
      platform_job_constraints_def platform_job_lease_state_def)

lemma small_uuid [simp]: "u < 1000 \<Longrightarrow> uuid_bound u"
  by (simp add: uuid_bound_def)

lemma scan_payload_accepted [simp]: "payload_ok (scan_payload 120 7 20)"
  using scan_payload_ok [of 120 7 20] by (simp add: validated_payload_iff)

lemma manual_payload_accepted [simp]:
  "payload_ok [(''actor_user_id'', JStr (uuid_str 7)), (''account_id'', JStr (uuid_str 3))]"
proof -
  have "\<not> SENSITIVE_PAYLOAD_KEY ''account_id''" "\<not> SENSITIVE_PAYLOAD_KEY ''actor_user_id''" by code_simp+
  then have "validated_payload (id_payload [(''actor_user_id'', 7), (''account_id'', 3)]) =
      Inr (id_payload [(''actor_user_id'', 7), (''account_id'', 3)])"
    by (intro id_payload_ok) auto
  then show ?thesis by (simp add: validated_payload_iff id_payload_def)
qed

lemma joined_queue_ok: "queue_ok (scan_queue [scan_start, manual_discovery])"
  by (simp add: queue_ok_def keys_distinct_def platform_job_unique_def unique_on_def)

lemma joined_queue_select:
  "select_job (jd_locked (worker_draw 0)) (jd_acquired_at (worker_draw 0)) (platform_jobs (scan_queue [scan_start, manual_discovery])) =
     Some scan_start"
  by (simp add: select_job_def worker_draw_def acquirable_def scan_start_def manual_discovery_def timedelta_minutes_def
      timedelta_seconds_def)

theorem payload_ids_round_trip_witness:
  "uuid_value (scan_payload 120 7 20) ''scan_run_id'' = Inr 120 \<and> uuid_value (scan_payload 120 7 20) ''actor_user_id'' = Inr 7"
  using payload_ids_round_trip [where account = 3 and user = 7 and schedule = 20 and r = pending_run and event = 1 and request = 1
      and found = "new_discovery scan_account 7 5" and new = 500 and d = "scan_queue []"]
  by (simp add: new_discovery_def)

theorem process_one_settles_job_witness:
  "\<exists>row. get_row pj_id 220 (platform_jobs (snd (process_one offline_worker (worker_draw 0)
     (scan_queue [scan_start, manual_discovery])))) = Some row \<and> pj_attempt_count row = 1"
proof -
  have "pj_attempt_count scan_start = 0" by (simp add: scan_start_def queued_job_def job_candidate_def)
  with process_one_settles_job [OF joined_queue_ok joined_queue_select refl, of offline_worker] show ?thesis
    unfolding scan_start_fields(1) by force
qed

theorem joined_scan_never_ends_witness:
  "start_run (timedelta_minutes 100) pending_run \<in>
     set (scan_runs (snd (process_one offline_worker (worker_draw 0) (scan_queue [scan_start, manual_discovery]))))"
proof -
  have r: "pending_run \<in> set (scan_runs (scan_queue [scan_start, manual_discovery]))" by simp
  have m: "manual_discovery \<in> set (platform_jobs (scan_queue [scan_start, manual_discovery]))" by simp
  have "\<forall>k \<in> set (platform_jobs (scan_queue [scan_start, manual_discovery])). refers (sr_id pending_run) k \<longrightarrow> k = scan_start"
    by (simp add: refers_def)
  moreover have "\<not> list_ex (same_idempotency (discovery_child scan_start pending_run 7))
      (platform_jobs (scan_queue [scan_start, manual_discovery]))"
    by (simp add: same_idempotency_def discovery_child_def child_request_def enqueue_args_def manual_discovery_def
        uuid_str_def nat_digits.simps)
  ultimately have "\<forall>d'. worker_step\<^sup>*\<^sup>*
      (snd (process_one offline_worker (worker_draw 0) (scan_queue [scan_start, manual_discovery]))) d' \<longrightarrow>
       start_run (jd_now (worker_draw 0)) pending_run \<in> set (scan_runs d')"
    using joined_scan_never_ends [OF joined_queue_ok scan_queue_scheduling joined_queue_select scan_start_fields(2) _ r _ _ m,
        where user = 7 and schedule = 20 and wk = offline_worker] by simp
  then show ?thesis by (auto simp: worker_draw_def)
qed

definition live_success :: RemediationRequest where
  "live_success = (approve_row 7 1000 (proposal sample_service 2 sample_finding 7 300))
     \<lparr>rr_execution_mode := RemediationExecutionMode.LIVE_AWS, rr_status := RemediationStatus.SUCCEEDED\<rparr>"

lemma live_success_fields [simp]:
  "rr_id live_success = 300" "rr_aws_account_id live_success = f_aws_account_id sample_finding"
  "rr_status live_success = RemediationStatus.SUCCEEDED"
  "rr_execution_mode live_success = RemediationExecutionMode.LIVE_AWS"
  by (simp_all add: live_success_def proposal_def approve_row_def Let_def)

theorem live_rediscovery_always_fails_witness:
  "\<exists>d' child. platform_jobs d' = [scan_start, child] \<and> pj_job_type child = PlatformJobType.DISCOVERY \<and>
     executed (worker_draw 0) scan_start 7 live_success (scan_queue [scan_start]) = (Inr (uuid_str 300), d')"
proof -
  let ?d = "scan_queue [scan_start]" and ?rq = "rediscovery_child scan_start live_success 7"
  have keys: "\<not> SENSITIVE_PAYLOAD_KEY ''aws_account_id''" "\<not> SENSITIVE_PAYLOAD_KEY ''actor_user_id''" by code_simp+
  have "validated_payload (id_payload [(''aws_account_id'', f_aws_account_id sample_finding), (''actor_user_id'', 7)]) =
      Inr (id_payload [(''aws_account_id'', f_aws_account_id sample_finding), (''actor_user_id'', 7)])"
    using keys by (intro id_payload_ok) (auto simp: sample_finding_def)
  then have p: "validated_payload (case eq_payload ?rq of None \<Rightarrow> [] | Some p \<Rightarrow> p) =
      Inr (id_payload [(''aws_account_id'', f_aws_account_id sample_finding), (''actor_user_id'', 7)])"
    by (simp add: rediscovery_child_def child_request_def id_payload_def)
  have "job_insertable (job_candidate ?rq
      (id_payload [(''aws_account_id'', f_aws_account_id sample_finding), (''actor_user_id'', 7)]) 700 800 (timedelta_minutes 100)) ?d"
    by (simp add: job_insertable_def job_candidate_def rediscovery_child_def child_request_def enqueue_args_def
        platform_job_constraints_def platform_job_lease_state_def platform_job_unique_def unique_on_def
        scan_queue_def sample_schedules_def sample_org_def)
  with p obtain d' where e: "executed (worker_draw 0) scan_start 7 live_success ?d = (Inr (uuid_str 300), d')"
      "platform_jobs d' \<noteq> platform_jobs ?d"
    by (auto simp: executed_def enqueue_child_def enqueue_def worker_draw_def Let_def)
  from live_rediscovery_always_fails [OF _ _ this] show ?thesis using e(1) by auto
qed

definition scan_discovery :: PlatformJob where
  "scan_discovery = queued_job 222 PlatformJobType.DISCOVERY 3 ''scan-discovery:120''
     [(''account_id'', JStr (uuid_str 3)), (''actor_user_id'', JStr (uuid_str 9)), (''scan_run_id'', JStr (uuid_str 120))]"

definition running_queue :: db where
  "running_queue = (scan_queue [scan_discovery])\<lparr>scan_runs := [start_run 0 pending_run]\<rparr>"

lemma running_queue_ok: "queue_ok running_queue"
proof -
  have "\<not> SENSITIVE_PAYLOAD_KEY ''account_id''" "\<not> SENSITIVE_PAYLOAD_KEY ''actor_user_id''"
    "\<not> SENSITIVE_PAYLOAD_KEY ''scan_run_id''" by code_simp+
  then have "validated_payload (id_payload [(''account_id'', 3), (''actor_user_id'', 9), (''scan_run_id'', 120)]) =
      Inr (id_payload [(''account_id'', 3), (''actor_user_id'', 9), (''scan_run_id'', 120)])"
    by (intro id_payload_ok) auto
  then have "payload_ok (pj_payload_json scan_discovery)"
    by (simp add: validated_payload_iff id_payload_def scan_discovery_def)
  then show ?thesis
    by (simp add: queue_ok_def running_queue_def keys_distinct_def platform_job_unique_def unique_on_def scan_discovery_def)
qed

lemma running_queue_select:
  "select_job (jd_locked (worker_draw 0)) (jd_acquired_at (worker_draw 0)) (platform_jobs running_queue) = Some scan_discovery"
  by (simp add: running_queue_def select_job_def worker_draw_def acquirable_def scan_discovery_def timedelta_minutes_def
      timedelta_seconds_def)

lemma running_queue_processed: "\<exists>d'. process_one offline_worker (worker_draw 0) running_queue = (Inr True, d')"
proof -
  let ?job = "running_job offline_worker (worker_draw 0) scan_discovery"
  have "keys_distinct pj_id (platform_jobs running_queue)" using running_queue_ok by (simp add: queue_ok_def)
  from process_one_queue [OF this running_queue_select, of offline_worker] obtain d3 where
    d3: "work_frame running_queue (d3\<lparr>platform_jobs := platform_jobs running_queue\<rparr>)"
      "process_one offline_worker (worker_draw 0) running_queue = map_prod (map_sum id (\<lambda>u. True)) id
         (settle offline_worker (worker_draw 0) ?job (dispatch offline_worker (worker_draw 0) ?job d3))"
      "leased (pj_id scan_discovery) (jd_token (worker_draw 0)) PlatformJobStatus.RUNNING
         (snd (dispatch offline_worker (worker_draw 0) ?job d3)) = Inr ?job" by blast
  have h: "dispatch offline_worker (worker_draw 0) ?job d3 = (Inl (Raised (NotFoundError ''job_actor_not_found'')), d3)"
    using d3(1) by (simp add: dispatch_def discovery_def scan_discovery_def job_actor_def work_frame_def running_queue_def
        schedule_owner_def)
  have "scan_runs d3 = [start_run 0 pending_run]" using d3(1) by (simp add: work_frame_def running_queue_def)
  then show ?thesis
    using d3(3) unfolding d3(2) h
    by (auto simp: settle_def record_failure_def fail_def Let_def fail_job_fields finish_scan_run_if_terminal_def scan_discovery_def
        find_run_def write_job_def start_run_def scan_run_active_def commit_run_def fail_run_def scan_run_status_lifecycle_def
        scan_run_unique_def write_run_def unique_on_def put_row_def)
qed

theorem scan_jobs_hand_over_witness:
  "\<exists>d'. process_one offline_worker (worker_draw 0) running_queue = (Inr True, d') \<and>
     (\<exists>row. get_row pj_id 222 (platform_jobs d') = Some row)"
proof -
  obtain d' where p: "process_one offline_worker (worker_draw 0) running_queue = (Inr True, d')"
    using running_queue_processed by blast
  have "scan_job scan_discovery" "optional_uuid (pj_payload_json scan_discovery) ''scan_run_id'' = Inr (Some 120)"
    "keys_distinct sr_id (scan_runs running_queue)" "start_run 0 pending_run \<in> set (scan_runs running_queue)"
    "sr_id (start_run 0 pending_run) = 120" "sr_organization_id (start_run 0 pending_run) = pj_organization_id scan_discovery"
    "jd_child_id (worker_draw 0) \<notin> pj_id ` set (platform_jobs running_queue)" "pj_id scan_discovery = 222"
    by (simp_all add: scan_job_def scan_discovery_def running_queue_def keys_distinct_def start_run_def worker_draw_def)
  with scan_jobs_hand_over [OF running_queue_ok running_queue_select _ _ _ _ _ _ _ p] p show ?thesis by metis
qed

end
