(* ===== verification/Auth.thy ===== *)
theory Auth
  imports Payloads
begin

text \<open>
  Registration, sign-in and refresh sessions: \<^verbatim>\<open>app/services/auth.py\<close> with
  \<^verbatim>\<open>app/security/passwords.py\<close>, \<^verbatim>\<open>app/security/tokens.py\<close> and
  \<^verbatim>\<open>app/dependencies/auth.py\<close>. Argon2 and the signing of JWTs are libraries: hashing, verifying, encoding
  and decoding are functions of the service, as is \<open>sha256\<close>. Opaque tokens are drawn by the
  caller; a single reading of the clock stands for those of one request.
\<close>

section \<open>Passwords\<close>

definition is_upper :: "char \<Rightarrow> bool" where
  "is_upper c = (65 \<le> (of_char c :: nat) \<and> (of_char c :: nat) \<le> 90)"

definition is_lower :: "char \<Rightarrow> bool" where
  "is_lower c = (97 \<le> (of_char c :: nat) \<and> (of_char c :: nat) \<le> 122)"

text \<open>\<^verbatim>\<open>[^\w\s]\<close> on ASCII.\<close>

definition is_special :: "char \<Rightarrow> bool" where
  "is_special c = (\<not> (is_upper c \<or> is_lower c \<or> is_digit c \<or> c = CHR ''_'' \<or> is_space c))"

definition local_part :: "string \<Rightarrow> string" where
  "local_part email = takeWhile (\<lambda>c. c \<noteq> CHR ''@'') email"

definition password_failures :: "string \<Rightarrow> string option \<Rightarrow> string list" where
  "password_failures password email =
     (if length password < 12 then [''at least 12 characters''] else []) @
     (if 128 < length password then [''at most 128 characters''] else []) @
     (if \<not> list_ex is_upper password then [''an uppercase character''] else []) @
     (if \<not> list_ex is_lower password then [''a lowercase character''] else []) @
     (if \<not> list_ex is_digit password then [''a number''] else []) @
     (if \<not> list_ex is_special password then [''a symbol''] else []) @
     (case email of
        None \<Rightarrow> []
      | Some e \<Rightarrow>
          if e \<noteq> [] \<and> contains (casefold (local_part e)) (casefold password) then [''no email-name inclusion''] else [])"

definition validate_password :: "string \<Rightarrow> string option \<Rightarrow> exn + unit" where
  "validate_password password email =
     (if password_failures password email = [] then Inr () else Inl (AppError ''weak_password'' 422))"

section \<open>Access tokens\<close>

record JwtSettings =
  jwt_secret_key :: string
  jwt_active_key_id :: string
  jwt_previous_secret_key :: "string option"
  jwt_previous_key_id :: "string option"
  access_token_expire_minutes :: int
  refresh_token_expire_days :: int

record JwtPayload =
  jp_sub :: string
  jp_type :: string
  jp_iat :: int
  jp_exp :: int
  jp_jti :: string

text \<open>
  The library: \<open>jl_encode payload key kid\<close>, the key identifier in the header of a token
  (an error for a malformed token), and \<open>jl_decode token key now\<close>, the payload when the signature
  verifies and the token has not expired.
\<close>

record JwtLibrary =
  jl_encode :: "JwtPayload \<Rightarrow> string \<Rightarrow> string \<Rightarrow> string"
  jl_header_kid :: "string \<Rightarrow> exn + string option"
  jl_decode :: "string \<Rightarrow> string \<Rightarrow> instant \<Rightarrow> JwtPayload option"

record AccessClaims =
  ac_user_id :: uuid
  ac_expires_at :: instant
  ac_token_id :: uuid

definition SECOND :: int where "SECOND = timedelta_seconds 1"

text \<open>\<^verbatim>\<open>int(value.timestamp())\<close> and \<^verbatim>\<open>datetime.fromtimestamp\<close>.\<close>

definition timestamp :: "instant \<Rightarrow> int" where
  "timestamp t = t div SECOND"

definition from_timestamp :: "int \<Rightarrow> instant" where
  "from_timestamp n = n * SECOND"

definition create_access_token :: "JwtLibrary \<Rightarrow> JwtSettings \<Rightarrow> uuid \<Rightarrow> uuid \<Rightarrow> instant \<Rightarrow> string" where
  "create_access_token jl settings user_id token_id now =
     jl_encode jl
       \<lparr>jp_sub = uuid_str user_id, jp_type = ''access'', jp_iat = timestamp now,
        jp_exp = timestamp (now + timedelta_minutes (access_token_expire_minutes settings)),
        jp_jti = uuid_str token_id\<rparr>
       (jwt_secret_key settings) (jwt_active_key_id settings)"

definition decoding_keys :: "JwtSettings \<Rightarrow> string option \<Rightarrow> string list" where
  "decoding_keys settings key_id =
     (if key_id = None \<or> key_id = Some (jwt_active_key_id settings) then [jwt_secret_key settings] else []) @
     (case jwt_previous_secret_key settings of
        None \<Rightarrow> []
      | Some key \<Rightarrow> if key_id = None \<or> key_id = jwt_previous_key_id settings then [key] else [])"

fun first_decoded :: "JwtLibrary \<Rightarrow> string \<Rightarrow> instant \<Rightarrow> string list \<Rightarrow> JwtPayload option" where
  "first_decoded jl token now [] = None"
| "first_decoded jl token now (key # keys) =
     (case jl_decode jl token key now of
        Some payload \<Rightarrow> Some payload
      | None \<Rightarrow> first_decoded jl token now keys)"

definition decode_access_token :: "JwtLibrary \<Rightarrow> JwtSettings \<Rightarrow> string \<Rightarrow> instant \<Rightarrow> exn + AccessClaims" where
  "decode_access_token jl settings token now =
     (case jl_header_kid jl token of
        Inl _ \<Rightarrow> Inl (AuthenticationError ''invalid_authentication'')
      | Inr key_id \<Rightarrow>
          (case first_decoded jl token now (decoding_keys settings key_id) of
             None \<Rightarrow> Inl (AuthenticationError ''invalid_authentication'')
           | Some payload \<Rightarrow>
               if jp_type payload \<noteq> ''access'' then Inl (AuthenticationError ''invalid_authentication'')
               else
                 (case (parse_uuid (jp_sub payload), parse_uuid (jp_jti payload)) of
                    (Some user_id, Some token_id) \<Rightarrow>
                      Inr \<lparr>ac_user_id = user_id, ac_expires_at = from_timestamp (jp_exp payload), ac_token_id = token_id\<rparr>
                  | _ \<Rightarrow> Inl (AuthenticationError ''invalid_authentication''))))"

section \<open>Lookups\<close>

definition normalize_email :: "string \<Rightarrow> string" where
  "normalize_email email = casefold (strip email)"

definition user_by_email :: "string \<Rightarrow> db \<Rightarrow> User option" where
  "user_by_email email d = find (\<lambda>u. u_normalized_email u = email) (users d)"

definition refresh_session :: "string \<Rightarrow> db \<Rightarrow> RefreshTokenSession option" where
  "refresh_session token_hash d = find (\<lambda>s. rt_token_hash s = token_hash) (refresh_sessions d)"

definition is_expired :: "instant \<Rightarrow> instant \<Rightarrow> bool" where
  "is_expired value now = (value \<le> now)"

definition require_authenticated_user ::
    "JwtLibrary \<Rightarrow> JwtSettings \<Rightarrow> (string \<times> string) option \<Rightarrow> instant \<Rightarrow> db \<Rightarrow> exn + User" where
  "require_authenticated_user jl settings credentials now d =
     (case credentials of
        None \<Rightarrow> Inl (AuthenticationError ''invalid_authentication'')
      | Some (scheme, token) \<Rightarrow>
          if casefold scheme \<noteq> ''bearer'' then Inl (AuthenticationError ''invalid_authentication'')
          else
            (case decode_access_token jl settings token now of
               Inl e \<Rightarrow> Inl e
             | Inr claims \<Rightarrow>
                 (case get_row u_id (ac_user_id claims) (users d) of
                    None \<Rightarrow> Inl (AuthenticationError ''invalid_authentication'')
                  | Some user \<Rightarrow>
                      if u_status user \<noteq> UserStatus.ACTIVE then Inl (AuthenticationError ''invalid_authentication'')
                      else Inr user)))"

definition require_platform_admin :: "User \<Rightarrow> exn + User" where
  "require_platform_admin user = (if u_is_platform_admin user then Inr user else Inl (ForbiddenError ''forbidden''))"

section \<open>Registration\<close>

text \<open>The search for a free slug. The counter starts at two; \<open>slug_candidate\<close> is the name tried for it.\<close>

definition slug_candidate :: "string \<Rightarrow> nat \<Rightarrow> string" where
  "slug_candidate base counter =
     (let suffix = ''-'' @ nat_digits counter in take (100 - length suffix) base @ suffix)"

partial_function (option) slug_from :: "string \<Rightarrow> string \<Rightarrow> nat \<Rightarrow> db \<Rightarrow> string option" where
  "slug_from base candidate counter d =
     (if organization_by_slug candidate d = None then Some candidate
      else slug_from base (slug_candidate base counter) (counter + 1) d)"

definition available_slug :: "string \<Rightarrow> db \<Rightarrow> string option" where
  "available_slug base d =
     (let base = (if base = [] then ''organization'' else base) in slug_from base base 2 d)"

text \<open>
  The service: its settings and libraries. \<open>sa_hash\<close> is \<^verbatim>\<open>hash_password\<close> with the salt of one call.
\<close>

record AuthService =
  sa_jwt :: JwtLibrary
  sa_settings :: JwtSettings
  sa_sha256 :: "string \<Rightarrow> string"
  sa_hash :: "string \<Rightarrow> string"
  sa_verify :: "string \<Rightarrow> string \<Rightarrow> bool"
  sa_dummy_hash :: string

record RegisterDraw =
  rg_user :: uuid
  rg_organization :: uuid
  rg_member :: uuid

definition user_unique :: "User list \<Rightarrow> bool" where
  "user_unique us = (keys_distinct u_id us \<and> unique_on (\<lambda>u. True) u_normalized_email us)"

definition register ::
    "AuthService \<Rightarrow> string \<Rightarrow> string \<Rightarrow> string \<Rightarrow> string option \<Rightarrow> RegisterDraw \<Rightarrow> instant \<Rightarrow> db \<Rightarrow> (db, User) outcome" where
  "register sa email password full_name organization_name draw now d =
     (let normalized = normalize_email email in
      case validate_password password (Some normalized) of
        Inl e \<Rightarrow> raise e d
      | Inr _ \<Rightarrow>
          if user_by_email normalized d \<noteq> None then raise (ConflictError ''email_in_use'') d
          else
            let user = \<lparr>u_id = rg_user draw, u_email = strip email, u_normalized_email = normalized,
                        u_password_hash = sa_hash sa password, u_full_name = full_name, u_status = UserStatus.ACTIVE,
                        u_is_platform_admin = False, u_email_verified_at = None, u_last_login_at = None\<rparr>;
                d1 = record_audit ''user.registered'' ''user'' AuditResult.SUCCEEDED None (Some (rg_user draw))
                       (Some (rg_user draw)) (d\<lparr>users := users d @ [user]\<rparr>)
            in if \<not> user_unique (users d1) then raise IntegrityError d
               else if organization_name = None \<or> organization_name = Some [] then return user d1
               else
                 (case available_slug (slugify (the organization_name)) d of
                    None \<Rightarrow> raise IntegrityError d
                  | Some slug \<Rightarrow>
                      let org = \<lparr>o_id = rg_organization draw, o_name = the organization_name, o_slug = slug,
                                 o_status = OrganizationStatus.ACTIVE, o_created_by_user_id = rg_user draw\<rparr>;
                          member = \<lparr>m_id = rg_member draw, m_organization_id = rg_organization draw,
                                    m_user_id = rg_user draw, m_role = OrganizationRole.OWNER,
                                    m_status = MembershipStatus.ACTIVE, m_invited_by_user_id = None, m_joined_at = Some now\<rparr>;
                          d2 = record_audit ''organization.created'' ''organization'' AuditResult.SUCCEEDED
                                 (Some (rg_organization draw)) (Some (rg_user draw)) (Some (rg_organization draw))
                                 (d1\<lparr>organizations := organizations d1 @ [org], memberships := memberships d1 @ [member]\<rparr>)
                      in if \<not> unique_on (\<lambda>o'. True) o_slug (organizations d2) then raise IntegrityError d
                         else if organization_unique d2 then return user d2
                         else raise (ConflictError ''registration_conflict'') d))"

section \<open>Sessions\<close>

record TokenDraw =
  td_raw :: string
  td_session :: uuid
  td_family :: uuid
  td_token_id :: uuid

type_synonym issued_tokens = "string \<times> string"

definition new_session ::
    "AuthService \<Rightarrow> uuid \<Rightarrow> uuid option \<Rightarrow> TokenDraw \<Rightarrow> instant \<Rightarrow> RefreshTokenSession" where
  "new_session sa user_id family_id draw now =
     \<lparr>rt_id = td_session draw, rt_user_id = user_id, rt_token_hash = sa_sha256 sa (td_raw draw),
      rt_family_id = (case family_id of None \<Rightarrow> td_family draw | Some f \<Rightarrow> f), rt_issued_at = now,
      rt_expires_at = now + timedelta_days (refresh_token_expire_days (sa_settings sa)), rt_revoked_at = None,
      rt_replaced_by_id = None\<rparr>"

definition issued :: "AuthService \<Rightarrow> uuid \<Rightarrow> TokenDraw \<Rightarrow> instant \<Rightarrow> issued_tokens" where
  "issued sa user_id draw now =
     (create_access_token (sa_jwt sa) (sa_settings sa) user_id (td_token_id draw) now, td_raw draw)"

definition sessions_insertable :: "RefreshTokenSession list \<Rightarrow> bool" where
  "sessions_insertable rows = (keys_distinct rt_id rows \<and> refresh_unique rows)"

definition login ::
    "AuthService \<Rightarrow> string \<Rightarrow> string \<Rightarrow> TokenDraw \<Rightarrow> instant \<Rightarrow> db \<Rightarrow> (db, issued_tokens) outcome" where
  "login sa email password draw now d =
     (let found = user_by_email (normalize_email email) d;
          valid = sa_verify sa password (case found of None \<Rightarrow> sa_dummy_hash sa | Some u \<Rightarrow> u_password_hash u)
      in case found of
           Some u \<Rightarrow>
             if valid \<and> u_status u = UserStatus.ACTIVE then
               let rows = refresh_sessions d @ [new_session sa (u_id u) None draw now] in
               if sessions_insertable rows then
                 return (issued sa (u_id u) draw now)
                   (record_audit ''auth.login_succeeded'' ''user'' AuditResult.SUCCEEDED None (Some (u_id u)) (Some (u_id u))
                      (d\<lparr>users := put_row u_id (u\<lparr>u_last_login_at := Some now\<rparr>) (users d), refresh_sessions := rows\<rparr>))
               else raise IntegrityError d
             else
               raise (AuthenticationError ''invalid_credentials'')
                 (record_audit ''auth.login_failed'' ''user'' AuditResult.FAILED None (Some (u_id u)) None d)
         | None \<Rightarrow>
             raise (AuthenticationError ''invalid_credentials'')
               (record_audit ''auth.login_failed'' ''user'' AuditResult.FAILED None None None d))"

definition revoke :: "instant \<Rightarrow> RefreshTokenSession \<Rightarrow> RefreshTokenSession" where
  "revoke now s = (if rt_revoked_at s = None then s\<lparr>rt_revoked_at := Some now\<rparr> else s)"

definition revoke_family :: "uuid \<Rightarrow> instant \<Rightarrow> db \<Rightarrow> db" where
  "revoke_family family_id now d =
     d\<lparr>refresh_sessions := map (\<lambda>s. if rt_family_id s = family_id then revoke now s else s) (refresh_sessions d)\<rparr>"

definition write_session :: "RefreshTokenSession \<Rightarrow> db \<Rightarrow> db" where
  "write_session s d = d\<lparr>refresh_sessions := put_row rt_id s (refresh_sessions d)\<rparr>"

definition refresh ::
    "AuthService \<Rightarrow> string \<Rightarrow> TokenDraw \<Rightarrow> instant \<Rightarrow> db \<Rightarrow> (db, issued_tokens) outcome" where
  "refresh sa raw draw now d =
     (case refresh_session (sa_sha256 sa raw) d of
        None \<Rightarrow> raise (AuthenticationError ''invalid_refresh_token'') d
      | Some s \<Rightarrow>
          if rt_revoked_at s \<noteq> None then
            raise (AuthenticationError ''refresh_token_reused'')
              (record_audit ''auth.refresh_reuse_detected'' ''refresh_session'' AuditResult.FAILED None
                 (Some (rt_user_id s)) (Some (rt_id s)) (revoke_family (rt_family_id s) now d))
          else if is_expired (rt_expires_at s) now then
            raise (AuthenticationError ''refresh_token_expired'') (write_session (s\<lparr>rt_revoked_at := Some now\<rparr>) d)
          else
            (case get_row u_id (rt_user_id s) (users d) of
               None \<Rightarrow> raise (AuthenticationError ''invalid_authentication'') d
             | Some u \<Rightarrow>
                 if u_status u \<noteq> UserStatus.ACTIVE then raise (AuthenticationError ''invalid_authentication'') d
                 else
                   let rows = refresh_sessions d @ [new_session sa (u_id u) (Some (rt_family_id s)) draw now] in
                   if sessions_insertable rows then
                     let d1 = d\<lparr>refresh_sessions := rows\<rparr>;
                         replacement = refresh_session (sa_sha256 sa (td_raw draw)) d1
                     in return (issued sa (u_id u) draw now)
                          (record_audit ''auth.token_refreshed'' ''refresh_session'' AuditResult.SUCCEEDED None (Some (u_id u))
                             (Some (rt_id s))
                             (write_session (s\<lparr>rt_revoked_at := Some now,
                                rt_replaced_by_id := map_option rt_id replacement\<rparr>) d1))
                   else raise IntegrityError d))"

definition logout :: "AuthService \<Rightarrow> string option \<Rightarrow> uuid option \<Rightarrow> instant \<Rightarrow> db \<Rightarrow> (db, unit) outcome" where
  "logout sa raw user_id now d =
     (let session = (case raw of
                       None \<Rightarrow> None
                     | Some t \<Rightarrow> if t = [] then None else refresh_session (sa_sha256 sa t) d)
      in case session of
           None \<Rightarrow> return () (record_audit ''auth.logged_out'' ''refresh_session'' AuditResult.SUCCEEDED None user_id None d)
         | Some s \<Rightarrow>
             return ()
               (record_audit ''auth.logged_out'' ''refresh_session'' AuditResult.SUCCEEDED None (Some (rt_user_id s))
                  (Some (rt_id s)) (write_session (revoke now s) d)))"

definition change_password ::
    "AuthService \<Rightarrow> User \<Rightarrow> string \<Rightarrow> string \<Rightarrow> instant \<Rightarrow> db \<Rightarrow> (db, unit) outcome" where
  "change_password sa user current new now d =
     (if \<not> sa_verify sa current (u_password_hash user) then
        raise (AuthenticationError ''invalid_current_password'') d
      else
        (case validate_password new (Some (u_normalized_email user)) of
           Inl e \<Rightarrow> raise e d
         | Inr _ \<Rightarrow>
             return ()
               (d\<lparr>users := put_row u_id (user\<lparr>u_password_hash := sa_hash sa new\<rparr>) (users d),
                  refresh_sessions :=
                    map (\<lambda>s. if rt_user_id s = u_id user then revoke now s else s) (refresh_sessions d)\<rparr>)))"

section \<open>The search for a slug ends\<close>

lemma slug_from_bounded:
  assumes "\<And>k. k < n \<Longrightarrow> organization_by_slug (slug_candidate base (counter + k)) d \<noteq> None"
    and "organization_by_slug candidate d \<noteq> None" and "organization_by_slug (slug_candidate base (counter + n)) d = None"
  shows "slug_from base candidate counter d = Some (slug_candidate base (counter + n))"
  using assms
proof (induction n arbitrary: candidate counter)
  case 0
  then show ?case
    by (auto simp: slug_from.simps [of base candidate] slug_from.simps [of base "slug_candidate base counter"])
next
  case (Suc n)
  have "slug_from base (slug_candidate base counter) (counter + 1) d = Some (slug_candidate base (counter + 1 + n))"
  proof (rule Suc.IH)
    show "organization_by_slug (slug_candidate base (counter + 1 + k)) d \<noteq> None" if "k < n" for k
      using Suc.prems(1) [of "Suc k"] that by simp
    show "organization_by_slug (slug_candidate base counter) d \<noteq> None" using Suc.prems(1) [of 0] by simp
    show "organization_by_slug (slug_candidate base (counter + 1 + n)) d = None" using Suc.prems(3) by simp
  qed
  then show ?case using Suc.prems(2) by (auto simp: slug_from.simps [of base candidate])
qed

lemma takeWhile_stop: "(\<And>c. c \<in> set xs \<Longrightarrow> P c) \<Longrightarrow> \<not> P y \<Longrightarrow> takeWhile P (xs @ y # ys) = xs"
  by (induction xs) auto

lemma slug_candidate_inj:
  assumes "slug_candidate base m = slug_candidate base n"
  shows "m = n"
proof -
  have no_dash: "CHR ''-'' \<notin> set (nat_digits k)" for k
    using nat_digits_digits [of k] by (auto simp: list_all_iff is_digit_def)
  have tail: "takeWhile (\<lambda>c. c \<noteq> CHR ''-'') (rev (slug_candidate base k)) = rev (nat_digits k)" for k
    using takeWhile_stop [of "rev (nat_digits k)" "\<lambda>c. c \<noteq> CHR ''-''"] no_dash [of k]
    by (auto simp: slug_candidate_def Let_def)
  have "rev (nat_digits m) = rev (nat_digits n)" using tail [of m] tail [of n] unfolding assms by simp
  then show ?thesis by (simp add: nat_digits_inj)
qed

lemma slug_candidate_length: "counter < 10 ^ 90 \<Longrightarrow> length (slug_candidate base counter) \<le> 100"
  using length_nat_digits [of 90 counter] by (simp add: slug_candidate_def Let_def)

text \<open>Among more candidates than organizations one is free.\<close>

lemma free_candidate:
  "\<exists>n \<le> length (organizations d). organization_by_slug (slug_candidate base (2 + n)) d = None"
proof (rule ccontr)
  let ?N = "length (organizations d)"
  assume "\<not> ?thesis"
  then have taken: "slug_candidate base (2 + n) \<in> o_slug ` set (organizations d)" if "n \<le> ?N" for n
    using that by (force simp: organization_by_slug_def find_None_iff)
  have "inj_on (\<lambda>n. slug_candidate base (2 + n)) {..?N}"
    by (intro inj_onI) (auto dest!: slug_candidate_inj)
  then have "card ((\<lambda>n. slug_candidate base (2 + n)) ` {..?N}) = Suc ?N" by (simp add: card_image)
  moreover have "(\<lambda>n. slug_candidate base (2 + n)) ` {..?N} \<subseteq> o_slug ` set (organizations d)" using taken by auto
  then have "card ((\<lambda>n. slug_candidate base (2 + n)) ` {..?N}) \<le> card (o_slug ` set (organizations d))"
    by (intro card_mono) auto
  moreover have "card (o_slug ` set (organizations d)) \<le> ?N"
    using card_image_le [of "set (organizations d)" o_slug] card_length [of "organizations d"] by simp
  ultimately show False by simp
qed

lemma available_slug_found:
  "\<exists>s. available_slug base d = Some s \<and> organization_by_slug s d = None \<and>
     (s = (if base = [] then ''organization'' else base) \<or>
      (\<exists>n \<le> length (organizations d). s = slug_candidate (if base = [] then ''organization'' else base) (2 + n)))"
proof -
  let ?base = "if base = [] then ''organization'' else base"
  show ?thesis
  proof (cases "organization_by_slug ?base d = None")
    case True
    then show ?thesis by (simp add: available_slug_def slug_from.simps [of ?base ?base])
  next
    case False
    define n where "n = (LEAST n. organization_by_slug (slug_candidate ?base (2 + n)) d = None)"
    obtain k where k: "k \<le> length (organizations d)" "organization_by_slug (slug_candidate ?base (2 + k)) d = None"
      using free_candidate by blast
    have n: "organization_by_slug (slug_candidate ?base (2 + n)) d = None"
      unfolding n_def by (rule LeastI [where P = "\<lambda>n. organization_by_slug (slug_candidate ?base (2 + n)) d = None", OF k(2)])
    have "n \<le> k"
      unfolding n_def by (rule Least_le [where P = "\<lambda>n. organization_by_slug (slug_candidate ?base (2 + n)) d = None", OF k(2)])
    then have le: "n \<le> length (organizations d)" using k(1) by simp
    have "organization_by_slug (slug_candidate ?base (2 + i)) d \<noteq> None" if "i < n" for i
      using that unfolding n_def by (rule not_less_Least)
    from slug_from_bounded [OF this False n] n le show ?thesis unfolding available_slug_def Let_def by blast
  qed
qed

section \<open>The session machine\<close>

definition live :: "RefreshTokenSession \<Rightarrow> bool" where
  "live s = (rt_revoked_at s = None)"

text \<open>
  What the service promises of the table of sessions, without users, hashes or clocks: rows are
  only revoked, a family starts with a fresh identifier, and a rotation replaces one live row by
  another of the same family and user.
\<close>

inductive session_step :: "RefreshTokenSession list \<Rightarrow> RefreshTokenSession list \<Rightarrow> bool" where
  session_skip: "session_step rows rows"
| session_revoke: "session_step rows (map (\<lambda>s. if P s then revoke now s else s) rows)"
| session_issue: "rt_family_id s \<notin> rt_family_id ` set rows \<Longrightarrow> sessions_insertable (rows @ [s]) \<Longrightarrow>
    session_step rows (rows @ [s])"
| session_rotate: "s \<in> set rows \<Longrightarrow> live s \<Longrightarrow> \<not> live s' \<Longrightarrow> rt_id s' = rt_id s \<Longrightarrow> rt_token_hash s' = rt_token_hash s \<Longrightarrow>
    rt_family_id s' = rt_family_id s \<Longrightarrow> rt_user_id s' = rt_user_id s \<Longrightarrow> rt_family_id t = rt_family_id s \<Longrightarrow>
    rt_user_id t = rt_user_id s \<Longrightarrow> sessions_insertable (rows @ [t]) \<Longrightarrow>
    session_step rows (put_row rt_id s' rows @ [t])"

text \<open>A family of tokens belongs to one user and has at most one live session.\<close>

definition sessions_ok :: "RefreshTokenSession list \<Rightarrow> bool" where
  "sessions_ok rows =
     (sessions_insertable rows \<and> unique_on live rt_family_id rows \<and>
      (\<forall>s \<in> set rows. \<forall>t \<in> set rows. rt_family_id s = rt_family_id t \<longrightarrow> rt_user_id s = rt_user_id t))"

definition family_dead :: "uuid \<Rightarrow> RefreshTokenSession list \<Rightarrow> bool" where
  "family_dead family rows =
     (family \<in> rt_family_id ` set rows \<and> (\<forall>s \<in> set rows. rt_family_id s = family \<longrightarrow> \<not> live s))"

lemma revoke_fields [simp]:
  "rt_id (revoke now s) = rt_id s" "rt_token_hash (revoke now s) = rt_token_hash s"
  "rt_family_id (revoke now s) = rt_family_id s" "rt_user_id (revoke now s) = rt_user_id s" "\<not> live (revoke now s)"
  by (simp_all add: revoke_def live_def)

lemma revoke_dead: "\<not> live s \<Longrightarrow> revoke now s = s"
  by (simp add: revoke_def live_def)

lemma unique_on_map: "unique_on p f (map g rows) = unique_on (p \<circ> g) (f \<circ> g) rows"
  by (simp add: unique_on_def filter_map comp_def)

lemma unique_on_weaken: "unique_on p f rows \<Longrightarrow> (\<And>r. q r \<Longrightarrow> p r) \<Longrightarrow> unique_on q f rows"
  by (induction rows) auto

lemma sessions_ok_revoke:
  assumes "sessions_ok rows"
  shows "sessions_ok (map (\<lambda>s. if P s then revoke now s else s) rows)"
proof -
  let ?f = "\<lambda>s. if P s then revoke now s else s"
  have ids: "rt_id (?f s) = rt_id s" "rt_token_hash (?f s) = rt_token_hash s" "rt_family_id (?f s) = rt_family_id s"
      "rt_user_id (?f s) = rt_user_id s" for s by simp_all
  note ok = assms [unfolded sessions_ok_def sessions_insertable_def refresh_unique_def]
  have "unique_on (\<lambda>s. live (?f s)) rt_family_id rows"
    by (rule unique_on_weaken [of live]) (use ok in \<open>auto split: if_splits\<close>)
  then show ?thesis
    using ok unfolding sessions_ok_def sessions_insertable_def refresh_unique_def keys_distinct_def map_map
      unique_on_map comp_def ids set_map ball_simps
    by blast
qed

lemma sessions_ok_rotate:
  assumes "sessions_ok rows" and "s \<in> set rows" and "live s" and "\<not> live s'" and "rt_id s' = rt_id s"
    and "rt_token_hash s' = rt_token_hash s" and "rt_family_id s' = rt_family_id s" and "rt_user_id s' = rt_user_id s"
    and "rt_family_id t = rt_family_id s" and "rt_user_id t = rt_user_id s" and "sessions_insertable (rows @ [t])"
  shows "sessions_ok (put_row rt_id s' rows @ [t])"
proof -
  note ok = assms(1) [unfolded sessions_ok_def sessions_insertable_def refresh_unique_def]
  note ins = assms(11) [unfolded sessions_insertable_def refresh_unique_def]
  have k: "keys_distinct rt_id rows" using ok by blast
  have row: "get_row rt_id (rt_id s') rows = Some s" using get_row_distinct [OF k assms(2)] assms(5) by simp
  have other: "rt_id x = rt_id s" if "x \<in> set rows" "live x" "rt_family_id x = rt_family_id s" for x
    using unique_onD [of live rt_family_id rows x s] ok assms(2,3) that by metis
  have mem: "x = s' \<or> x \<in> set rows \<and> rt_id x \<noteq> rt_id s" if "x \<in> set (put_row rt_id s' rows)" for x
    using set_put_row [OF that] assms(5) by metis
  have "unique_on (\<lambda>s. True) rt_token_hash (put_row rt_id s' rows)"
    by (rule unique_on_put_row [OF k row assms(6)]) (use ok in simp_all)
  then have hashes: "refresh_unique (put_row rt_id s' rows @ [t])"
    using ins mem assms(2,6) by (fastforce simp: refresh_unique_def unique_on_snoc)
  have keys: "keys_distinct rt_id (put_row rt_id s' rows @ [t])" using ins by (simp add: keys_distinct_def)
  have "unique_on live rt_family_id (put_row rt_id s' rows)"
    by (rule unique_on_put_row [where p = live and f = rt_family_id, OF k row assms(7)]) (use ok assms(4) in simp_all)
  then have families: "unique_on live rt_family_id (put_row rt_id s' rows @ [t])"
    using mem other assms(4,9) by (auto simp: unique_on_snoc)
  have shadow: "\<exists>x0 \<in> set rows. rt_family_id x0 = rt_family_id x \<and> rt_user_id x0 = rt_user_id x"
    if "x \<in> set (put_row rt_id s' rows @ [t])" for x
    using that assms(2,7,8,9,10) mem by fastforce
  have same_user: "rt_user_id x = rt_user_id y"
    if "x \<in> set (put_row rt_id s' rows @ [t])" "y \<in> set (put_row rt_id s' rows @ [t])" "rt_family_id x = rt_family_id y" for x y
    using shadow [OF that(1)] shadow [OF that(2)] that(3) ok by metis
  from hashes keys families same_user show ?thesis unfolding sessions_ok_def sessions_insertable_def by blast
qed

lemma session_step_ok: "session_step rows rows' \<Longrightarrow> sessions_ok rows \<Longrightarrow> sessions_ok rows'"
proof (induction rule: session_step.induct)
  case (session_revoke rows P now)
  then show ?case by (rule sessions_ok_revoke)
next
  case (session_issue s rows)
  have fresh: "rt_family_id x \<noteq> rt_family_id s" if "x \<in> set rows" for x using session_issue(1) that by (metis image_eqI)
  then have "unique_on live rt_family_id (rows @ [s])" using session_issue(3) by (simp add: sessions_ok_def unique_on_snoc)
  moreover have "rt_user_id x = rt_user_id y"
    if "x \<in> set (rows @ [s])" "y \<in> set (rows @ [s])" "rt_family_id x = rt_family_id y" for x y
  proof (cases "x = s")
    case True
    then have "y \<notin> set rows" using fresh [of y] that(3) by auto
    then show ?thesis using True that(2) by simp
  next
    case False
    then have x: "x \<in> set rows" using that(1) by simp
    then have "y \<noteq> s" using fresh [of x] that(3) by auto
    then have "y \<in> set rows" using that(2) by simp
    with x that(3) session_issue(3) show ?thesis unfolding sessions_ok_def by blast
  qed
  ultimately show ?case using session_issue(2) unfolding sessions_ok_def by blast
next
  case (session_rotate s rows s' t)
  then show ?case by (intro sessions_ok_rotate [of rows s])
qed

interpretation session_machine: transition_system session_step sessions_ok
  by unfold_locales (rule session_step_ok)

text \<open>A dead row never changes again, and a dead family gets no further live row.\<close>

lemma session_step_keeps_dead:
  "session_step rows rows' \<Longrightarrow> s \<in> set rows \<Longrightarrow> \<not> live s \<Longrightarrow> s \<in> set rows'"
proof (induction rule: session_step.induct)
  case (session_revoke rows P now)
  then have "(if P s then revoke now s else s) = s" by (simp add: revoke_dead)
  then show ?case using session_revoke(1) unfolding set_map by (rule rev_image_eqI [OF _ sym, rotated])
next
  case (session_rotate s0 rows s' t)
  have "rt_id s \<noteq> rt_id s'"
  proof
    assume "rt_id s = rt_id s'"
    moreover have "inj_on rt_id (set rows)"
      using session_rotate(10) by (auto simp: sessions_insertable_def keys_distinct_def distinct_map)
    ultimately have "s = s0" using session_rotate by (metis inj_on_eq_iff)
    then show False using session_rotate by blast
  qed
  then show ?case using in_put_row_other [OF session_rotate(11)] by simp
qed auto

lemma session_step_live_origin:
  "session_step rows rows' \<Longrightarrow> s' \<in> set rows' \<Longrightarrow> live s' \<Longrightarrow>
     rt_family_id s' \<notin> rt_family_id ` set rows \<or> (\<exists>s \<in> set rows. live s \<and> rt_family_id s = rt_family_id s')"
proof (induction rule: session_step.induct)
  case (session_revoke rows P now)
  then show ?case by (auto split: if_splits)
next
  case (session_rotate s0 rows r t)
  then consider "s' \<in> set rows" | "s' = t" by (auto dest!: set_put_row)
  then show ?case using session_rotate by cases force+
qed auto

interpretation dead_rows: transition_system session_step "\<lambda>rows. s \<in> set rows \<and> \<not> live s"
  for s by unfold_locales (auto intro: session_step_keeps_dead)

lemma session_step_family_dead: "session_step rows rows' \<Longrightarrow> family_dead f rows \<Longrightarrow> family_dead f rows'"
proof (unfold family_dead_def, intro conjI ballI impI)
  assume step: "session_step rows rows'"
    and dead: "f \<in> rt_family_id ` set rows \<and> (\<forall>s \<in> set rows. rt_family_id s = f \<longrightarrow> \<not> live s)"
  from dead obtain s where "s \<in> set rows" "rt_family_id s = f" "\<not> live s" by blast
  with session_step_keeps_dead [OF step] show "f \<in> rt_family_id ` set rows'" by blast
  fix s'
  assume "s' \<in> set rows'" and f: "rt_family_id s' = f"
  from session_step_live_origin [OF step this(1)] show "\<not> live s'" using dead unfolding f by blast
qed

interpretation dead_families: transition_system session_step "family_dead f"
  for f by unfold_locales (rule session_step_family_dead)

section \<open>The service refines the session machine\<close>

inductive auth_step :: "AuthService \<Rightarrow> db \<Rightarrow> db \<Rightarrow> bool" for sa where
  auth_register: "auth_step sa d (snd (register sa email password full_name organization_name rg now d))"
| auth_login: "td_family draw \<notin> rt_family_id ` set (refresh_sessions d) \<Longrightarrow>
    auth_step sa d (snd (login sa email password draw now d))"
| auth_refresh: "auth_step sa d (snd (refresh sa raw draw now d))"
| auth_logout: "auth_step sa d (snd (logout sa token user_id now d))"
| auth_change_password: "user \<in> set (users d) \<Longrightarrow> auth_step sa d (snd (change_password sa user current new now d))"

lemma register_sessions:
  "refresh_sessions (snd (register sa email password full_name organization_name rg now d)) = refresh_sessions d"
  by (simp add: register_def Let_def split: sum.split option.split)

lemma put_row_revoke:
  assumes "keys_distinct rt_id rows" and "s \<in> set rows"
  shows "put_row rt_id (revoke now s) rows = map (\<lambda>x. if rt_id x = rt_id s then revoke now x else x) rows"
proof -
  have "x = s" if "x \<in> set rows" "rt_id x = rt_id s" for x
    using assms that unfolding keys_distinct_def distinct_map by (blast dest: inj_onD)
  then show ?thesis unfolding put_row_def by (intro map_cong) auto
qed

lemma put_row_append: "put_row key r (xs @ ys) = put_row key r xs @ put_row key r ys"
  by (simp add: put_row_def)

lemma refresh_session_Some: "refresh_session h d = Some s \<Longrightarrow> s \<in> set (refresh_sessions d) \<and> rt_token_hash s = h"
  by (auto simp: refresh_session_def find_Some_iff)

lemma user_by_email_Some: "user_by_email e d = Some u \<Longrightarrow> u \<in> set (users d) \<and> u_normalized_email u = e"
  by (auto simp: user_by_email_def find_Some_iff)

lemma refresh_session_unique:
  assumes "sessions_ok (refresh_sessions d)" and "s \<in> set (refresh_sessions d)" and "rt_token_hash s = h"
  shows "refresh_session h d = Some s"
proof -
  have "unique_on (\<lambda>s. True) rt_token_hash (refresh_sessions d)"
    using assms(1) by (simp add: sessions_ok_def sessions_insertable_def refresh_unique_def)
  then have unique: "t = s" if "t \<in> set (refresh_sessions d)" "rt_token_hash t = h" for t
    using unique_onD [of "\<lambda>s. True" rt_token_hash "refresh_sessions d" t s] assms(2,3) that by simp
  show ?thesis
  proof (cases "refresh_session h d")
    case None
    then show ?thesis using assms(2,3) by (auto simp: refresh_session_def find_None_iff)
  next
    case (Some t)
    then show ?thesis using unique refresh_session_Some [OF Some] by simp
  qed
qed

lemma write_session_step:
  assumes "sessions_ok (refresh_sessions d)" and "s \<in> set (refresh_sessions d)"
  shows "session_step (refresh_sessions d) (refresh_sessions (write_session (revoke now s) d))"
  using assms session_revoke [of "refresh_sessions d" "\<lambda>x. rt_id x = rt_id s" now]
  by (simp add: write_session_def put_row_revoke sessions_ok_def sessions_insertable_def)

lemma refresh_refines:
  assumes "sessions_ok (refresh_sessions d)"
  shows "session_step (refresh_sessions d) (refresh_sessions (snd (refresh sa raw draw now d)))"
proof (cases "refresh_session (sa_sha256 sa raw) d")
  case None
  then show ?thesis by (simp add: refresh_def session_skip)
next
  case (Some s)
  then have s: "s \<in> set (refresh_sessions d)" by (simp add: refresh_session_Some)
  let ?t = "\<lambda>u. new_session sa (u_id u) (Some (rt_family_id s)) draw now"
  show ?thesis
  proof (cases "live s")
    case False
    then show ?thesis using Some session_revoke [of "refresh_sessions d" "\<lambda>x. rt_family_id x = rt_family_id s" now]
      by (simp add: refresh_def live_def revoke_family_def)
  next
    case True
    consider (expired) "is_expired (rt_expires_at s) now"
      | (rejected) "\<not> is_expired (rt_expires_at s) now" "get_row u_id (rt_user_id s) (users d) = None"
      | (inactive) u where "\<not> is_expired (rt_expires_at s) now" "get_row u_id (rt_user_id s) (users d) = Some u"
          "\<not> (u_status u = UserStatus.ACTIVE \<and> sessions_insertable (refresh_sessions d @ [?t u]))"
      | (rotated) u where "\<not> is_expired (rt_expires_at s) now" "get_row u_id (rt_user_id s) (users d) = Some u"
          "u_status u = UserStatus.ACTIVE" "sessions_insertable (refresh_sessions d @ [?t u])"
      by (metis option.exhaust)
    then show ?thesis
    proof cases
      case expired
      have "refresh_sessions (snd (refresh sa raw draw now d)) = refresh_sessions (write_session (revoke now s) d)"
        using expired Some True by (simp add: refresh_def live_def revoke_def)
      then show ?thesis using write_session_step [OF assms s] by simp
    next
      case rejected
      then show ?thesis using Some True by (simp add: refresh_def live_def session_skip)
    next
      case inactive
      then show ?thesis using Some True by (simp add: refresh_def live_def Let_def session_skip)
    next
      case (rotated u)
      define s' where "s' = s\<lparr>rt_revoked_at := Some now, rt_replaced_by_id :=
        map_option rt_id (refresh_session (sa_sha256 sa (td_raw draw)) (d\<lparr>refresh_sessions := refresh_sessions d @ [?t u]\<rparr>))\<rparr>"
      have "u_id u = rt_user_id s" using rotated(2) by (auto simp: get_row_def find_Some_iff)
      moreover have "rt_id (?t u) \<noteq> rt_id s"
        using rotated(4) s by (auto simp: sessions_insertable_def keys_distinct_def)
      then have "put_row rt_id s' (refresh_sessions d @ [?t u]) = put_row rt_id s' (refresh_sessions d) @ [?t u]"
        by (simp add: put_row_append s'_def)
      then have "refresh_sessions (snd (refresh sa raw draw now d)) = put_row rt_id s' (refresh_sessions d) @ [?t u]"
        using rotated Some True by (simp add: refresh_def live_def Let_def write_session_def s'_def)
      ultimately show ?thesis
        using session_rotate [OF s True, of s' "?t u"] rotated(4) by (simp add: s'_def live_def new_session_def)
    qed
  qed
qed

lemma login_refines:
  assumes "td_family draw \<notin> rt_family_id ` set (refresh_sessions d)"
  shows "session_step (refresh_sessions d) (refresh_sessions (snd (login sa email password draw now d)))"
proof -
  have fresh: "rt_family_id (new_session sa uid None draw now) = td_family draw" for uid by (simp add: new_session_def)
  show ?thesis
    using session_issue [of "new_session sa uid None draw now" "refresh_sessions d" for uid] assms
    by (auto simp: login_def Let_def fresh session_skip split: option.split)
qed

lemma logout_refines:
  assumes "sessions_ok (refresh_sessions d)"
  shows "session_step (refresh_sessions d) (refresh_sessions (snd (logout sa raw user_id now d)))"
  using write_session_step [OF assms]
  by (auto simp: logout_def Let_def session_skip refresh_session_Some split: option.split)

lemma change_password_refines:
  "session_step (refresh_sessions d) (refresh_sessions (snd (change_password sa user current new now d)))"
  using session_revoke [of "refresh_sessions d" "\<lambda>x. rt_user_id x = u_id user" now]
  by (simp add: change_password_def session_skip split: sum.split)

lemma auth_step_refines:
  "auth_step sa d d' \<Longrightarrow> sessions_ok (refresh_sessions d) \<Longrightarrow> session_step (refresh_sessions d) (refresh_sessions d')"
  by (induction rule: auth_step.induct)
    (simp_all add: register_sessions session_skip login_refines refresh_refines logout_refines change_password_refines)

interpretation auth_system: transition_system "auth_step sa" "\<lambda>d. sessions_ok (refresh_sessions d)"
  for sa by unfold_locales (meson auth_step_refines session_step_ok)

lemma auth_reachable:
  assumes "(auth_step sa)\<^sup>*\<^sup>* d d'" and "sessions_ok (refresh_sessions d)"
  shows "session_step\<^sup>*\<^sup>* (refresh_sessions d) (refresh_sessions d') \<and> sessions_ok (refresh_sessions d')"
  using assms
proof (induction rule: rtranclp_induct)
  case (step d1 d2)
  then show ?case using auth_step_refines [of sa d1 d2] session_step_ok by (meson rtranclp.rtrancl_into_rtrancl)
qed simp

text \<open>A token whose row is dead is refused from then on, and each attempt closes its family.\<close>

lemma dead_token_refused:
  assumes "(auth_step sa)\<^sup>*\<^sup>* d d'" and "sessions_ok (refresh_sessions d)" and "s \<in> set (refresh_sessions d)"
    and "\<not> live s" and "rt_token_hash s = sa_sha256 sa raw"
  shows "\<exists>d''. refresh sa raw draw now d' = raise (AuthenticationError ''refresh_token_reused'') d'' \<and>
    family_dead (rt_family_id s) (refresh_sessions d'')"
proof -
  from auth_reachable [OF assms(1,2)] have "session_step\<^sup>*\<^sup>* (refresh_sessions d) (refresh_sessions d')"
    and ok: "sessions_ok (refresh_sessions d')" by blast+
  with dead_rows.inv_reachable [of "refresh_sessions d" "refresh_sessions d'" s] assms(3,4)
  have s: "s \<in> set (refresh_sessions d')" by blast
  have "refresh_session (sa_sha256 sa raw) d' = Some s" by (rule refresh_session_unique [OF ok s assms(5)])
  then have "refresh sa raw draw now d' = raise (AuthenticationError ''refresh_token_reused'')
      (record_audit ''auth.refresh_reuse_detected'' ''refresh_session'' AuditResult.FAILED None
         (Some (rt_user_id s)) (Some (rt_id s)) (revoke_family (rt_family_id s) now d'))"
    using assms(4) by (simp add: refresh_def live_def)
  moreover have "revoke now s \<in> set (refresh_sessions (revoke_family (rt_family_id s) now d'))"
    using s by (auto simp: revoke_family_def)
  then have "rt_family_id s \<in> rt_family_id ` set (refresh_sessions (revoke_family (rt_family_id s) now d'))"
    by (metis image_eqI revoke_fields(3))
  then have "family_dead (rt_family_id s) (refresh_sessions (revoke_family (rt_family_id s) now d'))"
    by (auto simp: family_dead_def revoke_family_def)
  ultimately show ?thesis by auto
qed

lemma refresh_returns:
  assumes "refresh sa raw draw now d = return tokens d'"
  obtains s where "refresh_session (sa_sha256 sa raw) d = Some s" and "live s" and
    "\<exists>s' t. refresh_sessions d' = put_row rt_id s' (refresh_sessions d @ [t]) \<and> \<not> live s' \<and> rt_id s' = rt_id s \<and>
       rt_token_hash s' = rt_token_hash s \<and> rt_family_id s' = rt_family_id s"
proof -
  from assms obtain s where s: "refresh_session (sa_sha256 sa raw) d = Some s" and "rt_revoked_at s = None"
    by (auto simp: refresh_def split: option.splits if_splits)
  then have l: "live s" by (simp add: live_def)
  have "\<exists>s' t. refresh_sessions d' = put_row rt_id s' (refresh_sessions d @ [t]) \<and> \<not> live s' \<and> rt_id s' = rt_id s \<and>
       rt_token_hash s' = rt_token_hash s \<and> rt_family_id s' = rt_family_id s"
    using assms s unfolding refresh_def
    by (auto simp: Let_def write_session_def live_def split: option.splits if_splits) force+
  with s l show thesis by (rule that)
qed

section \<open>A sample service\<close>

text \<open>
  A token of the sample library is the sequence of its fields, each character of a field marked
  and each field closed by a dot. Its passwords hash to themselves.
\<close>

primrec put_field :: "string \<Rightarrow> string \<Rightarrow> string" where
  "put_field [] rest = CHR ''.'' # rest"
| "put_field (c # cs) rest = CHR ''x'' # c # put_field cs rest"

fun take_field :: "string \<Rightarrow> string \<times> string" where
  "take_field (m # c # cs) =
     (if m = CHR ''x'' then (let (f, rest) = take_field cs in (c # f, rest)) else ([], c # cs))"
| "take_field [m] = ([], [])"
| "take_field [] = ([], [])"

definition put_int :: "int \<Rightarrow> string \<Rightarrow> string" where
  "put_int n rest = put_field (if n < 0 then ''-'' else ''+'') (put_field (nat_digits (nat \<bar>n\<bar>)) rest)"

definition take_int :: "string \<Rightarrow> int \<times> string" where
  "take_int s =
     (let (sign, r1) = take_field s; (digits, r2) = take_field r1; n = int (the (unsigned_value digits))
      in (if sign = ''-'' then - n else n, r2))"

lemma take_put_field [simp]: "take_field (put_field f rest) = (f, rest)"
proof (induction f)
  case Nil
  then show ?case by (cases rest) simp_all
qed simp

lemma take_put_int [simp]: "take_int (put_int n rest) = (n, rest)"
  by (simp add: take_int_def put_int_def unsigned_value_nat_digits)

definition sample_encode :: "JwtPayload \<Rightarrow> string \<Rightarrow> string \<Rightarrow> string" where
  "sample_encode p key kid =
     put_field kid (put_field key (put_field (jp_sub p) (put_field (jp_type p) (put_int (jp_iat p)
       (put_int (jp_exp p) (put_field (jp_jti p) []))))))"

definition sample_decode :: "string \<Rightarrow> string \<Rightarrow> instant \<Rightarrow> JwtPayload option" where
  "sample_decode token key' now =
     (let (kid, r0) = take_field token; (key, r1) = take_field r0; (sub, r2) = take_field r1; (typ, r3) = take_field r2;
          (iat, r4) = take_int r3; (expiry, r5) = take_int r4; (jti, r6) = take_field r5;
          p = \<lparr>jp_sub = sub, jp_type = typ, jp_iat = iat, jp_exp = expiry, jp_jti = jti\<rparr>
      in if key' = key \<and> from_timestamp iat \<le> now \<and> now < from_timestamp expiry then Some p else None)"

definition sample_jwt :: JwtLibrary where
  "sample_jwt = \<lparr>jl_encode = sample_encode, jl_header_kid = (\<lambda>token. Inr (Some (fst (take_field token)))),
     jl_decode = sample_decode\<rparr>"

definition sample_jwt_settings :: JwtSettings where
  "sample_jwt_settings = \<lparr>jwt_secret_key = ''first secret'', jwt_active_key_id = ''k1'', jwt_previous_secret_key = None,
     jwt_previous_key_id = None, access_token_expire_minutes = 15, refresh_token_expire_days = 7\<rparr>"

definition rotated_jwt_settings :: JwtSettings where
  "rotated_jwt_settings = sample_jwt_settings\<lparr>jwt_secret_key := ''second secret'', jwt_active_key_id := ''k2'',
     jwt_previous_secret_key := Some ''first secret'', jwt_previous_key_id := Some ''k1''\<rparr>"

definition sample_auth :: AuthService where
  "sample_auth = \<lparr>sa_jwt = sample_jwt, sa_settings = sample_jwt_settings, sa_sha256 = (\<lambda>s. s), sa_hash = (\<lambda>s. s),
     sa_verify = (\<lambda>p h. p = h), sa_dummy_hash = []\<rparr>"

definition signed_up_user :: User where
  "signed_up_user = \<lparr>u_id = 20, u_email = ''eve@acme.io'', u_normalized_email = ''eve@acme.io'',
     u_password_hash = ''Correct-Horse-1'', u_full_name = ''Eve'', u_status = UserStatus.ACTIVE,
     u_is_platform_admin = False, u_email_verified_at = None, u_last_login_at = None\<rparr>"

definition signed_up :: db where
  "signed_up = empty_db\<lparr>users := [signed_up_user]\<rparr>"

definition first_draw :: TokenDraw where
  "first_draw = \<lparr>td_raw = ''t1'', td_session = 30, td_family = 40, td_token_id = 50\<rparr>"

definition second_draw :: TokenDraw where
  "second_draw = \<lparr>td_raw = ''t2'', td_session = 31, td_family = 41, td_token_id = 51\<rparr>"

definition signed_in :: db where
  "signed_in = snd (login sample_auth ''eve@acme.io'' ''Correct-Horse-1'' first_draw 0 signed_up)"

definition rotated :: db where
  "rotated = snd (refresh sample_auth ''t1'' second_draw 10 signed_in)"

section \<open>Properties\<close>

text \<open>
  C30. Whatever sequence of registrations, logins, refreshes, logouts and password changes is
  served, at most one refresh token of a family is live, and all the tokens of a family belong
  to one user.
\<close>

theorem one_live_token_per_family:
  assumes "(auth_step sa)\<^sup>*\<^sup>* d d'" and "refresh_sessions d = []"
    and "s \<in> set (refresh_sessions d')" and "t \<in> set (refresh_sessions d')" and "rt_family_id s = rt_family_id t"
  shows "rt_user_id s = rt_user_id t \<and> (live s \<and> live t \<longrightarrow> s = t)"
proof -
  have "sessions_ok (refresh_sessions d)"
    using assms(2) by (simp add: sessions_ok_def sessions_insertable_def refresh_unique_def)
  from auth_system.inv_reachable [OF assms(1) this] have ok: "sessions_ok (refresh_sessions d')" .
  then have "rt_user_id s = rt_user_id t" using assms(3-5) unfolding sessions_ok_def by blast
  moreover have "unique_on live rt_family_id (refresh_sessions d')" using ok by (simp add: sessions_ok_def)
  ultimately show ?thesis using unique_onD [of live rt_family_id _ s t] assms(3-5) by blast
qed

lemmas sample_auth_defs = signed_up_def signed_up_user_def user_by_email_def normalize_email_def empty_db_def
  sample_auth_def first_draw_def second_draw_def new_session_def sessions_insertable_def keys_distinct_def
  refresh_unique_def sample_jwt_settings_def Let_def record_audit_def

lemma signed_in_eval:
  "users signed_in = [signed_up_user\<lparr>u_last_login_at := Some 0\<rparr>]"
  "refresh_sessions signed_in = [\<lparr>rt_id = 30, rt_user_id = 20, rt_token_hash = ''t1'', rt_family_id = 40, rt_issued_at = 0,
     rt_expires_at = timedelta_days 7, rt_revoked_at = None, rt_replaced_by_id = None\<rparr>]"
  by (simp_all add: signed_in_def login_def sample_auth_defs casefold_def strip_def is_space_def char_lower_def)

lemma signed_in_ok: "sessions_ok (refresh_sessions signed_in)"
  by (simp add: signed_in_eval sessions_ok_def sessions_insertable_def keys_distinct_def refresh_unique_def)

lemma rotated_eval: "refresh sample_auth ''t1'' second_draw 10 signed_in = return (issued sample_auth 20 second_draw 10) rotated"
  by (simp add: rotated_def refresh_def refresh_session_def signed_in_eval sample_auth_defs is_expired_def get_row_def
      timedelta_days_def timedelta_seconds_def write_session_def)

lemma login_step: "auth_step sample_auth signed_up signed_in"
  unfolding signed_in_def by (rule auth_login) (simp add: signed_up_def empty_db_def)

lemma rotate_step: "auth_step sample_auth signed_in rotated"
  unfolding rotated_def by (rule auth_refresh)

theorem one_live_token_per_family_witness:
  "rt_user_id (hd (refresh_sessions rotated)) = rt_user_id (last (refresh_sessions rotated)) \<and>
   \<not> (live (hd (refresh_sessions rotated)) \<and> live (last (refresh_sessions rotated)))"
proof -
  have "(auth_step sample_auth)\<^sup>*\<^sup>* signed_up rotated"
    using login_step rotate_step by (meson r_into_rtranclp rtranclp.rtrancl_into_rtrancl)
  moreover have rows: "length (refresh_sessions rotated) = 2 \<and> rt_family_id (hd (refresh_sessions rotated)) = 40 \<and>
      rt_family_id (last (refresh_sessions rotated)) = 40 \<and> rt_id (hd (refresh_sessions rotated)) \<noteq> rt_id (last (refresh_sessions rotated))"
    by (simp add: rotated_def refresh_def refresh_session_def signed_in_eval sample_auth_defs is_expired_def get_row_def
        timedelta_days_def timedelta_seconds_def write_session_def)
  then have "refresh_sessions rotated \<noteq> []" by auto
  moreover have "refresh_sessions signed_up = []" by (simp add: signed_up_def empty_db_def)
  ultimately show ?thesis
    using one_live_token_per_family [of sample_auth signed_up rotated "hd (refresh_sessions rotated)" "last (refresh_sessions rotated)"]
      rows by auto
qed

text \<open>
  C31. Rotation: once a refresh has exchanged a token, that token is refused with
  \<^verbatim>\<open>refresh_token_reused\<close> in every later state, and the attempt closes its family: from
  then on no token descended from the same login is live again.
\<close>

theorem rotated_token_is_dead:
  assumes "sessions_ok (refresh_sessions d)" and "refresh sa raw draw now d = return tokens d1"
    and "(auth_step sa)\<^sup>*\<^sup>* d1 d2"
  shows "\<exists>s d3. refresh_session (sa_sha256 sa raw) d = Some s \<and>
    refresh sa raw draw' now' d2 = raise (AuthenticationError ''refresh_token_reused'') d3 \<and>
    (\<forall>d4. (auth_step sa)\<^sup>*\<^sup>* d3 d4 \<longrightarrow>
       (\<forall>t \<in> set (refresh_sessions d4). rt_family_id t = rt_family_id s \<longrightarrow> \<not> live t))"
proof -
  from refresh_returns [OF assms(2)] obtain s s' t where s: "refresh_session (sa_sha256 sa raw) d = Some s"
    and d1: "refresh_sessions d1 = put_row rt_id s' (refresh_sessions d @ [t])"
    and s': "\<not> live s'" "rt_id s' = rt_id s" "rt_token_hash s' = rt_token_hash s" "rt_family_id s' = rt_family_id s" by blast
  note h = refresh_session_Some [OF s]
  have "s' \<in> set (refresh_sessions d1)" unfolding d1
    by (rule in_put_row_same [of s]) (use h s' in simp_all)
  moreover have "auth_step sa d d1" using auth_refresh [of sa d raw draw now] assms(2) by simp
  then have ok: "sessions_ok (refresh_sessions d1)" using auth_step_refines assms(1) session_step_ok by blast
  ultimately obtain d3 where d3: "refresh sa raw draw' now' d2 = raise (AuthenticationError ''refresh_token_reused'') d3"
    and dead: "family_dead (rt_family_id s') (refresh_sessions d3)"
    using dead_token_refused [OF assms(3), of s' raw draw' now'] s' h by auto
  have "auth_step sa d2 d3" using auth_refresh [of sa d2 raw draw' now'] d3 by simp
  then have ok3: "sessions_ok (refresh_sessions d3)"
    using auth_step_refines auth_reachable [OF assms(3) ok] session_step_ok by blast
  have "\<not> live t" if "(auth_step sa)\<^sup>*\<^sup>* d3 d4" "t \<in> set (refresh_sessions d4)" "rt_family_id t = rt_family_id s" for d4 t
    using dead_families.inv_reachable [OF _ dead] auth_reachable [OF that(1) ok3] that(2,3) s'(4)
    by (auto simp: family_dead_def)
  with s d3 show ?thesis by blast
qed

theorem rotated_token_is_dead_witness:
  "\<exists>d3. refresh sample_auth ''t1'' first_draw 20 rotated = raise (AuthenticationError ''refresh_token_reused'') d3"
  using rotated_token_is_dead [OF signed_in_ok rotated_eval rtranclp.rtrancl_refl, of first_draw 20] by blast

text \<open>
  A password change signs every session of the user out: each of the user's refresh tokens is
  refused in every later state, and the password that was replaced no longer signs in. The law of
  the password hasher is that a hash verifies exactly the password it was made from.
\<close>

theorem password_change_signs_out:
  assumes "sessions_ok (refresh_sessions d)" and "user_unique (users d)" and "user \<in> set (users d)"
    and "change_password sa user current new now d = return () d1"
    and "\<And>p q. sa_verify sa p (sa_hash sa q) = (p = q)"
  shows "(\<forall>raw s d2 draw now'. refresh_session (sa_sha256 sa raw) d = Some s \<and> rt_user_id s = u_id user \<and>
        (auth_step sa)\<^sup>*\<^sup>* d1 d2 \<longrightarrow>
        fst (refresh sa raw draw now' d2) = Inl (AuthenticationError ''refresh_token_reused'')) \<and>
    (\<forall>email password draw now'. normalize_email email = u_normalized_email user \<and> password \<noteq> new \<longrightarrow>
        fst (login sa email password draw now' d1) = Inl (AuthenticationError ''invalid_credentials''))"
proof (intro conjI allI impI; elim conjE)
  let ?f = "\<lambda>s. if rt_user_id s = u_id user then revoke now s else s"
  let ?u = "user\<lparr>u_password_hash := sa_hash sa new\<rparr>"
  have d1: "refresh_sessions d1 = map ?f (refresh_sessions d)" "users d1 = put_row u_id ?u (users d)"
    using assms(4) by (auto simp: change_password_def split: if_splits sum.splits)
  {
    fix raw s d2 draw now'
    assume s: "refresh_session (sa_sha256 sa raw) d = Some s" "rt_user_id s = u_id user" and later: "(auth_step sa)\<^sup>*\<^sup>* d1 d2"
    note h = refresh_session_Some [OF s(1)]
    have "?f s = revoke now s" using s(2) by simp
    then have "revoke now s \<in> set (refresh_sessions d1)"
      unfolding d1 set_map using h by (intro rev_image_eqI [of s]) simp_all
    moreover have "sessions_ok (refresh_sessions d1)" unfolding d1 by (rule sessions_ok_revoke [OF assms(1)])
    ultimately show "fst (refresh sa raw draw now' d2) = Inl (AuthenticationError ''refresh_token_reused'')"
      using dead_token_refused [OF later, of "revoke now s" raw draw now'] h by auto
  next
    fix email password draw now'
    assume e: "normalize_email email = u_normalized_email user" and "password \<noteq> new"
    moreover have "u = ?u" if "u \<in> set (users d1)" "u_normalized_email u = u_normalized_email user" for u
    proof (rule ccontr)
      assume "u \<noteq> ?u"
      with set_put_row [OF that(1) [unfolded d1]] have u: "u \<in> set (users d)" "u_id u \<noteq> u_id user" by auto
      have "u = user"
        by (rule unique_onD [of "\<lambda>u. True" u_normalized_email "users d"]) (use u assms(2,3) that(2) in \<open>simp_all add: user_unique_def\<close>)
      with u(2) show False by simp
    qed
    then have "user_by_email (normalize_email email) d1 = None \<or> user_by_email (normalize_email email) d1 = Some ?u"
      using e user_by_email_Some by (metis option.exhaust)
    ultimately show "fst (login sa email password draw now' d1) = Inl (AuthenticationError ''invalid_credentials'')"
      using assms(5) by (auto simp: login_def)
  }
qed


theorem password_change_signs_out_witness:
  "fst (refresh sample_auth ''t1'' second_draw 30
       (snd (change_password sample_auth (signed_up_user\<lparr>u_last_login_at := Some 0\<rparr>) ''Correct-Horse-1'' ''Battery-Staple-2'' 20 signed_in))) =
     Inl (AuthenticationError ''refresh_token_reused'')"
proof -
  let ?user = "signed_up_user\<lparr>u_last_login_at := Some 0\<rparr>"
  let ?d1 = "snd (change_password sample_auth ?user ''Correct-Horse-1'' ''Battery-Staple-2'' 20 signed_in)"
  have strong: "password_failures ''Battery-Staple-2'' (Some ''eve@acme.io'') = []" by code_simp
  then have "change_password sample_auth ?user ''Correct-Horse-1'' ''Battery-Staple-2'' 20 signed_in = return () ?d1"
    by (simp add: change_password_def validate_password_def signed_up_user_def sample_auth_def)
  moreover have "user_unique (users signed_in)" and "?user \<in> set (users signed_in)"
    by (simp_all add: signed_in_eval user_unique_def keys_distinct_def)
  moreover have "sa_verify sample_auth p (sa_hash sample_auth q) = (p = q)" for p q by (simp add: sample_auth_def)
  moreover have "refresh_session (sa_sha256 sample_auth ''t1'') signed_in = Some (hd (refresh_sessions signed_in))"
      "rt_user_id (hd (refresh_sessions signed_in)) = u_id ?user"
    by (simp_all add: refresh_session_def signed_in_eval sample_auth_def signed_up_user_def)
  ultimately show ?thesis
    using password_change_signs_out [OF signed_in_ok, of ?user sample_auth "''Correct-Horse-1''" "''Battery-Staple-2''" 20 ?d1]
    by blast
qed

text \<open>
  The documented behaviour of the JWT library: the header names the key identifier given to
  \<^verbatim>\<open>encode\<close>, and \<^verbatim>\<open>decode\<close> gives the payload back exactly for the signing key between the
  second of issue and the second of expiry.
\<close>

definition jwt_laws :: "JwtLibrary \<Rightarrow> bool" where
  "jwt_laws jl =
     ((\<forall>p key kid. jl_header_kid jl (jl_encode jl p key kid) = Inr (Some kid)) \<and>
      (\<forall>p key kid key' now. jl_decode jl (jl_encode jl p key kid) key' now =
         (if key' = key \<and> from_timestamp (jp_iat p) \<le> now \<and> now < from_timestamp (jp_exp p) then Some p else None)))"

lemma from_timestamp_le: "from_timestamp (timestamp now) \<le> now"
  by (simp add: from_timestamp_def timestamp_def SECOND_def timedelta_seconds_def minus_mod_eq_div_mult [symmetric])

text \<open>
  C32. Access tokens survive a rotation of the signing key and no more: a token issued under one
  configuration decodes, until the second it expires, to the user, the token identifier and the
  expiry it was issued with when the verifying configuration lists its key, as the active or as
  the previous one, under the identifier it was issued with; otherwise it is refused.
\<close>

theorem access_token_round_trip:
  assumes "jwt_laws jl" and "uuid_bound user_id" and "uuid_bound token_id" and "now \<le> later"
  shows "decode_access_token jl settings (create_access_token jl issuing user_id token_id now) later =
    (let expires_at = from_timestamp (timestamp (now + timedelta_minutes (access_token_expire_minutes issuing))) in
     if later < expires_at \<and>
        (jwt_active_key_id settings = jwt_active_key_id issuing \<and> jwt_secret_key settings = jwt_secret_key issuing \<or>
         jwt_previous_key_id settings = Some (jwt_active_key_id issuing) \<and>
         jwt_previous_secret_key settings = Some (jwt_secret_key issuing))
     then Inr \<lparr>ac_user_id = user_id, ac_expires_at = expires_at, ac_token_id = token_id\<rparr>
     else Inl (AuthenticationError ''invalid_authentication''))"
proof -
  have "from_timestamp (timestamp now) \<le> later" using from_timestamp_le [of now] assms(4) by simp
  then show ?thesis
    using assms(1-3)
    by (auto simp: decode_access_token_def create_access_token_def jwt_laws_def decoding_keys_def Let_def
        split: option.split)
qed

text \<open>
  The search for an organization slug ends: it returns a slug no organization has, the base
  itself or one of at most one more numbered candidate than there are organizations, and the slug
  fits the column of one hundred characters as long as the base does.
\<close>

theorem available_slug_ends:
  assumes "length base \<le> 100" and "length (organizations d) < 10 ^ 80"
  shows "\<exists>slug. available_slug base d = Some slug \<and> organization_by_slug slug d = None \<and> length slug \<le> 100 \<and>
    (\<exists>n \<le> length (organizations d). slug = (if base = [] then ''organization'' else base) \<or>
       slug = slug_candidate (if base = [] then ''organization'' else base) (2 + n))"
proof -
  let ?base = "if base = [] then ''organization'' else base"
  from available_slug_found [of base d] obtain slug where slug: "available_slug base d = Some slug"
    "organization_by_slug slug d = None"
    and "slug = ?base \<or> (\<exists>n \<le> length (organizations d). slug = slug_candidate ?base (2 + n))" by blast
  then obtain n where n: "n \<le> length (organizations d)" "slug = ?base \<or> slug = slug_candidate ?base (2 + n)" by blast
  have "(2::nat) + 10 ^ 80 < 10 ^ 90" by simp
  then have "2 + n < (10::nat) ^ 90" using n(1) assms(2) by linarith
  then have "length (slug_candidate ?base (2 + n)) \<le> 100" by (rule slug_candidate_length)
  moreover have "length ?base \<le> 100" using assms(1) by simp
  moreover note n(2)
  ultimately have "length slug \<le> 100" by (elim disjE) (simp_all only:)
  with slug n show ?thesis by blast
qed


lemma sample_jwt_laws: "jwt_laws sample_jwt"
  by (simp add: jwt_laws_def sample_jwt_def sample_encode_def sample_decode_def)

theorem access_token_round_trip_witness:
  "decode_access_token sample_jwt rotated_jwt_settings (create_access_token sample_jwt sample_jwt_settings 20 50 0) 5 =
     Inr \<lparr>ac_user_id = 20, ac_expires_at = 15 * 60 * SECOND, ac_token_id = 50\<rparr>"
  using access_token_round_trip [OF sample_jwt_laws, where user_id = 20 and token_id = 50 and now = 0 and later = 5 and settings = rotated_jwt_settings and issuing = sample_jwt_settings]
  by (simp add: uuid_bound_def sample_jwt_settings_def rotated_jwt_settings_def Let_def timestamp_def from_timestamp_def
      SECOND_def timedelta_seconds_def timedelta_minutes_def)

theorem available_slug_ends_witness:
  "\<exists>slug. available_slug ''acme'' sample_org = Some slug \<and> organization_by_slug slug sample_org = None \<and> length slug \<le> 100"
  using available_slug_ends [of "''acme''" sample_org] by (auto simp: sample_org_def)

end
