(* ===== verification/Invitations.thy ===== *)
theory Invitations
  imports Notification_Providers Auth
begin

text \<open>
  Invitations to an organization: \<^verbatim>\<open>app/services/invitations.py\<close>. Creating and resending an
  invitation runs in two transactions with the call of the mail provider between them, outside
  any transaction; the two halves are separate operations here, so that requests served in
  between are visible. Both halves run in the same SQLAlchemy session
  (\<^verbatim>\<open>db/session.py\<close>: \<^verbatim>\<open>expire_on_commit=False\<close>), whose identity map holds the
  invitation from the first half: the second half reads that copy and not the stored row, and
  its flush writes the columns in which the copy was changed. The theory shows that an accepted or
  cancelled invitation keeps everything but the evidence of its delivery, that this evidence
  is overwritten by every mail that was under way, what accepting a token grants, and that a
  member who was removed can never join the organization again.
\<close>

section \<open>Delivery\<close>

definition DELIVERY_SENDING :: string where "DELIVERY_SENDING = ''sending''"
definition DELIVERY_DELIVERED :: string where "DELIVERY_DELIVERED = ''delivered''"
definition DELIVERY_FAILED :: string where "DELIVERY_FAILED = ''failed''"

record DeliverySnapshot =
  sn_invitation_id :: uuid
  sn_organization_id :: uuid
  sn_organization_name :: string
  sn_email :: string
  sn_role :: OrganizationRole
  sn_expires_at :: instant
  sn_generation :: int

definition EMAIL_PROVIDERS :: "string list" where
  "EMAIL_PROVIDERS = [''smtp'', ''ses'', ''mock'']"

text \<open>The service: its settings, the mail libraries, the hash of tokens and \<^verbatim>\<open>strftime\<close>.\<close>

record InvitationService =
  iv_settings :: ProviderSettings
  iv_environment :: ProviderEnvironment
  iv_app_env :: string
  iv_frontend_url :: string
  iv_token_expire_hours :: int
  iv_sha256 :: "string \<Rightarrow> string"
  iv_strftime :: "instant \<Rightarrow> string"

definition is_local_demo_delivery :: "InvitationService \<Rightarrow> string \<Rightarrow> bool" where
  "is_local_demo_delivery iv provider_key = (iv_app_env iv = ''development'' \<and> provider_key = ''smtp'')"

definition invitation_subject :: "InvitationService \<Rightarrow> string \<Rightarrow> string" where
  "invitation_subject iv provider_key =
     (if is_local_demo_delivery iv provider_key then ''[LOCAL DEMO ONLY] CloudOps organization invitation''
      else ''CloudOps organization invitation'')"

definition rstrip_slashes :: "string \<Rightarrow> string" where
  "rstrip_slashes s = rev (dropWhile (\<lambda>c. c = CHR ''/'') (rev s))"

definition acceptance_url :: "InvitationService \<Rightarrow> string \<Rightarrow> string" where
  "acceptance_url iv raw = rstrip_slashes (iv_frontend_url iv) @ ''/invitations/accept?token='' @ raw"

definition newline :: string where "newline = [CHR 0x0A]"

text \<open>The dash of the marker is its UTF-8 encoding.\<close>

definition invitation_body :: "InvitationService \<Rightarrow> DeliverySnapshot \<Rightarrow> string \<Rightarrow> string \<Rightarrow> string" where
  "invitation_body iv snapshot raw provider_key =
     (let body = ''You have been invited to join the '' @ sn_organization_name snapshot @ '' organization in CloudOps.'' @
            newline @ newline @ ''Assigned role: '' @ OrganizationRole_value (sn_role snapshot) @ newline @
            ''This invitation expires on '' @ iv_strftime iv (sn_expires_at snapshot) @ ''.'' @ newline @ newline @
            ''Accept the invitation:'' @ newline @ acceptance_url iv raw @ newline @ newline @
            ''If you did not expect this invitation, ignore this message and the link will expire on its own.''
      in if is_local_demo_delivery iv provider_key
         then ''LOCAL DEMO ONLY '' @ [CHR 0xE2, CHR 0x80, CHR 0x94] @ '' NEVER USE IN PRODUCTION.'' @ newline @ newline @ body
         else body)"

definition deliver_invitation :: "InvitationService \<Rightarrow> DeliverySnapshot \<Rightarrow> string \<Rightarrow> NotificationDeliveryResult" where
  "deliver_invitation iv snapshot raw =
     (let provider_key = notification_provider (iv_settings iv);
          unavailable = delivery_failure ''provider_unavailable'' ''The invitation email could not be sent.'' True
      in if provider_key \<notin> set EMAIL_PROVIDERS then
           delivery_failure ''provider_not_email_capable'' ''The configured notification provider cannot send email.'' False
         else if provider_key = ''ses'' \<and> \<not> aws_ses_enabled (iv_settings iv) then
           delivery_failure ''ses_disabled'' ''SES delivery is not enabled.'' False
         else
           (case notification_provider_from_settings (iv_settings iv) (iv_environment iv) of
              Inl _ \<Rightarrow> unavailable
            | Inr provider \<Rightarrow>
                (case np_deliver provider
                   \<lparr>dc_channel = NotificationChannel.EMAIL, dc_destination_reference = Some (sn_email snapshot),
                    dc_recipients = [sn_email snapshot], dc_subject = invitation_subject iv provider_key,
                    dc_text_body = invitation_body iv snapshot raw provider_key,
                    dc_template_key = ''organization_invitation''\<rparr> of
                   Inl _ \<Rightarrow> unavailable
                 | Inr result \<Rightarrow> result)))"

definition snapshot_of :: "OrganizationInvitation \<Rightarrow> db \<Rightarrow> DeliverySnapshot" where
  "snapshot_of i d =
     \<lparr>sn_invitation_id = oi_id i, sn_organization_id = oi_organization_id i,
      sn_organization_name = (case get_row o_id (oi_organization_id i) (organizations d) of
                                None \<Rightarrow> ''CloudOps'' | Some org \<Rightarrow> o_name org),
      sn_email = oi_email i, sn_role = oi_role i, sn_expires_at = oi_expires_at i, sn_generation = oi_delivery_generation i\<rparr>"

definition timedelta_hours :: "int \<Rightarrow> int" where
  "timedelta_hours h = timedelta_minutes (60 * h)"

section \<open>Queries\<close>

text \<open>
  The invitation that a session already holds, with the attributes of its last flush. One the
  session has inserted lacks the columns that \<^verbatim>\<open>create\<close> leaves out, and a query that finds
  the row loads those; everything else of a held object stays as it was, whatever the row
  contains by now, because the query has no \<^verbatim>\<open>populate_existing\<close>.
\<close>

record HeldInvitation =
  hi_copy :: OrganizationInvitation
  hi_inserted :: bool

definition identity_mapped :: "HeldInvitation option \<Rightarrow> OrganizationInvitation \<Rightarrow> OrganizationInvitation" where
  "identity_mapped held stored =
     (case held of
        None \<Rightarrow> stored
      | Some h \<Rightarrow>
          if hi_inserted h then
            (hi_copy h)\<lparr>oi_accepted_at := oi_accepted_at stored,
              oi_last_delivery_error_code := oi_last_delivery_error_code stored,
              oi_last_delivered_at := oi_last_delivered_at stored\<rparr>
          else hi_copy h)"

definition invitation_for_update ::
    "HeldInvitation option \<Rightarrow> uuid \<Rightarrow> uuid \<Rightarrow> db \<Rightarrow> OrganizationInvitation option" where
  "invitation_for_update held organization_id invitation_id d =
     map_option (identity_mapped held)
       (find (\<lambda>i. oi_id i = invitation_id \<and> oi_organization_id i = organization_id) (invitations d))"

definition invitation_by_hash :: "string \<Rightarrow> db \<Rightarrow> OrganizationInvitation option" where
  "invitation_by_hash token_hash d = find (\<lambda>i. oi_token_hash i = token_hash) (invitations d)"

definition pending_invitation :: "uuid \<Rightarrow> string \<Rightarrow> db \<Rightarrow> OrganizationInvitation option" where
  "pending_invitation organization_id normalized_email d =
     find (\<lambda>i. oi_organization_id i = organization_id \<and> oi_normalized_email i = normalized_email \<and>
               oi_status i = InvitationStatus.PENDING) (invitations d)"

definition membership :: "uuid \<Rightarrow> uuid \<Rightarrow> db \<Rightarrow> OrganizationMembership option" where
  "membership organization_id user_id d =
     find (\<lambda>m. m_organization_id m = organization_id \<and> m_user_id m = user_id) (memberships d)"

definition write_invitation :: "OrganizationInvitation \<Rightarrow> db \<Rightarrow> db" where
  "write_invitation i d = d\<lparr>invitations := put_row oi_id i (invitations d)\<rparr>"

definition invitations_storable :: "OrganizationInvitation list \<Rightarrow> bool" where
  "invitations_storable rows =
     (keys_distinct oi_id rows \<and> invitation_unique rows \<and> list_all invitation_constraints rows)"

section \<open>Recording the result of a delivery\<close>

definition with_result :: "NotificationDeliveryResult \<Rightarrow> instant \<Rightarrow> OrganizationInvitation \<Rightarrow> OrganizationInvitation" where
  "with_result result now i =
     (let succeeded = (nr_outcome result = SUCCESS) in
      i\<lparr>oi_last_delivery_status := Some (if succeeded then DELIVERY_DELIVERED else DELIVERY_FAILED),
        oi_last_delivery_error_code := (if succeeded then None else nr_error_code result),
        oi_last_delivered_at := (if succeeded then Some now else oi_last_delivered_at i)\<rparr>)"

text \<open>
  A flush updates, by primary key, the columns whose value was changed since they were loaded.
\<close>

definition flush_column :: "'a \<Rightarrow> 'a \<Rightarrow> 'a \<Rightarrow> 'a" where
  "flush_column loaded assigned stored = (if assigned = loaded then stored else assigned)"

definition flush_delivery ::
    "OrganizationInvitation \<Rightarrow> OrganizationInvitation \<Rightarrow> OrganizationInvitation \<Rightarrow> OrganizationInvitation" where
  "flush_delivery loaded assigned stored =
     stored\<lparr>
       oi_last_delivery_status := flush_column (oi_last_delivery_status loaded) (oi_last_delivery_status assigned)
         (oi_last_delivery_status stored),
       oi_last_delivery_error_code := flush_column (oi_last_delivery_error_code loaded)
         (oi_last_delivery_error_code assigned) (oi_last_delivery_error_code stored),
       oi_last_delivered_at := flush_column (oi_last_delivered_at loaded) (oi_last_delivered_at assigned)
         (oi_last_delivered_at stored)\<rparr>"

definition flush_invitation :: "OrganizationInvitation \<Rightarrow> OrganizationInvitation \<Rightarrow> db \<Rightarrow> db" where
  "flush_invitation loaded assigned d =
     (case get_row oi_id (oi_id loaded) (invitations d) of
        None \<Rightarrow> d
      | Some stored \<Rightarrow> write_invitation (flush_delivery loaded assigned stored) d)"

text \<open>
  The second transaction of \<^verbatim>\<open>_send_and_record\<close>, in the session that holds the invitation;
  the refresh at its end reads the row.
\<close>

definition record_delivery ::
    "HeldInvitation \<Rightarrow> DeliverySnapshot \<Rightarrow> uuid \<Rightarrow> NotificationDeliveryResult \<Rightarrow> instant \<Rightarrow> db \<Rightarrow>
     db \<times> OrganizationInvitation option" where
  "record_delivery held snapshot actor_id result now d =
     (case invitation_for_update (Some held) (sn_organization_id snapshot) (sn_invitation_id snapshot) d of
        None \<Rightarrow> (d, None)
      | Some i \<Rightarrow>
          let succeeded = (nr_outcome result = SUCCESS);
              d' =
                (if oi_delivery_generation i \<noteq> sn_generation snapshot then
                   record_audit ''invitation.delivery_result_discarded'' ''invitation'' AuditResult.FAILED
                     (Some (sn_organization_id snapshot)) (Some actor_id) (Some (sn_invitation_id snapshot)) d
                 else
                   record_audit
                     (if succeeded then ''invitation.delivery_succeeded'' else ''invitation.delivery_failed'') ''invitation''
                     (if succeeded then AuditResult.SUCCEEDED else AuditResult.FAILED)
                     (Some (sn_organization_id snapshot)) (Some actor_id) (Some (sn_invitation_id snapshot))
                     (flush_invitation i (with_result result now i) d))
          in (d', get_row oi_id (oi_id i) (invitations d')))"

definition send_and_record ::
    "InvitationService \<Rightarrow> HeldInvitation \<Rightarrow> DeliverySnapshot \<Rightarrow> uuid \<Rightarrow> string \<Rightarrow> instant \<Rightarrow> db \<Rightarrow>
     db \<times> OrganizationInvitation option" where
  "send_and_record iv held snapshot actor_id raw now d =
     record_delivery held snapshot actor_id (deliver_invitation iv snapshot raw) now d"

section \<open>Operations\<close>

record InvitationDraw =
  id_invitation :: uuid
  id_raw :: string

text \<open>The first transaction of \<^verbatim>\<open>create\<close>, up to its commit.\<close>

definition begin_create ::
    "InvitationService \<Rightarrow> uuid \<Rightarrow> uuid \<Rightarrow> string \<Rightarrow> OrganizationRole \<Rightarrow> InvitationDraw \<Rightarrow> instant \<Rightarrow> db \<Rightarrow>
     (db, OrganizationInvitation) outcome" where
  "begin_create iv organization_id actor_id email role draw now d =
     (case require_capability organization_id actor_id INVITATIONS_MANAGE d of
        Inl e \<Rightarrow> raise e d
      | Inr actor_member \<Rightarrow>
          if \<not> can_assign_role (m_role actor_member) role then raise (ForbiddenError ''unsafe_role_assignment'') d
          else
            let normalized = normalize_email email in
            if (case user_by_email normalized d of None \<Rightarrow> False | Some u \<Rightarrow> membership organization_id (u_id u) d \<noteq> None) then
              raise (ConflictError ''already_member'') d
            else if pending_invitation organization_id normalized d \<noteq> None then
              raise (ConflictError ''active_invitation_exists'') d
            else
              let i = \<lparr>oi_id = id_invitation draw, oi_organization_id = organization_id, oi_email = strip email,
                       oi_normalized_email = normalized, oi_role = role, oi_token_hash = iv_sha256 iv (id_raw draw),
                       oi_status = InvitationStatus.PENDING, oi_invited_by_user_id = actor_id,
                       oi_expires_at = now + timedelta_hours (iv_token_expire_hours iv), oi_accepted_at = None,
                       oi_last_delivery_status = Some DELIVERY_SENDING, oi_last_delivery_error_code = None,
                       oi_last_delivery_attempt_at = Some now, oi_last_delivered_at = None, oi_delivery_generation = 0\<rparr>;
                  rows = invitations d @ [i]
              in if invitations_storable rows then
                   return i
                     (record_audit ''invitation.created'' ''invitation'' AuditResult.SUCCEEDED (Some organization_id)
                        (Some actor_id) (Some (id_invitation draw)) (d\<lparr>invitations := rows\<rparr>))
                 else raise IntegrityError d)"

text \<open>The token is returned to the caller only where no mail leaves the machine.\<close>

definition shown_token :: "InvitationService \<Rightarrow> string \<Rightarrow> string option" where
  "shown_token iv raw = (if iv_app_env iv \<in> {''development'', ''testing''} then Some raw else None)"

definition create_invitation ::
    "InvitationService \<Rightarrow> uuid \<Rightarrow> uuid \<Rightarrow> string \<Rightarrow> OrganizationRole \<Rightarrow> InvitationDraw \<Rightarrow> instant \<Rightarrow> db \<Rightarrow>
     (db, OrganizationInvitation \<times> string option) outcome" where
  "create_invitation iv organization_id actor_id email role draw now d =
     (case begin_create iv organization_id actor_id email role draw now d of
        (Inl e, d1) \<Rightarrow> raise e d1
      | (Inr i, d1) \<Rightarrow>
          (case send_and_record iv \<lparr>hi_copy = i, hi_inserted = True\<rparr> (snapshot_of i d1) actor_id (id_raw draw) now d1 of
             (d2, delivered) \<Rightarrow>
               return (case delivered of None \<Rightarrow> i | Some j \<Rightarrow> j, shown_token iv (id_raw draw)) d2))"

text \<open>The first transaction of \<^verbatim>\<open>resend\<close>, up to its commit.\<close>

definition begin_resend ::
    "InvitationService \<Rightarrow> uuid \<Rightarrow> uuid \<Rightarrow> uuid \<Rightarrow> string \<Rightarrow> instant \<Rightarrow> db \<Rightarrow> (db, OrganizationInvitation) outcome" where
  "begin_resend iv organization_id invitation_id actor_id raw now d =
     (case require_capability organization_id actor_id INVITATIONS_MANAGE d of
        Inl e \<Rightarrow> raise e d
      | Inr _ \<Rightarrow>
          (case invitation_for_update None organization_id invitation_id d of
             None \<Rightarrow> raise (NotFoundError ''invitation_not_found'') d
           | Some i \<Rightarrow>
               if oi_status i \<noteq> InvitationStatus.PENDING then raise (ConflictError ''invitation_unavailable'') d
               else if is_expired (oi_expires_at i) now then
                 raise (ConflictError ''invitation_expired'') (write_invitation (i\<lparr>oi_status := InvitationStatus.EXPIRED\<rparr>) d)
               else
                 let i' = i\<lparr>oi_token_hash := iv_sha256 iv raw,
                            oi_expires_at := now + timedelta_hours (iv_token_expire_hours iv),
                            oi_last_delivery_status := Some DELIVERY_SENDING, oi_last_delivery_error_code := None,
                            oi_last_delivery_attempt_at := Some now,
                            oi_delivery_generation := oi_delivery_generation i + 1\<rparr>;
                     d1 = write_invitation i' d
                 in if invitations_storable (invitations d1) then
                      return i'
                        (record_audit ''invitation.resent'' ''invitation'' AuditResult.SUCCEEDED (Some organization_id)
                           (Some actor_id) (Some (oi_id i)) d1)
                    else raise IntegrityError d))"

definition resend_invitation ::
    "InvitationService \<Rightarrow> uuid \<Rightarrow> uuid \<Rightarrow> uuid \<Rightarrow> string \<Rightarrow> instant \<Rightarrow> db \<Rightarrow>
     (db, OrganizationInvitation \<times> string option) outcome" where
  "resend_invitation iv organization_id invitation_id actor_id raw now d =
     (case begin_resend iv organization_id invitation_id actor_id raw now d of
        (Inl e, d1) \<Rightarrow> raise e d1
      | (Inr i, d1) \<Rightarrow>
          (case send_and_record iv \<lparr>hi_copy = i, hi_inserted = False\<rparr> (snapshot_of i d1) actor_id raw now d1 of
             (d2, None) \<Rightarrow> raise (NotFoundError ''invitation_not_found'') d2
           | (d2, Some j) \<Rightarrow> return (j, shown_token iv raw) d2))"

text \<open>\<open>member_of\<close> is the membership an accepted invitation leads to.\<close>

definition member_of :: "OrganizationInvitation \<Rightarrow> uuid \<Rightarrow> uuid \<Rightarrow> instant \<Rightarrow> OrganizationMembership" where
  "member_of i user_id new_member now =
     \<lparr>m_id = new_member, m_organization_id = oi_organization_id i, m_user_id = user_id, m_role = oi_role i,
      m_status = MembershipStatus.ACTIVE, m_invited_by_user_id = Some (oi_invited_by_user_id i), m_joined_at = Some now\<rparr>"

definition accepted_invitation :: "OrganizationInvitation \<Rightarrow> instant \<Rightarrow> OrganizationInvitation" where
  "accepted_invitation i now =
     i\<lparr>oi_status := InvitationStatus.ACCEPTED, oi_accepted_at := Some now,
       oi_delivery_generation := oi_delivery_generation i + 1\<rparr>"

definition accept_invitation ::
    "InvitationService \<Rightarrow> string \<Rightarrow> User \<Rightarrow> uuid \<Rightarrow> instant \<Rightarrow> db \<Rightarrow> (db, OrganizationMembership) outcome" where
  "accept_invitation iv raw user new_member now d =
     (case invitation_by_hash (iv_sha256 iv raw) d of
        None \<Rightarrow> raise (NotFoundError ''invitation_not_found'') d
      | Some i \<Rightarrow>
          let existing = membership (oi_organization_id i) (u_id user) d in
          if oi_status i = InvitationStatus.ACCEPTED \<and> existing \<noteq> None then return (the existing) d
          else if oi_status i \<noteq> InvitationStatus.PENDING then raise (ConflictError ''invitation_unavailable'') d
          else if is_expired (oi_expires_at i) now then
            raise (ConflictError ''invitation_expired'')
              (write_invitation (i\<lparr>oi_status := InvitationStatus.EXPIRED,
                 oi_delivery_generation := oi_delivery_generation i + 1\<rparr>) d)
          else if oi_normalized_email i \<noteq> u_normalized_email user then
            raise (ForbiddenError ''invitation_email_mismatch'') d
          else
            let finish = (\<lambda>member d1.
                  return member
                    (record_audit ''invitation.accepted'' ''invitation'' AuditResult.SUCCEEDED (Some (oi_organization_id i))
                       (Some (u_id user)) (Some (oi_id i)) (write_invitation (accepted_invitation i now) d1)))
            in (case existing of
                  Some m \<Rightarrow>
                    if m_status m = MembershipStatus.REMOVED then
                      let m' = m\<lparr>m_status := MembershipStatus.ACTIVE, m_role := oi_role i, m_joined_at := Some now\<rparr>
                      in finish m' (d\<lparr>memberships := put_row m_id m' (memberships d)\<rparr>)
                    else raise (ConflictError ''already_member'') d
                | None \<Rightarrow>
                    let m = member_of i (u_id user) new_member now in
                    if keys_distinct m_id (memberships d @ [m]) then finish m (d\<lparr>memberships := memberships d @ [m]\<rparr>)
                    else raise IntegrityError d))"

definition cancel_invitation :: "uuid \<Rightarrow> uuid \<Rightarrow> uuid \<Rightarrow> db \<Rightarrow> (db, unit) outcome" where
  "cancel_invitation organization_id invitation_id actor_id d =
     (case require_capability organization_id actor_id INVITATIONS_MANAGE d of
        Inl e \<Rightarrow> raise e d
      | Inr _ \<Rightarrow>
          (case invitation_for_update None organization_id invitation_id d of
             None \<Rightarrow> raise (NotFoundError ''invitation_not_found'') d
           | Some i \<Rightarrow>
               if oi_status i = InvitationStatus.PENDING then
                 return ()
                   (record_audit ''invitation.cancelled'' ''invitation'' AuditResult.SUCCEEDED (Some organization_id)
                      (Some actor_id) (Some (oi_id i))
                      (write_invitation (i\<lparr>oi_status := InvitationStatus.CANCELLED,
                         oi_delivery_generation := oi_delivery_generation i + 1\<rparr>) d))
               else return () d))"

section \<open>Requests and deliveries in flight\<close>

text \<open>
  The state is the database with the deliveries between their two transactions: the object that
  the session of the request holds, the snapshot and the actor. Every request has a session
  of its own. Fresh identifiers are those that no row has.
\<close>

type_synonym in_flight = "(HeldInvitation \<times> DeliverySnapshot \<times> uuid) list"

inductive tenant_step :: "AuthService \<Rightarrow> InvitationService \<Rightarrow> db \<times> in_flight \<Rightarrow> db \<times> in_flight \<Rightarrow> bool" for sa iv where
  tenant_organization: "organization_step d d' \<Longrightarrow> tenant_step sa iv (d, fl) (d', fl)"
| tenant_register: "rg_user rg \<notin> m_user_id ` set (memberships d) \<Longrightarrow> rg_organization rg \<notin> o_id ` set (organizations d) \<Longrightarrow>
    rg_member rg \<notin> m_id ` set (memberships d) \<Longrightarrow>
    tenant_step sa iv (d, fl) (snd (register sa email password full_name organization_name rg now d), fl)"
| tenant_login: "tenant_step sa iv (d, fl) (snd (login sa email password draw now d), fl)"
| tenant_refresh: "tenant_step sa iv (d, fl) (snd (refresh sa raw draw now d), fl)"
| tenant_logout: "tenant_step sa iv (d, fl) (snd (logout sa token user_id now d), fl)"
| tenant_password: "user \<in> set (users d) \<Longrightarrow> tenant_step sa iv (d, fl) (snd (change_password sa user current new now d), fl)"
| tenant_invite: "begin_create iv org actor email role idraw now d = return i d' \<Longrightarrow>
    tenant_step sa iv (d, fl) (d', fl @ [(\<lparr>hi_copy = i, hi_inserted = True\<rparr>, snapshot_of i d', actor)])"
| tenant_invite_refused: "begin_create iv org actor email role idraw now d = raise e d' \<Longrightarrow> tenant_step sa iv (d, fl) (d', fl)"
| tenant_resend: "begin_resend iv org iid actor raw now d = return i d' \<Longrightarrow>
    tenant_step sa iv (d, fl) (d', fl @ [(\<lparr>hi_copy = i, hi_inserted = False\<rparr>, snapshot_of i d', actor)])"
| tenant_resend_refused: "begin_resend iv org iid actor raw now d = raise e d' \<Longrightarrow> tenant_step sa iv (d, fl) (d', fl)"
| tenant_record: "(held, snapshot, actor) \<in> set fl \<Longrightarrow>
    tenant_step sa iv (d, fl)
      (fst (record_delivery held snapshot actor result now d), remove1 (held, snapshot, actor) fl)"
| tenant_accept: "user \<in> set (users d) \<Longrightarrow> tenant_step sa iv (d, fl) (snd (accept_invitation iv raw user new_member now d), fl)"
| tenant_cancel: "tenant_step sa iv (d, fl) (snd (cancel_invitation org iid actor d), fl)"

section \<open>What an operation does to the invitations\<close>

definition closed :: "OrganizationInvitation \<Rightarrow> bool" where
  "closed i = (oi_status i \<in> {InvitationStatus.ACCEPTED, InvitationStatus.CANCELLED})"

definition same_invitation :: "OrganizationInvitation \<Rightarrow> OrganizationInvitation \<Rightarrow> bool" where
  "same_invitation i i' =
     (oi_id i' = oi_id i \<and> oi_organization_id i' = oi_organization_id i \<and> oi_normalized_email i' = oi_normalized_email i \<and>
      oi_role i' = oi_role i)"

text \<open>A request changes a pending row only; closing it moves the generation on.\<close>

definition advanced :: "OrganizationInvitation \<Rightarrow> OrganizationInvitation \<Rightarrow> bool" where
  "advanced i i' =
     (same_invitation i i' \<and> oi_status i = InvitationStatus.PENDING \<and> oi_delivery_generation i \<le> oi_delivery_generation i' \<and>
      (closed i' \<longrightarrow> oi_delivery_generation i < oi_delivery_generation i'))"

text \<open>A delivery result rewrites the evidence of the delivery and nothing else.\<close>

definition beyond_delivery :: "OrganizationInvitation \<Rightarrow> OrganizationInvitation" where
  "beyond_delivery i =
     i\<lparr>oi_last_delivery_status := None, oi_last_delivery_error_code := None, oi_last_delivered_at := None\<rparr>"

lemma beyond_deliveryD:
  assumes "beyond_delivery i' = beyond_delivery i"
  shows "same_invitation i i'" and "oi_status i' = oi_status i" and "oi_token_hash i' = oi_token_hash i"
    and "oi_delivery_generation i' = oi_delivery_generation i" and "oi_id i' = oi_id i" and "closed i' = closed i"
    and "\<exists>status code at. i' = i\<lparr>oi_last_delivery_status := status, oi_last_delivery_error_code := code,
           oi_last_delivered_at := at\<rparr>"
proof -
  show "\<exists>status code at. i' = i\<lparr>oi_last_delivery_status := status, oi_last_delivery_error_code := code,
           oi_last_delivered_at := at\<rparr>"
    by (rule exI [of _ "oi_last_delivery_status i'"], rule exI [of _ "oi_last_delivery_error_code i'"],
        rule exI [of _ "oi_last_delivered_at i'"])
      (use assms in \<open>cases i; cases i'; simp add: beyond_delivery_def\<close>)
  then show "same_invitation i i'" and "oi_status i' = oi_status i" and "oi_token_hash i' = oi_token_hash i"
    and "oi_delivery_generation i' = oi_delivery_generation i" and "oi_id i' = oi_id i" and "closed i' = closed i"
    by (auto simp: same_invitation_def closed_def)
qed

lemma beyond_flush [simp]: "beyond_delivery (flush_delivery loaded assigned stored) = beyond_delivery stored"
  by (simp add: beyond_delivery_def flush_delivery_def)

lemma invitation_for_update_Some:
  "invitation_for_update None org iid d = Some i \<Longrightarrow> i \<in> set (invitations d) \<and> oi_id i = iid \<and> oi_organization_id i = org"
  by (auto simp: invitation_for_update_def identity_mapped_def find_Some_iff)

lemma invitation_by_hash_Some: "invitation_by_hash h d = Some i \<Longrightarrow> i \<in> set (invitations d) \<and> oi_token_hash i = h"
  by (auto simp: invitation_by_hash_def find_Some_iff)

lemma membership_Some:
  "membership org user d = Some m \<Longrightarrow> m \<in> set (memberships d) \<and> m_organization_id m = org \<and> m_user_id m = user"
  by (auto simp: membership_def find_Some_iff)

lemma membership_None:
  "membership org user d = None \<longleftrightarrow> (\<forall>m \<in> set (memberships d). \<not> (m_organization_id m = org \<and> m_user_id m = user))"
  by (auto simp: membership_def find_None_iff)

lemma begin_create_returns:
  assumes "begin_create iv org actor email role draw now d = return i d'"
  shows "invitations d' = invitations d @ [i]" and "invitations_storable (invitations d @ [i])"
    and "oi_status i = InvitationStatus.PENDING" and "oi_delivery_generation i = 0"
    and "oi_organization_id i = org" and "oi_normalized_email i = normalize_email email" and "users d' = users d"
    and "memberships d' = memberships d" and "organizations d' = organizations d"
    and "\<exists>am. require_capability org actor INVITATIONS_MANAGE d = Inr am \<and> can_assign_role (m_role am) role"
    and "user_by_email (normalize_email email) d = Some u \<Longrightarrow> membership org (u_id u) d = None"
  using assms by (auto simp: begin_create_def Let_def split: sum.splits if_splits option.splits)

lemma begin_create_raises: "begin_create iv org actor email role draw now d = raise e d' \<Longrightarrow> d' = d"
  by (auto simp: begin_create_def Let_def split: sum.splits if_splits option.splits)

lemma begin_resend_returns:
  assumes "begin_resend iv org iid actor raw now d = return i' d'"
  shows "\<exists>i \<in> set (invitations d). advanced i i' \<and> oi_status i' = InvitationStatus.PENDING \<and>
      oi_delivery_generation i < oi_delivery_generation i' \<and> oi_token_hash i' = iv_sha256 iv raw \<and>
      invitations d' = put_row oi_id i' (invitations d)"
    and "invitations_storable (invitations d')"
    and "users d' = users d" and "memberships d' = memberships d" and "organizations d' = organizations d"
  using assms by (auto simp: begin_resend_def Let_def advanced_def same_invitation_def closed_def write_invitation_def
      dest!: invitation_for_update_Some split: sum.splits if_splits option.splits)

lemma begin_resend_raises:
  assumes "begin_resend iv org iid actor raw now d = raise e d'"
  shows "d' = d \<or> (\<exists>i \<in> set (invitations d). advanced i (i\<lparr>oi_status := InvitationStatus.EXPIRED\<rparr>) \<and>
    d' = write_invitation (i\<lparr>oi_status := InvitationStatus.EXPIRED\<rparr>) d)"
  using assms by (auto simp: begin_resend_def Let_def advanced_def same_invitation_def closed_def
      dest!: invitation_for_update_Some split: sum.splits if_splits option.splits)

lemma cancel_invitation_effect:
  "snd (cancel_invitation org iid actor d) = d \<or>
   (\<exists>i \<in> set (invitations d). \<exists>i'. advanced i i' \<and> closed i' \<and> oi_token_hash i' = oi_token_hash i \<and>
      invitations (snd (cancel_invitation org iid actor d)) = put_row oi_id i' (invitations d) \<and>
      users (snd (cancel_invitation org iid actor d)) = users d \<and>
      memberships (snd (cancel_invitation org iid actor d)) = memberships d \<and>
      organizations (snd (cancel_invitation org iid actor d)) = organizations d)"
proof (cases "snd (cancel_invitation org iid actor d) = d")
  case False
  then obtain i where i: "i \<in> set (invitations d)" "oi_status i = InvitationStatus.PENDING"
    and eq: "snd (cancel_invitation org iid actor d) = record_audit ''invitation.cancelled'' ''invitation'' AuditResult.SUCCEEDED
      (Some org) (Some actor) (Some (oi_id i)) (write_invitation (i\<lparr>oi_status := InvitationStatus.CANCELLED,
                         oi_delivery_generation := oi_delivery_generation i + 1\<rparr>) d)"
    by (auto simp: cancel_invitation_def dest!: invitation_for_update_Some split: sum.splits if_splits option.splits)
  show ?thesis unfolding eq
    by (intro disjI2 bexI [OF _ i(1)] exI [of _ "i\<lparr>oi_status := InvitationStatus.CANCELLED, oi_delivery_generation := oi_delivery_generation i + 1\<rparr>"])
      (use i(2) in \<open>simp add: advanced_def closed_def same_invitation_def write_invitation_def\<close>)
qed simp

lemma record_effect:
  "invitations (fst (record_delivery held snapshot actor result now d)) = invitations d \<or>
   (\<exists>i \<in> set (invitations d). \<exists>i'. beyond_delivery i' = beyond_delivery i \<and>
      invitations (fst (record_delivery held snapshot actor result now d)) = put_row oi_id i' (invitations d))"
proof -
  have flush: "invitations (flush_invitation loaded assigned d) = invitations d \<or>
     (\<exists>i \<in> set (invitations d). \<exists>i'. beyond_delivery i' = beyond_delivery i \<and>
        invitations (flush_invitation loaded assigned d) = put_row oi_id i' (invitations d))" for loaded assigned
  proof (cases "get_row oi_id (oi_id loaded) (invitations d)")
    case (Some stored)
    then show ?thesis using get_row_in [OF Some]
      by (intro disjI2 bexI [of _ stored] exI [of _ "flush_delivery loaded assigned stored"])
        (simp_all add: flush_invitation_def write_invitation_def)
  qed (simp add: flush_invitation_def)
  show ?thesis
    by (cases "invitation_for_update (Some held) (sn_organization_id snapshot) (sn_invitation_id snapshot) d")
      (use flush in \<open>simp_all add: record_delivery_def Let_def\<close>)
qed

lemma record_frame:
  "users (fst (record_delivery held snapshot actor result now d)) = users d"
  "memberships (fst (record_delivery held snapshot actor result now d)) = memberships d"
  "organizations (fst (record_delivery held snapshot actor result now d)) = organizations d"
  by (simp_all add: record_delivery_def flush_invitation_def Let_def write_invitation_def split: option.split)


text \<open>Accepting: a pending row is closed, at most one membership is added or reactivated.\<close>

definition accepted_into :: "OrganizationInvitation \<Rightarrow> User \<Rightarrow> uuid \<Rightarrow> instant \<Rightarrow> db \<Rightarrow> db \<Rightarrow> bool" where
  "accepted_into i user new_member now d d' =
     (oi_status i = InvitationStatus.PENDING \<and> oi_normalized_email i = u_normalized_email user \<and>
      \<not> is_expired (oi_expires_at i) now \<and>
      invitations d' = put_row oi_id (accepted_invitation i now) (invitations d) \<and>
      (membership (oi_organization_id i) (u_id user) d = None \<and>
         memberships d' = memberships d @ [member_of i (u_id user) new_member now] \<and> keys_distinct m_id (memberships d') \<or>
       (\<exists>m. membership (oi_organization_id i) (u_id user) d = Some m \<and> m_status m = MembershipStatus.REMOVED \<and>
          memberships d' = put_row m_id (m\<lparr>m_status := MembershipStatus.ACTIVE, m_role := oi_role i, m_joined_at := Some now\<rparr>)
            (memberships d))))"

lemma accept_effect:
  fixes iv raw user new_member now d
  defines "d' \<equiv> snd (accept_invitation iv raw user new_member now d)"
  shows "users d' = users d \<and> organizations d' = organizations d \<and>
    (d' = d \<or>
     (\<exists>i. invitation_by_hash (iv_sha256 iv raw) d = Some i \<and>
        (memberships d' = memberships d \<and> oi_status i = InvitationStatus.PENDING \<and>
           invitations d' = put_row oi_id (i\<lparr>oi_status := InvitationStatus.EXPIRED,
             oi_delivery_generation := oi_delivery_generation i + 1\<rparr>) (invitations d) \<or>
         accepted_into i user new_member now d d')))"
proof (cases "invitation_by_hash (iv_sha256 iv raw) d")
  case None
  then show ?thesis by (simp add: d'_def accept_invitation_def)
next
  case (Some i)
  consider (closed) "oi_status i \<noteq> InvitationStatus.PENDING"
    | (expired) "oi_status i = InvitationStatus.PENDING" "is_expired (oi_expires_at i) now"
    | (mismatch) "oi_status i = InvitationStatus.PENDING" "\<not> is_expired (oi_expires_at i) now"
        "oi_normalized_email i \<noteq> u_normalized_email user"
    | (ok) "oi_status i = InvitationStatus.PENDING" "\<not> is_expired (oi_expires_at i) now"
        "oi_normalized_email i = u_normalized_email user" by blast
  then show ?thesis
  proof cases
    case ok
    then show ?thesis using Some
      by (auto simp: d'_def accept_invitation_def Let_def accepted_into_def write_invitation_def split: option.split)
  qed (use Some in \<open>auto simp: d'_def accept_invitation_def Let_def write_invitation_def\<close>)
qed

lemma accept_invitations:
  fixes iv raw user new_member now d
  defines "d' \<equiv> snd (accept_invitation iv raw user new_member now d)"
  shows "invitations d' = invitations d \<or>
    (\<exists>i \<in> set (invitations d). \<exists>i'. advanced i i' \<and> invitations d' = put_row oi_id i' (invitations d))"
proof -
  have "advanced i (i\<lparr>oi_status := InvitationStatus.EXPIRED, oi_delivery_generation := oi_delivery_generation i + 1\<rparr>)"
    and "advanced i (accepted_invitation i now)" if "oi_status i = InvitationStatus.PENDING" for i
    using that by (simp_all add: advanced_def same_invitation_def closed_def accepted_invitation_def)
  note adv = this
  from accept_effect [of iv raw user new_member now d] consider "d' = d"
    | i where "i \<in> set (invitations d)" "oi_status i = InvitationStatus.PENDING" "invitations d' = put_row oi_id (i\<lparr>oi_status := InvitationStatus.EXPIRED,
             oi_delivery_generation := oi_delivery_generation i + 1\<rparr>) (invitations d)"
    | i where "i \<in> set (invitations d)" "accepted_into i user new_member now d d'"
    unfolding d'_def using invitation_by_hash_Some by blast
  then show ?thesis
  proof cases
    case 1
    then show ?thesis by simp
  next
    case 2
    then show ?thesis using adv(1) by blast
  next
    case 3
    then show ?thesis using adv(2) unfolding accepted_into_def by blast
  qed
qed

section \<open>Deliveries under way\<close>

text \<open>
  A session with a mail under way holds the invitation as it was when its snapshot was taken.
\<close>

definition held_as_sent :: "HeldInvitation \<Rightarrow> DeliverySnapshot \<Rightarrow> bool" where
  "held_as_sent held snapshot =
     (oi_id (hi_copy held) = sn_invitation_id snapshot \<and>
      oi_delivery_generation (hi_copy held) = sn_generation snapshot \<and>
      oi_last_delivery_status (hi_copy held) = Some DELIVERY_SENDING \<and>
      oi_last_delivery_error_code (hi_copy held) = None)"

definition deliveries_held :: "db \<times> in_flight \<Rightarrow> bool" where
  "deliveries_held s =
     (keys_distinct oi_id (invitations (fst s)) \<and> (\<forall>(held, snapshot, actor) \<in> set (snd s). held_as_sent held snapshot))"

lemma held_same:
  "deliveries_held (d, fl) \<Longrightarrow> invitations d' = invitations d \<Longrightarrow> set fl' \<subseteq> set fl \<Longrightarrow> deliveries_held (d', fl')"
  by (auto simp: deliveries_held_def)

lemma held_put:
  assumes "deliveries_held (d, fl)" and "invitations d' = put_row oi_id i' (invitations d)" and "set fl' \<subseteq> set fl"
  shows "deliveries_held (d', fl')"
  using assms by (auto simp: deliveries_held_def)

lemma held_launch:
  assumes "deliveries_held (d, fl)" and "keys_distinct oi_id (invitations d')" and "oi_last_delivery_status i = Some DELIVERY_SENDING"
    and "oi_last_delivery_error_code i = None"
  shows "deliveries_held (d', fl @ [(\<lparr>hi_copy = i, hi_inserted = b\<rparr>, snapshot_of i d', actor)])"
  using assms by (auto simp: deliveries_held_def held_as_sent_def snapshot_of_def)

lemma session_frame [simp]:
  "invitations (snd (login sa email password draw now d)) = invitations d"
  "memberships (snd (login sa email password draw now d)) = memberships d"
  "organizations (snd (login sa email password draw now d)) = organizations d"
  "invitations (snd (refresh sa raw draw now d)) = invitations d"
  "memberships (snd (refresh sa raw draw now d)) = memberships d"
  "organizations (snd (refresh sa raw draw now d)) = organizations d"
  "users (snd (refresh sa raw draw now d)) = users d"
  "invitations (snd (logout sa token user_id now d)) = invitations d"
  "memberships (snd (logout sa token user_id now d)) = memberships d"
  "organizations (snd (logout sa token user_id now d)) = organizations d"
  "users (snd (logout sa token user_id now d)) = users d"
  "invitations (snd (change_password sa user current new now d)) = invitations d"
  "memberships (snd (change_password sa user current new now d)) = memberships d"
  "organizations (snd (change_password sa user current new now d)) = organizations d"
  "invitations (snd (register sa email password full_name organization_name rg now d)) = invitations d"
  by (simp_all add: login_def refresh_def logout_def change_password_def register_def write_session_def revoke_family_def
      Let_def split: option.split sum.split)

lemma organization_step_frame:
  "organization_step d d' \<Longrightarrow> users d' = users d \<and> invitations d' = invitations d"
  by (induction rule: organization_step.induct)
    (simp_all add: create_organization_def update_organization_def change_role_def change_status_def remove_member_def
      Let_def split: option.split sum.split)

lemma begin_sends:
  "begin_create iv org actor email role draw now d = return i d' \<Longrightarrow>
     oi_last_delivery_status i = Some DELIVERY_SENDING \<and> oi_last_delivery_error_code i = None"
  "begin_resend iv org iid actor raw now d = return i d' \<Longrightarrow>
     oi_last_delivery_status i = Some DELIVERY_SENDING \<and> oi_last_delivery_error_code i = None"
  by (auto simp: begin_create_def begin_resend_def Let_def split: sum.splits if_splits option.splits)

lemma tenant_step_held: "tenant_step sa iv s t \<Longrightarrow> deliveries_held s \<Longrightarrow> deliveries_held t"
proof (induction rule: tenant_step.induct)
  case (tenant_organization d d' fl)
  then show ?case using organization_step_frame held_same by blast
next
  case (tenant_invite org actor email role idraw now d i d' fl)
  then show ?case
    using begin_create_returns(1,2) begin_sends(1) by (intro held_launch) (auto simp: invitations_storable_def)
next
  case (tenant_resend org iid actor raw now d i d' fl)
  then show ?case
    using begin_resend_returns(2) begin_sends(2) by (intro held_launch) (auto simp: invitations_storable_def)
next
  case (tenant_resend_refused org iid actor raw now d e d' fl)
  from begin_resend_raises [OF this(1)] show ?case
    using held_put [OF tenant_resend_refused(2)] tenant_resend_refused(2) by (auto simp: write_invitation_def)
next
  case (tenant_record held snapshot actor fl d result now)
  have sub: "set (remove1 (held, snapshot, actor) fl) \<subseteq> set fl" by (rule set_remove1_subset)
  from record_effect [of held snapshot actor result now d] show ?case
    using held_same [OF tenant_record(2) _ sub] held_put [OF tenant_record(2) _ sub] by blast
next
  case (tenant_accept user d fl raw new_member now)
  then show ?case using accept_invitations [of iv raw user new_member now d] held_put held_same by blast
next
  case (tenant_cancel d fl org iid actor)
  then show ?case using cancel_invitation_effect [of org iid actor d] held_put by (metis order_refl)
qed (auto dest: begin_create_raises intro: held_same)

interpretation deliveries: transition_system "tenant_step sa iv" deliveries_held
  for sa iv by unfold_locales (rule tenant_step_held)

text \<open>Of a closed row only the evidence of its delivery is written again.\<close>

lemma closed_put:
  assumes "keys_distinct oi_id rows" and "i \<in> set rows" and "closed i" and "j \<in> set rows" and "oi_id j' = oi_id j" and "j \<noteq> i"
  shows "i \<in> set (put_row oi_id j' rows)"
proof -
  have "oi_id i \<noteq> oi_id j'"
    using assms unfolding keys_distinct_def distinct_map by (metis inj_onD)
  then show ?thesis by (rule in_put_row_other [OF assms(2)])
qed

lemma closed_advanced:
  assumes "deliveries_held (d, fl)" and "i \<in> set (invitations d)" and "closed i" and "j \<in> set (invitations d)" and "advanced j j'"
    and "invitations d' = put_row oi_id j' (invitations d)"
  shows "i \<in> set (invitations d')"
  unfolding assms(6) by (rule closed_put [OF _ assms(2,3,4)])
    (use assms(1,3,5) in \<open>auto simp: deliveries_held_def advanced_def same_invitation_def closed_def\<close>)

definition invitation_kept :: "OrganizationInvitation \<Rightarrow> OrganizationInvitation list \<Rightarrow> bool" where
  "invitation_kept i rows = (\<exists>j \<in> set rows. beyond_delivery j = beyond_delivery i)"

lemma invitation_kept_in: "i \<in> set rows \<Longrightarrow> invitation_kept i rows"
  by (auto simp: invitation_kept_def)

lemmas invitation_kept_advanced = invitation_kept_in [OF closed_advanced]

lemma invitation_kept_recorded:
  assumes "i \<in> set rows" and "j \<in> set rows" and "keys_distinct oi_id rows" and "beyond_delivery j' = beyond_delivery j"
  shows "invitation_kept i (put_row oi_id j' rows)"
proof (cases "oi_id i = oi_id j'")
  case True
  then have "i = j" using assms beyond_deliveryD(5) [OF assms(4)] unfolding keys_distinct_def distinct_map by (metis inj_onD)
  then show ?thesis using in_put_row_same [OF assms(1) True] assms(4) by (auto simp: invitation_kept_def)
qed (simp add: invitation_kept_in in_put_row_other assms(1))

lemma tenant_step_closed:
  "tenant_step sa iv s t \<Longrightarrow> deliveries_held s \<Longrightarrow> i \<in> set (invitations (fst s)) \<Longrightarrow> closed i \<Longrightarrow> invitation_kept i (invitations (fst t))"
proof (induction rule: tenant_step.induct)
  case (tenant_organization d d' fl)
  then show ?case using organization_step_frame invitation_kept_in by auto
next
  case (tenant_invite org actor email role idraw now d i d' fl)
  then show ?case using begin_create_returns(1) invitation_kept_in by fastforce
next
  case (tenant_resend org iid actor raw now d j' d' fl)
  from begin_resend_returns(1) [OF this(1)] show ?case
    using invitation_kept_advanced [OF tenant_resend(2)] tenant_resend(3,4) unfolding fst_conv by blast
next
  case (tenant_resend_refused org iid actor raw now d e d' fl)
  from begin_resend_raises [OF this(1)] consider "d' = d"
    | j j' where "j \<in> set (invitations d)" "advanced j j'" "invitations d' = put_row oi_id j' (invitations d)"
    by (auto simp: write_invitation_def)
  then show ?case
    using invitation_kept_advanced [OF tenant_resend_refused(2)] tenant_resend_refused(3,4) invitation_kept_in unfolding fst_conv by cases blast+
next
  case (tenant_record held snapshot actor fl d result now)
  from record_effect [of held snapshot actor result now d] show ?case
    using invitation_kept_recorded [of i "invitations d"] tenant_record(2,3) by (auto simp: deliveries_held_def invitation_kept_in)
next
  case (tenant_accept user d fl raw new_member now)
  then show ?case
    using accept_invitations [of iv raw user new_member now d] invitation_kept_advanced [OF tenant_accept(2)] invitation_kept_in
    unfolding fst_conv by metis
next
  case (tenant_cancel d fl org iid actor)
  then show ?case
    using cancel_invitation_effect [of org iid actor d] invitation_kept_advanced [OF tenant_cancel(1)] invitation_kept_in unfolding fst_conv by metis
qed (auto dest: begin_create_raises simp: invitation_kept_in)

lemma tenant_step_kept:
  assumes "tenant_step sa iv s t" and "deliveries_held s" and "invitation_kept i (invitations (fst s))" and "closed i"
  shows "invitation_kept i (invitations (fst t))"
proof -
  from assms(3) obtain j where j: "j \<in> set (invitations (fst s))" "beyond_delivery j = beyond_delivery i"
    by (auto simp: invitation_kept_def)
  then have "closed j" using assms(4) beyond_deliveryD(6) by blast
  from tenant_step_closed [OF assms(1,2) j(1) this] show ?thesis using j(2) by (simp add: invitation_kept_def)
qed

interpretation closed_invitations: transition_system "tenant_step sa iv"
    "\<lambda>s. deliveries_held s \<and> invitation_kept i (invitations (fst s)) \<and> closed i"
  for sa iv i by unfold_locales (auto dest: tenant_step_held tenant_step_kept)

section \<open>Members and their invitations\<close>

text \<open>
  The rows that matter for joining: accounts by identifier and address, memberships by
  organization and user. No pending invitation is addressed to someone who has a membership,
  whatever its status, in the same organization.
\<close>

definition account_keys :: "db \<Rightarrow> (uuid \<times> string) list" where
  "account_keys d = map (\<lambda>u. (u_id u, u_normalized_email u)) (users d)"

definition accounts_unique :: "(uuid \<times> string) list \<Rightarrow> bool" where
  "accounts_unique ks = (distinct (map fst ks) \<and> distinct (map snd ks))"

definition uninvited :: "(uuid \<times> string) list \<Rightarrow> OrganizationMembership list \<Rightarrow> OrganizationInvitation list \<Rightarrow> bool" where
  "uninvited ks ms rows =
     (\<forall>i \<in> set rows. \<forall>m \<in> set ms. oi_status i = InvitationStatus.PENDING \<and> oi_organization_id i = m_organization_id m \<longrightarrow>
        (m_user_id m, oi_normalized_email i) \<notin> set ks)"

definition tenant_ok :: "db \<Rightarrow> bool" where
  "tenant_ok d =
     (accounts_unique (account_keys d) \<and> keys_distinct m_id (memberships d) \<and>
      unique_on (\<lambda>m. True) (\<lambda>m. (m_organization_id m, m_user_id m)) (memberships d) \<and>
      keys_distinct oi_id (invitations d) \<and> invitation_unique (invitations d) \<and>
      m_organization_id ` set (memberships d) \<subseteq> o_id ` set (organizations d) \<and>
      oi_organization_id ` set (invitations d) \<subseteq> o_id ` set (organizations d) \<and>
      uninvited (account_keys d) (memberships d) (invitations d))"

lemma accounts_unique_users: "user_unique (users d) \<longleftrightarrow> accounts_unique (account_keys d)"
  by (simp add: user_unique_def accounts_unique_def account_keys_def keys_distinct_def unique_on_def comp_def)

lemma account_keys_put:
  assumes "keys_distinct u_id us" and "u \<in> set us" and "u_id u' = u_id u" and "u_normalized_email u' = u_normalized_email u"
  shows "map (\<lambda>u. (u_id u, u_normalized_email u)) (put_row u_id u' us) = map (\<lambda>u. (u_id u, u_normalized_email u)) us"
proof -
  have "v = u" if "v \<in> set us" "u_id v = u_id u" for v
    using assms(1,2) that unfolding keys_distinct_def distinct_map by (blast dest: inj_onD)
  then show ?thesis using assms(3,4) by (auto simp: put_row_def)
qed

text \<open>A membership row is rewritten with the same organization and user, or added.\<close>

lemma uninvited_put:
  assumes "uninvited ks ms rows" and "m \<in> set ms" and "m_organization_id m' = m_organization_id m" and "m_user_id m' = m_user_id m"
  shows "uninvited ks (put_row m_id m' ms) rows"
  unfolding uninvited_def
proof (intro ballI)
  fix i x
  assume i: "i \<in> set rows" and "x \<in> set (put_row m_id m' ms)"
  from set_put_row [OF this(2)]
  show "oi_status i = InvitationStatus.PENDING \<and> oi_organization_id i = m_organization_id x \<longrightarrow> (m_user_id x, oi_normalized_email i) \<notin> set ks"
    using assms i unfolding uninvited_def by metis
qed

lemma uninvited_rewrite:
  assumes "uninvited ks ms rows" and "i \<in> set rows" and "same_invitation i i'"
    and "oi_status i' = InvitationStatus.PENDING \<Longrightarrow> oi_status i = InvitationStatus.PENDING"
  shows "uninvited ks ms (put_row oi_id i' rows)"
  unfolding uninvited_def
proof (intro ballI)
  fix x m
  assume "x \<in> set (put_row oi_id i' rows)" and m: "m \<in> set ms"
  from set_put_row [OF this(1)]
  show "oi_status x = InvitationStatus.PENDING \<and> oi_organization_id x = m_organization_id m \<longrightarrow> (m_user_id m, oi_normalized_email x) \<notin> set ks"
    using assms m unfolding uninvited_def same_invitation_def by metis
qed

lemma invitation_unique_put:
  assumes "keys_distinct oi_id rows" and "i \<in> set rows" and "same_invitation i i'" and "oi_token_hash i' = oi_token_hash i"
    and "oi_status i' = InvitationStatus.PENDING \<Longrightarrow> oi_status i = InvitationStatus.PENDING" and "invitation_unique rows"
  shows "invitation_unique (put_row oi_id i' rows)"
proof -
  have row: "get_row oi_id (oi_id i') rows = Some i"
    using get_row_distinct [OF assms(1,2)] assms(3) by (simp add: same_invitation_def)
  have "unique_on (\<lambda>i. True) oi_token_hash (put_row oi_id i' rows)"
    by (rule unique_on_put_row [OF assms(1) row assms(4)]) (use assms(6) in \<open>simp_all add: invitation_unique_def\<close>)
  moreover have "unique_on (\<lambda>i. oi_status i = InvitationStatus.PENDING) (\<lambda>i. (oi_organization_id i, oi_normalized_email i)) (put_row oi_id i' rows)"
    by (rule unique_on_put_row [where p = "\<lambda>i. oi_status i = InvitationStatus.PENDING" and f = "\<lambda>i. (oi_organization_id i, oi_normalized_email i)", OF assms(1) row])
      (use assms(3,5,6) in \<open>simp_all add: invitation_unique_def same_invitation_def\<close>)
  ultimately show ?thesis by (simp add: invitation_unique_def)
qed

text \<open>Rewriting an invitation that stays or stops being pending.\<close>

lemma tenant_ok_invitation:
  assumes "tenant_ok d" and "i \<in> set (invitations d)" and "same_invitation i i'"
    and "oi_status i' = InvitationStatus.PENDING \<Longrightarrow> oi_status i = InvitationStatus.PENDING"
    and "invitations d' = put_row oi_id i' (invitations d)" and "invitation_unique (invitations d')"
    and "users d' = users d" and "memberships d' = memberships d" and "organizations d' = organizations d"
  shows "tenant_ok d'"
proof -
  note ok = assms(1) [unfolded tenant_ok_def]
  have "oi_organization_id ` set (invitations d') \<subseteq> o_id ` set (organizations d)"
    using ok assms(2,3) unfolding assms(5) by (fastforce dest!: set_put_row simp: same_invitation_def)
  moreover have "uninvited (account_keys d) (memberships d) (invitations d')"
    unfolding assms(5) by (rule uninvited_rewrite [OF _ assms(2,3,4)]) (use ok in blast)
  ultimately show ?thesis using ok assms(5-9) by (simp add: tenant_ok_def account_keys_def)
qed

lemma tenant_ok_closing:
  assumes "tenant_ok d" and "i \<in> set (invitations d)" and "same_invitation i i'" and "oi_token_hash i' = oi_token_hash i"
    and "oi_status i' = InvitationStatus.PENDING \<Longrightarrow> oi_status i = InvitationStatus.PENDING"
    and "invitations d' = put_row oi_id i' (invitations d)"
    and "users d' = users d" and "memberships d' = memberships d" and "organizations d' = organizations d"
  shows "tenant_ok d'"
  by (rule tenant_ok_invitation [OF assms(1,2,3,5,6) _ assms(7-9)], assumption,
      unfold assms(6), rule invitation_unique_put [OF _ assms(2,3,4,5)])
    (use assms(1) in \<open>simp_all add: tenant_ok_def\<close>)

definition member_rewritten :: "db \<Rightarrow> db \<Rightarrow> bool" where
  "member_rewritten d d' =
     (\<exists>m \<in> set (memberships d). \<exists>m'. m_status m \<noteq> MembershipStatus.REMOVED \<and> m_id m' = m_id m \<and>
        m_organization_id m' = m_organization_id m \<and> m_user_id m' = m_user_id m \<and>
        memberships d' = put_row m_id m' (memberships d) \<and> organizations d' = organizations d)"

definition organization_founded :: "db \<Rightarrow> db \<Rightarrow> bool" where
  "organization_founded d d' =
     (\<exists>org m. memberships d' = memberships d @ [m] \<and> organizations d' = organizations d @ [org] \<and>
        m_organization_id m = o_id org \<and> o_id org \<notin> o_id ` set (organizations d) \<and> m_id m \<notin> m_id ` set (memberships d))"

lemma managed_effect: "managed org mid actor d d' \<Longrightarrow> d' = d \<or> member_rewritten d d'"
  unfolding managed_def member_rewritten_def by (metis membership_by_id_Some)

lemma organization_step_effect:
  "organization_step d d' \<Longrightarrow> memberships d' = memberships d \<and> o_id ` set (organizations d') = o_id ` set (organizations d) \<or>
     member_rewritten d d' \<or> organization_founded d d'"
proof (induction rule: organization_step.induct)
  case (step_create new_org d new_member user name slug now)
  then show ?case
    by (auto simp: create_organization_def Let_def organization_founded_def split: if_splits option.splits)
next
  case (step_update d org actor nm slug)
  then show ?case using update_organization_frame [of org actor nm slug d] by (metis set_map)
next
  case (step_change_role d org mid actor role)
  then show ?case using managed_effect [OF change_role_managed] by metis
next
  case (step_change_status status d org mid actor)
  then show ?case using managed_effect [OF change_status_managed] by metis
next
  case (step_remove d org mid actor)
  then show ?case using managed_effect [OF remove_member_managed] by metis
qed

lemma tenant_ok_rewritten:
  assumes "tenant_ok d" and "member_rewritten d d'" and "users d' = users d" and "invitations d' = invitations d"
  shows "tenant_ok d'"
proof -
  note ok = assms(1) [unfolded tenant_ok_def]
  from assms(2) obtain m m' where m: "m \<in> set (memberships d)" "m_id m' = m_id m" "m_organization_id m' = m_organization_id m"
    "m_user_id m' = m_user_id m" "memberships d' = put_row m_id m' (memberships d)" "organizations d' = organizations d"
    unfolding member_rewritten_def by blast
  have k: "keys_distinct m_id (memberships d)" using ok by blast
  have "get_row m_id (m_id m') (memberships d) = Some m" using get_row_distinct [OF k m(1)] m(2) by simp
  then have "unique_on (\<lambda>m. True) (\<lambda>m. (m_organization_id m, m_user_id m)) (memberships d')"
    unfolding m(5) by (rule unique_on_put_row [OF k]) (use ok m in simp_all)
  moreover have "m_organization_id ` set (memberships d') \<subseteq> o_id ` set (organizations d)"
    using ok m(1,3) unfolding m(5) by (fastforce dest!: set_put_row)
  moreover have "uninvited (account_keys d) (memberships d') (invitations d)"
    unfolding m(5) by (rule uninvited_put [OF _ m(1,3,4)]) (use ok in blast)
  ultimately show ?thesis using ok assms(3,4) m(5,6) by (simp add: tenant_ok_def account_keys_def)
qed

text \<open>A new organization has neither members nor invitations.\<close>

lemma tenant_ok_founded:
  assumes "tenant_ok d" and "organization_founded d d'" and "account_keys d' = account_keys d" and "invitations d' = invitations d"
  shows "tenant_ok d'"
proof -
  note ok = assms(1) [unfolded tenant_ok_def]
  from assms(2) obtain org m where m: "memberships d' = memberships d @ [m]" "organizations d' = organizations d @ [org]"
    "m_organization_id m = o_id org" "o_id org \<notin> o_id ` set (organizations d)" "m_id m \<notin> m_id ` set (memberships d)"
    unfolding organization_founded_def by blast
  have "m_organization_id x \<noteq> m_organization_id m" if "x \<in> set (memberships d)" for x
    using ok m(3,4) that by (metis image_eqI subsetD)
  then have "unique_on (\<lambda>m. True) (\<lambda>m. (m_organization_id m, m_user_id m)) (memberships d')"
    using ok unfolding m(1) by (simp add: unique_on_snoc)
  moreover have "oi_organization_id i \<noteq> m_organization_id m" if "i \<in> set (invitations d)" for i
    using ok m(3,4) that by (metis image_eqI subsetD)
  then have "uninvited (account_keys d) (memberships d') (invitations d)"
    using ok unfolding m(1) by (auto simp: uninvited_def)
  moreover have "keys_distinct m_id (memberships d')" using ok m(5) by (simp add: m(1) keys_distinct_def)
  ultimately show ?thesis using ok m assms(3,4) by (auto simp: tenant_ok_def)
qed

lemma tenant_ok_new_account:
  assumes "tenant_ok d" and "account_keys d' = account_keys d @ [(uid, email)]" and "accounts_unique (account_keys d')"
    and "uid \<notin> m_user_id ` set (memberships d)" and "memberships d' = memberships d" and "organizations d' = organizations d"
    and "invitations d' = invitations d"
  shows "tenant_ok d'"
  using assms unfolding tenant_ok_def uninvited_def by auto

lemma register_effect:
  fixes sa email password full_name organization_name rg now d
  defines "d' \<equiv> snd (register sa email password full_name organization_name rg now d)"
  assumes "rg_organization rg \<notin> o_id ` set (organizations d)" and "rg_member rg \<notin> m_id ` set (memberships d)"
  shows "d' = d \<or>
    (\<exists>d1. account_keys d1 = account_keys d @ [(rg_user rg, normalize_email email)] \<and> accounts_unique (account_keys d1) \<and>
       memberships d1 = memberships d \<and> organizations d1 = organizations d \<and> invitations d1 = invitations d \<and>
       (d' = d1 \<or> account_keys d' = account_keys d1 \<and> invitations d' = invitations d \<and> organization_founded d1 d'))"
proof (cases "d' = d")
  case False
  define user where "user = \<lparr>u_id = rg_user rg, u_email = strip email, u_normalized_email = normalize_email email,
    u_password_hash = sa_hash sa password, u_full_name = full_name, u_status = UserStatus.ACTIVE,
    u_is_platform_admin = False, u_email_verified_at = None, u_last_login_at = None\<rparr>"
  define d1 where "d1 = record_audit ''user.registered'' ''user'' AuditResult.SUCCEEDED None (Some (rg_user rg))
    (Some (rg_user rg)) (d\<lparr>users := users d @ [user]\<rparr>)"
  have "user_unique (users d1)"
    using False by (auto simp: d'_def register_def Let_def user_def d1_def split: sum.splits if_splits)
  then have "accounts_unique (account_keys d1)" by (simp add: accounts_unique_users)
  moreover have "account_keys d1 = account_keys d @ [(rg_user rg, normalize_email email)]"
    by (simp add: account_keys_def d1_def user_def)
  moreover have "d' = d1 \<or> account_keys d' = account_keys d1 \<and> invitations d' = invitations d \<and> organization_founded d1 d'"
    using False assms(2,3)
    by (auto simp: d'_def register_def Let_def user_def d1_def account_keys_def organization_founded_def
        split: sum.splits if_splits option.splits)
  moreover have "memberships d1 = memberships d \<and> organizations d1 = organizations d \<and> invitations d1 = invitations d"
    by (simp add: d1_def)
  ultimately show ?thesis by blast
qed simp

lemma user_by_email_None: "user_by_email e d = None \<longleftrightarrow> e \<notin> snd ` set (account_keys d)"
  by (force simp: user_by_email_def find_None_iff account_keys_def)

lemma account_of_email:
  assumes "accounts_unique ks" and "(x, e) \<in> set ks" and "(y, e) \<in> set ks"
  shows "x = y"
  using assms unfolding accounts_unique_def distinct_map inj_on_def by fastforce

lemma email_of_account:
  assumes "accounts_unique ks" and "(x, e) \<in> set ks" and "(x, e') \<in> set ks"
  shows "e = e'"
  using assms unfolding accounts_unique_def distinct_map inj_on_def by fastforce

lemma account_in: "u \<in> set (users d) \<Longrightarrow> (u_id u, u_normalized_email u) \<in> set (account_keys d)"
  by (auto simp: account_keys_def)

lemma tenant_ok_invite:
  assumes "tenant_ok d" and "begin_create iv org actor email role idraw now d = return i d'"
  shows "tenant_ok d'"
proof -
  note ok = assms(1) [unfolded tenant_ok_def]
  note c = begin_create_returns [OF assms(2)]
  obtain am where "require_capability org actor INVITATIONS_MANAGE d = Inr am" using c(10) by blast
  from org_auth.authorize_sound [OF this] have "am \<in> set (memberships d)" "m_organization_id am = org" by blast+
  then have org: "org \<in> o_id ` set (organizations d)" using ok by blast
  have "(m_user_id m, normalize_email email) \<notin> set (account_keys d)" if "m \<in> set (memberships d)" "m_organization_id m = org" for m
  proof
    assume a: "(m_user_id m, normalize_email email) \<in> set (account_keys d)"
    then obtain u where u: "user_by_email (normalize_email email) d = Some u"
      using user_by_email_None [of "normalize_email email" d] by (cases "user_by_email (normalize_email email) d") force+
    note e = user_by_email_Some [OF u]
    have "(u_id u, u_normalized_email u) \<in> set (account_keys d)" by (rule account_in) (use e in simp)
    then have "(u_id u, normalize_email email) \<in> set (account_keys d)" using e by simp
    then have "u_id u = m_user_id m" using account_of_email [of "account_keys d"] a ok by metis
    then show False using c(11) [OF u] that by (auto simp: membership_None)
  qed
  then have "uninvited (account_keys d) (memberships d) (invitations d')"
    using ok c(5,6) unfolding c(1) by (auto simp: uninvited_def)
  then show ?thesis using ok org c by (simp add: tenant_ok_def account_keys_def invitations_storable_def)
qed

text \<open>The branch of \<^verbatim>\<open>accept\<close> that reactivates a removed membership is never taken.\<close>

lemma accept_joins:
  assumes "tenant_ok d" and "user \<in> set (users d)" and "i \<in> set (invitations d)" and "accepted_into i user new_member now d d'"
  shows "membership (oi_organization_id i) (u_id user) d = None"
    and "memberships d' = memberships d @ [member_of i (u_id user) new_member now]" and "keys_distinct m_id (memberships d')"
proof -
  note a = assms(4) [unfolded accepted_into_def]
  have "membership (oi_organization_id i) (u_id user) d \<noteq> Some m" for m
  proof
    assume "membership (oi_organization_id i) (u_id user) d = Some m"
    from membership_Some [OF this] have "m \<in> set (memberships d)" "m_organization_id m = oi_organization_id i" "m_user_id m = u_id user"
      by blast+
    moreover have "(u_id user, oi_normalized_email i) \<in> set (account_keys d)" using account_in [OF assms(2)] a by simp
    moreover have "uninvited (account_keys d) (memberships d) (invitations d)" using assms(1) by (simp add: tenant_ok_def)
    ultimately show False using assms(3) a unfolding uninvited_def by metis
  qed
  then show none: "membership (oi_organization_id i) (u_id user) d = None" by (cases "membership (oi_organization_id i) (u_id user) d") auto
  from a none show "memberships d' = memberships d @ [member_of i (u_id user) new_member now]" and "keys_distinct m_id (memberships d')"
    by (simp, metis option.distinct(1))
qed

lemma tenant_ok_accepted:
  assumes "tenant_ok d" and "user \<in> set (users d)" and "i \<in> set (invitations d)" and "accepted_into i user new_member now d d'"
    and "users d' = users d" and "organizations d' = organizations d"
  shows "tenant_ok d'"
proof -
  note ok = assms(1) [unfolded tenant_ok_def]
  note j = accept_joins [OF assms(1-4)]
  let ?i' = "accepted_invitation i now"
  have inv: "invitations d' = put_row oi_id ?i' (invitations d)" and pend: "oi_status i = InvitationStatus.PENDING"
    and email: "oi_normalized_email i = u_normalized_email user" using assms(4) unfolding accepted_into_def by blast+
  have same: "same_invitation i ?i'" by (simp add: same_invitation_def accepted_invitation_def)
  have "tenant_ok (d\<lparr>invitations := invitations d'\<rparr>)"
    by (rule tenant_ok_closing [OF assms(1,3) same]) (simp_all add: accepted_invitation_def inv)
  note ok' = this [unfolded tenant_ok_def]
  have ks: "account_keys d' = account_keys d" "account_keys (d\<lparr>invitations := invitations d'\<rparr>) = account_keys d"
    using assms(5) by (simp_all add: account_keys_def)
  have "(u_id user, oi_normalized_email x) \<notin> set (account_keys d)"
    if "x \<in> set (invitations d')" "oi_status x = InvitationStatus.PENDING" "oi_organization_id x = oi_organization_id i" for x
  proof
    assume "(u_id user, oi_normalized_email x) \<in> set (account_keys d)"
    moreover have "(u_id user, oi_normalized_email i) \<in> set (account_keys d)" using account_in [OF assms(2)] email by simp
    moreover have "accounts_unique (account_keys d)" using ok by simp
    ultimately have "oi_normalized_email x = oi_normalized_email i" using email_of_account by metis
    moreover from set_put_row [OF that(1) [unfolded inv]] that(2) have x: "x \<in> set (invitations d)" "oi_id x \<noteq> oi_id i"
      by (auto simp: accepted_invitation_def)
    moreover have "unique_on (\<lambda>i. oi_status i = InvitationStatus.PENDING) (\<lambda>i. (oi_organization_id i, oi_normalized_email i)) (invitations d)"
      using ok by (simp add: invitation_unique_def)
    note unique_onD [OF this x(1) assms(3) that(2) pend]
    ultimately have "x = i" using that(3) by simp
    with x(2) show False by simp
  qed
  moreover have "uninvited (account_keys d) (memberships d) (invitations d')" using ok' by (simp add: ks)
  ultimately have "uninvited (account_keys d) (memberships d') (invitations d')"
    unfolding j(2) by (auto simp: uninvited_def member_of_def)
  moreover have "unique_on (\<lambda>m. True) (\<lambda>m. (m_organization_id m, m_user_id m)) (memberships d')"
    using ok j(1) unfolding j(2) by (auto simp: unique_on_snoc member_of_def membership_None)
  moreover have "oi_organization_id i \<in> o_id ` set (organizations d)" using ok assms(3) by blast
  then have "m_organization_id ` set (memberships d') \<subseteq> o_id ` set (organizations d')"
    using ok assms(6) unfolding j(2) by (simp add: member_of_def)
  ultimately show ?thesis using ok' j(3) assms(6) ks by (simp add: tenant_ok_def)
qed


lemma login_accounts: "tenant_ok d \<Longrightarrow> account_keys (snd (login sa email password draw now d)) = account_keys d"
proof -
  assume "tenant_ok d"
  then have k: "keys_distinct u_id (users d)"
    by (simp add: tenant_ok_def accounts_unique_def account_keys_def keys_distinct_def comp_def)
  show ?thesis
  proof (cases "user_by_email (normalize_email email) d")
    case None
    then show ?thesis by (simp add: login_def account_keys_def)
  next
    case (Some u)
    then have "u \<in> set (users d)" by (simp add: user_by_email_Some)
    from account_keys_put [OF k this, of "u\<lparr>u_last_login_at := Some now\<rparr>"]
    show ?thesis using Some by (simp add: login_def Let_def account_keys_def)
  qed
qed

lemma password_accounts:
  assumes "tenant_ok d" and "user \<in> set (users d)"
  shows "account_keys (snd (change_password sa user current new now d)) = account_keys d"
proof -
  from assms(1) have k: "keys_distinct u_id (users d)"
    by (simp add: tenant_ok_def accounts_unique_def account_keys_def keys_distinct_def comp_def)
  from account_keys_put [OF k assms(2), of "user\<lparr>u_password_hash := sa_hash sa new\<rparr>"] show ?thesis
    by (simp add: change_password_def account_keys_def split: sum.split)
qed

lemma tenant_ok_cong:
  "tenant_ok d \<Longrightarrow> account_keys d' = account_keys d \<Longrightarrow> memberships d' = memberships d \<Longrightarrow> invitations d' = invitations d \<Longrightarrow>
   o_id ` set (organizations d') = o_id ` set (organizations d) \<Longrightarrow> tenant_ok d'"
  by (simp add: tenant_ok_def)

lemma login_tenant_ok: "tenant_ok d \<Longrightarrow> tenant_ok (snd (login sa email password draw now d))"
  by (rule tenant_ok_cong [of d]) (simp_all add: login_accounts)

lemma password_tenant_ok:
  "tenant_ok d \<Longrightarrow> user \<in> set (users d) \<Longrightarrow> tenant_ok (snd (change_password sa user current new now d))"
  by (rule tenant_ok_cong [of d]) (simp_all add: password_accounts)

lemma accept_cases:
  assumes "user \<in> set (users d)"
  obtains (same) "snd (accept_invitation iv raw user new_member now d) = d"
    | (expired) i where "i \<in> set (invitations d)" "memberships (snd (accept_invitation iv raw user new_member now d)) = memberships d"
        "invitations (snd (accept_invitation iv raw user new_member now d)) = put_row oi_id (i\<lparr>oi_status := InvitationStatus.EXPIRED,
             oi_delivery_generation := oi_delivery_generation i + 1\<rparr>) (invitations d)"
    | (accepted) i where "i \<in> set (invitations d)" "accepted_into i user new_member now d (snd (accept_invitation iv raw user new_member now d))"
  using accept_effect [of iv raw user new_member now d] invitation_by_hash_Some by blast

lemma tenant_step_ok: "tenant_step sa iv s t \<Longrightarrow> tenant_ok (fst s) \<Longrightarrow> tenant_ok (fst t)"
proof (induction rule: tenant_step.induct)
  case (tenant_organization d d' fl)
  note f = organization_step_frame [OF this(1)]
  then have "account_keys d' = account_keys d" by (simp add: account_keys_def)
  then show ?case using organization_step_effect [OF tenant_organization(1)] f tenant_organization(2)
    by (auto intro: tenant_ok_cong tenant_ok_rewritten tenant_ok_founded)
next
  case (tenant_register rg d fl email password full_name organization_name now)
  note ok = tenant_register(4) [unfolded fst_conv]
  from register_effect [OF tenant_register(2,3)] show ?case unfolding fst_conv
    using ok tenant_ok_new_account [OF ok _ _ tenant_register(1)] tenant_ok_founded by metis
next
  case (tenant_invite org actor email role idraw now d i d' fl)
  then show ?case using tenant_ok_invite by auto
next
  case (tenant_resend org iid actor raw now d i d' fl)
  note r = begin_resend_returns [OF tenant_resend(1)]
  from r(1) obtain j where j: "j \<in> set (invitations d)" "advanced j i" "oi_status i = InvitationStatus.PENDING"
    "invitations d' = put_row oi_id i (invitations d)" by blast
  show ?case unfolding fst_conv
    by (rule tenant_ok_invitation [of d j i]) (use j r tenant_resend(2) in \<open>auto simp: advanced_def invitations_storable_def\<close>)
next
  case (tenant_resend_refused org iid actor raw now d e d' fl)
  from begin_resend_raises [OF this(1)] show ?case using tenant_resend_refused(2)
    by (auto simp: write_invitation_def advanced_def intro: tenant_ok_closing)
next
  case (tenant_record held snapshot actor fl d result now)
  let ?d = "fst (record_delivery held snapshot actor result now d)"
  from record_effect [of held snapshot actor result now d] consider "invitations ?d = invitations d"
    | i i' where "i \<in> set (invitations d)" "beyond_delivery i' = beyond_delivery i"
        "invitations ?d = put_row oi_id i' (invitations d)" by blast
  then have "tenant_ok ?d"
  proof cases
    case 1
    show ?thesis by (rule tenant_ok_cong [of d]) (use 1 tenant_record(2) in \<open>simp_all add: record_frame account_keys_def\<close>)
  next
    case (2 i i')
    note same = beyond_deliveryD [OF 2(2)]
    show ?thesis by (rule tenant_ok_closing [of d i i']) (use 2 same tenant_record(2) in \<open>simp_all add: record_frame\<close>)
  qed
  then show ?case by simp
next
  case (tenant_accept user d fl raw new_member now)
  have f: "users (snd (accept_invitation iv raw user new_member now d)) = users d"
    "organizations (snd (accept_invitation iv raw user new_member now d)) = organizations d"
    using accept_effect [of iv raw user new_member now d] by blast+
  from tenant_accept(1) have "tenant_ok (snd (accept_invitation iv raw user new_member now d))"
  proof (cases rule: accept_cases [of _ _ iv raw new_member now])
    case same
    then show ?thesis using tenant_accept(2) by simp
  next
    case (expired i)
    show ?thesis by (rule tenant_ok_closing [of d i]) (use expired f tenant_accept(2) in \<open>auto simp: same_invitation_def\<close>)
  next
    case (accepted i)
    show ?thesis by (rule tenant_ok_accepted [OF _ tenant_accept(1) accepted f]) (use tenant_accept(2) in simp)
  qed
  then show ?case by simp
next
  case (tenant_cancel d fl org iid actor)
  let ?d = "snd (cancel_invitation org iid actor d)"
  from cancel_invitation_effect [of org iid actor d] consider "?d = d"
    | i i' where "i \<in> set (invitations d)" "advanced i i'" "oi_token_hash i' = oi_token_hash i"
        "invitations ?d = put_row oi_id i' (invitations d)" "users ?d = users d" "memberships ?d = memberships d"
        "organizations ?d = organizations d" by blast
  then have "tenant_ok ?d"
  proof cases
    case 1
    then show ?thesis using tenant_cancel by simp
  next
    case (2 i i')
    show ?thesis by (rule tenant_ok_closing [of d i i']) (use 2 tenant_cancel in \<open>simp_all add: advanced_def\<close>)
  qed
  then show ?case by simp
qed (auto simp: account_keys_def login_tenant_ok password_tenant_ok dest: begin_create_raises intro: tenant_ok_cong)


interpretation tenants: transition_system "tenant_step sa iv" "\<lambda>s. tenant_ok (fst s)"
  for sa iv by unfold_locales (rule tenant_step_ok)

text \<open>A removed membership stays exactly as it is.\<close>

lemma removed_rewritten:
  assumes "tenant_ok d" and "m \<in> set (memberships d)" and "m_status m = MembershipStatus.REMOVED" and "member_rewritten d d'"
  shows "m \<in> set (memberships d')"
proof -
  from assms(4) obtain x x' where x: "x \<in> set (memberships d)" "m_status x \<noteq> MembershipStatus.REMOVED" "m_id x' = m_id x"
    "memberships d' = put_row m_id x' (memberships d)" unfolding member_rewritten_def by blast
  have "inj_on m_id (set (memberships d))"
    using assms(1) by (simp add: tenant_ok_def keys_distinct_def distinct_map)
  then have "m_id m \<noteq> m_id x'" using x(1-3) assms(2,3) by (metis inj_on_eq_iff)
  then show ?thesis unfolding x(4) by (rule in_put_row_other [OF assms(2)])
qed

lemma tenant_step_removed:
  "tenant_step sa iv s t \<Longrightarrow> tenant_ok (fst s) \<Longrightarrow> m \<in> set (memberships (fst s)) \<Longrightarrow> m_status m = MembershipStatus.REMOVED \<Longrightarrow>
   m \<in> set (memberships (fst t))"
proof (induction rule: tenant_step.induct)
  case (tenant_organization d d' fl)
  then show ?case using organization_step_effect [OF tenant_organization(1)] removed_rewritten [of d m d']
    by (auto simp: organization_founded_def)
next
  case (tenant_register rg d fl email password full_name organization_name now)
  then show ?case using register_effect [OF tenant_register(2,3), of sa email password full_name organization_name now]
    by (auto simp: organization_founded_def)
next
  case (tenant_accept user d fl raw new_member now)
  from tenant_accept(1) have "m \<in> set (memberships (snd (accept_invitation iv raw user new_member now d)))"
  proof (cases rule: accept_cases [of _ _ iv raw new_member now])
    case (accepted i)
    have "tenant_ok d" using tenant_accept(2) by simp
    from accept_joins(2) [OF this tenant_accept(1) accepted] show ?thesis using tenant_accept(3) by simp
  qed (use tenant_accept(3) in simp_all)
  then show ?case by simp
next
  case (tenant_resend_refused org iid actor raw now d e d' fl)
  then show ?case using begin_resend_raises [OF tenant_resend_refused(1)] by (auto simp: write_invitation_def)
next
  case (tenant_cancel d fl org iid actor)
  then show ?case using cancel_invitation_effect [of org iid actor d] by auto
qed (auto simp: begin_create_returns(8) begin_resend_returns(4) record_frame dest: begin_create_raises)

interpretation removed_members: transition_system "tenant_step sa iv"
    "\<lambda>s. tenant_ok (fst s) \<and> m \<in> set (memberships (fst s)) \<and> m_status m = MembershipStatus.REMOVED"
  for sa iv m by unfold_locales (auto dest: tenant_step_ok tenant_step_removed)

lemma removed_no_membership:
  assumes "tenant_ok d" and "m \<in> set (memberships d)" and "m_status m = MembershipStatus.REMOVED"
  shows "active_membership (m_organization_id m) (m_user_id m) d = None"
    and "membership (m_organization_id m) (m_user_id m) d = Some m"
proof -
  have "unique_on (\<lambda>m. True) (\<lambda>m. (m_organization_id m, m_user_id m)) (memberships d)" using assms(1) by (simp add: tenant_ok_def)
  from unique_onD [OF this _ assms(2)]
  have unique: "x = m" if "x \<in> set (memberships d)" "m_organization_id x = m_organization_id m" "m_user_id x = m_user_id m" for x
    using that by simp
  have "m_status x \<noteq> MembershipStatus.ACTIVE"
    if "x \<in> set (memberships d)" "m_organization_id x = m_organization_id m" "m_user_id x = m_user_id m" for x
    using unique [OF that] assms(3) by simp
  then show "active_membership (m_organization_id m) (m_user_id m) d = None"
    by (auto simp: active_membership_def find_None_iff)
  show "membership (m_organization_id m) (m_user_id m) d = Some m"
  proof (cases "membership (m_organization_id m) (m_user_id m) d")
    case None
    then show ?thesis using assms(2) by (auto simp: membership_None)
  next
    case (Some x)
    then show ?thesis using unique membership_Some [OF Some] by simp
  qed
qed


section \<open>Properties\<close>

text \<open>
  C33. A closed invitation is final: once an invitation was accepted or cancelled, no request and
  no delivery result that arrives later changes its status, its role, its token, its generation,
  its addressee or any other column of its row than the three that record the delivery.
\<close>

theorem closed_invitation_is_final:
  assumes "keys_distinct oi_id (invitations d0)" and "(tenant_step sa iv)\<^sup>*\<^sup>* (d0, []) (d, fl)"
    and "i \<in> set (invitations d)" and "oi_status i \<in> {InvitationStatus.ACCEPTED, InvitationStatus.CANCELLED}"
    and "(tenant_step sa iv)\<^sup>*\<^sup>* (d, fl) (d', fl')"
  shows "\<exists>status code at. i\<lparr>oi_last_delivery_status := status, oi_last_delivery_error_code := code,
      oi_last_delivered_at := at\<rparr> \<in> set (invitations d')"
proof -
  have "deliveries_held (d0, [])" using assms(1) by (simp add: deliveries_held_def)
  from deliveries.inv_reachable [OF assms(2) this] have "deliveries_held (d, fl)" .
  then have "invitation_kept i (invitations d')"
    using closed_invitations.inv_reachable [OF assms(5), of i] assms(3,4) by (simp add: closed_def invitation_kept_in)
  then show ?thesis using beyond_deliveryD(7) unfolding invitation_kept_def by metis
qed

text \<open>
  C13. The fence of late delivery results does not work: \<^verbatim>\<open>_send_and_record\<close> means to discard
  the result of a mail when the invitation was accepted, cancelled, expired or sent again
  meanwhile, but compares the generation of its snapshot with that of the object its own
  session holds, which are equal in every reachable state. Whatever became of the row, the result
  is written into it: as delivered, with its time, after a success, and as failed, with the
  error code, otherwise; the result is audited as recorded, never as discarded.
\<close>

theorem late_result_overwrites_closed:
  assumes "keys_distinct oi_id (invitations d0)" and "(tenant_step sa iv)\<^sup>*\<^sup>* (d0, []) (d, fl)"
    and "(held, snapshot, actor) \<in> set fl"
    and "invitation_for_update None (sn_organization_id snapshot) (sn_invitation_id snapshot) d = Some i"
  shows "\<exists>i'. record_delivery held snapshot actor result now d =
      (record_audit (if nr_outcome result = SUCCESS then ''invitation.delivery_succeeded'' else ''invitation.delivery_failed'')
         ''invitation'' (if nr_outcome result = SUCCESS then AuditResult.SUCCEEDED else AuditResult.FAILED)
         (Some (sn_organization_id snapshot)) (Some actor) (Some (sn_invitation_id snapshot)) (write_invitation i' d),
       Some i') \<and>
    beyond_delivery i' = beyond_delivery i \<and>
    oi_last_delivery_status i' = Some (if nr_outcome result = SUCCESS then DELIVERY_DELIVERED else DELIVERY_FAILED) \<and>
    (if nr_outcome result = SUCCESS then oi_last_delivered_at (hi_copy held) = Some now \<or> oi_last_delivered_at i' = Some now
     else nr_error_code result = None \<or> oi_last_delivery_error_code i' = nr_error_code result)"
proof -
  let ?l = "identity_mapped (Some held) i" and ?org = "sn_organization_id snapshot" and ?iid = "sn_invitation_id snapshot"
  let ?i' = "flush_delivery ?l (with_result result now ?l) i"
  have "deliveries_held (d0, [])" using assms(1) by (simp add: deliveries_held_def)
  from deliveries.inv_reachable [OF assms(2) this] have k: "keys_distinct oi_id (invitations d)" and h: "held_as_sent held snapshot"
    using assms(3) by (auto simp: deliveries_held_def)
  note i = invitation_for_update_Some [OF assms(4)]
  have loaded: "invitation_for_update (Some held) ?org ?iid d = Some ?l"
    using assms(4) by (auto simp: invitation_for_update_def identity_mapped_def)
  have l: "oi_id ?l = ?iid" "oi_delivery_generation ?l = sn_generation snapshot"
    using h by (simp_all add: held_as_sent_def identity_mapped_def)
  have row: "get_row oi_id ?iid (invitations d) = Some i" using get_row_distinct [OF k] i by metis
  then have flush: "flush_invitation ?l (with_result result now ?l) d = write_invitation ?i' d"
    by (simp add: flush_invitation_def l)
  have "oi_id ?i' = ?iid" using i by (simp add: flush_delivery_def)
  then have "get_row oi_id ?iid (put_row oi_id ?i' (invitations d)) = Some ?i'"
    using get_put_row_same [of oi_id ?i' "invitations d"] row by simp
  then have "record_delivery held snapshot actor result now d =
      (record_audit (if nr_outcome result = SUCCESS then ''invitation.delivery_succeeded'' else ''invitation.delivery_failed'')
         ''invitation'' (if nr_outcome result = SUCCESS then AuditResult.SUCCEEDED else AuditResult.FAILED)
         (Some ?org) (Some actor) (Some ?iid) (write_invitation ?i' d), Some ?i')"
    by (simp add: record_delivery_def loaded l flush Let_def) (simp add: write_invitation_def)
  moreover have "oi_last_delivery_status ?i' = Some (if nr_outcome result = SUCCESS then DELIVERY_DELIVERED else DELIVERY_FAILED)"
    using h by (simp add: held_as_sent_def identity_mapped_def flush_delivery_def flush_column_def with_result_def Let_def
        DELIVERY_SENDING_def DELIVERY_DELIVERED_def DELIVERY_FAILED_def)
  moreover have "if nr_outcome result = SUCCESS then oi_last_delivered_at (hi_copy held) = Some now \<or> oi_last_delivered_at ?i' = Some now
     else nr_error_code result = None \<or> oi_last_delivery_error_code ?i' = nr_error_code result"
    using h by (auto simp: held_as_sent_def identity_mapped_def flush_delivery_def flush_column_def with_result_def Let_def)
  ultimately show ?thesis by (intro exI [of _ ?i']) simp
qed

text \<open>
  C34. A member who was removed never returns: in every later state the membership is the same
  removed row, every operation that requires a membership answers not found, and each attempt of
  an authorized member to invite the user is refused with \<^verbatim>\<open>already_member\<close>. The branch of
  \<^verbatim>\<open>accept\<close> that would reactivate the row is unreachable.
\<close>

theorem removed_member_never_returns:
  assumes "tenant_ok d" and "(tenant_step sa iv)\<^sup>*\<^sup>* (d, fl) (d', fl')" and "m \<in> set (memberships d)"
    and "m_status m = MembershipStatus.REMOVED" and "user \<in> set (users d')" and "u_id user = m_user_id m"
  shows "m \<in> set (memberships d') \<and>
    require_member (m_organization_id m) (m_user_id m) d' = Inl (NotFoundError ''organization_not_found'') \<and>
    (\<forall>am. require_capability (m_organization_id m) actor INVITATIONS_MANAGE d' = Inr am \<and> can_assign_role (m_role am) role \<and>
       normalize_email email = u_normalized_email user \<longrightarrow>
       begin_create iv (m_organization_id m) actor email role draw now d' = raise (ConflictError ''already_member'') d')"
proof -
  from removed_members.inv_reachable [OF assms(2), of m] assms(1,3,4)
  have ok: "tenant_ok d'" and m: "m \<in> set (memberships d')" by simp_all
  note gone = removed_no_membership [OF ok m assms(4)]
  have found: "\<exists>u. user_by_email (u_normalized_email user) d' = Some u \<and> u_id u = m_user_id m"
  proof (cases "user_by_email (u_normalized_email user) d'")
    case None
    then show ?thesis using account_in [OF assms(5)] user_by_email_None [of "u_normalized_email user" d'] by force
  next
    case (Some u)
    note u = user_by_email_Some [OF Some]
    have "accounts_unique (account_keys d')" using ok by (simp add: tenant_ok_def)
    moreover have "(u_id u, u_normalized_email user) \<in> set (account_keys d')" using u account_in [of u d'] by simp
    ultimately have "u_id u = u_id user" using account_in [OF assms(5)] account_of_email by metis
    then show ?thesis using Some assms(6) by simp
  qed
  show ?thesis
    using m gone found by (auto simp: require_member_def begin_create_def Let_def)
qed

text \<open>
  What a token is worth: an accept that makes a user a member does so for the addressee of a
  pending, unexpired invitation whose stored hash is that of the token, adds exactly the
  membership the invitation names, and spends the token: no later use of it, by anyone, changes
  anything.
\<close>

theorem token_is_spent:
  assumes "tenant_ok d" and "deliveries_held (d, fl)" and "user \<in> set (users d)"
    and "accept_invitation iv raw user new_member now d = return m d'"
    and "membership (m_organization_id m) (u_id user) d = None"
  shows "(\<exists>i \<in> set (invitations d). oi_token_hash i = iv_sha256 iv raw \<and> oi_status i = InvitationStatus.PENDING \<and>
      now < oi_expires_at i \<and> oi_normalized_email i = u_normalized_email user \<and>
      m = member_of i (u_id user) new_member now \<and> memberships d' = memberships d @ [m]) \<and>
    (\<forall>d2 fl2 user' new_member' now'. (tenant_step sa iv)\<^sup>*\<^sup>* (d', fl) (d2, fl2) \<longrightarrow>
       snd (accept_invitation iv raw user' new_member' now' d2) = d2)"
proof -
  obtain i where i: "invitation_by_hash (iv_sha256 iv raw) d = Some i"
    using assms(4) by (cases "invitation_by_hash (iv_sha256 iv raw) d") (simp_all add: accept_invitation_def)
  note h = invitation_by_hash_Some [OF i]
  have open_i: "oi_status i = InvitationStatus.PENDING \<and> \<not> is_expired (oi_expires_at i) now \<and>
      oi_normalized_email i = u_normalized_email user \<and> m_organization_id m = oi_organization_id i"
    using assms(4,5) i
    by (auto simp: accept_invitation_def Let_def member_of_def dest!: membership_Some split: if_splits option.splits)
      (use membership_None in fastforce)+
  then have m: "m = member_of i (u_id user) new_member now" "memberships d' = memberships d @ [m]"
    and inv: "invitations d' = put_row oi_id (accepted_invitation i now) (invitations d)"
    using assms(4,5) i by (auto simp: accept_invitation_def Let_def write_invitation_def split: if_splits)
  let ?i' = "accepted_invitation i now"
  have i': "?i' \<in> set (invitations d')" unfolding inv
    by (rule in_put_row_same [of i]) (use h in \<open>simp_all add: accepted_invitation_def\<close>)
  have step: "tenant_step sa iv (d, fl) (d', fl)" using tenant_accept [OF assms(3), of sa iv fl raw new_member now] assms(4) by simp
  have "snd (accept_invitation iv raw user' new_member' now' d2) = d2" if "(tenant_step sa iv)\<^sup>*\<^sup>* (d', fl) (d2, fl2)"
    for d2 fl2 user' new_member' now'
  proof -
    have "deliveries_held (d', fl)" "tenant_ok d'" using tenant_step_held [OF step assms(2)] tenant_step_ok [OF step] assms(1) by simp_all
    then have ok2: "tenant_ok d2" and "invitation_kept ?i' (invitations d2)"
      using tenants.inv_reachable [OF that] closed_invitations.inv_reachable [OF that, of ?i'] invitation_kept_in [OF i']
      by (simp_all add: closed_def accepted_invitation_def)
    then obtain j where j: "j \<in> set (invitations d2)" "beyond_delivery j = beyond_delivery ?i'" by (auto simp: invitation_kept_def)
    have hash: "oi_token_hash j = iv_sha256 iv raw" and spent: "oi_status j = InvitationStatus.ACCEPTED"
      using beyond_deliveryD(2,3) [OF j(2)] h by (simp_all add: accepted_invitation_def)
    have "unique_on (\<lambda>i. True) oi_token_hash (invitations d2)" using ok2 by (simp add: tenant_ok_def invitation_unique_def)
    from unique_onD [OF this _ j(1)] have unique: "x = j" if "x \<in> set (invitations d2)" "oi_token_hash x = oi_token_hash j" for x
      using that by simp
    have "invitation_by_hash (iv_sha256 iv raw) d2 = Some j"
    proof (cases "invitation_by_hash (iv_sha256 iv raw) d2")
      case None
      then show ?thesis using j(1) hash by (auto simp: invitation_by_hash_def find_None_iff)
    next
      case (Some x)
      then show ?thesis using unique [of x] invitation_by_hash_Some [OF Some] hash by simp
    qed
    then show ?thesis using spent by (simp add: accept_invitation_def Let_def)
  qed
  then show ?thesis using open_i m h by (auto simp: is_expired_def)
qed


section \<open>A sample team\<close>

definition team_user :: "uuid \<Rightarrow> string \<Rightarrow> User" where
  "team_user i email = signed_up_user\<lparr>u_id := i, u_email := email, u_normalized_email := email\<rparr>"

definition team :: db where
  "team = sample_org\<lparr>users := [team_user 7 ''olga@acme.io'', team_user 8 ''vic@acme.io'', team_user 20 ''eve@acme.io'']\<rparr>"

definition sample_invitations :: InvitationService where
  "sample_invitations = \<lparr>iv_settings = provider_settings ''mock'', iv_environment = sample_environment,
     iv_app_env = ''testing'', iv_frontend_url = ''https://cloudops.example/'', iv_token_expire_hours = 72,
     iv_sha256 = (\<lambda>s. s), iv_strftime = (\<lambda>t. [])\<rparr>"

definition eve_draw :: InvitationDraw where
  "eve_draw = \<lparr>id_invitation = 60, id_raw = ''secret''\<rparr>"

definition invited :: db where
  "invited = snd (begin_create sample_invitations 2 7 ''eve@acme.io'' OrganizationRole.VIEWER eve_draw 0 team)"

definition eve_invitation :: OrganizationInvitation where
  "eve_invitation = \<lparr>oi_id = 60, oi_organization_id = 2, oi_email = ''eve@acme.io'', oi_normalized_email = ''eve@acme.io'',
     oi_role = OrganizationRole.VIEWER, oi_token_hash = ''secret'', oi_status = InvitationStatus.PENDING,
     oi_invited_by_user_id = 7, oi_expires_at = timedelta_hours 72, oi_accepted_at = None,
     oi_last_delivery_status = Some ''sending'', oi_last_delivery_error_code = None,
     oi_last_delivery_attempt_at = Some 0, oi_last_delivered_at = None, oi_delivery_generation = 0\<rparr>"

lemma team_owner: "require_capability 2 7 cap team = require_capability 2 7 cap sample_org"
  by (simp add: require_capability_def require_member_def active_membership_def team_def)

lemma team_ok: "tenant_ok team"
  by (simp add: tenant_ok_def team_def sample_org_def empty_db_def account_keys_def accounts_unique_def team_user_def
      signed_up_user_def keys_distinct_def invitation_unique_def uninvited_def)

lemma eve_normalized: "normalize_email ''eve@acme.io'' = ''eve@acme.io''"
  by (simp add: normalize_email_def casefold_def strip_def is_space_def char_lower_def)

lemma invite_eve:
  "begin_create sample_invitations 2 7 ''eve@acme.io'' OrganizationRole.VIEWER eve_draw 0 team = return eve_invitation invited"
proof -
  have "user_by_email ''eve@acme.io'' team = Some (team_user 20 ''eve@acme.io'')"
    by (simp add: user_by_email_def team_def team_user_def)
  moreover have "membership 2 20 team = None" "pending_invitation 2 ''eve@acme.io'' team = None" "invitations team = []"
    by (simp_all add: membership_def pending_invitation_def team_def sample_org_def empty_db_def)
  ultimately show ?thesis
    by (simp add: invited_def begin_create_def team_owner eve_normalized Let_def can_assign_role_def team_user_def
        sample_invitations_def eve_draw_def eve_invitation_def strip_def is_space_def DELIVERY_SENDING_def
        invitations_storable_def keys_distinct_def invitation_unique_def invitation_constraints_def)
qed

lemma invited_rows: "invitations invited = [eve_invitation]" "memberships invited = memberships sample_org"
    "users invited = users team"
  using begin_create_returns [OF invite_eve] by (simp_all add: team_def sample_org_def empty_db_def)

definition eve :: User where "eve = team_user 20 ''eve@acme.io''"

definition joined :: db where
  "joined = snd (accept_invitation sample_invitations ''secret'' eve 12 5 invited)"

lemma eve_joins:
  "accept_invitation sample_invitations ''secret'' eve 12 5 invited = return (member_of eve_invitation 20 12 5) joined"
proof -
  have "membership 2 20 invited = None" by (simp add: membership_def invited_rows sample_org_def)
  then show ?thesis
    by (simp add: joined_def accept_invitation_def invitation_by_hash_def invited_rows eve_def team_user_def
        sample_invitations_def eve_invitation_def is_expired_def timedelta_hours_def timedelta_minutes_def
        timedelta_seconds_def Let_def member_of_def keys_distinct_def sample_org_def)
qed

lemma eve_registered: "eve \<in> set (users team)" "eve \<in> set (users invited)"
  by (simp_all add: invited_rows team_def eve_def)

abbreviation eve_delivery :: in_flight where
  "eve_delivery \<equiv> [(\<lparr>hi_copy = eve_invitation, hi_inserted = True\<rparr>, snapshot_of eve_invitation invited, 7)]"

lemma team_steps:
  "tenant_step sample_auth sample_invitations (team, []) (invited, eve_delivery)"
  "tenant_step sample_auth sample_invitations (invited, eve_delivery) (joined, eve_delivery)"
  using tenant_invite [OF invite_eve, of sample_auth "[]"]
    tenant_accept [OF eve_registered(2), of sample_auth sample_invitations eve_delivery "''secret''" 12 5]
  by (simp_all add: joined_def)

lemma team_held: "deliveries_held (team, [])" "deliveries_held (invited, eve_delivery)"
proof -
  show f: "deliveries_held (team, [])" by (simp add: deliveries_held_def team_def sample_org_def empty_db_def)
  from tenant_step_held [OF team_steps(1) f] show "deliveries_held (invited, eve_delivery)" .
qed

lemma eve_reachable: "(tenant_step sample_auth sample_invitations)\<^sup>*\<^sup>* (team, []) (joined, eve_delivery)"
  using team_steps by (meson r_into_rtranclp rtranclp.rtrancl_into_rtrancl)

lemma joined_rows: "invitations joined = [accepted_invitation eve_invitation 5]"
proof -
  have "membership 2 20 invited = None" by (simp add: membership_def invited_rows sample_org_def)
  then show ?thesis
    by (simp add: joined_def accept_invitation_def invitation_by_hash_def invited_rows eve_def team_user_def
        sample_invitations_def eve_invitation_def is_expired_def timedelta_hours_def timedelta_minutes_def
        timedelta_seconds_def Let_def member_of_def keys_distinct_def sample_org_def write_invitation_def accepted_invitation_def)
qed

abbreviation late_success :: db where
  "late_success \<equiv> fst (record_delivery \<lparr>hi_copy = eve_invitation, hi_inserted = True\<rparr> (snapshot_of eve_invitation invited) 7
     (delivery_success None) 9 joined)"

theorem closed_invitation_is_final_witness:
  "\<exists>status code at. (accepted_invitation eve_invitation 5)\<lparr>oi_last_delivery_status := status, oi_last_delivery_error_code := code,
     oi_last_delivered_at := at\<rparr> \<in> set (invitations late_success)"
proof -
  have "(tenant_step sample_auth sample_invitations)\<^sup>*\<^sup>* (joined, eve_delivery) (late_success, [])"
    using tenant_record [of "\<lparr>hi_copy = eve_invitation, hi_inserted = True\<rparr>" "snapshot_of eve_invitation invited" 7 eve_delivery
        sample_auth sample_invitations joined "delivery_success None" 9] by (simp add: r_into_rtranclp)
  moreover have "keys_distinct oi_id (invitations team)" by (simp add: team_def sample_org_def empty_db_def)
  moreover have "accepted_invitation eve_invitation 5 \<in> set (invitations joined)"
    "oi_status (accepted_invitation eve_invitation 5) \<in> {InvitationStatus.ACCEPTED, InvitationStatus.CANCELLED}"
    by (simp_all add: joined_rows accepted_invitation_def)
  ultimately show ?thesis using closed_invitation_is_final [OF _ eve_reachable] by blast
qed

theorem late_result_overwrites_closed_witness:
  "\<exists>i' \<in> set (invitations late_success). oi_status i' = InvitationStatus.ACCEPTED \<and> oi_delivery_generation i' = 1 \<and>
     oi_last_delivery_status i' = Some DELIVERY_DELIVERED \<and> oi_last_delivered_at i' = Some 9"
proof -
  let ?i = "accepted_invitation eve_invitation 5"
  have row: "invitation_for_update None (sn_organization_id (snapshot_of eve_invitation invited))
      (sn_invitation_id (snapshot_of eve_invitation invited)) joined = Some ?i"
    by (simp add: invitation_for_update_def identity_mapped_def joined_rows snapshot_of_def accepted_invitation_def)
  have "keys_distinct oi_id (invitations team)" by (simp add: team_def sample_org_def empty_db_def)
  from late_result_overwrites_closed [OF this eve_reachable _ row, of "\<lparr>hi_copy = eve_invitation, hi_inserted = True\<rparr>" 7
      "delivery_success None" 9]
  obtain i' where i': "invitations late_success = put_row oi_id i' (invitations joined)" "beyond_delivery i' = beyond_delivery ?i"
    "oi_last_delivery_status i' = Some DELIVERY_DELIVERED" "oi_last_delivered_at i' = Some 9"
    by (auto simp: delivery_success_def write_invitation_def eve_invitation_def)
  note same = beyond_deliveryD [OF i'(2)]
  have "i' \<in> set (invitations late_success)"
    unfolding i'(1) joined_rows using same(5) by simp
  then show ?thesis using same(2,4) i'(3,4) by (auto simp: accepted_invitation_def eve_invitation_def)
qed

definition depleted_team :: db where
  "depleted_team = team\<lparr>memberships := map (\<lambda>m. if m_id m = 11 then m\<lparr>m_status := MembershipStatus.REMOVED\<rparr> else m) (memberships team)\<rparr>"

theorem removed_member_never_returns_witness:
  "begin_create sample_invitations 2 7 ''vic@acme.io'' OrganizationRole.VIEWER eve_draw 50 depleted_team =
     raise (ConflictError ''already_member'') depleted_team"
proof -
  let ?m = "\<lparr>m_id = 11, m_organization_id = 2, m_user_id = 8, m_role = OrganizationRole.VIEWER,
         m_status = MembershipStatus.REMOVED, m_invited_by_user_id = Some 7, m_joined_at = Some 5\<rparr>"
  have ok: "tenant_ok depleted_team"
    by (simp add: depleted_team_def tenant_ok_def team_def sample_org_def empty_db_def account_keys_def accounts_unique_def
        team_user_def signed_up_user_def keys_distinct_def invitation_unique_def uninvited_def)
  have m: "?m \<in> set (memberships depleted_team)" by (simp add: depleted_team_def team_def sample_org_def)
  have vic: "team_user 8 ''vic@acme.io'' \<in> set (users depleted_team)" by (simp add: depleted_team_def team_def)
  have "normalize_email ''vic@acme.io'' = ''vic@acme.io''"
    by (simp add: normalize_email_def casefold_def strip_def is_space_def char_lower_def)
  moreover have "require_capability 2 7 INVITATIONS_MANAGE depleted_team =
     Inr \<lparr>m_id = 10, m_organization_id = 2, m_user_id = 7, m_role = OrganizationRole.OWNER,
         m_status = MembershipStatus.ACTIVE, m_invited_by_user_id = None, m_joined_at = Some 0\<rparr>"
    by (simp add: require_capability_def require_member_def active_membership_def depleted_team_def team_def sample_org_def)
  moreover note removed_member_never_returns [where sa = sample_auth and iv = sample_invitations and fl = "[]" and actor = 7
      and role = OrganizationRole.VIEWER and email = "''vic@acme.io''" and draw = eve_draw and now = 50,
      OF ok rtranclp.rtrancl_refl m _ vic]
  ultimately show ?thesis by (simp add: can_assign_role_def team_user_def)
qed

theorem token_is_spent_witness:
  "snd (accept_invitation sample_invitations ''secret'' eve 13 7 joined) = joined"
proof -
  have ok: "tenant_ok invited" using tenant_step_ok [OF team_steps(1)] team_ok by simp
  have none: "membership (m_organization_id (member_of eve_invitation 20 12 5)) (u_id eve) invited = None"
    by (simp add: membership_def invited_rows sample_org_def member_of_def eve_invitation_def eve_def team_user_def)
  from token_is_spent [OF ok team_held(2) eve_registered(2) eve_joins none, of sample_auth] show ?thesis by blast
qed

end
