(* ===== verification/Onboarding.thy ===== *)
theory Onboarding
  imports Remediation_Admin
begin

text \<open>
  Connecting AWS accounts: \<^verbatim>\<open>app/services/aws_onboarding.py\<close> and the role
  credentials of \<^verbatim>\<open>app/services/aws_credentials.py\<close>. STS is a library of replies to the two
  calls the code makes. A validation runs in two transactions with the calls between them; both
  halves are operations, so that changes of the account in between are visible. The theory
  shows that an account is connected only when STS accepted its present role and external id,
  that external ids are never issued twice, and where a validation or a deletion gets stuck.
\<close>

section \<open>Credentials\<close>

record TemporaryCredentials =
  tc_access_key_id :: string
  tc_secret_access_key :: string
  tc_session_token :: string
  tc_expires_at :: instant

datatype 'a sts_reply =
    StsClientError "string option"
  | StsBotoCoreError
  | StsMalformed
  | StsReply 'a

text \<open>
  \<open>st_assume role external_id session duration now\<close> replies with the credentials, whose expiry may be
  missing; \<open>st_identity credentials now\<close> is \<^verbatim>\<open>get_caller_identity\<close>. A malformed reply is one that
  lacks a key the code reads.
\<close>

record StsLibrary =
  st_assume :: "string \<Rightarrow> string \<Rightarrow> string \<Rightarrow> int \<Rightarrow> instant \<Rightarrow> (string \<times> string \<times> string \<times> instant option) sts_reply"
  st_identity :: "TemporaryCredentials \<Rightarrow> instant \<Rightarrow> string sts_reply"

record AwsSettings =
  aws_role_session_name :: string
  aws_role_session_duration_seconds :: int
  aws_credential_refresh_window_seconds :: int
  aws_trusted_principal_arn :: string
  aws_trusted_principal_arns :: string

fun underscore_runs :: "string \<Rightarrow> string" where
  "underscore_runs [] = []"
| "underscore_runs (c # s) =
     (if is_slug_char c then c # underscore_runs s
      else (case s of
              [] \<Rightarrow> ''_''
            | c' # s' \<Rightarrow> if is_slug_char c' then CHR ''_'' # underscore_runs s else underscore_runs s))"

definition strip_underscores :: "string \<Rightarrow> string" where
  "strip_underscores s = rev (dropWhile (\<lambda>c. c = CHR ''_'') (rev (dropWhile (\<lambda>c. c = CHR ''_'') s)))"

definition safe_client_error :: "string option \<Rightarrow> string" where
  "safe_client_error code =
     (let safe = strip_underscores (underscore_runs (casefold (case code of None \<Rightarrow> ''client_error'' | Some c \<Rightarrow> c)))
      in ''sts_'' @ (if safe = [] then ''client_error'' else safe))"

text \<open>The role a provider assumes: the connection role, or the separately trusted remediation role.\<close>

record RoleTarget =
  tr_role_arn :: "string option"
  tr_external_id :: "string option"
  tr_session_name :: string
  tr_account_id :: string

definition connection_role :: "AwsSettings \<Rightarrow> AWSAccount \<Rightarrow> RoleTarget" where
  "connection_role settings a =
     \<lparr>tr_role_arn = acc_role_arn a, tr_external_id = Some (acc_external_id a),
      tr_session_name = aws_role_session_name settings, tr_account_id = acc_account_id a\<rparr>"

definition remediation_role :: "AwsSettings \<Rightarrow> AWSAccount \<Rightarrow> RoleTarget" where
  "remediation_role settings a =
     \<lparr>tr_role_arn = acc_remediation_role_arn a, tr_external_id = acc_remediation_external_id a,
      tr_session_name = take 48 (aws_role_session_name settings) @ ''-Remediation'', tr_account_id = acc_account_id a\<rparr>"

text \<open>An \<^verbatim>\<open>AWSConnectionFailure\<close> is its reason.\<close>

definition assume_and_verify ::
    "StsLibrary \<Rightarrow> AwsSettings \<Rightarrow> RoleTarget \<Rightarrow> instant \<Rightarrow> string + TemporaryCredentials" where
  "assume_and_verify sts settings target now =
     (case (tr_role_arn target, tr_external_id target) of
        (None, _) \<Rightarrow> Inl ''role_arn_missing''
      | (Some role_arn, None) \<Rightarrow> Inl ''external_id_missing''
      | (Some role_arn, Some external_id) \<Rightarrow>
          (case st_assume sts role_arn external_id (tr_session_name target)
                  (aws_role_session_duration_seconds settings) now of
             StsClientError code \<Rightarrow> Inl (safe_client_error code)
           | StsBotoCoreError \<Rightarrow> Inl ''sts_validation_failed''
           | StsMalformed \<Rightarrow> Inl ''sts_validation_failed''
           | StsReply (access, secret, session_token, expiration) \<Rightarrow>
               let credentials =
                 \<lparr>tc_access_key_id = access, tc_secret_access_key = secret, tc_session_token = session_token,
                  tc_expires_at = (case expiration of
                                     None \<Rightarrow> now + timedelta_seconds (aws_role_session_duration_seconds settings)
                                   | Some t \<Rightarrow> t)\<rparr>
               in (case st_identity sts credentials now of
                     StsClientError code \<Rightarrow> Inl (safe_client_error code)
                   | StsBotoCoreError \<Rightarrow> Inl ''sts_validation_failed''
                   | StsMalformed \<Rightarrow> Inl ''sts_validation_failed''
                   | StsReply account \<Rightarrow>
                       if account \<noteq> tr_account_id target then Inl ''caller_account_mismatch'' else Inr credentials)))"

text \<open>The cached credentials and what \<^verbatim>\<open>_current_credentials\<close> answers.\<close>

definition current_credentials ::
    "StsLibrary \<Rightarrow> AwsSettings \<Rightarrow> RoleTarget \<Rightarrow> instant \<Rightarrow> TemporaryCredentials option \<Rightarrow>
     (TemporaryCredentials option) \<times> (string + TemporaryCredentials)" where
  "current_credentials sts settings target now cached =
     (let refresh_before = now + timedelta_seconds (aws_credential_refresh_window_seconds settings);
          fresh = (case assume_and_verify sts settings target now of
                     Inl reason \<Rightarrow> (cached, Inl reason)
                   | Inr credentials \<Rightarrow> (Some credentials, Inr credentials))
      in case cached of
           None \<Rightarrow> fresh
         | Some c \<Rightarrow> if tc_expires_at c \<le> refresh_before then fresh else (cached, Inr c))"

definition validate_account :: "StsLibrary \<Rightarrow> AwsSettings \<Rightarrow> AWSAccount \<Rightarrow> instant \<Rightarrow> string + string" where
  "validate_account sts settings a now =
     (case snd (current_credentials sts settings (connection_role settings a) now None) of
        Inl reason \<Rightarrow> Inl reason
      | Inr _ \<Rightarrow> Inr (acc_account_id a))"

section \<open>Input validation\<close>

definition ACCOUNT_ID_PATTERN :: "string \<Rightarrow> bool" where
  "ACCOUNT_ID_PATTERN s = (length s = 12 \<and> list_all is_digit s)"

definition validate_account_id :: "string \<Rightarrow> exn + string" where
  "validate_account_id account_id =
     (let value = strip account_id in
      if ACCOUNT_ID_PATTERN value then Inr value else Inl (AppError ''invalid_aws_account_id'' 422))"

text \<open>\<^verbatim>\<open>ROLE_ARN_PATTERN\<close> is the same expression as the remediation pattern.\<close>

definition validate_role_arn :: "string \<Rightarrow> string option \<Rightarrow> exn + string" where
  "validate_role_arn role_arn expected_account_id =
     (let value = strip role_arn in
      case REMEDIATION_ROLE_ARN_PATTERN value of
        None \<Rightarrow> Inl (AppError ''invalid_role_arn'' 422)
      | Some (prefix, account, suffix) \<Rightarrow>
          if expected_account_id \<noteq> None \<and> expected_account_id \<noteq> Some account then
            Inl (AppError ''role_account_mismatch'' 422)
          else Inr value)"

text \<open>The part of a principal ARN after the account: the root user, or a named role or user.\<close>

definition principal_resource :: "string \<Rightarrow> bool" where
  "principal_resource s =
     (s = '':root'' \<or>
      list_ex (\<lambda>p. starts_with p s \<and> length p < length s \<and> list_all is_role_char (drop (length p) s))
        ['':role/'', '':user/''])"

definition PRINCIPAL_ARN_PATTERN :: "string \<Rightarrow> bool" where
  "PRINCIPAL_ARN_PATTERN s =
     list_ex (\<lambda>p. starts_with p s \<and>
        (let rest = drop (length p) s in ACCOUNT_ID_PATTERN (take 12 rest) \<and> principal_resource (drop 12 rest))) arn_prefixes"

text \<open>\<^verbatim>\<open>list(dict.fromkeys(xs))\<close>.\<close>

definition first_occurrences :: "'a list \<Rightarrow> 'a list" where
  "first_occurrences xs = rev (remdups (rev xs))"

fun split_commas :: "string \<Rightarrow> string \<Rightarrow> string list" where
  "split_commas word [] = [word]"
| "split_commas word (c # s) = (if c = CHR '','' then word # split_commas [] s else split_commas (word @ [c]) s)"

definition trusted_principals :: "AwsSettings \<Rightarrow> exn + string list" where
  "trusted_principals settings =
     (let configured = filter (\<lambda>p. p \<noteq> []) (map strip (split_commas [] (aws_trusted_principal_arns settings)));
          single = strip (aws_trusted_principal_arn settings);
          principals = first_occurrences (if configured = [] \<and> single \<noteq> [] then [single] else configured)
      in if principals = [] \<or> 4 < length principals \<or> \<not> list_all PRINCIPAL_ARN_PATTERN principals
         then Inl (AppError ''aws_principal_not_configured'' 503) else Inr principals)"

definition trust_policy :: "AwsSettings \<Rightarrow> AWSAccount \<Rightarrow> exn + json" where
  "trust_policy settings a =
     (case trusted_principals settings of
        Inl e \<Rightarrow> Inl e
      | Inr principals \<Rightarrow>
          let principal = (if length principals = 1 then JStr (hd principals) else JList (map JStr principals)) in
          Inr (JDict [(''Version'', JStr ''2012-10-17''),
                      (''Statement'',
                        JList [JDict [(''Effect'', JStr ''Allow''), (''Principal'', JDict [(''AWS'', principal)]),
                                      (''Action'', JStr ''sts:AssumeRole''),
                                      (''Condition'', JDict [(''StringEquals'',
                                         JDict [(''sts:ExternalId'', JStr (acc_external_id a))])])]])]))"

definition permission_policy :: dict where
  "permission_policy =
     [(''policy_name'', JStr ''SecurityAudit''),
      (''managed_policy_arn'', JStr ''arn:aws:iam::aws:policy/SecurityAudit''),
      (''description'', JStr ''Attach the AWS managed SecurityAudit policy to CloudOpsReadOnlyRole.'')]"

text \<open>\<^verbatim>\<open>" ".join(name.split())\<close>; the word read so far is the first argument.\<close>

fun split_words :: "string \<Rightarrow> string \<Rightarrow> string list" where
  "split_words word [] = (if word = [] then [] else [word])"
| "split_words word (c # s) =
     (if is_space c then (if word = [] then split_words [] s else word # split_words [] s) else split_words (word @ [c]) s)"

fun join_words :: "string list \<Rightarrow> string" where
  "join_words [] = []"
| "join_words [w] = w"
| "join_words (w # v # ws) = w @ '' '' @ join_words (v # ws)"

definition tidy_name :: "string \<Rightarrow> string" where
  "tidy_name name = join_words (split_words [] name)"

section \<open>Accounts\<close>

definition require_managed :: "uuid \<Rightarrow> uuid \<Rightarrow> Capability \<Rightarrow> db \<Rightarrow> exn + AWSAccount" where
  "require_managed account_id actor capability d =
     (case aws_account_for_user account_id actor d of
        None \<Rightarrow> Inl (NotFoundError ''aws_account_not_found'')
      | Some (a, m) \<Rightarrow> if role_has_capability (m_role m) capability then Inr a else Inl (ForbiddenError ''forbidden''))"

definition reservation_unique :: "AWSExternalIDReservation list \<Rightarrow> bool" where
  "reservation_unique rows =
     (unique_on (\<lambda>r. True) xi_external_id rows \<and> unique_on (\<lambda>r. xi_aws_account_id r \<noteq> None) xi_aws_account_id rows)"

text \<open>
  Ten draws of an external id, each tried in a savepoint of its own: the first that violates no
  unique index is reserved. Draw \<open>n\<close> is \<^verbatim>\<open>token_urlsafe\<close> with the id of its reservation.
\<close>

definition onboarding_external_id :: "string \<Rightarrow> string" where
  "onboarding_external_id token = ''cloudops-'' @ token"

definition reservation :: "uuid \<Rightarrow> instant \<Rightarrow> uuid \<times> string \<Rightarrow> AWSExternalIDReservation" where
  "reservation organization_id now draw =
     \<lparr>xi_id = fst draw, xi_external_id = onboarding_external_id (snd draw), xi_aws_account_id = None,
      xi_organization_id = organization_id, xi_issued_at = now, xi_retired_at = None\<rparr>"

definition reserve_external_id ::
    "uuid \<Rightarrow> (nat \<Rightarrow> uuid \<times> string) \<Rightarrow> instant \<Rightarrow> db \<Rightarrow> exn + AWSExternalIDReservation" where
  "reserve_external_id organization_id draws now d =
     (case find (\<lambda>r. reservation_unique (external_id_reservations d @ [r]))
             (map (\<lambda>n. reservation organization_id now (draws n)) [0..<10]) of
        None \<Rightarrow> Inl (AppError ''external_id_generation_failed'' 500)
      | Some r \<Rightarrow> Inr r)"

definition account_audit :: "string \<Rightarrow> AuditResult \<Rightarrow> AWSAccount \<Rightarrow> uuid \<Rightarrow> db \<Rightarrow> db" where
  "account_audit event_type result a actor d =
     record_audit event_type ''aws_account'' result (Some (acc_organization_id a)) (Some actor) (Some (acc_id a)) d"

text \<open>The audit event and \<^verbatim>\<open>_commit_account\<close>.\<close>

definition store_account :: "string \<Rightarrow> AuditResult \<Rightarrow> uuid \<Rightarrow> AWSAccount \<Rightarrow> db \<Rightarrow> (db, AWSAccount) outcome" where
  "store_account event_type result actor a d =
     (let d' = account_audit event_type result a actor (d\<lparr>aws_accounts := put_row acc_id a (aws_accounts d)\<rparr>)
      in if aws_account_unique (aws_accounts d') then return a d' else raise (ConflictError ''aws_account_conflict'') d)"

definition supersede_validation :: "AWSAccount \<Rightarrow> AWSAccount" where
  "supersede_validation a =
     a\<lparr>acc_validation_token := None, acc_validation_started_at := None, acc_lifecycle_version := acc_lifecycle_version a + 1\<rparr>"

definition aws_account_by_provider_id :: "uuid \<Rightarrow> string \<Rightarrow> db \<Rightarrow> AWSAccount option" where
  "aws_account_by_provider_id organization_id account_id d =
     find (\<lambda>a. acc_organization_id a = organization_id \<and> acc_account_id a = account_id) (aws_accounts d)"

definition aws_account_by_role_arn :: "uuid \<Rightarrow> string \<Rightarrow> uuid \<Rightarrow> db \<Rightarrow> AWSAccount option" where
  "aws_account_by_role_arn organization_id role_arn exclude_id d =
     find (\<lambda>a. acc_organization_id a = organization_id \<and> acc_role_arn a = Some role_arn \<and> acc_id a \<noteq> exclude_id) (aws_accounts d)"

definition create_account ::
    "AwsSettings \<Rightarrow> uuid \<Rightarrow> uuid \<Rightarrow> string \<Rightarrow> string \<Rightarrow> (nat \<Rightarrow> uuid \<times> string) \<Rightarrow> uuid \<Rightarrow> instant \<Rightarrow> db \<Rightarrow> (db, AWSAccount) outcome" where
  "create_account settings organization_id actor name account_id draws new_account now d =
     (case require_capability organization_id actor AWS_ACCOUNTS_MANAGE d of
        Inl e \<Rightarrow> raise e d
      | Inr _ \<Rightarrow>
          (case trusted_principals settings of
             Inl e \<Rightarrow> raise e d
           | Inr _ \<Rightarrow>
               (case validate_account_id account_id of
                  Inl e \<Rightarrow> raise e d
                | Inr provider_account_id \<Rightarrow>
                    if aws_account_by_provider_id organization_id provider_account_id d \<noteq> None then
                      raise (ConflictError ''aws_account_exists'') d
                    else
                      (case reserve_external_id organization_id draws now d of
                         Inl e \<Rightarrow> raise e d
                       | Inr r \<Rightarrow>
                           let a = \<lparr>acc_id = new_account, acc_organization_id = organization_id, acc_name = tidy_name name,
                                 acc_account_id = provider_account_id, acc_role_arn = None, acc_external_id = xi_external_id r,
                                 acc_remediation_role_arn = None, acc_remediation_external_id = None,
                                 acc_sandbox_approved = False, acc_sandbox_approved_at = None,
                                 acc_sandbox_approved_by_user_id = None, acc_status = AWSAccountStatus.PENDING,
                                 acc_connection_status = AWSAccountStatus.PENDING, acc_failure_reason = None,
                                 acc_last_validated_at = None, acc_validation_token = None,
                                 acc_validation_started_at = None, acc_lifecycle_version = 0,
                                 acc_created_by_user_id = actor\<rparr>;
                               rows = aws_accounts d @ [a];
                               reserved = external_id_reservations d @ [r\<lparr>xi_aws_account_id := Some new_account\<rparr>]
                           in if \<not> (keys_distinct acc_id rows \<and> aws_account_unique rows) then raise IntegrityError d
                              else if \<not> reservation_unique reserved then raise (ConflictError ''aws_account_conflict'') d
                              else return a
                                (account_audit ''aws.account.created'' AuditResult.SUCCEEDED a actor
                                   (d\<lparr>aws_accounts := rows, external_id_reservations := reserved\<rparr>))))))"

definition with_role :: "string \<Rightarrow> AWSAccount \<Rightarrow> AWSAccount" where
  "with_role role_arn a =
     supersede_validation
       (a\<lparr>acc_role_arn := Some role_arn, acc_status := AWSAccountStatus.PENDING,
          acc_connection_status := AWSAccountStatus.PENDING, acc_failure_reason := None, acc_last_validated_at := None\<rparr>)"

definition update_role :: "uuid \<Rightarrow> uuid \<Rightarrow> string \<Rightarrow> db \<Rightarrow> (db, AWSAccount) outcome" where
  "update_role account_id actor role_arn d =
     (case require_managed account_id actor AWS_ACCOUNTS_MANAGE d of
        Inl e \<Rightarrow> raise e d
      | Inr a \<Rightarrow>
          (case validate_role_arn role_arn (Some (acc_account_id a)) of
             Inl e \<Rightarrow> raise e d
           | Inr value \<Rightarrow>
               if aws_account_by_role_arn (acc_organization_id a) value (acc_id a) d \<noteq> None then
                 raise (ConflictError ''role_arn_exists'') d
               else store_account ''aws.account.updated'' AuditResult.SUCCEEDED actor (with_role value a) d))"

definition update_account :: "uuid \<Rightarrow> uuid \<Rightarrow> string option \<Rightarrow> string option \<Rightarrow> db \<Rightarrow> (db, AWSAccount) outcome" where
  "update_account account_id actor new_name role_arn d =
     (case require_managed account_id actor AWS_ACCOUNTS_MANAGE d of
        Inl e \<Rightarrow> raise e d
      | Inr a \<Rightarrow>
          let a1 = (case new_name of None \<Rightarrow> a | Some n \<Rightarrow> a\<lparr>acc_name := tidy_name n\<rparr>) in
          (case role_arn of
             None \<Rightarrow>
               store_account ''aws.account.updated'' AuditResult.SUCCEEDED actor
                 (if new_name = None then a1 else supersede_validation a1) d
           | Some role \<Rightarrow>
               (case validate_role_arn role (Some (acc_account_id a)) of
                  Inl e \<Rightarrow> raise e d
                | Inr value \<Rightarrow>
                    if aws_account_by_role_arn (acc_organization_id a) value (acc_id a) d \<noteq> None then
                      raise (ConflictError ''role_arn_exists'') d
                    else store_account ''aws.account.updated'' AuditResult.SUCCEEDED actor (with_role value a1) d)))"

definition get_onboarding_account :: "uuid \<Rightarrow> uuid \<Rightarrow> db \<Rightarrow> (db, AWSAccount) outcome" where
  "get_onboarding_account account_id actor d =
     (case require_managed account_id actor AWS_ACCOUNTS_MANAGE d of
        Inl e \<Rightarrow> raise e d
      | Inr a \<Rightarrow> return a (account_audit ''aws.account.onboarding_material_accessed'' AuditResult.SUCCEEDED a actor d))"

section \<open>Validating a connection\<close>

text \<open>The first transaction: the token of the validation is stored and committed.\<close>

definition begin_validation :: "uuid \<Rightarrow> uuid \<Rightarrow> uuid \<Rightarrow> instant \<Rightarrow> db \<Rightarrow> (db, AWSAccount) outcome" where
  "begin_validation account_id actor token now d =
     (case require_managed account_id actor AWS_ACCOUNTS_MANAGE d of
        Inl e \<Rightarrow> raise e d
      | Inr a \<Rightarrow>
          if acc_role_arn a = None then raise (ConflictError ''role_arn_required'') d
          else if acc_validation_token a \<noteq> None then raise (ConflictError ''validation_already_running'') d
          else
            let a' = a\<lparr>acc_validation_token := Some token, acc_validation_started_at := Some now,
                       acc_lifecycle_version := acc_lifecycle_version a + 1\<rparr>
            in return a'
                 (account_audit ''aws.account.validation_started'' AuditResult.SUCCEEDED a' actor
                    (d\<lparr>aws_accounts := put_row acc_id a' (aws_accounts d)\<rparr>)))"

text \<open>The second one: the result is stored when the token is still that of this validation.\<close>

definition validated :: "string + string \<Rightarrow> instant \<Rightarrow> AWSAccount \<Rightarrow> AWSAccount" where
  "validated result now a =
     (let a = supersede_validation a;
          failed = (\<lambda>reason. a\<lparr>acc_status := AWSAccountStatus.FAILED, acc_connection_status := AWSAccountStatus.FAILED,
                      acc_failure_reason := Some reason, acc_last_validated_at := Some now\<rparr>)
      in case result of
           Inl reason \<Rightarrow> failed reason
         | Inr returned_account \<Rightarrow>
             if returned_account \<noteq> acc_account_id a then failed ''caller_account_mismatch''
             else a\<lparr>acc_status := AWSAccountStatus.CONNECTED, acc_connection_status := AWSAccountStatus.CONNECTED,
                    acc_failure_reason := None, acc_last_validated_at := Some now\<rparr>)"

definition finish_validation ::
    "uuid \<Rightarrow> uuid \<Rightarrow> uuid option \<Rightarrow> string + string \<Rightarrow> instant \<Rightarrow> db \<Rightarrow> (db, AWSAccount) outcome" where
  "finish_validation account_id actor token result now d =
     (case require_managed account_id actor AWS_ACCOUNTS_MANAGE d of
        Inl e \<Rightarrow> raise e d
      | Inr a \<Rightarrow>
          if acc_validation_token a \<noteq> token then raise (ConflictError ''validation_superseded'') d
          else
            let a' = validated result now a in
            if acc_connection_status a' = AWSAccountStatus.CONNECTED then
              store_account ''aws.account.validation_succeeded'' AuditResult.SUCCEEDED actor a' d
            else store_account ''aws.account.validation_failed'' AuditResult.FAILED actor a' d)"

definition validate_connection ::
    "StsLibrary \<Rightarrow> AwsSettings \<Rightarrow> uuid \<Rightarrow> uuid \<Rightarrow> uuid \<Rightarrow> instant \<Rightarrow> db \<Rightarrow> (db, AWSAccount) outcome" where
  "validate_connection sts settings account_id actor token now d =
     (case begin_validation account_id actor token now d of
        (Inl e, d1) \<Rightarrow> raise e d1
      | (Inr a, d1) \<Rightarrow> finish_validation account_id actor (Some token) (validate_account sts settings a now) now d1)"

section \<open>Disconnecting and deleting\<close>

definition disconnect_account :: "uuid \<Rightarrow> uuid \<Rightarrow> db \<Rightarrow> (db, AWSAccount) outcome" where
  "disconnect_account account_id actor d =
     (case require_managed account_id actor AWS_ACCOUNTS_MANAGE d of
        Inl e \<Rightarrow> raise e d
      | Inr a \<Rightarrow>
          if acc_connection_status a = AWSAccountStatus.DISCONNECTED then return a d
          else
            store_account ''aws.account.disconnected'' AuditResult.SUCCEEDED actor
              (supersede_validation (a\<lparr>acc_status := AWSAccountStatus.DISCONNECTED,
                 acc_connection_status := AWSAccountStatus.DISCONNECTED, acc_failure_reason := None\<rparr>)) d)"

text \<open>
  \<^verbatim>\<open>ON DELETE\<close> of the foreign keys to the account: the rows that cascade, and those that forbid
  the deletion. Among the tables of the database these are the remediation requests, whose
  findings may not be deleted (\<^verbatim>\<open>fk_remediation_finding_tenant\<close>). The restricting keys from
  evaluation jobs to discovery jobs and from findings to evaluation jobs connect rows that all
  cascade from the account itself; PostgreSQL runs these cascades before the checks they queue.
  \<open>elsewhere\<close> tells whether a row outside this database forbids it: a risk snapshot of the
  account or of one of its findings (\<open>risk_db\<close> of \<open>Risk_Service\<close>; \<^verbatim>\<open>models/risk.py\<close>), which
  a trigger also protects from being deleted, or the source of an AI request.
\<close>

definition cascade_account :: "uuid \<Rightarrow> db \<Rightarrow> db" where
  "cascade_account i d =
     (let jobs = map ej_id (filter (\<lambda>j. ej_aws_account_id j = i) (evaluation_jobs d)) in
      d\<lparr>aws_accounts := filter (\<lambda>a. acc_id a \<noteq> i) (aws_accounts d),
        assets := filter (\<lambda>a. as_aws_account_id a \<noteq> i) (assets d),
        findings := filter (\<lambda>f. f_aws_account_id f \<noteq> i) (findings d),
        evaluation_jobs := filter (\<lambda>j. ej_aws_account_id j \<noteq> i) (evaluation_jobs d),
        rule_results := filter (\<lambda>r. er_evaluation_job_id r \<notin> set jobs) (rule_results d),
        discovery_jobs := filter (\<lambda>j. dj_aws_account_id j \<noteq> i) (discovery_jobs d),
        scan_schedules := filter (\<lambda>s. ss_aws_account_id s \<noteq> i) (scan_schedules d),
        scan_runs := filter (\<lambda>r. sr_aws_account_id r \<noteq> i) (scan_runs d)\<rparr>)"

definition deletion_restricted :: "(uuid \<Rightarrow> bool) \<Rightarrow> uuid \<Rightarrow> db \<Rightarrow> bool" where
  "deletion_restricted elsewhere i d =
     (list_ex (\<lambda>r. rr_aws_account_id r = i) (remediation_requests d) \<or> elsewhere i)"

definition delete_account :: "(uuid \<Rightarrow> bool) \<Rightarrow> uuid \<Rightarrow> uuid \<Rightarrow> instant \<Rightarrow> db \<Rightarrow> (db, unit) outcome" where
  "delete_account elsewhere account_id actor now d =
     (case require_managed account_id actor AWS_ACCOUNTS_MANAGE d of
        Inl e \<Rightarrow> raise e d
      | Inr a \<Rightarrow>
          (case find (\<lambda>r. xi_aws_account_id r = Some (acc_id a)) (external_id_reservations d) of
             None \<Rightarrow> raise (AppError ''external_id_reservation_missing'' 500) d
           | Some r \<Rightarrow>
               if deletion_restricted elsewhere (acc_id a) d then raise IntegrityError d
               else return ()
                 (account_audit ''aws.account.deleted'' AuditResult.SUCCEEDED a actor
                    ((cascade_account (acc_id a) d)\<lparr>external_id_reservations :=
                       put_row xi_id (r\<lparr>xi_aws_account_id := None, xi_retired_at := Some now\<rparr>) (external_id_reservations d)\<rparr>))))"

section \<open>Requests and validations in flight\<close>

type_synonym validations = "(AWSAccount \<times> uuid) list"

inductive onboarding_step :: "StsLibrary \<Rightarrow> AwsSettings \<Rightarrow> db \<times> validations \<Rightarrow> db \<times> validations \<Rightarrow> bool" for sts settings where
  onboard_create: "new_account \<notin> acc_id ` set (aws_accounts d) \<Longrightarrow> new_account \<notin> (acc_id \<circ> fst) ` set fl \<Longrightarrow>
    Some new_account \<notin> xi_aws_account_id ` set (external_id_reservations d) \<Longrightarrow>
    (\<And>n. fst (draws n) \<notin> xi_id ` set (external_id_reservations d)) \<Longrightarrow>
    onboarding_step sts settings (d, fl) (snd (create_account settings org actor name number draws new_account now d), fl)"
| onboard_role: "onboarding_step sts settings (d, fl) (snd (update_role i actor role_arn d), fl)"
| onboard_update: "onboarding_step sts settings (d, fl) (snd (update_account i actor new_name role d), fl)"
| onboard_read: "onboarding_step sts settings (d, fl) (snd (get_onboarding_account i actor d), fl)"
| onboard_begin: "begin_validation i actor token now d = return a d' \<Longrightarrow> Some token \<notin> (acc_validation_token \<circ> fst) ` set fl \<Longrightarrow>
    onboarding_step sts settings (d, fl) (d', fl @ [(a, actor)])"
| onboard_begin_refused: "begin_validation i actor token now d = raise e d' \<Longrightarrow> onboarding_step sts settings (d, fl) (d', fl)"
| onboard_finish: "(a, actor) \<in> set fl \<Longrightarrow>
    onboarding_step sts settings (d, fl)
      (snd (finish_validation (acc_id a) actor (acc_validation_token a) (validate_account sts settings a t) now d),
       remove1 (a, actor) fl)"
| onboard_crash: "onboarding_step sts settings (d, fl) (d, remove1 x fl)"
| onboard_disconnect: "onboarding_step sts settings (d, fl) (snd (disconnect_account i actor d), fl)"
| onboard_delete: "onboarding_step sts settings (d, fl) (snd (delete_account elsewhere i actor now d), fl)"
| onboard_trust: "onboarding_step sts settings (d, fl) (snd (configure_trust ids i actor role_arn d), fl)"
| onboard_rotate: "onboarding_step sts settings (d, fl) (snd (rotate_external_id ids i actor d), fl)"
| onboard_clear: "onboarding_step sts settings (d, fl) (snd (clear_trust i actor d), fl)"
| onboard_grant: "onboarding_step sts settings (d, fl) (snd (grant_sandbox_approval i actor now d), fl)"
| onboard_revoke: "onboarding_step sts settings (d, fl) (snd (revoke_sandbox_approval i actor d), fl)"

definition same_role :: "AWSAccount \<Rightarrow> AWSAccount \<Rightarrow> bool" where
  "same_role a b = (acc_role_arn a = acc_role_arn b \<and> acc_external_id a = acc_external_id b \<and> acc_account_id a = acc_account_id b)"

text \<open>STS accepted the role and the external id of the account at some time, and the caller was the account.\<close>

definition verified :: "StsLibrary \<Rightarrow> AwsSettings \<Rightarrow> AWSAccount \<Rightarrow> bool" where
  "verified sts settings a = (\<exists>t credentials. assume_and_verify sts settings (connection_role settings a) t = Inr credentials)"

lemma verified_same: "same_role a b \<Longrightarrow> verified sts settings a = verified sts settings b"
  by (simp add: verified_def same_role_def connection_role_def)

definition is_connected :: "AWSAccount \<Rightarrow> bool" where
  "is_connected a = (acc_connection_status a = AWSAccountStatus.CONNECTED)"

text \<open>An open validation is one of the account's present role.\<close>

definition connections_ok :: "StsLibrary \<Rightarrow> AwsSettings \<Rightarrow> db \<times> validations \<Rightarrow> bool" where
  "connections_ok sts settings s =
     (keys_distinct acc_id (aws_accounts (fst s)) \<and>
      (\<forall>a \<in> set (aws_accounts (fst s)). is_connected a \<longrightarrow> verified sts settings a) \<and>
      (\<forall>x \<in> set (snd s). acc_validation_token (fst x) \<noteq> None \<and>
         (\<forall>a \<in> set (aws_accounts (fst s)). acc_id a = acc_id (fst x) \<and> acc_validation_token a = acc_validation_token (fst x) \<longrightarrow>
            same_role a (fst x))))"

text \<open>What an operation makes of an account: the identity stays, and the row keeps its role and its
  validation, or it loses the validation and is connected only if it was with the same role.\<close>

definition kept :: "AWSAccount \<Rightarrow> AWSAccount \<Rightarrow> bool" where
  "kept a a' = (acc_id a' = acc_id a \<and> acc_external_id a' = acc_external_id a \<and> acc_account_id a' = acc_account_id a)"

definition harmless :: "AWSAccount \<Rightarrow> AWSAccount \<Rightarrow> bool" where
  "harmless a a' =
     (kept a a' \<and> (is_connected a' \<longrightarrow> is_connected a \<and> acc_role_arn a' = acc_role_arn a) \<and>
      (acc_validation_token a' = acc_validation_token a \<and> acc_role_arn a' = acc_role_arn a \<or> acc_validation_token a' = None))"

lemma require_managed_Inr:
  assumes "require_managed i actor cap d = Inr a"
  shows "a \<in> set (aws_accounts d)" and "acc_id a = i"
    and "\<exists>m \<in> set (memberships d). m_user_id m = actor \<and> m_organization_id m = acc_organization_id a \<and>
      m_status m = MembershipStatus.ACTIVE \<and> role_has_capability (m_role m) cap"
proof -
  from assms obtain m where f: "aws_account_for_user i actor d = Some (a, m)" and c: "role_has_capability (m_role m) cap"
    by (auto simp: require_managed_def split: option.splits if_splits)
  note s = aws_account_for_user_Some [OF f]
  show "a \<in> set (aws_accounts d)" using s(1) by (auto simp: get_row_def find_Some_iff)
  show "acc_id a = i" by (rule s(2))
  show "\<exists>m \<in> set (memberships d). m_user_id m = actor \<and> m_organization_id m = acc_organization_id a \<and>
      m_status m = MembershipStatus.ACTIVE \<and> role_has_capability (m_role m) cap" using s c by blast
qed

lemma require_account_in: "require_account i actor d = Inr a \<Longrightarrow> a \<in> set (aws_accounts d)"
  by (auto simp: require_account_def split: option.splits if_splits dest!: aws_account_for_user_Some(1))
    (auto simp: get_row_def find_Some_iff)

lemma connections_put:
  assumes "connections_ok sts settings (d, fl)" and "a \<in> set (aws_accounts d)" and "acc_id a' = acc_id a"
    and "is_connected a' \<Longrightarrow> verified sts settings a'"
    and "\<And>x. x \<in> set fl' \<Longrightarrow> x \<in> set fl \<and> (acc_id (fst x) = acc_id a \<longrightarrow> acc_validation_token (fst x) = acc_validation_token a' \<longrightarrow> same_role a' (fst x))"
    and "aws_accounts d' = put_row acc_id a' (aws_accounts d)"
  shows "connections_ok sts settings (d', fl')"
proof -
  note ok = assms(1) [unfolded connections_ok_def fst_conv snd_conv]
  have mem: "b = a' \<or> b \<in> set (aws_accounts d)" if "b \<in> set (aws_accounts d')" for b
    using set_put_row [OF that [unfolded assms(6)]] by blast
  have "is_connected b \<longrightarrow> verified sts settings b" if "b \<in> set (aws_accounts d')" for b
    using mem [OF that] ok assms(4) by blast
  moreover have "same_role b (fst x)"
    if "x \<in> set fl'" "b \<in> set (aws_accounts d')" "acc_id b = acc_id (fst x)" "acc_validation_token b = acc_validation_token (fst x)" for x b
    using mem [OF that(2)] ok assms(3,5) that by metis
  moreover have "acc_validation_token (fst x) \<noteq> None" if "x \<in> set fl'" for x using ok assms(5) [OF that] by blast
  moreover have "keys_distinct acc_id (aws_accounts d')" using ok assms(6) by simp
  ultimately show ?thesis unfolding connections_ok_def fst_conv snd_conv by blast
qed

lemma connections_harmless:
  assumes "connections_ok sts settings (d, fl)" and "a \<in> set (aws_accounts d)" and "harmless a a'"
    and "aws_accounts d' = put_row acc_id a' (aws_accounts d)"
  shows "connections_ok sts settings (d', fl)"
proof (rule connections_put [OF assms(1,2) _ _ _ assms(4)])
  note ok = assms(1) [unfolded connections_ok_def fst_conv snd_conv]
  note h = assms(3) [unfolded harmless_def kept_def]
  show "acc_id a' = acc_id a" using h by blast
  show "verified sts settings a'" if "is_connected a'"
  proof -
    have "same_role a' a" using h that by (simp add: same_role_def)
    then show ?thesis using verified_same ok assms(2) h that by blast
  qed
  show "x \<in> set fl \<and> (acc_id (fst x) = acc_id a \<longrightarrow> acc_validation_token (fst x) = acc_validation_token a' \<longrightarrow> same_role a' (fst x))"
    if "x \<in> set fl" for x
  proof (intro conjI impI that)
    assume x: "acc_id (fst x) = acc_id a" "acc_validation_token (fst x) = acc_validation_token a'"
    have "acc_validation_token (fst x) \<noteq> None" using ok that by blast
    then have "acc_validation_token a' = acc_validation_token a" "acc_role_arn a' = acc_role_arn a" using h x by auto
    moreover from this have "same_role a (fst x)" using ok that assms(2) x by metis
    ultimately show "same_role a' (fst x)" using h by (simp add: same_role_def)
  qed
qed

lemma connections_same:
  "connections_ok sts settings (d, fl) \<Longrightarrow> aws_accounts d' = aws_accounts d \<Longrightarrow> set fl' \<subseteq> set fl \<Longrightarrow>
     connections_ok sts settings (d', fl')"
  by (auto simp: connections_ok_def)

definition account_rewritten :: "db \<Rightarrow> db \<Rightarrow> bool" where
  "account_rewritten d d' =
     (external_id_reservations d' = external_id_reservations d \<and>
      (aws_accounts d' = aws_accounts d \<or>
       (\<exists>a \<in> set (aws_accounts d). \<exists>a'. harmless a a' \<and> aws_accounts d' = put_row acc_id a' (aws_accounts d))))"

lemma rewritten_refl: "account_rewritten d d"
  by (simp add: account_rewritten_def)

lemma store_rewritten:
  assumes "a \<in> set (aws_accounts d)" and "harmless a a'"
  shows "account_rewritten d (snd (store_account event result actor a' d))"
  using assms by (auto simp: account_rewritten_def store_account_def account_audit_def Let_def)

lemma commit_rewritten:
  assumes "a \<in> set (aws_accounts d)" and "harmless a a'"
  shows "account_rewritten d (snd (commit_account event actor a' d))"
  using assms by (auto simp: account_rewritten_def commit_account_def Let_def)

lemma snd_sum_outcome: "snd (case r of (Inl e, d') \<Rightarrow> raise e d' | (Inr x, d') \<Rightarrow> return (f x) d') = snd r"
  by (cases r) (simp split: sum.split)

lemma harmless_rows [simp]:
  "harmless a a" "harmless a (with_role role a)" "harmless a (with_role role (a\<lparr>acc_name := n\<rparr>))"
  "harmless a (supersede_validation (a\<lparr>acc_name := n\<rparr>))"
  "harmless a (supersede_validation (a\<lparr>acc_status := AWSAccountStatus.DISCONNECTED,
     acc_connection_status := AWSAccountStatus.DISCONNECTED, acc_failure_reason := None\<rparr>))"
  "harmless a (revoke_approval a)" "harmless a (revoke_approval (a\<lparr>acc_remediation_role_arn := r, acc_remediation_external_id := x\<rparr>))"
  "harmless a (revoke_approval (a\<lparr>acc_remediation_external_id := x\<rparr>))"
  "harmless a (a\<lparr>acc_sandbox_approved := s, acc_sandbox_approved_at := at, acc_sandbox_approved_by_user_id := by'\<rparr>)"
  by (simp_all add: harmless_def kept_def with_role_def supersede_validation_def is_connected_def revoke_approval_def)

lemma operations_rewrite:
  "account_rewritten d (snd (update_role i actor role_arn d))"
  "account_rewritten d (snd (update_account i actor new_name role d))"
  "account_rewritten d (snd (get_onboarding_account i actor d))"
  "account_rewritten d (snd (disconnect_account i actor d))"
  by (auto simp: update_role_def update_account_def get_onboarding_account_def disconnect_account_def account_audit_def
      account_rewritten_def [of d "record_audit e t r ou au ru d" for e t r ou au ru]
      Let_def rewritten_refl intro!: store_rewritten dest!: require_managed_Inr(1) split: sum.split option.split)

lemma admin_rewrites:
  "account_rewritten d (snd (configure_trust ids i actor role_arn d))"
  "account_rewritten d (snd (rotate_external_id ids i actor d))"
  "account_rewritten d (snd (clear_trust i actor d))"
  "account_rewritten d (snd (grant_sandbox_approval i actor now d))"
  "account_rewritten d (snd (revoke_sandbox_approval i actor d))"
  by (auto simp: configure_trust_def rotate_external_id_def clear_trust_def grant_sandbox_approval_def
      revoke_sandbox_approval_def snd_sum_outcome Let_def rewritten_refl
      intro!: commit_rewritten dest!: require_account_in split: sum.split option.split prod.split)

lemma connections_rewritten:
  assumes "connections_ok sts settings (d, fl)" and "account_rewritten d d'"
  shows "connections_ok sts settings (d', fl)"
  using assms(2) connections_harmless [OF assms(1)] connections_same [OF assms(1)]
  unfolding account_rewritten_def by blast

lemma begin_validation_returns:
  assumes "begin_validation i actor token now d = return a' d'"
  obtains a where "a \<in> set (aws_accounts d)" and "same_role a' a" and "acc_id a' = acc_id a" and "acc_validation_token a' = Some token"
    and "acc_connection_status a' = acc_connection_status a" and "aws_accounts d' = put_row acc_id a' (aws_accounts d)"
    and "external_id_reservations d' = external_id_reservations d" and "acc_validation_token a = None" and "acc_role_arn a \<noteq> None"
  using assms that by (auto simp: begin_validation_def Let_def same_role_def account_audit_def split: sum.splits if_splits
      dest!: require_managed_Inr(1))

lemma begin_validation_raises: "begin_validation i actor token now d = raise e d' \<Longrightarrow> d' = d"
  by (auto simp: begin_validation_def Let_def split: sum.splits if_splits)

lemma finish_validation_effect:
  fixes i actor token result now d
  defines "d' \<equiv> snd (finish_validation i actor token result now d)"
  shows "external_id_reservations d' = external_id_reservations d \<and>
    (aws_accounts d' = aws_accounts d \<or>
     (\<exists>a \<in> set (aws_accounts d). acc_id a = i \<and> acc_validation_token a = token \<and>
        aws_accounts d' = put_row acc_id (validated result now a) (aws_accounts d)))"
proof (cases "require_managed i actor AWS_ACCOUNTS_MANAGE d")
  case (Inl e)
  then show ?thesis by (simp add: d'_def finish_validation_def)
next
  case (Inr a)
  note a = require_managed_Inr(1,2) [OF Inr]
  show ?thesis
  proof (cases "acc_validation_token a = token")
    case True
    then show ?thesis using Inr a
      by (auto simp: d'_def finish_validation_def Let_def store_account_def account_audit_def)
  qed (use Inr in \<open>simp add: d'_def finish_validation_def\<close>)
qed

lemma validated_fields [simp]:
  "acc_id (validated result now a) = acc_id a" "acc_role_arn (validated result now a) = acc_role_arn a"
  "acc_external_id (validated result now a) = acc_external_id a" "acc_account_id (validated result now a) = acc_account_id a"
  "acc_validation_token (validated result now a) = None"
  by (simp_all add: validated_def supersede_validation_def Let_def split: sum.split)

lemma validated_connected: "is_connected (validated result now a) \<longleftrightarrow> result = Inr (acc_account_id a)"
  by (auto simp: validated_def supersede_validation_def Let_def is_connected_def split: sum.split)

lemma validate_account_Inr: "validate_account sts settings a t = Inr number \<Longrightarrow> number = acc_account_id a \<and> verified sts settings a"
  by (auto simp: validate_account_def current_credentials_def verified_def Let_def split: sum.splits)

lemma create_account_effect:
  fixes settings org actor name number draws new_account now d
  defines "d' \<equiv> snd (create_account settings org actor name number draws new_account now d)"
  shows "aws_accounts d' = aws_accounts d \<and> external_id_reservations d' = external_id_reservations d \<or>
    (\<exists>a r. aws_accounts d' = aws_accounts d @ [a] \<and> acc_id a = new_account \<and> \<not> is_connected a \<and> acc_validation_token a = None \<and>
       keys_distinct acc_id (aws_accounts d @ [a]) \<and> acc_external_id a = xi_external_id r \<and> (\<exists>n. r = reservation org now (draws n)) \<and>
       external_id_reservations d' = external_id_reservations d @ [r\<lparr>xi_aws_account_id := Some new_account\<rparr>] \<and>
       reservation_unique (external_id_reservations d'))"
proof -
  have "\<exists>n. r = reservation org now (draws n)" if "reserve_external_id org draws now d = Inr r" for r
    using that by (auto simp: reserve_external_id_def find_Some_iff split: option.splits)
  then show ?thesis
    by (auto simp: d'_def create_account_def Let_def account_audit_def is_connected_def split: sum.split)
qed

lemma delete_account_effect:
  fixes elsewhere i actor now d
  defines "d' \<equiv> snd (delete_account elsewhere i actor now d)"
  shows "d' = d \<or>
    (\<exists>r \<in> set (external_id_reservations d). xi_aws_account_id r = Some i \<and>
       aws_accounts d' = filter (\<lambda>a. acc_id a \<noteq> i) (aws_accounts d) \<and>
       external_id_reservations d' = put_row xi_id (r\<lparr>xi_aws_account_id := None, xi_retired_at := Some now\<rparr>) (external_id_reservations d))"
proof (cases "require_managed i actor AWS_ACCOUNTS_MANAGE d")
  case (Inr a)
  note a = require_managed_Inr(2) [OF Inr]
  show ?thesis
  proof (cases "find (\<lambda>r. xi_aws_account_id r = Some (acc_id a)) (external_id_reservations d)")
    case (Some r)
    then have "r \<in> set (external_id_reservations d)" "xi_aws_account_id r = Some i" using a by (auto simp: find_Some_iff)
    then show ?thesis using Inr Some a by (auto simp: d'_def delete_account_def account_audit_def cascade_account_def Let_def)
  qed (use Inr in \<open>simp add: d'_def delete_account_def\<close>)
qed (simp add: d'_def delete_account_def)

lemma onboarding_step_connections: "onboarding_step sts settings s t \<Longrightarrow> connections_ok sts settings s \<Longrightarrow> connections_ok sts settings t"
proof (induction rule: onboarding_step.induct)
  case (onboard_create new_account d fl draws org actor name number now)
  from create_account_effect [of settings org actor name number draws new_account now d]
  show ?case
  proof (elim disjE exE conjE)
    fix a r
    assume "aws_accounts (snd (create_account settings org actor name number draws new_account now d)) = aws_accounts d @ [a]"
      "acc_id a = new_account" "\<not> is_connected a" "keys_distinct acc_id (aws_accounts d @ [a])"
    then show ?thesis using onboard_create(2,5) by (force simp: connections_ok_def)
  qed (use onboard_create(5) connections_same in blast)
next
  case (onboard_begin i actor token now d a' d' fl)
  from onboard_begin(1) obtain a where a: "a \<in> set (aws_accounts d)" "same_role a' a" "acc_id a' = acc_id a"
    "acc_validation_token a' = Some token" "acc_connection_status a' = acc_connection_status a"
    "aws_accounts d' = put_row acc_id a' (aws_accounts d)" by (rule begin_validation_returns)
  have ok: "connections_ok sts settings (d', fl)"
  proof (rule connections_put [OF onboard_begin(3) a(1,3) _ _ a(6)])
    show "verified sts settings a'" if "is_connected a'"
      using that a(1,2,5) onboard_begin(3) verified_same [OF a(2)] by (auto simp: connections_ok_def is_connected_def)
    show "x \<in> set fl \<and> (acc_id (fst x) = acc_id a \<longrightarrow> acc_validation_token (fst x) = acc_validation_token a' \<longrightarrow> same_role a' (fst x))"
      if "x \<in> set fl" for x using that onboard_begin(2) a(4) by (metis comp_apply image_eqI)
  qed
  have "b = a'" if "b \<in> set (aws_accounts d')" "acc_id b = acc_id a'" for b
    using set_put_row [OF that(1) [unfolded a(6)]] that(2) by blast
  then show ?case using ok a(4) by (auto simp: connections_ok_def same_role_def)
next
  case (onboard_begin_refused i actor token now d e d' fl)
  then show ?case using begin_validation_raises by blast
next
  case (onboard_finish a actor fl d t now)
  let ?result = "validate_account sts settings a t"
  have sub: "set (remove1 (a, actor) fl) \<subseteq> set fl" by (rule set_remove1_subset)
  from finish_validation_effect [of "acc_id a" actor "acc_validation_token a" ?result now d] show ?case
  proof (elim conjE disjE bexE)
    fix b
    assume b: "b \<in> set (aws_accounts d)" "acc_id b = acc_id a" "acc_validation_token b = acc_validation_token a"
      and put: "aws_accounts (snd (finish_validation (acc_id a) actor (acc_validation_token a) ?result now d)) =
        put_row acc_id (validated ?result now b) (aws_accounts d)"
    have same: "same_role b a" using onboard_finish b unfolding connections_ok_def by force
    show ?thesis
    proof (rule connections_put [OF onboard_finish(2) b(1) _ _ _ put])
      show "verified sts settings (validated ?result now b)" if "is_connected (validated ?result now b)"
      proof -
        have "verified sts settings a" using that validate_account_Inr validated_connected by blast
        moreover have "same_role (validated ?result now b) a" using same by (simp add: same_role_def)
        ultimately show ?thesis using verified_same by blast
      qed
      show "x \<in> set fl \<and> (acc_id (fst x) = acc_id b \<longrightarrow> acc_validation_token (fst x) = acc_validation_token (validated ?result now b) \<longrightarrow>
          same_role (validated ?result now b) (fst x))" if "x \<in> set (remove1 (a, actor) fl)" for x
      proof -
        have x: "x \<in> set fl" using that sub by blast
        then have "acc_validation_token (fst x) \<noteq> None"
          using onboard_finish(2) unfolding connections_ok_def snd_conv by blast
        with x show ?thesis by auto
      qed
    qed simp
  qed (use connections_same [OF onboard_finish(2) _ sub] in blast)
next
  case (onboard_crash d fl x)
  then show ?case by (rule connections_same) (simp_all add: set_remove1_subset)
next
  case (onboard_delete d fl elsewhere i actor now)
  from delete_account_effect [of elsewhere i actor now d] show ?case
  proof (elim disjE bexE conjE)
    assume f: "aws_accounts (snd (delete_account elsewhere i actor now d)) = filter (\<lambda>a. acc_id a \<noteq> i) (aws_accounts d)"
    have "distinct (map acc_id (filter (\<lambda>a. acc_id a \<noteq> i) (aws_accounts d)))"
      using onboard_delete by (simp add: connections_ok_def keys_distinct_def distinct_map_filter)
    then show ?thesis using onboard_delete f by (auto simp: connections_ok_def keys_distinct_def)
  qed (use onboard_delete in simp)
qed (auto intro: connections_rewritten operations_rewrite admin_rewrites)

interpretation connections: transition_system "onboarding_step sts settings" "connections_ok sts settings"
  for sts settings by unfold_locales (rule onboarding_step_connections)

section \<open>External ids\<close>

definition reserved_ok :: "db \<Rightarrow> bool" where
  "reserved_ok d =
     (keys_distinct xi_id (external_id_reservations d) \<and> reservation_unique (external_id_reservations d) \<and>
      (\<forall>a \<in> set (aws_accounts d). \<exists>r \<in> set (external_id_reservations d).
         xi_external_id r = acc_external_id a \<and> xi_aws_account_id r = Some (acc_id a)))"

definition issued_to :: "string \<Rightarrow> uuid \<Rightarrow> db \<Rightarrow> bool" where
  "issued_to external_id account d =
     (\<exists>r \<in> set (external_id_reservations d). xi_external_id r = external_id \<and> xi_aws_account_id r \<in> {Some account, None})"

lemma reserved_kept:
  assumes "reserved_ok d" and "external_id_reservations d' = external_id_reservations d" and "a \<in> set (aws_accounts d)"
    and "kept a a'" and "aws_accounts d' = put_row acc_id a' (aws_accounts d)"
  shows "reserved_ok d'"
proof -
  note ok = assms(1) [unfolded reserved_ok_def]
  have "\<exists>r \<in> set (external_id_reservations d). xi_external_id r = acc_external_id b \<and> xi_aws_account_id r = Some (acc_id b)"
    if "b \<in> set (aws_accounts d')" for b
    using set_put_row [OF that [unfolded assms(5)]] ok assms(3,4) unfolding kept_def by metis
  then show ?thesis using ok assms(2) unfolding reserved_ok_def by simp
qed

lemma reserved_rewritten: "reserved_ok d \<Longrightarrow> account_rewritten d d' \<Longrightarrow> reserved_ok d'"
  unfolding account_rewritten_def harmless_def using reserved_kept by (metis reserved_ok_def)

lemma reserved_delete:
  assumes "reserved_ok d" and "r \<in> set (external_id_reservations d)" and "xi_aws_account_id r = Some i"
    and "aws_accounts d' = filter (\<lambda>a. acc_id a \<noteq> i) (aws_accounts d)"
    and "external_id_reservations d' = put_row xi_id (r\<lparr>xi_aws_account_id := None, xi_retired_at := Some now\<rparr>) (external_id_reservations d)"
  shows "reserved_ok d'"
proof -
  let ?r = "r\<lparr>xi_aws_account_id := None, xi_retired_at := Some now\<rparr>"
  note ok = assms(1) [unfolded reserved_ok_def reservation_unique_def]
  have k: "keys_distinct xi_id (external_id_reservations d)" using ok by blast
  have row: "get_row xi_id (xi_id ?r) (external_id_reservations d) = Some r" using get_row_distinct [OF k assms(2)] by simp
  have "unique_on (\<lambda>r. True) xi_external_id (external_id_reservations d')"
    unfolding assms(5) by (rule unique_on_put_row [OF k row]) (use ok in simp_all)
  moreover have "unique_on (\<lambda>r. xi_aws_account_id r \<noteq> None) xi_aws_account_id (external_id_reservations d')"
    unfolding assms(5) by (rule unique_on_put_row_fresh [OF k]) (use ok in simp_all)
  moreover have "\<exists>s \<in> set (external_id_reservations d'). xi_external_id s = acc_external_id a \<and> xi_aws_account_id s = Some (acc_id a)"
    if "a \<in> set (aws_accounts d')" for a
  proof -
    from that ok obtain s where s: "s \<in> set (external_id_reservations d)" "xi_external_id s = acc_external_id a" "xi_aws_account_id s = Some (acc_id a)"
      unfolding assms(4) by auto
    have "acc_id a \<noteq> i" using that unfolding assms(4) by simp
    then have "s \<noteq> r" using s(3) assms(3) by auto
    then have "xi_id s \<noteq> xi_id ?r" using s(1) assms(2) k unfolding keys_distinct_def distinct_map by (auto dest: inj_onD)
    then show ?thesis using in_put_row_other [OF s(1)] s(2,3) unfolding assms(5) by metis
  qed
  ultimately show ?thesis using k assms(5) by (simp add: reserved_ok_def reservation_unique_def)
qed


lemma reserved_create:
  assumes "reserved_ok d" and "aws_accounts d' = aws_accounts d @ [a]" and "acc_external_id a = xi_external_id r"
    and "xi_id r \<notin> xi_id ` set (external_id_reservations d)"
    and "external_id_reservations d' = external_id_reservations d @ [r\<lparr>xi_aws_account_id := Some (acc_id a)\<rparr>]"
    and "reservation_unique (external_id_reservations d')"
  shows "reserved_ok d'"
  using assms by (auto simp: reserved_ok_def keys_distinct_def)

lemma reservation_fields [simp]: "xi_id (reservation org now draw) = fst draw"
    "xi_external_id (reservation org now draw) = onboarding_external_id (snd draw)"
  by (simp_all add: reservation_def)

lemma issued_put:
  assumes "issued_to e x d" and "xi_id r' = xi_id r" and "r \<in> set (external_id_reservations d)"
    and "xi_external_id r' = xi_external_id r" and "xi_aws_account_id r' = None"
    and "keys_distinct xi_id (external_id_reservations d)" and "external_id_reservations d' = put_row xi_id r' (external_id_reservations d)"
  shows "issued_to e x d'"
proof -
  from assms(1) obtain s where s: "s \<in> set (external_id_reservations d)" "xi_external_id s = e" "xi_aws_account_id s \<in> {Some x, None}"
    by (auto simp: issued_to_def)
  show ?thesis
  proof (cases "xi_id s = xi_id r'")
    case True
    then have "s = r" using s(1) assms(2,3,6) unfolding keys_distinct_def distinct_map by (auto dest: inj_onD)
    moreover have "r' \<in> set (external_id_reservations d')" unfolding assms(7) by (rule in_put_row_same [OF s(1) True])
    ultimately show ?thesis using s assms(4,5) unfolding issued_to_def by (intro bexI [of _ r']) auto
  next
    case False
    then show ?thesis using in_put_row_other [OF s(1) False] s(2,3) unfolding issued_to_def assms(7) by blast
  qed
qed

lemma onboarding_step_reserved:
  "onboarding_step sts settings s t \<Longrightarrow> reserved_ok (fst s) \<Longrightarrow>
     reserved_ok (fst t) \<and> (issued_to e x (fst s) \<longrightarrow> issued_to e x (fst t))"
proof (induction rule: onboarding_step.induct)
  case (onboard_create new_account d fl draws org actor name number now)
  let ?d = "snd (create_account settings org actor name number draws new_account now d)"
  from create_account_effect [of settings org actor name number draws new_account now d]
  consider (none) "aws_accounts ?d = aws_accounts d" "external_id_reservations ?d = external_id_reservations d"
    | (new) a r n where "aws_accounts ?d = aws_accounts d @ [a]" "acc_id a = new_account" "acc_external_id a = xi_external_id r"
      "r = reservation org now (draws n)" "external_id_reservations ?d = external_id_reservations d @ [r\<lparr>xi_aws_account_id := Some new_account\<rparr>]"
      "reservation_unique (external_id_reservations ?d)" by blast
  then have "reserved_ok ?d \<and> (issued_to e x d \<longrightarrow> issued_to e x ?d)"
  proof cases
    case none
    then show ?thesis using onboard_create(5) by (simp add: reserved_ok_def issued_to_def)
  next
    case (new a r n)
    have "reserved_ok ?d"
      by (rule reserved_create [OF _ new(1,3)]) (use new onboard_create(4,5) in simp_all)
    then show ?thesis using new(5) by (auto simp: issued_to_def)
  qed
  then show ?case by simp
next
  case (onboard_begin i actor token now d a' d' fl)
  from onboard_begin(1) obtain a where a: "a \<in> set (aws_accounts d)" "same_role a' a" "acc_id a' = acc_id a"
    "aws_accounts d' = put_row acc_id a' (aws_accounts d)" "external_id_reservations d' = external_id_reservations d"
    by (rule begin_validation_returns)
  have "reserved_ok d'"
    by (rule reserved_kept [OF _ a(5,1) _ a(4)]) (use a(2,3) onboard_begin(3) in \<open>simp_all add: kept_def same_role_def\<close>)
  then show ?case using a(5) by (simp add: issued_to_def)
next
  case (onboard_begin_refused i actor token now d e d' fl)
  then show ?case using begin_validation_raises by fastforce
next
  case (onboard_finish a actor fl d t now)
  let ?d = "snd (finish_validation (acc_id a) actor (acc_validation_token a) (validate_account sts settings a t) now d)"
  from finish_validation_effect [of "acc_id a" actor "acc_validation_token a" "validate_account sts settings a t" now d]
  consider (none) "aws_accounts ?d = aws_accounts d" "external_id_reservations ?d = external_id_reservations d"
    | (put) b where "b \<in> set (aws_accounts d)" "external_id_reservations ?d = external_id_reservations d"
      "aws_accounts ?d = put_row acc_id (validated (validate_account sts settings a t) now b) (aws_accounts d)" by blast
  then have "reserved_ok ?d \<and> (issued_to e x d \<longrightarrow> issued_to e x ?d)"
  proof cases
    case none
    then show ?thesis using onboard_finish(2) by (simp add: reserved_ok_def issued_to_def)
  next
    case put
    have "reserved_ok ?d"
      by (rule reserved_kept [OF _ put(2,1) _ put(3)]) (use onboard_finish(2) in \<open>simp_all add: kept_def\<close>)
    then show ?thesis using put(2) by (simp add: issued_to_def)
  qed
  then show ?case by simp
next
  case (onboard_delete d fl elsewhere i actor now)
  let ?d = "snd (delete_account elsewhere i actor now d)"
  from delete_account_effect [of elsewhere i actor now d] consider "?d = d"
    | r where "r \<in> set (external_id_reservations d)" "xi_aws_account_id r = Some i"
       "aws_accounts ?d = filter (\<lambda>a. acc_id a \<noteq> i) (aws_accounts d)"
       "external_id_reservations ?d = put_row xi_id (r\<lparr>xi_aws_account_id := None, xi_retired_at := Some now\<rparr>) (external_id_reservations d)"
    by blast
  then have "reserved_ok ?d \<and> (issued_to e x d \<longrightarrow> issued_to e x ?d)"
  proof cases
    case 1
    then show ?thesis using onboard_delete by simp
  next
    case (2 r)
    have "reserved_ok d" using onboard_delete by simp
    from reserved_delete [OF this 2] issued_put [OF _ _ 2(1) _ _ _ 2(4)] this show ?thesis by (simp add: reserved_ok_def)
  qed
  then show ?case by simp
qed (auto intro: reserved_rewritten [OF _ operations_rewrite(1)] reserved_rewritten [OF _ operations_rewrite(2)]
    reserved_rewritten [OF _ operations_rewrite(3)] reserved_rewritten [OF _ operations_rewrite(4)]
    reserved_rewritten [OF _ admin_rewrites(1)] reserved_rewritten [OF _ admin_rewrites(2)]
    reserved_rewritten [OF _ admin_rewrites(3)] reserved_rewritten [OF _ admin_rewrites(4)] reserved_rewritten [OF _ admin_rewrites(5)]
    simp: issued_to_def operations_rewrite [unfolded account_rewritten_def] admin_rewrites [unfolded account_rewritten_def])

interpretation external_ids: transition_system "onboarding_step sts settings" "\<lambda>s. reserved_ok (fst s)"
  for sts settings by unfold_locales (use onboarding_step_reserved in blast)

interpretation issued_external_ids: transition_system "onboarding_step sts settings" "\<lambda>s. reserved_ok (fst s) \<and> issued_to e x (fst s)"
  for sts settings e x by unfold_locales (use onboarding_step_reserved in blast)


section \<open>Properties\<close>

text \<open>
  C35. A connected account is a verified one: whatever changes of accounts, validations in flight,
  crashes and remediation settings happened, an account is connected only if STS accepted the
  role and the external id it has now, and the identity behind the credentials was the registered
  AWS account.
\<close>

theorem connected_accounts_are_verified:
  assumes "(onboarding_step sts settings)\<^sup>*\<^sup>* (d0, []) (d, fl)" and "keys_distinct acc_id (aws_accounts d0)"
    and "\<forall>a \<in> set (aws_accounts d0). acc_connection_status a \<noteq> AWSAccountStatus.CONNECTED"
    and "a \<in> set (aws_accounts d)" and "acc_connection_status a = AWSAccountStatus.CONNECTED"
  shows "\<exists>t credentials role_arn. acc_role_arn a = Some role_arn \<and>
    assume_and_verify sts settings (connection_role settings a) t = Inr credentials \<and>
    st_identity sts credentials t = StsReply (acc_account_id a)"
proof -
  have "connections_ok sts settings (d0, [])" using assms(2,3) by (simp add: connections_ok_def is_connected_def)
  from connections.inv_reachable [OF assms(1) this] have "verified sts settings a"
    using assms(4,5) by (simp add: connections_ok_def is_connected_def)
  then obtain t credentials where v: "assume_and_verify sts settings (connection_role settings a) t = Inr credentials"
    by (auto simp: verified_def)
  then have "\<exists>role_arn. acc_role_arn a = Some role_arn" and "st_identity sts credentials t = StsReply (acc_account_id a)"
    by (auto simp: assume_and_verify_def connection_role_def Let_def split: option.splits sts_reply.splits if_splits)
  with v show ?thesis by blast
qed

text \<open>
  C36. An external id is issued once: when it was ever reserved for an account, no other account
  has it in any later state, also after the first one was deleted.
\<close>

theorem external_id_never_reissued:
  assumes "reserved_ok d" and "a \<in> set (aws_accounts d)" and "(onboarding_step sts settings)\<^sup>*\<^sup>* (d, fl) (d', fl')"
    and "b \<in> set (aws_accounts d')" and "acc_external_id b = acc_external_id a"
  shows "acc_id b = acc_id a"
proof -
  have "issued_to (acc_external_id a) (acc_id a) d" using assms(1,2) unfolding reserved_ok_def issued_to_def by blast
  then have ok: "reserved_ok d'" and "issued_to (acc_external_id a) (acc_id a) d'"
    using issued_external_ids.inv_reachable [OF assms(3), of "acc_external_id a" "acc_id a"] assms(1) by simp_all
  then obtain r where r: "r \<in> set (external_id_reservations d')" "xi_external_id r = acc_external_id a"
    "xi_aws_account_id r \<in> {Some (acc_id a), None}" by (auto simp: issued_to_def)
  from ok assms(4) obtain s where s: "s \<in> set (external_id_reservations d')" "xi_external_id s = acc_external_id b"
    "xi_aws_account_id s = Some (acc_id b)" by (auto simp: reserved_ok_def)
  have "unique_on (\<lambda>r. True) xi_external_id (external_id_reservations d')" using ok by (simp add: reserved_ok_def reservation_unique_def)
  from unique_onD [OF this s(1) r(1)] have "s = r" using r(2) s(2) assms(5) by simp
  then show ?thesis using r(3) s(3) by auto
qed

text \<open>
  A validation whose caller lost the permission while STS was asked never ends: storing the
  result is refused, whatever the result, and the row keeps the token, so every other
  authorized member is told that a validation is running, at any later time.
\<close>

theorem abandoned_validation_blocks:
  assumes "begin_validation i actor token now d = return a d1" and "a \<in> set (aws_accounts d2)"
    and "keys_distinct acc_id (aws_accounts d2)"
    and "require_managed i actor AWS_ACCOUNTS_MANAGE d2 = Inl e"
    and "require_managed i other AWS_ACCOUNTS_MANAGE d2 = Inr a'"
  shows "finish_validation i actor (Some token) result later d2 = raise e d2 \<and> e \<noteq> ConflictError ''validation_superseded'' \<and>
    begin_validation i other token' much_later d2 = raise (ConflictError ''validation_already_running'') d2"
proof -
  from assms(1) obtain b where b: "acc_id a = acc_id b" "acc_validation_token a = Some token" "same_role a b" "acc_role_arn b \<noteq> None"
    by (rule begin_validation_returns)
  have "acc_id a = i" using assms(1)
    by (auto simp: begin_validation_def Let_def split: sum.splits if_splits dest!: require_managed_Inr(2))
  moreover have "a' \<in> set (aws_accounts d2)" "acc_id a' = i" using require_managed_Inr(1,2) [OF assms(5)] by blast+
  ultimately have "a' = a" using assms(2,3) unfolding keys_distinct_def distinct_map by (auto dest: inj_onD)
  then have "begin_validation i other token' much_later d2 = raise (ConflictError ''validation_already_running'') d2"
    using assms(5) b by (simp add: begin_validation_def same_role_def)
  moreover have "e \<noteq> ConflictError ''validation_superseded''"
    using assms(4) by (auto simp: require_managed_def split: option.splits if_splits)
  ultimately show ?thesis using assms(4) by (simp add: finish_validation_def)
qed

text \<open>
  An account with a history cannot be deleted: as soon as one remediation request refers to it,
  whatever its state, or a risk assessment has scored it, every deletion of an authorized caller
  fails in the commit with an integrity error, which the service does not handle.
\<close>

theorem deletion_fails_after_remediation:
  assumes "reserved_ok d" and "require_managed i actor AWS_ACCOUNTS_MANAGE d = Inr a"
  shows "delete_account elsewhere i actor now d = raise IntegrityError d \<longleftrightarrow>
    (\<exists>r \<in> set (remediation_requests d). rr_aws_account_id r = i) \<or> elsewhere i"
proof -
  note a = require_managed_Inr(1,2) [OF assms(2)]
  with assms(1) obtain r where "r \<in> set (external_id_reservations d)" "xi_aws_account_id r = Some (acc_id a)"
    by (auto simp: reserved_ok_def)
  then obtain s where "find (\<lambda>r. xi_aws_account_id r = Some (acc_id a)) (external_id_reservations d) = Some s"
    by (cases "find (\<lambda>r. xi_aws_account_id r = Some (acc_id a)) (external_id_reservations d)") (auto simp: find_None_iff)
  then show ?thesis using assms(2) a by (auto simp: delete_account_def deletion_restricted_def list_ex_iff)
qed

text \<open>
  Credentials are handed out verified and unexpired: what \<^verbatim>\<open>_current_credentials\<close> answers is
  either fresh from STS, checked against the registered account, or stays valid for more than the
  refresh window, and the cache afterwards is the answer.
\<close>

theorem credentials_stay_valid:
  assumes "current_credentials sts settings target now cached = (cache, Inr c)"
  shows "cache = Some c \<and>
    (assume_and_verify sts settings target now = Inr c \<or>
     cached = Some c \<and> now + timedelta_seconds (aws_credential_refresh_window_seconds settings) < tc_expires_at c)"
  using assms by (auto simp: current_credentials_def Let_def split: sum.splits option.splits if_splits)


section \<open>A sample account\<close>

definition registered_account :: AWSAccount where
  "registered_account =
     \<lparr>acc_id = 3, acc_organization_id = 2, acc_name = ''prod'', acc_account_id = ''123456789012'',
      acc_role_arn = Some ''arn:aws:iam::123456789012:role/CloudOps'', acc_external_id = ''cloudops-x'',
      acc_remediation_role_arn = None, acc_remediation_external_id = None, acc_sandbox_approved = False,
      acc_sandbox_approved_at = None, acc_sandbox_approved_by_user_id = None, acc_status = AWSAccountStatus.PENDING,
      acc_connection_status = AWSAccountStatus.PENDING, acc_failure_reason = None, acc_last_validated_at = None,
      acc_validation_token = None, acc_validation_started_at = None, acc_lifecycle_version = 1,
      acc_created_by_user_id = 7\<rparr>"

definition registered :: db where
  "registered = sample_org\<lparr>aws_accounts := [registered_account],
     memberships := map (\<lambda>m. m\<lparr>m_role := OrganizationRole.OWNER\<rparr>) (memberships sample_org),
     external_id_reservations :=
       [\<lparr>xi_id = 70, xi_external_id = ''cloudops-x'', xi_aws_account_id = Some 3, xi_organization_id = 2,
         xi_issued_at = 0, xi_retired_at = None\<rparr>]\<rparr>"

definition sample_aws_settings :: AwsSettings where
  "sample_aws_settings = \<lparr>aws_role_session_name = ''CloudOps'', aws_role_session_duration_seconds = 900,
     aws_credential_refresh_window_seconds = 60, aws_trusted_principal_arn = ''arn:aws:iam::999999999999:root'',
     aws_trusted_principal_arns = []\<rparr>"

definition sample_sts :: StsLibrary where
  "sample_sts = \<lparr>st_assume = (\<lambda>role external_id session duration now. StsReply (''AKIA'', ''secret'', ''token'', None)),
     st_identity = (\<lambda>credentials now. StsReply ''123456789012'')\<rparr>"

lemma registered_managed [simp]:
  "user \<in> {7, 8} \<Longrightarrow> require_managed 3 user AWS_ACCOUNTS_MANAGE registered = Inr registered_account"
  by (auto simp: require_managed_def aws_account_for_user_def registered_def registered_account_def get_row_def
      active_membership_def sample_org_def)

lemma registered_reserved: "reserved_ok registered"
  by (simp add: reserved_ok_def registered_def registered_account_def keys_distinct_def reservation_unique_def)

definition validating :: db where "validating = snd (begin_validation 3 7 90 0 registered)"

definition validating_account :: AWSAccount where
  "validating_account = registered_account\<lparr>acc_validation_token := Some 90, acc_validation_started_at := Some 0,
     acc_lifecycle_version := 2\<rparr>"

lemma validating_eval:
  "begin_validation 3 7 90 0 registered = return validating_account validating"
  "aws_accounts validating = [validating_account]" "memberships validating = memberships registered"
proof -
  have rows: "aws_accounts registered = [registered_account]" by (simp add: registered_def)
  show "begin_validation 3 7 90 0 registered = return validating_account validating"
    by (simp add: validating_def begin_validation_def validating_account_def registered_account_def Let_def)
  show "aws_accounts validating = [validating_account]" "memberships validating = memberships registered"
    by (simp_all add: validating_def begin_validation_def validating_account_def Let_def account_audit_def rows registered_account_def)
qed

definition connected_db :: db where
  "connected_db = snd (finish_validation 3 7 (Some 90) (validate_account sample_sts sample_aws_settings validating_account 1) 2 validating)"

theorem connected_accounts_are_verified_witness:
  "\<exists>t credentials. assume_and_verify sample_sts sample_aws_settings
       (connection_role sample_aws_settings (hd (aws_accounts connected_db))) t = Inr credentials"
proof -
  have begun: "onboarding_step sample_sts sample_aws_settings (registered, []) (validating, [(validating_account, 7)])"
    using onboard_begin [OF validating_eval(1), of "[]"] by simp
  have finish: "onboarding_step sample_sts sample_aws_settings (validating, [(validating_account, 7)]) (connected_db, [])"
    using onboard_finish [of validating_account 7 "[(validating_account, 7)]" sample_sts sample_aws_settings validating 1 2]
    by (simp add: connected_db_def validating_account_def) (simp add: registered_account_def)
  have steps: "(onboarding_step sample_sts sample_aws_settings)\<^sup>*\<^sup>* (registered, []) (connected_db, [])"
    using begun finish by (meson r_into_rtranclp rtranclp.rtrancl_into_rtrancl)
  have result: "validate_account sample_sts sample_aws_settings validating_account 1 = Inr ''123456789012''"
    by (simp add: validate_account_def current_credentials_def assume_and_verify_def connection_role_def sample_sts_def
        validating_account_def registered_account_def Let_def)
  have "require_managed 3 7 AWS_ACCOUNTS_MANAGE validating = Inr validating_account"
    by (simp add: require_managed_def aws_account_for_user_def validating_eval get_row_def active_membership_def
        validating_account_def registered_account_def registered_def sample_org_def)
  then have "aws_accounts connected_db = [validated (Inr ''123456789012'') 2 validating_account]"
    by (simp add: connected_db_def result finish_validation_def Let_def store_account_def account_audit_def validating_eval
        aws_account_unique_def) (simp add: validating_account_def registered_account_def)
  moreover have "acc_connection_status (validated (Inr ''123456789012'') 2 validating_account) = AWSAccountStatus.CONNECTED"
    by (simp add: validated_def supersede_validation_def validating_account_def registered_account_def)
  moreover have "aws_accounts registered = [registered_account]" "acc_connection_status registered_account \<noteq> AWSAccountStatus.CONNECTED"
    by (simp_all add: registered_def registered_account_def)
  ultimately show ?thesis
    using connected_accounts_are_verified [OF steps, of "hd (aws_accounts connected_db)"] by auto
qed

theorem external_id_never_reissued_witness:
  "\<exists>b \<in> set (aws_accounts (snd (create_account sample_aws_settings 2 7 ''dev'' ''210987654321'' (\<lambda>n. (71 + n, ''x'')) 4 9 registered))).
     acc_external_id b = ''cloudops-x'' \<and> acc_id b = acc_id registered_account"
proof -
  let ?d = "snd (create_account sample_aws_settings 2 7 ''dev'' ''210987654321'' (\<lambda>n. (71 + n, ''x'')) 4 9 registered)"
  have "onboarding_step sample_sts sample_aws_settings (registered, []) (?d, [])"
    by (rule onboard_create) (auto simp: registered_def registered_account_def)
  then have step: "(onboarding_step sample_sts sample_aws_settings)\<^sup>*\<^sup>* (registered, []) (?d, [])" by (rule r_into_rtranclp)
  have old: "registered_account \<in> set (aws_accounts registered)" by (simp add: registered_def)
  with create_account_effect [of sample_aws_settings 2 7 "''dev''" "''210987654321''" "\<lambda>n. (71 + n, ''x'')" 4 9 registered]
  have "registered_account \<in> set (aws_accounts ?d)" by auto
  with external_id_never_reissued [OF registered_reserved old step this refl] show ?thesis
    by (intro bexI [of _ registered_account]) (simp_all add: registered_account_def)
qed

theorem abandoned_validation_blocks_witness:
  "begin_validation 3 8 91 (timedelta_days 365)
     (validating\<lparr>memberships := map (\<lambda>m. if m_user_id m = 7 then m\<lparr>m_status := MembershipStatus.SUSPENDED\<rparr> else m) (memberships validating)\<rparr>) =
   raise (ConflictError ''validation_already_running'')
     (validating\<lparr>memberships := map (\<lambda>m. if m_user_id m = 7 then m\<lparr>m_status := MembershipStatus.SUSPENDED\<rparr> else m) (memberships validating)\<rparr>)"
proof -
  let ?d = "validating\<lparr>memberships := map (\<lambda>m. if m_user_id m = 7 then m\<lparr>m_status := MembershipStatus.SUSPENDED\<rparr> else m) (memberships validating)\<rparr>"
  have "validating_account \<in> set (aws_accounts ?d)" "keys_distinct acc_id (aws_accounts ?d)"
    by (simp_all add: validating_eval keys_distinct_def)
  moreover have "require_managed 3 7 AWS_ACCOUNTS_MANAGE ?d = Inl (NotFoundError ''aws_account_not_found'')"
    and "require_managed 3 8 AWS_ACCOUNTS_MANAGE ?d = Inr validating_account"
    by (simp_all add: require_managed_def aws_account_for_user_def validating_eval get_row_def active_membership_def
        validating_account_def registered_account_def registered_def sample_org_def)
  ultimately show ?thesis using abandoned_validation_blocks [OF validating_eval(1)] by blast
qed

theorem deletion_fails_after_remediation_witness:
  "delete_account (\<lambda>i. False) 3 7 50 (registered\<lparr>remediation_requests := [sample_approved]\<rparr>) =
     raise IntegrityError (registered\<lparr>remediation_requests := [sample_approved]\<rparr>)"
proof -
  let ?d = "registered\<lparr>remediation_requests := [sample_approved]\<rparr>"
  have "reserved_ok ?d" using registered_reserved by (simp add: reserved_ok_def)
  moreover have "require_managed 3 7 AWS_ACCOUNTS_MANAGE ?d = Inr registered_account"
    by (simp add: require_managed_def aws_account_for_user_def registered_def registered_account_def get_row_def
      active_membership_def sample_org_def)
  moreover have "rr_aws_account_id sample_approved = 3" by (simp add: sample_approved_def approve_row_def proposal_def sample_finding_def Let_def)
  ultimately show ?thesis using deletion_fails_after_remediation [of ?d 3 7 registered_account "\<lambda>i. False" 50] by simp
qed

theorem credentials_stay_valid_witness:
  "fst (current_credentials sample_sts sample_aws_settings (connection_role sample_aws_settings registered_account) 0 None) =
     Some \<lparr>tc_access_key_id = ''AKIA'', tc_secret_access_key = ''secret'', tc_session_token = ''token'',
       tc_expires_at = timedelta_seconds 900\<rparr>"
proof -
  have "current_credentials sample_sts sample_aws_settings (connection_role sample_aws_settings registered_account) 0 None =
     (Some \<lparr>tc_access_key_id = ''AKIA'', tc_secret_access_key = ''secret'', tc_session_token = ''token'',
       tc_expires_at = timedelta_seconds 900\<rparr>, Inr \<lparr>tc_access_key_id = ''AKIA'', tc_secret_access_key = ''secret'',
       tc_session_token = ''token'', tc_expires_at = timedelta_seconds 900\<rparr>)"
    by (simp add: current_credentials_def assume_and_verify_def connection_role_def sample_sts_def registered_account_def
        sample_aws_settings_def Let_def)
  from credentials_stay_valid [OF this] this show ?thesis by simp
qed

end
