(* ===== verification/Spec2Isabelle.thy ===== *)
theory Spec2Isabelle
  imports Risk_Exposure Compliance AWS_Executor Platform_Jobs Rule_Verdicts Remediation_System Notification_Providers Inventory_Properties Worker_Properties Invitations Onboarding
begin

text \<open>
  CloudOps is a multi-tenant platform that watches AWS accounts: it discovers their resources,
  evaluates security rules on them, keeps the findings, scores their risk, notifies administrators
  and remedies approved findings. This development models the services of its backend,
  \<^verbatim>\<open>apps/api/app\<close>; every path below is relative to that directory.

  \<^bold>\<open>The program.\<close> Requests of users reach a service through FastAPI; work that takes long is
  queued as a row of \<^verbatim>\<open>platform_jobs\<close> and carried out by worker processes; everything is
  kept in one PostgreSQL database. The parts and the way they meet:

  \<^item> A user signs in (\<open>Auth\<close>), belongs to organizations (\<open>Rbac\<close>, \<open>Invitations\<close>) and acts in them
    as far as the capabilities of the role allow; \<open>require_capability\<close> guards every operation.
  \<^item> An organization connects AWS accounts (\<open>Onboarding\<close>, \<open>Accounts\<close>). Schedules and requests
    (\<open>Scheduler\<close>) queue scans: the worker (\<open>Job_Worker\<close>) runs a discovery (\<open>Discovery\<close>,
    \<open>Collectors\<close>), then an evaluation (\<open>Evaluations\<close> with \<open>Security_Rules\<close>), each queueing the next.
  \<^item> An evaluation opens, reopens and resolves findings and creates notifications for
    critical ones (\<open>Notifications\<close>, \<open>Notification_Providers\<close>); on request, findings are scored
    (\<open>Risk_Service\<close> with \<open>Risk_Engine\<close>) and controls of a compliance framework judged (\<open>Compliance\<close>).
  \<^item> A finding may be remedied: proposed, approved, queued, executed by the worker (\<open>Remediation\<close>),
    offline or on AWS (\<open>AWS_Executor\<close>) in accounts that an owner prepared for it (\<open>Remediation_Admin\<close>).

  \<^bold>\<open>Conventions.\<close> The database is the record \<open>db\<close> of \<open>Models\<close>, a list of rows per table. An
  operation takes it as its last argument and returns an \<open>outcome\<close>: the exception that is raised or
  the result, with the database left behind. Where the code commits, flushes or rolls back in
  between, the definition does as well: an exception leaves the last committed state. Writes are
  checked against the constraints, unique indexes and, where it matters, foreign keys of the table;
  a violated one is \<open>IntegrityError\<close>. Readings of the clock, fresh identifiers and random tokens
  are arguments; an identifier is a number, written in decimal where the program writes
  a UUID as text (\<open>Payloads\<close> shows that reading it back gives the same). Functions of libraries are
  arguments under their own names (\<open>sha256\<close>, \<open>redact\<close>, \<open>isoformat\<close>, Argon2, PyJWT, STS, the
  clients of boto3, SMTP, SES), with what is documented of them as hypotheses where a proof needs it.
  The metadata of audit events are left out. Concurrency is the interleaving
  of transactions: a row locked by another worker is an argument (\<open>locked\<close>), and an operation that commits before
  it calls out to another system is two operations with anything in between (\<open>Invitations\<close>, \<open>Onboarding\<close>).
  Names that HOL has already carry another spelling of the same word.

  \<^bold>\<open>Theories.\<close>

  \<^item> \<open>Prelude\<close>: exceptions (\<^verbatim>\<open>exceptions/errors.py\<close>), outcomes, time, rows and strings; the locales
    \<open>row_store\<close> (a table with lookup and update by key) and \<open>transition_system\<close> (steps that keep an invariant;
    its lemmas carry it to the reachable states). \<open>Json\<close>: values of JSON columns with Python's
    operations on them. \<open>Enums\<close>, \<open>Models\<close>: \<^verbatim>\<open>models/\<close>, with every table interpreted as a \<open>row_store\<close>.
  \<^item> \<open>Rbac\<close>: \<^verbatim>\<open>security/rbac.py\<close> and \<^verbatim>\<open>services/organizations.py\<close>; the locale \<open>authorizer\<close> is what the
    other services rely on. An organization always keeps an active owner.
  \<^item> \<open>Auth\<close>: \<^verbatim>\<open>services/auth.py\<close>, \<^verbatim>\<open>security/passwords.py\<close>, \<^verbatim>\<open>security/tokens.py\<close>. The
    service is a refinement of a small machine of refresh sessions, on which the invariants are proved.
    \<open>Invitations\<close>: \<^verbatim>\<open>services/invitations.py\<close>, joined with the former two in one system. The session
    that sends a mail holds its own copy of the invitation between its two transactions
    (\<^verbatim>\<open>expire_on_commit=False\<close> in \<^verbatim>\<open>db/session.py\<close>, a select without \<^verbatim>\<open>populate_existing\<close>), which is part of
    the state: a closed invitation keeps all but the evidence of its delivery, which every late result overwrites.
  \<^item> \<open>Accounts\<close>, \<open>Onboarding\<close>: \<^verbatim>\<open>services/aws_onboarding.py\<close>, \<^verbatim>\<open>services/aws_credentials.py\<close> and the part of
    \<^verbatim>\<open>schemas/aws_account.py\<close> and \<^verbatim>\<open>repositories/data.py\<close> about accounts. A connected account is a verified one.
    The deletion of an account depends on tables outside \<open>db\<close> through an argument, \<open>elsewhere\<close>.
  \<^item> \<open>Platform_Jobs\<close>: \<^verbatim>\<open>services/platform_jobs.py\<close>, the queue: fencing by lease tokens, idempotency,
    bounded retries; the locale \<open>job_queue\<close> is the contract of \<open>enqueue\<close> that its clients use. \<open>Payloads\<close>:
    identifiers in payloads.
  \<^item> \<open>Scheduler\<close>: \<^verbatim>\<open>services/scheduler.py\<close>; a tick queues a scan for every due schedule of its batch. \<open>Job_Worker\<close>, \<open>Worker_Properties\<close>: \<^verbatim>\<open>worker/job_worker.py\<close> with
    all handlers, including what a handler that raises leaves in the session; a call of the worker is the
    handler on the running job, followed by the settlement of that job alone.
  \<^item> \<open>Discovery\<close>, \<open>Discovery_Runs\<close>, \<open>Collectors\<close>, \<open>Demo_Inventory\<close>, \<open>Inventory_Properties\<close>:
    \<^verbatim>\<open>services/discovery.py\<close>, \<^verbatim>\<open>services/demo_inventory.py\<close>, \<^verbatim>\<open>repositories/assets.py\<close>. The locale
    \<open>discovery_collector\<close> is what the orchestrator needs of a collector; it is interpreted for the six
    of AWS and the synthetic one, and a run refines the replacement of the collected resources in an
    abstract inventory, collector by collector: which of them count is tied to what they returned.
  \<^item> \<open>Security_Rules\<close>: the package \<^verbatim>\<open>security_rules/\<close>; \<open>Rule_Verdicts\<close> compares its evaluators with
    declarative readings of what they should find. \<open>Evaluations\<close>: \<^verbatim>\<open>services/evaluations.py\<close>,
    \<^verbatim>\<open>repositories/findings.py\<close>; an evaluation refines an abstract lifecycle of findings or, in
    the cases its property lists, is rolled back.
  \<^item> \<open>Risk_Engine\<close>: \<^verbatim>\<open>risk_engine.py\<close>; \<open>Risk_Service\<close>: \<^verbatim>\<open>services/risk.py\<close>, \<^verbatim>\<open>models/risk.py\<close> and the
    writing endpoints of \<^verbatim>\<open>api/v1/risk.py\<close>; \<open>Risk_Exposure\<close>: discovery and the service together. \<open>Compliance\<close>:
    \<^verbatim>\<open>services/compliance.py\<close>, \<^verbatim>\<open>models/compliance.py\<close> and the writing endpoints of \<^verbatim>\<open>api/v1/compliance.py\<close>. The
    tables of the two services are records of their own around \<open>db\<close>.
  \<^item> \<open>Notifications\<close>, \<open>Notification_Providers\<close>: \<^verbatim>\<open>services/notifications.py\<close>, \<^verbatim>\<open>services/notification_provider.py\<close>.
  \<^item> \<open>AI_Safety\<close>: canonical JSON and sanitizing of \<^verbatim>\<open>services/ai_safety.py\<close>. \<open>Remediation_Actions\<close>,
    \<open>Remediation\<close>, \<open>Remediation_Admin\<close>, \<open>Remediation_System\<close>, \<open>AWS_Executor\<close>: \<^verbatim>\<open>services/remediation.py\<close> and
    its neighbours (\<^verbatim>\<open>remediation_actions\<close>, \<^verbatim>\<open>remediation_executor\<close>, \<^verbatim>\<open>remediation_admin\<close>, \<^verbatim>\<open>aws_remediation_executor\<close>)
    with the handlers of \<^verbatim>\<open>api/v1/remediation.py\<close>. The trigger that makes the snapshot of a request immutable in a
    migrated PostgreSQL database is a switch of the service, \<open>sv_snapshot_trigger\<close>; with it no request is ever
    prepared for live execution, without it (tables created from the models) the rest of the path is as proved. The executor runs against a cloud that may
    change between any two calls.

  \<^bold>\<open>Lemmas.\<close> Each theory has the definitions in the order of its source first. Then come, per operation, what it
  returns and which rows it rewrites; then the invariant of its tables, that every
  operation keeps it, and the \<open>transition_system\<close> of all operations with the interpretation that gives
  the invariant for every reachable state; then the properties, each with a short comment, and a sample
  state on which each is applied. Some properties state what the code does where it falls short of its
  intent: a scan that joins a manual discovery, a late mail result, a removed member who is invited again, a remediation whose
  verification fails, an assessment made while an evaluation runs, and others; their comments say so.

  \<^bold>\<open>Loops and bounds.\<close> Loops over rows, pages, rules and collectors are structural recursion; the
  recursions through nested values and the printing of numbers terminate by a measure. Two loops have no bound in the
  source, the pagination that follows tokens and the search for a free slug: they are partial functions
  whose value \<open>None\<close> means that they do not return, and \<open>Discovery\<close> and \<open>Auth\<close> prove that they
  always return. No definition takes fuel. Python's integers are \<open>int\<close>; no operation of
  the modelled code wraps around.

  \<^bold>\<open>Not modelled.\<close> Read-only listings and summaries and the response schemas; the dashboard, the assistant (\<^verbatim>\<open>services/ai.py\<close>, \<^verbatim>\<open>ai_provider.py\<close>) and
  the Jira integration; routing, configuration, rate limits and headers of the HTTP layer; the
  outer loops, signals, metrics and the heartbeat thread of the worker processes, of which only one
  call of \<open>process_one\<close> and one tick of the scheduler are modelled; database
  migrations (but for the trigger above), the web frontend and the deployment. They hold no state the
  modelled operations depend on, or only call other systems.
\<close>

end
